(* ===== verification/Prelude.thy ===== *)
theory Prelude
  imports Complex_Main "HOL-Library.AList" "HOL-Library.Char_ord" "HOL-Library.List_Lexorder"
begin

text \<open>
  Shared vocabulary of the development: how Python values are represented, the generic
  interfaces (state machines with an invariant, keyed stores), and the lemmas on
  insertion-ordered dictionaries, case folding and integer truncation that the component
  theories use.

  Representation. A Python \<open>float\<close> is a \<open>real\<close> (exact arithmetic: rounding, NaN and
  infinities are outside the model), a Python \<open>int\<close> an \<open>int\<close> (or \<open>nat\<close> where the code
  only counts upwards from zero), a \<open>str\<close> a \<open>string\<close> of ASCII characters. A \<open>datetime\<close>
  and its ISO-8601 rendering are one \<open>instant\<close>, a count of microseconds (the resolution
  of \<open>datetime\<close>; on UTC stamps the rendering orders like the instants it renders). The
  clock, random ids and the results of external services are arguments. A \<open>dict\<close> is an
  association list in insertion order: assignment is \<open>AList.update\<close> (in place, or at the
  end for a new key), \<open>pop\<close> is \<open>AList.delete\<close>, \<open>get\<close> is \<open>map_of\<close>.
\<close>

section \<open>Representation types\<close>

type_synonym pyfloat = real
type_synonym instant = int
type_synonym ('k, 'v) dict = "('k \<times> 'v) list"

definition seconds :: "int \<Rightarrow> int" where
  "seconds s = s * 1000000"

text \<open>\<open>(a - b).total_seconds()\<close> of two instants.\<close>

definition total_seconds :: "instant \<Rightarrow> pyfloat" where
  "total_seconds d = real_of_int d / 1000000"

lemma total_seconds_mono: "a \<le> b \<Longrightarrow> total_seconds a \<le> total_seconds b"
  by (simp add: total_seconds_def divide_right_mono)

lemma total_seconds_seconds [simp]: "total_seconds (seconds s) = real_of_int s"
  by (simp add: total_seconds_def seconds_def)

named_theorems dict_simps

section \<open>Dictionaries in insertion order\<close>

definition dict_get :: "('k, 'v) dict \<Rightarrow> 'k \<Rightarrow> 'v \<Rightarrow> 'v" where
  "dict_get d k dflt = (case map_of d k of None \<Rightarrow> dflt | Some v \<Rightarrow> v)"

abbreviation dict_keys :: "('k, 'v) dict \<Rightarrow> 'k list" where
  "dict_keys d \<equiv> map fst d"

abbreviation dict_ok :: "('k, 'v) dict \<Rightarrow> bool" where
  "dict_ok d \<equiv> distinct (map fst d)"

lemma dict_lookup_update [simp, dict_simps]:
  "map_of (AList.update k v d) k' = (if k' = k then Some v else map_of d k')"
  by (simp add: update_conv')

lemma dict_lookup_delete [simp, dict_simps]:
  "map_of (AList.delete k d) k' = (if k' = k then None else map_of d k')"
  by (simp add: delete_conv')

lemma dict_get_update [simp, dict_simps]:
  "dict_get (AList.update k v d) k' x = (if k' = k then v else dict_get d k' x)"
  by (simp add: dict_get_def)

lemma dict_get_delete [simp, dict_simps]:
  "dict_get (AList.delete k d) k' x = (if k' = k then x else dict_get d k' x)"
  by (simp add: dict_get_def)

lemma dict_get_Nil [simp]: "dict_get [] k x = x"
  by (simp add: dict_get_def)

lemma dict_ok_update [simp, intro]: "dict_ok d \<Longrightarrow> dict_ok (AList.update k v d)"
  by (rule distinct_update)

lemma dict_ok_delete [simp, intro]: "dict_ok d \<Longrightarrow> dict_ok (AList.delete k d)"
  by (rule distinct_delete)

text \<open>The sum of the values of a dictionary, split at one key.\<close>

lemma sum_list_delete:
  fixes d :: "('k, real) dict"
  assumes "dict_ok d"
  shows "sum_list (map snd (AList.delete k d)) = sum_list (map snd d) - dict_get d k 0"
  using assms
proof (induction d)
  case Nil
  then show ?case by simp
next
  case (Cons p d)
  obtain a b where p: "p = (a, b)" by (cases p)
  show ?case
  proof (cases "a = k")
    case True
    with Cons.prems p have "k \<notin> fst ` set d" by simp
    then have "AList.delete k d = d" by (rule delete_id)
    with True p show ?thesis by (simp add: dict_get_def)
  next
    case False
    with Cons p show ?thesis by (simp add: dict_get_def)
  qed
qed

lemma sum_list_update:
  fixes d :: "('k, real) dict"
  assumes "dict_ok d"
  shows "sum_list (map snd (AList.update k v d)) = sum_list (map snd d) - dict_get d k 0 + v"
  using assms
proof (induction d)
  case Nil
  then show ?case by simp
next
  case (Cons p d)
  obtain a b where p: "p = (a, b)" by (cases p)
  with Cons show ?case by (cases "a = k") (auto simp: dict_get_def)
qed

section \<open>Case folding\<close>

text \<open>\<open>str.upper()\<close> and \<open>str.lower()\<close> on ASCII text.\<close>

definition chr_upper :: "char \<Rightarrow> char" where
  "chr_upper c = (if CHR ''a'' \<le> c \<and> c \<le> CHR ''z'' then char_of (of_char c - 32 :: nat) else c)"

definition chr_lower :: "char \<Rightarrow> char" where
  "chr_lower c = (if CHR ''A'' \<le> c \<and> c \<le> CHR ''Z'' then char_of (of_char c + 32 :: nat) else c)"

definition str_upper :: "string \<Rightarrow> string" where
  "str_upper s = map chr_upper s"

definition str_lower :: "string \<Rightarrow> string" where
  "str_lower s = map chr_lower s"

lemma chr_upper_idem [simp]: "chr_upper (chr_upper c) = chr_upper c"
proof (cases "CHR ''a'' \<le> c \<and> c \<le> CHR ''z''")
  case True
  then have "97 \<le> (of_char c :: nat)" "(of_char c :: nat) \<le> 122"
    by (auto simp: less_eq_char_def)
  then have "\<not> 97 \<le> (of_char c :: nat) - 32" by linarith
  then show ?thesis
    using \<open>97 \<le> (of_char c :: nat)\<close> by (simp add: chr_upper_def less_eq_char_def)
next
  case False
  then show ?thesis by (auto simp: chr_upper_def)
qed

lemma chr_lower_idem [simp]: "chr_lower (chr_lower c) = chr_lower c"
proof (cases "CHR ''A'' \<le> c \<and> c \<le> CHR ''Z''")
  case True
  then have "65 \<le> (of_char c :: nat)" "(of_char c :: nat) \<le> 90"
    by (auto simp: less_eq_char_def)
  then show ?thesis
    by (simp add: chr_lower_def less_eq_char_def)
next
  case False
  then show ?thesis by (auto simp: chr_lower_def)
qed

lemma str_upper_idem [simp]: "str_upper (str_upper s) = str_upper s"
  by (simp add: str_upper_def)

lemma str_lower_idem [simp]: "str_lower (str_lower s) = str_lower s"
  by (simp add: str_lower_def)

lemma str_upper_append [simp]: "str_upper (s @ t) = str_upper s @ str_upper t"
  by (simp add: str_upper_def)

section \<open>Decimal rendering\<close>

text \<open>\<open>str(n)\<close> of a natural number.\<close>

fun str_of_nat :: "nat \<Rightarrow> string" where
  "str_of_nat n =
     (if n < 10 then [char_of (48 + n)] else str_of_nat (n div 10) @ [char_of (48 + n mod 10)])"

declare str_of_nat.simps [simp del]

definition str_of_int :: "int \<Rightarrow> string" where
  "str_of_int i = (if i < 0 then ''-'' @ str_of_nat (nat (- i)) else str_of_nat (nat i))"

text \<open>\<open>sep.join(parts)\<close>.\<close>

fun str_join :: "string \<Rightarrow> string list \<Rightarrow> string" where
  "str_join sep [] = []"
| "str_join sep [s] = s"
| "str_join sep (s # t # ts) = s @ sep @ str_join sep (t # ts)"

section \<open>Truthiness and integer truncation\<close>

text \<open>\<open>x or default\<close> on strings: the empty string counts as absent.\<close>

definition or_default :: "string \<Rightarrow> string \<Rightarrow> string" where
  "or_default s d = (if s = [] then d else s)"

definition truthy :: "string option \<Rightarrow> bool" where
  "truthy s = (case s of None \<Rightarrow> False | Some t \<Rightarrow> t \<noteq> [])"

lemma truthy_simps [simp]: "truthy None = False" "truthy (Some t) = (t \<noteq> [])"
  by (simp_all add: truthy_def)

text \<open>\<open>d.get(key) or default\<close> for numbers and strings.\<close>

definition or_num :: "'a :: zero option \<Rightarrow> 'a \<Rightarrow> 'a" where
  "or_num x dflt = (case x of None \<Rightarrow> dflt | Some v \<Rightarrow> if v = 0 then dflt else v)"

definition or_str :: "string option \<Rightarrow> string \<Rightarrow> string" where
  "or_str x dflt = (case x of None \<Rightarrow> dflt | Some v \<Rightarrow> or_default v dflt)"

text \<open>\<open>int(x)\<close> truncates towards zero.\<close>

definition py_int :: "pyfloat \<Rightarrow> int" where
  "py_int x = (if 0 \<le> x then \<lfloor>x\<rfloor> else \<lceil>x\<rceil>)"

lemma py_int_le: "0 \<le> x \<Longrightarrow> real_of_int (py_int x) \<le> x"
  by (simp add: py_int_def)

lemma py_int_of_int [simp]: "py_int (real_of_int i) = i"
  by (simp add: py_int_def)

lemma py_int_nonneg: "0 \<le> x \<Longrightarrow> 0 \<le> py_int x"
  by (simp add: py_int_def)

lemma py_int_pos_iff: "0 < py_int x \<longleftrightarrow> 1 \<le> x"
  by (auto simp: py_int_def not_le less_ceiling_iff)

section \<open>Bounded deques\<close>

text \<open>\<open>deque(maxlen=n).append(x)\<close>: at the bound the oldest element leaves.\<close>

definition deque_append :: "nat \<Rightarrow> 'a list \<Rightarrow> 'a \<Rightarrow> 'a list" where
  "deque_append n xs x = drop (length xs + 1 - n) (xs @ [x])"

text \<open>The last elements of a list; a bounded deque holds them.\<close>

definition last_n :: "nat \<Rightarrow> 'a list \<Rightarrow> 'a list" where
  "last_n n xs = drop (length xs - n) xs"

lemma deque_append_last_n: "deque_append n (last_n n xs) x = last_n n (xs @ [x])"
proof (cases "length xs \<le> n")
  case False
  then show ?thesis by (cases n) (simp_all add: deque_append_def last_n_def Suc_diff_Suc)
qed (simp add: deque_append_def last_n_def)

lemma last_n_eq_Nil: "0 < n \<Longrightarrow> last_n n xs = [] \<longleftrightarrow> xs = []"
  by (cases xs) (auto simp: last_n_def)

lemma length_last_n: "length (last_n n xs) = min n (length xs)"
  by (simp add: last_n_def)

lemma set_last_n: "set (last_n n xs) \<subseteq> set xs"
  by (simp add: last_n_def set_drop_subset)

section \<open>State machines with an invariant\<close>

text \<open>
  The contract several components share: operations as steps of a machine, and an
  invariant every step keeps. What holds of one step then holds after any sequence of
  operations; the component theories interpret this locale on their own operations.
\<close>

locale invariant_machine =
  fixes step :: "'s \<Rightarrow> 'e \<Rightarrow> 's"
    and inv :: "'s \<Rightarrow> bool"
  assumes inv_step: "inv s \<Longrightarrow> inv (step s e)"
begin

lemma inv_run: "inv s \<Longrightarrow> inv (foldl step s es)"
  by (induction es arbitrary: s) (auto intro: inv_step)

lemma inv_every_prefix: "inv s \<Longrightarrow> inv (foldl step s (take n es))"
  by (rule inv_run)

end

text \<open>A machine that never loses a fact once it holds: a latch.\<close>

locale latched_machine = invariant_machine step inv
  for step :: "'s \<Rightarrow> 'e \<Rightarrow> 's" and inv :: "'s \<Rightarrow> bool" +
  fixes latch :: "'s \<Rightarrow> bool"
  assumes latch_step: "inv s \<Longrightarrow> latch s \<Longrightarrow> latch (step s e)"
begin

lemma latch_run: "inv s \<Longrightarrow> latch s \<Longrightarrow> latch (foldl step s es)"
  by (induction es arbitrary: s) (auto intro: inv_step latch_step)

lemma latch_append:
  assumes "inv s" and "latch (foldl step s es)"
  shows "latch (foldl step s (es @ es'))"
  using latch_run [OF inv_run [OF assms(1), of es] assms(2)] by simp

end

text \<open>A fact kept by the events of a class only.\<close>

locale guarded_latch = invariant_machine step inv
  for step :: "'s \<Rightarrow> 'e \<Rightarrow> 's" and inv :: "'s \<Rightarrow> bool" +
  fixes latch :: "'s \<Rightarrow> bool"
    and allowed :: "'e \<Rightarrow> bool"
  assumes latch_step: "inv s \<Longrightarrow> latch s \<Longrightarrow> allowed e \<Longrightarrow> latch (step s e)"
begin

lemma latch_run: "inv s \<Longrightarrow> latch s \<Longrightarrow> list_all allowed es \<Longrightarrow> latch (foldl step s es)"
  by (induction es arbitrary: s) (auto intro: inv_step latch_step)

end

end
