(* ===== verification/Models.thy ===== *)
theory Models
  imports Prelude
begin

text \<open>
  The domain model shared by every pipeline stage (\<open>src/models.py\<close>), the symbol helpers
  of \<open>src/ingestor/assets.py\<close> and the per-leg attribution of
  \<open>src/engine/leg_performance.py\<close>. The lemmas show that the position-symbol form is
  canonical (every spelling of a crypto pair reaches it) and that attribution conserves
  money.
\<close>

section \<open>Domain records\<close>

datatype side = BUY | SELL

fun side_value :: "side \<Rightarrow> string" where
  "side_value BUY = ''buy''"
| "side_value SELL = ''sell''"

datatype signal_action = LONG | SHORT | EXIT | HOLD

definition is_entry_action :: "signal_action \<Rightarrow> bool" where
  "is_entry_action a = (a \<in> {LONG, SHORT})"

record signal =
  sig_symbol :: string
  sig_action :: signal_action
  sig_price :: pyfloat
  sig_timestamp :: instant
  sig_strategy_id :: string

record order =
  ord_symbol :: string
  ord_side :: side
  ord_qty :: pyfloat
  ord_order_type :: string
  ord_stop_price :: "pyfloat option"
  ord_strategy_id :: string
  ord_client_order_id :: "string option"

record order_result =
  res_symbol :: string
  res_side :: side
  res_qty :: pyfloat
  res_filled_price :: pyfloat
  res_filled_at :: instant
  res_order_id :: "string option"
  res_status :: string

record position =
  pos_symbol :: string
  pos_qty :: pyfloat
  pos_side :: string
  pos_avg_entry_price :: pyfloat
  pos_unrealized_pl :: pyfloat

record account =
  acct_equity :: pyfloat
  acct_cash :: pyfloat
  acct_buying_power :: pyfloat

section \<open>Symbols\<close>

text \<open>The bar length of a timeframe, \<open>src/ingestor/alpaca.py\<close>.\<close>

definition TIMEFRAME_MINUTES :: "(string, int) dict" where
  "TIMEFRAME_MINUTES = [(''1Min'', 1), (''15Min'', 15), (''1Hour'', 60), (''4Hour'', 240), (''1Day'', 1440)]"

definition infer_asset_class :: "string \<Rightarrow> string" where
  "infer_asset_class symbol =
     (if CHR ''/'' \<in> set symbol then ''crypto''
      else if str_upper symbol \<in> {''BTCUSD'', ''ETHUSD'', ''BTC'', ''ETH''} then ''crypto''
      else ''stock'')"

definition ends_with :: "string \<Rightarrow> string \<Rightarrow> bool" where
  "ends_with s suffix = (length suffix \<le> length s \<and> drop (length s - length suffix) s = suffix)"

definition crypto_data_symbol :: "string \<Rightarrow> string" where
  "crypto_data_symbol symbol =
     (if CHR ''/'' \<in> set symbol then symbol
      else
        let upper = str_upper symbol
        in if ends_with upper ''USD'' \<and> 3 < length upper
           then take (length upper - 3) upper @ ''/USD''
           else symbol)"

definition crypto_order_symbol :: "string \<Rightarrow> string" where
  "crypto_order_symbol symbol = crypto_data_symbol symbol"

definition crypto_position_symbol :: "string \<Rightarrow> string" where
  "crypto_position_symbol symbol = filter (\<lambda>c. c \<noteq> CHR ''/'') (str_upper symbol)"

lemma chr_upper_slash [simp]: "chr_upper c = CHR ''/'' \<longleftrightarrow> c = CHR ''/''"
proof (cases "CHR ''a'' \<le> c \<and> c \<le> CHR ''z''")
  case True
  then have "97 \<le> (of_char c :: nat)" "(of_char c :: nat) \<le> 122"
    by (auto simp: less_eq_char_def)
  moreover then have "(of_char c :: nat) - 32 \<noteq> 47" "(of_char c :: nat) \<noteq> 47" by auto
  then have "of_char (chr_upper c) \<noteq> (of_char (CHR ''/'') :: nat)"
      "(of_char c :: nat) \<noteq> of_char (CHR ''/'')"
    using True by (auto simp: chr_upper_def less_eq_char_def)
  then show ?thesis by auto
next
  case False
  then show ?thesis by (auto simp: chr_upper_def)
qed

lemma slash_in_upper [simp]: "CHR ''/'' \<in> set (str_upper s) \<longleftrightarrow> CHR ''/'' \<in> set s"
  by (simp add: str_upper_def image_iff eq_commute [of "CHR ''/''"] Bex_def)

lemma crypto_position_symbol_idem [simp]:
  "crypto_position_symbol (crypto_position_symbol s) = crypto_position_symbol s"
  by (simp add: crypto_position_symbol_def str_upper_def filter_map comp_def)

lemma crypto_position_symbol_upper [simp]:
  "crypto_position_symbol (str_upper s) = crypto_position_symbol s"
  by (simp add: crypto_position_symbol_def)

lemma position_of_data_symbol:
  "crypto_position_symbol (crypto_data_symbol s) = crypto_position_symbol s"
proof -
  let ?u = "str_upper s"
  have split: "ends_with ?u ''USD'' \<Longrightarrow> take (length ?u - 3) ?u @ ''USD'' = ?u"
    by (metis append_take_drop_id ends_with_def length_Cons list.size(3) numeral_3_eq_3)
  have usd: "str_upper ''/USD'' = ''/USD''" by code_simp
  have up: "str_upper (take n ?u) = take n ?u" for n
    by (simp add: str_upper_def take_map)
  show ?thesis
  proof (cases "CHR ''/'' \<notin> set s \<and> ends_with ?u ''USD'' \<and> 3 < length ?u")
    case True
    then have "crypto_position_symbol (crypto_data_symbol s)
        = filter (\<lambda>c. c \<noteq> CHR ''/'') (take (length ?u - 3) ?u @ ''USD'')"
      by (simp add: crypto_data_symbol_def crypto_position_symbol_def Let_def usd up)
    with True show ?thesis by (simp add: split crypto_position_symbol_def)
  next
    case False
    then show ?thesis by (auto simp: crypto_data_symbol_def Let_def)
  qed
qed

section \<open>Per-leg attribution\<close>

fun match_position :: "string \<Rightarrow> position list \<Rightarrow> position option" where
  "match_position symbol [] = None"
| "match_position symbol (pos # rest) =
     (if crypto_position_symbol (pos_symbol pos) = crypto_position_symbol symbol then Some pos
      else match_position symbol rest)"

lemma match_position_find:
  "match_position symbol ps =
     List.find (\<lambda>p. crypto_position_symbol (pos_symbol p) = crypto_position_symbol symbol) ps"
  by (induction ps) auto

lemma match_position_Some:
  assumes "match_position symbol ps = Some p"
  shows "p \<in> set ps" and "crypto_position_symbol (pos_symbol p) = crypto_position_symbol symbol"
  using assms by (auto simp: match_position_find find_Some_iff)

record leg_attribution =
  la_realized_pnl :: pyfloat
  la_unrealized_pnl :: pyfloat
  la_unattributed_residual :: pyfloat
  la_position_qty :: pyfloat
  la_provenance :: string

definition attribute_leg ::
  "pyfloat \<Rightarrow> string \<Rightarrow> position list \<Rightarrow> bool \<Rightarrow> leg_attribution" where
  "attribute_leg realized_pnl symbol positions symbol_uniquely_owned =
     (case match_position symbol positions of
        None \<Rightarrow>
          \<lparr>la_realized_pnl = realized_pnl, la_unrealized_pnl = 0, la_unattributed_residual = 0,
           la_position_qty = 0, la_provenance = ''LEDGER_REALIZED+NO_POSITION''\<rparr>
      | Some pos \<Rightarrow>
          if symbol_uniquely_owned then
            \<lparr>la_realized_pnl = realized_pnl, la_unrealized_pnl = pos_unrealized_pl pos,
             la_unattributed_residual = 0, la_position_qty = pos_qty pos,
             la_provenance = ''LEDGER_REALIZED+BROKER_UNREALIZED''\<rparr>
          else
            \<lparr>la_realized_pnl = realized_pnl, la_unrealized_pnl = 0,
             la_unattributed_residual = pos_unrealized_pl pos, la_position_qty = 0,
             la_provenance = ''LEDGER_REALIZED+AMBIGUOUS_RESIDUAL''\<rparr>)"

definition leg_money :: "leg_attribution \<Rightarrow> pyfloat" where
  "leg_money a = la_realized_pnl a + la_unrealized_pnl a + la_unattributed_residual a"

lemma attribute_leg_conserves:
  "leg_money (attribute_leg r symbol ps u)
     = r + (case match_position symbol ps of None \<Rightarrow> 0 | Some p \<Rightarrow> pos_unrealized_pl p)"
  by (simp add: leg_money_def attribute_leg_def split: option.split)

end
