(* ===== verification/Alert_Channel.thy ===== *)
theory Alert_Channel
  imports Prelude
begin

text \<open>
  The two guards in front of the push channel: the throttle with exponential backoff
  (\<open>src/alerts/throttle.py\<close>) and the shared outbound cap with its reserved priority lane
  (\<open>src/alerts/outbound_cap.py\<close>). A notifier is modelled by its state and the list of
  alerts it hands on; the clock is an argument. The locale \<open>paging_channel\<close> is what a
  component that pages relies on; the throttle is interpreted as one.
\<close>

section \<open>Alerts and the interface a paging component relies on\<close>

record alert =
  al_kind :: string
  al_severity :: string
  al_message :: string
  al_component :: string
  al_recovered :: bool

definition alert_key :: "alert \<Rightarrow> string \<times> string" where
  "alert_key a = (al_component a, al_kind a)"

locale paging_channel =
  fixes notify :: "'a \<Rightarrow> instant \<Rightarrow> 'n \<Rightarrow> 'n \<times> 'a list"
    and resolve :: "string \<Rightarrow> string \<Rightarrow> 'n \<Rightarrow> 'n \<times> 'a list"
    and key :: "'a \<Rightarrow> string \<times> string"
    and firing :: "'n \<Rightarrow> string \<times> string \<Rightarrow> bool"
  assumes first_page: "\<not> firing n (key a) \<Longrightarrow> snd (notify a t n) = [a]"
    and notify_firing: "firing (fst (notify a t n)) k \<longleftrightarrow> k = key a \<or> firing n k"
    and resolve_firing: "firing (fst (resolve c kd n)) k \<longleftrightarrow> k \<noteq> (c, kd) \<and> firing n k"
    and resolve_silent: "\<not> firing n (c, kd) \<Longrightarrow> resolve c kd n = (n, [])"
    and resolve_once: "firing n (c, kd) \<Longrightarrow> length (snd (resolve c kd n)) = 1"
begin

text \<open>A resolved condition pages again at once when it comes back.\<close>

lemma page_after_resolve:
  "key a = (c, kd) \<Longrightarrow> snd (notify a t (fst (resolve c kd n))) = [a]"
  by (rule first_page) (simp add: resolve_firing)

lemma second_resolve_silent:
  "snd (resolve c kd (fst (resolve c kd n))) = []"
  by (simp add: resolve_silent resolve_firing)

lemma resolve_at_most_once: "length (snd (resolve c kd n)) \<le> 1"
  by (cases "firing n (c, kd)") (simp_all add: resolve_once resolve_silent)

end

section \<open>The throttle\<close>

record throttle_entry =
  last_sent :: instant
  sends :: nat

type_synonym throttle = "(string \<times> string, throttle_entry) dict"

definition BACKOFF_SCHEDULE_S :: "pyfloat list" where
  "BACKOFF_SCHEDULE_S = [300, 900, 3600]"

definition required_wait :: "nat \<Rightarrow> pyfloat" where
  "required_wait n = BACKOFF_SCHEDULE_S ! min (n - 1) (length BACKOFF_SCHEDULE_S - 1)"

definition throttle_notify :: "alert \<Rightarrow> instant \<Rightarrow> throttle \<Rightarrow> throttle \<times> alert list" where
  "throttle_notify a now st =
     (case map_of st (alert_key a) of
        None \<Rightarrow> (AList.update (alert_key a) \<lparr>last_sent = now, sends = 1\<rparr> st, [a])
      | Some e \<Rightarrow>
          if required_wait (sends e) \<le> total_seconds (now - last_sent e)
          then (AList.update (alert_key a) \<lparr>last_sent = now, sends = sends e + 1\<rparr> st, [a])
          else (st, []))"

definition recovered_alert :: "string \<Rightarrow> string \<Rightarrow> alert" where
  "recovered_alert component kind =
     \<lparr>al_kind = kind, al_severity = ''info'',
      al_message = component @ '' '' @ kind @ '' RECOVERED'',
      al_component = component, al_recovered = True\<rparr>"

definition throttle_resolve :: "string \<Rightarrow> string \<Rightarrow> throttle \<Rightarrow> throttle \<times> alert list" where
  "throttle_resolve component kind st =
     (if map_of st (component, kind) = None then (st, [])
      else (AList.delete (component, kind) st, [recovered_alert component kind]))"

interpretation throttle: paging_channel throttle_notify throttle_resolve alert_key
    "\<lambda>st k. map_of st k \<noteq> None"
  by unfold_locales
     (auto simp: throttle_notify_def throttle_resolve_def split: option.splits if_splits)

text \<open>Operations on one throttle, and the instants at which one key pages.\<close>

datatype throttle_op = Notify alert instant | Resolve string string

fun throttle_step :: "throttle \<Rightarrow> throttle_op \<Rightarrow> throttle" where
  "throttle_step st (Notify a now) = fst (throttle_notify a now st)"
| "throttle_step st (Resolve c kd) = fst (throttle_resolve c kd st)"

fun page_times :: "string \<times> string \<Rightarrow> throttle \<Rightarrow> throttle_op list \<Rightarrow> instant list" where
  "page_times k st [] = []"
| "page_times k st (Notify a now # ops) =
     (if alert_key a = k \<and> snd (throttle_notify a now st) \<noteq> [] then [now] else [])
     @ page_times k (fst (throttle_notify a now st)) ops"
| "page_times k st (Resolve c kd # ops) = page_times k (fst (throttle_resolve c kd st)) ops"

text \<open>The spacing the backoff promises, after \<open>n\<close> sends the last of which was at \<open>prev\<close>.\<close>

fun spaced :: "nat \<Rightarrow> instant \<Rightarrow> instant list \<Rightarrow> bool" where
  "spaced n prev [] = True"
| "spaced n prev (t # ts) =
     (required_wait n \<le> total_seconds (t - prev) \<and> spaced (Suc n) t ts)"

lemma page_times_spaced:
  assumes "map_of st k = Some \<lparr>last_sent = prev, sends = n\<rparr>"
    and "list_all (\<lambda>op. op \<noteq> Resolve (fst k) (snd k)) ops"
  shows "spaced n prev (page_times k st ops)"
  using assms
proof (induction k st ops arbitrary: n prev rule: page_times.induct)
  case (2 k st a now ops)
  then show ?case
    by (cases "alert_key a = k")
       (auto simp: throttle_notify_def split: option.splits if_splits)
next
  case (3 k st c kd ops)
  then show ?case
    by (cases k) (auto simp: throttle_resolve_def)
qed simp

lemma fresh_page_times:
  assumes "map_of st k = None" and "list_all (\<lambda>op. op \<noteq> Resolve (fst k) (snd k)) ops"
  shows "case page_times k st ops of [] \<Rightarrow> True | t # ts \<Rightarrow> spaced 1 t ts"
  using assms
proof (induction k st ops rule: page_times.induct)
  case (2 k st a now ops)
  show ?case
  proof (cases "alert_key a = k")
    case True
    with 2 page_times_spaced [of "fst (throttle_notify a now st)" k now 1 ops]
    show ?thesis by (simp add: throttle_notify_def)
  next
    case False
    with 2 show ?thesis by (auto simp: throttle_notify_def split: option.splits if_splits)
  qed
next
  case (3 k st c kd ops)
  then show ?case by (cases k) (auto simp: throttle_resolve_def)
qed simp

lemma required_wait_simps [simp]:
  "required_wait 1 = 300" "required_wait 2 = 900" "3 \<le> n \<Longrightarrow> required_wait n = 3600"
  by (simp_all add: required_wait_def BACKOFF_SCHEDULE_S_def min_def)

lemma total_seconds_diff: "total_seconds (c - a) = total_seconds (c - b) + total_seconds (b - a)"
  by (simp add: total_seconds_def field_simps)

lemma spaced_hourly:
  "spaced n prev ts \<Longrightarrow> 3 \<le> n \<Longrightarrow> ts \<noteq> [] \<Longrightarrow> 3600 * real (length ts) \<le> total_seconds (last ts - prev)"
proof (induction n prev ts rule: spaced.induct)
  case (2 n prev t ts)
  then show ?case
    using total_seconds_diff [of "last ts" prev t] by (cases ts) (auto simp: field_simps)
qed simp

section \<open>The outbound cap\<close>

datatype lane = Priority | Routine

record send_row =
  sent_utc :: instant
  send_kind :: string
  send_lane :: lane

record outbound_cap =
  max_routine_per_hour :: nat
  max_routine_per_day :: nat
  priority_per_hour :: nat
  backoff_s :: pyfloat
  channel_sends :: "send_row list"
  incidents_429 :: "instant list"

definition default_cap :: outbound_cap where
  "default_cap =
     \<lparr>max_routine_per_hour = 8, max_routine_per_day = 50, priority_per_hour = 4,
      backoff_s = 3600, channel_sends = [], incidents_429 = []\<rparr>"

definition is_priority :: "string \<Rightarrow> string \<Rightarrow> bool" where
  "is_priority kind severity =
     (kind \<in> {''daily_liveness''} \<or> str_lower severity \<in> {''urgent'', ''critical'', ''high''})"

definition count_since :: "send_row list \<Rightarrow> instant \<Rightarrow> lane \<Rightarrow> nat" where
  "count_since rows since l = length (filter (\<lambda>r. since \<le> sent_utc r \<and> send_lane r = l) rows)"

definition hour :: int where "hour = seconds 3600"
definition day :: int where "day = seconds 86400"

text \<open>\<open>allow\<close>; \<open>db_ok\<close> is whether the shared database answers (any error fails open).\<close>

definition allow ::
  "bool \<Rightarrow> instant \<Rightarrow> string \<Rightarrow> string \<Rightarrow> outbound_cap \<Rightarrow> (bool \<times> string) \<times> outbound_cap" where
  "allow db_ok now kind severity c =
     (if \<not> db_ok then ((True, ''cap_error_fail_open''), c)
      else
        let priority = is_priority kind severity;
            rows = channel_sends c;
            in_backoff = (incidents_429 c \<noteq> [] \<and> \<not> priority
              \<and> total_seconds (now - Max (set (incidents_429 c))) < backoff_s c);
            l = (if priority then Priority else Routine);
            row = \<lparr>sent_utc = now, send_kind = kind, send_lane = l\<rparr>;
            record_it = ((True, if priority then ''priority'' else ''routine''),
                         c\<lparr>channel_sends := rows @ [row]\<rparr>)
        in if in_backoff then ((False, ''channel_backoff_after_429''), c)
           else if priority then
             (if priority_per_hour c \<le> count_since rows (now - hour) Priority
              then ((False, ''priority_hourly_cap''), c) else record_it)
           else if max_routine_per_hour c \<le> count_since rows (now - hour) Routine
           then ((False, ''routine_hourly_cap''), c)
           else if max_routine_per_day c \<le> count_since rows (now - day) Routine
           then ((False, ''routine_daily_cap''), c)
           else record_it)"

definition note_429 :: "bool \<Rightarrow> instant \<Rightarrow> outbound_cap \<Rightarrow> outbound_cap" where
  "note_429 db_ok now c = (if db_ok then c\<lparr>incidents_429 := incidents_429 c @ [now]\<rparr> else c)"

record cap_stats =
  sends_last_hour :: nat
  sends_today :: nat
  last_429_at :: "instant option"

definition stats :: "instant \<Rightarrow> outbound_cap \<Rightarrow> cap_stats" where
  "stats now c =
     \<lparr>sends_last_hour = length (filter (\<lambda>r. now - hour \<le> sent_utc r) (channel_sends c)),
      sends_today = length (filter (\<lambda>r. now - day \<le> sent_utc r) (channel_sends c)),
      last_429_at = (if incidents_429 c = [] then None else Some (Max (set (incidents_429 c))))\<rparr>"

datatype cap_op = Allow bool instant string string | Note_429 bool instant

fun cap_step :: "outbound_cap \<Rightarrow> cap_op \<Rightarrow> outbound_cap" where
  "cap_step c (Allow ok now kind sev) = snd (allow ok now kind sev c)"
| "cap_step c (Note_429 ok now) = note_429 ok now c"

text \<open>
  Each recorded send was within its lane's limits when it was recorded: a property of every
  prefix of the send table.
\<close>

definition window :: "send_row list \<Rightarrow> lane \<Rightarrow> int \<Rightarrow> instant \<Rightarrow> nat" where
  "window rows l width t =
     length (filter (\<lambda>r. t - width \<le> sent_utc r \<and> sent_utc r \<le> t \<and> send_lane r = l) rows)"

definition within_limit :: "send_row list \<Rightarrow> lane \<Rightarrow> int \<Rightarrow> nat \<Rightarrow> bool" where
  "within_limit rows l width limit = (\<forall>t. window rows l width t \<le> limit)"

lemma length_filter_imp:
  "(\<And>x. x \<in> set xs \<Longrightarrow> P x \<Longrightarrow> Q x) \<Longrightarrow> length (filter P xs) \<le> length (filter Q xs)"
  by (induction xs) (auto simp: le_SucI)

lemma window_snoc_le:
  assumes "within_limit rows l width limit"
    and "send_lane r = l \<Longrightarrow> count_since rows (sent_utc r - width) l < limit"
  shows "within_limit (rows @ [r]) l width limit"
  unfolding within_limit_def
proof
  fix t
  show "window (rows @ [r]) l width t \<le> limit"
  proof (cases "t - width \<le> sent_utc r \<and> sent_utc r \<le> t \<and> send_lane r = l")
    case True
    have "window rows l width t \<le> count_since rows (sent_utc r - width) l"
      unfolding window_def count_since_def using True
      by (intro length_filter_imp) auto
    with True assms(2) show ?thesis by (simp add: window_def)
  next
    case False
    with assms(1) show ?thesis by (auto simp: window_def within_limit_def)
  qed
qed

definition cap_ok :: "outbound_cap \<Rightarrow> bool" where
  "cap_ok c =
     (within_limit (channel_sends c) Routine hour (max_routine_per_hour c)
      \<and> within_limit (channel_sends c) Routine day (max_routine_per_day c)
      \<and> within_limit (channel_sends c) Priority hour (priority_per_hour c))"

lemma cap_ok_step: "cap_ok c \<Longrightarrow> cap_ok (cap_step c op)"
proof (cases op)
  case (Allow ok now kind sev)
  assume "cap_ok c"
  with Allow show ?thesis
    by (auto simp: cap_ok_def allow_def Let_def intro!: window_snoc_le)
next
  case (Note_429 ok now)
  assume "cap_ok c"
  with Note_429 show ?thesis by (simp add: cap_ok_def note_429_def)
qed

interpretation cap: invariant_machine cap_step cap_ok
  by unfold_locales (rule cap_ok_step)

lemma limits_kept [simp]:
  "max_routine_per_hour (cap_step c op) = max_routine_per_hour c"
  "max_routine_per_day (cap_step c op) = max_routine_per_day c"
  "priority_per_hour (cap_step c op) = priority_per_hour c"
  "backoff_s (cap_step c op) = backoff_s c"
  by (cases op; auto simp: allow_def note_429_def Let_def)+

lemma limits_kept_run [simp]:
  "max_routine_per_hour (foldl cap_step c ops) = max_routine_per_hour c"
  "max_routine_per_day (foldl cap_step c ops) = max_routine_per_day c"
  "priority_per_hour (foldl cap_step c ops) = priority_per_hour c"
  by (induction ops arbitrary: c) simp_all

lemma count_since_lane:
  assumes "filter (\<lambda>r. send_lane r = l) rows = filter (\<lambda>r. send_lane r = l) rows'"
  shows "count_since rows since l = count_since rows' since l"
proof -
  have "count_since xs since l
      = length (filter (\<lambda>r. since \<le> sent_utc r) (filter (\<lambda>r. send_lane r = l) xs))" for xs
    by (simp add: count_since_def conj_commute)
  then show ?thesis by (simp only: assms)
qed

lemma priority_decision_lane:
  assumes "is_priority kind sev"
    and "filter (\<lambda>r. send_lane r = Priority) (channel_sends c)
         = filter (\<lambda>r. send_lane r = Priority) (channel_sends c')"
    and "priority_per_hour c = priority_per_hour c'"
  shows "fst (allow ok now kind sev c) = fst (allow ok now kind sev c')"
  using assms count_since_lane [OF assms(2)] by (auto simp: allow_def Let_def)

fun routine_op :: "cap_op \<Rightarrow> bool" where
  "routine_op (Allow ok now kind sev) = (\<not> is_priority kind sev)"
| "routine_op (Note_429 ok now) = True"

lemma routine_keeps_priority_lane:
  "list_all routine_op ops \<Longrightarrow>
     filter (\<lambda>r. send_lane r = Priority) (channel_sends (foldl cap_step c ops))
     = filter (\<lambda>r. send_lane r = Priority) (channel_sends c)"
proof (induction ops arbitrary: c)
  case (Cons op ops)
  then show ?case by (cases op) (auto simp: allow_def note_429_def Let_def)
qed simp

section \<open>Properties\<close>

text \<open>
  C37: A persisting fault pages at most 26 times in the 24 hours after its first page: while
  the condition is not resolved, whatever other alerts and resolutions are interleaved, the
  page instants of its key respect the 5, 15 and 60 minute waits.
\<close>

theorem persistent_fault_pages_per_day:
  assumes "map_of st k = None"
    and "list_all (\<lambda>op. op \<noteq> Resolve (fst k) (snd k)) ops"
    and "page_times k st ops = t # ts"
    and "last (t # ts) - t \<le> day"
  shows "length (t # ts) \<le> 26"
proof -
  from fresh_page_times [OF assms(1,2)] assms(3) have sp: "spaced 1 t ts" by simp
  show ?thesis
  proof (cases "length ts \<le> 2")
    case False
    then obtain t2 t3 us where ts: "ts = t2 # t3 # us" and us: "us \<noteq> []"
      by (cases ts; cases "tl ts"; cases "tl (tl ts)") auto
    with sp have a: "300 \<le> total_seconds (t2 - t)" "900 \<le> total_seconds (t3 - t2)"
      and "spaced 3 t3 us"
      by (simp_all add: Suc_1 flip: One_nat_def numeral_3_eq_3)
    with us have "3600 * real (length us) \<le> total_seconds (last us - t3)"
      by (intro spaced_hourly) auto
    moreover have "total_seconds (last us - t) \<le> 86400"
      using assms(4) ts us total_seconds_mono [of "last us - t" day] by (simp add: day_def)
    ultimately have "3600 * real (length us) + 1200 \<le> 86400"
      using a total_seconds_diff [of "last us" t t3] total_seconds_diff [of t3 t t2] by linarith
    then have "real (length us) < 24" by linarith
    with ts show ?thesis by simp
  qed simp
qed

definition stale_heartbeat :: alert where
  "stale_heartbeat =
     \<lparr>al_kind = ''stale'', al_severity = ''high'', al_message = ''no beat'', al_component = ''hb'',
      al_recovered = False\<rparr>"

theorem persistent_fault_pages_per_day_witness:
  "length (page_times (''hb'', ''stale'') []
     [Notify stale_heartbeat 0, Notify stale_heartbeat (seconds 30),
      Notify stale_heartbeat (seconds 300)]) \<le> 26"
proof -
  let ?ops = "[Notify stale_heartbeat 0, Notify stale_heartbeat (seconds 30),
      Notify stale_heartbeat (seconds 300)]"
  have p: "page_times (''hb'', ''stale'') [] ?ops = [0, seconds 300]"
    by (simp add: throttle_notify_def alert_key_def stale_heartbeat_def total_seconds_def
        seconds_def flip: One_nat_def)
  show ?thesis
    using persistent_fault_pages_per_day [OF _ _ p] unfolding p
    by (simp add: stale_heartbeat_def day_def seconds_def)
qed

text \<open>
  Resolving a firing condition sends exactly one RECOVERED message for it, resolving it
  again is silent, and its next occurrence pages immediately whatever the backoff was.
\<close>

theorem resolve_sends_once_and_rearms:
  assumes "map_of st (c, kd) \<noteq> None" and "alert_key a = (c, kd)"
  shows "snd (throttle_resolve c kd st) = [recovered_alert c kd]
    \<and> snd (throttle_resolve c kd (fst (throttle_resolve c kd st))) = []
    \<and> snd (throttle_notify a now (fst (throttle_resolve c kd st))) = [a]"
proof -
  have "snd (throttle_resolve c kd st) = [recovered_alert c kd]"
    using assms(1) by (simp add: throttle_resolve_def)
  with throttle.second_resolve_silent [of c kd st]
    throttle.page_after_resolve [OF assms(2), of now st]
  show ?thesis by simp
qed

theorem resolve_sends_once_and_rearms_witness:
  "snd (throttle_resolve ''hb'' ''stale'' [((''hb'', ''stale''), \<lparr>last_sent = 0, sends = 5\<rparr>)])
     = [recovered_alert ''hb'' ''stale'']"
  using resolve_sends_once_and_rearms [of "[((''hb'', ''stale''), \<lparr>last_sent = 0, sends = 5\<rparr>)]"
    "''hb''" "''stale''" stale_heartbeat]
  by (simp add: alert_key_def stale_heartbeat_def)

text \<open>
  In every window of an hour, respectively a day, ending at any instant, the sends the
  shared cap recorded stay within the lane limits, after any sequence of decisions and
  incidents, with any clock readings (also out of order) and any database faults.
\<close>

theorem outbound_cap_never_exceeded:
  assumes "channel_sends c = []"
  shows "let s = channel_sends (foldl cap_step c ops)
         in window s Routine hour t \<le> max_routine_per_hour c
            \<and> window s Routine day t \<le> max_routine_per_day c
            \<and> window s Priority hour t \<le> priority_per_hour c"
proof -
  from assms have "cap_ok c" by (simp add: cap_ok_def within_limit_def window_def)
  then have "cap_ok (foldl cap_step c ops)" by (rule cap.inv_run)
  then show ?thesis by (simp add: cap_ok_def within_limit_def Let_def)
qed

theorem outbound_cap_never_exceeded_witness:
  "window (channel_sends (foldl cap_step default_cap
      [Allow True 0 ''degrade'' ''info'', Allow True 5 ''degrade'' ''info''])) Routine hour 5
   \<le> max_routine_per_hour default_cap"
proof -
  have "channel_sends default_cap = []" by (simp add: default_cap_def)
  from outbound_cap_never_exceeded [OF this, of
    "[Allow True 0 ''degrade'' ''info'', Allow True 5 ''degrade'' ''info'']" 5]
  show ?thesis unfolding Let_def by blast
qed

text \<open>
  Routine traffic and 429 incidents never change the decision on a priority alert: a
  critical page is admitted after any routine storm exactly when it was admitted before it.
\<close>

theorem priority_lane_isolated:
  assumes "list_all routine_op ops" and "is_priority kind sev"
  shows "fst (allow ok now kind sev (foldl cap_step c ops)) = fst (allow ok now kind sev c)"
  using assms
  by (intro priority_decision_lane) (simp_all add: routine_keeps_priority_lane)

theorem priority_lane_isolated_witness:
  "fst (allow True 9 ''daily_liveness'' ''info'' (foldl cap_step default_cap
      [Note_429 True 0, Allow True 5 ''degrade'' ''info'']))
   = (True, ''priority'')"
proof -
  have "list_all routine_op [Note_429 True 0, Allow True 5 ''degrade'' ''info'']"
    and "is_priority ''daily_liveness'' ''info''"
    and "fst (allow True 9 ''daily_liveness'' ''info'' default_cap) = (True, ''priority'')"
    by code_simp+
  with priority_lane_isolated show ?thesis by metis
qed

text \<open>
  The dead-man ping shares its lane with urgent pages: four of them within the hour and the
  daily liveness ping is refused.
\<close>

lemma urgent_pages_starve_liveness:
  "fst (allow True (seconds 60) ''daily_liveness'' ''info''
     (foldl cap_step default_cap
        (map (\<lambda>t. Allow True t ''soak_degraded'' ''urgent'') [0, 1, 2, 3])))
   = (False, ''priority_hourly_cap'')"
  by code_simp

end
