(* ===== verification/Sql_Table.thy ===== *)
theory Sql_Table
  imports Prelude
begin

text \<open>
  The part of SQL the stores of \<open>src/persistence\<close> and the command bus use: a table is the
  list of its rows in insertion (rowid) order; \<open>UPDATE\<close> and \<open>DELETE\<close> with a \<open>WHERE\<close>
  clause return the new table and the row count, as \<open>cursor.rowcount\<close> does; \<open>INSERT\<close>
  appends unless a uniqueness constraint refuses the row; \<open>ON CONFLICT DO UPDATE\<close>
  rewrites the conflicting row in place; and \<open>LIKE\<close> is SQLite's pattern match.
\<close>

section \<open>UPDATE, DELETE, INSERT\<close>

definition sql_update :: "('r \<Rightarrow> bool) \<Rightarrow> ('r \<Rightarrow> 'r) \<Rightarrow> 'r list \<Rightarrow> 'r list \<times> nat" where
  "sql_update p f t = (map (\<lambda>r. if p r then f r else r) t, length (filter p t))"

definition sql_delete :: "('r \<Rightarrow> bool) \<Rightarrow> 'r list \<Rightarrow> 'r list \<times> nat" where
  "sql_delete p t = (filter (\<lambda>r. \<not> p r) t, length (filter p t))"

definition sql_upsert :: "('r \<Rightarrow> 'k) \<Rightarrow> ('r \<Rightarrow> 'r) \<Rightarrow> 'r \<Rightarrow> 'r list \<Rightarrow> 'r list" where
  "sql_upsert key upd row t =
     (if key row \<in> key ` set t then map (\<lambda>r. if key r = key row then upd r else r) t
      else t @ [row])"

named_theorems sql_simps

lemma fst_sql_update [sql_simps]: "fst (sql_update p f t) = map (\<lambda>r. if p r then f r else r) t"
  by (simp add: sql_update_def)

lemma snd_sql_update [sql_simps]: "snd (sql_update p f t) = length (filter p t)"
  by (simp add: sql_update_def)

lemma fst_sql_delete [sql_simps]: "fst (sql_delete p t) = filter (\<lambda>r. \<not> p r) t"
  by (simp add: sql_delete_def)

lemma snd_sql_delete [sql_simps]: "snd (sql_delete p t) = length (filter p t)"
  by (simp add: sql_delete_def)

lemma sql_update_hit [sql_simps]: "0 < snd (sql_update p f t) \<longleftrightarrow> (\<exists>r \<in> set t. p r)"
  by (auto simp: sql_update_def filter_empty_conv)

lemma sql_update_miss: "\<not> (\<exists>r \<in> set t. p r) \<Longrightarrow> fst (sql_update p f t) = t"
  by (auto simp: sql_update_def intro: map_idI)

lemma sql_update_map:
  assumes "\<And>r. g (f r) = g r"
  shows "map g (fst (sql_update p f t)) = map g t"
  using assms by (auto simp: sql_update_def)

lemma sql_delete_count: "length (fst (sql_delete p t)) + snd (sql_delete p t) = length t"
  by (induction t) (auto simp: sql_delete_def)

section \<open>One row by its primary key\<close>

definition find_row :: "('r \<Rightarrow> 'k) \<Rightarrow> 'k \<Rightarrow> 'r list \<Rightarrow> 'r option" where
  "find_row key k t = List.find (\<lambda>r. key r = k) t"

lemma find_row_simps [simp]:
  "find_row key k [] = None"
  "find_row key k (r # t) = (if key r = k then Some r else find_row key k t)"
  by (auto simp: find_row_def)

lemma find_row_append:
  "find_row key k (t @ u) = (case find_row key k t of None \<Rightarrow> find_row key k u | Some r \<Rightarrow> Some r)"
  by (induction t) auto

lemma find_row_None: "find_row key k t = None \<longleftrightarrow> k \<notin> key ` set t"
  by (induction t) auto

lemma find_row_Some:
  assumes "find_row key k t = Some r"
  shows "r \<in> set t" and "key r = k"
  using assms by (induction t) (auto split: if_splits)

lemma find_row_unique:
  assumes "distinct (map key t)" and "r \<in> set t"
  shows "find_row key (key r) t = Some r"
  using assms by (induction t) (auto simp: rev_image_eqI)

lemma find_row_filter:
  assumes "distinct (map key t)"
  shows "find_row key k (filter P t)
    = (case find_row key k t of None \<Rightarrow> None | Some r \<Rightarrow> if P r then Some r else None)"
  using assms
proof (induction t)
  case (Cons a t)
  show ?case
  proof (cases "key a = k")
    case True
    with Cons.prems have "find_row key k (filter P t) = None" by (auto simp: find_row_None)
    with True show ?thesis by simp
  next
    case False
    with Cons show ?thesis by simp
  qed
qed simp

lemma find_row_map:
  assumes "\<And>r. key (g r) = key r"
  shows "find_row key k (map g t) = map_option g (find_row key k t)"
  using assms by (induction t) auto

lemma find_row_update:
  assumes "\<And>r. key (f r) = key r"
  shows "find_row key k (fst (sql_update p f t))
    = map_option (\<lambda>r. if p r then f r else r) (find_row key k t)"
  using assms by (simp add: fst_sql_update find_row_map)

text \<open>
  A loop that selects the rows satisfying \<open>P\<close> and then updates each by its key, again
  guarded by \<open>P\<close>, rewrites exactly the selected rows: with unique keys it is a \<open>map\<close>.
\<close>

lemma foldl_keyed_update_aux:
  assumes "distinct (map key (pre @ todo))" and "\<And>r x. key (g r x) = key x"
  shows "foldl (\<lambda>t r. fst (sql_update (\<lambda>x. key x = key r \<and> P x) (g r) t)) (pre @ todo)
           (filter Q todo)
         = pre @ map (\<lambda>r. if Q r \<and> P r then g r r else r) todo"
  using assms
proof (induction todo arbitrary: pre)
  case Nil
  then show ?case by simp
next
  case (Cons r todo)
  let ?r' = "if Q r \<and> P r then g r r else r"
  have "key ?r' = key r" using Cons.prems(2) by simp
  with Cons.prems(1) have "distinct (map key ((pre @ [?r']) @ todo))" by simp
  note IH = Cons.IH [OF this Cons.prems(2)]
  have "\<forall>x \<in> set pre \<union> set todo. key x \<noteq> key r"
    using Cons.prems(1) by (auto simp: rev_image_eqI)
  then have only_r: "fst (sql_update (\<lambda>x. key x = key r \<and> P x) (g r) (pre @ r # todo))
      = pre @ (if P r then g r r else r) # todo"
    by (auto simp: fst_sql_update intro!: map_idI)
  show ?case
  proof (cases "Q r")
    case True
    with IH show ?thesis by (simp only: filter.simps foldl.simps if_True only_r) (simp split: if_splits)
  next
    case False
    with IH show ?thesis by simp
  qed
qed

lemma foldl_keyed_update:
  assumes "distinct (map key t)" and "\<And>r x. key (g r x) = key x"
  shows "foldl (\<lambda>t r. fst (sql_update (\<lambda>x. key x = key r \<and> P x) (g r) t)) t (filter Q t)
         = map (\<lambda>r. if Q r \<and> P r then g r r else r) t"
  using foldl_keyed_update_aux [of key "[]" t g P Q] assms by simp

section \<open>ORDER BY and LIMIT\<close>

lemma take_sort_subset: "set (take n (sort_key f t)) \<subseteq> set t"
  using set_take_subset by fastforce

lemma sorted_take_sort: "sorted (map f (take n (sort_key f t)))"
  by (simp add: take_map [symmetric] sorted_wrt_take)

section \<open>LIKE\<close>

text \<open>
  SQLite's \<open>LIKE\<close>: \<open>%\<close> matches any run of characters, \<open>_\<close> any one character, and other
  characters match without regard to ASCII case.
\<close>

fun sql_like :: "string \<Rightarrow> string \<Rightarrow> bool" where
  "sql_like [] s = (s = [])"
| "sql_like (p # ps) [] = (p = CHR ''%'' \<and> sql_like ps [])"
| "sql_like (p # ps) (c # cs) =
     (if p = CHR ''%'' then sql_like ps (c # cs) \<or> sql_like (p # ps) cs
      else if p = CHR ''_'' then sql_like ps cs
      else chr_lower p = chr_lower c \<and> sql_like ps cs)"

lemma sql_like_percent: "sql_like ''%'' s"
  by (induction s) auto

lemma sql_like_prefix: "sql_like (pre @ ''%'') (pre @ s)"
proof (induction pre)
  case Nil
  then show ?case by (simp add: sql_like_percent)
next
  case (Cons c cs)
  then show ?case by (cases "cs @ s") auto
qed

lemma sql_like_literal_prefix:
  assumes "list_all (\<lambda>c. c \<noteq> CHR ''%'' \<and> c \<noteq> CHR ''_'') pre"
  shows "sql_like (pre @ ''%'') s
    \<longleftrightarrow> length pre \<le> length s \<and> str_lower (take (length pre) s) = str_lower pre"
  using assms
proof (induction pre arbitrary: s)
  case Nil
  then show ?case by (simp add: sql_like_percent str_lower_def)
next
  case (Cons p pre)
  then show ?case by (cases s) (auto simp: str_lower_def)
qed

end
