(* ===== verification/Governance_Store.thy ===== *)
theory Governance_Store
  imports Sql_Table
begin

text \<open>
  The durable governance tables: the degradation row and the pending-order registry of
  \<open>src/persistence/governance_state_store.py\<close>, and the deferred-reconciliation latch of
  \<open>src/engine/recon_recovery.py\<close>. The interfaces their clients rely on are the locales
  \<open>governance_vault\<close> (what is loaded is what was persisted last), \<open>order_registry\<close>
  (a finite map behind a table) and \<open>one_shot_latch\<close> (every firing consumes an arming).
  The schema creation and the file-ownership guard before each statement are I/O and not
  modelled; a SQL error raises out of every operation without changing the table.
\<close>

section \<open>The degradation row\<close>

definition GOVERNANCE_STATE_KEY :: string where
  "GOVERNANCE_STATE_KEY = ''degradation''"

record governance_row =
  gs_state_key :: string
  gs_degradation_mode :: string
  gs_trigger_reason :: string
  gs_entered_at :: "instant option"
  gs_flatten_latched :: int
  gs_recovery_streak :: int
  gs_updated_at :: instant

record persisted_state =
  ps_degradation_mode :: string
  ps_trigger_reason :: string
  ps_entered_at :: "instant option"
  ps_flatten_latched :: bool
  ps_recovery_streak :: int

definition load_governance_state :: "governance_row list \<Rightarrow> persisted_state option" where
  "load_governance_state t =
     map_option
       (\<lambda>r. \<lparr>ps_degradation_mode = gs_degradation_mode r, ps_trigger_reason = gs_trigger_reason r,
             ps_entered_at = gs_entered_at r, ps_flatten_latched = (gs_flatten_latched r \<noteq> 0),
             ps_recovery_streak = gs_recovery_streak r\<rparr>)
       (find_row gs_state_key GOVERNANCE_STATE_KEY t)"

definition persist_governance_state ::
  "persisted_state \<Rightarrow> instant \<Rightarrow> governance_row list \<Rightarrow> governance_row list" where
  "persist_governance_state p now t =
     (let row = \<lparr>gs_state_key = GOVERNANCE_STATE_KEY,
                 gs_degradation_mode = ps_degradation_mode p,
                 gs_trigger_reason = ps_trigger_reason p,
                 gs_entered_at = ps_entered_at p,
                 gs_flatten_latched = (if ps_flatten_latched p then 1 else 0),
                 gs_recovery_streak = max (ps_recovery_streak p) 0,
                 gs_updated_at = now\<rparr>
      in sql_upsert gs_state_key
           (\<lambda>r. r\<lparr>gs_degradation_mode := gs_degradation_mode row,
                  gs_trigger_reason := gs_trigger_reason row,
                  gs_entered_at := gs_entered_at row,
                  gs_flatten_latched := gs_flatten_latched row,
                  gs_recovery_streak := gs_recovery_streak row,
                  gs_updated_at := gs_updated_at row\<rparr>) row t)"

definition clamped :: "persisted_state \<Rightarrow> persisted_state" where
  "clamped p = p\<lparr>ps_recovery_streak := max (ps_recovery_streak p) 0\<rparr>"

lemma find_row_upsert:
  assumes "\<And>r. key (upd r) = key r"
  shows "find_row key k (sql_upsert key upd row t)
    = (if k = key row
       then Some (case find_row key k t of None \<Rightarrow> row | Some r \<Rightarrow> upd r)
       else find_row key k t)"
proof (cases "key row \<in> key ` set t")
  case True
  then have "find_row key (key row) t \<noteq> None" by (simp add: find_row_None)
  moreover have "find_row key k (map (\<lambda>r. if key r = key row then upd r else r) t)
      = map_option (\<lambda>r. if key r = key row then upd r else r) (find_row key k t)"
    using assms by (intro find_row_map) simp
  ultimately show ?thesis
    using True by (cases "find_row key k t") (auto simp: sql_upsert_def dest: find_row_Some(2))
next
  case False
  then have "find_row key (key row) t = None" by (simp add: find_row_None)
  with False show ?thesis
    by (auto simp: sql_upsert_def find_row_append split: option.splits)
qed

lemma distinct_upsert:
  assumes "\<And>r. key (upd r) = key r" and "distinct (map key t)"
  shows "distinct (map key (sql_upsert key upd row t))"
proof (cases "key row \<in> key ` set t")
  case True
  have "map key (map (\<lambda>r. if key r = key row then upd r else r) t) = map key t"
    using assms(1) by simp
  with True assms(2) show ?thesis by (simp only: sql_upsert_def if_True)
next
  case False
  with assms(2) show ?thesis by (simp add: sql_upsert_def)
qed

locale governance_vault =
  fixes load :: "'v \<Rightarrow> persisted_state option"
    and persist :: "persisted_state \<Rightarrow> instant \<Rightarrow> 'v \<Rightarrow> 'v"
  assumes load_persist: "load (persist p t v) = Some (clamped p)"
begin

text \<open>Whatever was written before, the last write is what a restart reads.\<close>

lemma load_last_write:
  "load (fold (\<lambda>(p, t). persist p t) (ws @ [(p, t)]) v) = Some (clamped p)"
  by (simp add: load_persist)

end

interpretation vault: governance_vault load_governance_state persist_governance_state
  by unfold_locales
     (auto simp: load_governance_state_def persist_governance_state_def Let_def clamped_def
       find_row_upsert split: option.splits)

section \<open>The pending-order registry\<close>

record pending_row =
  po_order_key :: string
  po_strategy_id :: string
  po_symbol :: string
  po_side :: string
  po_broker_order_id :: "string option"
  po_submitted_at :: instant

type_synonym pending_store = "pending_row list"

definition load_all :: "pending_store \<Rightarrow> (string, string option) dict" where
  "load_all t = map (\<lambda>r. (po_order_key r, po_broker_order_id r)) t"

definition stage ::
  "string \<Rightarrow> string \<Rightarrow> string \<Rightarrow> string \<Rightarrow> string option \<Rightarrow> instant \<Rightarrow> pending_store \<Rightarrow> pending_store"
where
  "stage order_key strategy_id symbol sde broker_order_id now t =
     sql_upsert po_order_key
       (\<lambda>r. r\<lparr>po_broker_order_id := broker_order_id, po_submitted_at := now\<rparr>)
       \<lparr>po_order_key = order_key, po_strategy_id = strategy_id, po_symbol = str_upper symbol,
        po_side = sde, po_broker_order_id = broker_order_id, po_submitted_at = now\<rparr> t"

definition pop_order :: "string \<Rightarrow> pending_store \<Rightarrow> pending_store \<times> string option" where
  "pop_order order_key t =
     (case find_row po_order_key order_key t of
        None \<Rightarrow> (t, None)
      | Some row \<Rightarrow> (fst (sql_delete (\<lambda>r. po_order_key r = order_key) t), po_broker_order_id row))"

definition leg_prefix :: "string \<Rightarrow> string \<Rightarrow> string" where
  "leg_prefix strategy_id symbol = strategy_id @ '':'' @ str_upper symbol @ '':''"

definition clear_prefix :: "string \<Rightarrow> string \<Rightarrow> pending_store \<Rightarrow> pending_store \<times> nat" where
  "clear_prefix strategy_id symbol t =
     sql_delete (\<lambda>r. sql_like (leg_prefix strategy_id symbol @ ''%'') (po_order_key r)) t"

definition clear_all :: "pending_store \<Rightarrow> pending_store \<times> nat" where
  "clear_all t = sql_delete (\<lambda>r. True) t"

record reconcile_stats =
  staged_count :: nat
  broker_open_count :: nat
  stale_removed :: nat

definition is_stale :: "string set \<Rightarrow> string option \<Rightarrow> bool" where
  "is_stale broker_open_order_ids broker_id =
     (case broker_id of None \<Rightarrow> True | Some b \<Rightarrow> b \<notin> broker_open_order_ids)"

definition reconcile_with_broker_open_orders ::
  "string set \<Rightarrow> pending_store \<Rightarrow> pending_store \<times> reconcile_stats" where
  "reconcile_with_broker_open_orders broker_open_order_ids t =
     (let staged = load_all t;
          stale_keys = map fst (filter (\<lambda>(k, b). is_stale broker_open_order_ids b) staged);
          res = (if stale_keys = [] then (t, 0)
                 else sql_delete (\<lambda>r. po_order_key r \<in> set stale_keys) t)
      in (fst res,
          \<lparr>staged_count = length staged, broker_open_count = card broker_open_order_ids,
           stale_removed = snd res\<rparr>))"

subsection \<open>The registry is a finite map\<close>

definition pending_map :: "pending_store \<Rightarrow> string \<Rightarrow> string option option" where
  "pending_map t k = map_of (load_all t) k"

definition keys_unique :: "pending_store \<Rightarrow> bool" where
  "keys_unique t = distinct (map po_order_key t)"

locale order_registry =
  fixes put :: "'k \<Rightarrow> 'v \<Rightarrow> 's \<Rightarrow> 's"
    and take_out :: "'k \<Rightarrow> 's \<Rightarrow> 's \<times> 'v option"
    and lookup :: "'s \<Rightarrow> 'k \<Rightarrow> 'v option"
    and inv :: "'s \<Rightarrow> bool"
  assumes put_lookup: "inv s \<Longrightarrow> lookup (put k v s) k' = (if k' = k then Some v else lookup s k')"
    and take_result: "inv s \<Longrightarrow> snd (take_out k s) = lookup s k"
    and take_lookup: "inv s \<Longrightarrow> lookup (fst (take_out k s)) k' = (if k' = k then None else lookup s k')"
    and put_inv: "inv s \<Longrightarrow> inv (put k v s)"
    and take_inv: "inv s \<Longrightarrow> inv (fst (take_out k s))"
begin

text \<open>A staged value comes back exactly once.\<close>

lemma take_after_put:
  assumes "inv s"
  shows "snd (take_out k (put k v s)) = Some v"
    and "snd (take_out k (fst (take_out k (put k v s)))) = None"
  using assms by (simp_all add: put_lookup take_result take_lookup put_inv take_inv)

lemma take_undoes_put:
  assumes "inv s" and "lookup s k = None"
  shows "lookup (fst (take_out k (put k v s))) = lookup s"
  using assms by (auto simp: put_lookup take_lookup put_inv)

end

text \<open>
  The registry with the strategy, symbol, side and clock of the calls fixed: \<open>pop\<close> reports
  a staged order without a broker id like an absent one, so the interpretation stores the
  broker id.
\<close>

definition stage_id :: "string \<Rightarrow> string \<Rightarrow> string \<Rightarrow> instant \<Rightarrow> string \<Rightarrow> string \<Rightarrow> pending_store \<Rightarrow> pending_store"
where
  "stage_id strategy_id symbol sde now k b t = stage k strategy_id symbol sde (Some b) now t"

definition broker_id_of :: "pending_store \<Rightarrow> string \<Rightarrow> string option" where
  "broker_id_of t k = Option.bind (find_row po_order_key k t) po_broker_order_id"

lemma pending_map_find:
  "pending_map t k = map_option po_broker_order_id (find_row po_order_key k t)"
  by (induction t) (auto simp: pending_map_def load_all_def)

lemma find_row_filter_keys:
  "find_row key k (filter (\<lambda>r. P (key r)) t) = (if P k then find_row key k t else None)"
  by (induction t) auto

lemma find_row_delete_key:
  "find_row key k' (fst (sql_delete (\<lambda>r. key r = k) t)) = (if k' = k then None else find_row key k' t)"
  using find_row_filter_keys [of key k' "\<lambda>x. x \<noteq> k" t] by (simp add: fst_sql_delete)

lemma find_row_stage:
  "find_row po_order_key k' (stage k sid sy sde b now t) =
     (if k' = k then Some (case find_row po_order_key k t of
          None \<Rightarrow> \<lparr>po_order_key = k, po_strategy_id = sid, po_symbol = str_upper sy, po_side = sde,
                   po_broker_order_id = b, po_submitted_at = now\<rparr>
        | Some r \<Rightarrow> r\<lparr>po_broker_order_id := b, po_submitted_at := now\<rparr>)
      else find_row po_order_key k' t)"
  by (simp add: stage_def find_row_upsert)

lemma find_row_pop:
  "find_row po_order_key k' (fst (pop_order k t)) = (if k' = k then None else find_row po_order_key k' t)"
  by (auto simp: pop_order_def find_row_delete_key split: option.splits)

lemma keys_unique_filter [simp]: "keys_unique t \<Longrightarrow> keys_unique (filter P t)"
  by (simp add: keys_unique_def distinct_map_filter)

lemma keys_unique_Nil [simp]: "keys_unique []"
  by (simp add: keys_unique_def)

lemma keys_unique_delete [simp]: "keys_unique t \<Longrightarrow> keys_unique (fst (sql_delete P t))"
  by (simp add: fst_sql_delete)

lemma keys_unique_stage [simp]: "keys_unique t \<Longrightarrow> keys_unique (stage k sid sy sde b now t)"
  by (simp add: keys_unique_def stage_def distinct_upsert)

lemma keys_unique_pop [simp]: "keys_unique t \<Longrightarrow> keys_unique (fst (pop_order k t))"
  by (auto simp: pop_order_def fst_sql_delete split: option.splits)

interpretation pending: order_registry "stage_id sid sy sde now" pop_order broker_id_of keys_unique
  for sid sy sde now
  by unfold_locales
     (auto simp: stage_id_def broker_id_of_def find_row_stage find_row_delete_key pop_order_def
        split: option.splits)

subsection \<open>Operations as steps\<close>

datatype pending_op =
    Stage string string string string "string option" instant
  | Pop string
  | Clear_prefix string string
  | Clear_all
  | Reconcile "string set"

fun pending_step :: "pending_store \<Rightarrow> pending_op \<Rightarrow> pending_store" where
  "pending_step t (Stage k sid sy sde b now) = stage k sid sy sde b now t"
| "pending_step t (Pop k) = fst (pop_order k t)"
| "pending_step t (Clear_prefix sid sy) = fst (clear_prefix sid sy t)"
| "pending_step t Clear_all = fst (clear_all t)"
| "pending_step t (Reconcile ids) = fst (reconcile_with_broker_open_orders ids t)"

interpretation pending_machine: invariant_machine pending_step keys_unique
proof
  show "keys_unique (pending_step t op)" if "keys_unique t" for t op
    using that
    by (cases op)
       (simp_all add: clear_prefix_def clear_all_def reconcile_with_broker_open_orders_def
          fst_sql_delete Let_def)
qed

lemma stale_keys_member:
  assumes "keys_unique t" and "r \<in> set t"
  shows "po_order_key r \<in> set (map fst (filter (\<lambda>(k, b). is_stale ids b) (load_all t)))
    \<longleftrightarrow> is_stale ids (po_broker_order_id r)"
  using assms by (auto simp: load_all_def keys_unique_def image_iff distinct_map inj_on_def)

lemma sql_delete_no_keys:
  "(if ks = [] then (t, 0) else sql_delete (\<lambda>r. key r \<in> set ks) t)
     = sql_delete (\<lambda>r. key r \<in> set ks) t"
  by (cases ks) (simp_all add: sql_delete_def)

lemma reconcile_filter:
  assumes "keys_unique t"
  shows "fst (reconcile_with_broker_open_orders ids t)
      = filter (\<lambda>r. \<not> is_stale ids (po_broker_order_id r)) t"
    and "stale_removed (snd (reconcile_with_broker_open_orders ids t))
      = length (filter (\<lambda>r. is_stale ids (po_broker_order_id r)) t)"
proof -
  let ?ks = "map fst (filter (\<lambda>(k, b). is_stale ids b) (load_all t))"
  have "(if ?ks = [] then (t, 0) else sql_delete (\<lambda>r. po_order_key r \<in> set ?ks) t)
      = sql_delete (\<lambda>r. po_order_key r \<in> set ?ks) t"
    by (rule sql_delete_no_keys)
  also have "\<dots> = sql_delete (\<lambda>r. is_stale ids (po_broker_order_id r)) t"
    using stale_keys_member [OF assms]
    by (auto simp: sql_delete_def simp del: set_map set_filter
        intro!: filter_cong arg_cong [of _ _ length])
  finally have eq: "(if ?ks = [] then (t, 0) else sql_delete (\<lambda>r. po_order_key r \<in> set ?ks) t)
      = sql_delete (\<lambda>r. is_stale ids (po_broker_order_id r)) t" .
  show "fst (reconcile_with_broker_open_orders ids t)
      = filter (\<lambda>r. \<not> is_stale ids (po_broker_order_id r)) t"
    and "stale_removed (snd (reconcile_with_broker_open_orders ids t))
      = length (filter (\<lambda>r. is_stale ids (po_broker_order_id r)) t)"
    unfolding reconcile_with_broker_open_orders_def Let_def eq by (simp_all add: sql_delete_def)
qed

section \<open>The deferred-reconciliation latch\<close>

definition DEFERRED_PRE_OPEN_RECON_LATCH_KEY :: string where
  "DEFERRED_PRE_OPEN_RECON_LATCH_KEY = ''DEFERRED_PRE_OPEN_RECON''"

record latch_row =
  lt_key :: string
  lt_active :: int
  lt_reason :: string
  lt_metadata :: string
  lt_updated_at :: instant

text \<open>A vault file that does not exist is \<open>None\<close>; scheduling creates it.\<close>

type_synonym latch_db = "latch_row list option"

definition latch_rows :: "latch_db \<Rightarrow> latch_row list" where
  "latch_rows db = (case db of None \<Rightarrow> [] | Some t \<Rightarrow> t)"

definition schedule_pre_open_full_recon :: "string \<Rightarrow> string \<Rightarrow> instant \<Rightarrow> latch_db \<Rightarrow> latch_db" where
  "schedule_pre_open_full_recon reason metadata_json now db =
     Some (sql_upsert lt_key
       (\<lambda>r. r\<lparr>lt_active := 1, lt_reason := reason, lt_metadata := metadata_json, lt_updated_at := now\<rparr>)
       \<lparr>lt_key = DEFERRED_PRE_OPEN_RECON_LATCH_KEY, lt_active = 1, lt_reason = reason,
        lt_metadata = metadata_json, lt_updated_at = now\<rparr> (latch_rows db))"

definition is_deferred_pre_open_recon_scheduled :: "latch_db \<Rightarrow> bool" where
  "is_deferred_pre_open_recon_scheduled db =
     (case db of None \<Rightarrow> False
      | Some t \<Rightarrow> (case find_row lt_key DEFERRED_PRE_OPEN_RECON_LATCH_KEY t of
                    None \<Rightarrow> False | Some r \<Rightarrow> lt_active r = 1))"

definition clear_deferred_pre_open_recon :: "instant \<Rightarrow> latch_db \<Rightarrow> latch_db \<times> bool" where
  "clear_deferred_pre_open_recon now db =
     (case db of None \<Rightarrow> (db, False)
      | Some t \<Rightarrow>
          (case find_row lt_key DEFERRED_PRE_OPEN_RECON_LATCH_KEY t of
             None \<Rightarrow> (db, False)
           | Some r \<Rightarrow>
               if lt_active r \<noteq> 1 then (db, False)
               else
                 let res = sql_update (\<lambda>x. lt_key x = DEFERRED_PRE_OPEN_RECON_LATCH_KEY)
                       (\<lambda>x. x\<lparr>lt_active := 0, lt_updated_at := now\<rparr>) t
                 in if snd res = 0 then (Some (fst res), False) else (Some (fst res), True)))"

text \<open>
  A latch that operations arm and a consumer fires: every firing uses up an arming, however
  the operations interleave.
\<close>

primrec firings :: "('s \<Rightarrow> 'e \<Rightarrow> 's) \<Rightarrow> ('s \<Rightarrow> 'e \<Rightarrow> bool) \<Rightarrow> 's \<Rightarrow> 'e list \<Rightarrow> nat" where
  "firings step fires s [] = 0"
| "firings step fires s (e # es) = (if fires s e then 1 else 0) + firings step fires (step s e) es"

locale one_shot_latch = invariant_machine step inv
  for step :: "'s \<Rightarrow> 'e \<Rightarrow> 's" and inv :: "'s \<Rightarrow> bool" +
  fixes armed :: "'s \<Rightarrow> bool"
    and arms :: "'e \<Rightarrow> bool"
    and fires :: "'s \<Rightarrow> 'e \<Rightarrow> bool"
  assumes fires_armed: "inv s \<Longrightarrow> fires s e \<Longrightarrow> armed s \<and> \<not> armed (step s e)"
    and armed_step: "inv s \<Longrightarrow> armed (step s e) \<Longrightarrow> armed s \<or> arms e"
begin

lemma firings_le_arms:
  "inv s \<Longrightarrow> firings step fires s es \<le> length (filter arms es) + (if armed s then 1 else 0)"
proof (induction es arbitrary: s)
  case (Cons e es)
  show ?case
    using Cons.IH [of "step s e"] Cons.prems inv_step [of s e] fires_armed [of s e] armed_step [of s e]
    by (auto split: if_splits)
qed simp

end

datatype latch_op = Schedule string string instant | Clear instant | Poll

fun latch_step :: "latch_db \<Rightarrow> latch_op \<Rightarrow> latch_db" where
  "latch_step db (Schedule reason meta now) = schedule_pre_open_full_recon reason meta now db"
| "latch_step db (Clear now) = fst (clear_deferred_pre_open_recon now db)"
| "latch_step db Poll = db"

fun latch_fires :: "latch_db \<Rightarrow> latch_op \<Rightarrow> bool" where
  "latch_fires db (Clear now) = snd (clear_deferred_pre_open_recon now db)"
| "latch_fires db _ = False"

fun latch_arms :: "latch_op \<Rightarrow> bool" where
  "latch_arms (Schedule reason meta now) = True"
| "latch_arms _ = False"

lemma clear_disarms: "\<not> is_deferred_pre_open_recon_scheduled (fst (clear_deferred_pre_open_recon now db))"
  by (auto simp: clear_deferred_pre_open_recon_def is_deferred_pre_open_recon_scheduled_def Let_def
      find_row_update split: option.splits if_splits dest!: find_row_Some(2))

lemma clear_true_iff:
  "snd (clear_deferred_pre_open_recon now db) \<longleftrightarrow> is_deferred_pre_open_recon_scheduled db"
  by (auto simp: clear_deferred_pre_open_recon_def is_deferred_pre_open_recon_scheduled_def Let_def
      snd_sql_update filter_empty_conv dest: find_row_Some split: option.splits)

lemma schedule_arms: "is_deferred_pre_open_recon_scheduled (schedule_pre_open_full_recon reason meta now db)"
  by (auto simp: schedule_pre_open_full_recon_def is_deferred_pre_open_recon_scheduled_def find_row_upsert
      split: option.splits)

interpretation deferred_latch:
  one_shot_latch latch_step "\<lambda>_. True" is_deferred_pre_open_recon_scheduled latch_arms latch_fires
proof (unfold_locales, simp)
  show "is_deferred_pre_open_recon_scheduled db \<and> \<not> is_deferred_pre_open_recon_scheduled (latch_step db e)"
    if "latch_fires db e" for db e
    using that by (cases e) (simp_all add: clear_true_iff clear_disarms)
  show "is_deferred_pre_open_recon_scheduled db \<or> latch_arms e"
    if "is_deferred_pre_open_recon_scheduled (latch_step db e)" for db e
    using that by (cases e) (simp_all add: clear_disarms)
qed

section \<open>Properties\<close>

text \<open>
  The governance row round-trips: whatever the table held, loading after a persist
  returns the state that was persisted, with the recovery streak clamped at zero.
\<close>

theorem governance_state_roundtrip:
  "load_governance_state (persist_governance_state p now t)
     = Some (p\<lparr>ps_recovery_streak := max (ps_recovery_streak p) 0\<rparr>)"
  using vault.load_persist [of p now t] by (simp add: clamped_def)

text \<open>
  Reconciliation keeps exactly the staged orders whose broker id is still open at the
  broker, in every state the registry can reach, and reports exactly the number it removed;
  a second reconciliation against the same open orders removes nothing.
\<close>

theorem reconcile_keeps_exactly_open:
  "let t = foldl pending_step [] ops; res = reconcile_with_broker_open_orders ids t
   in pending_map (fst res) k
        = (case pending_map t k of Some (Some b) \<Rightarrow> if b \<in> ids then Some (Some b) else None
           | _ \<Rightarrow> None)
      \<and> length (fst res) + stale_removed (snd res) = staged_count (snd res)
      \<and> stale_removed (snd (reconcile_with_broker_open_orders ids (fst res))) = 0"
proof -
  let ?t = "foldl pending_step [] ops"
  have u: "keys_unique ?t" by (rule pending_machine.inv_run) simp
  note r = reconcile_filter [OF u, of ids]
  have "length (filter (\<lambda>r. \<not> is_stale ids (po_broker_order_id r)) ?t)
      + length (filter (\<lambda>r. is_stale ids (po_broker_order_id r)) ?t) = length ?t"
    using sql_delete_count [of "\<lambda>r. is_stale ids (po_broker_order_id r)" ?t]
    by (simp add: sql_delete_def)
  then have count: "length (fst (reconcile_with_broker_open_orders ids ?t))
      + stale_removed (snd (reconcile_with_broker_open_orders ids ?t))
      = staged_count (snd (reconcile_with_broker_open_orders ids ?t))"
    unfolding r by (simp add: reconcile_with_broker_open_orders_def Let_def load_all_def)
  have again: "stale_removed (snd (reconcile_with_broker_open_orders ids
      (fst (reconcile_with_broker_open_orders ids ?t)))) = 0"
    unfolding r using reconcile_filter(2) [OF keys_unique_filter [OF u]] by simp
  have "pending_map (filter (\<lambda>r. \<not> is_stale ids (po_broker_order_id r)) ?t) k
      = (case pending_map ?t k of Some (Some b) \<Rightarrow> if b \<in> ids then Some (Some b) else None
         | _ \<Rightarrow> None)"
    using u by (auto simp: pending_map_find keys_unique_def find_row_filter is_stale_def
        split: option.splits)
  with count again show ?thesis unfolding Let_def r(1) by blast
qed

text \<open>
  A staged broker order id is popped exactly once, in every reachable registry: the
  first pop returns it, the next returns nothing, and no other staged order is touched.
\<close>

theorem staged_order_popped_once:
  assumes "t = foldl pending_step [] ops"
  shows "let s = stage k sid sy sde (Some b) now t; p = pop_order k s
         in snd p = Some b \<and> snd (pop_order k (fst p)) = None
            \<and> (k' \<noteq> k \<longrightarrow> pending_map (fst p) k' = pending_map t k')"
proof -
  have "keys_unique t" unfolding assms by (rule pending_machine.inv_run) simp
  then show ?thesis
    using pending.take_after_put [of t k sid sy sde now b]
    by (auto simp: Let_def stage_id_def pending_map_find find_row_stage find_row_pop)
qed

theorem staged_order_popped_once_witness:
  "snd (pop_order ''s:SPY:buy'' (stage ''s:SPY:buy'' ''s'' ''spy'' ''buy'' (Some ''b1'') 0 [])) = Some ''b1''"
  using staged_order_popped_once [of "[]" "[]" "''s:SPY:buy''" "''s''" "''spy''" "''buy''" "''b1''" 0]
  by (simp add: Let_def)

text \<open>
  Clearing a leg removes every staged order of that leg, and, when the leg's name has no
  LIKE wildcard, keeps every order whose key differs from the leg's prefix beyond case.
\<close>

theorem clear_prefix_scope:
  assumes "r \<in> set t"
  shows "((\<exists>rest. po_order_key r = leg_prefix sid sy @ rest)
        \<longrightarrow> r \<notin> set (fst (clear_prefix sid sy t)))
    \<and> (list_all (\<lambda>c. c \<noteq> CHR ''%'' \<and> c \<noteq> CHR ''_'') (leg_prefix sid sy)
        \<and> str_lower (take (length (leg_prefix sid sy)) (po_order_key r))
            \<noteq> str_lower (leg_prefix sid sy)
        \<longrightarrow> r \<in> set (fst (clear_prefix sid sy t)))"
  using assms
  by (auto simp: clear_prefix_def fst_sql_delete sql_like_prefix sql_like_literal_prefix)

definition demo_pending :: "string \<Rightarrow> pending_row" where
  "demo_pending k =
     \<lparr>po_order_key = k, po_strategy_id = ''leg'', po_symbol = ''SPY'', po_side = ''buy'',
      po_broker_order_id = Some ''b1'', po_submitted_at = 0\<rparr>"

theorem clear_prefix_scope_witness:
  "demo_pending ''other:SPY:buy'' \<in> set (fst (clear_prefix ''leg'' ''spy''
     [demo_pending ''leg:SPY:buy'', demo_pending ''other:SPY:buy'']))"
proof -
  have "list_all (\<lambda>c. c \<noteq> CHR ''%'' \<and> c \<noteq> CHR ''_'') (leg_prefix ''leg'' ''spy'')
      \<and> str_lower (take (length (leg_prefix ''leg'' ''spy'')) ''other:SPY:buy'')
          \<noteq> str_lower (leg_prefix ''leg'' ''spy'')"
    by code_simp
  then show ?thesis
    using clear_prefix_scope [of "demo_pending ''other:SPY:buy''"
      "[demo_pending ''leg:SPY:buy'', demo_pending ''other:SPY:buy'']" "''leg''" "''spy''"]
    by (simp add: demo_pending_def)
qed

text \<open>An underscore of a strategy id is a wildcard: clearing one leg drops another's orders.\<close>

lemma clear_prefix_crosses_legs:
  "clear_prefix ''mean_reversion'' ''SPY'' [demo_pending ''mean-reversion:SPY:buy''] = ([], 1)"
  by code_simp

text \<open>
  The deferred reconciliation runs at most once per scheduling: in any interleaving of
  schedules, polls and clears on a fresh vault, the clears that report success are at most
  as many as the schedules; and a clear reports success exactly when a schedule is pending.
\<close>

theorem deferred_recon_consumed_once:
  "firings latch_step latch_fires None ops \<le> length (filter latch_arms ops)
   \<and> (snd (clear_deferred_pre_open_recon now db) \<longleftrightarrow> is_deferred_pre_open_recon_scheduled db)
   \<and> \<not> is_deferred_pre_open_recon_scheduled (fst (clear_deferred_pre_open_recon now db))"
  using deferred_latch.firings_le_arms [of None ops]
    clear_true_iff [of now db] clear_disarms [of now db]
  by (simp add: is_deferred_pre_open_recon_scheduled_def [of None])

end
