(* ===== verification/Degradation.thy ===== *)
theory Degradation
  imports Models Alert_Channel Governance_Store
begin

text \<open>
  The operational degradation manager (\<open>src/engine/degradation_manager.py\<close>): the modes,
  the transitions an SLO verdict drives, the durable row it keeps in the governance store,
  and the pages it sends through a throttled notifier. An operation takes the clock reading
  (one per call) and whether an event loop runs (the webhook page needs one). What the
  notifier pushes and what goes to the webhook is recorded in the state; failing pushes are
  swallowed by the code and not modelled, and a failing vault write raises.
\<close>

section \<open>Modes and verdicts\<close>

datatype integrity_severity = OK | WARNING | SOFT_BREACH | HARD_BREACH

record slo_verdict =
  vd_severity :: integrity_severity
  vd_reasons :: "string list"

datatype operational_mode = NORMAL | SOFT_DEGRADE | RECON_DEGRADED_MANAGE | HARD_CRITICAL_DEGRADE

fun mode_value :: "operational_mode \<Rightarrow> string" where
  "mode_value NORMAL = ''NORMAL''"
| "mode_value SOFT_DEGRADE = ''SOFT_DEGRADE''"
| "mode_value RECON_DEGRADED_MANAGE = ''RECON_DEGRADED_MANAGE''"
| "mode_value HARD_CRITICAL_DEGRADE = ''HARD_CRITICAL_DEGRADE''"

definition all_modes :: "operational_mode list" where
  "all_modes = [NORMAL, SOFT_DEGRADE, RECON_DEGRADED_MANAGE, HARD_CRITICAL_DEGRADE]"

text \<open>\<open>OperationalMode(value)\<close>, \<open>None\<close> for the \<open>ValueError\<close>.\<close>

definition parse_mode :: "string \<Rightarrow> operational_mode option" where
  "parse_mode s = List.find (\<lambda>m. mode_value m = s) all_modes"

lemma parse_mode_value [simp]: "parse_mode (mode_value m) = Some m"
  by (cases m) (simp_all add: parse_mode_def all_modes_def)

definition SOFT_RECOVERY_STREAK :: int where "SOFT_RECOVERY_STREAK = 3"
definition HARD_RECOVERY_STREAK :: int where "HARD_RECOVERY_STREAK = 6"

record degradation_state =
  ds_mode :: operational_mode
  ds_block_new_entries :: bool
  ds_ignore_model_signals :: bool
  ds_force_emergency_flatten :: bool
  ds_bypass_standard_timers :: bool
  ds_allow_exit_tracking :: bool
  ds_reason :: string
  ds_activated_at :: "instant option"

section \<open>The manager\<close>

record degradation_manager =
  dm_vault :: "governance_row list"
  dm_notifier :: "throttle option"
  dm_mode :: operational_mode
  dm_reason :: string
  dm_activated_at :: "instant option"
  dm_recovery_streak :: int
  dm_flatten_latched :: bool
  dm_hydrated :: bool
  dm_pushed :: "alert list"
  dm_webhook :: "string list"

definition new_manager :: "governance_row list \<Rightarrow> throttle option \<Rightarrow> degradation_manager" where
  "new_manager vault notifier =
     \<lparr>dm_vault = vault, dm_notifier = notifier, dm_mode = NORMAL, dm_reason = [],
      dm_activated_at = None, dm_recovery_streak = 0, dm_flatten_latched = False,
      dm_hydrated = False, dm_pushed = [], dm_webhook = []\<rparr>"

definition DEGRADE_COMPONENT :: string where "DEGRADE_COMPONENT = ''degradation_manager''"
definition DEGRADE_KIND :: string where "DEGRADE_KIND = ''hard_critical_degrade''"

definition build_state :: "operational_mode \<Rightarrow> string \<Rightarrow> instant \<Rightarrow> degradation_manager \<Rightarrow> degradation_state" where
  "build_state mode reason now m =
     (let act = (case dm_activated_at m of None \<Rightarrow> Some now | Some t \<Rightarrow> Some t)
      in case mode of
           SOFT_DEGRADE \<Rightarrow>
             \<lparr>ds_mode = mode, ds_block_new_entries = True, ds_ignore_model_signals = False,
              ds_force_emergency_flatten = False, ds_bypass_standard_timers = False,
              ds_allow_exit_tracking = True, ds_reason = reason, ds_activated_at = act\<rparr>
         | RECON_DEGRADED_MANAGE \<Rightarrow>
             \<lparr>ds_mode = mode, ds_block_new_entries = True, ds_ignore_model_signals = False,
              ds_force_emergency_flatten = False, ds_bypass_standard_timers = False,
              ds_allow_exit_tracking = True, ds_reason = reason, ds_activated_at = act\<rparr>
         | HARD_CRITICAL_DEGRADE \<Rightarrow>
             \<lparr>ds_mode = mode, ds_block_new_entries = True, ds_ignore_model_signals = True,
              ds_force_emergency_flatten = True, ds_bypass_standard_timers = True,
              ds_allow_exit_tracking = False, ds_reason = reason, ds_activated_at = act\<rparr>
         | NORMAL \<Rightarrow>
             \<lparr>ds_mode = NORMAL, ds_block_new_entries = False, ds_ignore_model_signals = False,
              ds_force_emergency_flatten = False, ds_bypass_standard_timers = False,
              ds_allow_exit_tracking = True, ds_reason = reason,
              ds_activated_at = dm_activated_at m\<rparr>)"

definition current_state :: "instant \<Rightarrow> degradation_manager \<Rightarrow> degradation_state" where
  "current_state now m = build_state (dm_mode m) (dm_reason m) now m"

definition persist_state :: "instant \<Rightarrow> degradation_manager \<Rightarrow> degradation_manager" where
  "persist_state now m =
     m\<lparr>dm_vault := persist_governance_state
          \<lparr>ps_degradation_mode = mode_value (dm_mode m), ps_trigger_reason = dm_reason m,
           ps_entered_at = dm_activated_at m, ps_flatten_latched = dm_flatten_latched m,
           ps_recovery_streak = dm_recovery_streak m\<rparr> now (dm_vault m),
       dm_hydrated := True\<rparr>"

definition hydrate_from_vault :: "degradation_manager \<Rightarrow> degradation_manager" where
  "hydrate_from_vault m =
     (if dm_hydrated m then m
      else (case load_governance_state (dm_vault m) of
              None \<Rightarrow> m
            | Some p \<Rightarrow>
                m\<lparr>dm_mode := (case parse_mode (ps_degradation_mode p) of None \<Rightarrow> NORMAL | Some md \<Rightarrow> md),
                  dm_reason := ps_trigger_reason p, dm_activated_at := ps_entered_at p,
                  dm_flatten_latched := ps_flatten_latched p, dm_recovery_streak := 0\<rparr>)
           \<lparr>dm_hydrated := True\<rparr>)"

text \<open>The pages: through the notifier when one is injected, and the webhook.\<close>

definition push_alert :: "alert \<Rightarrow> instant \<Rightarrow> degradation_manager \<Rightarrow> degradation_manager" where
  "push_alert a now m =
     (case dm_notifier m of None \<Rightarrow> m
      | Some st \<Rightarrow> m\<lparr>dm_notifier := Some (fst (throttle_notify a now st)),
                     dm_pushed := dm_pushed m @ snd (throttle_notify a now st)\<rparr>)"

definition resolve_alert :: "string \<Rightarrow> string \<Rightarrow> degradation_manager \<Rightarrow> degradation_manager" where
  "resolve_alert component kind m =
     (case dm_notifier m of None \<Rightarrow> m
      | Some st \<Rightarrow> m\<lparr>dm_notifier := Some (fst (throttle_resolve component kind st)),
                     dm_pushed := dm_pushed m @ snd (throttle_resolve component kind st)\<rparr>)"

definition entered_alert :: "string \<Rightarrow> alert" where
  "entered_alert reason =
     \<lparr>al_kind = DEGRADE_KIND, al_severity = ''urgent'',
      al_message = ''Engine entered HARD_CRITICAL_DEGRADE: '' @ reason,
      al_component = DEGRADE_COMPONENT, al_recovered = False\<rparr>"

definition mode_recovered_alert :: "operational_mode \<Rightarrow> string \<Rightarrow> alert" where
  "mode_recovered_alert mode reason =
     \<lparr>al_kind = DEGRADE_KIND @ ''_recovered'', al_severity = ''info'',
      al_message = ''Engine degradation recovered -> '' @ mode_value mode @ '': '' @ reason,
      al_component = DEGRADE_COMPONENT, al_recovered = False\<rparr>"

definition dispatch_degradation_entered ::
  "string \<Rightarrow> instant \<Rightarrow> bool \<Rightarrow> degradation_manager \<Rightarrow> degradation_manager" where
  "dispatch_degradation_entered reason now loop_running m =
     (let m' = push_alert (entered_alert reason) now m
      in if loop_running then m'\<lparr>dm_webhook := dm_webhook m' @ [reason]\<rparr> else m')"

definition dispatch_degradation_recovered ::
  "string \<Rightarrow> instant \<Rightarrow> degradation_manager \<Rightarrow> degradation_manager" where
  "dispatch_degradation_recovered reason now m =
     push_alert (mode_recovered_alert (dm_mode m) reason) now
       (resolve_alert DEGRADE_COMPONENT DEGRADE_KIND m)"

section \<open>Transitions\<close>

definition apply_soft_degrade :: "string \<Rightarrow> instant \<Rightarrow> degradation_manager \<Rightarrow> degradation_manager" where
  "apply_soft_degrade reason now m =
     (if dm_mode m = HARD_CRITICAL_DEGRADE then m
      else
        let entering = (dm_mode m \<noteq> SOFT_DEGRADE);
            m1 = m\<lparr>dm_mode := SOFT_DEGRADE, dm_reason := reason, dm_flatten_latched := False\<rparr>;
            m2 = (if entering then m1\<lparr>dm_activated_at := Some now, dm_recovery_streak := 0\<rparr> else m1)
        in persist_state now m2)"

definition apply_recon_degraded_manage ::
  "string \<Rightarrow> instant \<Rightarrow> degradation_manager \<Rightarrow> degradation_manager" where
  "apply_recon_degraded_manage reason now m =
     (if dm_mode m = HARD_CRITICAL_DEGRADE then m
      else persist_state now
             (m\<lparr>dm_mode := RECON_DEGRADED_MANAGE, dm_reason := reason, dm_activated_at := Some now,
                dm_recovery_streak := 0, dm_flatten_latched := False\<rparr>))"

definition apply_hard_critical_degrade ::
  "string \<Rightarrow> instant \<Rightarrow> bool \<Rightarrow> degradation_manager \<Rightarrow> degradation_manager" where
  "apply_hard_critical_degrade reason now loop_running m =
     (let entering = (dm_mode m \<noteq> HARD_CRITICAL_DEGRADE);
          m1 = m\<lparr>dm_mode := HARD_CRITICAL_DEGRADE, dm_reason := reason\<rparr>;
          m2 = (if entering then m1\<lparr>dm_activated_at := Some now\<rparr> else m1);
          m3 = persist_state now (m2\<lparr>dm_recovery_streak := 0, dm_flatten_latched := True\<rparr>)
      in if entering then dispatch_degradation_entered reason now loop_running m3 else m3)"

definition downgrade_hard_to_soft :: "string \<Rightarrow> instant \<Rightarrow> degradation_manager \<Rightarrow> degradation_manager" where
  "downgrade_hard_to_soft reason now m =
     dispatch_degradation_recovered reason now
       (persist_state now
          (m\<lparr>dm_mode := SOFT_DEGRADE, dm_reason := reason, dm_activated_at := Some now,
             dm_recovery_streak := 0, dm_flatten_latched := False\<rparr>))"

definition reset_to_normal :: "string \<Rightarrow> instant \<Rightarrow> degradation_manager \<Rightarrow> degradation_manager" where
  "reset_to_normal reason now m =
     (let was_degraded = (dm_mode m \<noteq> NORMAL);
          m1 = persist_state now
                 (m\<lparr>dm_mode := NORMAL, dm_reason := reason, dm_activated_at := None,
                    dm_recovery_streak := 0, dm_flatten_latched := False\<rparr>)
      in if was_degraded then dispatch_degradation_recovered reason now m1 else m1)"

definition evaluate_from_slo ::
  "slo_verdict \<Rightarrow> instant \<Rightarrow> bool \<Rightarrow> degradation_manager \<Rightarrow> degradation_manager" where
  "evaluate_from_slo v now loop_running m =
     (if vd_severity v = HARD_BREACH then
        apply_hard_critical_degrade (or_default (str_join ''|'' (vd_reasons v)) ''hard_slo_breach'')
          now loop_running m
      else if dm_mode m = HARD_CRITICAL_DEGRADE then
        let m1 = (if vd_severity v = OK then m\<lparr>dm_recovery_streak := dm_recovery_streak m + 1\<rparr> else m)
        in if HARD_RECOVERY_STREAK \<le> dm_recovery_streak m1
           then downgrade_hard_to_soft ''hard_critical_recovered_to_soft'' now m1
           else persist_state now m1
      else if dm_mode m = SOFT_DEGRADE then
        let m1 = (if vd_severity v = OK then m\<lparr>dm_recovery_streak := dm_recovery_streak m + 1\<rparr> else m)
        in if SOFT_RECOVERY_STREAK \<le> dm_recovery_streak m1
           then reset_to_normal ''slo_recovered'' now m1
           else persist_state now m1
      else if vd_severity v = SOFT_BREACH then
        apply_soft_degrade (or_default (str_join ''|'' (vd_reasons v)) ''soft_slo_breach'') now m
      else if dm_mode m = RECON_DEGRADED_MANAGE then m
      else persist_state now (m\<lparr>dm_recovery_streak := 0\<rparr>))"

section \<open>Queries and the flatten request\<close>

definition should_block_entry_action :: "signal_action option \<Rightarrow> instant \<Rightarrow> degradation_manager \<Rightarrow> bool" where
  "should_block_entry_action action now m =
     (let state = current_state now m
      in if \<not> ds_block_new_entries state then False
         else (case action of None \<Rightarrow> False | Some a \<Rightarrow> a \<in> {LONG, SHORT}))"

definition should_ignore_model_signal :: "instant \<Rightarrow> degradation_manager \<Rightarrow> bool" where
  "should_ignore_model_signal now m = ds_ignore_model_signals (current_state now m)"

definition consume_flatten_request :: "instant \<Rightarrow> degradation_manager \<Rightarrow> degradation_manager \<times> bool" where
  "consume_flatten_request now m =
     (if \<not> dm_flatten_latched m then (m, False)
      else (persist_state now (m\<lparr>dm_flatten_latched := False\<rparr>), True))"

text \<open>Routing parameters: a dictionary of strings, booleans and integers.\<close>

datatype param = PStr string | PBool bool | PInt int

definition override_routing_params ::
  "(string, param) dict \<Rightarrow> instant \<Rightarrow> degradation_manager \<Rightarrow> (string, param) dict" where
  "override_routing_params params now m =
     (let state = current_state now m
      in if ds_mode state = NORMAL then params
         else
           let a1 = AList.update ''operational_mode'' (PStr (mode_value (ds_mode state))) params;
               a2 = AList.update ''degradation_reason'' (PStr (ds_reason state)) a1;
               a3 = (if ds_bypass_standard_timers state
                     then AList.update ''poll_interval_seconds'' (PInt 0)
                            (AList.update ''bypass_standard_timers'' (PBool True) a2)
                     else a2)
           in if ds_block_new_entries state
              then AList.update ''block_new_entries'' (PBool True) a3 else a3)"

section \<open>Operations as steps\<close>

text \<open>A restart builds a new manager, with a new notifier, over the same vault.\<close>

definition restart :: "degradation_manager \<Rightarrow> degradation_manager" where
  "restart m =
     (hydrate_from_vault (new_manager (dm_vault m) (map_option (\<lambda>_. []) (dm_notifier m))))
       \<lparr>dm_pushed := dm_pushed m, dm_webhook := dm_webhook m\<rparr>"

datatype degradation_op =
    Evaluate slo_verdict instant bool
  | Apply_soft string instant
  | Apply_recon string instant
  | Apply_hard string instant bool
  | Reset string instant
  | Consume instant
  | Hydrate
  | Restart

fun dm_step :: "degradation_manager \<Rightarrow> degradation_op \<Rightarrow> degradation_manager" where
  "dm_step m (Evaluate v now l) = evaluate_from_slo v now l m"
| "dm_step m (Apply_soft reason now) = apply_soft_degrade reason now m"
| "dm_step m (Apply_recon reason now) = apply_recon_degraded_manage reason now m"
| "dm_step m (Apply_hard reason now l) = apply_hard_critical_degrade reason now l m"
| "dm_step m (Reset reason now) = reset_to_normal reason now m"
| "dm_step m (Consume now) = fst (consume_flatten_request now m)"
| "dm_step m Hydrate = hydrate_from_vault m"
| "dm_step m Restart = restart m"

definition boot :: "governance_row list \<Rightarrow> throttle option \<Rightarrow> degradation_manager" where
  "boot vault notifier = hydrate_from_vault (new_manager vault notifier)"

section \<open>What the pages leave alone\<close>

named_theorems dm_simps

lemma push_alert_frame [dm_simps]:
  "dm_mode (push_alert a now m) = dm_mode m"
  "dm_reason (push_alert a now m) = dm_reason m"
  "dm_activated_at (push_alert a now m) = dm_activated_at m"
  "dm_recovery_streak (push_alert a now m) = dm_recovery_streak m"
  "dm_flatten_latched (push_alert a now m) = dm_flatten_latched m"
  "dm_vault (push_alert a now m) = dm_vault m"
  "dm_hydrated (push_alert a now m) = dm_hydrated m"
  by (simp_all add: push_alert_def split: option.splits)

lemma resolve_alert_frame [dm_simps]:
  "dm_mode (resolve_alert c k m) = dm_mode m"
  "dm_reason (resolve_alert c k m) = dm_reason m"
  "dm_activated_at (resolve_alert c k m) = dm_activated_at m"
  "dm_recovery_streak (resolve_alert c k m) = dm_recovery_streak m"
  "dm_flatten_latched (resolve_alert c k m) = dm_flatten_latched m"
  "dm_vault (resolve_alert c k m) = dm_vault m"
  "dm_hydrated (resolve_alert c k m) = dm_hydrated m"
  by (simp_all add: resolve_alert_def split: option.splits)

lemma dispatch_frame [dm_simps]:
  "dm_mode (dispatch_degradation_entered r now l m) = dm_mode m"
  "dm_reason (dispatch_degradation_entered r now l m) = dm_reason m"
  "dm_activated_at (dispatch_degradation_entered r now l m) = dm_activated_at m"
  "dm_recovery_streak (dispatch_degradation_entered r now l m) = dm_recovery_streak m"
  "dm_flatten_latched (dispatch_degradation_entered r now l m) = dm_flatten_latched m"
  "dm_vault (dispatch_degradation_entered r now l m) = dm_vault m"
  "dm_hydrated (dispatch_degradation_entered r now l m) = dm_hydrated m"
  "dm_mode (dispatch_degradation_recovered r now m) = dm_mode m"
  "dm_reason (dispatch_degradation_recovered r now m) = dm_reason m"
  "dm_activated_at (dispatch_degradation_recovered r now m) = dm_activated_at m"
  "dm_recovery_streak (dispatch_degradation_recovered r now m) = dm_recovery_streak m"
  "dm_flatten_latched (dispatch_degradation_recovered r now m) = dm_flatten_latched m"
  "dm_vault (dispatch_degradation_recovered r now m) = dm_vault m"
  "dm_hydrated (dispatch_degradation_recovered r now m) = dm_hydrated m"
  by (simp_all add: dispatch_degradation_entered_def dispatch_degradation_recovered_def Let_def dm_simps)

lemma persist_frame [dm_simps]:
  "dm_mode (persist_state now m) = dm_mode m"
  "dm_reason (persist_state now m) = dm_reason m"
  "dm_activated_at (persist_state now m) = dm_activated_at m"
  "dm_recovery_streak (persist_state now m) = dm_recovery_streak m"
  "dm_flatten_latched (persist_state now m) = dm_flatten_latched m"
  "dm_notifier (persist_state now m) = dm_notifier m"
  "dm_pushed (persist_state now m) = dm_pushed m"
  "dm_hydrated (persist_state now m) = True"
  by (simp_all add: persist_state_def)

lemmas transition_defs =
  evaluate_from_slo_def apply_hard_critical_degrade_def apply_soft_degrade_def
  apply_recon_degraded_manage_def downgrade_hard_to_soft_def reset_to_normal_def
  HARD_RECOVERY_STREAK_def SOFT_RECOVERY_STREAK_def Let_def

section \<open>The vault mirrors the manager\<close>

definition mirrors :: "degradation_manager \<Rightarrow> persisted_state \<Rightarrow> bool" where
  "mirrors m p =
     (ps_degradation_mode p = mode_value (dm_mode m) \<and> ps_trigger_reason p = dm_reason m
      \<and> ps_entered_at p = dm_activated_at m \<and> ps_flatten_latched p = dm_flatten_latched m)"

definition synced :: "degradation_manager \<Rightarrow> bool" where
  "synced m =
     (dm_hydrated m
      \<and> (case load_governance_state (dm_vault m) of
           None \<Rightarrow> dm_mode m = NORMAL \<and> dm_reason m = [] \<and> dm_activated_at m = None
                   \<and> \<not> dm_flatten_latched m
         | Some p \<Rightarrow> mirrors m p))"

lemma synced_persist [simp]: "synced (persist_state now m)"
  by (simp add: synced_def persist_state_def vault.load_persist clamped_def mirrors_def)

lemma synced_frame:
  assumes "dm_vault m' = dm_vault m" "dm_mode m' = dm_mode m" "dm_reason m' = dm_reason m"
    "dm_activated_at m' = dm_activated_at m" "dm_flatten_latched m' = dm_flatten_latched m"
    "dm_hydrated m' = dm_hydrated m"
  shows "synced m' = synced m"
  using assms by (simp add: synced_def mirrors_def split: option.splits)

lemma synced_hydrated [simp]: "synced m \<Longrightarrow> dm_hydrated m"
  by (simp add: synced_def)

lemma synced_dispatch [simp]:
  "synced (dispatch_degradation_entered r now l m) = synced m"
  "synced (dispatch_degradation_recovered r now m) = synced m"
  by (rule synced_frame; simp add: dm_simps)+

lemma restart_frame:
  assumes "synced m"
  shows "dm_mode (restart m) = dm_mode m \<and> dm_reason (restart m) = dm_reason m
    \<and> dm_activated_at (restart m) = dm_activated_at m
    \<and> dm_flatten_latched (restart m) = dm_flatten_latched m
    \<and> dm_recovery_streak (restart m) = 0 \<and> dm_vault (restart m) = dm_vault m
    \<and> dm_hydrated (restart m)"
  using assms
  by (auto simp: restart_def hydrate_from_vault_def new_manager_def synced_def mirrors_def
      split: option.splits)

lemma synced_step: "synced m \<Longrightarrow> synced (dm_step m op)"
proof (cases op)
  case Restart
  assume s: "synced m"
  have "synced (restart m) = synced m"
    using restart_frame [OF s] s by (intro synced_frame) (auto simp: synced_def)
  with Restart s show ?thesis by simp
qed (auto simp: transition_defs consume_flatten_request_def hydrate_from_vault_def)

definition streak_bounded :: "degradation_manager \<Rightarrow> bool" where
  "streak_bounded m =
     (0 \<le> dm_recovery_streak m
      \<and> (dm_mode m = HARD_CRITICAL_DEGRADE \<longrightarrow> dm_recovery_streak m < HARD_RECOVERY_STREAK)
      \<and> (dm_mode m = SOFT_DEGRADE \<longrightarrow> dm_recovery_streak m < SOFT_RECOVERY_STREAK))"

definition dm_ok :: "degradation_manager \<Rightarrow> bool" where
  "dm_ok m = (synced m \<and> streak_bounded m)"

lemma dm_ok_step: "dm_ok m \<Longrightarrow> dm_ok (dm_step m op)"
proof -
  assume ok: "dm_ok m"
  then have "synced m" by (simp add: dm_ok_def)
  note r = restart_frame [OF this]
  have "streak_bounded (dm_step m op)"
    using ok r
    by (cases op)
       (auto simp: streak_bounded_def dm_ok_def transition_defs consume_flatten_request_def
         hydrate_from_vault_def dm_simps)
  with ok show ?thesis by (simp add: dm_ok_def synced_step)
qed

lemma dm_ok_boot: "dm_ok (boot [] notifier)"
  by (simp add: boot_def hydrate_from_vault_def new_manager_def load_governance_state_def dm_ok_def
      synced_def streak_bounded_def)

interpretation degradation: invariant_machine dm_step dm_ok
  by unfold_locales (rule dm_ok_step)

section \<open>Progress towards recovery\<close>

text \<open>The number of OK verdicts the manager still demands before NORMAL.\<close>

definition demanded :: "degradation_manager \<Rightarrow> nat" where
  "demanded m =
     (case dm_mode m of
        NORMAL \<Rightarrow> 0
      | SOFT_DEGRADE \<Rightarrow> nat (SOFT_RECOVERY_STREAK - dm_recovery_streak m)
      | RECON_DEGRADED_MANAGE \<Rightarrow> nat SOFT_RECOVERY_STREAK
      | HARD_CRITICAL_DEGRADE \<Rightarrow>
          nat (HARD_RECOVERY_STREAK - dm_recovery_streak m) + nat SOFT_RECOVERY_STREAK)"

type_synonym slo_tick = "slo_verdict \<times> instant \<times> bool"

definition slo_step :: "degradation_manager \<Rightarrow> slo_tick \<Rightarrow> degradation_manager" where
  "slo_step m tick = (case tick of (v, now, l) \<Rightarrow> evaluate_from_slo v now l m)"

definition ok_count :: "slo_tick list \<Rightarrow> nat" where
  "ok_count ticks = length (filter (\<lambda>(v, now, l). vd_severity v = OK) ticks)"

lemma ok_count_simps [simp]:
  "ok_count [] = 0"
  "ok_count (t # ts) = (if vd_severity (fst t) = OK then 1 else 0) + ok_count ts"
  by (auto simp: ok_count_def split: prod.splits)

lemma dm_ok_slo_step: "dm_ok m \<Longrightarrow> dm_ok (slo_step m t)"
  using dm_ok_step [of m "Evaluate (fst t) (fst (snd t)) (snd (snd t))"]
  by (cases t) (simp add: slo_step_def)

lemma demanded_falls_slowly:
  assumes "dm_ok m"
  shows "demanded m \<le> demanded (slo_step m t) + (if vd_severity (fst t) = OK then 1 else 0)"
  using assms
  by (cases t; cases "dm_mode m"; cases "vd_severity (fst t)")
     (auto simp: slo_step_def demanded_def transition_defs dm_simps dm_ok_def streak_bounded_def)

lemma demanded_falls:
  assumes "dm_ok m" and "dm_mode m \<in> {SOFT_DEGRADE, HARD_CRITICAL_DEGRADE}"
    and "vd_severity (fst t) \<noteq> HARD_BREACH"
  shows "demanded (slo_step m t) + (if vd_severity (fst t) = OK then 1 else 0) \<le> demanded m"
    and "dm_mode (slo_step m t) \<noteq> RECON_DEGRADED_MANAGE"
  using assms
  by (cases t; cases "dm_mode m"; cases "vd_severity (fst t)";
      auto simp: slo_step_def demanded_def transition_defs dm_simps dm_ok_def streak_bounded_def)+

lemma demanded_run:
  "dm_ok m \<Longrightarrow> demanded m \<le> demanded (foldl slo_step m ts) + ok_count ts"
proof (induction ts arbitrary: m)
  case (Cons t ts)
  have "demanded m \<le> demanded (slo_step m t) + (if vd_severity (fst t) = OK then 1 else 0)"
    using Cons.prems by (rule demanded_falls_slowly)
  also have "demanded (slo_step m t) \<le> demanded (foldl slo_step (slo_step m t) ts) + ok_count ts"
    using Cons dm_ok_slo_step by blast
  finally show ?case by simp
qed simp

text \<open>Over any operations but an operator's reset, restarts included, only OK verdicts earn credit.\<close>

fun ok_op :: "degradation_op \<Rightarrow> bool" where
  "ok_op (Evaluate v now l) = (vd_severity v = OK)"
| "ok_op _ = False"

fun reset_op :: "degradation_op \<Rightarrow> bool" where
  "reset_op (Reset reason now) = True"
| "reset_op _ = False"

lemma demanded_op:
  assumes "dm_ok m" and "\<not> reset_op op"
  shows "demanded m \<le> demanded (dm_step m op) + (if ok_op op then 1 else 0)"
proof (cases op)
  case (Evaluate v now l)
  then show ?thesis using demanded_falls_slowly [OF assms(1), of "(v, now, l)"] by (simp add: slo_step_def)
next
  case Restart
  have "synced m" "0 \<le> dm_recovery_streak m" using assms(1) by (simp_all add: dm_ok_def streak_bounded_def)
  then show ?thesis using Restart restart_frame [of m] by (cases "dm_mode m") (simp_all add: demanded_def)
next
  case Hydrate
  then show ?thesis using assms(1) by (simp add: dm_ok_def hydrate_from_vault_def)
qed (use assms in \<open>cases "dm_mode m";
       auto simp: demanded_def transition_defs consume_flatten_request_def dm_simps dm_ok_def streak_bounded_def\<close>)+

lemma demanded_ops:
  "dm_ok m \<Longrightarrow> list_all (\<lambda>op. \<not> reset_op op) ops \<Longrightarrow>
     demanded m \<le> demanded (foldl dm_step m ops) + length (filter ok_op ops)"
proof (induction ops arbitrary: m)
  case (Cons op ops)
  have "demanded m \<le> demanded (dm_step m op) + (if ok_op op then 1 else 0)"
    using Cons.prems by (intro demanded_op) simp_all
  also have "demanded (dm_step m op) \<le> demanded (foldl dm_step (dm_step m op) ops) + length (filter ok_op ops)"
    using Cons.prems by (intro Cons.IH) (simp_all add: dm_ok_step)
  finally show ?case by (cases "ok_op op") simp_all
qed simp

lemma demanded_pos:
  "dm_ok m \<Longrightarrow> dm_mode m \<in> {SOFT_DEGRADE, HARD_CRITICAL_DEGRADE} \<Longrightarrow> 0 < demanded m"
  by (auto simp: demanded_def dm_ok_def streak_bounded_def SOFT_RECOVERY_STREAK_def)

lemma recovers:
  assumes "dm_ok m" and "dm_mode m \<noteq> RECON_DEGRADED_MANAGE"
    and "list_all (\<lambda>t. vd_severity (fst t) \<noteq> HARD_BREACH) ts" and "demanded m \<le> ok_count ts"
  shows "\<exists>n \<le> length ts. dm_mode (foldl slo_step m (take n ts)) = NORMAL"
  using assms
proof (induction ts arbitrary: m)
  case Nil
  then show ?case using demanded_pos [of m] by (cases "dm_mode m") auto
next
  case (Cons t ts)
  show ?case
  proof (cases "dm_mode m = NORMAL")
    case True
    then show ?thesis by (intro exI [of _ 0]) simp
  next
    case False
    with Cons.prems(2) have md: "dm_mode m \<in> {SOFT_DEGRADE, HARD_CRITICAL_DEGRADE}"
      by (cases "dm_mode m") auto
    note f = demanded_falls [OF Cons.prems(1) md, of t]
    have "\<exists>n \<le> length ts. dm_mode (foldl slo_step (slo_step m t) (take n ts)) = NORMAL"
      using Cons.prems f by (intro Cons.IH) (auto simp: dm_ok_slo_step)
    then obtain n where "n \<le> length ts" "dm_mode (foldl slo_step (slo_step m t) (take n ts)) = NORMAL"
      by blast
    then show ?thesis by (intro exI [of _ "Suc n"]) simp
  qed
qed

section \<open>The flatten request is a one-shot latch\<close>

fun hard_op :: "degradation_op \<Rightarrow> bool" where
  "hard_op (Evaluate v now l) = (vd_severity v = HARD_BREACH)"
| "hard_op (Apply_hard reason now l) = True"
| "hard_op _ = False"

fun flatten_fires :: "degradation_manager \<Rightarrow> degradation_op \<Rightarrow> bool" where
  "flatten_fires m (Consume now) = snd (consume_flatten_request now m)"
| "flatten_fires m _ = False"

interpretation flatten: one_shot_latch dm_step dm_ok dm_flatten_latched hard_op flatten_fires
proof
  show "dm_flatten_latched m \<and> \<not> dm_flatten_latched (dm_step m op)"
    if "dm_ok m" "flatten_fires m op" for m op
    using that by (cases op) (auto simp: consume_flatten_request_def dm_simps split: if_splits)
  show "dm_flatten_latched m \<or> hard_op op"
    if "dm_ok m" "dm_flatten_latched (dm_step m op)" for m op
    using that restart_frame [of m]
    by (cases op)
       (auto simp: transition_defs consume_flatten_request_def hydrate_from_vault_def dm_simps
         dm_ok_def split: if_splits)
qed

section \<open>Paging on a hard breach\<close>

lemma hard_storm_quiet:
  assumes "dm_mode m = HARD_CRITICAL_DEGRADE"
  shows "dm_mode (apply_hard_critical_degrade r now l m) = HARD_CRITICAL_DEGRADE
    \<and> dm_pushed (apply_hard_critical_degrade r now l m) = dm_pushed m
    \<and> dm_activated_at (apply_hard_critical_degrade r now l m) = dm_activated_at m
    \<and> dm_flatten_latched (apply_hard_critical_degrade r now l m)"
  using assms by (simp add: apply_hard_critical_degrade_def Let_def dm_simps)

lemma hard_storm_run:
  assumes "dm_mode m = HARD_CRITICAL_DEGRADE" and "dm_flatten_latched m"
    and "list_all (\<lambda>t. vd_severity (fst t) = HARD_BREACH) ts"
  shows "dm_pushed (foldl slo_step m ts) = dm_pushed m
    \<and> dm_activated_at (foldl slo_step m ts) = dm_activated_at m
    \<and> dm_mode (foldl slo_step m ts) = HARD_CRITICAL_DEGRADE
    \<and> dm_flatten_latched (foldl slo_step m ts)"
  using assms
proof (induction ts arbitrary: m)
  case (Cons t ts)
  have "slo_step m t = apply_hard_critical_degrade
      (or_default (str_join ''|'' (vd_reasons (fst t))) ''hard_slo_breach'') (fst (snd t)) (snd (snd t)) m"
    using Cons.prems by (cases t) (simp add: slo_step_def evaluate_from_slo_def)
  then have "dm_mode (slo_step m t) = HARD_CRITICAL_DEGRADE" "dm_pushed (slo_step m t) = dm_pushed m"
    "dm_activated_at (slo_step m t) = dm_activated_at m" "dm_flatten_latched (slo_step m t)"
    using hard_storm_quiet [OF Cons.prems(1)] by simp_all
  with Cons.IH [of "slo_step m t"] Cons.prems show ?case by simp
qed simp

lemma hard_entry_push:
  assumes "dm_mode m \<noteq> HARD_CRITICAL_DEGRADE" and "dm_notifier m = Some st"
    and "map_of st (DEGRADE_COMPONENT, DEGRADE_KIND) = None"
  shows "dm_pushed (apply_hard_critical_degrade r now l m) = dm_pushed m @ [entered_alert r]"
    and "dm_activated_at (apply_hard_critical_degrade r now l m) = Some now"
proof -
  have "snd (throttle_notify (entered_alert r) now st) = [entered_alert r]"
    using assms(3) by (intro throttle.first_page) (simp add: alert_key_def entered_alert_def)
  with assms show "dm_pushed (apply_hard_critical_degrade r now l m) = dm_pushed m @ [entered_alert r]"
    by (simp add: apply_hard_critical_degrade_def dispatch_degradation_entered_def push_alert_def
        Let_def dm_simps)
  show "dm_activated_at (apply_hard_critical_degrade r now l m) = Some now"
    using assms by (simp add: apply_hard_critical_degrade_def Let_def dm_simps)
qed

section \<open>Properties\<close>

definition verdict :: "integrity_severity \<Rightarrow> slo_verdict" where
  "verdict s = \<lparr>vd_severity = s, vd_reasons = [''nbbo'']\<rparr>"

text \<open>
  C5: No shortcut out of a hard degrade: from any manager that a history of operations and
  restarts can produce, if it is in HARD_CRITICAL_DEGRADE with no recovery credit, a
  sequence of SLO verdicts brings it back to NORMAL only if at least nine of them are OK.
\<close>

theorem hard_recovery_needs_nine_ok:
  assumes "m = foldl dm_step (boot [] notifier) ops"
    and "dm_mode m = HARD_CRITICAL_DEGRADE" and "dm_recovery_streak m = 0"
    and "dm_mode (foldl slo_step m ticks) = NORMAL"
  shows "9 \<le> ok_count ticks"
proof -
  have "dm_ok m" unfolding assms(1) by (rule degradation.inv_run) (rule dm_ok_boot)
  from demanded_run [OF this, of ticks] show ?thesis
    using assms(2-4) by (simp add: demanded_def HARD_RECOVERY_STREAK_def SOFT_RECOVERY_STREAK_def)
qed

theorem hard_recovery_needs_nine_ok_witness:
  "9 \<le> ok_count (replicate 9 (verdict OK, 60, True))"
proof -
  let ?m = "foldl dm_step (boot [] None) [Evaluate (verdict HARD_BREACH) 0 True]"
  have "dm_mode ?m = HARD_CRITICAL_DEGRADE" "dm_recovery_streak ?m = 0"
    "dm_mode (foldl slo_step ?m (replicate 9 (verdict OK, 60, True))) = NORMAL"
    by code_simp+
  then show ?thesis by (rule hard_recovery_needs_nine_ok [OF refl])
qed

text \<open>
  C6: A hard or soft degrade always has an exit: once no HARD breach recurs, the demanded
  number of OK verdicts (at most nine) reaches NORMAL, however many SOFT and WARNING
  verdicts are interleaved.
\<close>

theorem degrade_recovers:
  assumes "m = foldl dm_step (boot [] notifier) ops"
    and "dm_mode m \<noteq> RECON_DEGRADED_MANAGE"
    and "list_all (\<lambda>t. vd_severity (fst t) \<noteq> HARD_BREACH) ticks" and "9 \<le> ok_count ticks"
  shows "\<exists>n \<le> length ticks. dm_mode (foldl slo_step m (take n ticks)) = NORMAL"
proof -
  have ok: "dm_ok m" unfolding assms(1) by (rule degradation.inv_run) (rule dm_ok_boot)
  have "demanded m \<le> 9"
    using ok by (cases "dm_mode m")
      (auto simp: demanded_def dm_ok_def streak_bounded_def HARD_RECOVERY_STREAK_def
        SOFT_RECOVERY_STREAK_def)
  with assms(4) show ?thesis by (intro recovers [OF ok assms(2,3)]) simp
qed

theorem degrade_recovers_witness:
  "\<exists>n \<le> 18. dm_mode (foldl slo_step
      (foldl dm_step (boot [] None) [Evaluate (verdict HARD_BREACH) 0 True])
      (take n (concat (replicate 9 [(verdict OK, 60, True), (verdict SOFT_BREACH, 90, True)]))))
    = NORMAL"
proof -
  let ?m = "foldl dm_step (boot [] None) [Evaluate (verdict HARD_BREACH) 0 True]"
  let ?ts = "concat (replicate 9 [(verdict OK, 60, True), (verdict SOFT_BREACH, 90, True)])"
  have "dm_mode ?m \<noteq> RECON_DEGRADED_MANAGE"
    "list_all (\<lambda>t. vd_severity (fst t) \<noteq> HARD_BREACH) ?ts" "9 \<le> ok_count ?ts" "length ?ts = 18"
    by code_simp+
  with degrade_recovers [OF refl, of None "[Evaluate (verdict HARD_BREACH) 0 True]" ?ts]
  show ?thesis by metis
qed

text \<open>
  A restart never lifts a degrade: after any history of operations and restarts, a
  restarted manager has the mode, the reason, the entry time and the pending flatten request
  it had before, and no recovery credit.
\<close>

theorem degrade_survives_restart:
  "let m = foldl dm_step (boot [] notifier) ops; r = restart m
   in dm_mode r = dm_mode m \<and> dm_reason r = dm_reason m \<and> dm_activated_at r = dm_activated_at m
      \<and> dm_flatten_latched r = dm_flatten_latched m \<and> dm_recovery_streak r = 0"
proof -
  have "dm_ok (foldl dm_step (boot [] notifier) ops)"
    by (rule degradation.inv_run) (rule dm_ok_boot)
  then show ?thesis using restart_frame by (simp add: dm_ok_def Let_def)
qed

text \<open>
  Every emergency flatten answers a hard breach: over any history, restarts included,
  the flatten requests consumed are at most as many as the hard engagements.
\<close>

theorem flattens_at_most_hard_breaches:
  "firings dm_step flatten_fires (boot [] notifier) ops \<le> length (filter hard_op ops)"
proof -
  have "\<not> dm_flatten_latched (boot [] notifier)"
    by (simp add: boot_def hydrate_from_vault_def new_manager_def load_governance_state_def)
  then show ?thesis using flatten.firings_le_arms [OF dm_ok_boot, of notifier ops] by simp
qed

text \<open>
  A storm of hard breaches pages once and keeps its true start: from a manager that is
  not in HARD and whose page key is not throttled, the first breach pushes one urgent alert
  and every further breach pushes nothing, the entry time stays that of the first, and the
  flatten request stays latched.
\<close>

theorem hard_storm_pages_once:
  assumes "dm_mode m \<noteq> HARD_CRITICAL_DEGRADE" and "dm_notifier m = Some st"
    and "map_of st (DEGRADE_COMPONENT, DEGRADE_KIND) = None"
    and "vd_severity v = HARD_BREACH"
    and "list_all (\<lambda>t. vd_severity (fst t) = HARD_BREACH) ticks"
  shows "let m' = foldl slo_step m ((v, now, l) # ticks)
         in dm_pushed m' = dm_pushed m
              @ [entered_alert (or_default (str_join ''|'' (vd_reasons v)) ''hard_slo_breach'')]
            \<and> dm_activated_at m' = Some now \<and> dm_mode m' = HARD_CRITICAL_DEGRADE
            \<and> dm_flatten_latched m'"
proof -
  let ?r = "or_default (str_join ''|'' (vd_reasons v)) ''hard_slo_breach''"
  have s: "slo_step m (v, now, l) = apply_hard_critical_degrade ?r now l m"
    using assms(4) by (simp add: slo_step_def evaluate_from_slo_def)
  have "dm_mode (apply_hard_critical_degrade ?r now l m) = HARD_CRITICAL_DEGRADE"
    "dm_flatten_latched (apply_hard_critical_degrade ?r now l m)"
    by (simp_all add: apply_hard_critical_degrade_def Let_def dm_simps)
  from hard_storm_run [OF this assms(5)] hard_entry_push [OF assms(1-3), of ?r now l]
  show ?thesis by (simp add: s Let_def)
qed

theorem hard_storm_pages_once_witness:
  "dm_pushed (foldl slo_step (boot [] (Some [])) [(verdict HARD_BREACH, 0, True), (verdict HARD_BREACH, 9, True)])
   = [entered_alert ''nbbo'']"
proof -
  have "dm_mode (boot [] (Some [])) \<noteq> HARD_CRITICAL_DEGRADE"
    "dm_notifier (boot [] (Some [])) = Some []" "dm_pushed (boot [] (Some [])) = []"
    "or_default (str_join ''|'' (vd_reasons (verdict HARD_BREACH))) ''hard_slo_breach'' = ''nbbo''"
    "vd_severity (verdict HARD_BREACH) = HARD_BREACH"
    by code_simp+
  then show ?thesis
    using hard_storm_pages_once [of "boot [] (Some [])" "[]" "verdict HARD_BREACH"
      "[(verdict HARD_BREACH, 9, True)]" 0 True]
    by (simp add: Let_def)
qed

text \<open>
  Entries are blocked exactly in the degraded modes, exits never: the query blocks an
  action iff the mode is not NORMAL and the action opens a position, and signals are ignored
  and flattening forced exactly in HARD_CRITICAL_DEGRADE.
\<close>

theorem degraded_modes_block_entries:
  "(should_block_entry_action a now m
      \<longleftrightarrow> dm_mode m \<noteq> NORMAL \<and> (a = Some LONG \<or> a = Some SHORT))
   \<and> (should_ignore_model_signal now m \<longleftrightarrow> dm_mode m = HARD_CRITICAL_DEGRADE)
   \<and> (map_of (override_routing_params [] now m) ''block_new_entries'' = Some (PBool True)
      \<longleftrightarrow> dm_mode m \<noteq> NORMAL)"
  by (cases "dm_mode m"; cases a)
     (auto simp: should_block_entry_action_def should_ignore_model_signal_def current_state_def
       build_state_def override_routing_params_def Let_def)

section \<open>What the code does beside its comments\<close>

text \<open>The OK verdicts that lift HARD need not be consecutive.\<close>

lemma recovery_not_consecutive:
  "dm_mode (foldl slo_step (boot [] None)
     ((verdict HARD_BREACH, 0, True)
      # concat (replicate 6 [(verdict SOFT_BREACH, 1, True), (verdict OK, 2, True)])))
   = SOFT_DEGRADE"
  by code_simp

text \<open>A SOFT breach followed by three OK verdicts releases RECON_DEGRADED_MANAGE.\<close>

lemma soft_breach_releases_recon:
  "dm_mode (foldl slo_step (apply_recon_degraded_manage ''recon_failed'' 0 (boot [] None))
     [(verdict SOFT_BREACH, 1, True), (verdict OK, 2, True), (verdict OK, 3, True), (verdict OK, 4, True)])
   = NORMAL"
  by code_simp

text \<open>
  With one verdict a minute the HARD to SOFT step pushes two recovery messages, and the
  SOFT to NORMAL step three minutes later none: its key is still throttled.
\<close>

lemma soft_to_normal_recovery_suppressed:
  "let m = foldl slo_step (boot [] (Some []))
       ((verdict HARD_BREACH, 0, True)
        # map (\<lambda>i. (verdict OK, seconds (60 * i), True)) [1, 2, 3, 4, 5, 6, 7, 8, 9])
   in dm_mode m = NORMAL
      \<and> map al_message (dm_pushed m) =
          [''Engine entered HARD_CRITICAL_DEGRADE: nbbo'',
           ''degradation_manager hard_critical_degrade RECOVERED'',
           ''Engine degradation recovered -> SOFT_DEGRADE: hard_critical_recovered_to_soft'']"
  by code_simp

end
