(* ===== verification/Command_Queue.thy ===== *)
theory Command_Queue
  imports Sql_Table
begin

text \<open>
  The persistent command bus of \<open>src/control/command_queue.py\<close>: the Supabase table
  (\<open>cloud\<close>, schema in \<open>supabase/migrations/010_control_commands.sql\<close>) and the local
  SQLite table (\<open>local\<close>), every operation that reads or writes them, and the claims the
  module makes: a terminal command never changes, emergency commands never expire, a
  command is claimed once, a poison command is fired a bounded number of times.

  Every Supabase call may fail; how it fails is an argument: before the write
  (\<open>Net_lost_before\<close>) or after the write took effect but before the answer arrived
  (\<open>Net_lost_after\<close>). The clock (\<open>now\<close>) and fresh ids are arguments. JSON payloads are
  carried as their text.
\<close>

section \<open>Commands and the two tables\<close>

datatype control_command_type =
    FLATTEN_AND_HALT | GO_LIVE | ENGAGE_KILL_SWITCH | RELEASE_KILL_SWITCH | RELOAD_CONFIG | PING

fun command_type_value :: "control_command_type \<Rightarrow> string" where
  "command_type_value FLATTEN_AND_HALT = ''FLATTEN_AND_HALT''"
| "command_type_value GO_LIVE = ''GO_LIVE''"
| "command_type_value ENGAGE_KILL_SWITCH = ''ENGAGE_KILL_SWITCH''"
| "command_type_value RELEASE_KILL_SWITCH = ''RELEASE_KILL_SWITCH''"
| "command_type_value RELOAD_CONFIG = ''RELOAD_CONFIG''"
| "command_type_value PING = ''PING''"

definition EMERGENCY_COMMAND_TYPES :: "control_command_type set" where
  "EMERGENCY_COMMAND_TYPES = {FLATTEN_AND_HALT, ENGAGE_KILL_SWITCH}"

datatype control_command_status = PENDING | PROCESSING | COMPLETED | FAILED

definition terminal :: "control_command_status \<Rightarrow> bool" where
  "terminal s = (s \<in> {COMPLETED, FAILED})"

definition MAX_RECLAIM_ATTEMPTS :: nat where
  "MAX_RECLAIM_ATTEMPTS = 3"

record control_command =
  command_id :: string
  command_type :: control_command_type
  payload :: string
  status :: control_command_status
  requested_by :: "string option"
  idempotency_key :: "string option"
  error_message :: "string option"
  created_at :: instant
  processed_at :: "instant option"
  expires_at :: "instant option"

text \<open>A row of the local table also counts the reclaim attempts.\<close>

record command_row = control_command +
  attempts :: nat

record command_bus =
  cloud :: "control_command list option"
  local :: "command_row list"

datatype queue_error = TTL_on_protective_command | IntegrityError

datatype net = Net_ok | Net_lost_before | Net_lost_after

text \<open>\<open>PRIMARY KEY (command_id)\<close> and \<open>UNIQUE (idempotency_key)\<close>; NULL keys never clash.\<close>

definition conflicts :: "('a control_command_scheme) list \<Rightarrow> string \<Rightarrow> string option \<Rightarrow> bool" where
  "conflicts t cid key =
     (\<exists>r \<in> set t. command_id r = cid \<or> (key \<noteq> None \<and> idempotency_key r = key))"

section \<open>Enqueue\<close>

definition sqlite_row_to_command :: "command_row \<Rightarrow> control_command" where
  "sqlite_row_to_command r = control_command.truncate r"

definition enqueue_control_command_local ::
  "control_command_type \<Rightarrow> string \<Rightarrow> string option \<Rightarrow> string option \<Rightarrow> string \<Rightarrow> instant
     \<Rightarrow> instant option \<Rightarrow> command_bus \<Rightarrow> queue_error + (control_command \<times> command_bus)" where
  "enqueue_control_command_local ct body who key cid now expires b =
     (if expires \<noteq> None \<and> ct \<in> EMERGENCY_COMMAND_TYPES then Inl TTL_on_protective_command
      else if conflicts (local b) cid key then Inl IntegrityError
      else
        let row = \<lparr>command_id = cid, command_type = ct, payload = body, status = PENDING,
                   requested_by = who, idempotency_key = key, error_message = None,
                   created_at = now, processed_at = None, expires_at = expires, attempts = 0\<rparr>
        in Inr (sqlite_row_to_command row, b\<lparr>local := local b @ [row]\<rparr>))"

definition fetch_command_by_idempotency_key ::
  "bool \<Rightarrow> string \<Rightarrow> command_bus \<Rightarrow> control_command option" where
  "fetch_command_by_idempotency_key cloud_ok key b =
     (let from_cloud =
        (case cloud b of
           None \<Rightarrow> None
         | Some t \<Rightarrow> if cloud_ok then find_row idempotency_key (Some key) t else None)
      in case from_cloud of
           Some c \<Rightarrow> Some c
         | None \<Rightarrow> map_option sqlite_row_to_command (find_row idempotency_key (Some key) (local b)))"

text \<open>
  \<open>net\<close> is the fate of the Supabase insert, \<open>lookup_ok\<close> whether the lookup after a
  duplicate-key error gets through.
\<close>

definition enqueue_control_command ::
  "net \<Rightarrow> bool \<Rightarrow> control_command_type \<Rightarrow> string \<Rightarrow> string option \<Rightarrow> string option \<Rightarrow> string
     \<Rightarrow> instant \<Rightarrow> command_bus \<Rightarrow> queue_error + (control_command \<times> command_bus)" where
  "enqueue_control_command net lookup_ok ct body who key cid now b =
     (let stage_local = enqueue_control_command_local ct body who key cid now None;
          row = \<lparr>command_id = cid, command_type = ct, payload = body, status = PENDING,
                 requested_by = who, idempotency_key = key, error_message = None,
                 created_at = now, processed_at = None, expires_at = None\<rparr>
      in case cloud b of
           None \<Rightarrow> stage_local b
         | Some t \<Rightarrow>
             (case net of
                Net_lost_before \<Rightarrow> stage_local b
              | Net_lost_after \<Rightarrow>
                  stage_local (if conflicts t cid key then b else b\<lparr>cloud := Some (t @ [row])\<rparr>)
              | Net_ok \<Rightarrow>
                  if \<not> conflicts t cid key then Inr (row, b\<lparr>cloud := Some (t @ [row])\<rparr>)
                  else
                    (case key of
                       None \<Rightarrow> stage_local b
                     | Some k \<Rightarrow>
                         if k = [] then stage_local b
                         else case fetch_command_by_idempotency_key lookup_ok k b of
                                Some existing \<Rightarrow> Inr (existing, b)
                              | None \<Rightarrow> stage_local b)))"

section \<open>Reading the pending commands\<close>

fun merge_unseen :: "string set \<Rightarrow> control_command list \<Rightarrow> control_command list" where
  "merge_unseen seen [] = []"
| "merge_unseen seen (c # cs) =
     (if command_id c \<in> seen then merge_unseen seen cs
      else c # merge_unseen (insert (command_id c) seen) cs)"

definition fetch_pending_commands ::
  "bool \<Rightarrow> int \<Rightarrow> command_bus \<Rightarrow> control_command list" where
  "fetch_pending_commands cloud_ok limit b =
     (let cap = nat (max limit 1);
          cloud_rows =
            (case cloud b of
               None \<Rightarrow> []
             | Some t \<Rightarrow>
                 if cloud_ok
                 then take cap (sort_key created_at (filter (\<lambda>r. status r = PENDING) t)) else []);
          local_rows =
            map sqlite_row_to_command
              (take cap (sort_key created_at (filter (\<lambda>r. status r = PENDING) (local b))))
      in take cap (sort_key created_at (merge_unseen {} (cloud_rows @ local_rows))))"

section \<open>Claiming\<close>

definition pending_with_id :: "string \<Rightarrow> 'a control_command_scheme \<Rightarrow> bool" where
  "pending_with_id cid r = (command_id r = cid \<and> status r = PENDING)"

definition to_processing ::
  "instant \<Rightarrow> 'a control_command_scheme \<Rightarrow> 'a control_command_scheme" where
  "to_processing now r = r\<lparr>status := PROCESSING, processed_at := Some now\<rparr>"

definition transition_local_pending_to_processing ::
  "bool \<Rightarrow> string \<Rightarrow> instant \<Rightarrow> command_bus \<Rightarrow> command_bus \<times> nat" where
  "transition_local_pending_to_processing local_ok cid now b =
     (if local_ok then
        let (t, n) = sql_update (pending_with_id cid) (to_processing now) (local b)
        in (b\<lparr>local := t\<rparr>, n)
      else (b, 0))"

text \<open>
  How the three remote or best-effort calls of one claim go: the compare-and-set, the
  existence check after it missed, and the best-effort write of the local mirror.
\<close>

record claim_env =
  cas_net :: net
  select_ok :: bool
  mirror_ok :: bool

abbreviation healthy :: claim_env where
  "healthy \<equiv> \<lparr>cas_net = Net_ok, select_ok = True, mirror_ok = True\<rparr>"

definition claim_local :: "string \<Rightarrow> instant \<Rightarrow> command_bus \<Rightarrow> bool \<times> command_bus" where
  "claim_local cid now b =
     (let (t, n) = sql_update (pending_with_id cid) (to_processing now) (local b)
      in (0 < n, b\<lparr>local := t\<rparr>))"

definition try_claim_command ::
  "claim_env \<Rightarrow> string \<Rightarrow> instant \<Rightarrow> command_bus \<Rightarrow> bool \<times> command_bus" where
  "try_claim_command env cid now b =
     (case cloud b of
        None \<Rightarrow> claim_local cid now b
      | Some t \<Rightarrow>
          let (t', n) = sql_update (pending_with_id cid) (to_processing now) t
          in if cas_net env = Net_ok \<and> 0 < n then
               (True, fst (transition_local_pending_to_processing (mirror_ok env) cid now
                             (b\<lparr>cloud := Some t'\<rparr>)))
             else
               let b' = (if cas_net env = Net_lost_before then b else b\<lparr>cloud := Some t'\<rparr>);
                   t'' = (if cas_net env = Net_lost_before then t else t')
               in if select_ok env \<and> (\<exists>r \<in> set t''. command_id r = cid) then (False, b')
                  else claim_local cid now b')"

fun claim_each ::
  "(string \<Rightarrow> claim_env) \<Rightarrow> instant \<Rightarrow> control_command list \<Rightarrow> command_bus
     \<Rightarrow> control_command list \<times> command_bus" where
  "claim_each envs now [] b = ([], b)"
| "claim_each envs now (c # cs) b =
     (if command_type c \<notin> EMERGENCY_COMMAND_TYPES then claim_each envs now cs b
      else
        let (won, b') = try_claim_command (envs (command_id c)) (command_id c) now b
        in if \<not> won then claim_each envs now cs b'
           else
             let (claimed, b'') = claim_each envs now cs b'
             in (c\<lparr>status := PROCESSING, error_message := None, processed_at := Some now,
                   expires_at := None\<rparr> # claimed, b''))"

definition fetch_and_claim_emergency_commands ::
  "bool \<Rightarrow> (string \<Rightarrow> claim_env) \<Rightarrow> instant \<Rightarrow> int \<Rightarrow> command_bus
     \<Rightarrow> control_command list \<times> command_bus" where
  "fetch_and_claim_emergency_commands cloud_ok envs now limit b =
     claim_each envs now (fetch_pending_commands cloud_ok (max limit 1) b) b"

section \<open>Marking\<close>

definition mark_command_processing :: "net \<Rightarrow> string \<Rightarrow> instant \<Rightarrow> command_bus \<Rightarrow> command_bus" where
  "mark_command_processing net cid now b =
     (let hit = (\<lambda>r. command_id r = cid);
          on_local = (\<lambda>b. b\<lparr>local := fst (sql_update (\<lambda>r. command_id r = cid) (to_processing now) (local b))\<rparr>)
      in case cloud b of
           None \<Rightarrow> on_local b
         | Some t \<Rightarrow>
             let b' = b\<lparr>cloud := Some (fst (sql_update hit (to_processing now) t))\<rparr>
             in case net of Net_ok \<Rightarrow> b' | Net_lost_before \<Rightarrow> on_local b | Net_lost_after \<Rightarrow> on_local b')"

definition to_terminal ::
  "control_command_status \<Rightarrow> string option \<Rightarrow> instant
     \<Rightarrow> 'a control_command_scheme \<Rightarrow> 'a control_command_scheme" where
  "to_terminal st err now r = r\<lparr>status := st, processed_at := Some now, error_message := err\<rparr>"

text \<open>The flag returned is \<open>False\<close> exactly when the failure is logged as an error.\<close>

definition mark_terminal ::
  "net \<Rightarrow> string \<Rightarrow> control_command_status \<Rightarrow> string option \<Rightarrow> instant \<Rightarrow> command_bus
     \<Rightarrow> bool \<times> command_bus" where
  "mark_terminal net cid st err now b =
     (let (wrote_cloud, b1) =
        (case cloud b of
           None \<Rightarrow> (False, b)
         | Some t \<Rightarrow>
             let (t', n) = sql_update (\<lambda>r. command_id r = cid) (to_terminal st err now) t
             in case net of
                  Net_ok \<Rightarrow> (0 < n, b\<lparr>cloud := Some t'\<rparr>)
                | Net_lost_before \<Rightarrow> (False, b)
                | Net_lost_after \<Rightarrow> (False, b\<lparr>cloud := Some t'\<rparr>));
          (l, m) = sql_update (\<lambda>r. command_id r = cid \<and> \<not> terminal (status r))
                     (to_terminal st err now) (local b1);
          b2 = b1\<lparr>local := l\<rparr>;
          already = (\<exists>r \<in> set l. command_id r = cid)
      in (wrote_cloud \<or> 0 < m \<or> already, b2))"

definition mark_command_completed :: "net \<Rightarrow> string \<Rightarrow> instant \<Rightarrow> command_bus \<Rightarrow> bool \<times> command_bus" where
  "mark_command_completed net cid now b = mark_terminal net cid COMPLETED None now b"

definition mark_command_failed ::
  "net \<Rightarrow> string \<Rightarrow> string \<Rightarrow> instant \<Rightarrow> command_bus \<Rightarrow> bool \<times> command_bus" where
  "mark_command_failed net cid msg now b =
     mark_terminal net cid FAILED (Some (take 2000 msg)) now b"

section \<open>Mirroring local history to Supabase\<close>

text \<open>
  The upsert writes the columns of the local row except the TTL; an upsert whose
  idempotency key belongs to another command is refused by the table.
\<close>

definition mirror_record :: "command_row \<Rightarrow> control_command \<Rightarrow> control_command" where
  "mirror_record r c = (sqlite_row_to_command r)\<lparr>expires_at := expires_at c\<rparr>"

definition mirror_one ::
  "(string \<Rightarrow> net) \<Rightarrow> control_command list \<times> nat \<Rightarrow> command_row \<Rightarrow> control_command list \<times> nat" where
  "mirror_one nets tn r =
     (let (t, n) = tn;
          refused = (\<exists>c \<in> set t. command_id c \<noteq> command_id r \<and> idempotency_key r \<noteq> None
                                \<and> idempotency_key c = idempotency_key r);
          t' = sql_upsert command_id (mirror_record r)
                 ((sqlite_row_to_command r)\<lparr>expires_at := None\<rparr>) t
      in case nets (command_id r) of
           Net_lost_before \<Rightarrow> (t, n)
         | Net_lost_after \<Rightarrow> (if refused then t else t', n)
         | Net_ok \<Rightarrow> if refused then (t, n) else (t', n + 1))"

definition mirror_local_commands_to_supabase ::
  "(string \<Rightarrow> net) \<Rightarrow> int \<Rightarrow> command_bus \<Rightarrow> nat \<times> command_bus" where
  "mirror_local_commands_to_supabase nets limit b =
     (case cloud b of
        None \<Rightarrow> (0, b)
      | Some t \<Rightarrow>
          let rows = take (nat (max limit 1)) (sort_key (\<lambda>r. - created_at r) (local b));
              (t', n) = foldl (mirror_one nets) (t, 0) rows
          in (n, b\<lparr>cloud := Some t'\<rparr>))"

section \<open>Crash recovery and retirement\<close>

record reclaim_tally =
  requeued :: nat
  poisoned :: nat
  poison_failures :: "string list"

definition processing_with_id :: "string \<Rightarrow> command_row \<Rightarrow> bool" where
  "processing_with_id cid r = (command_id r = cid \<and> status r = PROCESSING)"

definition reclaim_one ::
  "nat \<Rightarrow> instant \<Rightarrow> reclaim_tally \<times> command_row list \<Rightarrow> string \<times> nat
     \<Rightarrow> reclaim_tally \<times> command_row list" where
  "reclaim_one max_attempts now acc orphan =
     (let (tally, t) = acc; (cid, tries) = orphan
      in if max_attempts \<le> tries then
           let (t', n) = sql_update (processing_with_id cid)
                 (to_terminal FAILED (Some (''poison: exceeded '' @ str_of_nat max_attempts @ '' reclaim attempts'')) now) t
           in if 1 \<le> n then (tally\<lparr>poisoned := poisoned tally + 1\<rparr>, t')
              else (tally\<lparr>poison_failures := poison_failures tally @ [cid]\<rparr>, t')
         else
           (tally\<lparr>requeued := requeued tally + 1\<rparr>,
            fst (sql_update (processing_with_id cid)
                   (\<lambda>r. r\<lparr>status := PENDING, attempts := tries + 1\<rparr>) t)))"

definition reclaim_orphaned_processing_commands ::
  "nat \<Rightarrow> instant \<Rightarrow> command_bus \<Rightarrow> reclaim_tally \<times> command_bus" where
  "reclaim_orphaned_processing_commands max_attempts now b =
     (let orphans = map (\<lambda>r. (command_id r, attempts r))
                      (filter (\<lambda>r. status r = PROCESSING) (local b));
          (tally, t) = foldl (reclaim_one max_attempts now)
                         (\<lparr>requeued = 0, poisoned = 0, poison_failures = []\<rparr>, local b) orphans
      in (tally, b\<lparr>local := t\<rparr>))"

definition expired :: "instant \<Rightarrow> command_row \<Rightarrow> bool" where
  "expired now r =
     (status r \<in> {PENDING, PROCESSING}
      \<and> (case expires_at r of None \<Rightarrow> False | Some e \<Rightarrow> e < now))"

definition retire_expired_commands :: "instant \<Rightarrow> command_bus \<Rightarrow> nat \<times> command_bus" where
  "retire_expired_commands now b =
     (let (t, n) = sql_update (expired now)
            (to_terminal FAILED (Some ''expired: TTL elapsed before terminal'') now) (local b)
      in (n, b\<lparr>local := t\<rparr>))"

definition retire_stale_one ::
  "string \<Rightarrow> instant \<Rightarrow> nat \<times> command_row list \<Rightarrow> string \<Rightarrow> nat \<times> command_row list" where
  "retire_stale_one reason now acc cid =
     (let (retired, t) = acc;
          (t', n) = sql_update (processing_with_id cid)
                      (to_terminal FAILED (Some (''retired: '' @ reason)) now) t
      in (if 1 \<le> n then retired + 1 else retired, t'))"

definition retire_stale_processing_orphans ::
  "string \<Rightarrow> int \<Rightarrow> control_command_type option \<Rightarrow> instant \<Rightarrow> command_bus
     \<Rightarrow> nat \<times> command_bus" where
  "retire_stale_processing_orphans reason older_than ct now b =
     (let cutoff = now - older_than;
          ids = map command_id
                  (filter (\<lambda>r. status r = PROCESSING \<and> created_at r < cutoff
                             \<and> (case ct of None \<Rightarrow> True | Some c \<Rightarrow> command_type r = c)) (local b));
          (n, t) = foldl (retire_stale_one reason now) (0, local b) ids
      in (n, b\<lparr>local := t\<rparr>))"

section \<open>How a row may change\<close>

text \<open>
  \<open>fires r\<close> counts how often row \<open>r\<close> can still be claimed; \<open>evolves\<close> is what any
  operation may do to one row, \<open>extends\<close> what it may do to the table.
\<close>

definition fires :: "command_row \<Rightarrow> nat" where
  "fires r =
     (case status r of
        PENDING \<Rightarrow> Suc (MAX_RECLAIM_ATTEMPTS - attempts r)
      | PROCESSING \<Rightarrow> MAX_RECLAIM_ATTEMPTS - attempts r
      | COMPLETED \<Rightarrow> 0 | FAILED \<Rightarrow> 0)"

definition evolves :: "command_row \<Rightarrow> command_row \<Rightarrow> bool" where
  "evolves r r' =
     (command_id r' = command_id r \<and> command_type r' = command_type r
      \<and> expires_at r' = expires_at r \<and> created_at r' = created_at r
      \<and> (terminal (status r) \<longrightarrow> r' = r) \<and> fires r' \<le> fires r)"

definition extends :: "command_row list \<Rightarrow> command_row list \<Rightarrow> bool" where
  "extends t t' = (\<exists>u v. t' = u @ v \<and> list_all2 evolves t u)"

definition queue_ok :: "command_bus \<Rightarrow> bool" where
  "queue_ok b =
     (distinct (map command_id (local b))
      \<and> (\<forall>r \<in> set (local b). command_type r \<in> EMERGENCY_COMMAND_TYPES \<longrightarrow> expires_at r = None))"

lemma evolves_refl [simp]: "evolves r r"
  by (simp add: evolves_def)

lemma evolves_trans: "evolves a b \<Longrightarrow> evolves b c \<Longrightarrow> evolves a c"
  by (auto simp: evolves_def)

lemma list_all2_evolves_ids: "list_all2 evolves t u \<Longrightarrow> map command_id u = map command_id t"
  by (induction rule: list_all2_induct) (auto simp: evolves_def)

lemma list_all2_evolves_find:
  "list_all2 evolves t u \<Longrightarrow>
     (case find_row command_id cid t of
        None \<Rightarrow> find_row command_id cid u = None
      | Some r \<Rightarrow> \<exists>r'. find_row command_id cid u = Some r' \<and> evolves r r')"
  by (induction rule: list_all2_induct) (auto simp: evolves_def split: option.splits)

lemma extends_refl [simp, intro]: "extends t t"
  unfolding extends_def by (rule exI [of _ t], rule exI [of _ "[]"]) (simp add: list.rel_refl)

lemma extends_append: "extends t (t @ u)"
  unfolding extends_def by (rule exI [of _ t], rule exI [of _ u]) (simp add: list.rel_refl)

lemma extends_trans:
  assumes "extends t u" and "extends u v"
  shows "extends t v"
proof -
  obtain u1 u2 where u: "u = u1 @ u2" "list_all2 evolves t u1"
    using assms(1) by (auto simp: extends_def)
  obtain v1 v2 where v: "v = v1 @ v2" "list_all2 evolves u v1"
    using assms(2) by (auto simp: extends_def)
  from v(2) u(1) obtain w1 w2 where w: "v1 = w1 @ w2" "list_all2 evolves u1 w1"
    by (auto simp: list_all2_append1)
  have "list_all2 evolves t w1"
    by (rule list_all2_trans [OF _ u(2) w(2)]) (rule evolves_trans)
  with v(1) w(1) show ?thesis unfolding extends_def by (metis append.assoc)
qed

lemma extends_map:
  assumes "\<And>r. r \<in> set t \<Longrightarrow> evolves r (f r)"
  shows "extends t (map f t)"
  unfolding extends_def using assms
  by (intro exI [of _ "map f t"] exI [of _ "[]"]) (simp add: list.rel_map list.rel_refl_strong)

lemma extends_update:
  assumes "\<And>r. r \<in> set t \<Longrightarrow> p r \<Longrightarrow> evolves r (f r)"
  shows "extends t (fst (sql_update p f t))"
  using assms by (auto simp: fst_sql_update intro!: extends_map)


lemma extends_find:
  assumes "extends t t'" and "find_row command_id cid t = Some r"
  shows "\<exists>r'. find_row command_id cid t' = Some r' \<and> evolves r r'"
  using assms list_all2_evolves_find [of t _ cid]
  by (fastforce simp: extends_def find_row_append split: option.splits)

lemma to_processing_evolves: "status r = PENDING \<Longrightarrow> evolves r (to_processing now r)"
  by (simp add: evolves_def to_processing_def terminal_def fires_def)

lemma to_terminal_evolves:
  "\<not> terminal (status r) \<Longrightarrow> terminal st \<Longrightarrow> evolves r (to_terminal st err now r)"
  by (auto simp: evolves_def to_terminal_def terminal_def fires_def)

definition reclaim_row :: "nat \<Rightarrow> instant \<Rightarrow> command_row \<Rightarrow> command_row" where
  "reclaim_row max_attempts now r =
     (if status r \<noteq> PROCESSING then r
      else if max_attempts \<le> attempts r
      then to_terminal FAILED
             (Some (''poison: exceeded '' @ str_of_nat max_attempts @ '' reclaim attempts'')) now r
      else r\<lparr>status := PENDING, attempts := attempts r + 1\<rparr>)"

lemma reclaim_is_map:
  assumes "distinct (map command_id (local b))"
  shows "snd (reclaim_orphaned_processing_commands m now b) = b\<lparr>local := map (reclaim_row m now) (local b)\<rparr>"
proof -
  let ?g = "\<lambda>(r :: command_row) (x :: command_row). if m \<le> attempts r
      then to_terminal FAILED (Some (''poison: exceeded '' @ str_of_nat m @ '' reclaim attempts'')) now x
      else x\<lparr>status := PENDING, attempts := attempts r + 1\<rparr>"
  let ?upd = "\<lambda>t r. fst (sql_update (\<lambda>x. command_id x = command_id r \<and> status x = PROCESSING) (?g r) t)"
  have "snd (foldl (reclaim_one m now) (ty, t) (map (\<lambda>r. (command_id r, attempts r)) rs)) = foldl ?upd t rs"
    for ty t rs
    by (induction rs arbitrary: ty t)
       (auto simp: reclaim_one_def processing_with_id_def sql_update_def Let_def cong: if_cong)
  moreover have "foldl ?upd (local b) (filter (\<lambda>r. status r = PROCESSING) (local b))
      = map (reclaim_row m now) (local b)"
    by (subst foldl_keyed_update) (auto simp: assms reclaim_row_def to_terminal_def)
  ultimately show ?thesis
    by (simp add: reclaim_orphaned_processing_commands_def split_beta)
qed

definition retire_stale_row ::
  "string \<Rightarrow> int \<Rightarrow> control_command_type option \<Rightarrow> instant \<Rightarrow> command_row \<Rightarrow> command_row" where
  "retire_stale_row reason older ct now r =
     (if status r = PROCESSING \<and> created_at r < now - older
         \<and> (case ct of None \<Rightarrow> True | Some c \<Rightarrow> command_type r = c)
      then to_terminal FAILED (Some (''retired: '' @ reason)) now r else r)"

lemma retire_stale_is_map:
  assumes "distinct (map command_id (local b))"
  shows "snd (retire_stale_processing_orphans reason older ct now b)
    = b\<lparr>local := map (retire_stale_row reason older ct now) (local b)\<rparr>"
proof -
  let ?g = "\<lambda>(r :: command_row) (x :: command_row). to_terminal FAILED (Some (''retired: '' @ reason)) now x"
  let ?Q = "\<lambda>r. status r = PROCESSING \<and> created_at r < now - older
        \<and> (case ct of None \<Rightarrow> True | Some c \<Rightarrow> command_type r = c)"
  let ?upd = "\<lambda>t r. fst (sql_update (\<lambda>x. command_id x = command_id r \<and> status x = PROCESSING) (?g r) t)"
  have "snd (foldl (retire_stale_one reason now) (n, t) (map command_id rs)) = foldl ?upd t rs" for n t rs
    by (induction rs arbitrary: n t)
       (auto simp: retire_stale_one_def processing_with_id_def sql_update_def Let_def)
  moreover have "foldl ?upd (local b) (filter ?Q (local b))
      = map (retire_stale_row reason older ct now) (local b)"
    by (subst foldl_keyed_update) (auto simp: assms to_terminal_def retire_stale_row_def)
  ultimately show ?thesis
    by (simp add: retire_stale_processing_orphans_def split_beta Let_def)
qed

lemma retire_stale_row_evolves: "evolves r (retire_stale_row reason older ct now r)"
  by (simp add: retire_stale_row_def to_terminal_evolves terminal_def)

lemma reclaim_row_evolves: "evolves r (reclaim_row MAX_RECLAIM_ATTEMPTS now r)"
  by (auto simp: reclaim_row_def evolves_def to_terminal_def terminal_def fires_def)

section \<open>Operations as steps\<close>

text \<open>
  Every operation of the module that writes the bus. \<open>mark_command_processing\<close> is a public
  function that no code path calls; it is a step like the others, and the only one without a
  guard on the status it overwrites.
\<close>

datatype queue_op =
    Enqueue net bool control_command_type string "string option" "string option" string instant
  | Enqueue_local control_command_type string "string option" "string option" string instant
      "instant option"
  | Claim claim_env string instant
  | Claim_emergency bool "string \<Rightarrow> claim_env" instant int
  | Mark_processing net string instant
  | Mark_completed net string instant
  | Mark_failed net string string instant
  | Mirror "string \<Rightarrow> net" int
  | Reclaim instant
  | Retire_expired instant
  | Retire_stale string int "control_command_type option" instant

definition result_bus :: "command_bus \<Rightarrow> queue_error + (control_command \<times> command_bus) \<Rightarrow> command_bus" where
  "result_bus b r = (case r of Inl e \<Rightarrow> b | Inr (c, b') \<Rightarrow> b')"

text \<open>One operation: the ids it claimed, and the bus after it.\<close>

fun queue_step :: "command_bus \<Rightarrow> queue_op \<Rightarrow> string list \<times> command_bus" where
  "queue_step b (Enqueue net ok ct body who key cid now) =
     ([], result_bus b (enqueue_control_command net ok ct body who key cid now b))"
| "queue_step b (Enqueue_local ct body who key cid now ttl) =
     ([], result_bus b (enqueue_control_command_local ct body who key cid now ttl b))"
| "queue_step b (Claim env cid now) =
     (let (won, b') = try_claim_command env cid now b in (if won then [cid] else [], b'))"
| "queue_step b (Claim_emergency ok envs now limit) =
     (let (cs, b') = fetch_and_claim_emergency_commands ok envs now limit b
      in (map command_id cs, b'))"
| "queue_step b (Mark_processing net cid now) = ([], mark_command_processing net cid now b)"
| "queue_step b (Mark_completed net cid now) = ([], snd (mark_command_completed net cid now b))"
| "queue_step b (Mark_failed net cid msg now) = ([], snd (mark_command_failed net cid msg now b))"
| "queue_step b (Mirror nets limit) = ([], snd (mirror_local_commands_to_supabase nets limit b))"
| "queue_step b (Reclaim now) =
     ([], snd (reclaim_orphaned_processing_commands MAX_RECLAIM_ATTEMPTS now b))"
| "queue_step b (Retire_expired now) = ([], snd (retire_expired_commands now b))"
| "queue_step b (Retire_stale reason older ct now) =
     ([], snd (retire_stale_processing_orphans reason older ct now b))"

definition queue_exec :: "command_bus \<Rightarrow> queue_op \<Rightarrow> command_bus" where
  "queue_exec b op = snd (queue_step b op)"

text \<open>The unguarded mark of one id.\<close>

fun re_marks :: "string \<Rightarrow> queue_op \<Rightarrow> bool" where
  "re_marks cid (Mark_processing net c now) = (c = cid)"
| "re_marks cid _ = False"

text \<open>A step that respects the status of every row.\<close>

fun guarded_op :: "queue_op \<Rightarrow> bool" where
  "guarded_op (Mark_processing net c now) = False"
| "guarded_op _ = True"

text \<open>How often an execution claims one id.\<close>

fun claims :: "string \<Rightarrow> command_bus \<Rightarrow> queue_op list \<Rightarrow> nat" where
  "claims cid b [] = 0"
| "claims cid b (op # ops) =
     count_list (fst (queue_step b op)) cid + claims cid (queue_exec b op) ops"

definition grows :: "command_bus \<Rightarrow> command_bus \<Rightarrow> bool" where
  "grows b b' = (extends (local b) (local b') \<and> (queue_ok b \<longrightarrow> queue_ok b'))"

lemma grows_refl [simp, intro]: "grows b b"
  by (simp add: grows_def)

lemma grows_trans: "grows a b \<Longrightarrow> grows b c \<Longrightarrow> grows a c"
  by (auto simp: grows_def intro: extends_trans)

lemma list_all2_evolves_ok:
  assumes "list_all2 evolves (local b) t" and "queue_ok b" and "local b' = t"
  shows "queue_ok b'"
proof -
  have "\<exists>s \<in> set (local b). evolves s r" if "r \<in> set t" for r
    using assms(1) that by (induction rule: list_all2_induct) auto
  with assms(2) have "\<forall>r \<in> set t. command_type r \<in> EMERGENCY_COMMAND_TYPES \<longrightarrow> expires_at r = None"
    unfolding queue_ok_def evolves_def by metis
  with assms list_all2_evolves_ids [OF assms(1)] show ?thesis
    by (simp add: queue_ok_def)
qed

lemma grows_map:
  assumes "\<And>r. r \<in> set (local b) \<Longrightarrow> evolves r (f r)" and "local b' = map f (local b)"
  shows "grows b b'"
proof -
  have "list_all2 evolves (local b) (map f (local b))"
    using assms(1) by (simp add: list.rel_map list.rel_refl_strong)
  then show ?thesis
    using assms by (auto simp: grows_def intro: extends_map list_all2_evolves_ok)
qed

lemma grows_update:
  assumes "\<And>r. r \<in> set (local b) \<Longrightarrow> p r \<Longrightarrow> evolves r (f r)"
    and "local b' = fst (sql_update p f (local b))"
  shows "grows b b'"
  using assms by (intro grows_map [of b "\<lambda>r. if p r then f r else r"]) (auto simp: fst_sql_update)

lemma grows_same_local: "local b' = local b \<Longrightarrow> grows b b'"
  by (auto simp: grows_def queue_ok_def)

lemma grows_enqueue_local:
  "grows b (result_bus b (enqueue_control_command_local ct body who key cid now ttl b))"
  by (auto simp: enqueue_control_command_local_def result_bus_def grows_def queue_ok_def Let_def
      conflicts_def intro!: extends_append)

lemma grows_trans_same: "local b1 = local b \<Longrightarrow> grows b1 b2 \<Longrightarrow> grows b b2"
  by (rule grows_trans [OF grows_same_local])

lemma result_bus_stage:
  assumes "local b1 = local b"
  shows "grows b (result_bus b (enqueue_control_command_local ct body who key cid now ttl b1))"
proof (cases "enqueue_control_command_local ct body who key cid now ttl b1")
  case (Inl e)
  then show ?thesis by (simp add: result_bus_def)
next
  case (Inr p)
  then show ?thesis
    using grows_trans_same [OF assms grows_enqueue_local [of b1 ct body who key cid now ttl]]
    by (simp add: result_bus_def split: prod.splits)
qed

lemma grows_enqueue:
  "grows b (result_bus b (enqueue_control_command net ok ct body who key cid now b))"
  unfolding enqueue_control_command_def Let_def
  by (auto split: option.split net.split intro!: result_bus_stage)
     (auto simp: result_bus_def intro!: grows_same_local)

lemma grows_claim_local: "grows b (snd (claim_local cid now b))"
  by (rule grows_update [where p = "pending_with_id cid" and f = "to_processing now"])
     (auto simp: claim_local_def split_beta Let_def pending_with_id_def to_processing_evolves)

lemma grows_transition_local:
  "grows b (fst (transition_local_pending_to_processing ok cid now b))"
proof (cases ok)
  case True
  then show ?thesis
    by (intro grows_update [where p = "pending_with_id cid" and f = "to_processing now"])
       (auto simp: transition_local_pending_to_processing_def split_beta Let_def
          pending_with_id_def to_processing_evolves)
qed (simp add: transition_local_pending_to_processing_def)

lemma grows_after_cloud:
  "grows b (b\<lparr>cloud := c\<rparr>)"
  "grows b (snd (claim_local cid now (b\<lparr>cloud := c\<rparr>)))"
  "grows b (fst (transition_local_pending_to_processing ok cid now (b\<lparr>cloud := c\<rparr>)))"
  by (auto intro: grows_same_local grows_trans_same [OF _ grows_claim_local]
      grows_trans_same [OF _ grows_transition_local])

lemma grows_claim: "grows b (snd (try_claim_command env cid now b))"
  by (simp add: try_claim_command_def Let_def split_beta grows_claim_local grows_after_cloud
      split: option.split)

lemma grows_claim_each: "grows b (snd (claim_each envs now cs b))"
proof (induction cs arbitrary: b)
  case Nil
  then show ?case by simp
next
  case (Cons c cs)
  then show ?case
    by (auto simp: Let_def split_beta intro: grows_trans [OF grows_claim])
qed

lemma grows_mark_terminal:
  assumes "terminal st"
  shows "grows b (snd (mark_terminal net cid st err now b))"
proof -
  have "local (snd (mark_terminal net cid st err now b))
      = fst (sql_update (\<lambda>r. command_id r = cid \<and> \<not> terminal (status r)) (to_terminal st err now) (local b))"
    by (auto simp: mark_terminal_def Let_def split_beta split: option.split net.split)
  then show ?thesis
    by (intro grows_update [OF _]) (auto intro: to_terminal_evolves assms)
qed

lemma grows_step: "grows b (queue_exec b op)" if "queue_ok b" "guarded_op op"
proof (cases op)
  case (Mark_processing net cid now)
  then show ?thesis using that(2) by simp
next
  case (Reclaim now)
  then show ?thesis
    using that by (auto simp: queue_exec_def reclaim_is_map queue_ok_def intro!: grows_map reclaim_row_evolves)
next
  case (Retire_stale reason older ct now)
  then show ?thesis
    using that by (auto simp: queue_exec_def retire_stale_is_map queue_ok_def
        intro!: grows_map [OF retire_stale_row_evolves])
next
  case (Retire_expired now)
  then show ?thesis
    by (auto simp: queue_exec_def retire_expired_commands_def split_beta Let_def expired_def terminal_def
        intro!: grows_update [where p = "expired now"] to_terminal_evolves)
next
  case (Mirror nets limit)
  then show ?thesis
    by (auto simp: queue_exec_def mirror_local_commands_to_supabase_def split_beta Let_def
        intro!: grows_same_local split: option.split)
qed (auto simp: queue_exec_def split_beta Let_def grows_enqueue grows_enqueue_local grows_claim
       fetch_and_claim_emergency_commands_def grows_claim_each mark_command_completed_def
       mark_command_failed_def grows_mark_terminal terminal_def)

lemma local_mark_processing:
  "local (mark_command_processing net cid now b) \<in>
     {local b, fst (sql_update (\<lambda>r. command_id r = cid) (to_processing now) (local b))}"
  by (simp add: mark_command_processing_def Let_def split: option.split net.split)

lemma queue_ok_processing:
  assumes "queue_ok b" and "local b' = fst (sql_update p (to_processing now) (local b))"
  shows "queue_ok b'"
proof -
  have "map command_id (local b') = map command_id (local b)"
    unfolding assms(2) by (rule sql_update_map) (simp add: to_processing_def)
  moreover have "\<forall>r \<in> set (local b'). command_type r \<in> EMERGENCY_COMMAND_TYPES \<longrightarrow> expires_at r = None"
    using assms by (auto simp: queue_ok_def fst_sql_update to_processing_def)
  ultimately show ?thesis using assms(1) by (simp add: queue_ok_def)
qed

lemma queue_ok_step:
  assumes "queue_ok b"
  shows "queue_ok (queue_exec b op)"
proof (cases op)
  case (Mark_processing net cid now)
  then show ?thesis
    using assms local_mark_processing [of net cid now b] queue_ok_processing [OF assms]
    by (auto simp: queue_exec_def queue_ok_def)
qed (use grows_step [OF assms, of op] assms in \<open>simp_all add: grows_def\<close>)

section \<open>Bounded re-fire\<close>

definition fires_left :: "string \<Rightarrow> command_bus \<Rightarrow> nat" where
  "fires_left cid b =
     (case find_row command_id cid (local b) of
        None \<Rightarrow> Suc MAX_RECLAIM_ATTEMPTS | Some r \<Rightarrow> fires r)"

lemma fires_le: "fires r \<le> Suc MAX_RECLAIM_ATTEMPTS"
  by (cases "status r") (auto simp: fires_def intro: le_SucI)

lemma fires_left_le: "fires_left cid b \<le> Suc MAX_RECLAIM_ATTEMPTS"
  by (simp add: fires_left_def fires_le split: option.split)

lemma fires_left_grows:
  assumes "grows b b'"
  shows "fires_left cid b' \<le> fires_left cid b"
proof (cases "find_row command_id cid (local b)")
  case None
  then show ?thesis using fires_left_le [of cid b'] by (simp add: fires_left_def)
next
  case (Some r)
  with assms extends_find [of "local b" "local b'" cid r] show ?thesis
    by (auto simp: grows_def fires_left_def evolves_def)
qed

lemma claim_local_spends:
  assumes "fst (claim_local cid now b)" and "queue_ok b"
  shows "Suc (fires_left cid (snd (claim_local cid now b))) = fires_left cid b"
proof -
  from assms(1) obtain r where r: "r \<in> set (local b)" "pending_with_id cid r"
    by (auto simp: claim_local_def split_beta Let_def sql_update_hit)
  then have "find_row command_id cid (local b) = Some r"
    using assms(2) find_row_unique [of command_id "local b" r] by (simp add: queue_ok_def pending_with_id_def)
  moreover have "find_row command_id cid (local (snd (claim_local cid now b))) = Some (to_processing now r)"
    using calculation r by (simp add: claim_local_def split_beta Let_def find_row_update to_processing_def)
  ultimately show ?thesis
    using r by (simp add: fires_left_def fires_def pending_with_id_def to_processing_def)
qed

lemma cloudless_claim [simp]: "cloud b = None \<Longrightarrow> try_claim_command env cid now b = claim_local cid now b"
  by (simp add: try_claim_command_def)

lemma claim_local_cloud [simp]: "cloud (snd (claim_local cid now b)) = cloud b"
  by (simp add: claim_local_def split_beta Let_def)

lemma claim_each_spends:
  assumes "queue_ok b" and "cloud b = None"
  shows "count_list (map command_id (fst (claim_each envs now cs b))) cid
      + fires_left cid (snd (claim_each envs now cs b)) \<le> fires_left cid b
    \<and> cloud (snd (claim_each envs now cs b)) = None"
  using assms
proof (induction cs arbitrary: b)
  case Nil
  then show ?case by simp
next
  case (Cons c cs)
  let ?b' = "snd (claim_local (command_id c) now b)"
  have ok: "queue_ok ?b'" and g: "grows b ?b'"
    using Cons.prems(1) grows_claim_local by (auto simp: grows_def)
  have "(if fst (claim_local (command_id c) now b) \<and> command_id c = cid then 1 else 0)
      + fires_left cid ?b' \<le> fires_left cid b"
    using claim_local_spends [OF _ Cons.prems(1), of "command_id c" now] fires_left_grows [OF g, of cid]
    by auto
  with Cons.IH [OF ok] Cons.IH [OF Cons.prems] Cons.prems show ?case
    by (auto simp: Let_def split_beta split: if_splits)
qed

lemma step_spends:
  assumes "queue_ok b" and "cloud b = None" and "guarded_op op"
  shows "count_list (fst (queue_step b op)) cid + fires_left cid (queue_exec b op) \<le> fires_left cid b
    \<and> cloud (queue_exec b op) = None"
proof -
  have "fires_left cid (queue_exec b op) \<le> fires_left cid b"
    by (rule fires_left_grows [OF grows_step [OF assms(1,3)]])
  then show ?thesis
  proof (cases op)
    case (Mark_processing net c now)
    then show ?thesis using assms(3) by simp
  next
    case (Claim env c now)
    then show ?thesis
      using assms claim_local_spends [of c now b] fires_left_grows [OF grows_claim_local [of b c now], of cid]
      by (auto simp: queue_exec_def Let_def split_beta)
  next
    case (Claim_emergency ok envs now limit)
    then show ?thesis
      using claim_each_spends [OF assms(1,2)]
      by (auto simp: queue_exec_def Let_def split_beta fetch_and_claim_emergency_commands_def)
  qed (auto simp: queue_exec_def assms result_bus_def enqueue_control_command_def
      enqueue_control_command_local_def Let_def split_beta mark_command_completed_def
      mark_command_failed_def mark_terminal_def mirror_local_commands_to_supabase_def
      reclaim_orphaned_processing_commands_def retire_expired_commands_def
      retire_stale_processing_orphans_def)
qed

lemma claims_bounded:
  assumes "queue_ok b" and "cloud b = None" and "list_all guarded_op ops"
  shows "claims cid b ops \<le> fires_left cid b"
  using assms
proof (induction ops arbitrary: b)
  case Nil
  then show ?case by simp
next
  case (Cons op ops)
  have "guarded_op op" using Cons.prems(3) by simp
  with Cons.IH [of "queue_exec b op"] step_spends [OF Cons.prems(1,2), of op cid]
    queue_ok_step [OF Cons.prems(1), of op] Cons.prems(3) show ?case by auto
qed

section \<open>Exactly one claim\<close>

definition no_pending :: "string \<Rightarrow> 'a control_command_scheme list \<Rightarrow> bool" where
  "no_pending cid t = (\<not> (\<exists>r \<in> set t. pending_with_id cid r))"

definition taken :: "string \<Rightarrow> command_bus \<Rightarrow> bool" where
  "taken cid b =
     (no_pending cid (local b)
      \<and> (case cloud b of None \<Rightarrow> True | Some t \<Rightarrow> no_pending cid t))"

text \<open>An operation that does not stage the id again: no enqueue under it and no crash recovery.\<close>

fun no_requeue :: "string \<Rightarrow> queue_op \<Rightarrow> bool" where
  "no_requeue cid (Enqueue net ok ct body who key c now) = (c \<noteq> cid)"
| "no_requeue cid (Enqueue_local ct body who key c now ttl) = (c \<noteq> cid)"
| "no_requeue cid (Reclaim now) = False"
| "no_requeue cid _ = True"

lemma to_processing_status [simp]:
  "command_id (to_processing now r) = command_id r" "status (to_processing now r) = PROCESSING"
  by (simp_all add: to_processing_def)

lemma to_terminal_status [simp]:
  "command_id (to_terminal st err now r) = command_id r" "status (to_terminal st err now r) = st"
  by (simp_all add: to_terminal_def)

lemma no_pending_map:
  assumes "no_pending cid t" and "\<And>r. pending_with_id cid (f r) \<Longrightarrow> pending_with_id cid r"
  shows "no_pending cid (map f t)"
  using assms by (auto simp: no_pending_def)

lemma claim_clears_pending [simp]:
  "no_pending cid (fst (sql_update (pending_with_id cid) (to_processing now) t))"
proof -
  have "\<not> pending_with_id cid (if pending_with_id cid r then to_processing now r else r)"
    for r :: "'a control_command_scheme"
    by (simp add: pending_with_id_def)
  then show ?thesis by (simp only: no_pending_def fst_sql_update set_map) blast
qed

lemma no_pending_processing [simp]:
  "no_pending cid t \<Longrightarrow> no_pending cid (fst (sql_update p (to_processing now) t))"
  unfolding fst_sql_update
  by (erule no_pending_map) (simp add: pending_with_id_def split: if_splits)

lemma no_pending_terminal [simp]:
  "no_pending cid t \<Longrightarrow> st \<noteq> PENDING \<Longrightarrow>
     no_pending cid (fst (sql_update p (to_terminal st err now) t))"
  unfolding fst_sql_update
  by (erule no_pending_map) (simp add: pending_with_id_def split: if_splits)

lemma claim_hits_iff [simp]:
  "0 < snd (sql_update (pending_with_id cid) f t) \<longleftrightarrow> \<not> no_pending cid t"
  by (simp add: sql_update_hit no_pending_def)

lemma claim_miss [simp]: "no_pending cid t \<Longrightarrow> fst (sql_update (pending_with_id cid) f t) = t"
  by (simp add: sql_update_miss no_pending_def)

lemma healthy_claim_takes:
  assumes "fst (try_claim_command healthy cid now b)"
  shows "taken cid (snd (try_claim_command healthy cid now b))"
proof (cases "cloud b")
  case None
  then show ?thesis
    by (simp add: taken_def claim_local_def split_beta Let_def)
next
  case (Some t)
  with assms show ?thesis
    by (cases "no_pending cid t")
       (simp_all add: try_claim_command_def Let_def split_beta taken_def claim_local_def
          transition_local_pending_to_processing_def split: if_splits)
qed

lemma taken_no_claim: "taken cid b \<Longrightarrow> \<not> fst (try_claim_command env cid now b)"
  by (cases "cloud b")
     (simp_all add: taken_def try_claim_command_def claim_local_def Let_def split_beta)

lemma taken_claim_local: "taken cid b \<Longrightarrow> taken cid (snd (claim_local c now b))"
  by (auto simp: taken_def claim_local_def Let_def split_beta split: option.splits)

lemma taken_cloud_update:
  "taken cid b \<Longrightarrow> cloud b = Some t \<Longrightarrow> st \<noteq> PENDING \<Longrightarrow>
     taken cid (b\<lparr>cloud := Some (fst (sql_update p (to_terminal st err now) t))\<rparr>)"
  "taken cid b \<Longrightarrow> cloud b = Some t \<Longrightarrow>
     taken cid (b\<lparr>cloud := Some (fst (sql_update p (to_processing now) t))\<rparr>)"
  by (simp_all add: taken_def)

lemma taken_transition:
  "taken cid b \<Longrightarrow> taken cid (fst (transition_local_pending_to_processing ok c now b))"
  by (auto simp: taken_def transition_local_pending_to_processing_def Let_def split_beta split: option.splits)

lemma taken_claim: "taken cid b \<Longrightarrow> taken cid (snd (try_claim_command env c now b))"
  by (cases "cloud b")
     (simp_all add: try_claim_command_def Let_def split_beta taken_claim_local taken_cloud_update
        taken_transition)

lemma taken_claim_each:
  "taken cid b \<Longrightarrow> taken cid (snd (claim_each envs now cs b))
     \<and> count_list (map command_id (fst (claim_each envs now cs b))) cid = 0"
proof (induction cs arbitrary: b)
  case Nil
  then show ?case by simp
next
  case (Cons c cs)
  then show ?case
    using taken_claim [OF Cons.prems, of "envs (command_id c)" "command_id c" now]
      taken_no_claim [OF Cons.prems, of "envs (command_id c)" now]
    by (auto simp: Let_def split_beta)
qed

lemma taken_mark_terminal:
  assumes "taken cid b" and "terminal st"
  shows "taken cid (snd (mark_terminal net c st err now b))"
proof -
  have "st \<noteq> PENDING" using assms(2) by (auto simp: terminal_def)
  with assms(1) show ?thesis
    by (auto simp: taken_def mark_terminal_def Let_def split_beta split: option.splits net.splits)
qed

lemma taken_same_cloud:
  "taken cid b \<Longrightarrow> cloud b' = cloud b \<Longrightarrow> no_pending cid (local b') \<Longrightarrow> taken cid b'"
  by (simp add: taken_def)

lemma no_pending_append [simp]: "no_pending cid (t @ u) \<longleftrightarrow> no_pending cid t \<and> no_pending cid u"
  by (auto simp: no_pending_def)

lemma no_pending_single [simp]: "command_id r \<noteq> cid \<Longrightarrow> no_pending cid [r]"
  by (simp add: no_pending_def pending_with_id_def)

lemma taken_stage:
  assumes "taken cid b" and "c \<noteq> cid"
    and "enqueue_control_command_local ct body who key c now ttl b = Inr (cmd, b')"
  shows "taken cid b'"
proof -
  from assms(3) obtain row where "b' = b\<lparr>local := local b @ [row]\<rparr>" "command_id row = c"
    by (auto simp: enqueue_control_command_local_def Let_def split: if_splits)
  then show ?thesis using assms(1,2) by (simp add: taken_def)
qed

lemma taken_result_stage:
  assumes "taken cid b" and "taken cid b0" and "c \<noteq> cid"
  shows "taken cid (result_bus b (enqueue_control_command_local ct body who key c now ttl b0))"
  using assms taken_stage [OF assms(2,3)]
  by (auto simp: result_bus_def split: sum.split prod.split)

lemma taken_enqueue:
  assumes "taken cid b" and "c \<noteq> cid"
  shows "taken cid (result_bus b (enqueue_control_command net ok ct body who key c now b))"
proof -
  let ?row = "\<lparr>command_id = c, command_type = ct, payload = body, status = PENDING, requested_by = who,
      idempotency_key = key, error_message = None, created_at = now, processed_at = None, expires_at = None\<rparr>"
  have inserted: "taken cid (b\<lparr>cloud := Some (t @ [?row])\<rparr>)" if "cloud b = Some t" for t
    using assms that by (simp add: taken_def)
  show ?thesis
    unfolding enqueue_control_command_def Let_def
    using assms inserted taken_result_stage [OF assms(1) assms(1,2)] taken_result_stage [OF assms(1) inserted assms(2)]
    by (auto simp: split: option.split net.split) (simp_all add: result_bus_def)
qed

lemma no_pending_mirror_one:
  assumes "no_pending cid (fst tn)" and "\<not> pending_with_id cid r"
  shows "no_pending cid (fst (mirror_one nets tn r))"
proof -
  have "no_pending cid (sql_upsert command_id (mirror_record r) ((sqlite_row_to_command r)\<lparr>expires_at := None\<rparr>) (fst tn))"
    using assms by (auto simp: sql_upsert_def no_pending_def pending_with_id_def mirror_record_def
        sqlite_row_to_command_def control_command.truncate_def)
  then show ?thesis using assms(1) by (auto simp: mirror_one_def Let_def split_beta split: net.split)
qed

lemma no_pending_mirror:
  assumes "no_pending cid t" and "no_pending cid rows"
  shows "no_pending cid (fst (foldl (mirror_one nets) (t, n) rows))"
  using assms
proof (induction rows arbitrary: t n)
  case Nil
  then show ?case by simp
next
  case (Cons r rows)
  obtain t' n' where step: "mirror_one nets (t, n) r = (t', n')" by (cases "mirror_one nets (t, n) r")
  have "no_pending cid t'"
    using no_pending_mirror_one [of cid "(t, n)" r nets] Cons.prems step by (simp add: no_pending_def)
  then show ?case using Cons step by (simp add: no_pending_def)
qed

lemma taken_mirror:
  assumes "taken cid b"
  shows "taken cid (snd (mirror_local_commands_to_supabase nets limit b))"
proof (cases "cloud b")
  case (Some t)
  let ?rows = "take (nat (max limit 1)) (sort_key (\<lambda>r. - created_at r) (local b))"
  have "no_pending cid ?rows"
    using assms take_sort_subset [of "nat (max limit 1)" "\<lambda>r. - created_at r" "local b"]
    by (auto simp: taken_def no_pending_def)
  then have "no_pending cid (fst (foldl (mirror_one nets) (t, 0) ?rows))"
    using assms Some by (intro no_pending_mirror) (simp_all add: taken_def)
  then show ?thesis using assms Some
    by (simp add: mirror_local_commands_to_supabase_def Let_def split_beta taken_def)
qed (use assms in \<open>simp add: mirror_local_commands_to_supabase_def\<close>)

lemma taken_mark_processing: "taken cid b \<Longrightarrow> taken cid (mark_command_processing net c now b)"
  by (auto simp: taken_def mark_command_processing_def Let_def split: option.split net.split)

lemma taken_step:
  assumes "taken cid b" and "no_requeue cid op" and "queue_ok b"
  shows "taken cid (queue_exec b op) \<and> count_list (fst (queue_step b op)) cid = 0"
proof (cases op)
  case (Claim env c now)
  then show ?thesis
    using assms taken_claim [OF assms(1), of env c now] taken_no_claim [OF assms(1), of env now]
    by (auto simp: queue_exec_def Let_def split_beta)
next
  case (Claim_emergency ok envs now limit)
  then show ?thesis
    using taken_claim_each [OF assms(1)]
    by (auto simp: queue_exec_def fetch_and_claim_emergency_commands_def Let_def split_beta)
next
  case (Retire_stale reason older ct now)
  then show ?thesis
    using assms by (auto simp: queue_exec_def retire_stale_is_map queue_ok_def taken_def
        retire_stale_row_def pending_with_id_def intro!: no_pending_map split: if_splits)
next
  case (Retire_expired now)
  then show ?thesis
    using assms by (auto simp: queue_exec_def taken_def retire_expired_commands_def Let_def split_beta)
next
  case (Enqueue_local ct body who key c now ttl)
  then show ?thesis
    using assms taken_result_stage [OF assms(1,1), of c ct body who key now ttl]
    by (simp add: queue_exec_def)
qed (use assms in \<open>auto simp: queue_exec_def mark_command_completed_def mark_command_failed_def
       taken_mark_terminal taken_enqueue taken_mirror taken_mark_processing terminal_def\<close>)

lemma taken_claims:
  "taken cid b \<Longrightarrow> queue_ok b \<Longrightarrow> list_all (no_requeue cid) ops \<Longrightarrow> claims cid b ops = 0"
proof (induction ops arbitrary: b)
  case Nil
  then show ?case by simp
next
  case (Cons op ops)
  moreover have "queue_ok (queue_exec b op)" by (rule queue_ok_step [OF Cons.prems(2)])
  ultimately show ?case using taken_step [of cid b op] by simp
qed

section \<open>Reading the queue\<close>

lemma set_merge_unseen: "set (merge_unseen seen cs) \<subseteq> set cs"
  by (induction seen cs rule: merge_unseen.induct) auto

lemma merge_unseen_fresh: "command_id ` set (merge_unseen seen cs) \<inter> seen = {}"
  by (induction seen cs rule: merge_unseen.induct) auto

lemma merge_unseen_distinct: "distinct (map command_id (merge_unseen seen cs))"
proof (induction seen cs rule: merge_unseen.induct)
  case (2 seen c cs)
  then show ?case
    using merge_unseen_fresh [of "insert (command_id c) seen" cs] by auto
qed simp

lemma status_sqlite_row [simp]:
  "status (sqlite_row_to_command r) = status r" "command_id (sqlite_row_to_command r) = command_id r"
  by (simp_all add: sqlite_row_to_command_def control_command.truncate_def)

lemma merged_rows_pending:
  assumes "c \<in> set (take k (sort_key created_at (filter (\<lambda>r. status r = PENDING) t)))"
  shows "status c = PENDING"
  using assms take_sort_subset [of k created_at "filter (\<lambda>r. status r = PENDING) t"] by auto

lemma mem_take_sort: "c \<in> set (take k (sort_key f t)) \<Longrightarrow> c \<in> set t"
  using take_sort_subset [of k f t] by blast


section \<open>Properties\<close>

interpretation queue: invariant_machine queue_exec queue_ok
  by unfold_locales (rule queue_ok_step)

lemma terminal_row_kept:
  assumes ok: "queue_ok b" and r: "r \<in> set (local b) \<and> terminal (status r)"
    and op: "\<not> re_marks (command_id r) op"
  shows "r \<in> set (local (queue_exec b op)) \<and> terminal (status r)"
proof (cases "guarded_op op")
  case True
  from ok r have "find_row command_id (command_id r) (local b) = Some r"
    by (simp add: queue_ok_def find_row_unique)
  moreover have "extends (local b) (local (queue_exec b op))"
    using grows_step [OF ok True] by (simp add: grows_def)
  ultimately obtain r' where
    "find_row command_id (command_id r) (local (queue_exec b op)) = Some r'" "evolves r r'"
    using extends_find by blast
  with r show ?thesis by (auto simp: evolves_def dest: find_row_Some)
next
  case False
  then obtain net cid now where "op = Mark_processing net cid now" by (cases op) auto
  then show ?thesis using r op local_mark_processing [of net cid now b]
    by (auto simp: queue_exec_def fst_sql_update)
qed

interpretation terminal_row: guarded_latch queue_exec queue_ok
    "\<lambda>b. r \<in> set (local b) \<and> terminal (status r)" "\<lambda>op. \<not> re_marks (command_id r) op" for r
  by unfold_locales (rule terminal_row_kept)

definition empty_bus :: command_bus where
  "empty_bus = \<lparr>cloud = None, local = []\<rparr>"

lemma queue_ok_empty [simp]: "queue_ok empty_bus"
  by (simp add: queue_ok_def empty_bus_def)

definition demo_row :: "control_command_status \<Rightarrow> command_row" where
  "demo_row st = \<lparr>command_id = ''k1'', command_type = FLATTEN_AND_HALT, payload = ''{}'', status = st,
     requested_by = None, idempotency_key = None, error_message = None, created_at = 0,
     processed_at = None, expires_at = None, attempts = 0\<rparr>"

text \<open>
  C1: A local command that reached \<open>completed\<close> or \<open>failed\<close> is done: no sequence of enqueues,
  claims, terminal marks, mirrorings, crash recoveries and retirements, nor of processing marks
  of other ids, ever changes its row again (the K1 rule that a terminal command never re-fires).
  The one operation of the module that can is a \<open>mark_command_processing\<close> of the id itself,
  which has no status guard (\<open>mark_processing_revives\<close> below) and which no code path calls.
\<close>

theorem terminal_commands_absorbing:
  assumes "queue_ok b" and "r \<in> set (local b)" and "terminal (status r)"
    and "list_all (\<lambda>op. \<not> re_marks (command_id r) op) ops"
  shows "r \<in> set (local (foldl queue_exec b ops))"
  using terminal_row.latch_run [of b r ops] assms by simp

theorem terminal_commands_absorbing_witness:
  "demo_row COMPLETED \<in> set (local (foldl queue_exec \<lparr>cloud = None, local = [demo_row COMPLETED]\<rparr>
      [Claim healthy ''k1'' 5, Mark_processing Net_ok ''k2'' 6, Mark_failed Net_ok ''k1'' ''late'' 6, Reclaim 7]))"
  by (rule terminal_commands_absorbing)
     (simp_all add: queue_ok_def demo_row_def terminal_def)

text \<open>
  An emergency command never silently expires: whatever operations ran before, the TTL
  sweep leaves every \<open>FLATTEN_AND_HALT\<close> and \<open>ENGAGE_KILL_SWITCH\<close> row as it is.
\<close>

theorem emergency_commands_never_expire:
  assumes "queue_ok b" and "r \<in> set (local (foldl queue_exec b ops))"
    and "command_type r \<in> EMERGENCY_COMMAND_TYPES"
  shows "r \<in> set (local (snd (retire_expired_commands now (foldl queue_exec b ops))))"
proof -
  have "queue_ok (foldl queue_exec b ops)" by (rule queue.inv_run [OF assms(1)])
  with assms(2,3) have "expires_at r = None" by (simp add: queue_ok_def)
  then have "\<not> expired now r" by (simp add: expired_def)
  with assms(2) show ?thesis
    by (force simp: retire_expired_commands_def Let_def split_beta fst_sql_update image_iff)
qed

theorem emergency_commands_never_expire_witness:
  "demo_row PENDING \<in> set (local (snd (retire_expired_commands (seconds 99999)
     (foldl queue_exec empty_bus
        [Enqueue_local FLATTEN_AND_HALT ''{}'' None None ''k1'' 0 None,
         Enqueue_local PING ''{}'' None None ''k2'' 0 (Some 5)]))))"
  by (rule emergency_commands_never_expire)
     (simp, code_simp, simp add: demo_row_def EMERGENCY_COMMAND_TYPES_def)

text \<open>
  Bounded re-fire: on the local bus, starting from an empty queue, no execution without the
  unguarded processing mark (any number of crashes and reclaims included) hands one command id to a consumer more than
  \<open>MAX_RECLAIM_ATTEMPTS + 1\<close> times, so a poison command cannot loop forever.
\<close>

theorem poison_command_fires_at_most:
  assumes "list_all guarded_op ops"
  shows "claims cid empty_bus ops \<le> Suc MAX_RECLAIM_ATTEMPTS"
proof -
  have "claims cid empty_bus ops \<le> fires_left cid empty_bus"
    by (rule claims_bounded) (simp_all add: empty_bus_def queue_ok_def assms)
  then show ?thesis by (simp add: fires_left_def empty_bus_def)
qed

lemma poison_bound_is_reached:
  "claims ''k1'' empty_bus
     ([Enqueue_local RELOAD_CONFIG ''{}'' None None ''k1'' 0 None]
      @ concat (replicate 5 [Claim healthy ''k1'' 1, Reclaim 2])) = 4"
  by code_simp

text \<open>
  C2: Exactly-once claiming across both buses: once a claim succeeded while Supabase and the
  local mirror were reachable, no later claim of that id succeeds, even during Supabase
  faults, however claims, emergency polls, marks of every kind, mirrorings, retirements and
  enqueues of other commands interleave, as long as no crash recovery runs and the id is not
  enqueued again. A crash recovery puts a command that is still processing back by design; how
  often that can happen is \<open>poison_command_fires_at_most\<close>.
\<close>

theorem claimed_exactly_once:
  assumes "queue_ok b" and "fst (try_claim_command healthy cid now b)"
    and "list_all (no_requeue cid) ops"
  shows "claims cid (snd (try_claim_command healthy cid now b)) ops = 0"
  using assms healthy_claim_takes [OF assms(2)] grows_claim [of b healthy cid now]
  by (simp add: taken_claims grows_def)

theorem claimed_exactly_once_witness:
  "claims ''k1'' (snd (try_claim_command healthy ''k1'' 1
      \<lparr>cloud = Some [sqlite_row_to_command (demo_row PENDING)], local = [demo_row PENDING]\<rparr>))
     [Mirror (\<lambda>_. Net_ok) 10, Claim \<lparr>cas_net = Net_lost_before, select_ok = False, mirror_ok = True\<rparr> ''k1'' 2,
      Enqueue Net_ok True PING ''{}'' None None ''k2'' 3, Claim healthy ''k1'' 4] = 0"
  by (rule claimed_exactly_once) (simp add: queue_ok_def demo_row_def, code_simp, simp)

text \<open>
  The pending view that pollers read holds pending commands only, each id once, oldest
  first, and no more than the requested limit (at least one).
\<close>

theorem fetch_pending_commands_sound:
  "let cs = fetch_pending_commands ok limit b
   in list_all (\<lambda>c. status c = PENDING) cs \<and> distinct (map command_id cs)
      \<and> sorted (map created_at cs) \<and> int (length cs) \<le> max limit 1"
  unfolding Let_def
proof (intro conjI)
  show "list_all (\<lambda>c. status c = PENDING) (fetch_pending_commands ok limit b)"
    unfolding fetch_pending_commands_def Let_def list_all_iff
    by (auto dest!: mem_take_sort subsetD [OF set_merge_unseen] split: option.splits if_splits)
  show "distinct (map command_id (fetch_pending_commands ok limit b))"
    unfolding fetch_pending_commands_def Let_def
    by (simp add: take_map [symmetric] distinct_take distinct_map
        merge_unseen_distinct [unfolded distinct_map])
  show "sorted (map created_at (fetch_pending_commands ok limit b))"
    unfolding fetch_pending_commands_def Let_def by (rule sorted_take_sort)
  show "int (length (fetch_pending_commands ok limit b)) \<le> max limit 1"
    unfolding fetch_pending_commands_def Let_def by simp
qed

section \<open>Where the code and its comments part\<close>

text \<open>
  The exactly-once promise has a gap: a command whose Supabase insert took effect but
  whose answer was lost is staged on both buses; if Supabase is unreachable during the claim,
  the local copy is claimed and executed, the Supabase copy stays pending, and the next
  healthy poll claims it a second time.
\<close>

theorem claimed_twice_under_outage:
  "let dual = queue_exec \<lparr>cloud = Some [], local = []\<rparr>
                (Enqueue Net_lost_after True FLATTEN_AND_HALT ''{}'' None None ''k1'' 0);
       outage = \<lparr>cas_net = Net_lost_before, select_ok = False, mirror_ok = True\<rparr>;
       ops = [Claim outage ''k1'' 1, Mark_completed Net_lost_before ''k1'' 2, Claim healthy ''k1'' 3]
   in claims ''k1'' dual ops = 2"
  by code_simp

text \<open>
  The sweep of stale orphans gates on the creation time, not on the time of the claim: a
  command created twenty minutes ago and claimed one second ago is retired as stale, though
  the comment promises that a command claimed seconds ago never is.
\<close>

lemma young_claim_retired:
  "let b = \<lparr>cloud = None, local = [demo_row PENDING]\<rparr>;
       ten_minutes = seconds 600;
       (won, b1) = try_claim_command healthy ''k1'' (seconds 1200) b;
       (n, b2) = retire_stale_processing_orphans ''backlog'' ten_minutes None (seconds 1201) b1
   in won \<and> n = 1 \<and> map status (local b2) = [FAILED]"
  by code_simp

text \<open>
  \<open>mark_command_processing\<close> has no status guard: it revives a completed command, and the
  next crash recovery puts it back into the queue.
\<close>

lemma mark_processing_revives:
  "let b = \<lparr>cloud = None, local = [demo_row COMPLETED]\<rparr>;
       b1 = mark_command_processing Net_ok ''k1'' 5 b;
       b2 = queue_exec b1 (Reclaim 6)
   in map status (local b2) = [PENDING]"
  by code_simp

end
