(* ===== verification/Escalation.thy ===== *)
theory Escalation
  imports Command_Queue
begin

text \<open>
  Hierarchical risk escalation and cooperative preemption
  (\<open>src/engine/engine_preemption.py\<close>): the escalation engine's snapshot and its
  transition, the gates other components read from it, and the preemption latch that arms
  it from a control command. The locks of the source make each method one atomic step, so
  methods are state transformers here.
\<close>

section \<open>Levels and the engine's snapshot\<close>

datatype risk_escalation_level =
    NOMINAL | ENTRY_GATE_HALT | STRATEGY_LIQUIDATE | GLOBAL_FLATTEN_AND_HALT

definition preempts_in_flight_cycle :: "risk_escalation_level \<Rightarrow> bool" where
  "preempts_in_flight_cycle l = (l \<in> {STRATEGY_LIQUIDATE, GLOBAL_FLATTEN_AND_HALT})"

definition commands_portfolio_liquidation :: "risk_escalation_level \<Rightarrow> bool" where
  "commands_portfolio_liquidation l = (l = GLOBAL_FLATTEN_AND_HALT)"

fun level_value :: "risk_escalation_level \<Rightarrow> string" where
  "level_value NOMINAL = ''NOMINAL''"
| "level_value ENTRY_GATE_HALT = ''ENTRY_GATE_HALT''"
| "level_value STRATEGY_LIQUIDATE = ''STRATEGY_LIQUIDATE''"
| "level_value GLOBAL_FLATTEN_AND_HALT = ''GLOBAL_FLATTEN_AND_HALT''"

record risk_snapshot =
  esc_level :: risk_escalation_level
  esc_scope_key :: string
  esc_strategy_id :: "string option"
  esc_symbol :: "string option"
  esc_portfolio_liquidation_commanded :: bool
  esc_engine_shutdown_latched :: bool
  esc_commanded_by :: string

definition initial_snapshot :: risk_snapshot where
  "initial_snapshot =
     \<lparr>esc_level = NOMINAL, esc_scope_key = ''GLOBAL'', esc_strategy_id = None, esc_symbol = None,
      esc_portfolio_liquidation_commanded = False, esc_engine_shutdown_latched = False,
      esc_commanded_by = ''system''\<rparr>"

text \<open>\<open>str.strip()\<close> on ASCII text.\<close>

definition is_space :: "char \<Rightarrow> bool" where
  "is_space c =
     (let n = of_char c :: nat in (9 \<le> n \<and> n \<le> 13) \<or> (28 \<le> n \<and> n \<le> 32))"

definition str_strip :: "string \<Rightarrow> string" where
  "str_strip s = rev (dropWhile is_space (rev (dropWhile is_space s)))"

datatype level_error = Level_required | Unknown_level string

definition parse_escalation_level :: "string option \<Rightarrow> level_error + risk_escalation_level" where
  "parse_escalation_level raw =
     (case raw of
        None \<Rightarrow> Inl Level_required
      | Some r \<Rightarrow>
          let normalized = str_upper (str_strip r)
          in case List.find (\<lambda>l. level_value l = normalized)
                    [NOMINAL, ENTRY_GATE_HALT, STRATEGY_LIQUIDATE, GLOBAL_FLATTEN_AND_HALT] of
               None \<Rightarrow> Inl (Unknown_level normalized)
             | Some l \<Rightarrow> Inr l)"

text \<open>\<open>transition\<close>: empty strings count as absent, the symbol is folded to upper case.\<close>

definition transition ::
  "risk_escalation_level \<Rightarrow> string \<Rightarrow> string option \<Rightarrow> string option \<Rightarrow> string
     \<Rightarrow> risk_snapshot \<Rightarrow> risk_snapshot" where
  "transition new_level scope_key strategy_id symbol commanded_by prior =
     \<lparr>esc_level = new_level,
      esc_scope_key = or_default scope_key ''GLOBAL'',
      esc_strategy_id = (if truthy strategy_id then strategy_id else None),
      esc_symbol = (if truthy symbol then map_option str_upper symbol else None),
      esc_portfolio_liquidation_commanded = commands_portfolio_liquidation new_level,
      esc_engine_shutdown_latched =
        (if new_level = GLOBAL_FLATTEN_AND_HALT then True else esc_engine_shutdown_latched prior),
      esc_commanded_by = or_default commanded_by ''system''\<rparr>"

section \<open>What other components read\<close>

definition should_flatten_portfolio :: "risk_snapshot \<Rightarrow> bool" where
  "should_flatten_portfolio snap =
     (esc_level snap = GLOBAL_FLATTEN_AND_HALT \<or> esc_portfolio_liquidation_commanded snap)"

definition blocks_entries_for_strategy :: "string \<Rightarrow> risk_snapshot \<Rightarrow> bool" where
  "blocks_entries_for_strategy strategy_id snap =
     (if esc_level snap = NOMINAL then False
      else if esc_level snap = STRATEGY_LIQUIDATE then esc_strategy_id snap = Some strategy_id
      else esc_level snap \<in> {ENTRY_GATE_HALT, GLOBAL_FLATTEN_AND_HALT})"

definition blocks_all_entries :: "risk_snapshot \<Rightarrow> bool" where
  "blocks_all_entries snap = (esc_level snap \<in> {ENTRY_GATE_HALT, GLOBAL_FLATTEN_AND_HALT})"

definition requires_preemption :: "string option \<Rightarrow> string option \<Rightarrow> risk_snapshot \<Rightarrow> bool" where
  "requires_preemption strategy_id symbol snap =
     (if esc_level snap = GLOBAL_FLATTEN_AND_HALT then True
      else if esc_level snap \<noteq> STRATEGY_LIQUIDATE then False
      else if truthy strategy_id \<and> truthy (esc_strategy_id snap) \<and> strategy_id = esc_strategy_id snap
      then True
      else if truthy symbol \<and> truthy (esc_symbol snap) \<and> map_option str_upper symbol = esc_symbol snap
      then True
      else esc_strategy_id snap = None \<and> esc_symbol snap = None)"

section \<open>The preemption latch\<close>

record checkpoint =
  cp_phase :: string
  cp_step :: string
  cp_strategy_id :: "string option"
  cp_symbol :: "string option"

text \<open>
  \<open>wake\<close> is the bound asyncio event: \<open>None\<close> before \<open>bind_cycle_wake\<close>, otherwise whether it
  is set, with \<open>loop_closed\<close> telling whether its loop still runs.
\<close>

record preemption_latch =
  escalation :: risk_snapshot
  preemption_armed :: bool
  pending_command :: "control_command option"
  current_checkpoint :: checkpoint
  wake :: "bool option"
  loop_closed :: bool

definition new_latch :: preemption_latch where
  "new_latch =
     \<lparr>escalation = initial_snapshot, preemption_armed = False, pending_command = None,
      current_checkpoint = \<lparr>cp_phase = ''idle'', cp_step = ''start'', cp_strategy_id = None,
                            cp_symbol = None\<rparr>,
      wake = None, loop_closed = False\<rparr>"

definition bind_cycle_wake :: "bool \<Rightarrow> bool \<Rightarrow> preemption_latch \<Rightarrow> preemption_latch" where
  "bind_cycle_wake is_set loop_is_closed l = l\<lparr>wake := Some is_set, loop_closed := loop_is_closed\<rparr>"

definition wake_cycle :: "preemption_latch \<Rightarrow> preemption_latch" where
  "wake_cycle l =
     (case wake l of
        None \<Rightarrow> l
      | Some _ \<Rightarrow> if loop_closed l then l else l\<lparr>wake := Some True\<rparr>)"

definition arm_command ::
  "control_command \<Rightarrow> risk_escalation_level \<Rightarrow> string \<Rightarrow> string option \<Rightarrow> string option
     \<Rightarrow> preemption_latch \<Rightarrow> preemption_latch" where
  "arm_command command level scope_key strategy_id symbol l =
     (let l1 = l\<lparr>escalation := transition level scope_key strategy_id symbol
                  (command_type_value (command_type command)) (escalation l)\<rparr>;
          l2 = l1\<lparr>pending_command := Some command\<rparr>;
          l3 = (if preempts_in_flight_cycle level \<or> level = GLOBAL_FLATTEN_AND_HALT
                then l2\<lparr>preemption_armed := True\<rparr> else l2)
      in wake_cycle l3)"

definition arm_flatten_and_halt :: "control_command \<Rightarrow> preemption_latch \<Rightarrow> preemption_latch" where
  "arm_flatten_and_halt command l =
     arm_command command GLOBAL_FLATTEN_AND_HALT ''GLOBAL'' None None l"

definition should_preempt :: "string option \<Rightarrow> string option \<Rightarrow> preemption_latch \<Rightarrow> bool" where
  "should_preempt strategy_id symbol l =
     (if \<not> preemption_armed l then False
      else requires_preemption strategy_id symbol (escalation l))"

definition set_checkpoint ::
  "string \<Rightarrow> string \<Rightarrow> string option \<Rightarrow> string option \<Rightarrow> preemption_latch \<Rightarrow> preemption_latch" where
  "set_checkpoint phase step strategy_id symbol l =
     l\<lparr>current_checkpoint := \<lparr>cp_phase = phase, cp_step = step, cp_strategy_id = strategy_id,
                             cp_symbol = symbol\<rparr>\<rparr>"

definition take_pending_command ::
  "preemption_latch \<Rightarrow> control_command option \<times> preemption_latch" where
  "take_pending_command l = (pending_command l, l\<lparr>pending_command := None\<rparr>)"

definition clear_preemption_arm :: "preemption_latch \<Rightarrow> preemption_latch" where
  "clear_preemption_arm l =
     l\<lparr>preemption_armed := False, pending_command := None,
       current_checkpoint := \<lparr>cp_phase = ''idle'', cp_step = ''cleared'', cp_strategy_id = None,
                              cp_symbol = None\<rparr>\<rparr>"

section \<open>Lemmas\<close>

datatype esc_event =
  Transition risk_escalation_level string "string option" "string option" string

fun esc_step :: "risk_snapshot \<Rightarrow> esc_event \<Rightarrow> risk_snapshot" where
  "esc_step s (Transition l scope sid symb who) = transition l scope sid symb who s"

lemma transition_fields [simp]:
  "esc_level (transition l scope sid symb who s) = l"
  "esc_portfolio_liquidation_commanded (transition l scope sid symb who s)
     = (l = GLOBAL_FLATTEN_AND_HALT)"
  "esc_engine_shutdown_latched (transition l scope sid symb who s)
     = (l = GLOBAL_FLATTEN_AND_HALT \<or> esc_engine_shutdown_latched s)"
  by (simp_all add: transition_def commands_portfolio_liquidation_def)

text \<open>
  What every reachable snapshot satisfies: liquidation is commanded exactly at the top
  level, and the top level has latched the shutdown.
\<close>

definition snapshot_ok :: "risk_snapshot \<Rightarrow> bool" where
  "snapshot_ok s =
     (esc_portfolio_liquidation_commanded s = (esc_level s = GLOBAL_FLATTEN_AND_HALT)
      \<and> (esc_level s = GLOBAL_FLATTEN_AND_HALT \<longrightarrow> esc_engine_shutdown_latched s))"

lemma snapshot_ok_initial [simp]: "snapshot_ok initial_snapshot"
  by (simp add: snapshot_ok_def initial_snapshot_def)

lemma snapshot_ok_step [simp]: "snapshot_ok (esc_step s e)"
  by (cases e) (simp add: snapshot_ok_def)

interpretation shutdown: latched_machine esc_step snapshot_ok esc_engine_shutdown_latched
proof unfold_locales
  fix s :: risk_snapshot and e
  assume "esc_engine_shutdown_latched s"
  then show "esc_engine_shutdown_latched (esc_step s e)" by (cases e) simp
qed simp

lemma flatten_iff_top [simp]:
  "snapshot_ok s \<Longrightarrow> should_flatten_portfolio s \<longleftrightarrow> esc_level s = GLOBAL_FLATTEN_AND_HALT"
  by (simp add: should_flatten_portfolio_def snapshot_ok_def)

lemma top_level_gates:
  assumes "esc_level s = GLOBAL_FLATTEN_AND_HALT"
  shows "blocks_entries_for_strategy sid s" "blocks_all_entries s" "requires_preemption x y s"
    "should_flatten_portfolio s"
  using assms by (simp_all add: blocks_entries_for_strategy_def blocks_all_entries_def
      requires_preemption_def should_flatten_portfolio_def)

lemma wake_cycle_fields [simp]:
  "escalation (wake_cycle l) = escalation l" "preemption_armed (wake_cycle l) = preemption_armed l"
  "pending_command (wake_cycle l) = pending_command l"
  by (simp_all add: wake_cycle_def split: option.split)

lemma arm_command_fields [simp]:
  "escalation (arm_command c lv scope sid symb l)
     = transition lv scope sid symb (command_type_value (command_type c)) (escalation l)"
  "pending_command (arm_command c lv scope sid symb l) = Some c"
  "preemption_armed (arm_command c lv scope sid symb l)
     = (preempts_in_flight_cycle lv \<or> preemption_armed l)"
  by (auto simp: arm_command_def Let_def preempts_in_flight_cycle_def)

section \<open>Properties\<close>

text \<open>
  The shutdown latch is permanent: once the engine was at \<open>GLOBAL_FLATTEN_AND_HALT\<close>, every
  later snapshot, after any further transitions (de-escalation to \<open>NOMINAL\<close> included), still
  reports the engine shutdown as latched.
\<close>

theorem shutdown_latch_permanent:
  assumes "esc_level (foldl esc_step initial_snapshot es) = GLOBAL_FLATTEN_AND_HALT"
  shows "esc_engine_shutdown_latched (foldl esc_step initial_snapshot (es @ es'))"
proof (rule shutdown.latch_append)
  have "snapshot_ok (foldl esc_step initial_snapshot es)"
    by (rule shutdown.inv_run) simp
  with assms show "esc_engine_shutdown_latched (foldl esc_step initial_snapshot es)"
    by (simp add: snapshot_ok_def)
qed simp

theorem shutdown_latch_permanent_witness:
  "esc_engine_shutdown_latched (foldl esc_step initial_snapshot
     ([Transition GLOBAL_FLATTEN_AND_HALT ''GLOBAL'' None None ''op'']
      @ [Transition NOMINAL ''GLOBAL'' None None ''op'']))"
  by (rule shutdown_latch_permanent) simp

text \<open>
  Preemption hits its target and nothing else: after a \<open>STRATEGY_LIQUIDATE\<close> command scoped
  to one strategy, a cycle of that strategy must preempt, and a cycle of another strategy
  (with no symbol given) must not; after the arm is cleared nobody preempts.
\<close>

theorem preemption_targets_strategy:
  assumes "sid \<noteq> []" and "other \<noteq> sid"
  shows "let l' = arm_command c STRATEGY_LIQUIDATE scope (Some sid) None l
    in should_preempt (Some sid) symb l' \<and> \<not> should_preempt (Some other) None l'
       \<and> \<not> should_preempt x y (clear_preemption_arm l')"
  using assms by (auto simp: should_preempt_def requires_preemption_def preempts_in_flight_cycle_def
      transition_def clear_preemption_arm_def Let_def)

theorem preemption_targets_strategy_witness:
  "let c = sqlite_row_to_command (demo_row PENDING);
       l' = arm_command c STRATEGY_LIQUIDATE ''GLOBAL'' (Some ''gld_mr'') None new_latch
   in should_preempt (Some ''gld_mr'') None l' \<and> \<not> should_preempt (Some ''qqq_mr'') None l'
      \<and> \<not> should_preempt (Some ''gld_mr'') None (clear_preemption_arm l')"
  unfolding Let_def by (rule preemption_targets_strategy [unfolded Let_def]) simp_all

text \<open>
  A higher level does not subsume a lower one: raising the engine from \<open>ENTRY_GATE_HALT\<close> (all
  entries blocked) to \<open>STRATEGY_LIQUIDATE\<close> for one strategy re-opens entries for every other
  strategy, although the levels are documented as a hierarchy.
\<close>

lemma strategy_liquidate_reopens_others:
  assumes "other \<noteq> sid"
  shows "blocks_entries_for_strategy other (transition ENTRY_GATE_HALT g a b who s)"
    and "\<not> blocks_entries_for_strategy other
           (transition STRATEGY_LIQUIDATE g' (Some sid) symb who'
              (transition ENTRY_GATE_HALT g a b who s))"
  using assms by (simp_all add: blocks_entries_for_strategy_def transition_def)

lemma parse_level_value: "parse_escalation_level (Some (level_value l)) = Inr l"
proof -
  have "parse_escalation_level (Some (level_value NOMINAL)) = Inr NOMINAL"
    and "parse_escalation_level (Some (level_value ENTRY_GATE_HALT)) = Inr ENTRY_GATE_HALT"
    and "parse_escalation_level (Some (level_value STRATEGY_LIQUIDATE)) = Inr STRATEGY_LIQUIDATE"
    and "parse_escalation_level (Some (level_value GLOBAL_FLATTEN_AND_HALT))
           = Inr GLOBAL_FLATTEN_AND_HALT"
    by code_simp+
  then show ?thesis by (cases l) simp_all
qed

end
