(* ===== verification/Entry_Authority.thy ===== *)
theory Entry_Authority
  imports Models Escalation
begin

text \<open>
  The composed authorities: entry permission (\<open>src/engine/entry_authority.py\<close>), sizing
  (\<open>src/engine/sizing_authority.py\<close>) and leg enablement
  (\<open>src/engine/commissioning_gate.py\<close> with the cross-field rule of
  \<open>src/config/__init__.py\<close>). Each is a pure decision; the lemmas characterise the
  decisions and their precedence.
\<close>

section \<open>Entry permission\<close>

text \<open>The context's \<open>action\<close> is text (\<open>"LONG"\<close>, \<open>"SHORT"\<close>, \<open>"EXIT"\<close> or none).\<close>

record entry_context =
  action :: "string option"
  preemption_flatten_portfolio :: bool
  preemption_blocks_strategy :: bool
  portfolio_halted :: bool
  strategy_halted :: bool
  capital_gate_block_new_entries :: bool
  degradation_block_new_entries :: bool
  safe_mode :: bool
  commissioning_gate_blocked :: bool
  force_liquidation :: bool
  pre_flight_recon_locked :: bool
  risk_halted :: bool

record entry_decision =
  allowed :: bool
  block_reason :: "string option"

definition ENTRY_ACTIONS :: "string set" where
  "ENTRY_ACTIONS = {''LONG'', ''SHORT''}"

definition is_entry :: "entry_context \<Rightarrow> bool" where
  "is_entry ctx = (case action ctx of None \<Rightarrow> False | Some a \<Rightarrow> a \<in> ENTRY_ACTIONS)"

definition blocked_by :: "string \<Rightarrow> entry_decision" where
  "blocked_by r = \<lparr>allowed = False, block_reason = Some r\<rparr>"

definition entry_allowed :: "entry_context \<Rightarrow> entry_decision" where
  "entry_allowed ctx =
     (if preemption_flatten_portfolio ctx \<or> preemption_blocks_strategy ctx
      then blocked_by ''preemption_escalation''
      else if pre_flight_recon_locked ctx then blocked_by ''pre_flight_recon_lock''
      else if risk_halted ctx then blocked_by ''risk_halt''
      else if portfolio_halted ctx then blocked_by ''portfolio_halt''
      else if strategy_halted ctx \<and> is_entry ctx then blocked_by ''strategy_halt''
      else if capital_gate_block_new_entries ctx \<and> is_entry ctx
      then blocked_by ''capital_gate_block_new_entries''
      else if degradation_block_new_entries ctx \<and> is_entry ctx \<and> \<not> force_liquidation ctx
      then blocked_by ''degradation_block_entries''
      else if safe_mode ctx then blocked_by ''safe_mode''
      else if commissioning_gate_blocked ctx then blocked_by ''commissioning_fail_closed''
      else \<lparr>allowed = True, block_reason = None\<rparr>)"

text \<open>
  The specification: a list of gates in the registered precedence, each with its reason;
  the decision is the first gate that fires.
\<close>

definition entry_gates :: "(string \<times> (entry_context \<Rightarrow> bool)) list" where
  "entry_gates =
     [(''preemption_escalation'',
         \<lambda>c. preemption_flatten_portfolio c \<or> preemption_blocks_strategy c),
      (''pre_flight_recon_lock'', pre_flight_recon_locked),
      (''risk_halt'', risk_halted),
      (''portfolio_halt'', portfolio_halted),
      (''strategy_halt'', \<lambda>c. strategy_halted c \<and> is_entry c),
      (''capital_gate_block_new_entries'', \<lambda>c. capital_gate_block_new_entries c \<and> is_entry c),
      (''degradation_block_entries'',
         \<lambda>c. degradation_block_new_entries c \<and> is_entry c \<and> \<not> force_liquidation c),
      (''safe_mode'', safe_mode),
      (''commissioning_fail_closed'', commissioning_gate_blocked)]"

definition first_gate :: "entry_context \<Rightarrow> string option" where
  "first_gate ctx = map_option fst (List.find (\<lambda>g. snd g ctx) entry_gates)"

text \<open>More blocking state: every gate of the left context is also on in the right one.\<close>

definition more_blocked :: "entry_context \<Rightarrow> entry_context \<Rightarrow> bool" where
  "more_blocked c d =
     (action d = action c \<and> (force_liquidation d \<longrightarrow> force_liquidation c)
      \<and> (preemption_flatten_portfolio c \<longrightarrow> preemption_flatten_portfolio d)
      \<and> (preemption_blocks_strategy c \<longrightarrow> preemption_blocks_strategy d)
      \<and> (portfolio_halted c \<longrightarrow> portfolio_halted d)
      \<and> (strategy_halted c \<longrightarrow> strategy_halted d)
      \<and> (capital_gate_block_new_entries c \<longrightarrow> capital_gate_block_new_entries d)
      \<and> (degradation_block_new_entries c \<longrightarrow> degradation_block_new_entries d)
      \<and> (safe_mode c \<longrightarrow> safe_mode d)
      \<and> (commissioning_gate_blocked c \<longrightarrow> commissioning_gate_blocked d)
      \<and> (pre_flight_recon_locked c \<longrightarrow> pre_flight_recon_locked d)
      \<and> (risk_halted c \<longrightarrow> risk_halted d))"

text \<open>The two preemption fields as the live system fills them from the escalation engine.\<close>

definition with_escalation :: "risk_snapshot \<Rightarrow> string \<Rightarrow> entry_context \<Rightarrow> entry_context" where
  "with_escalation snap strategy_id ctx =
     ctx\<lparr>preemption_flatten_portfolio := should_flatten_portfolio snap,
         preemption_blocks_strategy := blocks_entries_for_strategy strategy_id snap\<rparr>"

section \<open>Sizing\<close>

record cap_context =
  base_cap :: pyfloat
  max_position_pct :: pyfloat
  cap_safe_mode :: bool
  quality_multiplier :: pyfloat
  parity_multiplier :: pyfloat
  corr_shutter_multiplier :: pyfloat
  portfolio_throttle :: pyfloat
  vol_size_scalar :: pyfloat
  thin_liquidity_active :: bool
  thin_liquidity_mult :: pyfloat

record budget_context =
  pad_leg_budget :: pyfloat
  governor_corr_clamp :: pyfloat
  governor_cold_start_clamp :: pyfloat
  lld_watch_mult :: pyfloat
  exit_only :: bool
  signal_conflict_block :: bool
  leg_disabled :: bool
  breaker_halt :: bool

record sizing_decision =
  final_cap :: pyfloat
  risk_budget_fraction :: pyfloat
  zeroed_by :: "string option"

definition composed_final_cap :: "cap_context \<Rightarrow> pyfloat" where
  "composed_final_cap ctx =
     (if cap_safe_mode ctx then 0
      else
        let cap = base_cap ctx * quality_multiplier ctx * parity_multiplier ctx
                  * corr_shutter_multiplier ctx * portfolio_throttle ctx;
            clamped = max 0 (min (max_position_pct ctx) cap);
            scaled = clamped * vol_size_scalar ctx
        in if thin_liquidity_active ctx then scaled * thin_liquidity_mult ctx else scaled)"

definition composed_risk_budget_fraction :: "budget_context \<Rightarrow> pyfloat \<times> string option" where
  "composed_risk_budget_fraction ctx =
     (if breaker_halt ctx then (0, Some ''breaker_halt'')
      else if exit_only ctx then (0, Some ''exit_only'')
      else if leg_disabled ctx then (0, Some ''leg_disabled'')
      else if signal_conflict_block ctx then (0, Some ''signal_conflict'')
      else (pad_leg_budget ctx * governor_corr_clamp ctx * governor_cold_start_clamp ctx
              * lld_watch_mult ctx, None))"

definition composed_sizing :: "cap_context \<Rightarrow> budget_context \<Rightarrow> sizing_decision" where
  "composed_sizing cap_ctx budget_ctx =
     (let (frac, zeroed) = composed_risk_budget_fraction budget_ctx
      in \<lparr>final_cap = composed_final_cap cap_ctx, risk_budget_fraction = frac, zeroed_by = zeroed\<rparr>)"

section \<open>Leg enablement\<close>

record strategy_config =
  strategy_id :: string
  strat_symbol :: string
  enabled :: bool

record soak_config =
  soak_enabled :: bool
  commissioning_legs :: "string list"

record leg_load_decision =
  lld_strategy_id :: string
  lld_loaded :: bool
  lld_source :: string
  lld_commissioning :: bool
  lld_config :: "strategy_config option"

text \<open>Raises when a live environment carries a commissioning allowlist.\<close>

definition assert_commissioning_gate_valid :: "string \<Rightarrow> string list \<Rightarrow> bool" where
  "assert_commissioning_gate_valid environment legs = (\<not> (environment = ''live'' \<and> legs \<noteq> []))"

text \<open>\<open>{s.strategy_id: s for s in \<dots>}\<close>: the last entry of an id wins.\<close>

definition by_id :: "strategy_config list \<Rightarrow> string \<Rightarrow> strategy_config option" where
  "by_id ss sid = List.find (\<lambda>s. strategy_id s = sid) (rev ss)"

definition resolve_leg ::
  "string \<Rightarrow> soak_config \<Rightarrow> strategy_config list \<Rightarrow> strategy_config list \<Rightarrow> bool \<Rightarrow> string
     \<Rightarrow> leg_load_decision" where
  "resolve_leg environment soak locals watchers supabase_authoritative sid =
     (let commissioning_active = (soak_enabled soak \<and> environment = ''paper'');
          allowlist = (if commissioning_active then commissioning_legs soak else [])
      in if sid \<in> set allowlist \<and> by_id locals sid \<noteq> None then
           \<lparr>lld_strategy_id = sid, lld_loaded = True, lld_source = ''COMMISSIONING_GATE'',
            lld_commissioning = True, lld_config = by_id locals sid\<rparr>
         else if soak_enabled soak then
           \<lparr>lld_strategy_id = sid, lld_loaded = False, lld_source = ''FAIL_CLOSED'',
            lld_commissioning = False, lld_config = None\<rparr>
         else
           let ws = by_id watchers sid;
               loaded = (case ws of None \<Rightarrow> False | Some w \<Rightarrow> enabled w)
           in \<lparr>lld_strategy_id = sid, lld_loaded = loaded,
               lld_source = (if supabase_authoritative then ''SUPABASE_ENABLEMENT''
                             else ''LOCAL_DEFAULT''),
               lld_commissioning = False, lld_config = (if loaded then ws else None)\<rparr>)"

definition resolve_active_legs ::
  "string \<Rightarrow> soak_config \<Rightarrow> strategy_config list \<Rightarrow> strategy_config list \<Rightarrow> bool
     \<Rightarrow> leg_load_decision list" where
  "resolve_active_legs environment soak locals watchers supabase_authoritative =
     map (resolve_leg environment soak locals watchers supabase_authoritative)
       (sorted_list_of_set (strategy_id ` set locals \<union> strategy_id ` set watchers))"

section \<open>Lemmas\<close>

lemma blocked_by_simps [simp]:
  "\<not> allowed (blocked_by r)" "block_reason (blocked_by r) = Some r"
  by (simp_all add: blocked_by_def)

lemma entry_allowed_first_gate:
  "entry_allowed ctx = \<lparr>allowed = (first_gate ctx = None), block_reason = first_gate ctx\<rparr>"
  by (simp add: entry_allowed_def first_gate_def entry_gates_def blocked_by_def)

lemma first_gate_None: "first_gate ctx = None \<longleftrightarrow> list_all (\<lambda>g. \<not> snd g ctx) entry_gates"
  by (simp add: first_gate_def find_None_iff list_all_iff Ball_def split_paired_All)

lemma more_blocked_gates:
  "more_blocked c d \<Longrightarrow> list_all (\<lambda>g. snd g c \<longrightarrow> snd g d) entry_gates"
  by (auto simp: more_blocked_def entry_gates_def is_entry_def)

lemma commissioned_only_in_paper:
  "lld_commissioning (resolve_leg environment soak locals watchers auth sid) \<Longrightarrow>
     environment = ''paper'' \<and> soak_enabled soak \<and> sid \<in> set (commissioning_legs soak)
     \<and> by_id locals sid \<noteq> None"
  by (auto simp: resolve_leg_def Let_def split: if_splits)

lemma by_id_known: "by_id ss sid = None \<longleftrightarrow> sid \<notin> strategy_id ` set ss"
  by (auto simp: by_id_def find_None_iff)

lemma filter_sorted_ids:
  fixes A :: "string set"
  assumes "finite A"
  shows "filter P (sorted_list_of_set A) = sorted_list_of_set {x \<in> A. P x}"
  using assms by (intro sorted_distinct_set_unique) (auto simp: sorted_wrt_filter)

section \<open>Properties\<close>

text \<open>
  The nested conditionals of \<open>entry_allowed\<close> implement the registered precedence table: the
  order is blocked exactly when some gate fires, and the reason reported is the first firing
  gate of the table.
\<close>

lemma entry_allowed_refines_precedence:
  "allowed (entry_allowed ctx) = list_all (\<lambda>g. \<not> snd g ctx) entry_gates
   \<and> block_reason (entry_allowed ctx) = first_gate ctx"
  by (simp add: entry_allowed_first_gate first_gate_None)

text \<open>
  The authority fails closed: switching on further gates (or dropping the
  force-liquidation exemption) never turns a blocked order into an allowed one.
\<close>

theorem entry_allowed_antitone:
  assumes "more_blocked c d" and "\<not> allowed (entry_allowed c)"
  shows "\<not> allowed (entry_allowed d)"
proof -
  from assms(2) have "\<not> list_all (\<lambda>g. \<not> snd g c) entry_gates"
    by (simp add: entry_allowed_first_gate first_gate_None)
  moreover have "list_all (\<lambda>g. snd g c \<longrightarrow> snd g d) entry_gates"
    by (rule more_blocked_gates [OF assms(1)])
  ultimately have "\<not> list_all (\<lambda>g. \<not> snd g d) entry_gates"
    unfolding list_all_iff by blast
  then show ?thesis by (simp add: entry_allowed_first_gate first_gate_None)
qed

definition clear_context :: "string option \<Rightarrow> entry_context" where
  "clear_context a =
     \<lparr>action = a, preemption_flatten_portfolio = False, preemption_blocks_strategy = False,
      portfolio_halted = False, strategy_halted = False, capital_gate_block_new_entries = False,
      degradation_block_new_entries = False, safe_mode = False, commissioning_gate_blocked = False,
      force_liquidation = False, pre_flight_recon_locked = False, risk_halted = False\<rparr>"

theorem entry_allowed_antitone_witness:
  "let c = (clear_context (Some ''LONG''))\<lparr>strategy_halted := True\<rparr>
   in \<not> allowed (entry_allowed (c\<lparr>safe_mode := True\<rparr>))"
  unfolding Let_def
  by (rule entry_allowed_antitone [of "(clear_context (Some ''LONG''))\<lparr>strategy_halted := True\<rparr>"])
     (simp_all add: more_blocked_def clear_context_def entry_allowed_def is_entry_def
        ENTRY_ACTIONS_def)

text \<open>
  The kill switch outranks every signal: in any state the escalation engine can reach, at
  \<open>GLOBAL_FLATTEN_AND_HALT\<close> every order of every strategy is refused with the preemption
  reason, whatever the other gates say.
\<close>

theorem kill_switch_outranks_all:
  assumes "esc_level (foldl esc_step initial_snapshot es) = GLOBAL_FLATTEN_AND_HALT"
  shows "entry_allowed (with_escalation (foldl esc_step initial_snapshot es) sid ctx)
    = \<lparr>allowed = False, block_reason = Some ''preemption_escalation''\<rparr>"
  using top_level_gates [OF assms]
  by (simp add: entry_allowed_def with_escalation_def blocked_by_def)

theorem kill_switch_outranks_all_witness:
  "entry_allowed (with_escalation (foldl esc_step initial_snapshot
       [Transition GLOBAL_FLATTEN_AND_HALT ''GLOBAL'' None None ''op'']) ''qqq''
       (clear_context (Some ''LONG'')))
    = \<lparr>allowed = False, block_reason = Some ''preemption_escalation''\<rparr>"
  by (rule kill_switch_outranks_all) simp

text \<open>
  While the multipliers applied after the clamp stay within \<open>[0, 1]\<close> (as the source notes
  they do today), the composed cap lies between zero and the configured ceiling.
\<close>

theorem composed_cap_within_ceiling:
  assumes "0 \<le> vol_size_scalar ctx" and "vol_size_scalar ctx \<le> 1"
    and "0 \<le> thin_liquidity_mult ctx" and "thin_liquidity_mult ctx \<le> 1"
    and "0 \<le> max_position_pct ctx"
  shows "0 \<le> composed_final_cap ctx \<and> composed_final_cap ctx \<le> max_position_pct ctx"
proof -
  define c where "c = max 0 (min (max_position_pct ctx)
    (base_cap ctx * quality_multiplier ctx * parity_multiplier ctx * corr_shutter_multiplier ctx
      * portfolio_throttle ctx))"
  have c: "0 \<le> c" "c \<le> max_position_pct ctx" using assms(5) by (auto simp: c_def)
  have v: "0 \<le> c * vol_size_scalar ctx" "c * vol_size_scalar ctx \<le> c"
    using c assms(1,2) by (auto simp: mult_left_le)
  have t: "0 \<le> c * vol_size_scalar ctx * thin_liquidity_mult ctx"
    "c * vol_size_scalar ctx * thin_liquidity_mult ctx \<le> c * vol_size_scalar ctx"
    using v assms(3,4) by (auto simp: mult_left_le)
  show ?thesis
    using c v t assms(5) unfolding composed_final_cap_def Let_def c_def [symmetric] by auto
qed

definition plain_cap :: cap_context where
  "plain_cap =
     \<lparr>base_cap = 1, max_position_pct = 1/2, cap_safe_mode = False, quality_multiplier = 1,
      parity_multiplier = 2, corr_shutter_multiplier = 1, portfolio_throttle = 1,
      vol_size_scalar = 1/4, thin_liquidity_active = True, thin_liquidity_mult = 7/10\<rparr>"

theorem composed_cap_within_ceiling_witness:
  "0 \<le> composed_final_cap plain_cap \<and> composed_final_cap plain_cap \<le> 1/2"
  using composed_cap_within_ceiling [of plain_cap] by (simp add: plain_cap_def)

text \<open>
  The clamp sits in the middle of the stack: a post-clamp multiplier above one breaks the
  ceiling, the gap the source records as RA-CAP-BYPASS.
\<close>

lemma cap_bypass:
  "max_position_pct (plain_cap\<lparr>vol_size_scalar := 2\<rparr>)
     < composed_final_cap (plain_cap\<lparr>vol_size_scalar := 2, thin_liquidity_active := False\<rparr>)"
  by (simp add: plain_cap_def composed_final_cap_def)

text \<open>
  During a soak the boot is identical whether Supabase is reachable, unreachable or
  flaking: the legs that load, with their configurations and attribution, do not depend on
  what the config watcher fetched, and they are exactly the allowlisted legs with a local
  charter, in a paper environment.
\<close>

theorem soak_boot_ignores_supabase:
  assumes "soak_enabled soak"
  shows "filter lld_loaded (resolve_active_legs environment soak locals watchers auth)
      = (if environment = ''paper''
         then map (\<lambda>sid. \<lparr>lld_strategy_id = sid, lld_loaded = True,
                      lld_source = ''COMMISSIONING_GATE'', lld_commissioning = True,
                      lld_config = by_id locals sid\<rparr>)
                (sorted_list_of_set (strategy_id ` set locals \<inter> set (commissioning_legs soak)))
         else [])"
proof -
  let ?ids = "strategy_id ` set locals \<union> strategy_id ` set watchers"
  let ?P = "\<lambda>sid. environment = ''paper'' \<and> sid \<in> set (commissioning_legs soak)
    \<and> sid \<in> strategy_id ` set locals"
  have loaded: "lld_loaded (resolve_leg environment soak locals watchers auth sid) = ?P sid" for sid
    using assms by (simp add: resolve_leg_def Let_def by_id_known del: not_None_eq)
  have "filter lld_loaded (resolve_active_legs environment soak locals watchers auth)
      = map (resolve_leg environment soak locals watchers auth)
          (sorted_list_of_set {sid \<in> ?ids. ?P sid})"
    by (simp add: resolve_active_legs_def filter_map comp_def loaded filter_sorted_ids)
  also have "{sid \<in> ?ids. ?P sid} = (if environment = ''paper''
      then strategy_id ` set locals \<inter> set (commissioning_legs soak) else {})"
    by auto
  finally show ?thesis
    using assms by (auto simp: resolve_leg_def Let_def by_id_known simp del: not_None_eq)
qed

theorem soak_boot_ignores_supabase_witness:
  "let leg = \<lparr>strategy_id = ''gld'', strat_symbol = ''GLD'', enabled = False\<rparr>;
       other = \<lparr>strategy_id = ''old'', strat_symbol = ''USO'', enabled = True\<rparr>;
       soak = \<lparr>soak_enabled = True, commissioning_legs = [''gld'']\<rparr>
   in map lld_strategy_id (filter lld_loaded
        (resolve_active_legs ''paper'' soak [leg, other] [other] True)) = [''gld'']"
  unfolding Let_def by (subst soak_boot_ignores_supabase) (simp, code_simp)

end
