(* ===== verification/Idempotent_Execution.thy ===== *)
theory Idempotent_Execution
  imports Entry_Authority
begin

text \<open>
  Idempotent order submission: \<open>src/execution/idempotent_execution.py\<close> (the deterministic
  client order id, the query-before-submit gate, the position tracker, the boot
  reconciliation) and \<open>src/execution/idempotent_execution_adapter.py\<close> (the single live
  order path). The broker is external: its operations are arguments of the model, and the
  locale \<open>execution_broker\<close> states the part of the \<open>ExecutionBroker\<close> protocol the
  gate relies on. It is interpreted on the in-memory broker the repository exercises the
  gate with (\<open>tests/test_execution_robustness.py\<close>). SHA-256 is an argument. The
  per-id lock makes a submission atomic, so concurrent callers are sequences of submissions.
\<close>

section \<open>Intents, orders and the broker contract\<close>

definition deterministic_client_order_id ::
  "(string \<Rightarrow> string) \<Rightarrow> string \<Rightarrow> string \<Rightarrow> string \<Rightarrow> string \<Rightarrow> string" where
  "deterministic_client_order_id sha256_hex leg_id ts sde epoch =
     ''mbappe-'' @ take 38 (sha256_hex (leg_id @ ''|'' @ ts @ ''|'' @ str_lower sde @ ''|'' @ epoch))"

record order_intent =
  in_leg_id :: string
  in_symbol :: string
  in_side :: string
  in_qty :: pyfloat
  in_signal_ts :: string
  in_epoch :: int

definition client_order_id :: "(string \<Rightarrow> string) \<Rightarrow> order_intent \<Rightarrow> string" where
  "client_order_id sha256_hex i =
     deterministic_client_order_id sha256_hex (in_leg_id i) (in_signal_ts i) (in_side i)
       (str_of_int (in_epoch i))"

record broker_order =
  bo_client_order_id :: string
  bo_symbol :: string
  bo_side :: string
  bo_qty :: pyfloat
  bo_status :: string
  bo_filled_qty :: pyfloat
  bo_filled_avg_price :: pyfloat
  bo_order_id :: "string option"

definition TERMINAL_STATUSES :: "string set" where
  "TERMINAL_STATUSES = {''filled'', ''canceled'', ''cancelled'', ''expired'', ''rejected''}"

definition is_terminal :: "broker_order \<Rightarrow> bool" where
  "is_terminal ord = (str_lower (bo_status ord) \<in> TERMINAL_STATUSES)"

definition remainder :: "broker_order \<Rightarrow> pyfloat" where
  "remainder ord = max (bo_qty ord - bo_filled_qty ord) 0"

section \<open>The submission gate\<close>

datatype submit_error =
    Entry_blocked entry_decision string string
  | Engine_preempted string string risk_escalation_level

record submit_result =
  sr_order :: broker_order
  sr_was_noop :: bool

record rejection_report =
  rr_leg_id :: string
  rr_symbol :: string
  rr_side :: string
  rr_client_order_id :: string
  rr_qty :: pyfloat

text \<open>
  \<open>IdempotentSubmitter.submit\<close>: \<open>guard\<close> is what \<open>entry_guard()\<close> returns and
  \<open>preempt\<close> what \<open>preempt_check()\<close> returns, \<open>None\<close> when the callable is not given.
  \<open>gate_error\<close> is the safe checkpoint between the reservation of the id and the send: the
  entry authority first, then preemption.
\<close>

definition gate_error ::
  "order_intent \<Rightarrow> bool option \<Rightarrow> entry_decision option \<Rightarrow> risk_snapshot \<Rightarrow> submit_error option" where
  "gate_error i preempt guard esc =
     (let preempted = (if preempt = Some True
            then Some (Engine_preempted (in_leg_id i) (in_symbol i) (esc_level esc)) else None)
      in case guard of
           None \<Rightarrow> preempted
         | Some decision \<Rightarrow>
             if \<not> allowed decision then Some (Entry_blocked decision (in_leg_id i) (in_symbol i))
             else preempted)"

definition submit ::
  "(string \<Rightarrow> string) \<Rightarrow> (order_intent \<Rightarrow> 'b \<Rightarrow> 'b \<times> broker_order) \<Rightarrow> ('b \<Rightarrow> string \<Rightarrow> broker_order option)
   \<Rightarrow> order_intent \<Rightarrow> bool option \<Rightarrow> entry_decision option \<Rightarrow> risk_snapshot \<Rightarrow> 'b
   \<Rightarrow> 'b \<times> rejection_report list \<times> (submit_error + submit_result)" where
  "submit sha256_hex bsubmit bget i preempt guard esc b =
     (let coid = client_order_id sha256_hex i
      in case bget b coid of
           Some existing \<Rightarrow> (b, [], Inr \<lparr>sr_order = existing, sr_was_noop = True\<rparr>)
         | None \<Rightarrow>
             (case gate_error i preempt guard esc of
                Some e \<Rightarrow> (b, [], Inl e)
              | None \<Rightarrow>
                  let res = bsubmit i b; ord = snd res
                  in (fst res,
                      (if str_lower (bo_status ord) = ''rejected''
                       then [\<lparr>rr_leg_id = in_leg_id i, rr_symbol = in_symbol i, rr_side = in_side i,
                              rr_client_order_id = coid, rr_qty = in_qty i\<rparr>]
                       else []),
                      Inr \<lparr>sr_order = ord, sr_was_noop = False\<rparr>)))"

text \<open>
  A history: submissions through the gate, interleaved with whatever else happens at the
  broker. A send is a submission that reached the broker.
\<close>

datatype 'e exec_event = Submit order_intent "bool option" "entry_decision option" risk_snapshot | Env 'e

fun sent_now :: "submit_error + submit_result \<Rightarrow> bool" where
  "sent_now (Inl e) = False"
| "sent_now (Inr r) = (\<not> sr_was_noop r)"

fun exec_sends ::
  "(string \<Rightarrow> string) \<Rightarrow> (order_intent \<Rightarrow> 'b \<Rightarrow> 'b \<times> broker_order) \<Rightarrow> ('b \<Rightarrow> string \<Rightarrow> broker_order option)
   \<Rightarrow> ('e \<Rightarrow> 'b \<Rightarrow> 'b) \<Rightarrow> 'b \<Rightarrow> 'e exec_event list \<Rightarrow> string list" where
  "exec_sends sha bsubmit bget env b [] = []"
| "exec_sends sha bsubmit bget env b (Submit i p g esc # evs) =
     (let r = submit sha bsubmit bget i p g esc b
      in (if sent_now (snd (snd r)) then [client_order_id sha i] else [])
         @ exec_sends sha bsubmit bget env (fst r) evs)"
| "exec_sends sha bsubmit bget env b (Env e # evs) = exec_sends sha bsubmit bget env (env e b) evs"

locale execution_broker =
  fixes sha :: "string \<Rightarrow> string"
    and bsubmit :: "order_intent \<Rightarrow> 'b \<Rightarrow> 'b \<times> broker_order"
    and bget :: "'b \<Rightarrow> string \<Rightarrow> broker_order option"
    and env :: "'e \<Rightarrow> 'b \<Rightarrow> 'b"
  assumes submit_recorded: "bget b (client_order_id sha i) = None
      \<Longrightarrow> bget (fst (bsubmit i b)) (client_order_id sha i) \<noteq> None"
    and submit_keeps: "bget b c \<noteq> None \<Longrightarrow> bget (fst (bsubmit i b)) c \<noteq> None"
    and env_keeps: "bget b c \<noteq> None \<Longrightarrow> bget (env e b) c \<noteq> None"
begin

lemma known_never_sent:
  "bget b c \<noteq> None \<Longrightarrow> c \<notin> set (exec_sends sha bsubmit bget env b evs)"
proof (induction evs arbitrary: b)
  case (Cons ev evs)
  show ?case
  proof (cases ev)
    case (Submit i p g esc)
    have "bget (fst (submit sha bsubmit bget i p g esc b)) c \<noteq> None"
      using Cons.prems submit_keeps [of b c i] by (simp add: submit_def Let_def split: option.splits)
    note IH = Cons.IH [OF this]
    have "sent_now (snd (snd (submit sha bsubmit bget i p g esc b))) \<Longrightarrow> c \<noteq> client_order_id sha i"
      using Cons.prems by (auto simp: submit_def Let_def split: option.splits)
    with IH Submit show ?thesis by (auto simp: Let_def)
  next
    case (Env e)
    with Cons env_keeps show ?thesis by (simp del: not_None_eq)
  qed
qed simp

text \<open>Every id is sent at most once, whatever is retried, refused or interleaved.\<close>

lemma sends_distinct: "distinct (exec_sends sha bsubmit bget env b evs)"
proof (induction evs arbitrary: b)
  case (Cons ev evs)
  show ?case
  proof (cases ev)
    case (Submit i p g esc)
    let ?r = "submit sha bsubmit bget i p g esc b"
    have "sent_now (snd (snd ?r)) \<Longrightarrow> bget (fst ?r) (client_order_id sha i) \<noteq> None"
      using submit_recorded [of b i] by (auto simp: submit_def Let_def split: option.splits)
    with Cons.IH [of "fst ?r"] known_never_sent [of "fst ?r" "client_order_id sha i" evs] Submit
    show ?thesis by (auto simp: Let_def)
  next
    case (Env e)
    with Cons.IH show ?thesis by simp
  qed
qed simp

text \<open>A submission the gate lets through is sent, and its retry finds the order.\<close>

lemma retry_is_noop:
  assumes "bget b (client_order_id sha i) = None" and "gate_error i p g esc = None"
  shows "sent_now (snd (snd (submit sha bsubmit bget i p g esc b)))
    \<and> (\<exists>ord. submit sha bsubmit bget i p' g' esc' (fst (submit sha bsubmit bget i p g esc b))
         = (fst (submit sha bsubmit bget i p g esc b), [], Inr \<lparr>sr_order = ord, sr_was_noop = True\<rparr>))"
  using assms submit_recorded [of b i] by (auto simp: submit_def Let_def)

end

section \<open>The in-memory broker the gate is exercised with\<close>

record mock_broker =
  mb_orders :: "(string, broker_order) dict"
  mb_positions :: "(string, pyfloat) dict"
  mb_reject_symbols :: "string set"
  mb_submit_calls :: nat

definition mock_submit :: "(string \<Rightarrow> string) \<Rightarrow> order_intent \<Rightarrow> mock_broker \<Rightarrow> mock_broker \<times> broker_order" where
  "mock_submit sha i b =
     (let b1 = b\<lparr>mb_submit_calls := mb_submit_calls b + 1\<rparr>; coid = client_order_id sha i
      in case map_of (mb_orders b) coid of
           Some existing \<Rightarrow> (b1, existing)
         | None \<Rightarrow>
             let ord = \<lparr>bo_client_order_id = coid, bo_symbol = in_symbol i, bo_side = in_side i,
                   bo_qty = in_qty i,
                   bo_status = (if in_symbol i \<in> mb_reject_symbols b then ''rejected'' else ''new''),
                   bo_filled_qty = 0, bo_filled_avg_price = 0,
                   bo_order_id = Some (''ord-'' @ str_of_nat (length (mb_orders b) + 1))\<rparr>
             in (b1\<lparr>mb_orders := AList.update coid ord (mb_orders b)\<rparr>, ord))"

definition mock_get :: "mock_broker \<Rightarrow> string \<Rightarrow> broker_order option" where
  "mock_get b coid = map_of (mb_orders b) coid"

definition mock_fill :: "string \<Rightarrow> pyfloat \<Rightarrow> pyfloat \<Rightarrow> bool \<Rightarrow> mock_broker \<Rightarrow> mock_broker" where
  "mock_fill coid qty price final b =
     (case map_of (mb_orders b) coid of
        None \<Rightarrow> b
      | Some ord \<Rightarrow>
          let ord' = ord\<lparr>bo_filled_qty := bo_filled_qty ord + qty, bo_filled_avg_price := price,
                         bo_status := (if final then ''filled'' else ''partially_filled'')\<rparr>;
              signed = (if bo_side ord = ''buy'' then qty else - qty)
          in b\<lparr>mb_orders := AList.update coid ord' (mb_orders b),
               mb_positions := AList.update (bo_symbol ord)
                 (dict_get (mb_positions b) (bo_symbol ord) 0 + signed) (mb_positions b)\<rparr>)"

definition mock_cancel :: "string \<Rightarrow> mock_broker \<Rightarrow> mock_broker" where
  "mock_cancel coid b =
     (case map_of (mb_orders b) coid of
        None \<Rightarrow> b
      | Some ord \<Rightarrow> b\<lparr>mb_orders := AList.update coid (ord\<lparr>bo_status := ''canceled''\<rparr>) (mb_orders b)\<rparr>)"

definition empty_broker :: mock_broker where
  "empty_broker = \<lparr>mb_orders = [], mb_positions = [], mb_reject_symbols = {}, mb_submit_calls = 0\<rparr>"

datatype mock_event = Fill string pyfloat pyfloat bool | Cancel string

fun mock_env :: "mock_event \<Rightarrow> mock_broker \<Rightarrow> mock_broker" where
  "mock_env (Fill c q p final) b = mock_fill c q p final b"
| "mock_env (Cancel c) b = mock_cancel c b"

interpretation mock: execution_broker sha "mock_submit sha" mock_get mock_env for sha
proof
  show "mock_get b (client_order_id sha i) = None
      \<Longrightarrow> mock_get (fst (mock_submit sha i b)) (client_order_id sha i) \<noteq> None" for b i
    by (simp add: mock_get_def mock_submit_def Let_def)
  show "mock_get b c \<noteq> None \<Longrightarrow> mock_get (fst (mock_submit sha i b)) c \<noteq> None" for b c i
    by (auto simp: mock_get_def mock_submit_def Let_def split: option.splits)
  show "mock_get b c \<noteq> None \<Longrightarrow> mock_get (mock_env e b) c \<noteq> None" for b c e
    by (cases e) (auto simp: mock_get_def mock_fill_def mock_cancel_def Let_def split: option.splits)
qed

section \<open>Position tracking\<close>

record tracked_position =
  tp_symbol :: string
  tp_qty :: pyfloat
  tp_avg_price :: pyfloat

record position_tracker =
  pt_positions :: "(string, tracked_position) dict"
  pt_applied :: "string set"

definition new_tracker :: position_tracker where
  "new_tracker = \<lparr>pt_positions = [], pt_applied = {}\<rparr>"

definition tracked_qty :: "string \<Rightarrow> position_tracker \<Rightarrow> pyfloat" where
  "tracked_qty symbol t =
     (case map_of (pt_positions t) (str_upper symbol) of None \<Rightarrow> 0 | Some p \<Rightarrow> tp_qty p)"

definition tracker_snapshot :: "position_tracker \<Rightarrow> (string, pyfloat) dict" where
  "tracker_snapshot t =
     map (\<lambda>(s, p). (s, tp_qty p)) (filter (\<lambda>(s, p). 1 / 10 ^ 12 < \<bar>tp_qty p\<bar>) (pt_positions t))"

definition signed_fill :: "broker_order \<Rightarrow> pyfloat" where
  "signed_fill ord = (if str_lower (bo_side ord) = ''buy'' then bo_filled_qty ord else - bo_filled_qty ord)"

definition apply_order ::
  "broker_order \<Rightarrow> pyfloat option \<Rightarrow> position_tracker \<Rightarrow> position_tracker \<times> pyfloat" where
  "apply_order ord fill_price t =
     (let status = str_lower (bo_status ord)
      in if status \<in> {''rejected'', ''submission_failed'', ''canceled'', ''cancelled'', ''new''}
            \<and> bo_filled_qty ord \<le> 0
         then (t, if status = ''new'' then remainder ord else 0)
         else if bo_client_order_id ord \<in> pt_applied t then (t, remainder ord)
         else if bo_filled_qty ord \<le> 0 then (t, remainder ord)
         else
           let symb = str_upper (bo_symbol ord);
               pos = (case map_of (pt_positions t) symb of
                        None \<Rightarrow> \<lparr>tp_symbol = symb, tp_qty = 0, tp_avg_price = 0\<rparr> | Some p \<Rightarrow> p);
               signed = signed_fill ord;
               price = (case fill_price of None \<Rightarrow> bo_filled_avg_price ord | Some p \<Rightarrow> p);
               total = \<bar>tp_qty pos\<bar> + \<bar>signed\<bar>;
               avg = (if (tp_qty pos = 0 \<or> (tp_qty pos > 0) = (signed > 0)) \<and> 0 < total
                      then (\<bar>tp_qty pos\<bar> * tp_avg_price pos + \<bar>signed\<bar> * price) / total
                      else tp_avg_price pos);
               pos' = pos\<lparr>tp_avg_price := avg, tp_qty := tp_qty pos + signed\<rparr>
           in (t\<lparr>pt_positions := AList.update symb pos' (pt_positions t),
                 pt_applied := insert (bo_client_order_id ord) (pt_applied t)\<rparr>, remainder ord))"

definition counts :: "broker_order \<Rightarrow> bool" where
  "counts ord = (0 < bo_filled_qty ord)"

lemma apply_order_noop:
  assumes "\<not> counts ord \<or> bo_client_order_id ord \<in> pt_applied t"
  shows "fst (apply_order ord fp t) = t"
  using assms by (auto simp: apply_order_def counts_def Let_def)

lemma apply_order_fill:
  assumes "counts ord" and "bo_client_order_id ord \<notin> pt_applied t"
  shows "tracked_qty s (fst (apply_order ord fp t))
      = tracked_qty s t + (if str_upper (bo_symbol ord) = str_upper s then signed_fill ord else 0)"
    and "pt_applied (fst (apply_order ord fp t)) = insert (bo_client_order_id ord) (pt_applied t)"
  using assms
  by (auto simp: apply_order_def counts_def Let_def tracked_qty_def split: option.splits)

definition track :: "position_tracker \<Rightarrow> (broker_order \<times> pyfloat option) list \<Rightarrow> position_tracker" where
  "track t ords = foldl (\<lambda>t (ord, fp). fst (apply_order ord fp t)) t ords"

text \<open>The orders that take effect: the first filled report of each client order id.\<close>

fun effective :: "string set \<Rightarrow> broker_order list \<Rightarrow> broker_order list" where
  "effective seen [] = []"
| "effective seen (ord # ords) =
     (if counts ord \<and> bo_client_order_id ord \<notin> seen
      then ord # effective (insert (bo_client_order_id ord) seen) ords
      else effective seen ords)"

lemma track_sum:
  "tracked_qty s (track t ords) = tracked_qty s t
     + sum_list (map signed_fill (filter (\<lambda>ord. str_upper (bo_symbol ord) = str_upper s)
         (effective (pt_applied t) (map fst ords))))"
proof (induction ords arbitrary: t)
  case (Cons of' ords)
  obtain ord fp where o: "of' = (ord, fp)" by (cases of')
  let ?t = "fst (apply_order ord fp t)"
  have "track t (of' # ords) = track ?t ords" by (simp add: track_def o)
  moreover note Cons.IH [of ?t]
  ultimately show ?case
    by (cases "counts ord \<and> bo_client_order_id ord \<notin> pt_applied t")
       (auto simp: o apply_order_fill apply_order_noop)
qed (simp add: track_def)

section \<open>Boot reconciliation\<close>

record reconcile_mismatch =
  mm_kind :: string
  mm_symbol :: string
  mm_internal :: "pyfloat option"
  mm_broker :: "pyfloat option"

record reconcile_report =
  rp_mismatches :: "reconcile_mismatch list"
  rp_tripped :: bool

text \<open>\<open>{s.upper(): q for s, q in d.items()}\<close>: a later spelling of a symbol wins.\<close>

definition upper_keys :: "(string, pyfloat) dict \<Rightarrow> (string, pyfloat) dict" where
  "upper_keys d = foldl (\<lambda>acc (s, q). AList.update (str_upper s) q acc) [] d"

definition diff_symbol :: "pyfloat \<Rightarrow> string \<Rightarrow> pyfloat \<Rightarrow> pyfloat \<Rightarrow> reconcile_mismatch list" where
  "diff_symbol tol symb iq bq =
     (if \<bar>iq\<bar> < tol \<and> tol \<le> \<bar>bq\<bar>
      then [\<lparr>mm_kind = ''unknown_broker_position'', mm_symbol = symb, mm_internal = Some iq,
             mm_broker = Some bq\<rparr>]
      else if tol \<le> \<bar>iq\<bar> \<and> \<bar>bq\<bar> < tol
      then [\<lparr>mm_kind = ''missing_broker_position'', mm_symbol = symb, mm_internal = Some iq,
             mm_broker = Some bq\<rparr>]
      else if tol < \<bar>iq - bq\<bar>
      then [\<lparr>mm_kind = ''position_qty'', mm_symbol = symb, mm_internal = Some iq,
             mm_broker = Some bq\<rparr>]
      else [])"

definition orphan_orders :: "string set option \<Rightarrow> string set option \<Rightarrow> reconcile_mismatch list" where
  "orphan_orders internal_open_coids broker_open_coids =
     (if internal_open_coids = None \<and> broker_open_coids = None then []
      else
        let ioc = (case internal_open_coids of None \<Rightarrow> {} | Some s \<Rightarrow> s);
            boc = (case broker_open_coids of None \<Rightarrow> {} | Some s \<Rightarrow> s)
        in map (\<lambda>coid. \<lparr>mm_kind = ''orphan_open_order'', mm_symbol = coid, mm_internal = None,
                        mm_broker = None\<rparr>)
             (sorted_list_of_set (boc - ioc)))"

definition reconcile_boot ::
  "(string, pyfloat) dict \<Rightarrow> (string, pyfloat) dict \<Rightarrow> string set option \<Rightarrow> string set option
   \<Rightarrow> pyfloat \<Rightarrow> risk_snapshot option \<Rightarrow> reconcile_report \<times> risk_snapshot option" where
  "reconcile_boot internal_positions broker_positions internal_open_coids broker_open_coids
     qty_tol esc0 =
     (let internal = upper_keys internal_positions;
          broker = upper_keys broker_positions;
          syms = sort (remdups (map (str_upper \<circ> fst) internal_positions
                                @ map (str_upper \<circ> fst) broker_positions));
          mismatches =
            concat (map (\<lambda>s. diff_symbol qty_tol s (dict_get internal s 0) (dict_get broker s 0)) syms)
            @ orphan_orders internal_open_coids broker_open_coids
      in if mismatches = [] then (\<lparr>rp_mismatches = [], rp_tripped = False\<rparr>, esc0)
         else (\<lparr>rp_mismatches = mismatches, rp_tripped = True\<rparr>,
               map_option (transition ENTRY_GATE_HALT ''GLOBAL'' None None ''boot_reconciliation'')
                 esc0))"

lemma diff_symbol_Nil:
  "diff_symbol tol s iq bq = [] \<longleftrightarrow> (\<bar>iq\<bar> < tol \<longleftrightarrow> \<bar>bq\<bar> < tol) \<and> \<bar>iq - bq\<bar> \<le> tol"
  by (auto simp: diff_symbol_def)

lemma orphan_orders_Nil:
  assumes "finite boc"
  shows "orphan_orders (Some ioc) (Some boc) = [] \<longleftrightarrow> boc \<subseteq> ioc"
  using assms by (auto simp: orphan_orders_def)

lemma upper_keys_dom:
  "map_of (upper_keys d) s \<noteq> None \<longleftrightarrow> s \<in> (str_upper \<circ> fst) ` set d"
proof -
  have "map_of (foldl (\<lambda>acc (s, q). AList.update (str_upper s) q acc) acc d) s \<noteq> None
      \<longleftrightarrow> map_of acc s \<noteq> None \<or> s \<in> (str_upper \<circ> fst) ` set d" for acc
    by (induction d arbitrary: acc) (auto split: if_splits)
  from this [of "[]"] show ?thesis by (simp add: upper_keys_def)
qed

lemma upper_keys_default:
  "s \<notin> (str_upper \<circ> fst) ` set d \<Longrightarrow> dict_get (upper_keys d) s 0 = 0"
  using upper_keys_dom [of d s] by (auto simp: dict_get_def split: option.splits)

lemma reconcile_boot_mismatches:
  "rp_mismatches (fst (reconcile_boot ip bp ioc boc tol esc)) = [] \<longleftrightarrow>
     (\<forall>s \<in> (str_upper \<circ> fst) ` (set ip \<union> set bp).
        diff_symbol tol s (dict_get (upper_keys ip) s 0) (dict_get (upper_keys bp) s 0) = [])
     \<and> orphan_orders ioc boc = []"
  by (simp add: reconcile_boot_def Let_def image_Un ball_Un)

lemma agree_everywhere:
  assumes "0 < tol"
  shows "(\<forall>s \<in> (str_upper \<circ> fst) ` (set ip \<union> set bp).
        diff_symbol tol s (dict_get (upper_keys ip) s 0) (dict_get (upper_keys bp) s 0) = [])
    \<longleftrightarrow> (\<forall>s. diff_symbol tol s (dict_get (upper_keys ip) s 0) (dict_get (upper_keys bp) s 0) = [])"
proof (intro iffI allI)
  fix s
  assume all: "\<forall>s \<in> (str_upper \<circ> fst) ` (set ip \<union> set bp).
        diff_symbol tol s (dict_get (upper_keys ip) s 0) (dict_get (upper_keys bp) s 0) = []"
  show "diff_symbol tol s (dict_get (upper_keys ip) s 0) (dict_get (upper_keys bp) s 0) = []"
  proof (cases "s \<in> (str_upper \<circ> fst) ` (set ip \<union> set bp)")
    case True
    with all show ?thesis by blast
  next
    case False
    then show ?thesis using assms by (simp add: image_Un upper_keys_default diff_symbol_Nil)
  qed
qed blast

section \<open>The adapter: the single live order path\<close>

definition DUPLICATE_NOOP_STATUS :: string where
  "DUPLICATE_NOOP_STATUS = ''duplicate_noop''"

text \<open>
  \<open>assign_client_order_id\<close>: an unset or empty id is filled from the signal timestamp, or
  from a fresh \<open>uuid\<close>.
\<close>

definition assign_client_order_id ::
  "(string \<Rightarrow> string) \<Rightarrow> string \<Rightarrow> string option \<Rightarrow> int \<Rightarrow> order \<Rightarrow> order" where
  "assign_client_order_id sha256_hex uuid signal_ts epoch ord =
     (if truthy (ord_client_order_id ord) then ord
      else (case signal_ts of
              Some ts \<Rightarrow> ord\<lparr>ord_client_order_id := Some (deterministic_client_order_id sha256_hex
                 (or_default (ord_strategy_id ord) ''leg'') ts (side_value (ord_side ord))
                 (str_of_int epoch))\<rparr>
            | None \<Rightarrow> ord\<lparr>ord_client_order_id := Some (''mbappe-'' @ take 32 uuid)\<rparr>))"

definition order_coid :: "order \<Rightarrow> string" where
  "order_coid ord = (case ord_client_order_id ord of None \<Rightarrow> [] | Some c \<Rightarrow> c)"

definition noop_result :: "instant \<Rightarrow> order \<Rightarrow> order_result" where
  "noop_result now ord =
     \<lparr>res_symbol = ord_symbol ord, res_side = ord_side ord, res_qty = 0, res_filled_price = 0,
      res_filled_at = now, res_order_id = ord_client_order_id ord,
      res_status = DUPLICATE_NOOP_STATUS\<rparr>"

text \<open>
  The loop of \<open>submit_orders\<close>: \<open>known c\<close> is whether the broker's lookup by client order id
  finds an order (a lookup that raises, or a broker without the method, finds none), and
  \<open>uuids\<close> the random ids drawn, one per order.
\<close>

fun dedupe ::
  "(string \<Rightarrow> string) \<Rightarrow> (string \<Rightarrow> bool) \<Rightarrow> instant \<Rightarrow> string set \<Rightarrow> (order \<times> string) list
   \<Rightarrow> string set \<times> order_result list \<times> order list" where
  "dedupe sha known now seen [] = (seen, [], [])"
| "dedupe sha known now seen ((ord0, uuid) # rest) =
     (let ord = assign_client_order_id sha uuid None 0 ord0;
          coid = order_coid ord;
          already_local = (coid \<in> seen);
          seen' = (if already_local then seen else insert coid seen);
          r = dedupe sha known now seen' rest
      in if already_local \<or> known coid
         then (fst r, noop_result now ord # fst (snd r), snd (snd r))
         else (fst r, fst (snd r), ord # snd (snd r)))"

text \<open>
  \<open>submit_orders\<close>: the ids are reserved, the duplicates answered, the rest handed to the
  inner broker, whose exception propagates. The last component of the result is what the
  inner broker was asked to submit.
\<close>

definition submit_orders ::
  "(string \<Rightarrow> string) \<Rightarrow> (string \<Rightarrow> bool) \<Rightarrow> instant \<Rightarrow> (order list \<Rightarrow> 'x + order_result list)
   \<Rightarrow> (order \<times> string) list \<Rightarrow> string set \<Rightarrow> string set \<times> ('x + order_result list) \<times> order list" where
  "submit_orders sha known now inner orders seen =
     (let r = dedupe sha known now seen orders; noops = fst (snd r); to_submit = snd (snd r)
      in (fst r,
          (if to_submit = [] then Inr noops
           else (case inner to_submit of Inl e \<Rightarrow> Inl e | Inr results \<Rightarrow> Inr (noops @ results))),
          to_submit))"

definition signed_positions :: "position list \<Rightarrow> (string, pyfloat) dict" where
  "signed_positions ps =
     foldl (\<lambda>bp p. AList.update (str_upper (pos_symbol p))
              (if str_lower (pos_side p) = ''long'' then pos_qty p else - pos_qty p) bp) [] ps"

definition adapter_reconcile_boot ::
  "position list \<Rightarrow> (string, pyfloat) dict \<Rightarrow> risk_snapshot \<Rightarrow> reconcile_report \<times> risk_snapshot option" where
  "adapter_reconcile_boot broker_positions internal_positions esc =
     reconcile_boot internal_positions (signed_positions broker_positions) None None (1 / 10 ^ 6)
       (Some esc)"

subsection \<open>At most one submission per id and process\<close>

lemma dedupe_Cons:
  "dedupe sha known now seen ((ord0, uuid) # rest) =
     (let ord = assign_client_order_id sha uuid None 0 ord0; coid = order_coid ord;
          r = dedupe sha known now (insert coid seen) rest
      in if coid \<in> seen \<or> known coid
         then (fst r, noop_result now ord # fst (snd r), snd (snd r))
         else (fst r, fst (snd r), ord # snd (snd r)))"
  by (simp add: Let_def insert_absorb)

lemma dedupe_seen: "seen \<subseteq> fst (dedupe sha known now seen ords)"
proof (induction ords arbitrary: seen)
  case (Cons p ords)
  obtain ord0 uuid where p: "p = (ord0, uuid)" by (cases p)
  show ?case
    using Cons.IH [of "insert (order_coid (assign_client_order_id sha uuid None 0 ord0)) seen"]
    unfolding p dedupe_Cons by (simp add: Let_def)
qed simp

definition passed_on :: "string set \<times> order_result list \<times> order list \<Rightarrow> string list" where
  "passed_on r = map order_coid (snd (snd r))"

lemma dedupe_fresh:
  "set (passed_on (dedupe sha known now seen ords)) \<subseteq> fst (dedupe sha known now seen ords)
   \<and> set (passed_on (dedupe sha known now seen ords)) \<inter> seen = {}
   \<and> distinct (passed_on (dedupe sha known now seen ords))"
proof (induction ords arbitrary: seen)
  case Nil
  then show ?case by (simp add: passed_on_def)
next
  case (Cons p ords)
  obtain ord0 uuid where p: "p = (ord0, uuid)" by (cases p)
  let ?c = "order_coid (assign_client_order_id sha uuid None 0 ord0)"
  have IH: "set (passed_on (dedupe sha known now (insert ?c seen) ords))
         \<subseteq> fst (dedupe sha known now (insert ?c seen) ords)"
      "set (passed_on (dedupe sha known now (insert ?c seen) ords)) \<inter> insert ?c seen = {}"
      "distinct (passed_on (dedupe sha known now (insert ?c seen) ords))"
    using Cons.IH [of "insert ?c seen"] by blast+
  have sup: "insert ?c seen \<subseteq> fst (dedupe sha known now (insert ?c seen) ords)" by (rule dedupe_seen)
  have fst_eq: "fst (dedupe sha known now seen (p # ords)) = fst (dedupe sha known now (insert ?c seen) ords)"
    unfolding p dedupe_Cons by (simp add: Let_def)
  have out: "passed_on (dedupe sha known now seen (p # ords)) =
      (if ?c \<in> seen \<or> known ?c then [] else [?c])
      @ passed_on (dedupe sha known now (insert ?c seen) ords)"
    unfolding p dedupe_Cons by (simp add: Let_def passed_on_def)
  show ?case unfolding fst_eq out using IH sup by auto
qed

text \<open>A process: calls of \<open>submit_orders\<close> under any broker answers and faults.\<close>

type_synonym 'x call =
  "(string \<Rightarrow> bool) \<times> instant \<times> (order list \<Rightarrow> 'x + order_result list) \<times> (order \<times> string) list"

fun inner_submissions :: "(string \<Rightarrow> string) \<Rightarrow> string set \<Rightarrow> 'x call list \<Rightarrow> string list" where
  "inner_submissions sha seen [] = []"
| "inner_submissions sha seen ((known, now, inner, ords) # calls) =
     (let r = submit_orders sha known now inner ords seen
      in map order_coid (snd (snd r)) @ inner_submissions sha (fst r) calls)"

lemma inner_submissions_fresh:
  "set (inner_submissions sha seen calls) \<inter> seen = {} \<and> distinct (inner_submissions sha seen calls)"
proof (induction calls arbitrary: seen)
  case (Cons call calls)
  obtain known now inner ords where call: "call = (known, now, inner, ords)" by (cases call)
  let ?r = "dedupe sha known now seen ords"
  have eq: "inner_submissions sha seen (call # calls) = passed_on ?r @ inner_submissions sha (fst ?r) calls"
    by (simp add: call submit_orders_def Let_def passed_on_def)
  have IH: "set (inner_submissions sha (fst ?r) calls) \<inter> fst ?r = {}"
      "distinct (inner_submissions sha (fst ?r) calls)"
    using Cons.IH [of "fst ?r"] by blast+
  have sup: "seen \<subseteq> fst ?r" by (rule dedupe_seen)
  have new: "set (passed_on ?r) \<subseteq> fst ?r" "set (passed_on ?r) \<inter> seen = {}" "distinct (passed_on ?r)"
    using dedupe_fresh [of sha known now seen ords] by blast+
  show ?case unfolding eq set_append distinct_append using IH sup new by blast
qed simp

lemma applied_mono: "pt_applied t \<subseteq> pt_applied (track t ords)"
proof (induction ords arbitrary: t)
  case (Cons z ords)
  have "pt_applied t \<subseteq> pt_applied (fst (apply_order (fst z) (snd z) t))"
    by (auto simp: apply_order_def Let_def)
  with Cons.IH [of "fst (apply_order (fst z) (snd z) t)"] show ?case
    by (auto simp: track_def split_beta)
qed (simp add: track_def)

definition settled :: "position_tracker \<Rightarrow> broker_order \<Rightarrow> bool" where
  "settled t ord = (\<not> counts ord \<or> bo_client_order_id ord \<in> pt_applied t)"

lemma track_settles: "x \<in> set ords \<Longrightarrow> settled (track t ords) (fst x)"
proof (induction ords arbitrary: t)
  case (Cons y ords)
  let ?t = "fst (apply_order (fst y) (snd y) t)"
  have step: "track t (y # ords) = track ?t ords" by (simp add: track_def split_beta)
  have "settled ?t (fst y)"
    using apply_order_fill(2) [of "fst y" t "snd y"]
    by (cases "bo_client_order_id (fst y) \<in> pt_applied t") (auto simp: apply_order_noop settled_def)
  with Cons applied_mono [of ?t ords] show ?case unfolding step by (auto simp: settled_def)
qed simp

lemma track_settled: "list_all (\<lambda>x. settled t (fst x)) os \<Longrightarrow> track t os = t"
  by (induction os) (auto simp: track_def apply_order_noop settled_def)

lemma track_twice: "track (track t ords) ords = track t ords"
  using track_settles by (intro track_settled) (auto simp: list_all_iff)

lemma tracked_position_sums:
  "tracked_qty s (track new_tracker ords)
     = sum_list (map signed_fill (filter (\<lambda>ord. str_upper (bo_symbol ord) = str_upper s)
         (effective {} (map fst ords))))"
  using track_sum [of s new_tracker ords] by (simp add: new_tracker_def tracked_qty_def)

section \<open>Properties\<close>

definition demo_intent :: order_intent where
  "demo_intent =
     \<lparr>in_leg_id = ''leg'', in_symbol = ''QQQ'', in_side = ''buy'', in_qty = 10,
      in_signal_ts = ''2026-07-02T15:30:00+00:00'', in_epoch = 1\<rparr>"

text \<open>
  C3: Exactly-once submission: against any broker that finds the orders it accepted by their
  client order id, no id is sent twice in any history of submissions, retries, refusals,
  fills and cancels; and an intent the gate lets through is sent, its retry being a no-op.
\<close>

theorem each_order_sent_once:
  assumes submit_recorded: "\<And>b i. bget b (client_order_id sha i) = None
        \<Longrightarrow> bget (fst (bsubmit i b)) (client_order_id sha i) \<noteq> None"
    and submit_keeps: "\<And>b c i. bget b c \<noteq> None \<Longrightarrow> bget (fst (bsubmit i b)) c \<noteq> None"
    and env_keeps: "\<And>b c e. bget b c \<noteq> None \<Longrightarrow> bget (env e b) c \<noteq> None"
  shows "distinct (exec_sends sha bsubmit bget env b evs)
    \<and> (bget b (client_order_id sha i) = None \<and> gate_error i p g esc = None
       \<longrightarrow> sent_now (snd (snd (submit sha bsubmit bget i p g esc b)))
         \<and> \<not> sent_now (snd (snd (submit sha bsubmit bget i p' g' esc'
               (fst (submit sha bsubmit bget i p g esc b))))))"
proof -
  from assms have broker: "execution_broker sha bsubmit bget env" by unfold_locales
  show ?thesis
    using execution_broker.sends_distinct [OF broker, of b evs]
      execution_broker.retry_is_noop [OF broker, of b i p g esc p' g' esc']
    by auto
qed

theorem each_order_sent_once_witness:
  "distinct (exec_sends id (mock_submit id) mock_get mock_env empty_broker
     [Submit demo_intent None None initial_snapshot, Env (Cancel (client_order_id id demo_intent)),
      Submit demo_intent None None initial_snapshot])"
  using each_order_sent_once [of mock_get id "mock_submit id" mock_env, OF mock.submit_recorded
    mock.submit_keeps mock.env_keeps] by blast

text \<open>
  A blocked or preempted order never reaches the broker: when the gate refuses an intent
  that is not at the broker yet, the broker is left unchanged and the refusal names the
  entry authority's decision, which is checked before preemption.
\<close>

theorem refused_order_not_sent:
  assumes "bget b (client_order_id sha i) = None"
  shows "(\<forall>d. g = Some d \<and> \<not> allowed d \<longrightarrow>
            submit sha bsubmit bget i p g esc b
            = (b, [], Inl (Entry_blocked d (in_leg_id i) (in_symbol i))))
    \<and> (p = Some True \<longrightarrow> fst (submit sha bsubmit bget i p g esc b) = b
         \<and> \<not> sent_now (snd (snd (submit sha bsubmit bget i p g esc b))))"
  using assms by (auto simp: submit_def gate_error_def Let_def split: option.splits)

theorem refused_order_not_sent_witness:
  "fst (submit id (mock_submit id) mock_get demo_intent (Some True) None initial_snapshot empty_broker)
   = empty_broker"
proof -
  have "mock_get empty_broker (client_order_id id demo_intent) = None"
    by (simp add: mock_get_def empty_broker_def)
  then show ?thesis
    using refused_order_not_sent [of mock_get empty_broker id demo_intent] by blast
qed

text \<open>
  The tracked position of a symbol is the sum of the signed fills of the orders that
  took effect: each client order id counts once, with its first filled report, and reports
  without a fill (rejections, cancels, new orders) change nothing.
\<close>

theorem tracked_position_sums_fills:
  "tracked_qty s (track new_tracker ords)
     = sum_list (map signed_fill (filter (\<lambda>ord. str_upper (bo_symbol ord) = str_upper s)
         (effective {} (map fst ords))))
   \<and> track (track new_tracker ords) ords = track new_tracker ords"
  by (simp add: tracked_position_sums track_twice)

text \<open>
  C10: Boot reconciliation never adopts silently: the report is clean exactly when internal
  and broker quantities agree for every symbol, within the tolerance and on which side of
  it they lie, and every open broker order is known; then the escalation state is
  untouched, and otherwise every entry is blocked.
\<close>

theorem reconcile_boot_trips_on_any_mismatch:
  assumes "0 < tol" and "finite boc"
  shows "let r = reconcile_boot ip bp (Some ioc) (Some boc) tol (Some esc);
             agree = ((\<forall>s. let i = dict_get (upper_keys ip) s 0; b = dict_get (upper_keys bp) s 0
                            in (\<bar>i\<bar> < tol \<longleftrightarrow> \<bar>b\<bar> < tol) \<and> \<bar>i - b\<bar> \<le> tol) \<and> boc \<subseteq> ioc)
         in (rp_mismatches (fst r) = [] \<longleftrightarrow> agree)
            \<and> (agree \<longrightarrow> r = (\<lparr>rp_mismatches = [], rp_tripped = False\<rparr>, Some esc))
            \<and> (\<not> agree \<longrightarrow> rp_tripped (fst r) \<and> blocks_all_entries (the (snd r)))"
proof -
  let ?r = "reconcile_boot ip bp (Some ioc) (Some boc) tol (Some esc)"
  have iff: "rp_mismatches (fst ?r) = [] \<longleftrightarrow>
      (\<forall>s. (\<bar>dict_get (upper_keys ip) s 0\<bar> < tol \<longleftrightarrow> \<bar>dict_get (upper_keys bp) s 0\<bar> < tol)
        \<and> \<bar>dict_get (upper_keys ip) s 0 - dict_get (upper_keys bp) s 0\<bar> \<le> tol) \<and> boc \<subseteq> ioc"
    unfolding reconcile_boot_mismatches agree_everywhere [OF assms(1)]
    by (simp only: diff_symbol_Nil orphan_orders_Nil [OF assms(2)])
  have "rp_mismatches (fst ?r) = [] \<Longrightarrow> ?r = (\<lparr>rp_mismatches = [], rp_tripped = False\<rparr>, Some esc)"
    "rp_mismatches (fst ?r) \<noteq> [] \<Longrightarrow> rp_tripped (fst ?r) \<and> blocks_all_entries (the (snd ?r))"
    by (auto simp: reconcile_boot_def Let_def transition_def blocks_all_entries_def split: if_splits)
  with iff show ?thesis by (simp add: Let_def)
qed

theorem reconcile_boot_trips_on_any_mismatch_witness:
  "rp_mismatches (fst (reconcile_boot [(''spy'', 5)] [(''SPY'', 5)] (Some {}) (Some {}) (1 / 10 ^ 6)
     (Some initial_snapshot))) = []"
proof -
  have u: "upper_keys [(''spy'', 5)] = [(''SPY'', 5)]" "upper_keys [(''SPY'', 5)] = [(''SPY'', 5)]"
  proof -
    have "str_upper ''spy'' = ''SPY''" "str_upper ''SPY'' = ''SPY''" by code_simp+
    then show "upper_keys [(''spy'', 5)] = [(''SPY'', 5)]" "upper_keys [(''SPY'', 5)] = [(''SPY'', 5)]"
      by (simp_all add: upper_keys_def)
  qed
  from reconcile_boot_trips_on_any_mismatch [of "1 / 10 ^ 6" "{}" "[(''spy'', 5)]" "[(''SPY'', 5)]" "{}"
    initial_snapshot]
  show ?thesis by (simp add: Let_def u)
qed

text \<open>
  Through the adapter a client order id reaches the inner broker at most once in the life
  of a process, whatever batches arrive, whatever the broker's lookup answers and whether
  the inner submission succeeds or raises.
\<close>

theorem adapter_submits_id_at_most_once:
  "distinct (inner_submissions sha seen calls) \<and> set (inner_submissions sha seen calls) \<inter> seen = {}"
  using inner_submissions_fresh [of sha seen calls] by blast

section \<open>What the code does beside its comments\<close>

definition demo_order :: order where
  "demo_order =
     \<lparr>ord_symbol = ''QQQ'', ord_side = BUY, ord_qty = 10, ord_order_type = ''market'',
      ord_stop_price = None, ord_strategy_id = ''leg'', ord_client_order_id = Some ''c1''\<rparr>"

text \<open>
  The id is reserved before the inner submission; when that raises, the retry is answered as
  a duplicate and the order is never sent.
\<close>

lemma failed_submit_is_lost:
  "let first = submit_orders id (\<lambda>_. False) 0 (\<lambda>_. Inl ''timeout'') [(demo_order, ''u'')] {};
       retry = submit_orders id (\<lambda>_. False) 1 (\<lambda>_. Inl ''timeout'') [(demo_order, ''u'')] (fst first)
   in fst (snd first) = Inl ''timeout''
      \<and> snd (snd retry) = [] \<and> fst (snd retry) = Inr [noop_result 1 demo_order]"
  by (simp add: submit_orders_def assign_client_order_id_def order_coid_def demo_order_def Let_def)

text \<open>A partial fill is applied once; the later complete fill of the same id is ignored.\<close>

definition demo_fill :: "string \<Rightarrow> pyfloat \<Rightarrow> broker_order" where
  "demo_fill stt filled =
     \<lparr>bo_client_order_id = ''c1'', bo_symbol = ''QQQ'', bo_side = ''buy'', bo_qty = 10,
      bo_status = stt, bo_filled_qty = filled, bo_filled_avg_price = 400, bo_order_id = None\<rparr>"

lemma later_fill_ignored:
  "tracked_qty ''QQQ'' (track new_tracker
     [(demo_fill ''partially_filled'' 4, None), (demo_fill ''filled'' 10, None)]) = 4"
proof -
  have "str_lower ''buy'' = ''buy''" by code_simp
  then show ?thesis
    unfolding tracked_position_sums [of "''QQQ''"]
    by (simp add: effective.simps counts_def demo_fill_def signed_fill_def)
qed

text \<open>A mismatch at boot replaces a commanded portfolio flatten by the weaker entry halt.\<close>

lemma reconcile_lowers_global_flatten:
  assumes "esc_level esc = GLOBAL_FLATTEN_AND_HALT"
    and "rp_mismatches (fst (reconcile_boot ip bp ioc boc tol (Some esc))) \<noteq> []"
  shows "\<not> should_flatten_portfolio (the (snd (reconcile_boot ip bp ioc boc tol (Some esc))))"
  using assms
  by (auto simp: reconcile_boot_def Let_def transition_def should_flatten_portfolio_def
      commands_portfolio_liquidation_def split: if_splits)

end
