(* ===== verification/Reserved_Capital.thy ===== *)
theory Reserved_Capital
  imports Models
begin

text \<open>
  Cycle-local buying-power reservations, \<open>src/engine/reserved_capital_ledger.py\<close>: the
  ledger against the cycle-open broker snapshot and the capping of a leg's plan to what is
  left. The sizing functions \<open>position_size\<close> and \<open>fractional_qty_allowed\<close> of the absent
  \<open>src/router/risk_manager.py\<close> are arguments. Of a plan's \<open>routing_params\<close> only the
  numeric entries are represented, of its window nothing (the code does not read it here).
\<close>

section \<open>The ledger\<close>

record capital_ledger =
  rl_snapshot :: "account option"
  rl_reserved_total :: pyfloat
  rl_reserved_by_strategy :: "(string, pyfloat) dict"

definition new_ledger :: capital_ledger where
  "new_ledger = \<lparr>rl_snapshot = None, rl_reserved_total = 0, rl_reserved_by_strategy = []\<rparr>"

definition begin_cycle :: "account \<Rightarrow> capital_ledger \<Rightarrow> capital_ledger" where
  "begin_cycle a l = l\<lparr>rl_snapshot := Some a, rl_reserved_total := 0, rl_reserved_by_strategy := []\<rparr>"

definition available_buying_power :: "capital_ledger \<Rightarrow> pyfloat" where
  "available_buying_power l =
     (case rl_snapshot l of None \<Rightarrow> 0 | Some a \<Rightarrow> max (acct_buying_power a - rl_reserved_total l) 0)"

definition available_account :: "capital_ledger \<Rightarrow> account" where
  "available_account l =
     (case rl_snapshot l of
        None \<Rightarrow> \<lparr>acct_equity = 0, acct_cash = 0, acct_buying_power = 0\<rparr>
      | Some a \<Rightarrow>
          \<lparr>acct_equity = acct_equity a, acct_cash = max (acct_cash a - rl_reserved_total l) 0,
           acct_buying_power = available_buying_power l\<rparr>)"

definition execution_account_for :: "string \<Rightarrow> capital_ledger \<Rightarrow> account" where
  "execution_account_for strategy_id l =
     (case rl_snapshot l of
        None \<Rightarrow> available_account l
      | Some a \<Rightarrow>
          let own_reserved = dict_get (rl_reserved_by_strategy l) strategy_id 0;
              other_reserved = max (rl_reserved_total l - own_reserved) 0
          in \<lparr>acct_equity = acct_equity a, acct_cash = max (acct_cash a - other_reserved) 0,
              acct_buying_power = max (acct_buying_power a - other_reserved) 0\<rparr>)"

definition reserve :: "string \<Rightarrow> pyfloat \<Rightarrow> capital_ledger \<Rightarrow> capital_ledger \<times> pyfloat" where
  "reserve strategy_id amount l =
     (case rl_snapshot l of
        None \<Rightarrow> (l, 0)
      | Some a \<Rightarrow>
          let prior = dict_get (rl_reserved_by_strategy l) strategy_id 0;
              l1 = l\<lparr>rl_reserved_total := max (rl_reserved_total l - prior) 0\<rparr>;
              reserved = min (max amount 0) (available_buying_power l1)
          in (l1\<lparr>rl_reserved_by_strategy := AList.update strategy_id reserved (rl_reserved_by_strategy l),
                 rl_reserved_total := rl_reserved_total l1 + reserved\<rparr>, reserved))"

definition release :: "string \<Rightarrow> capital_ledger \<Rightarrow> capital_ledger \<times> pyfloat" where
  "release strategy_id l =
     (let released = dict_get (rl_reserved_by_strategy l) strategy_id 0
      in (l\<lparr>rl_reserved_by_strategy := AList.delete strategy_id (rl_reserved_by_strategy l),
            rl_reserved_total := max (rl_reserved_total l - released) 0\<rparr>, released))"

definition release_all :: "capital_ledger \<Rightarrow> capital_ledger" where
  "release_all l = l\<lparr>rl_reserved_total := 0, rl_reserved_by_strategy := []\<rparr>"

definition sync_from_broker :: "account \<Rightarrow> string option \<Rightarrow> capital_ledger \<Rightarrow> capital_ledger" where
  "sync_from_broker a strategy_id l =
     (case strategy_id of
        Some s \<Rightarrow> fst (release s (l\<lparr>rl_snapshot := Some a\<rparr>))
      | None \<Rightarrow> l\<lparr>rl_snapshot := Some a, rl_reserved_total := 0, rl_reserved_by_strategy := []\<rparr>)"

section \<open>The ledger invariant\<close>

definition sum_reserved :: "capital_ledger \<Rightarrow> pyfloat" where
  "sum_reserved l = sum_list (map snd (rl_reserved_by_strategy l))"

definition ledger_ok :: "capital_ledger \<Rightarrow> bool" where
  "ledger_ok l =
     (dict_ok (rl_reserved_by_strategy l) \<and> list_all (\<lambda>p. 0 \<le> snd p) (rl_reserved_by_strategy l)
      \<and> rl_reserved_total l = sum_reserved l)"

lemma nonneg_update:
  fixes v :: real
  assumes "list_all (\<lambda>p. 0 \<le> snd p) d" and "0 \<le> v"
  shows "list_all (\<lambda>p. 0 \<le> snd p) (AList.update k v d)"
  using assms by (induction d) auto

lemma nonneg_delete:
  fixes d :: "('k, real) dict"
  assumes "list_all (\<lambda>p. 0 \<le> snd p) d"
  shows "list_all (\<lambda>p. 0 \<le> snd p) (AList.delete k d)"
  using assms by (induction d) auto

lemma dict_get_bounds:
  fixes d :: "('k, real) dict"
  assumes "list_all (\<lambda>p. 0 \<le> snd p) d"
  shows "0 \<le> dict_get d k 0 \<and> dict_get d k 0 \<le> sum_list (map snd d)"
proof -
  have "0 \<le> dict_get d k 0 \<and> dict_get d k 0 \<le> sum_list (map snd d) \<and> 0 \<le> sum_list (map snd d)"
    using assms by (induction d) (auto simp: dict_get_def split: option.splits)
  then show ?thesis by blast
qed

datatype ledger_op =
    Begin_cycle account
  | Reserve string pyfloat
  | Release string
  | Release_all
  | Sync account "string option"

fun ledger_step :: "capital_ledger \<Rightarrow> ledger_op \<Rightarrow> capital_ledger" where
  "ledger_step l (Begin_cycle a) = begin_cycle a l"
| "ledger_step l (Reserve s amount) = fst (reserve s amount l)"
| "ledger_step l (Release s) = fst (release s l)"
| "ledger_step l Release_all = release_all l"
| "ledger_step l (Sync a s) = sync_from_broker a s l"

lemma available_nonneg: "0 \<le> available_buying_power l"
  by (simp add: available_buying_power_def split: option.splits)

lemma reserve_total:
  assumes "ledger_ok l" and "rl_snapshot l = Some a"
  shows "rl_reserved_total (fst (reserve s amount l))
      = rl_reserved_total l - dict_get (rl_reserved_by_strategy l) s 0 + snd (reserve s amount l)"
    and "0 \<le> snd (reserve s amount l)"
    and "snd (reserve s amount l) \<le> max amount 0"
    and "snd (reserve s amount l)
      \<le> max (acct_buying_power a - (rl_reserved_total l - dict_get (rl_reserved_by_strategy l) s 0)) 0"
  using assms dict_get_bounds [of "rl_reserved_by_strategy l" s]
  by (auto simp: reserve_def ledger_ok_def sum_reserved_def Let_def available_buying_power_def)

lemma ledger_ok_reserve: "ledger_ok l \<Longrightarrow> ledger_ok (fst (reserve s amount l))"
proof (cases "rl_snapshot l")
  case None
  then show "ledger_ok l \<Longrightarrow> ?thesis" by (simp add: reserve_def)
next
  case (Some a)
  assume ok: "ledger_ok l"
  have d: "rl_reserved_by_strategy (fst (reserve s amount l))
      = AList.update s (snd (reserve s amount l)) (rl_reserved_by_strategy l)"
    using Some by (simp add: reserve_def Let_def)
  show ?thesis
    using ok reserve_total [OF ok Some, of s amount]
    unfolding ledger_ok_def sum_reserved_def d
    by (simp add: nonneg_update sum_list_update)
qed

lemma ledger_ok_release: "ledger_ok l \<Longrightarrow> ledger_ok (fst (release s l))"
  using dict_get_bounds [of "rl_reserved_by_strategy l" s]
  by (auto simp: ledger_ok_def release_def sum_reserved_def Let_def nonneg_delete sum_list_delete)

lemma ledger_ok_step: "ledger_ok l \<Longrightarrow> ledger_ok (ledger_step l op)"
proof (cases op)
  case (Sync a so)
  assume "ledger_ok l"
  moreover then have "ledger_ok (l\<lparr>rl_snapshot := Some a\<rparr>)"
    by (simp add: ledger_ok_def sum_reserved_def)
  ultimately show ?thesis using Sync
    by (auto simp: sync_from_broker_def ledger_ok_release split: option.splits)
       (simp add: ledger_ok_def sum_reserved_def)
qed (simp_all add: ledger_ok_reserve ledger_ok_release,
     simp_all add: ledger_ok_def sum_reserved_def begin_cycle_def release_all_def)

lemma ledger_ok_new: "ledger_ok new_ledger"
  by (simp add: ledger_ok_def new_ledger_def sum_reserved_def)

interpretation ledger: invariant_machine ledger_step ledger_ok
  by unfold_locales (rule ledger_ok_step)

text \<open>Within a cycle (no new snapshot) the reservations never exceed the buying power.\<close>

fun within_cycle :: "ledger_op \<Rightarrow> bool" where
  "within_cycle (Reserve s amount) = True"
| "within_cycle (Release s) = True"
| "within_cycle Release_all = True"
| "within_cycle _ = False"

definition funded :: "account \<Rightarrow> capital_ledger \<Rightarrow> bool" where
  "funded a l = (ledger_ok l \<and> rl_snapshot l = Some a \<and> rl_reserved_total l \<le> max (acct_buying_power a) 0)"

lemma funded_step: "funded a l \<Longrightarrow> within_cycle op \<Longrightarrow> funded a (ledger_step l op)"
proof (cases op)
  case (Reserve s amount)
  assume f: "funded a l"
  then have ok: "ledger_ok l" and sn: "rl_snapshot l = Some a" by (auto simp: funded_def)
  have "rl_snapshot (fst (reserve s amount l)) = Some a"
    using sn by (simp add: reserve_def Let_def)
  moreover have "0 \<le> dict_get (rl_reserved_by_strategy l) s 0"
      "dict_get (rl_reserved_by_strategy l) s 0 \<le> rl_reserved_total l"
    using ok dict_get_bounds [of "rl_reserved_by_strategy l" s]
    by (simp_all add: ledger_ok_def sum_reserved_def)
  ultimately show ?thesis
    using f reserve_total [OF ok sn, of s amount] ledger_ok_reserve [OF ok, of s amount] Reserve
    by (auto simp: funded_def)
next
  case (Release s)
  assume f: "funded a l"
  with Release dict_get_bounds [of "rl_reserved_by_strategy l" s] show ?thesis
    by (auto simp: funded_def ledger_ok_release) (auto simp: release_def Let_def ledger_ok_def)
next
  case Release_all
  assume "funded a l"
  with Release_all show ?thesis
    using ledger_ok_step [of l Release_all] by (simp add: funded_def release_all_def)
qed simp_all

lemma funded_run: "funded a l \<Longrightarrow> list_all within_cycle ops \<Longrightarrow> funded a (foldl ledger_step l ops)"
  by (induction ops arbitrary: l) (auto intro: funded_step)

section \<open>Capping a plan to the available capital\<close>

record risk_config =
  rc_max_position_pct :: pyfloat

record 'c leg_plan =
  pl_strategy_id :: string
  pl_signal :: "signal option"
  pl_routing_params :: "(string, pyfloat) dict"
  pl_risk_fraction :: pyfloat
  pl_sizing_multiplier :: pyfloat
  pl_asset_context :: "'c option"
  pl_blocked :: bool
  pl_block_reason :: string
  pl_force_liquidation :: bool

text \<open>
  \<open>float(params.get(k1, params.get(k2, default)) or default)\<close>: a zero counts as absent.
\<close>

definition max_pct :: "(string, pyfloat) dict \<Rightarrow> risk_config \<Rightarrow> pyfloat" where
  "max_pct params rc =
     (let v = dict_get params ''max_position_pct''
                (dict_get params ''effective_max_position_pct'' (rc_max_position_pct rc))
      in if v = 0 then rc_max_position_pct rc else v)"

definition estimate_leg_buying_power_commitment ::
  "(account \<Rightarrow> pyfloat \<Rightarrow> pyfloat \<Rightarrow> risk_config \<Rightarrow> pyfloat \<Rightarrow> pyfloat \<Rightarrow> bool \<Rightarrow> pyfloat)
   \<Rightarrow> (string \<Rightarrow> 'c option \<Rightarrow> bool) \<Rightarrow> 'c leg_plan \<Rightarrow> account \<Rightarrow> risk_config \<Rightarrow> pyfloat \<Rightarrow> pyfloat" where
  "estimate_leg_buying_power_commitment position_size fractional_qty_allowed plan a rc atr =
     (case pl_signal plan of
        None \<Rightarrow> 0
      | Some s \<Rightarrow>
          if pl_blocked plan \<or> pl_force_liquidation plan then 0
          else if \<not> is_entry_action (sig_action s) then 0
          else if sig_price s \<le> 0 \<or> atr \<le> 0 then 0
          else
            let shares = position_size a atr (sig_price s) rc (pl_risk_fraction plan)
                  (max_pct (pl_routing_params plan) rc)
                  (fractional_qty_allowed (sig_symbol s) (pl_asset_context plan))
            in max (shares * sig_price s) 0)"

definition signal_is_entry :: "'c leg_plan \<Rightarrow> bool" where
  "signal_is_entry plan =
     (case pl_signal plan of None \<Rightarrow> False
      | Some s \<Rightarrow> is_entry_action (sig_action s) \<and> \<not> pl_force_liquidation plan)"

definition block_plan_for_capital_exhaustion :: "'c leg_plan \<Rightarrow> 'c leg_plan" where
  "block_plan_for_capital_exhaustion plan =
     plan\<lparr>pl_blocked := True, pl_block_reason := ''reserved_capital_exhausted'',
          pl_sizing_multiplier := 0, pl_risk_fraction := 0,
          pl_signal := (if signal_is_entry plan then None else pl_signal plan)\<rparr>"

datatype cap_action = Unmodified | Blocked | Scaled pyfloat

definition cap_plan_for_available_capital ::
  "(account \<Rightarrow> pyfloat \<Rightarrow> pyfloat \<Rightarrow> risk_config \<Rightarrow> pyfloat \<Rightarrow> pyfloat \<Rightarrow> bool \<Rightarrow> pyfloat)
   \<Rightarrow> (string \<Rightarrow> 'c option \<Rightarrow> bool) \<Rightarrow> 'c leg_plan \<Rightarrow> account \<Rightarrow> risk_config \<Rightarrow> pyfloat \<Rightarrow> account option
   \<Rightarrow> 'c leg_plan \<times> pyfloat \<times> cap_action" where
  "cap_plan_for_available_capital position_size fractional_qty_allowed plan available_acct rc atr
     sizing_account =
     (let est = estimate_leg_buying_power_commitment position_size fractional_qty_allowed;
          sizing_source = (case sizing_account of None \<Rightarrow> available_acct | Some a \<Rightarrow> a);
          commitment = est plan sizing_source rc atr;
          available = max (acct_buying_power available_acct) 0;
          eps = 1 / 10 ^ 6
      in if commitment \<le> available + eps then (plan, commitment, Unmodified)
         else if signal_is_entry plan \<and> available \<le> eps
         then (block_plan_for_capital_exhaustion plan, 0, Blocked)
         else
           let scale = (if 0 < commitment then available / commitment else 0)
           in if scale \<le> eps \<and> signal_is_entry plan
              then (block_plan_for_capital_exhaustion plan, 0, Blocked)
              else
                let base_max = max_pct (pl_routing_params plan) rc;
                    combined0 = max scale 0 * max (pl_sizing_multiplier plan) 0;
                    combined_scale = (if combined0 \<le> 0 then max scale 0 else combined0);
                    params = AList.update ''reserved_capital_contention_scale'' scale
                      (AList.update ''max_position_pct'' (base_max * combined_scale)
                        (pl_routing_params plan));
                    adjusted = plan\<lparr>pl_sizing_multiplier := pl_sizing_multiplier plan * scale,
                                    pl_risk_fraction := pl_risk_fraction plan * scale,
                                    pl_routing_params := params\<rparr>
                in (adjusted, min (est adjusted available_acct rc atr) available, Scaled scale))"

lemma estimate_nonneg: "0 \<le> estimate_leg_buying_power_commitment ps fr plan a rc atr"
  by (simp add: estimate_leg_buying_power_commitment_def Let_def split: option.splits)

lemma estimate_positive_entry:
  "0 < estimate_leg_buying_power_commitment ps fr plan a rc atr \<Longrightarrow> signal_is_entry plan"
  by (auto simp: estimate_leg_buying_power_commitment_def signal_is_entry_def
      split: option.splits if_splits)

section \<open>Properties\<close>

definition demo_account :: account where
  "demo_account = \<lparr>acct_equity = 1000, acct_cash = 1000, acct_buying_power = 1000\<rparr>"

text \<open>
  C11: Contending legs never commit more than the broker's buying power: in every cycle,
  whatever happened before and however reservations and releases interleave, the
  reservations are non-negative, their total is the sum over the strategies, and it stays
  within the cycle-open buying power, so each leg's execution account covers what it
  reserved.
\<close>

theorem reservations_within_buying_power:
  assumes "list_all within_cycle ops"
  shows "let l = foldl ledger_step (begin_cycle a (foldl ledger_step new_ledger before)) ops
         in rl_reserved_total l = sum_reserved l
            \<and> sum_reserved l \<le> max (acct_buying_power a) 0
            \<and> 0 \<le> dict_get (rl_reserved_by_strategy l) s 0
            \<and> dict_get (rl_reserved_by_strategy l) s 0 \<le> acct_buying_power (execution_account_for s l)"
proof -
  let ?start = "begin_cycle a (foldl ledger_step new_ledger before)"
  let ?l = "foldl ledger_step ?start ops"
  have "ledger_ok (ledger_step (foldl ledger_step new_ledger before) (Begin_cycle a))"
    by (intro ledger_ok_step ledger.inv_run ledger_ok_new)
  then have "funded a ?start" by (simp add: funded_def begin_cycle_def)
  then have f: "funded a ?l" using assms by (rule funded_run)
  then have ok: "rl_reserved_total ?l = sum_reserved ?l" "sum_reserved ?l \<le> max (acct_buying_power a) 0"
    and sn: "rl_snapshot ?l = Some a"
    and nn: "list_all (\<lambda>p. 0 \<le> snd p) (rl_reserved_by_strategy ?l)"
    by (simp_all add: funded_def ledger_ok_def)
  note b = dict_get_bounds [OF nn, of s, folded sum_reserved_def]
  have "dict_get (rl_reserved_by_strategy ?l) s 0 \<le> acct_buying_power (execution_account_for s ?l)"
    using ok b by (auto simp: execution_account_for_def sn Let_def)
  with ok b show ?thesis by (simp add: Let_def)
qed

theorem reservations_within_buying_power_witness:
  "sum_reserved (foldl ledger_step (begin_cycle demo_account new_ledger)
     [Reserve ''a'' 700, Reserve ''b'' 700, Release ''a'', Reserve ''b'' 900]) \<le> 1000"
  using reservations_within_buying_power [of
    "[Reserve ''a'' 700, Reserve ''b'' 700, Release ''a'', Reserve ''b'' 900]" demo_account "[]"]
  by (simp add: Let_def demo_account_def)

text \<open>
  A capped plan fits: the commitment returned is non-negative and at most the available
  buying power (up to the code's tolerance), the plan is unchanged when it already fitted,
  and otherwise an entry is either blocked with its signal removed or scaled by a factor
  between the tolerance and one. This holds for every sizing function.
\<close>

theorem capped_plan_fits:
  "let r = cap_plan_for_available_capital ps fr plan avail rc atr sizing;
       available = max (acct_buying_power avail) 0
   in 0 \<le> fst (snd r) \<and> fst (snd r) \<le> available + 1 / 10 ^ 6
      \<and> (case snd (snd r) of
           Unmodified \<Rightarrow> fst r = plan
         | Blocked \<Rightarrow> pl_blocked (fst r) \<and> pl_signal (fst r) = None \<and> fst (snd r) = 0
         | Scaled k \<Rightarrow> signal_is_entry plan \<and> 1 / 10 ^ 6 < k \<and> k < 1
             \<and> pl_risk_fraction (fst r) = pl_risk_fraction plan * k \<and> fst (snd r) \<le> available)"
proof -
  let ?c = "estimate_leg_buying_power_commitment ps fr plan
      (case sizing of None \<Rightarrow> avail | Some a \<Rightarrow> a) rc atr"
  let ?a = "max (acct_buying_power avail) 0"
  show ?thesis
  proof (cases "?c \<le> ?a + 1 / 10 ^ 6")
    case True
    then show ?thesis
      by (simp add: cap_plan_for_available_capital_def Let_def estimate_nonneg)
  next
    case False
    then have pos: "0 < ?c" and lt: "?a < ?c" by auto
    from pos have entry: "signal_is_entry plan" by (rule estimate_positive_entry)
    from pos lt have "?a / ?c < 1" by simp
    with False entry pos show ?thesis
      by (auto simp: cap_plan_for_available_capital_def Let_def estimate_nonneg
          block_plan_for_capital_exhaustion_def)
  qed
qed

text \<open>A routed cap of zero is read as absent: the estimate uses the configured maximum.\<close>

lemma zero_cap_means_default:
  "max_pct [(''max_position_pct'', 0)] rc = rc_max_position_pct rc"
  by (simp add: max_pct_def dict_get_def)

end
