(* ===== verification/Sim_Broker.thy ===== *)
theory Sim_Broker
  imports Models
begin

text \<open>
  The simulated broker of the backtests, \<open>src/broker/simulated.py\<close>: immediate fills with
  slippage and a taker fee, cash-proceeds accounting for longs and shorts. The lemmas give
  the accounting identity of every order, the integrality of the positions, and when cash
  can become negative.
\<close>

section \<open>State\<close>

definition SHORT_MARGIN_INITIAL :: pyfloat where
  "SHORT_MARGIN_INITIAL = 1 / 2"

record sim_broker =
  sb_equity :: pyfloat
  sb_cash :: pyfloat
  sb_slippage_pct :: pyfloat
  sb_taker_fee_pct :: pyfloat
  sb_positions :: "(string, position) dict"
  sb_fills :: "order_result list"

definition new_broker :: "pyfloat \<Rightarrow> pyfloat \<Rightarrow> pyfloat \<Rightarrow> sim_broker" where
  "new_broker initial_equity slippage_pct taker_fee_pct =
     \<lparr>sb_equity = initial_equity, sb_cash = initial_equity, sb_slippage_pct = slippage_pct,
      sb_taker_fee_pct = taker_fee_pct, sb_positions = [], sb_fills = []\<rparr>"

definition fill_price :: "side \<Rightarrow> pyfloat \<Rightarrow> sim_broker \<Rightarrow> pyfloat" where
  "fill_price sde raw_price b =
     (let slip = raw_price * (sb_slippage_pct b + sb_taker_fee_pct b)
      in if sde = BUY then raw_price + slip else raw_price - slip)"

definition mk_position :: "string \<Rightarrow> pyfloat \<Rightarrow> string \<Rightarrow> pyfloat \<Rightarrow> position" where
  "mk_position symbol qty sde avg =
     \<lparr>pos_symbol = symbol, pos_qty = qty, pos_side = sde, pos_avg_entry_price = avg,
      pos_unrealized_pl = 0\<rparr>"

definition has_side :: "string \<Rightarrow> string \<Rightarrow> sim_broker \<Rightarrow> bool" where
  "has_side symbol sde b =
     (case map_of (sb_positions b) symbol of None \<Rightarrow> False | Some p \<Rightarrow> pos_side p = sde)"

section \<open>Operations\<close>

text \<open>
  The common end of the two opening operations: add to a position of the same side at the
  weighted average price, or write a new one.
\<close>

definition add_to_position :: "string \<Rightarrow> string \<Rightarrow> int \<Rightarrow> pyfloat \<Rightarrow> sim_broker \<Rightarrow> sim_broker" where
  "add_to_position symbol sde fill_qty price b =
     b\<lparr>sb_positions := AList.update symbol
        (case map_of (sb_positions b) symbol of
           Some pos \<Rightarrow>
             if pos_side pos = sde
             then let total_qty = pos_qty pos + real_of_int fill_qty
                  in mk_position symbol total_qty sde
                       ((pos_avg_entry_price pos * pos_qty pos + price * real_of_int fill_qty) / total_qty)
             else mk_position symbol (real_of_int fill_qty) sde price
         | None \<Rightarrow> mk_position symbol (real_of_int fill_qty) sde price)
        (sb_positions b)\<rparr>"

definition open_long :: "string \<Rightarrow> pyfloat \<Rightarrow> pyfloat \<Rightarrow> sim_broker \<Rightarrow> sim_broker \<times> int" where
  "open_long symbol qty price b =
     (if price \<le> 0 then (b, 0)
      else
        let affordable = py_int (sb_cash b / price);
            fill_qty = min (py_int qty) affordable
        in if fill_qty \<le> 0 then (b, 0)
           else ((add_to_position symbol ''long'' fill_qty price b)
                   \<lparr>sb_cash := sb_cash b - price * real_of_int fill_qty\<rparr>, fill_qty))"

definition open_short :: "string \<Rightarrow> pyfloat \<Rightarrow> pyfloat \<Rightarrow> sim_broker \<Rightarrow> sim_broker \<times> int" where
  "open_short symbol qty price b =
     (if price \<le> 0 then (b, 0)
      else
        let margin_per_share = price * SHORT_MARGIN_INITIAL;
            affordable = (if 0 < margin_per_share then py_int (sb_cash b / margin_per_share) else 0);
            fill_qty = min (py_int qty) affordable
        in if fill_qty \<le> 0 then (b, 0)
           else ((add_to_position symbol ''short'' fill_qty price b)
                   \<lparr>sb_cash := sb_cash b + price * real_of_int fill_qty\<rparr>, fill_qty))"

text \<open>The common end of the two closing operations.\<close>

definition reduce_position :: "string \<Rightarrow> int \<Rightarrow> position \<Rightarrow> sim_broker \<Rightarrow> sim_broker" where
  "reduce_position symbol fill_qty pos b =
     (let remaining = pos_qty pos - real_of_int fill_qty
      in b\<lparr>sb_positions :=
             (if remaining \<le> 0 then AList.delete symbol (sb_positions b)
              else AList.update symbol
                     (mk_position symbol remaining (pos_side pos) (pos_avg_entry_price pos))
                     (sb_positions b))\<rparr>)"

definition close_side :: "string \<Rightarrow> pyfloat \<Rightarrow> string \<Rightarrow> pyfloat \<Rightarrow> pyfloat \<Rightarrow> sim_broker \<Rightarrow> sim_broker \<times> int" where
  "close_side sde cash_sign symbol qty price b =
     (case map_of (sb_positions b) symbol of
        None \<Rightarrow> (b, 0)
      | Some pos \<Rightarrow>
          if pos_side pos \<noteq> sde then (b, 0)
          else
            let fill_qty = min (py_int qty) (py_int (pos_qty pos))
            in if fill_qty \<le> 0 then (b, 0)
               else (reduce_position symbol fill_qty pos
                       (b\<lparr>sb_cash := sb_cash b + cash_sign * (price * real_of_int fill_qty)\<rparr>), fill_qty))"

definition close_long :: "string \<Rightarrow> pyfloat \<Rightarrow> pyfloat \<Rightarrow> sim_broker \<Rightarrow> sim_broker \<times> int" where
  "close_long symbol qty price b = close_side ''long'' 1 symbol qty price b"

definition close_short :: "string \<Rightarrow> pyfloat \<Rightarrow> pyfloat \<Rightarrow> sim_broker \<Rightarrow> sim_broker \<times> int" where
  "close_short symbol qty price b = close_side ''short'' (- 1) symbol qty price b"

definition route_order :: "order \<Rightarrow> pyfloat \<Rightarrow> sim_broker \<Rightarrow> sim_broker \<times> int" where
  "route_order ord price b =
     (case ord_side ord of
        BUY \<Rightarrow> if has_side (ord_symbol ord) ''short'' b
               then close_short (ord_symbol ord) (ord_qty ord) price b
               else open_long (ord_symbol ord) (ord_qty ord) price b
      | SELL \<Rightarrow> if has_side (ord_symbol ord) ''long'' b
                then close_long (ord_symbol ord) (ord_qty ord) price b
                else open_short (ord_symbol ord) (ord_qty ord) price b)"

text \<open>One iteration of the loop of \<open>submit_orders\<close>.\<close>

definition submit_one :: "instant \<Rightarrow> pyfloat \<Rightarrow> sim_broker \<times> order_result list \<Rightarrow> order \<Rightarrow> sim_broker \<times> order_result list" where
  "submit_one now raw st ord =
     (let price = fill_price (ord_side ord) raw (fst st);
          r = route_order ord price (fst st)
      in if snd r \<le> 0 then (fst r, snd st)
         else
           let result = \<lparr>res_symbol = ord_symbol ord, res_side = ord_side ord,
                 res_qty = real_of_int (snd r), res_filled_price = price, res_filled_at = now,
                 res_order_id = None, res_status = ''filled''\<rparr>
           in ((fst r)\<lparr>sb_fills := sb_fills (fst r) @ [result]\<rparr>, snd st @ [result]))"

definition signed_qty :: "position \<Rightarrow> pyfloat" where
  "signed_qty p = (if pos_side p = ''long'' then pos_qty p
                   else if pos_side p = ''short'' then - pos_qty p else 0)"

definition mark_equity :: "pyfloat \<Rightarrow> sim_broker \<Rightarrow> sim_broker" where
  "mark_equity mark b =
     b\<lparr>sb_equity := sb_cash b + sum_list (map (\<lambda>(s, p). mark * signed_qty p) (sb_positions b))\<rparr>"

definition submit_orders_sim :: "instant \<Rightarrow> order list \<Rightarrow> pyfloat \<Rightarrow> sim_broker \<Rightarrow> sim_broker \<times> order_result list" where
  "submit_orders_sim now orders raw b =
     (if raw \<le> 0 then (b, [])
      else
        let r = foldl (submit_one now raw) (b, []) orders
        in (mark_equity raw (fst r), snd r))"

definition get_account :: "sim_broker \<Rightarrow> account" where
  "get_account b =
     \<lparr>acct_equity = sb_equity b, acct_cash = sb_cash b, acct_buying_power = max (sb_cash b) 0\<rparr>"

definition close_one :: "pyfloat \<Rightarrow> sim_broker \<Rightarrow> string \<times> position \<Rightarrow> sim_broker" where
  "close_one mark b sp =
     (case sp of (symbol, pos) \<Rightarrow>
        if pos_side pos = ''long'' then fst (close_long symbol (pos_qty pos) (fill_price SELL mark b) b)
        else if pos_side pos = ''short'' then fst (close_short symbol (pos_qty pos) (fill_price BUY mark b) b)
        else b)"

definition close_all_positions :: "pyfloat \<Rightarrow> sim_broker \<Rightarrow> sim_broker" where
  "close_all_positions mark b =
     (if mark \<le> 0 then b\<lparr>sb_positions := [], sb_equity := sb_cash b\<rparr>
      else mark_equity mark (foldl (close_one mark) b (sb_positions b)))"

section \<open>The accounting identity\<close>

declare map_of_eq_Some_iff [simp del]

definition net_qty :: "(string, position) dict \<Rightarrow> pyfloat" where
  "net_qty d = sum_list (map (\<lambda>(s, p). signed_qty p) d)"

definition signed_at :: "string \<Rightarrow> (string, position) dict \<Rightarrow> pyfloat" where
  "signed_at symbol d = (case map_of d symbol of None \<Rightarrow> 0 | Some p \<Rightarrow> signed_qty p)"

definition worth :: "pyfloat \<Rightarrow> sim_broker \<Rightarrow> pyfloat" where
  "worth mark b = sb_cash b + mark * net_qty (sb_positions b)"

lemma net_qty_update:
  "dict_ok d \<Longrightarrow> net_qty (AList.update k v d) = net_qty d - signed_at k d + signed_qty v"
  by (induction d) (auto simp: net_qty_def signed_at_def)

lemma net_qty_absent: "k \<notin> fst ` set d \<Longrightarrow> signed_at k d = 0 \<and> AList.delete k d = d"
  by (simp add: signed_at_def delete_id map_of_eq_None_iff split: option.splits)
     (metis map_of_eq_None_iff option.distinct(1))

lemma net_qty_delete: "dict_ok d \<Longrightarrow> net_qty (AList.delete k d) = net_qty d - signed_at k d"
proof (induction d)
  case (Cons sp d)
  obtain s p where sp: "sp = (s, p)" by (cases sp)
  show ?case
  proof (cases "s = k")
    case True
    with Cons.prems sp have "k \<notin> fst ` set d" by simp
    with True sp net_qty_absent [of k d] show ?thesis by (simp add: net_qty_def signed_at_def)
  next
    case False
    with Cons sp show ?thesis by (simp add: net_qty_def signed_at_def)
  qed
qed (simp add: net_qty_def signed_at_def)

lemma mark_equity_worth: "sb_equity (mark_equity mark b) = worth mark b"
proof -
  have "sum_list (map (\<lambda>(s, p). mark * signed_qty p) d) = mark * net_qty d"
    for d :: "(string, position) dict"
    by (induction d) (auto simp: net_qty_def algebra_simps)
  then show ?thesis by (simp add: mark_equity_def worth_def)
qed

text \<open>What every operation keeps: unique keys, the fee model, and whole positive positions.\<close>

definition pos_ok :: "position \<Rightarrow> bool" where
  "pos_ok p = ((pos_side p = ''long'' \<or> pos_side p = ''short'')
     \<and> 0 < pos_qty p \<and> pos_qty p = real_of_int (py_int (pos_qty p)))"

definition book_ok :: "sim_broker \<Rightarrow> bool" where
  "book_ok b = (dict_ok (sb_positions b) \<and> list_all (\<lambda>sp. pos_ok (snd sp)) (sb_positions b))"

lemma book_ok_lookup: "book_ok b \<Longrightarrow> map_of (sb_positions b) s = Some p \<Longrightarrow> pos_ok p"
  by (fastforce simp: book_ok_def list_all_iff dest: map_of_SomeD)

lemma list_all_update: "list_all P d \<Longrightarrow> P (k, v) \<Longrightarrow> list_all P (AList.update k v d)"
  by (induction d) auto

lemma list_all_delete: "list_all P d \<Longrightarrow> list_all P (AList.delete k d)"
  by (induction d) auto

lemma pos_ok_mk: "0 < n \<Longrightarrow> sde = ''long'' \<or> sde = ''short'' \<Longrightarrow> pos_ok (mk_position s (real_of_int n) sde a)"
  by (simp add: pos_ok_def mk_position_def)

lemma pos_ok_add:
  assumes "pos_ok p" and "0 < n" and "pos_side p = sde"
  shows "pos_ok (mk_position s (pos_qty p + real_of_int n) sde a)"
proof -
  obtain m where "pos_qty p = real_of_int m" using assms(1) by (auto simp: pos_ok_def)
  with assms have "pos_qty p + real_of_int n = real_of_int (m + n)" "0 < m + n"
    by (auto simp: pos_ok_def)
  with assms show ?thesis using pos_ok_mk [of "m + n" sde s a] by (simp add: pos_ok_def)
qed

lemma add_to_position_effect:
  assumes "book_ok b" and "0 < n" and "sde = ''long'' \<or> sde = ''short''"
    and "\<not> has_side symbol (if sde = ''long'' then ''short'' else ''long'') b"
  shows "book_ok (add_to_position symbol sde n price b)"
    and "net_qty (sb_positions (add_to_position symbol sde n price b))
      = net_qty (sb_positions b) + (if sde = ''long'' then real_of_int n else - real_of_int n)"
proof -
  show "book_ok (add_to_position symbol sde n price b)"
    using assms book_ok_lookup [OF assms(1), of symbol]
    by (auto simp: book_ok_def add_to_position_def Let_def pos_ok_mk pos_ok_add
        intro!: list_all_update split: option.splits)
  have "dict_ok (sb_positions b)" using assms(1) by (simp add: book_ok_def)
  then show "net_qty (sb_positions (add_to_position symbol sde n price b))
      = net_qty (sb_positions b) + (if sde = ''long'' then real_of_int n else - real_of_int n)"
    using assms(3,4) book_ok_lookup [OF assms(1), of symbol]
    by (auto simp: add_to_position_def Let_def net_qty_update signed_at_def signed_qty_def
        mk_position_def has_side_def pos_ok_def split: option.splits)
qed

lemma close_side_effect:
  assumes "book_ok b" and "sde = ''long'' \<or> sde = ''short''"
  shows "book_ok (fst (close_side sde c symbol qty price b))"
    and "net_qty (sb_positions (fst (close_side sde c symbol qty price b)))
      = net_qty (sb_positions b)
        - (if sde = ''long'' then 1 else - 1) * real_of_int (snd (close_side sde c symbol qty price b))"
    and "sb_cash (fst (close_side sde c symbol qty price b))
      = sb_cash b + c * (price * real_of_int (snd (close_side sde c symbol qty price b)))"
    and "0 \<le> snd (close_side sde c symbol qty price b)"
proof -
  have d: "dict_ok (sb_positions b)" using assms(1) by (simp add: book_ok_def)
  { fix p assume p: "map_of (sb_positions b) symbol = Some p" "pos_side p = sde"
      and n: "0 < min (py_int qty) (py_int (pos_qty p))"
    let ?n = "min (py_int qty) (py_int (pos_qty p))"
    obtain m where m: "pos_qty p = real_of_int m" "0 < m"
      using book_ok_lookup [OF assms(1) p(1)] by (auto simp: pos_ok_def)
    have le: "real_of_int ?n \<le> pos_qty p" using m by simp
    have "pos_qty p - real_of_int ?n = real_of_int (m - ?n)" using m by simp
    then have ok: "0 < pos_qty p - real_of_int ?n
        \<Longrightarrow> pos_ok (mk_position symbol (pos_qty p - real_of_int ?n) sde a)" for a
      using pos_ok_mk [of "m - ?n" sde symbol a] assms(2) by simp
    have "book_ok (reduce_position symbol ?n p (b\<lparr>sb_cash := x\<rparr>))" for x
      using assms(1) ok p(2)
      by (auto simp: book_ok_def reduce_position_def Let_def intro!: list_all_update list_all_delete)
    moreover have "net_qty (sb_positions (reduce_position symbol ?n p (b\<lparr>sb_cash := x\<rparr>)))
        = net_qty (sb_positions b) - (if sde = ''long'' then 1 else - 1) * real_of_int ?n" for x
      using assms(2) p le d
      by (auto simp: reduce_position_def Let_def net_qty_update net_qty_delete signed_at_def
          signed_qty_def mk_position_def)
    ultimately have "book_ok (fst (close_side sde c symbol qty price b))
      \<and> net_qty (sb_positions (fst (close_side sde c symbol qty price b)))
        = net_qty (sb_positions b) - (if sde = ''long'' then 1 else - 1) * real_of_int ?n"
      using p n by (simp add: close_side_def Let_def not_le [symmetric] del: min_less_iff_conj) }
  note hit = this
  show "book_ok (fst (close_side sde c symbol qty price b))"
    and "net_qty (sb_positions (fst (close_side sde c symbol qty price b)))
      = net_qty (sb_positions b)
        - (if sde = ''long'' then 1 else - 1) * real_of_int (snd (close_side sde c symbol qty price b))"
    and "sb_cash (fst (close_side sde c symbol qty price b))
      = sb_cash b + c * (price * real_of_int (snd (close_side sde c symbol qty price b)))"
    and "0 \<le> snd (close_side sde c symbol qty price b)"
    using hit assms(1)
    by (auto simp: close_side_def Let_def reduce_position_def not_le split: option.splits if_splits)
qed

lemma fees_frame [simp]:
  "sb_slippage_pct (add_to_position s d n p b) = sb_slippage_pct b"
  "sb_taker_fee_pct (add_to_position s d n p b) = sb_taker_fee_pct b"
  "sb_cash (add_to_position s d n p b) = sb_cash b"
  "sb_slippage_pct (reduce_position s n pos b) = sb_slippage_pct b"
  "sb_taker_fee_pct (reduce_position s n pos b) = sb_taker_fee_pct b"
  "sb_cash (reduce_position s n pos b) = sb_cash b"
  by (simp_all add: add_to_position_def reduce_position_def Let_def)

lemma route_order_frame [simp]:
  "sb_slippage_pct (fst (route_order ord p b)) = sb_slippage_pct b"
  "sb_taker_fee_pct (fst (route_order ord p b)) = sb_taker_fee_pct b"
  by (cases "ord_side ord";
      auto simp: route_order_def open_long_def open_short_def close_long_def close_short_def
        close_side_def Let_def split: option.splits)+

lemma book_ok_cash [simp]: "book_ok (b\<lparr>sb_cash := c\<rparr>) = book_ok b"
  by (simp add: book_ok_def)

lemma worth_shift:
  assumes "net_qty (sb_positions b') = net_qty (sb_positions b) + q" and "sb_cash b' = sb_cash b + c"
  shows "worth mark b' = worth mark b + c + mark * q"
  using assms by (simp add: worth_def algebra_simps)

lemma open_long_effect:
  assumes "book_ok b" and "\<not> has_side symbol ''short'' b"
  shows "book_ok (fst (open_long symbol qty price b)) \<and> 0 \<le> snd (open_long symbol qty price b)
    \<and> worth mark (fst (open_long symbol qty price b))
      = worth mark b - (price - mark) * real_of_int (snd (open_long symbol qty price b))"
  using assms add_to_position_effect [OF assms(1), of _ "''long''" symbol price]
  by (auto simp: open_long_def Let_def worth_def algebra_simps not_le)

lemma open_short_effect:
  assumes "book_ok b" and "\<not> has_side symbol ''long'' b"
  shows "book_ok (fst (open_short symbol qty price b)) \<and> 0 \<le> snd (open_short symbol qty price b)
    \<and> worth mark (fst (open_short symbol qty price b))
      = worth mark b - (mark - price) * real_of_int (snd (open_short symbol qty price b))"
proof -
  let ?n = "min (py_int qty) (py_int (sb_cash b / (price * SHORT_MARGIN_INITIAL)))"
  have "open_short symbol qty price b = (b, 0) \<or> (0 < ?n \<and> open_short symbol qty price b
      = ((add_to_position symbol ''short'' ?n price b)\<lparr>sb_cash := sb_cash b + price * real_of_int ?n\<rparr>, ?n))"
    by (auto simp: open_short_def Let_def not_le SHORT_MARGIN_INITIAL_def)
  then consider "open_short symbol qty price b = (b, 0)"
    | n where "0 < n" "open_short symbol qty price b
        = ((add_to_position symbol ''short'' n price b)\<lparr>sb_cash := sb_cash b + price * real_of_int n\<rparr>, n)"
    by blast
  then show ?thesis
  proof cases
    case (2 n)
    note e = add_to_position_effect [OF assms(1) 2(1), of "''short''" symbol price]
    have "worth mark (fst (open_short symbol qty price b))
        = worth mark b + price * real_of_int n + mark * (- real_of_int n)"
      using assms e(2) by (intro worth_shift) (simp_all add: 2(2))
    with assms e(1) 2 show ?thesis by (simp add: algebra_simps)
  qed (simp add: assms)
qed

lemma route_order_effect:
  assumes "book_ok b"
  shows "book_ok (fst (route_order ord price b)) \<and> 0 \<le> snd (route_order ord price b)
    \<and> worth mark (fst (route_order ord price b))
      = worth mark b - (if ord_side ord = BUY then price - mark else mark - price)
          * real_of_int (snd (route_order ord price b))"
proof (cases "ord_side ord")
  case BUY
  then show ?thesis
    using open_long_effect [OF assms] close_side_effect [OF assms, of "''short''" "- 1"]
    by (simp add: route_order_def close_short_def worth_def algebra_simps)
next
  case SELL
  let ?r = "close_side ''long'' 1 (ord_symbol ord) (ord_qty ord) price b"
  note e = close_side_effect [OF assms, of "''long''" 1 "ord_symbol ord" "ord_qty ord" price]
  have "worth mark (fst ?r)
      = worth mark b + price * real_of_int (snd ?r) + mark * (- real_of_int (snd ?r))"
    using e(2,3) by (intro worth_shift) simp_all
  with SELL e(1,4) open_short_effect [OF assms, of "ord_symbol ord" "ord_qty ord" price mark]
  show ?thesis by (simp add: route_order_def close_long_def algebra_simps)
qed

definition cost_rate :: "sim_broker \<Rightarrow> pyfloat" where
  "cost_rate b = sb_slippage_pct b + sb_taker_fee_pct b"

definition traded_qty :: "order_result list \<Rightarrow> pyfloat" where
  "traded_qty rs = sum_list (map res_qty rs)"

lemma traded_qty_simps [simp]:
  "traded_qty [] = 0" "traded_qty (rs @ [r]) = traded_qty rs + res_qty r"
  by (simp_all add: traded_qty_def)

lemma submit_one_effect:
  assumes "book_ok (fst st)"
  shows "book_ok (fst (submit_one now raw st ord))
    \<and> cost_rate (fst (submit_one now raw st ord)) = cost_rate (fst st)
    \<and> worth raw (fst (submit_one now raw st ord)) + raw * cost_rate (fst st) * traded_qty (snd (submit_one now raw st ord))
      = worth raw (fst st) + raw * cost_rate (fst st) * traded_qty (snd st)"
proof -
  let ?p = "fill_price (ord_side ord) raw (fst st)"
  note e = route_order_effect [OF assms, of ord ?p raw]
  have slip: "(if ord_side ord = BUY then ?p - raw else raw - ?p) = raw * cost_rate (fst st)"
    by (simp add: fill_price_def cost_rate_def Let_def)
  have w: "worth raw (fst (route_order ord ?p (fst st)))
      = worth raw (fst st) - raw * cost_rate (fst st) * real_of_int (snd (route_order ord ?p (fst st)))"
    using e unfolding slip by simp
  show ?thesis
  proof (cases "snd (route_order ord ?p (fst st)) \<le> 0")
    case True
    with e w show ?thesis by (simp add: submit_one_def Let_def cost_rate_def)
  next
    case False
    with e w show ?thesis
      by (simp add: submit_one_def Let_def cost_rate_def worth_def book_ok_def algebra_simps)
  qed
qed

lemma submit_fold_effect:
  assumes "book_ok (fst st)"
  shows "book_ok (fst (foldl (submit_one now raw) st ords))
    \<and> cost_rate (fst (foldl (submit_one now raw) st ords)) = cost_rate (fst st)
    \<and> worth raw (fst (foldl (submit_one now raw) st ords))
        + raw * cost_rate (fst st) * traded_qty (snd (foldl (submit_one now raw) st ords))
      = worth raw (fst st) + raw * cost_rate (fst st) * traded_qty (snd st)"
  using assms
proof (induction ords arbitrary: st)
  case (Cons ord ords)
  note e = submit_one_effect [OF Cons.prems, of now raw ord]
  with Cons.IH [of "submit_one now raw st ord"] show ?case by simp
qed simp

section \<open>Cash\<close>

lemma floor_affordable:
  assumes "0 < price" and "0 \<le> cash" and "n \<le> py_int (cash / price)"
  shows "price * real_of_int n \<le> cash"
proof -
  have "real_of_int n \<le> real_of_int (py_int (cash / price))" using assms(3) by simp
  also have "\<dots> \<le> cash / price" using assms by (intro py_int_le) simp
  finally show ?thesis using assms(1) by (simp add: field_simps)
qed

lemma route_order_cash:
  assumes "book_ok b" and "0 \<le> sb_cash b" and "0 \<le> price"
    and "\<not> (ord_side ord = BUY \<and> has_side (ord_symbol ord) ''short'' b)"
  shows "0 \<le> sb_cash (fst (route_order ord price b))"
proof (cases "ord_side ord")
  case BUY
  with assms show ?thesis
    using floor_affordable [of price "sb_cash b" "min (py_int (ord_qty ord)) (py_int (sb_cash b / price))"]
    by (auto simp: route_order_def open_long_def Let_def not_le)
next
  case SELL
  with assms show ?thesis
    using close_side_effect(3,4) [OF assms(1), of "''long''" 1 "ord_symbol ord" "ord_qty ord" price]
    by (auto simp: route_order_def close_long_def open_short_def Let_def not_le)
qed

section \<open>Flattening\<close>

lemma close_side_all:
  assumes "pos_ok p" and "map_of (sb_positions b) s = Some p"
  shows "sb_positions (fst (close_side (pos_side p) c s (pos_qty p) price b)) = AList.delete s (sb_positions b)"
proof -
  obtain m where "pos_qty p = real_of_int m" "0 < m" using assms(1) by (auto simp: pos_ok_def)
  with assms(2) show ?thesis by (simp add: close_side_def reduce_position_def Let_def)
qed

lemma close_one_head:
  assumes "book_ok b" and "sb_positions b = (s, p) # d"
  shows "sb_positions (close_one mark b (s, p)) = d \<and> book_ok (close_one mark b (s, p))"
proof -
  have ok: "pos_ok p" and lookup: "map_of (sb_positions b) s = Some p"
    and fresh: "s \<notin> fst ` set d"
    using assms by (auto simp: book_ok_def)
  from ok consider "pos_side p = ''long''" | "pos_side p = ''short''" by (auto simp: pos_ok_def)
  then have e: "sb_positions (close_one mark b (s, p)) = AList.delete s (sb_positions b)"
    using close_side_all [OF ok lookup]
    by cases (simp_all add: close_one_def close_long_def close_short_def)
  with fresh assms show ?thesis by (auto simp: delete_id book_ok_def)
qed

lemma close_all_empties:
  "book_ok b \<Longrightarrow> sb_positions (foldl (close_one mark) b (sb_positions b)) = []"
proof (induction "sb_positions b" arbitrary: b)
  case (Cons sp d)
  obtain s p where sp: "sp = (s, p)" by (cases sp)
  have h: "sb_positions (close_one mark b (s, p)) = d" "book_ok (close_one mark b (s, p))"
    using close_one_head [OF Cons.prems, of s p d mark] Cons.hyps(2) sp by simp_all
  from Cons.hyps(1) [OF h(1) [symmetric] h(2)] h(1) Cons.hyps(2) sp show ?case
    by (simp add: Cons.hyps(2) [symmetric])
qed simp

datatype sim_op = Trade instant "order list" pyfloat | Close_all pyfloat

fun sim_step :: "sim_broker \<Rightarrow> sim_op \<Rightarrow> sim_broker" where
  "sim_step b (Trade now ords raw) = fst (submit_orders_sim now ords raw b)"
| "sim_step b (Close_all mark) = close_all_positions mark b"

lemma book_ok_mark [simp]: "book_ok (mark_equity mark b) = book_ok b"
  by (simp add: mark_equity_def book_ok_def)

lemma book_ok_step: "book_ok b \<Longrightarrow> book_ok (sim_step b op)"
proof (cases op)
  case (Trade now ords raw)
  assume "book_ok b"
  with Trade submit_fold_effect [of "(b, [])" now raw ords] show ?thesis
    by (simp add: submit_orders_sim_def Let_def)
next
  case (Close_all mark)
  assume "book_ok b"
  with Close_all close_all_empties [of b mark] show ?thesis
    by (simp add: close_all_positions_def book_ok_def mark_equity_def)
qed

interpretation sim: invariant_machine sim_step book_ok
  by unfold_locales (rule book_ok_step)

lemma book_ok_new: "book_ok (new_broker e s t)"
  by (simp add: new_broker_def book_ok_def)

section \<open>Properties\<close>

text \<open>
  C12: Trading creates no money: after any history of trades and flattens, the equity the
  broker reports for a batch of orders is the worth of the book at the fill price before
  the batch, less slippage and fee on the quantity filled; with longs, shorts, covers and
  clipped orders alike.
\<close>

theorem trading_conserves_worth:
  assumes "b = foldl sim_step (new_broker e s t) ops" and "0 < raw"
  shows "let r = submit_orders_sim now ords raw b
         in sb_equity (fst r) = worth raw b - raw * cost_rate b * traded_qty (snd r)"
proof -
  have "book_ok b" unfolding assms(1) by (rule sim.inv_run) (rule book_ok_new)
  with submit_fold_effect [of "(b, [])" now raw ords] assms(2) show ?thesis
    by (simp add: submit_orders_sim_def Let_def mark_equity_worth)
qed

definition demo_sim_order :: "side \<Rightarrow> pyfloat \<Rightarrow> order" where
  "demo_sim_order sde qty =
     \<lparr>ord_symbol = ''SPY'', ord_side = sde, ord_qty = qty, ord_order_type = ''market'',
      ord_stop_price = None, ord_strategy_id = ''leg'', ord_client_order_id = None\<rparr>"

theorem trading_conserves_worth_witness:
  "sb_equity (fst (submit_orders_sim 0 [demo_sim_order BUY 5] 100 (new_broker 1000 0 0))) = 1000"
  using trading_conserves_worth [of "new_broker 1000 0 0" 1000 0 0 "[]" 100 0 "[demo_sim_order BUY 5]"]
  by (simp add: Let_def) (simp add: new_broker_def worth_def cost_rate_def net_qty_def)

text \<open>
  No order but the cover of a short can overdraw: with cash not negative, an order that
  does not buy back a short leaves cash not negative, and the order is clipped instead.
\<close>

theorem only_covers_overdraw:
  assumes "b = foldl sim_step (new_broker e s t) ops" and "0 \<le> sb_cash b" and "0 \<le> price"
    and "\<not> (ord_side ord = BUY \<and> has_side (ord_symbol ord) ''short'' b)"
  shows "0 \<le> sb_cash (fst (route_order ord price b))"
proof -
  have "book_ok b" unfolding assms(1) by (rule sim.inv_run) (rule book_ok_new)
  then show ?thesis using assms(2-4) by (rule route_order_cash)
qed

theorem only_covers_overdraw_witness:
  "0 \<le> sb_cash (fst (route_order (demo_sim_order BUY 50) 100 (new_broker 1000 0 0)))"
  using only_covers_overdraw [of "new_broker 1000 0 0" 1000 0 0 "[]" 100 "demo_sim_order BUY 50"]
  by (simp add: new_broker_def has_side_def)

text \<open>
  Flattening leaves nothing open: after any history, closing all positions at any mark
  price empties the book, and the equity is then the cash.
\<close>

theorem close_all_flattens:
  "let b = close_all_positions mark (foldl sim_step (new_broker e s t) ops)
   in sb_positions b = [] \<and> sb_equity b = sb_cash b"
proof -
  let ?b = "foldl sim_step (new_broker e s t) ops"
  have "book_ok ?b" by (rule sim.inv_run) (rule book_ok_new)
  from close_all_empties [OF this, of mark] show ?thesis
    by (simp add: close_all_positions_def mark_equity_def Let_def)
qed

text \<open>
  The proceeds of a short sale count as margin for the next: three sales on an account of
  1000 leave a short worth 26000.
\<close>

lemma short_proceeds_are_margin:
  "let b = fst (submit_orders_sim 0 (replicate 3 (demo_sim_order SELL 1000000)) 10 (new_broker 1000 0 0))
   in 10 * net_qty (sb_positions b) = - 26000 \<and> sb_equity b = 1000"
  by (simp add: Let_def) (simp add: numeral_3_eq_3 submit_orders_sim_def submit_one_def route_order_def
      open_short_def has_side_def demo_sim_order_def new_broker_def fill_price_def
      add_to_position_def mk_position_def py_int_def SHORT_MARGIN_INITIAL_def Let_def
      net_qty_def signed_qty_def mark_equity_def)

end
