(* ===== verification/Lifecycle.thy ===== *)
theory Lifecycle
  imports Prelude
begin

text \<open>
  The leg lifecycle (\<open>src/lifecycle/state_machine.py\<close>) and the demotion monitors that
  drive it (\<open>src/lifecycle/demotion_monitors.py\<close>). A transition that raises
  \<open>IllegalTransition\<close> is an \<open>Inl\<close>. The monitors are folds over the telemetry; the lemmas
  relate each to the condition it watches for (a segment of drift, a drawdown between two
  instants, a number of consecutive breaches). The binomial quantile of SciPy is an argument.
\<close>

section \<open>States and transitions\<close>

datatype lifecycle_state = CANDIDATE | VALIDATED | PAPER | ACTIVE | WATCH | SAFE_MODE | RETIRED

fun LEGAL_TRANSITIONS :: "lifecycle_state \<Rightarrow> lifecycle_state set" where
  "LEGAL_TRANSITIONS CANDIDATE = {VALIDATED, SAFE_MODE, RETIRED}"
| "LEGAL_TRANSITIONS VALIDATED = {PAPER, SAFE_MODE, RETIRED}"
| "LEGAL_TRANSITIONS PAPER = {ACTIVE, SAFE_MODE, RETIRED}"
| "LEGAL_TRANSITIONS ACTIVE = {WATCH, SAFE_MODE, RETIRED}"
| "LEGAL_TRANSITIONS WATCH = {ACTIVE, SAFE_MODE, RETIRED}"
| "LEGAL_TRANSITIONS SAFE_MODE = {RETIRED}"
| "LEGAL_TRANSITIONS RETIRED = {}"

definition PROMOTION_TARGETS :: "lifecycle_state set" where
  "PROMOTION_TARGETS = {VALIDATED, PAPER, ACTIVE}"

definition sizing_factor :: "lifecycle_state \<Rightarrow> pyfloat" where
  "sizing_factor s = (if s = WATCH then 1 / 2 else 1)"

record transition_record =
  tr_leg_id :: string
  tr_from_state :: lifecycle_state
  tr_to_state :: lifecycle_state
  tr_reason :: string
  tr_actor :: string

record lifecycle_machine =
  lm_leg_id :: string
  lm_state :: lifecycle_state
  lm_safe_mode_episodes :: nat
  lm_reports :: "transition_record list"

text \<open>A machine is built in any state; the constructor's default is \<open>CANDIDATE\<close>.\<close>

definition new_machine :: "string \<Rightarrow> lifecycle_state \<Rightarrow> lifecycle_machine" where
  "new_machine leg_id state =
     \<lparr>lm_leg_id = leg_id, lm_state = state, lm_safe_mode_episodes = 0, lm_reports = []\<rparr>"

definition can_transition :: "lifecycle_state \<Rightarrow> string \<Rightarrow> lifecycle_machine \<Rightarrow> bool" where
  "can_transition to_state actor m =
     (if to_state \<notin> LEGAL_TRANSITIONS (lm_state m) then False
      else if actor = ''operator'' \<and> to_state \<in> PROMOTION_TARGETS then False
      else True)"

datatype illegal_transition = Already_in lifecycle_state | Illegal lifecycle_state lifecycle_state string

definition lc_transition ::
  "lifecycle_state \<Rightarrow> string \<Rightarrow> string \<Rightarrow> lifecycle_machine
   \<Rightarrow> illegal_transition + lifecycle_machine \<times> transition_record" where
  "lc_transition to_state reason actor m =
     (if to_state = lm_state m then Inl (Already_in to_state)
      else if \<not> can_transition to_state actor m then Inl (Illegal (lm_state m) to_state actor)
      else
        let rec = \<lparr>tr_leg_id = lm_leg_id m, tr_from_state = lm_state m, tr_to_state = to_state,
                   tr_reason = reason, tr_actor = actor\<rparr>;
            m1 = (if to_state = SAFE_MODE
                  then m\<lparr>lm_safe_mode_episodes := lm_safe_mode_episodes m + 1\<rparr> else m)
        in Inr (m1\<lparr>lm_state := to_state, lm_reports := lm_reports m1 @ [rec]\<rparr>, rec))"

text \<open>Attempts in sequence; a refused attempt leaves the machine as it is.\<close>

type_synonym attempt = "lifecycle_state \<times> string \<times> string"

definition attempt_step :: "lifecycle_machine \<Rightarrow> attempt \<Rightarrow> lifecycle_machine" where
  "attempt_step m a =
     (case a of (to_state, reason, actor) \<Rightarrow>
        (case lc_transition to_state reason actor m of Inl e \<Rightarrow> m | Inr r \<Rightarrow> fst r))"

definition visited :: "lifecycle_machine \<Rightarrow> lifecycle_state list" where
  "visited m = map tr_to_state (lm_reports m)"

lemma attempt_step_cases:
  "attempt_step m a = m \<or>
     (fst a \<in> LEGAL_TRANSITIONS (lm_state m)
      \<and> (snd (snd a) = ''operator'' \<longrightarrow> fst a \<notin> PROMOTION_TARGETS)
      \<and> lm_state (attempt_step m a) = fst a
      \<and> visited (attempt_step m a) = visited m @ [fst a]
      \<and> lm_safe_mode_episodes (attempt_step m a)
        = lm_safe_mode_episodes m + (if fst a = SAFE_MODE then 1 else 0))"
  by (cases a) (auto simp: attempt_step_def lc_transition_def can_transition_def visited_def Let_def)

text \<open>The promotions between a machine's first state and \<open>ACTIVE\<close>.\<close>

fun missing_rungs :: "lifecycle_state \<Rightarrow> lifecycle_state list" where
  "missing_rungs CANDIDATE = [VALIDATED, PAPER, ACTIVE]"
| "missing_rungs VALIDATED = [PAPER, ACTIVE]"
| "missing_rungs PAPER = [ACTIVE]"
| "missing_rungs _ = []"

text \<open>
  What the durable reports say of the state of a machine built in \<open>s0\<close>: the rest of the ladder
  was climbed rung by rung, and no rung by the operator.
\<close>

definition ladder_ok :: "lifecycle_state \<Rightarrow> lifecycle_machine \<Rightarrow> bool" where
  "ladder_ok s0 m =
     (lm_safe_mode_episodes m \<le> (if lm_state m \<in> {SAFE_MODE, RETIRED} then 1 else 0)
      \<and> (case lm_state m of
           CANDIDATE \<Rightarrow> s0 = CANDIDATE \<and> visited m = []
         | VALIDATED \<Rightarrow> s0 \<in> {CANDIDATE, VALIDATED} \<and> visited m @ [PAPER, ACTIVE] = missing_rungs s0
         | PAPER \<Rightarrow> s0 \<in> {CANDIDATE, VALIDATED, PAPER} \<and> visited m @ [ACTIVE] = missing_rungs s0
         | ACTIVE \<Rightarrow> s0 \<notin> {SAFE_MODE, RETIRED} \<and> (\<exists>rest. visited m = missing_rungs s0 @ rest)
         | WATCH \<Rightarrow> s0 \<notin> {SAFE_MODE, RETIRED} \<and> (\<exists>rest. visited m = missing_rungs s0 @ rest)
         | _ \<Rightarrow> True))"

definition gate_promotions :: "lifecycle_machine \<Rightarrow> bool" where
  "gate_promotions m = list_all (\<lambda>r. tr_actor r = ''operator'' \<longrightarrow> tr_to_state r \<notin> PROMOTION_TARGETS) (lm_reports m)"

lemma ladder_ok_step: "ladder_ok s0 m \<Longrightarrow> ladder_ok s0 (attempt_step m a)"
  using attempt_step_cases [of m a]
  by (cases "lm_state m"; cases s0) (auto simp: ladder_ok_def)

lemma gate_promotions_step: "gate_promotions m \<Longrightarrow> gate_promotions (attempt_step m a)"
  by (cases a) (auto simp: gate_promotions_def attempt_step_def lc_transition_def can_transition_def Let_def)

interpretation lifecycle: invariant_machine attempt_step "\<lambda>m. ladder_ok s0 m \<and> gate_promotions m" for s0
  by unfold_locales (simp add: ladder_ok_step gate_promotions_step)

lemma ladder_ok_new: "ladder_ok s0 (new_machine leg s0) \<and> gate_promotions (new_machine leg s0)"
  by (cases s0) (simp_all add: ladder_ok_def gate_promotions_def new_machine_def visited_def)

definition demoted :: "lifecycle_state \<Rightarrow> bool" where
  "demoted s = (s \<in> {SAFE_MODE, RETIRED})"

lemma demoted_step: "demoted (lm_state m) \<Longrightarrow> demoted (lm_state (attempt_step m a))"
  using attempt_step_cases [of m a] by (cases "lm_state m") (auto simp: demoted_def)

interpretation demotion: latched_machine attempt_step "\<lambda>_. True" "\<lambda>m. demoted (lm_state m)"
  by unfold_locales (simp_all add: demoted_step)

lemma retired_step: "lm_state m = RETIRED \<Longrightarrow> attempt_step m a = m"
  using attempt_step_cases [of m a] by simp

lemma operator_step:
  assumes "snd (snd a) = ''operator''"
  shows "attempt_step m a = m \<or> lm_state (attempt_step m a) \<in> {WATCH, SAFE_MODE, RETIRED}"
  using attempt_step_cases [of m a] assms
  by (cases "lm_state m") (auto simp: PROMOTION_TARGETS_def)

section \<open>Demotion monitors\<close>

datatype tier = Tier_NONE | Tier_WATCH | Tier_SAFE_MODE

text \<open>\<open>cusum_drift\<close>: the loop state is the statistic, its maximum and the first trip.\<close>

definition cusum_step ::
  "pyfloat \<Rightarrow> pyfloat \<Rightarrow> pyfloat \<Rightarrow> pyfloat \<Rightarrow> pyfloat \<times> pyfloat \<times> nat option \<times> nat \<Rightarrow> pyfloat
   \<Rightarrow> pyfloat \<times> pyfloat \<times> nat option \<times> nat" where
  "cusum_step mu0 sigma k h st r =
     (case st of (s, s_max, trip_index, i) \<Rightarrow>
        let s' = max 0 (s + (mu0 - r) / sigma - k)
        in (s', max s_max s', (if h < s' \<and> trip_index = None then Some i else trip_index), i + 1))"

definition cusum_drift :: "pyfloat \<Rightarrow> pyfloat \<Rightarrow> pyfloat \<Rightarrow> pyfloat \<Rightarrow> pyfloat list \<Rightarrow> tier \<times> nat option" where
  "cusum_drift mu0 sigma k h returns =
     (if sigma \<le> 0 then (Tier_NONE, None)
      else (case foldl (cusum_step mu0 sigma k h) (0, 0, None, 0) returns of
              (s, s_max, trip_index, i) \<Rightarrow>
                (if trip_index \<noteq> None then Tier_SAFE_MODE else Tier_NONE, trip_index)))"

text \<open>\<open>drawdown_bound\<close>: \<open>peak = None\<close> is minus infinity.\<close>

definition drawdown_step :: "pyfloat option \<times> pyfloat \<Rightarrow> pyfloat \<Rightarrow> pyfloat option \<times> pyfloat" where
  "drawdown_step st v =
     (let peak = (case fst st of None \<Rightarrow> v | Some p \<Rightarrow> max p v)
      in (Some peak, if 0 < peak then max (snd st) ((peak - v) / peak) else snd st))"

definition drawdown_bound :: "pyfloat \<Rightarrow> pyfloat \<Rightarrow> pyfloat list \<Rightarrow> tier \<times> pyfloat" where
  "drawdown_bound oos_max_dd multiplier equity_curve =
     (let max_dd = snd (foldl drawdown_step (None, 0) equity_curve)
      in (if multiplier * \<bar>oos_max_dd\<bar> < max_dd then Tier_SAFE_MODE else Tier_NONE, max_dd))"

definition mean_of :: "pyfloat list \<Rightarrow> pyfloat" where
  "mean_of w = sum_list w / real (length w)"

definition sharpe_of :: "pyfloat \<Rightarrow> pyfloat list \<Rightarrow> pyfloat" where
  "sharpe_of periods_per_year w =
     (let mean = mean_of w;
          var = (if 1 < length w then sum_list (map (\<lambda>x. (x - mean)\<^sup>2) w) / real (length w - 1) else 0);
          sd = sqrt var
      in if 0 < sd then mean / sd * sqrt periods_per_year else 0)"

definition rolling_sharpe :: "nat \<Rightarrow> pyfloat \<Rightarrow> pyfloat list \<Rightarrow> pyfloat list" where
  "rolling_sharpe window periods_per_year returns =
     map (\<lambda>end. sharpe_of periods_per_year (take window (drop (end - window) returns)))
       [window ..< length returns + 1]"

text \<open>A loop that counts consecutive breaches and returns at the first run of \<open>n\<close>.\<close>

fun run_of :: "('a \<Rightarrow> bool) \<Rightarrow> nat \<Rightarrow> nat \<Rightarrow> 'a list \<Rightarrow> bool" where
  "run_of breach n run [] = False"
| "run_of breach n run (x # xs) =
     (let run' = (if breach x then run + 1 else 0)
      in if n \<le> run' then True else run_of breach n run' xs)"

definition rolling_sharpe_monitor :: "pyfloat \<Rightarrow> nat \<Rightarrow> nat \<Rightarrow> nat \<Rightarrow> pyfloat list \<Rightarrow> tier" where
  "rolling_sharpe_monitor oos_ci_lower window breach_consecutive min_armed_weeks weekly_returns =
     (if length weekly_returns < max min_armed_weeks window then Tier_NONE
      else if run_of (\<lambda>s. s < oos_ci_lower) breach_consecutive 0 (rolling_sharpe window 52 weekly_returns)
      then Tier_WATCH else Tier_NONE)"

definition hit_rate_monitor ::
  "(pyfloat \<Rightarrow> nat \<Rightarrow> pyfloat \<Rightarrow> pyfloat) \<Rightarrow> pyfloat \<Rightarrow> nat \<Rightarrow> nat \<Rightarrow> bool list \<Rightarrow> tier" where
  "hit_rate_monitor binom_ppf oos_hit_rate n min_armed_trades wins =
     (if length wins < max min_armed_trades n then Tier_NONE
      else
        let lower = binom_ppf (5 / 100) n oos_hit_rate / real n;
            window = drop (length wins - n) wins;
            rate = real (length (filter id window)) / real n
        in if rate < lower then Tier_WATCH else Tier_NONE)"

text \<open>Here the run is tested only after a breach, so a limit of zero does not trip at once.\<close>

fun cost_run :: "pyfloat \<Rightarrow> nat \<Rightarrow> nat \<Rightarrow> (pyfloat \<times> pyfloat) list \<Rightarrow> bool" where
  "cost_run multiplier n run [] = False"
| "cost_run multiplier n run ((realized, modeled) # rest) =
     (if 0 < modeled \<and> multiplier * modeled < realized
      then if n \<le> run + 1 then True else cost_run multiplier n (run + 1) rest
      else cost_run multiplier n 0 rest)"

definition cost_divergence_monitor :: "pyfloat \<Rightarrow> nat \<Rightarrow> pyfloat list \<Rightarrow> pyfloat list \<Rightarrow> tier" where
  "cost_divergence_monitor multiplier consecutive_days realized_costs modeled_costs =
     (if cost_run multiplier consecutive_days 0 (zip realized_costs modeled_costs)
      then Tier_WATCH else Tier_NONE)"

definition integrity_trip :: "bool \<Rightarrow> bool \<Rightarrow> bool \<Rightarrow> tier" where
  "integrity_trip hash_ok parity_ok reconciliation_ok =
     (if hash_ok \<and> parity_ok \<and> reconciliation_ok then Tier_NONE else Tier_SAFE_MODE)"

definition watch_persistence_trip :: "nat \<Rightarrow> nat \<Rightarrow> tier" where
  "watch_persistence_trip watch_weeks max_weeks =
     (if max_weeks \<le> watch_weeks then Tier_SAFE_MODE else Tier_NONE)"

definition worst_tier :: "tier list \<Rightarrow> tier" where
  "worst_tier verdicts =
     (if Tier_SAFE_MODE \<in> set verdicts then Tier_SAFE_MODE
      else if Tier_WATCH \<in> set verdicts then Tier_WATCH else Tier_NONE)"

section \<open>The monitors and the conditions they watch for\<close>

definition drift :: "pyfloat \<Rightarrow> pyfloat \<Rightarrow> pyfloat \<Rightarrow> pyfloat \<Rightarrow> pyfloat" where
  "drift mu0 sigma k r = (mu0 - r) / sigma - k"

text \<open>The statistic is the largest drift of a segment that ends now (or zero).\<close>

fun cusum :: "pyfloat \<Rightarrow> pyfloat list \<Rightarrow> pyfloat" where
  "cusum s [] = s"
| "cusum s (x # xs) = cusum (max 0 (s + x)) xs"

lemma cusum_append [simp]: "cusum s (xs @ [x]) = max 0 (cusum s xs + x)"
  by (induction xs arbitrary: s) auto

lemma cusum_segment_le: "0 \<le> s \<Longrightarrow> sum_list us \<le> cusum s us"
proof (induction us rule: rev_induct)
  case (snoc x xs)
  then show ?case by simp
qed simp

lemma cusum_nonneg: "0 \<le> s \<Longrightarrow> 0 \<le> cusum s xs"
  by (induction xs rule: rev_induct) auto

lemma cusum_prefix: "cusum s (xs @ ys) = cusum (cusum s xs) ys"
  by (induction xs arbitrary: s) auto

lemma cusum_attained: "\<exists>pre us. xs = pre @ us \<and> cusum 0 xs = sum_list us"
proof (induction xs rule: rev_induct)
  case Nil
  then show ?case by simp
next
  case (snoc x xs)
  then obtain pre us where e: "xs = pre @ us" "cusum 0 xs = sum_list us" by blast
  show ?case
  proof (cases "0 \<le> sum_list us + x")
    case True
    then have "cusum 0 (xs @ [x]) = sum_list (us @ [x])" by (simp only: cusum_append e(2)) simp
    moreover have "xs @ [x] = pre @ (us @ [x])" using e(1) by simp
    ultimately show ?thesis by blast
  next
    case False
    then have "cusum 0 (xs @ [x]) = sum_list []" by (simp only: cusum_append e(2)) simp
    then show ?thesis by (intro exI [of _ "xs @ [x]"] exI [of _ "[]"]) simp
  qed
qed

lemma cusum_exceeds_iff:
  assumes "0 \<le> h"
  shows "(\<exists>ys zs. xs = ys @ zs \<and> h < cusum 0 ys) \<longleftrightarrow>
    (\<exists>pre us post. xs = pre @ us @ post \<and> h < sum_list us)"
proof (intro iffI; elim exE conjE)
  fix ys zs assume "xs = ys @ zs" "h < cusum 0 ys"
  with cusum_attained [of ys] show "\<exists>pre us post. xs = pre @ us @ post \<and> h < sum_list us"
    by (metis append.assoc)
next
  fix pre us post assume x: "xs = pre @ us @ post" "h < sum_list us"
  have "sum_list us \<le> cusum 0 (pre @ us)"
    unfolding cusum_prefix by (intro cusum_segment_le cusum_nonneg) simp
  with x show "\<exists>ys zs. xs = ys @ zs \<and> h < cusum 0 ys"
    by (intro exI [of _ "pre @ us"] exI [of _ post]) simp
qed

definition exceeds :: "pyfloat \<Rightarrow> pyfloat \<Rightarrow> pyfloat list \<Rightarrow> bool" where
  "exceeds h s xs = (\<exists>ys zs. xs = ys @ zs \<and> ys \<noteq> [] \<and> h < cusum s ys)"

lemma exceeds_simps [simp]:
  "\<not> exceeds h s []"
  "exceeds h s (x # xs) \<longleftrightarrow> h < max 0 (s + x) \<or> exceeds h (max 0 (s + x)) xs"
proof -
  show "\<not> exceeds h s []" by (simp add: exceeds_def)
  have "(\<exists>ys zs. x # xs = ys @ zs \<and> ys \<noteq> [] \<and> h < cusum s ys)
      \<longleftrightarrow> (\<exists>ys zs. xs = ys @ zs \<and> h < cusum (max 0 (s + x)) ys)"
  proof (intro iffI; elim exE conjE)
    fix ys zs assume "xs = ys @ zs" "h < cusum (max 0 (s + x)) ys"
    then show "\<exists>ys zs. x # xs = ys @ zs \<and> ys \<noteq> [] \<and> h < cusum s ys"
      by (intro exI [of _ "x # ys"] exI [of _ zs]) simp
  qed (auto simp: Cons_eq_append_conv)
  also have "\<dots> \<longleftrightarrow> h < max 0 (s + x) \<or> exceeds h (max 0 (s + x)) xs"
    unfolding exceeds_def by (metis append_Nil cusum.simps(1))
  finally show "exceeds h s (x # xs) \<longleftrightarrow> h < max 0 (s + x) \<or> exceeds h (max 0 (s + x)) xs"
    by (simp only: exceeds_def)
qed

lemma cusum_fold:
  "(case foldl (cusum_step mu0 sigma k h) (s, mx, trip, i) rs of (s', mx', trip', i') \<Rightarrow> trip' \<noteq> None)
     \<longleftrightarrow> trip \<noteq> None \<or> exceeds h s (map (drift mu0 sigma k) rs)"
proof (induction rs arbitrary: s mx trip i)
  case (Cons r rs)
  have step: "cusum_step mu0 sigma k h (s, mx, trip, i) r =
      (max 0 (s + drift mu0 sigma k r), max mx (max 0 (s + drift mu0 sigma k r)),
       (if h < max 0 (s + drift mu0 sigma k r) \<and> trip = None then Some i else trip), i + 1)"
    by (simp add: cusum_step_def drift_def Let_def add_diff_eq)
  show ?case unfolding foldl.simps step Cons.IH by auto
qed simp

lemma exceeds_iff_segment:
  assumes "0 \<le> h"
  shows "exceeds h 0 xs \<longleftrightarrow> (\<exists>pre us post. xs = pre @ us @ post \<and> h < sum_list us)"
proof -
  have "exceeds h 0 xs \<longleftrightarrow> (\<exists>ys zs. xs = ys @ zs \<and> h < cusum 0 ys)"
    unfolding exceeds_def using assms by (metis cusum.simps(1) not_less)
  with cusum_exceeds_iff [OF assms] show ?thesis by simp
qed

lemma cusum_trips_iff:
  "fst (cusum_drift mu0 sigma k h rs) = Tier_SAFE_MODE \<longleftrightarrow>
     0 < sigma \<and> exceeds h 0 (map (drift mu0 sigma k) rs)"
  using cusum_fold [of mu0 sigma k h 0 0 None 0 rs]
  by (auto simp: cusum_drift_def split: prod.splits if_splits)

text \<open>Consecutive breaches: the counting loops find a run of the given length.\<close>

definition has_run :: "('a \<Rightarrow> bool) \<Rightarrow> nat \<Rightarrow> 'a list \<Rightarrow> bool" where
  "has_run breach n xs = (\<exists>pre us post. xs = pre @ us @ post \<and> length us = n \<and> list_all breach us)"

lemma has_run_mono: "has_run breach n xs \<Longrightarrow> has_run breach n (x # xs)"
  unfolding has_run_def by (metis append_Cons)

lemma list_all_take_le: "m \<le> n \<Longrightarrow> list_all P (take n xs) \<Longrightarrow> list_all P (take m xs)"
  using set_take_subset_set_take [of m n xs] by (auto simp: list_all_iff)

lemma has_run_Cons:
  "0 < n \<Longrightarrow> has_run breach n (x # xs)
     \<longleftrightarrow> (n \<le> length (x # xs) \<and> list_all breach (take n (x # xs))) \<or> has_run breach n xs"
proof -
  assume n: "0 < n"
  have "has_run breach n (x # xs) \<longleftrightarrow>
      (\<exists>us post. x # xs = us @ post \<and> length us = n \<and> list_all breach us) \<or> has_run breach n xs"
  proof (intro iffI; (elim disjE)?)
    show "has_run breach n xs \<Longrightarrow> has_run breach n (x # xs)" by (rule has_run_mono)
    show "\<exists>us post. x # xs = us @ post \<and> length us = n \<and> list_all breach us
        \<Longrightarrow> has_run breach n (x # xs)"
      unfolding has_run_def by (metis append_Nil)
  qed (auto simp: has_run_def Cons_eq_append_conv)
  also have "(\<exists>us post. x # xs = us @ post \<and> length us = n \<and> list_all breach us)
      \<longleftrightarrow> n \<le> length (x # xs) \<and> list_all breach (take n (x # xs))"
    by (metis append_eq_conv_conj append_take_drop_id length_take min.absorb2 nat_le_linear take_all_iff)
  finally show ?thesis .
qed

lemma run_of_has_run:
  assumes "0 < n" and "run < n"
  shows "run_of breach n run xs
    \<longleftrightarrow> (n - run \<le> length xs \<and> list_all breach (take (n - run) xs)) \<or> has_run breach n xs"
  using assms
proof (induction xs arbitrary: run)
  case Nil
  then show ?case by (auto simp: has_run_def)
next
  case (Cons x xs)
  show ?case
  proof (cases "breach x")
    case False
    with Cons.prems Cons.IH [of 0] show ?thesis
      by (auto simp: has_run_Cons Let_def take_Cons' simp del: take_Suc_Cons)
        (metis has_run_def append_take_drop_id append_Nil length_take min.absorb2)
  next
    case True
    show ?thesis
    proof (cases "n = run + 1")
      case True
      with \<open>breach x\<close> show ?thesis by simp
    next
      case False
      with Cons.prems Cons.IH [of "run + 1"] \<open>breach x\<close>
        list_all_take_le [of "n - Suc run" "n - Suc 0" breach xs, OF diff_le_mono2] show ?thesis
        by (auto simp: has_run_Cons Let_def take_Cons' simp del: take_Suc_Cons)
    qed
  qed
qed

lemma run_of_iff: "0 < n \<Longrightarrow> run_of breach n 0 xs \<longleftrightarrow> has_run breach n xs"
  using run_of_has_run [of n 0 breach xs]
  by (auto simp: has_run_def) (metis append_Nil append_take_drop_id length_take min.absorb2)

definition overrun :: "pyfloat \<Rightarrow> pyfloat \<times> pyfloat \<Rightarrow> bool" where
  "overrun multiplier rm = (0 < snd rm \<and> multiplier * snd rm < fst rm)"

lemma cost_run_run_of: "0 < n \<Longrightarrow> run < n \<Longrightarrow> cost_run mult n run xs = run_of (overrun mult) n run xs"
  by (induction mult n run xs rule: cost_run.induct) (auto simp: overrun_def Let_def)

text \<open>The drawdown fold: the peak is the largest value so far.\<close>

definition drop_between :: "pyfloat \<Rightarrow> pyfloat list \<Rightarrow> bool" where
  "drop_between thr vs = (\<exists>i j. i \<le> j \<and> j < length vs \<and> 0 < vs ! i \<and> thr < (vs ! i - vs ! j) / vs ! i)"

lemma drawdown_peak:
  "vs \<noteq> [] \<Longrightarrow> fst (foldl drawdown_step (None, 0) vs) = Some (Max (set vs))"
proof (induction vs rule: rev_induct)
  case (snoc v vs)
  then show ?case
    by (cases "vs = []") (auto simp: drawdown_step_def Let_def max.commute split: option.splits)
qed simp

lemma deeper_from_peak:
  assumes "0 < a" and "a \<le> p" and "0 \<le> v" and "thr < (a - v) / a"
  shows "thr < (p - v) / (p :: real)"
proof -
  have "(a - v) / a = 1 - v / a" "(p - v) / p = 1 - v / p"
    using assms by (simp_all add: diff_divide_distrib)
  moreover have "v / p \<le> v / a" using assms by (intro divide_left_mono) auto
  ultimately show ?thesis using assms(4) by linarith
qed

lemma drop_between_snoc:
  assumes "list_all (\<lambda>v. 0 \<le> v) (vs @ [v])" and "0 \<le> thr"
  shows "drop_between thr (vs @ [v]) \<longleftrightarrow> drop_between thr vs
    \<or> (let p = Max (set (vs @ [v])) in 0 < p \<and> thr < (p - v) / p)"
proof -
  let ?p = "Max (set (vs @ [v]))"
  have old: "drop_between thr vs \<Longrightarrow> drop_between thr (vs @ [v])"
    unfolding drop_between_def
  proof (elim exE conjE)
    fix i j assume "i \<le> j" "j < length vs" "0 < vs ! i" "thr < (vs ! i - vs ! j) / vs ! i"
    then show "\<exists>i j. i \<le> j \<and> j < length (vs @ [v]) \<and> 0 < (vs @ [v]) ! i
        \<and> thr < ((vs @ [v]) ! i - (vs @ [v]) ! j) / (vs @ [v]) ! i"
      by (intro exI [of _ i] exI [of _ j]) (simp add: nth_append)
  qed
  have "?p \<in> set (vs @ [v])" by (intro Max_in) auto
  then obtain i where i: "i < length (vs @ [v])" "(vs @ [v]) ! i = ?p" by (metis in_set_conv_nth)
  have new: "0 < ?p \<Longrightarrow> thr < (?p - v) / ?p \<Longrightarrow> drop_between thr (vs @ [v])"
    unfolding drop_between_def
    using i by (intro exI [of _ i] exI [of _ "length vs"]) auto
  have "drop_between thr vs \<or> (0 < ?p \<and> thr < (?p - v) / ?p)" if "drop_between thr (vs @ [v])"
  proof -
    from that obtain a b where ab: "a \<le> b" "b < length (vs @ [v])" "0 < (vs @ [v]) ! a"
      "thr < ((vs @ [v]) ! a - (vs @ [v]) ! b) / (vs @ [v]) ! a"
      unfolding drop_between_def by blast
    show ?thesis
    proof (cases "b < length vs")
      case True
      with ab show ?thesis unfolding drop_between_def
        by (intro disjI1 exI [of _ a] exI [of _ b]) (simp add: nth_append)
    next
      case False
      with ab(2) have b: "(vs @ [v]) ! b = v" by (simp add: nth_append)
      have "(vs @ [v]) ! a \<le> ?p" using ab(1,2) by (intro Max_ge List.finite_set nth_mem) linarith
      with ab b assms(1) show ?thesis
        using deeper_from_peak [of "(vs @ [v]) ! a" ?p v thr] by auto
    qed
  qed
  with old new show ?thesis unfolding Let_def by blast
qed

lemma drawdown_fold:
  assumes "list_all (\<lambda>v. 0 \<le> v) vs" and "0 \<le> thr"
  shows "thr < snd (foldl drawdown_step (None, 0) vs) \<longleftrightarrow> drop_between thr vs"
  using assms(1)
proof (induction vs rule: rev_induct)
  case Nil
  then show ?case using assms(2) by (simp add: drop_between_def)
next
  case (snoc v vs)
  let ?st = "foldl drawdown_step (None, 0) vs"
  have "fst (drawdown_step ?st v) = Some (Max (set (vs @ [v])))"
    using drawdown_peak [of "vs @ [v]"] by simp
  then have "snd (drawdown_step ?st v) = (let p = Max (set (vs @ [v]))
      in if 0 < p then max (snd ?st) ((p - v) / p) else snd ?st)"
    by (simp add: drawdown_step_def Let_def)
  with snoc drop_between_snoc [OF snoc.prems assms(2)] show ?case
    by (auto simp: Let_def less_max_iff_disj)
qed

section \<open>Properties\<close>

text \<open>
  C13: The ladder cannot be jumped: whatever state a machine is built in and whatever transitions
  are attempted by whatever actors, a leg that is ACTIVE or in WATCH was not built in SAFE_MODE
  or RETIRED and was promoted through every rung between its first state and ACTIVE (VALIDATED,
  PAPER, ACTIVE for the default CANDIDATE), in that order and each recorded in the durable
  reports; no recorded promotion is the operator's; and a leg enters SAFE_MODE at most once.
\<close>

theorem active_only_by_ladder:
  "let m = foldl attempt_step (new_machine leg s0) attempts
   in (lm_state m \<in> {ACTIVE, WATCH}
         \<longrightarrow> s0 \<notin> {SAFE_MODE, RETIRED} \<and> (\<exists>rest. visited m = missing_rungs s0 @ rest))
      \<and> list_all (\<lambda>r. tr_actor r = ''operator'' \<longrightarrow> tr_to_state r \<notin> PROMOTION_TARGETS) (lm_reports m)
      \<and> lm_safe_mode_episodes m \<le> 1"
proof -
  have "ladder_ok s0 (foldl attempt_step (new_machine leg s0) attempts)
      \<and> gate_promotions (foldl attempt_step (new_machine leg s0) attempts)"
    by (rule lifecycle.inv_run) (rule ladder_ok_new)
  then show ?thesis
    by (auto simp: ladder_ok_def gate_promotions_def Let_def split: lifecycle_state.splits if_splits)
qed

theorem active_only_by_ladder_witness:
  "\<exists>rest. visited (foldl attempt_step (new_machine ''leg'' CANDIDATE)
     [(ACTIVE, ''rush'', ''system''), (VALIDATED, ''gate'', ''system''), (PAPER, ''gate'', ''system''),
      (ACTIVE, ''gate'', ''system'')]) = [VALIDATED, PAPER, ACTIVE] @ rest"
proof -
  let ?as = "[(ACTIVE, ''rush'', ''system''), (VALIDATED, ''gate'', ''system''),
      (PAPER, ''gate'', ''system''), (ACTIVE, ''gate'', ''system'')]"
  have "lm_state (foldl attempt_step (new_machine ''leg'' CANDIDATE) ?as) = ACTIVE" by code_simp
  with active_only_by_ladder [of "''leg''" CANDIDATE ?as] show ?thesis by (simp only: Let_def missing_rungs.simps) blast
qed

text \<open>
  The operator can only demote: no sequence of operator actions brings a leg that is not
  already VALIDATED, PAPER or ACTIVE into one of these states, nor from one to another; and
  a leg in SAFE_MODE or RETIRED never trades again.
\<close>

theorem operator_never_promotes:
  assumes "list_all (\<lambda>a. snd (snd a) = ''operator'') attempts"
  shows "let m' = foldl attempt_step m attempts
         in (lm_state m' = lm_state m \<or> lm_state m' \<in> {WATCH, SAFE_MODE, RETIRED})
            \<and> (lm_state m \<in> {SAFE_MODE, RETIRED}
                \<longrightarrow> lm_state (foldl attempt_step m others) \<in> {SAFE_MODE, RETIRED})"
proof -
  have "lm_state (foldl attempt_step m attempts) = lm_state m
      \<or> lm_state (foldl attempt_step m attempts) \<in> {WATCH, SAFE_MODE, RETIRED}"
    using assms
  proof (induction attempts arbitrary: m)
    case (Cons a attempts)
    show ?case
      using operator_step [of a m] Cons.prems Cons.IH [of "attempt_step m a"] by auto
  qed simp
  with demotion.latch_run [of m others] show ?thesis by (simp add: Let_def demoted_def)
qed

theorem operator_never_promotes_witness:
  "lm_state (foldl attempt_step (new_machine ''leg'' CANDIDATE) [(VALIDATED, ''force'', ''operator'')]) = CANDIDATE
   \<or> lm_state (foldl attempt_step (new_machine ''leg'' CANDIDATE) [(VALIDATED, ''force'', ''operator'')])
       \<in> {WATCH, SAFE_MODE, RETIRED}"
proof -
  have "list_all (\<lambda>a. snd (snd a) = ''operator'') [(VALIDATED, ''force'', ''operator'')]" by simp
  from operator_never_promotes [OF this, of "new_machine ''leg'' CANDIDATE" "[]"]
  show ?thesis by (simp add: Let_def new_machine_def)
qed

text \<open>
  The CUSUM monitor detects exactly sustained drift: it demotes iff some contiguous
  segment of weeks has accumulated more than \<open>h\<close> of standardised shortfall net of the
  allowance \<open>k\<close> per week.
\<close>

theorem cusum_detects_drift_segments:
  assumes "0 < sigma" and "0 \<le> h"
  shows "fst (cusum_drift mu0 sigma k h returns) = Tier_SAFE_MODE \<longleftrightarrow>
    (\<exists>pre us post. returns = pre @ us @ post \<and> h < sum_list (map (\<lambda>r. (mu0 - r) / sigma - k) us))"
proof -
  have d: "map (drift mu0 sigma k) = map (\<lambda>r. (mu0 - r) / sigma - k)"
    by (simp add: fun_eq_iff drift_def)
  have "(\<exists>pre us post. map (drift mu0 sigma k) returns = pre @ us @ post \<and> h < sum_list us)
      \<longleftrightarrow> (\<exists>pre us post. returns = pre @ us @ post \<and> h < sum_list (map (drift mu0 sigma k) us))"
  proof (intro iffI; elim exE conjE)
    fix pre us post
    assume "map (drift mu0 sigma k) returns = pre @ us @ post" "h < sum_list us"
    then show "\<exists>pre us post. returns = pre @ us @ post \<and> h < sum_list (map (drift mu0 sigma k) us)"
      by (metis map_eq_append_conv)
  qed (metis map_append)
  with cusum_trips_iff [of mu0 sigma k h returns] exceeds_iff_segment [OF assms(2)] assms(1)
  show ?thesis unfolding d by simp
qed

theorem cusum_detects_drift_segments_witness:
  "fst (cusum_drift 0 1 (1 / 2) 5 [- 4, - 4]) = Tier_SAFE_MODE"
proof -
  have "\<exists>pre us post. [- 4, - 4 :: real] = pre @ us @ post
      \<and> 5 < sum_list (map (\<lambda>r. (0 - r) / 1 - 1 / 2) us)"
    by (intro exI [of _ "[]"] exI [of _ "[- 4, - 4]"]) simp
  then show ?thesis
    using cusum_detects_drift_segments [of 1 5 0 "1 / 2" "[- 4, - 4]"] by simp
qed

text \<open>
  The drawdown bound demotes exactly when the equity fell, between some two instants,
  by more than the threshold fraction of the earlier value (on a non-negative curve).
\<close>

theorem drawdown_bound_exact:
  assumes "list_all (\<lambda>v. 0 \<le> v) curve" and "0 \<le> multiplier"
  shows "fst (drawdown_bound oos_max_dd multiplier curve) = Tier_SAFE_MODE \<longleftrightarrow>
    (\<exists>i j. i \<le> j \<and> j < length curve \<and> 0 < curve ! i
       \<and> multiplier * \<bar>oos_max_dd\<bar> < (curve ! i - curve ! j) / curve ! i)"
  using drawdown_fold [OF assms(1), of "multiplier * \<bar>oos_max_dd\<bar>"] assms(2)
  by (simp add: drawdown_bound_def Let_def drop_between_def)

theorem drawdown_bound_exact_witness:
  "fst (drawdown_bound (1 / 10) (5 / 4) [100, 80]) = Tier_SAFE_MODE"
proof -
  have "\<exists>i j. i \<le> j \<and> j < length [100, 80 :: real] \<and> 0 < [100, 80 :: real] ! i
      \<and> 5 / 4 * \<bar>1 / 10\<bar> < ([100, 80 :: real] ! i - [100, 80 :: real] ! j) / [100, 80] ! i"
    by (intro exI [of _ 0] exI [of _ 1]) simp
  then show ?thesis using drawdown_bound_exact [of "[100, 80]" "5 / 4" "1 / 10"] by simp
qed

text \<open>
  The two persistence monitors trip exactly on the registered number of consecutive
  breaches: ten days of cost overrun in a row, or the given number of rolling Sharpe values
  in a row below the bound once the monitor is armed; a shorter run never trips.
\<close>

theorem persistence_monitors_exact:
  assumes "0 < n"
  shows "(cost_divergence_monitor mult n realized modeled = Tier_WATCH \<longleftrightarrow>
           has_run (\<lambda>rm. 0 < snd rm \<and> mult * snd rm < fst rm) n (zip realized modeled))
    \<and> (rolling_sharpe_monitor bound w n armed weekly = Tier_WATCH \<longleftrightarrow>
           max armed w \<le> length weekly \<and> has_run (\<lambda>s. s < bound) n (rolling_sharpe w 52 weekly))"
proof -
  have "overrun mult = (\<lambda>rm. 0 < snd rm \<and> mult * snd rm < fst rm)"
    by (simp add: fun_eq_iff overrun_def)
  then have c: "cost_run mult n 0 (zip realized modeled)
      = has_run (\<lambda>rm. 0 < snd rm \<and> mult * snd rm < fst rm) n (zip realized modeled)"
    using assms by (simp only: cost_run_run_of run_of_iff)
  have "run_of (\<lambda>s. s < bound) n 0 (rolling_sharpe w 52 weekly)
      = has_run (\<lambda>s. s < bound) n (rolling_sharpe w 52 weekly)"
    using assms by (rule run_of_iff)
  then have "rolling_sharpe_monitor bound w n armed weekly = Tier_WATCH \<longleftrightarrow>
      max armed w \<le> length weekly \<and> has_run (\<lambda>s. s < bound) n (rolling_sharpe w 52 weekly)"
    by (auto simp: rolling_sharpe_monitor_def)
  moreover have "cost_divergence_monitor mult n realized modeled = Tier_WATCH \<longleftrightarrow>
      has_run (\<lambda>rm. 0 < snd rm \<and> mult * snd rm < fst rm) n (zip realized modeled)"
    by (simp add: cost_divergence_monitor_def c)
  ultimately show ?thesis by blast
qed

theorem persistence_monitors_exact_witness:
  "cost_divergence_monitor 1 2 [3, 3] [1, 1] = Tier_WATCH"
proof -
  have "has_run (\<lambda>rm. 0 < snd rm \<and> 1 * snd rm < fst rm) 2 (zip [3, 3 :: real] [1, 1])"
    unfolding has_run_def by (intro exI [of _ "[]"] exI [of _ "[(3, 1), (3, 1)]"]) simp
  then show ?thesis
    using persistence_monitors_exact [of 2 1 "[3, 3]" "[1, 1]" 0 0 0 "[]"] by simp
qed

end
