(* ===== verification/Config_Chain.thy ===== *)
theory Config_Chain
  imports Escalation "HOL-Library.Multiset"
begin

text \<open>
  Config pinning and refit lineage: \<open>src/lifecycle/config_hash.py\<close>,
  \<open>src/lifecycle/hash_chain.py\<close> and the append-only store
  \<open>src/persistence/hash_chain_store.py\<close>. A configuration is a JSON-like value; JSON
  rendering, SHA-256 and the rounding of a float to twelve significant digits are arguments.
  The chain table is the list of its rows in the order of their ids.
\<close>

section \<open>Canonical configurations\<close>

datatype cfg =
    CNull | CBool bool | CInt int | CFloat pyfloat | CStr string
  | CList "cfg list" | CDict "(string \<times> cfg) list"

fun normalize :: "(pyfloat \<Rightarrow> pyfloat) \<Rightarrow> cfg \<Rightarrow> cfg" where
  "normalize r12 (CBool b) = CBool b"
| "normalize r12 (CDict kvs) = CDict (map (\<lambda>(k, v). (k, normalize r12 v)) (sort_key fst kvs))"
| "normalize r12 (CList vs) = CList (map (normalize r12) vs)"
| "normalize r12 (CFloat x) = CFloat (let norm = r12 x in if norm = 0 then 0 else norm)"
| "normalize r12 CNull = CNull"
| "normalize r12 (CInt i) = CInt i"
| "normalize r12 (CStr s) = CStr s"

text \<open>The library functions the hash goes through: float formatting, JSON, SHA-256.\<close>

record hasher =
  hs_round12 :: "pyfloat \<Rightarrow> pyfloat"
  hs_dumps :: "cfg \<Rightarrow> string"
  hs_sha256 :: "string \<Rightarrow> string"

definition canonical_config_json :: "hasher \<Rightarrow> cfg \<Rightarrow> string" where
  "canonical_config_json hs config = hs_dumps hs (normalize (hs_round12 hs) config)"

definition canonical_config_hash :: "hasher \<Rightarrow> cfg \<Rightarrow> string" where
  "canonical_config_hash hs config = hs_sha256 hs (canonical_config_json hs config)"

definition pin_config_hash :: "hasher \<Rightarrow> cfg \<Rightarrow> string" where
  "pin_config_hash hs config = canonical_config_hash hs config"

text \<open>
  A report to the diagnostic sink, and the safety action both checks share: the
  escalation engine, when given, is moved to ENTRY_GATE_HALT for the leg.
\<close>

record config_report =
  cr_kind :: string
  cr_leg_id :: string
  cr_expected :: "string option"
  cr_running_hash :: string

definition halt_leg :: "string \<Rightarrow> string \<Rightarrow> risk_snapshot option \<Rightarrow> risk_snapshot option" where
  "halt_leg leg_id commander esc =
     map_option (transition ENTRY_GATE_HALT ''GLOBAL'' (Some leg_id) None commander) esc"

definition assert_running_hash ::
  "hasher \<Rightarrow> cfg \<Rightarrow> string \<Rightarrow> string \<Rightarrow> string \<Rightarrow> risk_snapshot option
   \<Rightarrow> bool \<times> risk_snapshot option \<times> config_report list" where
  "assert_running_hash hs running_config pinned_hash leg_id phase esc =
     (let running_hash = canonical_config_hash hs running_config
      in if running_hash = pinned_hash then (True, esc, [])
         else (False, halt_leg leg_id (''config_hash_mismatch_'' @ phase) esc,
               [\<lparr>cr_kind = ''config_hash_mismatch'', cr_leg_id = leg_id, cr_expected = Some pinned_hash,
                 cr_running_hash = running_hash\<rparr>]))"

section \<open>The chain\<close>

record chain_entry =
  ch_leg_id :: string
  ch_epoch :: int
  ch_parent_hash :: "string option"
  ch_leaf_hash :: string
  ch_refit_evidence_ref :: "string option"
  ch_created_utc :: instant

definition persist_chain_entries :: "chain_entry list \<Rightarrow> chain_entry list \<Rightarrow> chain_entry list" where
  "persist_chain_entries payloads t = (if payloads = [] then t else t @ payloads)"

definition read_chain :: "string \<Rightarrow> chain_entry list \<Rightarrow> chain_entry list" where
  "read_chain leg_id t = filter (\<lambda>e. ch_leg_id e = leg_id) t"

definition read_latest_leaf :: "string \<Rightarrow> chain_entry list \<Rightarrow> string option" where
  "read_latest_leaf leg_id t =
     (case rev (read_chain leg_id t) of [] \<Rightarrow> None | e # _ \<Rightarrow> Some (ch_leaf_hash e))"

definition append_chain_entry ::
  "string \<Rightarrow> string \<Rightarrow> int \<Rightarrow> string option \<Rightarrow> string option \<Rightarrow> instant \<Rightarrow> chain_entry list \<Rightarrow> chain_entry list"
where
  "append_chain_entry leg_id leaf_hash epoch parent_hash evidence now t =
     persist_chain_entries
       [\<lparr>ch_leg_id = leg_id, ch_epoch = epoch, ch_parent_hash = parent_hash, ch_leaf_hash = leaf_hash,
         ch_refit_evidence_ref = evidence, ch_created_utc = now\<rparr>] t"

fun verify_links :: "string \<Rightarrow> int \<Rightarrow> chain_entry list \<Rightarrow> bool" where
  "verify_links prev_leaf prev_epoch [] = True"
| "verify_links prev_leaf prev_epoch (e # es) =
     (if ch_parent_hash e \<noteq> Some prev_leaf then False
      else if ch_epoch e \<le> prev_epoch then False
      else verify_links (ch_leaf_hash e) (ch_epoch e) es)"

definition verify_chain :: "string \<Rightarrow> chain_entry list \<Rightarrow> bool" where
  "verify_chain leg_id t =
     (case read_chain leg_id t of
        [] \<Rightarrow> True
      | e # es \<Rightarrow> if ch_parent_hash e \<noteq> None then False
                  else verify_links (ch_leaf_hash e) (ch_epoch e) es)"

definition detect_out_of_band_change ::
  "hasher \<Rightarrow> string \<Rightarrow> cfg \<Rightarrow> chain_entry list \<Rightarrow> risk_snapshot option
   \<Rightarrow> bool \<times> risk_snapshot option \<times> config_report list" where
  "detect_out_of_band_change hs leg_id running_config t esc =
     (let running_hash = canonical_config_hash hs running_config;
          latest = read_latest_leaf leg_id t
      in if latest = Some running_hash then (False, esc, [])
         else (True, halt_leg leg_id ''config_chain_out_of_band'' esc,
               [\<lparr>cr_kind = ''config_chain_out_of_band'', cr_leg_id = leg_id, cr_expected = latest,
                 cr_running_hash = running_hash\<rparr>]))"

section \<open>The refit runner\<close>

definition promote_genesis ::
  "hasher \<Rightarrow> string \<Rightarrow> cfg \<Rightarrow> int \<Rightarrow> string option \<Rightarrow> instant \<Rightarrow> chain_entry list \<Rightarrow> chain_entry list" where
  "promote_genesis hs leg_id config epoch evidence now t =
     append_chain_entry leg_id (canonical_config_hash hs config) epoch None evidence now t"

definition record_refit ::
  "hasher \<Rightarrow> string \<Rightarrow> cfg \<Rightarrow> int \<Rightarrow> string \<Rightarrow> instant \<Rightarrow> chain_entry list \<Rightarrow> chain_entry list" where
  "record_refit hs leg_id new_config epoch evidence now t =
     append_chain_entry leg_id (canonical_config_hash hs new_config) epoch (read_latest_leaf leg_id t)
       (Some evidence) now t"

datatype refit_op =
    Genesis string cfg int "string option" instant
  | Refit string cfg int string instant

fun refit_step :: "hasher \<Rightarrow> chain_entry list \<Rightarrow> refit_op \<Rightarrow> chain_entry list" where
  "refit_step hs t (Genesis leg config epoch ev now) = promote_genesis hs leg config epoch ev now t"
| "refit_step hs t (Refit leg config epoch ev now) = record_refit hs leg config epoch ev now t"

fun op_leg :: "refit_op \<Rightarrow> string" where
  "op_leg (Genesis leg config epoch ev now) = leg"
| "op_leg (Refit leg config epoch ev now) = leg"

fun op_epoch :: "refit_op \<Rightarrow> int" where
  "op_epoch (Genesis leg config epoch ev now) = epoch"
| "op_epoch (Refit leg config epoch ev now) = epoch"

fun op_config :: "refit_op \<Rightarrow> cfg" where
  "op_config (Genesis leg config epoch ev now) = config"
| "op_config (Refit leg config epoch ev now) = config"

abbreviation op_leaf :: "hasher \<Rightarrow> refit_op \<Rightarrow> string" where
  "op_leaf hs op \<equiv> canonical_config_hash hs (op_config op)"

fun is_genesis :: "refit_op \<Rightarrow> bool" where
  "is_genesis (Genesis leg leaf epoch ev now) = True"
| "is_genesis (Refit leg leaf epoch ev now) = False"

lemma verify_links_snoc:
  "verify_links l n (es @ [e]) \<longleftrightarrow> verify_links l n es
     \<and> ch_parent_hash e = Some (last (l # map ch_leaf_hash es))
     \<and> last (n # map ch_epoch es) < ch_epoch e"
  by (induction es arbitrary: l n) auto

lemma read_latest_snoc:
  "read_latest_leaf leg t = (if read_chain leg t = [] then None else Some (ch_leaf_hash (last (read_chain leg t))))"
  by (cases "read_chain leg t" rule: rev_cases) (simp_all add: read_latest_leaf_def)

lemma verify_chain_snoc:
  assumes "read_chain leg t' = read_chain leg t @ [e]"
  shows "verify_chain leg t' \<longleftrightarrow> verify_chain leg t
     \<and> ch_parent_hash e = read_latest_leaf leg t
     \<and> (read_chain leg t = [] \<or> ch_epoch (last (read_chain leg t)) < ch_epoch e)"
proof (cases "read_chain leg t")
  case Nil
  with assms show ?thesis by (simp add: verify_chain_def read_latest_snoc)
next
  case (Cons a as)
  have "last (ch_leaf_hash a # map ch_leaf_hash as) = ch_leaf_hash (last (a # as))"
    "last (ch_epoch a # map ch_epoch as) = ch_epoch (last (a # as))"
    by (metis last_map list.discI list.simps(9))+
  with Cons assms show ?thesis
    by (auto simp: verify_chain_def read_latest_snoc verify_links_snoc)
qed

lemma refit_step_chain:
  "read_chain leg (refit_step hs t op) =
     read_chain leg t @ (if op_leg op = leg
       then [\<lparr>ch_leg_id = leg, ch_epoch = op_epoch op,
              ch_parent_hash = (if is_genesis op then None else read_latest_leaf leg t),
              ch_leaf_hash = op_leaf hs op,
              ch_refit_evidence_ref = (case op of Genesis l h n ev now \<Rightarrow> ev | Refit l h n ev now \<Rightarrow> Some ev),
              ch_created_utc = (case op of Genesis l h n ev now \<Rightarrow> now | Refit l h n ev now \<Rightarrow> now)\<rparr>]
       else [])"
  by (cases op)
     (auto simp: promote_genesis_def record_refit_def append_chain_entry_def persist_chain_entries_def
       read_chain_def)

definition ops_of :: "string \<Rightarrow> refit_op list \<Rightarrow> refit_op list" where
  "ops_of leg ops = filter (\<lambda>op. op_leg op = leg) ops"

lemma chain_of_run:
  "map ch_leaf_hash (read_chain leg (foldl (refit_step hs) [] ops)) = map (op_leaf hs) (ops_of leg ops)
   \<and> map ch_epoch (read_chain leg (foldl (refit_step hs) [] ops)) = map op_epoch (ops_of leg ops)"
proof (induction ops rule: rev_induct)
  case Nil
  then show ?case by (simp add: read_chain_def ops_of_def)
next
  case (snoc op ops)
  then show ?case by (simp add: refit_step_chain ops_of_def)
qed

text \<open>A lineage is in order: a genesis only as the first entry, epochs strictly rising.\<close>

definition in_order :: "refit_op list \<Rightarrow> bool" where
  "in_order ops = (sorted_wrt (<) (map op_epoch ops) \<and> list_all (\<lambda>op. \<not> is_genesis op) (tl ops))"

lemma in_order_snoc:
  "in_order (ops @ [op]) \<longleftrightarrow> in_order ops
     \<and> (ops = [] \<or> (\<not> is_genesis op \<and> op_epoch (last ops) < op_epoch op))"
proof (cases ops rule: rev_cases)
  case Nil
  then show ?thesis by (simp add: in_order_def)
next
  case (snoc os o')
  show ?thesis
    unfolding in_order_def snoc
    by (auto simp: sorted_wrt_append tl_append list_all_iff split: list.splits)
qed

lemma latest_leaf_run:
  "read_latest_leaf leg (foldl (refit_step hs) [] ops) =
     (if ops_of leg ops = [] then None else Some (op_leaf hs (last (ops_of leg ops))))"
proof -
  let ?c = "read_chain leg (foldl (refit_step hs) [] ops)"
  have m: "map ch_leaf_hash ?c = map (op_leaf hs) (ops_of leg ops)" using chain_of_run by blast
  then have "(?c = []) = (ops_of leg ops = [])" by (metis map_is_Nil_conv)
  moreover have "?c \<noteq> [] \<Longrightarrow> ch_leaf_hash (last ?c) = op_leaf hs (last (ops_of leg ops))"
    using m by (metis last_map map_is_Nil_conv)
  ultimately show ?thesis by (simp add: read_latest_snoc)
qed

lemma verify_run: "verify_chain leg (foldl (refit_step hs) [] ops) \<longleftrightarrow> in_order (ops_of leg ops)"
proof (induction ops rule: rev_induct)
  case Nil
  then show ?case by (simp add: verify_chain_def read_chain_def ops_of_def in_order_def)
next
  case (snoc op ops)
  let ?t = "foldl (refit_step hs) [] ops"
  show ?case
  proof (cases "op_leg op = leg")
    case False
    then have "read_chain leg (refit_step hs ?t op) = read_chain leg ?t" by (simp add: refit_step_chain)
    with snoc False show ?thesis by (simp add: verify_chain_def ops_of_def)
  next
    case True
    have e: "map ch_epoch (read_chain leg ?t) = map op_epoch (ops_of leg ops)"
      using chain_of_run by blast
    then have nil: "(read_chain leg ?t = []) = (ops_of leg ops = [])" by (metis map_is_Nil_conv)
    have last: "read_chain leg ?t \<noteq> [] \<Longrightarrow> ch_epoch (last (read_chain leg ?t)) = op_epoch (last (ops_of leg ops))"
      using e by (metis last_map map_is_Nil_conv)
    have o: "ops_of leg (ops @ [op]) = ops_of leg ops @ [op]" using True by (simp add: ops_of_def)
    show ?thesis
      unfolding foldl_append foldl.simps o in_order_snoc
      using snoc.IH nil last True
      by (subst verify_chain_snoc [OF refit_step_chain [where hs=hs and t="?t" and op=op and leg=leg, simplified True, simplified]])
         (auto simp: latest_leaf_run)
  qed
qed

section \<open>Configurations that mean the same\<close>

text \<open>
  Two configurations are equivalent when they differ only in the order of the keys of their
  dictionaries, at any depth, and in floats that agree to twelve significant digits.
\<close>

inductive cfg_equiv :: "(pyfloat \<Rightarrow> pyfloat) \<Rightarrow> cfg \<Rightarrow> cfg \<Rightarrow> bool" for r12 where
  same: "cfg_equiv r12 c c"
| float: "r12 x = r12 y \<Longrightarrow> cfg_equiv r12 (CFloat x) (CFloat y)"
| in_list: "cfg_equiv r12 v w \<Longrightarrow> cfg_equiv r12 (CList (pre @ v # post)) (CList (pre @ w # post))"
| in_dict: "cfg_equiv r12 v w
    \<Longrightarrow> cfg_equiv r12 (CDict (pre @ (k, v) # post)) (CDict (pre @ (k, w) # post))"
| key_order: "distinct (map fst kvs) \<Longrightarrow> mset kvs = mset ws \<Longrightarrow> cfg_equiv r12 (CDict kvs) (CDict ws)"
| trans: "cfg_equiv r12 a b \<Longrightarrow> cfg_equiv r12 b c \<Longrightarrow> cfg_equiv r12 a c"

lemma insort_values:
  "map (\<lambda>(k, v). (k, f v)) (insort_key fst (k0, v0) xs)
     = insort_key fst (k0, f v0) (map (\<lambda>(k, v). (k, f v)) xs)"
  by (induction xs) auto

lemma sort_values:
  fixes xs :: "('k :: linorder \<times> 'v) list"
  shows "map (\<lambda>(k, v). (k, f v)) (sort_key fst xs) = sort_key fst (map (\<lambda>(k, v). (k, f v)) xs)"
proof (induction xs)
  case (Cons p xs)
  then show ?case by (cases p) (simp add: insort_values)
qed simp

lemma normalize_dict:
  "normalize r12 (CDict kvs) = CDict (sort_key fst (map (\<lambda>(k, v). (k, normalize r12 v)) kvs))"
  by (simp add: sort_values)

lemma sort_by_key_unique:
  assumes "distinct (map fst kvs)" and "mset kvs = mset ws"
  shows "sort_key fst kvs = sort_key fst ws"
proof -
  have "inj_on fst (set kvs)" using assms(1) by (simp add: distinct_map)
  then show ?thesis using assms(2)
    by (intro sort_key_inj_key_eq) simp_all
qed

lemma normalize_equiv: "cfg_equiv r12 a b \<Longrightarrow> normalize r12 a = normalize r12 b"
proof (induction rule: cfg_equiv.induct)
  case (in_dict v w pre k post)
  then show ?case by (simp only: normalize_dict) simp
next
  case (key_order kvs ws)
  then show ?case by (simp add: sort_by_key_unique)
qed simp_all

section \<open>Properties\<close>

text \<open>
  The pinned hash depends on what the configuration says only: equivalent configurations
  (key order at any depth, float formatting) have the same canonical hash, so a pinned leg
  whose file is reordered is not halted.
\<close>

theorem canonical_hash_of_equivalent:
  assumes "cfg_equiv (hs_round12 hs) a b"
  shows "canonical_config_hash hs a = canonical_config_hash hs b
    \<and> assert_running_hash hs a (pin_config_hash hs b) leg phase esc = (True, esc, [])"
  using normalize_equiv [OF assms]
  by (simp add: canonical_config_hash_def canonical_config_json_def pin_config_hash_def
      assert_running_hash_def Let_def)

definition demo_hasher :: hasher where
  "demo_hasher = \<lparr>hs_round12 = id, hs_dumps = (\<lambda>_. ''json''), hs_sha256 = id\<rparr>"

theorem canonical_hash_of_equivalent_witness:
  "canonical_config_hash demo_hasher (CDict [(''a'', CInt 1), (''b'', CInt 2)])
   = canonical_config_hash demo_hasher (CDict [(''b'', CInt 2), (''a'', CInt 1)])"
proof -
  have "cfg_equiv (hs_round12 demo_hasher) (CDict [(''a'', CInt 1), (''b'', CInt 2)]) (CDict [(''b'', CInt 2), (''a'', CInt 1)])"
    by (rule cfg_equiv.key_order) (simp_all add: add_mset_commute)
  from canonical_hash_of_equivalent [OF this] show ?thesis by blast
qed

text \<open>
  The lineage check is exact for what the refit runner writes: whatever genesis and
  refit entries it appended, of any legs interleaved, the chain of a leg verifies iff a
  genesis occurs at most as its first entry and its epochs strictly increase.
\<close>

theorem refit_lineage_verifies:
  "verify_chain leg (foldl (refit_step hs) [] ops) \<longleftrightarrow>
     (let mine = filter (\<lambda>op. op_leg op = leg) ops
      in sorted_wrt (<) (map op_epoch mine) \<and> list_all (\<lambda>op. \<not> is_genesis op) (tl mine))"
  using verify_run [of leg hs ops] by (simp add: ops_of_def in_order_def Let_def)

text \<open>
  C14: Out-of-band changes are detected: a running configuration is accepted exactly when its
  hash is the last leaf the refit runner recorded for the leg; otherwise the escalation
  engine blocks the leg's entries and one report names the recorded head.
\<close>

theorem out_of_band_change_detected:
  "let t = foldl (refit_step hs) [] ops; mine = filter (\<lambda>op. op_leg op = leg) ops;
       r = detect_out_of_band_change hs leg running t (Some esc)
   in (\<not> fst r \<longleftrightarrow> mine \<noteq> [] \<and> canonical_config_hash hs running = op_leaf hs (last mine))
      \<and> (\<not> fst r \<longrightarrow> r = (False, Some esc, []))
      \<and> (fst r \<longrightarrow> blocks_entries_for_strategy leg (the (fst (snd r))) \<and> length (snd (snd r)) = 1)"
  using latest_leaf_run [of leg hs ops]
  by (auto simp: detect_out_of_band_change_def ops_of_def Let_def halt_leg_def transition_def
      blocks_entries_for_strategy_def)

theorem out_of_band_change_detected_witness:
  "blocks_entries_for_strategy ''leg''
     (the (fst (snd (detect_out_of_band_change demo_hasher ''leg'' CNull [] (Some initial_snapshot)))))"
proof -
  have "fst (detect_out_of_band_change demo_hasher ''leg'' CNull [] (Some initial_snapshot))" by code_simp
  with out_of_band_change_detected [of demo_hasher "[]" "''leg''" CNull initial_snapshot]
  show ?thesis by (simp add: Let_def)
qed

text \<open>An integer and the float of the same value are different configurations to the hash.\<close>

lemma int_and_float_differ: "normalize r12 (CInt 2) \<noteq> normalize r12 (CFloat 2)"
  by simp

end
