(* ===== verification/Flatten_Protocol.thy ===== *)
theory Flatten_Protocol
  imports Models Governance_Store
begin

text \<open>
  The emergency flatten cascade, \<open>src/engine/flatten_protocol.py\<close>: cancel, await
  clearance, flatten, for the portfolio and for one leg. What the broker answers to each
  call is an argument (a record of answers, each possibly an exception); the calls made are
  recorded in the state in their order. A cascade that is under way while another is
  requested shows as the re-entrancy marks being set when the request arrives. Logging is
  not modelled, except that writing the final system event may raise.
\<close>

section \<open>State, broker answers and calls\<close>

datatype broker_call =
    Cancel_orders string
  | Await_cleared string
  | Force_cancel string
  | Flatten_position string string pyfloat
  | Close_all_positions

record flatten_state =
  fl_portfolio_flattening :: bool
  fl_leg_flattening :: "string set"
  fl_pending :: pending_store
  fl_calls :: "broker_call list"

text \<open>
  An answer \<open>Inl e\<close> is an exception. A clearance wait answers whether the orders cleared
  and how many remain (first wait, and the one after a forced cancel); a position flatten
  answers whether there was a result.
\<close>

record flatten_broker =
  fb_positions :: "string + position list"
  fb_cancel :: "string \<Rightarrow> string + nat"
  fb_await :: "string \<Rightarrow> string + bool \<times> nat"
  fb_force_cancel :: "string \<Rightarrow> string + nat"
  fb_await_again :: "string \<Rightarrow> string + bool \<times> nat"
  fb_flatten :: "string \<Rightarrow> string \<Rightarrow> pyfloat \<Rightarrow> string + bool"
  fb_close_all :: "string option"
  fb_log_event :: "string option"

record flatten_result =
  fr_executed :: bool
  fr_skipped :: bool
  fr_reason :: string
  fr_symbols_flattened :: "string list"
  fr_symbols_failed :: "string list"
  fr_position_count :: nat

definition partial_failure :: "flatten_result \<Rightarrow> bool" where
  "partial_failure r = (0 < length (fr_symbols_failed r))"

definition call :: "broker_call \<Rightarrow> flatten_state \<Rightarrow> flatten_state" where
  "call c st = st\<lparr>fl_calls := fl_calls st @ [c]\<rparr>"

definition is_leg_flattening :: "string \<Rightarrow> string \<Rightarrow> flatten_state \<Rightarrow> bool" where
  "is_leg_flattening strategy_id symbol st =
     (strategy_id @ '':'' @ str_upper symbol \<in> fl_leg_flattening st)"

section \<open>The portfolio cascade\<close>

text \<open>The three loops. An exception of one symbol is swallowed.\<close>

definition cancel_step :: "flatten_state \<Rightarrow> string \<Rightarrow> flatten_state" where
  "cancel_step st symbol = call (Cancel_orders symbol) st"

definition await_step :: "flatten_broker \<Rightarrow> flatten_state \<Rightarrow> string \<Rightarrow> flatten_state" where
  "await_step br st symbol =
     (let st1 = call (Await_cleared symbol) st
      in case fb_await br symbol of
           Inl e \<Rightarrow> st1
         | Inr (cleared, remaining) \<Rightarrow>
             if cleared then st1
             else
               let st2 = call (Force_cancel symbol) st1
               in (case fb_force_cancel br symbol of
                     Inl e \<Rightarrow> st2
                   | Inr forced \<Rightarrow> call (Await_cleared symbol) st2))"

definition flatten_step ::
  "flatten_broker \<Rightarrow> flatten_state \<times> string list \<times> string list \<Rightarrow> position
   \<Rightarrow> flatten_state \<times> string list \<times> string list" where
  "flatten_step br acc pos =
     (case acc of (st, flattened, failed) \<Rightarrow>
        let symbol = str_upper (pos_symbol pos); qty = pos_qty pos; sde = or_default (pos_side pos) ''flat''
        in if qty \<le> 0 then acc
           else
             let st1 = call (Flatten_position symbol sde qty) st
             in (case fb_flatten br symbol sde qty of
                   Inl e \<Rightarrow> (st1, flattened, failed @ [symbol])
                 | Inr found \<Rightarrow> (st1, (if found then flattened @ [symbol] else flattened), failed)))"

definition portfolio_symbols :: "position list \<Rightarrow> string list" where
  "portfolio_symbols ps = sort (remdups (map (\<lambda>p. str_upper (pos_symbol p)) ps))"

text \<open>The body of the \<open>try\<close> block; the flag is reset by the caller whatever happens here.\<close>

definition portfolio_cascade ::
  "flatten_broker \<Rightarrow> string \<Rightarrow> flatten_state \<Rightarrow> flatten_state \<times> (string + flatten_result)" where
  "portfolio_cascade br reason st =
     (case fb_positions br of
        Inl e \<Rightarrow> (st, Inl e)
      | Inr positions \<Rightarrow>
          let symbols = portfolio_symbols positions;
              st1 = foldl cancel_step st symbols;
              st2 = foldl (await_step br) st1 symbols;
              st3 = st2\<lparr>fl_pending := fst (clear_all (fl_pending st2))\<rparr>;
              acc = (if positions \<noteq> [] then foldl (flatten_step br) (st3, [], []) positions
                     else (call Close_all_positions st3, [], []));
              fault = (if positions = [] then fb_close_all br else None)
          in case fault of
               Some e \<Rightarrow> (fst acc, Inl e)
             | None \<Rightarrow>
                 (case fb_log_event br of
                    Some e \<Rightarrow> (fst acc, Inl e)
                  | None \<Rightarrow>
                      (fst acc,
                       Inr \<lparr>fr_executed = True, fr_skipped = False, fr_reason = reason,
                            fr_symbols_flattened = fst (snd acc), fr_symbols_failed = snd (snd acc),
                            fr_position_count = length positions\<rparr>)))"

definition execute_portfolio_flatten ::
  "flatten_broker \<Rightarrow> string \<Rightarrow> flatten_state \<Rightarrow> flatten_state \<times> (string + flatten_result)" where
  "execute_portfolio_flatten br reason st =
     (if fl_portfolio_flattening st
      then (st, Inr \<lparr>fr_executed = False, fr_skipped = True, fr_reason = ''portfolio_flatten_already_active'',
                    fr_symbols_flattened = [], fr_symbols_failed = [], fr_position_count = 0\<rparr>)
      else
        let r = portfolio_cascade br reason (st\<lparr>fl_portfolio_flattening := True\<rparr>)
        in ((fst r)\<lparr>fl_portfolio_flattening := False\<rparr>, snd r))"

section \<open>The leg cascade\<close>

text \<open>After the cancel: clearance with one forced retry.\<close>

definition leg_clearance ::
  "flatten_broker \<Rightarrow> string \<Rightarrow> flatten_state \<Rightarrow> flatten_state \<times> (string + bool \<times> nat)" where
  "leg_clearance br symbol st =
     (let st1 = call (Await_cleared (str_upper symbol)) st
      in case fb_await br (str_upper symbol) of
           Inl e \<Rightarrow> (st1, Inl e)
         | Inr (cleared, remaining) \<Rightarrow>
             if \<not> cleared \<and> 0 < remaining
             then
               let st2 = call (Force_cancel symbol) st1
               in (case fb_force_cancel br symbol of
                     Inl e \<Rightarrow> (st2, Inl e)
                   | Inr forced \<Rightarrow>
                       (call (Await_cleared (str_upper symbol)) st2, fb_await_again br (str_upper symbol)))
             else (st1, Inr (cleared, remaining)))"

definition leg_cascade ::
  "flatten_broker \<Rightarrow> string \<Rightarrow> string \<Rightarrow> string \<Rightarrow> pyfloat \<Rightarrow> flatten_state \<Rightarrow> flatten_state \<times> (string + bool)" where
  "leg_cascade br strategy_id symbol sde qty st =
     (let st1 = call (Cancel_orders symbol) st
      in case fb_cancel br symbol of
           Inl e \<Rightarrow> (st1, Inl e)
         | Inr cancelled \<Rightarrow>
             let st2 = st1\<lparr>fl_pending := fst (clear_prefix strategy_id symbol (fl_pending st1))\<rparr>;
                 c = leg_clearance br symbol st2
             in (case snd c of
                   Inl e \<Rightarrow> (fst c, Inl e)
                 | Inr (cleared, remaining) \<Rightarrow>
                     let finish = (\<lambda>s. (s, case fb_log_event br of Some e \<Rightarrow> Inl e | None \<Rightarrow> Inr cleared))
                     in if 0 < qty \<and> sde \<in> {''long'', ''short''}
                        then
                          let st3 = call (Flatten_position symbol sde qty) (fst c)
                          in (case fb_flatten br symbol sde qty of
                                Inl e \<Rightarrow> (st3, Inl e)
                              | Inr found \<Rightarrow> if found then finish st3 else (st3, Inr cleared))
                        else finish (fst c)))"

definition execute_leg_flatten ::
  "flatten_broker \<Rightarrow> string \<Rightarrow> string \<Rightarrow> string \<Rightarrow> pyfloat \<Rightarrow> flatten_state \<Rightarrow> flatten_state \<times> (string + bool)" where
  "execute_leg_flatten br strategy_id symbol sde qty st =
     (let leg_key = strategy_id @ '':'' @ str_upper symbol
      in if leg_key \<in> fl_leg_flattening st then (st, Inr False)
         else
           let r = leg_cascade br strategy_id symbol sde qty
                     (st\<lparr>fl_leg_flattening := insert leg_key (fl_leg_flattening st)\<rparr>)
           in ((fst r)\<lparr>fl_leg_flattening := fl_leg_flattening (fst r) - {leg_key}\<rparr>, snd r))"

section \<open>What the loops do\<close>

lemma call_frame [simp]:
  "fl_calls (call c st) = fl_calls st @ [c]"
  "fl_pending (call c st) = fl_pending st"
  "fl_portfolio_flattening (call c st) = fl_portfolio_flattening st"
  "fl_leg_flattening (call c st) = fl_leg_flattening st"
  by (simp_all add: call_def)

lemma cancel_loop:
  "fl_calls (foldl cancel_step st syms) = fl_calls st @ map Cancel_orders syms"
  "fl_pending (foldl cancel_step st syms) = fl_pending st"
  "fl_leg_flattening (foldl cancel_step st syms) = fl_leg_flattening st"
  by (induction syms arbitrary: st) (simp_all add: cancel_step_def)

text \<open>The calls of the clearance loop, one group per symbol.\<close>

definition await_calls :: "flatten_broker \<Rightarrow> string \<Rightarrow> broker_call list" where
  "await_calls br s =
     Await_cleared s # (case fb_await br s of
       Inl e \<Rightarrow> []
     | Inr (cleared, n) \<Rightarrow>
         if cleared then []
         else Force_cancel s # (case fb_force_cancel br s of Inl e \<Rightarrow> [] | Inr k \<Rightarrow> [Await_cleared s]))"

lemma await_step_frame:
  "fl_calls (await_step br st s) = fl_calls st @ await_calls br s"
  "fl_pending (await_step br st s) = fl_pending st"
  "fl_leg_flattening (await_step br st s) = fl_leg_flattening st"
  by (auto simp: await_step_def await_calls_def Let_def split: sum.splits)

lemma await_loop:
  "fl_calls (foldl (await_step br) st syms) = fl_calls st @ concat (map (await_calls br) syms)"
  "fl_pending (foldl (await_step br) st syms) = fl_pending st"
  "fl_leg_flattening (foldl (await_step br) st syms) = fl_leg_flattening st"
  by (induction syms arbitrary: st) (simp_all add: await_step_frame)

definition open_positions :: "position list \<Rightarrow> position list" where
  "open_positions ps = filter (\<lambda>p. 0 < pos_qty p) ps"

definition flatten_call_of :: "position \<Rightarrow> broker_call" where
  "flatten_call_of p =
     Flatten_position (str_upper (pos_symbol p)) (or_default (pos_side p) ''flat'') (pos_qty p)"

definition flatten_answer :: "flatten_broker \<Rightarrow> position \<Rightarrow> string + bool" where
  "flatten_answer br p =
     fb_flatten br (str_upper (pos_symbol p)) (or_default (pos_side p) ''flat'') (pos_qty p)"

definition symbols_with :: "flatten_broker \<Rightarrow> (string + bool \<Rightarrow> bool) \<Rightarrow> position list \<Rightarrow> string list" where
  "symbols_with br good ps =
     map (\<lambda>p. str_upper (pos_symbol p)) (filter (\<lambda>p. good (flatten_answer br p)) (open_positions ps))"

lemma flatten_step_frame:
  "flatten_step br acc p =
     (if 0 < pos_qty p
      then (call (flatten_call_of p) (fst acc),
            fst (snd acc) @ (if flatten_answer br p = Inr True then [str_upper (pos_symbol p)] else []),
            snd (snd acc) @ (if isl (flatten_answer br p) then [str_upper (pos_symbol p)] else []))
      else acc)"
  by (auto simp: flatten_step_def flatten_call_of_def flatten_answer_def Let_def
      split: prod.splits sum.splits)

lemma flatten_step_fields:
  "fl_calls (fst (flatten_step br acc p)) = fl_calls (fst acc) @ (if 0 < pos_qty p then [flatten_call_of p] else [])"
  "fl_pending (fst (flatten_step br acc p)) = fl_pending (fst acc)"
  "fl_leg_flattening (fst (flatten_step br acc p)) = fl_leg_flattening (fst acc)"
  "fst (snd (flatten_step br acc p)) = fst (snd acc) @ symbols_with br (\<lambda>a. a = Inr True) [p]"
  "snd (snd (flatten_step br acc p)) = snd (snd acc) @ symbols_with br isl [p]"
  by (auto simp: flatten_step_frame symbols_with_def open_positions_def)

lemma symbols_with_Cons: "symbols_with br good (p # ps) = symbols_with br good [p] @ symbols_with br good ps"
  by (simp add: symbols_with_def open_positions_def)

lemma flatten_loop_all:
  "fl_calls (fst (foldl (flatten_step br) acc ps)) = fl_calls (fst acc) @ map flatten_call_of (open_positions ps)
   \<and> fl_pending (fst (foldl (flatten_step br) acc ps)) = fl_pending (fst acc)
   \<and> fl_leg_flattening (fst (foldl (flatten_step br) acc ps)) = fl_leg_flattening (fst acc)
   \<and> fst (snd (foldl (flatten_step br) acc ps)) = fst (snd acc) @ symbols_with br (\<lambda>a. a = Inr True) ps
   \<and> snd (snd (foldl (flatten_step br) acc ps)) = snd (snd acc) @ symbols_with br isl ps"
proof (induction ps arbitrary: acc)
  case Nil
  show ?case by (simp add: open_positions_def symbols_with_def)
next
  case (Cons p ps)
  show ?case
    using Cons.IH [of "flatten_step br acc p"]
    by (simp add: flatten_step_fields symbols_with_Cons [of br _ p ps])
       (simp add: open_positions_def)
qed

lemmas flatten_loop =
  flatten_loop_all [THEN conjunct1]
  flatten_loop_all [THEN conjunct2, THEN conjunct1]
  flatten_loop_all [THEN conjunct2, THEN conjunct2, THEN conjunct1]
  flatten_loop_all [THEN conjunct2, THEN conjunct2, THEN conjunct2, THEN conjunct1]
  flatten_loop_all [THEN conjunct2, THEN conjunct2, THEN conjunct2, THEN conjunct2]

lemma clear_all_Nil [simp]: "fst (clear_all t) = []"
  by (simp add: clear_all_def sql_delete_def)

lemma portfolio_cascade_legs [simp]:
  "fl_leg_flattening (fst (portfolio_cascade br reason st)) = fl_leg_flattening st"
  by (auto simp: portfolio_cascade_def Let_def cancel_loop await_loop flatten_loop
      split: sum.splits option.splits)

text \<open>The calls of a portfolio flatten in order, when the positions are known.\<close>

lemma portfolio_calls:
  assumes "fb_positions br = Inr ps"
  shows "fl_calls (fst (portfolio_cascade br reason st)) =
      fl_calls st @ map Cancel_orders (portfolio_symbols ps)
      @ concat (map (await_calls br) (portfolio_symbols ps))
      @ (if ps = [] then [Close_all_positions] else map flatten_call_of (open_positions ps))"
    and "fl_pending (fst (portfolio_cascade br reason st)) = []"
  using assms
  by (auto simp: portfolio_cascade_def Let_def cancel_loop await_loop flatten_loop portfolio_symbols_def
      split: option.splits)

lemma leg_cascade_legs [simp]:
  "fl_leg_flattening (fst (leg_cascade br sid symbol sde qty st)) = fl_leg_flattening st"
proof -
  have "fl_leg_flattening (fst (leg_clearance br symbol s)) = fl_leg_flattening s" for s
    by (auto simp: leg_clearance_def Let_def split: sum.splits)
  then show ?thesis by (auto simp: leg_cascade_def Let_def split: sum.splits)
qed

section \<open>Properties\<close>

definition quiet_broker :: "position list \<Rightarrow> flatten_broker" where
  "quiet_broker ps =
     \<lparr>fb_positions = Inr ps, fb_cancel = (\<lambda>_. Inr 0), fb_await = (\<lambda>_. Inr (True, 0)),
      fb_force_cancel = (\<lambda>_. Inr 0), fb_await_again = (\<lambda>_. Inr (True, 0)),
      fb_flatten = (\<lambda>s _ _. if s = ''QQQ'' then Inl ''timeout'' else Inr True),
      fb_close_all = None, fb_log_event = None\<rparr>"

definition demo_position :: "string \<Rightarrow> position" where
  "demo_position s =
     \<lparr>pos_symbol = s, pos_qty = 5, pos_side = ''long'', pos_avg_entry_price = 100, pos_unrealized_pl = 0\<rparr>"

definition idle_state :: flatten_state where
  "idle_state = \<lparr>fl_portfolio_flattening = False, fl_leg_flattening = {}, fl_pending = [], fl_calls = []\<rparr>"

text \<open>
  C9: One symbol's failure never leaves another position open: whatever the broker answers
  to cancels, clearance waits and flattens, once the positions are read every position with
  a quantity is sent to be flattened, in order and once, after the orders of every held
  symbol were cancelled; the pending registry is emptied; and unless the final event cannot
  be written the result lists exactly the symbols that failed.
\<close>

theorem portfolio_flatten_attempts_all:
  assumes "fb_positions br = Inr ps" and "ps \<noteq> []" and "\<not> fl_portfolio_flattening st"
  shows "let r = execute_portfolio_flatten br reason st
         in fl_calls (fst r) = fl_calls st @ map Cancel_orders (portfolio_symbols ps)
              @ concat (map (await_calls br) (portfolio_symbols ps))
              @ map flatten_call_of (open_positions ps)
            \<and> fl_pending (fst r) = []
            \<and> (fb_log_event br = None \<longrightarrow> (\<exists>fr. snd r = Inr fr
                 \<and> fr_symbols_failed fr = symbols_with br isl ps
                 \<and> fr_symbols_flattened fr = symbols_with br (\<lambda>a. a = Inr True) ps))"
proof -
  have "fb_log_event br = None \<Longrightarrow> \<exists>fr. snd (portfolio_cascade br reason s) = Inr fr
      \<and> fr_symbols_failed fr = symbols_with br isl ps
      \<and> fr_symbols_flattened fr = symbols_with br (\<lambda>a. a = Inr True) ps" for s
    using assms(1,2) by (simp add: portfolio_cascade_def Let_def flatten_loop)
  with assms portfolio_calls [OF assms(1)] show ?thesis
    by (simp add: execute_portfolio_flatten_def Let_def)
qed

theorem portfolio_flatten_attempts_all_witness:
  "fl_pending (fst (execute_portfolio_flatten
     (quiet_broker [demo_position ''QQQ'', demo_position ''SPY'']) ''kill'' idle_state)) = []"
proof -
  let ?ps = "[demo_position ''QQQ'', demo_position ''SPY'']"
  have "fb_positions (quiet_broker ?ps) = Inr ?ps" "?ps \<noteq> []" "\<not> fl_portfolio_flattening idle_state"
    by (simp_all add: quiet_broker_def idle_state_def)
  from portfolio_flatten_attempts_all [OF this, of "''kill''"] show ?thesis by (simp add: Let_def)
qed

text \<open>
  The re-entrancy marks never stick: after a portfolio flatten the flag is down, after a
  leg flatten the set of legs is as before, whatever raised; and a request that finds the
  mark set makes no broker call and changes nothing.
\<close>

theorem flatten_marks_released:
  "(\<not> fl_portfolio_flattening st \<longrightarrow>
      \<not> fl_portfolio_flattening (fst (execute_portfolio_flatten br reason st)))
   \<and> (fl_portfolio_flattening st \<longrightarrow> fst (execute_portfolio_flatten br reason st) = st)
   \<and> fl_leg_flattening (fst (execute_portfolio_flatten br reason st)) = fl_leg_flattening st
   \<and> fl_leg_flattening (fst (execute_leg_flatten br sid symbol sde qty st)) = fl_leg_flattening st
   \<and> (is_leg_flattening sid symbol st \<longrightarrow> execute_leg_flatten br sid symbol sde qty st = (st, Inr False))"
  by (auto simp: execute_portfolio_flatten_def execute_leg_flatten_def is_leg_flattening_def Let_def)

theorem flatten_marks_released_witness:
  "fst (execute_portfolio_flatten (quiet_broker []) ''kill''
     (idle_state\<lparr>fl_portfolio_flattening := True\<rparr>)) = idle_state\<lparr>fl_portfolio_flattening := True\<rparr>"
  using flatten_marks_released [of "idle_state\<lparr>fl_portfolio_flattening := True\<rparr>" "quiet_broker []"]
  by simp

text \<open>
  Only held symbols are cancelled: a working order on a symbol without a position stays at
  the broker, while the registry that tracked it is emptied.
\<close>

lemma unheld_order_survives_flatten:
  "let st = idle_state\<lparr>fl_pending := [demo_pending ''leg:IWM:buy'']\<rparr>;
       r = execute_portfolio_flatten (quiet_broker [demo_position ''SPY'']) ''kill'' st
   in fl_pending (fst r) = [] \<and> Cancel_orders ''IWM'' \<notin> set (fl_calls (fst r))
      \<and> Force_cancel ''IWM'' \<notin> set (fl_calls (fst r))"
proof -
  have "str_upper ''SPY'' = ''SPY''" by code_simp
  then have s: "portfolio_symbols [demo_position ''SPY''] = [''SPY'']"
    by (simp add: portfolio_symbols_def demo_position_def)
  have p: "fb_positions (quiet_broker [demo_position ''SPY'']) = Inr [demo_position ''SPY'']"
    by (simp add: quiet_broker_def)
  show ?thesis
    using portfolio_calls [OF p, of "''kill''"]
    by (simp add: execute_portfolio_flatten_def Let_def idle_state_def s await_calls_def
        quiet_broker_def flatten_call_of_def open_positions_def)
qed

end
