(* ===== verification/Walk_Forward.thy ===== *)
theory Walk_Forward
  imports Prelude
begin

text \<open>
  Research hygiene: the purged and embargoed walk-forward splits
  (\<open>src/research/psd/purged_wf.py\<close>), the append-only trial ledger
  (\<open>src/research/psd/trial_ledger.py\<close>, \<open>src/persistence/trial_ledger_store.py\<close>), and the
  shared bar-staleness measure (\<open>src/engine/bar_freshness.py\<close>). Index arrays are lists of
  integers (bar indices stay far below the 64-bit bound of the arrays). The split generator
  is a loop that need not end, so it is a partial function with the value \<open>None\<close> when it
  does not.
\<close>

section \<open>The embargo\<close>

definition LOOKBACK_KEYS :: "string list" where
  "LOOKBACK_KEYS =
     [''signal_lookback'', ''sma_period_long'', ''sma_period_short'', ''sma_period'',
      ''lookback_period'', ''vwap_period'', ''slow_ema_period'', ''fast_ema_period'']"

definition derive_embargo :: "(string, int option) dict \<Rightarrow> string + int" where
  "derive_embargo config =
     (let max_bars = (case map_of config ''max_bars_in_trade'' of Some (Some n) \<Rightarrow> n | _ \<Rightarrow> 0);
          lookback = foldl (\<lambda>acc k. case map_of config k of Some (Some n) \<Rightarrow> max acc n | _ \<Rightarrow> acc)
                       0 LOOKBACK_KEYS;
          e = max max_bars lookback
      in if e \<le> 0 then Inl ''derive_embargo: no horizon'' else Inr e)"

section \<open>Purge and embargo\<close>

type_synonym split = "int list \<times> int list"

definition purge_embargo_train :: "int list \<Rightarrow> int \<Rightarrow> int \<Rightarrow> int \<Rightarrow> int list" where
  "purge_embargo_train train_idx test_start test_end e =
     filter (\<lambda>t. let purged = (test_start \<le> t + e \<and> t < test_end);
                     embargoed = (test_end \<le> t \<and> t < test_end + e)
                 in \<not> (purged \<or> embargoed)) train_idx"

definition mask_split :: "int \<Rightarrow> split \<Rightarrow> string + split" where
  "mask_split e sp =
     (case sp of (train, test) \<Rightarrow>
        if test = [] then Inr (train, test)
        else
          let ts = Min (set test); te = Max (set test) + 1
          in if test \<noteq> [ts .. te - 1] then Inl ''test_idx must be a contiguous block''
             else Inr (purge_embargo_train train ts te e, test))"

fun purge_embargo_splits :: "split list \<Rightarrow> int \<Rightarrow> string + split list" where
  "purge_embargo_splits [] e = Inr []"
| "purge_embargo_splits (sp # sps) e =
     (case mask_split e sp of
        Inl err \<Rightarrow> Inl err
      | Inr m \<Rightarrow> (case purge_embargo_splits sps e of Inl err \<Rightarrow> Inl err | Inr ms \<Rightarrow> Inr (m # ms)))"

section \<open>The split generator\<close>

partial_function (option) quarterly_loop ::
  "int \<Rightarrow> int \<Rightarrow> int option \<Rightarrow> int \<Rightarrow> split list \<Rightarrow> split list option" where
  "quarterly_loop n_bars test_block n_splits start splits =
     (if start + test_block \<le> n_bars
      then
        let splits' = splits @ [([0 .. start - 1], [start .. start + test_block - 1])]
        in if (case n_splits of None \<Rightarrow> False | Some n \<Rightarrow> n \<le> int (length splits')) then Some splits'
           else quarterly_loop n_bars test_block n_splits (start + test_block) splits'
      else Some splits)"

declare quarterly_loop.simps [code]

definition quarterly_splits :: "int \<Rightarrow> int \<Rightarrow> int option \<Rightarrow> int \<Rightarrow> split list option" where
  "quarterly_splits n_bars test_block n_splits min_train =
     quarterly_loop n_bars test_block n_splits min_train []"

text \<open>The specification: the \<open>i\<close>-th split.\<close>

definition wf_split :: "int \<Rightarrow> int \<Rightarrow> nat \<Rightarrow> split" where
  "wf_split test_block min_train i =
     (let s = min_train + int i * test_block in ([0 .. s - 1], [s .. s + test_block - 1]))"

lemma quarterly_loop_spec:
  assumes "0 < tb"
  shows "\<exists>k. quarterly_loop n tb None (m + int j * tb) (map (wf_split tb m) [0..<j])
      = Some (map (wf_split tb m) [0..<k]) \<and> j \<le> k \<and> n < m + (int k + 1) * tb
    \<and> (k = j \<or> m + int k * tb \<le> n)"
proof (induction "nat (n - (m + int j * tb))" arbitrary: j rule: less_induct)
  case less
  show ?case
  proof (cases "m + int j * tb + tb \<le> n")
    case True
    have next_start: "m + int j * tb + tb = m + int (Suc j) * tb" by (simp add: algebra_simps)
    have next_splits: "map (wf_split tb m) [0..<j] @ [([0 .. m + int j * tb - 1],
        [m + int j * tb .. m + int j * tb + tb - 1])] = map (wf_split tb m) [0..<Suc j]"
      by (simp add: wf_split_def Let_def)
    have "nat (n - (m + int (Suc j) * tb)) < nat (n - (m + int j * tb))"
      using True assms by (simp add: algebra_simps)
    from less [OF this] obtain k where k: "quarterly_loop n tb None (m + int (Suc j) * tb)
        (map (wf_split tb m) [0..<Suc j]) = Some (map (wf_split tb m) [0..<k])"
      "Suc j \<le> k" "n < m + (int k + 1) * tb" "k = Suc j \<or> m + int k * tb \<le> n" by blast
    have "quarterly_loop n tb None (m + int j * tb) (map (wf_split tb m) [0..<j])
        = quarterly_loop n tb None (m + int (Suc j) * tb) (map (wf_split tb m) [0..<Suc j])"
      by (subst quarterly_loop.simps) (simp only: True if_True option.case Let_def next_splits if_False,
          simp only: next_start)
    with k True next_start show ?thesis by (intro exI [of _ k]) auto
  next
    case False
    then show ?thesis
      by (intro exI [of _ j]) (subst quarterly_loop.simps, simp add: algebra_simps)
  qed
qed

lemma quarterly_splits_spec:
  assumes "0 < tb"
  obtains k where "quarterly_splits n tb None m = Some (map (wf_split tb m) [0..<k])"
    and "n < m + (int k + 1) * tb" and "k = 0 \<or> m + int k * tb \<le> n"
  using quarterly_loop_spec [OF assms, of n m 0] by (auto simp: quarterly_splits_def)

section \<open>Masked splits\<close>

lemma mask_split_block:
  assumes "0 < tb"
  shows "mask_split e (train, [s .. s + tb - 1])
    = Inr (purge_embargo_train train s (s + tb) e, [s .. s + tb - 1])"
proof -
  have "Min {s .. s + tb - 1} = s" "Max {s .. s + tb - 1} = s + tb - 1"
    using assms by (auto intro!: Min_eqI Max_eqI)
  with assms show ?thesis by (auto simp: mask_split_def Let_def)
qed

definition masked_wf :: "int \<Rightarrow> int \<Rightarrow> int \<Rightarrow> nat \<Rightarrow> split" where
  "masked_wf tb m e i =
     (purge_embargo_train (fst (wf_split tb m i)) (m + int i * tb) (m + int i * tb + tb) e,
      snd (wf_split tb m i))"

lemma purge_wf_splits:
  assumes "0 < tb"
  shows "purge_embargo_splits (map (wf_split tb m) is) e = Inr (map (masked_wf tb m e) is)"
proof (induction "is")
  case (Cons i "is")
  have "mask_split e (wf_split tb m i) = Inr (masked_wf tb m e i)"
    using mask_split_block [OF assms] by (simp add: wf_split_def masked_wf_def Let_def)
  with Cons show ?case by simp
qed simp

lemma purge_embargo_iff:
  assumes "0 \<le> e"
  shows "t \<in> set (purge_embargo_train train ts te e)
    \<longleftrightarrow> t \<in> set train \<and> (t + e < ts \<and> t < te \<or> te + e \<le> t)"
  using assms by (auto simp: purge_embargo_train_def Let_def)

lemma filter_upto_le: "filter (\<lambda>t. t \<le> b) [0 .. n] = [0 .. min b n]"
proof (cases "0 \<le> n")
  case True
  then show ?thesis
  proof (induction n rule: int_ge_induct)
    case base
    then show ?case by (auto simp: min_def)
  next
    case (step n)
    then show ?case by (auto simp: upto_rec2 min_def)
  qed
qed (auto simp: min_def)

lemma masked_wf_train:
  assumes "0 \<le> e" and "0 < tb"
  shows "fst (masked_wf tb m e i) = [0 .. m + int i * tb - 1 - e]"
proof -
  let ?s = "m + int i * tb"
  have "fst (masked_wf tb m e i) = filter (\<lambda>t. t \<le> ?s - 1 - e) [0 .. ?s - 1]"
    using assms
    by (auto simp: masked_wf_def wf_split_def purge_embargo_train_def Let_def intro!: filter_cong)
  also have "\<dots> = [0 .. min (?s - 1 - e) (?s - 1)]" by (rule filter_upto_le)
  finally show ?thesis using assms by (simp add: min_def)
qed

section \<open>The trial ledger\<close>

record trial_entry =
  te_leg_id :: string
  te_queue_id :: string
  te_grid_points :: int
  te_timeframes :: int
  te_objective_variants :: int

record trial_row =
  tl_entry :: trial_entry
  tl_n_trials :: int
  tl_created_at :: instant

text \<open>\<open>__post_init__\<close>: an entry that cannot be constructed is an error.\<close>

definition make_entry :: "string \<Rightarrow> string \<Rightarrow> int \<Rightarrow> int \<Rightarrow> int \<Rightarrow> string + trial_entry" where
  "make_entry leg q grid tfs variants =
     (if variants \<noteq> 1 then Inl ''objective_variants must be 1''
      else if grid \<le> 0 \<or> tfs \<le> 0 then Inl ''must be positive''
      else Inr \<lparr>te_leg_id = leg, te_queue_id = q, te_grid_points = grid, te_timeframes = tfs,
                te_objective_variants = variants\<rparr>)"

definition entry_trials :: "trial_entry \<Rightarrow> int" where
  "entry_trials p = te_grid_points p * te_timeframes p * te_objective_variants p"

definition persist_trial_rows :: "trial_entry list \<Rightarrow> instant \<Rightarrow> trial_row list \<Rightarrow> trial_row list" where
  "persist_trial_rows payloads now t =
     (if payloads = [] then t
      else t @ map (\<lambda>p. \<lparr>tl_entry = p, tl_n_trials = entry_trials p, tl_created_at = now\<rparr>) payloads)"

definition append_trial_sync :: "trial_entry \<Rightarrow> instant \<Rightarrow> trial_row list \<Rightarrow> trial_row list" where
  "append_trial_sync entry now t = persist_trial_rows [entry] now t"

definition rows_of :: "string \<Rightarrow> trial_row list \<Rightarrow> trial_row list" where
  "rows_of leg t = filter (\<lambda>r. te_leg_id (tl_entry r) = leg) t"

definition read_cumulative_n_trials :: "string \<Rightarrow> trial_row list \<Rightarrow> int" where
  "read_cumulative_n_trials leg t = sum_list (map tl_n_trials (rows_of leg t))"

definition read_entry_count :: "string \<Rightarrow> trial_row list \<Rightarrow> nat" where
  "read_entry_count leg t = length (rows_of leg t)"

definition cumulative_n_trials :: "string \<Rightarrow> trial_row list \<Rightarrow> int" where
  "cumulative_n_trials leg t = read_cumulative_n_trials leg t"

text \<open>A campaign: attempts to record a selection, each as its constructor arguments.\<close>

type_synonym selection = "string \<times> string \<times> int \<times> int \<times> int"

definition record_selection :: "instant \<Rightarrow> trial_row list \<Rightarrow> selection \<Rightarrow> trial_row list" where
  "record_selection now t a =
     (case a of (leg, q, grid, tfs, v) \<Rightarrow>
        (case make_entry leg q grid tfs v of Inl e \<Rightarrow> t | Inr en \<Rightarrow> append_trial_sync en now t))"

definition charged :: "string \<Rightarrow> selection \<Rightarrow> int" where
  "charged leg a =
     (case a of (l, q, grid, tfs, v) \<Rightarrow>
        if l = leg \<and> v = 1 \<and> 0 < grid \<and> 0 < tfs then grid * tfs else 0)"

lemma record_selection_cumulative:
  "cumulative_n_trials leg (record_selection now t a) = cumulative_n_trials leg t + charged leg a"
  by (cases a)
     (auto simp: record_selection_def make_entry_def charged_def append_trial_sync_def
       persist_trial_rows_def entry_trials_def cumulative_n_trials_def read_cumulative_n_trials_def
       rows_of_def)

lemma charged_nonneg: "0 \<le> charged leg a"
  by (auto simp: charged_def split: prod.splits)

lemma record_selection_run:
  "cumulative_n_trials leg (foldl (record_selection now) t as)
     = cumulative_n_trials leg t + sum_list (map (charged leg) as)"
  by (induction "as" arbitrary: t) (simp_all add: record_selection_cumulative)

section \<open>Bar staleness\<close>

definition bar_staleness_seconds :: "instant \<Rightarrow> pyfloat \<Rightarrow> instant \<Rightarrow> pyfloat" where
  "bar_staleness_seconds bar_open_ts bar_period_seconds now =
     max (total_seconds (now - bar_open_ts) - bar_period_seconds) 0"

definition stale_after_seconds :: "pyfloat \<Rightarrow> pyfloat \<Rightarrow> pyfloat" where
  "stale_after_seconds bar_period_seconds delivery_latency_seconds =
     bar_period_seconds + delivery_latency_seconds"

section \<open>Properties\<close>

text \<open>
  No label leaks: after purge and embargo, a training bar is kept iff its label window
  ends before the test block or it lies past the embargo; so no kept label window meets the
  test block, and nothing else is dropped.
\<close>

theorem purged_train_has_no_leakage:
  assumes "0 \<le> e" and "ts < te"
  shows "set (purge_embargo_train train ts te e) = {t \<in> set train. t + e < ts \<or> te + e \<le> t}
    \<and> (\<forall>t \<in> set (purge_embargo_train train ts te e). {t .. t + e} \<inter> {ts ..< te} = {})"
  using assms by (auto simp: purge_embargo_iff)

theorem purged_train_has_no_leakage_witness:
  "set (purge_embargo_train [0 .. 9] 5 7 2) = {t \<in> set [0 .. 9]. t + 2 < 5 \<or> 7 + 2 \<le> t}"
  using purged_train_has_no_leakage [of 2 5 7 "[0 .. 9]"] by simp

text \<open>
  C15: The generator ends and its splits are the anchored walk-forward: with a positive block
  size the loop returns, the test blocks are consecutive and cover the bars after the
  minimum training span up to a remainder shorter than a block, and masking never fails and
  trains the \<open>i\<close>-th split on exactly the bars that end the embargo before its test block.
\<close>

theorem walk_forward_splits:
  assumes "0 < tb" and "0 \<le> e"
  shows "\<exists>k ss. quarterly_splits n tb None m = Some ss \<and> length ss = k
    \<and> n < m + (int k + 1) * tb \<and> (k = 0 \<or> m + int k * tb \<le> n)
    \<and> (\<forall>i < k. ss ! i = ([0 .. m + int i * tb - 1], [m + int i * tb .. m + int i * tb + tb - 1]))
    \<and> purge_embargo_splits ss e = Inr (map (\<lambda>i. ([0 .. m + int i * tb - 1 - e],
          [m + int i * tb .. m + int i * tb + tb - 1])) [0..<k])"
proof -
  obtain k where k: "quarterly_splits n tb None m = Some (map (wf_split tb m) [0..<k])"
    "n < m + (int k + 1) * tb" "k = 0 \<or> m + int k * tb \<le> n"
    using quarterly_splits_spec [OF assms(1)] by blast
  have "masked_wf tb m e = (\<lambda>i. ([0 .. m + int i * tb - 1 - e],
      [m + int i * tb .. m + int i * tb + tb - 1]))"
    using masked_wf_train [OF assms(2,1), of m]
    by (simp add: fun_eq_iff prod_eq_iff) (simp add: masked_wf_def wf_split_def Let_def)
  with purge_wf_splits [OF assms(1), of m "[0..<k]" e]
  have "purge_embargo_splits (map (wf_split tb m) [0..<k]) e = Inr (map (\<lambda>i. ([0 .. m + int i * tb - 1 - e],
      [m + int i * tb .. m + int i * tb + tb - 1])) [0..<k])" by simp
  with k show ?thesis
    by (intro exI [of _ k] exI [of _ "map (wf_split tb m) [0..<k]"]) (simp add: wf_split_def Let_def)
qed

theorem walk_forward_splits_witness:
  "\<exists>k ss. quarterly_splits 10 3 None 2 = Some ss \<and> length ss = k \<and> 10 < 2 + (int k + 1) * 3"
  using walk_forward_splits [of 3 1 10 2] by auto

text \<open>
  Trials are charged once and for ever: the cumulative trial count of a leg is the sum
  of grid points times timeframes over its accepted selections, rejected entries (objective
  shopping, empty grids) charge nothing, and no later selection lowers it.
\<close>

theorem trials_charged_cumulatively:
  "cumulative_n_trials leg (foldl (record_selection now) [] attempts) = sum_list (map (charged leg) attempts)
   \<and> cumulative_n_trials leg t \<le> cumulative_n_trials leg (foldl (record_selection now) t further)"
proof -
  have "0 \<le> sum_list (map (charged leg) further)"
    by (intro sum_list_nonneg) (auto simp: charged_nonneg)
  then show ?thesis
    using record_selection_run [of leg now "[]" attempts] record_selection_run [of leg now t further]
    by (simp add: cumulative_n_trials_def read_cumulative_n_trials_def rows_of_def)
qed

text \<open>
  A feed is stale exactly when its next bar is overdue: the shared staleness of the
  latest bar exceeds the threshold iff the following bar's close plus the delivery latency
  has passed, for every bar period.
\<close>

theorem stale_iff_next_bar_overdue:
  assumes "0 \<le> period + latency"
  shows "stale_after_seconds period latency < bar_staleness_seconds bar_open period now
    \<longleftrightarrow> 2 * period + latency < total_seconds (now - bar_open)"
  using assms by (auto simp: stale_after_seconds_def bar_staleness_seconds_def)

theorem stale_iff_next_bar_overdue_witness:
  "\<not> stale_after_seconds 3600 600 < bar_staleness_seconds 0 3600 (seconds 7000)"
  using stale_iff_next_bar_overdue [of 3600 600 0 "seconds 7000"] by simp

text \<open>With a block size that is not positive, and no limit, the generator never returns.\<close>

lemma quarterly_loop_returns:
  assumes "quarterly_loop n tb ns start ss = Some r"
  shows "ns = None \<longrightarrow> tb \<le> 0 \<longrightarrow> n < start + tb"
  by (rule quarterly_loop.raw_induct [OF _ assms,
        where P="\<lambda>n tb ns start ss r. ns = None \<longrightarrow> tb \<le> 0 \<longrightarrow> n < start + tb"])
     (fastforce simp: Let_def split: if_splits)

lemma empty_block_diverges: "tb \<le> 0 \<Longrightarrow> m + tb \<le> n \<Longrightarrow> quarterly_splits n tb None m = None"
  using quarterly_loop_returns [of n tb None m "[]"]
  by (cases "quarterly_splits n tb None m") (auto simp: quarterly_splits_def)

end
