(* ===== verification/Rolling_Window.thy ===== *)
theory Rolling_Window
  imports Models
begin

text \<open>
  The live bar window, \<open>src/core/rolling_window.py\<close>: a bounded deque of closed bars beside
  five preallocated ring buffers, and the slot of the bar that is still forming. The lemmas
  show that the ring buffers always hold exactly the closed bars of the deque, in order
  (the indicators read the former, the signal path the latter), that a forming bar reaches
  neither, and what the window holds after a feed. The NumPy arrays are lists of the same
  length, \<open>time.monotonic()\<close> is an argument, and the journal lines a rejection writes are
  kept in \<open>rw_journal\<close> because the code limits their rate.
\<close>

section \<open>State\<close>

record bar =
  bar_timestamp :: instant
  bar_open :: pyfloat
  bar_high :: pyfloat
  bar_low :: pyfloat
  bar_close :: pyfloat
  bar_volume :: pyfloat
  bar_symbol :: string

record rejection =
  rej_at :: pyfloat
  rej_window :: string
  rej_rejected_ts :: instant
  rej_window_last_ts :: "instant option"
  rej_reason :: string

record rolling_window =
  rw_bars :: "bar list"
  rw_maxlen :: nat
  rw_last_ts :: "instant option"
  rw_count :: nat
  rw_head :: nat
  rw_closes :: "pyfloat list"
  rw_highs :: "pyfloat list"
  rw_lows :: "pyfloat list"
  rw_opens :: "pyfloat list"
  rw_volumes :: "pyfloat list"
  rw_applied_corporate_offset :: pyfloat
  rw_forming :: "bar option"
  rw_label :: string
  rw_last_reject_log_mono :: pyfloat
  rw_journal :: "rejection list"

datatype window_error = ValueError string

definition REJECT_LOG_MIN_INTERVAL_S :: pyfloat where
  "REJECT_LOG_MIN_INTERVAL_S = 30"

definition new_window :: "int \<Rightarrow> string \<Rightarrow> window_error + rolling_window" where
  "new_window maxlen label =
     (if maxlen \<le> 0 then Inl (ValueError ''maxlen must be positive'')
      else
        let zeros = replicate (nat maxlen) 0
        in Inr \<lparr>rw_bars = [], rw_maxlen = nat maxlen, rw_last_ts = None, rw_count = 0,
                rw_head = 0, rw_closes = zeros, rw_highs = zeros, rw_lows = zeros,
                rw_opens = zeros, rw_volumes = zeros, rw_applied_corporate_offset = 0,
                rw_forming = None, rw_label = label, rw_last_reject_log_mono = 0,
                rw_journal = []\<rparr>)"

section \<open>Operations\<close>

definition note_rejection :: "pyfloat \<Rightarrow> bar \<Rightarrow> string \<Rightarrow> rolling_window \<Rightarrow> rolling_window" where
  "note_rejection now b reason w =
     (if now - rw_last_reject_log_mono w < REJECT_LOG_MIN_INTERVAL_S then w
      else w\<lparr>rw_last_reject_log_mono := now,
             rw_journal := rw_journal w @
               [\<lparr>rej_at = now, rej_window = or_default (rw_label w) ''unlabelled'',
                 rej_rejected_ts = bar_timestamp b, rej_window_last_ts = rw_last_ts w,
                 rej_reason = reason\<rparr>]\<rparr>)"

definition write_bar_slot :: "bar \<Rightarrow> rolling_window \<Rightarrow> rolling_window" where
  "write_bar_slot b w =
     (let idx = rw_head w
      in w\<lparr>rw_opens := (rw_opens w)[idx := bar_open b],
           rw_highs := (rw_highs w)[idx := bar_high b],
           rw_lows := (rw_lows w)[idx := bar_low b],
           rw_closes := (rw_closes w)[idx := bar_close b],
           rw_volumes := (rw_volumes w)[idx := bar_volume b],
           rw_head := (idx + 1) mod rw_maxlen w,
           rw_count := min (rw_count w + 1) (rw_maxlen w)\<rparr>)"

text \<open>The three statements both ingest paths run on an accepted bar.\<close>

definition accept_bar :: "bar \<Rightarrow> rolling_window \<Rightarrow> rolling_window" where
  "accept_bar b w =
     (write_bar_slot b w)\<lparr>rw_bars := deque_append (rw_maxlen w) (rw_bars w) b,
                          rw_last_ts := Some (bar_timestamp b)\<rparr>"

definition append_bar :: "pyfloat \<Rightarrow> bar \<Rightarrow> rolling_window \<Rightarrow> rolling_window \<times> bool" where
  "append_bar now b w =
     (case rw_last_ts w of
        Some ts \<Rightarrow>
          if bar_timestamp b \<le> ts
          then (note_rejection now b
                  (if bar_timestamp b = ts then ''duplicate'' else ''stale_or_out_of_order'') w, False)
          else (accept_bar b w, True)
      | None \<Rightarrow> (accept_bar b w, True))"

text \<open>\<open>(head - 1) % maxlen\<close> on Python integers.\<close>

definition latest_idx :: "rolling_window \<Rightarrow> nat" where
  "latest_idx w = nat ((int (rw_head w) - 1) mod int (rw_maxlen w))"

definition rewrite_latest :: "bar \<Rightarrow> rolling_window \<Rightarrow> rolling_window" where
  "rewrite_latest b w =
     (if rw_count w = 0 then w
      else
        let idx = latest_idx w
        in w\<lparr>rw_opens := (rw_opens w)[idx := bar_open b],
             rw_highs := (rw_highs w)[idx := bar_high b],
             rw_lows := (rw_lows w)[idx := bar_low b],
             rw_closes := (rw_closes w)[idx := bar_close b],
             rw_volumes := (rw_volumes w)[idx := bar_volume b],
             rw_bars := (rw_bars w)[length (rw_bars w) - 1 := b],
             rw_last_ts := Some (bar_timestamp b)\<rparr>)"

definition upsert_bar :: "pyfloat \<Rightarrow> bar \<Rightarrow> rolling_window \<Rightarrow> rolling_window \<times> string" where
  "upsert_bar now b w =
     (if rw_count w = 0 then (accept_bar b w, ''appended'')
      else
        let latest = last (rw_bars w)
        in if bar_timestamp b = bar_timestamp latest then (rewrite_latest b w, ''updated'')
           else if bar_timestamp latest < bar_timestamp b
           then (let (w', ok) = append_bar now b w in (w', if ok then ''appended'' else ''ignored''))
           else (note_rejection now b ''out_of_order_before_latest'' w, ''ignored''))"

definition clear_window :: "rolling_window \<Rightarrow> rolling_window" where
  "clear_window w =
     w\<lparr>rw_bars := [], rw_last_ts := None, rw_count := 0, rw_head := 0, rw_forming := None\<rparr>"

definition shift_prices :: "pyfloat \<Rightarrow> bar \<Rightarrow> bar" where
  "shift_prices offset b =
     b\<lparr>bar_open := bar_open b + offset, bar_high := bar_high b + offset,
       bar_low := bar_low b + offset, bar_close := bar_close b + offset\<rparr>"

text \<open>\<open>buf[:active] += offset\<close>.\<close>

definition shift_prefix :: "nat \<Rightarrow> pyfloat \<Rightarrow> pyfloat list \<Rightarrow> pyfloat list" where
  "shift_prefix active offset buf = map (\<lambda>x. x + offset) (take active buf) @ drop active buf"

definition apply_corporate_action_offset ::
  "pyfloat \<Rightarrow> rolling_window \<Rightarrow> rolling_window \<times> bool" where
  "apply_corporate_action_offset offset w =
     (if offset \<le> 0 \<or> rw_count w = 0 \<or> 0 < rw_applied_corporate_offset w then (w, False)
      else
        let active = (if rw_count w < rw_maxlen w then rw_count w else rw_maxlen w);
            shift = (if rw_count w < rw_maxlen w then shift_prefix active offset
                     else map (\<lambda>x. x + offset))
        in (w\<lparr>rw_applied_corporate_offset := offset,
              rw_opens := shift (rw_opens w), rw_highs := shift (rw_highs w),
              rw_lows := shift (rw_lows w), rw_closes := shift (rw_closes w),
              rw_bars := map (shift_prices offset) (rw_bars w)\<rparr>, True))"

definition is_ready :: "nat \<Rightarrow> rolling_window \<Rightarrow> bool" where
  "is_ready min_bars w \<longleftrightarrow> min_bars \<le> rw_count w"

definition latest_bar :: "rolling_window \<Rightarrow> bar option" where
  "latest_bar w = (if rw_bars w = [] then None else Some (last (rw_bars w)))"

definition set_forming :: "bar \<Rightarrow> rolling_window \<Rightarrow> rolling_window \<times> string" where
  "set_forming b w =
     (if (case rw_last_ts w of None \<Rightarrow> False | Some ts \<Rightarrow> bar_timestamp b \<le> ts) then (w, ''ignored'')
      else if (case rw_forming w of None \<Rightarrow> False | Some f \<Rightarrow> bar_timestamp b < bar_timestamp f)
      then (w, ''ignored'')
      else (w\<lparr>rw_forming := Some b\<rparr>, ''set''))"

definition forming_bar :: "rolling_window \<Rightarrow> bar option" where
  "forming_bar w =
     (case rw_forming w of
        None \<Rightarrow> None
      | Some f \<Rightarrow>
          (case rw_last_ts w of
             Some ts \<Rightarrow> if bar_timestamp f \<le> ts then None else Some f
           | None \<Rightarrow> Some f))"

definition latest_including_forming :: "rolling_window \<Rightarrow> bar option" where
  "latest_including_forming w =
     (case forming_bar w of Some f \<Rightarrow> Some f | None \<Rightarrow> latest_bar w)"

definition chronological_bars :: "rolling_window \<Rightarrow> bar list" where
  "chronological_bars w = rw_bars w"

definition ordered :: "rolling_window \<Rightarrow> pyfloat list \<Rightarrow> pyfloat list" where
  "ordered w buf =
     (if rw_count w < rw_maxlen w then take (rw_count w) buf
      else drop (rw_head w) buf @ take (rw_head w) buf)"

definition closes_array :: "rolling_window \<Rightarrow> pyfloat list" where
  "closes_array w = ordered w (rw_closes w)"

definition highs_array :: "rolling_window \<Rightarrow> pyfloat list" where
  "highs_array w = ordered w (rw_highs w)"

definition lows_array :: "rolling_window \<Rightarrow> pyfloat list" where
  "lows_array w = ordered w (rw_lows w)"

definition opens_array :: "rolling_window \<Rightarrow> pyfloat list" where
  "opens_array w = ordered w (rw_opens w)"

definition volumes_array :: "rolling_window \<Rightarrow> pyfloat list" where
  "volumes_array w = ordered w (rw_volumes w)"

text \<open>
  \<open>full[-period:]\<close>: the last \<open>period\<close> elements, and by Python's slicing the whole array for
  \<open>-0\<close> and a proper suffix for a negative period.
\<close>

definition tail_closes :: "int \<Rightarrow> rolling_window \<Rightarrow> pyfloat list" where
  "tail_closes period w =
     (let full = closes_array w
      in if int (length full) \<le> period then full
         else if 0 < period then drop (length full - nat period) full
         else drop (nat (- period)) full)"

datatype window_op =
    Append pyfloat bar | Upsert pyfloat bar | SetForming bar | Clear | Offset pyfloat

fun window_step :: "rolling_window \<Rightarrow> window_op \<Rightarrow> rolling_window" where
  "window_step w (Append now b) = fst (append_bar now b w)"
| "window_step w (Upsert now b) = fst (upsert_bar now b w)"
| "window_step w (SetForming b) = fst (set_forming b w)"
| "window_step w Clear = clear_window w"
| "window_step w (Offset d) = fst (apply_corporate_action_offset d w)"

section \<open>One ring buffer\<close>

text \<open>The content of a ring of size \<open>n\<close> with write position \<open>h\<close> after \<open>c\<close> kept writes.\<close>

definition ring :: "nat \<Rightarrow> nat \<Rightarrow> nat \<Rightarrow> 'a list \<Rightarrow> 'a list" where
  "ring n h c buf = (if c < n then take c buf else drop h buf @ take h buf)"

definition ring_pos :: "nat \<Rightarrow> nat \<Rightarrow> nat \<Rightarrow> bool" where
  "ring_pos n h c \<longleftrightarrow> h < n \<and> c \<le> n \<and> (c < n \<longrightarrow> h = c)"

lemma ordered_ring: "ordered w buf = ring (rw_maxlen w) (rw_head w) (rw_count w) buf"
  by (simp add: ordered_def ring_def)

lemma ring_pos_write: "ring_pos n h c \<Longrightarrow> ring_pos n ((h + 1) mod n) (min (c + 1) n)"
  by (cases "h + 1 = n") (auto simp: ring_pos_def)

lemma length_ring: "ring_pos n h c \<Longrightarrow> length buf = n \<Longrightarrow> length (ring n h c buf) = c"
  by (auto simp: ring_def ring_pos_def)

text \<open>A write moves the ring exactly as an append moves a bounded deque.\<close>

lemma ring_write:
  assumes "ring_pos n h c" and "length buf = n"
  shows "ring n ((h + 1) mod n) (min (c + 1) n) (buf[h := x]) = deque_append n (ring n h c buf) x"
proof (cases "c < n")
  case True
  with assms have "h = c" by (simp add: ring_pos_def)
  moreover have "take (Suc c) (buf[c := x]) = take c buf @ [x]"
    using True assms by (simp add: take_Suc_conv_app_nth)
  ultimately show ?thesis
    using True assms
    by (cases "c + 1 = n") (auto simp: ring_def deque_append_def min_def)
next
  case False
  with assms have c: "c = n" and h: "h < n" by (auto simp: ring_pos_def)
  have last: "take (Suc h) (buf[h := x]) = take h buf @ [x]"
    using h assms by (simp add: take_Suc_conv_app_nth)
  have first: "drop (Suc 0) (drop h buf @ take h buf) = drop (Suc h) buf @ take h buf"
    using h assms by simp
  show ?thesis
  proof (cases "h + 1 = n")
    case True
    then show ?thesis
      using c assms last first by (auto simp: ring_def deque_append_def)
  next
    case False
    then show ?thesis
      using c h assms last first by (auto simp: ring_def deque_append_def)
  qed
qed

lemma ring_rewrite:
  assumes "ring_pos n h c" and "length buf = n" and "0 < c"
  shows "ring n h c (buf[nat ((int h - 1) mod int n) := x]) = (ring n h c buf)[c - 1 := x]"
proof (cases "h = 0")
  case True
  with assms have "c = n" "0 < n" by (auto simp: ring_pos_def)
  moreover from this have "nat ((int h - 1) mod int n) = n - 1"
    using True by (simp add: zmod_minus1 nat_diff_distrib)
  ultimately show ?thesis using True assms by (simp add: ring_def)
next
  case False
  with assms have h: "0 < h" "h < n" by (auto simp: ring_pos_def)
  then have idx: "nat ((int h - 1) mod int n) = h - 1" by simp
  show ?thesis
  proof (cases "c < n")
    case True
    with assms h show ?thesis unfolding idx by (simp add: ring_def ring_pos_def take_update_swap)
  next
    case False
    with assms have c: "c = n" by (simp add: ring_pos_def)
    with h have "\<not> c - 1 < n - h" "c - 1 - (n - h) = h - 1" by auto
    with assms h c show ?thesis
      unfolding idx by (simp add: ring_def take_update_swap list_update_append)
  qed
qed

lemma map_deque_append: "map f (deque_append n xs x) = deque_append n (map f xs) (f x)"
  by (cases n) (simp_all add: deque_append_def drop_map)

lemma length_deque_append: "0 < n \<Longrightarrow> length xs \<le> n \<Longrightarrow> length (deque_append n xs x) = min (length xs + 1) n"
  by (auto simp: deque_append_def)

lemma last_deque_append [simp]: "0 < n \<Longrightarrow> last (deque_append n xs x) = x"
  by (simp add: deque_append_def)

lemma deque_append_neq_Nil [simp]: "0 < n \<Longrightarrow> deque_append n xs x \<noteq> []"
  by (simp add: deque_append_def)

section \<open>The invariant\<close>

text \<open>
  What every reachable window satisfies: the five rings hold the fields of the deque's bars,
  the bars are strictly ordered in time and \<open>_last_ts\<close> is the time of the newest.
\<close>

definition holds :: "rolling_window \<Rightarrow> (bar \<Rightarrow> pyfloat) \<Rightarrow> pyfloat list \<Rightarrow> bool" where
  "holds w field buf \<longleftrightarrow> length buf = rw_maxlen w \<and> ordered w buf = map field (rw_bars w)"

definition rings_ok :: "rolling_window \<Rightarrow> bool" where
  "rings_ok w \<longleftrightarrow>
     holds w bar_open (rw_opens w) \<and> holds w bar_high (rw_highs w) \<and> holds w bar_low (rw_lows w) \<and>
     holds w bar_close (rw_closes w) \<and> holds w bar_volume (rw_volumes w)"

definition times_ok :: "rolling_window \<Rightarrow> bool" where
  "times_ok w \<longleftrightarrow>
     sorted_wrt (<) (map bar_timestamp (rw_bars w)) \<and>
     rw_last_ts w = (if rw_bars w = [] then None else Some (bar_timestamp (last (rw_bars w))))"

definition window_ok :: "rolling_window \<Rightarrow> bool" where
  "window_ok w \<longleftrightarrow>
     ring_pos (rw_maxlen w) (rw_head w) (rw_count w) \<and> rw_count w = length (rw_bars w) \<and>
     rings_ok w \<and> times_ok w"

lemma new_window_ok:
  assumes "new_window n label = Inr w"
  shows "window_ok w"
proof -
  have "0 < n" and "w = projr (new_window n label)"
    using assms by (auto simp: new_window_def split: if_splits)
  then show ?thesis
    by (simp add: new_window_def Let_def window_ok_def ring_pos_def rings_ok_def holds_def
        times_ok_def ordered_def)
qed

lemma note_rejection_fields [simp]:
  "rw_bars (note_rejection now b r w) = rw_bars w"
  "rw_maxlen (note_rejection now b r w) = rw_maxlen w"
  "rw_last_ts (note_rejection now b r w) = rw_last_ts w"
  "rw_count (note_rejection now b r w) = rw_count w"
  "rw_head (note_rejection now b r w) = rw_head w"
  "rw_opens (note_rejection now b r w) = rw_opens w"
  "rw_highs (note_rejection now b r w) = rw_highs w"
  "rw_lows (note_rejection now b r w) = rw_lows w"
  "rw_closes (note_rejection now b r w) = rw_closes w"
  "rw_volumes (note_rejection now b r w) = rw_volumes w"
  "rw_forming (note_rejection now b r w) = rw_forming w"
  "rw_applied_corporate_offset (note_rejection now b r w) = rw_applied_corporate_offset w"
  by (simp_all add: note_rejection_def)

lemma note_rejection_ok [simp]: "window_ok (note_rejection now b r w) = window_ok w"
  by (simp add: window_ok_def rings_ok_def holds_def times_ok_def ordered_def)

lemma accept_bar_fields [simp]:
  "rw_bars (accept_bar b w) = deque_append (rw_maxlen w) (rw_bars w) b"
  "rw_maxlen (accept_bar b w) = rw_maxlen w"
  "rw_last_ts (accept_bar b w) = Some (bar_timestamp b)"
  "rw_count (accept_bar b w) = min (rw_count w + 1) (rw_maxlen w)"
  "rw_head (accept_bar b w) = (rw_head w + 1) mod rw_maxlen w"
  "rw_opens (accept_bar b w) = (rw_opens w)[rw_head w := bar_open b]"
  "rw_highs (accept_bar b w) = (rw_highs w)[rw_head w := bar_high b]"
  "rw_lows (accept_bar b w) = (rw_lows w)[rw_head w := bar_low b]"
  "rw_closes (accept_bar b w) = (rw_closes w)[rw_head w := bar_close b]"
  "rw_volumes (accept_bar b w) = (rw_volumes w)[rw_head w := bar_volume b]"
  "rw_forming (accept_bar b w) = rw_forming w"
  by (simp_all add: accept_bar_def write_bar_slot_def Let_def)

text \<open>The bar follows everything in the window.\<close>

definition newer :: "bar \<Rightarrow> rolling_window \<Rightarrow> bool" where
  "newer b w \<longleftrightarrow> (case rw_last_ts w of None \<Rightarrow> True | Some ts \<Rightarrow> ts < bar_timestamp b)"

lemma newer_all:
  assumes "window_ok w" and "newer b w"
  shows "\<forall>x \<in> set (rw_bars w). bar_timestamp x < bar_timestamp b"
proof
  fix x assume x: "x \<in> set (rw_bars w)"
  then have ne: "rw_bars w \<noteq> []" by auto
  then obtain ys z where bars: "rw_bars w = ys @ [z]" by (cases "rw_bars w" rule: rev_cases) auto
  with assms have "sorted_wrt (<) (map bar_timestamp (ys @ [z]))" "bar_timestamp z < bar_timestamp b"
    by (auto simp: window_ok_def times_ok_def newer_def)
  with x bars show "bar_timestamp x < bar_timestamp b" by (auto simp: sorted_wrt_append)
qed

lemma sorted_deque_append:
  assumes "sorted_wrt (<) (map f xs)" and "\<forall>x \<in> set xs. f x < (f b :: int)"
  shows "sorted_wrt (<) (map f (deque_append n xs b))"
proof -
  have "sorted_wrt (<) (map f (xs @ [b]))" using assms by (auto simp: sorted_wrt_append)
  then show ?thesis unfolding deque_append_def drop_map [symmetric] by (rule sorted_wrt_drop)
qed

lemma accept_holds:
  assumes "ring_pos (rw_maxlen w) (rw_head w) (rw_count w)" and "holds w field buf"
  shows "holds (accept_bar b w) field (buf[rw_head w := field b])"
  using assms
  by (simp add: holds_def ordered_ring ring_write [unfolded Suc_eq_plus1 [symmetric]] map_deque_append
      del: upt_Suc)

lemma accept_bar_ok:
  assumes "window_ok w" and "newer b w"
  shows "window_ok (accept_bar b w)"
proof -
  have pos: "ring_pos (rw_maxlen w) (rw_head w) (rw_count w)" and n: "0 < rw_maxlen w"
    using assms by (auto simp: window_ok_def ring_pos_def)
  have "rings_ok (accept_bar b w)"
    using assms(1) accept_holds [OF pos] by (simp add: rings_ok_def window_ok_def)
  moreover have "times_ok (accept_bar b w)"
    using assms n newer_all [OF assms]
    by (simp add: times_ok_def window_ok_def sorted_deque_append)
  ultimately show ?thesis
    using assms n ring_pos_write [OF pos]
    by (simp add: window_ok_def length_deque_append ring_pos_def)
qed

lemma window_okD:
  assumes "window_ok w"
  shows "ring_pos (rw_maxlen w) (rw_head w) (rw_count w)"
    and "length (rw_bars w) = rw_count w"
    and "rings_ok w" and "times_ok w"
  using assms unfolding window_ok_def by auto

lemma append_bar_cases:
  "append_bar now b w =
     (if newer b w then (accept_bar b w, True)
      else (note_rejection now b
              (if rw_last_ts w = Some (bar_timestamp b) then ''duplicate''
               else ''stale_or_out_of_order'') w, False))"
  by (auto simp: append_bar_def newer_def split: option.split)

lemma append_bar_ok: "window_ok w \<Longrightarrow> window_ok (fst (append_bar now b w))"
  by (simp add: append_bar_cases accept_bar_ok)

lemma rewrite_holds:
  assumes "window_ok w" and "0 < rw_count w" and "holds w field buf"
    and "rw_bars w' = (rw_bars w)[length (rw_bars w) - 1 := b]"
    and "rw_maxlen w' = rw_maxlen w" and "rw_head w' = rw_head w" and "rw_count w' = rw_count w"
  shows "holds w' field (buf[latest_idx w := field b])"
proof -
  from assms have "ring (rw_maxlen w) (rw_head w) (rw_count w) (buf[latest_idx w := field b])
      = (ring (rw_maxlen w) (rw_head w) (rw_count w) buf)[rw_count w - 1 := field b]"
    unfolding latest_idx_def by (intro ring_rewrite) (simp_all add: window_okD holds_def)
  with assms show ?thesis
    by (simp add: holds_def ordered_ring map_update window_okD)
qed

lemma rewrite_latest_ok:
  assumes ok: "window_ok w" and "rw_count w \<noteq> 0"
    and ts: "bar_timestamp b = bar_timestamp (last (rw_bars w))"
  shows "window_ok (rewrite_latest b w)"
proof -
  let ?w = "rewrite_latest b w"
  from assms have ne: "rw_bars w \<noteq> []" by (auto simp: window_ok_def)
  have "map bar_timestamp ((rw_bars w)[length (rw_bars w) - 1 := b]) = map bar_timestamp (rw_bars w)"
    unfolding map_update ts using ne by (simp add: last_conv_nth list_update_same_conv)
  then have "times_ok ?w"
    using assms ne by (simp add: times_ok_def window_ok_def rewrite_latest_def Let_def)
      (simp add: last_conv_nth)
  moreover have "rings_ok ?w"
    using rewrite_holds [OF ok, of _ _ ?w b] assms
    by (simp add: rings_ok_def window_ok_def rewrite_latest_def Let_def)
  ultimately show ?thesis
    using window_okD [OF ok] by (auto simp: window_ok_def rewrite_latest_def Let_def)
qed

lemma upsert_bar_ok:
  assumes "window_ok w"
  shows "window_ok (fst (upsert_bar now b w))"
proof (cases "rw_count w = 0")
  case True
  with assms have "newer b w" by (simp add: newer_def window_ok_def times_ok_def)
  with True assms show ?thesis by (simp add: upsert_bar_def accept_bar_ok)
next
  case False
  with assms show ?thesis
    using append_bar_ok [OF assms, of now b]
    by (auto simp: upsert_bar_def Let_def rewrite_latest_ok split: prod.split)
qed

lemma clear_window_ok: "window_ok w \<Longrightarrow> window_ok (clear_window w)"
  by (auto simp: clear_window_def window_ok_def ring_pos_def rings_ok_def holds_def times_ok_def
      ordered_def)

lemma set_forming_keeps:
  "fst (set_forming b w) = w\<lparr>rw_forming := rw_forming (fst (set_forming b w))\<rparr>"
  by (simp add: set_forming_def)

lemma window_ok_forming [simp]: "window_ok (w\<lparr>rw_forming := f\<rparr>) = window_ok w"
  by (simp add: window_ok_def rings_ok_def holds_def times_ok_def ordered_def)

lemma set_forming_ok: "window_ok w \<Longrightarrow> window_ok (fst (set_forming b w))"
  by (subst set_forming_keeps) simp

lemma shift_prices_fields [simp]:
  "bar_timestamp (shift_prices d b) = bar_timestamp b"
  "bar_open (shift_prices d b) = bar_open b + d"
  "bar_high (shift_prices d b) = bar_high b + d"
  "bar_low (shift_prices d b) = bar_low b + d"
  "bar_close (shift_prices d b) = bar_close b + d"
  "bar_volume (shift_prices d b) = bar_volume b"
  by (simp_all add: shift_prices_def)

lemma shift_ring:
  assumes "ring_pos n h c" and "length buf = n"
  shows "ring n h c (if c < n then shift_prefix c d buf else map (\<lambda>x. x + d) buf)
    = map (\<lambda>x. x + d) (ring n h c buf)"
  using assms by (auto simp: ring_def ring_pos_def shift_prefix_def take_map drop_map min_def)

lemma shift_length:
  "length (if c < n then shift_prefix c d buf else map (\<lambda>x. x + d) buf) = length buf"
  by (auto simp: shift_prefix_def)

lemma shift_holds:
  assumes "window_ok w" and "holds w field buf" and "\<And>b. field (shift_prices d b) = field b + d"
    and "rw_bars w' = map (shift_prices d) (rw_bars w)"
    and "rw_maxlen w' = rw_maxlen w" and "rw_head w' = rw_head w" and "rw_count w' = rw_count w"
  shows "holds w' field
    (if rw_count w < rw_maxlen w then shift_prefix (rw_count w) d buf else map (\<lambda>x. x + d) buf)"
  using assms(2-) shift_ring [OF window_okD(1) [OF assms(1)], of buf d]
  by (simp add: holds_def ordered_ring shift_length comp_def del: if_split)

lemma offset_ok:
  assumes ok: "window_ok w"
  shows "window_ok (fst (apply_corporate_action_offset d w))"
proof (cases "d \<le> 0 \<or> rw_count w = 0 \<or> 0 < rw_applied_corporate_offset w")
  case True
  with ok show ?thesis by (simp add: apply_corporate_action_offset_def)
next
  case False
  let ?w = "fst (apply_corporate_action_offset d w)"
  let ?shift = "\<lambda>buf. if rw_count w < rw_maxlen w then shift_prefix (rw_count w) d buf
    else map (\<lambda>x. x + d) buf"
  have fields: "rw_bars ?w = map (shift_prices d) (rw_bars w)" "rw_maxlen ?w = rw_maxlen w"
      "rw_head ?w = rw_head w" "rw_count ?w = rw_count w" "rw_last_ts ?w = rw_last_ts w"
      "rw_opens ?w = ?shift (rw_opens w)" "rw_highs ?w = ?shift (rw_highs w)"
      "rw_lows ?w = ?shift (rw_lows w)" "rw_closes ?w = ?shift (rw_closes w)"
      "rw_volumes ?w = rw_volumes w"
    using False by (simp_all add: apply_corporate_action_offset_def Let_def)
  note sh = shift_holds [OF ok, where w' = ?w and d = d, OF _ _ fields(1-4)]
  have "holds ?w bar_volume (rw_volumes w)"
    using window_okD(3) [OF ok] fields by (simp add: rings_ok_def holds_def ordered_ring comp_def)
  then have "rings_ok ?w"
    using window_okD(3) [OF ok] unfolding rings_ok_def fields by (intro conjI sh) auto
  moreover have "times_ok ?w"
    using window_okD(4) [OF ok] fields by (simp add: times_ok_def comp_def last_map)
  ultimately show ?thesis using window_okD [OF ok] fields by (simp add: window_ok_def)
qed

interpretation window: invariant_machine window_step window_ok
proof
  fix w op assume "window_ok w"
  then show "window_ok (window_step w op)"
    by (cases op) (simp_all add: append_bar_ok upsert_bar_ok set_forming_ok clear_window_ok offset_ok)
qed

lemma window_run_ok: "new_window n label = Inr w \<Longrightarrow> window_ok (foldl window_step w ops)"
  by (intro window.inv_run new_window_ok)

lemma maxlen_step [simp]: "rw_maxlen (window_step w op) = rw_maxlen w"
  by (cases op)
    (simp_all add: append_bar_cases upsert_bar_def rewrite_latest_def set_forming_def
      clear_window_def apply_corporate_action_offset_def Let_def split: prod.split)

lemma maxlen_run [simp]: "rw_maxlen (foldl window_step w ops) = rw_maxlen w"
  by (induction ops arbitrary: w) simp_all

lemma new_window_maxlen: "new_window n label = Inr w \<Longrightarrow> rw_maxlen w = nat n"
  by (auto simp: new_window_def Let_def split: if_splits)

text \<open>
  C16: Whatever sequence of appends, revisions, forming-bar updates, clears and corporate
  offsets a window sees, the arrays handed to the indicators are exactly the columns of the
  closed bars in the deque, in order; the bars are strictly increasing in time, at most
  \<open>maxlen\<close> of them, and \<open>len\<close> counts them.
\<close>

theorem ring_buffers_hold_closed_bars:
  assumes "new_window n label = Inr w0" and w_def: "w = foldl window_step w0 ops"
  shows "closes_array w = map bar_close (chronological_bars w)
    \<and> highs_array w = map bar_high (chronological_bars w)
    \<and> lows_array w = map bar_low (chronological_bars w)
    \<and> opens_array w = map bar_open (chronological_bars w)
    \<and> volumes_array w = map bar_volume (chronological_bars w)
    \<and> sorted_wrt (<) (map bar_timestamp (chronological_bars w))
    \<and> length (chronological_bars w) = rw_count w \<and> rw_count w \<le> nat n"
proof -
  have ok: "window_ok w" unfolding w_def by (rule window_run_ok [OF assms(1)])
  have "rw_count w \<le> nat n"
    using window_okD(1) [OF ok] new_window_maxlen [OF assms(1)] by (simp add: ring_pos_def w_def)
  with window_okD [OF ok] show ?thesis
    by (simp add: rings_ok_def holds_def times_ok_def chronological_bars_def closes_array_def
        highs_array_def lows_array_def opens_array_def volumes_array_def)
qed

definition sample_bar :: "instant \<Rightarrow> pyfloat \<Rightarrow> bar" where
  "sample_bar t p =
     \<lparr>bar_timestamp = t, bar_open = p, bar_high = p + 1, bar_low = p - 1, bar_close = p,
      bar_volume = 10, bar_symbol = ''SPY''\<rparr>"

definition sample_window :: rolling_window where
  "sample_window = projr (new_window 2 ''SPY:15Min'')"

theorem ring_buffers_hold_closed_bars_witness:
  "closes_array (foldl window_step sample_window
     [Append 0 (sample_bar 1 100), Append 0 (sample_bar 2 101), Append 0 (sample_bar 3 102),
      Upsert 0 (sample_bar 3 103), Offset 5]) = [106, 108]"
proof -
  have "new_window 2 ''SPY:15Min'' = Inr sample_window"
    by (simp add: sample_window_def new_window_def Let_def)
  note cols = ring_buffers_hold_closed_bars [OF this refl, of
      "[Append 0 (sample_bar 1 100), Append 0 (sample_bar 2 101), Append 0 (sample_bar 3 102),
        Upsert 0 (sample_bar 3 103), Offset 5]"]
  show ?thesis
    using conjunct1 [OF cols] by (simp add: chronological_bars_def) code_simp
qed

section \<open>The forming bar\<close>

fun is_forming_op :: "window_op \<Rightarrow> bool" where
  "is_forming_op (SetForming b) = True"
| "is_forming_op op = False"

lemma forming_frame:
  "\<not> is_forming_op op \<Longrightarrow>
     (window_step (w\<lparr>rw_forming := f\<rparr>) op)\<lparr>rw_forming := None\<rparr>
       = (window_step w op)\<lparr>rw_forming := None\<rparr>"
  by (cases op)
    (simp_all add: append_bar_def accept_bar_def write_bar_slot_def note_rejection_def
      upsert_bar_def rewrite_latest_def latest_idx_def clear_window_def
      apply_corporate_action_offset_def Let_def split: option.split prod.split)

lemma set_forming_frame: "(fst (set_forming b w))\<lparr>rw_forming := None\<rparr> = w\<lparr>rw_forming := None\<rparr>"
  by (simp add: set_forming_def)

lemma forming_run:
  "w\<lparr>rw_forming := None\<rparr> = w'\<lparr>rw_forming := None\<rparr> \<Longrightarrow>
     (foldl window_step w ops)\<lparr>rw_forming := None\<rparr>
       = (foldl window_step w' (filter (\<lambda>op. \<not> is_forming_op op) ops))\<lparr>rw_forming := None\<rparr>"
proof (induction ops arbitrary: w w')
  case Nil
  then show ?case by simp
next
  case (Cons op ops)
  show ?case
  proof (cases "is_forming_op op")
    case True
    then obtain b where "op = SetForming b" by (cases op) auto
    with Cons show ?thesis by (simp add: set_forming_frame)
  next
    case False
    then have "(window_step w op)\<lparr>rw_forming := None\<rparr> = (window_step w' op)\<lparr>rw_forming := None\<rparr>"
      using Cons.prems forming_frame [OF False, where f = None] by metis
    with Cons.IH False show ?thesis by simp
  qed
qed

text \<open>
  A forming bar never reaches the signal path: deleting every forming-bar update from any
  sequence of operations changes neither the latest closed bar, nor the bars, nor any of the
  arrays the indicators read.
\<close>

theorem forming_bar_isolated:
  fixes ops :: "window_op list" and w0 :: rolling_window
  shows "(let w = foldl window_step w0 ops;
      c = foldl window_step w0 (filter (\<lambda>op. \<not> is_forming_op op) ops)
    in latest_bar w = latest_bar c \<and> chronological_bars w = chronological_bars c
      \<and> closes_array w = closes_array c \<and> highs_array w = highs_array c
      \<and> lows_array w = lows_array c \<and> opens_array w = opens_array c
      \<and> volumes_array w = volumes_array c \<and> tail_closes p w = tail_closes p c)"
proof -
  define w c where "w = foldl window_step w0 ops"
    and "c = foldl window_step w0 (filter (\<lambda>op. \<not> is_forming_op op) ops)"
  have eq: "w\<lparr>rw_forming := None\<rparr> = c\<lparr>rw_forming := None\<rparr>"
    unfolding w_def c_def by (rule forming_run) (rule refl)
  have frame: "latest_bar v = latest_bar (v\<lparr>rw_forming := None\<rparr>)"
      "chronological_bars v = chronological_bars (v\<lparr>rw_forming := None\<rparr>)"
      "closes_array v = closes_array (v\<lparr>rw_forming := None\<rparr>)"
      "highs_array v = highs_array (v\<lparr>rw_forming := None\<rparr>)"
      "lows_array v = lows_array (v\<lparr>rw_forming := None\<rparr>)"
      "opens_array v = opens_array (v\<lparr>rw_forming := None\<rparr>)"
      "volumes_array v = volumes_array (v\<lparr>rw_forming := None\<rparr>)" for v
    by (simp_all add: latest_bar_def chronological_bars_def closes_array_def highs_array_def
        lows_array_def opens_array_def volumes_array_def ordered_def)
  then have tail: "tail_closes p v = tail_closes p (v\<lparr>rw_forming := None\<rparr>)" for v
    by (simp add: tail_closes_def)
  show ?thesis
    unfolding w_def [symmetric] c_def [symmetric] Let_def
    by (simp only: frame [of w] frame [of c] tail [of w] tail [of c] eq)
qed

text \<open>The forming bar read back is strictly newer than every closed bar.\<close>

lemma forming_bar_is_newest:
  assumes "window_ok w" and "forming_bar w = Some f" and "b \<in> set (chronological_bars w)"
  shows "bar_timestamp b < bar_timestamp f"
proof -
  have "newer f w"
    using assms(2) by (auto simp: forming_bar_def newer_def split: option.splits if_splits)
  with newer_all [OF assms(1)] assms(3) show ?thesis by (simp add: chronological_bars_def)
qed

section \<open>What a feed leaves in the window\<close>

text \<open>
  The reference for \<open>append\<close>: of a feed keep the bars that are later than all kept before
  them, then the last \<open>maxlen\<close>.
\<close>

fun in_order :: "instant option \<Rightarrow> bar list \<Rightarrow> bar list" where
  "in_order ts [] = []"
| "in_order ts (b # bs) =
     (if (case ts of None \<Rightarrow> True | Some t \<Rightarrow> t < bar_timestamp b)
      then b # in_order (Some (bar_timestamp b)) bs else in_order ts bs)"

definition feed :: "(pyfloat \<times> bar) list \<Rightarrow> rolling_window \<Rightarrow> rolling_window" where
  "feed bs w = foldl (\<lambda>w (now, b). fst (append_bar now b w)) w bs"

lemma deque_append_drop:
  "0 < n \<Longrightarrow> deque_append n (drop (length xs - n) xs) x = drop (length (xs @ [x]) - n) (xs @ [x])"
  by (cases "length xs \<le> n") (auto simp: deque_append_def Suc_diff_le)

lemma feed_bars:
  assumes "0 < rw_maxlen w" and "rw_bars w = drop (length xs - rw_maxlen w) xs"
  shows "rw_bars (feed bs w)
    = drop (length (xs @ in_order (rw_last_ts w) (map snd bs)) - rw_maxlen w)
        (xs @ in_order (rw_last_ts w) (map snd bs))"
  using assms
proof (induction bs arbitrary: w xs)
  case Nil
  then show ?case by (simp add: feed_def)
next
  case (Cons p bs)
  obtain now b where p: "p = (now, b)" by (cases p)
  show ?case
  proof (cases "newer b w")
    case True
    let ?w = "accept_bar b w"
    have "feed (p # bs) w = feed bs ?w" by (simp add: feed_def p append_bar_cases True)
    moreover have "rw_bars ?w = drop (length (xs @ [b]) - rw_maxlen ?w) (xs @ [b])"
      using Cons.prems by (simp add: deque_append_drop del: drop_append)
    ultimately show ?thesis
      using Cons.IH [of ?w "xs @ [b]"] Cons.prems(1) True
      by (simp add: p newer_def split: option.splits)
  next
    case False
    let ?w = "note_rejection now b (if rw_last_ts w = Some (bar_timestamp b) then ''duplicate''
               else ''stale_or_out_of_order'') w"
    have "feed (p # bs) w = feed bs ?w" by (simp add: feed_def p append_bar_cases False)
    then show ?thesis
      using Cons.IH [of ?w xs] Cons.prems False
      by (auto simp: p newer_def split: option.splits)
  qed
qed

lemma feed_run: "feed bs w = foldl window_step w (map (\<lambda>(now, b). Append now b) bs)"
  by (simp add: feed_def foldl_map case_prod_unfold)

lemma tail_of_suffix:
  assumes "0 < p"
  shows "(let full = drop (length xs - n) xs
     in if int (length full) \<le> p then full else drop (length full - nat p) full)
   = drop (length xs - min (nat p) n) xs"
proof (cases "int (length (drop (length xs - n) xs)) \<le> p")
  case True
  then have "length xs - min (nat p) n = length xs - n" by auto
  with True show ?thesis by (simp add: Let_def)
next
  case False
  then have "length xs - min (nat p) n = length xs - nat p" using assms by auto
  moreover from False assms have
    "length (drop (length xs - n) xs) - nat p + (length xs - n) = length xs - nat p" by auto
  ultimately show ?thesis using False by (simp add: Let_def)
qed

text \<open>
  A feed of bars, with duplicates and stragglers, leaves in a new window the last
  \<open>maxlen\<close> of the bars that advanced time; the closes the indicators read are theirs, and
  \<open>tail_closes(period)\<close> is the last \<open>min(period, maxlen)\<close> of them.
\<close>

theorem feed_keeps_last_in_order:
  assumes "new_window n label = Inr w0" and "0 < p" and "good = in_order None (map snd bs)"
  shows "chronological_bars (feed bs w0) = drop (length good - nat n) good
    \<and> closes_array (feed bs w0) = map bar_close (drop (length good - nat n) good)
    \<and> tail_closes p (feed bs w0) = map bar_close (drop (length good - min (nat p) (nat n)) good)"
proof -
  let ?w = "feed bs w0"
  have w0: "rw_bars w0 = []" "rw_last_ts w0 = None" "0 < rw_maxlen w0" "rw_maxlen w0 = nat n"
    using assms(1) by (auto simp: new_window_def Let_def split: if_splits)
  have bars: "rw_bars ?w = drop (length good - nat n) good"
    using feed_bars [of w0 "[]" bs] w0 assms(3) by simp
  have "window_ok ?w" unfolding feed_run by (rule window_run_ok [OF assms(1)])
  then have closes: "closes_array ?w = map bar_close (rw_bars ?w)"
    by (simp add: window_ok_def rings_ok_def holds_def closes_array_def)
  have "tail_closes p ?w = map bar_close
      (let full = rw_bars ?w
       in if int (length full) \<le> p then full else drop (length full - nat p) full)"
    using assms(2) by (simp add: tail_closes_def closes Let_def drop_map)
  also have "\<dots> = map bar_close (drop (length good - min (nat p) (nat n)) good)"
    unfolding bars tail_of_suffix [OF assms(2)] ..
  finally show ?thesis using bars closes by (simp add: chronological_bars_def)
qed

theorem feed_keeps_last_in_order_witness:
  "tail_closes 1 (feed [(0, sample_bar 1 100), (0, sample_bar 3 101), (40, sample_bar 2 90),
     (41, sample_bar 3 91), (42, sample_bar 4 102)] sample_window) = [102]
   \<and> closes_array (feed [(0, sample_bar 1 100), (0, sample_bar 3 101), (40, sample_bar 2 90),
     (41, sample_bar 3 91), (42, sample_bar 4 102)] sample_window) = [101, 102]"
proof -
  have "new_window 2 ''SPY:15Min'' = Inr sample_window"
    by (simp add: sample_window_def new_window_def Let_def)
  from feed_keeps_last_in_order [OF this, of 1, OF _ refl, of
      "[(0, sample_bar 1 100), (0, sample_bar 3 101), (40, sample_bar 2 90),
        (41, sample_bar 3 91), (42, sample_bar 4 102)]"]
  show ?thesis by (simp add: sample_bar_def)
qed

section \<open>The rejection journal\<close>

text \<open>Lines of the journal are at least the interval apart, oldest first.\<close>

definition journal_ok :: "rolling_window \<Rightarrow> bool" where
  "journal_ok w \<longleftrightarrow>
     sorted_wrt (\<lambda>x y. rej_at x + REJECT_LOG_MIN_INTERVAL_S \<le> rej_at y) (rw_journal w) \<and>
     (\<forall>x \<in> set (rw_journal w). rej_at x \<le> rw_last_reject_log_mono w)"

lemma note_rejection_journal: "journal_ok w \<Longrightarrow> journal_ok (note_rejection now b r w)"
  by (auto simp: journal_ok_def note_rejection_def sorted_wrt_append REJECT_LOG_MIN_INTERVAL_S_def)

lemma append_bar_journal: "journal_ok w \<Longrightarrow> journal_ok (fst (append_bar now b w))"
  by (simp add: append_bar_cases note_rejection_journal)
    (simp add: journal_ok_def accept_bar_def write_bar_slot_def Let_def)

lemma upsert_bar_journal: "journal_ok w \<Longrightarrow> journal_ok (fst (upsert_bar now b w))"
  using append_bar_journal [of w now b]
  by (auto simp: upsert_bar_def Let_def note_rejection_journal split: prod.split)
    (simp_all add: journal_ok_def accept_bar_def write_bar_slot_def rewrite_latest_def Let_def)

interpretation journal: invariant_machine window_step journal_ok
proof
  fix w op assume "journal_ok w"
  then show "journal_ok (window_step w op)"
    by (cases op) (simp_all add: append_bar_journal upsert_bar_journal,
      simp_all add: journal_ok_def set_forming_def clear_window_def apply_corporate_action_offset_def
        Let_def)
qed

lemma rejection_log_rate:
  assumes "new_window n label = Inr w0"
  shows "sorted_wrt (\<lambda>x y. rej_at x + 30 \<le> rej_at y) (rw_journal (foldl window_step w0 ops))"
proof -
  have "journal_ok w0" using assms by (auto simp: new_window_def Let_def journal_ok_def split: if_splits)
  from journal.inv_run [OF this] show ?thesis
    by (simp add: journal_ok_def REJECT_LOG_MIN_INTERVAL_S_def)
qed

text \<open>
  The offset is remembered across \<open>clear\<close>: a window that was cleared and fed again refuses
  the next offset although none of its bars carries one.
\<close>

theorem clear_keeps_corporate_offset:
  assumes "0 < rw_applied_corporate_offset w"
  shows "apply_corporate_action_offset d (feed bs (clear_window w)) = (feed bs (clear_window w), False)"
proof -
  have step: "rw_applied_corporate_offset (fst (append_bar now b v)) = rw_applied_corporate_offset v"
    for now b v by (simp add: append_bar_cases) (simp add: accept_bar_def write_bar_slot_def Let_def)
  have "rw_applied_corporate_offset (feed bs v) = rw_applied_corporate_offset v" for v
    by (induction bs arbitrary: v) (simp_all add: feed_def step case_prod_unfold)
  with assms show ?thesis by (simp add: apply_corporate_action_offset_def clear_window_def)
qed

end
