(* ===== verification/Portfolio_Risk.thy ===== *)
theory Portfolio_Risk
  imports Entry_Authority Rolling_Window Sql_Table
begin

text \<open>
  The portfolio risk governor, \<open>src/engine/portfolio_risk_governor.py\<close>, with the return
  correlation it takes from \<open>src/engine/portfolio_brain.py\<close> and its SQLite store,
  \<open>src/persistence/portfolio_risk_state_store.py\<close>. The lemmas show that a leg's drawdown is
  the trailing drawdown of its whole profit curve (although only 256 readings are kept) over
  the account high-water, independent of the capital the leg is currently assigned; which
  legs are clamped; and what of the state survives a restart. The JSON rendering behind the
  payload fingerprint is an argument. Closes are prices: logarithms are taken of positive
  numbers only, and \<open>NaN\<close> is outside the model.
\<close>

section \<open>Correlation of returns\<close>

definition ONE_RISK_UNIT_CORRELATION :: pyfloat where
  "ONE_RISK_UNIT_CORRELATION = 85 / 100"

text \<open>\<open>np.diff\<close>, \<open>np.mean\<close>, \<open>np.std\<close> and the off-diagonal entry of \<open>np.corrcoef\<close>.\<close>

definition np_diff :: "pyfloat list \<Rightarrow> pyfloat list" where
  "np_diff xs = map2 (-) (tl xs) (butlast xs)"

definition np_mean :: "pyfloat list \<Rightarrow> pyfloat" where
  "np_mean xs = sum_list xs / real (length xs)"

definition np_cov :: "pyfloat list \<Rightarrow> pyfloat list \<Rightarrow> pyfloat" where
  "np_cov xs ys = np_mean (map2 (\<lambda>x y. (x - np_mean xs) * (y - np_mean ys)) xs ys)"

definition np_std :: "pyfloat list \<Rightarrow> pyfloat" where
  "np_std xs = sqrt (np_cov xs xs)"

definition np_corrcoef :: "pyfloat list \<Rightarrow> pyfloat list \<Rightarrow> pyfloat" where
  "np_corrcoef xs ys = max (- 1) (min 1 (np_cov xs ys / (np_std xs * np_std ys)))"

definition compute_return_correlation :: "pyfloat list \<Rightarrow> pyfloat list \<Rightarrow> nat \<Rightarrow> pyfloat" where
  "compute_return_correlation closes_a closes_b lookback =
     (if length closes_a < lookback + 1 \<or> length closes_b < lookback + 1 then 0
      else
        let ra = np_diff (map ln (drop (length closes_a - (lookback + 1)) closes_a));
            rb = np_diff (map ln (drop (length closes_b - (lookback + 1)) closes_b));
            n = min (length ra) (length rb)
        in if n < 5 then 0
           else
             let ra' = drop (length ra - n) ra;
                 rb' = drop (length rb - n) rb
             in if np_std ra' < 1 / 10 ^ 12 \<or> np_std rb' < 1 / 10 ^ 12 then 0
                else np_corrcoef ra' rb')"

section \<open>Governor state\<close>

definition CORRELATION_CLAMP_MULTIPLIER :: pyfloat where
  "CORRELATION_CLAMP_MULTIPLIER = 6 / 10"

definition STRATEGY_MAX_DRAWDOWN :: pyfloat where
  "STRATEGY_MAX_DRAWDOWN = 6 / 100"

definition MIN_CORRELATION_SAMPLES :: nat where
  "MIN_CORRELATION_SAMPLES = 20"

definition EQUITY_HISTORY_LIMIT :: nat where
  "EQUITY_HISTORY_LIMIT = 256"

definition FORMULA_VERSION :: string where
  "FORMULA_VERSION = ''v-GV3-pnlcurve''"

record governor_verdict =
  gv_sizing_multipliers :: "(string, pyfloat) dict"
  gv_exit_only_strategy_ids :: "string set"
  gv_correlation_pairs :: "(string \<times> string, pyfloat) dict"
  gv_strategy_drawdowns :: "(string, pyfloat) dict"
  gv_cold_start_clamped_strategy_ids :: "string set"

record risk_governor =
  rg_max_safe_correlation :: pyfloat
  rg_clamp_multiplier :: pyfloat
  rg_strategy_max_drawdown :: pyfloat
  rg_min_correlation_samples :: nat
  rg_equity_history_by_strategy :: "(string, pyfloat list) dict"
  rg_strategy_peaks :: "(string, pyfloat) dict"
  rg_strategy_drawdowns :: "(string, pyfloat) dict"
  rg_strategy_exit_only :: "string set"
  rg_last_persisted_fingerprint :: string
  rg_peak_broker_equity :: pyfloat

definition new_governor :: risk_governor where
  "new_governor =
     \<lparr>rg_max_safe_correlation = ONE_RISK_UNIT_CORRELATION,
      rg_clamp_multiplier = CORRELATION_CLAMP_MULTIPLIER,
      rg_strategy_max_drawdown = STRATEGY_MAX_DRAWDOWN,
      rg_min_correlation_samples = MIN_CORRELATION_SAMPLES,
      rg_equity_history_by_strategy = [], rg_strategy_peaks = [], rg_strategy_drawdowns = [],
      rg_strategy_exit_only = {}, rg_last_persisted_fingerprint = [],
      rg_peak_broker_equity = 0\<rparr>"

text \<open>The arguments of one \<open>evaluate\<close> call.\<close>

record cycle_input =
  ci_enabled_configs :: "strategy_config list"
  ci_windows :: "(string, rolling_window) dict"
  ci_positions :: "position list"
  ci_realized_pnls :: "(string, pyfloat) dict"
  ci_broker_equity :: pyfloat
  ci_allocation_fractions :: "(string, pyfloat) dict"

section \<open>Evaluation\<close>

definition window_closes :: "(string, rolling_window) dict \<Rightarrow> string \<Rightarrow> pyfloat list" where
  "window_closes ws sid = (case map_of ws sid of None \<Rightarrow> [] | Some w \<Rightarrow> closes_array w)"

definition correlate_pair ::
  "nat \<Rightarrow> (string, rolling_window) dict \<Rightarrow> strategy_config
     \<Rightarrow> (string \<times> string, pyfloat) dict \<Rightarrow> strategy_config \<Rightarrow> (string \<times> string, pyfloat) dict" where
  "correlate_pair min_samples ws left correlations right =
     (if length (window_closes ws (strategy_id right)) < min_samples then correlations
      else
        let corr = compute_return_correlation (window_closes ws (strategy_id left))
                     (window_closes ws (strategy_id right)) 60
        in AList.update (strategy_id right, strategy_id left) corr
             (AList.update (strategy_id left, strategy_id right) corr correlations))"

fun correlate_legs ::
  "nat \<Rightarrow> (string, rolling_window) dict \<Rightarrow> strategy_config list
     \<Rightarrow> (string \<times> string, pyfloat) dict \<Rightarrow> (string \<times> string, pyfloat) dict" where
  "correlate_legs min_samples ws [] correlations = correlations"
| "correlate_legs min_samples ws (left # rest) correlations =
     correlate_legs min_samples ws rest
       (if length (window_closes ws (strategy_id left)) < min_samples then correlations
        else foldl (correlate_pair min_samples ws left) correlations rest)"

definition compute_correlation_pairs ::
  "strategy_config list \<Rightarrow> (string, rolling_window) dict \<Rightarrow> risk_governor
     \<Rightarrow> (string \<times> string, pyfloat) dict" where
  "compute_correlation_pairs configs ws g =
     correlate_legs (rg_min_correlation_samples g) ws (filter enabled configs) []"

text \<open>\<open>max(values, default=0.0)\<close>.\<close>

definition max_default :: "pyfloat list \<Rightarrow> pyfloat" where
  "max_default xs = (case xs of [] \<Rightarrow> 0 | y # ys \<Rightarrow> foldl max y ys)"

definition resolve_peak ::
  "string \<Rightarrow> pyfloat \<Rightarrow> pyfloat list \<Rightarrow> risk_governor \<Rightarrow> risk_governor \<times> pyfloat" where
  "resolve_peak sid equity history g =
     (let history_peak = max_default history;
          peak = max (max (dict_get (rg_strategy_peaks g) sid 0) history_peak) equity
      in (g\<lparr>rg_strategy_peaks := AList.update sid peak (rg_strategy_peaks g)\<rparr>, peak))"

definition compute_drawdown_from_peak :: "pyfloat \<Rightarrow> pyfloat \<Rightarrow> pyfloat \<Rightarrow> pyfloat" where
  "compute_drawdown_from_peak peak_pnl leg_pnl peak_broker_equity =
     (if peak_broker_equity \<le> 0 then 0 else max 0 ((peak_pnl - leg_pnl) / peak_broker_equity))"

definition leg_pnl :: "cycle_input \<Rightarrow> strategy_config \<Rightarrow> pyfloat" where
  "leg_pnl c cfg =
     dict_get (ci_realized_pnls c) (strategy_id cfg) 0
       + (case match_position (strat_symbol cfg) (ci_positions c) of
            None \<Rightarrow> 0 | Some pos \<Rightarrow> pos_unrealized_pl pos)"

text \<open>The measuring loop; beside the governor it fills the verdict's drawdowns and exit-only set.\<close>

type_synonym measuring = "risk_governor \<times> (string, pyfloat) dict \<times> string set"

definition measure_due_leg :: "cycle_input \<Rightarrow> measuring \<Rightarrow> strategy_config \<Rightarrow> measuring" where
  "measure_due_leg c st cfg =
     (let (g, drawdowns, exits) = st;
          sid = strategy_id cfg;
          pnl = leg_pnl c cfg;
          history = deque_append EQUITY_HISTORY_LIMIT
                      (dict_get (rg_equity_history_by_strategy g) sid []) pnl;
          g1 = g\<lparr>rg_equity_history_by_strategy :=
                   AList.update sid history (rg_equity_history_by_strategy g)\<rparr>;
          (g2, peak) = resolve_peak sid pnl history g1;
          drawdown = compute_drawdown_from_peak peak pnl (rg_peak_broker_equity g2);
          g3 = g2\<lparr>rg_strategy_drawdowns := AList.update sid drawdown (rg_strategy_drawdowns g2)\<rparr>
      in if rg_strategy_max_drawdown g3 < drawdown
         then (g3\<lparr>rg_strategy_exit_only := insert sid (rg_strategy_exit_only g3)\<rparr>,
               AList.update sid drawdown drawdowns, insert sid exits)
         else (g3\<lparr>rg_strategy_exit_only := rg_strategy_exit_only g3 - {sid}\<rparr>,
               AList.update sid drawdown drawdowns, exits))"

definition measure_leg :: "cycle_input \<Rightarrow> measuring \<Rightarrow> strategy_config \<Rightarrow> measuring" where
  "measure_leg c st cfg =
     (let (g, drawdowns, exits) = st;
          sid = strategy_id cfg
      in if \<not> enabled cfg then st
         else if map_of (ci_allocation_fractions c) sid = None
         then (g, AList.update sid (dict_get (rg_strategy_drawdowns g) sid 0) drawdowns,
               if sid \<in> rg_strategy_exit_only g then insert sid exits else exits)
         else measure_due_leg c st cfg)"

definition clamp_to :: "pyfloat \<Rightarrow> string \<Rightarrow> (string, pyfloat) dict \<Rightarrow> (string, pyfloat) dict" where
  "clamp_to m sid mults = AList.update sid (min (dict_get mults sid 1) m) mults"

definition clamp_pair ::
  "risk_governor \<Rightarrow> (string, pyfloat) dict \<Rightarrow> (string \<times> string) \<times> pyfloat
     \<Rightarrow> (string, pyfloat) dict" where
  "clamp_pair g mults item =
     (let ((a, b), corr) = item
      in if \<bar>corr\<bar> < rg_max_safe_correlation g then mults
         else clamp_to (rg_clamp_multiplier g) b (clamp_to (rg_clamp_multiplier g) a mults))"

definition clamp_cold_leg ::
  "risk_governor \<Rightarrow> (string, rolling_window) dict
     \<Rightarrow> (string, pyfloat) dict \<times> string set \<Rightarrow> strategy_config
     \<Rightarrow> (string, pyfloat) dict \<times> string set" where
  "clamp_cold_leg g ws st cfg =
     (let (mults, cold) = st
      in if \<not> enabled cfg then st
         else if length (window_closes ws (strategy_id cfg)) < rg_min_correlation_samples g
         then (clamp_to CORRELATION_CLAMP_MULTIPLIER (strategy_id cfg) mults,
               insert (strategy_id cfg) cold)
         else st)"

definition initial_multipliers :: "strategy_config list \<Rightarrow> (string, pyfloat) dict" where
  "initial_multipliers configs =
     foldl (\<lambda>d cfg. AList.update (strategy_id cfg) 1 d) [] (filter enabled configs)"

definition evaluate :: "cycle_input \<Rightarrow> risk_governor \<Rightarrow> risk_governor \<times> governor_verdict" where
  "evaluate c g =
     (let configs = ci_enabled_configs c;
          correlations = compute_correlation_pairs configs (ci_windows c) g;
          g0 = g\<lparr>rg_peak_broker_equity := max (rg_peak_broker_equity g) (ci_broker_equity c)\<rparr>;
          (g1, drawdowns, exits) = foldl (measure_leg c) (g0, [], {}) configs;
          mults = foldl (clamp_pair g1) (initial_multipliers configs) correlations;
          (mults', cold) = foldl (clamp_cold_leg g1 (ci_windows c)) (mults, {}) configs
      in (g1, \<lparr>gv_sizing_multipliers = mults', gv_exit_only_strategy_ids = exits,
               gv_correlation_pairs = correlations, gv_strategy_drawdowns = drawdowns,
               gv_cold_start_clamped_strategy_ids = cold\<rparr>))"

definition blocks_new_entries_for ::
  "string \<Rightarrow> signal_action option \<Rightarrow> governor_verdict \<Rightarrow> bool" where
  "blocks_new_entries_for sid act v =
     (if act \<notin> {Some LONG, Some SHORT} then False else sid \<in> gv_exit_only_strategy_ids v)"

section \<open>State across restarts\<close>

record strategy_state =
  ss_peak_equity :: pyfloat
  ss_trailing_drawdown_pct :: pyfloat
  ss_exit_only_mode :: bool

text \<open>The payload; \<open>peak_broker_equity\<close> may be missing from it.\<close>

record risk_payload =
  pl_version :: int
  pl_formula_version :: "string option"
  pl_peak_broker_equity :: "pyfloat option"
  pl_strategies :: "(string, strategy_state) dict"

definition state_ids :: "risk_governor \<Rightarrow> string set" where
  "state_ids g =
     set (dict_keys (rg_strategy_peaks g)) \<union> set (dict_keys (rg_strategy_drawdowns g))
       \<union> rg_strategy_exit_only g"

definition strategy_state_of :: "risk_governor \<Rightarrow> string \<Rightarrow> strategy_state" where
  "strategy_state_of g sid =
     \<lparr>ss_peak_equity = dict_get (rg_strategy_peaks g) sid 0,
      ss_trailing_drawdown_pct = dict_get (rg_strategy_drawdowns g) sid 0,
      ss_exit_only_mode = (sid \<in> rg_strategy_exit_only g)\<rparr>"

definition serialize_risk_state :: "risk_governor \<Rightarrow> risk_payload" where
  "serialize_risk_state g =
     \<lparr>pl_version = 2, pl_formula_version = Some FORMULA_VERSION,
      pl_peak_broker_equity = Some (rg_peak_broker_equity g),
      pl_strategies = map (\<lambda>sid. (sid, strategy_state_of g sid)) (sorted_list_of_set (state_ids g))\<rparr>"

definition seed_baseline :: "risk_governor \<Rightarrow> string \<Rightarrow> risk_governor" where
  "seed_baseline g sid =
     g\<lparr>rg_strategy_peaks := AList.update sid 0 (rg_strategy_peaks g),
       rg_strategy_drawdowns := AList.update sid 0 (rg_strategy_drawdowns g),
       rg_strategy_exit_only := rg_strategy_exit_only g - {sid},
       rg_equity_history_by_strategy := AList.update sid [0] (rg_equity_history_by_strategy g)\<rparr>"

definition restore_strategy :: "risk_governor \<Rightarrow> string \<times> strategy_state \<Rightarrow> risk_governor" where
  "restore_strategy g item =
     (let (sid, row) = item
      in g\<lparr>rg_strategy_peaks := AList.update sid (ss_peak_equity row) (rg_strategy_peaks g),
           rg_strategy_drawdowns :=
             AList.update sid (ss_trailing_drawdown_pct row) (rg_strategy_drawdowns g),
           rg_strategy_exit_only :=
             (if ss_exit_only_mode row then insert sid (rg_strategy_exit_only g)
              else rg_strategy_exit_only g - {sid}),
           rg_equity_history_by_strategy :=
             AList.update sid [ss_peak_equity row] (rg_equity_history_by_strategy g)\<rparr>)"

definition rehydrate_risk_state ::
  "(risk_payload \<Rightarrow> string) \<Rightarrow> risk_payload option \<Rightarrow> (string, pyfloat) dict option
     \<Rightarrow> risk_governor \<Rightarrow> risk_governor \<times> bool" where
  "rehydrate_risk_state payload_fingerprint pay baselines g =
     (let strategies = (case pay of None \<Rightarrow> [] | Some p \<Rightarrow> pl_strategies p);
          stamped = (case pay of None \<Rightarrow> None | Some p \<Rightarrow> pl_formula_version p)
      in if strategies \<noteq> [] \<and> stamped \<noteq> Some FORMULA_VERSION
         then (g\<lparr>rg_equity_history_by_strategy := [], rg_strategy_peaks := [],
                 rg_strategy_drawdowns := [], rg_strategy_exit_only := {},
                 rg_peak_broker_equity := 0, rg_last_persisted_fingerprint := []\<rparr>, False)
         else if strategies = []
         then ((foldl seed_baseline g (case baselines of None \<Rightarrow> [] | Some d \<Rightarrow> dict_keys d))
                 \<lparr>rg_last_persisted_fingerprint := []\<rparr>, False)
         else
           let g0 = (case pay of
                       None \<Rightarrow> g
                     | Some p \<Rightarrow> g\<lparr>rg_peak_broker_equity :=
                         (case pl_peak_broker_equity p of None \<Rightarrow> 0 | Some e \<Rightarrow> e)\<rparr>);
               g1 = foldl restore_strategy g0 strategies
           in (g1\<lparr>rg_last_persisted_fingerprint := payload_fingerprint (serialize_risk_state g1)\<rparr>,
               True))"

text \<open>What \<open>maybe_enqueue_persist\<close> puts on the write queue, if anything.\<close>

definition maybe_enqueue_persist ::
  "(risk_payload \<Rightarrow> string) \<Rightarrow> risk_governor \<Rightarrow> risk_governor \<times> risk_payload option" where
  "maybe_enqueue_persist payload_fingerprint g =
     (let pay = serialize_risk_state g;
          fingerprint = payload_fingerprint pay
      in if pl_strategies pay = [] then (g, None)
         else if fingerprint = rg_last_persisted_fingerprint g then (g, None)
         else (g\<lparr>rg_last_persisted_fingerprint := fingerprint\<rparr>, Some pay))"

section \<open>The SQLite store\<close>

record risk_row =
  rr_strategy_id :: string
  rr_peak_equity :: pyfloat
  rr_trailing_drawdown_pct :: pyfloat
  rr_exit_only_mode :: int
  rr_updated_at :: instant
  rr_formula_version :: "string option"

record archive_row =
  ar_row :: risk_row
  ar_archived_at :: instant
  ar_reason :: string

record risk_store =
  rs_live :: "risk_row list"
  rs_archive :: "archive_row list"

definition row_of_state :: "instant \<Rightarrow> string option \<Rightarrow> string \<times> strategy_state \<Rightarrow> risk_row" where
  "row_of_state now stamp item =
     \<lparr>rr_strategy_id = fst item, rr_peak_equity = ss_peak_equity (snd item),
      rr_trailing_drawdown_pct = ss_trailing_drawdown_pct (snd item),
      rr_exit_only_mode = (if ss_exit_only_mode (snd item) then 1 else 0),
      rr_updated_at = now, rr_formula_version = stamp\<rparr>"

definition persist_portfolio_risk_state ::
  "instant \<Rightarrow> risk_payload \<Rightarrow> risk_store \<Rightarrow> risk_store" where
  "persist_portfolio_risk_state now pay db =
     db\<lparr>rs_live := map (row_of_state now (pl_formula_version pay)) (pl_strategies pay)\<rparr>"

definition state_of_row :: "risk_row \<Rightarrow> string \<times> strategy_state" where
  "state_of_row r =
     (rr_strategy_id r,
      \<lparr>ss_peak_equity = rr_peak_equity r, ss_trailing_drawdown_pct = rr_trailing_drawdown_pct r,
       ss_exit_only_mode = (rr_exit_only_mode r \<noteq> 0)\<rparr>)"

text \<open>A single coherent stamp, or none.\<close>

definition common_stamp :: "string option list \<Rightarrow> string option" where
  "common_stamp stamps = (case remdups stamps of [s] \<Rightarrow> s | _ \<Rightarrow> None)"

definition load_portfolio_risk_state :: "risk_store \<Rightarrow> risk_payload option" where
  "load_portfolio_risk_state db =
     (let rows = sort_key rr_strategy_id (rs_live db)
      in if rows = [] then None
         else Some \<lparr>pl_version = 2, pl_formula_version = common_stamp (map rr_formula_version rows),
                    pl_peak_broker_equity = None, pl_strategies = map state_of_row rows\<rparr>)"

definition archive_portfolio_risk_state ::
  "instant \<Rightarrow> string \<Rightarrow> risk_store \<Rightarrow> risk_store \<times> nat" where
  "archive_portfolio_risk_state now reason db =
     (\<lparr>rs_live = [],
       rs_archive = rs_archive db @
         map (\<lambda>r. \<lparr>ar_row = r, ar_archived_at = now, ar_reason = reason\<rparr>) (rs_live db)\<rparr>,
      length (rs_live db))"

section \<open>Correlation is bounded\<close>

lemma unit_clamp: "\<bar>max (- 1) (min 1 (x :: real))\<bar> \<le> 1"
  by linarith

lemma np_corrcoef_bounds: "\<bar>np_corrcoef xs ys\<bar> \<le> 1"
  unfolding np_corrcoef_def by (rule unit_clamp)

lemma correlation_bounds: "\<bar>compute_return_correlation xs ys k\<bar> \<le> 1"
  by (simp add: compute_return_correlation_def Let_def np_corrcoef_bounds)

section \<open>One leg's view of the measuring loop\<close>

text \<open>Everything in the loop's state that concerns one leg.\<close>

definition leg_view :: "string \<Rightarrow> measuring \<Rightarrow>
    pyfloat option \<times> pyfloat list \<times> pyfloat option \<times> bool \<times> pyfloat option \<times> bool" where
  "leg_view sid st =
     (let (g, drawdowns, exits) = st
      in (map_of (rg_strategy_peaks g) sid,
          dict_get (rg_equity_history_by_strategy g) sid [],
          map_of (rg_strategy_drawdowns g) sid, sid \<in> rg_strategy_exit_only g,
          map_of drawdowns sid, sid \<in> exits))"

lemma measure_leg_frame:
  assumes "strategy_id cfg \<noteq> sid"
  shows "leg_view sid (measure_leg c st cfg) = leg_view sid st"
  using assms
  by (cases st) (auto simp: leg_view_def measure_leg_def measure_due_leg_def resolve_peak_def Let_def)

lemma measure_legs_frame:
  assumes "sid \<notin> strategy_id ` set cfgs"
  shows "leg_view sid (foldl (measure_leg c) st cfgs) = leg_view sid st"
  using assms by (induction cfgs arbitrary: st) (auto simp: measure_leg_frame)

lemma measure_leg_const:
  "rg_peak_broker_equity (fst (measure_leg c st cfg)) = rg_peak_broker_equity (fst st)"
  "rg_strategy_max_drawdown (fst (measure_leg c st cfg)) = rg_strategy_max_drawdown (fst st)"
  "rg_max_safe_correlation (fst (measure_leg c st cfg)) = rg_max_safe_correlation (fst st)"
  "rg_clamp_multiplier (fst (measure_leg c st cfg)) = rg_clamp_multiplier (fst st)"
  "rg_min_correlation_samples (fst (measure_leg c st cfg)) = rg_min_correlation_samples (fst st)"
  by (cases st; simp add: measure_leg_def measure_due_leg_def resolve_peak_def Let_def)+

lemma measure_legs_const:
  "rg_peak_broker_equity (fst (foldl (measure_leg c) st cfgs)) = rg_peak_broker_equity (fst st)"
  "rg_strategy_max_drawdown (fst (foldl (measure_leg c) st cfgs)) = rg_strategy_max_drawdown (fst st)"
  "rg_max_safe_correlation (fst (foldl (measure_leg c) st cfgs)) = rg_max_safe_correlation (fst st)"
  "rg_clamp_multiplier (fst (foldl (measure_leg c) st cfgs)) = rg_clamp_multiplier (fst st)"
  "rg_min_correlation_samples (fst (foldl (measure_leg c) st cfgs))
     = rg_min_correlation_samples (fst st)"
  by (induction cfgs arbitrary: st; simp add: measure_leg_const)+

section \<open>The profit curve of a leg\<close>

definition peak_of :: "risk_governor \<Rightarrow> string \<Rightarrow> pyfloat" where
  "peak_of g sid = dict_get (rg_strategy_peaks g) sid 0"

definition history_of :: "risk_governor \<Rightarrow> string \<Rightarrow> pyfloat list" where
  "history_of g sid = dict_get (rg_equity_history_by_strategy g) sid []"

text \<open>The bounded history never exceeds the remembered peak.\<close>

definition history_ok :: "risk_governor \<Rightarrow> bool" where
  "history_ok g \<longleftrightarrow> (\<forall>sid. \<forall>v \<in> set (history_of g sid). v \<le> peak_of g sid)"

definition due :: "cycle_input \<Rightarrow> strategy_config \<Rightarrow> bool" where
  "due c cfg \<longleftrightarrow> enabled cfg \<and> map_of (ci_allocation_fractions c) (strategy_id cfg) \<noteq> None"

text \<open>The readings one cycle takes of a leg.\<close>

definition readings :: "string \<Rightarrow> cycle_input \<Rightarrow> strategy_config list \<Rightarrow> pyfloat list" where
  "readings sid c cfgs = map (leg_pnl c) (filter (\<lambda>cfg. due c cfg \<and> strategy_id cfg = sid) cfgs)"

lemma foldl_max_le: "foldl max a xs \<le> (m :: real) \<longleftrightarrow> a \<le> m \<and> (\<forall>x \<in> set xs. x \<le> m)"
  by (induction xs arbitrary: a) auto

lemma foldl_max_ge: "a \<le> foldl max a xs" "x \<in> set xs \<Longrightarrow> x \<le> foldl max a (xs :: real list)"
  using foldl_max_le [of a xs "foldl max a xs"] by auto

lemma max_default_le: "xs \<noteq> [] \<Longrightarrow> \<forall>x \<in> set xs. x \<le> m \<Longrightarrow> max_default xs \<le> m"
  by (cases xs) (auto simp: max_default_def foldl_max_le)

lemma set_deque_append: "set (deque_append n xs x) \<subseteq> insert x (set xs)"
  unfolding deque_append_def by (auto dest: in_set_dropD)

lemma peak_with_history:
  assumes "\<forall>v \<in> set h. v \<le> (p :: real)" and "0 < n"
  shows "max (max p (max_default (deque_append n h x))) x = max p x"
proof -
  have "\<forall>v \<in> set (deque_append n h x). v \<le> max p x"
    using assms set_deque_append [of n h x] by (fastforce simp: le_max_iff_disj)
  with assms have "max_default (deque_append n h x) \<le> max p x" by (intro max_default_le) simp_all
  then show ?thesis by auto
qed

lemma measure_due_leg_eq:
  assumes "history_ok g"
  shows "measure_due_leg c (g, drawdowns, exits) cfg =
    (let sid = strategy_id cfg; pnl = leg_pnl c cfg; peak = max (peak_of g sid) pnl;
         dd = compute_drawdown_from_peak peak pnl (rg_peak_broker_equity g)
     in (g\<lparr>rg_equity_history_by_strategy := AList.update sid
              (deque_append EQUITY_HISTORY_LIMIT (history_of g sid) pnl)
              (rg_equity_history_by_strategy g),
           rg_strategy_peaks := AList.update sid peak (rg_strategy_peaks g),
           rg_strategy_drawdowns := AList.update sid dd (rg_strategy_drawdowns g),
           rg_strategy_exit_only :=
             (if rg_strategy_max_drawdown g < dd then insert sid (rg_strategy_exit_only g)
              else rg_strategy_exit_only g - {sid})\<rparr>,
         AList.update sid dd drawdowns,
         if rg_strategy_max_drawdown g < dd then insert sid exits else exits))"
proof -
  have "max (max (peak_of g s) (max_default (deque_append EQUITY_HISTORY_LIMIT (history_of g s) x))) x
      = max (peak_of g s) x" for s x
    using assms by (intro peak_with_history) (auto simp: history_ok_def EQUITY_HISTORY_LIMIT_def)
  note peak = this [unfolded peak_of_def history_of_def]
  show ?thesis
    by (simp add: measure_due_leg_def resolve_peak_def Let_def peak peak_of_def history_of_def)
qed

lemma measure_leg_cases:
  "measure_leg c (g, drawdowns, exits) cfg =
     (if due c cfg then measure_due_leg c (g, drawdowns, exits) cfg
      else if \<not> enabled cfg then (g, drawdowns, exits)
      else (g, AList.update (strategy_id cfg) (dict_get (rg_strategy_drawdowns g) (strategy_id cfg) 0)
                 drawdowns,
            if strategy_id cfg \<in> rg_strategy_exit_only g then insert (strategy_id cfg) exits else exits))"
  by (simp add: measure_leg_def due_def Let_def)

lemma measure_leg_peak:
  assumes "history_ok (fst st)"
  shows "peak_of (fst (measure_leg c st cfg)) sid
      = (if due c cfg \<and> strategy_id cfg = sid then max (peak_of (fst st) sid) (leg_pnl c cfg)
         else peak_of (fst st) sid)
    \<and> history_ok (fst (measure_leg c st cfg))"
proof -
  obtain g drawdowns exits where st: "st = (g, drawdowns, exits)" by (cases st)
  with assms have ok: "history_ok g" by simp
  have "v \<le> max (peak_of g s) x"
    if "v \<in> set (deque_append EQUITY_HISTORY_LIMIT (history_of g s) x)" for v s x
    using ok that set_deque_append [of EQUITY_HISTORY_LIMIT "history_of g s" x]
    by (fastforce simp: history_ok_def le_max_iff_disj)
  with ok show ?thesis
    by (auto simp: st measure_leg_cases measure_due_leg_eq [OF ok] Let_def history_ok_def peak_of_def
        history_of_def)
qed

lemma measure_legs_peak:
  assumes "history_ok (fst st)"
  shows "peak_of (fst (foldl (measure_leg c) st cfgs)) sid
      = foldl max (peak_of (fst st) sid) (readings sid c cfgs)
    \<and> history_ok (fst (foldl (measure_leg c) st cfgs))"
  using assms
proof (induction cfgs arbitrary: st)
  case Nil
  then show ?case by (simp add: readings_def)
next
  case (Cons cfg cfgs)
  note step = measure_leg_peak [OF Cons.prems, of c cfg sid]
  show ?case
    using Cons.IH [OF conjunct2 [OF step]] conjunct1 [OF step] by (auto simp: readings_def)
qed

definition opened :: "cycle_input \<Rightarrow> risk_governor \<Rightarrow> risk_governor" where
  "opened c g = g\<lparr>rg_peak_broker_equity := max (rg_peak_broker_equity g) (ci_broker_equity c)\<rparr>"

definition measured :: "cycle_input \<Rightarrow> risk_governor \<Rightarrow> measuring" where
  "measured c g = foldl (measure_leg c) (opened c g, [], {}) (ci_enabled_configs c)"

lemma opened_simps [simp]:
  "peak_of (opened c g) sid = peak_of g sid" "history_ok (opened c g) = history_ok g"
  "rg_peak_broker_equity (opened c g) = max (rg_peak_broker_equity g) (ci_broker_equity c)"
  "rg_strategy_max_drawdown (opened c g) = rg_strategy_max_drawdown g"
  by (simp_all add: opened_def peak_of_def history_ok_def history_of_def)

lemma evaluate_measured:
  "fst (evaluate c g) = fst (measured c g)"
  "gv_strategy_drawdowns (snd (evaluate c g)) = fst (snd (measured c g))"
  "gv_exit_only_strategy_ids (snd (evaluate c g)) = snd (snd (measured c g))"
  by (simp_all add: evaluate_def measured_def opened_def Let_def case_prod_unfold)

definition governor_run :: "risk_governor \<Rightarrow> cycle_input list \<Rightarrow> risk_governor" where
  "governor_run g cs = foldl (\<lambda>g c. fst (evaluate c g)) g cs"

definition curve :: "string \<Rightarrow> cycle_input list \<Rightarrow> pyfloat list" where
  "curve sid cs = concat (map (\<lambda>c. readings sid c (ci_enabled_configs c)) cs)"

lemma governor_run_state:
  assumes "history_ok g"
  shows "peak_of (governor_run g cs) sid = foldl max (peak_of g sid) (curve sid cs)
    \<and> history_ok (governor_run g cs)
    \<and> rg_peak_broker_equity (governor_run g cs)
        = foldl max (rg_peak_broker_equity g) (map ci_broker_equity cs)
    \<and> rg_strategy_max_drawdown (governor_run g cs) = rg_strategy_max_drawdown g"
  using assms
proof (induction cs arbitrary: g)
  case Nil
  then show ?case by (simp add: governor_run_def curve_def)
next
  case (Cons c cs)
  let ?g = "fst (measured c g)"
  note step = measure_legs_peak [of "(opened c g, [], {})" c "ci_enabled_configs c" sid]
  have g: "peak_of ?g sid = foldl max (peak_of g sid) (readings sid c (ci_enabled_configs c))"
      "history_ok ?g" using step Cons.prems by (simp_all add: measured_def)
  have "governor_run g (c # cs) = governor_run ?g cs"
    by (simp add: governor_run_def evaluate_measured)
  with Cons.IH [OF g(2)] g show ?case
    by (simp add: curve_def) (simp add: measured_def measure_legs_const)
qed

lemma new_governor_simps [simp]:
  "history_ok new_governor" "peak_of new_governor sid = 0" "rg_peak_broker_equity new_governor = 0"
  "rg_strategy_max_drawdown new_governor = 6 / 100" "rg_strategy_exit_only new_governor = {}"
  by (simp_all add: new_governor_def history_ok_def history_of_def peak_of_def STRATEGY_MAX_DRAWDOWN_def)

text \<open>What the loop reports of a leg that is due, for one configuration per id.\<close>

lemma measured_due_leg:
  assumes ok: "history_ok g" and dist: "distinct (map strategy_id (ci_enabled_configs c))"
    and cfg: "cfg \<in> set (ci_enabled_configs c)" and due: "due c cfg"
    and dd: "dd = compute_drawdown_from_peak (max (peak_of g (strategy_id cfg)) (leg_pnl c cfg))
      (leg_pnl c cfg) (max (rg_peak_broker_equity g) (ci_broker_equity c))"
  shows "map_of (fst (snd (measured c g))) (strategy_id cfg) = Some dd
    \<and> (strategy_id cfg \<in> snd (snd (measured c g)) \<longleftrightarrow> rg_strategy_max_drawdown g < dd)"
proof -
  let ?sid = "strategy_id cfg" and ?st = "(opened c g, [], {})"
  obtain xs ys where cfgs: "ci_enabled_configs c = xs @ cfg # ys" using cfg by (meson split_list)
  with dist have fresh: "?sid \<notin> strategy_id ` set xs" "?sid \<notin> strategy_id ` set ys" by auto
  obtain h drawdowns exits where st: "foldl (measure_leg c) ?st xs = (h, drawdowns, exits)"
    by (metis prod_cases3)
  have hok: "history_ok h"
    using measure_legs_peak [of ?st c xs ?sid] ok st by simp
  have peak: "peak_of h ?sid = peak_of g ?sid"
    using measure_legs_frame [OF fresh(1), of c ?st] st
    by (simp add: leg_view_def peak_of_def dict_get_def opened_def)
  have exits: "?sid \<notin> exits"
    using measure_legs_frame [OF fresh(1), of c ?st] st by (simp add: leg_view_def)
  have const: "rg_peak_broker_equity h = max (rg_peak_broker_equity g) (ci_broker_equity c)"
      "rg_strategy_max_drawdown h = rg_strategy_max_drawdown g"
    using measure_legs_const(1,2) [of c ?st xs] st by simp_all
  have "measured c g = foldl (measure_leg c) (measure_leg c (h, drawdowns, exits) cfg) ys"
    by (simp add: measured_def cfgs st)
  then have "leg_view ?sid (measured c g) = leg_view ?sid (measure_leg c (h, drawdowns, exits) cfg)"
    by (simp add: measure_legs_frame [OF fresh(2)])
  then show ?thesis
    using exits due
    by (simp add: measure_leg_cases measure_due_leg_eq [OF hok] Let_def leg_view_def case_prod_unfold
        peak const dd)
qed

text \<open>
  C17: A due leg's drawdown is exact over the whole run, however long: it is the fall of the
  leg's profit from the highest profit ever read (zero at least) over the highest account
  equity ever seen, although only 256 readings are kept, and the leg is exit-only exactly
  when that exceeds six percent. The allocation fractions only decide when a reading is
  taken; their values do not occur.
\<close>

theorem drawdown_is_exact:
  assumes "distinct (map strategy_id (ci_enabled_configs c))"
    and "cfg \<in> set (ci_enabled_configs c)" and "due c cfg"
    and "P = foldl max 0 (curve (strategy_id cfg) cs @ [leg_pnl c cfg])"
    and "E = foldl max 0 (map ci_broker_equity (cs @ [c]))"
    and "dd = (if E \<le> 0 then 0 else (P - leg_pnl c cfg) / E)"
    and "v = snd (evaluate c (governor_run new_governor cs))"
  shows "map_of (gv_strategy_drawdowns v) (strategy_id cfg) = Some dd
    \<and> (strategy_id cfg \<in> gv_exit_only_strategy_ids v \<longleftrightarrow> 6 / 100 < dd)"
proof -
  let ?g = "governor_run new_governor cs"
  note run = governor_run_state [OF new_governor_simps(1), of cs "strategy_id cfg"]
  have P: "max (peak_of ?g (strategy_id cfg)) (leg_pnl c cfg) = P"
    using run assms(4) by simp
  have E: "max (rg_peak_broker_equity ?g) (ci_broker_equity c) = E"
    using run assms(5) by simp
  have "leg_pnl c cfg \<le> P" using P by auto
  then have dd: "dd = compute_drawdown_from_peak
      (max (peak_of ?g (strategy_id cfg)) (leg_pnl c cfg)) (leg_pnl c cfg)
      (max (rg_peak_broker_equity ?g) (ci_broker_equity c))"
    unfolding P E using assms(6) by (auto simp: compute_drawdown_from_peak_def)
  have ok: "history_ok ?g" and thr: "rg_strategy_max_drawdown ?g = 6 / 100" using run by auto
  from measured_due_leg [OF ok assms(1-3) dd] show ?thesis
    unfolding thr assms(7) evaluate_measured .
qed

definition sample_leg :: strategy_config where
  "sample_leg = \<lparr>strategy_id = ''qqq'', strat_symbol = ''QQQ'', enabled = True\<rparr>"

definition sample_cycle :: "pyfloat \<Rightarrow> pyfloat \<Rightarrow> pyfloat \<Rightarrow> cycle_input" where
  "sample_cycle realized equity fraction =
     \<lparr>ci_enabled_configs = [sample_leg], ci_windows = [], ci_positions = [],
      ci_realized_pnls = [(''qqq'', realized)], ci_broker_equity = equity,
      ci_allocation_fractions = [(''qqq'', fraction)]\<rparr>"

lemma sample_simps [simp]:
  "strategy_id sample_leg = ''qqq''" "ci_enabled_configs (sample_cycle r e f) = [sample_leg]"
  "due (sample_cycle r e f) sample_leg" "leg_pnl (sample_cycle r e f) sample_leg = r"
  "ci_broker_equity (sample_cycle r e f) = e"
  by (simp_all add: sample_cycle_def sample_leg_def due_def leg_pnl_def dict_get_def)

theorem drawdown_is_exact_witness:
  "map_of (gv_strategy_drawdowns (snd (evaluate (sample_cycle 1000 90000 (1 / 10))
     (governor_run new_governor [sample_cycle 9000 100000 (9 / 10)])))) ''qqq'' = Some (8 / 100)
   \<and> ''qqq'' \<in> gv_exit_only_strategy_ids (snd (evaluate (sample_cycle 1000 90000 (1 / 10))
       (governor_run new_governor [sample_cycle 9000 100000 (9 / 10)])))"
proof -
  let ?c = "sample_cycle 1000 90000 (1 / 10)" and ?cs = "[sample_cycle 9000 100000 (9 / 10)]"
  have "distinct (map strategy_id (ci_enabled_configs ?c))" "sample_leg \<in> set (ci_enabled_configs ?c)"
      "due ?c sample_leg" by simp_all
  from drawdown_is_exact [OF this refl refl refl refl, of ?cs]
  show ?thesis by (simp add: curve_def readings_def)
qed

section \<open>Reallocation alone never clamps a leg\<close>

text \<open>
  The state of a leg whose profit has never fallen: its peak is its last reading and it is in
  neither exit-only set.
\<close>

definition unclamped :: "string \<Rightarrow> pyfloat \<Rightarrow> measuring \<Rightarrow> bool" where
  "unclamped sid p st \<longleftrightarrow>
     history_ok (fst st) \<and> peak_of (fst st) sid = p \<and> sid \<notin> rg_strategy_exit_only (fst st) \<and>
     sid \<notin> snd (snd st) \<and> 0 \<le> rg_strategy_max_drawdown (fst st)"

lemma measure_leg_unclamped:
  assumes "unclamped sid p st" and "sorted (p # readings sid c [cfg])"
  shows "unclamped sid (last (p # readings sid c [cfg])) (measure_leg c st cfg)"
proof (cases "due c cfg \<and> strategy_id cfg = sid")
  case True
  obtain g drawdowns exits where st: "st = (g, drawdowns, exits)" by (cases st)
  with assms(1) have ok: "history_ok g" by (simp add: unclamped_def)
  from True assms(2) have le: "p \<le> leg_pnl c cfg" by (simp add: readings_def)
  have "compute_drawdown_from_peak (leg_pnl c cfg) (leg_pnl c cfg) e = 0" for e
    by (simp add: compute_drawdown_from_peak_def)
  then have "sid \<notin> rg_strategy_exit_only (fst (measure_leg c st cfg))"
      "sid \<notin> snd (snd (measure_leg c st cfg))"
    using True assms(1) le
    by (simp_all add: st unclamped_def measure_leg_cases measure_due_leg_eq [OF ok] Let_def max_def)
  then show ?thesis
    using measure_leg_peak [of st c cfg sid] measure_leg_const(2) [of c st cfg] True assms(1) le
    by (simp add: unclamped_def readings_def max_def)
next
  case False
  then have none: "readings sid c [cfg] = []" by (simp add: readings_def)
  have "sid \<notin> rg_strategy_exit_only (fst (measure_leg c st cfg))
      \<and> sid \<notin> snd (snd (measure_leg c st cfg))"
  proof (cases "strategy_id cfg = sid")
    case True
    with False assms(1) show ?thesis by (cases st) (simp add: unclamped_def measure_leg_cases)
  next
    case False
    from measure_leg_frame [OF this, of c st] assms(1) show ?thesis
      by (simp add: unclamped_def leg_view_def case_prod_unfold Let_def)
  qed
  then show ?thesis
    using none measure_leg_peak [of st c cfg sid] measure_leg_const(2) [of c st cfg] False assms(1)
    by (simp add: unclamped_def)
qed

lemma readings_Cons: "readings sid c (cfg # cfgs) = readings sid c [cfg] @ readings sid c cfgs"
  by (simp add: readings_def)

lemma sorted_split:
  assumes "sorted (p # xs @ ys)"
  shows "sorted (p # xs)" and "sorted (last (p # xs) # ys)" and "last (last (p # xs) # ys) = last (p # xs @ ys)"
proof -
  have s: "sorted ((p # xs) @ ys)" using assms by simp
  then show "sorted (p # xs)" unfolding sorted_append by simp
  from s have all: "\<forall>x \<in> set (p # xs). \<forall>y \<in> set ys. x \<le> y" and "sorted ys"
    unfolding sorted_append by blast+
  moreover have "last (p # xs) \<in> set (p # xs)" by (rule last_in_set) simp
  ultimately show "sorted (last (p # xs) # ys)" by simp
  show "last (last (p # xs) # ys) = last (p # xs @ ys)" by (cases "ys = []") simp_all
qed

lemma measure_legs_unclamped:
  assumes "unclamped sid p st" and "sorted (p # readings sid c cfgs)"
  shows "unclamped sid (last (p # readings sid c cfgs)) (foldl (measure_leg c) st cfgs)"
  using assms
proof (induction cfgs arbitrary: p st)
  case Nil
  then show ?case by (simp add: readings_def)
next
  case (Cons cfg cfgs)
  note parts = sorted_split [OF Cons.prems(2) [unfolded readings_Cons [of sid c cfg cfgs]]]
  show ?case
    using Cons.IH [OF measure_leg_unclamped [OF Cons.prems(1) parts(1)] parts(2)] parts(3)
    by (simp add: readings_Cons [of sid c cfg cfgs] del: last.simps)
qed

lemma governor_run_unclamped:
  assumes "unclamped sid p (g, [], {})" and "sorted (p # curve sid cs)"
  shows "unclamped sid (last (p # curve sid cs)) (governor_run g cs, [], {})"
  using assms
proof (induction cs arbitrary: p g)
  case Nil
  then show ?case by (simp add: curve_def governor_run_def)
next
  case (Cons c cs)
  let ?r = "readings sid c (ci_enabled_configs c)"
  have curve: "curve sid (c # cs) = ?r @ curve sid cs" by (simp add: curve_def)
  note parts = sorted_split [OF Cons.prems(2) [unfolded curve]]
  have "unclamped sid p (opened c g, [], {})"
    using Cons.prems(1) by (simp add: unclamped_def) (simp add: opened_def)
  from measure_legs_unclamped [OF this parts(1)]
  have "unclamped sid (last (p # ?r)) (fst (measured c g), [], {})"
    by (simp add: measured_def unclamped_def)
  from Cons.IH [OF this parts(2)] show ?case
    unfolding curve parts(3) by (simp add: governor_run_def evaluate_measured del: last.simps)
qed

text \<open>
  Only a fall in profit can make a leg exit-only. If the leg's profit readings start at
  zero or above and never decrease (an account without fills reads zero throughout), no
  verdict of any run lists it as exit-only, however the allocation fractions and the account
  equity move and whichever cycles skip the leg.
\<close>

theorem reallocation_never_clamps:
  assumes "sorted (0 # curve sid (cs @ [c]))"
  shows "sid \<notin> gv_exit_only_strategy_ids (snd (evaluate c (governor_run new_governor cs)))"
proof -
  have curve: "curve sid (cs @ [c]) = curve sid cs @ readings sid c (ci_enabled_configs c)"
    by (simp add: curve_def)
  note parts = sorted_split [OF assms [unfolded curve]]
  have "unclamped sid 0 (new_governor, [], {})" by (simp add: unclamped_def)
  from governor_run_unclamped [OF this parts(1)]
  have "unclamped sid (last (0 # curve sid cs)) (opened c (governor_run new_governor cs), [], {})"
    by (simp add: unclamped_def) (simp add: opened_def)
  from measure_legs_unclamped [OF this parts(2)] show ?thesis
    by (simp add: evaluate_measured measured_def unclamped_def)
qed

theorem reallocation_never_clamps_witness:
  "''qqq'' \<notin> gv_exit_only_strategy_ids (snd (evaluate (sample_cycle 0 50000 (1 / 10))
     (governor_run new_governor [sample_cycle 0 100000 (9 / 10), sample_cycle 0 80000 (2 / 10)])))"
  by (rule reallocation_never_clamps) (simp add: curve_def readings_def)

section \<open>Which legs are clamped\<close>

lemma np_cov_commute: "np_cov xs ys = np_cov ys xs"
proof -
  have "map2 (\<lambda>x y. (x - a) * (y - b)) xs ys = map2 (\<lambda>y x. (y - b) * (x - a)) ys xs" for a b
    by (rule nth_equalityI) (simp_all add: mult.commute min.commute)
  then show ?thesis unfolding np_cov_def by simp
qed

lemma np_corrcoef_commute: "np_corrcoef xs ys = np_corrcoef ys xs"
  by (simp add: np_corrcoef_def np_cov_commute [of xs ys] mult.commute)

lemma correlation_commute:
  "compute_return_correlation xs ys k = compute_return_correlation ys xs k"
proof -
  define r where "r = (\<lambda>cl. np_diff (map ln (drop (length cl - (k + 1)) cl)))"
  define n where "n = min (length (r xs)) (length (r ys))"
  have n: "min (length (r ys)) (length (r xs)) = n" by (simp add: n_def min.commute)
  have eq: "compute_return_correlation as bs k =
      (if length as < k + 1 \<or> length bs < k + 1 then 0
       else if min (length (r as)) (length (r bs)) < 5 then 0
       else let m = min (length (r as)) (length (r bs));
                u = drop (length (r as) - m) (r as); v = drop (length (r bs) - m) (r bs)
            in if np_std u < 1 / 10 ^ 12 \<or> np_std v < 1 / 10 ^ 12 then 0 else np_corrcoef u v)"
    for as bs by (simp add: compute_return_correlation_def r_def Let_def)
  show ?thesis
    unfolding eq n n_def [symmetric] Let_def disj_commute [of "length ys < k + 1"]
      np_corrcoef_commute [of "drop _ (r ys)"] disj_commute [of "np_std (drop _ (r ys)) < _"] ..
qed

definition warm :: "(string, rolling_window) dict \<Rightarrow> string \<Rightarrow> bool" where
  "warm ws sid \<longleftrightarrow> MIN_CORRELATION_SAMPLES \<le> length (window_closes ws sid)"

definition leg_corr :: "(string, rolling_window) dict \<Rightarrow> string \<Rightarrow> string \<Rightarrow> pyfloat" where
  "leg_corr ws a b = compute_return_correlation (window_closes ws a) (window_closes ws b) 60"

lemma correlate_pairs_lookup:
  assumes "strategy_id left \<notin> strategy_id ` set rest"
  shows "map_of (foldl (correlate_pair MIN_CORRELATION_SAMPLES ws left) d rest) (a, b) =
    (if (a = strategy_id left \<and> b \<in> strategy_id ` set rest \<and> warm ws b)
        \<or> (b = strategy_id left \<and> a \<in> strategy_id ` set rest \<and> warm ws a)
     then Some (leg_corr ws a b) else map_of d (a, b))"
  using assms
proof (induction rest arbitrary: d)
  case Nil
  then show ?case by simp
next
  case (Cons right rest)
  have "leg_corr ws x y = leg_corr ws y x" for x y
    by (simp add: leg_corr_def correlation_commute)
  then show ?case
    using Cons
    by (auto simp: correlate_pair_def Let_def warm_def leg_corr_def [symmetric] not_less)
qed

lemma correlate_legs_lookup:
  assumes "distinct (map strategy_id legs)"
  shows "map_of (correlate_legs MIN_CORRELATION_SAMPLES ws legs d) (a, b) =
    (if a \<noteq> b \<and> a \<in> strategy_id ` set legs \<and> b \<in> strategy_id ` set legs \<and> warm ws a \<and> warm ws b
     then Some (leg_corr ws a b) else map_of d (a, b))"
  using assms
proof (induction legs arbitrary: d)
  case Nil
  then show ?case by simp
next
  case (Cons left rest)
  define R where "R = strategy_id ` set rest"
  let ?l = "strategy_id left"
  have fresh: "?l \<notin> strategy_id ` set rest" using Cons.prems by simp
  have IH: "map_of (correlate_legs MIN_CORRELATION_SAMPLES ws rest d') (a, b) =
    (if a \<noteq> b \<and> a \<in> R \<and> b \<in> R \<and> warm ws a \<and> warm ws b then Some (leg_corr ws a b) else map_of d' (a, b))" for d'
    using Cons.IH Cons.prems by (simp add: R_def)
  have set: "strategy_id ` set (left # rest) = insert ?l R" by (simp add: R_def)
  show ?case
  proof (cases "warm ws ?l")
    case True
    then have eq: "correlate_legs MIN_CORRELATION_SAMPLES ws (left # rest) d =
        correlate_legs MIN_CORRELATION_SAMPLES ws rest (foldl (correlate_pair MIN_CORRELATION_SAMPLES ws left) d rest)"
      by (simp add: warm_def)
    show ?thesis unfolding set eq IH correlate_pairs_lookup [OF fresh, folded R_def] using True fresh [folded R_def] by auto
  next
    case False
    then have eq: "correlate_legs MIN_CORRELATION_SAMPLES ws (left # rest) d = correlate_legs MIN_CORRELATION_SAMPLES ws rest d"
      by (simp add: warm_def)
    show ?thesis unfolding set eq IH using False fresh [folded R_def] by auto
  qed
qed

lemma correlation_pairs_exact:
  assumes "distinct (map strategy_id configs)" and "rg_min_correlation_samples g = MIN_CORRELATION_SAMPLES"
  shows "map_of (compute_correlation_pairs configs ws g) (a, b) =
    (if a \<noteq> b \<and> {a, b} \<subseteq> strategy_id ` {cfg \<in> set configs. enabled cfg} \<and> warm ws a \<and> warm ws b
     then Some (leg_corr ws a b) else None)"
proof -
  have "distinct (map strategy_id (filter enabled configs))"
    using assms(1) by (simp add: distinct_map_filter)
  from correlate_legs_lookup [OF this] assms(2) show ?thesis
    by (simp add: compute_correlation_pairs_def conj_assoc)
qed

lemma correlations_ok: "dict_ok d \<Longrightarrow> dict_ok (correlate_legs n ws legs d)"
proof (induction legs arbitrary: d)
  case (Cons left rest)
  have "dict_ok d \<Longrightarrow> dict_ok (foldl (correlate_pair n ws left) d rest')" for d rest'
    by (induction rest' arbitrary: d) (auto simp: correlate_pair_def Let_def)
  with Cons show ?case by simp
qed simp

lemma dict_get_clamp: "dict_get (clamp_to m a d) sid 1
    = (if sid = a then min (dict_get d sid 1) m else dict_get d sid 1)"
  by (simp add: clamp_to_def)

text \<open>A correlation entry that clamps the leg.\<close>

definition hits :: "risk_governor \<Rightarrow> string \<Rightarrow> (string \<times> string) \<times> pyfloat \<Rightarrow> bool" where
  "hits g sid item \<longleftrightarrow>
     rg_max_safe_correlation g \<le> \<bar>snd item\<bar> \<and> sid \<in> {fst (fst item), snd (fst item)}"

lemma clamp_pair_get:
  "dict_get (clamp_pair g d item) sid 1 =
     (if hits g sid item then min (dict_get d sid 1) (rg_clamp_multiplier g) else dict_get d sid 1)"
  by (auto simp: clamp_pair_def hits_def dict_get_clamp case_prod_unfold not_less)

lemma clamp_pairs_get:
  "dict_get (foldl (clamp_pair g) d items) sid 1 =
     (if \<exists>item \<in> set items. hits g sid item
      then min (dict_get d sid 1) (rg_clamp_multiplier g) else dict_get d sid 1)"
  by (induction items arbitrary: d) (auto simp: clamp_pair_get)

lemma clamp_cold_get:
  "dict_get (fst (foldl (clamp_cold_leg g ws) (d, cold) cfgs)) sid 1 =
     (if \<exists>cfg \<in> set cfgs. enabled cfg \<and> strategy_id cfg = sid
           \<and> length (window_closes ws sid) < rg_min_correlation_samples g
      then min (dict_get d sid 1) CORRELATION_CLAMP_MULTIPLIER else dict_get d sid 1)"
proof (induction cfgs arbitrary: d cold)
  case (Cons cfg cfgs)
  then show ?case by (auto simp: clamp_cold_leg_def dict_get_clamp)
qed simp

lemma initial_multipliers_get: "dict_get (initial_multipliers configs) sid 1 = 1"
proof -
  have "dict_get d sid 1 = 1 \<Longrightarrow>
      dict_get (foldl (\<lambda>d cfg. AList.update (strategy_id cfg) 1 d) d cfgs) sid 1 = (1 :: pyfloat)"
    for d and cfgs :: "strategy_config list" by (induction cfgs arbitrary: d) simp_all
  then show ?thesis by (simp add: initial_multipliers_def)
qed

lemma evaluate_multipliers:
  assumes "g1 = fst (measured c g)"
  shows "dict_get (gv_sizing_multipliers (snd (evaluate c g))) sid 1 =
     (let corr = (if \<exists>item \<in> set (gv_correlation_pairs (snd (evaluate c g))). hits g1 sid item
                  then min 1 (rg_clamp_multiplier g1) else 1)
      in if \<exists>cfg \<in> set (ci_enabled_configs c). enabled cfg \<and> strategy_id cfg = sid
              \<and> length (window_closes (ci_windows c) sid) < rg_min_correlation_samples g1
         then min corr CORRELATION_CLAMP_MULTIPLIER else corr)"
proof -
  have "gv_sizing_multipliers (snd (evaluate c g)) =
      fst (foldl (clamp_cold_leg g1 (ci_windows c))
        (foldl (clamp_pair g1) (initial_multipliers (ci_enabled_configs c))
          (gv_correlation_pairs (snd (evaluate c g))), {}) (ci_enabled_configs c))"
    by (simp add: evaluate_def assms measured_def opened_def Let_def case_prod_unfold)
  note sizing = this
  show ?thesis
    unfolding sizing clamp_cold_get clamp_pairs_get initial_multipliers_get by (simp only: Let_def)
qed

lemma evaluate_pairs:
  "gv_correlation_pairs (snd (evaluate c g))
     = compute_correlation_pairs (ci_enabled_configs c) (ci_windows c) g"
  by (simp add: evaluate_def Let_def case_prod_unfold)

lemma governor_run_const:
  "rg_max_safe_correlation (governor_run g cs) = rg_max_safe_correlation g
   \<and> rg_clamp_multiplier (governor_run g cs) = rg_clamp_multiplier g
   \<and> rg_min_correlation_samples (governor_run g cs) = rg_min_correlation_samples g"
  by (induction cs arbitrary: g)
    (simp_all add: governor_run_def evaluate_measured measured_def measure_legs_const opened_def)

text \<open>
  The sizing multiplier of an enabled leg is 0.6 exactly when its window is still cold
  (fewer than 20 closes) or its returns correlate at 0.85 or more, in absolute value, with
  those of another enabled leg whose window is warm; otherwise it is 1. In particular the
  clamp is never applied twice.
\<close>

theorem sizing_multiplier_exact:
  assumes "distinct (map strategy_id (ci_enabled_configs c))"
    and "sid \<in> strategy_id ` {cfg \<in> set (ci_enabled_configs c). enabled cfg}"
    and "v = snd (evaluate c (governor_run new_governor cs))"
  shows "dict_get (gv_sizing_multipliers v) sid 1 =
    (if \<not> warm (ci_windows c) sid
        \<or> (\<exists>other \<in> strategy_id ` {cfg \<in> set (ci_enabled_configs c). enabled cfg}.
             other \<noteq> sid \<and> warm (ci_windows c) other \<and> 85 / 100 \<le> \<bar>leg_corr (ci_windows c) sid other\<bar>)
     then 6 / 10 else 1)"
proof -
  let ?g = "governor_run new_governor cs" and ?ids = "strategy_id ` {cfg \<in> set (ci_enabled_configs c). enabled cfg}"
  let ?pairs = "compute_correlation_pairs (ci_enabled_configs c) (ci_windows c) ?g"
  have const: "rg_max_safe_correlation (fst (measured c ?g)) = 85 / 100"
      "rg_clamp_multiplier (fst (measured c ?g)) = 6 / 10"
      "rg_min_correlation_samples (fst (measured c ?g)) = MIN_CORRELATION_SAMPLES"
      "rg_min_correlation_samples ?g = MIN_CORRELATION_SAMPLES"
    using governor_run_const [of new_governor cs]
    by (simp_all add: measured_def measure_legs_const opened_def new_governor_def
        ONE_RISK_UNIT_CORRELATION_def CORRELATION_CLAMP_MULTIPLIER_def)
  have "dict_ok ?pairs" unfolding compute_correlation_pairs_def by (rule correlations_ok) simp
  then have mem: "((a, b), r) \<in> set ?pairs \<longleftrightarrow> map_of ?pairs (a, b) = Some r" for a b r
    by (simp add: map_of_eq_Some_iff)
  have comm: "leg_corr ws a b = leg_corr ws b a" for ws a b
    by (simp add: leg_corr_def correlation_commute)
  note exact = correlation_pairs_exact [OF assms(1) const(4), of "ci_windows c"]
  let ?close = "\<lambda>other. other \<noteq> sid \<and> warm (ci_windows c) other
      \<and> 85 / 100 \<le> \<bar>leg_corr (ci_windows c) sid other\<bar>"
  have pair: "(\<exists>item \<in> set ?pairs. hits (fst (measured c ?g)) sid item) \<longleftrightarrow>
      warm (ci_windows c) sid \<and> (\<exists>other \<in> ?ids. ?close other)" (is "?L \<longleftrightarrow> ?R")
  proof
    assume ?L
    then obtain a b r where ab: "((a, b), r) \<in> set ?pairs" "85 / 100 \<le> \<bar>r\<bar>" "sid = a \<or> sid = b"
      by (auto simp: hits_def const)
    then have "a \<noteq> b" "{a, b} \<subseteq> ?ids" "warm (ci_windows c) a" "warm (ci_windows c) b"
        "r = leg_corr (ci_windows c) a b"
      unfolding mem exact by (auto split: if_splits)
    with ab comm show ?R by auto
  next
    assume R: ?R
    then obtain other where "other \<in> ?ids" "?close other" by blast
    with R have "((sid, other), leg_corr (ci_windows c) sid other) \<in> set ?pairs"
      unfolding mem exact using assms(2) by (simp add: eq_commute [of sid])
    with \<open>?close other\<close> show ?L by (intro bexI) (auto simp: hits_def const)
  qed
  have cold: "(\<exists>cfg \<in> set (ci_enabled_configs c). enabled cfg \<and> strategy_id cfg = sid
      \<and> length (window_closes (ci_windows c) sid) < MIN_CORRELATION_SAMPLES)
      \<longleftrightarrow> \<not> warm (ci_windows c) sid"
    using assms(2) by (auto simp: warm_def not_le)
  show ?thesis
    unfolding assms(3) evaluate_multipliers [OF refl] evaluate_pairs const Let_def pair cold
    by (auto simp: CORRELATION_CLAMP_MULTIPLIER_def)
qed

theorem sizing_multiplier_exact_witness:
  "dict_get (gv_sizing_multipliers (snd (evaluate (sample_cycle 0 50000 1)
     (governor_run new_governor [])))) ''qqq'' 1 = 6 / 10"
proof -
  let ?c = "sample_cycle 0 50000 1"
  have "distinct (map strategy_id (ci_enabled_configs ?c))"
      "''qqq'' \<in> strategy_id ` {cfg \<in> set (ci_enabled_configs ?c). enabled cfg}"
    by (simp, intro image_eqI [of _ _ sample_leg]) (simp_all add: sample_leg_def)
  from sizing_multiplier_exact [OF this refl, of "[]"] show ?thesis
    by (simp add: warm_def window_closes_def MIN_CORRELATION_SAMPLES_def) (simp add: sample_cycle_def)
qed

section \<open>What survives a restart\<close>

text \<open>The per-leg state the governor decides with.\<close>

definition leg_state :: "risk_governor \<Rightarrow> string \<Rightarrow> strategy_state" where
  "leg_state g sid = strategy_state_of g sid"

definition state_finite :: "risk_governor \<Rightarrow> bool" where
  "state_finite g \<longleftrightarrow> finite (rg_strategy_exit_only g)"

lemma restore_leg_state:
  "leg_state (restore_strategy g item) sid = (if sid = fst item then snd item else leg_state g sid)"
  by (cases item) (auto simp: leg_state_def strategy_state_of_def restore_strategy_def)

lemma restore_all_leg_state:
  "distinct (map fst items) \<Longrightarrow>
     leg_state (foldl restore_strategy g items) sid
       = (case map_of items sid of Some row \<Rightarrow> row | None \<Rightarrow> leg_state g sid)"
proof (induction items arbitrary: g)
  case (Cons item items)
  obtain k row where item: "item = (k, row)" by (cases item)
  show ?case
  proof (cases "sid = k")
    case True
    with Cons.prems item have "map_of items sid = None" by (simp add: map_of_eq_None_iff)
    with Cons item True show ?thesis by (simp add: restore_leg_state)
  next
    case False
    with Cons item show ?thesis by (simp add: restore_leg_state split: option.split)
  qed
qed simp

lemma restore_all_equity:
  "rg_peak_broker_equity (foldl restore_strategy g items) = rg_peak_broker_equity g"
  by (induction items arbitrary: g) (simp_all add: restore_strategy_def case_prod_unfold)

lemma leg_state_outside:
  "sid \<notin> state_ids g \<Longrightarrow> leg_state g sid = \<lparr>ss_peak_equity = 0, ss_trailing_drawdown_pct = 0, ss_exit_only_mode = False\<rparr>"
  by (auto simp: leg_state_def strategy_state_of_def state_ids_def dict_get_def
      dest!: map_of_SomeD split: option.splits intro: rev_image_eqI)

lemma finite_state_ids: "state_finite g \<Longrightarrow> finite (state_ids g)"
  by (simp add: state_finite_def state_ids_def)

definition strategies_of :: "risk_governor \<Rightarrow> (string, strategy_state) dict" where
  "strategies_of g = map (\<lambda>sid. (sid, leg_state g sid)) (sorted_list_of_set (state_ids g))"

lemma pl_strategies_serialize [simp]: "pl_strategies (serialize_risk_state g) = strategies_of g"
  by (simp add: serialize_risk_state_def strategies_of_def leg_state_def)

lemma strategies_of_keys: "map fst (strategies_of g) = sorted_list_of_set (state_ids g)"
  by (simp add: strategies_of_def comp_def)

lemma strategies_of_lookup:
  assumes "state_finite g"
  shows "map_of (strategies_of g) sid = (if sid \<in> state_ids g then Some (leg_state g sid) else None)"
proof -
  have "map_of (map (\<lambda>k. (k, f k)) ks) k = (if k \<in> set ks then Some (f k) else None)"
    for f :: "string \<Rightarrow> strategy_state" and ks k by (induction ks) auto
  then show ?thesis
    using finite_state_ids [OF assms] by (simp add: strategies_of_def)
qed

text \<open>Rehydrating a fresh governor from a payload with the current stamp.\<close>

lemma rehydrate_fresh:
  assumes "pl_strategies pay = strategies_of g" and "pl_formula_version pay = Some FORMULA_VERSION"
    and fin: "state_finite g" and "state_ids g \<noteq> {}"
  shows "snd (rehydrate_risk_state fp (Some pay) baselines new_governor)
    \<and> leg_state (fst (rehydrate_risk_state fp (Some pay) baselines new_governor)) = leg_state g
    \<and> rg_peak_broker_equity (fst (rehydrate_risk_state fp (Some pay) baselines new_governor))
        = (case pl_peak_broker_equity pay of None \<Rightarrow> 0 | Some e \<Rightarrow> e)"
proof -
  have ne: "strategies_of g \<noteq> []"
    using assms(4) finite_state_ids [OF fin] by (simp add: strategies_of_def)
  have "leg_state (foldl restore_strategy h (strategies_of g)) sid = leg_state g sid"
    if "leg_state h = leg_state new_governor" for h sid
  proof -
    have "leg_state new_governor s = \<lparr>ss_peak_equity = 0, ss_trailing_drawdown_pct = 0, ss_exit_only_mode = False\<rparr>" for s
      by (simp add: leg_state_def strategy_state_of_def new_governor_def)
    moreover have "distinct (map fst (strategies_of g))" by (simp add: strategies_of_keys)
    ultimately show ?thesis
      using leg_state_outside [of sid g] that
      by (simp add: restore_all_leg_state strategies_of_lookup [OF fin])
  qed
  moreover have "leg_state (new_governor\<lparr>rg_peak_broker_equity := e\<rparr>) = leg_state new_governor" for e
    by (simp add: fun_eq_iff leg_state_def strategy_state_of_def)
  moreover have "leg_state (h\<lparr>rg_last_persisted_fingerprint := f\<rparr>) = leg_state h" for h f
    by (simp add: fun_eq_iff leg_state_def strategy_state_of_def)
  ultimately show ?thesis
    using assms(1,2) ne by (auto simp: rehydrate_risk_state_def Let_def restore_all_equity)
qed

text \<open>The store gives back the strategies it was given, under one stamp.\<close>

lemma remdups_const: "xs \<noteq> [] \<Longrightarrow> remdups (map (\<lambda>_. x) xs) = [x]"
proof (induction xs)
  case (Cons a xs)
  then show ?case by (cases xs) auto
qed simp

lemma state_of_row_of_state: "state_of_row (row_of_state now stamp item) = item"
proof -
  obtain sid row where "item = (sid, row)" by (cases item)
  then show ?thesis by (cases row) (simp add: state_of_row_def row_of_state_def)
qed

lemma store_roundtrip:
  assumes "strategies_of g \<noteq> []" and "pay = serialize_risk_state g"
  shows "load_portfolio_risk_state (persist_portfolio_risk_state now pay db)
    = Some (pay\<lparr>pl_peak_broker_equity := None\<rparr>)"
proof -
  let ?rows = "map (row_of_state now (Some FORMULA_VERSION)) (strategies_of g)"
  have keys: "map rr_strategy_id ?rows = sorted_list_of_set (state_ids g)"
    using strategies_of_keys [of g] by (simp add: row_of_state_def comp_def)
  have "sort_key rr_strategy_id ?rows = ?rows"
    by (rule sort_key_id_if_sorted, unfold keys) simp
  moreover have "map state_of_row ?rows = strategies_of g"
    by (simp add: comp_def state_of_row_of_state)
  moreover have "remdups (map rr_formula_version ?rows) = [Some FORMULA_VERSION]"
    using assms(1) by (simp add: row_of_state_def comp_def remdups_const)
  ultimately show ?thesis
    using assms
    by (simp add: load_portfolio_risk_state_def persist_portfolio_risk_state_def Let_def
        common_stamp_def serialize_risk_state_def [of g] strategies_of_def [symmetric]
        flip: leg_state_def)
qed

text \<open>
  C18: A restart through the SQLite store restores every leg's peak, drawdown and exit-only
  latch exactly, and reports that it restored; but the store has no column for the account
  high-water, so the denominator of every later drawdown starts again from zero.
\<close>

theorem restart_restores_legs_not_high_water:
  assumes "finite (rg_strategy_exit_only g)" and "state_ids g \<noteq> {}"
    and "h = rehydrate_risk_state fp
      (load_portfolio_risk_state (persist_portfolio_risk_state now (serialize_risk_state g) db))
      baselines new_governor"
  shows "snd h \<and> leg_state (fst h) = leg_state g \<and> rg_peak_broker_equity (fst h) = 0"
proof -
  have fin: "state_finite g" using assms(1) by (simp add: state_finite_def)
  then have ne: "strategies_of g \<noteq> []"
    using assms(2) finite_state_ids by (simp add: strategies_of_def)
  have "rehydrate_risk_state fp (Some ((serialize_risk_state g)\<lparr>pl_peak_broker_equity := None\<rparr>))
      baselines new_governor = h"
    unfolding assms(3) store_roundtrip [OF ne refl] ..
  then show ?thesis
    using rehydrate_fresh [of "(serialize_risk_state g)\<lparr>pl_peak_broker_equity := None\<rparr>" g fp baselines]
      fin assms(2)
    by (simp add: serialize_risk_state_def [of g] strategies_of_def flip: leg_state_def)
qed

theorem restart_restores_legs_not_high_water_witness:
  "rg_peak_broker_equity (fst (rehydrate_risk_state (\<lambda>_. [])
     (load_portfolio_risk_state (persist_portfolio_risk_state 0
        (serialize_risk_state (new_governor\<lparr>rg_strategy_exit_only := {''qqq''},
           rg_peak_broker_equity := 200000\<rparr>))
        \<lparr>rs_live = [], rs_archive = []\<rparr>)) None new_governor)) = 0"
  using restart_restores_legs_not_high_water
    [of "new_governor\<lparr>rg_strategy_exit_only := {''qqq''}, rg_peak_broker_equity := 200000\<rparr>", OF _ _ refl]
  by (simp add: state_ids_def)

text \<open>
  Consequence: a leg that fell by 8,000 on an account that once held 200,000 and now holds
  100,000 is at four percent and trades on; the same history with a restart before the last
  cycle reads eight percent and the leg is exit-only.
\<close>

definition falling_leg :: "cycle_input list" where
  "falling_leg = [sample_cycle 8000 200000 1, sample_cycle 8000 100000 1]"

definition restarted :: "risk_governor \<Rightarrow> risk_governor" where
  "restarted g = fst (rehydrate_risk_state (\<lambda>_. [])
     (load_portfolio_risk_state
        (persist_portfolio_risk_state 0 (serialize_risk_state g) \<lparr>rs_live = [], rs_archive = []\<rparr>))
     None new_governor)"

theorem restart_shrinks_denominator:
  "gv_strategy_drawdowns (snd (evaluate (sample_cycle 0 100000 1)
     (governor_run new_governor falling_leg))) = [(''qqq'', 4 / 100)]
   \<and> gv_exit_only_strategy_ids (snd (evaluate (sample_cycle 0 100000 1)
       (governor_run new_governor falling_leg))) = {}
   \<and> gv_strategy_drawdowns (snd (evaluate (sample_cycle 0 100000 1)
       (restarted (governor_run new_governor falling_leg)))) = [(''qqq'', 8 / 100)]
   \<and> gv_exit_only_strategy_ids (snd (evaluate (sample_cycle 0 100000 1)
       (restarted (governor_run new_governor falling_leg)))) = {''qqq''}"
  unfolding governor_run_def falling_leg_def foldl.simps evaluate_measured by code_simp

text \<open>State stamped under another formula is refused whole: nothing of it is kept.\<close>

lemma retired_formula_refused:
  assumes "pl_strategies pay \<noteq> []" and "pl_formula_version pay \<noteq> Some FORMULA_VERSION"
  shows "rehydrate_risk_state fp (Some pay) baselines g
    = (g\<lparr>rg_equity_history_by_strategy := [], rg_strategy_peaks := [], rg_strategy_drawdowns := [],
         rg_strategy_exit_only := {}, rg_peak_broker_equity := 0,
         rg_last_persisted_fingerprint := []\<rparr>, False)"
  using assms by (simp add: rehydrate_risk_state_def Let_def)

text \<open>An archived reset loses no row.\<close>

lemma archive_keeps_rows:
  "map ar_row (rs_archive (fst (archive_portfolio_risk_state now r db)))
     = map ar_row (rs_archive db) @ rs_live db
   \<and> load_portfolio_risk_state (fst (archive_portfolio_risk_state now r db)) = None
   \<and> snd (archive_portfolio_risk_state now r db) = length (rs_live db)"
  by (simp add: archive_portfolio_risk_state_def load_portfolio_risk_state_def comp_def)

text \<open>An unchanged state is written once.\<close>

lemma persist_is_deduplicated:
  "snd (maybe_enqueue_persist fp (fst (maybe_enqueue_persist fp g))) = None"
proof -
  have "serialize_risk_state (g\<lparr>rg_last_persisted_fingerprint := f\<rparr>) = serialize_risk_state g" for f
    by (simp add: serialize_risk_state_def state_ids_def strategy_state_of_def fun_eq_iff)
  then show ?thesis by (simp add: maybe_enqueue_persist_def Let_def)
qed

text \<open>Exit-only blocks entries and only entries.\<close>

lemma exits_always_pass:
  "blocks_new_entries_for sid (Some EXIT) v = False" "blocks_new_entries_for sid (Some HOLD) v = False"
  "blocks_new_entries_for sid (Some LONG) v = (sid \<in> gv_exit_only_strategy_ids v)"
  by (simp_all add: blocks_new_entries_for_def)

end
