(* ===== verification/Write_Queue.thy ===== *)
theory Write_Queue
  imports Prelude
begin

text \<open>
  The durable write queue, \<open>src/persistence/db_queue.py\<close> with the handler registry of
  \<open>src/persistence/store_handlers.py\<close>: a write-ahead stage in SQLite, drained in batches of
  the oldest rows by a rate-limited worker, grouped by kind and target, with one fault
  domain per group. What a flush meets (SQLite raises, Postgres fails, the delete of the
  staged rows fails) is an argument, as is the clock. The logs \<open>dw_sqlite\<close> and \<open>dw_pg\<close>
  hold the writes handed to the stores that were committed there; a payload is its JSON
  text. Enqueues run between the iterations of a drain, not inside one.
\<close>

section \<open>Queue data\<close>

datatype write_kind =
    TRADE_ATTRIBUTION | PORTFOLIO_CONSTRAINT | COUNTERFACTUAL_STATE | PORTFOLIO_RISK_STATE
  | CYCLE_METRICS | TRIAL_LEDGER | DIAGNOSTIC_REPORT | QUARANTINED_HYPOTHESIS | HEARTBEAT
  | CONFIG_HASH_CHAIN | RECONCILIATION

text \<open>\<open>qw_record_type\<close> is the payload's entry of that name, which the reconciliation store reads.\<close>

record queued_write =
  qw_kind :: write_kind
  qw_payload :: string
  qw_record_type :: "string option"
  qw_db_path :: string

record staged_write =
  sw_stage_id :: nat
  sw_item :: queued_write

type_synonym group_key = "write_kind \<times> string"

definition key_of :: "queued_write \<Rightarrow> group_key" where
  "key_of q = (qw_kind q, qw_db_path q)"

text \<open>The kinds \<open>store_handlers.py\<close> registers.\<close>

definition REGISTERED_KINDS :: "write_kind set" where
  "REGISTERED_KINDS =
     {TRIAL_LEDGER, DIAGNOSTIC_REPORT, QUARANTINED_HYPOTHESIS, HEARTBEAT, CONFIG_HASH_CHAIN,
      RECONCILIATION}"

definition WAL_BACKLOG_HIGH_WATER :: nat where
  "WAL_BACKLOG_HIGH_WATER = 128"

definition WRITER_MAX_BATCH_SIZE :: int where
  "WRITER_MAX_BATCH_SIZE = 64"

definition WRITER_QUEUE_MAXLEN :: nat where
  "WRITER_QUEUE_MAXLEN = 50000"

section \<open>The leaky bucket\<close>

record drainer =
  ld_base_max_batches :: int
  ld_burst_max_batches :: int
  ld_interval_seconds :: pyfloat
  ld_max_batches :: int
  ld_tokens :: pyfloat
  ld_last_refill :: pyfloat

definition new_drainer :: "int \<Rightarrow> int \<Rightarrow> pyfloat \<Rightarrow> pyfloat \<Rightarrow> drainer" where
  "new_drainer max_batches burst interval now =
     (let base = max max_batches 1
      in \<lparr>ld_base_max_batches = base, ld_burst_max_batches = max burst base,
          ld_interval_seconds = max interval 1, ld_max_batches = base,
          ld_tokens = real_of_int base, ld_last_refill = now\<rparr>)"

definition update_backlog_depth :: "nat \<Rightarrow> drainer \<Rightarrow> drainer" where
  "update_backlog_depth depth d =
     (let target = (if WAL_BACKLOG_HIGH_WATER \<le> depth then ld_burst_max_batches d
                    else ld_base_max_batches d)
      in if target = ld_max_batches d then d
         else if ld_max_batches d < target
         then d\<lparr>ld_max_batches := target, ld_tokens := real_of_int target\<rparr>
         else d\<lparr>ld_max_batches := target, ld_tokens := min (ld_tokens d) (real_of_int target)\<rparr>)"

definition refill :: "pyfloat \<Rightarrow> drainer \<Rightarrow> drainer" where
  "refill now d =
     (let elapsed = now - ld_last_refill d;
          amount = (elapsed / ld_interval_seconds d) * real_of_int (ld_max_batches d)
      in if elapsed \<le> 0 then d
         else if amount \<le> 0 then d
         else d\<lparr>ld_tokens := min (real_of_int (ld_max_batches d)) (ld_tokens d + amount),
                ld_last_refill := now\<rparr>)"

definition acquire :: "bool \<Rightarrow> pyfloat \<Rightarrow> drainer \<Rightarrow> drainer \<times> bool" where
  "acquire force now d =
     (if force then (d, True)
      else
        let d' = refill now d
        in if 1 \<le> ld_tokens d' then (d'\<lparr>ld_tokens := ld_tokens d' - 1\<rparr>, True) else (d', False))"

section \<open>The writer\<close>

record writer_stats =
  ws_enqueued :: nat
  ws_flushed :: nat
  ws_postgres_batches :: nat
  ws_sqlite_batches :: nat
  ws_wal_deleted :: nat
  ws_wal_throttled :: nat
  ws_errors :: nat

record db_writer =
  dw_max_batch_size :: nat
  dw_postgres_configured :: bool
  dw_stage :: "staged_write list"
  dw_next_id :: nat
  dw_wake_queue :: "nat list"
  dw_limiter :: drainer
  dw_stats :: writer_stats
  dw_sqlite :: "queued_write list"
  dw_pg :: "queued_write list"

definition new_writer :: "int \<Rightarrow> bool \<Rightarrow> pyfloat \<Rightarrow> db_writer" where
  "new_writer max_batch postgres now =
     \<lparr>dw_max_batch_size = nat (max max_batch 1), dw_postgres_configured = postgres, dw_stage = [],
      dw_next_id = 1, dw_wake_queue = [], dw_limiter = new_drainer 2 8 900 now,
      dw_stats = \<lparr>ws_enqueued = 0, ws_flushed = 0, ws_postgres_batches = 0,
        ws_sqlite_batches = 0, ws_wal_deleted = 0, ws_wal_throttled = 0, ws_errors = 0\<rparr>,
      dw_sqlite = [], dw_pg = []\<rparr>"

definition enqueue :: "queued_write \<Rightarrow> db_writer \<Rightarrow> db_writer" where
  "enqueue item w =
     (let wake = dw_wake_queue w @ [dw_next_id w]
      in w\<lparr>dw_stage := dw_stage w @ [\<lparr>sw_stage_id = dw_next_id w, sw_item = item\<rparr>],
           dw_next_id := dw_next_id w + 1,
           dw_wake_queue := drop (length wake - WRITER_QUEUE_MAXLEN) wake,
           dw_stats := (dw_stats w)\<lparr>ws_enqueued := ws_enqueued (dw_stats w) + 1\<rparr>\<rparr>)"

definition pending_write_ahead_count :: "db_writer \<Rightarrow> nat" where
  "pending_write_ahead_count w = length (dw_stage w)"

definition fetch_staged_batch :: "nat \<Rightarrow> db_writer \<Rightarrow> staged_write list" where
  "fetch_staged_batch limit w = take (max limit 1) (sort_key sw_stage_id (dw_stage w))"

definition delete_staged_rows :: "nat list \<Rightarrow> db_writer \<Rightarrow> db_writer" where
  "delete_staged_rows ids w =
     (if ids = [] then w
      else w\<lparr>dw_stage := filter (\<lambda>r. sw_stage_id r \<notin> set ids) (dw_stage w),
             dw_stats := (dw_stats w)\<lparr>ws_wal_deleted := ws_wal_deleted (dw_stats w) + length ids\<rparr>\<rparr>)"

definition drain_wake_signals :: "db_writer \<Rightarrow> db_writer" where
  "drain_wake_signals w = w\<lparr>dw_wake_queue := []\<rparr>"

section \<open>Flushing one group\<close>

text \<open>
  What the stores do to the flush of one group. A SQLite error comes after some rows when the
  store commits them one at a time.
\<close>

datatype fate = Written | Sqlite_raises nat | Postgres_fails

definition bump_sqlite :: "queued_write list \<Rightarrow> db_writer \<Rightarrow> db_writer" where
  "bump_sqlite qs w =
     w\<lparr>dw_sqlite := dw_sqlite w @ qs,
       dw_stats := (dw_stats w)\<lparr>ws_sqlite_batches := ws_sqlite_batches (dw_stats w) + 1\<rparr>\<rparr>"

definition bump_pg :: "queued_write list \<Rightarrow> db_writer \<Rightarrow> db_writer" where
  "bump_pg qs w =
     w\<lparr>dw_pg := dw_pg w @ qs,
       dw_stats := (dw_stats w)\<lparr>ws_postgres_batches := ws_postgres_batches (dw_stats w) + 1\<rparr>\<rparr>"

text \<open>
  The flushes with a Postgres drain (attribution, constraints, counterfactuals): SQLite in one
  transaction, then Postgres, whose failure only makes the flush return \<open>False\<close>. \<open>None\<close> is a
  raised exception. A group is never empty.
\<close>

definition flush_replicated :: "fate \<Rightarrow> queued_write list \<Rightarrow> db_writer \<Rightarrow> db_writer \<times> bool option" where
  "flush_replicated f qs w =
     (case f of
        Sqlite_raises k \<Rightarrow> (w, None)
      | Written \<Rightarrow>
          (let w1 = bump_sqlite qs w
           in if dw_postgres_configured w then (bump_pg qs w1, Some True) else (w1, Some True))
      | Postgres_fails \<Rightarrow> (bump_sqlite qs w, Some (\<not> dw_postgres_configured w)))"

definition flush_trade_attribution_batch ::
  "fate \<Rightarrow> queued_write list \<Rightarrow> db_writer \<Rightarrow> db_writer \<times> bool option" where
  "flush_trade_attribution_batch = flush_replicated"

definition flush_portfolio_constraint_batch ::
  "fate \<Rightarrow> queued_write list \<Rightarrow> db_writer \<Rightarrow> db_writer \<times> bool option" where
  "flush_portfolio_constraint_batch = flush_replicated"

definition flush_counterfactual_batch ::
  "fate \<Rightarrow> queued_write list \<Rightarrow> db_writer \<Rightarrow> db_writer \<times> bool option" where
  "flush_counterfactual_batch = flush_replicated"

lemmas flush_replicated_defs =
  flush_trade_attribution_batch_def flush_portfolio_constraint_batch_def flush_counterfactual_batch_def
  flush_replicated_def

definition flush_portfolio_risk_state_batch ::
  "fate \<Rightarrow> queued_write list \<Rightarrow> db_writer \<Rightarrow> db_writer \<times> bool option" where
  "flush_portfolio_risk_state_batch f qs w =
     (case f of Sqlite_raises k \<Rightarrow> (w, None) | _ \<Rightarrow> (bump_sqlite [last qs] w, Some True))"

text \<open>Cycle metrics are committed row by row.\<close>

definition flush_each :: "fate \<Rightarrow> queued_write list \<Rightarrow> db_writer \<Rightarrow> db_writer \<times> bool option" where
  "flush_each f qs w =
     (case f of
        Sqlite_raises k \<Rightarrow> (w\<lparr>dw_sqlite := dw_sqlite w @ take k qs\<rparr>, None)
      | _ \<Rightarrow> (bump_sqlite qs w, Some True))"

text \<open>
  A registered append-only store writes the rows of a group in one transaction. (The store of
  diagnostic reports and hypotheses is not in the repository; it is taken as the append-only store
  that \<open>store_handlers.py\<close> registers.)
\<close>

definition flush_append :: "fate \<Rightarrow> queued_write list \<Rightarrow> db_writer \<Rightarrow> db_writer \<times> bool option" where
  "flush_append f qs w =
     (case f of Sqlite_raises k \<Rightarrow> (w, None) | _ \<Rightarrow> (bump_sqlite qs w, Some True))"

text \<open>
  The reconciliation store routes the rows by record type into two tables, the fills in a first
  transaction and the timings in a second one; a row of another type is in neither.
\<close>

definition persist_fill_costs :: "queued_write list \<Rightarrow> queued_write list" where
  "persist_fill_costs qs = filter (\<lambda>q. qw_record_type q = Some ''fill_cost'') qs"

definition persist_timing_deltas :: "queued_write list \<Rightarrow> queued_write list" where
  "persist_timing_deltas qs = filter (\<lambda>q. qw_record_type q = Some ''timing_delta'') qs"

definition flush_reconciliation :: "fate \<Rightarrow> queued_write list \<Rightarrow> db_writer \<Rightarrow> db_writer \<times> bool option" where
  "flush_reconciliation f qs w =
     (case f of
        Sqlite_raises 0 \<Rightarrow> (w, None)
      | Sqlite_raises (Suc k) \<Rightarrow> (w\<lparr>dw_sqlite := dw_sqlite w @ persist_fill_costs qs\<rparr>, None)
      | _ \<Rightarrow> (bump_sqlite (persist_fill_costs qs @ persist_timing_deltas qs) w, Some True))"

definition flush_kind ::
  "write_kind set \<Rightarrow> fate \<Rightarrow> write_kind \<Rightarrow> queued_write list \<Rightarrow> db_writer \<Rightarrow> db_writer \<times> bool option" where
  "flush_kind handlers f kind qs w =
     (if kind \<in> handlers
      then (if kind = RECONCILIATION then flush_reconciliation f qs w else flush_append f qs w)
      else case kind of
             TRADE_ATTRIBUTION \<Rightarrow> flush_trade_attribution_batch f qs w
           | PORTFOLIO_CONSTRAINT \<Rightarrow> flush_portfolio_constraint_batch f qs w
           | COUNTERFACTUAL_STATE \<Rightarrow> flush_counterfactual_batch f qs w
           | PORTFOLIO_RISK_STATE \<Rightarrow> flush_portfolio_risk_state_batch f qs w
           | CYCLE_METRICS \<Rightarrow> flush_each f qs w
           | _ \<Rightarrow> (w, Some False))"

text \<open>The loop body of \<open>_persist_staged_batch\<close>: an exception is counted and isolated.\<close>

definition persist_group ::
  "write_kind set \<Rightarrow> (group_key \<Rightarrow> fate) \<Rightarrow> db_writer \<times> nat list \<Rightarrow> group_key \<times> staged_write list
     \<Rightarrow> db_writer \<times> nat list" where
  "persist_group handlers fates st grp =
     (let (w, committed) = st;
          (key, items) = grp;
          (w', flushed) = flush_kind handlers (fates key) (fst key) (map sw_item items) w
      in case flushed of
           None \<Rightarrow> (w'\<lparr>dw_stats := (dw_stats w')\<lparr>ws_errors := ws_errors (dw_stats w') + 1\<rparr>\<rparr>, committed)
         | Some True \<Rightarrow> (w', committed @ map sw_stage_id items)
         | Some False \<Rightarrow> (w', committed))"

definition add_to_group ::
  "(group_key, staged_write list) dict \<Rightarrow> staged_write \<Rightarrow> (group_key, staged_write list) dict" where
  "add_to_group grouped r =
     AList.update (key_of (sw_item r)) (dict_get grouped (key_of (sw_item r)) [] @ [r]) grouped"

definition persist_staged_batch ::
  "write_kind set \<Rightarrow> (group_key \<Rightarrow> fate) \<Rightarrow> staged_write list \<Rightarrow> db_writer \<Rightarrow> db_writer \<times> nat list" where
  "persist_staged_batch handlers fates batch w =
     foldl (persist_group handlers fates) (w, []) (foldl add_to_group [] batch)"

section \<open>Draining\<close>

text \<open>The faults of one drain iteration: per group, and for the delete of the staged rows.\<close>

record faults =
  fl_groups :: "group_key \<Rightarrow> fate"
  fl_delete_fails :: bool

datatype drained = Stop | Again

definition drain_once :: "write_kind set \<Rightarrow> faults \<Rightarrow> db_writer \<Rightarrow> db_writer \<times> drained" where
  "drain_once handlers fl w =
     (let batch = fetch_staged_batch (dw_max_batch_size w) w
      in if batch = [] then (drain_wake_signals w, Stop)
         else
           let (w1, ids) = persist_staged_batch handlers (fl_groups fl) batch w
           in if ids = [] then (w1, Stop)
              else if fl_delete_fails fl
              then (w1\<lparr>dw_stats := (dw_stats w1)\<lparr>ws_errors := ws_errors (dw_stats w1) + 1\<rparr>\<rparr>, Stop)
              else
                let w2 = delete_staged_rows ids w1
                in (drain_wake_signals
                      (w2\<lparr>dw_stats := (dw_stats w2)\<lparr>ws_flushed := ws_flushed (dw_stats w2) + length ids\<rparr>\<rparr>),
                    Again))"

section \<open>What a flush does\<close>

text \<open>What the flush of a group leaves in SQLite, and its answer.\<close>

definition written :: "write_kind set \<Rightarrow> fate \<Rightarrow> write_kind \<Rightarrow> queued_write list \<Rightarrow> queued_write list" where
  "written handlers f kind qs =
     (if kind \<notin> handlers \<and> kind \<in> REGISTERED_KINDS then []
      else if kind = RECONCILIATION
      then (case f of
              Sqlite_raises k \<Rightarrow> if k = 0 then [] else persist_fill_costs qs
            | _ \<Rightarrow> persist_fill_costs qs @ persist_timing_deltas qs)
      else case f of
             Sqlite_raises k \<Rightarrow> if kind \<notin> handlers \<and> kind = CYCLE_METRICS then take k qs else []
           | _ \<Rightarrow> if kind \<notin> handlers \<and> kind = PORTFOLIO_RISK_STATE then [last qs] else qs)"

definition answer :: "write_kind set \<Rightarrow> bool \<Rightarrow> fate \<Rightarrow> write_kind \<Rightarrow> bool option" where
  "answer handlers pg f kind =
     (if kind \<notin> handlers \<and> kind \<in> REGISTERED_KINDS then Some False
      else case f of
             Sqlite_raises k \<Rightarrow> None
           | Written \<Rightarrow> Some True
           | Postgres_fails \<Rightarrow>
               Some (\<not> (pg \<and> kind \<notin> handlers
                 \<and> kind \<in> {TRADE_ATTRIBUTION, PORTFOLIO_CONSTRAINT, COUNTERFACTUAL_STATE})))"

text \<open>The fields a flush leaves alone.\<close>

definition queue_view :: "db_writer \<Rightarrow> nat \<times> bool \<times> staged_write list \<times> nat" where
  "queue_view w = (dw_max_batch_size w, dw_postgres_configured w, dw_stage w, dw_next_id w)"

lemma queue_view_eq:
  "queue_view w = queue_view w' \<longleftrightarrow>
     dw_max_batch_size w = dw_max_batch_size w' \<and> dw_postgres_configured w = dw_postgres_configured w'
     \<and> dw_stage w = dw_stage w' \<and> dw_next_id w = dw_next_id w'"
  by (simp add: queue_view_def)

lemma bump_fields [simp]:
  "queue_view (bump_sqlite qs w) = queue_view w" "queue_view (bump_pg qs w) = queue_view w"
  "dw_sqlite (bump_sqlite qs w) = dw_sqlite w @ qs" "dw_sqlite (bump_pg qs w) = dw_sqlite w"
  "queue_view (w\<lparr>dw_sqlite := x\<rparr>) = queue_view w"
  by (simp_all add: bump_sqlite_def bump_pg_def queue_view_def)

lemma flush_kind_effect:
  "queue_view (fst (flush_kind handlers f kind qs w)) = queue_view w
   \<and> dw_sqlite (fst (flush_kind handlers f kind qs w)) = dw_sqlite w @ written handlers f kind qs
   \<and> snd (flush_kind handlers f kind qs w) = answer handlers (dw_postgres_configured w) f kind"
  by (cases kind; cases f)
    (auto simp: flush_kind_def flush_each_def flush_append_def flush_reconciliation_def flush_replicated_defs
      flush_portfolio_risk_state_batch_def written_def answer_def REGISTERED_KINDS_def Let_def split: nat.split)

definition group_answer :: "write_kind set \<Rightarrow> bool \<Rightarrow> (group_key \<Rightarrow> fate) \<Rightarrow> group_key \<Rightarrow> bool" where
  "group_answer handlers pg fates key \<longleftrightarrow> answer handlers pg (fates key) (fst key) = Some True"

lemma persist_group_effect:
  fixes w :: db_writer
  shows "queue_view (fst (persist_group handlers fates (w, ids) (key, items))) = queue_view w
   \<and> dw_sqlite (fst (persist_group handlers fates (w, ids) (key, items)))
       = dw_sqlite w @ written handlers (fates key) (fst key) (map sw_item items)
   \<and> snd (persist_group handlers fates (w, ids) (key, items))
       = ids @ (if group_answer handlers (dw_postgres_configured w) fates key
                then map sw_stage_id items else [])"
  using flush_kind_effect [of handlers "fates key" "fst key" "map sw_item items" w]
  by (auto simp: persist_group_def group_answer_def queue_view_def case_prod_unfold Let_def
      split: option.split bool.split)

lemma persist_groups_effect:
  fixes w :: db_writer
  shows "queue_view (fst (foldl (persist_group handlers fates) (w, ids) gs)) = queue_view w
   \<and> dw_sqlite (fst (foldl (persist_group handlers fates) (w, ids) gs))
       = dw_sqlite w @ concat (map (\<lambda>(key, items). written handlers (fates key) (fst key) (map sw_item items)) gs)
   \<and> snd (foldl (persist_group handlers fates) (w, ids) gs)
       = ids @ concat (map (\<lambda>(key, items). if group_answer handlers (dw_postgres_configured w) fates key
                                           then map sw_stage_id items else []) gs)"
proof (induction gs arbitrary: w ids)
  case Nil
  then show ?case by simp
next
  case (Cons grp gs)
  obtain key items where grp: "grp = (key, items)" by (cases grp)
  obtain w1 ids1 where st: "persist_group handlers fates (w, ids) (key, items) = (w1, ids1)"
    by (cases "persist_group handlers fates (w, ids) (key, items)")
  have "queue_view w1 = queue_view w"
      and "dw_sqlite w1 = dw_sqlite w @ written handlers (fates key) (fst key) (map sw_item items)"
      and "ids1 = ids @ (if group_answer handlers (dw_postgres_configured w) fates key
                         then map sw_stage_id items else [])"
    using persist_group_effect [of handlers fates w ids key items] st by simp_all
  moreover from this have "dw_postgres_configured w1 = dw_postgres_configured w"
    by (simp add: queue_view_eq)
  ultimately show ?case using Cons.IH [of w1 ids1] by (simp add: grp st)
qed

section \<open>Grouping a batch\<close>

definition of_key :: "group_key \<Rightarrow> staged_write list \<Rightarrow> staged_write list" where
  "of_key key rs = filter (\<lambda>r. key_of (sw_item r) = key) rs"

definition groups :: "staged_write list \<Rightarrow> (group_key, staged_write list) dict" where
  "groups batch = foldl add_to_group [] batch"

lemma groups_fold:
  "dict_get (foldl add_to_group g batch) key [] = dict_get g key [] @ of_key key batch"
  by (induction batch arbitrary: g) (auto simp: add_to_group_def of_key_def)

lemma groups_get: "dict_get (groups batch) key [] = of_key key batch"
  by (simp add: groups_def groups_fold)

lemma groups_ok: "dict_ok (groups batch)"
proof -
  have "dict_ok g \<Longrightarrow> dict_ok (foldl add_to_group g batch)" for g
    by (induction batch arbitrary: g) (auto simp: add_to_group_def)
  then show ?thesis by (simp add: groups_def)
qed

lemma groups_nonempty: "(key, items) \<in> set (groups batch) \<Longrightarrow> items \<noteq> []"
proof -
  have upd: "set (AList.update k v g) \<subseteq> insert (k, v) (set g)" for k v and g :: "(group_key, staged_write list) dict"
    by (induction g) auto
  have "\<forall>(k, v) \<in> set g. v \<noteq> [] \<Longrightarrow> \<forall>(k, v) \<in> set (foldl add_to_group g batch). v \<noteq> []" for g
  proof (induction batch arbitrary: g)
    case (Cons r batch)
    have "\<forall>(k, v) \<in> set (add_to_group g r). v \<noteq> []"
      using Cons.prems upd [of "key_of (sw_item r)" "dict_get g (key_of (sw_item r)) [] @ [r]" g]
      by (auto simp: add_to_group_def)
    with Cons.IH show ?case by simp
  qed simp
  from this [of "[]"] show "(key, items) \<in> set (groups batch) \<Longrightarrow> items \<noteq> []"
    by (auto simp: groups_def)
qed

lemma groups_lookup:
  "map_of (groups batch) key = (if of_key key batch = [] then None else Some (of_key key batch))"
proof (cases "map_of (groups batch) key")
  case None
  with groups_get [of batch key] show ?thesis by (simp add: dict_get_def)
next
  case (Some items)
  with groups_get [of batch key] groups_nonempty [OF map_of_SomeD [OF Some]] show ?thesis
    by (auto simp: dict_get_def)
qed

lemma groups_mem: "(key, items) \<in> set (groups batch) \<Longrightarrow> items = of_key key batch \<and> items \<noteq> []"
  using map_of_is_SomeI [OF groups_ok, of key items batch] groups_nonempty [of key items batch]
  by (simp add: groups_lookup split: if_splits)

text \<open>Concatenating over a dictionary what belongs to the keys, seen from one key.\<close>

lemma filter_concat_dict:
  assumes "dict_ok d" and "\<And>k v. (k, v) \<in> set d \<Longrightarrow> \<forall>x \<in> set (f k v). P x \<longleftrightarrow> k = key"
  shows "filter P (concat (map (\<lambda>(k, v). f k v) d))
    = (case map_of d key of None \<Rightarrow> [] | Some v \<Rightarrow> f key v)"
  using assms
proof (induction d)
  case Nil
  then show ?case by simp
next
  case (Cons p d)
  obtain k v where p: "p = (k, v)" by (cases p)
  have IH: "filter P (concat (map (\<lambda>(k, v). f k v) d)) = (case map_of d key of None \<Rightarrow> [] | Some v \<Rightarrow> f key v)"
    using Cons by auto
  have fk: "filter P (f k v) = (if k = key then f k v else [])"
    using Cons.prems(2) [of k v] p by (auto simp: filter_empty_conv intro: filter_True)
  show ?case
  proof (cases "k = key")
    case True
    with Cons.prems(1) p have "map_of d key = None" by (auto simp: map_of_eq_None_iff)
    with True IH fk p show ?thesis by simp
  next
    case False
    with IH fk p show ?thesis by simp
  qed
qed

lemma written_subset: "set (written handlers f kind qs) \<subseteq> set qs \<or> qs = []"
  by (cases qs rule: rev_cases)
    (auto simp: written_def persist_fill_costs_def persist_timing_deltas_def split: fate.split dest: in_set_takeD)

definition sqlite_of :: "group_key \<Rightarrow> db_writer \<Rightarrow> queued_write list" where
  "sqlite_of key w = filter (\<lambda>q. key_of q = key) (dw_sqlite w)"

text \<open>One batch, seen from one group.\<close>

lemma written_key:
  assumes "(k, items) \<in> set (groups batch)"
  shows "\<forall>q \<in> set (written handlers f kind (map sw_item items)). key_of q = k"
proof -
  have "items = of_key k batch" "items \<noteq> []" using groups_mem [OF assms] by auto
  then show ?thesis
    using written_subset [of handlers f kind "map sw_item items"] by (auto simp: of_key_def)
qed

lemma persist_batch_sqlite:
  fixes w :: db_writer
  shows "sqlite_of key (fst (persist_staged_batch handlers fates batch w))
    = sqlite_of key w @ (if of_key key batch = [] then []
        else written handlers (fates key) (fst key) (map sw_item (of_key key batch)))"
proof -
  let ?f = "\<lambda>k items. written handlers (fates k) (fst k) (map sw_item items)"
  have "\<forall>q \<in> set (?f k items). key_of q = key \<longleftrightarrow> k = key" if "(k, items) \<in> set (groups batch)" for k items
    using written_key [OF that] by auto
  from filter_concat_dict [OF groups_ok this] show ?thesis
    by (simp add: sqlite_of_def persist_staged_batch_def persist_groups_effect groups_def [symmetric]
        groups_lookup)
qed

text \<open>The committed ids are those of the groups that answered, and only rows of the batch.\<close>

lemma persist_batch_ids:
  fixes w :: db_writer
  shows "set (snd (persist_staged_batch handlers fates batch w))
    = sw_stage_id ` {r \<in> set batch.
        group_answer handlers (dw_postgres_configured w) fates (key_of (sw_item r))}"
proof -
  have "set (snd (persist_staged_batch handlers fates batch w))
      = (\<Union>(key, items) \<in> set (groups batch).
          if group_answer handlers (dw_postgres_configured w) fates key
          then sw_stage_id ` set items else {})"
    by (auto simp: persist_staged_batch_def persist_groups_effect groups_def [symmetric] split: if_splits)
  also have "\<dots> = sw_stage_id ` {r \<in> set batch.
        group_answer handlers (dw_postgres_configured w) fates (key_of (sw_item r))}" (is "?L = ?R")
  proof
    show "?L \<subseteq> ?R"
      by (auto dest!: groups_mem simp: of_key_def split: if_splits)
    show "?R \<subseteq> ?L"
    proof
      fix i assume "i \<in> ?R"
      then obtain r where r: "r \<in> set batch" "i = sw_stage_id r"
          "group_answer handlers (dw_postgres_configured w) fates (key_of (sw_item r))" by auto
      let ?k = "key_of (sw_item r)"
      have "r \<in> set (of_key ?k batch)" using r(1) by (simp add: of_key_def)
      then have "(?k, of_key ?k batch) \<in> set (groups batch)"
        using groups_lookup [of batch ?k] map_of_SomeD [of "groups batch" ?k] by (auto split: if_splits)
      with r \<open>r \<in> set (of_key ?k batch)\<close> show "i \<in> ?L" by (auto intro!: bexI [of _ "(?k, of_key ?k batch)"])
    qed
  qed
  finally show ?thesis .
qed

lemma persist_batch_view:
  fixes w :: db_writer
  shows "queue_view (fst (persist_staged_batch handlers fates batch w)) = queue_view w"
  by (simp add: persist_staged_batch_def persist_groups_effect)

section \<open>One drain iteration\<close>

text \<open>The stage as the code keeps it: ids strictly increasing and below the next one.\<close>

definition stage_ok :: "db_writer \<Rightarrow> bool" where
  "stage_ok w \<longleftrightarrow> sorted_wrt (<) (map sw_stage_id (dw_stage w))
     \<and> (\<forall>r \<in> set (dw_stage w). sw_stage_id r < dw_next_id w) \<and> 0 < dw_max_batch_size w"

definition batch_of :: "db_writer \<Rightarrow> staged_write list" where
  "batch_of w = take (dw_max_batch_size w) (dw_stage w)"

lemma fetch_batch:
  assumes "stage_ok w"
  shows "fetch_staged_batch (dw_max_batch_size w) w = batch_of w"
proof -
  have "sort_key sw_stage_id (dw_stage w) = dw_stage w"
    using assms by (intro sort_key_id_if_sorted) (simp add: stage_ok_def strict_sorted_imp_sorted)
  moreover have "max (dw_max_batch_size w) 1 = dw_max_batch_size w"
    using assms by (simp add: stage_ok_def max_def)
  ultimately show ?thesis by (simp add: fetch_staged_batch_def batch_of_def)
qed

lemma drain_once_view:
  "dw_max_batch_size (fst (drain_once handlers fl w)) = dw_max_batch_size w
   \<and> dw_postgres_configured (fst (drain_once handlers fl w)) = dw_postgres_configured w
   \<and> dw_next_id (fst (drain_once handlers fl w)) = dw_next_id w"
  using persist_batch_view [of handlers "fl_groups fl" "fetch_staged_batch (dw_max_batch_size w) w" w]
  by (auto simp: drain_once_def Let_def case_prod_unfold drain_wake_signals_def delete_staged_rows_def
      queue_view_eq)

text \<open>Whether the batch of an iteration leaves the stage for a group.\<close>

definition clears :: "write_kind set \<Rightarrow> faults \<Rightarrow> db_writer \<Rightarrow> group_key \<Rightarrow> bool" where
  "clears handlers fl w key \<longleftrightarrow>
     group_answer handlers (dw_postgres_configured w) (fl_groups fl) key \<and> \<not> fl_delete_fails fl"

lemma distinct_ids: "stage_ok w \<Longrightarrow> distinct (map sw_stage_id (dw_stage w))"
  by (simp add: stage_ok_def strict_sorted_iff)

text \<open>Deleting the ids of the answering rows of a prefix.\<close>

lemma filter_committed:
  assumes "distinct (map sw_stage_id (xs @ ys))" and "ids = sw_stage_id ` {r \<in> set xs. Q r}"
  shows "filter (\<lambda>r. sw_stage_id r \<notin> ids) (xs @ ys) = filter (\<lambda>r. \<not> Q r) xs @ ys"
proof -
  have "sw_stage_id r \<in> ids \<longleftrightarrow> Q r" if "r \<in> set xs" for r
    using that assms by (auto simp: distinct_map inj_on_def)
  then have "filter (\<lambda>r. sw_stage_id r \<notin> ids) xs = filter (\<lambda>r. \<not> Q r) xs"
    by (intro filter_cong) auto
  moreover have "\<forall>r \<in> set ys. sw_stage_id r \<notin> ids" using assms by auto
  ultimately show ?thesis by simp
qed

lemma drain_once_stage:
  assumes "stage_ok w"
  shows "dw_stage (fst (drain_once handlers fl w))
    = filter (\<lambda>r. \<not> clears handlers fl w (key_of (sw_item r))) (batch_of w)
      @ drop (dw_max_batch_size w) (dw_stage w)"
proof -
  let ?n = "dw_max_batch_size w"
  let ?p = "persist_staged_batch handlers (fl_groups fl) (batch_of w) w"
  let ?ans = "\<lambda>r. group_answer handlers (dw_postgres_configured w) (fl_groups fl) (key_of (sw_item r))"
  have split: "dw_stage w = batch_of w @ drop ?n (dw_stage w)" by (simp add: batch_of_def)
  have stage: "dw_stage (fst ?p) = dw_stage w"
    using persist_batch_view [of handlers "fl_groups fl" "batch_of w" w] by (simp add: queue_view_eq)
  note ids = persist_batch_ids [of handlers "fl_groups fl" "batch_of w" w]
  have del: "filter (\<lambda>r. sw_stage_id r \<notin> set (snd ?p)) (dw_stage w)
      = filter (\<lambda>r. \<not> ?ans r) (batch_of w) @ drop ?n (dw_stage w)"
    using filter_committed [OF _ ids, of "drop ?n (dw_stage w)"] distinct_ids [OF assms] split by simp
  consider (empty) "batch_of w = []" | (none) "batch_of w \<noteq> []" "snd ?p = []"
    | (fails) "batch_of w \<noteq> []" "snd ?p \<noteq> []" "fl_delete_fails fl"
    | (del) "batch_of w \<noteq> []" "snd ?p \<noteq> []" "\<not> fl_delete_fails fl" by blast
  then show ?thesis
  proof cases
    case empty
    then show ?thesis
      using split by (simp add: drain_once_def fetch_batch [OF assms] drain_wake_signals_def)
  next
    case none
    then have "\<forall>r \<in> set (batch_of w). \<not> ?ans r" using ids by auto
    then show ?thesis
      using none split stage
      by (simp add: drain_once_def fetch_batch [OF assms] Let_def case_prod_unfold clears_def)
  next
    case fails
    then show ?thesis
      using split stage
      by (simp add: drain_once_def fetch_batch [OF assms] Let_def case_prod_unfold clears_def)
  next
    case del
    then show ?thesis
      using \<open>filter _ (dw_stage w) = _\<close> stage
      by (simp add: drain_once_def fetch_batch [OF assms] Let_def case_prod_unfold clears_def
          drain_wake_signals_def delete_staged_rows_def)
  qed
qed

lemma drain_once_sqlite:
  assumes "stage_ok w"
  shows "sqlite_of key (fst (drain_once handlers fl w))
    = sqlite_of key w @ (if of_key key (batch_of w) = [] then []
        else written handlers (fl_groups fl key) (fst key) (map sw_item (of_key key (batch_of w))))"
proof -
  let ?p = "persist_staged_batch handlers (fl_groups fl) (batch_of w) w"
  have "sqlite_of key (fst (drain_once handlers fl w))
      = (if batch_of w = [] then sqlite_of key w else sqlite_of key (fst ?p))"
    by (simp add: drain_once_def fetch_batch [OF assms] Let_def case_prod_unfold sqlite_of_def
        drain_wake_signals_def delete_staged_rows_def)
  then show ?thesis by (simp add: persist_batch_sqlite) (simp add: of_key_def)
qed

lemma drain_once_ok:
  assumes "stage_ok w"
  shows "stage_ok (fst (drain_once handlers fl w))"
proof -
  let ?P = "\<lambda>r. \<not> clears handlers fl w (key_of (sw_item r))"
  let ?xs = "batch_of w" and ?ys = "drop (dw_max_batch_size w) (dw_stage w)"
  have split: "dw_stage w = ?xs @ ?ys" by (simp add: batch_of_def)
  have "sorted_wrt (<) (map sw_stage_id (?xs @ ?ys))" using assms split by (simp add: stage_ok_def)
  then have "sorted_wrt (<) (map sw_stage_id (filter ?P ?xs @ ?ys))"
    by (auto simp: sorted_wrt_append sorted_wrt_map sorted_wrt_filter)
  moreover have "set (filter ?P ?xs @ ?ys) \<subseteq> set (dw_stage w)" by (subst (2) split) auto
  ultimately show ?thesis
    using assms drain_once_stage [OF assms, of handlers fl] drain_once_view [of handlers fl w]
    unfolding stage_ok_def by auto
qed

lemma drain_again_shrinks:
  assumes "drain_once handlers fl w = (w', Again)"
  shows "length (dw_stage w') < length (dw_stage w)"
proof -
  let ?batch = "fetch_staged_batch (dw_max_batch_size w) w"
  let ?p = "persist_staged_batch handlers (fl_groups fl) ?batch w"
  have stage: "dw_stage (fst ?p) = dw_stage w"
    using persist_batch_view [of handlers "fl_groups fl" ?batch w] by (simp add: queue_view_eq)
  from assms have ne: "snd ?p \<noteq> []"
      and w': "dw_stage w' = filter (\<lambda>r. sw_stage_id r \<notin> set (snd ?p)) (dw_stage w)"
    using stage
    by (auto simp: drain_once_def Let_def case_prod_unfold drain_wake_signals_def
        delete_staged_rows_def split: if_splits)
  from ne obtain i where "i \<in> set (snd ?p)" by (cases "snd ?p") auto
  then obtain r where "r \<in> set ?batch" "sw_stage_id r \<in> set (snd ?p)"
    using persist_batch_ids [of handlers "fl_groups fl" ?batch w] by auto
  moreover have "set ?batch \<subseteq> set (dw_stage w)"
    by (auto simp: fetch_staged_batch_def dest: in_set_takeD)
  ultimately show ?thesis unfolding w' by (intro length_filter_less [of r]) auto
qed

section \<open>The drain loops\<close>

text \<open>
  The \<open>while True\<close> of a forced flush ends because an iteration that goes on has removed
  rows; the drain at shutdown ends because it stops when the count does not fall.
\<close>

function flush_forced :: "write_kind set \<Rightarrow> (nat \<Rightarrow> faults) \<Rightarrow> nat \<Rightarrow> db_writer \<Rightarrow> db_writer" where
  "flush_forced handlers fls i w =
     (case drain_once handlers (fls i) w of
        (w', Stop) \<Rightarrow> w'
      | (w', Again) \<Rightarrow> flush_forced handlers fls (Suc i) w')"
  by pat_completeness auto
termination
  by (relation "measure (\<lambda>(handlers, fls, i, w). length (dw_stage w))") (auto dest: drain_again_shrinks [OF sym])

declare flush_forced.simps [simp del]

definition flush_from_write_ahead ::
  "write_kind set \<Rightarrow> bool \<Rightarrow> pyfloat \<Rightarrow> (nat \<Rightarrow> faults) \<Rightarrow> db_writer \<Rightarrow> db_writer" where
  "flush_from_write_ahead handlers force now fls w =
     (let w0 = w\<lparr>dw_limiter := update_backlog_depth (pending_write_ahead_count w) (dw_limiter w)\<rparr>
      in if force then flush_forced handlers fls 0 w0
         else
           let (d, ok) = acquire force now (dw_limiter w0);
               w1 = w0\<lparr>dw_limiter := d\<rparr>
           in if \<not> ok
              then w1\<lparr>dw_stats := (dw_stats w1)\<lparr>ws_wal_throttled := ws_wal_throttled (dw_stats w1) + 1\<rparr>\<rparr>
              else fst (drain_once handlers (fls 0) w1))"

function drain_until_empty ::
  "write_kind set \<Rightarrow> pyfloat \<Rightarrow> (nat \<Rightarrow> pyfloat) \<Rightarrow> (nat \<Rightarrow> nat \<Rightarrow> faults) \<Rightarrow> nat \<Rightarrow> db_writer
     \<Rightarrow> db_writer" where
  "drain_until_empty handlers deadline clock fls i w =
     (if pending_write_ahead_count w = 0 then w
      else if deadline \<le> clock i then w
      else
        let w' = flush_from_write_ahead handlers True (clock i) (fls i) w
        in if pending_write_ahead_count w \<le> pending_write_ahead_count w' then w'
           else drain_until_empty handlers deadline clock fls (Suc i) w')"
  by pat_completeness auto
termination
  by (relation "measure (\<lambda>(handlers, deadline, clock, fls, i, w). pending_write_ahead_count w)") auto

declare drain_until_empty.simps [simp del]

section \<open>No write is lost\<close>

datatype writer_op =
    Enqueue queued_write
  | Flush bool pyfloat "nat \<Rightarrow> faults"
  | Stop_drain pyfloat "nat \<Rightarrow> pyfloat" "nat \<Rightarrow> nat \<Rightarrow> faults"

fun writer_step :: "write_kind set \<Rightarrow> db_writer \<Rightarrow> writer_op \<Rightarrow> db_writer" where
  "writer_step handlers w (Enqueue q) = enqueue q w"
| "writer_step handlers w (Flush force now fls) = flush_from_write_ahead handlers force now fls w"
| "writer_step handlers w (Stop_drain deadline clock fls) =
     drain_until_empty handlers deadline clock fls 0 w"

fun enqueued :: "writer_op list \<Rightarrow> queued_write list" where
  "enqueued [] = []"
| "enqueued (Enqueue q # ops) = q # enqueued ops"
| "enqueued (op # ops) = enqueued ops"

definition staged_of :: "group_key \<Rightarrow> db_writer \<Rightarrow> queued_write list" where
  "staged_of key w = map sw_item (of_key key (dw_stage w))"

definition all_of :: "group_key \<Rightarrow> queued_write list \<Rightarrow> queued_write list" where
  "all_of key qs = filter (\<lambda>q. key_of q = key) qs"

text \<open>
  What one drain iteration keeps, under the faults considered, and what does not depend on
  counters and limiter, every flush and the drain at shutdown keep.
\<close>

locale drain_invariant =
  fixes handlers :: "write_kind set" and good :: "faults \<Rightarrow> bool" and inv :: "db_writer \<Rightarrow> bool"
  assumes once: "inv w \<Longrightarrow> good fl \<Longrightarrow> inv (fst (drain_once handlers fl w))"
    and frame: "queue_view w' = queue_view w \<Longrightarrow> dw_sqlite w' = dw_sqlite w \<Longrightarrow> inv w \<Longrightarrow> inv w'"
begin

lemma forced: "inv w \<Longrightarrow> (\<And>i. good (fls i)) \<Longrightarrow> inv (flush_forced handlers fls i w)"
proof (induction "length (dw_stage w)" arbitrary: i w rule: less_induct)
  case less
  obtain w' r where step: "drain_once handlers (fls i) w = (w', r)"
    by (cases "drain_once handlers (fls i) w")
  with once [OF less.prems(1,2), of i] have w': "inv w'" by simp
  show ?case
  proof (cases r)
    case Stop
    with step w' show ?thesis by (simp add: flush_forced.simps [of handlers fls i w])
  next
    case Again
    with step have "length (dw_stage w') < length (dw_stage w)" by (simp add: drain_again_shrinks)
    from less.hyps [OF this w' less.prems(2)] Again step show ?thesis
      by (simp add: flush_forced.simps [of handlers fls i w])
  qed
qed

lemma flush:
  assumes "inv w" and "\<And>i. good (fls i)"
  shows "inv (flush_from_write_ahead handlers force now fls w)"
proof -
  have lim: "inv (w\<lparr>dw_limiter := d\<rparr>)" and lim2: "inv (w\<lparr>dw_limiter := d, dw_stats := s\<rparr>)" for d s
    by (rule frame [OF _ _ assms(1)]; simp add: queue_view_def)+
  show ?thesis
    using forced [OF lim assms(2)] once [OF lim assms(2)] lim2
    by (simp add: flush_from_write_ahead_def Let_def case_prod_unfold)
qed

lemma stop:
  assumes "\<And>i j. good (fls i j)"
  shows "inv w \<Longrightarrow> inv (drain_until_empty handlers deadline clock fls i w)"
proof (induction "pending_write_ahead_count w" arbitrary: i w rule: less_induct)
  case less
  show ?case
    using less.hyps less.prems flush [OF less.prems assms, of True "clock i"]
    by (subst drain_until_empty.simps) (auto simp: Let_def not_le)
qed

end

text \<open>
  The ghost account of a group: what was enqueued is what has left the stage followed by what
  is staged, and what has left was written to SQLite (for the risk state, whose flush writes
  the newest payload only, the last one was; for the reconciliation, the rows of a known type were).
\<close>

definition storable :: "queued_write \<Rightarrow> bool" where
  "storable q \<longleftrightarrow>
     qw_kind q = RECONCILIATION \<longrightarrow> qw_record_type q \<in> {Some ''fill_cost'', Some ''timing_delta''}"

definition covered :: "group_key \<Rightarrow> queued_write list \<Rightarrow> db_writer \<Rightarrow> bool" where
  "covered key gone w \<longleftrightarrow>
     (if fst key = PORTFOLIO_RISK_STATE then gone \<noteq> [] \<longrightarrow> last gone \<in> set (sqlite_of key w)
      else set (filter storable gone) \<subseteq> set (sqlite_of key w))"

definition lossless :: "queued_write list \<Rightarrow> db_writer \<Rightarrow> bool" where
  "lossless qs w \<longleftrightarrow> stage_ok w \<and>
     (\<forall>key. \<exists>gone. all_of key qs = gone @ staged_of key w \<and> covered key gone w)"

lemma staged_of_split:
  "staged_of key w = map sw_item (of_key key (batch_of w))
     @ map sw_item (of_key key (drop (dw_max_batch_size w) (dw_stage w)))"
proof -
  have "dw_stage w = batch_of w @ drop (dw_max_batch_size w) (dw_stage w)" by (simp add: batch_of_def)
  from arg_cong [OF this, of "\<lambda>rs. map sw_item (of_key key rs)"] show ?thesis
    by (simp add: staged_of_def of_key_def)
qed

lemma staged_of_drain:
  assumes "stage_ok w"
  shows "staged_of key (fst (drain_once handlers fl w)) =
    (if clears handlers fl w key then map sw_item (of_key key (drop (dw_max_batch_size w) (dw_stage w)))
     else staged_of key w)"
proof -
  have "of_key key (filter (\<lambda>r. \<not> clears handlers fl w (key_of (sw_item r))) xs)
      = (if clears handlers fl w key then [] else of_key key xs)" for xs
    by (induction xs) (auto simp: of_key_def)
  then show ?thesis
    unfolding staged_of_def drain_once_stage [OF assms]
    using staged_of_split [of key w] by (auto simp: staged_of_def) (simp_all add: of_key_def)
qed

lemma covered_mono:
  assumes "covered key gone w" and "set (sqlite_of key w) \<subseteq> set (sqlite_of key w')"
  shows "covered key gone w'"
  using assms by (auto simp: covered_def split: if_splits)

lemma clears_registered: "clears handlers fl w key \<Longrightarrow> fst key \<in> handlers \<or> fst key \<notin> REGISTERED_KINDS"
  by (auto simp: clears_def group_answer_def answer_def split: if_splits)

lemma written_clears:
  assumes "clears handlers fl w key" and "fst key \<noteq> PORTFOLIO_RISK_STATE"
  shows "written handlers (fl_groups fl key) (fst key) qs =
    (if fst key = RECONCILIATION then persist_fill_costs qs @ persist_timing_deltas qs else qs)"
  using assms clears_registered [OF assms(1)]
  by (auto simp: clears_def group_answer_def answer_def written_def split: fate.splits if_splits)

lemma written_clears_storable:
  assumes "clears handlers fl w key" and "fst key \<noteq> PORTFOLIO_RISK_STATE"
    and "\<forall>q \<in> set qs. key_of q = key"
  shows "set (filter storable qs) \<subseteq> set (written handlers (fl_groups fl key) (fst key) qs)"
  using assms(3) unfolding written_clears [OF assms(1,2)]
  by (auto simp: storable_def key_of_def persist_fill_costs_def persist_timing_deltas_def)

lemma written_clears_last:
  assumes "clears handlers fl w key" and "fst key = PORTFOLIO_RISK_STATE" and "qs \<noteq> []"
  shows "last qs \<in> set (written handlers (fl_groups fl key) (fst key) qs)"
  using assms by (auto simp: clears_def group_answer_def answer_def written_def split: fate.splits if_splits)

lemma drain_once_lossless:
  assumes "lossless qs w"
  shows "lossless qs (fst (drain_once handlers fl w))"
proof -
  let ?w = "fst (drain_once handlers fl w)"
  have ok: "stage_ok w" using assms by (simp add: lossless_def)
  have "\<exists>gone. all_of key qs = gone @ staged_of key ?w \<and> covered key gone ?w" for key
  proof -
    obtain gone where gone: "all_of key qs = gone @ staged_of key w" "covered key gone w"
      using assms unfolding lossless_def by blast
    let ?b = "map sw_item (of_key key (batch_of w))"
    have sq: "sqlite_of key ?w = sqlite_of key w @ (if ?b = [] then []
        else written handlers (fl_groups fl key) (fst key) ?b)"
      using drain_once_sqlite [OF ok, of key handlers fl] by simp
    have cov: "covered key gone ?w" by (rule covered_mono [OF gone(2)]) (auto simp: sq)
    show ?thesis
    proof (cases "clears handlers fl w key")
      case True
      have "all_of key qs = (gone @ ?b) @ staged_of key ?w"
        using gone(1) True staged_of_drain [OF ok, of key handlers fl] staged_of_split [of key w] by simp
      moreover have "covered key (gone @ ?b) ?w"
      proof (cases "fst key = PORTFOLIO_RISK_STATE")
        case risk: True
        then show ?thesis using cov sq written_clears_last [OF True risk, of ?b]
          by (cases "?b = []") (auto simp: covered_def split: if_splits)
      next
        case False
        have "\<forall>q \<in> set ?b. key_of q = key" by (auto simp: of_key_def)
        from written_clears_storable [OF True False this] show ?thesis
          using cov sq False by (cases "?b = []") (auto simp: covered_def split: if_splits)
      qed
      ultimately show ?thesis by blast
    next
      case False
      with gone cov staged_of_drain [OF ok, of key handlers fl] show ?thesis by auto
    qed
  qed
  with drain_once_ok [OF ok] show ?thesis by (simp add: lossless_def)
qed

lemma enqueue_lossless:
  assumes "lossless qs w"
  shows "lossless (qs @ [q]) (enqueue q w)"
proof -
  have ok: "stage_ok (enqueue q w)"
    using assms by (auto simp: lossless_def stage_ok_def enqueue_def Let_def sorted_wrt_append less_SucI)
  have "\<exists>gone. all_of key (qs @ [q]) = gone @ staged_of key (enqueue q w)
      \<and> covered key gone (enqueue q w)" for key
  proof -
    obtain gone where "all_of key qs = gone @ staged_of key w" "covered key gone w"
      using assms unfolding lossless_def by blast
    then show ?thesis
      by (intro exI [of _ gone])
        (auto simp: all_of_def staged_of_def of_key_def enqueue_def Let_def covered_def sqlite_of_def)
  qed
  with ok show ?thesis by (simp add: lossless_def)
qed

interpretation lossless: drain_invariant handlers "\<lambda>_. True" "lossless qs" for handlers qs
proof
  fix w fl assume "lossless qs w"
  then show "lossless qs (fst (drain_once handlers fl w))" by (rule drain_once_lossless)
next
  fix w' w :: db_writer
  assume eq: "queue_view w' = queue_view w" "dw_sqlite w' = dw_sqlite w" and w: "lossless qs w"
  have "stage_ok w' = stage_ok w" "staged_of key w' = staged_of key w"
      "covered key gone w' = covered key gone w" for key gone
    using eq by (simp_all add: stage_ok_def staged_of_def covered_def sqlite_of_def queue_view_eq)
  with w show "lossless qs w'" by (simp add: lossless_def)
qed

lemma writer_step_lossless:
  "lossless qs w \<Longrightarrow> lossless (qs @ enqueued [op]) (writer_step handlers w op)"
  by (cases op) (auto simp: enqueue_lossless intro: lossless.flush lossless.stop)

lemma enqueued_Cons: "enqueued (op # ops) = enqueued [op] @ enqueued ops"
  by (cases op) simp_all

lemma writer_run_lossless:
  "lossless qs w \<Longrightarrow> lossless (qs @ enqueued ops) (foldl (writer_step handlers) w ops)"
proof (induction ops arbitrary: qs w)
  case (Cons op ops)
  from Cons.IH [OF writer_step_lossless [OF Cons.prems]] show ?case
    by (simp add: enqueued_Cons [of op ops])
qed simp

lemma lossless_new: "lossless [] (new_writer n pg t0)"
  by (simp add: lossless_def stage_ok_def new_writer_def all_of_def staged_of_def of_key_def covered_def)

text \<open>
  C19: No write is lost. Whatever is enqueued, flushed and drained at shutdown, under any
  SQLite, Postgres and delete failures, the writes of every (kind, target) group leave the
  stage oldest first, and only after SQLite has them: what was enqueued is what has left
  followed by what is still staged. Two exceptions: a flush of the risk state writes only the
  newest payload of the group, so of the payloads that left only the last is known to be written;
  and a reconciliation row whose record type is neither \<open>fill_cost\<close> nor \<open>timing_delta\<close> leaves
  the stage unwritten (\<open>unknown_record_dropped\<close> below).
\<close>

theorem staged_writes_never_lost:
  fixes ops :: "writer_op list"
  shows "\<exists>gone. all_of key (enqueued ops)
      = gone @ staged_of key (foldl (writer_step handlers) (new_writer n pg t0) ops)
    \<and> (if fst key = PORTFOLIO_RISK_STATE
       then gone = [] \<or> last gone \<in> set (dw_sqlite (foldl (writer_step handlers) (new_writer n pg t0) ops))
       else set (filter storable gone) \<subseteq> set (dw_sqlite (foldl (writer_step handlers) (new_writer n pg t0) ops)))"
proof -
  let ?w = "foldl (writer_step handlers) (new_writer n pg t0) ops"
  have "lossless (enqueued ops) ?w" using writer_run_lossless [OF lossless_new] by simp
  then obtain gone where "all_of key (enqueued ops) = gone @ staged_of key ?w" "covered key gone ?w"
    unfolding lossless_def by blast
  then show ?thesis by (intro exI [of _ gone]) (auto simp: covered_def sqlite_of_def split: if_splits)
qed

section \<open>Exactly once when writes are atomic\<close>








fun op_faults :: "writer_op \<Rightarrow> faults set" where
  "op_faults (Enqueue q) = {}"
| "op_faults (Flush force now fls) = range fls"
| "op_faults (Stop_drain deadline clock fls) = (\<Union>i. range (fls i))"




definition all_well :: faults where
  "all_well = \<lparr>fl_groups = (\<lambda>_. Written), fl_delete_fails = False\<rparr>"

definition beat :: "string \<Rightarrow> queued_write" where
  "beat p = \<lparr>qw_kind = HEARTBEAT, qw_payload = p, qw_record_type = None, qw_db_path = ''vault.db''\<rparr>"

definition recon_row :: "string \<Rightarrow> string \<Rightarrow> queued_write" where
  "recon_row p t = \<lparr>qw_kind = RECONCILIATION, qw_payload = p, qw_record_type = Some t, qw_db_path = ''vault.db''\<rparr>"


section \<open>A healthy drain empties the stage\<close>

text \<open>Every group flushes: its kind is dispatched and nothing fails.\<close>

lemma all_well_clears:
  assumes "REGISTERED_KINDS \<subseteq> handlers"
  shows "clears handlers all_well w key"
  using assms by (auto simp: clears_def all_well_def group_answer_def answer_def)

lemma all_well_step:
  assumes "stage_ok w" and "REGISTERED_KINDS \<subseteq> handlers"
  shows "dw_stage (fst (drain_once handlers all_well w)) = drop (dw_max_batch_size w) (dw_stage w)"
  using drain_once_stage [OF assms(1)] all_well_clears [OF assms(2)] by simp

lemma drain_stop_empty:
  assumes "stage_ok w" and "REGISTERED_KINDS \<subseteq> handlers" and "drain_once handlers all_well w = (w', Stop)"
  shows "dw_stage w' = []"
proof (cases "batch_of w = []")
  case True
  then have "dw_stage w = []" using assms(1) by (auto simp: batch_of_def stage_ok_def)
  with all_well_step [OF assms(1,2)] assms(3) show ?thesis by simp
next
  case False
  let ?p = "persist_staged_batch handlers (fl_groups all_well) (batch_of w) w"
  from False obtain r where "r \<in> set (batch_of w)" by (cases "batch_of w") auto
  then have "sw_stage_id r \<in> set (snd ?p)"
    using persist_batch_ids [of handlers "fl_groups all_well" "batch_of w" w]
      all_well_clears [OF assms(2), of w] by (auto simp: clears_def)
  then have "snd ?p \<noteq> []" by auto
  with False assms(3) show ?thesis
    by (simp add: drain_once_def fetch_batch [OF assms(1)] Let_def case_prod_unfold all_well_def
        split: if_splits)
qed

lemma flush_forced_empties:
  assumes "REGISTERED_KINDS \<subseteq> handlers"
  shows "stage_ok w \<Longrightarrow> dw_stage (flush_forced handlers (\<lambda>_. all_well) i w) = []"
proof (induction "length (dw_stage w)" arbitrary: i w rule: less_induct)
  case less
  obtain w' r where step: "drain_once handlers all_well w = (w', r)" by (cases "drain_once handlers all_well w")
  have ok: "stage_ok w'" using drain_once_ok [OF less.prems, of handlers all_well] step by simp
  show ?case
  proof (cases r)
    case Stop
    with step drain_stop_empty [OF less.prems assms] show ?thesis
      by (simp add: flush_forced.simps [of handlers _ i w])
  next
    case Again
    with step have "length (dw_stage w') < length (dw_stage w)" by (simp add: drain_again_shrinks)
    from less.hyps [OF this ok] Again step show ?thesis
      by (simp add: flush_forced.simps [of handlers _ i w])
  qed
qed

text \<open>
  A healthy shutdown loses nothing and waits for nothing: with every handler registered
  and no faults, one forced flush returns with an empty stage, whatever was enqueued and
  whatever failed before.
\<close>

theorem forced_flush_empties_stage:
  fixes ops :: "writer_op list"
  shows "dw_stage (flush_from_write_ahead REGISTERED_KINDS True now (\<lambda>_. all_well)
      (foldl (writer_step REGISTERED_KINDS) (new_writer n pg t0) ops)) = []"
proof -
  let ?w = "foldl (writer_step REGISTERED_KINDS) (new_writer n pg t0) ops"
  have "lossless (enqueued ops) ?w" using writer_run_lossless [OF lossless_new] by simp
  then have "stage_ok (?w\<lparr>dw_limiter := d\<rparr>)" for d by (simp add: lossless_def stage_ok_def)
  from flush_forced_empties [OF subset_refl this] show ?thesis
    by (simp add: flush_from_write_ahead_def Let_def)
qed

section \<open>Where the isolation of faults ends\<close>

text \<open>
  A head of the stage that cannot commit: the oldest \<open>max_batch_size\<close> rows belong to groups
  whose flush does not answer.
\<close>

definition jammed :: "group_key set \<Rightarrow> bool \<Rightarrow> staged_write list \<Rightarrow> staged_write list
    \<Rightarrow> (group_key \<Rightarrow> queued_write list) \<Rightarrow> db_writer \<Rightarrow> bool" where
  "jammed bad pg head rest held w \<longleftrightarrow>
     stage_ok w \<and> dw_postgres_configured w = pg \<and> dw_max_batch_size w = length head
     \<and> dw_stage w = head @ rest \<and> (\<forall>r \<in> set head. key_of (sw_item r) \<in> bad)
     \<and> (\<forall>key. key \<notin> bad \<longrightarrow> sqlite_of key w = held key)"

definition refuses :: "write_kind set \<Rightarrow> bool \<Rightarrow> group_key set \<Rightarrow> faults \<Rightarrow> bool" where
  "refuses handlers pg bad fl \<longleftrightarrow> (\<forall>key \<in> bad. \<not> group_answer handlers pg (fl_groups fl) key)"

interpretation jam: drain_invariant handlers "refuses handlers pg bad" "jammed bad pg head rest held"
  for handlers pg bad head rest held
proof
  fix w fl assume w: "jammed bad pg head rest held w" and good: "refuses handlers pg bad fl"
  let ?w = "fst (drain_once handlers fl w)"
  have ok: "stage_ok w" using w by (simp add: jammed_def)
  have batch: "batch_of w = head" using w by (simp add: jammed_def batch_of_def)
  have "\<forall>r \<in> set head. \<not> clears handlers fl w (key_of (sw_item r))"
    using w good by (auto simp: jammed_def refuses_def clears_def)
  then have stage: "dw_stage ?w = head @ rest"
    using drain_once_stage [OF ok, of handlers fl] w by (simp add: batch jammed_def)
  have "of_key key head = []" if "key \<notin> bad" for key
    using w that by (auto simp: jammed_def of_key_def filter_empty_conv)
  then have "sqlite_of key ?w = held key" if "key \<notin> bad" for key
    using drain_once_sqlite [OF ok, of key handlers fl] w that unfolding batch jammed_def
    by (metis append_Nil2)
  with drain_once_ok [OF ok] drain_once_view [of handlers fl w] stage w
  show "jammed bad pg head rest held ?w" by (simp add: jammed_def)
next
  fix w' w :: db_writer
  assume eq: "queue_view w' = queue_view w" "dw_sqlite w' = dw_sqlite w"
    and w: "jammed bad pg head rest held w"
  have "stage_ok w' = stage_ok w" "sqlite_of key w' = sqlite_of key w" for key
    using eq by (simp_all add: stage_ok_def sqlite_of_def queue_view_eq)
  with w eq show "jammed bad pg head rest held w'" by (simp add: jammed_def queue_view_eq)
qed

lemma jammed_run:
  "jammed bad pg head rest held w \<Longrightarrow>
     \<forall>op \<in> set ops. \<forall>fl \<in> op_faults op. refuses handlers pg bad fl \<Longrightarrow>
     \<exists>rest'. jammed bad pg head (rest @ rest') held (foldl (writer_step handlers) w ops)"
proof (induction ops arbitrary: rest w)
  case Nil
  then show ?case by (intro exI [of _ "[]"]) simp
next
  case (Cons op ops)
  have "\<exists>r. jammed bad pg head (rest @ r) held (writer_step handlers w op)"
  proof (cases op)
    case (Enqueue q)
    with Cons.prems(1) have "jammed bad pg head (rest @ [\<lparr>sw_stage_id = dw_next_id w, sw_item = q\<rparr>]) held
        (writer_step handlers w op)"
      by (auto simp: jammed_def stage_ok_def enqueue_def Let_def sqlite_of_def sorted_wrt_append less_SucI)
    then show ?thesis ..
  next
    case (Flush force now fls)
    then show ?thesis
      using Cons.prems by (intro exI [of _ "[]"]) (auto intro!: jam.flush)
  next
    case (Stop_drain deadline clock fls)
    then show ?thesis
      using Cons.prems by (intro exI [of _ "[]"]) (auto intro!: jam.stop)
  qed
  then obtain r where "jammed bad pg head (rest @ r) held (writer_step handlers w op)" ..
  from Cons.IH [OF this] Cons.prems(2) show ?case by auto
qed

text \<open>
  A full batch of rows that cannot commit jams the queue. If the oldest
  \<open>max_batch_size\<close> staged rows belong to groups whose flush keeps failing, then no further
  operation writes anything of any other group: the rows behind the head stay staged for as
  long as the failures last, forced drains included.
\<close>

theorem failing_head_jams_queue:
  assumes "stage_ok w" and "dw_max_batch_size w \<le> length (dw_stage w)"
    and "\<forall>r \<in> set (take (dw_max_batch_size w) (dw_stage w)). key_of (sw_item r) \<in> bad"
    and "\<forall>op \<in> set ops. \<forall>fl \<in> op_faults op. refuses handlers (dw_postgres_configured w) bad fl"
    and "key \<notin> bad"
  shows "sqlite_of key (foldl (writer_step handlers) w ops) = sqlite_of key w
    \<and> (\<exists>later. dw_stage (foldl (writer_step handlers) w ops) = dw_stage w @ later)"
proof -
  let ?n = "dw_max_batch_size w"
  have "jammed bad (dw_postgres_configured w) (take ?n (dw_stage w)) (drop ?n (dw_stage w))
      (\<lambda>key. sqlite_of key w) w"
    using assms(1-3) by (simp add: jammed_def)
  from jammed_run [OF this assms(4)] obtain later where
    "jammed bad (dw_postgres_configured w) (take ?n (dw_stage w)) (drop ?n (dw_stage w) @ later)
      (\<lambda>key. sqlite_of key w) (foldl (writer_step handlers) w ops)" ..
  then have "dw_stage (foldl (writer_step handlers) w ops) = dw_stage w @ later"
      and "\<forall>key. key \<notin> bad \<longrightarrow> sqlite_of key (foldl (writer_step handlers) w ops) = sqlite_of key w"
    unfolding jammed_def by (simp_all flip: append_assoc)
  with assms(5) show ?thesis by blast
qed

definition constraint :: queued_write where
  "constraint = \<lparr>qw_kind = PORTFOLIO_CONSTRAINT, qw_payload = ''{}'', qw_record_type = None, qw_db_path = ''vault.db''\<rparr>"

definition pg_down :: faults where
  "pg_down = \<lparr>fl_groups = (\<lambda>_. Postgres_fails), fl_delete_fails = False\<rparr>"

text \<open>Postgres is down, and a heartbeat waits behind one constraint row (batch size one).\<close>

definition stuck_writer :: db_writer where
  "stuck_writer = enqueue (beat ''1'') (enqueue constraint (new_writer 1 True 0))"

theorem failing_head_jams_queue_witness:
  "sqlite_of (HEARTBEAT, ''vault.db'')
     (foldl (writer_step REGISTERED_KINDS) stuck_writer [Flush True 0 (\<lambda>_. pg_down)]) = []"
proof -
  have "stage_ok stuck_writer" "dw_max_batch_size stuck_writer \<le> length (dw_stage stuck_writer)"
      "\<forall>r \<in> set (take (dw_max_batch_size stuck_writer) (dw_stage stuck_writer)).
         key_of (sw_item r) \<in> {(PORTFOLIO_CONSTRAINT, ''vault.db'')}"
    by (auto simp: stuck_writer_def stage_ok_def enqueue_def new_writer_def Let_def constraint_def key_of_def)
  moreover have "\<forall>op \<in> set [Flush True 0 (\<lambda>_. pg_down)]. \<forall>fl \<in> op_faults op.
      refuses REGISTERED_KINDS (dw_postgres_configured stuck_writer) {(PORTFOLIO_CONSTRAINT, ''vault.db'')} fl"
    by (simp add: refuses_def group_answer_def answer_def pg_down_def REGISTERED_KINDS_def
        stuck_writer_def enqueue_def new_writer_def Let_def)
  ultimately show ?thesis
    using failing_head_jams_queue [of stuck_writer "{(PORTFOLIO_CONSTRAINT, ''vault.db'')}"
        "[Flush True 0 (\<lambda>_. pg_down)]" REGISTERED_KINDS "(HEARTBEAT, ''vault.db'')"]
    by (simp add: sqlite_of_def stuck_writer_def enqueue_def new_writer_def Let_def)
qed

text \<open>
  While Postgres is down the rows that wait for it are written to SQLite again by every
  drain: the SQLite insert is committed before Postgres is tried, and the row stays staged.
\<close>

lemma drain_during_outage:
  assumes "dw_stage w = [\<lparr>sw_stage_id = i, sw_item = constraint\<rparr>]" and "dw_postgres_configured w"
  shows "drain_once REGISTERED_KINDS pg_down w = (bump_sqlite [constraint] w, Stop)"
  using assms
  by (simp add: drain_once_def Let_def fetch_staged_batch_def persist_staged_batch_def add_to_group_def
      persist_group_def flush_kind_def REGISTERED_KINDS_def flush_replicated_defs pg_down_def
      constraint_def key_of_def)

lemma flush_again:
  assumes "dw_stage w = [\<lparr>sw_stage_id = i, sw_item = constraint\<rparr>]" and "dw_postgres_configured w"
  shows "let w' = flush_from_write_ahead REGISTERED_KINDS True now (\<lambda>_. pg_down) w
    in dw_stage w' = dw_stage w \<and> dw_postgres_configured w' \<and> dw_sqlite w' = dw_sqlite w @ [constraint]"
proof -
  let ?w = "w\<lparr>dw_limiter := update_backlog_depth (pending_write_ahead_count w) (dw_limiter w)\<rparr>"
  have "flush_from_write_ahead REGISTERED_KINDS True now (\<lambda>_. pg_down) w = bump_sqlite [constraint] ?w"
    using drain_during_outage [of ?w i] assms
    by (simp add: flush_from_write_ahead_def Let_def
        flush_forced.simps [of REGISTERED_KINDS "\<lambda>_. pg_down" 0])
  then show ?thesis using assms(2) by (simp add: Let_def bump_sqlite_def)
qed

theorem outage_duplicates_sqlite_rows:
  "dw_sqlite (foldl (writer_step REGISTERED_KINDS) (enqueue constraint (new_writer 64 True 0))
     (replicate n (Flush True 0 (\<lambda>_. pg_down)))) = replicate n constraint"
proof -
  have "dw_stage w = [\<lparr>sw_stage_id = 1, sw_item = constraint\<rparr>] \<Longrightarrow> dw_postgres_configured w \<Longrightarrow>
      dw_sqlite (foldl (writer_step REGISTERED_KINDS) w (replicate n (Flush True 0 (\<lambda>_. pg_down))))
        = dw_sqlite w @ replicate n constraint" for w
  proof (induction n arbitrary: w)
    case (Suc n)
    let ?w = "flush_from_write_ahead REGISTERED_KINDS True 0 (\<lambda>_. pg_down) w"
    have "dw_stage ?w = dw_stage w" "dw_postgres_configured ?w" "dw_sqlite ?w = dw_sqlite w @ [constraint]"
      using flush_again [OF Suc.prems, of 0] by (simp_all add: Let_def)
    with Suc.IH [of ?w] Suc.prems show ?case by simp
  qed simp
  then show ?thesis by (simp add: enqueue_def new_writer_def Let_def)
qed

section \<open>The drain rate\<close>

fun grants :: "drainer \<Rightarrow> pyfloat list \<Rightarrow> nat" where
  "grants d [] = 0"
| "grants d (t # ts) =
     (let (d', ok) = acquire False t d in (if ok then 1 else 0) + grants d' ts)"

definition bucket_ok :: "drainer \<Rightarrow> bool" where
  "bucket_ok d \<longleftrightarrow> 0 \<le> ld_tokens d \<and> 0 < ld_interval_seconds d \<and> 0 < ld_max_batches d"

lemma refill_budget:
  assumes "bucket_ok d" and "t \<le> T" and "ld_last_refill d \<le> T"
    and rate: "rate = real_of_int (ld_max_batches d) / ld_interval_seconds d"
  shows "bucket_ok (refill t d) \<and> ld_last_refill (refill t d) \<le> T
    \<and> ld_max_batches (refill t d) = ld_max_batches d
    \<and> ld_interval_seconds (refill t d) = ld_interval_seconds d
    \<and> ld_tokens (refill t d) + rate * (T - ld_last_refill (refill t d))
        \<le> ld_tokens d + rate * (T - ld_last_refill d)"
proof -
  let ?x = "rate * (t - ld_last_refill d)"
  have amount: "(t - ld_last_refill d) / ld_interval_seconds d * real_of_int (ld_max_batches d) = ?x"
    by (simp add: rate)
  have sum: "rate * (T - t) + ?x = rate * (T - ld_last_refill d)" by (simp add: algebra_simps)
  show ?thesis
    unfolding refill_def Let_def amount using assms(1-3) sum
    by (auto simp: bucket_ok_def min_def)
qed

lemma acquire_budget:
  assumes "bucket_ok d" and "t \<le> T" and "ld_last_refill d \<le> T"
    and "rate = real_of_int (ld_max_batches d) / ld_interval_seconds d"
    and acq: "acquire False t d = (d', ok)"
  shows "bucket_ok d'" and "ld_last_refill d' \<le> T" and "ld_max_batches d' = ld_max_batches d"
    and "ld_interval_seconds d' = ld_interval_seconds d"
    and "(if ok then 1 else 0) + ld_tokens d' + rate * (T - ld_last_refill d')
      \<le> ld_tokens d + rate * (T - ld_last_refill d)"
  using refill_budget [OF assms(1-4)] acq
  by (auto simp: acquire_def Let_def bucket_ok_def split: if_splits)

lemma grants_budget:
  assumes "bucket_ok d" and "\<forall>t \<in> set ts. t \<le> T" and "ld_last_refill d \<le> T"
    and "rate = real_of_int (ld_max_batches d) / ld_interval_seconds d"
  shows "real (grants d ts) \<le> ld_tokens d + rate * (T - ld_last_refill d)"
  using assms
proof (induction ts arbitrary: d)
  case Nil
  then have "0 \<le> rate * (T - ld_last_refill d)" by (simp add: bucket_ok_def)
  with Nil show ?case by (simp add: bucket_ok_def)
next
  case (Cons t ts)
  obtain d' ok where acq: "acquire False t d = (d', ok)" by (cases "acquire False t d")
  have "t \<le> T" using Cons.prems(2) by simp
  note step = acquire_budget [OF Cons.prems(1) this Cons.prems(3,4) acq]
  have "real (grants d' ts) \<le> ld_tokens d' + rate * (T - ld_last_refill d')"
    using Cons.IH [OF step(1) _ step(2)] Cons.prems step(3,4) by simp
  with step(5) acq show ?case by (cases ok) auto
qed

text \<open>
  At a steady backlog the drain rate is bounded: from its creation at \<open>now\<close>, whatever
  the times at which the worker asks (the clock may even step back), the bucket grants at
  most two batches plus two per 900 seconds.
\<close>

theorem drain_rate_bounded:
  assumes "\<forall>t \<in> set ts. t \<le> now + T" and "0 \<le> T"
  shows "real (grants (new_drainer 2 8 900 now) ts) \<le> 2 + T / 450"
  using grants_budget [of "new_drainer 2 8 900 now" ts "now + T" "2 / 900"] assms
  by (simp add: new_drainer_def Let_def bucket_ok_def)

theorem drain_rate_bounded_witness:
  "real (grants (new_drainer 2 8 900 0) [0, 0, 0, 1, 449]) \<le> 2 + 450 / 450"
  using drain_rate_bounded [of "[0, 0, 0, 1, 449]" 0 450] by simp

text \<open>
  A backlog that oscillates around the high-water mark is not limited at all: each crossing
  refills the bucket, so any number of batches is granted at one instant.
\<close>

definition crossing :: "pyfloat \<Rightarrow> drainer \<Rightarrow> drainer \<times> bool" where
  "crossing now d =
     (let (d', ok) = acquire False now (update_backlog_depth WAL_BACKLOG_HIGH_WATER d)
      in (update_backlog_depth 0 d', ok))"

lemma oscillating_backlog_unlimited:
  "list_all snd (map (\<lambda>i. crossing now (((\<lambda>d. fst (crossing now d)) ^^ i) (new_drainer 2 8 900 now))) [0..<n])"
proof -
  let ?d = "new_drainer 2 8 900 now"
  have "crossing now ?d = (?d, True)"
    by (simp add: crossing_def new_drainer_def update_backlog_depth_def acquire_def refill_def
        WAL_BACKLOG_HIGH_WATER_def Let_def)
  moreover from this have "((\<lambda>d. fst (crossing now d)) ^^ i) ?d = ?d" for i by (induction i) simp_all
  ultimately show ?thesis by (simp add: list_all_iff)
qed

text \<open>A reconciliation row of an unknown type leaves the stage as committed and is in no table.\<close>

lemma unknown_record_dropped:
  assumes "dw_stage w = [\<lparr>sw_stage_id = i, sw_item = recon_row ''{}'' ''fill_costs''\<rparr>]"
  shows "dw_stage (fst (drain_once REGISTERED_KINDS all_well w)) = []
    \<and> dw_sqlite (fst (drain_once REGISTERED_KINDS all_well w)) = dw_sqlite w"
  using assms
  by (simp add: drain_once_def Let_def fetch_staged_batch_def persist_staged_batch_def add_to_group_def
      persist_group_def flush_kind_def flush_reconciliation_def bump_sqlite_def persist_fill_costs_def
      persist_timing_deltas_def recon_row_def key_of_def dict_get_def all_well_def REGISTERED_KINDS_def
      drain_wake_signals_def delete_staged_rows_def)

end
