(* ===== verification/Market_Calendar.thy ===== *)
theory Market_Calendar
  imports Prelude
begin

text \<open>
  The NYSE session calendar (\<open>src/core/market_calendar.py\<close>). A date is its proleptic
  Gregorian ordinal, as \<open>date.toordinal\<close> numbers them, an instant counts microseconds from
  1970-01-01 UTC, and a New York wall-clock reading counts them from the same date without a
  zone. The zone conversion is the rule in force since 2007 (daylight time from the second
  Sunday of March to the first Sunday of November), with \<open>fold = 0\<close> for a wall-clock reading
  that is skipped or repeated. Two datetimes of one zone compare and subtract by their wall
  clocks, as Python does.
\<close>

section \<open>Dates and clock readings\<close>

type_synonym date = int
type_synonym wall = int

text \<open>The ordinal of 1 January.\<close>

definition year_start :: "int \<Rightarrow> date" where
  "year_start y = (y - 1) * 365 + (y - 1) div 4 - (y - 1) div 100 + (y - 1) div 400 + 1"

definition is_leap :: "int \<Rightarrow> bool" where
  "is_leap y \<longleftrightarrow> y mod 4 = 0 \<and> (y mod 100 \<noteq> 0 \<or> y mod 400 = 0)"

definition days_before_month :: "int \<Rightarrow> nat \<Rightarrow> int" where
  "days_before_month y m =
     [0, 31, 59, 90, 120, 151, 181, 212, 243, 273, 304, 334] ! (m - 1)
     + (if 2 < m \<and> is_leap y then 1 else 0)"

definition ymd :: "int \<Rightarrow> nat \<Rightarrow> int \<Rightarrow> date" where
  "ymd y m d = year_start y + days_before_month y m + d - 1"

text \<open>\<open>date.year\<close>: an estimate, off by at most one, and its correction.\<close>

definition year_of :: "date \<Rightarrow> int" where
  "year_of d =
     (let g = d * 400 div 146097 + 1
      in if d < year_start g then g - 1 else if year_start (g + 1) \<le> d then g + 1 else g)"

definition weekday :: "date \<Rightarrow> int" where
  "weekday d = (d + 6) mod 7"

definition DAY_US :: int where "DAY_US = 86400000000"
definition HOUR_US :: int where "HOUR_US = 3600000000"
definition EPOCH_ORDINAL :: date where "EPOCH_ORDINAL = 719163"

text \<open>The \<open>date()\<close> and the \<open>time()\<close> of a reading, and \<open>datetime.combine\<close>.\<close>

definition date_of :: "int \<Rightarrow> date" where
  "date_of w = w div DAY_US + EPOCH_ORDINAL"

definition time_of :: "int \<Rightarrow> int" where
  "time_of w = w mod DAY_US"

definition combine :: "date \<Rightarrow> int \<Rightarrow> int" where
  "combine d t = (d - EPOCH_ORDINAL) * DAY_US + t"

definition time_hm :: "int \<Rightarrow> int \<Rightarrow> int" where
  "time_hm h m = h * HOUR_US + m * 60000000"

section \<open>New York time\<close>

text \<open>The first Sunday on or after a date.\<close>

definition sunday_from :: "date \<Rightarrow> date" where
  "sunday_from d = d + (6 - weekday d)"

definition dst_start_day :: "int \<Rightarrow> date" where "dst_start_day y = sunday_from (ymd y 3 8)"
definition dst_end_day :: "int \<Rightarrow> date" where "dst_end_day y = sunday_from (ymd y 11 1)"

text \<open>Daylight time at an instant, and at a wall-clock reading with \<open>fold = 0\<close>.\<close>

definition dst_at :: "instant \<Rightarrow> bool" where
  "dst_at u = (let y = year_of (date_of u)
     in combine (dst_start_day y) (7 * HOUR_US) \<le> u \<and> u < combine (dst_end_day y) (6 * HOUR_US))"

definition dst_wall :: "wall \<Rightarrow> bool" where
  "dst_wall w = (let y = year_of (date_of w)
     in combine (dst_start_day y) (3 * HOUR_US) \<le> w \<and> w < combine (dst_end_day y) (2 * HOUR_US))"

definition astimezone_ET :: "instant \<Rightarrow> wall" where
  "astimezone_ET u = u - (if dst_at u then 4 else 5) * HOUR_US"

definition ET_to_utc :: "wall \<Rightarrow> instant" where
  "ET_to_utc w = w + (if dst_wall w then 4 else 5) * HOUR_US"

section \<open>The session calendar\<close>

definition RTH_OPEN :: int where "RTH_OPEN = time_hm 9 30"
definition RTH_CLOSE_REGULAR :: int where "RTH_CLOSE_REGULAR = time_hm 16 0"
definition RTH_CLOSE_EARLY :: int where "RTH_CLOSE_EARLY = time_hm 13 0"

definition NYSE_HOLIDAYS :: "date list" where
  "NYSE_HOLIDAYS =
     [ymd 2025 1 1, ymd 2025 1 20, ymd 2025 2 17, ymd 2025 4 18, ymd 2025 5 26, ymd 2025 6 19,
      ymd 2025 7 4, ymd 2025 9 1, ymd 2025 11 27, ymd 2025 12 25,
      ymd 2026 1 1, ymd 2026 1 19, ymd 2026 2 16, ymd 2026 4 3, ymd 2026 5 25, ymd 2026 6 19,
      ymd 2026 7 3, ymd 2026 9 7, ymd 2026 11 26, ymd 2026 12 25,
      ymd 2027 1 1, ymd 2027 1 18, ymd 2027 2 15, ymd 2027 3 26, ymd 2027 5 31, ymd 2027 6 18,
      ymd 2027 7 5, ymd 2027 9 6, ymd 2027 11 25, ymd 2027 12 24]"

definition NYSE_EARLY_CLOSE :: "date list" where
  "NYSE_EARLY_CLOSE =
     [ymd 2025 7 3, ymd 2025 11 28, ymd 2025 12 24, ymd 2026 11 27, ymd 2026 12 24,
      ymd 2027 11 26, ymd 2027 12 31]"

record session_bounds =
  sb_session_date :: date
  sb_open_et :: wall
  sb_close_et :: wall
  sb_session_minutes :: pyfloat
  sb_early_close :: bool
  sb_trading_day :: bool

record market_calendar =
  cal_holidays :: "date list"
  cal_early_closes :: "date list"

definition nyse_calendar :: market_calendar where
  "nyse_calendar = \<lparr>cal_holidays = NYSE_HOLIDAYS, cal_early_closes = NYSE_EARLY_CLOSE\<rparr>"

definition is_trading_day :: "market_calendar \<Rightarrow> date \<Rightarrow> bool" where
  "is_trading_day cal d = (if 5 \<le> weekday d then False else d \<notin> set (cal_holidays cal))"

definition is_early_close :: "market_calendar \<Rightarrow> date \<Rightarrow> bool" where
  "is_early_close cal d = (d \<in> set (cal_early_closes cal))"

definition session_close_time :: "market_calendar \<Rightarrow> date \<Rightarrow> int" where
  "session_close_time cal d = (if is_early_close cal d then RTH_CLOSE_EARLY else RTH_CLOSE_REGULAR)"

definition session_bounds_of :: "market_calendar \<Rightarrow> date \<Rightarrow> session_bounds" where
  "session_bounds_of cal d =
     (let trading_day = is_trading_day cal d;
          open_dt = combine d RTH_OPEN;
          close_dt = combine d (session_close_time cal d)
      in \<lparr>sb_session_date = d, sb_open_et = open_dt, sb_close_et = close_dt,
          sb_session_minutes = (if trading_day then total_seconds (close_dt - open_dt) / 60 else 0),
          sb_early_close = is_early_close cal d, sb_trading_day = trading_day\<rparr>)"

definition is_within_rth :: "market_calendar \<Rightarrow> instant \<Rightarrow> bool" where
  "is_within_rth cal u =
     (let et = astimezone_ET u; bounds = session_bounds_of cal (date_of et)
      in if \<not> sb_trading_day bounds then False
         else RTH_OPEN \<le> time_of et \<and> time_of et \<le> time_of (sb_close_et bounds))"

text \<open>The loop of \<open>last_session_close\<close> with its iterations left; the code allows ten.\<close>

fun close_loop :: "nat \<Rightarrow> market_calendar \<Rightarrow> instant \<Rightarrow> date \<Rightarrow> instant" where
  "close_loop 0 cal u cursor = u"
| "close_loop (Suc n) cal u cursor =
     (let et = astimezone_ET u; close_dt = sb_close_et (session_bounds_of cal cursor)
      in if is_trading_day cal cursor \<and> (close_dt \<le> et \<or> cursor < date_of et)
         then ET_to_utc close_dt
         else close_loop n cal u (cursor - 1))"

definition last_session_close :: "market_calendar \<Rightarrow> instant \<Rightarrow> instant" where
  "last_session_close cal u = close_loop 10 cal u (date_of (astimezone_ET u))"

definition effective_reference_time :: "market_calendar \<Rightarrow> string \<Rightarrow> instant \<Rightarrow> instant" where
  "effective_reference_time cal asset_class u =
     (if asset_class = ''crypto'' then u
      else if is_within_rth cal u then u
      else last_session_close cal u)"

definition expected_bars_for_session :: "market_calendar \<Rightarrow> date \<Rightarrow> int \<Rightarrow> int" where
  "expected_bars_for_session cal d bar_minutes =
     (let bounds = session_bounds_of cal d
      in if \<not> sb_trading_day bounds \<or> bar_minutes \<le> 0 then 0
         else max 1 \<lfloor>sb_session_minutes bounds / real_of_int bar_minutes\<rfloor>)"

section \<open>Lemmas on dates\<close>

lemma leap_count_bounds:
  fixes x a b c ra rb rc :: int
  assumes "x = 4 * a + ra" "0 \<le> ra" "ra \<le> 3" and "x = 100 * b + rb" "0 \<le> rb" "rb \<le> 99"
    and "x = 400 * c + rc" "0 \<le> rc" "rc \<le> 399"
  shows "146097 * x - 699 \<le> 400 * (x * 365 + a - b + c)"
    and "400 * (x * 365 + a - b + c) \<le> 146097 * x + 396"
proof -
  have "400 * a = 100 * x - 100 * ra" "400 * b = 4 * x - 4 * rb" "400 * c = x - rc"
    using assms(1,4,7) by simp_all
  then have "400 * (x * 365 + a - b + c) = 146097 * x - 100 * ra + 4 * rb - rc"
    by (simp add: algebra_simps)
  with assms show "146097 * x - 699 \<le> 400 * (x * 365 + a - b + c)"
    "400 * (x * 365 + a - b + c) \<le> 146097 * x + 396" by simp_all
qed

lemma year_start_bounds:
  "146097 * (y - 1) - 699 \<le> 400 * (year_start y - 1)"
  "400 * (year_start y - 1) \<le> 146097 * (y - 1) + 396"
proof -
  let ?x = "y - 1"
  have b: "?x mod 4 \<le> 3" "?x mod 100 \<le> 99" "?x mod 400 \<le> 399"
    using pos_mod_bound [of 4 ?x] pos_mod_bound [of 100 ?x] pos_mod_bound [of 400 ?x] by simp_all
  have p: "0 \<le> ?x mod 4" "0 \<le> ?x mod 100" "0 \<le> ?x mod 400" by simp_all
  note bounds = leap_count_bounds [OF mult_div_mod_eq [symmetric] p(1) b(1)
      mult_div_mod_eq [symmetric] p(2) b(2) mult_div_mod_eq [symmetric] p(3) b(3)]
  have eq: "year_start y - 1 = ?x * 365 + ?x div 4 - ?x div 100 + ?x div 400"
    by (simp add: year_start_def)
  show "146097 * (y - 1) - 699 \<le> 400 * (year_start y - 1)"
    "400 * (year_start y - 1) \<le> 146097 * (y - 1) + 396"
    unfolding eq by (rule bounds)+
qed

lemma div_pred:
  assumes "0 < (k :: int)"
  shows "y div k = (y - 1) div k + (if k dvd y then 1 else 0)"
proof (cases "k dvd y")
  case True
  then obtain q where q: "y = k * q" ..
  have "(k * q - 1) div k = q - 1"
    by (rule int_div_pos_eq [where r = "k - 1"]) (use assms in \<open>simp_all add: algebra_simps\<close>)
  with q assms show ?thesis by simp
next
  case False
  then have "0 < y mod k" using assms by (simp add: dvd_eq_mod_eq_0 order_less_le)
  moreover have "y mod k < k" using assms by simp
  moreover have "k * (y div k) + y mod k = y" by (rule mult_div_mod_eq)
  ultimately have "(y - 1) div k = y div k"
    using assms by (intro int_div_pos_eq [where r = "y mod k - 1"]) (linarith+)
  with False show ?thesis by simp
qed

lemma year_start_step: "year_start y + 365 \<le> year_start (y + 1)"
proof -
  have d: "400 dvd y \<longrightarrow> 100 dvd y" "100 dvd y \<longrightarrow> 4 dvd y"
    using dvd_trans [of 100 400 y] dvd_trans [of 4 100 y] by simp_all
  define a b c where abc: "a = (y - 1) div 4" "b = (y - 1) div 100" "c = (y - 1) div 400"
  have "year_start (y + 1) = y * 365 + y div 4 - y div 100 + y div 400 + 1"
    by (simp add: year_start_def)
  also have "\<dots> = y * 365 + (a + (if 4 dvd y then 1 else 0)) - (b + (if 100 dvd y then 1 else 0))
      + (c + (if 400 dvd y then 1 else 0)) + 1"
    unfolding abc using div_pred [of 4 y] div_pred [of 100 y] div_pred [of 400 y] by simp
  finally show ?thesis
    using d unfolding year_start_def abc [symmetric] by (simp split: if_splits)
qed

lemma year_start_mono: "a \<le> b \<Longrightarrow> year_start a \<le> year_start b"
proof (induction b rule: int_ge_induct)
  case (step i)
  then show ?case using year_start_step [of i] by linarith
qed simp

lemma year_of_bounds: "year_start (year_of d) \<le> d" "d < year_start (year_of d + 1)"
proof -
  define g where "g = d * 400 div 146097 + 1"
  define r where "r = d * 400 mod 146097"
  have "146097 * (g - 1) + r = d * 400"
    unfolding g_def r_def by (simp only: add_diff_cancel_right' mult_div_mod_eq)
  moreover have "0 \<le> r" "r < 146097" by (simp_all add: r_def)
  ultimately have g: "146097 * (g - 1) \<le> 400 * d" "400 * d < 146097 * g" by simp_all
  have "year_start (g - 1) \<le> d" "d < year_start (g + 2)"
    using g year_start_bounds [of "g - 1"] year_start_bounds [of "g + 2"] by simp_all
  then show "year_start (year_of d) \<le> d" "d < year_start (year_of d + 1)"
    unfolding year_of_def g_def [symmetric] by (auto simp: Let_def add.commute)
qed

lemma year_of_unique:
  assumes "year_start y \<le> d" and "d < year_start (y + 1)"
  shows "year_of d = y"
proof -
  have "\<not> year_of d < y" using year_of_bounds [of d] assms year_start_mono [of "year_of d + 1" y] by force
  moreover have "\<not> y < year_of d"
    using year_of_bounds [of d] assms year_start_mono [of "y + 1" "year_of d"] by force
  ultimately show ?thesis by simp
qed

section \<open>Lemmas on clock readings\<close>

lemma time_of_bounds [simp]: "0 \<le> time_of w" "time_of w < DAY_US"
  by (simp_all add: time_of_def DAY_US_def)

lemma combine_date_time: "combine (date_of w) (time_of w) = w"
  by (simp add: combine_def date_of_def time_of_def)

lemma date_of_combine [simp]: "0 \<le> t \<Longrightarrow> t < DAY_US \<Longrightarrow> date_of (combine d t) = d"
  by (simp add: combine_def date_of_def DAY_US_def)

lemma time_of_combine [simp]: "0 \<le> t \<Longrightarrow> t < DAY_US \<Longrightarrow> time_of (combine d t) = t"
  by (simp add: combine_def time_of_def mod_pos_pos_trivial)

lemma combine_add: "combine d t + k = combine d (t + k)"
  by (simp add: combine_def)

lemma combine_less_iff: "combine d t < combine d t' \<longleftrightarrow> t < t'"
  and combine_le_iff: "combine d t \<le> combine d t' \<longleftrightarrow> t \<le> t'"
  by (simp_all add: combine_def)

lemma combine_later: "d < d' \<Longrightarrow> combine d t + DAY_US \<le> combine d' t' + t - t'"
proof -
  assume "d < d'"
  then have "(d - EPOCH_ORDINAL + 1) * DAY_US \<le> (d' - EPOCH_ORDINAL) * DAY_US"
    by (intro mult_right_mono) (simp_all add: DAY_US_def)
  then show ?thesis by (simp add: combine_def algebra_simps)
qed

lemma before_combine: "date_of u < d \<Longrightarrow> 0 \<le> t \<Longrightarrow> u < combine d t"
  using combine_later [of "date_of u" d "time_of u" t] combine_date_time [of u] time_of_bounds [of u]
  by linarith

lemma after_combine: "d < date_of u \<Longrightarrow> t < DAY_US \<Longrightarrow> combine d t < u"
  using combine_later [of d "date_of u" t "time_of u"] combine_date_time [of u] time_of_bounds [of u]
  by linarith

lemma date_of_mono: "u \<le> v \<Longrightarrow> date_of u \<le> date_of v"
  by (simp add: date_of_def zdiv_mono1 DAY_US_def)

lemma date_of_shift: "0 \<le> k \<Longrightarrow> k \<le> DAY_US \<Longrightarrow> date_of w \<le> date_of (w + k) \<and> date_of (w + k) \<le> date_of w + 1"
proof
  assume k: "0 \<le> k" "k \<le> DAY_US"
  then show "date_of w \<le> date_of (w + k)" by (simp add: date_of_mono)
  have "date_of (w + k) \<le> date_of (w + DAY_US)" using k by (simp add: date_of_mono)
  then show "date_of (w + k) \<le> date_of w + 1" by (simp add: date_of_def DAY_US_def)
qed

lemma dst_days:
  "year_start y + 66 \<le> dst_start_day y" "dst_start_day y \<le> year_start y + 73"
  "year_start y + 304 \<le> dst_end_day y" "dst_end_day y \<le> year_start y + 311"
  by (auto simp: dst_start_day_def dst_end_day_def sunday_from_def ymd_def days_before_month_def
      weekday_def)

lemma dst_days_sunday: "weekday (dst_start_day y) = 6" "weekday (dst_end_day y) = 6"
proof -
  have "weekday (sunday_from d) = 6" for d unfolding sunday_from_def weekday_def by presburger
  then show "weekday (dst_start_day y) = 6" "weekday (dst_end_day y) = 6"
    by (simp_all add: dst_start_day_def dst_end_day_def)
qed

text \<open>The rule of a year decides the day before and the day after the year too.\<close>

lemma dst_at_iff:
  assumes "year_start y - 1 \<le> date_of u" and "date_of u \<le> year_start (y + 1)"
  shows "dst_at u \<longleftrightarrow> combine (dst_start_day y) (7 * HOUR_US) \<le> u \<and> u < combine (dst_end_day y) (6 * HOUR_US)"
proof -
  have h: "7 * HOUR_US < DAY_US" "6 * HOUR_US < DAY_US" "0 \<le> HOUR_US" by (simp_all add: HOUR_US_def DAY_US_def)
  consider "date_of u = year_start y - 1" | "year_start y \<le> date_of u" "date_of u < year_start (y + 1)"
    | "date_of u = year_start (y + 1)" using assms by linarith
  then show ?thesis
  proof cases
    case 1
    then have "year_of (date_of u) = y - 1"
      using year_start_step [of "y - 1"] by (intro year_of_unique) simp_all
    moreover have "dst_end_day (y - 1) < date_of u" "date_of u < dst_start_day y"
      using 1 dst_days [of "y - 1"] dst_days [of y] year_start_step [of "y - 1"] by simp_all
    ultimately show ?thesis
      using h after_combine [of "dst_end_day (y - 1)" u "6 * HOUR_US"]
        before_combine [of u "dst_start_day y" "7 * HOUR_US"]
      by (simp add: dst_at_def Let_def)
  next
    case 2
    then show ?thesis by (simp add: dst_at_def Let_def year_of_unique)
  next
    case 3
    then have "year_of (date_of u) = y + 1"
      using year_start_step [of "y + 1"] by (intro year_of_unique) simp_all
    moreover have "dst_end_day y < date_of u" "date_of u < dst_start_day (y + 1)"
      using 3 dst_days [of "y + 1"] dst_days [of y] year_start_step [of y] by simp_all
    ultimately show ?thesis
      using h after_combine [of "dst_end_day y" u "6 * HOUR_US"]
        before_combine [of u "dst_start_day (y + 1)" "7 * HOUR_US"]
      by (simp add: dst_at_def Let_def)
  qed
qed

text \<open>The reading that no instant has: the hour skipped in March.\<close>

definition skipped :: "wall \<Rightarrow> bool" where
  "skipped w = (let d = dst_start_day (year_of (date_of w))
     in combine d (2 * HOUR_US) \<le> w \<and> w < combine d (3 * HOUR_US))"

text \<open>The reading that two instants have: the hour repeated in November.\<close>

definition repeated :: "wall \<Rightarrow> bool" where
  "repeated w = (let d = dst_end_day (year_of (date_of w))
     in combine d HOUR_US \<le> w \<and> w < combine d (2 * HOUR_US))"

lemma dst_at_near_wall:
  assumes "4 * HOUR_US \<le> k" and "k \<le> 5 * HOUR_US" and "y = year_of (date_of w)"
  shows "dst_at (w + k) \<longleftrightarrow>
    combine (dst_start_day y) (7 * HOUR_US) \<le> w + k \<and> w + k < combine (dst_end_day y) (6 * HOUR_US)"
proof (rule dst_at_iff)
  have "date_of w \<le> date_of (w + k)" "date_of (w + k) \<le> date_of w + 1"
    using date_of_shift [of k w] assms by (simp_all add: HOUR_US_def DAY_US_def)
  then show "year_start y - 1 \<le> date_of (w + k)" "date_of (w + k) \<le> year_start (y + 1)"
    using year_of_bounds [of "date_of w"] assms(3) by simp_all
qed

lemma astimezone_ET_to_utc:
  assumes "\<not> skipped w"
  shows "astimezone_ET (ET_to_utc w) = w"
proof -
  define y where "y = year_of (date_of w)"
  let ?s = "combine (dst_start_day y)" and ?e = "combine (dst_end_day y)"
  have shift: "?s (3 * HOUR_US) + 4 * HOUR_US = ?s (7 * HOUR_US)" "?s (2 * HOUR_US) + 5 * HOUR_US = ?s (7 * HOUR_US)"
    "?e (2 * HOUR_US) + 4 * HOUR_US = ?e (6 * HOUR_US)" by (simp_all add: combine_add)
  have pos: "0 < HOUR_US" by (simp add: HOUR_US_def)
  show ?thesis
  proof (cases "dst_wall w")
    case True
    then have "dst_at (w + 4 * HOUR_US)"
      using dst_at_near_wall [of "4 * HOUR_US" y w] shift pos y_def
      unfolding dst_wall_def Let_def by simp
    with True show ?thesis by (simp add: ET_to_utc_def astimezone_ET_def)
  next
    case False
    then have "\<not> dst_at (w + 5 * HOUR_US)"
      using dst_at_near_wall [of "5 * HOUR_US" y w] shift pos assms y_def
      unfolding dst_wall_def skipped_def Let_def by auto
    with False show ?thesis by (simp add: ET_to_utc_def astimezone_ET_def)
  qed
qed

lemma ET_to_utc_le:
  assumes "w \<le> astimezone_ET u" and "\<not> skipped w"
  shows "ET_to_utc w \<le> u"
proof (rule ccontr)
  assume "\<not> ET_to_utc w \<le> u"
  define y where "y = year_of (date_of w)"
  let ?s = "combine (dst_start_day y)" and ?e = "combine (dst_end_day y)"
  have shift: "?s (2 * HOUR_US) + 5 * HOUR_US = ?s (7 * HOUR_US)"
    "?e (2 * HOUR_US) + 4 * HOUR_US = ?e (6 * HOUR_US)" by (simp_all add: combine_add)
  have pos: "0 < HOUR_US" by (simp add: HOUR_US_def)
  have c: "\<not> dst_wall w" "dst_at u" "w + 4 * HOUR_US \<le> u" "u < w + 5 * HOUR_US"
    using \<open>\<not> ET_to_utc w \<le> u\<close> assms(1) pos
    by (auto simp: ET_to_utc_def astimezone_ET_def split: if_splits)
  then have "?s (7 * HOUR_US) \<le> u" "u < ?e (6 * HOUR_US)"
    using dst_at_near_wall [of "u - w" y w] y_def by simp_all
  then have "?s (2 * HOUR_US) \<le> w" "w < ?e (2 * HOUR_US)" using c shift by linarith+
  with c(1) assms(2) show False unfolding dst_wall_def skipped_def Let_def y_def [symmetric] by auto
qed

lemma ET_to_utc_le_iff:
  assumes "\<not> skipped w" and "\<not> repeated w"
  shows "ET_to_utc w \<le> u \<longleftrightarrow> w \<le> astimezone_ET u"
proof
  assume le: "ET_to_utc w \<le> u"
  show "w \<le> astimezone_ET u"
  proof (rule ccontr)
    assume "\<not> w \<le> astimezone_ET u"
    define y where "y = year_of (date_of w)"
    let ?s = "combine (dst_start_day y)" and ?e = "combine (dst_end_day y)"
    have shift: "?s (3 * HOUR_US) + 4 * HOUR_US = ?s (7 * HOUR_US)"
      "?e HOUR_US + 5 * HOUR_US = ?e (6 * HOUR_US)" by (simp_all add: combine_add)
    have pos: "0 < HOUR_US" by (simp add: HOUR_US_def)
    have c: "dst_wall w" "\<not> dst_at u" "w + 4 * HOUR_US \<le> u" "u < w + 5 * HOUR_US"
      using \<open>\<not> w \<le> astimezone_ET u\<close> le pos
      by (auto simp: ET_to_utc_def astimezone_ET_def split: if_splits)
    from c(1) have w: "?s (3 * HOUR_US) \<le> w" "w < ?e (2 * HOUR_US)"
      unfolding dst_wall_def Let_def y_def by simp_all
    then have "?s (7 * HOUR_US) \<le> u" using c shift by linarith
    then have "?e (6 * HOUR_US) \<le> u" using c dst_at_near_wall [of "u - w" y w] y_def by auto
    then have "?e HOUR_US \<le> w" using c shift by linarith
    with w assms(2) show False unfolding repeated_def Let_def y_def [symmetric] by simp
  qed
qed (rule ET_to_utc_le [OF _ assms(1)])

text \<open>An hour of the day from three o'clock on is neither skipped nor repeated.\<close>

lemma daytime_regular:
  assumes "3 * HOUR_US \<le> time_of w"
  shows "\<not> skipped w" "\<not> repeated w"
proof -
  have "\<not> (combine d 0 \<le> w \<and> w < combine d (3 * HOUR_US))" for d
  proof (cases "d = date_of w")
    case True
    then show ?thesis using combine_le_iff [of d] assms combine_date_time [of w] by (metis not_less)
  next
    case False
    then consider "date_of w < d" | "d < date_of w" by linarith
    then show ?thesis
      using before_combine [of w d 0] after_combine [of d w "3 * HOUR_US"]
      by cases (auto simp: HOUR_US_def DAY_US_def)
  qed
  moreover have "combine d 0 \<le> combine d HOUR_US" "combine d 0 \<le> combine d (2 * HOUR_US)"
    "combine d (2 * HOUR_US) \<le> combine d (3 * HOUR_US)" for d
    by (simp_all add: combine_le_iff HOUR_US_def)
  ultimately show "\<not> skipped w" "\<not> repeated w"
    unfolding skipped_def repeated_def Let_def by (meson order_trans order_less_le_trans)+
qed

section \<open>Lemmas on sessions\<close>

lemma close_time_bounds:
  "3 * HOUR_US \<le> session_close_time cal d" "0 \<le> session_close_time cal d"
  "session_close_time cal d < DAY_US" "RTH_OPEN < session_close_time cal d"
  by (simp_all add: session_close_time_def RTH_CLOSE_EARLY_def RTH_CLOSE_REGULAR_def RTH_OPEN_def
      time_hm_def HOUR_US_def DAY_US_def)

definition session_close :: "market_calendar \<Rightarrow> date \<Rightarrow> instant" where
  "session_close cal d = ET_to_utc (sb_close_et (session_bounds_of cal d))"

lemma sb_close_et [simp]: "sb_close_et (session_bounds_of cal d) = combine d (session_close_time cal d)"
  and sb_trading_day [simp]: "sb_trading_day (session_bounds_of cal d) = is_trading_day cal d"
  by (simp_all add: session_bounds_of_def Let_def)

lemma close_regular:
  "\<not> skipped (combine d (session_close_time cal d))" "\<not> repeated (combine d (session_close_time cal d))"
  by (rule daytime_regular; simp add: close_time_bounds)+

lemma session_close_le_iff:
  "session_close cal d \<le> u \<longleftrightarrow> combine d (session_close_time cal d) \<le> astimezone_ET u"
  by (simp add: session_close_def ET_to_utc_le_iff close_regular)

lemma session_close_mono: "d \<le> d' \<Longrightarrow> session_close cal d \<le> session_close cal d'"
proof (cases "d = d'")
  case False
  moreover assume "d \<le> d'"
  ultimately have "d < d'" by simp
  from combine_later [OF this, of "session_close_time cal d" "session_close_time cal d'"]
  show ?thesis using close_time_bounds [of cal d] close_time_bounds [of cal d']
    by (auto simp: session_close_def ET_to_utc_def DAY_US_def HOUR_US_def)
qed simp

text \<open>A session has closed by an instant; the loop looks for the latest such session.\<close>

definition session_over :: "market_calendar \<Rightarrow> instant \<Rightarrow> date \<Rightarrow> bool" where
  "session_over cal u d \<longleftrightarrow> is_trading_day cal d \<and> session_close cal d \<le> u"

lemma loop_test:
  "is_trading_day cal c \<and> (sb_close_et (session_bounds_of cal c) \<le> astimezone_ET u \<or> c < date_of (astimezone_ET u))
   \<longleftrightarrow> session_over cal u c"
  using after_combine [of c "astimezone_ET u" "session_close_time cal c"]
  by (auto simp: session_over_def session_close_le_iff close_time_bounds)

lemma close_loop_Suc:
  "close_loop (Suc n) cal u c = (if session_over cal u c then session_close cal c else close_loop n cal u (c - 1))"
  unfolding close_loop.simps Let_def loop_test by (simp add: session_close_def)

declare close_loop.simps(2) [simp del]

lemma close_loop_finds:
  assumes "session_over cal u d" and "c - int n < d" and "d \<le> c"
  shows "\<exists>d'. d \<le> d' \<and> d' \<le> c \<and> session_over cal u d' \<and> close_loop n cal u c = session_close cal d'
    \<and> (\<forall>x. d' < x \<and> x \<le> c \<longrightarrow> \<not> session_over cal u x)"
  using assms
proof (induction n arbitrary: c)
  case (Suc n)
  show ?case
  proof (cases "session_over cal u c")
    case True
    then show ?thesis using Suc.prems by (intro exI [of _ c]) (auto simp: close_loop_Suc)
  next
    case False
    then have "d \<noteq> c" using Suc.prems(1) by auto
    then obtain d' where d': "d \<le> d'" "d' \<le> c - 1" "session_over cal u d'"
      "close_loop n cal u (c - 1) = session_close cal d'"
      "\<forall>x. d' < x \<and> x \<le> c - 1 \<longrightarrow> \<not> session_over cal u x"
      using Suc.IH [of "c - 1"] Suc.prems by auto
    moreover have "\<forall>x. d' < x \<and> x \<le> c \<longrightarrow> \<not> session_over cal u x"
      using d'(5) False by (metis less_le zle_diff1_eq)
    ultimately show ?thesis using False by (intro exI [of _ d']) (simp add: close_loop_Suc)
  qed
qed simp

lemma session_over_not_future: "session_over cal u d \<Longrightarrow> d \<le> date_of (astimezone_ET u)"
  using before_combine [of "astimezone_ET u" d "session_close_time cal d"] close_time_bounds [of cal d]
  by (force simp: session_over_def session_close_le_iff)

lemma last_session_close_greatest:
  assumes "is_trading_day cal d" and "date_of (astimezone_ET u) - 10 < d" and "d < date_of (astimezone_ET u)"
  shows "last_session_close cal u \<le> u"
    and "\<exists>d'. is_trading_day cal d' \<and> last_session_close cal u = session_close cal d'"
    and "session_over cal u x \<Longrightarrow> session_close cal x \<le> last_session_close cal u"
proof -
  have "session_over cal u d"
    using assms loop_test [of cal d u] by simp
  from close_loop_finds [OF this, of "date_of (astimezone_ET u)" 10] assms
  obtain d' where d': "session_over cal u d'" "last_session_close cal u = session_close cal d'"
    "\<forall>x. d' < x \<and> x \<le> date_of (astimezone_ET u) \<longrightarrow> \<not> session_over cal u x"
    unfolding last_session_close_def by auto
  then show "last_session_close cal u \<le> u"
    "\<exists>d'. is_trading_day cal d' \<and> last_session_close cal u = session_close cal d'"
    by (auto simp: session_over_def)
  assume x: "session_over cal u x"
  then have "x \<le> d'" using d'(3) session_over_not_future [OF x] by force
  then show "session_close cal x \<le> last_session_close cal u" using d'(2) by (simp add: session_close_mono)
qed

section \<open>The shipped calendar\<close>

lemma holidays_apart: "\<forall>a\<in>set NYSE_HOLIDAYS. \<forall>b\<in>set NYSE_HOLIDAYS. a \<noteq> b \<longrightarrow> 7 \<le> \<bar>a - b\<bar>"
  by code_simp

lemma nyse_trading_day_near: "\<exists>k\<in>{1, 2, 3, 4}. is_trading_day nyse_calendar (d - k)"
proof (rule ccontr)
  assume none: "\<not> ?thesis"
  have off: "5 \<le> weekday (d - k) \<or> d - k \<in> set NYSE_HOLIDAYS" if "k \<in> {1, 2, 3, 4}" for k
    using none that by (auto simp: is_trading_day_def nyse_calendar_def split: if_splits)
  have apart: "\<not> (d - j \<in> set NYSE_HOLIDAYS \<and> d - k \<in> set NYSE_HOLIDAYS)"
    if "1 \<le> j" "j < k" "k \<le> 4" for j k
    using holidays_apart [rule_format, of "d - j" "d - k"] that by linarith
  have week: "\<not> (5 \<le> weekday (d - 1) \<and> 5 \<le> weekday (d - 2) \<and> 5 \<le> weekday (d - 3))"
    "\<not> (5 \<le> weekday (d - 1) \<and> 5 \<le> weekday (d - 2) \<and> 5 \<le> weekday (d - 4))"
    "\<not> (5 \<le> weekday (d - 1) \<and> 5 \<le> weekday (d - 3) \<and> 5 \<le> weekday (d - 4))"
    "\<not> (5 \<le> weekday (d - 2) \<and> 5 \<le> weekday (d - 3) \<and> 5 \<le> weekday (d - 4))"
    unfolding weekday_def by presburger+
  show False
    using off [of 1] off [of 2] off [of 3] off [of 4] apart [of 1 2] apart [of 1 3] apart [of 1 4]
      apart [of 2 3] apart [of 2 4] apart [of 3 4] week
    by simp blast
qed

lemma nyse_reference:
  "last_session_close nyse_calendar u \<le> u"
  "\<exists>d. is_trading_day nyse_calendar d \<and> last_session_close nyse_calendar u = session_close nyse_calendar d"
  "session_over nyse_calendar u x \<Longrightarrow> session_close nyse_calendar x \<le> last_session_close nyse_calendar u"
proof -
  obtain k where "k \<in> {1, 2, 3, 4 :: int}" "is_trading_day nyse_calendar (date_of (astimezone_ET u) - k)"
    using nyse_trading_day_near by blast
  then show "last_session_close nyse_calendar u \<le> u"
    "\<exists>d. is_trading_day nyse_calendar d \<and> last_session_close nyse_calendar u = session_close nyse_calendar d"
    "session_over nyse_calendar u x \<Longrightarrow> session_close nyse_calendar x \<le> last_session_close nyse_calendar u"
    using last_session_close_greatest [of nyse_calendar "date_of (astimezone_ET u) - k" u] by auto
qed

lemma session_minutes:
  "sb_session_minutes (session_bounds_of cal d) =
     (if \<not> is_trading_day cal d then 0 else if is_early_close cal d then 210 else 390)"
  by (simp add: session_bounds_of_def Let_def session_close_time_def RTH_CLOSE_EARLY_def
      RTH_CLOSE_REGULAR_def RTH_OPEN_def time_hm_def HOUR_US_def combine_def total_seconds_def)

lemma within_rth_iff:
  "is_within_rth cal u \<longleftrightarrow>
     is_trading_day cal (date_of (astimezone_ET u)) \<and> RTH_OPEN \<le> time_of (astimezone_ET u)
     \<and> time_of (astimezone_ET u) \<le> session_close_time cal (date_of (astimezone_ET u))"
  by (simp add: is_within_rth_def Let_def close_time_bounds)

section \<open>Properties\<close>

text \<open>
  The New York conversion and its inverse agree: a wall-clock reading converted to UTC
  and back is itself, unless it lies in the hour skipped in March, and every session close
  of the calendar survives the round trip, through every daylight-saving change.
\<close>

theorem session_close_roundtrip:
  "(skipped w \<or> astimezone_ET (ET_to_utc w) = w)
   \<and> astimezone_ET (session_close cal d) = combine d (session_close_time cal d)
   \<and> date_of (astimezone_ET (session_close cal d)) = d"
  using astimezone_ET_to_utc by (auto simp: session_close_def close_regular close_time_bounds)

text \<open>
  C38: The closed-market reference is the last session's close: with the shipped holiday
  tables, for every instant \<open>last_session_close\<close> returns the close of a trading day, not
  after the instant, and no session of the calendar closes between the two. Its ten-day
  search never runs out, and \<open>effective_reference_time\<close> is never in the future.
\<close>

theorem last_session_close_exact:
  "(\<exists>d. is_trading_day nyse_calendar d
      \<and> last_session_close nyse_calendar u = session_close nyse_calendar d)
   \<and> last_session_close nyse_calendar u \<le> u
   \<and> (\<forall>d. is_trading_day nyse_calendar d \<and> session_close nyse_calendar d \<le> u
        \<longrightarrow> session_close nyse_calendar d \<le> last_session_close nyse_calendar u)
   \<and> effective_reference_time nyse_calendar asset u \<le> u"
  using nyse_reference [of u] by (auto simp: session_over_def effective_reference_time_def)

text \<open>Saturday 28 November 2026, noon UTC: the reference is Friday's early close.\<close>

theorem last_session_close_exact_witness:
  "is_trading_day nyse_calendar (ymd 2026 11 27)
   \<and> session_close nyse_calendar (ymd 2026 11 27) \<le> combine (ymd 2026 11 28) (time_hm 12 0)
   \<and> session_close nyse_calendar (ymd 2026 11 27)
       \<le> last_session_close nyse_calendar (combine (ymd 2026 11 28) (time_hm 12 0))"
proof -
  have "is_trading_day nyse_calendar (ymd 2026 11 27)"
    "session_close nyse_calendar (ymd 2026 11 27) \<le> combine (ymd 2026 11 28) (time_hm 12 0)"
    by code_simp+
  with last_session_close_exact [of "combine (ymd 2026 11 28) (time_hm 12 0)" "''stock''"]
  show ?thesis by blast
qed

text \<open>
  The shipped tables are consistent: every holiday is a weekday, every early close is a
  trading day, and a session has 390 minutes, 210 on an early close, none on a day without
  one.
\<close>

theorem calendar_tables_consistent:
  "list_all (\<lambda>d. weekday d < 5) NYSE_HOLIDAYS
   \<and> list_all (is_trading_day nyse_calendar) NYSE_EARLY_CLOSE
   \<and> sb_session_minutes (session_bounds_of nyse_calendar d) =
       (if \<not> is_trading_day nyse_calendar d then 0
        else if is_early_close nyse_calendar d then 210 else 390)"
proof -
  have "list_all (\<lambda>d. weekday d < 5) NYSE_HOLIDAYS"
    "list_all (is_trading_day nyse_calendar) NYSE_EARLY_CLOSE" by code_simp+
  then show ?thesis by (simp add: session_minutes)
qed

text \<open>The close itself still counts as within regular hours.\<close>

lemma close_is_within_rth: "is_within_rth cal (session_close cal d) = is_trading_day cal d"
proof -
  have "astimezone_ET (session_close cal d) = combine d (session_close_time cal d)"
    by (simp add: session_close_def astimezone_ET_to_utc close_regular)
  then show ?thesis using close_time_bounds [of cal d] by (simp add: within_rth_iff)
qed

text \<open>The tables end with 2027: from then on every weekday counts as a full session.\<close>

lemma tables_end_2027:
  assumes "ymd 2028 1 1 \<le> d"
  shows "is_trading_day nyse_calendar d \<longleftrightarrow> weekday d < 5" "\<not> is_early_close nyse_calendar d"
proof -
  have "list_all (\<lambda>x. x < ymd 2028 1 1) (NYSE_HOLIDAYS @ NYSE_EARLY_CLOSE)" by code_simp
  then have "d \<in> set NYSE_HOLIDAYS \<union> set NYSE_EARLY_CLOSE \<longrightarrow> d < ymd 2028 1 1"
    by (simp add: list_all_iff)
  then have "d \<notin> set NYSE_HOLIDAYS" "d \<notin> set NYSE_EARLY_CLOSE" using assms by auto
  then show "is_trading_day nyse_calendar d \<longleftrightarrow> weekday d < 5" "\<not> is_early_close nyse_calendar d"
    by (auto simp: is_trading_day_def is_early_close_def nyse_calendar_def)
qed

end
