(* ===== verification/Slo_Monitor.thy ===== *)
theory Slo_Monitor
  imports Market_Calendar Walk_Forward Degradation
begin

text \<open>
  The operational SLO monitor (\<open>src/engine/slo_monitor.py\<close>): the per-symbol NBBO history,
  the missing-bar rate, the backfill lag and the data-integrity verdict that drives the
  degradation manager. Timestamps are instants (\<open>_coerce_ts\<close> gives every datetime in UTC); a
  missing one raises. The payload is a record of optional entries, \<open>None\<close> for an absent key.
  The backfill query reads rows the caller passes, and \<open>RL_BACKFILL_MIN_AGE_HOURS\<close>, which the
  repository imports from a module it does not hold, is an argument.
\<close>

section \<open>Thresholds\<close>

definition BAR_DELIVERY_LATENCY_SOFT_SECONDS :: pyfloat where "BAR_DELIVERY_LATENCY_SOFT_SECONDS = 150"
definition BAR_DELIVERY_LATENCY_HARD_SECONDS :: pyfloat where "BAR_DELIVERY_LATENCY_HARD_SECONDS = 600"
definition MISSING_BAR_RATE_SOFT :: pyfloat where "MISSING_BAR_RATE_SOFT = 6 / 100"
definition MISSING_BAR_RATE_HARD :: pyfloat where "MISSING_BAR_RATE_HARD = 18 / 100"
definition NBBO_SUCCESS_SOFT :: pyfloat where "NBBO_SUCCESS_SOFT = 85 / 100"
definition NBBO_SUCCESS_HARD :: pyfloat where "NBBO_SUCCESS_HARD = 55 / 100"
definition RL_BACKFILL_LAG_SOFT_HOURS :: pyfloat where "RL_BACKFILL_LAG_SOFT_HOURS = 8"
definition RL_BACKFILL_LAG_HARD_HOURS :: pyfloat where "RL_BACKFILL_LAG_HARD_HOURS = 30"
definition INGEST_ARRIVAL_LAG_SOFT_FRACTION :: pyfloat where "INGEST_ARRIVAL_LAG_SOFT_FRACTION = 15 / 900"
definition INGEST_ARRIVAL_LAG_HARD_FRACTION :: pyfloat where "INGEST_ARRIVAL_LAG_HARD_FRACTION = 30 / 900"
definition INGEST_SEQUENCE_MISALIGNMENT_SOFT :: int where "INGEST_SEQUENCE_MISALIGNMENT_SOFT = 1"
definition INGEST_SEQUENCE_MISALIGNMENT_HARD :: int where "INGEST_SEQUENCE_MISALIGNMENT_HARD = 5"
definition NBBO_TRACK_WINDOW :: nat where "NBBO_TRACK_WINDOW = 40"
definition MISSING_BAR_LOOKBACK :: int where "MISSING_BAR_LOOKBACK = 48"

section \<open>Verdicts and state\<close>

record data_integrity_verdict = slo_verdict +
  iv_passed :: bool
  iv_bar_freshness_seconds :: pyfloat
  iv_missing_bar_rate :: pyfloat
  iv_nbbo_success_rate :: pyfloat
  iv_rl_backfill_lag_hours :: pyfloat
  iv_calendar_session_minutes :: pyfloat
  iv_is_early_close_session :: bool

record cycle_latency_verdict =
  lv_total_cycle_ms :: pyfloat
  lv_phase_a_ms :: pyfloat
  lv_phase_b_ms :: pyfloat
  lv_phase_c_ms :: pyfloat
  lv_max_cycle_budget_ms :: pyfloat
  lv_violated :: bool

record backpressure_verdict =
  bv_pending_bundles :: int
  bv_max_pending_bundles :: int
  bv_blocks_new_entries :: bool

text \<open>The backfill ledger as the query finds it: unreachable, without the table, or rows of
  a timestamp and a realized reward.\<close>

datatype ledger_read = Connect_fails | Query_fails | Ledger "(instant \<times> pyfloat option) list"

record slo_monitor =
  sm_calendar :: market_calendar
  sm_max_cycle_budget_ms :: pyfloat
  sm_max_pending_bundles :: int
  sm_nbbo_attempts :: "(string, int list) dict"

definition new_slo_monitor :: slo_monitor where
  "new_slo_monitor =
     \<lparr>sm_calendar = nyse_calendar, sm_max_cycle_budget_ms = 1000, sm_max_pending_bundles = 5,
      sm_nbbo_attempts = []\<rparr>"

record data_payload =
  dp_exchange_reference_ts :: "instant option"
  dp_asset_class :: "string option"
  dp_symbol :: "string option"
  dp_timeframe :: "string option"
  dp_bar_minutes :: "int option"
  dp_latest_bar_timestamp :: "instant option"
  dp_bar_timestamps :: "instant list option"
  dp_lookback_bars :: "int option"
  dp_nbbo_fetch_success :: "bool option"
  dp_nbbo_success_rate :: "pyfloat option"
  dp_rl_backfill_lag_hours :: "pyfloat option"
  dp_ingest_circuit_breaker_tripped :: "bool option"
  dp_sequence_misalignment_events :: "int option"
  dp_ingest_arrival_lag_seconds :: "pyfloat option"

datatype slo_error = Missing_reference | Bad_timestamp | Ledger_unreachable

section \<open>Severities\<close>

fun severity_rank :: "integrity_severity \<Rightarrow> nat" where
  "severity_rank OK = 0"
| "severity_rank WARNING = 1"
| "severity_rank SOFT_BREACH = 2"
| "severity_rank HARD_BREACH = 3"

definition max_severity :: "integrity_severity \<Rightarrow> integrity_severity \<Rightarrow> integrity_severity" where
  "max_severity current candidate =
     (if severity_rank candidate \<le> severity_rank current then current else candidate)"

section \<open>The NBBO history\<close>

definition note_nbbo_fetch :: "bool \<Rightarrow> string \<Rightarrow> string \<Rightarrow> instant \<Rightarrow> slo_monitor \<Rightarrow> slo_monitor" where
  "note_nbbo_fetch success symbol asset_class reference_ts m =
     (if asset_class \<noteq> ''crypto'' \<and> \<not> is_within_rth (sm_calendar m) reference_ts then m
      else let key = str_upper symbol;
               dq = deque_append NBBO_TRACK_WINDOW (dict_get (sm_nbbo_attempts m) key [])
                      (if success then 1 else 0)
           in m\<lparr>sm_nbbo_attempts := AList.update key dq (sm_nbbo_attempts m)\<rparr>)"

definition nbbo_success_rate :: "string \<Rightarrow> slo_monitor \<Rightarrow> pyfloat" where
  "nbbo_success_rate symbol m =
     (case map_of (sm_nbbo_attempts m) (str_upper symbol) of
        None \<Rightarrow> 1
      | Some dq \<Rightarrow> if dq = [] then 1 else real_of_int (sum_list dq) / real (length dq))"

section \<open>Cycle latency and backpressure\<close>

definition evaluate_cycle_latency ::
  "pyfloat \<Rightarrow> pyfloat \<Rightarrow> pyfloat \<Rightarrow> pyfloat \<Rightarrow> slo_monitor \<Rightarrow> cycle_latency_verdict" where
  "evaluate_cycle_latency phase_a_ms phase_b_ms phase_c_ms total_cycle_ms m =
     \<lparr>lv_total_cycle_ms = total_cycle_ms, lv_phase_a_ms = phase_a_ms, lv_phase_b_ms = phase_b_ms,
      lv_phase_c_ms = phase_c_ms, lv_max_cycle_budget_ms = sm_max_cycle_budget_ms m,
      lv_violated = (sm_max_cycle_budget_ms m < total_cycle_ms)\<rparr>"

definition evaluate_fill_sieve_backpressure :: "int \<Rightarrow> slo_monitor \<Rightarrow> backpressure_verdict" where
  "evaluate_fill_sieve_backpressure pending_bundles m =
     \<lparr>bv_pending_bundles = pending_bundles, bv_max_pending_bundles = sm_max_pending_bundles m,
      bv_blocks_new_entries = (sm_max_pending_bundles m < pending_bundles)\<rparr>"

definition is_market_dormant :: "string \<Rightarrow> instant \<Rightarrow> slo_monitor \<Rightarrow> bool" where
  "is_market_dormant asset_class exchange_reference m \<longleftrightarrow>
     or_default asset_class ''stock'' \<noteq> ''crypto''
     \<and> \<not> is_within_rth (sm_calendar m) exchange_reference"

section \<open>Missing bars\<close>

definition both_in_same_rth_span :: "instant \<Rightarrow> instant \<Rightarrow> market_calendar \<Rightarrow> bool" where
  "both_in_same_rth_span left right cal =
     (if date_of left \<noteq> date_of right then False
      else is_within_rth cal left \<and> is_within_rth cal right)"

text \<open>The slice \<open>[-k:]\<close>.\<close>

definition last_slice :: "int \<Rightarrow> 'a list \<Rightarrow> 'a list" where
  "last_slice k xs = (if 0 < k then drop (length xs - nat k) xs else drop (nat (- k)) xs)"

text \<open>The bars missing between two neighbours, \<open>GAP_INTERVAL_MULT\<close> being 7/4.\<close>

definition gap_bars :: "int \<Rightarrow> instant \<Rightarrow> instant \<Rightarrow> int" where
  "gap_bars bar_minutes prev_ts next_ts =
     (let expected_interval = seconds (bar_minutes * 60); delta = next_ts - prev_ts
      in if real_of_int expected_interval * (175 / 100) < real_of_int delta
         then py_int (real_of_int delta / real_of_int expected_interval) - 1 else 0)"

definition compute_missing_bar_rate ::
  "instant list \<Rightarrow> int \<Rightarrow> market_calendar \<Rightarrow> int \<Rightarrow> string \<Rightarrow> pyfloat" where
  "compute_missing_bar_rate bar_timestamps bar_minutes cal lookback_bars asset_class =
     (if bar_minutes \<le> 0 \<or> bar_timestamps = [] then 0
      else
        let ordered = last_slice lookback_bars (sort bar_timestamps)
        in if length ordered < 2 then 0
           else
             let expected = int (length ordered); pairs = zip ordered (tl ordered)
             in if asset_class = ''crypto'' then
                  let gaps = sum_list (map (\<lambda>(prev_ts, next_ts). gap_bars bar_minutes prev_ts next_ts) pairs)
                  in real_of_int gaps / real_of_int (max (expected + gaps) 1)
                else
                  let gaps = sum_list (map (\<lambda>(prev_ts, next_ts). gap_bars bar_minutes prev_ts next_ts)
                        (filter (\<lambda>(prev_ts, next_ts). both_in_same_rth_span prev_ts next_ts cal) pairs));
                      session_date = date_of (astimezone_ET (last ordered));
                      session_expected = expected_bars_for_session cal session_date bar_minutes;
                      gaps' = (if 0 < session_expected \<and> is_early_close cal session_date then
                                 let observed_today = int (length (filter (\<lambda>ts.
                                       date_of (astimezone_ET ts) = session_date \<and> is_within_rth cal ts) ordered))
                                 in max gaps (max 0 (session_expected - observed_today))
                               else gaps)
                  in real_of_int gaps' / real_of_int (max (expected + gaps') 1))"

section \<open>The backfill lag\<close>

definition query_rl_backfill_lag_hours :: "pyfloat \<Rightarrow> ledger_read \<Rightarrow> instant \<Rightarrow> slo_error + pyfloat" where
  "query_rl_backfill_lag_hours min_age db reference =
     (case db of
        Connect_fails \<Rightarrow> Inl Ledger_unreachable
      | Query_fails \<Rightarrow> Inr 0
      | Ledger rows \<Rightarrow>
          Inr (foldl (\<lambda>max_lag (ts, _).
                 let age_hours = total_seconds (reference - ts) / 3600
                 in if age_hours < min_age then max_lag else max max_lag (age_hours - min_age)) 0
               (take 200 (sort_key fst (filter (\<lambda>(_, reward). reward = None) rows)))))"

definition calendar_adjusted_freshness_limit ::
  "pyfloat \<Rightarrow> int \<Rightarrow> market_calendar \<Rightarrow> instant \<Rightarrow> string \<Rightarrow> pyfloat" where
  "calendar_adjusted_freshness_limit freshness_seconds bar_minutes cal exchange_reference asset_class =
     (if asset_class = ''crypto'' then freshness_seconds
      else if is_within_rth cal exchange_reference then freshness_seconds
      else let bounds = session_bounds_of cal (date_of (astimezone_ET exchange_reference))
           in if sb_early_close bounds \<and> \<not> sb_trading_day bounds then freshness_seconds
              else min freshness_seconds (real_of_int bar_minutes * 60))"

section \<open>The verdict\<close>

type_synonym findings = "integrity_severity \<times> string list"

definition soft_if :: "bool \<Rightarrow> string \<Rightarrow> findings \<Rightarrow> findings" where
  "soft_if cond reason f = (if cond then (max_severity (fst f) SOFT_BREACH, snd f @ [reason]) else f)"

definition hard_if :: "bool \<Rightarrow> string \<Rightarrow> findings \<Rightarrow> findings" where
  "hard_if cond reason f = (if cond then (HARD_BREACH, snd f @ [reason]) else f)"

definition judge_bar_freshness :: "pyfloat \<Rightarrow> pyfloat \<Rightarrow> findings \<Rightarrow> findings" where
  "judge_bar_freshness freshness_seconds bar_period_secs f =
     hard_if (stale_after_seconds bar_period_secs BAR_DELIVERY_LATENCY_HARD_SECONDS < freshness_seconds)
       ''bar_freshness_critical''
       (soft_if (stale_after_seconds bar_period_secs BAR_DELIVERY_LATENCY_SOFT_SECONDS < freshness_seconds)
          ''bar_freshness_drift'' f)"

definition judge_missing_bars :: "pyfloat \<Rightarrow> findings \<Rightarrow> findings" where
  "judge_missing_bars rate f =
     hard_if (MISSING_BAR_RATE_HARD < rate) ''missing_bar_rate_critical''
       (soft_if (MISSING_BAR_RATE_SOFT < rate) ''missing_bar_rate_elevated'' f)"

definition judge_nbbo :: "pyfloat \<Rightarrow> findings \<Rightarrow> findings" where
  "judge_nbbo rate f =
     hard_if (rate < NBBO_SUCCESS_HARD) ''nbbo_fetch_critical''
       (soft_if (rate < NBBO_SUCCESS_SOFT) ''nbbo_fetch_degraded'' f)"

definition judge_breaker :: "bool \<Rightarrow> findings \<Rightarrow> findings" where
  "judge_breaker tripped f = soft_if tripped ''ingest_circuit_breaker_tripped'' f"

definition judge_sequence :: "int \<Rightarrow> findings \<Rightarrow> findings" where
  "judge_sequence n f =
     (if INGEST_SEQUENCE_MISALIGNMENT_HARD \<le> n then hard_if True ''sequence_misalignment_critical'' f
      else soft_if (INGEST_SEQUENCE_MISALIGNMENT_SOFT \<le> n) ''sequence_misalignment'' f)"

definition judge_arrival_lag :: "pyfloat \<Rightarrow> findings \<Rightarrow> findings" where
  "judge_arrival_lag fraction f =
     (if INGEST_ARRIVAL_LAG_HARD_FRACTION < fraction then hard_if True ''ingest_arrival_lag_critical'' f
      else soft_if (INGEST_ARRIVAL_LAG_SOFT_FRACTION < fraction) ''ingest_arrival_lag'' f)"

definition timeframe_minutes :: "data_payload \<Rightarrow> int" where
  "timeframe_minutes p = dict_get TIMEFRAME_MINUTES (or_str (dp_timeframe p) ''15Min'') 15"

definition payload_bar_minutes :: "data_payload \<Rightarrow> int" where
  "payload_bar_minutes p = or_num (dp_bar_minutes p) (timeframe_minutes p)"

definition dormant_verdict :: data_integrity_verdict where
  "dormant_verdict =
     \<lparr>vd_severity = OK, vd_reasons = [''dormant_market_closed''], iv_passed = True,
      iv_bar_freshness_seconds = 0, iv_missing_bar_rate = 0, iv_nbbo_success_rate = 1,
      iv_rl_backfill_lag_hours = 0, iv_calendar_session_minutes = 0, iv_is_early_close_session = False\<rparr>"

text \<open>The lag as a fraction of the period of the payload's timeframe.\<close>

definition arrival_lag_fraction :: "data_payload \<Rightarrow> pyfloat" where
  "arrival_lag_fraction p =
     (let bar_period_seconds = real_of_int (timeframe_minutes p) * 60
      in if 0 < bar_period_seconds
         then or_num (dp_ingest_arrival_lag_seconds p) 0 / bar_period_seconds else 0)"

definition judge_all :: "pyfloat \<Rightarrow> pyfloat \<Rightarrow> pyfloat \<Rightarrow> data_payload \<Rightarrow> findings" where
  "judge_all freshness missing nbbo p =
     judge_arrival_lag (arrival_lag_fraction p)
      (judge_sequence (or_num (dp_sequence_misalignment_events p) 0)
        (judge_breaker (dp_ingest_circuit_breaker_tripped p = Some True)
          (judge_nbbo nbbo
            (judge_missing_bars missing
              (judge_bar_freshness freshness (real_of_int (payload_bar_minutes p) * 60) (OK, []))))))"

definition evaluate_data_integrity ::
  "pyfloat \<Rightarrow> ledger_read \<Rightarrow> data_payload \<Rightarrow> slo_monitor
     \<Rightarrow> slo_monitor \<times> (slo_error + data_integrity_verdict)" where
  "evaluate_data_integrity min_age db p m =
     (case dp_exchange_reference_ts p of
        None \<Rightarrow> (m, Inl Missing_reference)
      | Some exchange_reference \<Rightarrow>
          let asset_class = or_str (dp_asset_class p) ''stock''; cal = sm_calendar m
          in if is_market_dormant asset_class exchange_reference m then (m, Inr dormant_verdict)
             else (case dp_latest_bar_timestamp p of
                 None \<Rightarrow> (m, Inl Bad_timestamp)
               | Some latest_bar_ts \<Rightarrow>
                   let bar_minutes = payload_bar_minutes p;
                       reference_ts = effective_reference_time cal asset_class exchange_reference;
                       bar_timestamps = (case dp_bar_timestamps p of None \<Rightarrow> [] | Some ts \<Rightarrow> ts);
                       missing = compute_missing_bar_rate bar_timestamps bar_minutes cal
                         (or_num (dp_lookback_bars p) MISSING_BAR_LOOKBACK) asset_class;
                       freshness = calendar_adjusted_freshness_limit
                         (bar_staleness_seconds latest_bar_ts (real_of_int bar_minutes * 60) reference_ts)
                         bar_minutes cal exchange_reference asset_class;
                       symbol = or_str (dp_symbol p) [];
                       m' = (case dp_nbbo_fetch_success p of
                               None \<Rightarrow> m
                             | Some success \<Rightarrow> note_nbbo_fetch success symbol asset_class exchange_reference m);
                       nbbo = or_num (dp_nbbo_success_rate p) (nbbo_success_rate symbol m');
                       lag = (case dp_rl_backfill_lag_hours p of
                                Some h \<Rightarrow> Inr h
                              | None \<Rightarrow> query_rl_backfill_lag_hours min_age db exchange_reference)
                   in (case lag of
                         Inl e \<Rightarrow> (m', Inl e)
                       | Inr lag_hours \<Rightarrow>
                           let bounds = session_bounds_of cal (date_of (astimezone_ET exchange_reference));
                               f = judge_all freshness missing nbbo p
                           in (m', Inr
                             \<lparr>vd_severity = fst f, vd_reasons = snd f,
                              iv_passed = (fst f \<in> {OK, WARNING}),
                              iv_bar_freshness_seconds = freshness, iv_missing_bar_rate = missing,
                              iv_nbbo_success_rate = nbbo, iv_rl_backfill_lag_hours = lag_hours,
                              iv_calendar_session_minutes = sb_session_minutes bounds,
                              iv_is_early_close_session = sb_early_close bounds\<rparr>))))"

record pipeline_health =
  ph_healthy :: bool
  ph_alert :: bool
  ph_rl_backfill_lag_hours :: pyfloat
  ph_reason :: string

definition evaluate_research_pipeline_health ::
  "pyfloat \<Rightarrow> ledger_read \<Rightarrow> instant \<Rightarrow> pyfloat option \<Rightarrow> slo_error + pipeline_health" where
  "evaluate_research_pipeline_health min_age db reference_ts rl_backfill_lag_hours =
     (case (case rl_backfill_lag_hours of Some h \<Rightarrow> Inr h
            | None \<Rightarrow> query_rl_backfill_lag_hours min_age db reference_ts) of
        Inl e \<Rightarrow> Inl e
      | Inr lag \<Rightarrow>
          let alert = (RL_BACKFILL_LAG_HARD_HOURS < lag); healthy = (lag \<le> RL_BACKFILL_LAG_SOFT_HOURS)
          in Inr \<lparr>ph_healthy = healthy, ph_alert = alert, ph_rl_backfill_lag_hours = lag,
                  ph_reason = (if \<not> healthy then ''rl_backfill_lag'' else [])\<rparr>)"

section \<open>What the verdict depends on\<close>

text \<open>The signals that ask for a hard and for a soft breach, over the numbers of the verdict.\<close>

definition hard_signal :: "pyfloat \<Rightarrow> pyfloat \<Rightarrow> pyfloat \<Rightarrow> data_payload \<Rightarrow> bool" where
  "hard_signal freshness missing nbbo p \<longleftrightarrow>
     real_of_int (payload_bar_minutes p) * 60 + 600 < freshness \<or> 18 / 100 < missing
     \<or> nbbo < 55 / 100 \<or> 5 \<le> or_num (dp_sequence_misalignment_events p) 0
     \<or> 30 / 900 < arrival_lag_fraction p"

definition soft_signal :: "pyfloat \<Rightarrow> pyfloat \<Rightarrow> pyfloat \<Rightarrow> data_payload \<Rightarrow> bool" where
  "soft_signal freshness missing nbbo p \<longleftrightarrow>
     real_of_int (payload_bar_minutes p) * 60 + 150 < freshness \<or> 6 / 100 < missing
     \<or> nbbo < 85 / 100 \<or> 1 \<le> or_num (dp_sequence_misalignment_events p) 0
     \<or> 15 / 900 < arrival_lag_fraction p \<or> dp_ingest_circuit_breaker_tripped p = Some True"

lemmas threshold_defs = BAR_DELIVERY_LATENCY_SOFT_SECONDS_def BAR_DELIVERY_LATENCY_HARD_SECONDS_def
  MISSING_BAR_RATE_SOFT_def MISSING_BAR_RATE_HARD_def NBBO_SUCCESS_SOFT_def NBBO_SUCCESS_HARD_def
  INGEST_ARRIVAL_LAG_SOFT_FRACTION_def INGEST_ARRIVAL_LAG_HARD_FRACTION_def
  INGEST_SEQUENCE_MISALIGNMENT_SOFT_def INGEST_SEQUENCE_MISALIGNMENT_HARD_def stale_after_seconds_def

lemmas judge_defs = judge_bar_freshness_def judge_missing_bars_def judge_nbbo_def judge_breaker_def
  judge_sequence_def judge_arrival_lag_def

text \<open>The findings as the worst of two flags, with a reason for each flag raised.\<close>

definition graded :: "bool \<Rightarrow> bool \<Rightarrow> findings \<Rightarrow> bool" where
  "graded h s f \<longleftrightarrow> fst f = (if h then HARD_BREACH else if s then SOFT_BREACH else OK)
     \<and> (snd f = [] \<longleftrightarrow> \<not> h \<and> \<not> s)"

lemma graded_start: "graded False False (OK, [])"
  by (simp add: graded_def)

lemma graded_soft_if: "graded h s f \<Longrightarrow> graded h (s \<or> c) (soft_if c r f)"
  by (auto simp: graded_def soft_if_def max_severity_def)

lemma graded_hard_if: "graded h s f \<Longrightarrow> graded (h \<or> c) s (hard_if c r f)"
  by (auto simp: graded_def hard_if_def)

lemma graded_tiers:
  assumes "graded h s f"
  shows "graded (h \<or> c') (s \<or> c) (hard_if c' r' (soft_if c r f))"
    and "(c' \<Longrightarrow> c) \<Longrightarrow> graded (h \<or> c') (s \<or> c) (if c' then hard_if True r' f else soft_if c r f)"
  using graded_hard_if [OF graded_soft_if [OF assms]] graded_hard_if [OF assms, of True]
    graded_soft_if [OF assms, of c]
  by (auto simp: graded_def)

lemma judge_all_graded:
  "graded (hard_signal freshness missing nbbo p) (soft_signal freshness missing nbbo p)
     (judge_all freshness missing nbbo p)"
proof -
  let ?period = "real_of_int (payload_bar_minutes p) * 60" and ?f = "arrival_lag_fraction p"
    and ?n = "or_num (dp_sequence_misalignment_events p) 0"
    and ?t = "dp_ingest_circuit_breaker_tripped p = Some True"
  let ?h = "((((False \<or> ?period + 600 < freshness) \<or> 18 / 100 < missing) \<or> nbbo < 55 / 100) \<or> 5 \<le> ?n) \<or> 30 / 900 < ?f"
  let ?s = "(((((False \<or> ?period + 150 < freshness) \<or> 6 / 100 < missing) \<or> nbbo < 85 / 100) \<or> ?t) \<or> 1 \<le> ?n) \<or> 15 / 900 < ?f"
  have "graded ?h ?s (judge_all freshness missing nbbo p)"
    unfolding judge_all_def judge_defs threshold_defs
    by (intro graded_tiers graded_soft_if graded_start) simp_all
  moreover have "?h = hard_signal freshness missing nbbo p" "?s = soft_signal freshness missing nbbo p"
    unfolding hard_signal_def soft_signal_def by blast+
  ultimately show ?thesis by simp
qed

text \<open>The shape of an evaluation that neither is dormant nor raises.\<close>

lemma evaluate_open:
  assumes "evaluate_data_integrity min_age db p m = (m', Inr v)"
    and "dp_exchange_reference_ts p = Some ref"
    and "\<not> is_market_dormant (or_str (dp_asset_class p) ''stock'') ref m"
  shows "(vd_severity v, vd_reasons v)
      = judge_all (iv_bar_freshness_seconds v) (iv_missing_bar_rate v) (iv_nbbo_success_rate v) p"
    and "iv_passed v \<longleftrightarrow> vd_severity v \<in> {OK, WARNING}"
  using assms unfolding evaluate_data_integrity_def Let_def
  by (auto split: option.splits sum.splits simp: prod_eq_iff)

lemma evaluate_dormant:
  assumes "dp_exchange_reference_ts p = Some ref"
    and "is_market_dormant (or_str (dp_asset_class p) ''stock'') ref m"
  shows "evaluate_data_integrity min_age db p m = (m, Inr dormant_verdict)"
  using assms by (simp add: evaluate_data_integrity_def)

section \<open>The NBBO history is a window over the symbol's own samples\<close>

type_synonym nbbo_note = "bool \<times> string \<times> string \<times> instant"

definition note_step :: "slo_monitor \<Rightarrow> nbbo_note \<Rightarrow> slo_monitor" where
  "note_step m n = (case n of (success, symbol, asset_class, ts) \<Rightarrow> note_nbbo_fetch success symbol asset_class ts m)"

text \<open>The samples of one symbol: its attempts while its market is open.\<close>

definition samples :: "market_calendar \<Rightarrow> string \<Rightarrow> nbbo_note list \<Rightarrow> int list" where
  "samples cal symbol notes =
     map (\<lambda>(success, _). if success then 1 else 0)
       (filter (\<lambda>(_, sy, asset_class, ts). str_upper sy = str_upper symbol
          \<and> (asset_class = ''crypto'' \<or> is_within_rth cal ts)) notes)"

lemma note_step_calendar [simp]: "sm_calendar (note_step m n) = sm_calendar m"
  by (auto simp: note_step_def note_nbbo_fetch_def Let_def split: prod.splits)

lemma notes_calendar [simp]: "sm_calendar (foldl note_step m ns) = sm_calendar m"
  by (induction ns arbitrary: m) simp_all

lemma samples_snoc:
  "samples cal symbol (ns @ [(success, sy, ac, ts)]) =
     samples cal symbol ns
       @ (if str_upper sy = str_upper symbol \<and> (ac = ''crypto'' \<or> is_within_rth cal ts)
          then [if success then 1 else 0] else [])"
  by (simp add: samples_def)

lemma note_step_lookup:
  "map_of (sm_nbbo_attempts (note_step m (success, sy, ac, ts))) key =
     (if key = str_upper sy \<and> (ac = ''crypto'' \<or> is_within_rth (sm_calendar m) ts)
      then Some (deque_append NBBO_TRACK_WINDOW (dict_get (sm_nbbo_attempts m) key [])
                   (if success then 1 else 0))
      else map_of (sm_nbbo_attempts m) key)"
  by (simp add: note_step_def note_nbbo_fetch_def Let_def)

lemma nbbo_window:
  assumes "sm_nbbo_attempts m = []"
  shows "map_of (sm_nbbo_attempts (foldl note_step m ns)) (str_upper symbol)
     = (let xs = samples (sm_calendar m) symbol ns
        in if xs = [] then None else Some (last_n NBBO_TRACK_WINDOW xs))"
proof (induction ns rule: rev_induct)
  case Nil
  then show ?case using assms by (simp add: samples_def)
next
  case (snoc n ns)
  obtain success sy ac ts where n: "n = (success, sy, ac, ts)" by (cases n) auto
  have "dict_get (sm_nbbo_attempts (foldl note_step m ns)) (str_upper symbol) []
      = last_n NBBO_TRACK_WINDOW (samples (sm_calendar m) symbol ns)"
    using snoc by (simp add: dict_get_def Let_def last_n_def)
  with snoc show ?case
    by (auto simp: n note_step_lookup samples_snoc deque_append_last_n Let_def)
qed

lemma bits_sum: "set xs \<subseteq> {0, 1 :: int} \<Longrightarrow> 0 \<le> sum_list xs \<and> sum_list xs \<le> int (length xs)"
  by (induction xs) auto

section \<open>The missing-bar rate is a proper fraction\<close>

lemma gap_bars_nonneg: "0 < bar_minutes \<Longrightarrow> 0 \<le> gap_bars bar_minutes a b"
proof -
  assume "0 < bar_minutes"
  then have i: "0 < real_of_int (seconds (bar_minutes * 60))" by (simp add: seconds_def)
  have "1 \<le> py_int (real_of_int (b - a) / real_of_int (seconds (bar_minutes * 60)))"
    if "real_of_int (seconds (bar_minutes * 60)) * (175 / 100) < real_of_int (b - a)"
  proof -
    have "1 \<le> real_of_int (b - a) / real_of_int (seconds (bar_minutes * 60))"
      using that i by (simp add: le_divide_eq)
    then show ?thesis using py_int_pos_iff by force
  qed
  then show ?thesis unfolding gap_bars_def Let_def by auto
qed

lemma fraction_bounds:
  assumes "0 \<le> gaps" and "0 < (n :: int)"
  shows "0 \<le> real_of_int gaps / real_of_int (max (n + gaps) 1)"
    and "real_of_int gaps / real_of_int (max (n + gaps) 1) < 1"
  using assms by (simp_all add: max_def)

lemma sum_gaps_nonneg: "0 < bar_minutes \<Longrightarrow> 0 \<le> sum_list (map (\<lambda>(a, b). gap_bars bar_minutes a b) ps)"
  by (intro sum_list_nonneg) (auto simp: gap_bars_nonneg)

text \<open>The gaps found count for what the rate is, whatever the early-close correction adds.\<close>

lemma missing_rate_form:
  "\<exists>gaps n. 0 \<le> gaps \<and> 0 < n
     \<and> compute_missing_bar_rate ts bar_minutes cal lookback asset
         = real_of_int gaps / real_of_int (max (n + gaps) 1)"
proof (cases "bar_minutes \<le> 0 \<or> ts = [] \<or> length (last_slice lookback (sort ts)) < 2")
  case True
  then show ?thesis
    by (intro exI [of _ 0] exI [of _ 1]) (auto simp: compute_missing_bar_rate_def Let_def)
next
  case False
  let ?o = "last_slice lookback (sort ts)"
  let ?all = "sum_list (map (\<lambda>(a, b). gap_bars bar_minutes a b) (zip ?o (tl ?o)))"
  let ?rth = "sum_list (map (\<lambda>(a, b). gap_bars bar_minutes a b)
    (filter (\<lambda>(a, b). both_in_same_rth_span a b cal) (zip ?o (tl ?o))))"
  let ?d = "date_of (astimezone_ET (last ?o))"
  let ?g = "if asset = ''crypto'' then ?all
    else if 0 < expected_bars_for_session cal ?d bar_minutes \<and> is_early_close cal ?d
    then max ?rth (max 0 (expected_bars_for_session cal ?d bar_minutes
           - int (length (filter (\<lambda>t. date_of (astimezone_ET t) = ?d \<and> is_within_rth cal t) ?o))))
    else ?rth"
  have "0 \<le> ?g" using False sum_gaps_nonneg [of bar_minutes] by (simp add: le_max_iff_disj)
  moreover have "0 < int (length ?o)" using False by linarith
  moreover have "compute_missing_bar_rate ts bar_minutes cal lookback asset
      = real_of_int ?g / real_of_int (max (int (length ?o) + ?g) 1)"
    using False unfolding compute_missing_bar_rate_def Let_def by simp
  ultimately show ?thesis by blast
qed

lemma missing_rate_bounds:
  "0 \<le> compute_missing_bar_rate ts bar_minutes cal lookback asset"
  "compute_missing_bar_rate ts bar_minutes cal lookback asset < 1"
  using missing_rate_form [of ts bar_minutes cal lookback asset] fraction_bounds by (metis)+

section \<open>Properties\<close>

text \<open>
  The severity of a verdict is exactly the worst signal: while the market is open, an
  evaluation that returns is HARD iff a critical threshold is crossed (the next bar overdue
  by more than ten minutes, more than 18 percent of the bars missing, fewer than 55 percent
  of the quotes fetched, five sequence misalignments, or an arrival lag of over a thirtieth
  of the period), SOFT iff only a soft one is, a lone circuit-breaker trip included, and OK
  otherwise; it passes iff it is OK, and then it gives no reason.
\<close>

theorem verdict_is_worst_signal:
  assumes "evaluate_data_integrity min_age db p m = (m', Inr v)"
    and "dp_exchange_reference_ts p = Some ref"
    and "\<not> is_market_dormant (or_str (dp_asset_class p) ''stock'') ref m"
  shows "let hard = hard_signal (iv_bar_freshness_seconds v) (iv_missing_bar_rate v) (iv_nbbo_success_rate v) p;
             soft = soft_signal (iv_bar_freshness_seconds v) (iv_missing_bar_rate v) (iv_nbbo_success_rate v) p
         in vd_severity v = (if hard then HARD_BREACH else if soft then SOFT_BREACH else OK)
            \<and> (iv_passed v \<longleftrightarrow> vd_severity v = OK) \<and> (iv_passed v \<longleftrightarrow> vd_reasons v = [])
            \<and> 0 \<le> iv_missing_bar_rate v \<and> iv_missing_bar_rate v < 1"
proof -
  have "0 \<le> iv_missing_bar_rate v \<and> iv_missing_bar_rate v < 1"
    using assms missing_rate_bounds unfolding evaluate_data_integrity_def Let_def
    by (auto split: option.splits sum.splits)
  then show ?thesis
    using evaluate_open [OF assms] judge_all_graded [of "iv_bar_freshness_seconds v" "iv_missing_bar_rate v"
        "iv_nbbo_success_rate v" p]
    unfolding graded_def Let_def by (auto simp: prod_eq_iff split: if_splits)
qed

text \<open>A payload of a crypto leg, where a test changes single entries.\<close>

definition crypto_payload :: "instant \<Rightarrow> data_payload" where
  "crypto_payload now =
     \<lparr>dp_exchange_reference_ts = Some now, dp_asset_class = Some ''crypto'', dp_symbol = Some ''BTC/USD'',
      dp_timeframe = Some ''15Min'', dp_bar_minutes = None, dp_latest_bar_timestamp = Some (now - seconds 1000),
      dp_bar_timestamps = Some [], dp_lookback_bars = None, dp_nbbo_fetch_success = None,
      dp_nbbo_success_rate = None, dp_rl_backfill_lag_hours = Some 0,
      dp_ingest_circuit_breaker_tripped = None, dp_sequence_misalignment_events = None,
      dp_ingest_arrival_lag_seconds = None\<rparr>"

theorem verdict_is_worst_signal_witness:
  "\<exists>v. evaluate_data_integrity 24 (Ledger [])
         (crypto_payload 0\<lparr>dp_ingest_circuit_breaker_tripped := Some True\<rparr>) new_slo_monitor
       = (new_slo_monitor, Inr v) \<and> vd_severity v = SOFT_BREACH \<and> \<not> iv_passed v"
proof -
  let ?p = "crypto_payload 0\<lparr>dp_ingest_circuit_breaker_tripped := Some True\<rparr>"
  obtain v where v: "evaluate_data_integrity 24 (Ledger []) ?p new_slo_monitor = (new_slo_monitor, Inr v)"
    "iv_bar_freshness_seconds v = 100" "iv_missing_bar_rate v = 0" "iv_nbbo_success_rate v = 1"
    by (simp add: evaluate_data_integrity_def crypto_payload_def is_market_dormant_def or_str_def or_default_def
        compute_missing_bar_rate_def query_rl_backfill_lag_hours_def calendar_adjusted_freshness_limit_def
        bar_staleness_seconds_def effective_reference_time_def payload_bar_minutes_def timeframe_minutes_def
        TIMEFRAME_MINUTES_def dict_get_def or_num_def nbbo_success_rate_def new_slo_monitor_def Let_def)
  have "hard_signal 100 0 1 ?p = False" "soft_signal 100 0 1 ?p = True"
    by (simp_all add: hard_signal_def soft_signal_def crypto_payload_def payload_bar_minutes_def or_num_def
        timeframe_minutes_def TIMEFRAME_MINUTES_def dict_get_def or_str_def or_default_def
        arrival_lag_fraction_def)
  moreover have "dp_exchange_reference_ts ?p = Some 0"
    "\<not> is_market_dormant (or_str (dp_asset_class ?p) ''stock'') 0 new_slo_monitor"
    by (simp_all add: crypto_payload_def is_market_dormant_def or_str_def or_default_def)
  ultimately show ?thesis using verdict_is_worst_signal [OF v(1)] v by (auto simp: Let_def)
qed

text \<open>
  A leg is judged on its own quotes: after any sequence of NBBO fetches over any
  symbols, the success rate of a symbol is the mean of its own last forty samples, those
  taken while its market is open (1 when there is none), and so lies between 0 and 1.
\<close>

theorem nbbo_rate_is_own_window:
  "let xs = samples (sm_calendar new_slo_monitor) symbol ns; r = nbbo_success_rate symbol (foldl note_step new_slo_monitor ns)
   in r = (if xs = [] then 1
           else real_of_int (sum_list (last_n 40 xs)) / real (length (last_n 40 xs)))
      \<and> 0 \<le> r \<and> r \<le> 1"
proof -
  define xs where "xs = samples (sm_calendar new_slo_monitor) symbol ns"
  have s: "set xs \<subseteq> {0, 1}" by (auto simp: xs_def samples_def split: if_splits)
  let ?w = "last_n 40 xs"
  have "set ?w \<subseteq> {0, 1}" using s set_last_n by fast
  then have "0 \<le> sum_list ?w \<and> sum_list ?w \<le> int (length ?w)" by (rule bits_sum)
  moreover have "nbbo_success_rate symbol (foldl note_step new_slo_monitor ns)
      = (if xs = [] then 1 else real_of_int (sum_list ?w) / real (length ?w))"
    using nbbo_window [where m = new_slo_monitor and ns = ns and symbol = symbol] last_n_eq_Nil [of 40 xs]
    by (simp add: nbbo_success_rate_def xs_def Let_def new_slo_monitor_def NBBO_TRACK_WINDOW_def)
  moreover have "xs \<noteq> [] \<Longrightarrow> 0 < length ?w" using last_n_eq_Nil [of 40 xs] by simp
  ultimately show ?thesis unfolding xs_def [symmetric] Let_def by (auto simp: divide_le_eq)
qed

text \<open>
  Research lag never reaches the order path: two evaluations that differ only in the
  reported backfill lag, the minimum age and the ledger, and that both return, give the same
  severity, reasons and verdict and leave the same monitor.
\<close>

theorem backfill_lag_never_gates:
  assumes "evaluate_data_integrity a db p m = (m1, Inr v)"
    and "evaluate_data_integrity a' db' (p\<lparr>dp_rl_backfill_lag_hours := lag\<rparr>) m = (m2, Inr v')"
  shows "m1 = m2 \<and> v' = v\<lparr>iv_rl_backfill_lag_hours := iv_rl_backfill_lag_hours v'\<rparr>"
proof -
  have "judge_all x y z (p\<lparr>dp_rl_backfill_lag_hours := lag\<rparr>) = judge_all x y z p"
    "payload_bar_minutes (p\<lparr>dp_rl_backfill_lag_hours := lag\<rparr>) = payload_bar_minutes p" for x y z
    by (simp_all add: judge_all_def payload_bar_minutes_def timeframe_minutes_def arrival_lag_fraction_def)
  with assms show ?thesis
    unfolding evaluate_data_integrity_def Let_def
    by (auto split: option.splits sum.splits if_splits)
qed

theorem backfill_lag_never_gates_witness:
  "snd (evaluate_data_integrity 24 Query_fails (crypto_payload 0) new_slo_monitor)
   \<noteq> snd (evaluate_data_integrity 24 Query_fails (crypto_payload 0\<lparr>dp_rl_backfill_lag_hours := Some 156\<rparr>) new_slo_monitor)
   \<and> (\<exists>v v'. snd (evaluate_data_integrity 24 Query_fails (crypto_payload 0) new_slo_monitor) = Inr v
      \<and> snd (evaluate_data_integrity 24 Query_fails (crypto_payload 0\<lparr>dp_rl_backfill_lag_hours := Some 156\<rparr>) new_slo_monitor) = Inr v'
      \<and> v' = v\<lparr>iv_rl_backfill_lag_hours := iv_rl_backfill_lag_hours v'\<rparr>)"
proof -
  let ?p = "crypto_payload 0" and ?p' = "crypto_payload 0\<lparr>dp_rl_backfill_lag_hours := Some 156\<rparr>"
  have "\<exists>m1 v. evaluate_data_integrity 24 Query_fails ?p new_slo_monitor = (m1, Inr v) \<and> iv_rl_backfill_lag_hours v = 0"
    "\<exists>m1 v. evaluate_data_integrity 24 Query_fails ?p' new_slo_monitor = (m1, Inr v) \<and> iv_rl_backfill_lag_hours v = 156"
    by (simp_all add: evaluate_data_integrity_def crypto_payload_def is_market_dormant_def or_str_def
        or_default_def Let_def)
  then obtain m1 v m2 v' where e: "evaluate_data_integrity 24 Query_fails ?p new_slo_monitor = (m1, Inr v)"
    "evaluate_data_integrity 24 Query_fails ?p' new_slo_monitor = (m2, Inr v')"
    "iv_rl_backfill_lag_hours v \<noteq> iv_rl_backfill_lag_hours v'" by auto
  with backfill_lag_never_gates [OF e(1,2)] show ?thesis by auto
qed

section \<open>The monitor drives the degradation manager\<close>

text \<open>One monitoring cycle: the verdict, when there is one, goes to the degradation manager.\<close>

definition slo_cycle ::
  "pyfloat \<Rightarrow> ledger_read \<Rightarrow> data_payload \<Rightarrow> instant \<Rightarrow> bool \<Rightarrow> slo_monitor \<times> degradation_manager
     \<Rightarrow> slo_monitor \<times> degradation_manager" where
  "slo_cycle min_age db p now loop_running st =
     (case evaluate_data_integrity min_age db p (fst st) of
        (m', Inl _) \<Rightarrow> (m', snd st)
      | (m', Inr v) \<Rightarrow> (m', evaluate_from_slo (slo_verdict.truncate v) now loop_running (snd st)))"

text \<open>
  A closed market is dormant, not degraded: outside its session a non-crypto leg gets a
  passing verdict and leaves the monitor as it is, whatever the rest of the payload holds
  (no bar, no quote, a tripped breaker), and the degradation manager never leaves NORMAL on
  it; and an open market in NORMAL mode moves to exactly the mode of the worst signal.
\<close>

theorem dormant_never_degrades:
  assumes "dp_exchange_reference_ts p = Some ref" and "dm_mode d = NORMAL"
  shows "if is_market_dormant (or_str (dp_asset_class p) ''stock'') ref m
     then evaluate_data_integrity min_age db p m = (m, Inr dormant_verdict)
        \<and> dm_mode (snd (slo_cycle min_age db p now l (m, d))) = NORMAL
     else (\<forall>m' v. evaluate_data_integrity min_age db p m = (m', Inr v) \<longrightarrow>
        dm_mode (snd (slo_cycle min_age db p now l (m, d))) =
          (if hard_signal (iv_bar_freshness_seconds v) (iv_missing_bar_rate v) (iv_nbbo_success_rate v) p
           then HARD_CRITICAL_DEGRADE
           else if soft_signal (iv_bar_freshness_seconds v) (iv_missing_bar_rate v) (iv_nbbo_success_rate v) p
           then SOFT_DEGRADE else NORMAL))"
proof (cases "is_market_dormant (or_str (dp_asset_class p) ''stock'') ref m")
  case True
  have e: "evaluate_data_integrity min_age db p m = (m, Inr dormant_verdict)"
    using evaluate_dormant [OF assms(1) True] .
  have "dm_mode (snd (slo_cycle min_age db p now l (m, d))) = NORMAL"
    using assms(2) by (simp add: slo_cycle_def e evaluate_from_slo_def dormant_verdict_def
        slo_verdict.truncate_def dm_simps)
  with True e show ?thesis by simp
next
  case False
  have "dm_mode (snd (slo_cycle min_age db p now l (m, d))) =
        (if hard_signal (iv_bar_freshness_seconds v) (iv_missing_bar_rate v) (iv_nbbo_success_rate v) p
         then HARD_CRITICAL_DEGRADE
         else if soft_signal (iv_bar_freshness_seconds v) (iv_missing_bar_rate v) (iv_nbbo_success_rate v) p
         then SOFT_DEGRADE else NORMAL)"
    if e: "evaluate_data_integrity min_age db p m = (m', Inr v)" for m' v
    using assms(2) evaluate_open [OF e assms(1) False]
      judge_all_graded [of "iv_bar_freshness_seconds v" "iv_missing_bar_rate v" "iv_nbbo_success_rate v" p]
    by (auto simp: slo_cycle_def e evaluate_from_slo_def slo_verdict.truncate_def transition_defs dm_simps
        graded_def prod_eq_iff split: if_splits)
  with False show ?thesis by simp
qed

text \<open>A Saturday noon without any data.\<close>

definition equity_payload :: "instant \<Rightarrow> data_payload" where
  "equity_payload now = (crypto_payload now)\<lparr>dp_asset_class := Some ''stock'', dp_symbol := Some ''SPY''\<rparr>"

theorem dormant_never_degrades_witness:
  "let sat = combine (ymd 2026 11 28) (time_hm 17 0)
   in evaluate_data_integrity 24 Connect_fails (equity_payload sat\<lparr>dp_latest_bar_timestamp := None\<rparr>) new_slo_monitor
        = (new_slo_monitor, Inr dormant_verdict)"
proof -
  let ?sat = "combine (ymd 2026 11 28) (time_hm 17 0)"
  let ?p = "equity_payload ?sat\<lparr>dp_latest_bar_timestamp := None\<rparr>"
  have "dp_exchange_reference_ts ?p = Some ?sat" "dm_mode (boot [] None) = NORMAL"
    "is_market_dormant (or_str (dp_asset_class ?p) ''stock'') ?sat new_slo_monitor"
    by code_simp+
  with dormant_never_degrades [of ?p ?sat "boot [] None" new_slo_monitor 24 Connect_fails 0 True]
  show ?thesis by (simp add: Let_def)
qed

section \<open>What the code does beside its comments\<close>

text \<open>
  Dormant verdicts are OK verdicts for the recovery count: nine closed-market cycles of one
  equity leg bring a hard degrade back to NORMAL without a single bar seen.
\<close>

lemma dormant_cycles:
  assumes "dp_exchange_reference_ts p = Some ref"
    and "is_market_dormant (or_str (dp_asset_class p) ''stock'') ref m"
  shows "(slo_cycle min_age db p now l ^^ n) (m, d)
    = (m, foldl slo_step d (replicate n (slo_verdict.truncate dormant_verdict, now, l)))"
proof (induction n)
  case (Suc n)
  have "replicate (Suc n) t = replicate n t @ [t]" for t :: "slo_verdict \<times> instant \<times> bool"
    by (simp add: replicate_append_same)
  moreover have "slo_cycle min_age db p now l (m, d') = (m, slo_step d' (slo_verdict.truncate dormant_verdict, now, l))"
    for d' by (simp add: slo_step_def slo_cycle_def evaluate_dormant [OF assms])
  ultimately show ?case using Suc by (simp del: replicate_Suc)
qed simp

lemma dormant_cycles_lift_hard:
  assumes "dp_exchange_reference_ts p = Some ref"
    and "is_market_dormant (or_str (dp_asset_class p) ''stock'') ref m"
  shows "dm_mode (snd ((slo_cycle min_age db p 60 True ^^ 9)
    (m, apply_hard_critical_degrade ''bar_freshness_critical'' 0 True (boot [] None)))) = NORMAL"
proof -
  have "dm_mode (foldl slo_step (apply_hard_critical_degrade ''bar_freshness_critical'' 0 True (boot [] None))
    (replicate 9 (slo_verdict.truncate dormant_verdict, 60, True))) = NORMAL" by code_simp
  then show ?thesis unfolding dormant_cycles [OF assms] snd_conv .
qed

text \<open>A reported success rate of zero is read as a missing entry, and the verdict is OK.\<close>

lemma zero_nbbo_rate_ignored:
  "case evaluate_data_integrity 24 (Ledger []) (crypto_payload 0\<lparr>dp_nbbo_success_rate := Some 0\<rparr>) new_slo_monitor
   of (_, Inl _) \<Rightarrow> False | (_, Inr v) \<Rightarrow> vd_severity v = OK \<and> iv_nbbo_success_rate v = 1"
  by code_simp

text \<open>
  The arrival lag is measured against the timeframe even when the payload gives the bar
  length: on hourly bars a lag of 31 seconds, under one percent of the period, is critical.
\<close>

lemma hourly_lag_judged_on_default_timeframe:
  "case evaluate_data_integrity 24 (Ledger [])
      (crypto_payload 0\<lparr>dp_timeframe := None, dp_bar_minutes := Some 60,
         dp_ingest_arrival_lag_seconds := Some 31\<rparr>) new_slo_monitor
   of (_, Inl _) \<Rightarrow> False
    | (_, Inr v) \<Rightarrow> vd_severity v = HARD_BREACH \<and> vd_reasons v = [''ingest_arrival_lag_critical'']"
  by code_simp

text \<open>
  On an early-close day the bars of the whole session are expected from its first bar on: a
  feed of forty-eight quarter-hour bars, the last of them the first of the day, is reported
  with a missing-bar rate of at least 13/61, a hard breach, whether or not any bar is missing.
\<close>

lemma early_close_morning_breaches:
  assumes "length (last_slice n (sort ts)) = 48"
    and "d = date_of (astimezone_ET (last (last_slice n (sort ts))))"
    and "is_trading_day cal d" and "is_early_close cal d" and "asset \<noteq> ''crypto''"
    and "length (filter (\<lambda>t. date_of (astimezone_ET t) = d \<and> is_within_rth cal t) (last_slice n (sort ts))) = 1"
  shows "13 / 61 \<le> compute_missing_bar_rate ts 15 cal n asset" and "MISSING_BAR_RATE_HARD < 13 / 61"
proof -
  let ?o = "last_slice n (sort ts)"
  have e: "expected_bars_for_session cal d 15 = 14"
    using assms(3,4) by (simp add: expected_bars_for_session_def session_minutes Let_def)
  define g where "g = max (sum_list (map (\<lambda>(a, b). gap_bars 15 a b)
    (filter (\<lambda>(a, b). both_in_same_rth_span a b cal) (zip ?o (tl ?o))))) (max 0 (14 - 1))"
  have g: "13 \<le> g" by (simp add: g_def)
  have "length ?o \<le> length ts" by (simp add: last_slice_def)
  then have "ts \<noteq> []" using assms(1) by auto
  then have "compute_missing_bar_rate ts 15 cal n asset = real_of_int g / real_of_int (max (48 + g) 1)"
    using assms(1,4,5,6) e unfolding compute_missing_bar_rate_def Let_def g_def assms(2) by simp
  also have "\<dots> = real_of_int g / (48 + real_of_int g)" using g by (simp add: max_def)
  also have "13 / 61 \<le> \<dots>" using g by (simp add: field_simps)
  finally show "13 / 61 \<le> compute_missing_bar_rate ts 15 cal n asset" .
  show "MISSING_BAR_RATE_HARD < 13 / 61" by (simp add: MISSING_BAR_RATE_HARD_def)
qed

end
