(* ===== verification/Heartbeat.thy ===== *)
theory Heartbeat
  imports Market_Calendar Escalation Alert_Channel
begin

text \<open>
  Liveness: the append-only heartbeat table (\<open>src/persistence/heartbeat_store.py\<close>), the
  decoupled emitter and the retry wrapper (\<open>src/control/heartbeat_emitter.py\<close>), the watchdog
  that halts entries on a stale beat (\<open>src/control/heartbeat_watchdog.py\<close>) and its two
  instances (\<open>src/control/liveness_watchdogs.py\<close>). The table is the list of its rows in the
  order of their ids. A status is the dictionary the emitter writes; a row without one, or
  with one that does not parse, reads as the empty status. The escalation engine is shared
  with the operator's commands, so it is part of the state and changes between checks too.
\<close>

section \<open>The heartbeat table\<close>

record heartbeat_status =
  st_gate :: string
  st_gate_reason :: string
  st_escalation_level :: "string option"
  st_last_cycle_ts :: "instant option"

definition empty_status :: heartbeat_status where
  "empty_status = \<lparr>st_gate = [], st_gate_reason = [], st_escalation_level = None, st_last_cycle_ts = None\<rparr>"

record heartbeat_row =
  hb_component :: string
  hb_beat_utc :: instant
  hb_created_utc :: instant
  hb_status_json :: "heartbeat_status option"

type_synonym heartbeat_table = "heartbeat_row list"

text \<open>A payload is a component and a beat, each possibly absent.\<close>

definition persist_heartbeats ::
  "(string option \<times> instant option) list \<Rightarrow> instant \<Rightarrow> heartbeat_table \<Rightarrow> heartbeat_table" where
  "persist_heartbeats payloads now t =
     t @ map (\<lambda>(component, beat).
           \<lparr>hb_component = (case component of None \<Rightarrow> ''main_loop'' | Some c \<Rightarrow> c),
            hb_beat_utc = (case beat of None \<Rightarrow> now | Some b \<Rightarrow> b),
            hb_created_utc = now, hb_status_json = None\<rparr>) payloads"

definition write_heartbeat_sync :: "string \<Rightarrow> instant option \<Rightarrow> instant \<Rightarrow> heartbeat_table \<Rightarrow> heartbeat_table" where
  "write_heartbeat_sync component beat_utc now t =
     persist_heartbeats [(Some component, Some (case beat_utc of None \<Rightarrow> now | Some b \<Rightarrow> b))] now t"

definition write_heartbeat_status ::
  "string \<Rightarrow> heartbeat_status option \<Rightarrow> instant option \<Rightarrow> instant \<Rightarrow> heartbeat_table \<Rightarrow> heartbeat_table" where
  "write_heartbeat_status component status_payload beat_utc now t =
     t @ [\<lparr>hb_component = component, hb_beat_utc = (case beat_utc of None \<Rightarrow> now | Some b \<Rightarrow> b),
           hb_created_utc = now, hb_status_json = status_payload\<rparr>]"

text \<open>\<open>SELECT MAX(beat_utc) WHERE component = ?\<close>\<close>

definition read_latest_heartbeat :: "string \<Rightarrow> heartbeat_table \<Rightarrow> instant option" where
  "read_latest_heartbeat component t =
     (let beats = map hb_beat_utc (filter (\<lambda>r. hb_component r = component) t)
      in if beats = [] then None else Some (foldl max (hd beats) (tl beats)))"

text \<open>\<open>ORDER BY beat_utc DESC, id DESC LIMIT 1\<close>\<close>

definition read_latest_heartbeat_status ::
  "string \<Rightarrow> heartbeat_table \<Rightarrow> (instant \<times> heartbeat_status) option" where
  "read_latest_heartbeat_status component t =
     (let rows = filter (\<lambda>r. hb_component r = component) t
      in if rows = [] then None
         else let row = last (sort_key hb_beat_utc rows)
              in Some (hb_beat_utc row,
                       case hb_status_json row of None \<Rightarrow> empty_status | Some s \<Rightarrow> s))"

section \<open>The emitter and the retry wrapper\<close>

text \<open>The injected callables are read once per emission.\<close>

record emitter_inputs =
  em_gate :: "string \<times> string"
  em_escalation_level :: string
  em_last_cycle_ts :: "instant option"

definition emitter_status :: "emitter_inputs \<Rightarrow> heartbeat_status" where
  "emitter_status i =
     \<lparr>st_gate = fst (em_gate i), st_gate_reason = snd (em_gate i),
      st_escalation_level = Some (em_escalation_level i), st_last_cycle_ts = em_last_cycle_ts i\<rparr>"

definition emit_once ::
  "string \<Rightarrow> emitter_inputs \<Rightarrow> instant option \<Rightarrow> instant \<Rightarrow> heartbeat_table \<Rightarrow> heartbeat_table" where
  "emit_once component i beat_utc now t =
     write_heartbeat_status component (Some (emitter_status i)) beat_utc now t"

text \<open>An emission of \<open>run\<close> whose write raises is skipped, \<open>None\<close> here.\<close>

fun emitter_run :: "string \<Rightarrow> (emitter_inputs \<times> instant) option list \<Rightarrow> heartbeat_table \<Rightarrow> heartbeat_table" where
  "emitter_run component [] t = t"
| "emitter_run component (None # es) t = emitter_run component es t"
| "emitter_run component (Some (i, now) # es) t = emitter_run component es (emit_once component i None now t)"

datatype 'a attempt_outcome = Returns 'a | Times_out | Raises

record poll_metrics =
  pm_attempts :: nat
  pm_failures :: nat
  pm_timeouts :: nat

text \<open>
  The loop of \<open>resilient_supabase_call\<close> from an attempt on, with the number left; \<open>outcome\<close>
  is what the call does on each attempt. The seconds slept are listed.
\<close>

fun resilient_loop ::
  "nat \<Rightarrow> (nat \<Rightarrow> 'a attempt_outcome) \<Rightarrow> int \<Rightarrow> pyfloat \<Rightarrow> nat \<Rightarrow> poll_metrics
     \<Rightarrow> 'a option \<times> poll_metrics \<times> pyfloat list" where
  "resilient_loop 0 outcome max_attempts backoff attempt m = (None, m, [])"
| "resilient_loop (Suc left) outcome max_attempts backoff attempt m =
     (let m1 = m\<lparr>pm_attempts := pm_attempts m + 1\<rparr>;
          pause = (if int attempt < max_attempts \<and> 0 < backoff then [backoff * 2 ^ (attempt - 1)] else []);
          next_with = (\<lambda>m2. let (r, m3, slept) = resilient_loop left outcome max_attempts backoff (attempt + 1) m2
                            in (r, m3, pause @ slept))
      in case outcome attempt of
           Returns x \<Rightarrow> (Some x, m1, [])
         | Times_out \<Rightarrow> next_with (m1\<lparr>pm_timeouts := pm_timeouts m1 + 1, pm_failures := pm_failures m1 + 1\<rparr>)
         | Raises \<Rightarrow> next_with (m1\<lparr>pm_failures := pm_failures m1 + 1\<rparr>))"

definition resilient_supabase_call ::
  "(nat \<Rightarrow> 'a attempt_outcome) \<Rightarrow> int \<Rightarrow> pyfloat \<Rightarrow> poll_metrics \<Rightarrow> 'a option \<times> poll_metrics \<times> pyfloat list" where
  "resilient_supabase_call outcome max_attempts backoff m =
     resilient_loop (nat (max 1 max_attempts)) outcome max_attempts backoff 1 m"

section \<open>The watchdog\<close>

text \<open>What the watchdog asks of its notifier.\<close>

datatype notifier_call = Notify_call alert | Resolve_call string string

record watchdog_result =
  wr_tripped :: bool
  wr_age_seconds :: "pyfloat option"
  wr_market_open :: bool
  wr_reason :: string

record heartbeat_watchdog =
  wd_escalation :: "risk_snapshot option"
  wd_threshold :: pyfloat
  wd_component :: string
  wd_calendar :: market_calendar
  wd_allow_deesc :: bool
  wd_deesc_streak_required :: int
  wd_fresh_streak :: int
  wd_started_at :: instant
  wd_logged_prior_age :: bool
  wd_has_resolve :: bool
  wd_calls :: "notifier_call list"

definition new_watchdog ::
  "risk_snapshot option \<Rightarrow> bool \<Rightarrow> pyfloat \<Rightarrow> string \<Rightarrow> market_calendar \<Rightarrow> instant \<Rightarrow> string \<Rightarrow> bool \<Rightarrow> int
     \<Rightarrow> heartbeat_watchdog" where
  "new_watchdog esc has_resolve threshold component cal started_at environment auto_deescalation streak =
     \<lparr>wd_escalation = esc, wd_threshold = threshold, wd_component = component, wd_calendar = cal,
      wd_allow_deesc = (auto_deescalation \<and> str_lower environment \<noteq> ''live''),
      wd_deesc_streak_required = streak, wd_fresh_streak = 0, wd_started_at = started_at,
      wd_logged_prior_age = False, wd_has_resolve = has_resolve, wd_calls = []\<rparr>"

text \<open>\<open>None\<close> is the \<open>NullEscalation\<close>, whose \<open>transition\<close> does nothing.\<close>

definition wd_transition :: "risk_escalation_level \<Rightarrow> string \<Rightarrow> heartbeat_watchdog \<Rightarrow> heartbeat_watchdog" where
  "wd_transition level commanded_by w =
     w\<lparr>wd_escalation := map_option (transition level ''GLOBAL'' None None commanded_by) (wd_escalation w)\<rparr>"

definition wd_notify :: "string \<Rightarrow> string \<Rightarrow> string \<Rightarrow> heartbeat_watchdog \<Rightarrow> heartbeat_watchdog" where
  "wd_notify kind severity message w =
     w\<lparr>wd_calls := wd_calls w @ [Notify_call
        \<lparr>al_kind = kind, al_severity = severity, al_message = message,
         al_component = wd_component w, al_recovered = False\<rparr>]\<rparr>"

definition wd_resolve :: "heartbeat_watchdog \<Rightarrow> heartbeat_watchdog" where
  "wd_resolve w =
     (if wd_has_resolve w then w\<lparr>wd_calls := wd_calls w @ [Resolve_call (wd_component w) ''heartbeat_stale'']\<rparr>
      else w)"

text \<open>
  One check. A \<open>notify\<close> that raises (\<open>notifier_up\<close> false) leaves \<open>check\<close> without a result,
  after whatever was done before it; a \<open>resolve\<close> that raises is swallowed.
\<close>

definition check_watchdog ::
  "bool \<Rightarrow> heartbeat_table \<Rightarrow> instant \<Rightarrow> heartbeat_watchdog \<Rightarrow> heartbeat_watchdog \<times> watchdog_result option" where
  "check_watchdog notifier_up t now w =
     (let market_open = is_within_rth (wd_calendar w) now;
          latest = read_latest_heartbeat (wd_component w) t;
          result = (\<lambda>tripped age reason.
            \<lparr>wr_tripped = tripped, wr_age_seconds = age, wr_market_open = market_open, wr_reason = reason\<rparr>);
          notified = (\<lambda>w' r. (w', if notifier_up then Some r else None))
      in if \<not> market_open then (w, Some (result False None ''market_closed''))
         else
           let age = map_option (\<lambda>b. total_seconds (now - b)) latest;
               w1 = w\<lparr>wd_logged_prior_age := True\<rparr>;
               elapsed = total_seconds (now - wd_started_at w)
           in if 0 \<le> elapsed \<and> elapsed < wd_threshold w then (w1, Some (result False age ''startup_grace''))
              else if (case age of None \<Rightarrow> True | Some a \<Rightarrow> wd_threshold w < a) then
                notified (wd_notify ''heartbeat_stale'' ''critical'' (wd_component w @ '' heartbeat stale'')
                    (wd_transition ENTRY_GATE_HALT ''heartbeat_watchdog'' (w1\<lparr>wd_fresh_streak := 0\<rparr>)))
                  (result True age ''stale_heartbeat'')
              else
                let status_dict = (case read_latest_heartbeat_status (wd_component w) t of
                                     None \<Rightarrow> empty_status | Some (_, s) \<Rightarrow> s);
                    cycle_age = map_option (\<lambda>c. total_seconds (now - c)) (st_last_cycle_ts status_dict)
                in if (case cycle_age of None \<Rightarrow> False | Some c \<Rightarrow> wd_threshold w < c) then
                     notified (wd_notify ''heartbeat_stale'' ''critical''
                         (wd_component w @ '' consumption stalled (heartbeat task alive)'')
                         (wd_transition ENTRY_GATE_HALT ''heartbeat_watchdog'' (w1\<lparr>wd_fresh_streak := 0\<rparr>)))
                       (result True age ''engine_cycle_stale'')
                   else if str_upper (st_gate status_dict) = ''BLOCKED'' then
                     notified (wd_notify ''gate_blocked'' ''warning''
                         (wd_component w @ '' halted by design ('' @ st_gate_reason status_dict @ '')'')
                         (wd_resolve (w1\<lparr>wd_fresh_streak := 0\<rparr>)))
                       (result False age ''gate_blocked'')
                   else
                     let w2 = wd_resolve w1;
                         w3 = w2\<lparr>wd_fresh_streak := wd_fresh_streak w2 + 1\<rparr>;
                         w4 = (case wd_escalation w3 of
                                 None \<Rightarrow> w3
                               | Some snap \<Rightarrow>
                                   if wd_allow_deesc w3 \<and> wd_deesc_streak_required w3 \<le> wd_fresh_streak w3
                                      \<and> esc_level snap = ENTRY_GATE_HALT
                                      \<and> esc_commanded_by snap = ''heartbeat_watchdog''
                                      \<and> \<not> esc_portfolio_liquidation_commanded snap
                                      \<and> \<not> esc_engine_shutdown_latched snap
                                   then (wd_transition NOMINAL ''heartbeat_watchdog_recovery'' w3)\<lparr>wd_fresh_streak := 0\<rparr>
                                   else w3)
                     in (w4, Some (result False age ''healthy'')))"

section \<open>The two instances\<close>

definition SOAK_STALE_THRESHOLD_S :: pyfloat where "SOAK_STALE_THRESHOLD_S = 120"
definition MIRROR_SYNC_STALE_THRESHOLD_S :: pyfloat where "MIRROR_SYNC_STALE_THRESHOLD_S = 3600"

definition build_soak_watchdog :: "risk_snapshot \<Rightarrow> bool \<Rightarrow> instant \<Rightarrow> string \<Rightarrow> bool \<Rightarrow> heartbeat_watchdog" where
  "build_soak_watchdog esc has_resolve started_at environment auto_deescalation =
     new_watchdog (Some esc) has_resolve SOAK_STALE_THRESHOLD_S ''soak'' nyse_calendar started_at
       environment auto_deescalation 10"

definition build_mirror_sync_watchdog :: "bool \<Rightarrow> instant \<Rightarrow> heartbeat_watchdog" where
  "build_mirror_sync_watchdog has_resolve started_at =
     new_watchdog None has_resolve MIRROR_SYNC_STALE_THRESHOLD_S ''mirror_sync'' nyse_calendar started_at
       ''paper'' True 10"

section \<open>The latest row\<close>

lemma insort_key_not_Nil [simp]: "insort_key f x xs \<noteq> []"
  by (cases xs) simp_all

lemma last_insort_key: "xs \<noteq> [] \<Longrightarrow> f x \<le> f (last xs) \<Longrightarrow> last (insort_key f x xs) = last xs"
  by (induction xs) (auto split: if_splits)

text \<open>A row that is not older than the others, appended last, is the one the query returns.\<close>

lemma last_sort_key_snoc: "\<forall>x\<in>set xs. f x \<le> f r \<Longrightarrow> last (sort_key f (xs @ [r])) = r"
proof (induction xs)
  case (Cons x xs)
  then have "last (sort_key f (xs @ [r])) = r" by simp
  moreover have "sort_key f (xs @ [r]) \<noteq> []" by (metis append_is_Nil_conv length_0_conv length_sort not_Cons_self2)
  ultimately show ?case using Cons.prems last_insort_key [of "sort_key f (xs @ [r])" f x] by simp
qed simp

lemma foldl_max: "foldl max (a :: instant) xs = Max (insert a (set xs))"
proof (induction xs arbitrary: a)
  case (Cons x xs)
  then show ?case by (cases "xs = []") (simp_all add: ac_simps)
qed simp

lemma last_sort_key_max:
  assumes "xs \<noteq> []"
  shows "f (last (sort_key f xs)) = Max (f ` set xs)"
proof (rule sym, rule Max_eqI)
  have ne: "sort_key f xs \<noteq> []" using assms by (metis length_0_conv length_sort)
  then show "f (last (sort_key f xs)) \<in> f ` set xs" using last_in_set [OF ne] by simp
  fix y assume "y \<in> f ` set xs"
  then have "y \<in> set (map f (sort_key f xs))" by simp
  then obtain i where "i < length (sort_key f xs)" "y = map f (sort_key f xs) ! i"
    by (metis in_set_conv_nth length_map)
  moreover have "map f (sort_key f xs) ! i \<le> map f (sort_key f xs) ! (length (sort_key f xs) - 1)"
    using calculation by (intro sorted_nth_mono) simp_all
  ultimately show "y \<le> f (last (sort_key f xs))" using ne by (simp add: last_conv_nth)
qed simp

lemma latest_queries_agree:
  "read_latest_heartbeat c t = map_option fst (read_latest_heartbeat_status c t)"
proof -
  let ?rows = "filter (\<lambda>r. hb_component r = c) t"
  have "foldl max (hd (map hb_beat_utc ?rows)) (tl (map hb_beat_utc ?rows)) = Max (hb_beat_utc ` set ?rows)"
    if "?rows \<noteq> []"
    using that by (cases ?rows) (simp_all add: foldl_max)
  then show ?thesis
    using last_sort_key_max [of ?rows hb_beat_utc]
    unfolding read_latest_heartbeat_def read_latest_heartbeat_status_def Let_def by auto
qed

lemma read_after_status_write:
  assumes "\<forall>r\<in>set t. hb_component r = c \<longrightarrow> hb_beat_utc r \<le> b"
  shows "read_latest_heartbeat_status c (write_heartbeat_status c (Some s) (Some b) now t) = Some (b, s)"
proof -
  let ?row = "\<lparr>hb_component = c, hb_beat_utc = b, hb_created_utc = now, hb_status_json = Some s\<rparr>"
  have "last (sort_key hb_beat_utc (filter (\<lambda>r. hb_component r = c) t @ [?row])) = ?row"
    using assms by (intro last_sort_key_snoc) auto
  then show ?thesis by (simp add: read_latest_heartbeat_status_def write_heartbeat_status_def Let_def)
qed

section \<open>What a check decides\<close>

definition in_grace :: "instant \<Rightarrow> heartbeat_watchdog \<Rightarrow> bool" where
  "in_grace now w \<longleftrightarrow> 0 \<le> total_seconds (now - wd_started_at w)
     \<and> total_seconds (now - wd_started_at w) < wd_threshold w"

definition beat_stale :: "heartbeat_table \<Rightarrow> instant \<Rightarrow> heartbeat_watchdog \<Rightarrow> bool" where
  "beat_stale t now w = (case read_latest_heartbeat (wd_component w) t of
     None \<Rightarrow> True | Some b \<Rightarrow> wd_threshold w < total_seconds (now - b))"

definition latest_status :: "heartbeat_table \<Rightarrow> heartbeat_watchdog \<Rightarrow> heartbeat_status" where
  "latest_status t w = (case read_latest_heartbeat_status (wd_component w) t of
     None \<Rightarrow> empty_status | Some (_, s) \<Rightarrow> s)"

definition cycle_stale :: "heartbeat_table \<Rightarrow> instant \<Rightarrow> heartbeat_watchdog \<Rightarrow> bool" where
  "cycle_stale t now w = (case st_last_cycle_ts (latest_status t w) of
     None \<Rightarrow> False | Some c \<Rightarrow> wd_threshold w < total_seconds (now - c))"

definition should_trip :: "heartbeat_table \<Rightarrow> instant \<Rightarrow> heartbeat_watchdog \<Rightarrow> bool" where
  "should_trip t now w \<longleftrightarrow> is_within_rth (wd_calendar w) now \<and> \<not> in_grace now w
     \<and> (beat_stale t now w \<or> cycle_stale t now w)"

text \<open>A check is neutral (closed market, startup grace), a reset, or a healthy reading.\<close>

datatype check_class = Neutral | Resets | Healthy

definition classify :: "heartbeat_table \<Rightarrow> instant \<Rightarrow> heartbeat_watchdog \<Rightarrow> check_class" where
  "classify t now w =
     (if \<not> is_within_rth (wd_calendar w) now \<or> in_grace now w then Neutral
      else if beat_stale t now w \<or> cycle_stale t now w \<or> str_upper (st_gate (latest_status t w)) = ''BLOCKED''
      then Resets else Healthy)"

definition may_deescalate :: "heartbeat_watchdog \<Rightarrow> risk_snapshot \<Rightarrow> bool" where
  "may_deescalate w snap \<longleftrightarrow> wd_allow_deesc w \<and> wd_deesc_streak_required w \<le> wd_fresh_streak w + 1
     \<and> esc_level snap = ENTRY_GATE_HALT \<and> esc_commanded_by snap = ''heartbeat_watchdog''
     \<and> \<not> esc_portfolio_liquidation_commanded snap \<and> \<not> esc_engine_shutdown_latched snap"

lemmas wd_op_defs = wd_transition_def wd_notify_def wd_resolve_def

lemmas check_defs = check_watchdog_def in_grace_def beat_stale_def latest_status_def cycle_stale_def
  should_trip_def classify_def Let_def

lemma wd_op_fields:
  "wd_escalation (wd_notify k s m w) = wd_escalation w" "wd_fresh_streak (wd_notify k s m w) = wd_fresh_streak w"
  "wd_threshold (wd_notify k s m w) = wd_threshold w" "wd_component (wd_notify k s m w) = wd_component w"
  "wd_calendar (wd_notify k s m w) = wd_calendar w" "wd_allow_deesc (wd_notify k s m w) = wd_allow_deesc w"
  "wd_deesc_streak_required (wd_notify k s m w) = wd_deesc_streak_required w" "wd_started_at (wd_notify k s m w) = wd_started_at w"
  "wd_escalation (wd_resolve w) = wd_escalation w" "wd_fresh_streak (wd_resolve w) = wd_fresh_streak w"
  "wd_threshold (wd_resolve w) = wd_threshold w" "wd_component (wd_resolve w) = wd_component w"
  "wd_calendar (wd_resolve w) = wd_calendar w" "wd_allow_deesc (wd_resolve w) = wd_allow_deesc w"
  "wd_deesc_streak_required (wd_resolve w) = wd_deesc_streak_required w" "wd_started_at (wd_resolve w) = wd_started_at w"
  "wd_escalation (wd_transition l c w) = map_option (transition l ''GLOBAL'' None None c) (wd_escalation w)"
  "wd_fresh_streak (wd_transition l c w) = wd_fresh_streak w"
  "wd_threshold (wd_transition l c w) = wd_threshold w" "wd_component (wd_transition l c w) = wd_component w"
  "wd_calendar (wd_transition l c w) = wd_calendar w" "wd_allow_deesc (wd_transition l c w) = wd_allow_deesc w"
  "wd_deesc_streak_required (wd_transition l c w) = wd_deesc_streak_required w" "wd_started_at (wd_transition l c w) = wd_started_at w"
  by (simp_all add: wd_op_defs)

lemma check_state:
  "fst (check_watchdog up t now w) =
     (if \<not> is_within_rth (wd_calendar w) now then w
      else if in_grace now w then w\<lparr>wd_logged_prior_age := True\<rparr>
      else if beat_stale t now w
      then wd_notify ''heartbeat_stale'' ''critical'' (wd_component w @ '' heartbeat stale'')
             (wd_transition ENTRY_GATE_HALT ''heartbeat_watchdog'' (w\<lparr>wd_logged_prior_age := True, wd_fresh_streak := 0\<rparr>))
      else if cycle_stale t now w
      then wd_notify ''heartbeat_stale'' ''critical'' (wd_component w @ '' consumption stalled (heartbeat task alive)'')
             (wd_transition ENTRY_GATE_HALT ''heartbeat_watchdog'' (w\<lparr>wd_logged_prior_age := True, wd_fresh_streak := 0\<rparr>))
      else if str_upper (st_gate (latest_status t w)) = ''BLOCKED''
      then wd_notify ''gate_blocked'' ''warning'' (wd_component w @ '' halted by design ('' @ st_gate_reason (latest_status t w) @ '')'')
             (wd_resolve (w\<lparr>wd_logged_prior_age := True, wd_fresh_streak := 0\<rparr>))
      else
        let w3 = (wd_resolve (w\<lparr>wd_logged_prior_age := True\<rparr>))\<lparr>wd_fresh_streak := wd_fresh_streak w + 1\<rparr>
        in if \<exists>s. wd_escalation w = Some s \<and> may_deescalate w s
           then (wd_transition NOMINAL ''heartbeat_watchdog_recovery'' w3)\<lparr>wd_fresh_streak := 0\<rparr> else w3)"
proof -
  have beat: "(case map_option (\<lambda>b. total_seconds (now - b)) (read_latest_heartbeat (wd_component w) t) of
      None \<Rightarrow> True | Some a \<Rightarrow> wd_threshold w < a) = beat_stale t now w"
    by (simp add: beat_stale_def split: option.split)
  have cycle: "(case map_option (\<lambda>c. total_seconds (now - c)) (st_last_cycle_ts (latest_status t w)) of
      None \<Rightarrow> False | Some c \<Rightarrow> wd_threshold w < c) = cycle_stale t now w"
    by (simp add: cycle_stale_def split: option.split)
  show ?thesis
    unfolding check_watchdog_def Let_def beat latest_status_def [symmetric] cycle in_grace_def [symmetric]
    by (cases "wd_escalation w") (simp_all add: may_deescalate_def wd_op_fields)
qed

lemma check_escalation:
  "wd_escalation (fst (check_watchdog up t now w)) =
     (if should_trip t now w
      then map_option (transition ENTRY_GATE_HALT ''GLOBAL'' None None ''heartbeat_watchdog'') (wd_escalation w)
      else if classify t now w = Healthy \<and> (\<exists>s. wd_escalation w = Some s \<and> may_deescalate w s)
      then map_option (transition NOMINAL ''GLOBAL'' None None ''heartbeat_watchdog_recovery'') (wd_escalation w)
      else wd_escalation w)"
  unfolding check_state by (auto simp: should_trip_def classify_def wd_op_fields Let_def)

lemma check_streak:
  "wd_fresh_streak (fst (check_watchdog up t now w)) =
     (case classify t now w of
        Neutral \<Rightarrow> wd_fresh_streak w
      | Resets \<Rightarrow> 0
      | Healthy \<Rightarrow> if \<exists>s. wd_escalation w = Some s \<and> may_deescalate w s then 0 else wd_fresh_streak w + 1)"
  unfolding check_state by (auto simp: classify_def wd_op_fields Let_def)

lemma check_calls:
  "wd_calls (fst (check_watchdog up t now w)) = wd_calls w @
     (let cleared = (if wd_has_resolve w then [Resolve_call (wd_component w) ''heartbeat_stale''] else []);
          page = (\<lambda>kind severity message. Notify_call \<lparr>al_kind = kind, al_severity = severity, al_message = message,
            al_component = wd_component w, al_recovered = False\<rparr>)
      in if should_trip t now w
         then [page ''heartbeat_stale'' ''critical''
                 (wd_component w @ (if beat_stale t now w then '' heartbeat stale''
                                    else '' consumption stalled (heartbeat task alive)''))]
         else case classify t now w of
                Neutral \<Rightarrow> []
              | Healthy \<Rightarrow> cleared
              | Resets \<Rightarrow> cleared @ [page ''gate_blocked'' ''warning''
                  (wd_component w @ '' halted by design ('' @ st_gate_reason (latest_status t w) @ '')'')])"
  unfolding check_state by (simp add: should_trip_def classify_def wd_op_defs Let_def)

lemma should_trip_class: "should_trip t now w \<Longrightarrow> classify t now w = Resets"
  by (auto simp: should_trip_def classify_def)

lemma check_frame:
  "wd_threshold (fst (check_watchdog up t now w)) = wd_threshold w"
  "wd_component (fst (check_watchdog up t now w)) = wd_component w"
  "wd_calendar (fst (check_watchdog up t now w)) = wd_calendar w"
  "wd_allow_deesc (fst (check_watchdog up t now w)) = wd_allow_deesc w"
  "wd_deesc_streak_required (fst (check_watchdog up t now w)) = wd_deesc_streak_required w"
  "wd_started_at (fst (check_watchdog up t now w)) = wd_started_at w"
  unfolding check_state by (simp_all add: wd_op_fields Let_def)

section \<open>Checks and commands interleaved\<close>

text \<open>The engine is shared: an operator or another component may command it between checks.\<close>

datatype wd_op = Check bool heartbeat_table instant | Command risk_escalation_level string

fun wd_step :: "heartbeat_watchdog \<Rightarrow> wd_op \<Rightarrow> heartbeat_watchdog" where
  "wd_step w (Check up t now) = fst (check_watchdog up t now w)"
| "wd_step w (Command level who) = wd_transition level who w"

definition streak_after :: "nat \<Rightarrow> check_class \<Rightarrow> nat" where
  "streak_after n c = (case c of Neutral \<Rightarrow> n | Resets \<Rightarrow> 0 | Healthy \<Rightarrow> n + 1)"

text \<open>Healthy readings since the last reset, over a whole history.\<close>

fun healthy_streak :: "heartbeat_watchdog \<Rightarrow> wd_op list \<Rightarrow> nat \<Rightarrow> nat" where
  "healthy_streak w [] n = n"
| "healthy_streak w (Check up t now # ops) n =
     healthy_streak (wd_step w (Check up t now)) ops (streak_after n (classify t now w))"
| "healthy_streak w (Command level who # ops) n = healthy_streak (wd_step w (Command level who)) ops n"

lemma wd_step_streak:
  "wd_fresh_streak (wd_step w (Check up t now)) \<le> int (streak_after n (classify t now w))"
  if "wd_fresh_streak w \<le> int n"
  using that by (auto simp: check_streak streak_after_def split: check_class.splits)

lemma wd_step_config:
  "wd_allow_deesc (wd_step w op) = wd_allow_deesc w"
  "wd_deesc_streak_required (wd_step w op) = wd_deesc_streak_required w"
  "wd_threshold (wd_step w op) = wd_threshold w"
  "wd_calendar (wd_step w op) = wd_calendar w"
  "wd_component (wd_step w op) = wd_component w"
  by (cases op; simp add: check_frame wd_transition_def)+

lemma wd_run_config:
  "wd_allow_deesc (foldl wd_step w ops) = wd_allow_deesc w"
  "wd_deesc_streak_required (foldl wd_step w ops) = wd_deesc_streak_required w"
  by (induction ops arbitrary: w) (simp_all add: wd_step_config)

lemma streak_bound:
  "wd_fresh_streak w \<le> int n \<Longrightarrow> wd_fresh_streak (foldl wd_step w ops) \<le> int (healthy_streak w ops n)"
proof (induction w ops n rule: healthy_streak.induct)
  case (2 w up t now ops n)
  then show ?case using wd_step_streak by simp
next
  case (3 w level who ops n)
  then show ?case by (simp add: wd_transition_def)
qed simp

section \<open>The retry loop\<close>

lemma resilient_loop_spec:
  assumes "resilient_loop k f n b a m = (r, m', slept)"
  shows "(r = None \<longrightarrow> pm_attempts m' = pm_attempts m + k \<and> pm_failures m' = pm_failures m + k
            \<and> (\<forall>i\<in>{a..<a + k}. \<forall>x. f i \<noteq> Returns x))
    \<and> (\<forall>x. r = Some x \<longrightarrow> (\<exists>j < k. f (a + j) = Returns x \<and> (\<forall>i\<in>{a..<a + j}. \<forall>y. f i \<noteq> Returns y)
            \<and> pm_attempts m' = pm_attempts m + j + 1 \<and> pm_failures m' = pm_failures m + j))"
  using assms
proof (induction k arbitrary: a m r m' slept)
  case (Suc k)
  show ?case
  proof (cases "\<exists>x. f a = Returns x")
    case True
    then show ?thesis using Suc.prems by auto
  next
    case False
    then obtain m1 r' m'' sl where l: "resilient_loop k f n b (a + 1) m1 = (r', m'', sl)"
      "pm_attempts m1 = pm_attempts m + 1" "pm_failures m1 = pm_failures m + 1" "r = r'" "m' = m''"
      using Suc.prems by (cases "f a") (auto simp: Let_def split: prod.splits)
    have none: "(\<forall>i\<in>{a..<a + Suc j}. \<forall>y. f i \<noteq> Returns y)"
      if "\<forall>i\<in>{a + 1..<a + 1 + j}. \<forall>y. f i \<noteq> Returns y" for j
      using that False by (metis Suc_eq_plus1 add_Suc_shift atLeastLessThan_iff le_eq_less_or_eq Suc_leI)
    show ?thesis
      using Suc.IH [OF l(1)] l none by (cases r) (fastforce, force intro: exI [of _ "Suc _"])
  qed
qed simp

lemma resilient_loop_sleep:
  assumes "resilient_loop k f n b a m = (r, m', slept)" and "1 \<le> a" and "int (a + k) = n + 1" and "0 \<le> b"
  shows "sum_list slept \<le> b * (2 ^ (a + k - 2) - 2 ^ (a - 1)) \<or> k = 0 \<and> slept = []"
  using assms
proof (induction k arbitrary: a m r m' slept)
  case (Suc k)
  have up: "b * 2 ^ (a - 1) \<le> b * 2 ^ (a + k - 1)"
    using Suc.prems(4) by (intro mult_left_mono power_increasing) simp_all
  have nn: "0 \<le> b * 2 ^ (a - 1)" using Suc.prems(4) by simp
  have dbl: "(2 :: real) ^ a = 2 * 2 ^ (a - 1)" using Suc.prems(2) by (cases a) simp_all
  show ?case
  proof (cases "\<exists>x. f a = Returns x")
    case True
    then show ?thesis using Suc.prems up by (auto simp: algebra_simps)
  next
    case False
    then obtain m1 sl where l: "resilient_loop k f n b (a + 1) m1 = (r, m', sl)"
      "slept = (if int a < n \<and> 0 < b then [b * 2 ^ (a - 1)] else []) @ sl"
      using Suc.prems by (cases "f a") (auto simp: Let_def split: prod.splits)
    have "sum_list sl \<le> b * (2 ^ (a + 1 + k - 2) - 2 ^ (a + 1 - 1)) \<or> k = 0 \<and> sl = []"
      using Suc.IH [OF l(1)] Suc.prems by simp
    then show ?thesis
      using l(2) up dbl nn Suc.prems(3) by (auto simp: algebra_simps split: if_splits)
  qed
qed simp

section \<open>Properties\<close>

text \<open>
  C21: The watchdog trips exactly on a dead loop in an open market: whatever the notifier
  does, a check commands ENTRY_GATE_HALT, blocks every entry and makes exactly one call, a critical
  page, iff the market is open, the startup grace is over, and either no beat is younger than the
  threshold or the beating process reports a stale consumption cycle. A check that does not
  trip leaves the engine as it is, unless it ends a halt the watchdog itself commanded, and pages
  nobody critically: it makes no call in a closed market or in the grace, clears the page after a
  healthy reading, and clears it and warns when the gate is blocked by design.
\<close>

theorem watchdog_trips_exactly:
  "let w' = fst (check_watchdog up t now w);
       cleared = (if wd_has_resolve w then [Resolve_call (wd_component w) ''heartbeat_stale''] else [])
   in (if should_trip t now w
       then wd_escalation w' = map_option (transition ENTRY_GATE_HALT ''GLOBAL'' None None ''heartbeat_watchdog'')
                                 (wd_escalation w)
          \<and> (case wd_escalation w' of None \<Rightarrow> True | Some s \<Rightarrow> blocks_all_entries s)
          \<and> (\<exists>a. wd_calls w' = wd_calls w @ [Notify_call a] \<and> al_kind a = ''heartbeat_stale''
               \<and> al_severity a = ''critical'' \<and> al_component a = wd_component w)
       else (wd_escalation w' = wd_escalation w
              \<or> (\<exists>s. wd_escalation w = Some s \<and> may_deescalate w s \<and> classify t now w = Healthy
                   \<and> wd_escalation w' = Some (transition NOMINAL ''GLOBAL'' None None ''heartbeat_watchdog_recovery'' s)))
          \<and> (case classify t now w of
                Neutral \<Rightarrow> wd_calls w' = wd_calls w
              | Healthy \<Rightarrow> wd_calls w' = wd_calls w @ cleared
              | Resets \<Rightarrow> (\<exists>a. wd_calls w' = wd_calls w @ cleared @ [Notify_call a] \<and> al_kind a = ''gate_blocked''
                             \<and> al_severity a = ''warning'')))
      \<and> snd (check_watchdog True t now w) \<noteq> None
      \<and> map_option wr_tripped (snd (check_watchdog True t now w)) = Some (should_trip t now w)"
proof -
  have res: "map_option wr_tripped (snd (check_watchdog True t now w)) = Some (should_trip t now w)"
    unfolding check_defs by (auto split: option.splits prod.splits)
  have paged: "\<exists>a. wd_calls (fst (check_watchdog up t now w)) = wd_calls w @ [Notify_call a] \<and> al_kind a = ''heartbeat_stale''
      \<and> al_severity a = ''critical'' \<and> al_component a = wd_component w" if "should_trip t now w"
    using check_calls [of up t now w] that by auto
  show ?thesis
    using paged res check_calls [of up t now w]
    by (auto simp: Let_def check_escalation blocks_all_entries_def transition_def should_trip_class
        split: option.splits check_class.split)
qed

text \<open>
  C8: A halt is lifted only by sustained health: over any history of checks and of commands
  by others on the shared engine, a check of the soak watchdog that brings the engine to
  NOMINAL from another level ends an ENTRY_GATE_HALT that carries the watchdog's name, never
  a commanded liquidation or a latched shutdown, never in the live environment, and only after
  ten healthy readings, this one included, with no stale, stalled or gated reading between.
\<close>

theorem deescalation_needs_streak:
  assumes "w0 = build_soak_watchdog esc has_resolve started environment auto"
    and "w = foldl wd_step w0 ops" and "wd_escalation w = Some s" and "esc_level s \<noteq> NOMINAL"
    and "wd_escalation (wd_step w (Check up t now)) = Some s'" and "esc_level s' = NOMINAL"
  shows "10 \<le> healthy_streak w0 (ops @ [Check up t now]) 0 \<and> classify t now w = Healthy
    \<and> esc_level s = ENTRY_GATE_HALT \<and> esc_commanded_by s = ''heartbeat_watchdog''
    \<and> \<not> esc_portfolio_liquidation_commanded s \<and> \<not> esc_engine_shutdown_latched s
    \<and> str_lower environment \<noteq> ''live'' \<and> auto"
proof -
  have m: "may_deescalate w s" and c: "classify t now w = Healthy"
    using assms(3-6) by (auto simp: check_escalation transition_def split: if_splits)
  have "healthy_streak v (xs @ [Check up t now]) n
      = streak_after (healthy_streak v xs n) (classify t now (foldl wd_step v xs))" for v xs n
    by (induction v xs n rule: healthy_streak.induct) simp_all
  then have "healthy_streak w0 (ops @ [Check up t now]) 0 = healthy_streak w0 ops 0 + 1"
    using c assms(2) by (simp add: streak_after_def)
  moreover have "wd_fresh_streak w \<le> int (healthy_streak w0 ops 0)"
    using streak_bound [of w0 0 ops] assms(1,2) by (simp add: build_soak_watchdog_def new_watchdog_def)
  moreover have "wd_deesc_streak_required w = 10" "wd_allow_deesc w = (auto \<and> str_lower environment \<noteq> ''live'')"
    using assms(1,2) by (simp_all add: wd_run_config build_soak_watchdog_def new_watchdog_def)
  ultimately show ?thesis using m c by (auto simp: may_deescalate_def)
qed

text \<open>A table with one beat, and a moment of a Monday session.\<close>

definition one_beat :: "instant \<Rightarrow> heartbeat_table" where
  "one_beat b = write_heartbeat_sync ''soak'' (Some b) b []"

definition monday_noon :: instant where "monday_noon = combine (ymd 2026 7 20) (time_hm 16 0)"

definition recovery_ops :: "wd_op list" where
  "recovery_ops = Check True (one_beat (monday_noon - seconds 600)) monday_noon
     # replicate 9 (Check True (one_beat monday_noon) monday_noon)"

definition demo_watchdog :: "string \<Rightarrow> heartbeat_watchdog" where
  "demo_watchdog environment = build_soak_watchdog initial_snapshot True 0 environment True"

lemma recovery_run:
  "wd_escalation (foldl wd_step (demo_watchdog ''paper'') recovery_ops)
     = Some (transition ENTRY_GATE_HALT ''GLOBAL'' None None ''heartbeat_watchdog'' initial_snapshot)"
  "wd_escalation (wd_step (foldl wd_step (demo_watchdog ''paper'') recovery_ops)
       (Check True (one_beat monday_noon) monday_noon))
     = Some (transition NOMINAL ''GLOBAL'' None None ''heartbeat_watchdog_recovery''
         (transition ENTRY_GATE_HALT ''GLOBAL'' None None ''heartbeat_watchdog'' initial_snapshot))"
  by code_simp+

theorem deescalation_needs_streak_witness:
  "10 \<le> healthy_streak (demo_watchdog ''paper'') (recovery_ops @ [Check True (one_beat monday_noon) monday_noon]) 0"
  using deescalation_needs_streak [OF demo_watchdog_def refl recovery_run(1) _ recovery_run(2)]
  by (simp add: transition_def)

text \<open>
  Halted by design is not dead: what the emitter writes is what the watchdog reads. After
  an emission not older than the component's earlier beats, while the market is open and
  within the threshold of the beat, a check never halts entries over a blocked gate with a
  current (or not yet started) cycle, and always does when the reported cycle is older than
  the threshold, however fresh the beat.
\<close>

theorem emitter_watchdog_contract:
  assumes "\<forall>r\<in>set t. hb_component r = wd_component w \<longrightarrow> hb_beat_utc r \<le> b"
    and "t' = emit_once (wd_component w) i (Some b) b t"
    and "is_within_rth (wd_calendar w) now" and "\<not> in_grace now w"
    and "total_seconds (now - b) \<le> wd_threshold w"
  shows "read_latest_heartbeat_status (wd_component w) t' = Some (b, emitter_status i)
    \<and> (should_trip t' now w
         \<longleftrightarrow> (\<exists>c. em_last_cycle_ts i = Some c \<and> wd_threshold w < total_seconds (now - c)))
    \<and> (\<not> should_trip t' now w \<and> str_upper (fst (em_gate i)) = ''BLOCKED''
         \<longrightarrow> wd_escalation (fst (check_watchdog up t' now w)) = wd_escalation w
           \<and> wd_fresh_streak (fst (check_watchdog up t' now w)) = 0)"
proof -
  have st: "read_latest_heartbeat_status (wd_component w) t' = Some (b, emitter_status i)"
    unfolding assms(2) emit_once_def by (rule read_after_status_write) (rule assms(1))
  then have "\<not> beat_stale t' now w" "latest_status t' w = emitter_status i"
    using assms(5) by (simp_all add: beat_stale_def latest_queries_agree latest_status_def)
  moreover from this have "should_trip t' now w
      \<longleftrightarrow> (\<exists>c. em_last_cycle_ts i = Some c \<and> wd_threshold w < total_seconds (now - c))"
    using assms(3,4) by (auto simp: should_trip_def cycle_stale_def emitter_status_def split: option.splits)
  ultimately show ?thesis
    using st assms(3,4)
    by (auto simp: check_escalation check_streak classify_def emitter_status_def should_trip_def
        split: check_class.splits)
qed

theorem emitter_watchdog_contract_witness:
  "let i = \<lparr>em_gate = (''BLOCKED'', ''maintenance''), em_escalation_level = ''NOMINAL'',
            em_last_cycle_ts = Some (monday_noon - seconds 30)\<rparr>;
       w = demo_watchdog ''paper''
   in \<not> should_trip (emit_once ''soak'' i (Some monday_noon) monday_noon []) monday_noon w
      \<and> wd_escalation (fst (check_watchdog True (emit_once ''soak'' i (Some monday_noon) monday_noon []) monday_noon w))
          = wd_escalation w"
proof -
  let ?i = "\<lparr>em_gate = (''BLOCKED'', ''maintenance''), em_escalation_level = ''NOMINAL'',
            em_last_cycle_ts = Some (monday_noon - seconds 30)\<rparr>"
  let ?w = "demo_watchdog ''paper''"
  have "is_within_rth (wd_calendar ?w) monday_noon" "\<not> in_grace monday_noon ?w" by code_simp+
  moreover have w: "wd_component ?w = ''soak''" "wd_threshold ?w = 120"
    by (simp_all add: demo_watchdog_def build_soak_watchdog_def new_watchdog_def SOAK_STALE_THRESHOLD_S_def)
  moreover have "str_upper ''BLOCKED'' = ''BLOCKED''" by code_simp
  moreover have "total_seconds (monday_noon - (monday_noon - seconds 30)) = 30"
    by simp
  ultimately show ?thesis
    using emitter_watchdog_contract [of "[]" ?w monday_noon _ ?i monday_noon True, OF _ refl]
    by (simp add: Let_def total_seconds_def seconds_def)
qed

text \<open>
  A poll never raises and never runs on: the retry wrapper makes at most the allowed number
  of attempts (at least one), returns the first result, counts an attempt for every try and
  a failure for every one that failed, and sleeps in total less than the backoff doubled once
  per attempt.
\<close>

theorem resilient_call_bounded:
  assumes "resilient_supabase_call f n b m = (r, m', slept)" and "0 \<le> b" and "1 \<le> n"
  shows "pm_attempts m' \<le> pm_attempts m + nat n \<and> sum_list slept \<le> b * (2 ^ (nat n - 1) - 1)
    \<and> (r = None \<longleftrightarrow> (\<forall>i\<in>{1..nat n}. \<forall>x. f i \<noteq> Returns x))
    \<and> pm_failures m' + (if r = None then 0 else 1) + pm_attempts m = pm_attempts m' + pm_failures m"
proof -
  have l: "resilient_loop (nat n) f n b 1 m = (r, m', slept)"
    using assms(1,3) by (simp add: resilient_supabase_call_def max_def split: if_splits)
  have "sum_list slept \<le> b * (2 ^ (nat n - 1) - 1)"
    using resilient_loop_sleep [OF l] assms(2,3) by (simp add: numeral_2_eq_2)
  moreover have "{1..<1 + nat n} = {1..nat n}" by auto
  ultimately show ?thesis using resilient_loop_spec [OF l] by (cases r) force+
qed

section \<open>What the code does beside its comments\<close>

text \<open>
  A trip replaces whatever the engine was commanded to do, so an operator's halt is not
  kept: after one stale beat it carries the watchdog's name, and ten healthy checks lift it.
\<close>

lemma stale_beat_takes_over_operator_halt:
  "map_option esc_level (wd_escalation (foldl wd_step (demo_watchdog ''paper'')
     (Command ENTRY_GATE_HALT ''operator'' # recovery_ops @ [Check True (one_beat monday_noon) monday_noon])))
   = Some NOMINAL"
  by code_simp

text \<open>
  For the same reason a stale beat downgrades a portfolio flatten that has not run yet: the
  flatten flag falls, and only the shutdown latch remembers it.
\<close>

lemma stale_beat_drops_flatten_command:
  assumes "should_trip t now w" and "wd_escalation w = Some s" and "should_flatten_portfolio s"
  shows "map_option should_flatten_portfolio (wd_escalation (fst (check_watchdog up t now w))) = Some False"
  using assms by (simp add: check_escalation transition_def should_flatten_portfolio_def
      commands_portfolio_liquidation_def)

text \<open>The mirror watchdog never touches the engine.\<close>

lemma mirror_never_escalates:
  "wd_escalation (foldl wd_step (build_mirror_sync_watchdog has_resolve started) ops) = None"
proof -
  have "wd_escalation (foldl wd_step w ops) = None" if "wd_escalation w = None" for w
    using that
  proof (induction ops arbitrary: w)
    case (Cons op ops)
    have "wd_escalation (wd_step w op) = None"
      using Cons.prems by (cases op) (simp_all add: check_escalation wd_transition_def)
    then show ?case using Cons.IH by simp
  qed simp
  then show ?thesis by (simp add: build_mirror_sync_watchdog_def new_watchdog_def)
qed

end
