(* ===== verification/Data_Quality.thy ===== *)
theory Data_Quality
  imports Market_Calendar Walk_Forward
begin

text \<open>
  The pre-signal data-quality monitors (\<open>src/data_quality/monitors.py\<close>): bar sanity, the
  corporate-action guard and staleness, and the coordinator that keeps a state per
  instrument. A number of a feed bar may be absent or not finite, and only a finite one is
  compared; the other inputs are finite. A report is the result passed to the sink; the
  diagnostic detail of a result is not modelled.
\<close>

section \<open>Data\<close>

datatype pynum = Finite pyfloat | Not_finite | Absent

datatype dq_verdict = ALLOW | BLOCK_NEW_ENTRIES | QUARANTINE_BAR | QUARANTINE_INSTRUMENT

record dq_config =
  dq_enabled :: bool
  staleness_bar_age_multiple :: pyfloat
  corporate_action_jump_threshold :: pyfloat
  corporate_action_market_move_ratio :: pyfloat

definition default_dq_config :: dq_config where
  "default_dq_config =
     \<lparr>dq_enabled = False, staleness_bar_age_multiple = 5 / 2,
      corporate_action_jump_threshold = 1 / 4, corporate_action_market_move_ratio = 1 / 2\<rparr>"

record instrument_state =
  iq_entries_blocked :: bool
  iq_quarantined :: bool
  iq_reason :: string

definition new_instrument :: instrument_state where
  "new_instrument = \<lparr>iq_entries_blocked = False, iq_quarantined = False, iq_reason = []\<rparr>"

record dq_result =
  dqr_verdict :: dq_verdict
  dqr_symbol :: string
  dqr_reason :: string

definition dq_ok :: "dq_result \<Rightarrow> bool" where
  "dq_ok r = (dqr_verdict r = ALLOW)"

record feed_bar =
  fb_symbol :: string
  fb_timestamp :: instant
  fb_open :: pynum
  fb_high :: pynum
  fb_low :: pynum
  fb_close :: pynum
  fb_volume :: pynum

section \<open>The checks\<close>

definition bad_number :: "pynum \<Rightarrow> bool" where
  "bad_number x = (case x of Finite _ \<Rightarrow> False | _ \<Rightarrow> True)"

fun num_of :: "pynum \<Rightarrow> pyfloat" where
  "num_of (Finite x) = x"
| "num_of _ = 0"

definition allow :: "string \<Rightarrow> dq_result" where
  "allow symbol = \<lparr>dqr_verdict = ALLOW, dqr_symbol = symbol, dqr_reason = []\<rparr>"

definition check_bar_sanity :: "feed_bar \<Rightarrow> instant option \<Rightarrow> dq_result" where
  "check_bar_sanity b prev_timestamp =
     (let quarantine = (\<lambda>reason. \<lparr>dqr_verdict = QUARANTINE_BAR, dqr_symbol = fb_symbol b, dqr_reason = reason\<rparr>);
          bad_price = List.find (\<lambda>(_, v). bad_number v \<or> num_of v \<le> 0)
            [(''open'', fb_open b), (''high'', fb_high b), (''low'', fb_low b), (''close'', fb_close b)];
          hi = num_of (fb_high b); lo = num_of (fb_low b);
          op = num_of (fb_open b); cl = num_of (fb_close b)
      in case bad_price of
           Some (name, _) \<Rightarrow> quarantine (''bad_'' @ name)
         | None \<Rightarrow>
             if bad_number (fb_volume b) \<or> num_of (fb_volume b) < 0 then quarantine ''bad_volume''
             else if hi < lo then quarantine ''high_lt_low''
             else if hi < max op cl \<or> min op cl < lo then quarantine ''ohlc_inconsistent''
             else (case prev_timestamp of
                     Some p \<Rightarrow> if fb_timestamp b \<le> p then quarantine ''non_monotonic_timestamp''
                               else allow (fb_symbol b)
                   | None \<Rightarrow> allow (fb_symbol b)))"

definition check_staleness ::
  "string \<Rightarrow> instant \<Rightarrow> instant \<Rightarrow> pyfloat \<Rightarrow> dq_config \<Rightarrow> market_calendar \<Rightarrow> string \<Rightarrow> dq_result" where
  "check_staleness symbol last_bar_ts now timeframe_minutes cfg cal asset_class =
     (let tf = max timeframe_minutes (1 / 1000000000);
          threshold_min = staleness_bar_age_multiple cfg * tf;
          reference = (if asset_class = ''crypto'' then now
                       else if is_within_rth cal now then now else last_session_close cal now);
          age_min = bar_staleness_seconds last_bar_ts (tf * 60) reference / 60
      in if threshold_min < age_min
         then \<lparr>dqr_verdict = BLOCK_NEW_ENTRIES, dqr_symbol = symbol, dqr_reason = ''stale_feed''\<rparr>
         else allow symbol)"

definition check_corporate_action ::
  "string \<Rightarrow> pyfloat \<Rightarrow> pyfloat \<Rightarrow> pyfloat option \<Rightarrow> pyfloat option \<Rightarrow> dq_config \<Rightarrow> dq_result" where
  "check_corporate_action symbol prev_close today_open market_prev_close market_open cfg =
     (if prev_close \<le> 0 \<or> today_open \<le> 0 then allow symbol
      else
        let jump = \<bar>today_open / prev_close - 1\<bar>
        in if jump < corporate_action_jump_threshold cfg then allow symbol
           else
             let market_move = (case (market_prev_close, market_open) of
                   (Some mp, Some mo) \<Rightarrow> if mo \<noteq> 0 \<and> 0 < mp then \<bar>mo / mp - 1\<bar> else 0
                 | _ \<Rightarrow> 0)
             in if corporate_action_jump_threshold cfg * corporate_action_market_move_ratio cfg \<le> market_move
                then \<lparr>dqr_verdict = ALLOW, dqr_symbol = symbol, dqr_reason = ''market_wide_gap''\<rparr>
                else \<lparr>dqr_verdict = QUARANTINE_INSTRUMENT, dqr_symbol = symbol,
                       dqr_reason = ''suspected_corporate_action''\<rparr>)"

section \<open>The coordinator\<close>

record dq_monitors =
  mon_config :: dq_config
  mon_calendar :: market_calendar
  mon_state :: "(string, instrument_state) dict"
  mon_reports :: "dq_result list"

definition new_monitors :: "dq_config \<Rightarrow> market_calendar \<Rightarrow> dq_monitors" where
  "new_monitors cfg cal = \<lparr>mon_config = cfg, mon_calendar = cal, mon_state = [], mon_reports = []\<rparr>"

definition instrument_of :: "string \<Rightarrow> dq_monitors \<Rightarrow> instrument_state" where
  "instrument_of symbol m = dict_get (mon_state m) symbol new_instrument"

definition dq_entries_blocked :: "string \<Rightarrow> dq_monitors \<Rightarrow> bool" where
  "dq_entries_blocked symbol m =
     (case map_of (mon_state m) symbol of
        None \<Rightarrow> False | Some st \<Rightarrow> iq_entries_blocked st \<or> iq_quarantined st)"

definition clear_instrument :: "string \<Rightarrow> dq_monitors \<Rightarrow> dq_monitors" where
  "clear_instrument symbol m = m\<lparr>mon_state := AList.delete symbol (mon_state m)\<rparr>"

record dq_inputs =
  in_bar :: feed_bar
  in_now :: instant
  in_timeframe_minutes :: pyfloat
  in_prev_timestamp :: "instant option"
  in_prev_close :: "pyfloat option"
  in_today_open :: "pyfloat option"
  in_market_prev_close :: "pyfloat option"
  in_market_open :: "pyfloat option"
  in_asset_class :: string

definition set_instrument :: "string \<Rightarrow> instrument_state \<Rightarrow> dq_monitors \<Rightarrow> dq_monitors" where
  "set_instrument symbol st m = m\<lparr>mon_state := AList.update symbol st (mon_state m)\<rparr>"

definition dq_report :: "dq_result \<Rightarrow> dq_monitors \<Rightarrow> dq_monitors" where
  "dq_report r m = m\<lparr>mon_reports := mon_reports m @ [r]\<rparr>"

definition corporate_verdict :: "dq_inputs \<Rightarrow> dq_config \<Rightarrow> dq_result option" where
  "corporate_verdict i cfg =
     (case (in_prev_close i, in_today_open i) of
        (Some pc, Some to) \<Rightarrow>
          let corp = check_corporate_action (fb_symbol (in_bar i)) pc to (in_market_prev_close i) (in_market_open i) cfg
          in if dqr_verdict corp = QUARANTINE_INSTRUMENT then Some corp else None
      | _ \<Rightarrow> None)"

definition evaluate_quality :: "dq_inputs \<Rightarrow> dq_monitors \<Rightarrow> dq_monitors \<times> dq_result" where
  "evaluate_quality i m =
     (let cfg = mon_config m; symbol = fb_symbol (in_bar i)
      in if \<not> dq_enabled cfg then (m, allow symbol)
         else
           let st = instrument_of symbol m;
               m1 = set_instrument symbol st m;
               sanity = check_bar_sanity (in_bar i) (in_prev_timestamp i)
           in if dqr_verdict sanity \<noteq> ALLOW then (dq_report sanity m1, sanity)
              else (case corporate_verdict i cfg of
                  Some corp \<Rightarrow>
                    (dq_report corp (set_instrument symbol
                       (st\<lparr>iq_quarantined := True, iq_entries_blocked := True, iq_reason := dqr_reason corp\<rparr>) m1), corp)
                | None \<Rightarrow>
                    let stale = check_staleness symbol (fb_timestamp (in_bar i)) (in_now i)
                          (in_timeframe_minutes i) cfg (mon_calendar m) (in_asset_class i)
                    in if dqr_verdict stale = BLOCK_NEW_ENTRIES
                       then (dq_report stale (set_instrument symbol
                               (st\<lparr>iq_entries_blocked := True, iq_reason := dqr_reason stale\<rparr>) m1), stale)
                       else (if \<not> iq_quarantined st
                             then set_instrument symbol (st\<lparr>iq_entries_blocked := False, iq_reason := []\<rparr>) m1
                             else m1, allow symbol)))"

section \<open>Lemmas\<close>

definition sane_bar :: "feed_bar \<Rightarrow> instant option \<Rightarrow> bool" where
  "sane_bar b prev \<longleftrightarrow>
     (\<exists>o' h l c v. fb_open b = Finite o' \<and> fb_high b = Finite h \<and> fb_low b = Finite l \<and> fb_close b = Finite c
        \<and> fb_volume b = Finite v \<and> 0 < l \<and> l \<le> o' \<and> l \<le> c \<and> o' \<le> h \<and> c \<le> h \<and> 0 \<le> v)
     \<and> (prev = None \<or> (\<exists>p. prev = Some p \<and> p < fb_timestamp b))"

lemma not_bad_number: "\<not> bad_number x \<longleftrightarrow> (\<exists>y. x = Finite y)"
  by (cases x) (simp_all add: bad_number_def)

lemma sanity_allows_iff: "dqr_verdict (check_bar_sanity b prev) = ALLOW \<longleftrightarrow> sane_bar b prev"
  unfolding check_bar_sanity_def sane_bar_def Let_def
  by (cases "fb_open b"; cases "fb_high b"; cases "fb_low b"; cases "fb_close b"; cases "fb_volume b")
     (auto simp: bad_number_def allow_def split: option.splits)

lemma instrument_of_set [simp]:
  "instrument_of s' (set_instrument s st m) = (if s' = s then st else instrument_of s' m)"
  by (simp add: instrument_of_def set_instrument_def dict_get_def)

lemma instrument_of_report [simp]: "instrument_of s (dq_report r m) = instrument_of s m"
  by (simp add: instrument_of_def dq_report_def)

lemma instrument_of_clear [simp]:
  "instrument_of s (clear_instrument s' m) = (if s = s' then new_instrument else instrument_of s m)"
  by (simp add: instrument_of_def clear_instrument_def dict_get_def)

lemma blocked_iff: "dq_entries_blocked s m \<longleftrightarrow> iq_entries_blocked (instrument_of s m) \<or> iq_quarantined (instrument_of s m)"
  by (auto simp: dq_entries_blocked_def instrument_of_def dict_get_def new_instrument_def split: option.splits)

definition feed_stale :: "dq_inputs \<Rightarrow> dq_monitors \<Rightarrow> bool" where
  "feed_stale i m = (dqr_verdict (check_staleness (fb_symbol (in_bar i)) (fb_timestamp (in_bar i)) (in_now i)
     (in_timeframe_minutes i) (mon_config m) (mon_calendar m) (in_asset_class i)) = BLOCK_NEW_ENTRIES)"

lemma evaluate_other: "s \<noteq> fb_symbol (in_bar i) \<Longrightarrow> instrument_of s (fst (evaluate_quality i m)) = instrument_of s m"
  by (auto simp: evaluate_quality_def Let_def split: option.splits)

lemma evaluate_config [simp]: "mon_config (fst (evaluate_quality i m)) = mon_config m"
  by (auto simp: evaluate_quality_def Let_def set_instrument_def dq_report_def split: option.splits)

lemma evaluate_instrument:
  assumes "dq_enabled (mon_config m)" and "s = fb_symbol (in_bar i)"
  shows "instrument_of s (fst (evaluate_quality i m)) =
    (let st = instrument_of s m
     in if \<not> sane_bar (in_bar i) (in_prev_timestamp i) then st
        else case corporate_verdict i (mon_config m) of
             Some corp \<Rightarrow> st\<lparr>iq_quarantined := True, iq_entries_blocked := True, iq_reason := dqr_reason corp\<rparr>
           | None \<Rightarrow> if feed_stale i m then st\<lparr>iq_entries_blocked := True, iq_reason := ''stale_feed''\<rparr>
                     else if iq_quarantined st then st
                     else st\<lparr>iq_entries_blocked := False, iq_reason := []\<rparr>)"
proof -
  have "dqr_verdict (check_staleness a b c d e f g) = BLOCK_NEW_ENTRIES
      \<Longrightarrow> dqr_reason (check_staleness a b c d e f g) = ''stale_feed''" for a b c d e f g
    by (simp add: check_staleness_def Let_def allow_def split: if_splits)
  then show ?thesis
    using assms by (auto simp: evaluate_quality_def Let_def feed_stale_def sanity_allows_iff split: option.splits)
qed

section \<open>Operations interleaved\<close>

datatype dq_op = Evaluate_bar dq_inputs | Clear string

fun dq_step :: "dq_monitors \<Rightarrow> dq_op \<Rightarrow> dq_monitors" where
  "dq_step m (Evaluate_bar i) = fst (evaluate_quality i m)"
| "dq_step m (Clear s) = clear_instrument s m"

text \<open>A symbol's quarantine is a latch of the machine without that symbol's clear.\<close>

definition step_unless_clear :: "string \<Rightarrow> dq_monitors \<Rightarrow> dq_op \<Rightarrow> dq_monitors" where
  "step_unless_clear s m op = (if op = Clear s then m else dq_step m op)"

interpretation quarantine: latched_machine "step_unless_clear s" "\<lambda>_. True"
  "\<lambda>m. iq_quarantined (instrument_of s m)" for s
proof unfold_locales
  show "iq_quarantined (instrument_of s (step_unless_clear s m op))" if "iq_quarantined (instrument_of s m)" for m op
  proof (cases op)
    case (Evaluate_bar i)
    show ?thesis
    proof (cases "s = fb_symbol (in_bar i) \<and> dq_enabled (mon_config m)")
      case True
      then show ?thesis using that Evaluate_bar evaluate_instrument [of m s i]
        by (auto simp: step_unless_clear_def Let_def split: option.splits)
    next
      case False
      then have "instrument_of s (fst (evaluate_quality i m)) = instrument_of s m"
        using evaluate_other [of s i m] by (cases "dq_enabled (mon_config m)") (auto simp: evaluate_quality_def)
      then show ?thesis using that Evaluate_bar by (simp add: step_unless_clear_def)
    qed
  next
    case (Clear s')
    then show ?thesis using that by (auto simp: step_unless_clear_def)
  qed
qed simp

lemma run_without_clear:
  "Clear s \<notin> set ops \<Longrightarrow> foldl dq_step m ops = foldl (step_unless_clear s) m ops"
  by (induction ops arbitrary: m) (auto simp: step_unless_clear_def)

section \<open>Properties\<close>

text \<open>
  A quarantine is lifted by the operator alone: once an instrument is quarantined, no
  sequence of evaluations of any instruments and of clears of other symbols unblocks it.
\<close>

theorem quarantine_until_cleared:
  assumes "iq_quarantined (instrument_of s m)" and "Clear s \<notin> set ops"
  shows "iq_quarantined (instrument_of s (foldl dq_step m ops)) \<and> dq_entries_blocked s (foldl dq_step m ops)"
  using quarantine.latch_run [of s m ops] assms by (simp add: run_without_clear blocked_iff)

text \<open>A reverse split: the price moves eightfold overnight, the market does not.\<close>

definition demo_bar :: "string \<Rightarrow> pyfloat \<Rightarrow> feed_bar" where
  "demo_bar symbol x =
     \<lparr>fb_symbol = symbol, fb_timestamp = 0, fb_open = Finite x, fb_high = Finite x, fb_low = Finite x,
      fb_close = Finite x, fb_volume = Finite 100\<rparr>"

definition demo_inputs :: "string \<Rightarrow> pyfloat \<Rightarrow> pyfloat \<Rightarrow> dq_inputs" where
  "demo_inputs symbol prev_close today_open =
     \<lparr>in_bar = demo_bar symbol today_open, in_now = 0, in_timeframe_minutes = 15, in_prev_timestamp = None,
      in_prev_close = Some prev_close, in_today_open = Some today_open, in_market_prev_close = Some 100,
      in_market_open = Some 100, in_asset_class = ''crypto''\<rparr>"

definition armed_monitors :: dq_monitors where
  "armed_monitors = new_monitors (default_dq_config\<lparr>dq_enabled := True\<rparr>) nyse_calendar"

theorem quarantine_until_cleared_witness:
  "dq_entries_blocked ''USO'' (foldl dq_step (dq_step armed_monitors (Evaluate_bar (demo_inputs ''USO'' 2 16)))
     [Evaluate_bar (demo_inputs ''USO'' 16 16), Clear ''SPY''])"
proof -
  have "iq_quarantined (instrument_of ''USO'' (dq_step armed_monitors (Evaluate_bar (demo_inputs ''USO'' 2 16))))"
    by code_simp
  from quarantine_until_cleared [OF this, of "[Evaluate_bar (demo_inputs ''USO'' 16 16), Clear ''SPY'']"]
  show ?thesis by simp
qed

text \<open>
  Entries are blocked exactly when the data says so: an armed evaluation blocks its
  instrument iff the bar is sane and there is a suspected corporate action, a stale feed or a
  standing quarantine, and a bar that is not sane leaves the block as it was; a bar is sane
  iff its prices are finite and positive with low and high enclosing open and close, its
  volume is not negative and its timestamp advances. No other instrument changes.
\<close>

theorem quality_blocks_exactly:
  "(dq_enabled (mon_config m) \<and> s = fb_symbol (in_bar i) \<longrightarrow>
      (dq_entries_blocked s (fst (evaluate_quality i m)) \<longleftrightarrow>
        (if dqr_verdict (check_bar_sanity (in_bar i) (in_prev_timestamp i)) = ALLOW
         then corporate_verdict i (mon_config m) \<noteq> None \<or> feed_stale i m \<or> iq_quarantined (instrument_of s m)
         else dq_entries_blocked s m)))
   \<and> (\<not> dq_enabled (mon_config m) \<or> s \<noteq> fb_symbol (in_bar i)
      \<longrightarrow> dq_entries_blocked s (fst (evaluate_quality i m)) = dq_entries_blocked s m)
   \<and> (dqr_verdict (check_bar_sanity b prev) = ALLOW \<longleftrightarrow> sane_bar b prev)"
proof -
  have 1: "dq_enabled (mon_config m) \<and> s = fb_symbol (in_bar i) \<longrightarrow>
      (dq_entries_blocked s (fst (evaluate_quality i m)) \<longleftrightarrow>
        (if sane_bar (in_bar i) (in_prev_timestamp i)
         then corporate_verdict i (mon_config m) \<noteq> None \<or> feed_stale i m \<or> iq_quarantined (instrument_of s m)
         else dq_entries_blocked s m))"
    using evaluate_instrument [of m s i] by (auto simp: blocked_iff Let_def split: option.splits if_splits)
  moreover have "\<not> dq_enabled (mon_config m) \<or> s \<noteq> fb_symbol (in_bar i)
      \<longrightarrow> dq_entries_blocked s (fst (evaluate_quality i m)) = dq_entries_blocked s m"
    using evaluate_other [of s i m] by (auto simp: blocked_iff evaluate_quality_def)
  ultimately show ?thesis by (simp add: sanity_allows_iff)
qed

theorem quality_blocks_exactly_witness:
  "dq_entries_blocked ''USO'' (fst (evaluate_quality (demo_inputs ''USO'' 2 16) armed_monitors))
   \<and> \<not> dq_entries_blocked ''SPY'' (fst (evaluate_quality (demo_inputs ''USO'' 2 16) armed_monitors))"
proof -
  let ?i = "demo_inputs ''USO'' 2 16"
  have "dq_enabled (mon_config armed_monitors)" "fb_symbol (in_bar ?i) = ''USO''"
    "dqr_verdict (check_bar_sanity (in_bar ?i) (in_prev_timestamp ?i)) = ALLOW"
    "corporate_verdict ?i (mon_config armed_monitors) \<noteq> None"
    "\<not> dq_entries_blocked ''SPY'' armed_monitors" by code_simp+
  then show ?thesis
    using quality_blocks_exactly [of armed_monitors "''USO''" ?i "in_bar ?i" None]
      quality_blocks_exactly [of armed_monitors "''SPY''" ?i "in_bar ?i" None]
    by simp
qed

text \<open>
  A closed market is never stale: while the market is closed, however long, a bar that
  reaches to the last session close (or within the threshold of it) is not flagged.
\<close>

theorem overnight_never_stale:
  assumes "\<not> is_within_rth cal now" and "asset_class \<noteq> ''crypto''" and "1 / 1000000000 \<le> tf"
    and "0 \<le> staleness_bar_age_multiple cfg"
    and "total_seconds (last_session_close cal now - last_bar_ts) \<le> tf * 60"
  shows "dqr_verdict (check_staleness symbol last_bar_ts now tf cfg cal asset_class) = ALLOW"
proof -
  have "bar_staleness_seconds last_bar_ts (tf * 60) (last_session_close cal now) = 0"
    using assms(5) by (simp add: bar_staleness_seconds_def)
  moreover have "max tf (1 / 1000000000) = tf" using assms(3) by (rule max.absorb1)
  ultimately show ?thesis using assms by (simp add: check_staleness_def Let_def allow_def not_less)
qed

end
