(* ===== verification/Fill_Sieve.thy ===== *)
theory Fill_Sieve
  imports Models
begin

text \<open>
  The broker fill reconciliation sieve (\<open>src/engine/broker_fill_sieve.py\<close>) and the
  broker-primary reconciliation it calls (\<open>src/engine/execution_adaptor.py\<close>): post-submit
  polling, bundles of unresolved fills carried across cycles, and leg memory forced to what
  the broker reports. The broker is a parameter: a state and the four calls the sieve makes
  of it, each returning the new state and its answer. The lock guards single statements, and
  the operations run one after the other. Log lines are kept as events where an operator acts
  on them; a broker call that raises ends the operation and is not modelled.
\<close>

section \<open>Broker-primary reconciliation\<close>

record primary_reconciliation =
  pr_broker_qty :: pyfloat
  pr_position_side :: string
  pr_bars_in_trade :: int
  pr_is_partial :: bool
  pr_requested_qty :: pyfloat
  pr_filled_qty :: pyfloat
  pr_residual_qty :: pyfloat

definition signed_broker_qty :: "position option \<Rightarrow> pyfloat" where
  "signed_broker_qty p =
     (case p of None \<Rightarrow> 0
      | Some q \<Rightarrow> if str_lower (pos_side q) = ''short'' then - \<bar>pos_qty q\<bar> else \<bar>pos_qty q\<bar>)"

definition position_side_label :: "position option \<Rightarrow> string" where
  "position_side_label p =
     (case p of None \<Rightarrow> ''flat''
      | Some q \<Rightarrow> if str_lower (pos_side q) = ''long'' then ''long'' else ''short'')"

definition EPS :: pyfloat where "EPS = 1 / 1000000000"

definition reconcile_broker_primary_fill ::
  "pyfloat \<Rightarrow> order_result \<Rightarrow> position option \<Rightarrow> position option \<Rightarrow> int \<Rightarrow> primary_reconciliation" where
  "reconcile_broker_primary_fill requested_qty fill_result prior_position broker_position bars_in_trade =
     (let filled = max (res_qty fill_result) 0;
          requested = max requested_qty 0;
          is_partial = (str_lower (res_status fill_result) = ''partially_filled''
                        \<or> 0 < requested \<and> filled + EPS < requested)
      in \<lparr>pr_broker_qty = signed_broker_qty broker_position,
          pr_position_side = position_side_label broker_position,
          pr_bars_in_trade = (case broker_position of
              None \<Rightarrow> 0
            | Some _ \<Rightarrow> (case prior_position of None \<Rightarrow> 1 | Some _ \<Rightarrow> max bars_in_trade 1)),
          pr_is_partial = is_partial, pr_requested_qty = requested, pr_filled_qty = filled,
          pr_residual_qty = (if is_partial then max (requested - filled) 0 else 0)\<rparr>)"

definition detect_leg_broker_memory_drift :: "int \<Rightarrow> position option \<Rightarrow> bool" where
  "detect_leg_broker_memory_drift bars_in_trade broker_position =
     ((0 < bars_in_trade) \<noteq> (case broker_position of None \<Rightarrow> False | Some q \<Rightarrow> EPS < \<bar>pos_qty q\<bar>))"

definition apply_broker_authority_to_leg_memory :: "int \<Rightarrow> position option \<Rightarrow> position option \<Rightarrow> int" where
  "apply_broker_authority_to_leg_memory bars_in_trade broker_position prior_position =
     (if broker_position = None then 0
      else if prior_position = None then max bars_in_trade 1 else max bars_in_trade 1)"

section \<open>Bundles\<close>

definition INCOMPLETE_CYCLE_CANCEL_THRESHOLD :: int where "INCOMPLETE_CYCLE_CANCEL_THRESHOLD = 3"

definition TERMINAL_ORDER_STATUSES :: "string list" where
  "TERMINAL_ORDER_STATUSES =
     [''filled'', ''partially_filled'', ''canceled'', ''cancelled'', ''expired'', ''rejected'']"

definition OPEN_ORDER_STATUSES :: "string list" where
  "OPEN_ORDER_STATUSES = [''new'', ''accepted'', ''pending_new'', ''submitted'', ''open'']"

record child_fill_slice =
  cs_order_id :: "string option"
  cs_requested_qty :: pyfloat
  cs_side :: side
  cs_filled_qty :: pyfloat
  cs_status :: string

record pending_bundle =
  pb_strategy_id :: string
  pb_symbol :: string
  pb_slices :: "child_fill_slice list"
  pb_positions_before :: "position list"
  pb_unresolved_cycles :: int

definition bundle_requested_qty :: "pending_bundle \<Rightarrow> pyfloat" where
  "bundle_requested_qty b = sum_list (map (\<lambda>s. max (cs_requested_qty s) 0) (pb_slices b))"

definition bundle_filled_qty :: "pending_bundle \<Rightarrow> pyfloat" where
  "bundle_filled_qty b = sum_list (map (\<lambda>s. max (cs_filled_qty s) 0) (pb_slices b))"

definition bundle_is_terminal :: "pending_bundle \<Rightarrow> bool" where
  "bundle_is_terminal b =
     (if pb_slices b = [] then True
      else list_all (\<lambda>s. str_lower (cs_status s) \<in> set TERMINAL_ORDER_STATUSES) (pb_slices b))"

definition needs_tracking :: "pending_bundle \<Rightarrow> bool" where
  "needs_tracking b =
     (if pb_slices b = [] then False
      else if list_ex (\<lambda>s. str_lower (cs_status s) \<in> set OPEN_ORDER_STATUSES) (pb_slices b) then True
      else if bundle_filled_qty b + EPS < bundle_requested_qty b then True
      else list_ex (\<lambda>s. str_lower (cs_status s) = ''partially_filled''
             \<or> 0 < cs_requested_qty s \<and> cs_filled_qty s + EPS < cs_requested_qty s) (pb_slices b))"

definition bundle_key :: "string \<Rightarrow> string \<Rightarrow> string" where
  "bundle_key sid symbol = sid @ '':'' @ str_upper symbol"

text \<open>The dictionary of orders by symbol and side: a later order replaces an earlier one.\<close>

definition order_key :: "string \<Rightarrow> side \<Rightarrow> string" where
  "order_key symbol sd = symbol @ '':'' @ side_value sd"

definition order_lookup :: "order list \<Rightarrow> (string, order) dict" where
  "order_lookup orders =
     foldl (\<lambda>d ord. AList.update (order_key (ord_symbol ord) (ord_side ord)) ord d) [] orders"

definition build_slices :: "order list \<Rightarrow> order_result list \<Rightarrow> child_fill_slice list" where
  "build_slices orders results =
     map (\<lambda>r. let ord = map_of (order_lookup orders) (order_key (res_symbol r) (res_side r))
              in \<lparr>cs_order_id = res_order_id r,
                  cs_requested_qty = (case ord of None \<Rightarrow> res_qty r | Some q \<Rightarrow> ord_qty q),
                  cs_side = (case ord of None \<Rightarrow> res_side r | Some q \<Rightarrow> ord_side q),
                  cs_filled_qty = max (res_qty r) 0,
                  cs_status = str_lower (or_default (res_status r) ''submitted'')\<rparr>) results"

definition bundle_from_submission ::
  "string \<Rightarrow> string \<Rightarrow> order list \<Rightarrow> order_result list \<Rightarrow> position list \<Rightarrow> pending_bundle" where
  "bundle_from_submission sid symbol orders results positions_before =
     \<lparr>pb_strategy_id = sid, pb_symbol = str_upper symbol, pb_slices = build_slices orders results,
      pb_positions_before = positions_before, pb_unresolved_cycles = 0\<rparr>"

section \<open>The broker and the sieve's state\<close>

record 'b fill_broker =
  fbk_get_positions :: "'b \<Rightarrow> 'b \<times> position list"
  fbk_short_burst_refresh :: "order list \<Rightarrow> order_result list \<Rightarrow> 'b \<Rightarrow> 'b \<times> order_result list"
  fbk_refresh :: "order \<Rightarrow> order_result \<Rightarrow> 'b \<Rightarrow> 'b \<times> order_result"
  fbk_cancel_open_orders :: "string \<Rightarrow> 'b \<Rightarrow> 'b \<times> nat"

record sieve_leg =
  sl_strategy_id :: string
  sl_symbol :: string
  sl_bars_in_trade :: int
  sl_latest_ts :: "instant option"

datatype sieve_event =
    Reconciled string bool int
  | Bracket_adjusted string nat
  | Bracket_cancelled string nat
  | Residual_abandoned string pyfloat pyfloat
  | Ioc_residual string pyfloat

record 'b sieve =
  sv_broker :: 'b
  sv_pending :: "(string, pending_bundle) dict"
  sv_legs :: "(string, sieve_leg) dict"
  sv_api_notes :: nat
  sv_events :: "sieve_event list"

definition sv_emit :: "sieve_event \<Rightarrow> 'b sieve \<Rightarrow> 'b sieve" where
  "sv_emit e s = s\<lparr>sv_events := sv_events s @ [e]\<rparr>"

definition pending_bundle_count :: "'b sieve \<Rightarrow> nat" where
  "pending_bundle_count s = length (sv_pending s)"

definition has_pending_bundle_for_leg :: "string \<Rightarrow> string \<Rightarrow> 'b sieve \<Rightarrow> bool" where
  "has_pending_bundle_for_leg sid symbol s = (map_of (sv_pending s) (bundle_key sid symbol) \<noteq> None)"

text \<open>\<open>get_positions\<close> with the note to the risk manager's call budget.\<close>

definition fetch_positions :: "'b fill_broker \<Rightarrow> 'b sieve \<Rightarrow> 'b sieve \<times> position list" where
  "fetch_positions bk s =
     (let (b, ps) = fbk_get_positions bk (sv_broker s)
      in (s\<lparr>sv_broker := b, sv_api_notes := sv_api_notes s + 1\<rparr>, ps))"

definition cancel_open_orders :: "'b fill_broker \<Rightarrow> string \<Rightarrow> (nat \<Rightarrow> sieve_event) \<Rightarrow> 'b sieve \<Rightarrow> 'b sieve" where
  "cancel_open_orders bk symbol ev s =
     (let (b, n) = fbk_cancel_open_orders bk symbol (sv_broker s); s1 = s\<lparr>sv_broker := b\<rparr>
      in if 0 < n then sv_emit (ev n) s1 else s1)"

text \<open>The loop over the results; the prior position becomes the current one after the first.\<close>

definition authority_step ::
  "'b fill_broker \<Rightarrow> order list \<Rightarrow> position option \<Rightarrow> 'b sieve \<times> sieve_leg \<times> position option \<Rightarrow> order_result
     \<Rightarrow> 'b sieve \<times> sieve_leg \<times> position option" where
  "authority_step bk orders current st r =
     (let (s, leg, prior) = st
      in if res_filled_price r \<le> 0 \<and> res_qty r \<le> 0
            \<and> str_lower (res_status r) \<notin> set TERMINAL_ORDER_STATUSES then st
         else
           let requested = (case map_of (order_lookup orders) (order_key (res_symbol r) (res_side r)) of
                              None \<Rightarrow> res_qty r | Some q \<Rightarrow> ord_qty q);
               recon = reconcile_broker_primary_fill requested r prior current (sl_bars_in_trade leg);
               leg1 = leg\<lparr>sl_bars_in_trade := pr_bars_in_trade recon\<rparr>;
               s1 = (if pr_is_partial recon \<and> EPS < pr_residual_qty recon
                     then cancel_open_orders bk (sl_symbol leg) (Bracket_adjusted (sl_strategy_id leg)) s else s)
           in (s1, leg1, current))"

definition apply_broker_authority ::
  "'b fill_broker \<Rightarrow> order list \<Rightarrow> order_result list \<Rightarrow> position list \<Rightarrow> sieve_leg \<Rightarrow> 'b sieve
     \<Rightarrow> 'b sieve \<times> sieve_leg \<times> position list" where
  "apply_broker_authority bk orders results positions_before leg s =
     (let (s0, positions) = fetch_positions bk s;
          prior = match_position (sl_symbol leg) positions_before;
          current = match_position (sl_symbol leg) positions;
          (s1, leg1, _) = foldl (authority_step bk orders current) (s0, leg, prior) results
      in if detect_leg_broker_memory_drift (sl_bars_in_trade leg1) current
         then
           let (s2, positions') = fetch_positions bk s1;
               current' = match_position (sl_symbol leg) positions';
               bars = apply_broker_authority_to_leg_memory (sl_bars_in_trade leg1) current'
                        (match_position (sl_symbol leg) positions_before)
           in (sv_emit (Reconciled (sl_strategy_id leg) False bars) s2, leg1\<lparr>sl_bars_in_trade := bars\<rparr>, positions')
         else (sv_emit (Reconciled (sl_strategy_id leg) True (sl_bars_in_trade leg1)) s1, leg1, positions))"

text \<open>The leg object is shared: its memory is stored back under its strategy.\<close>

definition put_leg :: "sieve_leg \<Rightarrow> 'b sieve \<Rightarrow> 'b sieve" where
  "put_leg leg s = s\<lparr>sv_legs := AList.update (sl_strategy_id leg) leg (sv_legs s)\<rparr>"

section \<open>Operations\<close>

definition reconcile_post_submit ::
  "'b fill_broker \<Rightarrow> sieve_leg \<Rightarrow> order list \<Rightarrow> order_result list \<Rightarrow> position list \<Rightarrow> 'b sieve
     \<Rightarrow> 'b sieve \<times> position list" where
  "reconcile_post_submit bk leg orders results positions_before s =
     (if results = [] then (s, positions_before)
      else
        let (b, refreshed) = fbk_short_burst_refresh bk orders results (sv_broker s);
            (s1, leg1, positions) =
              apply_broker_authority bk orders refreshed positions_before leg (s\<lparr>sv_broker := b\<rparr>);
            bundle = bundle_from_submission (sl_strategy_id leg) (sl_symbol leg) orders refreshed positions_before;
            key = bundle_key (sl_strategy_id leg) (sl_symbol leg);
            s2 = put_leg leg1 s1
        in (if needs_tracking bundle
            then s2\<lparr>sv_pending := AList.update key bundle (sv_pending s2)\<rparr>
            else s2\<lparr>sv_pending := AList.delete key (sv_pending s2)\<rparr>, positions))"

definition register_ioc_residual ::
  "'b fill_broker \<Rightarrow> sieve_leg \<Rightarrow> order list \<Rightarrow> order_result list \<Rightarrow> position list \<Rightarrow> pyfloat \<Rightarrow> 'b sieve
     \<Rightarrow> 'b sieve \<times> position list" where
  "register_ioc_residual bk leg orders results positions_before residual_qty s =
     (if residual_qty \<le> EPS \<or> results = [] then (s, positions_before)
      else
        let (b, refreshed) = fbk_short_burst_refresh bk orders results (sv_broker s);
            (s1, leg1, positions) =
              apply_broker_authority bk orders refreshed positions_before leg (s\<lparr>sv_broker := b\<rparr>);
            bundle = bundle_from_submission (sl_strategy_id leg) (sl_symbol leg) orders refreshed positions_before;
            s2 = put_leg leg1 s1
        in (sv_emit (Ioc_residual (sl_strategy_id leg) residual_qty)
              (s2\<lparr>sv_pending := AList.update (bundle_key (sl_strategy_id leg) (sl_symbol leg)) bundle (sv_pending s2)\<rparr>),
            positions))"

fun refresh_slices ::
  "'b fill_broker \<Rightarrow> (order \<times> order_result) list \<Rightarrow> 'b \<Rightarrow> 'b \<times> order_result list" where
  "refresh_slices bk [] b = (b, [])"
| "refresh_slices bk ((ord, r) # rest) b =
     (let (b1, r1) = (if truthy (res_order_id r) then fbk_refresh bk ord r b else (b, r));
          (b2, rs) = refresh_slices bk rest b1
      in (b2, r1 # rs))"

definition slice_order :: "pending_bundle \<Rightarrow> child_fill_slice \<Rightarrow> order" where
  "slice_order bundle c =
     \<lparr>ord_symbol = pb_symbol bundle, ord_side = cs_side c, ord_qty = cs_requested_qty c,
      ord_order_type = ''market'', ord_stop_price = None, ord_strategy_id = pb_strategy_id bundle,
      ord_client_order_id = None\<rparr>"

definition slice_result :: "pending_bundle \<Rightarrow> sieve_leg \<Rightarrow> instant \<Rightarrow> child_fill_slice \<Rightarrow> order_result" where
  "slice_result bundle leg now c =
     \<lparr>res_symbol = pb_symbol bundle, res_side = cs_side c, res_qty = cs_filled_qty c, res_filled_price = 0,
      res_filled_at = (case sl_latest_ts leg of None \<Rightarrow> now | Some t \<Rightarrow> t),
      res_order_id = cs_order_id c, res_status = cs_status c\<rparr>"

definition advance_bundle ::
  "'b fill_broker \<Rightarrow> instant \<Rightarrow> sieve_leg \<Rightarrow> pending_bundle \<Rightarrow> 'b sieve \<Rightarrow> 'b sieve" where
  "advance_bundle bk now leg bundle s =
     (let key = bundle_key (pb_strategy_id bundle) (pb_symbol bundle);
          orders = map (slice_order bundle) (pb_slices bundle);
          results = map (slice_result bundle leg now) (pb_slices bundle);
          (b, refreshed) = refresh_slices bk (zip orders results) (sv_broker s);
          bundle1 = bundle\<lparr>pb_slices := build_slices orders refreshed\<rparr>;
          (s1, leg1, _) =
            apply_broker_authority bk orders refreshed (pb_positions_before bundle) leg (s\<lparr>sv_broker := b\<rparr>);
          s2 = put_leg leg1 s1
      in if needs_tracking bundle1
         then
           let bundle2 = bundle1\<lparr>pb_unresolved_cycles := pb_unresolved_cycles bundle1 + 1\<rparr>
           in if INCOMPLETE_CYCLE_CANCEL_THRESHOLD \<le> pb_unresolved_cycles bundle2
              then
                let s3 = cancel_open_orders bk (pb_symbol bundle) (Bracket_cancelled (pb_strategy_id bundle)) s2;
                    filled = bundle_filled_qty bundle2; requested = bundle_requested_qty bundle2;
                    s4 = sv_emit (Residual_abandoned (pb_strategy_id bundle) (max (requested - filled) 0)
                           (if 0 < requested then filled / requested else 0)) s3
                in s4\<lparr>sv_pending := AList.delete key (sv_pending s4)\<rparr>
              else s2\<lparr>sv_pending := AList.update key bundle2 (sv_pending s2)\<rparr>
         else s2\<lparr>sv_pending := AList.delete key (sv_pending s2)\<rparr>)"

definition advance_step :: "'b fill_broker \<Rightarrow> instant \<Rightarrow> 'b sieve \<Rightarrow> string \<times> pending_bundle \<Rightarrow> 'b sieve" where
  "advance_step bk now s item =
     (case item of (key, bundle) \<Rightarrow>
        case map_of (sv_legs s) (pb_strategy_id bundle) of
          None \<Rightarrow> s\<lparr>sv_pending := AList.delete key (sv_pending s)\<rparr>
        | Some leg \<Rightarrow> advance_bundle bk now leg bundle s)"

definition advance_pending_cycles :: "'b fill_broker \<Rightarrow> instant \<Rightarrow> 'b sieve \<Rightarrow> 'b sieve" where
  "advance_pending_cycles bk now s = foldl (advance_step bk now) s (sv_pending s)"

section \<open>What the operations leave alone\<close>

lemma fetch_frame [simp]:
  "sv_pending (fst (fetch_positions bk s)) = sv_pending s" "sv_legs (fst (fetch_positions bk s)) = sv_legs s"
  by (simp_all add: fetch_positions_def split: prod.splits)

lemma cancel_frame [simp]:
  "sv_pending (cancel_open_orders bk y ev s) = sv_pending s" "sv_legs (cancel_open_orders bk y ev s) = sv_legs s"
  by (simp_all add: cancel_open_orders_def sv_emit_def Let_def split: prod.splits)

lemma emit_frame [simp]:
  "sv_pending (sv_emit e s) = sv_pending s" "sv_legs (sv_emit e s) = sv_legs s" "sv_broker (sv_emit e s) = sv_broker s"
  by (simp_all add: sv_emit_def)

lemma put_leg_frame [simp]: "sv_pending (put_leg l s) = sv_pending s" "sv_broker (put_leg l s) = sv_broker s"
  by (simp_all add: put_leg_def)

lemma reconciled_bars_nonneg: "0 \<le> pr_bars_in_trade (reconcile_broker_primary_fill q r prior current bars)"
  by (simp add: reconcile_broker_primary_fill_def Let_def le_max_iff_disj split: option.split)

lemma authority_step_shape:
  "\<exists>s1 leg1 prior1. authority_step bk orders current (s, leg, prior) r = (s1, leg1, prior1)
     \<and> (s1 = s \<or> (\<exists>ev. s1 = cancel_open_orders bk (sl_symbol leg) ev s))
     \<and> (leg1 = leg \<or> (\<exists>n\<ge>0. leg1 = leg\<lparr>sl_bars_in_trade := n\<rparr>))"
proof (cases "res_filled_price r \<le> 0 \<and> res_qty r \<le> 0 \<and> str_lower (res_status r) \<notin> set TERMINAL_ORDER_STATUSES")
  case True
  then show ?thesis by (simp add: authority_step_def)
next
  case False
  define recon where "recon = reconcile_broker_primary_fill
    (case map_of (order_lookup orders) (order_key (res_symbol r) (res_side r)) of
       None \<Rightarrow> res_qty r | Some q \<Rightarrow> ord_qty q) r prior current (sl_bars_in_trade leg)"
  have "authority_step bk orders current (s, leg, prior) r =
    (if pr_is_partial recon \<and> EPS < pr_residual_qty recon
     then cancel_open_orders bk (sl_symbol leg) (Bracket_adjusted (sl_strategy_id leg)) s else s,
     leg\<lparr>sl_bars_in_trade := pr_bars_in_trade recon\<rparr>, current)"
    using False unfolding authority_step_def Let_def prod.case recon_def [symmetric] by (simp only: if_False)
  then show ?thesis
    using reconciled_bars_nonneg [folded recon_def] unfolding recon_def by (auto intro: reconciled_bars_nonneg)
qed

lemma authority_step_frame:
  assumes "authority_step bk orders current (s, leg, prior) r = (s', leg', prior')"
  shows "sv_pending s' = sv_pending s" "sv_legs s' = sv_legs s"
    "sl_strategy_id leg' = sl_strategy_id leg" "sl_symbol leg' = sl_symbol leg"
    "0 \<le> sl_bars_in_trade leg \<Longrightarrow> 0 \<le> sl_bars_in_trade leg'"
  using assms authority_step_shape [of bk orders current s leg prior r] by auto

lemma authority_fold_frame:
  assumes "foldl (authority_step bk orders current) (s, leg, prior) rs = (s', leg', prior')"
  shows "sv_pending s' = sv_pending s \<and> sv_legs s' = sv_legs s
    \<and> sl_strategy_id leg' = sl_strategy_id leg \<and> sl_symbol leg' = sl_symbol leg
    \<and> (0 \<le> sl_bars_in_trade leg \<longrightarrow> 0 \<le> sl_bars_in_trade leg')"
  using assms
proof (induction rs arbitrary: s leg prior)
  case (Cons r rs)
  obtain s1 leg1 prior1 where st: "authority_step bk orders current (s, leg, prior) r = (s1, leg1, prior1)"
    by (cases "authority_step bk orders current (s, leg, prior) r") auto
  with Cons.prems have "foldl (authority_step bk orders current) (s1, leg1, prior1) rs = (s', leg', prior')" by simp
  from Cons.IH [OF this] authority_step_frame [OF st] show ?case by simp
qed simp

text \<open>
  After the reconciliation the leg's memory agrees with the positions returned; the bundles
  and the other legs are untouched.
\<close>

lemma authority_effect:
  assumes "apply_broker_authority bk orders rs before leg s = (s', leg', ps)"
  shows "sv_pending s' = sv_pending s" "sv_legs s' = sv_legs s"
    "sl_strategy_id leg' = sl_strategy_id leg" "sl_symbol leg' = sl_symbol leg"
    "0 \<le> sl_bars_in_trade leg \<Longrightarrow> match_position (sl_symbol leg) ps = None \<Longrightarrow> sl_bars_in_trade leg' = 0"
    "0 \<le> sl_bars_in_trade leg \<Longrightarrow> match_position (sl_symbol leg) ps = Some q \<Longrightarrow> EPS < \<bar>pos_qty q\<bar>
       \<Longrightarrow> 0 < sl_bars_in_trade leg'"
    "0 \<le> sl_bars_in_trade leg \<Longrightarrow> 0 \<le> sl_bars_in_trade leg'"
proof -
  obtain s0 ps0 where f: "fetch_positions bk s = (s0, ps0)" by (cases "fetch_positions bk s")
  let ?cur = "match_position (sl_symbol leg) ps0" and ?prior = "match_position (sl_symbol leg) before"
  obtain s1 leg1 prior1 where fold: "foldl (authority_step bk orders ?cur) (s0, leg, ?prior) rs = (s1, leg1, prior1)"
    by (cases "foldl (authority_step bk orders ?cur) (s0, leg, ?prior) rs") auto
  obtain s2 ps2 where f2: "fetch_positions bk s1 = (s2, ps2)" by (cases "fetch_positions bk s1")
  have eq: "(s', leg', ps) =
      (if detect_leg_broker_memory_drift (sl_bars_in_trade leg1) ?cur
       then let bars = apply_broker_authority_to_leg_memory (sl_bars_in_trade leg1)
                   (match_position (sl_symbol leg) ps2) ?prior
            in (sv_emit (Reconciled (sl_strategy_id leg) False bars) s2, leg1\<lparr>sl_bars_in_trade := bars\<rparr>, ps2)
       else (sv_emit (Reconciled (sl_strategy_id leg) True (sl_bars_in_trade leg1)) s1, leg1, ps0))"
    unfolding assms [symmetric] apply_broker_authority_def by (simp add: f fold f2 Let_def)
  note frame = authority_fold_frame [OF fold] fetch_frame [of bk s, unfolded f fst_conv]
    fetch_frame [of bk s1, unfolded f2 fst_conv]
  show "sv_pending s' = sv_pending s" "sv_legs s' = sv_legs s"
    "sl_strategy_id leg' = sl_strategy_id leg" "sl_symbol leg' = sl_symbol leg"
    using eq frame by (simp_all add: Let_def split: if_splits)
  show "0 \<le> sl_bars_in_trade leg \<Longrightarrow> match_position (sl_symbol leg) ps = None \<Longrightarrow> sl_bars_in_trade leg' = 0"
    "0 \<le> sl_bars_in_trade leg \<Longrightarrow> match_position (sl_symbol leg) ps = Some q \<Longrightarrow> EPS < \<bar>pos_qty q\<bar>
       \<Longrightarrow> 0 < sl_bars_in_trade leg'"
    "0 \<le> sl_bars_in_trade leg \<Longrightarrow> 0 \<le> sl_bars_in_trade leg'"
    using eq frame(1)
    by (auto simp: Let_def detect_leg_broker_memory_drift_def apply_broker_authority_to_leg_memory_def split: if_splits)
qed

section \<open>Bundles across cycles\<close>

definition bundle_ok :: "string \<Rightarrow> pending_bundle \<Rightarrow> bool" where
  "bundle_ok key b \<longleftrightarrow> key = bundle_key (pb_strategy_id b) (pb_symbol b)
     \<and> 0 \<le> pb_unresolved_cycles b \<and> pb_unresolved_cycles b < INCOMPLETE_CYCLE_CANCEL_THRESHOLD"

definition sieve_ok :: "'b sieve \<Rightarrow> bool" where
  "sieve_ok s \<longleftrightarrow> dict_ok (sv_pending s) \<and> (\<forall>key b. map_of (sv_pending s) key = Some b \<longrightarrow> bundle_ok key b)"

text \<open>A bundle after one advance: resolved, abandoned, or one cycle older.\<close>

definition aged :: "pending_bundle \<Rightarrow> pending_bundle option \<Rightarrow> bool" where
  "aged b r = (case r of None \<Rightarrow> True
     | Some b' \<Rightarrow> pb_strategy_id b' = pb_strategy_id b \<and> pb_symbol b' = pb_symbol b
         \<and> pb_unresolved_cycles b' = pb_unresolved_cycles b + 1
         \<and> pb_unresolved_cycles b' < INCOMPLETE_CYCLE_CANCEL_THRESHOLD)"

lemma advance_bundle_pending:
  "\<exists>r. aged b r \<and> (\<forall>k. map_of (sv_pending (advance_bundle bk now leg b s)) k =
      (if k = bundle_key (pb_strategy_id b) (pb_symbol b) then r else map_of (sv_pending s) k))
    \<and> (dict_ok (sv_pending s) \<longrightarrow> dict_ok (sv_pending (advance_bundle bk now leg b s)))"
proof -
  let ?os = "map (slice_order b) (pb_slices b)"
  obtain b1 rs where r: "refresh_slices bk (zip ?os (map (slice_result b leg now) (pb_slices b))) (sv_broker s) = (b1, rs)"
    by (cases "refresh_slices bk (zip ?os (map (slice_result b leg now) (pb_slices b))) (sv_broker s)")
  obtain s1 leg1 ps where a: "apply_broker_authority bk ?os rs (pb_positions_before b) leg (s\<lparr>sv_broker := b1\<rparr>) = (s1, leg1, ps)"
    by (cases "apply_broker_authority bk ?os rs (pb_positions_before b) leg (s\<lparr>sv_broker := b1\<rparr>)") auto
  have p: "sv_pending s1 = sv_pending s" using authority_effect(1) [OF a] by simp
  let ?b2 = "b\<lparr>pb_slices := build_slices ?os rs, pb_unresolved_cycles := pb_unresolved_cycles b + 1\<rparr>"
  let ?r = "if needs_tracking (b\<lparr>pb_slices := build_slices ?os rs\<rparr>)
      \<and> pb_unresolved_cycles b + 1 < INCOMPLETE_CYCLE_CANCEL_THRESHOLD then Some ?b2 else None"
  have "aged b ?r" by (simp add: aged_def)
  moreover have "sv_pending (advance_bundle bk now leg b s) =
      (if ?r = None then AList.delete (bundle_key (pb_strategy_id b) (pb_symbol b)) (sv_pending s)
       else AList.update (bundle_key (pb_strategy_id b) (pb_symbol b)) ?b2 (sv_pending s))"
    unfolding advance_bundle_def Let_def by (simp add: r a p)
  ultimately show ?thesis
    by (intro exI [of _ ?r]) (auto simp: distinct_update distinct_delete)
qed

lemma advance_step_pending:
  assumes "bundle_ok key b"
  shows "\<exists>r. aged b r \<and> (\<forall>k. map_of (sv_pending (advance_step bk now s (key, b))) k =
      (if k = key then r else map_of (sv_pending s) k))
    \<and> (dict_ok (sv_pending s) \<longrightarrow> dict_ok (sv_pending (advance_step bk now s (key, b))))"
proof (cases "map_of (sv_legs s) (pb_strategy_id b)")
  case None
  then show ?thesis
    by (intro exI [of _ None]) (simp add: advance_step_def aged_def distinct_delete)
next
  case (Some leg)
  then show ?thesis
    using advance_bundle_pending [of b bk now leg s] assms by (simp add: advance_step_def bundle_ok_def)
qed

lemma advance_fold_pending:
  assumes "distinct (map fst items)" and "\<forall>(key, b)\<in>set items. bundle_ok key b"
  shows "(\<forall>k. k \<notin> fst ` set items \<longrightarrow>
        map_of (sv_pending (foldl (advance_step bk now) s items)) k = map_of (sv_pending s) k)
    \<and> (\<forall>(key, b)\<in>set items. aged b (map_of (sv_pending (foldl (advance_step bk now) s items)) key))
    \<and> (dict_ok (sv_pending s) \<longrightarrow> dict_ok (sv_pending (foldl (advance_step bk now) s items)))"
  using assms
proof (induction items arbitrary: s)
  case (Cons item items)
  obtain key b where kb: "item = (key, b)" by (cases item)
  let ?s = "advance_step bk now s (key, b)"
  obtain r where r: "aged b r" "\<And>k. map_of (sv_pending ?s) k = (if k = key then r else map_of (sv_pending s) k)"
    "dict_ok (sv_pending s) \<longrightarrow> dict_ok (sv_pending ?s)"
    using advance_step_pending [of key b bk now s] Cons.prems kb by auto
  have IH: "(\<forall>k. k \<notin> fst ` set items \<longrightarrow>
        map_of (sv_pending (foldl (advance_step bk now) ?s items)) k = map_of (sv_pending ?s) k)
    \<and> (\<forall>(key, b)\<in>set items. aged b (map_of (sv_pending (foldl (advance_step bk now) ?s items)) key))
    \<and> (dict_ok (sv_pending ?s) \<longrightarrow> dict_ok (sv_pending (foldl (advance_step bk now) ?s items)))"
    using Cons.prems by (intro Cons.IH) simp_all
  have "key \<notin> fst ` set items" using Cons.prems(1) kb by simp
  with IH r show ?case unfolding kb by (auto simp: image_iff)
qed simp

lemma advance_all:
  assumes "sieve_ok s"
  shows "sieve_ok (advance_pending_cycles bk now s)"
    and "map_of (sv_pending (advance_pending_cycles bk now s)) key = Some b' \<Longrightarrow>
      \<exists>b. map_of (sv_pending s) key = Some b \<and> pb_unresolved_cycles b' = pb_unresolved_cycles b + 1"
proof -
  let ?s = "advance_pending_cycles bk now s"
  have d: "distinct (map fst (sv_pending s))" and ok: "\<forall>(key, b)\<in>set (sv_pending s). bundle_ok key b"
    using assms by (auto simp: sieve_ok_def map_of_eq_Some_iff)
  note f = advance_fold_pending [OF d ok, of bk now s, folded advance_pending_cycles_def]
  have old: "\<exists>b. map_of (sv_pending s) k = Some b \<and> bundle_ok k b \<and> aged b (Some b')"
    if "map_of (sv_pending ?s) k = Some b'" for k b'
  proof -
    have "k \<in> fst ` set (sv_pending s)"
      using f that by (metis map_of_eq_None_iff option.distinct(1) image_set)
    then obtain b where "(k, b) \<in> set (sv_pending s)" by auto
    then show ?thesis using f ok that d by (intro exI [of _ b]) (auto simp: map_of_eq_Some_iff)
  qed
  show "sieve_ok ?s"
    unfolding sieve_ok_def
    using f d old by (force simp: bundle_ok_def aged_def)
  show "\<exists>b. map_of (sv_pending s) key = Some b \<and> pb_unresolved_cycles b' = pb_unresolved_cycles b + 1"
    if "map_of (sv_pending ?s) key = Some b'"
    using old [OF that] by (auto simp: aged_def)
qed

section \<open>Operations as steps\<close>

datatype sieve_op =
    Post_submit sieve_leg "order list" "order_result list" "position list"
  | Ioc_submit sieve_leg "order list" "order_result list" "position list" pyfloat
  | Advance instant

fun sieve_step :: "'b fill_broker \<Rightarrow> 'b sieve \<Rightarrow> sieve_op \<Rightarrow> 'b sieve" where
  "sieve_step bk s (Post_submit leg orders results before) = fst (reconcile_post_submit bk leg orders results before s)"
| "sieve_step bk s (Ioc_submit leg orders results before residual) =
     fst (register_ioc_residual bk leg orders results before residual s)"
| "sieve_step bk s (Advance now) = advance_pending_cycles bk now s"

lemma bundle_ok_new: "bundle_ok (bundle_key sid y) (bundle_from_submission sid y orders rs before)"
  by (simp add: bundle_ok_def bundle_key_def bundle_from_submission_def INCOMPLETE_CYCLE_CANCEL_THRESHOLD_def)

lemma sieve_ok_update:
  "sieve_ok s \<Longrightarrow> sv_pending s' = AList.update key b (sv_pending s) \<Longrightarrow> bundle_ok key b \<Longrightarrow> sieve_ok s'"
  by (auto simp: sieve_ok_def distinct_update)

lemma sieve_ok_delete: "sieve_ok s \<Longrightarrow> sv_pending s' = AList.delete key (sv_pending s) \<Longrightarrow> sieve_ok s'"
  by (auto simp: sieve_ok_def distinct_delete)

text \<open>What a submission does to the bundles: only its own key changes.\<close>

lemma post_submit_pending:
  assumes "results \<noteq> []"
    and "refreshed = snd (fbk_short_burst_refresh bk orders results (sv_broker s))"
  shows "let b = bundle_from_submission (sl_strategy_id leg) (sl_symbol leg) orders refreshed before;
             key = bundle_key (sl_strategy_id leg) (sl_symbol leg);
             s' = fst (reconcile_post_submit bk leg orders results before s);
             si = fst (register_ioc_residual bk leg orders results before residual s)
         in sv_pending s' = (if needs_tracking b then AList.update key b (sv_pending s)
                             else AList.delete key (sv_pending s))
            \<and> (EPS < residual \<longrightarrow> sv_pending si = AList.update key b (sv_pending s))"
proof -
  obtain bs where b: "fbk_short_burst_refresh bk orders results (sv_broker s) = (bs, refreshed)"
    using assms(2) by (cases "fbk_short_burst_refresh bk orders results (sv_broker s)") auto
  obtain s1 leg1 ps where a: "apply_broker_authority bk orders refreshed before leg (s\<lparr>sv_broker := bs\<rparr>) = (s1, leg1, ps)"
    by (cases "apply_broker_authority bk orders refreshed before leg (s\<lparr>sv_broker := bs\<rparr>)") auto
  have "sv_pending s1 = sv_pending s" using authority_effect(1) [OF a] by simp
  then show ?thesis
    using assms(1) by (simp add: reconcile_post_submit_def register_ioc_residual_def b a Let_def)
qed

lemma sieve_ok_step:
  assumes "sieve_ok s"
  shows "sieve_ok (sieve_step bk s op)"
proof (cases op)
  case (Post_submit leg orders results before)
  then show ?thesis
    using assms post_submit_pending [OF _ refl, where results = results and bk = bk and orders = orders and s = s
        and leg = leg and before = before and residual = 0]
      sieve_ok_update [OF assms _ bundle_ok_new] sieve_ok_delete [OF assms]
    by (cases "results = []") (auto simp: reconcile_post_submit_def Let_def split: if_splits)
next
  case (Ioc_submit leg orders results before residual)
  then show ?thesis
    using assms post_submit_pending [OF _ refl, where results = results and bk = bk and orders = orders and s = s
        and leg = leg and before = before and residual = residual]
      sieve_ok_update [OF assms _ bundle_ok_new]
    by (cases "results = [] \<or> residual \<le> EPS") (auto simp: register_ioc_residual_def Let_def)
next
  case (Advance now)
  then show ?thesis using advance_all(1) [OF assms] by simp
qed

interpretation sieve: invariant_machine "sieve_step bk" sieve_ok for bk
  by unfold_locales (rule sieve_ok_step)

lemma advances_age:
  assumes "sieve_ok s"
    and "map_of (sv_pending (foldl (sieve_step bk) s (map Advance ts))) key = Some b"
  shows "int (length ts) \<le> pb_unresolved_cycles b"
proof -
  have "\<exists>b0. map_of (sv_pending s) key = Some b0 \<and> pb_unresolved_cycles b = pb_unresolved_cycles b0 + int (length ts)"
    using assms
  proof (induction ts arbitrary: s)
    case (Cons t ts)
    then show ?case
      using advance_all(1) [OF Cons.prems(1), of bk t] advance_all(2) [OF Cons.prems(1), of bk t key]
      by fastforce
  qed simp
  then show ?thesis using assms(1) by (auto simp: sieve_ok_def bundle_ok_def)
qed

section \<open>Complete fills\<close>

definition distinct_orders :: "order list \<Rightarrow> bool" where
  "distinct_orders orders = distinct (map (\<lambda>q. order_key (ord_symbol q) (ord_side q)) orders)"

lemma order_lookup_foldl:
  "map_of (foldl (\<lambda>d q. AList.update (order_key (ord_symbol q) (ord_side q)) q d) d0 orders) k
     = (case List.find (\<lambda>q. order_key (ord_symbol q) (ord_side q) = k) (rev orders) of
          Some q \<Rightarrow> Some q | None \<Rightarrow> map_of d0 k)"
  by (induction orders rule: rev_induct) auto

lemma order_lookup_distinct:
  assumes "distinct_orders orders" and "q \<in> set orders"
  shows "map_of (order_lookup orders) (order_key (ord_symbol q) (ord_side q)) = Some q"
proof -
  have "List.find (\<lambda>x. order_key (ord_symbol x) (ord_side x) = order_key (ord_symbol q) (ord_side q)) (rev orders) = Some q"
  proof (cases "List.find (\<lambda>x. order_key (ord_symbol x) (ord_side x) = order_key (ord_symbol q) (ord_side q)) (rev orders)")
    case None
    then show ?thesis using assms(2) by (auto simp: find_None_iff)
  next
    case (Some x)
    then have "x \<in> set orders" "order_key (ord_symbol x) (ord_side x) = order_key (ord_symbol q) (ord_side q)"
      by (auto simp: find_Some_iff) (metis length_rev nth_mem set_rev)
    then show ?thesis
      using assms Some unfolding distinct_orders_def by (metis (mono_tags, lifting) distinct_map inj_onD)
  qed
  then show ?thesis unfolding order_lookup_def order_lookup_foldl by simp
qed

text \<open>The result reports its order as completely filled.\<close>

definition fully_filled :: "order \<Rightarrow> order_result \<Rightarrow> bool" where
  "fully_filled q r \<longleftrightarrow> res_symbol r = ord_symbol q \<and> res_side r = ord_side q
     \<and> str_lower (res_status r) = ''filled'' \<and> ord_qty q \<le> res_qty r \<and> 0 \<le> res_qty r"

lemma fully_filled_slice:
  assumes "distinct_orders orders" and "q \<in> set orders" and "fully_filled q r"
  shows "map_of (order_lookup orders) (order_key (res_symbol r) (res_side r)) = Some q"
    and "str_lower (or_default (res_status r) ''submitted'') = ''filled''" and "max (res_qty r) 0 = res_qty r"
  using assms order_lookup_distinct [OF assms(1,2)]
  by (auto simp: fully_filled_def or_default_def str_lower_def)

lemma filled_status_closed: "''filled'' \<notin> set OPEN_ORDER_STATUSES" "str_lower ''filled'' = ''filled''"
  by code_simp+

lemma complete_fills_settled:
  assumes "distinct_orders orders" and "set qs \<subseteq> set orders" and "list_all2 fully_filled qs rs"
  shows "sum_list (map (\<lambda>s. max (cs_requested_qty s) 0) (build_slices orders rs))
      \<le> sum_list (map (\<lambda>s. max (cs_filled_qty s) 0) (build_slices orders rs))
    \<and> list_all (\<lambda>s. cs_status s = ''filled'' \<and> cs_requested_qty s \<le> cs_filled_qty s) (build_slices orders rs)"
  using assms(3,2)
proof (induction rule: list_all2_induct)
  case (Cons q qs r rs)
  note sl = fully_filled_slice [OF assms(1) _ Cons.hyps(1)]
  have "max (ord_qty q) 0 \<le> max (res_qty r) 0" using Cons.hyps(1) by (auto simp: fully_filled_def)
  then show ?case
    using Cons.IH Cons.prems Cons.hyps(1) sl by (auto simp: build_slices_def Let_def fully_filled_def)
qed (simp add: build_slices_def)

lemma complete_not_tracked:
  assumes "distinct_orders orders" and "list_all2 fully_filled orders rs"
  shows "\<not> needs_tracking (bundle_from_submission sid y orders rs before)"
proof -
  note c = complete_fills_settled [OF assms(1) subset_refl assms(2)]
  have pos: "0 \<le> EPS" by (simp add: EPS_def)
  then have "\<not> list_ex (\<lambda>s. str_lower (cs_status s) \<in> set OPEN_ORDER_STATUSES) (build_slices orders rs)"
    "\<not> list_ex (\<lambda>s. str_lower (cs_status s) = ''partially_filled''
       \<or> 0 < cs_requested_qty s \<and> cs_filled_qty s + EPS < cs_requested_qty s) (build_slices orders rs)"
    using c filled_status_closed by (fastforce simp: list_ex_iff list_all_iff)+
  then show ?thesis
    using c pos
    by (simp add: needs_tracking_def bundle_from_submission_def bundle_filled_qty_def bundle_requested_qty_def)
qed

lemma complete_no_cancel:
  assumes "distinct_orders orders" and "set qs \<subseteq> set orders" and "list_all2 fully_filled qs rs"
  shows "fst (foldl (authority_step bk orders current) (s, leg, prior) rs) = s"
  using assms(3,2)
proof (induction arbitrary: leg prior rule: list_all2_induct)
  case (Cons q qs r rs)
  note sl = fully_filled_slice [OF assms(1) _ Cons.hyps(1)]
  have "\<not> (ord_qty q > 0 \<and> max (res_qty r) 0 + EPS < max (ord_qty q) 0)" "str_lower (res_status r) = ''filled''"
    using Cons.hyps(1) by (auto simp: fully_filled_def EPS_def)
  then have "fst (authority_step bk orders current (s, leg, prior) r) = s"
    using sl Cons.prems
    by (auto simp: authority_step_def Let_def reconcile_broker_primary_fill_def EPS_def max_def)
  then obtain leg1 prior1 where "authority_step bk orders current (s, leg, prior) r = (s, leg1, prior1)"
    by (cases "authority_step bk orders current (s, leg, prior) r") auto
  with Cons.IH [of leg1 prior1] Cons.prems show ?case by simp
qed simp

section \<open>Properties\<close>

text \<open>
  No fill is tracked for ever: after any history of submissions and advances against any
  broker, three further advances leave no bundle, and every bundle in between has been open
  for less than three cycles; so every partial fill is settled or reported as abandoned.
\<close>

theorem bundles_expire:
  assumes "sv_pending s0 = []" and "s = foldl (sieve_step bk) s0 ops"
  shows "sv_pending (foldl (sieve_step bk) s [Advance t1, Advance t2, Advance t3]) = []
    \<and> (\<forall>key b. map_of (sv_pending s) key = Some b \<longrightarrow> pb_unresolved_cycles b < 3)"
proof -
  have ok: "sieve_ok s" unfolding assms(2) by (rule sieve.inv_run) (simp add: sieve_ok_def assms(1))
  let ?e = "foldl (sieve_step bk) s (map Advance [t1, t2, t3])"
  have "sieve_ok ?e" by (rule sieve.inv_run [OF ok])
  then have young: "pb_unresolved_cycles b < 3" if "map_of (sv_pending ?e) key = Some b" for key b
    using that unfolding sieve_ok_def bundle_ok_def INCOMPLETE_CYCLE_CANCEL_THRESHOLD_def by blast
  have "map_of (sv_pending ?e) key = None" for key
  proof (rule ccontr)
    assume "map_of (sv_pending ?e) key \<noteq> None"
    then obtain b where b: "map_of (sv_pending ?e) key = Some b" by blast
    show False using advances_age [OF ok b] young [OF b] by simp
  qed
  then have "sv_pending ?e = []" by (metis map_of_eq_empty_iff ext)
  moreover have "pb_unresolved_cycles b < 3" if "map_of (sv_pending s) key = Some b" for key b
    using ok that by (auto simp: sieve_ok_def bundle_ok_def INCOMPLETE_CYCLE_CANCEL_THRESHOLD_def)
  ultimately show ?thesis by simp
qed

text \<open>A broker whose state is its positions and the symbols it was asked to cancel, and which
  reports every order as it stands.\<close>

definition demo_fill_broker :: "(position list \<times> string list) fill_broker" where
  "demo_fill_broker =
     \<lparr>fbk_get_positions = (\<lambda>b. (b, fst b)),
      fbk_short_burst_refresh = (\<lambda>orders results b. (b, results)),
      fbk_refresh = (\<lambda>q r b. (b, r)),
      fbk_cancel_open_orders = (\<lambda>y b. ((fst b, snd b @ [y]), 1))\<rparr>"

definition demo_leg :: sieve_leg where
  "demo_leg = \<lparr>sl_strategy_id = ''mr'', sl_symbol = ''SPY'', sl_bars_in_trade = 0, sl_latest_ts = None\<rparr>"

definition demo_sieve :: "(position list \<times> string list) sieve" where
  "demo_sieve =
     \<lparr>sv_broker = ([\<lparr>pos_symbol = ''SPY'', pos_qty = 15, pos_side = ''long'', pos_avg_entry_price = 100,
                    pos_unrealized_pl = 0\<rparr>], []),
      sv_pending = [], sv_legs = [(''mr'', demo_leg)], sv_api_notes = 0, sv_events = []\<rparr>"

definition child_order :: "pyfloat \<Rightarrow> order" where
  "child_order qty =
     \<lparr>ord_symbol = ''SPY'', ord_side = BUY, ord_qty = qty, ord_order_type = ''market'', ord_stop_price = None,
      ord_strategy_id = ''mr'', ord_client_order_id = None\<rparr>"

definition child_result :: "string \<Rightarrow> string \<Rightarrow> pyfloat \<Rightarrow> order_result" where
  "child_result oid st qty =
     \<lparr>res_symbol = ''SPY'', res_side = BUY, res_qty = qty, res_filled_price = 100, res_filled_at = 0,
      res_order_id = Some oid, res_status = st\<rparr>"

theorem bundles_expire_witness:
  "let s = foldl (sieve_step demo_fill_broker) demo_sieve
         [Post_submit demo_leg [child_order 20] [child_result ''o1'' ''partially_filled'' 15] []]
   in sv_pending s \<noteq> []
      \<and> sv_pending (foldl (sieve_step demo_fill_broker) s [Advance 1, Advance 2, Advance 3]) = []"
proof -
  let ?ops = "[Post_submit demo_leg [child_order 20] [child_result ''o1'' ''partially_filled'' 15] []]"
  have "sv_pending (foldl (sieve_step demo_fill_broker) demo_sieve ?ops) \<noteq> []" by code_simp
  moreover have "sv_pending demo_sieve = []" by (simp add: demo_sieve_def)
  from bundles_expire [OF this refl, of demo_fill_broker ?ops 1 2 3]
  have "sv_pending (foldl (sieve_step demo_fill_broker) (foldl (sieve_step demo_fill_broker) demo_sieve ?ops)
      [Advance 1, Advance 2, Advance 3]) = []" by blast
  ultimately show ?thesis unfolding Let_def by blast
qed

text \<open>
  The broker is the authority on leg memory: whatever it answers, after a submission is
  reconciled the leg counts bars only if the positions the broker returned hold its symbol,
  and counts them whenever that position is more than dust; every other leg's memory and
  every other leg's bundle are unchanged.
\<close>

theorem leg_memory_follows_broker:
  assumes "results \<noteq> []" and "0 \<le> sl_bars_in_trade leg"
    and "reconcile_post_submit bk leg orders results before s = (s', ps)"
  shows "\<exists>leg'. map_of (sv_legs s') (sl_strategy_id leg) = Some leg'
    \<and> (case match_position (sl_symbol leg) ps of
         None \<Rightarrow> sl_bars_in_trade leg' = 0
       | Some q \<Rightarrow> EPS < \<bar>pos_qty q\<bar> \<longrightarrow> 0 < sl_bars_in_trade leg')
    \<and> (\<forall>sid. sid \<noteq> sl_strategy_id leg \<longrightarrow> map_of (sv_legs s') sid = map_of (sv_legs s) sid)
    \<and> (\<forall>key. key \<noteq> bundle_key (sl_strategy_id leg) (sl_symbol leg)
         \<longrightarrow> map_of (sv_pending s') key = map_of (sv_pending s) key)"
proof -
  obtain bs rs where b: "fbk_short_burst_refresh bk orders results (sv_broker s) = (bs, rs)"
    by (cases "fbk_short_burst_refresh bk orders results (sv_broker s)")
  obtain s1 leg1 ps1 where a: "apply_broker_authority bk orders rs before leg (s\<lparr>sv_broker := bs\<rparr>) = (s1, leg1, ps1)"
    by (cases "apply_broker_authority bk orders rs before leg (s\<lparr>sv_broker := bs\<rparr>)") auto
  note e = authority_effect [OF a]
  let ?key = "bundle_key (sl_strategy_id leg) (sl_symbol leg)"
  have "ps = ps1" "sv_legs s' = AList.update (sl_strategy_id leg) leg1 (sv_legs s)"
    "sv_pending s' = (if needs_tracking (bundle_from_submission (sl_strategy_id leg) (sl_symbol leg) orders rs before)
       then AList.update ?key (bundle_from_submission (sl_strategy_id leg) (sl_symbol leg) orders rs before) (sv_pending s)
       else AList.delete ?key (sv_pending s))"
    using assms(1,3) e(1-4) by (auto simp: reconcile_post_submit_def b a Let_def put_leg_def)
  then show ?thesis
    using e(5-6) assms(2) by (intro exI [of _ leg1]) (auto split: option.split)
qed

theorem leg_memory_follows_broker_witness:
  "\<exists>leg'. map_of (sv_legs (fst (reconcile_post_submit demo_fill_broker demo_leg [child_order 15]
        [child_result ''o1'' ''filled'' 15] [] demo_sieve))) ''mr'' = Some leg' \<and> 0 < sl_bars_in_trade leg'"
proof -
  let ?r = "reconcile_post_submit demo_fill_broker demo_leg [child_order 15] [child_result ''o1'' ''filled'' 15] [] demo_sieve"
  have ps: "map_option pos_qty (match_position (sl_symbol demo_leg) (snd ?r)) = Some 15" by code_simp
  then obtain q where "match_position (sl_symbol demo_leg) (snd ?r) = Some q" "pos_qty q = 15" by auto
  moreover have "0 \<le> sl_bars_in_trade demo_leg" "sl_strategy_id demo_leg = ''mr''" "EPS < 15"
    by (simp_all add: demo_leg_def EPS_def)
  moreover have "?r = (fst ?r, snd ?r)" by simp
  from leg_memory_follows_broker [OF _ _ this] calculation
  show ?thesis by (auto simp: split: option.splits)
qed

text \<open>
  A complete fill leaves the brackets alone: when the orders of a submission differ in
  symbol or side and the broker reports each of them filled in full, no bundle stays for the
  leg and the broker is asked for positions only, never to cancel an open order.
\<close>

theorem complete_fill_cancels_nothing:
  assumes "distinct_orders orders" and "results \<noteq> []"
    and "fbk_short_burst_refresh bk orders results (sv_broker s) = (b, refreshed)"
    and "list_all2 fully_filled orders refreshed"
    and "s' = fst (reconcile_post_submit bk leg orders results before s)"
  shows "\<not> has_pending_bundle_for_leg (sl_strategy_id leg) (sl_symbol leg) s'
    \<and> (let b1 = fst (fbk_get_positions bk b)
       in sv_broker s' = b1 \<or> sv_broker s' = fst (fbk_get_positions bk b1))"
proof -
  let ?t = "s\<lparr>sv_broker := b\<rparr>"
  obtain s1 leg1 ps where a: "apply_broker_authority bk orders refreshed before leg ?t = (s1, leg1, ps)"
    by (cases "apply_broker_authority bk orders refreshed before leg ?t") auto
  have s': "sv_broker s' = sv_broker s1" "map_of (sv_pending s') (bundle_key (sl_strategy_id leg) (sl_symbol leg)) = None"
    using assms(2,5) complete_not_tracked [OF assms(1,4)]
    by (simp_all add: reconcile_post_submit_def assms(3) a Let_def)
  have br: "sv_broker (fst (fetch_positions bk x)) = fst (fbk_get_positions bk (sv_broker x))" for x
    by (simp add: fetch_positions_def split: prod.split)
  obtain s0 ps0 where f: "fetch_positions bk ?t = (s0, ps0)" by (cases "fetch_positions bk ?t")
  let ?cur = "match_position (sl_symbol leg) ps0"
  obtain leg2 prior2 where fold:
    "foldl (authority_step bk orders ?cur) (s0, leg, match_position (sl_symbol leg) before) refreshed = (s0, leg2, prior2)"
    using complete_no_cancel [OF assms(1) subset_refl assms(4), of bk ?cur s0 leg "match_position (sl_symbol leg) before"]
    by (cases "foldl (authority_step bk orders ?cur) (s0, leg, match_position (sl_symbol leg) before) refreshed") auto
  have "sv_broker s1 = sv_broker s0 \<or> sv_broker s1 = sv_broker (fst (fetch_positions bk s0))"
    using a unfolding apply_broker_authority_def
    by (auto simp: f fold Let_def split: if_splits prod.splits)
  then show ?thesis
    using s' br [of ?t] br [of s0] f by (auto simp: has_pending_bundle_for_leg_def Let_def)
qed

theorem complete_fill_cancels_nothing_witness:
  "snd (sv_broker (fst (reconcile_post_submit demo_fill_broker demo_leg [child_order 15]
      [child_result ''o1'' ''filled'' 15] [] demo_sieve))) = []"
proof -
  have "distinct_orders [child_order 15]" by (simp add: distinct_orders_def)
  moreover have "fbk_short_burst_refresh demo_fill_broker [child_order 15] [child_result ''o1'' ''filled'' 15]
      (sv_broker demo_sieve) = (sv_broker demo_sieve, [child_result ''o1'' ''filled'' 15])"
    by (simp add: demo_fill_broker_def)
  moreover have "list_all2 fully_filled [child_order 15] [child_result ''o1'' ''filled'' 15]"
    using filled_status_closed(2) by (simp add: fully_filled_def child_order_def child_result_def)
  ultimately show ?thesis
    using complete_fill_cancels_nothing [of "[child_order 15]" "[child_result ''o1'' ''filled'' 15]"
      demo_fill_broker demo_sieve "sv_broker demo_sieve" "[child_result ''o1'' ''filled'' 15]" _ demo_leg "[]"]
    by (auto simp: demo_fill_broker_def demo_sieve_def)
qed

section \<open>What the code does beside its comments\<close>

text \<open>
  The slices of a submission are matched to orders by symbol and side alone: of two child
  orders on one side both slices get the quantity of the last order. A parent order of 5 and
  10, both filled in full, is tracked as incomplete, its open orders (the protective bracket)
  are cancelled twice and once more when the bundle is abandoned as underweight.
\<close>

lemma child_slices_share_last_quantity:
  "let s = foldl (sieve_step demo_fill_broker) demo_sieve
        [Post_submit demo_leg [child_order 5, child_order 10]
           [child_result ''o1'' ''filled'' 5, child_result ''o2'' ''filled'' 10] []]
   in has_pending_bundle_for_leg ''mr'' ''SPY'' s \<and> snd (sv_broker s) = [''SPY'']
      \<and> last (sv_events (foldl (sieve_step demo_fill_broker) s [Advance 1, Advance 2, Advance 3]))
          = Residual_abandoned ''mr'' 5 (3 / 4)"
  by code_simp

text \<open>A position of dust keeps the memory in drift: the leg counts a bar for it at every call.\<close>

lemma dust_position_stays_in_drift:
  assumes "broker_position = Some q" and "\<bar>pos_qty q\<bar> \<le> EPS" and "0 < bars"
  shows "detect_leg_broker_memory_drift bars broker_position"
    and "detect_leg_broker_memory_drift (apply_broker_authority_to_leg_memory bars broker_position prior) broker_position"
  using assms by (auto simp: detect_leg_broker_memory_drift_def apply_broker_authority_to_leg_memory_def)

end
