(* ===== verification/Telemetry_Gate.thy ===== *)
theory Telemetry_Gate
  imports Models
begin

text \<open>
  The capital gate fed by broker telemetry (\<open>src/engine/telemetry_gate.py\<close>): the reject
  storm, the margin alert, the emergency they raise and how it is lifted. The risk manager
  (\<open>src/router/risk_manager.py\<close>) is not part of the repository: its state, its cycle reset,
  its capital snapshot, the two utilisation measures and the three thresholds are parameters.
  The monotonic clock is read once per call.
\<close>

section \<open>The risk manager's interface\<close>

record capital_view =
  cv_margin_utilization :: pyfloat
  cv_buying_power_per_leg :: pyfloat
  cv_api_budget_remaining :: int

record 'r risk_port =
  rp_reset :: "account \<Rightarrow> int \<Rightarrow> 'r \<Rightarrow> 'r"
  rp_capital :: "'r \<Rightarrow> capital_view option"
  rp_margin :: "account \<Rightarrow> pyfloat"
  rp_fragmentation :: "account \<Rightarrow> int \<Rightarrow> pyfloat"
  rp_margin_ceiling :: pyfloat
  rp_fragmentation_floor :: pyfloat
  rp_api_low_watermark :: int

section \<open>State\<close>

definition REJECT_STORM_WINDOW_SECONDS :: pyfloat where "REJECT_STORM_WINDOW_SECONDS = 120"
definition REJECT_STORM_THRESHOLD :: nat where "REJECT_STORM_THRESHOLD = 3"
definition MARGIN_ALERT_UTILIZATION :: pyfloat where "MARGIN_ALERT_UTILIZATION = 85 / 100"
definition EMERGENCY_POSITION_MULT :: pyfloat where "EMERGENCY_POSITION_MULT = 35 / 100"
definition EMERGENCY_BLOCK_ENTRIES_MULT :: pyfloat where "EMERGENCY_BLOCK_ENTRIES_MULT = 0"
definition REJECT_STORM_POSITION_MULT :: pyfloat where "REJECT_STORM_POSITION_MULT = 50 / 100"

record gate_snapshot =
  gs_margin_utilization :: pyfloat
  gs_buying_power_per_leg :: pyfloat
  gs_api_budget_remaining :: int
  gs_connectivity_ok :: bool
  gs_reject_count_window :: nat
  gs_constraint_active :: bool
  gs_emergency_active :: bool
  gs_position_size_multiplier :: pyfloat
  gs_block_new_entries :: bool
  gs_reason :: string

record emergency_signal =
  sg_emergency_active :: bool
  sg_position_size_multiplier :: pyfloat
  sg_block_new_entries :: bool
  sg_reason :: string
  sg_snapshot :: gate_snapshot

record 'r capital_gate =
  cg_risk_manager :: 'r
  cg_leg_count :: int
  cg_connectivity_ok :: bool
  cg_reject_timestamps :: "pyfloat list"
  cg_emergency_active :: bool
  cg_emergency_reason :: string
  cg_position_size_multiplier :: pyfloat
  cg_block_new_entries :: bool
  cg_last_account :: "account option"

definition new_gate :: "'r \<Rightarrow> int \<Rightarrow> 'r capital_gate" where
  "new_gate r n =
     \<lparr>cg_risk_manager = r, cg_leg_count = n, cg_connectivity_ok = True, cg_reject_timestamps = [],
      cg_emergency_active = False, cg_emergency_reason = [], cg_position_size_multiplier = 1,
      cg_block_new_entries = False, cg_last_account = None\<rparr>"

text \<open>A broker update: an account that is one, or the two numbers reported without it.\<close>

record broker_update =
  bu_event :: "string option"
  bu_account :: "account option"
  bu_margin_utilization :: "pyfloat option"
  bu_buying_power_per_leg :: "pyfloat option"
  bu_connectivity_ok :: "bool option"
  bu_leg_count :: "int option"
  bu_reason :: "string option"
  bu_reject_reason :: "string option"

definition empty_update :: broker_update where
  "empty_update =
     \<lparr>bu_event = None, bu_account = None, bu_margin_utilization = None, bu_buying_power_per_leg = None,
      bu_connectivity_ok = None, bu_leg_count = None, bu_reason = None, bu_reject_reason = None\<rparr>"

section \<open>Operations\<close>

definition activate_emergency :: "string \<Rightarrow> pyfloat \<Rightarrow> bool \<Rightarrow> 'r capital_gate \<Rightarrow> 'r capital_gate" where
  "activate_emergency reason position_mult block_entries g =
     g\<lparr>cg_emergency_active := True, cg_emergency_reason := reason,
       cg_position_size_multiplier := min (cg_position_size_multiplier g) position_mult,
       cg_block_new_entries := (cg_block_new_entries g \<or> block_entries)\<rparr>"

definition prune_reject_window :: "pyfloat \<Rightarrow> 'r capital_gate \<Rightarrow> 'r capital_gate \<times> nat" where
  "prune_reject_window now g =
     (let kept = dropWhile (\<lambda>t. t < now - REJECT_STORM_WINDOW_SECONDS) (cg_reject_timestamps g)
      in (g\<lparr>cg_reject_timestamps := kept\<rparr>, length kept))"

definition lift_emergency :: "'r capital_gate \<Rightarrow> 'r capital_gate" where
  "lift_emergency g =
     g\<lparr>cg_emergency_active := False, cg_position_size_multiplier := 1, cg_block_new_entries := False,
       cg_emergency_reason := []\<rparr>"

text \<open>The three-way branch on the reject count, and the milder cap of a constraint.\<close>

definition decide_emergency :: "bool \<Rightarrow> string \<Rightarrow> pyfloat \<Rightarrow> nat \<Rightarrow> 'r capital_gate \<Rightarrow> 'r capital_gate" where
  "decide_emergency storm event margin_util reject_count g =
     (if storm then activate_emergency ''reject_storm'' REJECT_STORM_POSITION_MULT True g
      else if event = ''account_sync'' \<and> margin_util < MARGIN_ALERT_UTILIZATION
        \<and> reject_count < REJECT_STORM_THRESHOLD \<and> cg_emergency_active g
        \<and> cg_emergency_reason g \<in> {''margin_alert'', ''reject_storm''} then lift_emergency g
      else if event \<noteq> ''order_reject'' \<and> \<not> cg_emergency_active g
      then g\<lparr>cg_position_size_multiplier := 1, cg_block_new_entries := False, cg_emergency_reason := []\<rparr>
      else g)"

definition cap_multiplier :: "bool \<Rightarrow> 'r capital_gate \<Rightarrow> 'r capital_gate" where
  "cap_multiplier constrained g =
     (if constrained \<and> \<not> cg_emergency_active g
      then g\<lparr>cg_position_size_multiplier := min (cg_position_size_multiplier g) (75 / 100)\<rparr> else g)"

definition apply_account_telemetry ::
  "'r risk_port \<Rightarrow> pyfloat \<Rightarrow> broker_update \<Rightarrow> 'r capital_gate \<Rightarrow> 'r capital_gate \<times> gate_snapshot" where
  "apply_account_telemetry rp now u g =
     (let account = (case bu_account u of None \<Rightarrow> cg_last_account g | Some a \<Rightarrow> Some a);
          margin_util = (case account of Some a \<Rightarrow> rp_margin rp a
                         | None \<Rightarrow> or_num (bu_margin_utilization u) 0);
          bp_per_leg = (case account of Some a \<Rightarrow> rp_fragmentation rp a (cg_leg_count g)
                        | None \<Rightarrow> or_num (bu_buying_power_per_leg u) 1);
          connectivity = (case bu_connectivity_ok u of None \<Rightarrow> cg_connectivity_ok g | Some c \<Rightarrow> c);
          g1 = g\<lparr>cg_connectivity_ok := connectivity\<rparr>;
          event = or_str (bu_event u) [];
          api_remaining = (case rp_capital rp (cg_risk_manager g1) of
                             None \<Rightarrow> 0 | Some c \<Rightarrow> cv_api_budget_remaining c);
          alert = (MARGIN_ALERT_UTILIZATION \<le> margin_util);
          g2 = (if alert then activate_emergency ''margin_alert'' EMERGENCY_POSITION_MULT False g1 else g1);
          (g3, reject_count) = prune_reject_window now g2;
          storm = (REJECT_STORM_THRESHOLD \<le> reject_count);
          reasons = (if \<not> connectivity then [''connectivity_down''] else [])
            @ (if rp_margin_ceiling rp \<le> margin_util then [''margin_utilization''] else [])
            @ (if alert then [''margin_alert''] else [])
            @ (if bp_per_leg < rp_fragmentation_floor rp then [''buying_power_fragmentation''] else [])
            @ (if api_remaining \<le> rp_api_low_watermark rp then [''api_rate_limit''] else [])
            @ (if storm then [''reject_storm''] else []);
          g4 = decide_emergency storm event margin_util reject_count g3;
          g5 = cap_multiplier (reasons \<noteq> []) g4
      in (g5, \<lparr>gs_margin_utilization = margin_util, gs_buying_power_per_leg = bp_per_leg,
               gs_api_budget_remaining = api_remaining, gs_connectivity_ok = connectivity,
               gs_reject_count_window = reject_count,
               gs_constraint_active = (reasons \<noteq> [] \<or> cg_emergency_active g5),
               gs_emergency_active = cg_emergency_active g5,
               gs_position_size_multiplier = cg_position_size_multiplier g5,
               gs_block_new_entries = cg_block_new_entries g5, gs_reason = str_join ''|'' reasons\<rparr>))"

definition reset_cycle ::
  "'r risk_port \<Rightarrow> pyfloat \<Rightarrow> account \<Rightarrow> int \<Rightarrow> 'r capital_gate \<Rightarrow> 'r capital_gate \<times> gate_snapshot" where
  "reset_cycle rp now account leg_count g =
     (let g1 = g\<lparr>cg_leg_count := max leg_count 1, cg_last_account := Some account\<rparr>;
          g2 = g1\<lparr>cg_risk_manager := rp_reset rp account (cg_leg_count g1) (cg_risk_manager g1)\<rparr>
      in apply_account_telemetry rp now
           (empty_update\<lparr>bu_event := Some ''account_sync'', bu_account := Some account,
              bu_connectivity_ok := Some (cg_connectivity_ok g2)\<rparr>) g2)"

definition note_order_reject ::
  "'r risk_port \<Rightarrow> pyfloat \<Rightarrow> string \<Rightarrow> 'r capital_gate \<Rightarrow> 'r capital_gate \<times> gate_snapshot" where
  "note_order_reject rp now reason_code g =
     (let g1 = g\<lparr>cg_reject_timestamps := deque_append 32 (cg_reject_timestamps g) now\<rparr>
      in apply_account_telemetry rp now
           (empty_update\<lparr>bu_event := Some ''order_reject'', bu_connectivity_ok := Some (cg_connectivity_ok g1),
              bu_reject_reason := Some reason_code\<rparr>) g1)"

definition apply_emergency_to_max_position :: "pyfloat \<Rightarrow> 'r capital_gate \<Rightarrow> pyfloat" where
  "apply_emergency_to_max_position base g =
     (if cg_block_new_entries g then base * EMERGENCY_BLOCK_ENTRIES_MULT
      else base * cg_position_size_multiplier g)"

text \<open>Strategy parameters: the entry that is a number, and the two the gate adds.\<close>

record strategy_params =
  sp_max_position_pct :: "pyfloat option"
  sp_gate_emergency :: "bool option"
  sp_gate_reason :: "string option"

definition override_strategy_params :: "strategy_params \<Rightarrow> 'r capital_gate \<Rightarrow> strategy_params" where
  "override_strategy_params p g =
     (if \<not> cg_emergency_active g \<and> 1 \<le> cg_position_size_multiplier g then p
      else
        let base = (case sp_max_position_pct p of None \<Rightarrow> 95 / 100 | Some x \<Rightarrow> x)
        in p\<lparr>sp_max_position_pct := Some (apply_emergency_to_max_position base g),
             sp_gate_emergency := Some (cg_emergency_active g), sp_gate_reason := Some (cg_emergency_reason g)\<rparr>)"

definition gate_snapshot_now :: "'r risk_port \<Rightarrow> pyfloat \<Rightarrow> 'r capital_gate \<Rightarrow> 'r capital_gate \<times> gate_snapshot" where
  "gate_snapshot_now rp now g =
     (let capital = rp_capital rp (cg_risk_manager g); (g1, n) = prune_reject_window now g
      in (g1, \<lparr>gs_margin_utilization = (case capital of None \<Rightarrow> 0 | Some c \<Rightarrow> cv_margin_utilization c),
               gs_buying_power_per_leg = (case capital of None \<Rightarrow> 1 | Some c \<Rightarrow> cv_buying_power_per_leg c),
               gs_api_budget_remaining = (case capital of None \<Rightarrow> 0 | Some c \<Rightarrow> cv_api_budget_remaining c),
               gs_connectivity_ok = cg_connectivity_ok g1, gs_reject_count_window = n,
               gs_constraint_active = cg_emergency_active g1, gs_emergency_active = cg_emergency_active g1,
               gs_position_size_multiplier = cg_position_size_multiplier g1,
               gs_block_new_entries = cg_block_new_entries g1, gs_reason = cg_emergency_reason g1\<rparr>))"

section \<open>The telemetry bridge\<close>

definition to_emergency_signal :: "gate_snapshot \<Rightarrow> emergency_signal" where
  "to_emergency_signal sn =
     \<lparr>sg_emergency_active = gs_emergency_active sn, sg_position_size_multiplier = gs_position_size_multiplier sn,
      sg_block_new_entries = gs_block_new_entries sn, sg_reason = gs_reason sn, sg_snapshot = sn\<rparr>"

definition ingest_connectivity ::
  "'r risk_port \<Rightarrow> pyfloat \<Rightarrow> bool \<Rightarrow> 'r capital_gate \<Rightarrow> 'r capital_gate \<times> gate_snapshot" where
  "ingest_connectivity rp now link_up g =
     apply_account_telemetry rp now
       (empty_update\<lparr>bu_event := Some ''connectivity'', bu_connectivity_ok := Some link_up\<rparr>)
       (g\<lparr>cg_connectivity_ok := link_up\<rparr>)"

definition ingest_account ::
  "'r risk_port \<Rightarrow> pyfloat \<Rightarrow> account \<Rightarrow> int \<Rightarrow> 'r capital_gate \<Rightarrow> 'r capital_gate \<times> gate_snapshot" where
  "ingest_account rp now account leg_count g =
     reset_cycle rp now account leg_count (g\<lparr>cg_leg_count := max leg_count 1\<rparr>)"

definition ingest_order_reject ::
  "'r risk_port \<Rightarrow> pyfloat \<Rightarrow> broker_update \<Rightarrow> 'r capital_gate \<Rightarrow> 'r capital_gate \<times> emergency_signal" where
  "ingest_order_reject rp now u g =
     (let reason = or_str (bu_reason u) (or_str (bu_reject_reason u) ''order_rejected'');
          (g1, sn) = note_order_reject rp now reason g
      in (g1, to_emergency_signal sn))"

definition feed_capital_gate_telemetry ::
  "'r risk_port \<Rightarrow> pyfloat \<Rightarrow> broker_update \<Rightarrow> 'r capital_gate \<Rightarrow> 'r capital_gate \<times> emergency_signal" where
  "feed_capital_gate_telemetry rp now u g =
     (let event = or_str (bu_event u) ''telemetry''
      in if event = ''order_reject'' then ingest_order_reject rp now u g
         else if event = ''connectivity'' then
           (let (g1, sn) = ingest_connectivity rp now (case bu_connectivity_ok u of None \<Rightarrow> True | Some c \<Rightarrow> c) g
            in (g1, to_emergency_signal sn))
         else (case bu_account u of
             Some account \<Rightarrow>
               (let leg_count = or_num (bu_leg_count u) (cg_leg_count g);
                    (g1, sn) = ingest_account rp now account leg_count g
                in (g1, to_emergency_signal sn))
           | None \<Rightarrow>
               (let (g1, sn) = apply_account_telemetry rp now u g in (g1, to_emergency_signal sn))))"

section \<open>The invariant\<close>

definition gate_ok :: "'r capital_gate \<Rightarrow> bool" where
  "gate_ok g \<longleftrightarrow> (cg_block_new_entries g \<longrightarrow> cg_emergency_active g)
     \<and> (cg_emergency_active g \<longrightarrow> cg_emergency_reason g \<in> {''margin_alert'', ''reject_storm''}
          \<and> cg_position_size_multiplier g \<le> 1 / 2)
     \<and> 0 < cg_position_size_multiplier g \<and> cg_position_size_multiplier g \<le> 1"

lemma gate_ok_new: "gate_ok (new_gate r n)"
  by (simp add: gate_ok_def new_gate_def)

lemmas gate_consts = MARGIN_ALERT_UTILIZATION_def EMERGENCY_POSITION_MULT_def EMERGENCY_BLOCK_ENTRIES_MULT_def
  REJECT_STORM_POSITION_MULT_def REJECT_STORM_THRESHOLD_def REJECT_STORM_WINDOW_SECONDS_def

text \<open>What an update reads: the margin, and the rejects left in the window.\<close>

definition update_margin :: "'r risk_port \<Rightarrow> broker_update \<Rightarrow> 'r capital_gate \<Rightarrow> pyfloat" where
  "update_margin rp u g =
     (case (case bu_account u of None \<Rightarrow> cg_last_account g | Some a \<Rightarrow> Some a) of
        Some a \<Rightarrow> rp_margin rp a | None \<Rightarrow> or_num (bu_margin_utilization u) 0)"

definition recent_rejects :: "pyfloat \<Rightarrow> 'r capital_gate \<Rightarrow> nat" where
  "recent_rejects now g = length (dropWhile (\<lambda>t. t < now - 120) (cg_reject_timestamps g))"

lemma gate_ok_activate:
  "gate_ok g \<Longrightarrow> 0 < m \<Longrightarrow> m \<le> 1 / 2 \<Longrightarrow> r \<in> {''margin_alert'', ''reject_storm''}
     \<Longrightarrow> gate_ok (activate_emergency r m b g)"
  by (auto simp: gate_ok_def activate_emergency_def min_def)

lemma gate_ok_decide: "gate_ok g \<Longrightarrow> gate_ok (decide_emergency storm event mu n g)"
  by (auto simp: decide_emergency_def gate_consts intro!: gate_ok_activate)
     (auto simp: gate_ok_def lift_emergency_def)

lemma gate_ok_cap: "gate_ok g \<Longrightarrow> gate_ok (cap_multiplier c g)"
  by (auto simp: cap_multiplier_def gate_ok_def)

lemma gate_ok_frame:
  "gate_ok (g\<lparr>cg_reject_timestamps := ts\<rparr>) = gate_ok g" "gate_ok (g\<lparr>cg_connectivity_ok := c\<rparr>) = gate_ok g"
  "gate_ok (g\<lparr>cg_leg_count := n\<rparr>) = gate_ok g" "gate_ok (g\<lparr>cg_last_account := a\<rparr>) = gate_ok g"
  "gate_ok (g\<lparr>cg_risk_manager := r\<rparr>) = gate_ok g"
  by (simp_all add: gate_ok_def)

text \<open>The gate after an update, through the state the three-way branch sees.\<close>

definition alerted :: "'r risk_port \<Rightarrow> pyfloat \<Rightarrow> broker_update \<Rightarrow> 'r capital_gate \<Rightarrow> 'r capital_gate" where
  "alerted rp now u g =
     fst (prune_reject_window now
       (if 85 / 100 \<le> update_margin rp u g
        then activate_emergency ''margin_alert'' EMERGENCY_POSITION_MULT False
               (g\<lparr>cg_connectivity_ok := (case bu_connectivity_ok u of None \<Rightarrow> cg_connectivity_ok g | Some c \<Rightarrow> c)\<rparr>)
        else g\<lparr>cg_connectivity_ok := (case bu_connectivity_ok u of None \<Rightarrow> cg_connectivity_ok g | Some c \<Rightarrow> c)\<rparr>))"

lemma activate_rejects [simp]: "cg_reject_timestamps (activate_emergency r m b g) = cg_reject_timestamps g"
  by (simp add: activate_emergency_def)

lemma telemetry_shape:
  "\<exists>c. fst (apply_account_telemetry rp now u g) =
     cap_multiplier c (decide_emergency (3 \<le> recent_rejects now g) (or_str (bu_event u) [])
       (update_margin rp u g) (recent_rejects now g) (alerted rp now u g))"
  unfolding apply_account_telemetry_def Let_def prune_reject_window_def alerted_def update_margin_def
    recent_rejects_def MARGIN_ALERT_UTILIZATION_def REJECT_STORM_THRESHOLD_def REJECT_STORM_WINDOW_SECONDS_def
  by (auto simp: split_beta)

lemma alerted_simps:
  "gate_ok g \<Longrightarrow> gate_ok (alerted rp now u g)"
  "cg_emergency_active (alerted rp now u g) \<longleftrightarrow> 85 / 100 \<le> update_margin rp u g \<or> cg_emergency_active g"
  "cg_block_new_entries (alerted rp now u g) = cg_block_new_entries g"
  by (auto simp: alerted_def prune_reject_window_def Let_def gate_ok_frame EMERGENCY_POSITION_MULT_def
      intro!: gate_ok_activate)
     (auto simp: activate_emergency_def)

lemma telemetry_emergency:
  assumes "gate_ok g"
  shows "gate_ok (fst (apply_account_telemetry rp now u g))"
    and "cg_emergency_active (fst (apply_account_telemetry rp now u g)) \<longleftrightarrow>
      85 / 100 \<le> update_margin rp u g \<or> 3 \<le> recent_rejects now g
      \<or> cg_emergency_active g \<and> or_str (bu_event u) [] \<noteq> ''account_sync''"
    and "cg_block_new_entries (fst (apply_account_telemetry rp now u g)) \<longleftrightarrow>
      3 \<le> recent_rejects now g
      \<or> cg_block_new_entries g \<and> (or_str (bu_event u) [] \<noteq> ''account_sync'' \<or> 85 / 100 \<le> update_margin rp u g)"
proof -
  let ?a = "alerted rp now u g" and ?storm = "3 \<le> recent_rejects now g"
  let ?d = "decide_emergency ?storm (or_str (bu_event u) []) (update_margin rp u g) (recent_rejects now g) ?a"
  have ok: "gate_ok ?a" using alerted_simps(1) [OF assms] .
  obtain c where eq: "fst (apply_account_telemetry rp now u g) = cap_multiplier c ?d"
    using telemetry_shape by blast
  show "gate_ok (fst (apply_account_telemetry rp now u g))"
    unfolding eq by (intro gate_ok_cap gate_ok_decide ok)
  have "cg_emergency_active (cap_multiplier c ?d) = cg_emergency_active ?d"
    "cg_block_new_entries (cap_multiplier c ?d) = cg_block_new_entries ?d" by (simp_all add: cap_multiplier_def)
  moreover have "cg_emergency_active ?a \<Longrightarrow> cg_emergency_reason ?a \<in> {''margin_alert'', ''reject_storm''}"
    "cg_block_new_entries ?a \<Longrightarrow> cg_emergency_active ?a" using ok by (auto simp: gate_ok_def)
  ultimately show "cg_emergency_active (fst (apply_account_telemetry rp now u g)) \<longleftrightarrow>
      85 / 100 \<le> update_margin rp u g \<or> 3 \<le> recent_rejects now g
      \<or> cg_emergency_active g \<and> or_str (bu_event u) [] \<noteq> ''account_sync''"
    "cg_block_new_entries (fst (apply_account_telemetry rp now u g)) \<longleftrightarrow>
      3 \<le> recent_rejects now g
      \<or> cg_block_new_entries g \<and> (or_str (bu_event u) [] \<noteq> ''account_sync'' \<or> 85 / 100 \<le> update_margin rp u g)"
    unfolding eq using alerted_simps(2,3) [of rp now u g]
    by (auto simp: decide_emergency_def activate_emergency_def lift_emergency_def gate_consts)
qed

section \<open>Operations as steps\<close>

datatype gate_op =
    Feed pyfloat broker_update
  | Cycle_reset pyfloat account int
  | Read_snapshot pyfloat

fun gate_step :: "'r risk_port \<Rightarrow> 'r capital_gate \<Rightarrow> gate_op \<Rightarrow> 'r capital_gate" where
  "gate_step rp g (Feed now u) = fst (feed_capital_gate_telemetry rp now u g)"
| "gate_step rp g (Cycle_reset now a n) = fst (reset_cycle rp now a n g)"
| "gate_step rp g (Read_snapshot now) = fst (gate_snapshot_now rp now g)"

lemma fst_signal [simp]: "fst (let (g1, sn) = x in (g1, to_emergency_signal sn)) = fst x"
  by (simp add: Let_def split_beta)

lemma gate_ok_reset: "gate_ok g \<Longrightarrow> gate_ok (fst (reset_cycle rp now a n g))"
  by (simp add: reset_cycle_def Let_def telemetry_emergency(1) gate_ok_frame)

lemma gate_ok_step:
  assumes "gate_ok g"
  shows "gate_ok (gate_step rp g op)"
proof (cases op)
  case (Feed now u)
  have "gate_ok (fst (note_order_reject rp now r g))" for r
    using assms by (simp add: note_order_reject_def Let_def telemetry_emergency(1) gate_ok_frame)
  moreover have "gate_ok (fst (ingest_connectivity rp now c g))" for c
    using assms by (simp add: ingest_connectivity_def telemetry_emergency(1) gate_ok_frame)
  moreover have "gate_ok (fst (ingest_account rp now a n g))" for a n
    using assms by (simp add: ingest_account_def gate_ok_reset gate_ok_frame)
  ultimately show ?thesis
    using Feed telemetry_emergency(1) [OF assms, of rp now u]
    by (auto simp: feed_capital_gate_telemetry_def ingest_order_reject_def Let_def split_beta split: option.split)
next
  case (Cycle_reset now a n)
  then show ?thesis using assms by (simp add: gate_ok_reset)
next
  case (Read_snapshot now)
  then show ?thesis using assms
    by (simp add: gate_snapshot_now_def prune_reject_window_def Let_def gate_ok_frame)
qed

interpretation gate: invariant_machine "gate_step rp" gate_ok for rp
  by unfold_locales (rule gate_ok_step)

section \<open>The reject window\<close>

lemma deque_append_suffix: "length ys < n \<Longrightarrow> \<exists>zs'. deque_append n (zs @ ys) x = zs' @ ys @ [x]"
proof -
  assume "length ys < n"
  then have "length (zs @ ys) + 1 - n \<le> length zs" by simp
  then have "deque_append n (zs @ ys) x = drop (length (zs @ ys) + 1 - n) zs @ ys @ [x]"
    by (simp add: deque_append_def)
  then show ?thesis by blast
qed

lemma dropWhile_suffix: "ys \<noteq> [] \<Longrightarrow> \<not> P (hd ys) \<Longrightarrow> \<exists>zs'. dropWhile P (zs @ ys) = zs' @ ys"
  by (induction zs) (cases ys; auto)+

lemma decided_rejects:
  "cg_reject_timestamps (cap_multiplier c x) = cg_reject_timestamps x"
  "cg_reject_timestamps (decide_emergency st e m n x) = cg_reject_timestamps x"
  by (simp_all add: cap_multiplier_def decide_emergency_def lift_emergency_def)

lemma telemetry_rejects:
  "cg_reject_timestamps (fst (apply_account_telemetry rp now u g))
     = dropWhile (\<lambda>t. t < now - 120) (cg_reject_timestamps g)"
proof -
  have "cg_reject_timestamps (alerted rp now u g) = dropWhile (\<lambda>t. t < now - 120) (cg_reject_timestamps g)"
    by (simp add: alerted_def prune_reject_window_def Let_def REJECT_STORM_WINDOW_SECONDS_def)
  then show ?thesis using telemetry_shape [of rp now u g] by (auto simp: decided_rejects)
qed

text \<open>A reject at \<open>now\<close> is kept behind the rejects that are still in the window.\<close>

lemma reject_keeps_suffix:
  assumes "cg_reject_timestamps g = zs @ ys" and "length ys < 32" and "\<forall>t\<in>set ys. now - 120 \<le> t"
  shows "\<exists>zs'. cg_reject_timestamps (fst (note_order_reject rp now r g)) = zs' @ ys @ [now]"
    and "length ys + 1 \<le> recent_rejects now (g\<lparr>cg_reject_timestamps := deque_append 32 (cg_reject_timestamps g) now\<rparr>)"
proof -
  obtain zs1 where d: "deque_append 32 (cg_reject_timestamps g) now = zs1 @ ys @ [now]"
    using deque_append_suffix [OF assms(2)] assms(1) by auto
  have "\<not> hd (ys @ [now]) < now - 120" using assms(3) by (cases ys) auto
  then obtain zs2 where w: "dropWhile (\<lambda>t. t < now - 120) (zs1 @ ys @ [now]) = zs2 @ ys @ [now]"
    using dropWhile_suffix [of "ys @ [now]" "\<lambda>t. t < now - 120" zs1] by auto
  then show "\<exists>zs'. cg_reject_timestamps (fst (note_order_reject rp now r g)) = zs' @ ys @ [now]"
    by (simp add: note_order_reject_def Let_def telemetry_rejects d)
  show "length ys + 1 \<le> recent_rejects now (g\<lparr>cg_reject_timestamps := deque_append 32 (cg_reject_timestamps g) now\<rparr>)"
    by (simp add: recent_rejects_def d w)
qed

definition reject_update :: broker_update where
  "reject_update = empty_update\<lparr>bu_event := Some ''order_reject''\<rparr>"

lemma feed_reject:
  "fst (feed_capital_gate_telemetry rp now reject_update g) = fst (note_order_reject rp now ''order_rejected'' g)"
  by (simp add: feed_capital_gate_telemetry_def reject_update_def empty_update_def ingest_order_reject_def or_str_def
      or_default_def Let_def split_beta)

section \<open>Properties\<close>

text \<open>
  A reject storm stops entries: after any history of the gate, three order rejects within
  two minutes block new entries and size every position to zero, whatever the risk manager,
  the account and the margin are.
\<close>

theorem reject_storm_blocks:
  assumes "g = foldl (gate_step rp) (new_gate r n) ops"
    and "t1 \<le> t2" and "t2 \<le> t3" and "t3 - t1 \<le> 120"
  shows "let g' = foldl (gate_step rp) g [Feed t1 reject_update, Feed t2 reject_update, Feed t3 reject_update]
         in cg_block_new_entries g' \<and> cg_emergency_active g' \<and> apply_emergency_to_max_position base g' = 0"
proof -
  have ok: "gate_ok g" unfolding assms(1) by (rule gate.inv_run) (rule gate_ok_new)
  define g1 g2 where "g1 = gate_step rp g (Feed t1 reject_update)" and "g2 = gate_step rp g1 (Feed t2 reject_update)"
  obtain z1 where z1: "cg_reject_timestamps g1 = z1 @ [t1]"
    using reject_keeps_suffix(1) [of g "cg_reject_timestamps g" "[]" t1 rp] by (auto simp: g1_def feed_reject)
  obtain z2 where z2: "cg_reject_timestamps g2 = z2 @ [t1, t2]"
    using reject_keeps_suffix(1) [OF z1, of t2 rp] assms(2-4) by (auto simp: g2_def feed_reject)
  have ok2: "gate_ok g2" unfolding g2_def g1_def by (intro gate_ok_step ok)
  let ?h = "g2\<lparr>cg_reject_timestamps := deque_append 32 (cg_reject_timestamps g2) t3\<rparr>"
  have "3 \<le> recent_rejects t3 ?h" using reject_keeps_suffix(2) [OF z2, of t3] assms(2-4) by simp
  then have "cg_block_new_entries (gate_step rp g2 (Feed t3 reject_update))
      \<and> cg_emergency_active (gate_step rp g2 (Feed t3 reject_update))"
    using telemetry_emergency(2,3) [of ?h rp t3] ok2 by (simp add: feed_reject note_order_reject_def Let_def gate_ok_frame)
  then show ?thesis
    by (simp add: g1_def g2_def Let_def apply_emergency_to_max_position_def EMERGENCY_BLOCK_ENTRIES_MULT_def)
qed

text \<open>A risk manager without a state, whose margin measure is one minus cash over equity.\<close>

definition demo_risk_port :: "unit risk_port" where
  "demo_risk_port =
     \<lparr>rp_reset = (\<lambda>a n r. r), rp_capital = (\<lambda>r. None),
      rp_margin = (\<lambda>a. if acct_equity a \<le> 0 then 1 else 1 - acct_buying_power a / acct_equity a),
      rp_fragmentation = (\<lambda>a n. acct_buying_power a / real_of_int n),
      rp_margin_ceiling = 9 / 10, rp_fragmentation_floor = 100, rp_api_low_watermark = 5\<rparr>"

theorem reject_storm_blocks_witness:
  "let g = foldl (gate_step demo_risk_port) (new_gate () 2)
         [Feed 0 reject_update, Feed 30 reject_update, Feed 90 reject_update]
   in cg_block_new_entries g \<and> apply_emergency_to_max_position 1 g = 0"
  using reject_storm_blocks [of "new_gate () 2" demo_risk_port "()" 2 "[]" 0 30 90 1] by (simp add: Let_def)

text \<open>
  An emergency is raised and lifted exactly by its causes: after any history, an update
  leaves the gate in emergency iff the margin is at the alert level, three rejects are in the
  window, or it was in emergency and the update is not an account sync; entries are blocked
  iff a storm is on or the block stands and was not lifted by a sync below the alert level.
\<close>

theorem emergency_exact:
  assumes "g = foldl (gate_step rp) (new_gate r n) ops"
  shows "let g' = fst (apply_account_telemetry rp now u g); sync = (or_str (bu_event u) [] = ''account_sync'');
             alert = (85 / 100 \<le> update_margin rp u g); storm = (3 \<le> recent_rejects now g)
         in (cg_emergency_active g' \<longleftrightarrow> alert \<or> storm \<or> cg_emergency_active g \<and> \<not> sync)
            \<and> (cg_block_new_entries g' \<longleftrightarrow> storm \<or> cg_block_new_entries g \<and> (alert \<or> \<not> sync))"
proof -
  have "gate_ok g" unfolding assms by (rule gate.inv_run) (rule gate_ok_new)
  from telemetry_emergency(2,3) [OF this, of rp now u] show ?thesis by (auto simp: Let_def)
qed

theorem emergency_exact_witness:
  "\<not> cg_block_new_entries (fst (apply_account_telemetry demo_risk_port 300
       (empty_update\<lparr>bu_event := Some ''account_sync'', bu_account := Some \<lparr>acct_equity = 100, acct_cash = 80, acct_buying_power = 80\<rparr>\<rparr>)
       (foldl (gate_step demo_risk_port) (new_gate () 2) [Feed 0 reject_update, Feed 30 reject_update, Feed 90 reject_update])))"
proof -
  let ?u = "empty_update\<lparr>bu_event := Some ''account_sync'', bu_account := Some \<lparr>acct_equity = 100, acct_cash = 80, acct_buying_power = 80\<rparr>\<rparr>"
  let ?g = "foldl (gate_step demo_risk_port) (new_gate () 2) [Feed 0 reject_update, Feed 30 reject_update, Feed 90 reject_update]"
  have "\<not> 85 / 100 \<le> update_margin demo_risk_port ?u ?g" "\<not> 3 \<le> recent_rejects 300 ?g"
    "or_str (bu_event ?u) [] = ''account_sync''" by code_simp+
  then show ?thesis using emergency_exact [OF refl, where rp = demo_risk_port and r = "()" and n = 2 and now = 300 and u = ?u
    and ops = "[Feed 0 reject_update, Feed 30 reject_update, Feed 90 reject_update]"]
    unfolding Let_def by blast
qed

text \<open>
  The gate only ever shrinks a position: after any history the resized maximum lies between
  zero and the base, is at most half of it in an emergency, and is zero exactly when entries
  are blocked.
\<close>

theorem emergency_sizing_bounds:
  assumes "g = foldl (gate_step rp) (new_gate r n) ops" and "0 < base"
  shows "0 \<le> apply_emergency_to_max_position base g \<and> apply_emergency_to_max_position base g \<le> base
    \<and> (cg_emergency_active g \<longrightarrow> apply_emergency_to_max_position base g \<le> base / 2)
    \<and> (apply_emergency_to_max_position base g = 0 \<longleftrightarrow> cg_block_new_entries g)"
proof -
  have "gate_ok g" unfolding assms(1) by (rule gate.inv_run) (rule gate_ok_new)
  moreover have "base * m \<le> base * 1" if "m \<le> 1" for m using that assms(2) by (intro mult_left_mono) simp_all
  moreover have "base * m \<le> base * (1 / 2)" if "m \<le> 1 / 2" for m using that assms(2) by (intro mult_left_mono) simp_all
  ultimately show ?thesis
    using assms(2) by (auto simp: apply_emergency_to_max_position_def gate_ok_def EMERGENCY_BLOCK_ENTRIES_MULT_def)
qed

end
