(* ===== verification/Cold_Start.thy ===== *)
theory Cold_Start
  imports Models Walk_Forward Escalation
begin

text \<open>
  The cold-start verification gate (\<open>src/engine/cold_start_gate.py\<close>): per leg a state machine
  from PENDING to STABILIZED_VERIFIED, with the policy that decides what happens when the
  verification does not finish in time, the pausable clock behind it, and the queries the
  entry path asks. An operation takes the readings of the two clocks it may look at, \<open>tick\<close>
  (\<open>time.monotonic()\<close>) and \<open>now\<close>. Log lines are not modelled, the caches that make them
  one-shot are. The research-validation index is a parameter of the policy resolution.
\<close>

section \<open>Configuration and snapshots\<close>

datatype cold_start_policy = HIGH_AVAILABILITY | FAIL_SAFE_CLOSE

definition DEFAULT_COLD_START_POLICY :: cold_start_policy where
  "DEFAULT_COLD_START_POLICY = FAIL_SAFE_CLOSE"

datatype cold_start_state =
  PENDING_START | PENDING_BLOCKED | HEURISTIC_PARITY | STABILIZED_VERIFIED | STALE_REVERIFY | BYPASS_OVERRIDE

record cold_start_config =
  cc_max_wait_seconds :: pyfloat
  cc_max_bar_age_seconds :: pyfloat
  cc_heuristic_entry_scale :: pyfloat
  cc_bypass_entry_scale :: pyfloat

definition default_cold_start_config :: cold_start_config where
  "default_cold_start_config =
     \<lparr>cc_max_wait_seconds = 120, cc_max_bar_age_seconds = 65, cc_heuristic_entry_scale = 1 / 4,
      cc_bypass_entry_scale = 15 / 100\<rparr>"

definition STALE_FEED_WARNING_FRACTION :: pyfloat where "STALE_FEED_WARNING_FRACTION = 1 / 2"

record stream_health =
  sh_latest_bar_timestamp :: "instant option"
  sh_prior_bar_timestamp :: "instant option"
  sh_latest_volume :: pyfloat
  sh_prior_volume :: pyfloat
  sh_bar_count :: int

record gate_transition =
  gt_strategy_id :: string
  gt_prior_state :: cold_start_state
  gt_new_state :: cold_start_state
  gt_reason :: string
  gt_wall_clock_lag_seconds :: "pyfloat option"
  gt_elapsed_seconds :: pyfloat
  gt_matrix_aligned :: bool
  gt_stream_intact :: bool

definition parse_cold_start_policy :: "string option \<Rightarrow> cold_start_policy" where
  "parse_cold_start_policy raw =
     (if str_upper (str_strip (or_str raw [])) = ''HIGH_AVAILABILITY'' then HIGH_AVAILABILITY else FAIL_SAFE_CLOSE)"

text \<open>\<open>index\<close> gives the constraints of a symbol's research record, if it has one.\<close>

definition resolve_cold_start_policy ::
  "(string \<Rightarrow> (string, string option) dict option) \<Rightarrow> (string, string option) dict \<Rightarrow> string \<Rightarrow> cold_start_policy" where
  "resolve_cold_start_policy index params symbol =
     (case map_of params ''cold_start_policy'' of
        Some raw \<Rightarrow> parse_cold_start_policy raw
      | None \<Rightarrow>
          (case index (str_upper symbol) of
             None \<Rightarrow> DEFAULT_COLD_START_POLICY
           | Some constraints \<Rightarrow>
               (case map_of constraints ''cold_start_policy'' of
                  Some raw \<Rightarrow> parse_cold_start_policy raw
                | None \<Rightarrow> DEFAULT_COLD_START_POLICY)))"

definition bar_period_seconds_for :: "string \<Rightarrow> pyfloat" where
  "bar_period_seconds_for timeframe = real_of_int (dict_get TIMEFRAME_MINUTES timeframe 15) * 60"

definition max_bar_age_for_timeframe :: "string \<Rightarrow> cold_start_config \<Rightarrow> pyfloat" where
  "max_bar_age_for_timeframe timeframe cfg =
     stale_after_seconds (bar_period_seconds_for timeframe) (cc_max_bar_age_seconds cfg)"

definition stream_is_structurally_intact :: "stream_health \<Rightarrow> bool" where
  "stream_is_structurally_intact h =
     (if sh_bar_count h < 2 then False
      else (case (sh_latest_bar_timestamp h, sh_prior_bar_timestamp h) of
              (Some latest, Some prior) \<Rightarrow>
                if latest \<le> prior then False
                else \<not> (sh_latest_volume h \<le> 0 \<and> sh_prior_volume h \<le> 0)
            | _ \<Rightarrow> False))"

definition wall_clock_freshness_ok ::
  "instant option \<Rightarrow> pyfloat \<Rightarrow> instant \<Rightarrow> pyfloat \<Rightarrow> bool \<times> pyfloat option" where
  "wall_clock_freshness_ok latest period now max_age =
     (case latest of
        None \<Rightarrow> (False, None)
      | Some ts \<Rightarrow> let lag = bar_staleness_seconds ts period now in (lag \<le> max max_age 0, Some lag))"

section \<open>The engine\<close>

record cold_start_engine =
  ce_config :: cold_start_config
  ce_state :: "(string, cold_start_state) dict"
  ce_policy :: "(string, cold_start_policy) dict"
  ce_symbol :: "(string, string) dict"
  ce_started_at :: "pyfloat option"
  ce_paused_accumulated :: pyfloat
  ce_paused_since :: "pyfloat option"
  ce_transition_log :: "(string, gate_transition) dict"
  ce_suppression_logged :: "(string \<times> cold_start_state) set"
  ce_stale_feed_warned :: "string set"

definition new_cold_start_engine :: "cold_start_config \<Rightarrow> cold_start_engine" where
  "new_cold_start_engine cfg =
     \<lparr>ce_config = cfg, ce_state = [], ce_policy = [], ce_symbol = [], ce_started_at = None,
      ce_paused_accumulated = 0, ce_paused_since = None, ce_transition_log = [],
      ce_suppression_logged = {}, ce_stale_feed_warned = {}\<rparr>"

definition leg_policy :: "string \<Rightarrow> cold_start_engine \<Rightarrow> cold_start_policy" where
  "leg_policy sid e = dict_get (ce_policy e) sid DEFAULT_COLD_START_POLICY"

definition leg_state :: "string \<Rightarrow> cold_start_engine \<Rightarrow> cold_start_state" where
  "leg_state sid e = dict_get (ce_state e) sid PENDING_START"

definition begin_leg ::
  "(string, cold_start_policy) dict \<Rightarrow> (string, string) dict \<Rightarrow> cold_start_engine \<Rightarrow> string \<Rightarrow> cold_start_engine" where
  "begin_leg policies symbols e sid =
     e\<lparr>ce_state := AList.update sid PENDING_START (ce_state e),
       ce_policy := AList.update sid (dict_get policies sid DEFAULT_COLD_START_POLICY) (ce_policy e),
       ce_symbol := (case map_of symbols sid of None \<Rightarrow> ce_symbol e
                     | Some y \<Rightarrow> AList.update sid (str_upper y) (ce_symbol e))\<rparr>"

definition begin_cold_start ::
  "pyfloat \<Rightarrow> string list \<Rightarrow> (string, cold_start_policy) dict \<Rightarrow> (string, string) dict
     \<Rightarrow> cold_start_engine \<Rightarrow> cold_start_engine" where
  "begin_cold_start tick sids policies symbols e =
     foldl (begin_leg policies symbols)
       (e\<lparr>ce_started_at := Some tick, ce_transition_log := [], ce_suppression_logged := {},
          ce_stale_feed_warned := {}\<rparr>) sids"

definition set_policy :: "string \<Rightarrow> cold_start_policy \<Rightarrow> cold_start_engine \<Rightarrow> cold_start_engine" where
  "set_policy sid p e = e\<lparr>ce_policy := AList.update sid p (ce_policy e)\<rparr>"

definition set_symbol :: "string \<Rightarrow> string \<Rightarrow> cold_start_engine \<Rightarrow> cold_start_engine" where
  "set_symbol sid symbol e = e\<lparr>ce_symbol := AList.update sid (str_upper symbol) (ce_symbol e)\<rparr>"

section \<open>The pausable clock\<close>

definition elapsed_seconds :: "pyfloat \<Rightarrow> cold_start_engine \<Rightarrow> pyfloat" where
  "elapsed_seconds tick e =
     (case ce_started_at e of
        None \<Rightarrow> 0
      | Some started \<Rightarrow>
          let paused = ce_paused_accumulated e
                + (case ce_paused_since e of None \<Rightarrow> 0 | Some p \<Rightarrow> max (tick - p) 0)
          in max (tick - started - paused) 0)"

definition pause_time_bound_progression :: "pyfloat \<Rightarrow> cold_start_engine \<Rightarrow> cold_start_engine" where
  "pause_time_bound_progression tick e =
     (case ce_paused_since e of None \<Rightarrow> e\<lparr>ce_paused_since := Some tick\<rparr> | Some _ \<Rightarrow> e)"

definition resume_time_bound_progression :: "pyfloat \<Rightarrow> cold_start_engine \<Rightarrow> cold_start_engine" where
  "resume_time_bound_progression tick e =
     (case ce_paused_since e of
        None \<Rightarrow> e
      | Some p \<Rightarrow> e\<lparr>ce_paused_accumulated := ce_paused_accumulated e + max (tick - p) 0, ce_paused_since := None\<rparr>)"

definition set_readiness :: "pyfloat \<Rightarrow> bool \<Rightarrow> cold_start_engine \<Rightarrow> cold_start_engine" where
  "set_readiness tick readiness_ok e =
     (if readiness_ok then resume_time_bound_progression tick e else pause_time_bound_progression tick e)"

section \<open>Queries\<close>

definition operational_gate_cleared :: "cold_start_engine \<Rightarrow> bool" where
  "operational_gate_cleared e =
     (if ce_state e = [] then False
      else list_all (\<lambda>(_, s). s \<notin> {PENDING_START, PENDING_BLOCKED}) (ce_state e))"

definition fully_verified :: "cold_start_engine \<Rightarrow> bool" where
  "fully_verified e =
     (if ce_state e = [] then False else list_all (\<lambda>(_, s). s = STABILIZED_VERIFIED) (ce_state e))"

definition cold_blocks_all_entries :: "string \<Rightarrow> cold_start_engine \<Rightarrow> bool" where
  "cold_blocks_all_entries sid e = (leg_state sid e \<in> {PENDING_START, PENDING_BLOCKED, STALE_REVERIFY})"

definition emit_entry_suppressed :: "string \<Rightarrow> cold_start_state \<Rightarrow> cold_start_engine \<Rightarrow> cold_start_engine" where
  "emit_entry_suppressed sid st e =
     (if (sid, st) \<in> ce_suppression_logged e then e
      else e\<lparr>ce_suppression_logged := insert (sid, st) (ce_suppression_logged e)\<rparr>)"

definition blocks_entry_signals :: "string \<Rightarrow> cold_start_engine \<Rightarrow> cold_start_engine \<times> bool" where
  "blocks_entry_signals sid e =
     (let st = leg_state sid e
      in if st \<in> {PENDING_START, PENDING_BLOCKED, STALE_REVERIFY} then (e, True)
         else if st \<in> {HEURISTIC_PARITY, BYPASS_OVERRIDE} then
           (if leg_policy sid e = FAIL_SAFE_CLOSE then (emit_entry_suppressed sid st e, True) else (e, False))
         else (e, st \<noteq> STABILIZED_VERIFIED))"

definition cold_start_entry_scale :: "string \<Rightarrow> cold_start_engine \<Rightarrow> cold_start_engine \<times> pyfloat" where
  "cold_start_entry_scale sid e =
     (let st = leg_state sid e
      in if st = STABILIZED_VERIFIED then (e, 1)
         else if st = STALE_REVERIFY then (e, 0)
         else if st \<in> {HEURISTIC_PARITY, BYPASS_OVERRIDE} then
           (if leg_policy sid e = FAIL_SAFE_CLOSE then (emit_entry_suppressed sid st e, 0)
            else if st = HEURISTIC_PARITY then (e, cc_heuristic_entry_scale (ce_config e))
            else (e, cc_bypass_entry_scale (ce_config e)))
         else (e, 0))"

definition allows_conservative_entries :: "string \<Rightarrow> cold_start_engine \<Rightarrow> cold_start_engine \<times> bool" where
  "allows_conservative_entries sid e =
     (let (e', scale) = cold_start_entry_scale sid e in (e', 0 < scale))"

definition last_transition :: "string \<Rightarrow> cold_start_engine \<Rightarrow> gate_transition option" where
  "last_transition sid e = map_of (ce_transition_log e) sid"

section \<open>Transitions\<close>

text \<open>The log line of a transition reads the entry scale, which may fill the suppression cache.\<close>

definition cold_transition ::
  "pyfloat \<Rightarrow> string \<Rightarrow> cold_start_state \<Rightarrow> string \<Rightarrow> pyfloat option \<Rightarrow> bool \<Rightarrow> bool \<Rightarrow> cold_start_engine
     \<Rightarrow> cold_start_engine \<times> gate_transition option" where
  "cold_transition tick sid new_state reason lag aligned intact e =
     (let prior = leg_state sid e;
          t = \<lparr>gt_strategy_id = sid, gt_prior_state = prior, gt_new_state = new_state, gt_reason = reason,
               gt_wall_clock_lag_seconds = lag, gt_elapsed_seconds = elapsed_seconds tick e,
               gt_matrix_aligned = aligned, gt_stream_intact = intact\<rparr>
      in if prior = new_state then (e, Some t)
         else
           let e1 = e\<lparr>ce_state := AList.update sid new_state (ce_state e),
                     ce_transition_log := AList.update sid t (ce_transition_log e)\<rparr>
           in (fst (cold_start_entry_scale sid e1), Some t))"

definition check_stale_feed_early_warning ::
  "string \<Rightarrow> pyfloat option \<Rightarrow> pyfloat \<Rightarrow> bool \<Rightarrow> cold_start_engine \<Rightarrow> cold_start_engine" where
  "check_stale_feed_early_warning sid lag max_age fresh e =
     (case lag of
        None \<Rightarrow> e
      | Some x \<Rightarrow>
          let warning_threshold = max_age * STALE_FEED_WARNING_FRACTION
          in if fresh \<and> warning_threshold < x
             then (if sid \<in> ce_stale_feed_warned e then e
                   else e\<lparr>ce_stale_feed_warned := insert sid (ce_stale_feed_warned e)\<rparr>)
             else if \<not> fresh \<or> x \<le> warning_threshold
             then e\<lparr>ce_stale_feed_warned := ce_stale_feed_warned e - {sid}\<rparr>
             else e)"

definition evaluate_time_bound ::
  "pyfloat \<Rightarrow> string \<Rightarrow> string \<Rightarrow> bool \<Rightarrow> bool \<Rightarrow> bool \<Rightarrow> bool \<Rightarrow> pyfloat option \<Rightarrow> cold_start_engine
     \<Rightarrow> cold_start_engine \<times> gate_transition option" where
  "evaluate_time_bound tick sid timeframe aligned verified fresh intact lag e0 =
     (let current = leg_state sid e0
      in if current = BYPASS_OVERRIDE then (e0, None)
         else
           let e = check_stale_feed_early_warning sid lag (max_bar_age_for_timeframe timeframe (ce_config e0)) fresh e0;
               move = (\<lambda>st reason al whole. cold_transition tick sid st reason lag al whole e)
           in if current = STABILIZED_VERIFIED then
                (if \<not> fresh then move STALE_REVERIFY ''stabilized_verified_feed_stale'' aligned intact
                 else (e, None))
              else if current = STALE_REVERIFY then
                (if fresh \<and> aligned then move STABILIZED_VERIFIED ''stale_reverify_feed_recovered'' True intact
                 else (e, None))
              else if elapsed_seconds tick e < cc_max_wait_seconds (ce_config e) then (e, None)
              else if aligned \<and> verified \<and> fresh \<and> intact
              then move STABILIZED_VERIFIED ''time_bound_stabilized_verified'' True intact
              else if leg_policy sid e = FAIL_SAFE_CLOSE then
                (if current = PENDING_START
                 then move PENDING_BLOCKED ''fail_safe_timeout_without_matrix_parity'' aligned intact
                 else (e, None))
              else if intact \<and> fresh \<and> current = PENDING_START
              then move HEURISTIC_PARITY ''time_bound_heuristic_parity'' aligned True
              else move BYPASS_OVERRIDE ''time_bound_system_bypass'' aligned intact)"

definition freshness :: "instant \<Rightarrow> string \<Rightarrow> stream_health \<Rightarrow> cold_start_engine \<Rightarrow> bool \<times> pyfloat option" where
  "freshness now timeframe h e =
     wall_clock_freshness_ok (sh_latest_bar_timestamp h) (bar_period_seconds_for timeframe) now
       (max_bar_age_for_timeframe timeframe (ce_config e))"

definition evaluate_verification ::
  "pyfloat \<Rightarrow> instant \<Rightarrow> string \<Rightarrow> string \<Rightarrow> bool \<Rightarrow> string option \<Rightarrow> stream_health \<Rightarrow> bool \<Rightarrow> bool
     \<Rightarrow> cold_start_engine \<Rightarrow> cold_start_engine \<times> gate_transition option" where
  "evaluate_verification tick now sid timeframe matrix_aligned skip_reason h verified divergent e =
     (if divergent then (e, None)
      else
        let (fresh, lag) = freshness now timeframe h e;
            intact = stream_is_structurally_intact h;
            aligned = (matrix_aligned \<and> skip_reason = None)
        in if aligned \<and> verified \<and> fresh \<and> intact \<and> leg_state sid e \<noteq> STABILIZED_VERIFIED
           then cold_transition tick sid STABILIZED_VERIFIED ''matrix_parity_and_wall_clock_fresh'' lag True intact e
           else if aligned \<and> \<not> fresh then (e, None)
           else
             let (e1, _) = evaluate_time_bound tick sid timeframe aligned verified fresh intact lag e
             in (e1, last_transition sid e1))"

definition tick_time_bound ::
  "pyfloat \<Rightarrow> instant \<Rightarrow> string \<Rightarrow> string \<Rightarrow> stream_health \<Rightarrow> bool \<Rightarrow> bool \<Rightarrow> bool
     \<Rightarrow> cold_start_engine \<Rightarrow> cold_start_engine \<times> gate_transition option" where
  "tick_time_bound tick now sid timeframe h matrix_aligned verified readiness_ok e =
     (let e1 = set_readiness tick readiness_ok e
      in if \<not> readiness_ok then (e1, None)
         else
           let (fresh, lag) = freshness now timeframe h e1; intact = stream_is_structurally_intact h
           in evaluate_time_bound tick sid timeframe matrix_aligned verified fresh intact lag e1)"

section \<open>What the operations change\<close>

lemma suppressed_frame [simp]:
  "leg_state x (emit_entry_suppressed sid st e) = leg_state x e"
  "leg_policy x (emit_entry_suppressed sid st e) = leg_policy x e"
  "ce_config (emit_entry_suppressed sid st e) = ce_config e"
  "elapsed_seconds m (emit_entry_suppressed sid st e) = elapsed_seconds m e"
  by (simp_all add: emit_entry_suppressed_def leg_state_def leg_policy_def elapsed_seconds_def Let_def
      split: option.split)

lemma scale_frame [simp]:
  "leg_state x (fst (cold_start_entry_scale sid e)) = leg_state x e"
  "leg_policy x (fst (cold_start_entry_scale sid e)) = leg_policy x e"
  "ce_config (fst (cold_start_entry_scale sid e)) = ce_config e"
  by (simp_all add: cold_start_entry_scale_def Let_def)

lemma warning_frame [simp]:
  "leg_state x (check_stale_feed_early_warning sid lag a f e) = leg_state x e"
  "leg_policy x (check_stale_feed_early_warning sid lag a f e) = leg_policy x e"
  "ce_config (check_stale_feed_early_warning sid lag a f e) = ce_config e"
  "elapsed_seconds m (check_stale_feed_early_warning sid lag a f e) = elapsed_seconds m e"
  by (simp_all add: check_stale_feed_early_warning_def Let_def leg_state_def leg_policy_def elapsed_seconds_def
      split: option.split)

lemma readiness_frame [simp]:
  "leg_state x (set_readiness tick r e) = leg_state x e" "leg_policy x (set_readiness tick r e) = leg_policy x e"
  "ce_config (set_readiness tick r e) = ce_config e"
  by (simp_all add: set_readiness_def resume_time_bound_progression_def pause_time_bound_progression_def
      leg_state_def leg_policy_def split: option.split)

lemma transition_state [simp]:
  "leg_state x (fst (cold_transition tick sid st reason lag al whole e)) = (if x = sid then st else leg_state x e)"
  "leg_policy x (fst (cold_transition tick sid st reason lag al whole e)) = leg_policy x e"
  "ce_config (fst (cold_transition tick sid st reason lag al whole e)) = ce_config e"
  by (auto simp: cold_transition_def Let_def) (auto simp: leg_state_def leg_policy_def dict_get_def)

text \<open>The next state of a leg, as a function of what a time-bound evaluation reads.\<close>

definition next_state ::
  "cold_start_policy \<Rightarrow> bool \<Rightarrow> bool \<Rightarrow> bool \<Rightarrow> bool \<Rightarrow> bool \<Rightarrow> cold_start_state \<Rightarrow> cold_start_state" where
  "next_state policy timed_out aligned verified fresh intact current =
     (if current = BYPASS_OVERRIDE then BYPASS_OVERRIDE
      else if current = STABILIZED_VERIFIED then (if fresh then STABILIZED_VERIFIED else STALE_REVERIFY)
      else if current = STALE_REVERIFY then (if fresh \<and> aligned then STABILIZED_VERIFIED else STALE_REVERIFY)
      else if \<not> timed_out then current
      else if aligned \<and> verified \<and> fresh \<and> intact then STABILIZED_VERIFIED
      else if policy = FAIL_SAFE_CLOSE then (if current = PENDING_START then PENDING_BLOCKED else current)
      else if intact \<and> fresh \<and> current = PENDING_START then HEURISTIC_PARITY
      else BYPASS_OVERRIDE)"

lemma time_bound_state:
  "leg_state x (fst (evaluate_time_bound tick sid tf aligned verified fresh intact lag e)) =
     (if x = sid
      then next_state (leg_policy sid e) (cc_max_wait_seconds (ce_config e) \<le> elapsed_seconds tick e)
             aligned verified fresh intact (leg_state sid e)
      else leg_state x e)"
  unfolding evaluate_time_bound_def next_state_def Let_def by (auto split: if_splits)

lemma time_bound_frame [simp]:
  "leg_policy x (fst (evaluate_time_bound tick sid tf aligned verified fresh intact lag e)) = leg_policy x e"
  "ce_config (fst (evaluate_time_bound tick sid tf aligned verified fresh intact lag e)) = ce_config e"
  unfolding evaluate_time_bound_def Let_def by auto

lemma freshness_readiness [simp]: "freshness now tf h (set_readiness tick r e) = freshness now tf h e"
  by (simp add: freshness_def)

lemma tick_state:
  "leg_state x (fst (tick_time_bound tick now sid tf h aligned verified ready e)) =
     (if x = sid \<and> ready
      then next_state (leg_policy sid e)
             (cc_max_wait_seconds (ce_config e) \<le> elapsed_seconds tick (set_readiness tick ready e))
             aligned verified (fst (freshness now tf h e)) (stream_is_structurally_intact h) (leg_state sid e)
      else leg_state x e)"
  by (simp add: tick_time_bound_def Let_def time_bound_state split_beta)

lemma verification_state:
  "leg_state x (fst (evaluate_verification tick now sid tf al skip h verified divergent e)) =
     (let fresh = fst (freshness now tf h e); intact = stream_is_structurally_intact h; aligned = (al \<and> skip = None)
      in if x \<noteq> sid \<or> divergent then leg_state x e
         else if aligned \<and> verified \<and> fresh \<and> intact then STABILIZED_VERIFIED
         else if aligned \<and> \<not> fresh then leg_state sid e
         else next_state (leg_policy sid e) (cc_max_wait_seconds (ce_config e) \<le> elapsed_seconds tick e)
                aligned verified fresh intact (leg_state sid e))"
  by (auto simp: evaluate_verification_def Let_def split_beta time_bound_state next_state_def)

lemma evaluation_frame [simp]:
  "leg_policy x (fst (tick_time_bound tick now sid tf h aligned verified ready e)) = leg_policy x e"
  "leg_policy x (fst (evaluate_verification tick now sid tf al skip h verified divergent e)) = leg_policy x e"
  "ce_config (fst (tick_time_bound tick now sid tf h aligned verified ready e)) = ce_config e"
  "ce_config (fst (evaluate_verification tick now sid tf al skip h verified divergent e)) = ce_config e"
  by (simp_all add: tick_time_bound_def evaluate_verification_def Let_def split_beta)

lemma begin_leg_frame [simp]:
  "leg_state x (begin_leg policies symbols e sid) = (if x = sid then PENDING_START else leg_state x e)"
  "leg_policy x (begin_leg policies symbols e sid) =
     (if x = sid then dict_get policies sid DEFAULT_COLD_START_POLICY else leg_policy x e)"
  "ce_config (begin_leg policies symbols e sid) = ce_config e"
  by (simp_all add: begin_leg_def leg_state_def leg_policy_def dict_get_def)

lemma begin_legs_frame:
  "leg_state x (foldl (begin_leg policies symbols) e sids) = (if x \<in> set sids then PENDING_START else leg_state x e)"
  "leg_policy x (foldl (begin_leg policies symbols) e sids) =
     (if x \<in> set sids then dict_get policies x DEFAULT_COLD_START_POLICY else leg_policy x e)"
  "ce_config (foldl (begin_leg policies symbols) e sids) = ce_config e"
  by (induction sids arbitrary: e) auto

lemma begin_frame [simp]:
  "leg_state x (begin_cold_start tick sids policies symbols e) = (if x \<in> set sids then PENDING_START else leg_state x e)"
  "leg_policy x (begin_cold_start tick sids policies symbols e) =
     (if x \<in> set sids then dict_get policies x DEFAULT_COLD_START_POLICY else leg_policy x e)"
  "ce_config (begin_cold_start tick sids policies symbols e) = ce_config e"
  by (simp_all add: begin_cold_start_def begin_legs_frame) (simp_all add: leg_state_def leg_policy_def)

lemma set_policy_frame [simp]:
  "leg_state x (set_policy sid p e) = leg_state x e" "ce_config (set_policy sid p e) = ce_config e"
  "leg_policy x (set_policy sid p e) = (if x = sid then p else leg_policy x e)"
  by (simp_all add: set_policy_def leg_state_def leg_policy_def dict_get_def)

lemma blocks_frame [simp]:
  "leg_state x (fst (blocks_entry_signals sid e)) = leg_state x e"
  "leg_policy x (fst (blocks_entry_signals sid e)) = leg_policy x e"
  "ce_config (fst (blocks_entry_signals sid e)) = ce_config e"
  by (simp_all add: blocks_entry_signals_def Let_def)

section \<open>Histories of a gate\<close>

text \<open>The calls of the engine loop on one gate, with the arguments each is given.\<close>

datatype cold_op =
    Cold_begin pyfloat "string list" "(string, cold_start_policy) dict" "(string, string) dict"
  | Cold_set_policy string cold_start_policy
  | Cold_set_readiness pyfloat bool
  | Cold_tick pyfloat instant string string stream_health bool bool bool
  | Cold_verify pyfloat instant string string bool "string option" stream_health bool bool
  | Cold_query string

fun cold_step :: "cold_start_engine \<Rightarrow> cold_op \<Rightarrow> cold_start_engine" where
  "cold_step e (Cold_begin tick sids policies symbols) = begin_cold_start tick sids policies symbols e"
| "cold_step e (Cold_set_policy sid p) = set_policy sid p e"
| "cold_step e (Cold_set_readiness tick ok) = set_readiness tick ok e"
| "cold_step e (Cold_tick tick now sid tf h al verified ready) =
     fst (tick_time_bound tick now sid tf h al verified ready e)"
| "cold_step e (Cold_verify tick now sid tf al skip h verified divergent) =
     fst (evaluate_verification tick now sid tf al skip h verified divergent e)"
| "cold_step e (Cold_query sid) = fst (blocks_entry_signals sid e)"

definition cold_run :: "cold_start_config \<Rightarrow> cold_op list \<Rightarrow> cold_start_engine" where
  "cold_run cfg ops = foldl cold_step (new_cold_start_engine cfg) ops"

lemma cold_run_snoc [simp]: "cold_run cfg (ops @ [p]) = cold_step (cold_run cfg ops) p"
  by (simp add: cold_run_def)

lemma cold_step_config [simp]: "ce_config (cold_step e p) = ce_config e"
  by (cases p) simp_all

lemma cold_run_config [simp]: "ce_config (cold_run cfg ops) = cfg"
  by (induction ops rule: rev_induct) (simp_all, simp add: cold_run_def new_cold_start_engine_def)

text \<open>The operation never gives the leg the policy that trades without verification.\<close>

fun keeps_fail_safe :: "string \<Rightarrow> cold_op \<Rightarrow> bool" where
  "keeps_fail_safe sid (Cold_begin tick sids policies symbols) =
     (dict_get policies sid DEFAULT_COLD_START_POLICY = FAIL_SAFE_CLOSE)"
| "keeps_fail_safe sid (Cold_set_policy x p) = (x \<noteq> sid \<or> p = FAIL_SAFE_CLOSE)"
| "keeps_fail_safe sid _ = True"

definition feed_fresh :: "cold_start_config \<Rightarrow> instant \<Rightarrow> string \<Rightarrow> stream_health \<Rightarrow> bool" where
  "feed_fresh cfg now tf h =
     fst (wall_clock_freshness_ok (sh_latest_bar_timestamp h) (bar_period_seconds_for tf) now
            (max_bar_age_for_timeframe tf cfg))"

lemma fst_freshness: "fst (freshness now tf h e) = feed_fresh (ce_config e) now tf h"
  by (simp add: freshness_def feed_fresh_def)

text \<open>
  The operation verified this leg in full; it saw its feed fresh under aligned matrices; it demotes
  a verified leg: a cold start, a tick in readiness that sees the feed stale, or a verification call
  that sees it stale and the matrices misaligned. (A verification call that sees a stale feed under
  aligned matrices demotes nothing, see \<open>stale_aligned_keeps_verified\<close>.)
\<close>

fun shows_verification :: "cold_start_config \<Rightarrow> string \<Rightarrow> cold_op \<Rightarrow> bool" where
  "shows_verification cfg sid (Cold_tick tick now x tf h al verified ready) =
     (x = sid \<and> ready \<and> al \<and> verified \<and> feed_fresh cfg now tf h \<and> stream_is_structurally_intact h)"
| "shows_verification cfg sid (Cold_verify tick now x tf al skip h verified divergent) =
     (x = sid \<and> \<not> divergent \<and> al \<and> skip = None \<and> verified \<and> feed_fresh cfg now tf h \<and> stream_is_structurally_intact h)"
| "shows_verification cfg sid _ = False"

fun restarts_leg :: "string \<Rightarrow> cold_op \<Rightarrow> bool" where
  "restarts_leg sid (Cold_begin tick sids policies symbols) = (sid \<in> set sids)"
| "restarts_leg sid _ = False"

fun shows_parity :: "cold_start_config \<Rightarrow> string \<Rightarrow> cold_op \<Rightarrow> bool" where
  "shows_parity cfg sid (Cold_tick tick now x tf h al verified ready) =
     (x = sid \<and> ready \<and> al \<and> feed_fresh cfg now tf h)"
| "shows_parity cfg sid (Cold_verify tick now x tf al skip h verified divergent) =
     (x = sid \<and> \<not> divergent \<and> al \<and> skip = None \<and> feed_fresh cfg now tf h)"
| "shows_parity cfg sid _ = False"

fun demotes_leg :: "cold_start_config \<Rightarrow> string \<Rightarrow> cold_op \<Rightarrow> bool" where
  "demotes_leg cfg sid (Cold_begin tick sids policies symbols) = (sid \<in> set sids)"
| "demotes_leg cfg sid (Cold_tick tick now x tf h al verified ready) =
     (x = sid \<and> ready \<and> \<not> feed_fresh cfg now tf h)"
| "demotes_leg cfg sid (Cold_verify tick now x tf al skip h verified divergent) =
     (x = sid \<and> \<not> divergent \<and> \<not> (al \<and> skip = None) \<and> \<not> feed_fresh cfg now tf h)"
| "demotes_leg cfg sid _ = False"

lemma fail_safe_policy:
  "list_all (keeps_fail_safe sid) ops \<Longrightarrow> leg_policy sid (cold_run cfg ops) = FAIL_SAFE_CLOSE"
proof (induction ops rule: rev_induct)
  case Nil
  then show ?case
    by (simp add: cold_run_def new_cold_start_engine_def leg_policy_def DEFAULT_COLD_START_POLICY_def)
next
  case (snoc p ops)
  then show ?case by (cases p) (auto split: if_splits)
qed

lemma next_state_fail_safe:
  assumes "current \<notin> {HEURISTIC_PARITY, BYPASS_OVERRIDE}"
  shows "next_state FAIL_SAFE_CLOSE timed_out al verified fresh intact current \<notin> {HEURISTIC_PARITY, BYPASS_OVERRIDE}"
  using assms by (auto simp: next_state_def)

lemma next_state_verified:
  "next_state policy timed_out al verified fresh intact current = STABILIZED_VERIFIED \<Longrightarrow>
     fresh \<and> (al \<or> current = STABILIZED_VERIFIED)"
  by (auto simp: next_state_def split: if_splits)

lemma fail_safe_never_degrades:
  "list_all (keeps_fail_safe sid) ops \<Longrightarrow>
     leg_state sid (cold_run cfg ops) \<notin> {HEURISTIC_PARITY, BYPASS_OVERRIDE}"
proof (induction ops rule: rev_induct)
  case Nil
  then show ?case by (simp add: cold_run_def new_cold_start_engine_def leg_state_def dict_get_def)
next
  case (snoc p ops)
  let ?e = "cold_run cfg ops"
  have cur: "leg_state sid ?e \<notin> {HEURISTIC_PARITY, BYPASS_OVERRIDE}" using snoc by simp
  have pol: "leg_policy sid ?e = FAIL_SAFE_CLOSE" using snoc.prems by (simp add: fail_safe_policy)
  note next_state_fail_safe [OF cur, simplified]
  then show ?case using cur
    by (cases p) (auto simp: tick_state verification_state pol Let_def)
qed

lemma step_verified:
  assumes "leg_state sid (cold_step e p) = STABILIZED_VERIFIED"
  shows "shows_parity (ce_config e) sid p \<or>
         leg_state sid e = STABILIZED_VERIFIED \<and> \<not> demotes_leg (ce_config e) sid p"
  using assms
  by (cases p) (auto simp: tick_state verification_state fst_freshness Let_def
      split: if_splits dest: next_state_verified)

lemma verified_history:
  "leg_state sid (cold_run cfg ops) = STABILIZED_VERIFIED \<Longrightarrow>
     \<exists>pre p post. ops = pre @ p # post \<and> shows_parity cfg sid p \<and> (\<forall>q\<in>set post. \<not> demotes_leg cfg sid q)"
proof (induction ops rule: rev_induct)
  case Nil
  then show ?case by (simp add: cold_run_def new_cold_start_engine_def leg_state_def dict_get_def)
next
  case (snoc q ops)
  have "shows_parity cfg sid q \<or> leg_state sid (cold_run cfg ops) = STABILIZED_VERIFIED \<and> \<not> demotes_leg cfg sid q"
    using step_verified [of sid "cold_run cfg ops" q] snoc.prems by simp
  then show ?case
  proof
    assume "shows_parity cfg sid q"
    then show ?thesis by (intro exI [of _ ops] exI [of _ q] exI [of _ "[]"]) simp
  next
    assume "leg_state sid (cold_run cfg ops) = STABILIZED_VERIFIED \<and> \<not> demotes_leg cfg sid q"
    with snoc.IH obtain pre p post where "ops = pre @ p # post" "shows_parity cfg sid p"
      "\<forall>q\<in>set post. \<not> demotes_leg cfg sid q" "\<not> demotes_leg cfg sid q" by auto
    then show ?thesis by (intro exI [of _ pre] exI [of _ p] exI [of _ "post @ [q]"]) auto
  qed
qed

text \<open>Behind a leg that was verified, demoted or not, stands a full verification since its last cold start.\<close>

lemma next_state_full:
  "next_state policy timed_out al verified fresh intact current \<in> {STABILIZED_VERIFIED, STALE_REVERIFY} \<Longrightarrow>
     al \<and> verified \<and> fresh \<and> intact \<or> current \<in> {STABILIZED_VERIFIED, STALE_REVERIFY}"
  by (auto simp: next_state_def split: if_splits)

lemma step_full:
  assumes "leg_state sid (cold_step e p) \<in> {STABILIZED_VERIFIED, STALE_REVERIFY}"
  shows "shows_verification (ce_config e) sid p \<or>
         leg_state sid e \<in> {STABILIZED_VERIFIED, STALE_REVERIFY} \<and> \<not> restarts_leg sid p"
proof (cases p)
  case (Cold_tick tick now x tf h al verified ready)
  then show ?thesis
    using assms next_state_full [of "leg_policy sid e"] by (auto simp: tick_state fst_freshness split: if_splits)
next
  case (Cold_verify tick now x tf al skip h verified divergent)
  let ?al = "al \<and> skip = None" and ?fresh = "feed_fresh (ce_config e) now tf h" and ?intact = "stream_is_structurally_intact h"
  let ?next = "next_state (leg_policy x e) (cc_max_wait_seconds (ce_config e) \<le> elapsed_seconds tick e)
      ?al verified ?fresh ?intact (leg_state x e)"
  have step: "leg_state sid (cold_step e p) =
      (if sid \<noteq> x \<or> divergent then leg_state sid e
       else if ?al \<and> verified \<and> ?fresh \<and> ?intact then STABILIZED_VERIFIED
       else if ?al \<and> \<not> ?fresh then leg_state x e else ?next)"
    by (simp add: Cold_verify verification_state fst_freshness Let_def)
  show ?thesis
  proof (cases "leg_state sid e \<in> {STABILIZED_VERIFIED, STALE_REVERIFY}")
    case False
    with assms step have on: "x = sid" "\<not> divergent"
      and "?al \<and> verified \<and> ?fresh \<and> ?intact \<or> ?next \<in> {STABILIZED_VERIFIED, STALE_REVERIFY}"
      by (simp_all split: if_splits)
    then have "?al \<and> verified \<and> ?fresh \<and> ?intact" using next_state_full False by blast
    with on show ?thesis by (simp add: Cold_verify)
  qed (simp add: Cold_verify)
qed (use assms in \<open>auto split: if_splits\<close>)

lemma full_history:
  "leg_state sid (cold_run cfg ops) \<in> {STABILIZED_VERIFIED, STALE_REVERIFY} \<Longrightarrow>
     \<exists>pre p post. ops = pre @ p # post \<and> shows_verification cfg sid p \<and> (\<forall>q\<in>set post. \<not> restarts_leg sid q)"
proof (induction ops rule: rev_induct)
  case Nil
  then show ?case by (simp add: cold_run_def new_cold_start_engine_def leg_state_def dict_get_def)
next
  case (snoc q ops)
  have "shows_verification cfg sid q \<or>
      leg_state sid (cold_run cfg ops) \<in> {STABILIZED_VERIFIED, STALE_REVERIFY} \<and> \<not> restarts_leg sid q"
    using step_full [of sid "cold_run cfg ops" q] snoc.prems by simp
  then show ?case
  proof
    assume "shows_verification cfg sid q"
    then show ?thesis by (intro exI [of _ ops] exI [of _ q] exI [of _ "[]"]) simp
  next
    assume "leg_state sid (cold_run cfg ops) \<in> {STABILIZED_VERIFIED, STALE_REVERIFY} \<and> \<not> restarts_leg sid q"
    with snoc.IH obtain pre p post where "ops = pre @ p # post" "shows_verification cfg sid p"
      "\<forall>q\<in>set post. \<not> restarts_leg sid q" "\<not> restarts_leg sid q" by auto
    then show ?thesis by (intro exI [of _ pre] exI [of _ p] exI [of _ "post @ [q]"]) auto
  qed
qed

section \<open>What the gate promises\<close>

text \<open>
  C22: Along every history that never gives a leg the HIGH_AVAILABILITY policy, the gate lets
  its entry signals pass only if since the leg's last cold start an evaluation found its matrices
  aligned, the background verification done, its feed fresh and its stream intact, and an evaluation
  saw the feed fresh under aligned matrices after the last one that demoted the leg: a tick in
  readiness with a stale feed, or a verification call with a stale feed and misaligned matrices.
\<close>

theorem fail_safe_entries_need_parity:
  assumes "list_all (keeps_fail_safe sid) ops" "\<not> snd (blocks_entry_signals sid (cold_run cfg ops))"
  shows "(\<exists>pre v post. ops = pre @ v # post \<and> shows_verification cfg sid v \<and> list_all (\<lambda>q. \<not> restarts_leg sid q) post)
    \<and> (\<exists>pre p post. ops = pre @ p # post \<and> shows_parity cfg sid p \<and> list_all (\<lambda>q. \<not> demotes_leg cfg sid q) post)"
proof -
  have "leg_state sid (cold_run cfg ops) = STABILIZED_VERIFIED"
    using assms fail_safe_never_degrades [of sid ops cfg]
    by (auto simp: blocks_entry_signals_def Let_def split: if_splits)
  then show ?thesis unfolding list_all_iff using full_history verified_history by blast
qed

text \<open>The gate's two queries agree: with positive configured scales a leg's entries are blocked
  exactly when its entry scale is zero, and the two calls leave the same engine behind.\<close>

lemma blocked_iff_zero_scale:
  assumes "0 < cc_heuristic_entry_scale (ce_config e)" "0 < cc_bypass_entry_scale (ce_config e)"
  shows "snd (blocks_entry_signals sid e) \<longleftrightarrow> snd (cold_start_entry_scale sid e) = 0"
    "fst (blocks_entry_signals sid e) = fst (cold_start_entry_scale sid e)"
    "snd (allows_conservative_entries sid e) \<longleftrightarrow> \<not> snd (blocks_entry_signals sid e)"
  using assms
  by (cases "leg_state sid e";
      simp add: blocks_entry_signals_def cold_start_entry_scale_def allows_conservative_entries_def Let_def)+

text \<open>A failed readiness gate suspends the time bound: a tick under it moves no leg, and the
  elapsed time stands still until readiness returns, when it goes on from where it stopped.\<close>

lemma failed_readiness_freezes_leg:
  "leg_state x (fst (tick_time_bound tick now sid tf h al verified False e)) = leg_state x e"
  by (simp add: tick_state)

lemma paused_clock_stands_still:
  assumes "ce_paused_since e = None" "t0 \<le> t1"
  shows "elapsed_seconds t1 (set_readiness t0 False e) = elapsed_seconds t0 e"
  using assms by (auto simp: elapsed_seconds_def set_readiness_def pause_time_bound_progression_def Let_def
      algebra_simps split: option.split)

lemma resumed_clock_goes_on:
  assumes "ce_paused_since e = None" "t0 \<le> t1" "t1 \<le> t2" "0 < elapsed_seconds t0 e"
  shows "elapsed_seconds t2 (set_readiness t1 True (set_readiness t0 False e)) = elapsed_seconds t0 e + (t2 - t1)"
  using assms by (simp add: elapsed_seconds_def set_readiness_def pause_time_bound_progression_def
      resume_time_bound_progression_def Let_def max_def split: option.splits if_splits)

text \<open>A verified leg whose feed has gone stale is demoted, and blocked, by the next ready tick,
  whatever its policy.\<close>

lemma stale_verified_leg_blocked:
  assumes "leg_state sid e = STABILIZED_VERIFIED" "\<not> feed_fresh (ce_config e) now tf h"
  shows "snd (blocks_entry_signals sid (fst (tick_time_bound tick now sid tf h al verified True e)))"
  using assms by (simp add: blocks_entry_signals_def Let_def tick_state fst_freshness next_state_def)

subsection \<open>Divergences from the comments\<close>

text \<open>A verified leg is meant to be re-protected when its feed goes stale, but a verification call
  that finds the matrices aligned returns before the demotion: its entries still pass.\<close>

lemma stale_aligned_keeps_verified:
  assumes "leg_state sid e = STABILIZED_VERIFIED" "\<not> feed_fresh (ce_config e) now tf h"
  shows "\<not> snd (blocks_entry_signals sid (fst (evaluate_verification tick now sid tf True None h verified False e)))"
  using assms by (simp add: blocks_entry_signals_def Let_def verification_state fst_freshness)

text \<open>A HIGH_AVAILABILITY leg that timed out into HEURISTIC_PARITY is moved on to BYPASS_OVERRIDE
  by the very next evaluation that does not verify it, with a fresh and intact stream too.\<close>

lemma heuristic_parity_lasts_one_tick:
  assumes "leg_state sid e = HEURISTIC_PARITY" "leg_policy sid e = HIGH_AVAILABILITY" "\<not> verified"
    "cc_max_wait_seconds (ce_config e) \<le> elapsed_seconds tick (set_readiness tick True e)"
  shows "leg_state sid (fst (tick_time_bound tick now sid tf h al verified True e)) = BYPASS_OVERRIDE"
  using assms by (simp add: tick_state next_state_def)

text \<open>The bypass the timeout engages is permanent under ticks: a stale feed does not demote it,
  and its entries stay admitted.\<close>

lemma bypass_survives_stale_feed:
  assumes "leg_state sid e = BYPASS_OVERRIDE" "leg_policy sid e = HIGH_AVAILABILITY"
  shows "\<not> snd (blocks_entry_signals sid (fst (tick_time_bound tick now sid tf h al verified ready e)))"
  using assms by (simp add: blocks_entry_signals_def Let_def tick_state next_state_def)

text \<open>A verification call takes no readiness: at the same instant at which a tick would hold a leg
  back because readiness has failed, it advances the leg to BYPASS_OVERRIDE.\<close>

lemma verification_ignores_readiness:
  assumes "leg_state sid e = PENDING_START" "leg_policy sid e = HIGH_AVAILABILITY"
    "cc_max_wait_seconds (ce_config e) \<le> elapsed_seconds tick e"
    "\<not> stream_is_structurally_intact h"
  shows "leg_state sid (fst (evaluate_verification tick now sid tf False skip h verified False
           (fst (tick_time_bound tick now sid tf h False verified False e)))) = BYPASS_OVERRIDE"
proof -
  have "elapsed_seconds tick (set_readiness tick False e) = elapsed_seconds tick e"
    by (simp add: elapsed_seconds_def set_readiness_def pause_time_bound_progression_def Let_def split: option.split)
  then show ?thesis using assms
    by (simp add: verification_state tick_time_bound_def Let_def next_state_def)
qed

text \<open>The pause accumulated before a second cold start is subtracted from its clock too.\<close>

lemma second_start_under_counts:
  assumes "0 \<le> ce_paused_accumulated e" "ce_paused_since e = None" "t0 \<le> t"
  shows "elapsed_seconds t (begin_cold_start t0 sids policies symbols e) = max (t - t0 - ce_paused_accumulated e) 0"
proof -
  have "ce_started_at (foldl (begin_leg policies symbols) x sids) = ce_started_at x"
    "ce_paused_since (foldl (begin_leg policies symbols) x sids) = ce_paused_since x"
    "ce_paused_accumulated (foldl (begin_leg policies symbols) x sids) = ce_paused_accumulated x"
    for x :: cold_start_engine by (induction sids arbitrary: x) (auto simp: begin_leg_def)
  then show ?thesis using assms by (simp add: elapsed_seconds_def begin_cold_start_def)
qed

section \<open>Witness\<close>

definition sample_health :: stream_health where
  "sample_health = \<lparr>sh_latest_bar_timestamp = Some 900, sh_prior_bar_timestamp = Some 0, sh_latest_volume = 5,
     sh_prior_volume = 4, sh_bar_count = 2\<rparr>"

definition sample_cold_ops :: "cold_op list" where
  "sample_cold_ops =
     [Cold_begin 0 [''SPY_15'', ''QQQ_15''] [] [(''SPY_15'', ''spy'')],
      Cold_tick 10 1000 ''SPY_15'' ''15Min'' sample_health False False False,
      Cold_verify 60 1000 ''SPY_15'' ''15Min'' True None sample_health True False,
      Cold_query ''SPY_15'']"

theorem fail_safe_entries_need_parity_witness:
  "list_all (keeps_fail_safe ''SPY_15'') sample_cold_ops \<and>
   \<not> snd (blocks_entry_signals ''SPY_15'' (cold_run default_cold_start_config sample_cold_ops)) \<and>
   (\<exists>pre p post. sample_cold_ops = pre @ p # post \<and> shows_verification default_cold_start_config ''SPY_15'' p \<and>
      list_all (\<lambda>q. \<not> restarts_leg ''SPY_15'' q) post)"
proof -
  have a: "list_all (keeps_fail_safe ''SPY_15'') sample_cold_ops" by code_simp
  have b: "\<not> snd (blocks_entry_signals ''SPY_15'' (cold_run default_cold_start_config sample_cold_ops))"
    by code_simp
  show ?thesis using a b fail_safe_entries_need_parity [OF a b] by blast
qed

end
