(* ===== verification/Capacity_Governor.thy ===== *)
theory Capacity_Governor
  imports Prelude
begin

text \<open>
  The capacity governor (\<open>src/engine/capacity_governor.py\<close>): a daily turnover cap scaled by
  equity, with a session lock; the clamp of an order to a share of traded volume; and the
  market-impact model whose coefficients follow the realised impact. The governor's record
  holds its fields and the four tables it writes. The session date (of the New York clock)
  and the time stamps are arguments. Every number is finite, so the \<open>isfinite\<close> filter on
  volumes keeps exactly the positive ones.
\<close>

section \<open>State and tables\<close>

definition DEFAULT_EQUITY_TURNOVER_MULTIPLIER :: pyfloat where "DEFAULT_EQUITY_TURNOVER_MULTIPLIER = 3"
definition DEFAULT_MAX_PARTICIPATION_RATE :: pyfloat where "DEFAULT_MAX_PARTICIPATION_RATE = 1 / 100"
definition DEFAULT_MIN_PARTICIPATION_RATE :: pyfloat where "DEFAULT_MIN_PARTICIPATION_RATE = 25 / 10000"
definition DEFAULT_SQRT_IMPACT_COEFFICIENT :: pyfloat where "DEFAULT_SQRT_IMPACT_COEFFICIENT = 35 / 100"
definition DEFAULT_LINEAR_IMPACT_COEFFICIENT :: pyfloat where "DEFAULT_LINEAR_IMPACT_COEFFICIENT = 8 / 100"
definition IMPACT_COEFFICIENT_EMA_ALPHA :: pyfloat where "IMPACT_COEFFICIENT_EMA_ALPHA = 15 / 100"
definition MIN_BAR_VOLUME_SHARES :: pyfloat where "MIN_BAR_VOLUME_SHARES = 1"
definition SESSION_TOTAL_SYMBOL :: string where "SESSION_TOTAL_SYMBOL = ''__SESSION_TOTAL__''"

text \<open>The metadata of a ledger row, by the event it names.\<close>

datatype turnover_event =
    Realized_fill pyfloat pyfloat
  | Turnover_breach pyfloat
  | Pre_trade_cap_check pyfloat pyfloat pyfloat bool

record turnover_row =
  tv_session_date :: string
  tv_symbol :: string
  tv_timestamp :: instant
  tv_strategy_id :: string
  tv_side :: string
  tv_notional :: pyfloat
  tv_cumulative_notional :: pyfloat
  tv_cap_notional :: pyfloat
  tv_capped :: bool
  tv_event :: turnover_event

record daily_total =
  dt_realized_turnover :: pyfloat
  dt_cap_notional :: pyfloat
  dt_updated_at :: instant

datatype impact_model = Impact_SQRT | Impact_LINEAR | Impact_BLENDED

record impact_coefficients =
  ic_sqrt :: pyfloat
  ic_linear :: pyfloat
  ic_sample_count :: nat
  ic_updated_at :: instant

record turnover_decision =
  td_symbol :: string
  td_session_date :: string
  td_proposed :: pyfloat
  td_allowed :: pyfloat
  td_turnover_so_far :: pyfloat
  td_cap :: pyfloat
  td_equity :: pyfloat
  td_capped :: bool
  td_blocked :: bool
  td_breach :: bool
  td_session_locked :: bool
  td_reason :: string

record clamp_decision =
  pc_symbol :: string
  pc_original :: pyfloat
  pc_clamped_shares :: pyfloat
  pc_rate :: pyfloat
  pc_max_rate :: pyfloat
  pc_bar_volume :: pyfloat
  pc_clamped :: bool
  pc_reason :: string

record impact_result =
  ir_trade_id :: string
  ir_symbol :: string
  ir_expected_bps :: pyfloat
  ir_realized_bps :: pyfloat
  ir_residual_bps :: pyfloat
  ir_model :: impact_model
  ir_sqrt :: pyfloat
  ir_linear :: pyfloat
  ir_adjustment :: pyfloat
  ir_trailing_volume :: pyfloat

text \<open>The keys of the fill dictionary that are read.\<close>

record fill_data =
  fd_trade_id :: "string option"
  fd_symbol :: "string option"
  fd_qty :: "pyfloat option"
  fd_side :: "string option"
  fd_trailing_volume :: "pyfloat option"
  fd_markout_5m :: "pyfloat option"
  fd_markout_1m :: "pyfloat option"
  fd_realized_slippage_bps :: "pyfloat option"
  fd_expected_price :: "pyfloat option"
  fd_filled_price :: "pyfloat option"
  fd_timestamp :: "instant option"

record impact_row =
  im_timestamp :: instant
  im_qty :: pyfloat
  im_side :: string
  im_result :: impact_result

record capacity_governor =
  cv_multiplier :: pyfloat
  cv_max_rate :: pyfloat
  cv_min_rate :: pyfloat
  cv_equity :: pyfloat
  cv_locked :: bool
  cv_breach_reason :: string
  cv_cache :: "(string, pyfloat) dict"
  cv_totals :: "(string \<times> string, daily_total) dict"
  cv_ledger :: "turnover_row list"
  cv_impacts :: "impact_row list"
  cv_coefficients :: "(string, impact_coefficients) dict"

definition new_capacity_governor :: capacity_governor where
  "new_capacity_governor =
     \<lparr>cv_multiplier = DEFAULT_EQUITY_TURNOVER_MULTIPLIER, cv_max_rate = DEFAULT_MAX_PARTICIPATION_RATE,
      cv_min_rate = DEFAULT_MIN_PARTICIPATION_RATE, cv_equity = 0, cv_locked = False, cv_breach_reason = [],
      cv_cache = [], cv_totals = [], cv_ledger = [], cv_impacts = [], cv_coefficients = []\<rparr>"

text \<open>A process restart: a new object with the default fields over the same tables.\<close>

definition restart_governor :: "capacity_governor \<Rightarrow> capacity_governor" where
  "restart_governor g =
     new_capacity_governor\<lparr>cv_totals := cv_totals g, cv_ledger := cv_ledger g, cv_impacts := cv_impacts g,
       cv_coefficients := cv_coefficients g\<rparr>"

section \<open>Turnover\<close>

definition restore_session_state :: "bool \<Rightarrow> string \<Rightarrow> capacity_governor \<Rightarrow> capacity_governor" where
  "restore_session_state is_locked reason g = g\<lparr>cv_locked := is_locked, cv_breach_reason := reason\<rparr>"

definition apply_capacity_config :: "pyfloat \<Rightarrow> pyfloat \<Rightarrow> pyfloat \<Rightarrow> capacity_governor \<Rightarrow> capacity_governor" where
  "apply_capacity_config multiplier max_rate min_rate g =
     g\<lparr>cv_multiplier := multiplier, cv_max_rate := max_rate, cv_min_rate := min_rate\<rparr>"

definition update_account_equity :: "pyfloat \<Rightarrow> capacity_governor \<Rightarrow> capacity_governor" where
  "update_account_equity equity g = g\<lparr>cv_equity := max equity 0\<rparr>"

definition resolve_daily_turnover_cap :: "pyfloat option \<Rightarrow> capacity_governor \<Rightarrow> pyfloat" where
  "resolve_daily_turnover_cap current_equity g =
     (let equity = (case current_equity of None \<Rightarrow> cv_equity g | Some x \<Rightarrow> max x 0)
      in if equity \<le> 0 then 0 else equity * cv_multiplier g)"

definition session_total_key :: "string \<Rightarrow> string" where
  "session_total_key session_date = session_date @ '':'' @ SESSION_TOTAL_SYMBOL"

definition load_session_turnover_total :: "string \<Rightarrow> capacity_governor \<Rightarrow> capacity_governor \<times> pyfloat" where
  "load_session_turnover_total session_date g =
     (let cache_key = session_total_key session_date
      in case map_of (cv_cache g) cache_key of
           Some v \<Rightarrow> (g, v)
         | None \<Rightarrow>
             let v = (case map_of (cv_totals g) (session_date, SESSION_TOTAL_SYMBOL) of
                        None \<Rightarrow> 0 | Some row \<Rightarrow> dt_realized_turnover row)
             in (g\<lparr>cv_cache := AList.update cache_key v (cv_cache g)\<rparr>, v))"

definition engage_session_breach ::
  "instant \<Rightarrow> string \<Rightarrow> string \<Rightarrow> pyfloat \<Rightarrow> pyfloat \<Rightarrow> string \<Rightarrow> pyfloat \<Rightarrow> capacity_governor \<Rightarrow> capacity_governor" where
  "engage_session_breach now symbol sid realized cap session equity g =
     (if cv_locked g then g
      else g\<lparr>cv_locked := True, cv_breach_reason := ''turnover_breach_session_lock'',
             cv_ledger := cv_ledger g @
               [\<lparr>tv_session_date = session, tv_symbol = symbol, tv_timestamp = now, tv_strategy_id = sid,
                 tv_side = [], tv_notional = max (realized - cap) 0, tv_cumulative_notional = realized,
                 tv_cap_notional = cap, tv_capped = True, tv_event = Turnover_breach equity\<rparr>]\<rparr>)"

definition persist_turnover_check ::
  "instant \<Rightarrow> string \<Rightarrow> string \<Rightarrow> string \<Rightarrow> pyfloat \<Rightarrow> pyfloat \<Rightarrow> pyfloat \<Rightarrow> pyfloat \<Rightarrow> pyfloat \<Rightarrow> bool \<Rightarrow> bool
     \<Rightarrow> capacity_governor \<Rightarrow> capacity_governor" where
  "persist_turnover_check now symbol session sid proposed allow_amt cumulative cap equity capped breach g =
     g\<lparr>cv_ledger := cv_ledger g @
         [\<lparr>tv_session_date = session, tv_symbol = symbol, tv_timestamp = now, tv_strategy_id = sid, tv_side = [],
           tv_notional = proposed - allow_amt, tv_cumulative_notional = cumulative, tv_cap_notional = cap,
           tv_capped = capped, tv_event = Pre_trade_cap_check proposed allow_amt equity breach\<rparr>]\<rparr>"

text \<open>\<open>today\<close> is what \<open>_current_session_date\<close> would return.\<close>

definition enforce_daily_turnover_limits ::
  "instant \<Rightarrow> string \<Rightarrow> string \<Rightarrow> pyfloat \<Rightarrow> pyfloat \<Rightarrow> string \<Rightarrow> string option \<Rightarrow> capacity_governor
     \<Rightarrow> capacity_governor \<times> turnover_decision" where
  "enforce_daily_turnover_limits now today symbol proposed_size current_equity sid session_date g =
     (let sy = str_upper symbol;
          proposed = max proposed_size 0;
          equity = max current_equity 0;
          g1 = (if 0 < equity then g\<lparr>cv_equity := equity\<rparr> else g);
          session = or_str session_date today;
          cap = resolve_daily_turnover_cap (Some equity) g1;
          (g2, realized) = load_session_turnover_total session g1;
          remaining = max (cap - realized) 0;
          decision = (\<lambda>allow_amt capped blocked breach is_locked reason.
            \<lparr>td_symbol = sy, td_session_date = session, td_proposed = proposed, td_allowed = allow_amt,
             td_turnover_so_far = realized, td_cap = cap, td_equity = equity, td_capped = capped,
             td_blocked = blocked, td_breach = breach, td_session_locked = is_locked, td_reason = reason\<rparr>)
      in if cv_locked g2
         then (g2, decision 0 True True True True (or_default (cv_breach_reason g2) ''turnover_breach_session_lock''))
         else if proposed \<le> 0 then (g2, decision 0 False True False False ''non_positive_proposed_notional'')
         else if cap \<le> 0 then (g2, decision 0 True True False False ''equity_unavailable_for_turnover_cap'')
         else if cap \<le> realized
         then (engage_session_breach now sy sid realized cap session equity g2,
               decision 0 True True True True ''daily_turnover_cap_exhausted'')
         else
           let allow_amt = min proposed remaining;
               capped = (allow_amt < proposed);
               blocked = (allow_amt \<le> 0);
               reason = (if capped then ''proposed_notional_trimmed_to_remaining_cap'' else ''within_cap'')
           in (if capped \<or> blocked
               then persist_turnover_check now sy session sid proposed allow_amt (realized + allow_amt) cap equity
                      capped False g2
               else g2,
               decision allow_amt capped blocked False False reason))"

text \<open>The positive branch of \<open>record_realized_turnover\<close>: both rows, then the breach.\<close>

definition book_turnover ::
  "instant \<Rightarrow> string \<Rightarrow> pyfloat \<Rightarrow> string \<Rightarrow> string \<Rightarrow> string \<Rightarrow> pyfloat \<Rightarrow> capacity_governor
     \<Rightarrow> capacity_governor \<times> pyfloat" where
  "book_turnover now sy amount sid side session equity g1 =
     (let cap = resolve_daily_turnover_cap (Some equity) g1;
          (g2, prior) = load_session_turnover_total session g1;
          cumulative = prior + amount;
          g3 = g2\<lparr>cv_cache := AList.update (session_total_key session) cumulative (cv_cache g2),
                  cv_totals := AList.update (session, SESSION_TOTAL_SYMBOL)
                    \<lparr>dt_realized_turnover = cumulative, dt_cap_notional = cap, dt_updated_at = now\<rparr> (cv_totals g2),
                  cv_ledger := cv_ledger g2 @
                    [\<lparr>tv_session_date = session, tv_symbol = sy, tv_timestamp = now, tv_strategy_id = sid,
                      tv_side = side, tv_notional = amount, tv_cumulative_notional = cumulative,
                      tv_cap_notional = cap, tv_capped = False, tv_event = Realized_fill equity cumulative\<rparr>]\<rparr>
      in (if 0 < cap \<and> cap < cumulative
          then engage_session_breach now sy sid cumulative cap session equity g3 else g3, cumulative))"

definition record_realized_turnover ::
  "instant \<Rightarrow> string \<Rightarrow> string \<Rightarrow> pyfloat \<Rightarrow> string \<Rightarrow> string \<Rightarrow> string option \<Rightarrow> pyfloat option \<Rightarrow> capacity_governor
     \<Rightarrow> capacity_governor \<times> pyfloat" where
  "record_realized_turnover now today symbol notional sid side session_date current_equity g =
     (let sy = str_upper symbol;
          amount = max notional 0;
          session = or_str session_date today;
          equity = (case current_equity of None \<Rightarrow> cv_equity g | Some x \<Rightarrow> max x 0);
          g1 = (case current_equity of None \<Rightarrow> g | Some _ \<Rightarrow> g\<lparr>cv_equity := equity\<rparr>)
      in if amount \<le> 0 then load_session_turnover_total session g1
         else book_turnover now sy amount sid side session equity g1)"

section \<open>Participation\<close>

text \<open>\<open>numpy.median\<close> of a non-empty array.\<close>

definition np_median :: "pyfloat list \<Rightarrow> pyfloat" where
  "np_median xs =
     (let s = sort xs; n = length xs
      in if odd n then s ! (n div 2) else (s ! (n div 2 - 1) + s ! (n div 2)) / 2)"

definition resolve_participation_rate :: "pyfloat \<Rightarrow> pyfloat \<Rightarrow> capacity_governor \<Rightarrow> pyfloat" where
  "resolve_participation_rate order_shares bar_volume g =
     (if bar_volume \<le> 0 then cv_max_rate g else min (cv_max_rate g) (order_shares / bar_volume))"

definition clamp_participation_rate :: "string \<Rightarrow> pyfloat \<Rightarrow> pyfloat list \<Rightarrow> capacity_governor \<Rightarrow> clamp_decision" where
  "clamp_participation_rate symbol order_size trailing_volume_bars g =
     (let sy = str_upper symbol;
          original = max order_size 0;
          volumes = filter (\<lambda>v. 0 < v) trailing_volume_bars
      in if original \<le> 0
         then \<lparr>pc_symbol = sy, pc_original = original, pc_clamped_shares = 0, pc_rate = 0, pc_max_rate = cv_max_rate g,
               pc_bar_volume = 0, pc_clamped = True, pc_reason = ''zero_order_size''\<rparr>
         else if volumes = []
         then \<lparr>pc_symbol = sy, pc_original = original, pc_clamped_shares = original, pc_rate = 0,
               pc_max_rate = cv_max_rate g, pc_bar_volume = 0, pc_clamped = False, pc_reason = ''no_volume_profile''\<rparr>
         else
           let bar_volume = max (max (last volumes) (np_median volumes)) MIN_BAR_VOLUME_SHARES;
               participation_cap = resolve_participation_rate original bar_volume g;
               max_allowed = bar_volume * cv_max_rate g;
               clamped_shares = min original max_allowed;
               realized_rate = (if 0 < bar_volume then clamped_shares / bar_volume else 0);
               clamped = (clamped_shares < original);
               reason = (if clamped \<and> clamped_shares \<le> 0 then ''participation_limit_blocks_order''
                         else if clamped then ''order_shares_trimmed_to_participation_cap''
                         else ''within_participation_limit'')
           in \<lparr>pc_symbol = sy, pc_original = original, pc_clamped_shares = clamped_shares, pc_rate = realized_rate,
               pc_max_rate = participation_cap, pc_bar_volume = bar_volume, pc_clamped = clamped,
               pc_reason = reason\<rparr>)"

section \<open>Market impact\<close>

definition estimate_sqrt_impact_bps :: "pyfloat \<Rightarrow> pyfloat \<Rightarrow> pyfloat \<Rightarrow> pyfloat" where
  "estimate_sqrt_impact_bps qty trailing_volume sqrt_coeff =
     sqrt_coeff * sqrt (qty / max trailing_volume MIN_BAR_VOLUME_SHARES) * 10000"

definition estimate_linear_impact_bps :: "pyfloat \<Rightarrow> pyfloat \<Rightarrow> pyfloat \<Rightarrow> pyfloat" where
  "estimate_linear_impact_bps qty trailing_volume linear_coeff =
     linear_coeff * (qty / max trailing_volume MIN_BAR_VOLUME_SHARES) * 10000"

definition blend_impact_estimates :: "pyfloat \<Rightarrow> pyfloat \<Rightarrow> pyfloat \<Rightarrow> pyfloat \<Rightarrow> pyfloat" where
  "blend_impact_estimates sqrt_bps linear_bps sqrt_coeff linear_coeff =
     (let total = sqrt_coeff + linear_coeff
      in if total \<le> 0 then 1 / 2 * (sqrt_bps + linear_bps)
         else let sqrt_weight = sqrt_coeff / total in sqrt_weight * sqrt_bps + (1 - sqrt_weight) * linear_bps)"

definition select_impact_model :: "pyfloat \<Rightarrow> pyfloat \<Rightarrow> impact_model" where
  "select_impact_model sqrt_coeff linear_coeff =
     (if \<bar>sqrt_coeff - linear_coeff\<bar> < 1 / 1000000 then Impact_BLENDED
      else if linear_coeff \<le> sqrt_coeff then Impact_SQRT else Impact_LINEAR)"

definition resolve_realized_impact_bps :: "fill_data \<Rightarrow> pyfloat" where
  "resolve_realized_impact_bps f =
     (case (fd_markout_5m f, fd_markout_1m f, fd_realized_slippage_bps f) of
        (Some v, _, _) \<Rightarrow> v
      | (None, Some v, _) \<Rightarrow> v
      | (None, None, Some v) \<Rightarrow> v
      | (None, None, None) \<Rightarrow>
          let expected_price = or_num (fd_expected_price f) 0; filled_price = or_num (fd_filled_price f) 0
          in if 0 < expected_price \<and> 0 < filled_price
             then (if str_lower (or_str (fd_side f) ''buy'') = ''buy''
                   then (filled_price - expected_price) / expected_price
                   else (expected_price - filled_price) / expected_price) * 10000
             else 0)"

definition load_impact_coefficients :: "string \<Rightarrow> capacity_governor \<Rightarrow> pyfloat \<times> pyfloat" where
  "load_impact_coefficients symbol g =
     (case map_of (cv_coefficients g) (str_upper symbol) of
        None \<Rightarrow> (DEFAULT_SQRT_IMPACT_COEFFICIENT, DEFAULT_LINEAR_IMPACT_COEFFICIENT)
      | Some row \<Rightarrow> (ic_sqrt row, ic_linear row))"

definition persist_impact_coefficients ::
  "instant \<Rightarrow> string \<Rightarrow> pyfloat \<Rightarrow> pyfloat \<Rightarrow> capacity_governor \<Rightarrow> capacity_governor" where
  "persist_impact_coefficients now symbol sqrt_coeff linear_coeff g =
     g\<lparr>cv_coefficients := AList.update (str_upper symbol)
         \<lparr>ic_sqrt = sqrt_coeff, ic_linear = linear_coeff,
          ic_sample_count = (case map_of (cv_coefficients g) (str_upper symbol) of
                               None \<Rightarrow> 1 | Some row \<Rightarrow> ic_sample_count row + 1),
          ic_updated_at = now\<rparr> (cv_coefficients g)\<rparr>"

definition persist_impact_estimate ::
  "instant \<Rightarrow> fill_data \<Rightarrow> impact_result \<Rightarrow> capacity_governor \<Rightarrow> capacity_governor" where
  "persist_impact_estimate now f result g =
     g\<lparr>cv_impacts := cv_impacts g @
         [\<lparr>im_timestamp = (case fd_timestamp f of None \<Rightarrow> now | Some ts \<Rightarrow> ts), im_qty = or_num (fd_qty f) 0,
           im_side = or_str (fd_side f) [], im_result = result\<rparr>]\<rparr>"

text \<open>The impact the model expects of a fill, at given coefficients.\<close>

definition expected_impact :: "pyfloat \<Rightarrow> pyfloat \<Rightarrow> pyfloat \<times> pyfloat \<Rightarrow> pyfloat" where
  "expected_impact qty trailing_volume coeffs =
     blend_impact_estimates (estimate_sqrt_impact_bps qty trailing_volume (fst coeffs))
       (estimate_linear_impact_bps qty trailing_volume (snd coeffs)) (fst coeffs) (snd coeffs)"

definition calculate_expected_vs_realized_impact ::
  "instant \<Rightarrow> fill_data \<Rightarrow> capacity_governor \<Rightarrow> capacity_governor \<times> impact_result" where
  "calculate_expected_vs_realized_impact now f g =
     (let symbol = str_upper (or_str (fd_symbol f) []);
          qty = max (or_num (fd_qty f) 0) 0;
          trailing_volume = max (or_num (fd_trailing_volume f) 0) 0;
          (sqrt_coeff, linear_coeff) = load_impact_coefficients symbol g;
          expected = expected_impact qty trailing_volume (sqrt_coeff, linear_coeff);
          model = select_impact_model sqrt_coeff linear_coeff;
          realized = resolve_realized_impact_bps f;
          learns = (1 / 1000000 < expected);
          adjustment = (if learns then IMPACT_COEFFICIENT_EMA_ALPHA * (realized / expected - 1) else 0);
          sqrt_coeff' = (if learns then max (1 / 100) (sqrt_coeff * (1 + adjustment)) else sqrt_coeff);
          linear_coeff' = (if learns then max (1 / 100) (linear_coeff * (1 + adjustment)) else linear_coeff);
          g1 = (if learns then persist_impact_coefficients now symbol sqrt_coeff' linear_coeff' g else g);
          result = \<lparr>ir_trade_id = or_str (fd_trade_id f) [], ir_symbol = symbol, ir_expected_bps = expected,
                    ir_realized_bps = realized, ir_residual_bps = realized - expected, ir_model = model,
                    ir_sqrt = sqrt_coeff', ir_linear = linear_coeff', ir_adjustment = adjustment,
                    ir_trailing_volume = trailing_volume\<rparr>
      in (persist_impact_estimate now f result g1, result))"

section \<open>The turnover account\<close>

definition session_total :: "string \<Rightarrow> capacity_governor \<Rightarrow> pyfloat" where
  "session_total d g =
     (case map_of (cv_totals g) (d, SESSION_TOTAL_SYMBOL) of None \<Rightarrow> 0 | Some row \<Rightarrow> dt_realized_turnover row)"

text \<open>The cache never disagrees with the table.\<close>

definition cache_ok :: "capacity_governor \<Rightarrow> bool" where
  "cache_ok g \<longleftrightarrow> (\<forall>d v. map_of (cv_cache g) (session_total_key d) = Some v \<longrightarrow> v = session_total d g)"

lemma session_total_key_inject [simp]: "session_total_key d = session_total_key d' \<longleftrightarrow> d = d'"
  by (simp add: session_total_key_def)

lemma session_total_cong: "cv_totals g = cv_totals h \<Longrightarrow> session_total d g = session_total d h"
  by (simp add: session_total_def)

lemma cache_ok_cong:
  "cv_cache g = cv_cache h \<Longrightarrow> cv_totals g = cv_totals h \<Longrightarrow> cache_ok g = cache_ok h"
  by (simp add: cache_ok_def session_total_def)

lemma load_frame [simp]:
  "cv_totals (fst (load_session_turnover_total d g)) = cv_totals g"
  "cv_locked (fst (load_session_turnover_total d g)) = cv_locked g"
  "cv_multiplier (fst (load_session_turnover_total d g)) = cv_multiplier g"
  "cv_coefficients (fst (load_session_turnover_total d g)) = cv_coefficients g"
  by (simp_all add: load_session_turnover_total_def Let_def split: option.split)

lemma load_session_total [simp]:
  "session_total d (fst (load_session_turnover_total d' g)) = session_total d g"
  by (simp add: session_total_def)

lemma load_total: "cache_ok g \<Longrightarrow> snd (load_session_turnover_total d g) = session_total d g"
proof (cases "map_of (cv_cache g) (session_total_key d)")
  case None
  then show ?thesis by (simp add: load_session_turnover_total_def session_total_def Let_def)
next
  case (Some v)
  then show "cache_ok g \<Longrightarrow> ?thesis" by (simp add: load_session_turnover_total_def cache_ok_def Let_def)
qed

lemma load_cache_ok: "cache_ok g \<Longrightarrow> cache_ok (fst (load_session_turnover_total d g))"
  by (auto simp: load_session_turnover_total_def cache_ok_def session_total_def Let_def split: option.split)

lemma breach_frame [simp]:
  "cv_totals (engage_session_breach now sy sid x cap d eq g) = cv_totals g"
  "cv_cache (engage_session_breach now sy sid x cap d eq g) = cv_cache g"
  "cv_multiplier (engage_session_breach now sy sid x cap d eq g) = cv_multiplier g"
  "cv_coefficients (engage_session_breach now sy sid x cap d eq g) = cv_coefficients g"
  "cv_locked (engage_session_breach now sy sid x cap d eq g)"
  by (simp_all add: engage_session_breach_def)

lemma turnover_check_frame [simp]:
  "cv_totals (persist_turnover_check now sy d sid p a c cap eq k b g) = cv_totals g"
  "cv_cache (persist_turnover_check now sy d sid p a c cap eq k b g) = cv_cache g"
  "cv_multiplier (persist_turnover_check now sy d sid p a c cap eq k b g) = cv_multiplier g"
  "cv_locked (persist_turnover_check now sy d sid p a c cap eq k b g) = cv_locked g"
  "cv_coefficients (persist_turnover_check now sy d sid p a c cap eq k b g) = cv_coefficients g"
  by (simp_all add: persist_turnover_check_def)

text \<open>A pre-trade check reads the account and may lock it; it moves no money.\<close>

lemma enforce_frame [simp]:
  "cv_totals (fst (enforce_daily_turnover_limits now today sy p eq sid sd g)) = cv_totals g"
  "cv_multiplier (fst (enforce_daily_turnover_limits now today sy p eq sid sd g)) = cv_multiplier g"
  "cv_coefficients (fst (enforce_daily_turnover_limits now today sy p eq sid sd g)) = cv_coefficients g"
  "cv_cache (fst (enforce_daily_turnover_limits now today sy p eq sid sd g)) =
     cv_cache (fst (load_session_turnover_total (or_str sd today) g))"
  by (simp_all add: enforce_daily_turnover_limits_def Let_def split_beta)
     (simp_all add: load_session_turnover_total_def Let_def split: option.split)

lemma enforce_cache_ok:
  "cache_ok g \<Longrightarrow> cache_ok (fst (enforce_daily_turnover_limits now today sy p eq sid sd g))"
  using load_cache_ok [of g] by (simp add: cache_ok_def session_total_def)

lemma book_total:
  assumes "cache_ok g"
  shows "session_total d (fst (book_turnover now sy x sid side session eq g)) =
           session_total d g + (if d = session then x else 0)"
    "cache_ok (fst (book_turnover now sy x sid side session eq g))"
    "cv_multiplier (fst (book_turnover now sy x sid side session eq g)) = cv_multiplier g"
    "cv_coefficients (fst (book_turnover now sy x sid side session eq g)) = cv_coefficients g"
    "cv_locked g \<Longrightarrow> cv_locked (fst (book_turnover now sy x sid side session eq g))"
proof -
  note load_total [OF assms, of session, simp]
  show "session_total d (fst (book_turnover now sy x sid side session eq g)) =
      session_total d g + (if d = session then x else 0)"
    by (simp add: book_turnover_def Let_def split_beta session_total_def)
  show "cache_ok (fst (book_turnover now sy x sid side session eq g))"
    using load_cache_ok [OF assms, of session]
    by (auto simp: book_turnover_def Let_def split_beta cache_ok_def session_total_def)
qed (simp_all add: book_turnover_def Let_def split_beta)

lemma record_shape:
  obtains e eq where
    "record_realized_turnover now today sy x sid side sd ce g =
       (if x \<le> 0 then load_session_turnover_total (or_str sd today) (g\<lparr>cv_equity := e\<rparr>)
        else book_turnover now (str_upper sy) x sid side (or_str sd today) eq (g\<lparr>cv_equity := e\<rparr>))"
proof (cases ce)
  case None
  show ?thesis
    by (rule that [of "cv_equity g" "cv_equity g"]) (simp add: record_realized_turnover_def None Let_def max_def)
next
  case (Some a)
  show ?thesis
    by (rule that [of "max a 0" "max a 0"]) (simp add: record_realized_turnover_def Some Let_def max_def)
qed

lemma equity_irrelevant [simp]:
  "cache_ok (g\<lparr>cv_equity := e\<rparr>) = cache_ok g" "session_total d (g\<lparr>cv_equity := e\<rparr>) = session_total d g"
  by (simp_all add: cache_ok_def session_total_def)

lemma record_total:
  assumes "cache_ok g"
  shows "session_total d (fst (record_realized_turnover now today sy x sid side sd ce g)) =
           session_total d g + (if d = or_str sd today then max x 0 else 0)"
    "cache_ok (fst (record_realized_turnover now today sy x sid side sd ce g))"
    "cv_multiplier (fst (record_realized_turnover now today sy x sid side sd ce g)) = cv_multiplier g"
    "cv_coefficients (fst (record_realized_turnover now today sy x sid side sd ce g)) = cv_coefficients g"
    "cv_locked g \<Longrightarrow> cv_locked (fst (record_realized_turnover now today sy x sid side sd ce g))"
proof -
  obtain e eq where shape: "record_realized_turnover now today sy x sid side sd ce g =
       (if x \<le> 0 then load_session_turnover_total (or_str sd today) (g\<lparr>cv_equity := e\<rparr>)
        else book_turnover now (str_upper sy) x sid side (or_str sd today) eq (g\<lparr>cv_equity := e\<rparr>))"
    by (rule record_shape)
  have ok: "cache_ok (g\<lparr>cv_equity := e\<rparr>)" using assms by simp
  show "session_total d (fst (record_realized_turnover now today sy x sid side sd ce g)) =
           session_total d g + (if d = or_str sd today then max x 0 else 0)"
    by (simp add: shape book_total(1) [OF ok])
  show "cache_ok (fst (record_realized_turnover now today sy x sid side sd ce g))"
    by (simp add: shape load_cache_ok [OF ok] book_total(2) [OF ok])
  show "cv_multiplier (fst (record_realized_turnover now today sy x sid side sd ce g)) = cv_multiplier g"
    "cv_coefficients (fst (record_realized_turnover now today sy x sid side sd ce g)) = cv_coefficients g"
    by (simp_all add: shape book_total(3,4) [OF ok])
  show "cv_locked (fst (record_realized_turnover now today sy x sid side sd ce g))" if "cv_locked g"
    using that by (simp add: shape book_total(5) [OF ok])
qed

section \<open>Histories\<close>

datatype capacity_op =
    Cap_enforce instant string string pyfloat pyfloat string "string option"
  | Cap_record instant string string pyfloat string string "string option" "pyfloat option"
  | Cap_config pyfloat pyfloat pyfloat
  | Cap_equity pyfloat
  | Cap_impact instant fill_data
  | Cap_restore bool string
  | Cap_restart

fun capacity_step :: "capacity_governor \<Rightarrow> capacity_op \<Rightarrow> capacity_governor" where
  "capacity_step g (Cap_enforce now today sy p eq sid sd) =
     fst (enforce_daily_turnover_limits now today sy p eq sid sd g)"
| "capacity_step g (Cap_record now today sy x sid side sd ce) =
     fst (record_realized_turnover now today sy x sid side sd ce g)"
| "capacity_step g (Cap_config m hi lo) = apply_capacity_config m hi lo g"
| "capacity_step g (Cap_equity e) = update_account_equity e g"
| "capacity_step g (Cap_impact now f) = fst (calculate_expected_vs_realized_impact now f g)"
| "capacity_step g (Cap_restore l r) = restore_session_state l r g"
| "capacity_step g Cap_restart = restart_governor g"

fun booked :: "string \<Rightarrow> capacity_op \<Rightarrow> pyfloat" where
  "booked d (Cap_record now today sy x sid side sd ce) = (if d = or_str sd today then max x 0 else 0)"
| "booked d _ = 0"

fun releases_lock :: "capacity_op \<Rightarrow> bool" where
  "releases_lock (Cap_restore l r) = (\<not> l)"
| "releases_lock Cap_restart = True"
| "releases_lock _ = False"

lemma impact_frame [simp]:
  "cv_totals (fst (calculate_expected_vs_realized_impact now f g)) = cv_totals g"
  "cv_cache (fst (calculate_expected_vs_realized_impact now f g)) = cv_cache g"
  "cv_locked (fst (calculate_expected_vs_realized_impact now f g)) = cv_locked g"
  by (simp_all add: calculate_expected_vs_realized_impact_def Let_def split_beta persist_impact_estimate_def
      persist_impact_coefficients_def)

lemma setters_account [simp]:
  "cache_ok (apply_capacity_config m hi lo g) = cache_ok g" "cache_ok (update_account_equity e g) = cache_ok g"
  "cache_ok (restore_session_state l r g) = cache_ok g" "cache_ok (restart_governor g)"
  "cache_ok (fst (calculate_expected_vs_realized_impact now f g)) = cache_ok g"
  "session_total d (apply_capacity_config m hi lo g) = session_total d g"
  "session_total d (update_account_equity e g) = session_total d g"
  "session_total d (restore_session_state l r g) = session_total d g"
  "session_total d (restart_governor g) = session_total d g"
  "session_total d (fst (calculate_expected_vs_realized_impact now f g)) = session_total d g"
  by (simp_all add: apply_capacity_config_def update_account_equity_def restore_session_state_def
      restart_governor_def new_capacity_governor_def cache_ok_def session_total_def)

lemma enforce_session_total [simp]:
  "session_total d (fst (enforce_daily_turnover_limits now today sy p eq sid sd g)) = session_total d g"
  by (simp add: session_total_def)

lemma step_account:
  assumes "cache_ok g"
  shows "cache_ok (capacity_step g p)" "session_total d (capacity_step g p) = session_total d g + booked d p"
  using assms by (cases p; simp add: enforce_cache_ok record_total)+

interpretation turnover_account: invariant_machine capacity_step cache_ok
  by unfold_locales (rule step_account)

lemma run_account:
  "cache_ok g \<Longrightarrow> session_total d (foldl capacity_step g ops) = session_total d g + sum_list (map (booked d) ops)"
  by (induction ops arbitrary: g) (simp_all add: step_account)

lemma new_governor_ok [simp]: "cache_ok new_capacity_governor" "session_total d new_capacity_governor = 0"
  "cv_multiplier new_capacity_governor = 3"
  by (simp_all add: new_capacity_governor_def cache_ok_def session_total_def DEFAULT_EQUITY_TURNOVER_MULTIPLIER_def)

text \<open>
  After any history of checks, fills, configuration changes, lock restores and process
  restarts, the turnover the governor reads for a session is exactly the sum of the positive
  fills recorded for that session, whether it comes from the cache or from the table.
\<close>

theorem session_turnover_is_sum:
  "snd (load_session_turnover_total d (foldl capacity_step new_capacity_governor ops)) = sum_list (map (booked d) ops)"
  using load_total [OF turnover_account.inv_run [OF new_governor_ok(1)]] run_account [OF new_governor_ok(1)]
  by simp

section \<open>The cap\<close>

lemma enforce_allowed:
  fixes now today sy p eq sid sd g
  defines "dec \<equiv> snd (enforce_daily_turnover_limits now today sy p eq sid sd g)"
  assumes "cache_ok g"
  shows "0 \<le> td_allowed dec" "td_allowed dec \<le> max p 0"
    "0 < td_allowed dec \<Longrightarrow>
       session_total (or_str sd today) g + td_allowed dec \<le> max eq 0 * cv_multiplier g"
    "td_blocked dec \<longleftrightarrow> td_allowed dec \<le> 0"
    "cv_locked g \<Longrightarrow> td_allowed dec = 0 \<and> td_breach dec"
proof -
  have load: "snd (load_session_turnover_total d (g\<lparr>cv_equity := e\<rparr>)) = session_total d g" for d e
    using load_total [of "g\<lparr>cv_equity := e\<rparr>"] assms(2) by simp
  note defs = dec_def enforce_daily_turnover_limits_def Let_def split_beta load load_total [OF assms(2)]
  show "0 \<le> td_allowed dec" by (simp add: defs)
  show "td_allowed dec \<le> max p 0" by (simp add: defs)
  show "0 < td_allowed dec \<Longrightarrow> session_total (or_str sd today) g + td_allowed dec \<le> max eq 0 * cv_multiplier g"
    by (simp add: defs resolve_daily_turnover_cap_def split: if_splits)
  show "td_blocked dec \<longleftrightarrow> td_allowed dec \<le> 0" by (simp add: defs)
  show "td_allowed dec = 0 \<and> td_breach dec" if "cv_locked g" using that by (simp add: defs)
qed

text \<open>A trade as the engine runs it: the pre-trade check, then the fill of at most what was allowed.\<close>

record guarded_trade =
  gd_now :: instant
  gd_today :: string
  gd_symbol :: string
  gd_proposed :: pyfloat
  gd_equity :: pyfloat
  gd_strategy :: string
  gd_fill :: pyfloat

definition guarded_trade_step :: "capacity_governor \<Rightarrow> guarded_trade \<Rightarrow> capacity_governor" where
  "guarded_trade_step g t =
     (let (g1, dec) = enforce_daily_turnover_limits (gd_now t) (gd_today t) (gd_symbol t) (gd_proposed t)
            (gd_equity t) (gd_strategy t) None g
      in fst (record_realized_turnover (gd_now t) (gd_today t) (gd_symbol t) (min (gd_fill t) (td_allowed dec))
                (gd_strategy t) ''buy'' None (Some (gd_equity t)) g1))"

lemma guarded_step:
  assumes "cache_ok g"
  shows "cache_ok (guarded_trade_step g t)" "cv_multiplier (guarded_trade_step g t) = cv_multiplier g"
    "session_total d (guarded_trade_step g t) \<le> max (session_total d g) (max (gd_equity t) 0 * cv_multiplier g)"
proof -
  let ?e = "enforce_daily_turnover_limits (gd_now t) (gd_today t) (gd_symbol t) (gd_proposed t)
      (gd_equity t) (gd_strategy t) None g"
  note ok = enforce_cache_ok [OF assms, of "gd_now t" "gd_today t" "gd_symbol t" "gd_proposed t"
      "gd_equity t" "gd_strategy t" None]
  note a = enforce_allowed [OF assms, of "gd_now t" "gd_today t" "gd_symbol t" "gd_proposed t"
      "gd_equity t" "gd_strategy t" None]
  show "cache_ok (guarded_trade_step g t)" "cv_multiplier (guarded_trade_step g t) = cv_multiplier g"
    by (simp_all add: guarded_trade_step_def split_beta record_total [OF ok])
  have today: "or_str None (gd_today t) = gd_today t" by (simp add: or_str_def)
  have "session_total d (guarded_trade_step g t) =
      session_total d g + (if d = gd_today t then max (min (gd_fill t) (td_allowed (snd ?e))) 0 else 0)"
    by (simp add: guarded_trade_step_def split_beta record_total [OF ok] today)
  then show "session_total d (guarded_trade_step g t) \<le>
      max (session_total d g) (max (gd_equity t) 0 * cv_multiplier g)"
    using a(1,3) by (auto simp: today max_def min_def split: if_splits)
qed

lemma guarded_run:
  assumes "cache_ok g" "0 \<le> cv_multiplier g" "\<forall>t\<in>set ts. gd_equity t \<le> E" "0 \<le> E"
    "session_total d g \<le> E * cv_multiplier g"
  shows "session_total d (foldl guarded_trade_step g ts) \<le> E * cv_multiplier g"
  using assms
proof (induction ts arbitrary: g)
  case (Cons t ts)
  note step = guarded_step [OF Cons.prems(1), where t = t]
  have "max (gd_equity t) 0 * cv_multiplier g \<le> E * cv_multiplier g"
    using Cons.prems by (intro mult_right_mono) simp_all
  then have "session_total d (guarded_trade_step g t) \<le> E * cv_multiplier g"
    using step(3) [where d = d] Cons.prems(5) by linarith
  then show ?case using Cons.IH [of "guarded_trade_step g t"] Cons.prems step(1,2) by simp
qed simp

text \<open>
  If every fill stays within what its pre-trade check allowed, the turnover of a session
  never exceeds three times the highest equity the checks were given, whatever is proposed.
\<close>

theorem guarded_turnover_within_cap:
  assumes "\<forall>t\<in>set ts. gd_equity t \<le> E" "0 \<le> E"
  shows "session_total d (foldl guarded_trade_step new_capacity_governor ts) \<le> 3 * E"
  using guarded_run [OF new_governor_ok(1) _ assms, of d] assms(2) by (simp add: mult.commute)

definition sample_guarded_trades :: "guarded_trade list" where
  "sample_guarded_trades =
     [\<lparr>gd_now = 0, gd_today = ''2026-03-02'', gd_symbol = ''spy'', gd_proposed = 250, gd_equity = 100,
       gd_strategy = ''SPY_15'', gd_fill = 250\<rparr>,
      \<lparr>gd_now = 1, gd_today = ''2026-03-02'', gd_symbol = ''spy'', gd_proposed = 250, gd_equity = 100,
       gd_strategy = ''SPY_15'', gd_fill = 250\<rparr>]"

theorem guarded_turnover_within_cap_witness:
  "list_all (\<lambda>t. gd_equity t \<le> 100) sample_guarded_trades \<and>
   session_total ''2026-03-02'' (foldl guarded_trade_step new_capacity_governor sample_guarded_trades) = 300 \<and>
   session_total ''2026-03-02'' (foldl guarded_trade_step new_capacity_governor sample_guarded_trades) \<le> 3 * 100"
proof -
  have a: "\<forall>t\<in>set sample_guarded_trades. gd_equity t \<le> 100" by (simp add: sample_guarded_trades_def)
  have b: "session_total ''2026-03-02'' (foldl guarded_trade_step new_capacity_governor sample_guarded_trades) = 300"
    by code_simp
  show ?thesis using a b guarded_turnover_within_cap [OF a, of "''2026-03-02''"] by (simp add: list_all_iff)
qed

text \<open>What the bound rests on: an allowance is not reserved, so two checks made before either fill
  is recorded both hand out the whole remainder.\<close>

lemma allowances_are_not_reserved:
  fixes now d sy p eq sid g
  defines "once \<equiv> enforce_daily_turnover_limits now d sy p eq sid None g"
  assumes "cache_ok g" "\<not> cv_locked g" "0 < p" "0 < eq * cv_multiplier g" "0 < eq"
    "session_total d g + p \<le> eq * cv_multiplier g"
  shows "td_allowed (snd once) = p"
    "td_allowed (snd (enforce_daily_turnover_limits now d sy p eq sid None (fst once))) = p"
proof -
  have within: "td_allowed (snd (enforce_daily_turnover_limits now d sy p eq sid None h)) = p \<and>
      fst (enforce_daily_turnover_limits now d sy p eq sid None h) =
        fst (load_session_turnover_total d (h\<lparr>cv_equity := eq\<rparr>))"
    if "cache_ok h" "\<not> cv_locked h" "cv_multiplier h = cv_multiplier g" "session_total d h = session_total d g" for h
    using assms that load_total [of "h\<lparr>cv_equity := eq\<rparr>" d]
    by (simp add: enforce_daily_turnover_limits_def Let_def split_beta resolve_daily_turnover_cap_def or_str_def)
  show "td_allowed (snd once) = p" using within [of g] assms by (simp add: once_def)
  have "fst once = fst (load_session_turnover_total d (g\<lparr>cv_equity := eq\<rparr>))"
    using within [of g] assms by (simp add: once_def)
  then show "td_allowed (snd (enforce_daily_turnover_limits now d sy p eq sid None (fst once))) = p"
    using within [of "fst once"] assms by (simp add: load_cache_ok)
qed

section \<open>The lock\<close>

lemma locked_step: "cache_ok g \<Longrightarrow> cv_locked g \<Longrightarrow> \<not> releases_lock p \<Longrightarrow> cv_locked (capacity_step g p)"
proof (cases p)
  case (Cap_enforce now today sy x eq sid sd)
  then show "cv_locked g \<Longrightarrow> ?thesis" by (simp add: enforce_daily_turnover_limits_def Let_def split_beta)
qed (auto simp: record_total apply_capacity_config_def update_account_equity_def restore_session_state_def)

text \<open>The machine of every operation but the two that replace the lock.\<close>

definition trading_step :: "capacity_governor \<Rightarrow> capacity_op \<Rightarrow> capacity_governor" where
  "trading_step g p = (if releases_lock p then g else capacity_step g p)"

interpretation session_lock: latched_machine trading_step cache_ok cv_locked
  by unfold_locales (simp_all add: trading_step_def step_account locked_step)

text \<open>Once the session lock is engaged no operation but a restore or a restart ends it: every later
  check refuses, whatever the symbol, the size, the equity and the session date, so the lock of
  one session also blocks the following ones.\<close>

theorem locked_governor_refuses:
  assumes "cv_locked (foldl trading_step new_capacity_governor ops)"
  shows "td_allowed (snd (enforce_daily_turnover_limits now today sy p eq sid sd
           (foldl trading_step new_capacity_governor (ops @ later)))) = 0"
proof -
  have "cv_locked (foldl trading_step new_capacity_governor (ops @ later))"
    by (rule session_lock.latch_append) (simp_all add: assms)
  then show ?thesis
    using enforce_allowed(5) [OF session_lock.inv_run [OF new_governor_ok(1)]] by blast
qed

section \<open>Participation and impact\<close>

lemma clamp_shape:
  assumes "0 < n" "filter (\<lambda>v. 0 < v) vols \<noteq> []"
  obtains bv where "1 \<le> bv" "pc_clamped_shares (clamp_participation_rate sy n vols g) = min n (bv * cv_max_rate g)"
    "pc_bar_volume (clamp_participation_rate sy n vols g) = bv"
    "pc_original (clamp_participation_rate sy n vols g) = n"
    "pc_clamped (clamp_participation_rate sy n vols g) = (min n (bv * cv_max_rate g) < n)"
proof
  let ?bv = "max (max (last (filter (\<lambda>v. 0 < v) vols)) (np_median (filter (\<lambda>v. 0 < v) vols))) MIN_BAR_VOLUME_SHARES"
  show "1 \<le> ?bv" by (simp only: MIN_BAR_VOLUME_SHARES_def max.cobounded2)
  have c: "max n 0 = n" "(n \<le> 0) = False" "(filter (\<lambda>v. 0 < v) vols = []) = False" using assms by simp_all
  show "pc_clamped_shares (clamp_participation_rate sy n vols g) = min n (?bv * cv_max_rate g)"
    "pc_bar_volume (clamp_participation_rate sy n vols g) = ?bv"
    "pc_original (clamp_participation_rate sy n vols g) = n"
    "pc_clamped (clamp_participation_rate sy n vols g) = (min n (?bv * cv_max_rate g) < n)"
    by (simp_all only: clamp_participation_rate_def Let_def c if_False clamp_decision.simps)
qed

text \<open>The clamp never raises an order, never lets it exceed the configured share of the bar volume
  it reports, and flags exactly the orders it reduced; without any traded volume it lets the
  order pass whole. The minimum rate is not looked at.\<close>

theorem clamp_bounds:
  assumes "0 \<le> cv_max_rate g" "0 < n" "filter (\<lambda>v. 0 < v) vols \<noteq> []"
  shows "0 \<le> pc_clamped_shares (clamp_participation_rate sy n vols g)"
    "pc_clamped_shares (clamp_participation_rate sy n vols g) \<le> n"
    "pc_clamped_shares (clamp_participation_rate sy n vols g) \<le>
       cv_max_rate g * pc_bar_volume (clamp_participation_rate sy n vols g)"
    "pc_clamped (clamp_participation_rate sy n vols g) \<longleftrightarrow>
       pc_clamped_shares (clamp_participation_rate sy n vols g) < n"
proof -
  obtain bv where b: "1 \<le> bv" "pc_clamped_shares (clamp_participation_rate sy n vols g) = min n (bv * cv_max_rate g)"
    "pc_bar_volume (clamp_participation_rate sy n vols g) = bv"
    "pc_clamped (clamp_participation_rate sy n vols g) = (min n (bv * cv_max_rate g) < n)"
    by (rule clamp_shape [OF assms(2,3)])
  show "0 \<le> pc_clamped_shares (clamp_participation_rate sy n vols g)" using b(1) assms by (simp add: b(2))
  show "pc_clamped_shares (clamp_participation_rate sy n vols g) \<le> n" by (simp add: b(2))
  show "pc_clamped_shares (clamp_participation_rate sy n vols g) \<le>
       cv_max_rate g * pc_bar_volume (clamp_participation_rate sy n vols g)" by (simp add: b(2,3) mult.commute)
  show "pc_clamped (clamp_participation_rate sy n vols g) \<longleftrightarrow>
       pc_clamped_shares (clamp_participation_rate sy n vols g) < n" by (simp only: b(2,4))
qed

lemma no_volume_no_clamp:
  "0 < n \<Longrightarrow> filter (\<lambda>v. 0 < v) vols = [] \<Longrightarrow> pc_clamped_shares (clamp_participation_rate sy n vols g) = n"
  by (simp add: clamp_participation_rate_def)

lemma min_rate_unused: "clamp_participation_rate sy n vols (g\<lparr>cv_min_rate := r\<rparr>) = clamp_participation_rate sy n vols g"
proof -
  have "cv_max_rate (g\<lparr>cv_min_rate := r\<rparr>) = cv_max_rate g" by simp
  then show ?thesis by (simp only: clamp_participation_rate_def resolve_participation_rate_def)
qed

text \<open>Scaling both coefficients scales the expected impact: the blend weights do not move.\<close>

lemma expected_impact_scale:
  assumes "0 < k" "0 < a" "0 < b"
  shows "expected_impact q v (a * k, b * k) = k * expected_impact q v (a, b)"
proof -
  have w: "a * k / (a * k + b * k) = a / (a + b)" using assms by (simp add: distrib_right [symmetric])
  have p: "0 < a * k + b * k" "0 < a + b" using assms by (simp_all add: add_pos_pos)
  show ?thesis
    unfolding expected_impact_def blend_impact_estimates_def fst_conv snd_conv Let_def
    using p by (simp add: w not_le estimate_sqrt_impact_bps_def estimate_linear_impact_bps_def algebra_simps)
qed

text \<open>
  The impact model is an exponential moving average of what it observes: after a fill the
  impact it expects of the same fill has moved by fifteen percent of the residual towards the
  realised impact, as long as the floor on the coefficients is not reached.
\<close>

theorem impact_model_is_ema:
  fixes now and f :: fill_data and g :: capacity_governor
  defines "r \<equiv> snd (calculate_expected_vs_realized_impact now f g)"
    and "h \<equiv> fst (calculate_expected_vs_realized_impact now f g)"
  assumes "1 / 1000000 < ir_expected_bps r"
    and "0 < fst (load_impact_coefficients (ir_symbol r) g)" "0 < snd (load_impact_coefficients (ir_symbol r) g)"
    and "1 / 100 < ir_sqrt r" "1 / 100 < ir_linear r"
  shows "ir_expected_bps (snd (calculate_expected_vs_realized_impact later f h)) =
           ir_expected_bps r + 15 / 100 * ir_residual_bps r"
proof -
  define a where "a = fst (load_impact_coefficients (ir_symbol r) g)"
  define b where "b = snd (load_impact_coefficients (ir_symbol r) g)"
  define k where "k = 1 + ir_adjustment r"
  define q where "q = max (or_num (fd_qty f) 0) 0"
  define v where "v = max (or_num (fd_trailing_volume f) 0) 0"
  have sy: "ir_symbol r = str_upper (or_str (fd_symbol f) [])"
    by (simp add: r_def calculate_expected_vs_realized_impact_def Let_def split_beta)
  have expd: "ir_expected_bps r = expected_impact q v (a, b)"
    by (simp add: r_def a_def b_def q_def v_def calculate_expected_vs_realized_impact_def Let_def split_beta)
  have new: "ir_sqrt r = max (1 / 100) (a * k)" "ir_linear r = max (1 / 100) (b * k)"
    "ir_adjustment r = 15 / 100 * (ir_realized_bps r / ir_expected_bps r - 1)"
    "ir_residual_bps r = ir_realized_bps r - ir_expected_bps r"
    using assms(3) by (simp_all add: r_def a_def b_def k_def calculate_expected_vs_realized_impact_def Let_def
        split_beta IMPACT_COEFFICIENT_EMA_ALPHA_def)
  have scaled: "ir_sqrt r = a * k" "ir_linear r = b * k" using new assms(6,7) by auto
  have "0 < k" using scaled(1) assms(4,6) zero_less_mult_pos [of a k] by (simp add: a_def)
  have load: "load_impact_coefficients (ir_symbol r) h = (ir_sqrt r, ir_linear r)"
    using assms(3) by (simp add: h_def r_def calculate_expected_vs_realized_impact_def Let_def split_beta
        load_impact_coefficients_def persist_impact_estimate_def persist_impact_coefficients_def)
  have "ir_expected_bps (snd (calculate_expected_vs_realized_impact later f h)) = expected_impact q v (a * k, b * k)"
    using load by (simp add: calculate_expected_vs_realized_impact_def Let_def split_beta sy scaled q_def v_def)
  also have "\<dots> = k * ir_expected_bps r"
    using expected_impact_scale [OF \<open>0 < k\<close>] assms(4,5) by (simp add: expd a_def b_def)
  also have "\<dots> = ir_expected_bps r + 15 / 100 * ir_residual_bps r"
    using assms(3) by (simp add: k_def new(3,4) field_simps)
  finally show ?thesis .
qed

end
