(* ===== verification/Governance_Registry.thy ===== *)
theory Governance_Registry
  imports Config_Chain
begin

text \<open>
  The change journal, the kill-switch registry and the pre-flight latch
  (\<open>src/engine/governance.py\<close>). The journal is the list of its rows; its triggers refuse
  updates and deletes, so the next id is the length plus one. JSON states are values of type
  \<open>cfg\<close>: rendering one into a column and parsing it back gives it again. Canonical JSON and
  HMAC-SHA256 together are the parameter \<open>sign\<close>, from a key and the signed fields to a tag,
  SHA-256 is the parameter \<open>sha\<close>; the environment variable of the key is an argument. The
  registry table is a dictionary on its primary key; the circuit-breaker state file is a
  value beside it.
\<close>

section \<open>The change journal\<close>

datatype triggered_by = SYSTEM_AUTOMATIC | HUMAN_OPERATOR

definition SYSTEM_OPERATOR_MARKERS :: "string list" where
  "SYSTEM_OPERATOR_MARKERS =
     [''risk_escalation'', ''governor'', ''system'', ''automatic'', ''degrad'', ''preempt'', ''boot_recon'',
      ''reconcil'', ''watchdog'', ''kill_switch'', ''capacity'']"

text \<open>\<open>marker in op\<close>.\<close>

fun str_contains :: "string \<Rightarrow> string \<Rightarrow> bool" where
  "str_contains m [] = (m = [])"
| "str_contains m (c # s) = (take (length m) (c # s) = m \<or> str_contains m s)"

definition actor_from_operator :: "string \<Rightarrow> triggered_by" where
  "actor_from_operator operator =
     (let op = str_lower (str_strip operator)
      in if list_ex (\<lambda>marker. str_contains marker op) SYSTEM_OPERATOR_MARKERS then SYSTEM_AUTOMATIC
         else HUMAN_OPERATOR)"

definition triggered_value :: "triggered_by \<Rightarrow> string" where
  "triggered_value t = (case t of SYSTEM_AUTOMATIC \<Rightarrow> ''SYSTEM_AUTOMATIC'' | HUMAN_OPERATOR \<Rightarrow> ''HUMAN_OPERATOR'')"

text \<open>The fields a signature covers.\<close>

record journal_payload =
  jp_timestamp :: instant
  jp_event_type :: string
  jp_triggered_by :: string
  jp_scope_key :: string
  jp_previous_state :: cfg
  jp_requested_state :: cfg
  jp_rationale_hash :: string

record 'tag journal_entry =
  je_journal_id :: int
  je_payload :: journal_payload
  je_signature :: 'tag
  je_metadata :: cfg

type_synonym 'tag signer = "string \<Rightarrow> journal_payload \<Rightarrow> 'tag"

definition signing_key :: "string option \<Rightarrow> string" where
  "signing_key env = (case env of None \<Rightarrow> ''local-dev-governance-signing-key'' | Some k \<Rightarrow> k)"

definition sign_journal_payload :: "'tag signer \<Rightarrow> string option \<Rightarrow> journal_payload \<Rightarrow> 'tag" where
  "sign_journal_payload sign env p = sign (signing_key env) p"

definition verify_journal_signature :: "'tag signer \<Rightarrow> string option \<Rightarrow> 'tag journal_entry \<Rightarrow> bool" where
  "verify_journal_signature sign env e = (sign_journal_payload sign env (je_payload e) = je_signature e)"

definition is_production_environment :: "string \<Rightarrow> bool" where
  "is_production_environment environment = (str_lower (str_strip environment) \<in> {''live'', ''production''})"

datatype journal_error = Signature_failed_after_insert | Signing_key_missing | Signature_mismatch int

definition journal_append ::
  "'tag signer \<Rightarrow> (string \<Rightarrow> string) \<Rightarrow> string option \<Rightarrow> instant \<Rightarrow> string \<Rightarrow> string \<Rightarrow> cfg \<Rightarrow> cfg \<Rightarrow> string \<Rightarrow> string
     \<Rightarrow> cfg \<Rightarrow> 'tag journal_entry list \<Rightarrow> 'tag journal_entry list \<times> (journal_error + 'tag journal_entry)" where
  "journal_append sign sha env now event_type triggered previous_state requested_state rationale scope_key metadata j =
     (let p = \<lparr>jp_timestamp = now, jp_event_type = event_type, jp_triggered_by = triggered, jp_scope_key = scope_key,
               jp_previous_state = previous_state, jp_requested_state = requested_state,
               jp_rationale_hash = sha rationale\<rparr>;
          e = \<lparr>je_journal_id = int (length j) + 1, je_payload = p,
               je_signature = sign_journal_payload sign env p, je_metadata = metadata\<rparr>
      in (j @ [e], if verify_journal_signature sign env e then Inr e else Inl Signature_failed_after_insert))"

text \<open>The typed wrappers of \<open>append\<close>.\<close>

definition record_parameter_update ::
  "'tag signer \<Rightarrow> (string \<Rightarrow> string) \<Rightarrow> string option \<Rightarrow> instant \<Rightarrow> string \<Rightarrow> cfg \<Rightarrow> cfg \<Rightarrow> string \<Rightarrow> triggered_by \<Rightarrow> cfg
     \<Rightarrow> 'tag journal_entry list \<Rightarrow> 'tag journal_entry list \<times> (journal_error + 'tag journal_entry)" where
  "record_parameter_update sign sha env now sid previous_params requested_params rationale triggered metadata =
     journal_append sign sha env now ''PARAMETER_UPDATE'' (triggered_value triggered)
       (CDict [(''params'', previous_params)]) (CDict [(''params'', requested_params)]) rationale sid metadata"

definition record_champion_promotion ::
  "'tag signer \<Rightarrow> (string \<Rightarrow> string) \<Rightarrow> string option \<Rightarrow> instant \<Rightarrow> string \<Rightarrow> string \<Rightarrow> cfg option \<Rightarrow> cfg \<Rightarrow> string
     \<Rightarrow> triggered_by \<Rightarrow> 'tag journal_entry list \<Rightarrow> 'tag journal_entry list \<times> (journal_error + 'tag journal_entry)" where
  "record_champion_promotion sign sha env now symbol regime previous requested rationale triggered =
     journal_append sign sha env now ''CHAMPION_PROMOTION'' (triggered_value triggered)
       (case previous of None \<Rightarrow> CDict [] | Some c \<Rightarrow> c) requested rationale (str_upper symbol @ '':'' @ regime) (CDict [])"

definition record_ai_lifecycle_adjustment ::
  "'tag signer \<Rightarrow> (string \<Rightarrow> string) \<Rightarrow> string option \<Rightarrow> instant \<Rightarrow> string \<Rightarrow> cfg \<Rightarrow> cfg \<Rightarrow> string \<Rightarrow> triggered_by
     \<Rightarrow> 'tag journal_entry list \<Rightarrow> 'tag journal_entry list \<times> (journal_error + 'tag journal_entry)" where
  "record_ai_lifecycle_adjustment sign sha env now sid previous requested rationale triggered =
     journal_append sign sha env now ''AI_LIFECYCLE_ADJUSTMENT'' (triggered_value triggered) previous requested
       rationale sid (CDict [])"

definition record_manual_override ::
  "'tag signer \<Rightarrow> (string \<Rightarrow> string) \<Rightarrow> string option \<Rightarrow> instant \<Rightarrow> string \<Rightarrow> cfg \<Rightarrow> cfg \<Rightarrow> string \<Rightarrow> string
     \<Rightarrow> 'tag journal_entry list \<Rightarrow> 'tag journal_entry list \<times> (journal_error + 'tag journal_entry)" where
  "record_manual_override sign sha env now scope_key previous requested rationale operator =
     journal_append sign sha env now ''MANUAL_CONFIG_OVERRIDE'' (triggered_value HUMAN_OPERATOR) previous requested
       rationale scope_key (CDict [(''operator'', CStr operator)])"

definition record_recovery_rollback ::
  "'tag signer \<Rightarrow> (string \<Rightarrow> string) \<Rightarrow> string option \<Rightarrow> instant \<Rightarrow> string \<Rightarrow> cfg \<Rightarrow> cfg \<Rightarrow> string \<Rightarrow> triggered_by \<Rightarrow> cfg
     \<Rightarrow> 'tag journal_entry list \<Rightarrow> 'tag journal_entry list \<times> (journal_error + 'tag journal_entry)" where
  "record_recovery_rollback sign sha env now scope_key previous requested rationale triggered metadata =
     journal_append sign sha env now ''RECOVERY_ROLLBACK'' (triggered_value triggered) previous requested
       rationale scope_key metadata"

definition fetch_entry :: "int \<Rightarrow> 'tag journal_entry list \<Rightarrow> 'tag journal_entry option" where
  "fetch_entry journal_id j = List.find (\<lambda>e. je_journal_id e = journal_id) j"

text \<open>\<open>LIMIT\<close> with a negative value is no limit.\<close>

definition sql_limit :: "int \<Rightarrow> 'a list \<Rightarrow> 'a list" where
  "sql_limit n xs = (if n < 0 then xs else take (nat n) xs)"

definition fetch_recent ::
  "int \<Rightarrow> string option \<Rightarrow> string option \<Rightarrow> 'tag journal_entry list \<Rightarrow> 'tag journal_entry list" where
  "fetch_recent limit event_type scope_key j =
     sql_limit limit (rev (filter (\<lambda>e. (truthy event_type \<longrightarrow> event_type = Some (jp_event_type (je_payload e)))
                                     \<and> (truthy scope_key \<longrightarrow> scope_key = Some (jp_scope_key (je_payload e)))) j))"

text \<open>The error is the first entry, newest first, whose signature does not verify.\<close>

definition validate_production_governance_journal ::
  "'tag signer \<Rightarrow> string option \<Rightarrow> string \<Rightarrow> int \<Rightarrow> 'tag journal_entry list \<Rightarrow> journal_error option" where
  "validate_production_governance_journal sign env environment scan_limit j =
     (if \<not> is_production_environment environment then None
      else if str_strip (case env of None \<Rightarrow> [] | Some k \<Rightarrow> k) = [] then Some Signing_key_missing
      else map_option (\<lambda>e. Signature_mismatch (je_journal_id e))
             (List.find (\<lambda>e. \<not> verify_journal_signature sign env e) (fetch_recent (max scan_limit 1) None None j)))"

section \<open>The kill-switch registry\<close>

datatype kill_level = STRATEGY_HALT | PORTFOLIO_HALT | RESEARCH_HALT | AI_HALT

definition kill_level_value :: "kill_level \<Rightarrow> string" where
  "kill_level_value l =
     (case l of STRATEGY_HALT \<Rightarrow> ''STRATEGY_HALT'' | PORTFOLIO_HALT \<Rightarrow> ''PORTFOLIO_HALT''
      | RESEARCH_HALT \<Rightarrow> ''RESEARCH_HALT'' | AI_HALT \<Rightarrow> ''AI_HALT'')"

definition parse_kill_level :: "string \<Rightarrow> kill_level option" where
  "parse_kill_level s =
     List.find (\<lambda>l. kill_level_value l = s) [STRATEGY_HALT, PORTFOLIO_HALT, RESEARCH_HALT, AI_HALT]"

record override_row =
  ov_active :: bool
  ov_engaged_at :: "instant option"
  ov_engaged_by :: "string option"
  ov_rationale_hash :: "string option"
  ov_metadata :: cfg

record kill_switch_state =
  ks_kill_level :: kill_level
  ks_scope_key :: string
  ks_active :: bool
  ks_engaged_at :: "instant option"
  ks_engaged_by :: "string option"
  ks_rationale_hash :: "string option"

record override_snapshot =
  os_strategy_halts :: "string set"
  os_portfolio_halt :: bool
  os_research_halt :: bool
  os_ai_halt :: bool
  os_states :: "kill_switch_state list"

text \<open>An item of the state file as parsed; the file may be absent or unreadable.\<close>

record file_item =
  fi_kill_level :: string
  fi_scope_key :: "string option"
  fi_active :: bool
  fi_engaged_at :: "instant option"
  fi_engaged_by :: "string option"
  fi_rationale_hash :: "string option"

datatype state_file = No_file | Unreadable_file | State_file "file_item list"

type_synonym override_table = "(kill_level \<times> string, override_row) dict"

record 'tag override_registry =
  or_table :: override_table
  or_file :: state_file
  or_journal :: "'tag journal_entry list"

definition new_registry :: "'tag override_registry" where
  "new_registry = \<lparr>or_table = [], or_file = No_file, or_journal = []\<rparr>"

definition get_state :: "kill_level \<Rightarrow> string \<Rightarrow> override_table \<Rightarrow> kill_switch_state" where
  "get_state level scope t =
     (case map_of t (level, scope) of
        None \<Rightarrow> \<lparr>ks_kill_level = level, ks_scope_key = scope, ks_active = False, ks_engaged_at = None,
                 ks_engaged_by = None, ks_rationale_hash = None\<rparr>
      | Some r \<Rightarrow> \<lparr>ks_kill_level = level, ks_scope_key = scope, ks_active = ov_active r,
                   ks_engaged_at = ov_engaged_at r, ks_engaged_by = ov_engaged_by r,
                   ks_rationale_hash = ov_rationale_hash r\<rparr>)"

text \<open>The active rows as states; an empty scope reads as GLOBAL.\<close>

definition active_states :: "override_table \<Rightarrow> kill_switch_state list" where
  "active_states t =
     map (\<lambda>((level, scope), r). \<lparr>ks_kill_level = level, ks_scope_key = or_default scope ''GLOBAL'', ks_active = True,
            ks_engaged_at = ov_engaged_at r, ks_engaged_by = ov_engaged_by r, ks_rationale_hash = ov_rationale_hash r\<rparr>)
       (filter (\<lambda>(_, r). ov_active r) t)"

definition read_db_snapshot :: "override_table \<Rightarrow> override_snapshot" where
  "read_db_snapshot t =
     (let states = active_states t
      in \<lparr>os_strategy_halts =
             set (map ks_scope_key (filter (\<lambda>s. ks_kill_level s = STRATEGY_HALT \<and> ks_scope_key s \<noteq> ''GLOBAL'') states)),
          os_portfolio_halt = list_ex (\<lambda>s. ks_kill_level s = PORTFOLIO_HALT) states,
          os_research_halt = list_ex (\<lambda>s. ks_kill_level s = RESEARCH_HALT) states,
          os_ai_halt = list_ex (\<lambda>s. ks_kill_level s = AI_HALT) states,
          os_states = states\<rparr>)"

text \<open>The items the mirror writes, one per active state.\<close>

definition file_items :: "override_snapshot \<Rightarrow> file_item list" where
  "file_items snap =
     map (\<lambda>s. \<lparr>fi_kill_level = kill_level_value (ks_kill_level s), fi_scope_key = Some (ks_scope_key s),
               fi_active = ks_active s, fi_engaged_at = ks_engaged_at s, fi_engaged_by = ks_engaged_by s,
               fi_rationale_hash = ks_rationale_hash s\<rparr>) (os_states snap)"

definition sync_state_file :: "'tag override_registry \<Rightarrow> 'tag override_registry" where
  "sync_state_file r = r\<lparr>or_file := State_file (file_items (read_db_snapshot (or_table r)))\<rparr>"

definition hydrate_item :: "override_table \<Rightarrow> file_item \<Rightarrow> override_table" where
  "hydrate_item t item =
     (if \<not> fi_active item then t
      else (case parse_kill_level (fi_kill_level item) of
              None \<Rightarrow> t
            | Some level \<Rightarrow>
                let scope = or_str (fi_scope_key item) ''GLOBAL''
                in if ks_active (get_state level scope t) then t
                   else AList.update (level, scope)
                          \<lparr>ov_active = True, ov_engaged_at = fi_engaged_at item, ov_engaged_by = fi_engaged_by item,
                           ov_rationale_hash = fi_rationale_hash item,
                           ov_metadata = (case map_of t (level, scope) of None \<Rightarrow> CDict [] | Some r \<Rightarrow> ov_metadata r)\<rparr> t))"

definition hydrate_from_state_file :: "'tag override_registry \<Rightarrow> 'tag override_registry" where
  "hydrate_from_state_file r =
     (case or_file r of
        State_file items \<Rightarrow> r\<lparr>or_table := foldl hydrate_item (or_table r) items\<rparr>
      | _ \<Rightarrow> r)"

definition registry_snapshot :: "'tag override_registry \<Rightarrow> 'tag override_registry \<times> override_snapshot" where
  "registry_snapshot r = (let r1 = hydrate_from_state_file r in (r1, read_db_snapshot (or_table r1)))"

definition is_strategy_halted :: "string \<Rightarrow> 'tag override_registry \<Rightarrow> 'tag override_registry \<times> bool" where
  "is_strategy_halted sid r =
     (let (r1, snap) = registry_snapshot r
      in (r1, os_portfolio_halt snap \<or> sid \<in> os_strategy_halts snap \<or> ''GLOBAL'' \<in> os_strategy_halts snap))"

definition is_portfolio_halted :: "'tag override_registry \<Rightarrow> 'tag override_registry \<times> bool" where
  "is_portfolio_halted r = (let (r1, snap) = registry_snapshot r in (r1, os_portfolio_halt snap))"

definition is_research_halted :: "'tag override_registry \<Rightarrow> 'tag override_registry \<times> bool" where
  "is_research_halted r = (let (r1, snap) = registry_snapshot r in (r1, os_research_halt snap))"

definition is_ai_halted :: "'tag override_registry \<Rightarrow> 'tag override_registry \<times> bool" where
  "is_ai_halted r = (let (r1, snap) = registry_snapshot r in (r1, os_ai_halt snap))"

text \<open>\<open>passive_shadow\<close> is the constant \<open>AI_POLICY_PASSIVE_SHADOW\<close> of a module the repository does not hold.\<close>

definition apply_ai_halt_to_params ::
  "string \<Rightarrow> (string, cfg) dict \<Rightarrow> 'tag override_registry \<Rightarrow> 'tag override_registry \<times> (string, cfg) dict" where
  "apply_ai_halt_to_params passive_shadow params r =
     (let (r1, halted) = is_ai_halted r
      in (r1, if \<not> halted then params
              else AList.update ''ai_halt_active'' (CBool True)
                     (AList.delete ''_shadow_action_live''
                        (AList.update ''ai_policy_execution_state'' (CStr passive_shadow) params))))"

text \<open>
  Writing an entry of the registry's own journal; a failed verification is the raise of
  \<open>append\<close>. Prior state and request are the two dictionaries the registry journals.
\<close>

definition journal_switch ::
  "'tag signer \<Rightarrow> (string \<Rightarrow> string) \<Rightarrow> string option \<Rightarrow> instant \<Rightarrow> string \<Rightarrow> triggered_by option \<Rightarrow> kill_level \<Rightarrow> string
     \<Rightarrow> bool \<Rightarrow> bool \<Rightarrow> string \<Rightarrow> string \<Rightarrow> cfg \<Rightarrow> 'tag override_registry
     \<Rightarrow> 'tag override_registry \<times> journal_error option" where
  "journal_switch sign sha env now event_type actor level scope prior_active requested operator rationale metadata r =
     (let (j, res) = journal_append sign sha env now event_type
            (triggered_value (case actor of Some a \<Rightarrow> a | None \<Rightarrow> actor_from_operator operator))
            (CDict [(''active'', CBool prior_active)])
            (CDict [(''active'', CBool requested), (''operator'', CStr operator)])
            rationale (kill_level_value level @ '':'' @ scope) metadata (or_journal r)
      in (r\<lparr>or_journal := j\<rparr>, case res of Inl e \<Rightarrow> Some e | Inr _ \<Rightarrow> None))"

datatype registry_error = Journal_raised journal_error | Kill_switch_release_error

definition engage ::
  "'tag signer \<Rightarrow> (string \<Rightarrow> string) \<Rightarrow> string option \<Rightarrow> instant \<Rightarrow> kill_level \<Rightarrow> string \<Rightarrow> string \<Rightarrow> string \<Rightarrow> cfg
     \<Rightarrow> triggered_by option \<Rightarrow> 'tag override_registry \<Rightarrow> 'tag override_registry \<times> (registry_error + kill_switch_state)" where
  "engage sign sha env now level scope operator rationale metadata actor r =
     (let prior = get_state level scope (or_table r);
          row = \<lparr>ov_active = True, ov_engaged_at = Some now, ov_engaged_by = Some operator,
                 ov_rationale_hash = Some (sha rationale), ov_metadata = metadata\<rparr>;
          r1 = sync_state_file (r\<lparr>or_table := AList.update (level, scope) row (or_table r)\<rparr>);
          (r2, err) = journal_switch sign sha env now ''KILL_SWITCH_ENGAGED'' actor level scope (ks_active prior) True
                        operator rationale metadata r1
      in (r2, case err of
                Some e \<Rightarrow> Inl (Journal_raised e)
              | None \<Rightarrow> Inr \<lparr>ks_kill_level = level, ks_scope_key = scope, ks_active = True, ks_engaged_at = Some now,
                             ks_engaged_by = Some operator, ks_rationale_hash = Some (sha rationale)\<rparr>))"

definition deactivate_row :: "kill_level \<Rightarrow> string \<Rightarrow> override_table \<Rightarrow> override_table \<times> nat" where
  "deactivate_row level scope t =
     (case map_of t (level, scope) of
        None \<Rightarrow> (t, 0)
      | Some row \<Rightarrow> (AList.update (level, scope) (row\<lparr>ov_active := False\<rparr>) t, 1))"

text \<open>\<open>others\<close> is what other processes do to the registry between the commit of the update and the
  mirror to the state file.\<close>

definition release ::
  "'tag signer \<Rightarrow> (string \<Rightarrow> string) \<Rightarrow> string option \<Rightarrow> instant \<Rightarrow> ('tag override_registry \<Rightarrow> 'tag override_registry)
     \<Rightarrow> kill_level \<Rightarrow> string \<Rightarrow> string \<Rightarrow> string \<Rightarrow> triggered_by option \<Rightarrow> 'tag override_registry
     \<Rightarrow> 'tag override_registry \<times> (registry_error + kill_switch_state)" where
  "release sign sha env now others level scope operator rationale actor r =
     (let prior = get_state level scope (or_table r);
          (t1, updated) = deactivate_row level scope (or_table r);
          r1 = sync_state_file (others (r\<lparr>or_table := t1\<rparr>));
          (r2, err) = (if updated = 0 \<or> \<not> ks_active prior then (r1, None)
                       else journal_switch sign sha env now ''KILL_SWITCH_RELEASED'' actor level scope
                              (ks_active prior) False operator rationale (CDict []) r1)
      in (r2, case err of
                Some e \<Rightarrow> Inl (Journal_raised e)
              | None \<Rightarrow>
                  if ks_active (get_state level scope (or_table r2)) then Inl Kill_switch_release_error
                  else Inr \<lparr>ks_kill_level = level, ks_scope_key = scope, ks_active = False,
                            ks_engaged_at = ks_engaged_at prior, ks_engaged_by = Some operator,
                            ks_rationale_hash = Some (sha rationale)\<rparr>))"

section \<open>The pre-flight latch\<close>

definition PRE_FLIGHT_RECON_LATCH_KEY :: string where "PRE_FLIGHT_RECON_LATCH_KEY = ''PRE_FLIGHT_RECON_LOCK''"

record latch_row =
  la_active :: int
  la_reason :: string
  la_metadata :: cfg
  la_updated_at :: instant

type_synonym latch_table = "(string, latch_row) dict"

definition is_pre_flight_recon_locked :: "latch_table \<Rightarrow> bool \<times> string" where
  "is_pre_flight_recon_locked t =
     (case map_of t PRE_FLIGHT_RECON_LATCH_KEY of
        None \<Rightarrow> (False, [])
      | Some r \<Rightarrow> if la_active r \<noteq> 1 then (False, []) else (True, la_reason r))"

definition engage_pre_flight_recon_lock :: "string \<Rightarrow> cfg \<Rightarrow> instant \<Rightarrow> latch_table \<Rightarrow> latch_table" where
  "engage_pre_flight_recon_lock reason metadata now t =
     AList.update PRE_FLIGHT_RECON_LATCH_KEY
       \<lparr>la_active = 1, la_reason = reason, la_metadata = metadata, la_updated_at = now\<rparr> t"

definition release_pre_flight_recon_lock :: "string \<Rightarrow> string \<Rightarrow> instant \<Rightarrow> latch_table \<Rightarrow> latch_table \<times> bool" where
  "release_pre_flight_recon_lock operator rationale now t =
     (case map_of t PRE_FLIGHT_RECON_LATCH_KEY of
        None \<Rightarrow> (t, False)
      | Some r \<Rightarrow>
          if la_active r \<noteq> 1 then (t, False)
          else (AList.update PRE_FLIGHT_RECON_LATCH_KEY
                  \<lparr>la_active = 0, la_reason = ''released_by:'' @ operator,
                   la_metadata = CDict [(''release_rationale'', CStr rationale)], la_updated_at = now\<rparr> t, True))"

lemma recon_lock_roundtrip:
  "is_pre_flight_recon_locked (engage_pre_flight_recon_lock reason md now t) = (True, reason)"
  "fst (is_pre_flight_recon_locked (fst (release_pre_flight_recon_lock op why now t))) = False"
  "snd (release_pre_flight_recon_lock op why now t) = fst (is_pre_flight_recon_locked t)"
  by (auto simp: is_pre_flight_recon_locked_def engage_pre_flight_recon_lock_def release_pre_flight_recon_lock_def
      split: option.split)

section \<open>The journal is append-only and verifiable\<close>

lemma append_verifies:
  "verify_journal_signature sign env
     \<lparr>je_journal_id = i, je_payload = p, je_signature = sign_journal_payload sign env p, je_metadata = md\<rparr>"
  by (simp add: verify_journal_signature_def)

text \<open>A call of \<open>append\<close>, with the arguments it is given.\<close>

record journal_call =
  jc_now :: instant
  jc_event :: string
  jc_triggered :: string
  jc_previous :: cfg
  jc_requested :: cfg
  jc_rationale :: string
  jc_scope :: string
  jc_metadata :: cfg

definition journal_step ::
  "'tag signer \<Rightarrow> (string \<Rightarrow> string) \<Rightarrow> string option \<Rightarrow> 'tag journal_entry list \<Rightarrow> journal_call \<Rightarrow> 'tag journal_entry list" where
  "journal_step sign sha env j c =
     fst (journal_append sign sha env (jc_now c) (jc_event c) (jc_triggered c) (jc_previous c) (jc_requested c)
            (jc_rationale c) (jc_scope c) (jc_metadata c) j)"

text \<open>Ids count from one without gaps, and every signature verifies.\<close>

definition journal_ok :: "'tag signer \<Rightarrow> string option \<Rightarrow> 'tag journal_entry list \<Rightarrow> bool" where
  "journal_ok sign env j \<longleftrightarrow>
     map je_journal_id j = map (\<lambda>n. int n + 1) [0..<length j] \<and> list_all (verify_journal_signature sign env) j"

lemma journal_append_ok:
  assumes "journal_ok sign env j"
  shows "journal_ok sign env (fst (journal_append sign sha env now ev tr prev req why sc md j))"
  using assms by (simp add: journal_ok_def journal_append_def Let_def append_verifies)

interpretation journal: invariant_machine "journal_step sign sha env" "journal_ok sign env"
  for sign :: "'tag signer" and sha env
  by unfold_locales (simp add: journal_step_def journal_append_ok)

lemma journal_prefix: "\<exists>es. journal_step sign sha env j c = j @ es"
  by (simp add: journal_step_def journal_append_def Let_def)

lemma journal_run_prefix: "\<exists>es. foldl (journal_step sign sha env) j cs = j @ es"
proof (induction cs arbitrary: j)
  case (Cons c cs)
  obtain e where "journal_step sign sha env j c = j @ e" using journal_prefix by blast
  then show ?case using Cons.IH [of "j @ e"] by auto
qed simp

lemma find_None_list_all: "List.find (\<lambda>e. \<not> P e) xs = None \<longleftrightarrow> list_all P xs"
  by (induction xs) auto

lemma fetch_all: "int (length j) \<le> n \<Longrightarrow> set (fetch_recent n None None j) = set j"
  by (simp add: fetch_recent_def sql_limit_def)

lemma fetch_subset: "set (fetch_recent n e s j) \<subseteq> set j"
  by (auto simp: fetch_recent_def sql_limit_def dest: in_set_takeD)

text \<open>
  A journal written only through \<open>append\<close> passes the production check under the key it
  was written with, and under a collision-free signature any change to the signed fields of
  one of the scanned entries is refused.
\<close>

theorem journal_tampering_detected:
  fixes sign :: "'tag signer"
  assumes "is_production_environment envt" "env = Some key" "str_strip key \<noteq> []"
    and "\<And>k p q. sign k p = sign k q \<Longrightarrow> p = q"
    and "j = foldl (journal_step sign sha env) [] cs" "length j \<le> 500"
    and "i < length j" "je_payload e \<noteq> je_payload (j ! i)" "je_signature e = je_signature (j ! i)"
  shows "validate_production_governance_journal sign env envt 500 j = None \<and>
    validate_production_governance_journal sign env envt 500 (j[i := e]) \<noteq> None"
proof (intro conjI)
  have ok: "journal_ok sign env j"
    unfolding assms(5) by (rule journal.inv_run) (simp add: journal_ok_def)
  then have all: "list_all (verify_journal_signature sign env) (fetch_recent 500 None None j)"
    using fetch_subset [of 500 None None j] by (auto simp: journal_ok_def list_all_iff)
  show "validate_production_governance_journal sign env envt 500 j = None"
    using all assms(1-3) by (simp add: validate_production_governance_journal_def find_None_list_all)
  have "verify_journal_signature sign env (j ! i)"
    using ok assms(7) by (simp add: journal_ok_def list_all_length)
  then have "\<not> verify_journal_signature sign env e"
    using assms(4) [of "signing_key env" "je_payload e" "je_payload (j ! i)"] assms(8,9)
    by (auto simp: verify_journal_signature_def sign_journal_payload_def)
  moreover have "e \<in> set (fetch_recent 500 None None (j[i := e]))"
    using fetch_all [of "j[i := e]" 500] assms(6,7) by (simp add: set_update_memI)
  ultimately show "validate_production_governance_journal sign env envt 500 (j[i := e]) \<noteq> None"
    using assms(1-3) by (auto simp: validate_production_governance_journal_def find_None_list_all list_all_iff)
qed

text \<open>The check reads the newest 500 entries only: what was changed before them goes unseen.\<close>

lemma old_tampering_unseen:
  assumes "500 \<le> length new"
  shows "validate_production_governance_journal sign env envt 500 (old @ new) =
         validate_production_governance_journal sign env envt 500 (old' @ new)"
  using assms by (simp add: validate_production_governance_journal_def fetch_recent_def sql_limit_def)

definition journal_key :: string where "journal_key = ''k3y''"

definition sample_journal_calls :: "journal_call list" where
  "sample_journal_calls =
     [\<lparr>jc_now = 1, jc_event = ''PARAMETER_UPDATE'', jc_triggered = ''SYSTEM_AUTOMATIC'', jc_previous = CDict [],
       jc_requested = CDict [], jc_rationale = ''r'', jc_scope = ''SPY_15'', jc_metadata = CDict []\<rparr>]"

definition forged_entry :: "(string \<times> journal_payload) journal_entry" where
  "forged_entry =
     (let e = hd (foldl (journal_step Pair id (Some journal_key)) [] sample_journal_calls)
      in e\<lparr>je_payload := (je_payload e)\<lparr>jp_scope_key := ''QQQ_15''\<rparr>\<rparr>)"

theorem journal_tampering_detected_witness:
  "validate_production_governance_journal Pair (Some journal_key) ''Live'' 500
     (foldl (journal_step Pair id (Some journal_key)) [] sample_journal_calls) = None \<and>
   validate_production_governance_journal Pair (Some journal_key) ''Live'' 500
     ((foldl (journal_step Pair id (Some journal_key)) [] sample_journal_calls)[0 := forged_entry]) \<noteq> None"
proof (rule journal_tampering_detected [where key = journal_key and cs = sample_journal_calls and sha = id])
  show "is_production_environment ''Live''" "str_strip journal_key \<noteq> []" by code_simp+
  show "je_payload forged_entry \<noteq> je_payload (foldl (journal_step Pair id (Some journal_key)) [] sample_journal_calls ! 0)"
    "je_signature forged_entry = je_signature (foldl (journal_step Pair id (Some journal_key)) [] sample_journal_calls ! 0)"
    by (simp_all add: forged_entry_def sample_journal_calls_def journal_step_def journal_append_def Let_def)
qed (simp_all add: sample_journal_calls_def journal_step_def journal_append_def Let_def)

section \<open>The registry refines a set of switches\<close>

definition active_set :: "override_table \<Rightarrow> (kill_level \<times> string) set" where
  "active_set t = {k. \<exists>row. map_of t k = Some row \<and> ov_active row}"

definition item_key :: "file_item \<Rightarrow> (kill_level \<times> string) option" where
  "item_key item =
     (if fi_active item then map_option (\<lambda>l. (l, or_str (fi_scope_key item) ''GLOBAL'')) (parse_kill_level (fi_kill_level item))
      else None)"

definition file_keys :: "state_file \<Rightarrow> (kill_level \<times> string) set" where
  "file_keys f = (case f of State_file items \<Rightarrow> {k. Some k \<in> item_key ` set items} | _ \<Rightarrow> {})"

definition table_ok :: "override_table \<Rightarrow> bool" where
  "table_ok t \<longleftrightarrow> dict_ok t \<and> (\<forall>k\<in>fst ` set t. snd k \<noteq> [])"

definition registry_ok :: "'tag override_registry \<Rightarrow> bool" where
  "registry_ok r \<longleftrightarrow> table_ok (or_table r) \<and> file_keys (or_file r) = active_set (or_table r)"

lemma parse_kill_level_value [simp]: "parse_kill_level (kill_level_value l) = Some l"
  by (cases l) (simp_all add: parse_kill_level_def kill_level_value_def)

lemma or_str_nonempty [simp]: "d \<noteq> [] \<Longrightarrow> or_str x d \<noteq> []"
  by (auto simp: or_str_def or_default_def split: option.split)

lemma active_set_iff: "ks_active (get_state level scope t) \<longleftrightarrow> (level, scope) \<in> active_set t"
  by (auto simp: get_state_def active_set_def split: option.split)

lemma active_set_update:
  "active_set (AList.update k row t) = (if ov_active row then insert k (active_set t) else active_set t - {k})"
  by (auto simp: active_set_def)

lemma table_ok_update: "table_ok t \<Longrightarrow> snd k \<noteq> [] \<Longrightarrow> table_ok (AList.update k row t)"
  by (simp add: table_ok_def dom_update)

lemma hydrate_item_active:
  "active_set (hydrate_item t i) = active_set t \<union> set_option (item_key i)"
  by (auto simp: hydrate_item_def item_key_def active_set_update active_set_iff Let_def split: option.split)

lemma hydrate_item_ok: "table_ok t \<Longrightarrow> table_ok (hydrate_item t i)"
  by (auto simp: hydrate_item_def Let_def intro: table_ok_update split: option.split)

lemma hydrate_items:
  "active_set (foldl hydrate_item t items) = active_set t \<union> {k. Some k \<in> item_key ` set items}"
  "table_ok t \<Longrightarrow> table_ok (foldl hydrate_item t items)"
proof (induction items arbitrary: t)
  case (Cons i items)
  { case 1 then show ?case by (auto simp: Cons hydrate_item_active) }
  { case 2 then show ?case by (simp add: Cons hydrate_item_ok) }
qed simp_all

lemma hydrate_registry:
  "active_set (or_table (hydrate_from_state_file r)) = active_set (or_table r) \<union> file_keys (or_file r)"
  "table_ok (or_table r) \<Longrightarrow> table_ok (or_table (hydrate_from_state_file r))"
  "or_file (hydrate_from_state_file r) = or_file r"
  by (auto simp: hydrate_from_state_file_def file_keys_def hydrate_items split: state_file.split)

lemma active_rows: "table_ok t \<Longrightarrow> active_set t = {k. \<exists>row. (k, row) \<in> set t \<and> ov_active row}"
  by (auto simp: active_set_def table_ok_def)

lemma mirror_keys:
  assumes "table_ok t"
  shows "file_keys (State_file (file_items (read_db_snapshot t))) = active_set t"
proof -
  have "item_key ` set (file_items (read_db_snapshot t)) = Some ` {k. \<exists>row. (k, row) \<in> set t \<and> ov_active row}"
    using assms
    by (force simp: file_items_def read_db_snapshot_def active_states_def Let_def item_key_def or_str_def or_default_def
        table_ok_def image_iff)
  then show ?thesis by (auto simp: file_keys_def active_rows [OF assms])
qed

lemma sync_ok:
  "table_ok (or_table r) \<Longrightarrow> registry_ok (sync_state_file r)" "or_table (sync_state_file r) = or_table r"
  by (simp_all add: registry_ok_def sync_state_file_def mirror_keys)

lemma journal_switch_frame [simp]:
  "or_table (fst (journal_switch sign sha env now ev actor l sc pa rq opr why md r)) = or_table r"
  "or_file (fst (journal_switch sign sha env now ev actor l sc pa rq opr why md r)) = or_file r"
  "snd (journal_switch sign sha env now ev actor l sc pa rq opr why md r) = None"
  by (simp_all add: journal_switch_def journal_append_def append_verifies Let_def split_beta)

lemma engage_effect:
  assumes "table_ok (or_table r)" "sc \<noteq> []"
  shows "registry_ok (fst (engage sign sha env now l sc opr why md actor r))"
    "active_set (or_table (fst (engage sign sha env now l sc opr why md actor r))) = insert (l, sc) (active_set (or_table r))"
  using assms sync_ok [of "r\<lparr>or_table := AList.update (l, sc)
      \<lparr>ov_active = True, ov_engaged_at = Some now, ov_engaged_by = Some opr, ov_rationale_hash = Some (sha why),
       ov_metadata = md\<rparr> (or_table r)\<rparr>"]
  by (simp_all add: engage_def Let_def split_beta registry_ok_def table_ok_update active_set_update)

lemma deactivate_effect:
  "active_set (fst (deactivate_row l sc t)) = active_set t - {(l, sc)}"
  "table_ok t \<Longrightarrow> table_ok (fst (deactivate_row l sc t))"
proof -
  show "active_set (fst (deactivate_row l sc t)) = active_set t - {(l, sc)}"
    by (auto simp: deactivate_row_def active_set_update split: option.split) (simp add: active_set_def)
  show "table_ok (fst (deactivate_row l sc t))" if "table_ok t"
  proof (cases "map_of t (l, sc)")
    case (Some row)
    then have "((l, sc), row) \<in> set t" by (rule map_of_SomeD)
    then have "sc \<noteq> []" using that by (force simp: table_ok_def)
    with Some that show ?thesis by (simp add: deactivate_row_def table_ok_update)
  qed (simp add: deactivate_row_def that)
qed

lemma release_table:
  "or_table (fst (release sign sha env now others l sc opr why actor r)) =
     or_table (others (r\<lparr>or_table := fst (deactivate_row l sc (or_table r))\<rparr>))"
  "or_file (fst (release sign sha env now others l sc opr why actor r)) =
     or_file (sync_state_file (others (r\<lparr>or_table := fst (deactivate_row l sc (or_table r))\<rparr>)))"
  by (simp_all add: release_def Let_def split_beta sync_ok)

text \<open>Another process takes a snapshot between the commit and the mirror.\<close>

definition raced :: "bool \<Rightarrow> 'tag override_registry \<Rightarrow> 'tag override_registry" where
  "raced b r = (if b then fst (registry_snapshot r) else r)"

lemma release_effect:
  assumes "registry_ok r"
  shows "registry_ok (fst (release sign sha env now (raced b) l sc opr why actor r))"
    "active_set (or_table (fst (release sign sha env now (raced b) l sc opr why actor r))) =
       (if b then active_set (or_table r) else active_set (or_table r) - {(l, sc)})"
proof -
  let ?r1 = "r\<lparr>or_table := fst (deactivate_row l sc (or_table r))\<rparr>"
  have t: "table_ok (or_table r)" and f: "file_keys (or_file r) = active_set (or_table r)"
    using assms by (simp_all add: registry_ok_def)
  have ok: "table_ok (or_table (raced b ?r1))"
    using deactivate_effect(2) [OF t] by (simp add: raced_def registry_snapshot_def Let_def hydrate_registry)
  show "registry_ok (fst (release sign sha env now (raced b) l sc opr why actor r))"
    using sync_ok(1) [OF ok] by (simp add: registry_ok_def release_table sync_ok(2))
  show "active_set (or_table (fst (release sign sha env now (raced b) l sc opr why actor r))) =
       (if b then active_set (or_table r) else active_set (or_table r) - {(l, sc)})"
    by (auto simp: release_table raced_def registry_snapshot_def Let_def hydrate_registry deactivate_effect f)
qed

lemma snapshot_effect:
  assumes "registry_ok r"
  shows "registry_ok (fst (registry_snapshot r))"
    "active_set (or_table (fst (registry_snapshot r))) = active_set (or_table r)"
  using assms by (simp_all add: registry_ok_def registry_snapshot_def Let_def hydrate_registry)

text \<open>The registry's operations; a release may be raced by a snapshot elsewhere. Scope keys are not empty.\<close>

datatype registry_op =
    Reg_engage instant kill_level string string string cfg "triggered_by option"
  | Reg_release instant bool kill_level string string string "triggered_by option"
  | Reg_snapshot

fun registry_step ::
  "'tag signer \<Rightarrow> (string \<Rightarrow> string) \<Rightarrow> string option \<Rightarrow> 'tag override_registry \<Rightarrow> registry_op \<Rightarrow> 'tag override_registry" where
  "registry_step sign sha env r (Reg_engage now l sc opr why md actor) =
     fst (engage sign sha env now l sc opr why md actor r)"
| "registry_step sign sha env r (Reg_release now b l sc opr why actor) =
     fst (release sign sha env now (raced b) l sc opr why actor r)"
| "registry_step sign sha env r Reg_snapshot = fst (registry_snapshot r)"

text \<open>
  An engagement names a scope. (One with an empty scope is mirrored under an empty key, which the next
  snapshot reads back as \<open>GLOBAL\<close>, see \<open>empty_scope_becomes_global\<close>.)
\<close>

fun names_scope :: "registry_op \<Rightarrow> bool" where
  "names_scope (Reg_engage now l sc opr why md actor) = (sc \<noteq> [])"
| "names_scope _ = True"

text \<open>The abstract registry: the set of switches that are on.\<close>

fun switch_step :: "(kill_level \<times> string) set \<Rightarrow> registry_op \<Rightarrow> (kill_level \<times> string) set" where
  "switch_step on (Reg_engage now l sc opr why md actor) = insert (l, sc) on"
| "switch_step on (Reg_release now b l sc opr why actor) = (if b then on else on - {(l, sc)})"
| "switch_step on Reg_snapshot = on"

lemma step_refines:
  assumes "registry_ok r" "names_scope p"
  shows "registry_ok (registry_step sign sha env r p)"
    "active_set (or_table (registry_step sign sha env r p)) = switch_step (active_set (or_table r)) p"
  using assms by (cases p; simp add: engage_effect release_effect snapshot_effect registry_ok_def [of r])+

interpretation registry: guarded_latch "registry_step sign sha env" "\<lambda>_. True" registry_ok names_scope
  for sign :: "'tag signer" and sha env
  by unfold_locales (simp_all add: step_refines)

lemma run_refines:
  assumes "registry_ok r" "list_all names_scope ops"
  shows "active_set (or_table (foldl (registry_step sign sha env) r ops)) = foldl switch_step (active_set (or_table r)) ops"
  using assms by (induction ops arbitrary: r) (simp_all add: step_refines)

lemma new_registry_ok [simp]: "registry_ok new_registry" "active_set (or_table new_registry) = {}"
  by (simp_all add: registry_ok_def new_registry_def table_ok_def file_keys_def active_set_def)

lemma snapshot_flags:
  assumes "table_ok t"
  shows "os_strategy_halts (read_db_snapshot t) = {sc. (STRATEGY_HALT, sc) \<in> active_set t \<and> sc \<noteq> ''GLOBAL''}"
    "os_portfolio_halt (read_db_snapshot t) \<longleftrightarrow> (\<exists>sc. (PORTFOLIO_HALT, sc) \<in> active_set t)"
    "os_research_halt (read_db_snapshot t) \<longleftrightarrow> (\<exists>sc. (RESEARCH_HALT, sc) \<in> active_set t)"
    "os_ai_halt (read_db_snapshot t) \<longleftrightarrow> (\<exists>sc. (AI_HALT, sc) \<in> active_set t)"
proof -
  have sc: "sc \<noteq> []" if "((l, sc), row) \<in> set t" for l sc row
    using assms that by (force simp: table_ok_def)
  then have d: "or_default sc ''GLOBAL'' = sc" if "((l, sc), row) \<in> set t" for l sc row
    using that by (fastforce simp: or_default_def)
  show "os_strategy_halts (read_db_snapshot t) = {sc. (STRATEGY_HALT, sc) \<in> active_set t \<and> sc \<noteq> ''GLOBAL''}"
    using d by (fastforce simp: read_db_snapshot_def active_states_def Let_def active_rows [OF assms] image_iff)
  show "os_portfolio_halt (read_db_snapshot t) \<longleftrightarrow> (\<exists>sc. (PORTFOLIO_HALT, sc) \<in> active_set t)"
    "os_research_halt (read_db_snapshot t) \<longleftrightarrow> (\<exists>sc. (RESEARCH_HALT, sc) \<in> active_set t)"
    "os_ai_halt (read_db_snapshot t) \<longleftrightarrow> (\<exists>sc. (AI_HALT, sc) \<in> active_set t)"
    by (auto simp: read_db_snapshot_def active_states_def Let_def active_rows [OF assms] list_ex_iff)
qed

lemma strategy_halted_iff:
  assumes "registry_ok r"
  shows "snd (is_strategy_halted sid r) \<longleftrightarrow>
     (\<exists>sc. (PORTFOLIO_HALT, sc) \<in> active_set (or_table r)) \<or>
     (STRATEGY_HALT, sid) \<in> active_set (or_table r) \<and> sid \<noteq> ''GLOBAL''"
proof -
  let ?t = "or_table (fst (registry_snapshot r))"
  have "table_ok ?t" using snapshot_effect(1) [OF assms] by (simp add: registry_ok_def)
  moreover have "snd (registry_snapshot r) = read_db_snapshot ?t" by (simp add: registry_snapshot_def Let_def)
  ultimately show ?thesis
    using snapshot_effect(2) [OF assms] by (auto simp: is_strategy_halted_def split_beta snapshot_flags)
qed

text \<open>
  C23: After any history of engagements that name a scope, releases (some of them raced by a
  snapshot of another process) and snapshots, the registry holds exactly the switches that were
  engaged and not released since, and a strategy is halted iff a portfolio halt is on or a strategy
  halt of its own name. A raced release leaves the halt on.
\<close>

theorem registry_refines_switch_set:
  fixes sign :: "'tag signer" and sha env
  defines "run \<equiv> foldl (registry_step sign sha env) new_registry"
  assumes "list_all names_scope ops"
  shows "active_set (or_table (run ops)) = foldl switch_step {} ops \<and>
     (snd (is_strategy_halted sid (run ops)) \<longleftrightarrow>
        (\<exists>sc. (PORTFOLIO_HALT, sc) \<in> foldl switch_step {} ops)
        \<or> (STRATEGY_HALT, sid) \<in> foldl switch_step {} ops \<and> sid \<noteq> ''GLOBAL'')"
proof -
  have ok: "registry_ok (run ops)" unfolding run_def by (rule registry.latch_run) (simp_all add: assms)
  have on: "active_set (or_table (run ops)) = foldl switch_step {} ops"
    unfolding run_def by (simp add: run_refines assms)
  show ?thesis using strategy_halted_iff [OF ok] on by simp
qed

theorem registry_refines_switch_set_witness:
  "snd (is_strategy_halted ''SPY_15'' (foldl (registry_step Pair id None) new_registry
     [Reg_engage 1 STRATEGY_HALT ''SPY_15'' ''ops'' ''storm'' (CDict []) None, Reg_snapshot,
      Reg_engage 2 STRATEGY_HALT ''QQQ_15'' ''ops'' ''storm'' (CDict []) None,
      Reg_release 3 False STRATEGY_HALT ''QQQ_15'' ''ops'' ''calm'' None]))"
proof -
  have "list_all names_scope
     [Reg_engage 1 STRATEGY_HALT ''SPY_15'' ''ops'' ''storm'' (CDict []) None, Reg_snapshot,
      Reg_engage 2 STRATEGY_HALT ''QQQ_15'' ''ops'' ''storm'' (CDict []) None,
      Reg_release 3 False STRATEGY_HALT ''QQQ_15'' ''ops'' ''calm'' None]"
    by simp
  from registry_refines_switch_set [OF this, of Pair id None "''SPY_15''"] show ?thesis by simp
qed

text \<open>An empty scope comes back as the scope GLOBAL: a snapshot adds a switch nobody engaged.\<close>

lemma empty_scope_becomes_global:
  "ks_active (get_state PORTFOLIO_HALT ''GLOBAL'' (or_table (fst (registry_snapshot
     (fst (engage Pair id None 1 PORTFOLIO_HALT [] ''ops'' ''storm'' (CDict []) None new_registry))))))"
  "\<not> ks_active (get_state PORTFOLIO_HALT ''GLOBAL'' (or_table
     (fst (engage Pair id None 1 PORTFOLIO_HALT [] ''ops'' ''storm'' (CDict []) None new_registry))))"
  by code_simp+

text \<open>
  C24: A release is never reported as done while the switch is still on: whatever other
  processes do between its commit and the mirror, a call that returns a state leaves the
  switch off, and a release raced by a snapshot of an engaged switch raises.
\<close>

theorem release_never_reports_false_success:
  "(\<forall>ks. snd (release sign sha env now others l sc opr why actor r) = Inr ks \<longrightarrow>
       (l, sc) \<notin> active_set (or_table (fst (release sign sha env now others l sc opr why actor r)))) \<and>
   (registry_ok r \<and> (l, sc) \<in> active_set (or_table r) \<longrightarrow>
      snd (release sign sha env now (raced True) l sc opr why actor r) = Inl Kill_switch_release_error)"
proof (intro conjI allI impI)
  fix ks
  assume "snd (release sign sha env now others l sc opr why actor r) = Inr ks"
  then show "(l, sc) \<notin> active_set (or_table (fst (release sign sha env now others l sc opr why actor r)))"
    by (simp add: release_def Let_def split_beta active_set_iff split: if_splits)
next
  assume a: "registry_ok r \<and> (l, sc) \<in> active_set (or_table r)"
  then have "(l, sc) \<in> active_set (or_table (fst (release sign sha env now (raced True) l sc opr why actor r)))"
    by (simp add: release_effect)
  then show "snd (release sign sha env now (raced True) l sc opr why actor r) = Inl Kill_switch_release_error"
    by (simp add: release_def Let_def split_beta active_set_iff)
qed

definition sample_registry :: "(string \<times> journal_payload) override_registry" where
  "sample_registry = fst (engage Pair id None 1 PORTFOLIO_HALT ''GLOBAL'' ''ops'' ''storm'' (CDict []) None new_registry)"

theorem release_never_reports_false_success_witness:
  "(\<exists>ks. snd (release Pair id None 2 id PORTFOLIO_HALT ''GLOBAL'' ''ops'' ''calm'' None sample_registry) = Inr ks) \<and>
   (PORTFOLIO_HALT, ''GLOBAL'') \<notin> active_set (or_table
      (fst (release Pair id None 2 id PORTFOLIO_HALT ''GLOBAL'' ''ops'' ''calm'' None sample_registry))) \<and>
   snd (release Pair id None 2 (raced True) PORTFOLIO_HALT ''GLOBAL'' ''ops'' ''calm'' None sample_registry) =
     Inl Kill_switch_release_error"
proof -
  have t: "table_ok (or_table (new_registry :: (string \<times> journal_payload) override_registry))"
    by (simp add: new_registry_def table_ok_def)
  have a: "registry_ok sample_registry" "(PORTFOLIO_HALT, ''GLOBAL'') \<in> active_set (or_table sample_registry)"
    unfolding sample_registry_def by (simp_all add: engage_effect [OF t])
  have b: "\<exists>ks. snd (release Pair id None 2 id PORTFOLIO_HALT ''GLOBAL'' ''ops'' ''calm'' None sample_registry) = Inr ks"
    using deactivate_effect(1) [of PORTFOLIO_HALT "''GLOBAL''" "or_table sample_registry"]
    by (simp add: release_def Let_def split_beta active_set_iff sync_ok(2))
  show ?thesis
    using a b release_never_reports_false_success [of Pair id None 2 id PORTFOLIO_HALT "''GLOBAL''" "''ops''" "''calm''"
        None sample_registry] by auto
qed

text \<open>A strategy halt with the default scope GLOBAL halts no strategy.\<close>

lemma global_strategy_halt_ineffective:
  "\<not> snd (is_strategy_halted sid (fst (engage sign sha env now STRATEGY_HALT ''GLOBAL'' opr why md actor new_registry)))"
proof -
  have "table_ok (or_table (new_registry :: 'a override_registry))" by (simp add: new_registry_def table_ok_def)
  then show ?thesis by (simp add: strategy_halted_iff engage_effect)
qed

text \<open>Losing the table but not the file loses no halt: the next snapshot restores every switch.\<close>

lemma state_file_restores_halts:
  assumes "registry_ok r"
  shows "active_set (or_table (fst (registry_snapshot (r\<lparr>or_table := []\<rparr>)))) = active_set (or_table r)"
  using assms by (simp add: registry_snapshot_def Let_def hydrate_registry registry_ok_def active_set_def [of "[]"])

end
