(* ===== verification/Pre_Flight.thy ===== *)
theory Pre_Flight
  imports Models Degradation Governance_Registry
begin

text \<open>
  Start-up reconciliation (\<open>src/engine/pre_flight_reconciliation.py\<close>): local runtime snapshots
  against the broker's positions, open orders and fills. The broker's answers are arguments; a
  fetch of fills is a function of the symbol and the lookback. The snapshot store
  (\<open>persistence\<close>, a module the repository does not hold) is the parameter \<open>store\<close> over a
  database type. The journal entry, the latch and the degradation manager are those of
  Governance_Registry and Degradation. Metadata of a result is not modelled; the rendering of
  a quantity in a reason is the parameter \<open>render\<close>.
\<close>

section \<open>Data\<close>

definition QTY_TOLERANCE :: pyfloat where "QTY_TOLERANCE = 1 / 10000"
definition PRICE_TOLERANCE :: pyfloat where "PRICE_TOLERANCE = 2 / 100"
definition DEFAULT_BAR_INTERVAL_SECONDS :: int where "DEFAULT_BAR_INTERVAL_SECONDS = 900"
definition FILL_LOOKBACK_DAYS :: int where "FILL_LOOKBACK_DAYS = 30"
definition FILL_LOOKBACK_EXPANSION_DAYS :: "int list" where "FILL_LOOKBACK_EXPANSION_DAYS = [60, 90]"
definition DEEP_POSITION_ENTRY_UNRESOLVED :: string where
  "DEEP_POSITION_ENTRY_UNRESOLVED = ''deep_position_entry_fill_unresolved''"

record open_order =
  oo_order_id :: string
  oo_symbol :: string
  oo_side :: string
  oo_qty :: pyfloat
  oo_status :: string

record broker_fill =
  bf_order_id :: string
  bf_symbol :: string
  bf_side :: string
  bf_filled_qty :: pyfloat
  bf_filled_at :: instant

record leg_bound =
  lb_strategy_id :: string
  lb_symbol :: string
  lb_in_position :: bool
  lb_position_side :: string
  lb_bars_in_trade :: int
  lb_qty :: pyfloat
  lb_avg_entry_price :: pyfloat
  lb_max_bars_in_trade :: int
  lb_open_order_count :: int

text \<open>The fields of a persisted snapshot that are read.\<close>

record runtime_snapshot =
  rt_symbol :: string
  rt_side :: string
  rt_qty :: pyfloat
  rt_avg_entry_price :: pyfloat
  rt_bars_in_trade :: int
  rt_open_order_count :: int
  rt_max_bars_in_trade :: int

datatype delta_value = Delta_num pyfloat | Delta_str string

record position_delta =
  pd_strategy_id :: string
  pd_symbol :: string
  pd_field_name :: string
  pd_local_value :: delta_value
  pd_broker_value :: delta_value

record preflight_result =
  pr_success :: bool
  pr_recovered :: bool
  pr_latched_soft_degrade :: bool
  pr_deltas :: "position_delta list"
  pr_failure_reason :: string
  pr_journal_event_id :: "int option"

text \<open>The persistence functions the engine calls.\<close>

record 'db runtime_store =
  st_load :: "(string, string) dict \<Rightarrow> 'db \<Rightarrow> (string, runtime_snapshot) dict"
  st_pending :: "(string, string) dict \<Rightarrow> 'db \<Rightarrow> (string, int) dict"
  st_persist :: "(string, leg_bound) dict \<Rightarrow> 'db \<Rightarrow> 'db"
  st_sync_orders :: "(string, int) dict \<Rightarrow> (string, string) dict \<Rightarrow> 'db \<Rightarrow> 'db"

section \<open>Reading the broker\<close>

definition broker_positions_by_symbol :: "position list \<Rightarrow> (string, position) dict" where
  "broker_positions_by_symbol ps = foldl (\<lambda>d p. AList.update (str_upper (pos_symbol p)) p d) [] ps"

definition open_order_counts :: "open_order list \<Rightarrow> (string, int) dict" where
  "open_order_counts orders =
     foldl (\<lambda>d o1. let s = str_upper (oo_symbol o1) in AList.update s (dict_get d s 0 + 1) d) [] orders"

definition requires_whole_shares :: "string \<Rightarrow> bool" where
  "requires_whole_shares symbol = (infer_asset_class symbol \<noteq> ''crypto'')"

text \<open>\<open>round(x)\<close>: halves go to the even neighbour.\<close>

definition py_round :: "pyfloat \<Rightarrow> int" where
  "py_round x =
     (let f = \<lfloor>x\<rfloor>; d = x - real_of_int f
      in if d < 1 / 2 then f else if 1 / 2 < d then f + 1 else if even f then f else f + 1)"

definition fractional :: "pyfloat \<Rightarrow> bool" where
  "fractional qty = (QTY_TOLERANCE < \<bar>qty - real_of_int (py_round qty)\<bar>)"

definition order_problem :: "(pyfloat \<Rightarrow> string) \<Rightarrow> string set \<Rightarrow> open_order \<Rightarrow> string option" where
  "order_problem render mapped o1 =
     (let symbol = str_upper (oo_symbol o1); qty = oo_qty o1
      in if symbol \<notin> mapped then Some (''unmapped_open_order_symbol:'' @ symbol)
         else if qty \<le> 0 then Some (''fractional_open_order_qty:'' @ symbol @ '':'' @ render qty)
         else if requires_whole_shares (oo_symbol o1) \<and> fractional qty
         then Some (''fractional_open_order_qty:'' @ symbol @ '':'' @ render qty)
         else None)"

definition position_problem :: "(pyfloat \<Rightarrow> string) \<Rightarrow> string \<times> position \<Rightarrow> string option" where
  "position_problem render = (\<lambda>(symbol, p).
     let qty = pos_qty p
     in if qty \<le> 0 then None
        else if requires_whole_shares symbol \<and> fractional qty
        then Some (''fractional_share_position_conflict:'' @ symbol @ '':'' @ render qty)
        else None)"

text \<open>The first problem a loop returns with.\<close>

fun first_problem :: "('a \<Rightarrow> string option) \<Rightarrow> 'a list \<Rightarrow> string option" where
  "first_problem f [] = None"
| "first_problem f (x # xs) = (case f x of Some r \<Rightarrow> Some r | None \<Rightarrow> first_problem f xs)"

definition detect_irrecoverable_mismatch ::
  "(pyfloat \<Rightarrow> string) \<Rightarrow> (string, position) dict \<Rightarrow> string set \<Rightarrow> open_order list \<Rightarrow> string option" where
  "detect_irrecoverable_mismatch render by_symbol mapped orders =
     (case first_problem (\<lambda>(symbol, _). if symbol \<notin> mapped then Some (''unmapped_broker_symbol:'' @ symbol) else None)
             by_symbol of
        Some r \<Rightarrow> Some r
      | None \<Rightarrow>
          (case first_problem (order_problem render mapped) orders of
             Some r \<Rightarrow> Some r
           | None \<Rightarrow> first_problem (position_problem render) by_symbol))"

section \<open>Differences\<close>

definition broker_view :: "(string, position) dict \<Rightarrow> string \<Rightarrow> pyfloat \<times> string \<times> pyfloat" where
  "broker_view by_symbol symbol =
     (case map_of by_symbol symbol of
        None \<Rightarrow> (0, ''flat'', 0) | Some p \<Rightarrow> (pos_qty p, pos_side p, pos_avg_entry_price p))"

definition diff_one ::
  "(string, position) dict \<Rightarrow> (string, int) dict \<Rightarrow> (string, int) dict \<Rightarrow> pyfloat \<Rightarrow> pyfloat
     \<Rightarrow> string \<times> runtime_snapshot \<Rightarrow> position_delta list" where
  "diff_one by_symbol local_pending broker_pending qty_tol price_tol = (\<lambda>(sid, snap).
     let symbol = str_upper (rt_symbol snap);
         (broker_qty, broker_side, broker_avg) = broker_view by_symbol symbol;
         delta = (\<lambda>field l b. \<lparr>pd_strategy_id = sid, pd_symbol = symbol, pd_field_name = field,
                               pd_local_value = l, pd_broker_value = b\<rparr>);
         local_open = dict_get local_pending sid 0;
         broker_open = dict_get broker_pending symbol 0
     in (if qty_tol < \<bar>rt_qty snap - broker_qty\<bar>
         then [delta ''qty'' (Delta_num (rt_qty snap)) (Delta_num broker_qty)] else [])
        @ (if rt_side snap \<noteq> broker_side \<and> \<not> (rt_side snap = ''flat'' \<and> broker_qty \<le> qty_tol)
           then [delta ''side'' (Delta_str (rt_side snap)) (Delta_str broker_side)] else [])
        @ (if qty_tol < broker_qty \<and> price_tol < \<bar>rt_avg_entry_price snap - broker_avg\<bar>
           then [delta ''avg_entry_price'' (Delta_num (rt_avg_entry_price snap)) (Delta_num broker_avg)] else [])
        @ (if local_open \<noteq> broker_open
           then [delta ''open_order_count'' (Delta_num (real_of_int local_open)) (Delta_num (real_of_int broker_open))]
           else []))"

definition diff_snapshots ::
  "(string, runtime_snapshot) dict \<Rightarrow> (string, position) dict \<Rightarrow> (string, int) dict \<Rightarrow> (string, int) dict
     \<Rightarrow> pyfloat \<Rightarrow> pyfloat \<Rightarrow> position_delta list" where
  "diff_snapshots locals by_symbol local_pending broker_pending qty_tol price_tol =
     concat (map (diff_one by_symbol local_pending broker_pending qty_tol price_tol) locals)"

definition lacks_matching_local_telemetry ::
  "runtime_snapshot option \<Rightarrow> position \<Rightarrow> pyfloat \<Rightarrow> pyfloat \<Rightarrow> bool" where
  "lacks_matching_local_telemetry prior p qty_tol price_tol =
     (case prior of
        None \<Rightarrow> True
      | Some snap \<Rightarrow>
          if qty_tol < \<bar>rt_qty snap - pos_qty p\<bar> then True
          else if rt_side snap \<noteq> pos_side p \<and> \<not> (rt_side snap = ''flat'' \<and> pos_qty p \<le> qty_tol) then True
          else qty_tol < pos_qty p \<and> price_tol < \<bar>rt_avg_entry_price snap - pos_avg_entry_price p\<bar>)"

section \<open>When the position was opened\<close>

definition signed_fill_inventory_delta :: "string \<Rightarrow> pyfloat \<Rightarrow> pyfloat" where
  "signed_fill_inventory_delta side qty =
     (let normalized = str_lower (str_strip side)
      in if normalized = ''buy'' then qty else if normalized = ''sell'' then - qty else 0)"

definition inventory_crossed_zero_boundary :: "pyfloat \<Rightarrow> pyfloat \<Rightarrow> pyfloat \<Rightarrow> bool" where
  "inventory_crossed_zero_boundary prior_net net tol =
     (if \<bar>net\<bar> \<le> tol then tol < \<bar>prior_net\<bar>
      else if tol < prior_net \<and> net < - tol then True
      else prior_net < - tol \<and> tol < net)"

definition signed_position_inventory_target :: "pyfloat \<Rightarrow> string \<Rightarrow> pyfloat \<Rightarrow> pyfloat option" where
  "signed_position_inventory_target qty position_side tol =
     (let side = str_lower (str_strip position_side)
      in if qty \<le> tol \<or> side \<notin> {''long'', ''short''} then None
         else Some (if side = ''long'' then qty else - qty))"

fun walk_back :: "pyfloat \<Rightarrow> pyfloat \<Rightarrow> broker_fill list \<Rightarrow> instant option" where
  "walk_back tol running [] = None"
| "walk_back tol running (f # fs) =
     (let net = running - signed_fill_inventory_delta (bf_side f) (bf_filled_qty f)
      in if inventory_crossed_zero_boundary running net tol then Some (bf_filled_at f) else walk_back tol net fs)"

definition find_position_entry_fill_ts ::
  "broker_fill list \<Rightarrow> string \<Rightarrow> pyfloat \<Rightarrow> string \<Rightarrow> pyfloat \<Rightarrow> instant option" where
  "find_position_entry_fill_ts fills symbol position_qty position_side tol =
     (case signed_position_inventory_target position_qty position_side tol of
        None \<Rightarrow> None
      | Some target \<Rightarrow>
          let symbol_key = str_upper (str_strip symbol);
              ordered = sort_key (\<lambda>f. - bf_filled_at f)
                (filter (\<lambda>f. str_upper (str_strip (bf_symbol f)) = symbol_key \<and> tol < bf_filled_qty f) fills)
          in walk_back tol target ordered)"

fun add_lookbacks :: "int list \<Rightarrow> int list \<Rightarrow> int list" where
  "add_lookbacks acc [] = acc"
| "add_lookbacks acc (d # ds) =
     (let n = max d 1 in add_lookbacks (if n \<in> set acc then acc else acc @ [n]) ds)"

fun try_lookbacks :: "(int \<Rightarrow> instant option) \<Rightarrow> int list \<Rightarrow> (instant \<times> int) option" where
  "try_lookbacks look [] = None"
| "try_lookbacks look (d # ds) = (case look d of Some ts \<Rightarrow> Some (ts, d) | None \<Rightarrow> try_lookbacks look ds)"

definition resolve_position_entry_fill_ts ::
  "(string \<Rightarrow> int \<Rightarrow> broker_fill list) \<Rightarrow> string \<Rightarrow> pyfloat \<Rightarrow> string \<Rightarrow> pyfloat \<Rightarrow> int \<Rightarrow> instant option \<times> int" where
  "resolve_position_entry_fill_ts get_fills symbol position_qty position_side tol initial_days =
     (let lookbacks = add_lookbacks [] (initial_days # FILL_LOOKBACK_EXPANSION_DAYS);
          look = (\<lambda>days. find_position_entry_fill_ts (get_fills symbol days) symbol position_qty position_side tol)
      in case try_lookbacks look lookbacks of Some (ts, d) \<Rightarrow> (Some ts, d) | None \<Rightarrow> (None, last lookbacks))"

text \<open>\<open>x or d\<close> on ints is \<open>or_num\<close>.\<close>

definition deduce_bars_in_trade :: "instant \<Rightarrow> instant \<Rightarrow> int \<Rightarrow> int \<Rightarrow> int" where
  "deduce_bars_in_trade entry_ts now bar_interval max_bars =
     (let interval = max (or_num (Some bar_interval) DEFAULT_BAR_INTERVAL_SECONDS) 1;
          elapsed = max 0 (total_seconds (now - entry_ts));
          bars = \<lfloor>elapsed / real_of_int interval\<rfloor> + 1;
          ceil = max (or_num (Some max_bars) 1) 1
      in max 1 (min bars ceil))"

section \<open>The broker baseline\<close>

definition snapshot_from_broker ::
  "string \<Rightarrow> string \<Rightarrow> position option \<Rightarrow> runtime_snapshot option \<Rightarrow> int option \<Rightarrow> leg_bound" where
  "snapshot_from_broker sid symbol broker prior bars_override =
     (let flat = \<lparr>lb_strategy_id = sid, lb_symbol = str_upper symbol, lb_in_position = False,
                  lb_position_side = ''flat'', lb_bars_in_trade = 0, lb_qty = 0, lb_avg_entry_price = 0,
                  lb_max_bars_in_trade = (case prior of None \<Rightarrow> 40 | Some s \<Rightarrow> rt_max_bars_in_trade s),
                  lb_open_order_count = (case prior of None \<Rightarrow> 0 | Some s \<Rightarrow> rt_open_order_count s)\<rparr>
      in case broker of
           None \<Rightarrow> flat
         | Some p \<Rightarrow>
             if pos_qty p \<le> QTY_TOLERANCE then flat
             else
               let max_bars = or_num (Some (case prior of None \<Rightarrow> 40 | Some s \<Rightarrow> rt_max_bars_in_trade s)) 40;
                   prior_bars = (case prior of None \<Rightarrow> 0 | Some s \<Rightarrow> rt_bars_in_trade s);
                   bars = (case bars_override of
                             Some b \<Rightarrow> max 1 (min b max_bars)
                           | None \<Rightarrow> max 1 (min (if 0 < prior_bars then prior_bars else 1) max_bars))
               in \<lparr>lb_strategy_id = sid, lb_symbol = str_upper symbol, lb_in_position = True,
                   lb_position_side = pos_side p, lb_bars_in_trade = bars, lb_qty = pos_qty p,
                   lb_avg_entry_price = pos_avg_entry_price p, lb_max_bars_in_trade = max_bars,
                   lb_open_order_count = (case prior of None \<Rightarrow> 0 | Some s \<Rightarrow> rt_open_order_count s)\<rparr>)"

record preflight_config =
  pf_strategy_symbols :: "(string, string) dict"
  pf_bar_intervals :: "(string, int) dict"
  pf_qty_tolerance :: pyfloat
  pf_price_tolerance :: pyfloat
  pf_fill_lookback_days :: int
  pf_defer_latch :: bool

text \<open>One leg of the baseline: the bars deduced from its fills where local telemetry does not
  match, or the mark that the entry fill was not found.\<close>

definition baseline_leg ::
  "preflight_config \<Rightarrow> (string \<Rightarrow> int \<Rightarrow> broker_fill list) \<Rightarrow> instant \<Rightarrow> (string, position) dict
     \<Rightarrow> (string, runtime_snapshot) dict \<Rightarrow> string \<times> string \<Rightarrow> leg_bound \<times> bool" where
  "baseline_leg cfg get_fills market_now by_symbol locals = (\<lambda>(sid, symbol).
     let broker = map_of by_symbol (str_upper symbol);
         prior = map_of locals sid;
         tol = pf_qty_tolerance cfg;
         (override, unresolved) =
           (case broker of
              None \<Rightarrow> (None, False)
            | Some p \<Rightarrow>
                if tol < pos_qty p \<and> lacks_matching_local_telemetry prior p tol (pf_price_tolerance cfg)
                then (case fst (resolve_position_entry_fill_ts get_fills symbol (pos_qty p) (pos_side p) tol
                                  (pf_fill_lookback_days cfg)) of
                        None \<Rightarrow> (None, True)
                      | Some entry_ts \<Rightarrow>
                          let interval = or_num (Some (dict_get (pf_bar_intervals cfg) sid DEFAULT_BAR_INTERVAL_SECONDS))
                                DEFAULT_BAR_INTERVAL_SECONDS;
                              max_bars = or_num (Some (case prior of None \<Rightarrow> 40 | Some s \<Rightarrow> rt_max_bars_in_trade s)) 40
                          in (Some (deduce_bars_in_trade entry_ts market_now interval max_bars), False))
                else (None, False))
     in (snapshot_from_broker sid symbol broker prior override, unresolved))"

definition apply_broker_baseline ::
  "'db runtime_store \<Rightarrow> preflight_config \<Rightarrow> (string \<Rightarrow> int \<Rightarrow> broker_fill list) \<Rightarrow> instant \<Rightarrow> (string, position) dict
     \<Rightarrow> (string, runtime_snapshot) dict \<Rightarrow> 'db \<Rightarrow> 'db \<times> (string, leg_bound) dict \<times> string list" where
  "apply_broker_baseline store cfg get_fills market_now by_symbol locals db =
     (let legs = map (\<lambda>(sid, symbol). (sid, baseline_leg cfg get_fills market_now by_symbol locals (sid, symbol)))
            (pf_strategy_symbols cfg);
          bounds = map (\<lambda>(sid, b, _). (sid, b)) legs;
          unresolved = map fst (filter (\<lambda>(_, _, u). u) legs)
      in if unresolved \<noteq> [] then (db, [], unresolved) else (st_persist store bounds db, bounds, []))"

section \<open>The run\<close>

record ('db, 'tag) preflight_state =
  ps_db :: 'db
  ps_latches :: latch_table
  ps_journal :: "'tag journal_entry list"
  ps_degradation :: "degradation_manager option"

definition preflight_failed :: "string \<Rightarrow> preflight_result" where
  "preflight_failed reason =
     \<lparr>pr_success = False, pr_recovered = False, pr_latched_soft_degrade = True, pr_deltas = [],
      pr_failure_reason = reason, pr_journal_event_id = None\<rparr>"

definition latch_soft_degrade ::
  "preflight_config \<Rightarrow> string \<Rightarrow> instant \<Rightarrow> ('db, 'tag) preflight_state \<Rightarrow> ('db, 'tag) preflight_state \<times> preflight_result" where
  "latch_soft_degrade cfg reason now s =
     ((if pf_defer_latch cfg then s
       else s\<lparr>ps_latches := engage_pre_flight_recon_lock reason (CDict []) now (ps_latches s),
              ps_degradation := map_option (apply_soft_degrade reason now) (ps_degradation s)\<rparr>),
      preflight_failed reason)"

text \<open>What one start sees of the outside: the broker's answers, the clock and the journal's signer.\<close>

record 'tag preflight_world =
  pw_positions :: "position list"
  pw_open_orders :: "open_order list"
  pw_fills :: "string \<Rightarrow> int \<Rightarrow> broker_fill list"
  pw_now :: instant
  pw_sign :: "'tag signer"
  pw_sha :: "string \<Rightarrow> string"
  pw_env :: "string option"

text \<open>The journal's record of a recovery names the legs whose snapshot was replaced.\<close>

definition journal_recovery ::
  "'tag preflight_world \<Rightarrow> cfg \<Rightarrow> cfg \<Rightarrow> 'tag journal_entry list \<Rightarrow> 'tag journal_entry list \<times> int option" where
  "journal_recovery w previous requested j =
     (let (j', res) = journal_append (pw_sign w) (pw_sha w) (pw_env w) (pw_now w) ''STATE_RECON_RECOVERY''
            (triggered_value SYSTEM_AUTOMATIC) previous requested ''pre_flight_broker_reconciliation_recovery''
            ''PRE_FLIGHT_RECON'' (CDict []) j
      in (j', case res of Inl _ \<Rightarrow> None | Inr e \<Rightarrow> Some (je_journal_id e)))"

text \<open>The third component is the argument of the leg-memory callback, if it is called.\<close>

definition execute_preflight ::
  "'db runtime_store \<Rightarrow> (pyfloat \<Rightarrow> string) \<Rightarrow> ((string, runtime_snapshot) dict \<Rightarrow> cfg) \<Rightarrow> ((string, leg_bound) dict \<Rightarrow> cfg)
     \<Rightarrow> preflight_config \<Rightarrow> 'tag preflight_world \<Rightarrow> ('db, 'tag) preflight_state
     \<Rightarrow> ('db, 'tag) preflight_state \<times> preflight_result \<times> (string, leg_bound) dict option" where
  "execute_preflight store render json_snaps json_bounds cfg w s =
     (let (is_locked, lock_reason) = is_pre_flight_recon_locked (ps_latches s)
      in if is_locked
         then (s, preflight_failed (or_default lock_reason ''pre_flight_recon_lock_active''), None)
         else
           let symbols = pf_strategy_symbols cfg;
               locals = st_load store symbols (ps_db s);
               local_pending = st_pending store symbols (ps_db s);
               by_symbol = broker_positions_by_symbol (pw_positions w);
               mapped = set (map (\<lambda>(_, y). str_upper y) symbols);
               counts = open_order_counts (pw_open_orders w)
           in case detect_irrecoverable_mismatch render by_symbol mapped (pw_open_orders w) of
                Some reason \<Rightarrow> let (s1, res) = latch_soft_degrade cfg reason (pw_now w) s in (s1, res, None)
              | None \<Rightarrow>
                  let deltas = diff_snapshots locals by_symbol local_pending counts (pf_qty_tolerance cfg)
                        (pf_price_tolerance cfg);
                      ok = (\<lambda>db j recovered jid callback.
                        (s\<lparr>ps_db := st_sync_orders store counts symbols db, ps_journal := j\<rparr>,
                         \<lparr>pr_success = True, pr_recovered = recovered, pr_latched_soft_degrade = False,
                          pr_deltas = deltas, pr_failure_reason = [], pr_journal_event_id = jid\<rparr>, callback))
                  in if deltas \<noteq> []
                     then
                       let (db1, bounds, unresolved) =
                             apply_broker_baseline store cfg (pw_fills w) (pw_now w) by_symbol locals (ps_db s)
                       in if unresolved \<noteq> []
                          then let (s1, res) = latch_soft_degrade cfg
                                     (DEEP_POSITION_ENTRY_UNRESOLVED @ '':'' @ str_join '','' unresolved) (pw_now w) s
                               in (s1, res, None)
                          else let (j1, jid) = journal_recovery w (json_snaps locals) (json_bounds bounds) (ps_journal s)
                               in ok db1 j1 True jid (Some bounds)
                     else
                       let bounds = map (\<lambda>(sid, symbol). (sid,
                             snapshot_from_broker sid symbol (map_of by_symbol (str_upper symbol)) (map_of locals sid) None))
                             symbols
                       in ok (st_persist store bounds (ps_db s)) (ps_journal s) False None None)"

section \<open>The entry fill is found\<close>

definition fill_delta :: "broker_fill \<Rightarrow> pyfloat" where
  "fill_delta f = signed_fill_inventory_delta (bf_side f) (bf_filled_qty f)"

text \<open>The inventory after some fills, from what it was at the start of the fetched window.\<close>

definition inventory_after :: "pyfloat \<Rightarrow> broker_fill list \<Rightarrow> pyfloat" where
  "inventory_after start fs = start + sum_list (map fill_delta fs)"

lemma crossed_opening:
  assumes "z = 1 \<or> z = -1" "0 \<le> tol" "z * x \<le> tol" "tol < z * y"
  shows "inventory_crossed_zero_boundary y x tol"
  using assms by (auto simp: inventory_crossed_zero_boundary_def)

lemma not_crossed_inside:
  assumes "z = 1 \<or> z = -1" "0 \<le> tol" "tol < z * x" "tol < z * y"
  shows "\<not> inventory_crossed_zero_boundary y x tol"
  using assms by (auto simp: inventory_crossed_zero_boundary_def)

lemma walk_back_block:
  assumes "z = 1 \<or> z = -1" "0 \<le> tol" "z * inventory_after start pre \<le> tol"
    and "\<And>k. k \<le> length post \<Longrightarrow> tol < z * inventory_after start (pre @ f # take k post)"
  shows "walk_back tol (inventory_after start (pre @ f # post)) (rev post @ f # older) = Some (bf_filled_at f)"
  using assms(4)
proof (induction post rule: rev_induct)
  case Nil
  have "inventory_after start (pre @ [f]) - signed_fill_inventory_delta (bf_side f) (bf_filled_qty f) = inventory_after start pre"
    by (simp add: inventory_after_def fill_delta_def)
  moreover have "tol < z * inventory_after start (pre @ [f])" using Nil [of 0] by simp
  ultimately show ?case using crossed_opening [OF assms(1-3)] by (simp add: Let_def)
next
  case (snoc g post)
  have step: "inventory_after start (pre @ f # post @ [g]) - signed_fill_inventory_delta (bf_side g) (bf_filled_qty g)
      = inventory_after start (pre @ f # post)"
    by (simp add: inventory_after_def fill_delta_def)
  have "tol < z * inventory_after start (pre @ f # post)" "tol < z * inventory_after start (pre @ f # post @ [g])"
    using snoc.prems [of "length post"] snoc.prems [of "length post + 1"] by simp_all
  then have "\<not> inventory_crossed_zero_boundary (inventory_after start (pre @ f # post @ [g])) (inventory_after start (pre @ f # post)) tol"
    using not_crossed_inside [OF assms(1,2)] by blast
  moreover have "tol < z * inventory_after start (pre @ f # take k post)" if "k \<le> length post" for k
    using snoc.prems [of k] that by simp
  ultimately show ?case using snoc.IH step by (simp add: Let_def)
qed

lemma newest_first:
  assumes "sorted_wrt (<) (map bf_filled_at fills)"
  shows "sort_key (\<lambda>f. - bf_filled_at f) fills = rev fills"
proof (rule sort_key_inj_key_eq)
  have "distinct (map bf_filled_at fills)" using assms strict_sorted_iff by blast
  then show "inj_on (\<lambda>f. - bf_filled_at f) (set fills)" by (auto simp: distinct_map inj_on_def)
  have "sorted (map bf_filled_at fills)" using assms strict_sorted_iff by blast
  then show "sorted (map (\<lambda>f. - bf_filled_at f) (rev fills))"
    by (simp add: sorted_wrt_rev rev_map [symmetric] sorted_wrt_map)
qed simp

text \<open>
  The reconstruction finds the fill that opened the position. Let the broker's fills of
  the symbol be in the order of time, the window starting at any inventory; if the inventory
  was flat or on the other side up to one fill and stayed on the position's side from it on,
  and the position is the inventory after the last fill, the time of that fill is returned.
\<close>

theorem entry_fill_reconstructed:
  assumes "0 \<le> tol" "sorted_wrt (<) (map bf_filled_at (pre @ f # post))"
    and "list_all (\<lambda>g. str_upper (str_strip (bf_symbol g)) = str_upper (str_strip symbol) \<and> tol < bf_filled_qty g)
           (pre @ f # post)"
    and "(side, z) \<in> {(''long'', 1), (''short'', -1)}"
    and "z * inventory_after start pre \<le> tol"
    and "list_all (\<lambda>k. tol < z * inventory_after start (pre @ f # take k post)) [0..<Suc (length post)]"
    and "qty = z * inventory_after start (pre @ f # post)"
  shows "find_position_entry_fill_ts (pre @ f # post) symbol qty side tol = Some (bf_filled_at f)"
proof -
  have z: "z = 1 \<or> z = -1" using assms(4) by auto
  have block: "tol < z * inventory_after start (pre @ f # take k post)" if "k \<le> length post" for k
    using assms(6) that by (simp add: list_all_iff less_Suc_eq_le del: upt_Suc)
  have "str_lower (str_strip side) = side" "side \<in> {''long'', ''short''}"
    using assms(4) by (auto simp: str_strip_def str_lower_def is_space_def chr_lower_def less_eq_char_def)
  moreover have "tol < qty" using block [of "length post"] assms(7) by simp
  ultimately have target: "signed_position_inventory_target qty side tol = Some (inventory_after start (pre @ f # post))"
    using assms(4,7) by (auto simp: signed_position_inventory_target_def Let_def)
  have keep: "filter (\<lambda>g. str_upper (str_strip (bf_symbol g)) = str_upper (str_strip symbol) \<and> tol < bf_filled_qty g)
      (pre @ f # post) = pre @ f # post"
    using assms(3) by (simp add: filter_id_conv list_all_iff)
  show ?thesis
    unfolding find_position_entry_fill_ts_def target option.case Let_def keep newest_first [OF assms(2)]
    using walk_back_block [OF z assms(1,5) block, of "rev pre"] by simp
qed

definition sample_fill :: "string \<Rightarrow> pyfloat \<Rightarrow> instant \<Rightarrow> broker_fill" where
  "sample_fill side qty t =
     \<lparr>bf_order_id = ''o'', bf_symbol = ''SPY'', bf_side = side, bf_filled_qty = qty, bf_filled_at = t\<rparr>"

theorem entry_fill_reconstructed_witness:
  "find_position_entry_fill_ts
     [sample_fill ''sell'' 5 10, sample_fill ''buy'' 8 20, sample_fill ''buy'' 2 30] ''SPY'' 9 ''long'' (1 / 10000) = Some 20"
  using entry_fill_reconstructed [where tol = "1 / 10000" and pre = "[sample_fill ''sell'' 5 10]"
      and f = "sample_fill ''buy'' 8 20" and post = "[sample_fill ''buy'' 2 30]" and symbol = "''SPY''" and side = "''long''"
      and z = 1 and start = 4 and qty = 9]
  by (simp add: sample_fill_def inventory_after_def fill_delta_def signed_fill_inventory_delta_def str_strip_def
      str_lower_def str_upper_def is_space_def chr_lower_def chr_upper_def less_eq_char_def)

lemma bars_within: "1 \<le> deduce_bars_in_trade ts now i mb" "0 < mb \<Longrightarrow> deduce_bars_in_trade ts now i mb \<le> mb"
  by (simp_all add: deduce_bars_in_trade_def Let_def or_num_def)

section \<open>A failed run blocks entries\<close>

lemma soft_degrade_mode: "dm_mode (apply_soft_degrade reason now m) \<noteq> NORMAL"
  by (simp add: apply_soft_degrade_def persist_state_def Let_def)

lemma execute_locked:
  assumes "fst (is_pre_flight_recon_locked (ps_latches s))"
  shows "fst (execute_preflight store render js jb cfg w s) = s"
    "\<not> pr_success (fst (snd (execute_preflight store render js jb cfg w s)))"
  using assms by (simp_all add: execute_preflight_def split_beta preflight_failed_def)

lemma execute_fails:
  assumes "\<not> fst (is_pre_flight_recon_locked (ps_latches s))"
    and "\<not> pr_success (fst (snd (execute_preflight store render js jb cfg w s)))"
  obtains reason where
    "fst (execute_preflight store render js jb cfg w s) = fst (latch_soft_degrade cfg reason (pw_now w) s)"
    "fst (snd (execute_preflight store render js jb cfg w s)) = preflight_failed reason"
    "snd (snd (execute_preflight store render js jb cfg w s)) = None"
  using assms
  by (auto simp: execute_preflight_def Let_def split_beta latch_soft_degrade_def split: option.splits if_splits)

text \<open>
  When a start-up reconciliation fails and the latch is not deferred, the lock is engaged
  with the reported reason, the degradation manager is out of NORMAL, the local store and the
  journal are untouched, and every later run is refused without effect until the lock is
  released, whatever the broker then says.
\<close>

theorem failed_preflight_blocks:
  fixes s :: "('db, 'tag) preflight_state"
  assumes "\<not> fst (is_pre_flight_recon_locked (ps_latches s))" "\<not> pf_defer_latch cfg"
    and "execute_preflight store render js jb cfg w s = (s', res, callback)" "\<not> pr_success res"
  shows "is_pre_flight_recon_locked (ps_latches s') = (True, pr_failure_reason res) \<and>
    ps_db s' = ps_db s \<and> ps_journal s' = ps_journal s \<and> callback = None \<and>
    pred_option (\<lambda>m. dm_mode m \<noteq> NORMAL) (ps_degradation s') \<and>
    fst (execute_preflight store render js jb cfg' w' s') = s' \<and>
    \<not> pr_success (fst (snd (execute_preflight store render js jb cfg' w' s')))"
proof -
  obtain reason where r: "s' = fst (latch_soft_degrade cfg reason (pw_now w) s)" "res = preflight_failed reason"
    "callback = None"
    using execute_fails [OF assms(1), of store render js jb cfg w] assms(3,4) by auto
  then have lck: "is_pre_flight_recon_locked (ps_latches s') = (True, reason)"
    using assms(2) by (simp add: latch_soft_degrade_def recon_lock_roundtrip)
  then show ?thesis
    using r assms(2) execute_locked [of s' store render js jb cfg' w']
    by (auto simp: latch_soft_degrade_def preflight_failed_def option.pred_map soft_degrade_mode option.pred_True
        comp_def)
qed

definition demo_store :: "unit runtime_store" where
  "demo_store = \<lparr>st_load = (\<lambda>_ _. []), st_pending = (\<lambda>_ _. []), st_persist = (\<lambda>_ db. db), st_sync_orders = (\<lambda>_ _ db. db)\<rparr>"

definition demo_config :: preflight_config where
  "demo_config = \<lparr>pf_strategy_symbols = [(''SPY_15'', ''SPY'')], pf_bar_intervals = [], pf_qty_tolerance = QTY_TOLERANCE,
     pf_price_tolerance = PRICE_TOLERANCE, pf_fill_lookback_days = 30, pf_defer_latch = False\<rparr>"

definition demo_world :: "unit preflight_world" where
  "demo_world = \<lparr>pw_positions = [\<lparr>pos_symbol = ''GME'', pos_qty = 3, pos_side = ''long'', pos_avg_entry_price = 20,
     pos_unrealized_pl = 0\<rparr>], pw_open_orders = [], pw_fills = (\<lambda>_ _. []), pw_now = 0, pw_sign = (\<lambda>_ _. ()),
     pw_sha = id, pw_env = None\<rparr>"

definition demo_state :: "(unit, unit) preflight_state" where
  "demo_state = \<lparr>ps_db = (), ps_latches = [], ps_journal = [], ps_degradation = None\<rparr>"

theorem failed_preflight_blocks_witness:
  "let r = execute_preflight demo_store (\<lambda>_. ''q'') (\<lambda>_. CNull) (\<lambda>_. CNull) demo_config demo_world demo_state
   in pr_failure_reason (fst (snd r)) = ''unmapped_broker_symbol:GME'' \<and>
      is_pre_flight_recon_locked (ps_latches (fst r)) = (True, pr_failure_reason (fst (snd r)))"
proof -
  let ?r = "execute_preflight demo_store (\<lambda>_. ''q'') (\<lambda>_. CNull) (\<lambda>_. CNull) demo_config demo_world demo_state"
  have res: "pr_failure_reason (fst (snd ?r)) = ''unmapped_broker_symbol:GME''" "\<not> pr_success (fst (snd ?r))" by code_simp+
  have pre: "\<not> fst (is_pre_flight_recon_locked (ps_latches demo_state))" "\<not> pf_defer_latch demo_config" by code_simp+
  have "?r = (fst ?r, fst (snd ?r), snd (snd ?r))" by simp
  from failed_preflight_blocks [OF pre this res(2)] res(1) show ?thesis by (simp add: Let_def)
qed

section \<open>A successful run leaves nothing to reconcile\<close>

text \<open>The snapshot a stored bound reads back as.\<close>

definition bound_snapshot :: "leg_bound \<Rightarrow> runtime_snapshot" where
  "bound_snapshot b =
     \<lparr>rt_symbol = lb_symbol b, rt_side = lb_position_side b, rt_qty = lb_qty b, rt_avg_entry_price = lb_avg_entry_price b,
      rt_bars_in_trade = lb_bars_in_trade b, rt_open_order_count = lb_open_order_count b,
      rt_max_bars_in_trade = lb_max_bars_in_trade b\<rparr>"

text \<open>What the engine relies on of the store: snapshots persisted for the legs are loaded back, and
  after a sync the pending counts are those given for each leg's symbol.\<close>

definition store_reads_back :: "'db runtime_store \<Rightarrow> bool" where
  "store_reads_back store \<longleftrightarrow>
     (\<forall>symbols bounds counts db. map fst bounds = map fst symbols \<longrightarrow>
        st_load store symbols (st_sync_orders store counts symbols (st_persist store bounds db)) =
          map (\<lambda>(sid, b). (sid, bound_snapshot b)) bounds) \<and>
     (\<forall>symbols counts db. st_pending store symbols (st_sync_orders store counts symbols db) =
        map (\<lambda>(sid, y). (sid, dict_get counts (str_upper y) 0)) symbols)"

lemma by_symbol_from_list:
  "map_of (broker_positions_by_symbol ps) k = Some p \<Longrightarrow> p \<in> set ps"
proof -
  have "map_of (foldl (\<lambda>d p. AList.update (str_upper (pos_symbol p)) p d) d ps) k = Some p \<Longrightarrow>
      p \<in> set ps \<or> map_of d k = Some p" for d
  proof (induction ps arbitrary: d)
    case (Cons a ps)
    then show ?case using Cons.IH [of "AList.update (str_upper (pos_symbol a)) a d"] by (auto split: if_splits)
  qed simp
  then show "map_of (broker_positions_by_symbol ps) k = Some p \<Longrightarrow> p \<in> set ps"
    by (fastforce simp: broker_positions_by_symbol_def)
qed

text \<open>A bound taken from the broker shows no difference from the broker.\<close>

lemma baseline_has_no_delta:
  assumes "QTY_TOLERANCE \<le> qt" "0 \<le> pt" "\<And>p. map_of by_symbol (str_upper y) = Some p \<Longrightarrow> 0 \<le> pos_qty p"
    and "dict_get local_pending sid 0 = dict_get counts (str_upper y) 0"
  shows "diff_one by_symbol local_pending counts qt pt
     (sid, bound_snapshot (snapshot_from_broker sid y (map_of by_symbol (str_upper y)) prior ovr)) = []"
proof (cases "map_of by_symbol (str_upper y)")
  case None
  then show ?thesis using assms(1,4)
    by (simp add: diff_one_def broker_view_def bound_snapshot_def snapshot_from_broker_def Let_def QTY_TOLERANCE_def)
next
  case (Some p)
  have q: "0 \<le> pos_qty p" "0 \<le> qt" using assms(1,3) Some by (simp_all add: QTY_TOLERANCE_def)
  show ?thesis
  proof (cases "pos_qty p \<le> QTY_TOLERANCE")
    case True
    then have "pos_qty p \<le> qt" "\<not> qt < pos_qty p" using assms(1) by simp_all
    with True Some q assms(4) show ?thesis
      by (simp add: diff_one_def broker_view_def bound_snapshot_def snapshot_from_broker_def Let_def)
  next
    case False
    with Some q assms(2,4) show ?thesis
      by (simp add: diff_one_def broker_view_def bound_snapshot_def snapshot_from_broker_def Let_def)
  qed
qed

lemma baseline_leg_bound:
  "\<exists>ovr. fst (baseline_leg cfg gf now by_symbol locals (sid, y)) =
     snapshot_from_broker sid y (map_of by_symbol (str_upper y)) (map_of locals sid) ovr"
  by (auto simp: baseline_leg_def Let_def split_beta)

lemma baseline_bounds:
  assumes "snd (snd (apply_broker_baseline store cfg gf now by_symbol locals db)) = []"
  obtains ovr where
    "fst (snd (apply_broker_baseline store cfg gf now by_symbol locals db)) =
       map (\<lambda>(sid, y). (sid, snapshot_from_broker sid y (map_of by_symbol (str_upper y)) (map_of locals sid) (ovr sid y)))
         (pf_strategy_symbols cfg)"
    "fst (apply_broker_baseline store cfg gf now by_symbol locals db) =
       st_persist store (fst (snd (apply_broker_baseline store cfg gf now by_symbol locals db))) db"
proof -
  obtain ovr where ovr: "fst (baseline_leg cfg gf now by_symbol locals (sid, y)) =
      snapshot_from_broker sid y (map_of by_symbol (str_upper y)) (map_of locals sid) (ovr sid y)" for sid y
    using baseline_leg_bound by metis
  show ?thesis
    by (rule that [of ovr]) (use assms ovr in \<open>auto simp: apply_broker_baseline_def Let_def comp_def split_beta split: if_splits\<close>)
qed

lemma execute_success:
  fixes cfg w s
  defines "symbols \<equiv> pf_strategy_symbols cfg" and "by_symbol \<equiv> broker_positions_by_symbol (pw_positions w)"
    and "counts \<equiv> open_order_counts (pw_open_orders w)"
  assumes "\<not> fst (is_pre_flight_recon_locked (ps_latches s))"
    and "pr_success (fst (snd (execute_preflight store render js jb cfg w s)))"
  obtains ovr j where
    "fst (execute_preflight store render js jb cfg w s) =
       s\<lparr>ps_db := st_sync_orders store counts symbols
           (st_persist store (map (\<lambda>(sid, y). (sid, snapshot_from_broker sid y (map_of by_symbol (str_upper y))
              (map_of (st_load store symbols (ps_db s)) sid) (ovr sid y))) symbols) (ps_db s)), ps_journal := j\<rparr>"
    "detect_irrecoverable_mismatch render by_symbol (set (map (\<lambda>(_, y). str_upper y) symbols)) (pw_open_orders w) = None"
proof -
  let ?locals = "st_load store symbols (ps_db s)"
  let ?deltas = "diff_snapshots ?locals by_symbol (st_pending store symbols (ps_db s)) counts (pf_qty_tolerance cfg)
      (pf_price_tolerance cfg)"
  let ?base = "apply_broker_baseline store cfg (pw_fills w) (pw_now w) by_symbol ?locals (ps_db s)"
  note defs = execute_preflight_def Let_def split_beta latch_soft_degrade_def preflight_failed_def
    symbols_def [symmetric] by_symbol_def [symmetric] counts_def [symmetric]
  have none: "detect_irrecoverable_mismatch render by_symbol (set (map (\<lambda>(_, y). str_upper y) symbols))
      (pw_open_orders w) = None"
    using assms(4,5) by (auto simp: defs split: option.splits)
  show ?thesis
  proof (cases "?deltas = []")
    case True
    show ?thesis
      by (rule that [of "ps_journal s" "\<lambda>_ _. None"]) (use True none assms(4) in \<open>auto simp: defs\<close>)
  next
    case False
    then have res: "snd (snd ?base) = []"
      using none assms(4,5) by (auto simp: defs split: if_splits)
    obtain ovr where "fst (snd ?base) = map (\<lambda>(sid, y). (sid, snapshot_from_broker sid y (map_of by_symbol (str_upper y))
          (map_of ?locals sid) (ovr sid y))) symbols" "fst ?base = st_persist store (fst (snd ?base)) (ps_db s)"
      using baseline_bounds [OF res] unfolding symbols_def by blast
    then show ?thesis
      by (intro that [of _ ovr]) (use False none res assms(4) in \<open>auto simp: defs\<close>)
  qed
qed

text \<open>
  Reconciliation converges: after a run that succeeded, a second run over the same broker
  answers succeeds with nothing left to reconcile and writes no journal entry, for every store
  that reads back what was persisted.
\<close>

theorem preflight_converges:
  assumes "store_reads_back store" "\<not> fst (is_pre_flight_recon_locked (ps_latches s))"
    and "dict_ok (pf_strategy_symbols cfg)" "QTY_TOLERANCE \<le> pf_qty_tolerance cfg" "0 \<le> pf_price_tolerance cfg"
    and "list_all (\<lambda>p. 0 \<le> pos_qty p) (pw_positions w)"
    and "execute_preflight store render js jb cfg w s = (s', res, callback)" "pr_success res"
  shows "pr_success (fst (snd (execute_preflight store render js jb cfg w s'))) \<and>
    pr_deltas (fst (snd (execute_preflight store render js jb cfg w s'))) = [] \<and>
    ps_journal (fst (execute_preflight store render js jb cfg w s')) = ps_journal s'"
proof -
  let ?sy = "pf_strategy_symbols cfg" and ?by = "broker_positions_by_symbol (pw_positions w)"
  let ?c = "open_order_counts (pw_open_orders w)"
  have suc: "pr_success (fst (snd (execute_preflight store render js jb cfg w s)))"
    and eq: "fst (execute_preflight store render js jb cfg w s) = s'" using assms(7,8) by simp_all
  obtain ovr j where "fst (execute_preflight store render js jb cfg w s) = s\<lparr>ps_db := st_sync_orders store ?c ?sy
         (st_persist store (map (\<lambda>(sid, y). (sid, snapshot_from_broker sid y (map_of ?by (str_upper y))
            (map_of (st_load store ?sy (ps_db s)) sid) (ovr sid y))) ?sy) (ps_db s)), ps_journal := j\<rparr>"
    and none: "detect_irrecoverable_mismatch render ?by (set (map (\<lambda>(_, y). str_upper y) ?sy)) (pw_open_orders w) = None"
    by (rule execute_success [OF assms(2) suc])
  note s' = this(1) [unfolded eq]
  have load: "st_load store ?sy (ps_db s') =
      map (\<lambda>(sid, y). (sid, bound_snapshot (snapshot_from_broker sid y (map_of ?by (str_upper y))
            (map_of (st_load store ?sy (ps_db s)) sid) (ovr sid y)))) ?sy"
    using assms(1) by (simp add: s' store_reads_back_def comp_def split_beta)
  have pend: "dict_get (st_pending store ?sy (ps_db s')) sid 0 = dict_get ?c (str_upper y) 0" if "(sid, y) \<in> set ?sy" for sid y
    using assms(1,3) that by (simp add: s' store_reads_back_def dict_get_def map_of_map split_beta)
  have deltas: "diff_snapshots (st_load store ?sy (ps_db s')) ?by (st_pending store ?sy (ps_db s')) ?c
      (pf_qty_tolerance cfg) (pf_price_tolerance cfg) = []"
  proof -
    have "diff_one ?by (st_pending store ?sy (ps_db s')) ?c (pf_qty_tolerance cfg) (pf_price_tolerance cfg)
        (sid, bound_snapshot (snapshot_from_broker sid y (map_of ?by (str_upper y))
            (map_of (st_load store ?sy (ps_db s)) sid) (ovr sid y))) = []" if "(sid, y) \<in> set ?sy" for sid y
    proof (rule baseline_has_no_delta [OF assms(4,5)])
      fix p
      assume "map_of ?by (str_upper y) = Some p"
      then have "p \<in> set (pw_positions w)" by (rule by_symbol_from_list)
      then show "0 \<le> pos_qty p" using assms(6) by (simp add: list_all_iff)
    qed (rule pend [OF that])
    then show ?thesis by (simp add: diff_snapshots_def load split_beta)
  qed
  have "\<not> fst (is_pre_flight_recon_locked (ps_latches s'))" using assms(2) by (simp add: s')
  with none deltas show ?thesis by (simp add: execute_preflight_def Let_def split_beta)
qed

type_synonym memory_db = "(string, leg_bound) dict \<times> (string, int) dict"

definition memory_store :: "memory_db runtime_store" where
  "memory_store =
     \<lparr>st_load = (\<lambda>_ db. map (\<lambda>(sid, b). (sid, bound_snapshot b)) (fst db)),
      st_pending = (\<lambda>symbols db. map (\<lambda>(sid, y). (sid, dict_get (snd db) (str_upper y) 0)) symbols),
      st_persist = (\<lambda>bounds db. (bounds, snd db)), st_sync_orders = (\<lambda>counts _ db. (fst db, counts))\<rparr>"

definition moved_world :: "unit preflight_world" where
  "moved_world = demo_world\<lparr>pw_positions := [\<lparr>pos_symbol = ''SPY'', pos_qty = 5, pos_side = ''long'',
     pos_avg_entry_price = 100, pos_unrealized_pl = 0\<rparr>], pw_fills := (\<lambda>_ _. [sample_fill ''buy'' 5 0])\<rparr>"

definition flat_state :: "(memory_db, unit) preflight_state" where
  "flat_state = \<lparr>ps_db = ([(''SPY_15'', snapshot_from_broker ''SPY_15'' ''SPY'' None None None)], []), ps_latches = [],
     ps_journal = [], ps_degradation = None\<rparr>"

theorem preflight_converges_witness:
  "let run = execute_preflight memory_store (\<lambda>_. ''q'') (\<lambda>_. CNull) (\<lambda>_. CNull) demo_config moved_world;
       r = run flat_state
   in pr_recovered (fst (snd r)) \<and> pr_deltas (fst (snd (run (fst r)))) = []"
proof -
  let ?run = "execute_preflight memory_store (\<lambda>_. ''q'') (\<lambda>_. CNull) (\<lambda>_. CNull) demo_config moved_world"
  have store: "store_reads_back memory_store" by (simp add: store_reads_back_def memory_store_def)
  have pre: "\<not> fst (is_pre_flight_recon_locked (ps_latches flat_state))" "dict_ok (pf_strategy_symbols demo_config)"
    "QTY_TOLERANCE \<le> pf_qty_tolerance demo_config" "0 \<le> pf_price_tolerance demo_config"
    "list_all (\<lambda>p. 0 \<le> pos_qty p) (pw_positions moved_world)" by code_simp+
  have first: "pr_recovered (fst (snd (?run flat_state)))" "pr_success (fst (snd (?run flat_state)))" by code_simp+
  have "?run flat_state = (fst (?run flat_state), fst (snd (?run flat_state)), snd (snd (?run flat_state)))" by simp
  from preflight_converges [OF store pre this first(2)] first(1) show ?thesis by (simp add: Let_def)
qed

text \<open>Positions are matched by upper-cased name only: the broker's spelling of a crypto pair, without
  the slash, is not mapped to the leg's, so a held pair fails every start.\<close>

lemma crypto_position_unmapped:
  "detect_irrecoverable_mismatch render
     (broker_positions_by_symbol [\<lparr>pos_symbol = crypto_position_symbol ''BTC/USD'', pos_qty = 1, pos_side = ''long'',
        pos_avg_entry_price = 1, pos_unrealized_pl = 0\<rparr>]) {''BTC/USD''} [] = Some ''unmapped_broker_symbol:BTCUSD''"
  by code_simp

end
