(* ===== verification/Portfolio_Brain.thy ===== *)
theory Portfolio_Brain
  imports Models Portfolio_Risk
begin

text \<open>
  The portfolio brain (\<open>src/engine/portfolio_brain.py\<close>): risk budgets, the portfolio mode, the
  global exposure caps, the multi-day inventory check and the resolution of conflicting
  signals. A leg's metrics, the signals and the correlations come in as dictionaries. The
  formatted texts of the inventory reasons are left out; the rendering of a correlation in a
  block reason is the parameter \<open>fmt3\<close>. Dates are day numbers.
\<close>

section \<open>Constants and data\<close>

definition MIN_MULTIDAY_CALENDAR_DAYS :: int where "MIN_MULTIDAY_CALENDAR_DAYS = 1"
definition QQQ_STRATEGY_ID :: string where "QQQ_STRATEGY_ID = ''mean_reversion_qqq''"
definition SPY_STRATEGY_ID :: string where "SPY_STRATEGY_ID = ''mean_reversion_spy''"
definition MAX_NET_BETA_EXPOSURE :: pyfloat where "MAX_NET_BETA_EXPOSURE = 125 / 100"
definition MAX_GROSS_EXPOSURE_RATIO :: pyfloat where "MAX_GROSS_EXPOSURE_RATIO = 150 / 100"
definition MAX_SECTOR_CONCENTRATION :: pyfloat where "MAX_SECTOR_CONCENTRATION = 85 / 100"
definition MAX_FACTOR_CROWDING :: pyfloat where "MAX_FACTOR_CROWDING = 90 / 100"
definition SPY_DISABLE_HEALTH_FLOOR :: pyfloat where "SPY_DISABLE_HEALTH_FLOOR = 45 / 100"
definition DOMINANT_LEG_BUDGET_SHARE :: pyfloat where "DOMINANT_LEG_BUDGET_SHARE = 95 / 100"
definition OPPOSING_SIGNAL_CORRELATION_FLOOR :: pyfloat where
  "OPPOSING_SIGNAL_CORRELATION_FLOOR = ONE_RISK_UNIT_CORRELATION"
definition MIN_MARGINAL_SHARPE :: pyfloat where "MIN_MARGINAL_SHARPE = 5 / 100"
definition VOL_FLOOR :: pyfloat where "VOL_FLOOR = 5 / 100"

datatype portfolio_mode = DUAL_LEG | SINGLE_LEG_QQQ | SINGLE_LEG_SPY | SPY_DISABLED

type_synonym loadings = "pyfloat \<times> pyfloat \<times> pyfloat"

definition SECTOR_BY_SYMBOL :: "(string, string) dict" where
  "SECTOR_BY_SYMBOL =
     [(''QQQ'', ''US_LARGE_CAP_GROWTH''), (''SPY'', ''US_LARGE_CAP_BLEND''), (''GLD'', ''PRECIOUS_METALS''),
      (''USO'', ''ENERGY_COMMODITIES''), (''BTC/USD'', ''CRYPTO'')]"

definition FACTOR_LOADINGS_BY_SYMBOL :: "(string, loadings) dict" where
  "FACTOR_LOADINGS_BY_SYMBOL =
     [(''QQQ'', (115 / 100, - 20 / 100, 30 / 100)), (''SPY'', (1, 0, 5 / 100)), (''GLD'', (5 / 100, 0, 0)),
      (''USO'', (30 / 100, 0, 0)), (''BTC/USD'', (2, 0, 0))]"

definition BETA_BY_SYMBOL :: "(string, pyfloat) dict" where
  "BETA_BY_SYMBOL = [(''QQQ'', 115 / 100), (''SPY'', 1), (''GLD'', 5 / 100), (''USO'', 30 / 100), (''BTC/USD'', 2)]"

record position_manifest =
  mf_strategy_id :: string
  mf_symbol :: string
  mf_side :: string
  mf_notional :: pyfloat
  mf_calendar_days_held :: int
  mf_bars_in_trade :: int
  mf_opened_session_date :: int

record liquidation_target =
  lt_strategy_id :: string
  lt_symbol :: string
  lt_side :: string
  lt_notional :: pyfloat
  lt_calendar_days_held :: int
  lt_opened_session_date :: int
  lt_transition_reason :: string

record inventory_verdict =
  iv_directive :: "string option"
  iv_allowed :: bool
  iv_net_long :: pyfloat
  iv_net_short :: pyfloat
  iv_multiday_net :: pyfloat
  iv_multiday_ratio :: pyfloat
  iv_cap_notional :: pyfloat
  iv_blocked_entry_by_symbol :: "(string, string set) dict"
  iv_breach_codes :: "string list"
  iv_directives :: "string list"
  iv_targets :: "liquidation_target list"

record leg_metrics =
  lm_strategy_id :: string
  lm_symbol :: string
  lm_realized_vol :: pyfloat
  lm_drawdown_contribution :: pyfloat
  lm_marginal_sharpe :: pyfloat
  lm_notional_exposure :: pyfloat
  lm_health_score :: pyfloat
  lm_champion_score :: pyfloat
  lm_enabled :: bool

record proposed_position =
  pp_strategy_id :: string
  pp_symbol :: string
  pp_side :: string
  pp_notional :: pyfloat
  pp_beta :: pyfloat
  pp_sector :: string
  pp_factor_loadings :: loadings

record exposure_validation =
  ev_allowed :: bool
  ev_sizing_multipliers :: "(string, pyfloat) dict"
  ev_breach_codes :: "string list"
  ev_net_beta :: pyfloat
  ev_gross_exposure_ratio :: pyfloat
  ev_sector_concentration :: pyfloat
  ev_factor_crowding :: pyfloat

record conflict_resolution =
  cr_approved_signals :: "(string, signal option) dict"
  cr_blocked_strategy_ids :: "string set"
  cr_scale_multipliers :: "(string, pyfloat) dict"
  cr_reasons :: "(string, string) dict"

record mode_decision =
  md_mode :: portfolio_mode
  md_spy_leg_enabled :: bool
  md_single_leg_mode :: bool
  md_dominant_strategy_id :: "string option"
  md_reason :: string

record portfolio_brain =
  pb_equity :: pyfloat
  pb_single_leg_symbol :: "string option"
  pb_static_equal_split :: bool
  pb_max_multiday_fraction :: pyfloat
  pb_max_holding_days :: int
  pb_risk_budgets :: "(string, pyfloat) dict"
  pb_mode :: "mode_decision option"
  pb_last_exposure :: "exposure_validation option"
  pb_last_conflicts :: "conflict_resolution option"
  pb_last_inventory :: "inventory_verdict option"

definition new_portfolio_brain ::
  "pyfloat \<Rightarrow> string option \<Rightarrow> bool \<Rightarrow> pyfloat \<Rightarrow> int \<Rightarrow> portfolio_brain" where
  "new_portfolio_brain equity single_leg_symbol static_split max_fraction max_days =
     \<lparr>pb_equity = max equity 1,
      pb_single_leg_symbol = (case single_leg_symbol of None \<Rightarrow> None
                              | Some y \<Rightarrow> if y = [] then None else Some (str_upper y)),
      pb_static_equal_split = static_split, pb_max_multiday_fraction = max_fraction,
      pb_max_holding_days = max_days, pb_risk_budgets = [], pb_mode = None, pb_last_exposure = None,
      pb_last_conflicts = None, pb_last_inventory = None\<rparr>"

definition symbol_beta :: "string \<Rightarrow> pyfloat" where
  "symbol_beta symbol = dict_get BETA_BY_SYMBOL (str_upper symbol) 1"

definition symbol_sector :: "string \<Rightarrow> string" where
  "symbol_sector symbol = dict_get SECTOR_BY_SYMBOL (str_upper symbol) ''US_EQUITY_OTHER''"

definition symbol_factors :: "string \<Rightarrow> loadings" where
  "symbol_factors symbol = dict_get FACTOR_LOADINGS_BY_SYMBOL (str_upper symbol) (1, 0, 0)"

definition signal_direction :: "signal_action \<Rightarrow> int" where
  "signal_direction a = (case a of LONG \<Rightarrow> 1 | SHORT \<Rightarrow> -1 | _ \<Rightarrow> 0)"

definition normalize_weights :: "(string, pyfloat) dict \<Rightarrow> (string, pyfloat) dict" where
  "normalize_weights raw =
     (let positive = map (\<lambda>(k, v). (k, max v 0)) raw;
          total = sum_list (map snd positive)
      in if total \<le> 0 then map (\<lambda>(k, _). (k, 1 / real (if positive = [] then 1 else length positive))) positive
         else map (\<lambda>(k, v). (k, v / total)) positive)"

section \<open>Budgets and mode\<close>

definition raw_weight :: "leg_metrics \<Rightarrow> pyfloat" where
  "raw_weight m =
     (if \<not> lm_enabled m then 0
      else 1 / max (lm_realized_vol m) VOL_FLOOR
           * (1 - min (max (lm_drawdown_contribution m) 0) (95 / 100))
           * max (lm_marginal_sharpe m) MIN_MARGINAL_SHARPE)"

definition allocate_risk_budgets ::
  "(string, leg_metrics) dict \<Rightarrow> portfolio_brain \<Rightarrow> portfolio_brain \<times> (string, pyfloat) dict" where
  "allocate_risk_budgets metrics b =
     (if metrics = [] then (b, [])
      else
        let raw = (if pb_static_equal_split b then map (\<lambda>(sid, m). (sid, if lm_enabled m then 1 else 0)) metrics
                   else map (\<lambda>(sid, m). (sid, raw_weight m)) metrics);
            budgets = normalize_weights raw
        in (b\<lparr>pb_risk_budgets := budgets\<rparr>, budgets))"

text \<open>\<open>max(d, key=d.get)\<close>: the first key of the greatest value.\<close>

fun max_key :: "(string, pyfloat) dict \<Rightarrow> string \<times> pyfloat \<Rightarrow> string \<times> pyfloat" where
  "max_key [] best = best"
| "max_key ((k, v) # d) best = max_key d (if snd best < v then (k, v) else best)"

definition decide_mode ::
  "portfolio_mode \<Rightarrow> bool \<Rightarrow> bool \<Rightarrow> string option \<Rightarrow> string \<Rightarrow> portfolio_brain \<Rightarrow> portfolio_brain \<times> mode_decision" where
  "decide_mode mode spy_on single dominant reason b =
     (let d = \<lparr>md_mode = mode, md_spy_leg_enabled = spy_on, md_single_leg_mode = single,
               md_dominant_strategy_id = dominant, md_reason = reason\<rparr>
      in (b\<lparr>pb_mode := Some d\<rparr>, d))"

text \<open>The last part of the decision: one leg holds nearly the whole budget, or both trade.\<close>

definition budget_mode :: "bool \<Rightarrow> portfolio_brain \<Rightarrow> portfolio_brain \<times> mode_decision" where
  "budget_mode spy_enabled_config b =
     (case pb_risk_budgets b of
        [] \<Rightarrow> decide_mode DUAL_LEG spy_enabled_config False None ''dual_leg_default'' b
      | kv # rest \<Rightarrow>
          let (top_id, top_share) = max_key rest kv
          in if DOMINANT_LEG_BUDGET_SHARE \<le> top_share
             then decide_mode (if top_id = QQQ_STRATEGY_ID then SINGLE_LEG_QQQ
                               else if top_id = SPY_STRATEGY_ID then SINGLE_LEG_SPY else DUAL_LEG)
                    spy_enabled_config True (Some top_id) ''vol_parity_dominant_budget'' b
             else decide_mode DUAL_LEG spy_enabled_config False None ''dual_leg_default'' b)"

text \<open>\<open>enabled_ids\<close> lists the set of enabled strategies without repetition; empty counts as not given.\<close>

definition resolve_portfolio_mode ::
  "(string, leg_metrics) dict \<Rightarrow> string option \<Rightarrow> string list \<Rightarrow> portfolio_brain \<Rightarrow> portfolio_brain \<times> mode_decision" where
  "resolve_portfolio_mode metrics capital_winner enabled_ids b =
     (let enabled = (if enabled_ids = [] then dict_keys metrics else enabled_ids);
          spy_metrics = map_of metrics SPY_STRATEGY_ID;
          spy_enabled_config = (case spy_metrics of None \<Rightarrow> False | Some m \<Rightarrow> lm_enabled m)
      in if pb_single_leg_symbol b = Some ''QQQ''
         then decide_mode SINGLE_LEG_QQQ False True (Some QQQ_STRATEGY_ID) ''explicit_single_leg_symbol_qqq'' b
         else if pb_single_leg_symbol b = Some ''SPY''
         then decide_mode SINGLE_LEG_SPY True True (Some SPY_STRATEGY_ID) ''explicit_single_leg_symbol_spy'' b
         else if length enabled = 1
         then let dominant = hd enabled
              in decide_mode (if dominant = QQQ_STRATEGY_ID then SINGLE_LEG_QQQ
                              else if dominant = SPY_STRATEGY_ID then SINGLE_LEG_SPY else DUAL_LEG)
                   (SPY_STRATEGY_ID \<in> set enabled) True (Some dominant) ''single_enabled_leg_config'' b
         else if \<not> spy_enabled_config
         then decide_mode SPY_DISABLED False True (Some QQQ_STRATEGY_ID) ''spy_config_disabled'' b
         else if (case spy_metrics of None \<Rightarrow> False | Some m \<Rightarrow> lm_health_score m < SPY_DISABLE_HEALTH_FLOOR)
         then decide_mode SPY_DISABLED False True (Some QQQ_STRATEGY_ID) ''spy_health_below_floor'' b
         else if truthy capital_winner \<and> capital_winner \<noteq> Some SPY_STRATEGY_ID
                 \<and> SPY_STRATEGY_ID \<in> set enabled \<and> QQQ_STRATEGY_ID \<in> set enabled
         then decide_mode SPY_DISABLED False True capital_winner ''capital_prioritization_non_spy'' b
         else budget_mode spy_enabled_config b)"

section \<open>Exposure\<close>

definition counts_position :: "proposed_position \<Rightarrow> bool" where
  "counts_position p = (\<not> (pp_notional p \<le> 0 \<or> pp_side p = ''flat''))"

definition signed_notional :: "proposed_position \<Rightarrow> pyfloat" where
  "signed_notional p = (if pp_side p = ''long'' then pp_notional p else - pp_notional p)"

definition sector_notionals :: "proposed_position list \<Rightarrow> (string, pyfloat) dict" where
  "sector_notionals ps =
     foldl (\<lambda>d p. AList.update (pp_sector p) (dict_get d (pp_sector p) 0 + \<bar>pp_notional p\<bar>) d) [] ps"

definition sector_concentration_of :: "proposed_position list \<Rightarrow> pyfloat" where
  "sector_concentration_of ps =
     (let values = map snd (sector_notionals ps); total = sum_list values
      in (if values = [] then 0 else Max (set values)) / (if total = 0 then 1 else total))"

definition vec_add :: "loadings \<Rightarrow> loadings \<Rightarrow> loadings" where
  "vec_add = (\<lambda>(a, b, c) (x, y, z). (a + x, b + y, c + z))"

definition vec_scale :: "pyfloat \<Rightarrow> loadings \<Rightarrow> loadings" where
  "vec_scale k = (\<lambda>(a, b, c). (k * a, k * b, k * c))"

definition vec_dist :: "loadings \<Rightarrow> loadings \<Rightarrow> pyfloat" where
  "vec_dist = (\<lambda>(a, b, c) (x, y, z). sqrt ((a - x)\<^sup>2 + (b - y)\<^sup>2 + (c - z)\<^sup>2))"

definition factor_crowding_of :: "proposed_position list \<Rightarrow> pyfloat" where
  "factor_crowding_of ps =
     (if length ps < 2 then 0
      else
        let notionals = map (\<lambda>p. \<bar>pp_notional p\<bar>) ps;
            total = (if sum_list notionals = 0 then 1 else sum_list notionals);
            weights = map (\<lambda>n. n / total) notionals;
            vectors = map pp_factor_loadings ps;
            centroid = foldr vec_add (map2 vec_scale weights vectors) (0, 0, 0);
            dispersions = map (\<lambda>v. vec_dist v centroid) vectors;
            crowding = 1 - sum_list (map2 (*) weights dispersions) / sum_list weights
        in max 0 (min 1 crowding))"

definition breach_codes_of :: "pyfloat \<Rightarrow> pyfloat \<Rightarrow> pyfloat \<Rightarrow> pyfloat \<Rightarrow> string list" where
  "breach_codes_of net_beta gross_ratio sector crowding =
     (if MAX_NET_BETA_EXPOSURE < \<bar>net_beta\<bar> then [''net_beta_cap''] else [])
     @ (if MAX_GROSS_EXPOSURE_RATIO < gross_ratio then [''gross_exposure_cap''] else [])
     @ (if MAX_SECTOR_CONCENTRATION < sector then [''sector_concentration_cap''] else [])
     @ (if MAX_FACTOR_CROWDING < crowding then [''factor_crowding_cap''] else [])"

definition breach_severity :: "pyfloat \<Rightarrow> pyfloat \<Rightarrow> pyfloat \<Rightarrow> pyfloat \<Rightarrow> pyfloat" where
  "breach_severity net_beta gross_ratio sector crowding =
     max (max (\<bar>net_beta\<bar> / MAX_NET_BETA_EXPOSURE) (gross_ratio / MAX_GROSS_EXPOSURE_RATIO))
         (max (sector / MAX_SECTOR_CONCENTRATION) (if 0 < crowding then crowding / MAX_FACTOR_CROWDING else 0))"

text \<open>\<open>dict\<close> comprehension over positions: a repeated key keeps its place.\<close>

definition dict_of_keys :: "string list \<Rightarrow> 'v \<Rightarrow> (string, 'v) dict" where
  "dict_of_keys ks v = map (\<lambda>k. (k, v)) (rev (remdups (rev ks)))"

definition validate_global_exposure ::
  "proposed_position list \<Rightarrow> pyfloat option \<Rightarrow> portfolio_brain \<Rightarrow> portfolio_brain \<times> exposure_validation" where
  "validate_global_exposure proposed equity b =
     (let equity_base = max (or_num equity (pb_equity b)) 1;
          counted = filter counts_position proposed;
          net_beta = sum_list (map (\<lambda>p. signed_notional p * pp_beta p) counted) / equity_base;
          gross_ratio = sum_list (map (\<lambda>p. \<bar>pp_notional p\<bar>) counted) / equity_base;
          sector = sector_concentration_of counted;
          crowding = factor_crowding_of counted;
          codes = breach_codes_of net_beta gross_ratio sector crowding;
          ids = map pp_strategy_id proposed;
          severity = breach_severity net_beta gross_ratio sector crowding;
          multiplier = (if codes = [] then 1 else if 1 < severity then 0 else max 0 (min 1 (1 / severity)));
          result = \<lparr>ev_allowed = (codes = []), ev_sizing_multipliers = dict_of_keys ids multiplier,
                    ev_breach_codes = codes, ev_net_beta = net_beta, ev_gross_exposure_ratio = gross_ratio,
                    ev_sector_concentration = sector, ev_factor_crowding = crowding\<rparr>
      in (b\<lparr>pb_last_exposure := Some result\<rparr>, result))"

section \<open>Multi-day inventory\<close>

definition is_entry_locked :: "string \<Rightarrow> string \<Rightarrow> inventory_verdict \<Rightarrow> bool" where
  "is_entry_locked symbol direction v =
     (str_lower direction \<in> dict_get (iv_blocked_entry_by_symbol v) (str_upper symbol) {})"

definition has_directive :: "string \<Rightarrow> inventory_verdict \<Rightarrow> bool" where
  "has_directive d v = (iv_directive v = Some d \<or> d \<in> set (iv_directives v))"

text \<open>Adding a direction to the set of a symbol, created empty if absent.\<close>

definition block_direction :: "string \<Rightarrow> (string, string set) dict \<Rightarrow> string \<Rightarrow> (string, string set) dict" where
  "block_direction direction d symbol = AList.update symbol (insert direction (dict_get d symbol {})) d"

definition is_multiday :: "position_manifest \<Rightarrow> bool" where
  "is_multiday row =
     (mf_side row \<in> {''long'', ''short''} \<and> 0 < mf_notional row \<and> MIN_MULTIDAY_CALENDAR_DAYS \<le> mf_calendar_days_held row)"

definition side_total :: "string \<Rightarrow> position_manifest list \<Rightarrow> pyfloat" where
  "side_total sde rows = sum_list (map (\<lambda>r. \<bar>mf_notional r\<bar>) (filter (\<lambda>r. mf_side r = sde) rows))"

definition overdue :: "portfolio_brain \<Rightarrow> position_manifest \<Rightarrow> bool" where
  "overdue b row = (pb_max_holding_days b \<le> mf_calendar_days_held row)"

definition liquidation_of :: "position_manifest \<Rightarrow> liquidation_target" where
  "liquidation_of row =
     \<lparr>lt_strategy_id = mf_strategy_id row, lt_symbol = str_upper (mf_symbol row), lt_side = mf_side row,
      lt_notional = \<bar>mf_notional row\<bar>, lt_calendar_days_held = mf_calendar_days_held row,
      lt_opened_session_date = mf_opened_session_date row, lt_transition_reason = ''FORCED_DURATION_EXHAUSTION''\<rparr>"

text \<open>The symbols held on one side, in the order first seen; each has a positive notional.\<close>

definition side_symbols :: "string \<Rightarrow> position_manifest list \<Rightarrow> string list" where
  "side_symbols sde rows = rev (remdups (rev (map (\<lambda>r. str_upper (mf_symbol r)) (filter (\<lambda>r. mf_side r = sde) rows))))"

definition check_inventory_path_dependency ::
  "position_manifest list \<Rightarrow> pyfloat \<Rightarrow> portfolio_brain \<Rightarrow> portfolio_brain \<times> inventory_verdict" where
  "check_inventory_path_dependency manifest current_equity b =
     (let equity = max current_equity 1;
          cap = equity * pb_max_multiday_fraction b;
          rows = filter is_multiday manifest;
          net_long = side_total ''long'' rows;
          net_short = side_total ''short'' rows;
          net = max net_long net_short;
          late = filter (overdue b) rows;
          long_breach = (cap + 1 / 1000000000 < net_long);
          short_breach = (cap + 1 / 1000000000 < net_short);
          d1 = (if long_breach then foldl (block_direction ''long'') [] (side_symbols ''long'' rows) else []);
          d2 = (if short_breach then foldl (block_direction ''short'') d1 (side_symbols ''short'' rows) else d1);
          d3 = foldl (\<lambda>d r. block_direction (mf_side r) d (str_upper (mf_symbol r))) d2 late;
          codes = (if long_breach then [''MULTIDAY_LONG_EXPOSURE_CAP''] else [])
                  @ (if short_breach then [''MULTIDAY_SHORT_EXPOSURE_CAP''] else [])
                  @ (if late \<noteq> [] then [''MULTIDAY_HOLDING_DURATION''] else []);
          directives = (if codes \<noteq> [] then [''GLOBAL_ENTRY_LOCKOUT''] else [])
                       @ (if late \<noteq> [] then [''FORCE_LIQUIDATION_EXECUTE''] else []);
          v = \<lparr>iv_directive = (case directives of [] \<Rightarrow> None | d # _ \<Rightarrow> Some d),
               iv_allowed = (codes = [] \<and> late = []), iv_net_long = net_long, iv_net_short = net_short,
               iv_multiday_net = net, iv_multiday_ratio = net / equity, iv_cap_notional = cap,
               iv_blocked_entry_by_symbol = d3, iv_breach_codes = codes, iv_directives = directives,
               iv_targets = map liquidation_of late\<rparr>
      in (b\<lparr>pb_last_inventory := Some v\<rparr>, v))"

text \<open>An empty or unreadable date is \<open>None\<close>.\<close>

definition calendar_days_between :: "int option \<Rightarrow> int \<Rightarrow> int" where
  "calendar_days_between opened_on today = (case opened_on of None \<Rightarrow> 0 | Some d \<Rightarrow> max 1 (today - d + 1))"

section \<open>Conflicting signals\<close>

record conflict_state =
  cs_approved :: "(string, signal option) dict"
  cs_blocked :: "string set"
  cs_reasons :: "(string, string) dict"

definition block_leg :: "string \<Rightarrow> conflict_state \<Rightarrow> string \<Rightarrow> conflict_state" where
  "block_leg reason c sid =
     c\<lparr>cs_blocked := insert sid (cs_blocked c), cs_approved := AList.update sid None (cs_approved c),
       cs_reasons := AList.update sid reason (cs_reasons c)\<rparr>"

definition leg_sharpe :: "(string, leg_metrics) dict \<Rightarrow> string \<Rightarrow> pyfloat" where
  "leg_sharpe metrics sid = (case map_of metrics sid of None \<Rightarrow> MIN_MARGINAL_SHARPE | Some m \<Rightarrow> lm_marginal_sharpe m)"

definition entry_signals :: "(string, signal option) dict \<Rightarrow> (string, signal) dict" where
  "entry_signals active =
     concat (map (\<lambda>(sid, s). case s of None \<Rightarrow> [] | Some g \<Rightarrow> if is_entry_action (sig_action g) then [(sid, g)] else [])
       active)"

definition group_by_symbol :: "(string, signal) dict \<Rightarrow> (string, (string \<times> signal) list) dict" where
  "group_by_symbol entries =
     foldl (\<lambda>d (sid, g). let y = str_upper (sig_symbol g) in AList.update y (dict_get d y [] @ [(sid, g)]) d) [] entries"

definition same_symbol_step ::
  "(string, leg_metrics) dict \<Rightarrow> conflict_state \<Rightarrow> string \<times> (string \<times> signal) list \<Rightarrow> conflict_state" where
  "same_symbol_step metrics c = (\<lambda>(symbol, group).
     if length group < 2 then c
     else if card (set (map (\<lambda>(_, g). signal_direction (sig_action g)) group)) = 1 then c
     else
       let ranked = sort_key (\<lambda>(sid, _). - leg_sharpe metrics sid) group;
           winner = fst (hd ranked)
       in foldl (block_leg (''same_symbol_opposing_entry:'' @ symbol @ '':kept='' @ winner)) c (map fst (tl ranked)))"

fun later_pairs :: "'a list \<Rightarrow> ('a \<times> 'a) list" where
  "later_pairs [] = []"
| "later_pairs (x # xs) = map (Pair x) xs @ later_pairs xs"

definition pair_correlation :: "(string \<times> string, pyfloat) dict \<Rightarrow> string \<Rightarrow> string \<Rightarrow> pyfloat" where
  "pair_correlation cor a b = dict_get cor (a, b) (dict_get cor (b, a) 0)"

definition correlated_step ::
  "(pyfloat \<Rightarrow> string) \<Rightarrow> (string, leg_metrics) dict \<Rightarrow> (string \<times> string, pyfloat) dict \<Rightarrow> bool \<Rightarrow> conflict_state
     \<Rightarrow> (string \<times> signal) \<times> (string \<times> signal) \<Rightarrow> conflict_state" where
  "correlated_step fmt3 metrics cor single_leg c = (\<lambda>((sid_a, sig_a), (sid_b, sig_b)).
     let sym_a = str_upper (sig_symbol sig_a); sym_b = str_upper (sig_symbol sig_b);
         corr = pair_correlation cor sym_a sym_b;
         dir_a = signal_direction (sig_action sig_a); dir_b = signal_direction (sig_action sig_b)
     in if sym_a = sym_b then c
        else if dir_a = 0 \<or> dir_b = 0 then c
        else if corr < OPPOSING_SIGNAL_CORRELATION_FLOOR then c
        else
          let loser = (if leg_sharpe metrics sid_b \<le> leg_sharpe metrics sid_a then sid_b else sid_a);
              winner = (if loser = sid_b then sid_a else sid_b)
          in if dir_a \<noteq> dir_b
             then block_leg (''correlated_opposing_entry:corr='' @ fmt3 corr @ '':kept='' @ winner) c loser
             else if single_leg
             then block_leg (''single_leg_correlated_same_direction:kept='' @ winner) c loser
             else c)"

definition approved_entry :: "(string, signal option) dict \<Rightarrow> string \<Rightarrow> bool" where
  "approved_entry approved sid =
     (case map_of approved sid of Some (Some g) \<Rightarrow> is_entry_action (sig_action g) | _ \<Rightarrow> False)"

definition spy_step :: "mode_decision option \<Rightarrow> conflict_state \<Rightarrow> conflict_state" where
  "spy_step mode c =
     (case mode of
        None \<Rightarrow> c
      | Some m \<Rightarrow>
          if \<not> md_spy_leg_enabled m \<and> approved_entry (cs_approved c) SPY_STRATEGY_ID
          then block_leg (''spy_disabled:'' @ md_reason m) c SPY_STRATEGY_ID else c)"

definition dominant_step :: "mode_decision option \<Rightarrow> conflict_state \<Rightarrow> conflict_state" where
  "dominant_step mode c =
     (case mode of
        None \<Rightarrow> c
      | Some m \<Rightarrow>
          if md_single_leg_mode m \<and> truthy (md_dominant_strategy_id m)
          then foldl (block_leg (''single_leg_mode:dominant='' @ the (md_dominant_strategy_id m))) c
                 (map fst (filter (\<lambda>(sid, s). (case s of None \<Rightarrow> False | Some g \<Rightarrow> is_entry_action (sig_action g))
                                             \<and> Some sid \<noteq> md_dominant_strategy_id m) (cs_approved c)))
          else c)"

definition same_symbol_pass :: "(string, leg_metrics) dict \<Rightarrow> (string, signal option) dict \<Rightarrow> conflict_state" where
  "same_symbol_pass metrics active =
     foldl (same_symbol_step metrics) \<lparr>cs_approved = active, cs_blocked = {}, cs_reasons = []\<rparr>
       (group_by_symbol (entry_signals active))"

definition correlated_pass ::
  "(pyfloat \<Rightarrow> string) \<Rightarrow> (string, leg_metrics) dict \<Rightarrow> (string \<times> string, pyfloat) dict \<Rightarrow> bool
     \<Rightarrow> (string, signal option) dict \<Rightarrow> conflict_state" where
  "correlated_pass fmt3 metrics cor single active =
     (let c = same_symbol_pass metrics active
      in foldl (correlated_step fmt3 metrics cor single) c
           (later_pairs (filter (\<lambda>(sid, _). sid \<notin> cs_blocked c) (entry_signals active))))"

definition single_leg_mode_on :: "mode_decision option \<Rightarrow> bool" where
  "single_leg_mode_on mode = (case mode of None \<Rightarrow> False | Some m \<Rightarrow> md_single_leg_mode m)"

definition conflict_passes ::
  "(pyfloat \<Rightarrow> string) \<Rightarrow> (string, leg_metrics) dict \<Rightarrow> (string \<times> string, pyfloat) dict \<Rightarrow> mode_decision option
     \<Rightarrow> (string, signal option) dict \<Rightarrow> conflict_state" where
  "conflict_passes fmt3 metrics cor mode active =
     dominant_step mode (spy_step mode (correlated_pass fmt3 metrics cor (single_leg_mode_on mode) active))"

definition resolve_signal_conflicts ::
  "(pyfloat \<Rightarrow> string) \<Rightarrow> (string, signal option) dict \<Rightarrow> (string, leg_metrics) dict
     \<Rightarrow> (string \<times> string, pyfloat) dict \<Rightarrow> portfolio_brain \<Rightarrow> portfolio_brain \<times> conflict_resolution" where
  "resolve_signal_conflicts fmt3 active metrics cor b =
     (let c3 = conflict_passes fmt3 metrics cor (pb_mode b) active;
          r = \<lparr>cr_approved_signals = cs_approved c3, cr_blocked_strategy_ids = cs_blocked c3,
               cr_scale_multipliers = map (\<lambda>(k, _). (k, 1)) active, cr_reasons = cs_reasons c3\<rparr>
      in (b\<lparr>pb_last_conflicts := Some r\<rparr>, r))"

section \<open>Proposed positions\<close>

definition propose :: "string \<Rightarrow> string \<Rightarrow> string \<Rightarrow> pyfloat \<Rightarrow> proposed_position" where
  "propose sid symbol sde notional =
     \<lparr>pp_strategy_id = sid, pp_symbol = symbol, pp_side = sde, pp_notional = notional, pp_beta = symbol_beta symbol,
      pp_sector = symbol_sector symbol, pp_factor_loadings = symbol_factors symbol\<rparr>"

definition estimate_proposed_positions ::
  "(string, signal option) dict \<Rightarrow> position list \<Rightarrow> (string, leg_metrics) dict \<Rightarrow> pyfloat \<Rightarrow> portfolio_brain
     \<Rightarrow> proposed_position list" where
  "estimate_proposed_positions signals positions metrics equity b =
     (let pos_map = foldl (\<lambda>d p. AList.update (str_upper (pos_symbol p)) p d) [] positions;
          held = concat (map (\<lambda>(sid, m). let symbol = str_upper (lm_symbol m) in
                   case map_of pos_map symbol of
                     None \<Rightarrow> []
                   | Some p \<Rightarrow> [propose sid symbol (pos_side p) (\<bar>pos_qty p\<bar> * max (pos_avg_entry_price p) 0)]) metrics);
          budgets = (if pb_risk_budgets b = [] then normalize_weights (map (\<lambda>(sid, _). (sid, 1)) metrics)
                     else pb_risk_budgets b);
          new = concat (map (\<lambda>(sid, s). case s of
                   None \<Rightarrow> []
                 | Some g \<Rightarrow>
                     if \<not> is_entry_action (sig_action g) \<or> map_of metrics sid = None then []
                     else [propose sid (str_upper (sig_symbol g)) (if sig_action g = LONG then ''long'' else ''short'')
                             (equity * dict_get budgets sid 0 * (95 / 100))]) signals)
      in held @ new)"

definition annualized_vol_from_closes :: "pyfloat list \<Rightarrow> nat \<Rightarrow> pyfloat" where
  "annualized_vol_from_closes closes bars_per_year =
     (if length closes < 3 then VOL_FLOOR
      else max (np_std (np_diff (map ln closes)) * sqrt (real bars_per_year)) VOL_FLOOR)"

section \<open>Budgets\<close>

definition weight_total :: "(string, pyfloat) dict \<Rightarrow> pyfloat" where
  "weight_total raw = sum_list (map (\<lambda>x. max (snd x) 0) raw)"

lemma normalize_shape:
  "normalize_weights raw =
     map (\<lambda>x. (fst x, if weight_total raw \<le> 0 then 1 / real (length raw) else max (snd x) 0 / weight_total raw)) raw"
  by (simp add: normalize_weights_def weight_total_def Let_def comp_def split_beta)

lemma normalize_keys: "dict_keys (normalize_weights raw) = dict_keys raw"
  by (simp add: normalize_shape comp_def)

lemma normalize_sum:
  assumes "raw \<noteq> []"
  shows "sum_list (map snd (normalize_weights raw)) = 1"
proof (cases "weight_total raw \<le> 0")
  case True
  have "sum_list (map (\<lambda>x. c) xs) = real (length xs) * c" for c :: real and xs :: "(string \<times> real) list"
    by (induction xs) (auto simp: algebra_simps)
  with True assms show ?thesis by (simp add: normalize_shape comp_def)
next
  case False
  have "sum_list (map (\<lambda>x. f x / t) xs) = sum_list (map f xs) / t" for t :: real and f and xs :: "(string \<times> real) list"
    by (induction xs) (auto simp: add_divide_distrib)
  with False show ?thesis by (simp add: normalize_shape comp_def weight_total_def [symmetric])
qed

lemma normalize_nonneg: "v \<in> set (map snd (normalize_weights raw)) \<Longrightarrow> 0 \<le> v"
  by (auto simp: normalize_shape split: if_splits)

lemma sum_list_member_le:
  fixes xs :: "real list"
  assumes "\<And>x. x \<in> set xs \<Longrightarrow> 0 \<le> x" "v \<in> set xs"
  shows "v \<le> sum_list xs"
  using assms
proof (induction xs)
  case (Cons x xs)
  then show ?case using sum_list_nonneg [of xs] by force
qed simp

lemma raw_weight_nonneg: "0 \<le> raw_weight m"
proof -
  have "0 \<le> max (lm_realized_vol m) VOL_FLOOR" "0 \<le> max (lm_marginal_sharpe m) MIN_MARGINAL_SHARPE"
    by (simp_all add: VOL_FLOOR_def MIN_MARGINAL_SHARPE_def le_max_iff_disj)
  moreover have "0 \<le> 1 - min (max (lm_drawdown_contribution m) 0) (95 / 100)" by linarith
  ultimately show ?thesis unfolding raw_weight_def by (auto intro!: mult_nonneg_nonneg)
qed

lemma raw_weight_pos: "0 < raw_weight m \<longleftrightarrow> lm_enabled m"
proof -
  have "0 < max (lm_realized_vol m) VOL_FLOOR" "0 < max (lm_marginal_sharpe m) MIN_MARGINAL_SHARPE"
    by (simp_all add: VOL_FLOOR_def MIN_MARGINAL_SHARPE_def less_max_iff_disj)
  moreover have "0 < 1 - min (max (lm_drawdown_contribution m) 0) (95 / 100)" by linarith
  ultimately show ?thesis unfolding raw_weight_def by (auto intro!: mult_pos_pos)
qed

text \<open>
  The risk budgets partition the book: one budget per leg, none negative, none above one,
  together exactly one; and as soon as one leg is enabled, a disabled leg gets nothing.
\<close>

theorem risk_budgets_partition:
  assumes "metrics \<noteq> []"
  shows "dict_keys (snd (allocate_risk_budgets metrics b)) = dict_keys metrics \<and>
    list_all (\<lambda>(_, v). 0 \<le> v \<and> v \<le> 1) (snd (allocate_risk_budgets metrics b)) \<and>
    sum_list (map snd (snd (allocate_risk_budgets metrics b))) = 1 \<and>
    (list_ex (\<lambda>(_, m). lm_enabled m) metrics \<longrightarrow>
       list_all (\<lambda>((_, v), (_, m)). lm_enabled m \<longleftrightarrow> 0 < v) (zip (snd (allocate_risk_budgets metrics b)) metrics))"
proof -
  define w where "w = (\<lambda>m. if pb_static_equal_split b then (if lm_enabled m then 1 else 0) else raw_weight m)"
  let ?raw = "map (\<lambda>(sid, m). (sid, w m)) metrics"
  have alloc: "snd (allocate_risk_budgets metrics b) = normalize_weights ?raw"
    using assms by (simp add: allocate_risk_budgets_def Let_def w_def)
  have w: "0 \<le> w m" "0 < w m \<longleftrightarrow> lm_enabled m" for m
    by (simp_all add: w_def raw_weight_nonneg raw_weight_pos)
  have sum1: "sum_list (map snd (normalize_weights ?raw)) = 1" using assms by (simp add: normalize_sum)
  have bounds: "list_all (\<lambda>(_, v). 0 \<le> v \<and> v \<le> 1) (normalize_weights ?raw)"
    unfolding list_all_iff
  proof safe
    fix k v
    assume "(k, v) \<in> set (normalize_weights ?raw)"
    then have v: "v \<in> set (map snd (normalize_weights ?raw))" by force
    show "0 \<le> v" by (rule normalize_nonneg [OF v])
    show "v \<le> 1" using sum_list_member_le [OF normalize_nonneg v] by (simp only: sum1)
  qed
  have "list_all (\<lambda>((_, v), (_, m)). lm_enabled m \<longleftrightarrow> 0 < v) (zip (normalize_weights ?raw) metrics)"
    if en: "list_ex (\<lambda>(_, m). lm_enabled m) metrics"
  proof -
    let ?t = "weight_total ?raw"
    obtain sid m where m: "(sid, m) \<in> set metrics" "lm_enabled m" using en by (auto simp: list_ex_iff)
    then have "max (w m) 0 \<in> set (map (\<lambda>x. max (snd x) 0) ?raw)" by (force simp: image_iff)
    then have "max (w m) 0 \<le> ?t" unfolding weight_total_def by (rule sum_list_member_le [rotated]) auto
    then have pos: "0 < ?t" using w(2) [of m] m(2) by simp
    then have "normalize_weights ?raw = map (\<lambda>x. (fst x, max (w (snd x)) 0 / ?t)) metrics"
      by (simp add: normalize_shape comp_def split_beta)
    moreover have "0 < max (w m) 0 / ?t \<longleftrightarrow> lm_enabled m" for m
      using pos w(2) [of m] by (simp add: zero_less_divide_iff less_max_iff_disj)
    ultimately show ?thesis by (simp add: list_all_length split_beta)
  qed
  then show ?thesis
    using sum1 bounds by (simp add: alloc normalize_keys comp_def split_beta)
qed

definition sample_metrics :: "string \<Rightarrow> string \<Rightarrow> pyfloat \<Rightarrow> bool \<Rightarrow> leg_metrics" where
  "sample_metrics sid symbol vol is_on =
     \<lparr>lm_strategy_id = sid, lm_symbol = symbol, lm_realized_vol = vol, lm_drawdown_contribution = 0,
      lm_marginal_sharpe = 1, lm_notional_exposure = 0, lm_health_score = 1, lm_champion_score = 0, lm_enabled = is_on\<rparr>"

definition sample_legs :: "(string, leg_metrics) dict" where
  "sample_legs = [(''q'', sample_metrics ''q'' ''QQQ'' (1 / 10) True), (''s'', sample_metrics ''s'' ''SPY'' (1 / 10) True),
     (''g'', sample_metrics ''g'' ''GLD'' (1 / 10) False)]"

definition sample_brain :: portfolio_brain where
  "sample_brain = new_portfolio_brain 100000 None False (40 / 100) 5"

theorem risk_budgets_partition_witness:
  "sum_list (map snd (snd (allocate_risk_budgets sample_legs sample_brain))) = 1 \<and>
   dict_get (snd (allocate_risk_budgets sample_legs sample_brain)) ''g'' 1 = 0"
proof -
  have "sample_legs \<noteq> []" by (simp add: sample_legs_def)
  from risk_budgets_partition [OF this, of sample_brain]
  have "sum_list (map snd (snd (allocate_risk_budgets sample_legs sample_brain))) = 1" by blast
  moreover have "dict_get (snd (allocate_risk_budgets sample_legs sample_brain)) ''g'' 1 = 0" by code_simp
  ultimately show ?thesis by blast
qed

text \<open>With every leg disabled the weights are all zero and each leg is budgeted alike.\<close>

lemma all_disabled_still_budgeted:
  "snd (allocate_risk_budgets [(a, m\<lparr>lm_enabled := False\<rparr>), (c, n\<lparr>lm_enabled := False\<rparr>)] b) = [(a, 1 / 2), (c, 1 / 2)]"
  by (simp add: allocate_risk_budgets_def normalize_weights_def raw_weight_def Let_def)

section \<open>Conflict resolution\<close>

definition entry_of :: "(string, signal option) dict \<Rightarrow> string \<Rightarrow> signal option" where
  "entry_of active sid =
     (case map_of active sid of Some (Some g) \<Rightarrow> if is_entry_action (sig_action g) then Some g else None | _ \<Rightarrow> None)"

text \<open>What every step keeps: only entries are blocked, and a leg's approved signal is its own, or none
  once it is blocked.\<close>

definition conflict_ok :: "(string, signal option) dict \<Rightarrow> conflict_state \<Rightarrow> bool" where
  "conflict_ok active c \<longleftrightarrow>
     (\<forall>sid. map_of (cs_approved c) sid = (if sid \<in> cs_blocked c then Some None else map_of active sid)) \<and>
     (\<forall>sid\<in>cs_blocked c. entry_of active sid \<noteq> None)"

lemma block_leg_ok:
  "conflict_ok active c \<Longrightarrow> entry_of active sid \<noteq> None \<Longrightarrow> conflict_ok active (block_leg reason c sid)"
  by (auto simp: conflict_ok_def block_leg_def)

lemma block_legs:
  "cs_blocked (foldl (block_leg reason) c sids) = cs_blocked c \<union> set sids"
  "conflict_ok active c \<Longrightarrow> (\<And>sid. sid \<in> set sids \<Longrightarrow> entry_of active sid \<noteq> None) \<Longrightarrow>
     conflict_ok active (foldl (block_leg reason) c sids)"
proof (induction sids arbitrary: c)
  case (Cons sid sids)
  { case 1 show ?case by (simp add: Cons(1)) (auto simp: block_leg_def) }
  { case 2 then show ?case using Cons(2) [of "block_leg reason c sid"] block_leg_ok [OF 2(1)] by simp }
qed simp_all

lemma entry_signals_iff:
  assumes "dict_ok active"
  shows "(sid, g) \<in> set (entry_signals active) \<longleftrightarrow> entry_of active sid = Some g"
proof -
  have "(sid, g) \<in> set (entry_signals active) \<longleftrightarrow> (sid, Some g) \<in> set active \<and> is_entry_action (sig_action g)"
    by (force simp: entry_signals_def split: option.splits if_splits)
  also have "\<dots> \<longleftrightarrow> map_of active sid = Some (Some g) \<and> is_entry_action (sig_action g)"
    using assms by simp
  also have "\<dots> \<longleftrightarrow> entry_of active sid = Some g"
    by (auto simp: entry_of_def split: option.splits if_splits)
  finally show ?thesis .
qed

lemma group_lookup:
  "map_of (group_by_symbol es) y =
     (let grp = filter (\<lambda>(_, g). str_upper (sig_symbol g) = y) es in if grp = [] then None else Some grp)"
proof -
  have "map_of (foldl (\<lambda>d (sid, g). let y = str_upper (sig_symbol g) in AList.update y (dict_get d y [] @ [(sid, g)]) d) d es) y =
      (let grp = filter (\<lambda>(_, g). str_upper (sig_symbol g) = y) es
       in if grp = [] then map_of d y else Some (dict_get d y [] @ grp))" for d
  proof (induction es arbitrary: d)
    case (Cons e es)
    obtain sid g where e: "e = (sid, g)" by (cases e)
    show ?case using Cons.IH [of "AList.update (str_upper (sig_symbol g)) (dict_get d (str_upper (sig_symbol g)) [] @ [(sid, g)]) d"]
      by (auto simp: e Let_def dict_get_def split: option.splits)
  qed simp
  then show ?thesis by (simp add: group_by_symbol_def Let_def)
qed

lemma group_keys: "dict_ok (group_by_symbol es)"
proof -
  have "dict_ok d \<Longrightarrow> dict_ok (foldl (\<lambda>d (sid, g). let y = str_upper (sig_symbol g) in AList.update y (dict_get d y [] @ [(sid, g)]) d) d es)" for d
    by (induction es arbitrary: d) (auto simp: Let_def)
  then show ?thesis by (simp add: group_by_symbol_def)
qed

lemma same_symbol_blocks:
  assumes "\<not> length grp < 2" "card (set (map (\<lambda>(_, g). signal_direction (sig_action g)) grp)) \<noteq> 1"
    "(a, ga) \<in> set grp" "(b, gb) \<in> set grp" "a \<noteq> b"
  shows "a \<in> cs_blocked (same_symbol_step metrics c (y, grp)) \<or> b \<in> cs_blocked (same_symbol_step metrics c (y, grp))"
proof -
  let ?r = "sort_key (\<lambda>(sid, _). - leg_sharpe metrics sid) grp"
  have r: "set ?r = set grp" by simp
  obtain x xs where x: "?r = x # xs" using r assms(3) by (cases ?r) auto
  then have "set grp = insert x (set xs)" using r by simp
  then have "(a, ga) \<in> set (tl ?r) \<or> (b, gb) \<in> set (tl ?r)"
    using assms(3-5) x by auto
  then show ?thesis using assms(1,2) by (force simp: same_symbol_step_def Let_def block_legs)
qed

lemma same_symbol_grows: "cs_blocked c \<subseteq> cs_blocked (same_symbol_step metrics c p)"
  by (auto simp: same_symbol_step_def Let_def block_legs split: prod.split)

lemma correlated_grows: "cs_blocked c \<subseteq> cs_blocked (correlated_step fmt3 metrics cor single c p)"
  by (auto simp: correlated_step_def Let_def block_leg_def split: prod.split)

lemma spy_grows: "cs_blocked c \<subseteq> cs_blocked (spy_step mode c)"
  by (auto simp: spy_step_def block_leg_def split: option.split)

lemma dominant_grows: "cs_blocked c \<subseteq> cs_blocked (dominant_step mode c)"
  by (auto simp: dominant_step_def block_legs split: option.split)

lemma foldl_grows:
  assumes "\<And>c p. cs_blocked c \<subseteq> cs_blocked (f c p)"
  shows "cs_blocked c \<subseteq> cs_blocked (foldl f c ps)"
    "p \<in> set ps \<Longrightarrow> \<exists>c'. cs_blocked (f c' p) \<subseteq> cs_blocked (foldl f c ps)"
proof (induction ps arbitrary: c)
  case (Cons q ps)
  { case 1 show ?case using Cons(1) [of "f c q"] assms [of c q] by auto }
  { case 2 then show ?case using Cons(1) [of "f c q"] Cons(2) [of "f c q"] by auto }
qed simp_all

lemma foldl_ok:
  assumes "\<And>c p. p \<in> set ps \<Longrightarrow> conflict_ok active c \<Longrightarrow> conflict_ok active (f c p)" "conflict_ok active c"
  shows "conflict_ok active (foldl f c ps)"
  using assms by (induction ps arbitrary: c) auto

lemma same_symbol_ok:
  assumes "conflict_ok active c" "\<And>sid g. (sid, g) \<in> set grp \<Longrightarrow> entry_of active sid \<noteq> None"
  shows "conflict_ok active (same_symbol_step metrics c (y, grp))"
proof -
  let ?r = "sort_key (\<lambda>(sid, _). - leg_sharpe metrics sid) grp"
  have "set (tl ?r) \<subseteq> set grp" by (metis list.set_sel(2) set_sort subsetI tl_Nil)
  then have "entry_of active sid \<noteq> None" if "sid \<in> set (map fst (tl ?r))" for sid
    using that assms(2) by force
  then have "conflict_ok active (foldl (block_leg reason) c (map fst (tl ?r)))" for reason
    by (rule block_legs(2) [OF assms(1)])
  then show ?thesis using assms(1) by (simp add: same_symbol_step_def Let_def del: append.simps)
qed

lemma correlated_ok:
  assumes "conflict_ok active c" "entry_of active sid_a \<noteq> None" "entry_of active sid_b \<noteq> None"
  shows "conflict_ok active (correlated_step fmt3 metrics cor single c ((sid_a, ga), (sid_b, gb)))"
  using assms by (simp add: correlated_step_def Let_def block_leg_ok)

lemma approved_is_entry:
  assumes "conflict_ok active c" "map_of (cs_approved c) sid = Some (Some g)" "is_entry_action (sig_action g)"
  shows "entry_of active sid = Some g" "sid \<notin> cs_blocked c"
  using assms by (auto simp: conflict_ok_def entry_of_def split: if_splits)

lemma spy_ok: "conflict_ok active c \<Longrightarrow> conflict_ok active (spy_step mode c)"
  by (auto simp: spy_step_def approved_entry_def split: option.splits intro!: block_leg_ok dest: approved_is_entry)

lemma dominant_ok:
  assumes "conflict_ok active c" "dict_ok (cs_approved c)"
  shows "conflict_ok active (dominant_step mode c)"
proof -
  have "entry_of active sid \<noteq> None" if "(sid, Some g) \<in> set (cs_approved c)" "is_entry_action (sig_action g)" for sid g
    using approved_is_entry(1) [OF assms(1) _ that(2)] that(1) assms(2) by simp
  then show ?thesis using assms(1)
    by (auto simp: dominant_step_def split: option.splits intro!: block_legs(2))
qed

lemma block_leg_dict_ok: "dict_ok (cs_approved c) \<Longrightarrow> dict_ok (cs_approved (block_leg reason c sid))"
  by (simp add: block_leg_def)

lemma block_legs_dict_ok: "dict_ok (cs_approved c) \<Longrightarrow> dict_ok (cs_approved (foldl (block_leg reason) c sids))"
  by (induction sids arbitrary: c) (simp_all add: block_leg_dict_ok)

lemma foldl_dict_ok:
  assumes "\<And>c p. dict_ok (cs_approved c) \<Longrightarrow> dict_ok (cs_approved (f c p))" "dict_ok (cs_approved c)"
  shows "dict_ok (cs_approved (foldl f c ps))"
  using assms by (induction ps arbitrary: c) auto

lemma steps_dict_ok:
  "dict_ok (cs_approved c) \<Longrightarrow> dict_ok (cs_approved (same_symbol_step metrics c p))"
  "dict_ok (cs_approved c) \<Longrightarrow> dict_ok (cs_approved (correlated_step fmt3 metrics cor single c q))"
  "dict_ok (cs_approved c) \<Longrightarrow> dict_ok (cs_approved (spy_step mode c))"
  by (auto simp: same_symbol_step_def correlated_step_def spy_step_def Let_def block_legs_dict_ok block_leg_dict_ok
      split: prod.split option.split)

lemma later_pairs_mem:
  "x \<in> set xs \<Longrightarrow> y \<in> set xs \<Longrightarrow> x \<noteq> y \<Longrightarrow> (x, y) \<in> set (later_pairs xs) \<or> (y, x) \<in> set (later_pairs xs)"
  by (induction xs) auto

lemma later_pairs_subset: "(x, y) \<in> set (later_pairs xs) \<Longrightarrow> x \<in> set xs \<and> y \<in> set xs"
  by (induction xs) auto

lemma correlated_blocks:
  assumes "str_upper (sig_symbol ga) \<noteq> str_upper (sig_symbol gb)"
    "is_entry_action (sig_action ga)" "is_entry_action (sig_action gb)"
    "sig_action ga \<noteq> sig_action gb"
    "OPPOSING_SIGNAL_CORRELATION_FLOOR \<le> pair_correlation cor (str_upper (sig_symbol ga)) (str_upper (sig_symbol gb))"
  shows "a \<in> cs_blocked (correlated_step fmt3 metrics cor single c ((a, ga), (b, gb))) \<or>
         b \<in> cs_blocked (correlated_step fmt3 metrics cor single c ((a, ga), (b, gb)))"
  using assms by (auto simp: correlated_step_def Let_def block_leg_def is_entry_action_def signal_direction_def)

lemma same_symbol_pass_ok:
  assumes "dict_ok active"
  shows "conflict_ok active (same_symbol_pass metrics active)"
  unfolding same_symbol_pass_def
proof (rule foldl_ok)
  fix c p
  assume p: "p \<in> set (group_by_symbol (entry_signals active))" and c: "conflict_ok active c"
  obtain y grp where "p = (y, grp)" by (cases p)
  then have "map_of (group_by_symbol (entry_signals active)) y = Some grp" using p group_keys by simp
  then have "set grp \<subseteq> set (entry_signals active)" by (auto simp: group_lookup Let_def split: if_splits)
  then show "conflict_ok active (same_symbol_step metrics c p)"
    using c \<open>p = (y, grp)\<close> by (auto intro!: same_symbol_ok simp: entry_signals_iff [OF assms])
qed (simp add: conflict_ok_def)

lemma correlated_pass_ok:
  assumes "dict_ok active"
  shows "conflict_ok active (correlated_pass fmt3 metrics cor single active)"
  unfolding correlated_pass_def Let_def
proof (rule foldl_ok [OF _ same_symbol_pass_ok [OF assms]])
  fix c p
  assume p: "p \<in> set (later_pairs (filter (\<lambda>(sid, _). sid \<notin> cs_blocked (same_symbol_pass metrics active)) (entry_signals active)))"
    and c: "conflict_ok active c"
  obtain a ga b gb where "p = ((a, ga), (b, gb))" by (metis prod.exhaust)
  then show "conflict_ok active (correlated_step fmt3 metrics cor single c p)"
    using c p later_pairs_subset by (fastforce intro!: correlated_ok simp: entry_signals_iff [OF assms])
qed

lemma passes_dict_ok:
  assumes "dict_ok active"
  shows "dict_ok (cs_approved (same_symbol_pass metrics active))"
    "dict_ok (cs_approved (correlated_pass fmt3 metrics cor single active))"
proof -
  show one: "dict_ok (cs_approved (same_symbol_pass metrics active))"
    unfolding same_symbol_pass_def by (intro foldl_dict_ok steps_dict_ok) (simp_all add: assms)
  show "dict_ok (cs_approved (correlated_pass fmt3 metrics cor single active))"
    unfolding correlated_pass_def Let_def by (intro foldl_dict_ok steps_dict_ok one)
qed

lemma conflict_passes_ok:
  assumes "dict_ok active"
  shows "conflict_ok active (conflict_passes fmt3 metrics cor mode active)"
  unfolding conflict_passes_def
  by (intro dominant_ok spy_ok correlated_pass_ok steps_dict_ok passes_dict_ok assms)

lemma passes_grow:
  "cs_blocked (same_symbol_pass metrics active) \<subseteq> cs_blocked (correlated_pass fmt3 metrics cor single active)"
  "cs_blocked (correlated_pass fmt3 metrics cor (single_leg_mode_on mode) active)
     \<subseteq> cs_blocked (conflict_passes fmt3 metrics cor mode active)"
proof -
  show "cs_blocked (same_symbol_pass metrics active) \<subseteq> cs_blocked (correlated_pass fmt3 metrics cor single active)"
    unfolding correlated_pass_def Let_def
    by (rule foldl_grows(1) [of "correlated_step fmt3 metrics cor single", OF correlated_grows])
  show "cs_blocked (correlated_pass fmt3 metrics cor (single_leg_mode_on mode) active)
     \<subseteq> cs_blocked (conflict_passes fmt3 metrics cor mode active)"
    unfolding conflict_passes_def using spy_grows dominant_grows by blast
qed

lemma same_symbol_agree:
  assumes "dict_ok active" "entry_of active a = Some ga" "entry_of active b = Some gb" "a \<noteq> b"
    "a \<notin> cs_blocked (same_symbol_pass metrics active)" "b \<notin> cs_blocked (same_symbol_pass metrics active)"
    "str_upper (sig_symbol ga) = str_upper (sig_symbol gb)"
  shows "sig_action ga = sig_action gb"
proof (rule ccontr)
  assume neq: "sig_action ga \<noteq> sig_action gb"
  let ?y = "str_upper (sig_symbol ga)"
  let ?grp = "filter (\<lambda>(_, g). str_upper (sig_symbol g) = ?y) (entry_signals active)"
  have mem: "(a, ga) \<in> set ?grp" "(b, gb) \<in> set ?grp" using assms by (auto simp: entry_signals_iff [OF assms(1)])
  have entry: "is_entry_action (sig_action ga)" "is_entry_action (sig_action gb)"
    using assms(2,3) by (auto simp: entry_of_def split: option.splits if_splits)
  have "signal_direction (sig_action ga) \<noteq> signal_direction (sig_action gb)"
    using neq entry by (auto simp: is_entry_action_def signal_direction_def)
  moreover have "signal_direction (sig_action ga) \<in> set (map (\<lambda>(_, g). signal_direction (sig_action g)) ?grp)"
    "signal_direction (sig_action gb) \<in> set (map (\<lambda>(_, g). signal_direction (sig_action g)) ?grp)"
    using mem by force+
  ultimately have card: "card (set (map (\<lambda>(_, g). signal_direction (sig_action g)) ?grp)) \<noteq> 1"
    by (metis card_1_singletonE singletonD)
  have len: "\<not> length ?grp < 2"
    using mem assms(4) by (cases ?grp; cases "tl ?grp") (auto simp: numeral_2_eq_2)
  have "map_of (group_by_symbol (entry_signals active)) ?y = Some ?grp"
    using mem by (auto simp: group_lookup Let_def filter_empty_conv)
  then have "(?y, ?grp) \<in> set (group_by_symbol (entry_signals active))" by (rule map_of_SomeD)
  from foldl_grows(2) [of "same_symbol_step metrics", OF same_symbol_grows this]
  obtain c' where "cs_blocked (same_symbol_step metrics c' (?y, ?grp)) \<subseteq> cs_blocked (same_symbol_pass metrics active)"
    unfolding same_symbol_pass_def by blast
  then show False using same_symbol_blocks [OF len card mem assms(4)] assms(5,6) by blast
qed

lemma correlated_agree:
  fixes fmt3 metrics cor single active
  defines "blocked \<equiv> cs_blocked (correlated_pass fmt3 metrics cor single active)"
  assumes ok: "dict_ok active" and ent: "entry_of active a = Some ga" "entry_of active b = Some gb"
    and un: "a \<notin> blocked" "b \<notin> blocked"
    and sym: "str_upper (sig_symbol ga) \<noteq> str_upper (sig_symbol gb)"
    and high: "OPPOSING_SIGNAL_CORRELATION_FLOOR \<le> pair_correlation cor (str_upper (sig_symbol ga)) (str_upper (sig_symbol gb))"
      "OPPOSING_SIGNAL_CORRELATION_FLOOR \<le> pair_correlation cor (str_upper (sig_symbol gb)) (str_upper (sig_symbol ga))"
  shows "sig_action ga = sig_action gb"
proof (rule ccontr)
  assume neq: "sig_action ga \<noteq> sig_action gb"
  let ?f = "correlated_step fmt3 metrics cor single"
  let ?ps = "later_pairs (filter (\<lambda>(sid, _). sid \<notin> cs_blocked (same_symbol_pass metrics active)) (entry_signals active))"
  have entry: "is_entry_action (sig_action ga)" "is_entry_action (sig_action gb)"
    using ent by (auto simp: entry_of_def split: option.splits if_splits)
  have some: "\<exists>c'. cs_blocked (?f c' p) \<subseteq> blocked" if "p \<in> set ?ps" for p
    using foldl_grows(2) [of ?f, OF correlated_grows that]
    unfolding blocked_def correlated_pass_def Let_def by blast
  have no: "((a, ga), (b, gb)) \<notin> set ?ps" "((b, gb), (a, ga)) \<notin> set ?ps"
    using some [of "((a, ga), (b, gb))"] some [of "((b, gb), (a, ga))"] un
      correlated_blocks [OF sym entry neq high(1)]
      correlated_blocks [OF sym [symmetric] entry(2,1) neq [symmetric] high(2)] by blast+
  have "a \<notin> cs_blocked (same_symbol_pass metrics active)" "b \<notin> cs_blocked (same_symbol_pass metrics active)"
    using un passes_grow(1) unfolding blocked_def by blast+
  then have "(a, ga) \<in> set (filter (\<lambda>(sid, _). sid \<notin> cs_blocked (same_symbol_pass metrics active)) (entry_signals active))"
    "(b, gb) \<in> set (filter (\<lambda>(sid, _). sid \<notin> cs_blocked (same_symbol_pass metrics active)) (entry_signals active))"
    using ent by (simp_all add: entry_signals_iff [OF ok])
  from later_pairs_mem [OF this] no sym show False by auto
qed

lemma unblocked_entry:
  assumes "dict_ok active" "map_of (cs_approved (conflict_passes fmt3 metrics cor mode active)) sid = Some (Some g)"
    "is_entry_action (sig_action g)"
  shows "entry_of active sid = Some g" "sid \<notin> cs_blocked (same_symbol_pass metrics active)"
    "sid \<notin> cs_blocked (correlated_pass fmt3 metrics cor (single_leg_mode_on mode) active)"
  using approved_is_entry [OF conflict_passes_ok [OF assms(1)] assms(2,3)]
    passes_grow(1) [of metrics active fmt3 cor "single_leg_mode_on mode"] passes_grow(2) [of fmt3 metrics cor mode active]
  by blast+

text \<open>
  Two entries the resolution leaves approved never bet against each other: on the same symbol,
  or on two symbols whose correlation is at the one-risk-unit line or above, they have the same
  direction.
\<close>

lemma approved_entries_never_oppose:
  assumes "dict_ok active"
    "map_of (cr_approved_signals (snd (resolve_signal_conflicts fmt3 active metrics cor b))) a1 = Some (Some g1)"
    "map_of (cr_approved_signals (snd (resolve_signal_conflicts fmt3 active metrics cor b))) a2 = Some (Some g2)"
    "is_entry_action (sig_action g1)" "is_entry_action (sig_action g2)"
    "str_upper (sig_symbol g1) = str_upper (sig_symbol g2) \<or>
     OPPOSING_SIGNAL_CORRELATION_FLOOR \<le> pair_correlation cor (str_upper (sig_symbol g1)) (str_upper (sig_symbol g2)) \<and>
     OPPOSING_SIGNAL_CORRELATION_FLOOR \<le> pair_correlation cor (str_upper (sig_symbol g2)) (str_upper (sig_symbol g1))"
  shows "sig_action g1 = sig_action g2"
proof -
  let ?c = "conflict_passes fmt3 metrics cor (pb_mode b) active"
  have "map_of (cs_approved ?c) a1 = Some (Some g1)" "map_of (cs_approved ?c) a2 = Some (Some g2)"
    using assms(2,3) by (simp_all add: resolve_signal_conflicts_def Let_def)
  note u1 = unblocked_entry [OF assms(1) this(1) assms(4)] and u2 = unblocked_entry [OF assms(1) this(2) assms(5)]
  show ?thesis
  proof (cases "a1 = a2")
    case True
    then show ?thesis using u1(1) u2(1) by simp
  next
    case False
    then show ?thesis
      using same_symbol_agree [OF assms(1) u1(1) u2(1) False u1(2) u2(2)]
        correlated_agree [OF assms(1) u1(1) u2(1) u1(3) u2(3)] assms(6) by blast
  qed
qed

lemma conflict_lookup:
  assumes "dict_ok active"
  shows "map_of (cr_approved_signals (snd (resolve_signal_conflicts fmt3 active metrics cor b))) sid =
    (if sid \<in> cr_blocked_strategy_ids (snd (resolve_signal_conflicts fmt3 active metrics cor b)) then Some None
     else map_of active sid)"
  using conflict_passes_ok [OF assms, of fmt3 metrics cor "pb_mode b"]
  by (simp add: resolve_signal_conflicts_def Let_def conflict_ok_def)

text \<open>
  The resolution only withholds entries: the signal of a leg that asks for no entry (an exit,
  a flat, nothing) comes out as it went in, whatever the mode, and a leg that is blocked has none.
\<close>

lemma only_entries_are_withheld:
  assumes "dict_ok active"
  shows "(entry_of active sid = None \<longrightarrow>
      map_of (cr_approved_signals (snd (resolve_signal_conflicts fmt3 active metrics cor b))) sid = map_of active sid \<and>
      sid \<notin> cr_blocked_strategy_ids (snd (resolve_signal_conflicts fmt3 active metrics cor b))) \<and>
    (sid \<in> cr_blocked_strategy_ids (snd (resolve_signal_conflicts fmt3 active metrics cor b)) \<longrightarrow>
      map_of (cr_approved_signals (snd (resolve_signal_conflicts fmt3 active metrics cor b))) sid = Some None)"
proof -
  have "cr_blocked_strategy_ids (snd (resolve_signal_conflicts fmt3 active metrics cor b)) =
      cs_blocked (conflict_passes fmt3 metrics cor (pb_mode b) active)"
    by (simp add: resolve_signal_conflicts_def Let_def)
  moreover have "sid \<notin> cs_blocked (conflict_passes fmt3 metrics cor (pb_mode b) active)" if "entry_of active sid = None"
    using that conflict_passes_ok [OF assms, of fmt3 metrics cor "pb_mode b"] by (auto simp: conflict_ok_def)
  ultimately show ?thesis by (simp add: conflict_lookup [OF assms])
qed

text \<open>In single-leg mode only the dominant leg may enter.\<close>

lemma single_leg_only_dominant:
  assumes "dict_ok active" "pb_mode b = Some m" "md_single_leg_mode m" "md_dominant_strategy_id m = Some lead" "lead \<noteq> []"
    "map_of (cr_approved_signals (snd (resolve_signal_conflicts fmt3 active metrics cor b))) sid = Some (Some g)"
    "is_entry_action (sig_action g)"
  shows "sid = lead"
proof (rule ccontr)
  assume neq: "sid \<noteq> lead"
  let ?c = "spy_step (Some m) (correlated_pass fmt3 metrics cor True active)"
  have on: "single_leg_mode_on (Some m)" using assms(3) by (simp add: single_leg_mode_on_def)
  have step: "conflict_passes fmt3 metrics cor (Some m) active = dominant_step (Some m) ?c"
    using on by (simp add: conflict_passes_def)
  have dk: "dict_ok (cs_approved ?c)" by (intro steps_dict_ok passes_dict_ok assms(1))
  have ok: "conflict_ok active ?c" by (intro spy_ok correlated_pass_ok assms(1))
  have app: "map_of (cs_approved (dominant_step (Some m) ?c)) sid = Some (Some g)"
    using assms(2,6) step by (simp add: resolve_signal_conflicts_def Let_def)
  have fin: "conflict_ok active (dominant_step (Some m) ?c)" using dominant_ok [OF ok dk] .
  have free: "sid \<notin> cs_blocked (dominant_step (Some m) ?c)" "map_of active sid = Some (Some g)"
    using app fin by (auto simp: conflict_ok_def split: if_splits)
  then have "sid \<notin> cs_blocked ?c" using dominant_grows by blast
  then have "map_of (cs_approved ?c) sid = Some (Some g)" using ok free(2) by (simp add: conflict_ok_def)
  then have "(sid, Some g) \<in> set (cs_approved ?c)" by (rule map_of_SomeD)
  then have "sid \<in> cs_blocked (dominant_step (Some m) ?c)"
    using assms(3,4,5,7) neq by (force simp: dominant_step_def block_legs truthy_def)
  with free(1) show False by blast
qed

section \<open>Exposure\<close>

lemma breach_is_severe: "breach_codes_of nb gr sc cr \<noteq> [] \<Longrightarrow> 1 < breach_severity nb gr sc cr"
  by (auto simp: breach_codes_of_def breach_severity_def MAX_NET_BETA_EXPOSURE_def MAX_GROSS_EXPOSURE_RATIO_def
      MAX_SECTOR_CONCENTRATION_def MAX_FACTOR_CROWDING_def less_max_iff_disj split: if_splits)

lemma dict_of_keys_values: "(k, w) \<in> set (dict_of_keys ks v) \<longleftrightarrow> k \<in> set ks \<and> w = v"
  by (auto simp: dict_of_keys_def)

text \<open>
  The exposure gate is all or nothing. Within the four caps every proposed leg keeps its full
  size; as soon as one cap is passed every one of them is sized to zero. The proportional scale the
  code computes in between is never what comes out.
\<close>

lemma exposure_all_or_nothing:
  "(ev_allowed (snd (validate_global_exposure ps eq b)) \<longleftrightarrow>
      \<bar>ev_net_beta (snd (validate_global_exposure ps eq b))\<bar> \<le> MAX_NET_BETA_EXPOSURE \<and>
      ev_gross_exposure_ratio (snd (validate_global_exposure ps eq b)) \<le> MAX_GROSS_EXPOSURE_RATIO \<and>
      ev_sector_concentration (snd (validate_global_exposure ps eq b)) \<le> MAX_SECTOR_CONCENTRATION \<and>
      ev_factor_crowding (snd (validate_global_exposure ps eq b)) \<le> MAX_FACTOR_CROWDING) \<and>
   ev_sizing_multipliers (snd (validate_global_exposure ps eq b)) =
     dict_of_keys (map pp_strategy_id ps) (if ev_allowed (snd (validate_global_exposure ps eq b)) then 1 else 0)"
proof -
  obtain nb gr sc cr where
    v: "snd (validate_global_exposure ps eq b) =
      \<lparr>ev_allowed = (breach_codes_of nb gr sc cr = []),
       ev_sizing_multipliers = dict_of_keys (map pp_strategy_id ps)
         (if breach_codes_of nb gr sc cr = [] then 1 else if 1 < breach_severity nb gr sc cr then 0
          else max 0 (min 1 (1 / breach_severity nb gr sc cr))),
       ev_breach_codes = breach_codes_of nb gr sc cr, ev_net_beta = nb, ev_gross_exposure_ratio = gr,
       ev_sector_concentration = sc, ev_factor_crowding = cr\<rparr>"
    by (simp only: validate_global_exposure_def Let_def snd_conv)
  have "breach_codes_of nb gr sc cr = [] \<longleftrightarrow> \<bar>nb\<bar> \<le> MAX_NET_BETA_EXPOSURE \<and> gr \<le> MAX_GROSS_EXPOSURE_RATIO \<and>
      sc \<le> MAX_SECTOR_CONCENTRATION \<and> cr \<le> MAX_FACTOR_CROWDING"
    by (simp add: breach_codes_of_def not_less)
  moreover have "(if breach_codes_of nb gr sc cr = [] then 1 else if 1 < breach_severity nb gr sc cr then 0
          else max 0 (min 1 (1 / breach_severity nb gr sc cr))) = (if breach_codes_of nb gr sc cr = [] then 1 else 0)"
    using breach_is_severe by simp
  ultimately show ?thesis by (simp only: v exposure_validation.simps)
qed

lemma one_sector_fold:
  assumes "list_all (\<lambda>p. pp_sector p = sec) ps"
  shows "foldl (\<lambda>d p. AList.update (pp_sector p) (dict_get d (pp_sector p) 0 + \<bar>pp_notional p\<bar>) d) [(sec, t)] ps =
    [(sec, t + sum_list (map (\<lambda>p. \<bar>pp_notional p\<bar>) ps))]"
  using assms by (induction ps arbitrary: t) (simp_all add: dict_get_def)

lemma one_sector_concentration:
  assumes "list_all (\<lambda>p. pp_sector p = sec) ps" "list_all counts_position ps" "ps \<noteq> []"
  shows "sector_concentration_of ps = 1"
proof -
  let ?t = "sum_list (map (\<lambda>p. \<bar>pp_notional p\<bar>) ps)"
  obtain q qs where ps: "ps = q # qs" using assms(3) by (cases ps) auto
  have "sector_notionals ps = [(sec, ?t)]"
    using assms(1) one_sector_fold [of sec qs "\<bar>pp_notional q\<bar>"]
    by (simp add: ps sector_notionals_def dict_get_def [of "[]"])
  note shape = this
  have "0 < \<bar>pp_notional q\<bar>" using assms(2) by (simp add: ps counts_position_def)
  moreover have "0 \<le> sum_list (map (\<lambda>p. \<bar>pp_notional p\<bar>) qs)" by (rule sum_list_nonneg) auto
  ultimately have "0 < ?t" by (simp add: ps)
  then show ?thesis by (simp add: sector_concentration_of_def shape)
qed

text \<open>
  A book in one sector has concentration one, which is over the cap: a single entry into an empty
  book, the smallest position the system can open, is always refused.
\<close>

lemma one_sector_book_refused:
  assumes "filter counts_position ps \<noteq> []" "list_all (\<lambda>p. pp_sector p = sec) (filter counts_position ps)"
  shows "\<not> ev_allowed (snd (validate_global_exposure ps eq b))"
proof -
  have "list_all counts_position (filter counts_position ps)" by (simp add: list_all_iff)
  then have "sector_concentration_of (filter counts_position ps) = 1"
    using one_sector_concentration assms by blast
  then show ?thesis
    by (simp add: validate_global_exposure_def Let_def breach_codes_of_def MAX_SECTOR_CONCENTRATION_def)
qed

section \<open>Multi-day inventory\<close>

lemma block_directions:
  "dict_get (foldl (block_direction d) m ys) y {} = dict_get m y {} \<union> (if y \<in> set ys then {d} else {})"
  by (induction ys arbitrary: m) (auto simp: block_direction_def dict_get_def)

lemma block_rows:
  "dict_get (foldl (\<lambda>d r. block_direction (mf_side r) d (str_upper (mf_symbol r))) m rows) y {} =
     dict_get m y {} \<union> {mf_side r | r. r \<in> set rows \<and> str_upper (mf_symbol r) = y}"
  by (induction rows arbitrary: m) (auto simp: block_direction_def dict_get_def)

lemma lock_shape:
  "(((A \<and> (\<exists>r \<in> R. S r = l \<and> U r = y)) \<and> d = l) \<or> ((B \<and> (\<exists>r \<in> R. S r = s \<and> U r = y)) \<and> d = s)) \<or>
     (\<exists>r. d = S r \<and> (r \<in> R \<and> P r) \<and> U r = y) \<longleftrightarrow>
   (\<exists>r \<in> R. U r = y \<and> S r = d \<and> (A \<and> S r = l \<or> B \<and> S r = s \<or> P r))"
  by blast

lemma in_if_single: "x \<in> (if P then {a} else {}) \<longleftrightarrow> P \<and> x = a"
  by simp

lemma side_symbols_iff: "y \<in> set (side_symbols sde rows) \<longleftrightarrow> (\<exists>r \<in> set rows. mf_side r = sde \<and> str_upper (mf_symbol r) = y)"
  by (auto simp: side_symbols_def)

text \<open>
  What the inventory check locks, exactly: a new entry on a symbol in a direction is locked if
  and only if a position held over days sits there, in that symbol and direction, and either the
  book's exposure in that direction is over its cap or that position has reached its holding limit.
\<close>

lemma inventory_lock_exact:
  "is_entry_locked symbol direction (snd (check_inventory_path_dependency manifest current_equity b)) \<longleftrightarrow>
    list_ex (\<lambda>r. str_upper (mf_symbol r) = str_upper symbol \<and> mf_side r = str_lower direction \<and>
      (max current_equity 1 * pb_max_multiday_fraction b + 1 / 1000000000
         < side_total (mf_side r) (filter is_multiday manifest) \<or> overdue b r)) (filter is_multiday manifest)"
proof -
  define v where "v = snd (check_inventory_path_dependency manifest current_equity b)"
  define rows where "rows = filter is_multiday manifest"
  define cap where "cap = max current_equity 1 * pb_max_multiday_fraction b"
  have side: "mf_side r = ''long'' \<or> mf_side r = ''short''" if "r \<in> set rows" for r
    using that by (auto simp: rows_def is_multiday_def)
  have lookup: "dict_get (iv_blocked_entry_by_symbol v) y {} =
      (if cap + 1 / 1000000000 < side_total ''long'' rows \<and> y \<in> set (side_symbols ''long'' rows) then {''long''} else {})
      \<union> (if cap + 1 / 1000000000 < side_total ''short'' rows \<and> y \<in> set (side_symbols ''short'' rows) then {''short''} else {})
      \<union> {mf_side r | r. r \<in> set (filter (overdue b) rows) \<and> str_upper (mf_symbol r) = y}" for y
    by (simp add: v_def check_inventory_path_dependency_def Let_def rows_def [symmetric] cap_def [symmetric]
        block_directions block_rows dict_get_def [of "[]"])
  have "is_entry_locked symbol direction v \<longleftrightarrow>
      (\<exists>r \<in> set rows. str_upper (mf_symbol r) = str_upper symbol \<and> mf_side r = str_lower direction \<and>
        (cap + 1 / 1000000000 < side_total ''long'' rows \<and> mf_side r = ''long'' \<or>
         cap + 1 / 1000000000 < side_total ''short'' rows \<and> mf_side r = ''short'' \<or> overdue b r))"
    unfolding is_entry_locked_def lookup
    by (simp only: side_symbols_iff Un_iff in_if_single mem_Collect_eq set_filter lock_shape)
  also have "\<dots> \<longleftrightarrow> list_ex (\<lambda>r. str_upper (mf_symbol r) = str_upper symbol \<and> mf_side r = str_lower direction \<and>
      (cap + 1 / 1000000000 < side_total (mf_side r) rows \<or> overdue b r)) rows"
    unfolding list_ex_iff
  proof (intro bex_cong refl conj_cong)
    fix r
    assume "r \<in> set rows"
    then show "cap + 1 / 1000000000 < side_total ''long'' rows \<and> mf_side r = ''long'' \<or>
         cap + 1 / 1000000000 < side_total ''short'' rows \<and> mf_side r = ''short'' \<or> overdue b r \<longleftrightarrow>
      cap + 1 / 1000000000 < side_total (mf_side r) rows \<or> overdue b r"
      using side by (elim disjE [OF side]) simp_all
  qed
  finally show ?thesis by (simp only: v_def rows_def cap_def)
qed

text \<open>The age counts the first day: a position is \<open>multi-day\<close> on the day it is opened.\<close>

lemma opened_today_is_multiday: "MIN_MULTIDAY_CALENDAR_DAYS \<le> calendar_days_between (Some d) today"
  by (simp add: calendar_days_between_def MIN_MULTIDAY_CALENDAR_DAYS_def)

section \<open>The mode\<close>

text \<open>
  A book of several legs without an enabled SPY leg is put in single-leg mode with QQQ dominant,
  also when there is no QQQ leg: every other leg's entries are then withheld.
\<close>

lemma no_spy_means_only_qqq:
  assumes "pb_single_leg_symbol b \<noteq> Some ''QQQ''" "pb_single_leg_symbol b \<noteq> Some ''SPY''"
    "length (if enabled_ids = [] then dict_keys metrics else enabled_ids) \<noteq> 1"
    "(case map_of metrics SPY_STRATEGY_ID of None \<Rightarrow> True | Some m \<Rightarrow> \<not> lm_enabled m)"
  shows "pb_mode (fst (resolve_portfolio_mode metrics winner enabled_ids b)) =
      Some \<lparr>md_mode = SPY_DISABLED, md_spy_leg_enabled = False, md_single_leg_mode = True,
            md_dominant_strategy_id = Some QQQ_STRATEGY_ID, md_reason = ''spy_config_disabled''\<rparr>"
  using assms by (simp add: resolve_portfolio_mode_def Let_def decide_mode_def split: option.splits)

lemma no_spy_blocks_other_legs:
  assumes "pb_single_leg_symbol b = None" "map_of metrics SPY_STRATEGY_ID = None" "length metrics \<noteq> 1"
    "dict_ok active" "entry_of active sid = Some g" "sid \<noteq> QQQ_STRATEGY_ID"
  shows "map_of (cr_approved_signals (snd (resolve_signal_conflicts fmt3 active metrics cor
           (fst (resolve_portfolio_mode metrics winner [] b))))) sid = Some None"
proof -
  let ?b = "fst (resolve_portfolio_mode metrics winner [] b)"
  let ?r = "snd (resolve_signal_conflicts fmt3 active metrics cor ?b)"
  have mode: "pb_mode ?b = Some \<lparr>md_mode = SPY_DISABLED, md_spy_leg_enabled = False, md_single_leg_mode = True,
            md_dominant_strategy_id = Some QQQ_STRATEGY_ID, md_reason = ''spy_config_disabled''\<rparr>"
    by (rule no_spy_means_only_qqq) (use assms in simp_all)
  have g: "map_of active sid = Some (Some g)" "is_entry_action (sig_action g)"
    using assms(5) by (auto simp: entry_of_def split: option.splits if_splits)
  have "map_of (cr_approved_signals ?r) sid \<noteq> Some (Some g)"
    using single_leg_only_dominant [OF assms(4) mode _ _ _ _ g(2), of QQQ_STRATEGY_ID fmt3 metrics cor sid] assms(6)
    by (auto simp: QQQ_STRATEGY_ID_def)
  then show ?thesis using conflict_lookup [OF assms(4), of fmt3 metrics cor ?b sid] g(1) by (simp split: if_splits)
qed

end
