(* ===== verification/Portfolio_Coordinator.thy ===== *)
theory Portfolio_Coordinator
  imports Portfolio_Brain Reserved_Capital
begin

text \<open>
  The portfolio coordinator (\<open>src/engine/portfolio_coordinator.py\<close>): it collects the legs'
  signals of a cycle, runs the portfolio brain over them, keeps the registry of positions carried
  over sessions and emits one plan per leg; and the order router (\<open>src/router/default.py\<close>) the
  plans go to. The risk manager, the account history and the clock are read through the record
  \<open>cycle_env\<close>; one cycle sees one date. Of the constraint ledger's rows the free-form metadata is
  left out. A leg's routing parameters are kept in two dictionaries, numbers and other values.
\<close>

section \<open>Data\<close>

datatype param_value = Flag bool | Text string

record constraint_row =
  cl_timestamp :: instant
  cl_cycle_id :: string
  cl_constraint_type :: string
  cl_strategy_id :: "string option"
  cl_symbol :: "string option"
  cl_action_taken :: string
  cl_sizing_multiplier :: "pyfloat option"
  cl_multi_day_net_inventory :: "pyfloat option"
  cl_directional_entry_lockout :: "(string, string list) dict option"
  cl_current_equity :: "pyfloat option"

record inventory_row =
  ir_strategy_id :: string
  ir_symbol :: string
  ir_side :: string
  ir_opened_session_date :: int
  ir_last_seen_at :: int
  ir_net_directional_exposure :: pyfloat

definition ir_key :: "inventory_row \<Rightarrow> string \<times> string" where
  "ir_key r = (ir_strategy_id r, ir_symbol r)"

record 'c leg_payload =
  lp_strategy_id :: string
  lp_symbol :: string
  lp_signal :: "signal option"
  lp_routing_params :: "(string, pyfloat) dict"
  lp_routing_flags :: "(string, param_value) dict"
  lp_base_risk_fraction :: pyfloat
  lp_window :: rolling_window
  lp_enabled :: bool
  lp_health_score :: pyfloat
  lp_champion_score :: pyfloat
  lp_asset_context :: "'c option"
  lp_bars_in_trade :: int
  lp_position_side :: string

record 'c coordinated_plan = "'c leg_plan" +
  cp_routing_flags :: "(string, param_value) dict"
  cp_window :: rolling_window
  cp_cancel_pending_orders :: bool
  cp_force_liquidation_reason :: string

record 'c cycle_result =
  cy_cycle_id :: string
  cy_risk_budgets :: "(string, pyfloat) dict"
  cy_plans :: "(string, 'c coordinated_plan) dict"
  cy_mode_reason :: string
  cy_exposure_allowed :: bool
  cy_exposure_block_reason :: "string option"

record 'c coordinator =
  co_brain :: portfolio_brain
  co_cycle_id :: string
  co_pending :: "(string, 'c leg_payload) dict"
  co_windows :: "(string, rolling_window) dict"
  co_last_result :: "'c cycle_result option"
  co_registry :: "inventory_row list"
  co_ledger :: "constraint_row list"
  co_queue :: "constraint_row list"

record cycle_env =
  ce_now :: instant
  ce_today :: int
  ce_new_cycle_id :: string
  ce_writer_running :: bool
  ce_leg_realized_pnl :: "string \<Rightarrow> pyfloat"
  ce_promotion_pnls :: "string \<Rightarrow> string \<Rightarrow> pyfloat list"
  ce_fmt3 :: "pyfloat \<Rightarrow> string"

definition new_coordinator :: "string option \<Rightarrow> bool \<Rightarrow> inventory_row list \<Rightarrow> 'c coordinator" where
  "new_coordinator single_leg_symbol static_risk_split registry =
     \<lparr>co_brain = new_portfolio_brain 100000 single_leg_symbol static_risk_split (40 / 100) 5,
      co_cycle_id = [], co_pending = [], co_windows = [], co_last_result = None, co_registry = registry,
      co_ledger = [], co_queue = []\<rparr>"

section \<open>The ledger\<close>

definition log_portfolio_constraint :: "cycle_env \<Rightarrow> 'c coordinator \<Rightarrow> constraint_row \<Rightarrow> 'c coordinator" where
  "log_portfolio_constraint env co row =
     (if ce_writer_running env then co\<lparr>co_queue := co_queue co @ [row]\<rparr> else co\<lparr>co_ledger := co_ledger co @ [row]\<rparr>)"

definition constraint_of ::
  "cycle_env \<Rightarrow> string \<Rightarrow> string \<Rightarrow> string option \<Rightarrow> string option \<Rightarrow> string \<Rightarrow> pyfloat option \<Rightarrow> constraint_row" where
  "constraint_of env cycle_id kind sid symbol act multiplier =
     \<lparr>cl_timestamp = ce_now env, cl_cycle_id = cycle_id, cl_constraint_type = kind, cl_strategy_id = sid,
      cl_symbol = symbol, cl_action_taken = act, cl_sizing_multiplier = multiplier, cl_multi_day_net_inventory = None,
      cl_directional_entry_lockout = None, cl_current_equity = None\<rparr>"

definition format_directional_entry_lockout :: "inventory_verdict \<Rightarrow> (string, string list) dict option" where
  "format_directional_entry_lockout v =
     (if iv_blocked_entry_by_symbol v = [] then None
      else Some (map (\<lambda>(symbol, dirs). (symbol, filter (\<lambda>d. d \<in> dirs) [''long'', ''short''])) (iv_blocked_entry_by_symbol v)))"

definition with_inventory :: "inventory_verdict \<Rightarrow> pyfloat \<Rightarrow> constraint_row \<Rightarrow> constraint_row" where
  "with_inventory v equity row =
     row\<lparr>cl_multi_day_net_inventory := Some (iv_multiday_net v),
         cl_directional_entry_lockout := format_directional_entry_lockout v, cl_current_equity := Some equity\<rparr>"

definition mode_text :: "portfolio_mode \<Rightarrow> string" where
  "mode_text m = (case m of DUAL_LEG \<Rightarrow> ''DUAL_LEG'' | SINGLE_LEG_QQQ \<Rightarrow> ''SINGLE_LEG_QQQ''
     | SINGLE_LEG_SPY \<Rightarrow> ''SINGLE_LEG_SPY'' | SPY_DISABLED \<Rightarrow> ''SPY_DISABLED'')"

section \<open>The cycle\<close>

definition begin_portfolio_cycle :: "string \<Rightarrow> account \<Rightarrow> 'c coordinator \<Rightarrow> 'c coordinator" where
  "begin_portfolio_cycle cycle_id acct co =
     co\<lparr>co_cycle_id := cycle_id, co_pending := [], co_windows := [],
        co_brain := (co_brain co)\<lparr>pb_equity := max (acct_equity acct) 1\<rparr>\<rparr>"

definition register_leg_evaluation :: "'c leg_payload \<Rightarrow> 'c coordinator \<Rightarrow> 'c coordinator" where
  "register_leg_evaluation p co =
     co\<lparr>co_pending := AList.update (lp_strategy_id p) p (co_pending co),
        co_windows := AList.update (lp_strategy_id p) (lp_window p) (co_windows co)\<rparr>"

definition pos_by_symbol :: "position list \<Rightarrow> (string, position) dict" where
  "pos_by_symbol positions = foldl (\<lambda>d p. AList.update (str_upper (pos_symbol p)) p d) [] positions"

definition position_notional :: "position \<Rightarrow> pyfloat" where
  "position_notional p = \<bar>pos_qty p\<bar> * max (pos_avg_entry_price p) 0"

definition marginal_sharpe :: "pyfloat list \<Rightarrow> pyfloat" where
  "marginal_sharpe pnls =
     (if pnls = [] then 25 / 100
      else if np_std pnls < 1 / 1000000000 then 25 / 100
      else max (np_mean pnls / np_std pnls) (5 / 100))"

definition leg_stress :: "cycle_env \<Rightarrow> strategy_config \<Rightarrow> pyfloat" where
  "leg_stress env cfg = max 0 (- ce_leg_realized_pnl env (strategy_id cfg))"

definition leg_metrics_of ::
  "cycle_env \<Rightarrow> pyfloat \<Rightarrow> position list \<Rightarrow> 'c coordinator \<Rightarrow> strategy_config \<Rightarrow> leg_metrics" where
  "leg_metrics_of env total_dd_stress positions co cfg =
     (let payload = map_of (co_pending co) (strategy_id cfg);
          window = (case payload of Some p \<Rightarrow> Some (lp_window p) | None \<Rightarrow> map_of (co_windows co) (strategy_id cfg));
          closes = (case window of Some w \<Rightarrow> closes_array w | None \<Rightarrow> [])
      in \<lparr>lm_strategy_id = strategy_id cfg, lm_symbol = str_upper (strat_symbol cfg),
          lm_realized_vol = annualized_vol_from_closes closes (252 * 26),
          lm_drawdown_contribution = (if 0 < total_dd_stress then leg_stress env cfg / total_dd_stress else 0),
          lm_marginal_sharpe = marginal_sharpe (ce_promotion_pnls env (strategy_id cfg) (strat_symbol cfg)),
          lm_notional_exposure = (case map_of (pos_by_symbol positions) (str_upper (strat_symbol cfg)) of
                                    None \<Rightarrow> 0 | Some p \<Rightarrow> position_notional p),
          lm_health_score = (case payload of Some p \<Rightarrow> lp_health_score p | None \<Rightarrow> 1),
          lm_champion_score = (case payload of Some p \<Rightarrow> lp_champion_score p | None \<Rightarrow> 0),
          lm_enabled = enabled cfg\<rparr>)"

definition build_leg_metrics ::
  "cycle_env \<Rightarrow> strategy_config list \<Rightarrow> position list \<Rightarrow> 'c coordinator \<Rightarrow> (string, leg_metrics) dict" where
  "build_leg_metrics env cfgs positions co =
     (let total = sum_list (map (leg_stress env) cfgs)
      in foldl (\<lambda>d cfg. AList.update (strategy_id cfg) (leg_metrics_of env total positions co cfg) d) [] cfgs)"

definition qqq_spy_correlation :: "'c coordinator \<Rightarrow> pyfloat" where
  "qqq_spy_correlation co =
     (case (map_of (co_windows co) QQQ_STRATEGY_ID, map_of (co_windows co) SPY_STRATEGY_ID) of
        (Some q, Some s) \<Rightarrow> compute_return_correlation (closes_array q) (closes_array s) 60
      | _ \<Rightarrow> 0)"

definition symbol_closes :: "(string, 'c leg_payload) dict \<Rightarrow> (string, pyfloat list) dict" where
  "symbol_closes pending =
     foldl (\<lambda>d (_, p). AList.update (str_upper (lp_symbol p)) (closes_array (lp_window p)) d) [] pending"

definition symbol_correlation_map :: "(string, 'c leg_payload) dict \<Rightarrow> (string \<times> string, pyfloat) dict" where
  "symbol_correlation_map pending =
     (let closes = symbol_closes pending
      in foldl (\<lambda>d (a, b). let corr = compute_return_correlation (dict_get closes a []) (dict_get closes b []) 60
                           in AList.update (b, a) corr (AList.update (a, b) corr d))
           [] (later_pairs (sort (dict_keys closes))))"

section \<open>The inventory registry\<close>

definition position_direction :: "position \<Rightarrow> string" where
  "position_direction p = (if 0 < pos_qty p then ''long'' else ''short'')"

definition signed_exposure :: "position \<Rightarrow> pyfloat" where
  "signed_exposure p = (if position_direction p = ''long'' then position_notional p else - position_notional p)"

definition register_position ::
  "int \<Rightarrow> (string, strategy_config) dict \<Rightarrow> inventory_row list \<Rightarrow> string \<times> position \<Rightarrow> inventory_row list" where
  "register_position today strategy_by_symbol t = (\<lambda>(symbol, p).
     case map_of strategy_by_symbol symbol of
       None \<Rightarrow> t
     | Some cfg \<Rightarrow>
         (case find_row ir_key (strategy_id cfg, symbol) t of
            None \<Rightarrow> t @ [\<lparr>ir_strategy_id = strategy_id cfg, ir_symbol = symbol, ir_side = position_direction p,
                         ir_opened_session_date = today, ir_last_seen_at = today,
                         ir_net_directional_exposure = signed_exposure p\<rparr>]
          | Some _ \<Rightarrow> fst (sql_update (\<lambda>r. ir_key r = (strategy_id cfg, symbol))
                         (\<lambda>r. r\<lparr>ir_side := position_direction p, ir_last_seen_at := today,
                                ir_net_directional_exposure := signed_exposure p\<rparr>) t)))"

definition sync_inventory_registry ::
  "int \<Rightarrow> strategy_config list \<Rightarrow> position list \<Rightarrow> inventory_row list \<Rightarrow> inventory_row list" where
  "sync_inventory_registry today cfgs positions t =
     (let held = pos_by_symbol positions;
          strategy_by_symbol = foldl (\<lambda>d cfg. AList.update (str_upper (strat_symbol cfg)) cfg d) [] cfgs;
          t1 = foldl (register_position today strategy_by_symbol) t held
      in foldl (\<lambda>t cfg. if map_of held (str_upper (strat_symbol cfg)) = None
                       then fst (sql_delete (\<lambda>r. ir_key r = (strategy_id cfg, str_upper (strat_symbol cfg))) t) else t) t1 cfgs)"

definition build_active_positions_manifest ::
  "int \<Rightarrow> strategy_config list \<Rightarrow> position list \<Rightarrow> inventory_row list \<Rightarrow> (string, 'c leg_payload) dict
     \<Rightarrow> position_manifest list" where
  "build_active_positions_manifest today cfgs positions t pending =
     concat (map (\<lambda>cfg.
       let symbol = str_upper (strat_symbol cfg)
       in case map_of (pos_by_symbol positions) symbol of
            None \<Rightarrow> []
          | Some p \<Rightarrow>
              let opened_on = (case find_row ir_key (strategy_id cfg, symbol) t of
                                 Some r \<Rightarrow> ir_opened_session_date r | None \<Rightarrow> today)
              in [\<lparr>mf_strategy_id = strategy_id cfg, mf_symbol = symbol, mf_side = position_direction p,
                   mf_notional = position_notional p,
                   mf_calendar_days_held = calendar_days_between (Some opened_on) today,
                   mf_bars_in_trade = (case map_of pending (strategy_id cfg) of Some q \<Rightarrow> lp_bars_in_trade q | None \<Rightarrow> 0),
                   mf_opened_session_date = opened_on\<rparr>]) cfgs)"

section \<open>Lockouts and forced liquidation\<close>

definition action_direction :: "signal_action \<Rightarrow> string" where
  "action_direction a = (if a = LONG then ''long'' else ''short'')"

definition locked_out :: "inventory_verdict \<Rightarrow> signal option \<Rightarrow> bool" where
  "locked_out v s =
     (case s of None \<Rightarrow> False
      | Some g \<Rightarrow> is_entry_action (sig_action g) \<and> is_entry_locked (sig_symbol g) (action_direction (sig_action g)) v)"

definition apply_inventory_entry_lockouts ::
  "(string, signal option) dict \<Rightarrow> inventory_verdict \<Rightarrow> (string, signal option) dict \<times> (string, string) dict" where
  "apply_inventory_entry_lockouts active v =
     (if \<not> has_directive ''GLOBAL_ENTRY_LOCKOUT'' v then (active, [])
      else (map (\<lambda>(sid, s). (sid, if locked_out v s then None else s)) active,
            concat (map (\<lambda>(sid, s). case s of
                None \<Rightarrow> []
              | Some g \<Rightarrow> if locked_out v s
                         then [(sid, ''GLOBAL_ENTRY_LOCKOUT:'' @ action_direction (sig_action g) @ '':'' @ str_upper (sig_symbol g))]
                         else []) active)))"

definition force_liquidation_map :: "inventory_verdict \<Rightarrow> (string, liquidation_target) dict" where
  "force_liquidation_map v =
     (if \<not> has_directive ''FORCE_LIQUIDATION_EXECUTE'' v then []
      else foldl (\<lambda>d t. AList.update (lt_strategy_id t) t d) [] (iv_targets v))"

definition build_forced_exit_signal :: "liquidation_target \<Rightarrow> pyfloat \<Rightarrow> instant \<Rightarrow> signal" where
  "build_forced_exit_signal target reference_price ts =
     \<lparr>sig_symbol = lt_symbol target, sig_action = EXIT, sig_price = max reference_price 0, sig_timestamp = ts,
      sig_strategy_id = lt_strategy_id target\<rparr>"

text \<open>A parameter set to a flag or a text is no longer a number, and the other way round.\<close>

definition set_param :: "string \<Rightarrow> param_value \<Rightarrow> (string, pyfloat) dict \<times> (string, param_value) dict
     \<Rightarrow> (string, pyfloat) dict \<times> (string, param_value) dict" where
  "set_param k v = (\<lambda>(nums, flags). (AList.delete k nums, AList.update k v flags))"

definition set_number :: "string \<Rightarrow> pyfloat \<Rightarrow> (string, pyfloat) dict \<times> (string, param_value) dict
     \<Rightarrow> (string, pyfloat) dict \<times> (string, param_value) dict" where
  "set_number k v = (\<lambda>(nums, flags). (AList.update k v nums, AList.delete k flags))"

definition apply_force_liquidation_routing ::
  "liquidation_target \<Rightarrow> (string, pyfloat) dict \<times> (string, param_value) dict
     \<Rightarrow> (string, pyfloat) dict \<times> (string, param_value) dict" where
  "apply_force_liquidation_routing target params =
     (set_param ''symbol'' (Text (lt_symbol target))
      \<circ> set_number ''calendar_days_held'' (of_int (lt_calendar_days_held target))
      \<circ> set_param ''force_liquidation_reason'' (Text (lt_transition_reason target))
      \<circ> set_param ''routing_posture_override'' (Text ''AGGRESSIVE_TAKER'')
      \<circ> set_param ''bypass_exit_thresholds'' (Flag True)
      \<circ> set_param ''force_terminal_liquidation'' (Flag True)) params"

definition scale_max_position ::
  "pyfloat \<Rightarrow> (string, pyfloat) dict \<times> (string, param_value) dict \<Rightarrow> (string, pyfloat) dict \<times> (string, param_value) dict" where
  "scale_max_position multiplier params =
     (let base_max = or_num (Some (dict_get (fst params) ''max_position_pct''
                       (dict_get (fst params) ''effective_max_position_pct'' (95 / 100)))) (95 / 100)
      in (set_number ''portfolio_coordination_scale'' multiplier
          \<circ> set_number ''max_position_pct'' (base_max * multiplier)) params)"

section \<open>Plans\<close>

text \<open>The macro risk mode scales every leg, and below 65\% of the gross cap it refuses entries.\<close>

definition apply_gross_cap :: "pyfloat \<Rightarrow> exposure_validation \<Rightarrow> exposure_validation" where
  "apply_gross_cap cap ev =
     (if cap < 1 then
        let breach = (\<not> ev_allowed ev \<or> cap < 65 / 100)
        in ev\<lparr>ev_allowed := \<not> breach,
              ev_sizing_multipliers := map (\<lambda>(sid, m). (sid, m * cap)) (ev_sizing_multipliers ev),
              ev_breach_codes := ev_breach_codes ev @ (if breach then [''macro_risk_off_cap''] else [])\<rparr>
      else ev)"

definition signal_enters :: "signal option \<Rightarrow> bool" where
  "signal_enters s = (case s of None \<Rightarrow> False | Some g \<Rightarrow> is_entry_action (sig_action g))"

record cycle_view =
  vw_now :: instant
  vw_targets :: "(string, liquidation_target) dict"
  vw_lock_reasons :: "(string, string) dict"
  vw_conflicts :: conflict_resolution
  vw_exposure :: exposure_validation
  vw_macro_block :: bool
  vw_budgets :: "(string, pyfloat) dict"

definition plan_leg :: "cycle_view \<Rightarrow> string \<Rightarrow> 'c leg_payload \<Rightarrow> 'c coordinated_plan" where
  "plan_leg vw sid p =
     (let cr = vw_conflicts vw; ev = vw_exposure vw;
          target = map_of (vw_targets vw) sid;
          force = (target \<noteq> None);
          lock = map_of (vw_lock_reasons vw) sid;
          own = dict_get (cr_approved_signals cr) sid None;
          reason1 = (case lock of None \<Rightarrow> dict_get (cr_reasons cr) sid []
                     | Some r \<Rightarrow> or_default (dict_get (cr_reasons cr) sid []) r);
          signal = (case target of None \<Rightarrow> own
                    | Some t \<Rightarrow> Some (build_forced_exit_signal t
                                 (case latest_bar (lp_window p) of None \<Rightarrow> 0 | Some bar \<Rightarrow> bar_close bar) (vw_now vw)));
          reason2 = (if force then ''FORCE_LIQUIDATION_EXECUTE'' else reason1);
          over = (\<not> force \<and> \<not> ev_allowed ev \<and> signal_enters signal);
          reason3 = (if over then or_default reason2 (str_join ''|'' (ev_breach_codes ev)) else reason2);
          macro = (\<not> force \<and> vw_macro_block vw \<and> signal_enters signal);
          reason4 = (if macro then or_default reason3 ''macro_risk_off_block'' else reason3);
          blocked = (\<not> force \<and> (sid \<in> cr_blocked_strategy_ids cr \<or> lock \<noteq> None) \<or> over \<or> macro);
          budget = dict_get (vw_budgets vw) sid (lp_base_risk_fraction p);
          multiplier = (if blocked then 0
                        else dict_get (cr_scale_multipliers cr) sid 1 * dict_get (ev_sizing_multipliers ev) sid 1);
          params = (lp_routing_params p, lp_routing_flags p);
          params' = (case target of
                       Some t \<Rightarrow> apply_force_liquidation_routing t params
                     | None \<Rightarrow> if multiplier < 1 \<and> 0 < multiplier then scale_max_position multiplier params else params)
      in \<lparr>pl_strategy_id = sid, pl_signal = (if blocked \<and> signal_enters signal then None else signal),
          pl_routing_params = fst params', pl_risk_fraction = budget * max multiplier 0, pl_sizing_multiplier = multiplier,
          pl_asset_context = lp_asset_context p, pl_blocked = blocked, pl_block_reason = reason4,
          pl_force_liquidation = force, cp_routing_flags = snd params', cp_window = lp_window p,
          cp_cancel_pending_orders = force,
          cp_force_liquidation_reason = (case target of None \<Rightarrow> [] | Some t \<Rightarrow> lt_transition_reason t)\<rparr>)"

section \<open>One cycle\<close>

record brain_run =
  br_brain :: portfolio_brain
  br_metrics :: "(string, leg_metrics) dict"
  br_budgets :: "(string, pyfloat) dict"
  br_mode :: mode_decision
  br_registry :: "inventory_row list"
  br_verdict :: inventory_verdict
  br_signals :: "(string, signal option) dict"
  br_lock_reasons :: "(string, string) dict"
  br_conflicts :: conflict_resolution

text \<open>The brain's part of a cycle up to the resolved signals, in the order the coordinator calls it.\<close>

definition govern_signals ::
  "cycle_env \<Rightarrow> strategy_config list \<Rightarrow> account \<Rightarrow> position list \<Rightarrow> string option \<Rightarrow> (string, leg_metrics) dict
     \<Rightarrow> (string \<times> string, pyfloat) dict \<Rightarrow> 'c coordinator \<Rightarrow> brain_run" where
  "govern_signals env cfgs acct positions winner metrics cor co =
     (let pending = co_pending co;
          (b1, budgets) = allocate_risk_budgets metrics (co_brain co);
          enabled_ids = remdups (map strategy_id (filter enabled cfgs));
          (b2, mode) = resolve_portfolio_mode metrics winner enabled_ids b1;
          registry = sync_inventory_registry (ce_today env) cfgs positions (co_registry co);
          manifest = build_active_positions_manifest (ce_today env) cfgs positions registry pending;
          (b3, verdict) = check_inventory_path_dependency manifest (acct_equity acct) b2;
          (signals, locks) = apply_inventory_entry_lockouts (map (\<lambda>(sid, p). (sid, lp_signal p)) pending) verdict;
          (b4, cr) = resolve_signal_conflicts (ce_fmt3 env) signals metrics cor b3
      in \<lparr>br_brain = b4, br_metrics = metrics, br_budgets = budgets, br_mode = mode, br_registry = registry,
          br_verdict = verdict, br_signals = signals, br_lock_reasons = locks, br_conflicts = cr\<rparr>)"

definition run_brain ::
  "cycle_env \<Rightarrow> strategy_config list \<Rightarrow> account \<Rightarrow> position list \<Rightarrow> string option \<Rightarrow> pyfloat \<Rightarrow> 'c coordinator
     \<Rightarrow> brain_run \<times> exposure_validation" where
  "run_brain env cfgs acct positions winner gross_cap co =
     (let br = govern_signals env cfgs acct positions winner (build_leg_metrics env cfgs positions co)
                 (symbol_correlation_map (co_pending co)) co;
          proposed = estimate_proposed_positions (cr_approved_signals (br_conflicts br)) positions (br_metrics br)
                       (acct_equity acct) (br_brain br);
          (b5, ev) = validate_global_exposure proposed (Some (acct_equity acct)) (br_brain br)
      in (br\<lparr>br_brain := b5\<rparr>, apply_gross_cap gross_cap ev))"

definition cycle_rows :: "cycle_env \<Rightarrow> account \<Rightarrow> 'c coordinator \<Rightarrow> brain_run \<Rightarrow> exposure_validation \<Rightarrow> constraint_row list" where
  "cycle_rows env acct co br ev =
     (let row = constraint_of env (co_cycle_id co);
          v = br_verdict br;
          inv = with_inventory v (acct_equity acct);
          leg_symbol = (\<lambda>sid. map_option lp_symbol (map_of (co_pending co) sid));
          values = map snd (ev_sizing_multipliers ev)
      in [row ''risk_budget_allocation'' None None ''allocated'' None,
          row ''portfolio_mode'' None None (mode_text (md_mode (br_mode br))) None,
          inv (row ''cross_session_inventory'' None None (or_str (iv_directive v) ''allowed'') None)]
         @ map (\<lambda>(_, t). inv (row ''forced_duration_liquidation'' (Some (lt_strategy_id t)) (Some (lt_symbol t))
                               ''FORCE_LIQUIDATION_EXECUTE'' None)) (force_liquidation_map v)
         @ map (\<lambda>(sid, _). inv (row ''inventory_entry_lockout'' (Some sid) (leg_symbol sid) ''GLOBAL_ENTRY_LOCKOUT'' None))
             (br_lock_reasons br)
         @ map (\<lambda>(sid, _). row ''signal_conflict'' (Some sid) (leg_symbol sid) ''blocked'' (Some 0)) (cr_reasons (br_conflicts br))
         @ [row ''global_exposure'' None None (if ev_allowed ev then ''allowed'' else ''breach'')
              (Some (if values = [] then 1 else Min (set values)))])"

definition cycle_view_of :: "cycle_env \<Rightarrow> bool \<Rightarrow> brain_run \<times> exposure_validation \<Rightarrow> cycle_view" where
  "cycle_view_of env macro_block = (\<lambda>(br, ev).
     \<lparr>vw_now = ce_now env, vw_targets = force_liquidation_map (br_verdict br), vw_lock_reasons = br_lock_reasons br,
      vw_conflicts = br_conflicts br, vw_exposure = ev, vw_macro_block = macro_block, vw_budgets = br_budgets br\<rparr>)"

definition cycle_start :: "cycle_env \<Rightarrow> account \<Rightarrow> 'c coordinator \<Rightarrow> 'c coordinator" where
  "cycle_start env acct co = (if co_cycle_id co = [] then begin_portfolio_cycle (ce_new_cycle_id env) acct co else co)"

definition coordinate_cycle ::
  "cycle_env \<Rightarrow> strategy_config list \<Rightarrow> account \<Rightarrow> position list \<Rightarrow> string option \<Rightarrow> pyfloat \<Rightarrow> bool
     \<Rightarrow> 'c coordinator \<Rightarrow> 'c coordinator \<times> 'c cycle_result" where
  "coordinate_cycle env cfgs acct positions winner gross_cap macro_block co0 =
     (let co = cycle_start env acct co0;
          (br, ev) = run_brain env cfgs acct positions winner gross_cap co;
          result = \<lparr>cy_cycle_id = co_cycle_id co, cy_risk_budgets = br_budgets br,
                    cy_plans = map (\<lambda>(sid, p). (sid, plan_leg (cycle_view_of env macro_block (br, ev)) sid p)) (co_pending co),
                    cy_mode_reason = md_reason (br_mode br), cy_exposure_allowed = ev_allowed ev,
                    cy_exposure_block_reason =
                      (if ev_allowed ev then None
                       else Some (or_default (str_join ''|'' (ev_breach_codes ev)) ''gross_cap_below_breach_line''))\<rparr>
      in ((foldl (log_portfolio_constraint env) co (cycle_rows env acct co br ev))
            \<lparr>co_brain := br_brain br, co_registry := br_registry br, co_last_result := Some result\<rparr>, result))"

section \<open>Routing\<close>

text \<open>
  The order router. The drawdown breaker and the sizing are the risk manager's, which is not part
  of the sources: \<open>breaker\<close> and \<open>size_order\<close>.
\<close>

definition route ::
  "(account \<Rightarrow> 's \<Rightarrow> 's) \<Rightarrow> ('s \<Rightarrow> bool) \<Rightarrow> (signal \<Rightarrow> 's \<Rightarrow> pyfloat \<Rightarrow> (string, pyfloat) dict \<times> (string, param_value) dict \<Rightarrow> order list)
     \<Rightarrow> signal option \<Rightarrow> account \<Rightarrow> 's \<Rightarrow> pyfloat \<Rightarrow> (string, pyfloat) dict \<times> (string, param_value) dict \<Rightarrow> order list \<times> 's" where
  "route breaker is_halted size_order sgl acct st fraction params =
     (let st' = breaker acct st
      in case sgl of
           None \<Rightarrow> ([], st')
         | Some g \<Rightarrow> if is_halted st' then ([], st') else (size_order g st' fraction params, st'))"

definition set_default :: "string \<Rightarrow> param_value \<Rightarrow> (string, pyfloat) dict \<times> (string, param_value) dict
     \<Rightarrow> (string, pyfloat) dict \<times> (string, param_value) dict" where
  "set_default k v params =
     (if map_of (fst params) k = None \<and> map_of (snd params) k = None then set_param k v params else params)"

definition route_coordinated_plan ::
  "(account \<Rightarrow> 's \<Rightarrow> 's) \<Rightarrow> ('s \<Rightarrow> bool) \<Rightarrow> (signal \<Rightarrow> 's \<Rightarrow> pyfloat \<Rightarrow> (string, pyfloat) dict \<times> (string, param_value) dict \<Rightarrow> order list)
     \<Rightarrow> 'c coordinated_plan \<Rightarrow> account \<Rightarrow> 's \<Rightarrow> order list \<times> 's" where
  "route_coordinated_plan breaker is_halted size_order plan acct st =
     (if pl_blocked plan \<and> signal_enters (pl_signal plan) \<and> \<not> pl_force_liquidation plan then ([], st)
      else
        let params = (pl_routing_params plan, cp_routing_flags plan);
            params' = (if pl_force_liquidation plan
                       then (set_default ''routing_posture_override'' (Text ''AGGRESSIVE_TAKER'')
                             \<circ> set_default ''bypass_exit_thresholds'' (Flag True)
                             \<circ> set_default ''force_terminal_liquidation'' (Flag True)) params
                       else params)
        in case pl_signal plan of
             None \<Rightarrow> ([], st)
           | Some g \<Rightarrow> route breaker is_halted size_order (Some g) acct st (pl_risk_fraction plan) params')"

section \<open>What a cycle consists of\<close>

lemma brain_frame:
  "pb_last_inventory (fst (validate_global_exposure ps e b)) = pb_last_inventory b"
  "pb_last_inventory (fst (resolve_signal_conflicts fmt3 active metrics cor b)) = pb_last_inventory b"
  "pb_last_inventory (fst (check_inventory_path_dependency manifest eq b)) = Some (snd (check_inventory_path_dependency manifest eq b))"
  by (simp_all add: validate_global_exposure_def resolve_signal_conflicts_def check_inventory_path_dependency_def Let_def)

lemma brain_limits:
  "pb_max_holding_days (fst (allocate_risk_budgets metrics b)) = pb_max_holding_days b"
  "pb_max_holding_days (fst (resolve_portfolio_mode metrics winner ids b)) = pb_max_holding_days b"
proof -
  show "pb_max_holding_days (fst (allocate_risk_budgets metrics b)) = pb_max_holding_days b"
    by (simp add: allocate_risk_budgets_def Let_def)
  have "pb_max_holding_days (fst (decide_mode m x y z r b)) = pb_max_holding_days b" for m x y z r b
    by (simp add: decide_mode_def Let_def)
  moreover from this have "pb_max_holding_days (fst (budget_mode x b)) = pb_max_holding_days b" for x b
    by (simp add: budget_mode_def Let_def split: list.split prod.split)
  ultimately show "pb_max_holding_days (fst (resolve_portfolio_mode metrics winner ids b)) = pb_max_holding_days b"
    by (simp only: resolve_portfolio_mode_def Let_def if_distrib [of fst] if_distrib [of pb_max_holding_days] if_cancel)
qed

lemma run_brain_parts:
  fixes env cfgs acct positions winner cap and co :: "'c coordinator"
  defines "br \<equiv> fst (run_brain env cfgs acct positions winner cap co)"
  shows "br_signals br = fst (apply_inventory_entry_lockouts (map (\<lambda>(sid, p). (sid, lp_signal p)) (co_pending co)) (br_verdict br))"
    and "br_lock_reasons br = snd (apply_inventory_entry_lockouts (map (\<lambda>(sid, p). (sid, lp_signal p)) (co_pending co)) (br_verdict br))"
    and "\<exists>b. br_conflicts br = snd (resolve_signal_conflicts (ce_fmt3 env) (br_signals br) (br_metrics br)
                 (symbol_correlation_map (co_pending co)) b)"
    and "pb_last_inventory (br_brain br) = Some (br_verdict br)"
    and "br_registry br = sync_inventory_registry (ce_today env) cfgs positions (co_registry co)"
    and "\<exists>b. pb_max_holding_days b = pb_max_holding_days (co_brain co) \<and>
           br_verdict br = snd (check_inventory_path_dependency
             (build_active_positions_manifest (ce_today env) cfgs positions (br_registry br) (co_pending co)) (acct_equity acct) b)"
proof -
  show "br_signals br = fst (apply_inventory_entry_lockouts (map (\<lambda>(sid, p). (sid, lp_signal p)) (co_pending co)) (br_verdict br))"
    "br_lock_reasons br = snd (apply_inventory_entry_lockouts (map (\<lambda>(sid, p). (sid, lp_signal p)) (co_pending co)) (br_verdict br))"
    "pb_last_inventory (br_brain br) = Some (br_verdict br)"
    "br_registry br = sync_inventory_registry (ce_today env) cfgs positions (co_registry co)"
    unfolding br_def by (simp_all add: run_brain_def govern_signals_def Let_def split_beta brain_frame)
  show "\<exists>b. br_conflicts br = snd (resolve_signal_conflicts (ce_fmt3 env) (br_signals br) (br_metrics br)
                 (symbol_correlation_map (co_pending co)) b)"
    unfolding br_def by (simp add: run_brain_def govern_signals_def Let_def split_beta) blast
  let ?m = "build_leg_metrics env cfgs positions co"
  let ?b = "fst (resolve_portfolio_mode ?m winner (remdups (map strategy_id (filter enabled cfgs)))
              (fst (allocate_risk_budgets ?m (co_brain co))))"
  have "br_verdict br = snd (check_inventory_path_dependency
      (build_active_positions_manifest (ce_today env) cfgs positions (br_registry br) (co_pending co)) (acct_equity acct) ?b)"
    unfolding br_def by (simp add: run_brain_def govern_signals_def Let_def split_beta)
  then show "\<exists>b. pb_max_holding_days b = pb_max_holding_days (co_brain co) \<and>
           br_verdict br = snd (check_inventory_path_dependency
             (build_active_positions_manifest (ce_today env) cfgs positions (br_registry br) (co_pending co)) (acct_equity acct) b)"
    by (intro exI [of _ ?b] conjI) (simp_all only: brain_limits)
qed

lemma plan_entry:
  assumes "pl_signal (plan_leg vw sid p) = Some g" "is_entry_action (sig_action g)"
  shows "map_of (vw_targets vw) sid = None" "dict_get (cr_approved_signals (vw_conflicts vw)) sid None = Some g"
    "sid \<notin> cr_blocked_strategy_ids (vw_conflicts vw)" "map_of (vw_lock_reasons vw) sid = None"
    "ev_allowed (vw_exposure vw)" "\<not> vw_macro_block vw"
    "\<not> pl_blocked (plan_leg vw sid p)" "\<not> pl_force_liquidation (plan_leg vw sid p)"
proof -
  have free: "map_of (vw_targets vw) sid = None"
    using assms by (auto simp: plan_leg_def Let_def build_forced_exit_signal_def is_entry_action_def split: if_splits option.splits)
  then show "map_of (vw_targets vw) sid = None" "dict_get (cr_approved_signals (vw_conflicts vw)) sid None = Some g"
    "sid \<notin> cr_blocked_strategy_ids (vw_conflicts vw)" "map_of (vw_lock_reasons vw) sid = None"
    "ev_allowed (vw_exposure vw)" "\<not> vw_macro_block vw"
    "\<not> pl_blocked (plan_leg vw sid p)" "\<not> pl_force_liquidation (plan_leg vw sid p)"
    using assms by (simp_all add: plan_leg_def Let_def signal_enters_def split: if_splits)
qed

lemma plan_cleared:
  assumes "map_of (vw_targets vw) sid = None" "dict_get (cr_approved_signals (vw_conflicts vw)) sid None = Some g"
    "sid \<notin> cr_blocked_strategy_ids (vw_conflicts vw)" "map_of (vw_lock_reasons vw) sid = None"
    "ev_allowed (vw_exposure vw)" "\<not> vw_macro_block vw"
  shows "pl_signal (plan_leg vw sid p) = Some g"
  using assms by (simp add: plan_leg_def Let_def)

lemma symmetric_fold:
  fixes c :: "string \<Rightarrow> string \<Rightarrow> pyfloat"
  assumes "map_of d (x, y) = map_of d (y, x)"
  shows "map_of (foldl (\<lambda>d (a, b). AList.update (b, a) (c a b) (AList.update (a, b) (c a b) d)) d ps) (x, y) =
    map_of (foldl (\<lambda>d (a, b). AList.update (b, a) (c a b) (AList.update (a, b) (c a b) d)) d ps) (y, x)"
  using assms
proof (induction ps arbitrary: d)
  case (Cons q ps)
  obtain a b where q: "q = (a, b)" by (cases q)
  have "map_of (AList.update (b, a) (c a b) (AList.update (a, b) (c a b) d)) (x, y) =
      map_of (AList.update (b, a) (c a b) (AList.update (a, b) (c a b) d)) (y, x)"
  proof (cases "(x, y) \<in> {(a, b), (b, a)}")
    case False
    then have "(x, y) \<noteq> (a, b)" "(x, y) \<noteq> (b, a)" "(y, x) \<noteq> (a, b)" "(y, x) \<noteq> (b, a)" by blast+
    then show ?thesis by (simp only: dict_lookup_update if_False Cons.prems)
  next
    case True
    then consider "x = a" "y = b" | "x = b" "y = a" by blast
    then show ?thesis by cases (simp_all only: dict_lookup_update if_cancel refl if_True)
  qed
  from Cons.IH [OF this] show ?case by (simp only: q foldl_Cons prod.case)
qed simp

lemma correlation_map_symmetric:
  "pair_correlation (symbol_correlation_map pending) x y = pair_correlation (symbol_correlation_map pending) y x"
proof -
  have "map_of (symbol_correlation_map pending) (x, y) = map_of (symbol_correlation_map pending) (y, x)"
    unfolding symbol_correlation_map_def Let_def by (rule symmetric_fold) simp
  then show ?thesis by (simp add: pair_correlation_def dict_get_def)
qed

lemma locked_has_directive:
  assumes "v = snd (check_inventory_path_dependency manifest eq b)" "is_entry_locked symbol direction v"
  shows "has_directive ''GLOBAL_ENTRY_LOCKOUT'' v"
proof -
  have "iv_breach_codes v \<noteq> []"
  proof
    assume "iv_breach_codes v = []"
    then have "iv_blocked_entry_by_symbol v = []"
      unfolding assms(1) check_inventory_path_dependency_def Let_def by (simp split: if_splits)
    then show False using assms(2) by (simp add: is_entry_locked_def)
  qed
  then have "''GLOBAL_ENTRY_LOCKOUT'' \<in> set (iv_directives v)"
    unfolding assms(1) check_inventory_path_dependency_def Let_def by (simp split: if_splits)
  then show ?thesis by (simp add: has_directive_def)
qed

lemma map_of_map_keyed: "map_of (map (\<lambda>(k, v). (k, f k v)) xs) k = map_option (f k) (map_of xs k)"
  by (induction xs) auto

lemma cycle_plan:
  assumes "map_of (cy_plans (snd (coordinate_cycle env cfgs acct positions winner cap macro co))) sid = Some plan"
  shows "cycle_start env acct co = co"
    and "\<exists>p. map_of (co_pending co) sid = Some p \<and>
           plan = plan_leg (cycle_view_of env macro (run_brain env cfgs acct positions winner cap co)) sid p"
    and "cy_exposure_allowed (snd (coordinate_cycle env cfgs acct positions winner cap macro co)) =
           ev_allowed (snd (run_brain env cfgs acct positions winner cap co))"
    and "pb_last_inventory (co_brain (fst (coordinate_cycle env cfgs acct positions winner cap macro co))) =
           Some (br_verdict (fst (run_brain env cfgs acct positions winner cap co)))"
proof -
  have "co_cycle_id co \<noteq> []"
  proof
    assume "co_cycle_id co = []"
    then have "co_pending (cycle_start env acct co) = []" by (simp add: cycle_start_def begin_portfolio_cycle_def)
    then show False using assms by (simp add: coordinate_cycle_def Let_def split_beta)
  qed
  then show start: "cycle_start env acct co = co" by (simp add: cycle_start_def)
  show "\<exists>p. map_of (co_pending co) sid = Some p \<and>
           plan = plan_leg (cycle_view_of env macro (run_brain env cfgs acct positions winner cap co)) sid p"
    using assms unfolding coordinate_cycle_def Let_def start
    by (simp add: split_beta map_of_map_keyed) auto
  show "cy_exposure_allowed (snd (coordinate_cycle env cfgs acct positions winner cap macro co)) =
           ev_allowed (snd (run_brain env cfgs acct positions winner cap co))"
    "pb_last_inventory (co_brain (fst (coordinate_cycle env cfgs acct positions winner cap macro co))) =
           Some (br_verdict (fst (run_brain env cfgs acct positions winner cap co)))"
    unfolding coordinate_cycle_def Let_def start by (simp_all add: split_beta run_brain_parts(4))
qed

lemma lockout_lookup:
  "map_of (fst (apply_inventory_entry_lockouts active v)) sid =
     map_option (\<lambda>s. if has_directive ''GLOBAL_ENTRY_LOCKOUT'' v \<and> locked_out v s then None else s) (map_of active sid)"
  by (simp add: apply_inventory_entry_lockouts_def map_of_map_keyed [of "\<lambda>_ s. if locked_out v s then None else s"] option.map_ident)

lemma lockout_dict_ok: "dict_ok active \<Longrightarrow> dict_ok (fst (apply_inventory_entry_lockouts active v))"
  by (simp add: apply_inventory_entry_lockouts_def comp_def split_beta)

text \<open>Where the signal of a planned entry comes from.\<close>

lemma planned_entry_source:
  fixes env cfgs acct positions winner cap co
  defines "br \<equiv> fst (run_brain env cfgs acct positions winner cap co)"
    and "ev \<equiv> snd (run_brain env cfgs acct positions winner cap co)"
  assumes ok: "dict_ok (co_pending co)"
    and plan: "map_of (cy_plans (snd (coordinate_cycle env cfgs acct positions winner cap macro co))) sid = Some plan"
    and entry: "pl_signal plan = Some g" "is_entry_action (sig_action g)"
  shows "\<not> pl_blocked plan" "\<not> pl_force_liquidation plan" "ev_allowed ev" "\<not> macro"
    "map_of (br_signals br) sid = Some (Some g)" "map_of (cr_approved_signals (br_conflicts br)) sid = Some (Some g)"
    "map_option lp_signal (map_of (co_pending co) sid) = Some (Some g)" "\<not> locked_out (br_verdict br) (Some g)"
proof -
  obtain p where p: "map_of (co_pending co) sid = Some p" and pl: "plan = plan_leg (cycle_view_of env macro (br, ev)) sid p"
    using cycle_plan(2) [OF plan] unfolding br_def ev_def by auto
  note pe = plan_entry [OF entry(1) [unfolded pl] entry(2)]
  show "\<not> pl_blocked plan" "\<not> pl_force_liquidation plan" "ev_allowed ev" "\<not> macro"
    using pe(5-8) by (simp_all add: pl cycle_view_of_def)
  show approved: "map_of (cr_approved_signals (br_conflicts br)) sid = Some (Some g)"
    using pe(2) by (auto simp: cycle_view_of_def dict_get_def split: option.splits)
  let ?active = "map (\<lambda>(sid, p). (sid, lp_signal p)) (co_pending co)"
  have active: "map_of ?active sid = Some (lp_signal p)" using p by (simp add: map_of_map_keyed [of "\<lambda>_. lp_signal"])
  have "dict_ok ?active" using ok by (simp add: comp_def split_beta)
  then have sig_ok: "dict_ok (br_signals br)" by (simp add: br_def run_brain_parts(1) lockout_dict_ok)
  obtain b where "br_conflicts br = snd (resolve_signal_conflicts (ce_fmt3 env) (br_signals br) (br_metrics br)
                 (symbol_correlation_map (co_pending co)) b)"
    using run_brain_parts(3) unfolding br_def by blast
  then show sig: "map_of (br_signals br) sid = Some (Some g)"
    using approved conflict_lookup [OF sig_ok, of "ce_fmt3 env" "br_metrics br" "symbol_correlation_map (co_pending co)" b sid]
    by (simp split: if_splits)
  then have lk: "(if has_directive ''GLOBAL_ENTRY_LOCKOUT'' (br_verdict br) \<and> locked_out (br_verdict br) (lp_signal p)
       then None else lp_signal p) = Some g"
    using run_brain_parts(1) [where env = env and cfgs = cfgs and acct = acct and positions = positions and winner = winner and cap = cap and co = co] active by (simp add: br_def lockout_lookup)
  then show "map_option lp_signal (map_of (co_pending co) sid) = Some (Some g)" using p by (simp split: if_splits)
  have "has_directive ''GLOBAL_ENTRY_LOCKOUT'' (br_verdict br)" if "locked_out (br_verdict br) (Some g)"
    using that run_brain_parts(6) [where env = env and cfgs = cfgs and acct = acct and positions = positions and winner = winner and cap = cap and co = co] locked_has_directive
    unfolding br_def locked_out_def by auto
  then show "\<not> locked_out (br_verdict br) (Some g)" using lk by (auto split: if_splits)
qed

text \<open>
  C25: An entry reaches a leg's plan only through every gate of the cycle: it is the leg's own
  signal, the plan is neither blocked nor a forced liquidation, the exposure is within its caps,
  the macro mode does not forbid entries and the inventory check of the cycle does not lock the
  symbol in that direction.
\<close>

theorem planned_entry_is_cleared:
  assumes "dict_ok (co_pending co)"
    "map_of (cy_plans (snd (coordinate_cycle env cfgs acct positions winner cap macro co))) sid = Some plan"
    "pl_signal plan = Some g" "is_entry_action (sig_action g)"
  shows "map_option lp_signal (map_of (co_pending co) sid) = Some (Some g) \<and>
    \<not> pl_blocked plan \<and> \<not> pl_force_liquidation plan \<and> \<not> macro \<and>
    cy_exposure_allowed (snd (coordinate_cycle env cfgs acct positions winner cap macro co)) \<and>
    (\<exists>v. pb_last_inventory (co_brain (fst (coordinate_cycle env cfgs acct positions winner cap macro co))) = Some v \<and>
      \<not> is_entry_locked (sig_symbol g) (action_direction (sig_action g)) v)"
  using planned_entry_source [OF assms] cycle_plan(3,4) [OF assms(2)] assms(4) by (simp add: locked_out_def)

text \<open>
  C26: The plans of a cycle never bet against each other: two entries on one symbol, or on two
  symbols whose returns are correlated at the one-risk-unit line or above, have the same direction.
\<close>

theorem planned_entries_never_oppose:
  assumes "dict_ok (co_pending co)"
    "map_of (cy_plans (snd (coordinate_cycle env cfgs acct positions winner cap macro co))) s1 = Some p1"
    "map_of (cy_plans (snd (coordinate_cycle env cfgs acct positions winner cap macro co))) s2 = Some p2"
    "pl_signal p1 = Some g1" "is_entry_action (sig_action g1)" "pl_signal p2 = Some g2" "is_entry_action (sig_action g2)"
    "str_upper (sig_symbol g1) = str_upper (sig_symbol g2) \<or>
     OPPOSING_SIGNAL_CORRELATION_FLOOR \<le>
       pair_correlation (symbol_correlation_map (co_pending co)) (str_upper (sig_symbol g1)) (str_upper (sig_symbol g2))"
  shows "sig_action g1 = sig_action g2"
proof -
  let ?br = "fst (run_brain env cfgs acct positions winner cap co)"
  have "dict_ok (map (\<lambda>(sid, p). (sid, lp_signal p)) (co_pending co))" using assms(1) by (simp add: comp_def split_beta)
  then have ok: "dict_ok (br_signals ?br)" by (simp add: run_brain_parts(1) lockout_dict_ok)
  obtain b where cr: "br_conflicts ?br = snd (resolve_signal_conflicts (ce_fmt3 env) (br_signals ?br) (br_metrics ?br)
                 (symbol_correlation_map (co_pending co)) b)"
    using run_brain_parts(3) by blast
  show ?thesis
    by (rule approved_entries_never_oppose [OF ok planned_entry_source(6) [OF assms(1,2,4,5), unfolded cr]
          planned_entry_source(6) [OF assms(1,3,6,7), unfolded cr] assms(5,7)])
      (use assms(8) correlation_map_symmetric in metis)
qed

section \<open>The registry of carried positions\<close>

lemma find_row_other_key: "k \<noteq> k' \<Longrightarrow> find_row key k (filter (\<lambda>r. key r \<noteq> k') t) = find_row key k t"
  by (induction t) auto

lemma register_keeps_opened:
  assumes "find_row ir_key k t = Some r"
  shows "\<exists>r'. find_row ir_key k (register_position today cfg_of t x) = Some r' \<and>
    ir_opened_session_date r' = ir_opened_session_date r"
proof -
  obtain symbol p where x: "x = (symbol, p)" by (cases x)
  have upd: "\<exists>r'. find_row ir_key k (fst (sql_update P (\<lambda>r. r\<lparr>ir_side := sd, ir_last_seen_at := today,
      ir_net_directional_exposure := e\<rparr>) t)) = Some r' \<and> ir_opened_session_date r' = ir_opened_session_date r" for P sd e
    using assms by (subst find_row_update) (simp_all add: ir_key_def)
  show ?thesis
  proof (cases "map_of cfg_of symbol")
    case (Some cfg)
    show ?thesis
      using assms upd Some by (cases "find_row ir_key (strategy_id cfg, symbol) t")
        (simp_all add: x register_position_def find_row_append)
  qed (use assms in \<open>simp add: x register_position_def\<close>)
qed

lemma register_all_keeps_opened:
  assumes "find_row ir_key k t = Some r"
  shows "\<exists>r'. find_row ir_key k (foldl (register_position today cfg_of) t xs) = Some r' \<and>
    ir_opened_session_date r' = ir_opened_session_date r"
  using assms
proof (induction xs arbitrary: t r)
  case (Cons x xs)
  obtain r' where r': "find_row ir_key k (register_position today cfg_of t x) = Some r'"
    "ir_opened_session_date r' = ir_opened_session_date r"
    using register_keeps_opened [OF Cons.prems] by blast
  from Cons.IH [OF r'(1)] r'(2) show ?case by simp
qed simp

definition forget_absent :: "(string, position) dict \<Rightarrow> inventory_row list \<Rightarrow> strategy_config \<Rightarrow> inventory_row list" where
  "forget_absent held t cfg =
     (if map_of held (str_upper (strat_symbol cfg)) = None
      then fst (sql_delete (\<lambda>r. ir_key r = (strategy_id cfg, str_upper (strat_symbol cfg))) t) else t)"

lemma forget_keeps_held:
  assumes "map_of held y \<noteq> None"
  shows "find_row ir_key (sid, y) (foldl (forget_absent held) t cfgs) = find_row ir_key (sid, y) t"
proof (induction cfgs arbitrary: t)
  case (Cons cfg cfgs)
  have "find_row ir_key (sid, y) (forget_absent held t cfg) = find_row ir_key (sid, y) t"
    using assms by (auto simp: forget_absent_def fst_sql_delete intro!: find_row_other_key)
  then show ?case using Cons.IH by simp
qed simp

lemma forget_drops_absent:
  assumes "cfg \<in> set cfgs" "map_of held (str_upper (strat_symbol cfg)) = None"
  shows "find_row ir_key (strategy_id cfg, str_upper (strat_symbol cfg)) (foldl (forget_absent held) t cfgs) = None"
proof -
  let ?k = "(strategy_id cfg, str_upper (strat_symbol cfg))"
  have stays: "?k \<notin> ir_key ` set t \<Longrightarrow> ?k \<notin> ir_key ` set (foldl (forget_absent held) t cfgs)" for t cfgs
  proof (induction cfgs arbitrary: t)
    case (Cons c cfgs)
    have "?k \<notin> ir_key ` set (forget_absent held t c)" using Cons.prems by (auto simp: forget_absent_def fst_sql_delete)
    from Cons.IH [OF this] show ?case by simp
  qed simp
  obtain cs ds where "cfgs = cs @ cfg # ds" using assms(1) by (auto dest: split_list)
  moreover have "?k \<notin> ir_key ` set (forget_absent held u cfg)" for u
    using assms(2) by (auto simp: forget_absent_def fst_sql_delete)
  ultimately show ?thesis using stays unfolding find_row_None by simp
qed

lemma sync_shape:
  "sync_inventory_registry today cfgs positions t =
     foldl (forget_absent (pos_by_symbol positions))
       (foldl (register_position today (foldl (\<lambda>d cfg. AList.update (str_upper (strat_symbol cfg)) cfg d) [] cfgs)) t
         (pos_by_symbol positions)) cfgs"
  unfolding sync_inventory_registry_def Let_def forget_absent_def ..

text \<open>
  The registry remembers when a position was first seen, and only as long as it is held: while
  the broker reports the symbol the leg's opening day never moves, and the row of a configured leg
  is gone after the first cycle without the position.
\<close>

theorem opening_day_kept_while_held:
  "(find_row ir_key (sid, y) t = Some r \<and> map_of (pos_by_symbol positions) y \<noteq> None \<longrightarrow>
      map_option ir_opened_session_date (find_row ir_key (sid, y) (sync_inventory_registry today cfgs positions t))
        = Some (ir_opened_session_date r)) \<and>
   (cfg \<in> set cfgs \<and> map_of (pos_by_symbol positions) (str_upper (strat_symbol cfg)) = None \<longrightarrow>
      find_row ir_key (strategy_id cfg, str_upper (strat_symbol cfg)) (sync_inventory_registry today cfgs positions t) = None)"
proof (intro conjI impI)
  assume a: "find_row ir_key (sid, y) t = Some r \<and> map_of (pos_by_symbol positions) y \<noteq> None"
  from register_all_keeps_opened [OF conjunct1 [OF a]]
  show "map_option ir_opened_session_date (find_row ir_key (sid, y) (sync_inventory_registry today cfgs positions t))
        = Some (ir_opened_session_date r)"
    unfolding sync_shape using forget_keeps_held [of "pos_by_symbol positions" y] a by fastforce
next
  assume "cfg \<in> set cfgs \<and> map_of (pos_by_symbol positions) (str_upper (strat_symbol cfg)) = None"
  then show "find_row ir_key (strategy_id cfg, str_upper (strat_symbol cfg)) (sync_inventory_registry today cfgs positions t) = None"
    unfolding sync_shape using forget_drops_absent by blast
qed

section \<open>Forced liquidation\<close>

lemma keyed_by_last:
  assumes "t \<in> set ts"
  shows "\<exists>u \<in> set ts. key u = key t \<and> map_of (foldl (\<lambda>d t. AList.update (key t) t d) d ts) (key t) = Some u"
  using assms
proof (induction ts rule: rev_induct)
  case (snoc x ts)
  then show ?case by (cases "key x = key t") auto
qed simp

lemma overdue_is_target:
  fixes eq manifest b
  assumes "m \<in> set manifest" "is_multiday m" "overdue b m"
  defines "v \<equiv> snd (check_inventory_path_dependency manifest eq b)"
  shows "\<exists>t. map_of (force_liquidation_map v) (mf_strategy_id m) = Some t"
proof -
  have late: "liquidation_of m \<in> set (iv_targets v)"
    using assms(1-3) by (auto simp: v_def check_inventory_path_dependency_def Let_def)
  then have "''FORCE_LIQUIDATION_EXECUTE'' \<in> set (iv_directives v)"
    by (auto simp: v_def check_inventory_path_dependency_def Let_def filter_empty_conv)
  then have "force_liquidation_map v = foldl (\<lambda>d t. AList.update (lt_strategy_id t) t d) [] (iv_targets v)"
    by (simp add: force_liquidation_map_def has_directive_def)
  with keyed_by_last [OF late, of lt_strategy_id "[]"] show ?thesis by (auto simp: liquidation_of_def)
qed

lemma forced_eq:
  assumes "map_of (vw_targets vw) sid = Some t"
  shows "\<exists>x. plan_leg vw sid p = \<lparr>pl_strategy_id = sid,
     pl_signal = Some (build_forced_exit_signal t (case latest_bar (lp_window p) of None \<Rightarrow> 0 | Some bar \<Rightarrow> bar_close bar) (vw_now vw)),
     pl_routing_params = fst (apply_force_liquidation_routing t (lp_routing_params p, lp_routing_flags p)),
     pl_risk_fraction = fst (snd x), pl_sizing_multiplier = snd (snd x), pl_asset_context = lp_asset_context p, pl_blocked = False,
     pl_block_reason = fst x, pl_force_liquidation = True,
     cp_routing_flags = snd (apply_force_liquidation_routing t (lp_routing_params p, lp_routing_flags p)), cp_window = lp_window p,
     cp_cancel_pending_orders = True, cp_force_liquidation_reason = lt_transition_reason t\<rparr>"
  unfolding plan_leg_def Let_def assms option.case by simp

lemma forced_plan:
  assumes "map_of (vw_targets vw) sid = Some t"
  shows "map_option sig_action (pl_signal (plan_leg vw sid p)) = Some EXIT" "\<not> pl_blocked (plan_leg vw sid p)"
    "pl_force_liquidation (plan_leg vw sid p)" "cp_cancel_pending_orders (plan_leg vw sid p)"
    "map_of (cp_routing_flags (plan_leg vw sid p)) ''force_terminal_liquidation'' = Some (Flag True)"
proof -
  from forced_eq [OF assms, of p] obtain x where x: "plan_leg vw sid p = \<lparr>pl_strategy_id = sid,
     pl_signal = Some (build_forced_exit_signal t (case latest_bar (lp_window p) of None \<Rightarrow> 0 | Some bar \<Rightarrow> bar_close bar) (vw_now vw)),
     pl_routing_params = fst (apply_force_liquidation_routing t (lp_routing_params p, lp_routing_flags p)),
     pl_risk_fraction = fst (snd x), pl_sizing_multiplier = snd (snd x), pl_asset_context = lp_asset_context p, pl_blocked = False,
     pl_block_reason = fst x, pl_force_liquidation = True,
     cp_routing_flags = snd (apply_force_liquidation_routing t (lp_routing_params p, lp_routing_flags p)), cp_window = lp_window p,
     cp_cancel_pending_orders = True, cp_force_liquidation_reason = lt_transition_reason t\<rparr>" ..
  show "map_option sig_action (pl_signal (plan_leg vw sid p)) = Some EXIT" "\<not> pl_blocked (plan_leg vw sid p)"
    "pl_force_liquidation (plan_leg vw sid p)" "cp_cancel_pending_orders (plan_leg vw sid p)"
    "map_of (cp_routing_flags (plan_leg vw sid p)) ''force_terminal_liquidation'' = Some (Flag True)"
    unfolding x by (simp_all add: build_forced_exit_signal_def apply_force_liquidation_routing_def set_param_def set_number_def split_beta Let_def)
qed

text \<open>
  C27: A position held to its limit is liquidated. When a leg with a plan this cycle has a registered
  position, of positive value, whose age has reached the holding limit, then its plan is an
  unblocked exit that cancels the pending orders and forces the terminal liquidation, whatever the
  leg asked for and whatever the exposure, conflict and macro gates say.
\<close>

theorem overdue_position_is_liquidated:
  assumes "co_cycle_id co \<noteq> []" "cfg \<in> set cfgs" "map_of (co_pending co) (strategy_id cfg) = Some pay"
    "map_of (pos_by_symbol positions) (str_upper (strat_symbol cfg)) = Some q" "0 < position_notional q"
    "find_row ir_key (strategy_id cfg, str_upper (strat_symbol cfg)) (co_registry co) = Some r"
    "pb_max_holding_days (co_brain co) \<le> ce_today env - ir_opened_session_date r + 1"
  shows "\<exists>plan. map_of (cy_plans (snd (coordinate_cycle env cfgs acct positions winner cap macro co))) (strategy_id cfg) = Some plan \<and>
    map_option sig_action (pl_signal plan) = Some EXIT \<and> \<not> pl_blocked plan \<and> pl_force_liquidation plan \<and>
    cp_cancel_pending_orders plan \<and> map_of (cp_routing_flags plan) ''force_terminal_liquidation'' = Some (Flag True)"
proof -
  let ?br = "fst (run_brain env cfgs acct positions winner cap co)"
  let ?y = "str_upper (strat_symbol cfg)"
  obtain r' where r': "find_row ir_key (strategy_id cfg, ?y) (br_registry ?br) = Some r'"
    "ir_opened_session_date r' = ir_opened_session_date r"
    using register_all_keeps_opened [OF assms(6)] assms(4)
    by (simp add: run_brain_parts(5) sync_shape forget_keeps_held) blast
  obtain b where b: "pb_max_holding_days b = pb_max_holding_days (co_brain co)"
    "br_verdict ?br = snd (check_inventory_path_dependency
       (build_active_positions_manifest (ce_today env) cfgs positions (br_registry ?br) (co_pending co)) (acct_equity acct) b)"
    using run_brain_parts(6) by blast
  obtain m where m: "m \<in> set (build_active_positions_manifest (ce_today env) cfgs positions (br_registry ?br) (co_pending co))"
    "mf_strategy_id m = strategy_id cfg" "mf_side m = position_direction q" "mf_notional m = position_notional q"
    "mf_calendar_days_held m = max 1 (ce_today env - ir_opened_session_date r + 1)"
    using assms(2,4) r' by (force simp: build_active_positions_manifest_def Let_def calendar_days_between_def)
  have "is_multiday m" using m(3-5) assms(5)
    by (simp add: is_multiday_def position_direction_def MIN_MULTIDAY_CALENDAR_DAYS_def)
  moreover have "overdue b m" using m(5) assms(7) b(1) by (simp add: overdue_def)
  ultimately obtain t where "map_of (force_liquidation_map (br_verdict ?br)) (strategy_id cfg) = Some t"
    using overdue_is_target [OF m(1)] m(2) b(2) by metis
  then have "map_of (vw_targets (cycle_view_of env macro (run_brain env cfgs acct positions winner cap co))) (strategy_id cfg) = Some t" by (simp add: cycle_view_of_def split_beta)
  note fp = forced_plan [OF this, of pay]
  have "cycle_start env acct co = co" using assms(1) by (simp add: cycle_start_def)
  then have "map_of (cy_plans (snd (coordinate_cycle env cfgs acct positions winner cap macro co))) (strategy_id cfg) =
      Some (plan_leg (cycle_view_of env macro (run_brain env cfgs acct positions winner cap co)) (strategy_id cfg) pay)"
    using assms(3) by (simp add: coordinate_cycle_def Let_def split_beta map_of_map_keyed)
  with fp show ?thesis by blast
qed

section \<open>Sizes\<close>

lemma dict_get_uniform:
  "dict_get (map (\<lambda>(k, m). (k, m * c)) (dict_of_keys ks v)) sid x = (if sid \<in> set ks then v * c else x)"
  "dict_get (dict_of_keys ks v) sid x = (if sid \<in> set ks then v else x)"
  by (simp_all add: dict_get_def dict_of_keys_def map_of_map_restrict restrict_map_def comp_def)

lemma exposure_scale_unit:
  assumes "0 \<le> cap"
  shows "0 \<le> dict_get (ev_sizing_multipliers (apply_gross_cap cap (snd (validate_global_exposure ps eq b)))) sid 1 \<and>
         dict_get (ev_sizing_multipliers (apply_gross_cap cap (snd (validate_global_exposure ps eq b)))) sid 1 \<le> 1"
  using assms by (simp add: apply_gross_cap_def Let_def exposure_all_or_nothing dict_get_uniform)

lemma plan_size:
  "pl_sizing_multiplier (plan_leg vw sid p) =
     (if pl_blocked (plan_leg vw sid p) then 0
      else dict_get (cr_scale_multipliers (vw_conflicts vw)) sid 1 * dict_get (ev_sizing_multipliers (vw_exposure vw)) sid 1)"
  "pl_risk_fraction (plan_leg vw sid p) =
     dict_get (vw_budgets vw) sid (lp_base_risk_fraction p) * max (pl_sizing_multiplier (plan_leg vw sid p)) 0"
  by (simp_all add: plan_leg_def Let_def)

text \<open>Whatever the gates decide, a plan never sizes a leg above its budget, and a blocked plan sizes it to zero.\<close>

lemma planned_size_within_budget:
  assumes "map_of (cy_plans (snd (coordinate_cycle env cfgs acct positions winner cap macro co))) sid = Some plan" "0 \<le> cap"
  shows "0 \<le> pl_sizing_multiplier plan" "pl_sizing_multiplier plan \<le> 1"
    "pl_blocked plan \<Longrightarrow> pl_sizing_multiplier plan = 0 \<and> pl_risk_fraction plan = 0"
proof -
  let ?r = "run_brain env cfgs acct positions winner cap co"
  obtain p where plan: "plan = plan_leg (cycle_view_of env macro ?r) sid p"
    using cycle_plan(2) [OF assms(1)] by blast
  obtain b where "br_conflicts (fst ?r) = snd (resolve_signal_conflicts (ce_fmt3 env) (br_signals (fst ?r)) (br_metrics (fst ?r))
                 (symbol_correlation_map (co_pending co)) b)"
    using run_brain_parts(3) by blast
  then have one: "dict_get (cr_scale_multipliers (br_conflicts (fst ?r))) sid 1 = 1"
    by (auto simp: resolve_signal_conflicts_def Let_def dict_get_def map_of_map_keyed [of "\<lambda>_ _. 1"] split: option.splits)
  have "0 \<le> dict_get (ev_sizing_multipliers (snd ?r)) sid 1 \<and> dict_get (ev_sizing_multipliers (snd ?r)) sid 1 \<le> 1"
    using exposure_scale_unit [OF assms(2)] by (simp add: run_brain_def Let_def split_beta)
  then show "0 \<le> pl_sizing_multiplier plan" "pl_sizing_multiplier plan \<le> 1"
    using one by (simp_all add: plan plan_size cycle_view_of_def split_beta)
  show "pl_blocked plan \<Longrightarrow> pl_sizing_multiplier plan = 0 \<and> pl_risk_fraction plan = 0"
    by (simp add: plan plan_size)
qed

text \<open>
  The direction of a registered position is read off the sign of its quantity. The broker adapter
  reports quantities without sign, so a short is registered, aged and capped as a long.
\<close>

lemma reported_short_counts_long:
  "pos_qty p \<noteq> 0 \<Longrightarrow> position_direction (p\<lparr>pos_side := ''short'', pos_qty := \<bar>pos_qty p\<bar>\<rparr>) = ''long''"
  by (simp add: position_direction_def)

text \<open>A plan that is not forced passes a leg's exit on unchanged and unblocked.\<close>

lemma exit_passes:
  assumes "dict_ok (co_pending co)" "co_cycle_id co \<noteq> []" "map_of (co_pending co) sid = Some p" "\<not> signal_enters (lp_signal p)"
    "map_of (force_liquidation_map (br_verdict (fst (run_brain env cfgs acct positions winner cap co)))) sid = None"
  shows "map_option pl_signal (map_of (cy_plans (snd (coordinate_cycle env cfgs acct positions winner cap macro co))) sid) = Some (lp_signal p)"
proof -
  let ?r = "run_brain env cfgs acct positions winner cap co"
  let ?active = "map (\<lambda>(sid, p). (sid, lp_signal p)) (co_pending co)"
  have "dict_ok ?active" using assms(1) by (simp add: comp_def split_beta)
  then have ok: "dict_ok (br_signals (fst ?r))" by (simp add: run_brain_parts(1) lockout_dict_ok)
  have "\<not> locked_out v (lp_signal p)" for v using assms(4) by (simp add: locked_out_def signal_enters_def split: option.splits)
  then have sig: "map_of (br_signals (fst ?r)) sid = Some (lp_signal p)"
    using assms(3) by (simp add: run_brain_parts(1) lockout_lookup map_of_map_keyed [of "\<lambda>_. lp_signal"])
  then have "entry_of (br_signals (fst ?r)) sid = None"
    using assms(4) by (auto simp: entry_of_def signal_enters_def split: option.splits)
  moreover obtain b where "br_conflicts (fst ?r) = snd (resolve_signal_conflicts (ce_fmt3 env) (br_signals (fst ?r)) (br_metrics (fst ?r))
                 (symbol_correlation_map (co_pending co)) b)"
    using run_brain_parts(3) by blast
  ultimately have "dict_get (cr_approved_signals (br_conflicts (fst ?r))) sid None = lp_signal p"
    using only_entries_are_withheld [OF ok] sig by (simp add: dict_get_def)
  then have "pl_signal (plan_leg (cycle_view_of env macro ?r) sid p) = lp_signal p"
    using assms(4,5) by (simp add: plan_leg_def Let_def cycle_view_of_def split_beta)
  then show ?thesis
    using assms(2,3) by (simp add: coordinate_cycle_def Let_def split_beta cycle_start_def map_of_map_keyed)
qed

section \<open>A sample cycle\<close>

definition sample_signal :: "string \<Rightarrow> signal_action \<Rightarrow> string \<Rightarrow> signal" where
  "sample_signal symbol act sid =
     \<lparr>sig_symbol = symbol, sig_action = act, sig_price = 100, sig_timestamp = 0, sig_strategy_id = sid\<rparr>"

definition sample_payload :: "string \<Rightarrow> string \<Rightarrow> signal_action \<Rightarrow> unit leg_payload" where
  "sample_payload sid symbol act =
     \<lparr>lp_strategy_id = sid, lp_symbol = symbol, lp_signal = Some (sample_signal symbol act sid), lp_routing_params = [],
      lp_routing_flags = [], lp_base_risk_fraction = 1, lp_window = sample_window, lp_enabled = True, lp_health_score = 1,
      lp_champion_score = 0, lp_asset_context = None, lp_bars_in_trade = 0, lp_position_side = ''flat''\<rparr>"

definition sample_configs :: "strategy_config list" where
  "sample_configs =
     [\<lparr>strategy_id = QQQ_STRATEGY_ID, strat_symbol = ''QQQ'', enabled = True\<rparr>,
      \<lparr>strategy_id = SPY_STRATEGY_ID, strat_symbol = ''SPY'', enabled = True\<rparr>,
      \<lparr>strategy_id = ''spy2'', strat_symbol = ''SPY'', enabled = True\<rparr>]"

definition sample_env :: cycle_env where
  "sample_env = \<lparr>ce_now = 0, ce_today = 10, ce_new_cycle_id = ''c1'', ce_writer_running = True,
     ce_leg_realized_pnl = (\<lambda>_. 0), ce_promotion_pnls = (\<lambda>_ _. []), ce_fmt3 = (\<lambda>_. [])\<rparr>"

definition sample_account :: account where
  "sample_account = \<lparr>acct_equity = 1000, acct_cash = 1000, acct_buying_power = 1000\<rparr>"

definition sample_coordinator :: "unit coordinator" where
  "sample_coordinator =
     register_leg_evaluation (sample_payload ''spy2'' ''SPY'' LONG)
       (register_leg_evaluation (sample_payload SPY_STRATEGY_ID ''SPY'' LONG)
         (register_leg_evaluation (sample_payload QQQ_STRATEGY_ID ''QQQ'' LONG)
           (begin_portfolio_cycle ''c1'' sample_account (new_coordinator None True []))))"

definition sample_cycle_metrics :: "(string, leg_metrics) dict" where
  "sample_cycle_metrics =
     (let m = (\<lambda>sid symbol. \<lparr>lm_strategy_id = sid, lm_symbol = symbol, lm_realized_vol = VOL_FLOOR,
        lm_drawdown_contribution = 0, lm_marginal_sharpe = 25 / 100, lm_notional_exposure = 0, lm_health_score = 1,
        lm_champion_score = 0, lm_enabled = True\<rparr>)
      in [(QQQ_STRATEGY_ID, m QQQ_STRATEGY_ID ''QQQ''), (SPY_STRATEGY_ID, m SPY_STRATEGY_ID ''SPY''), (''spy2'', m ''spy2'' ''SPY'')])"

definition sample_proposed :: "proposed_position list" where
  "sample_proposed = [propose QQQ_STRATEGY_ID ''QQQ'' ''long'' (950 / 3), propose SPY_STRATEGY_ID ''SPY'' ''long'' (950 / 3),
     propose ''spy2'' ''SPY'' ''long'' (950 / 3)]"

definition sample_run :: brain_run where
  "sample_run = govern_signals sample_env sample_configs sample_account [] None sample_cycle_metrics
     [((''QQQ'', ''SPY''), 0), ((''SPY'', ''QQQ''), 0)] sample_coordinator"

lemma sample_pending:
  "co_pending sample_coordinator =
     [(QQQ_STRATEGY_ID, sample_payload QQQ_STRATEGY_ID ''QQQ'' LONG), (SPY_STRATEGY_ID, sample_payload SPY_STRATEGY_ID ''SPY'' LONG),
      (''spy2'', sample_payload ''spy2'' ''SPY'' LONG)]"
  by (simp add: sample_coordinator_def register_leg_evaluation_def begin_portfolio_cycle_def sample_payload_def QQQ_STRATEGY_ID_def
      SPY_STRATEGY_ID_def)

lemma sample_closes: "closes_array sample_window = []"
  by code_simp

lemma no_vol: "annualized_vol_from_closes [] n = VOL_FLOOR" "compute_return_correlation [] [] 60 = 0"
  by (simp_all add: annualized_vol_from_closes_def compute_return_correlation_def)

lemma sample_metrics_are: "build_leg_metrics sample_env sample_configs [] sample_coordinator = sample_cycle_metrics"
  by (simp add: build_leg_metrics_def leg_metrics_of_def Let_def sample_configs_def sample_pending sample_env_def leg_stress_def
      marginal_sharpe_def pos_by_symbol_def sample_cycle_metrics_def sample_payload_def sample_closes no_vol
      QQQ_STRATEGY_ID_def SPY_STRATEGY_ID_def str_upper_def chr_upper_def)

lemma sample_cor_is:
  "symbol_correlation_map (co_pending sample_coordinator) = [((''QQQ'', ''SPY''), 0), ((''SPY'', ''QQQ''), 0)]"
proof -
  have "symbol_closes (co_pending sample_coordinator) = [(''QQQ'', []), (''SPY'', [])]"
    by code_simp
  moreover have "later_pairs (sort [''QQQ'', ''SPY'']) = [(''QQQ'', ''SPY'')]" by code_simp
  ultimately show ?thesis by (simp add: symbol_correlation_map_def Let_def no_vol dict_get_def)
qed

lemma sample_run_facts:
  "cr_approved_signals (br_conflicts sample_run) = map (\<lambda>(sid, p). (sid, lp_signal p)) (co_pending sample_coordinator)"
  "cr_blocked_strategy_ids (br_conflicts sample_run) = {}"
  "br_lock_reasons sample_run = []" "force_liquidation_map (br_verdict sample_run) = []"
  "estimate_proposed_positions (cr_approved_signals (br_conflicts sample_run)) [] (br_metrics sample_run) 1000
     (br_brain sample_run) = sample_proposed"
  by code_simp+

lemma sample_factors: "symbol_factors ''QQQ'' = (115 / 100, - 20 / 100, 30 / 100)" "symbol_factors ''SPY'' = (1, 0, 5 / 100)"
  by code_simp+

lemma sample_crowding: "factor_crowding_of sample_proposed \<le> MAX_FACTOR_CROWDING"
proof -
  have "1 / 10 \<le> sqrt x" if "1 / 100 \<le> x" for x :: real using that by (intro real_le_rsqrt) (simp add: power2_eq_square)
  from this [of "1 / 18"] this [of "1 / 72"] have "1 / 10 \<le> sqrt (1 / 18)" "1 / 10 \<le> sqrt (1 / 72)" by simp_all
  then have "max 0 (min 1 (1 - (sqrt (1 / 18) / 3 + 2 * sqrt (1 / 72) / 3))) * 10 \<le> 9" by (simp add: max_def min_def)
  then show ?thesis
    by (simp add: factor_crowding_of_def sample_proposed_def propose_def sample_factors Let_def vec_add_def vec_scale_def
        vec_dist_def MAX_FACTOR_CROWDING_def power2_eq_square)
qed

lemma sample_exposure: "ev_allowed (snd (validate_global_exposure sample_proposed (Some 1000) b))"
proof -
  let ?beta = "sum_list (map (\<lambda>p. signed_notional p * pp_beta p) (filter counts_position sample_proposed))"
  let ?gross = "sum_list (map (\<lambda>p. \<bar>pp_notional p\<bar>) (filter counts_position sample_proposed))"
  have f: "filter counts_position sample_proposed = sample_proposed" by code_simp
  have "\<not> MAX_NET_BETA_EXPOSURE < \<bar>?beta / 1000\<bar>" "\<not> MAX_GROSS_EXPOSURE_RATIO < ?gross / 1000"
    "\<not> MAX_SECTOR_CONCENTRATION < sector_concentration_of sample_proposed" by code_simp+
  then show ?thesis using sample_crowding
    by (simp add: validate_global_exposure_def Let_def breach_codes_of_def or_num_def f not_less)
qed

lemma sample_plans:
  assumes "map_of (co_pending sample_coordinator) sid = Some p"
  shows "\<exists>plan. map_of (cy_plans (snd (coordinate_cycle sample_env sample_configs sample_account [] None 1 False sample_coordinator)))
      sid = Some plan \<and> pl_signal plan = lp_signal p"
proof -
  let ?r = "run_brain sample_env sample_configs sample_account [] None 1 sample_coordinator"
  have start: "cycle_start sample_env sample_account sample_coordinator = sample_coordinator"
    by (simp add: cycle_start_def sample_coordinator_def register_leg_evaluation_def begin_portfolio_cycle_def)
  have eq: "acct_equity sample_account = 1000" by (simp add: sample_account_def)
  have br: "br_conflicts (fst ?r) = br_conflicts sample_run" "br_lock_reasons (fst ?r) = br_lock_reasons sample_run"
    "br_verdict (fst ?r) = br_verdict sample_run" "ev_allowed (snd ?r)"
    using sample_exposure
    by (simp_all add: run_brain_def Let_def split_beta sample_metrics_are sample_cor_is sample_run_def [symmetric] eq
        sample_run_facts(5) apply_gross_cap_def)
  obtain g where g: "lp_signal p = Some g"
    using assms by (auto simp: sample_pending sample_payload_def split: if_splits)
  have "dict_get (cr_approved_signals (br_conflicts sample_run)) sid None = Some g"
    using assms g by (simp add: sample_run_facts(1) dict_get_def map_of_map_keyed [of "\<lambda>_. lp_signal"])
  then have "pl_signal (plan_leg (cycle_view_of sample_env False ?r) sid p) = Some g"
    using br by (intro plan_cleared) (simp_all add: cycle_view_of_def split_beta sample_run_facts(2-4))
  then show ?thesis
    using assms g by (simp add: coordinate_cycle_def Let_def split_beta start map_of_map_keyed)
qed

theorem planned_entry_is_cleared_witness:
  "\<exists>plan. map_of (cy_plans (snd (coordinate_cycle sample_env sample_configs sample_account [] None 1 False sample_coordinator)))
      ''spy2'' = Some plan \<and> \<not> pl_blocked plan \<and>
    cy_exposure_allowed (snd (coordinate_cycle sample_env sample_configs sample_account [] None 1 False sample_coordinator))"
proof -
  have ok: "dict_ok (co_pending sample_coordinator)" by code_simp
  obtain plan where plan: "map_of (cy_plans (snd (coordinate_cycle sample_env sample_configs sample_account [] None 1 False
      sample_coordinator))) ''spy2'' = Some plan" and g: "pl_signal plan = Some (sample_signal ''SPY'' LONG ''spy2'')"
    using sample_plans [of "''spy2''"] by (auto simp: sample_pending sample_payload_def QQQ_STRATEGY_ID_def SPY_STRATEGY_ID_def)
  have "is_entry_action (sig_action (sample_signal ''SPY'' LONG ''spy2''))"
    by (simp add: sample_signal_def is_entry_action_def)
  from planned_entry_is_cleared [OF ok plan g this] plan show ?thesis by blast
qed

theorem planned_entries_never_oppose_witness:
  "\<exists>p1 p2. map_of (cy_plans (snd (coordinate_cycle sample_env sample_configs sample_account [] None 1 False sample_coordinator)))
      SPY_STRATEGY_ID = Some p1 \<and>
    map_of (cy_plans (snd (coordinate_cycle sample_env sample_configs sample_account [] None 1 False sample_coordinator)))
      ''spy2'' = Some p2 \<and>
    sig_action (sample_signal ''SPY'' LONG SPY_STRATEGY_ID) = sig_action (sample_signal ''SPY'' LONG ''spy2'')"
proof -
  have ok: "dict_ok (co_pending sample_coordinator)" by code_simp
  obtain p1 where p1: "map_of (cy_plans (snd (coordinate_cycle sample_env sample_configs sample_account [] None 1 False
      sample_coordinator))) SPY_STRATEGY_ID = Some p1" "pl_signal p1 = Some (sample_signal ''SPY'' LONG SPY_STRATEGY_ID)"
    using sample_plans [of SPY_STRATEGY_ID] by (auto simp: sample_pending sample_payload_def QQQ_STRATEGY_ID_def SPY_STRATEGY_ID_def)
  obtain p2 where p2: "map_of (cy_plans (snd (coordinate_cycle sample_env sample_configs sample_account [] None 1 False
      sample_coordinator))) ''spy2'' = Some p2" "pl_signal p2 = Some (sample_signal ''SPY'' LONG ''spy2'')"
    using sample_plans [of "''spy2''"] by (auto simp: sample_pending sample_payload_def QQQ_STRATEGY_ID_def SPY_STRATEGY_ID_def)
  have entry: "is_entry_action (sig_action (sample_signal ''SPY'' LONG x))" for x
    by (simp add: sample_signal_def is_entry_action_def)
  have same: "str_upper (sig_symbol (sample_signal ''SPY'' LONG SPY_STRATEGY_ID)) = str_upper (sig_symbol (sample_signal ''SPY'' LONG ''spy2''))"
    by (simp add: sample_signal_def)
  from planned_entries_never_oppose [OF ok p1(1) p2(1) p1(2) entry p2(2) entry disjI1 [OF same]] p1(1) p2(1)
  show ?thesis by blast
qed

definition sample_position :: position where
  "sample_position = \<lparr>pos_symbol = ''SPY'', pos_qty = 5, pos_side = ''long'', pos_avg_entry_price = 100, pos_unrealized_pl = 0\<rparr>"

definition sample_inventory :: "inventory_row list" where
  "sample_inventory = [\<lparr>ir_strategy_id = ''spy2'', ir_symbol = ''SPY'', ir_side = ''long'', ir_opened_session_date = 3,
     ir_last_seen_at = 9, ir_net_directional_exposure = 500\<rparr>]"

theorem opening_day_kept_while_held_witness:
  "map_option ir_opened_session_date (find_row ir_key (''spy2'', ''SPY'')
     (sync_inventory_registry 10 sample_configs [sample_position] sample_inventory)) = Some 3 \<and>
   find_row ir_key (''spy2'', ''SPY'') (sync_inventory_registry 10 sample_configs [] sample_inventory) = None"
proof -
  let ?c = "sample_configs ! 2"
  have "find_row ir_key (''spy2'', ''SPY'') sample_inventory = Some (hd sample_inventory)"
    "map_of (pos_by_symbol [sample_position]) ''SPY'' \<noteq> None" "ir_opened_session_date (hd sample_inventory) = 3"
    "?c \<in> set sample_configs" "map_of (pos_by_symbol []) (str_upper (strat_symbol ?c)) = None"
    "strategy_id ?c = ''spy2''" "str_upper (strat_symbol ?c) = ''SPY''" by code_simp+
  then show ?thesis
    using opening_day_kept_while_held [of "''spy2''" "''SPY''" sample_inventory "hd sample_inventory" "[sample_position]" 10 sample_configs ?c]
      opening_day_kept_while_held [of "''spy2''" "''SPY''" sample_inventory "hd sample_inventory" "[]" 10 sample_configs ?c] by simp
qed

theorem overdue_position_is_liquidated_witness:
  "\<exists>plan. map_of (cy_plans (snd (coordinate_cycle sample_env sample_configs sample_account [sample_position] None 1 True
      (sample_coordinator\<lparr>co_registry := sample_inventory\<rparr>)))) ''spy2'' = Some plan \<and>
    map_option sig_action (pl_signal plan) = Some EXIT"
proof -
  let ?c = "sample_configs ! 2" and ?co = "sample_coordinator\<lparr>co_registry := sample_inventory\<rparr>"
  have "co_cycle_id ?co \<noteq> []" "?c \<in> set sample_configs"
    "map_of (co_pending ?co) (strategy_id ?c) = Some (sample_payload ''spy2'' ''SPY'' LONG)"
    "map_of (pos_by_symbol [sample_position]) (str_upper (strat_symbol ?c)) = Some sample_position"
    "0 < position_notional sample_position"
    "find_row ir_key (strategy_id ?c, str_upper (strat_symbol ?c)) (co_registry ?co) = Some (hd sample_inventory)"
    "pb_max_holding_days (co_brain ?co) \<le> ce_today sample_env - ir_opened_session_date (hd sample_inventory) + 1"
    "strategy_id ?c = ''spy2''" by code_simp+
  from overdue_position_is_liquidated [OF this(1-7), of sample_account None 1 True] this(8) show ?thesis by auto
qed

end
