(* ===== verification/Policy_Lifecycle.thy ===== *)
theory Policy_Lifecycle
  imports Portfolio_Risk
begin

text \<open>
  The lifecycle of the AI policy (\<open>src/engine/policy_lifecycle.py\<close>): the sieve a challenger passes
  to get probation, the checks it stays under, the gates to sovereignty, staged rollback, demotion
  on a macro velocity shock and recovery from it. The vault functions of the absent module
  \<open>persistence.db\<close> and of the risk manager are the fields of \<open>policy_env\<close>; what is relied on of
  them is the locale \<open>policy_store\<close>. The ledgers the checks read are lists of rows, \<open>None\<close> when the
  query fails; timestamps are instants. Diagnostic details of the windows and the metadata of
  journal entries are left out.
\<close>

section \<open>Constants and data\<close>

datatype ai_state = PASSIVE | PROBATIONAL | SOVEREIGN | OTHER string

definition valid_state :: "ai_state \<Rightarrow> bool" where
  "valid_state st = (st \<in> {PASSIVE, PROBATIONAL, SOVEREIGN})"

definition LOOKBACK_30D :: int where "LOOKBACK_30D = 30"
definition LOOKBACK_60D :: int where "LOOKBACK_60D = 60"
definition MIN_STRATUM_SAMPLES :: nat where "MIN_STRATUM_SAMPLES = 3"
definition MIN_REGIME_BUCKETS_PASS :: nat where "MIN_REGIME_BUCKETS_PASS = 2"
definition MIN_SESSION_BUCKETS_PASS :: nat where "MIN_SESSION_BUCKETS_PASS = 2"
definition PROBATION_EDGE_DECAY_RATIO :: pyfloat where "PROBATION_EDGE_DECAY_RATIO = 85 / 100"
definition PROBATION_EDGE_DECAY_STREAK :: nat where "PROBATION_EDGE_DECAY_STREAK = 3"
definition PROBATION_ATTRIBUTION_LOOKBACK_DAYS :: pyfloat where "PROBATION_ATTRIBUTION_LOOKBACK_DAYS = 14"
definition DEFAULT_ATTRIBUTION_MAX_DRAWDOWN_PCT :: pyfloat where "DEFAULT_ATTRIBUTION_MAX_DRAWDOWN_PCT = 8 / 100"
definition PROBATION_MIN_LIVE_SHARPE :: pyfloat where "PROBATION_MIN_LIVE_SHARPE = 0"
definition PROBATION_MIN_ATTRIBUTION_TRADES :: nat where "PROBATION_MIN_ATTRIBUTION_TRADES = 5"
definition SOVEREIGN_MIN_VERIFIED_TRADING_DAYS :: nat where "SOVEREIGN_MIN_VERIFIED_TRADING_DAYS = 10"
definition SOVEREIGN_MIN_FILLED_TRADES :: nat where "SOVEREIGN_MIN_FILLED_TRADES = 25"
definition SOVEREIGN_MAX_AVG_SLIPPAGE_PCT :: pyfloat where "SOVEREIGN_MAX_AVG_SLIPPAGE_PCT = 15 / 10000"
definition SOVEREIGN_MIN_FILL_QUALITY_SCORE :: pyfloat where "SOVEREIGN_MIN_FILL_QUALITY_SCORE = 70 / 100"
definition SOVEREIGN_MIN_EDGE_VS_RULES :: pyfloat where "SOVEREIGN_MIN_EDGE_VS_RULES = 2 / 100"
definition CATASTROPHIC_HIT_RATE_FLOOR :: pyfloat where "CATASTROPHIC_HIT_RATE_FLOOR = 30 / 100"
definition SHOCK_RECOVERY_MIN_DUAL_SHADOW_SAMPLES :: nat where "SHOCK_RECOVERY_MIN_DUAL_SHADOW_SAMPLES = 5"
definition SHOCK_RECOVERY_SHADOW_LOOKBACK_DAYS :: int where "SHOCK_RECOVERY_SHADOW_LOOKBACK_DAYS = 14"
definition EVICTION_LOCKOUT_DAYS :: int where "EVICTION_LOCKOUT_DAYS = 14"

datatype rollback_tier = TierNone | SOVEREIGN_TO_PROBATIONAL | PROBATIONAL_TO_PASSIVE | CATASTROPHIC_EVICTION
  | VELOCITY_SHOCK_DEMOTION

definition days :: "int \<Rightarrow> instant" where
  "days n = seconds (n * 86400)"

definition day_of :: "instant \<Rightarrow> int" where
  "day_of t = t div days 1"

record attribution_row =
  at_timestamp :: instant
  at_strategy_id :: string
  at_symbol :: string
  at_pnl :: pyfloat
  at_slippage_pct :: pyfloat
  at_regime_id :: string
  at_session_type :: string

record shadow_row =
  sh_timestamp :: instant
  sh_symbol :: string
  sh_shadow_action_taken :: string
  sh_realized_reward_24h :: "pyfloat option"
  sh_rules_engine_action :: string

record dual_row =
  du_timestamp :: instant
  du_symbol :: string
  du_challenger_pnl :: "pyfloat option"
  du_rules_baseline_pnl :: "pyfloat option"

record health_row =
  hl_timestamp :: instant
  hl_strategy_id :: string
  hl_new_status :: string

record policy_ledgers =
  pd_attribution :: "attribution_row list option"
  pd_shadow :: "shadow_row list option"
  pd_dual :: "dual_row list option"
  pd_health :: "health_row list option"

record stratified_window =
  sw_lookback_days :: int
  sw_challenger_return :: pyfloat
  sw_rules_return :: pyfloat
  sw_challenger_sharpe :: pyfloat
  sw_rules_sharpe :: pyfloat
  sw_sample_count :: nat
  sw_regime_buckets_passed :: nat
  sw_session_buckets_passed :: nat

record edge_verdict =
  ed_maintains_edge :: bool
  ed_directive :: string
  ed_challenger_edge :: pyfloat
  ed_rules_edge :: pyfloat
  ed_edge_ratio :: pyfloat
  ed_decay_streak :: nat
  ed_reason :: string

record sovereign_verdict =
  sv_approved :: bool
  sv_reasons :: "string list"
  sv_verified_trading_days :: nat
  sv_filled_trade_count :: nat
  sv_avg_slippage_pct :: pyfloat
  sv_fill_quality_score :: pyfloat

record attribution_verdict =
  av_breached :: bool
  av_reasons :: "string list"
  av_live_sharpe :: pyfloat
  av_max_drawdown_pct :: pyfloat
  av_trade_count :: nat
  av_drawdown_limit_pct :: pyfloat

record rollback_result =
  rb_prior_state :: ai_state
  rb_new_state :: ai_state
  rb_tier :: rollback_tier
  rb_catastrophic :: bool
  rb_reason :: string
  rb_eviction_lockout_until :: "instant option"
  rb_restored_params :: "(string, string) dict option"
  rb_restored_config_version_id :: "int option"

record recovery_verdict =
  rv_approved :: bool
  rv_reasons :: "string list"
  rv_challenger_edge :: pyfloat
  rv_rules_edge :: pyfloat
  rv_edge_ratio :: pyfloat
  rv_sample_count :: nat

record lifecycle_transition =
  lt_leg :: string
  lt_leg_symbol :: string
  lt_from_state :: ai_state
  lt_to_state :: ai_state
  lt_reason :: string

record stabilization_verdict =
  st_stabilized :: bool
  st_reason :: string

section \<open>The vault\<close>

record policy_row =
  pr_symbol :: string
  pr_execution_state :: ai_state
  pr_probation_started_at :: "instant option"
  pr_probation_clean_trading_days :: nat
  pr_last_anomaly_session :: "int option"
  pr_eviction_lockout_until :: "instant option"
  pr_velocity_shock_prior_state :: "ai_state option"
  pr_velocity_shock_demoted_at :: "instant option"
  pr_updated_at :: instant

text \<open>An argument left at its default \<open>...\<close> keeps what the row has.\<close>

datatype 'a arg = Keep | Set 'a

record policy_upsert =
  pu_strategy_id :: string
  pu_symbol :: string
  pu_execution_state :: ai_state
  pu_probation_started_at :: "instant option"
  pu_probation_clean_trading_days :: nat
  pu_last_anomaly_session :: "int option"
  pu_eviction_lockout_until :: "instant option"
  pu_velocity_shock_prior_state :: "ai_state option arg"
  pu_velocity_shock_demoted_at :: "instant option arg"

record 's policy_env =
  pe_now :: instant
  pe_get :: "string \<Rightarrow> 's \<Rightarrow> policy_row option"
  pe_upsert :: "policy_upsert \<Rightarrow> 's \<Rightarrow> 's"
  pe_count_tuples :: "'s \<Rightarrow> int"
  pe_min_tuples :: int
  pe_is_evicted :: "'s \<Rightarrow> bool"
  pe_mark_evicted :: "string \<Rightarrow> int \<Rightarrow> 's \<Rightarrow> 's"
  pe_mark_failed_attribution :: "string \<Rightarrow> string \<Rightarrow> string \<Rightarrow> 's \<Rightarrow> 's"
  pe_prior_config_backup :: "string \<Rightarrow> 's \<Rightarrow> (int \<times> string) option"
  pe_load_params :: "string \<Rightarrow> (string, string) dict option"
  pe_int_text :: "int \<Rightarrow> string"
  pe_resolve_trading_session :: "instant \<Rightarrow> string"

datatype policy_journal_entry =
  RecoveryRollback string ai_state ai_state "(string, string) dict" string
| AiLifecycleAdjustment string ai_state ai_state string

record 's policy_manager =
  pm_vault :: 's
  pm_edge_decay_streak :: "(string, nat) dict"
  pm_journal :: "policy_journal_entry list"

definition new_policy_manager :: "'s \<Rightarrow> 's policy_manager" where
  "new_policy_manager vault = \<lparr>pm_vault = vault, pm_edge_decay_streak = [], pm_journal = []\<rparr>"

section \<open>Statistics and ledgers\<close>

definition policy_sharpe :: "pyfloat list \<Rightarrow> pyfloat" where
  "policy_sharpe returns =
     (if length returns < 2 then 0 else if np_std returns < 1 / 10 ^ 12 then 0 else np_mean returns / np_std returns)"

definition equity_drawdown_step :: "pyfloat \<times> pyfloat \<times> pyfloat \<Rightarrow> pyfloat \<Rightarrow> pyfloat \<times> pyfloat \<times> pyfloat" where
  "equity_drawdown_step = (\<lambda>(equity, peak, max_dd) pnl.
     let equity' = equity + pnl; peak' = max peak equity'
     in (equity', peak', if 0 < peak' then max max_dd ((peak' - equity') / peak') else max_dd))"

definition max_drawdown_pct :: "pyfloat list \<Rightarrow> pyfloat" where
  "max_drawdown_pct pnls = (if pnls = [] then 0 else snd (snd (foldl equity_drawdown_step (100000, 100000, 0) pnls)))"

definition load_attribution_frame ::
  "instant \<Rightarrow> int \<Rightarrow> string option \<Rightarrow> policy_ledgers \<Rightarrow> attribution_row list" where
  "load_attribution_frame now lookback_days sid pd =
     (case pd_attribution pd of None \<Rightarrow> []
      | Some rows \<Rightarrow>
          let df = filter (\<lambda>r. now - days lookback_days \<le> at_timestamp r) rows
          in if truthy sid then filter (\<lambda>r. Some (at_strategy_id r) = sid) df else df)"

definition load_shadow_frame :: "instant \<Rightarrow> int \<Rightarrow> string option \<Rightarrow> policy_ledgers \<Rightarrow> shadow_row list" where
  "load_shadow_frame now lookback_days symbol pd =
     (case pd_shadow pd of None \<Rightarrow> []
      | Some rows \<Rightarrow>
          let df = filter (\<lambda>r. now - days lookback_days \<le> sh_timestamp r \<and> sh_realized_reward_24h r \<noteq> None) rows
          in if truthy symbol then filter (\<lambda>r. sh_symbol r = str_upper (the symbol)) df else df)"

definition load_dual_policy_shadow_frame :: "instant \<Rightarrow> string \<Rightarrow> instant option \<Rightarrow> policy_ledgers \<Rightarrow> dual_row list" where
  "load_dual_policy_shadow_frame now symbol since pd =
     (let cutoff = (case since of Some t \<Rightarrow> t | None \<Rightarrow> now - days SHOCK_RECOVERY_SHADOW_LOOKBACK_DAYS)
      in case pd_dual pd of None \<Rightarrow> []
         | Some rows \<Rightarrow> filter (\<lambda>r. cutoff \<le> du_timestamp r \<and> du_symbol r = str_upper symbol) rows)"

definition shadow_allocation :: "string \<Rightarrow> pyfloat" where
  "shadow_allocation act = dict_get [(''STAND_DOWN'', 0), (''ALLOCATION_HALF'', 1 / 2), (''ALLOCATION_MAX'', 1)] act (75 / 100)"

definition rules_allocation :: "string \<Rightarrow> pyfloat" where
  "rules_allocation act =
     dict_get [(''NO_TRADE_FALLBACK'', 0), (''DEFENSIVE_FALLBACK'', 25 / 100), (''BASELINE_FALLBACK'', 1 / 2),
       (''UNSAFE_DISABLED'', 0), (''BEAR_DEFENSIVE'', 25 / 100), (''HIGH_VOL_MR'', 1), (''CALM_MR'', 1),
       (''UNKNOWN'', 75 / 100)] act (75 / 100)"

definition challenger_of :: "shadow_row \<Rightarrow> pyfloat \<Rightarrow> pyfloat" where
  "challenger_of r reward = shadow_allocation (sh_shadow_action_taken r) * reward"

definition rules_of :: "shadow_row \<Rightarrow> pyfloat \<Rightarrow> pyfloat" where
  "rules_of r reward = rules_allocation (or_default (sh_rules_engine_action r) ''UNKNOWN'') * reward"

text \<open>The challenger's and the rules' returns of the shadow rows that have a reward.\<close>

definition shadow_returns :: "(shadow_row \<Rightarrow> pyfloat \<Rightarrow> pyfloat) \<Rightarrow> shadow_row list \<Rightarrow> pyfloat list" where
  "shadow_returns f rows =
     concat (map (\<lambda>r. case sh_realized_reward_24h r of None \<Rightarrow> [] | Some x \<Rightarrow> [f r x]) rows)"

section \<open>The stratified window\<close>

definition stratum :: "attribution_row \<Rightarrow> string \<times> string" where
  "stratum r = (at_regime_id r, at_session_type r)"

definition stratum_passed :: "attribution_row list \<Rightarrow> string \<times> string \<Rightarrow> bool" where
  "stratum_passed rows k =
     (let pnls = map at_pnl (filter (\<lambda>r. stratum r = k) rows)
      in MIN_STRATUM_SAMPLES \<le> length pnls \<and> 0 < np_mean pnls)"

definition strata_passed :: "attribution_row list \<Rightarrow> (string \<times> string) list" where
  "strata_passed rows = filter (stratum_passed rows) (remdups (map stratum rows))"

text \<open>
  The loop over the shadow rows: a row's return is added to the challenger's only while that list
  is still empty.
\<close>

definition shadow_step :: "pyfloat list \<times> pyfloat list \<Rightarrow> shadow_row \<Rightarrow> pyfloat list \<times> pyfloat list" where
  "shadow_step = (\<lambda>(ch, ru) r.
     case sh_realized_reward_24h r of
       None \<Rightarrow> (ch, ru)
     | Some x \<Rightarrow> (if ch = [] then [challenger_of r x] else ch, ru @ [rules_of r x]))"

definition shadow_buckets ::
  "(instant \<Rightarrow> string) \<Rightarrow> shadow_row list \<Rightarrow> pyfloat list \<Rightarrow> pyfloat list \<Rightarrow> (string, nat \<times> pyfloat \<times> pyfloat) dict" where
  "shadow_buckets session_of rows ch ru =
     foldl (\<lambda>d (r, c, u). let k = session_of (sh_timestamp r); (n, a, b) = dict_get d k (0, 0, 0)
                          in AList.update k (n + 1, a + c, b + u) d)
       [] (zip rows (zip ch ru))"

definition bucket_passed :: "nat \<times> pyfloat \<times> pyfloat \<Rightarrow> bool" where
  "bucket_passed = (\<lambda>(n, a, b). MIN_STRATUM_SAMPLES \<le> n \<and> b / real n < a / real n)"

definition compute_stratified_window ::
  "(instant \<Rightarrow> string) \<Rightarrow> int \<Rightarrow> attribution_row list \<Rightarrow> shadow_row list \<Rightarrow> stratified_window" where
  "compute_stratified_window session_of lookback_days attribution shadow =
     (let passed = strata_passed attribution;
          (ch, ru) = foldl shadow_step (map at_pnl attribution, []) shadow;
          shadow_sessions = map fst (filter (bucket_passed \<circ> snd) (shadow_buckets session_of shadow ch ru));
          (regimes, sessions) =
            (if attribution = [] \<and> ch \<noteq> []
             then (if shadow_sessions = [] then 0 else 1, length shadow_sessions)
             else (length (remdups (map fst passed)), length (remdups (map snd passed))))
      in \<lparr>sw_lookback_days = lookback_days, sw_challenger_return = sum_list ch, sw_rules_return = sum_list ru,
          sw_challenger_sharpe = policy_sharpe ch, sw_rules_sharpe = policy_sharpe ru,
          sw_sample_count = max (length ch) (length attribution), sw_regime_buckets_passed = regimes,
          sw_session_buckets_passed = sessions\<rparr>)"

section \<open>The gates\<close>

definition window_reasons :: "string \<Rightarrow> stratified_window \<Rightarrow> string list" where
  "window_reasons label w =
     (if sw_sample_count w < MIN_STRATUM_SAMPLES * 2 then [label @ ''_insufficient_samples''] else [])
     @ (if sw_challenger_return w \<le> sw_rules_return w then [label @ ''_underperforms_rules_return''] else [])
     @ (if sw_challenger_sharpe w \<le> sw_rules_sharpe w then [label @ ''_underperforms_rules_sharpe''] else [])
     @ (if sw_regime_buckets_passed w < MIN_REGIME_BUCKETS_PASS then [label @ ''_insufficient_regime_strata''] else [])
     @ (if sw_session_buckets_passed w < MIN_SESSION_BUCKETS_PASS then [label @ ''_insufficient_session_strata''] else [])"

text \<open>The windows may be given, else they are computed from the ledgers of all legs.\<close>

definition evaluate_probation_entry ::
  "'s policy_env \<Rightarrow> policy_ledgers \<Rightarrow> string \<Rightarrow> (stratified_window \<times> stratified_window) option \<Rightarrow> 's \<Rightarrow> bool \<times> string list" where
  "evaluate_probation_entry env pd symbol windows vault =
     (let sym = Some (str_upper symbol);
          win = (\<lambda>n. compute_stratified_window (pe_resolve_trading_session env) n
                       (load_attribution_frame (pe_now env) n None pd) (load_shadow_frame (pe_now env) n sym pd));
          (w30, w60) = (case windows of Some ws \<Rightarrow> ws | None \<Rightarrow> (win LOOKBACK_30D, win LOOKBACK_60D));
          reasons = (if pe_count_tuples env vault < pe_min_tuples env then [''insufficient_shadow_ledger_tuples''] else [])
                    @ (if pe_is_evicted env vault then [''model_eviction_lockout_active''] else [])
                    @ window_reasons ''30d'' w30 @ window_reasons ''60d'' w60
      in (reasons = [], reasons))"

definition edge_ratio_of :: "pyfloat \<Rightarrow> pyfloat \<Rightarrow> pyfloat" where
  "edge_ratio_of challenger rules =
     (if 0 < rules then challenger / max rules (1 / 10 ^ 9) else if 0 \<le> challenger then 1 else 0)"

definition mean_or_zero :: "pyfloat list \<Rightarrow> pyfloat" where
  "mean_or_zero xs = (if xs = [] then 0 else np_mean xs)"

definition evaluate_probation_edge ::
  "'s policy_env \<Rightarrow> policy_ledgers \<Rightarrow> string \<Rightarrow> string \<Rightarrow> 's policy_manager \<Rightarrow> 's policy_manager \<times> edge_verdict" where
  "evaluate_probation_edge env pd sid0 symbol m =
     (let sid = or_default sid0 ''global'';
          rows = load_shadow_frame (pe_now env) 14 (Some (str_upper symbol)) pd
      in if rows = []
         then (m, \<lparr>ed_maintains_edge = True, ed_directive = ''NONE'', ed_challenger_edge = 0, ed_rules_edge = 0,
                   ed_edge_ratio = 1, ed_decay_streak = 0, ed_reason = ''insufficient_recent_shadow_sample''\<rparr>)
         else
           let ch = mean_or_zero (shadow_returns challenger_of rows);
               ru = mean_or_zero (shadow_returns rules_of rows);
               ratio = edge_ratio_of ch ru;
               maintains = (PROBATION_EDGE_DECAY_RATIO \<le> ratio \<and> ru \<le> ch);
               streak = (if maintains then 0 else dict_get (pm_edge_decay_streak m) sid 0 + 1);
               degrade = (PROBATION_EDGE_DECAY_STREAK \<le> streak)
           in (m\<lparr>pm_edge_decay_streak := AList.update sid streak (pm_edge_decay_streak m)\<rparr>,
               \<lparr>ed_maintains_edge = maintains, ed_directive = (if degrade then ''PREEMPTIVE_DEGRADE'' else ''NONE''),
                ed_challenger_edge = ch, ed_rules_edge = ru, ed_edge_ratio = ratio, ed_decay_streak = streak,
                ed_reason = (if degrade then ''probation_edge_decay_streak''
                             else if \<not> maintains then ''probation_edge_below_rules'' else ''edge_stable'')\<rparr>))"

definition symbol_rows :: "string \<Rightarrow> attribution_row list \<Rightarrow> attribution_row list" where
  "symbol_rows symbol rows = (if symbol \<noteq> [] then filter (\<lambda>r. at_symbol r = str_upper symbol) rows else rows)"

definition evaluate_live_attribution_slo ::
  "'s policy_env \<Rightarrow> policy_ledgers \<Rightarrow> string \<Rightarrow> string \<Rightarrow> (string, pyfloat) dict \<Rightarrow> attribution_verdict" where
  "evaluate_live_attribution_slo env pd sid symbol params =
     (let drawdown_limit = dict_get params ''max_live_drawdown_pct'' DEFAULT_ATTRIBUTION_MAX_DRAWDOWN_PCT;
          lookback = dict_get params ''probation_attribution_lookback_days'' PROBATION_ATTRIBUTION_LOOKBACK_DAYS;
          pnls = map at_pnl (symbol_rows symbol (load_attribution_frame (pe_now env) (if 0 \<le> lookback then \<lfloor>lookback\<rfloor> else \<lceil>lookback\<rceil>) (Some sid) pd));
          sharpe = policy_sharpe pnls; dd = max_drawdown_pct pnls;
          reasons = (if pnls = [] then [''insufficient_attribution_sample'']
                     else if length pnls < PROBATION_MIN_ATTRIBUTION_TRADES then [''insufficient_attribution_trades'']
                     else (if sharpe < PROBATION_MIN_LIVE_SHARPE then [''live_sharpe_below_zero''] else [])
                          @ (if drawdown_limit < dd then [''live_drawdown_breach''] else []))
      in \<lparr>av_breached = (PROBATION_MIN_ATTRIBUTION_TRADES \<le> length pnls \<and> reasons \<noteq> []), av_reasons = reasons,
          av_live_sharpe = sharpe, av_max_drawdown_pct = dd, av_trade_count = length pnls,
          av_drawdown_limit_pct = drawdown_limit\<rparr>)"

definition evaluate_sovereign_promotion ::
  "'s policy_env \<Rightarrow> policy_ledgers \<Rightarrow> string \<Rightarrow> nat \<Rightarrow> sovereign_verdict" where
  "evaluate_sovereign_promotion env pd symbol clean_days =
     (let attr = symbol_rows symbol (load_attribution_frame (pe_now env) 30 None pd);
          verified = max (length (remdups (map (day_of \<circ> at_timestamp) attr))) clean_days;
          avg_slippage = (if attr = [] then 0 else np_mean (map at_slippage_pct attr));
          quality = (if attr = [] then 1 else 1 - max 0 (min 1 (avg_slippage / SOVEREIGN_MAX_AVG_SLIPPAGE_PCT)));
          rows = load_shadow_frame (pe_now env) 30 (Some (str_upper symbol)) pd;
          ch = shadow_returns challenger_of rows; ru = shadow_returns rules_of rows;
          edge = (if ch \<noteq> [] \<and> ru \<noteq> [] then np_mean ch - np_mean ru else 0);
          reasons = (if length attr < SOVEREIGN_MIN_FILLED_TRADES then [''insufficient_filled_trades''] else [])
                    @ (if verified < SOVEREIGN_MIN_VERIFIED_TRADING_DAYS then [''insufficient_verified_trading_days''] else [])
                    @ (if SOVEREIGN_MAX_AVG_SLIPPAGE_PCT < avg_slippage then [''execution_slippage_breach''] else [])
                    @ (if quality < SOVEREIGN_MIN_FILL_QUALITY_SCORE then [''fill_quality_below_floor''] else [])
                    @ (if edge < SOVEREIGN_MIN_EDGE_VS_RULES then [''sovereign_edge_vs_rules_insufficient''] else [])
      in \<lparr>sv_approved = (reasons = []), sv_reasons = reasons, sv_verified_trading_days = verified,
          sv_filled_trade_count = length attr, sv_avg_slippage_pct = avg_slippage, sv_fill_quality_score = quality\<rparr>)"

section \<open>Rollback\<close>

definition valid_or_passive :: "ai_state \<Rightarrow> ai_state" where
  "valid_or_passive st = (if valid_state st then st else PASSIVE)"

definition plain_upsert ::
  "string \<Rightarrow> string \<Rightarrow> ai_state \<Rightarrow> instant option \<Rightarrow> int option \<Rightarrow> instant option \<Rightarrow> policy_upsert" where
  "plain_upsert sid symbol st started anomaly lockout =
     \<lparr>pu_strategy_id = sid, pu_symbol = symbol, pu_execution_state = st, pu_probation_started_at = started,
      pu_probation_clean_trading_days = 0, pu_last_anomaly_session = anomaly, pu_eviction_lockout_until = lockout,
      pu_velocity_shock_prior_state = Keep, pu_velocity_shock_demoted_at = Keep\<rparr>"

definition write_row :: "'s policy_env \<Rightarrow> policy_upsert \<Rightarrow> 's policy_manager \<Rightarrow> 's policy_manager" where
  "write_row env u m = m\<lparr>pm_vault := pe_upsert env u (pm_vault m)\<rparr>"

definition reset_streak :: "string \<Rightarrow> 's policy_manager \<Rightarrow> 's policy_manager" where
  "reset_streak sid m = m\<lparr>pm_edge_decay_streak := AList.update sid 0 (pm_edge_decay_streak m)\<rparr>"

definition rolled_back :: "ai_state \<Rightarrow> ai_state \<Rightarrow> rollback_tier \<Rightarrow> bool \<Rightarrow> string \<Rightarrow> instant option \<Rightarrow> rollback_result" where
  "rolled_back prior new tier catastrophic reason lockout =
     \<lparr>rb_prior_state = prior, rb_new_state = new, rb_tier = tier, rb_catastrophic = catastrophic, rb_reason = reason,
      rb_eviction_lockout_until = lockout, rb_restored_params = None, rb_restored_config_version_id = None\<rparr>"

definition execute_staged_rollback ::
  "'s policy_env \<Rightarrow> ai_state \<Rightarrow> string \<Rightarrow> string \<Rightarrow> string \<Rightarrow> bool \<Rightarrow> pyfloat option \<Rightarrow> 's policy_manager
     \<Rightarrow> 's policy_manager \<times> rollback_result" where
  "execute_staged_rollback env current sid symbol reason catastrophic hit_rate m =
     (let st = valid_or_passive current;
          now = pe_now env; today = Some (day_of now)
      in if catastrophic \<or> (case hit_rate of None \<Rightarrow> False | Some h \<Rightarrow> h < CATASTROPHIC_HIT_RATE_FLOOR)
            \<or> reason = ''execution_drift''
         then let lockout = Some (now + days EVICTION_LOCKOUT_DAYS);
                  m1 = m\<lparr>pm_vault := pe_mark_evicted env reason EVICTION_LOCKOUT_DAYS (pm_vault m)\<rparr>
              in (reset_streak sid (write_row env (plain_upsert sid symbol PASSIVE None today lockout) m1),
                  rolled_back st PASSIVE CATASTROPHIC_EVICTION True reason lockout)
         else if st = SOVEREIGN
         then (write_row env (plain_upsert sid symbol PROBATIONAL (Some now) today None) m,
               rolled_back st PROBATIONAL SOVEREIGN_TO_PROBATIONAL False reason None)
         else if st = PROBATIONAL
         then (reset_streak sid (write_row env (plain_upsert sid symbol PASSIVE None today None) m),
               rolled_back st PASSIVE PROBATIONAL_TO_PASSIVE False reason None)
         else (m, rolled_back st st TierNone False ''no_rollback_applicable'' None))"

text \<open>The parameters of the configuration backup, marked as a fallback.\<close>

definition restored_params_of :: "'s policy_env \<Rightarrow> (int \<times> string) option \<Rightarrow> (string, string) dict" where
  "restored_params_of env backup =
     (case backup of None \<Rightarrow> []
      | Some (version, raw_yaml) \<Rightarrow>
          (case pe_load_params env raw_yaml of
             None \<Rightarrow> []
           | Some params \<Rightarrow>
               AList.update ''config_version_id'' (pe_int_text env version)
                 (AList.update ''fallback_class'' ''BASELINE_FALLBACK''
                   (AList.update ''fallback_mode_active'' ''True'' params))))"

definition execute_attribution_rules_rollback ::
  "'s policy_env \<Rightarrow> string \<Rightarrow> string \<Rightarrow> ai_state \<Rightarrow> string \<Rightarrow> bool \<Rightarrow> 's policy_manager \<Rightarrow> 's policy_manager \<times> rollback_result" where
  "execute_attribution_rules_rollback env sid symbol current reason journaled m =
     (let (m1, rb) = execute_staged_rollback env current sid symbol reason False None m;
          backup = pe_prior_config_backup env symbol (pm_vault m1);
          params = restored_params_of env backup;
          m2 = (if journaled \<and> params \<noteq> []
                then m1\<lparr>pm_journal := pm_journal m1 @ [RecoveryRollback sid current PASSIVE params reason]\<rparr> else m1);
          regime = or_default (or_default (dict_get params ''runtime_regime'' []) (dict_get params ''regime'' [])) ''UNKNOWN'';
          m3 = m2\<lparr>pm_vault := pe_mark_failed_attribution env symbol regime sid (pm_vault m2)\<rparr>
      in (m3, rb\<lparr>rb_restored_params := (if params = [] then None else Some params),
                 rb_restored_config_version_id := map_option fst backup\<rparr>))"

section \<open>Velocity shocks\<close>

definition execute_velocity_shock_demotion ::
  "'s policy_env \<Rightarrow> ai_state \<Rightarrow> string \<Rightarrow> string \<Rightarrow> string \<Rightarrow> 's policy_manager \<Rightarrow> 's policy_manager \<times> rollback_result" where
  "execute_velocity_shock_demotion env current sid symbol shock_reason m =
     (let st = valid_or_passive current; now = pe_now env
      in if st \<notin> {SOVEREIGN, PROBATIONAL}
         then (m, rolled_back st st TierNone False ''velocity_shock_not_applicable'' None)
         else (reset_streak sid (write_row env
                 ((plain_upsert sid symbol PASSIVE None (Some (day_of now)) None)
                    \<lparr>pu_velocity_shock_prior_state := Set (Some st), pu_velocity_shock_demoted_at := Set (Some now)\<rparr>) m),
               rolled_back st PASSIVE VELOCITY_SHOCK_DEMOTION False (or_default shock_reason ''macro_velocity_shock'') None))"

type_synonym leg_context = "string \<times> string \<times> (string, pyfloat) dict \<times> ai_state option"

text \<open>A leg's state: the stored one, else the one its parameters name, else passive.\<close>

definition current_ai_state :: "'s policy_env \<Rightarrow> leg_context \<Rightarrow> 's \<Rightarrow> ai_state" where
  "current_ai_state env leg vault =
     (case leg of (sid, _, _, configured) \<Rightarrow>
        valid_or_passive (case pe_get env sid vault of Some r \<Rightarrow> pr_execution_state r
                          | None \<Rightarrow> (case configured of Some st \<Rightarrow> st | None \<Rightarrow> PASSIVE)))"

definition shock_leg ::
  "'s policy_env \<Rightarrow> string \<Rightarrow> 's policy_manager \<times> lifecycle_transition list \<Rightarrow> leg_context
     \<Rightarrow> 's policy_manager \<times> lifecycle_transition list" where
  "shock_leg env reason = (\<lambda>(m, ts) leg.
     let (sid, symbol, _) = leg;
         (m', rb) = execute_velocity_shock_demotion env (current_ai_state env leg (pm_vault m)) sid symbol reason m
     in (m', if rb_tier rb \<noteq> VELOCITY_SHOCK_DEMOTION then ts
             else ts @ [\<lparr>lt_leg = sid, lt_leg_symbol = symbol, lt_from_state = rb_prior_state rb,
                         lt_to_state = rb_new_state rb, lt_reason = rb_reason rb\<rparr>]))"

definition handle_macro_velocity_shock ::
  "'s policy_env \<Rightarrow> bool \<Rightarrow> string \<Rightarrow> leg_context list \<Rightarrow> 's policy_manager
     \<Rightarrow> 's policy_manager \<times> lifecycle_transition list \<times> string" where
  "handle_macro_velocity_shock env shock_detected reason legs m =
     (let why = or_default reason ''macro_velocity_shock''
      in if \<not> shock_detected then (m, [], ''no_velocity_shock'')
         else let (m', ts) = foldl (shock_leg env why) (m, []) legs in (m', ts, why))"

definition evaluate_velocity_shock_shadow_recovery ::
  "'s policy_env \<Rightarrow> policy_ledgers \<Rightarrow> string \<Rightarrow> instant option \<Rightarrow> recovery_verdict" where
  "evaluate_velocity_shock_shadow_recovery env pd symbol demoted_at =
     (let rows = load_dual_policy_shadow_frame (pe_now env) symbol demoted_at pd;
          refused = (\<lambda>reason n. \<lparr>rv_approved = False, rv_reasons = [reason], rv_challenger_edge = 0, rv_rules_edge = 0,
                                 rv_edge_ratio = 0, rv_sample_count = n\<rparr>)
      in if rows = [] then refused ''insufficient_dual_policy_shadow_log'' 0
         else if length rows < SHOCK_RECOVERY_MIN_DUAL_SHADOW_SAMPLES
         then refused ''insufficient_dual_policy_shadow_samples'' (length rows)
         else
           let ch = np_mean (map (\<lambda>r. or_num (du_challenger_pnl r) 0) rows);
               ru = np_mean (map (\<lambda>r. or_num (du_rules_baseline_pnl r) 0) rows);
               ratio = edge_ratio_of ch ru;
               reasons = (if ch < ru then [''shadow_challenger_underperforms_rules''] else [])
                         @ (if ratio < PROBATION_EDGE_DECAY_RATIO then [''shadow_edge_ratio_below_floor''] else [])
           in \<lparr>rv_approved = (reasons = []), rv_reasons = reasons, rv_challenger_edge = ch, rv_rules_edge = ru,
               rv_edge_ratio = ratio, rv_sample_count = length rows\<rparr>)"

definition attempt_velocity_shock_recovery ::
  "'s policy_env \<Rightarrow> policy_ledgers \<Rightarrow> string \<Rightarrow> policy_row \<Rightarrow> stabilization_verdict option
     \<Rightarrow> ai_state \<times> string \<times> recovery_verdict option" where
  "attempt_velocity_shock_recovery env pd symbol stored stabilization =
     (case pr_velocity_shock_prior_state stored of
        None \<Rightarrow> (pr_execution_state stored, ''unchanged'', None)
      | Some prior \<Rightarrow>
          if \<not> valid_state prior \<or> pr_execution_state stored \<noteq> PASSIVE
          then (pr_execution_state stored, ''unchanged'', None)
          else
            (case stabilization of
               None \<Rightarrow> (PASSIVE, ''no_stabilization_verdict'', None)
             | Some s \<Rightarrow>
                 if \<not> st_stabilized s
                 then (PASSIVE,
                       if st_reason s = ''cool_off_window_incomplete'' then ''velocity_shock_cool_off_pending''
                       else if st_reason s = ''composite_stress_above_hysteresis_threshold'' then ''velocity_shock_hysteresis_blocked''
                       else if st_reason s = ''no_recorded_velocity_shock'' then ''unchanged'' else st_reason s, None)
                 else
                   let recovery = evaluate_velocity_shock_shadow_recovery env pd symbol (pr_velocity_shock_demoted_at stored)
                   in if \<not> rv_approved recovery then (PASSIVE, str_join ''|'' (rv_reasons recovery), Some recovery)
                      else (prior, ''velocity_shock_cool_off_recovery'', Some recovery)))"

definition recover_leg ::
  "'s policy_env \<Rightarrow> policy_ledgers \<Rightarrow> stabilization_verdict option \<Rightarrow> bool
     \<Rightarrow> 's policy_manager \<times> lifecycle_transition list \<Rightarrow> leg_context \<Rightarrow> 's policy_manager \<times> lifecycle_transition list" where
  "recover_leg env pd stabilization journaled = (\<lambda>(m, ts) (sid, symbol, _).
     case pe_get env sid (pm_vault m) of
       None \<Rightarrow> (m, ts)
     | Some stored \<Rightarrow>
         if pr_execution_state stored \<noteq> PASSIVE then (m, ts)
         else
           let (restored, why, _) = attempt_velocity_shock_recovery env pd symbol stored stabilization
           in if why = ''unchanged'' then (m, ts)
              else
                let ts' = ts @ [\<lparr>lt_leg = sid, lt_leg_symbol = symbol, lt_from_state = PASSIVE, lt_to_state = restored,
                                 lt_reason = why\<rparr>]
                in if restored = PASSIVE then (m, ts')
                   else
                     let m1 = (if journaled
                               then m\<lparr>pm_journal := pm_journal m @ [AiLifecycleAdjustment sid PASSIVE restored why]\<rparr> else m);
                         started = (if restored = PROBATIONAL \<and> pr_probation_started_at stored = None
                                    then Some (pe_now env) else pr_probation_started_at stored)
                     in (write_row env
                           \<lparr>pu_strategy_id = sid, pu_symbol = symbol, pu_execution_state = restored,
                            pu_probation_started_at = started,
                            pu_probation_clean_trading_days = pr_probation_clean_trading_days stored,
                            pu_last_anomaly_session = pr_last_anomaly_session stored,
                            pu_eviction_lockout_until = pr_eviction_lockout_until stored,
                            pu_velocity_shock_prior_state = Set None, pu_velocity_shock_demoted_at = Set None\<rparr> m1, ts'))"

definition process_intraday_velocity_shock_recovery ::
  "'s policy_env \<Rightarrow> policy_ledgers \<Rightarrow> stabilization_verdict option \<Rightarrow> bool \<Rightarrow> leg_context list \<Rightarrow> 's policy_manager
     \<Rightarrow> 's policy_manager \<times> lifecycle_transition list" where
  "process_intraday_velocity_shock_recovery env pd stabilization journaled legs m =
     foldl (recover_leg env pd stabilization journaled) (m, []) legs"

section \<open>The evening\<close>

definition probation_anomaly_detected :: "policy_ledgers \<Rightarrow> string \<Rightarrow> int \<Rightarrow> bool" where
  "probation_anomaly_detected pd sid session_day =
     (case pd_health pd of None \<Rightarrow> False
      | Some rows \<Rightarrow> list_ex (\<lambda>r. hl_strategy_id r = sid \<and> days session_day \<le> hl_timestamp r
                                \<and> hl_new_status r \<in> {''DEFENSIVE'', ''DEGRADED''}) rows)"

text \<open>What the evening decides for one leg: the manager, the new state, its reason, the clean days and the start of probation.\<close>

record 's evening_decision =
  ev_manager :: "'s policy_manager"
  ev_state :: ai_state
  ev_reason :: string
  ev_clean_days :: nat
  ev_probation_started :: "instant option"

definition decide_evening ::
  "'s policy_env \<Rightarrow> policy_ledgers \<Rightarrow> bool \<Rightarrow> leg_context \<Rightarrow> 's policy_manager \<Rightarrow> 's evening_decision" where
  "decide_evening env pd journaled leg m =
     (let (sid, symbol, params, configured) = leg;
          stored = pe_get env sid (pm_vault m);
          today = day_of (pe_now env);
          current = current_ai_state env leg (pm_vault m);
          clean = (case stored of Some r \<Rightarrow> pr_probation_clean_trading_days r | None \<Rightarrow> 0);
          started = (case stored of Some r \<Rightarrow> pr_probation_started_at r | None \<Rightarrow> None);
          keep = (\<lambda>m' st why days. \<lparr>ev_manager = m', ev_state = st, ev_reason = why, ev_clean_days = days,
                                   ev_probation_started = started\<rparr>);
          slo = evaluate_live_attribution_slo env pd sid symbol params
      in if current = PASSIVE
         then if fst (evaluate_probation_entry env pd symbol None (pm_vault m))
              then \<lparr>ev_manager = m, ev_state = PROBATIONAL, ev_reason = ''probation_entry_sieve_passed'', ev_clean_days = 0,
                    ev_probation_started = Some (pe_now env)\<rparr>
              else keep m current ''unchanged'' clean
         else if av_breached slo
         then let (m', rb) = execute_attribution_rules_rollback env sid symbol current (str_join ''|'' (av_reasons slo)) journaled m
              in keep m' (rb_new_state rb) ''attribution_slo_rollback'' clean
         else
           let (m1, edge) = evaluate_probation_edge env pd sid symbol m
           in if current = PROBATIONAL
              then if ed_directive edge = ''PREEMPTIVE_DEGRADE''
                   then let (m2, rb) = execute_staged_rollback env current sid symbol (ed_reason edge) False None m1
                        in keep m2 (rb_new_state rb) (rb_reason rb) clean
                   else
                     let clean' = (if probation_anomaly_detected pd sid today then 0
                                   else if (case stored of None \<Rightarrow> True | Some r \<Rightarrow> day_of (pr_updated_at r) \<noteq> today)
                                   then clean + 1 else clean)
                     in if sv_approved (evaluate_sovereign_promotion env pd symbol clean')
                        then keep m1 SOVEREIGN ''sovereign_promotion_criteria_met'' clean'
                        else keep m1 current ''unchanged'' clean'
              else if \<not> ed_maintains_edge edge \<and> 1 \<le> ed_decay_streak edge
              then let (m2, rb) = execute_staged_rollback env current sid symbol ''sovereign_edge_decay'' False None m1
                   in keep m2 (rb_new_state rb) (rb_reason rb) clean
              else keep m1 current ''unchanged'' clean)"

definition evening_leg ::
  "'s policy_env \<Rightarrow> policy_ledgers \<Rightarrow> bool \<Rightarrow> 's policy_manager \<times> lifecycle_transition list \<Rightarrow> leg_context
     \<Rightarrow> 's policy_manager \<times> lifecycle_transition list" where
  "evening_leg env pd journaled = (\<lambda>(m, ts) leg.
     let (sid, symbol, _) = leg;
         stored = pe_get env sid (pm_vault m);
         d = decide_evening env pd journaled leg m;
         today = day_of (pe_now env)
     in (write_row env
           \<lparr>pu_strategy_id = sid, pu_symbol = symbol, pu_execution_state = ev_state d,
            pu_probation_started_at = ev_probation_started d, pu_probation_clean_trading_days = ev_clean_days d,
            pu_last_anomaly_session =
              (if probation_anomaly_detected pd sid today then Some today
               else case stored of Some r \<Rightarrow> pr_last_anomaly_session r | None \<Rightarrow> None),
            pu_eviction_lockout_until = (case stored of Some r \<Rightarrow> pr_eviction_lockout_until r | None \<Rightarrow> None),
            pu_velocity_shock_prior_state = Keep, pu_velocity_shock_demoted_at = Keep\<rparr> (ev_manager d),
         ts @ [\<lparr>lt_leg = sid, lt_leg_symbol = symbol, lt_from_state = current_ai_state env leg (pm_vault m),
                lt_to_state = ev_state d, lt_reason = ev_reason d\<rparr>]))"

definition run_evening_progression ::
  "'s policy_env \<Rightarrow> policy_ledgers \<Rightarrow> bool \<Rightarrow> leg_context list \<Rightarrow> leg_context list \<Rightarrow> 's policy_manager
     \<Rightarrow> 's policy_manager \<times> lifecycle_transition list" where
  "run_evening_progression env pd journaled default_legs legs m =
     foldl (evening_leg env pd journaled) (m, []) (if legs = [] then default_legs else legs)"

section \<open>What is relied on of the vault\<close>

definition kept :: "'a option arg \<Rightarrow> (policy_row \<Rightarrow> 'a option) \<Rightarrow> policy_row option \<Rightarrow> 'a option" where
  "kept new field old = (case new of Set x \<Rightarrow> x | Keep \<Rightarrow> (case old of None \<Rightarrow> None | Some r \<Rightarrow> field r))"

definition row_after :: "policy_upsert \<Rightarrow> policy_row option \<Rightarrow> instant \<Rightarrow> policy_row" where
  "row_after u old t =
     \<lparr>pr_symbol = pu_symbol u, pr_execution_state = pu_execution_state u, pr_probation_started_at = pu_probation_started_at u,
      pr_probation_clean_trading_days = pu_probation_clean_trading_days u, pr_last_anomaly_session = pu_last_anomaly_session u,
      pr_eviction_lockout_until = pu_eviction_lockout_until u,
      pr_velocity_shock_prior_state = kept (pu_velocity_shock_prior_state u) pr_velocity_shock_prior_state old,
      pr_velocity_shock_demoted_at = kept (pu_velocity_shock_demoted_at u) pr_velocity_shock_demoted_at old,
      pr_updated_at = t\<rparr>"

text \<open>The state a leg held when a velocity shock demoted it.\<close>

definition shock_memory :: "'s policy_env \<Rightarrow> string \<Rightarrow> 's \<Rightarrow> ai_state option" where
  "shock_memory env sid v = (case pe_get env sid v of None \<Rightarrow> None | Some r \<Rightarrow> pr_velocity_shock_prior_state r)"

text \<open>An upsert writes the row of its leg, stamped with some time, and no other; the marks touch no row.\<close>

locale policy_store =
  fixes env :: "'s policy_env"
  assumes get_upsert_own: "\<exists>t. pe_get env (pu_strategy_id u) (pe_upsert env u v) = Some (row_after u (pe_get env (pu_strategy_id u) v) t)"
    and get_upsert_other: "sid \<noteq> pu_strategy_id u \<Longrightarrow> pe_get env sid (pe_upsert env u v) = pe_get env sid v"
    and get_mark_evicted: "pe_get env sid (pe_mark_evicted env reason n v) = pe_get env sid v"
    and get_mark_failed: "pe_get env sid (pe_mark_failed_attribution env symbol regime leg v) = pe_get env sid v"
begin

lemma get_write:
  "\<exists>t. pe_get env sid (pm_vault (write_row env u m)) =
     (if sid = pu_strategy_id u then Some (row_after u (pe_get env sid (pm_vault m)) t) else pe_get env sid (pm_vault m))"
  using get_upsert_own [of u "pm_vault m"] get_upsert_other [of sid u "pm_vault m"] by (auto simp: write_row_def)

lemma get_write_other: "sid \<noteq> pu_strategy_id u \<Longrightarrow> pe_get env sid (pm_vault (write_row env u m)) = pe_get env sid (pm_vault m)"
  by (simp add: write_row_def get_upsert_other)

lemma get_write_own:
  "\<exists>t. pe_get env (pu_strategy_id u) (pm_vault (write_row env u m)) = Some (row_after u (pe_get env (pu_strategy_id u) (pm_vault m)) t)"
  using get_upsert_own by (simp add: write_row_def)

lemma rollback_other:
  "sid \<noteq> leg \<Longrightarrow> pe_get env sid (pm_vault (fst (execute_staged_rollback env st leg symbol reason cat hit m))) = pe_get env sid (pm_vault m)"
  by (simp add: execute_staged_rollback_def Let_def reset_streak_def plain_upsert_def get_write_other get_mark_evicted)

lemma attribution_rollback_get:
  "pe_get env sid (pm_vault (fst (execute_attribution_rules_rollback env leg symbol st reason j m))) =
     pe_get env sid (pm_vault (fst (execute_staged_rollback env st leg symbol reason False None m)))"
  by (simp add: execute_attribution_rules_rollback_def Let_def split_beta get_mark_failed)

lemma edge_get: "pm_vault (fst (evaluate_probation_edge env pd leg symbol m)) = pm_vault m"
  by (simp add: evaluate_probation_edge_def Let_def)

lemma rollback_memory:
  "shock_memory env sid (pm_vault (fst (execute_staged_rollback env st leg symbol reason cat hit m))) = shock_memory env sid (pm_vault m)"
proof (cases "sid = leg")
  case True
  have keep: "shock_memory env leg (pm_vault (write_row env (plain_upsert leg symbol st' started anomaly lockout) m')) =
      shock_memory env leg (pm_vault m')" for st' started anomaly lockout m'
    using get_write_own [of "plain_upsert leg symbol st' started anomaly lockout" m']
    by (auto simp: shock_memory_def row_after_def kept_def plain_upsert_def)
  show ?thesis
    unfolding True by (simp add: execute_staged_rollback_def Let_def reset_streak_def keep) (simp add: shock_memory_def get_mark_evicted)
next
  case False
  then show ?thesis using rollback_other by (simp add: shock_memory_def)
qed

end

text \<open>A recovery either leaves the vault alone or gives the leg back the state the shock took.\<close>

lemma attempt_restores:
  assumes "attempt_velocity_shock_recovery env pd symbol stored stab = (restored, why, x)"
    "pr_execution_state stored = PASSIVE" "restored \<noteq> PASSIVE"
  shows "pr_velocity_shock_prior_state stored = Some restored"
  using assms by (auto simp: attempt_velocity_shock_recovery_def Let_def split: option.splits if_splits)

lemma recover_leg_shape:
  "(\<exists>ts'. recover_leg env pd stab j (m, ts) (l, symbol, rest) = (m, ts @ ts')) \<or>
   (\<exists>stored prior u m1 ts'. pe_get env l (pm_vault m) = Some stored \<and> pr_velocity_shock_prior_state stored = Some prior \<and>
      pm_vault m1 = pm_vault m \<and> recover_leg env pd stab j (m, ts) (l, symbol, rest) = (write_row env u m1, ts @ ts') \<and>
      pu_strategy_id u = l \<and> pu_execution_state u = prior \<and> pu_velocity_shock_prior_state u = Set None)"
proof (cases "pe_get env l (pm_vault m)")
  case None
  then have "recover_leg env pd stab j (m, ts) (l, symbol, rest) = (m, ts @ [])" by (simp add: recover_leg_def)
  then show ?thesis by blast
next
  case (Some stored)
  obtain restored why x where att: "attempt_velocity_shock_recovery env pd symbol stored stab = (restored, why, x)"
    by (metis prod.exhaust)
  show ?thesis
  proof (cases "pr_execution_state stored = PASSIVE \<and> why \<noteq> ''unchanged'' \<and> restored \<noteq> PASSIVE")
    case True
    have "\<exists>u m1 ts'. recover_leg env pd stab j (m, ts) (l, symbol, rest) = (write_row env u m1, ts @ ts') \<and>
        pm_vault m1 = pm_vault m \<and> pu_strategy_id u = l \<and> pu_execution_state u = restored \<and>
        pu_velocity_shock_prior_state u = Set None"
      using True Some att by (force simp: recover_leg_def Let_def)
    then show ?thesis using attempt_restores [OF att] True Some by blast
  next
    case False
    then have "\<exists>ts'. recover_leg env pd stab j (m, ts) (l, symbol, rest) = (m, ts @ ts')"
      using Some att by (auto simp: recover_leg_def Let_def)
    then show ?thesis by blast
  qed
qed

lemma rollback_never_sovereign:
  "rb_new_state (snd (execute_staged_rollback env st leg symbol reason cat hit m)) \<noteq> SOVEREIGN"
  by (auto simp: execute_staged_rollback_def Let_def rolled_back_def)

section \<open>Who may become sovereign\<close>

definition promoted :: "string \<Rightarrow> lifecycle_transition \<Rightarrow> bool" where
  "promoted sid t = (lt_leg t = sid \<and> lt_from_state t = PROBATIONAL \<and> lt_to_state t = SOVEREIGN \<and>
     lt_reason t = ''sovereign_promotion_criteria_met'')"

lemma attribution_rollback_state:
  "rb_new_state (snd (execute_attribution_rules_rollback env leg symbol st reason j m)) =
     rb_new_state (snd (execute_staged_rollback env st leg symbol reason False None m))"
  by (simp add: execute_attribution_rules_rollback_def Let_def split_beta)

lemma current_valid: "current_ai_state env leg v \<in> {PASSIVE, PROBATIONAL, SOVEREIGN}"
  by (auto simp: current_ai_state_def valid_or_passive_def valid_state_def split: prod.split)

lemma decide_sovereign:
  assumes "ev_state (decide_evening env pd j (sid, symbol, params, configured) m) = SOVEREIGN"
  shows "current_ai_state env (sid, symbol, params, configured) (pm_vault m) = SOVEREIGN \<or>
    current_ai_state env (sid, symbol, params, configured) (pm_vault m) = PROBATIONAL \<and>
    ev_reason (decide_evening env pd j (sid, symbol, params, configured) m) = ''sovereign_promotion_criteria_met''"
proof (rule disjCI)
  let ?cur = "current_ai_state env (sid, symbol, params, configured) (pm_vault m)"
  assume "\<not> (?cur = PROBATIONAL \<and>
    ev_reason (decide_evening env pd j (sid, symbol, params, configured) m) = ''sovereign_promotion_criteria_met'')"
  then show "?cur = SOVEREIGN"
    using assms current_valid [of env "(sid, symbol, params, configured)" "pm_vault m"]
    by (auto simp: decide_evening_def Let_def split_beta rollback_never_sovereign attribution_rollback_state split: if_splits)
qed

definition stored_state :: "'s policy_env \<Rightarrow> string \<Rightarrow> 's \<Rightarrow> ai_state option" where
  "stored_state env sid v = map_option pr_execution_state (pe_get env sid v)"

text \<open>A leg has a claim to sovereignty if it is sovereign or was when a shock demoted it.\<close>

definition claims_sovereign :: "'s policy_env \<Rightarrow> string \<Rightarrow> 's \<Rightarrow> bool" where
  "claims_sovereign env sid v = (stored_state env sid v = Some SOVEREIGN \<or> shock_memory env sid v = Some SOVEREIGN)"

definition configured_sovereign :: "string \<Rightarrow> leg_context \<Rightarrow> bool" where
  "configured_sovereign sid = (\<lambda>(l, _, _, configured). l = sid \<and> configured = Some SOVEREIGN)"

lemma current_sovereign:
  assumes "current_ai_state env (sid, symbol, params, configured) v = SOVEREIGN"
    "\<not> configured_sovereign sid (sid, symbol, params, configured)"
  shows "stored_state env sid v = Some SOVEREIGN"
  using assms by (auto simp: current_ai_state_def valid_or_passive_def stored_state_def configured_sovereign_def
      split: option.splits if_splits)

lemma rows_only:
  assumes "pe_get env sid v = pe_get env sid v'"
  shows "stored_state env sid v = stored_state env sid v'" "shock_memory env sid v = shock_memory env sid v'"
  using assms by (simp_all add: stored_state_def shock_memory_def)

text \<open>The invariant of a loop over legs: a claim was there before or a promotion has been logged.\<close>

definition earned :: "'s policy_env \<Rightarrow> string \<Rightarrow> bool \<Rightarrow> 's policy_manager \<times> lifecycle_transition list \<Rightarrow> bool" where
  "earned env sid before = (\<lambda>(m, ts). claims_sovereign env sid (pm_vault m) \<longrightarrow> before \<or> list_ex (promoted sid) ts)"

context policy_store
begin

lemma decide_vault:
  fixes l symbol params configured pd j m
  defines "v \<equiv> pm_vault (ev_manager (decide_evening env pd j (l, symbol, params, configured) m))"
  shows "sid \<noteq> l \<Longrightarrow> pe_get env sid v = pe_get env sid (pm_vault m)" "shock_memory env sid v = shock_memory env sid (pm_vault m)"
proof -
  have mem: "shock_memory env sid (pm_vault (fst (execute_attribution_rules_rollback env l symbol st reason j m'))) =
      shock_memory env sid (pm_vault m')" for st reason m'
    using rollback_memory by (simp add: shock_memory_def attribution_rollback_get)
  show "sid \<noteq> l \<Longrightarrow> pe_get env sid v = pe_get env sid (pm_vault m)"
    unfolding v_def by (simp add: decide_evening_def Let_def split_beta rollback_other attribution_rollback_get edge_get)
  show "shock_memory env sid v = shock_memory env sid (pm_vault m)"
    unfolding v_def by (simp add: decide_evening_def Let_def split_beta rollback_memory mem edge_get)
qed

lemma write_row_state:
  "stored_state env (pu_strategy_id u) (pm_vault (write_row env u m)) = Some (pu_execution_state u)"
  using get_write_own [of u m] by (auto simp: stored_state_def row_after_def)

lemma write_row_memory:
  "shock_memory env (pu_strategy_id u) (pm_vault (write_row env u m)) =
     (case pu_velocity_shock_prior_state u of Set x \<Rightarrow> x | Keep \<Rightarrow> shock_memory env (pu_strategy_id u) (pm_vault m))"
  using get_write_own [of u m] by (auto simp: shock_memory_def row_after_def kept_def split: arg.split)

lemma evening_leg_earned:
  assumes "earned env sid before (m, ts)" "\<not> configured_sovereign sid leg"
  shows "earned env sid before (evening_leg env pd j (m, ts) leg)"
proof -
  obtain l symbol params configured where leg: "leg = (l, symbol, params, configured)" by (metis prod.exhaust)
  let ?d = "decide_evening env pd j leg m"
  obtain u ts' where step: "evening_leg env pd j (m, ts) leg = (write_row env u (ev_manager ?d), ts')"
    and u: "pu_strategy_id u = l" "pu_execution_state u = ev_state ?d" "pu_velocity_shock_prior_state u = Keep"
    and ts': "ts' = ts @ [\<lparr>lt_leg = l, lt_leg_symbol = symbol, lt_from_state = current_ai_state env leg (pm_vault m),
                lt_to_state = ev_state ?d, lt_reason = ev_reason ?d\<rparr>]"
    by (auto simp: evening_leg_def leg Let_def)
  show ?thesis
  proof (cases "sid = l")
    case False
    then have "pe_get env sid (pm_vault (write_row env u (ev_manager ?d))) = pe_get env sid (pm_vault m)"
      using get_write_other [of sid u] u(1) decide_vault(1) leg by simp
    from rows_only [OF this] show ?thesis using assms(1) by (auto simp: earned_def step ts' claims_sovereign_def)
  next
    case True
    have mem: "shock_memory env l (pm_vault (write_row env u (ev_manager ?d))) = shock_memory env l (pm_vault m)"
      using write_row_memory [of u "ev_manager ?d"] u decide_vault(2) leg by simp
    have st: "stored_state env l (pm_vault (write_row env u (ev_manager ?d))) = Some (ev_state ?d)"
      using write_row_state [of u "ev_manager ?d"] u by simp
    have "claims_sovereign env l (pm_vault m) \<or> list_ex (promoted l) ts'" if "ev_state ?d = SOVEREIGN"
      using decide_sovereign [of env pd j l symbol params configured m] that current_sovereign [of env l symbol params configured]
        assms(2) True leg by (auto simp: claims_sovereign_def ts' promoted_def)
    then show ?thesis using assms(1) mem st True by (auto simp: earned_def step claims_sovereign_def ts')
  qed
qed

lemma shock_leg_earned:
  assumes "earned env sid before (m, ts)" "\<not> configured_sovereign sid leg"
  shows "earned env sid before (shock_leg env why (m, ts) leg)"
proof -
  obtain l symbol params configured where leg: "leg = (l, symbol, params, configured)" by (metis prod.exhaust)
  let ?st = "current_ai_state env leg (pm_vault m)"
  have valid: "valid_or_passive ?st = ?st"
    using current_valid [of env leg "pm_vault m"] by (auto simp: valid_or_passive_def valid_state_def)
  show ?thesis
  proof (cases "?st \<in> {SOVEREIGN, PROBATIONAL}")
    case False
    then show ?thesis using assms(1) valid
      by (simp add: shock_leg_def leg Let_def execute_velocity_shock_demotion_def rolled_back_def)
  next
    case True
    obtain u ts' where step: "shock_leg env why (m, ts) leg = (reset_streak l (write_row env u m), ts @ ts')"
      and u: "pu_strategy_id u = l" "pu_execution_state u = PASSIVE" "pu_velocity_shock_prior_state u = Set (Some ?st)"
      using True valid by (auto simp: shock_leg_def leg Let_def execute_velocity_shock_demotion_def rolled_back_def plain_upsert_def)
    have vault: "pm_vault (reset_streak l (write_row env u m)) = pm_vault (write_row env u m)" by (simp add: reset_streak_def)
    have "claims_sovereign env sid (pm_vault m)" if claim: "claims_sovereign env sid (pm_vault (write_row env u m))"
    proof (cases "sid = l")
      case False
      then show ?thesis using that rows_only [of env sid] get_write_other [of sid u m] u(1)
        by (simp add: claims_sovereign_def stored_state_def shock_memory_def)
    next
      case eq: True
      then have "?st = SOVEREIGN"
        using claim write_row_state [of u m] write_row_memory [of u m] u by (simp add: claims_sovereign_def)
      then show ?thesis using current_sovereign [of env l symbol params configured] assms(2) leg eq
        by (simp add: claims_sovereign_def)
    qed
    then show ?thesis using assms(1) by (auto simp: earned_def step vault)
  qed
qed

lemma recover_leg_earned:
  assumes "earned env sid before (m, ts)"
  shows "earned env sid before (recover_leg env pd stab j (m, ts) leg)"
proof -
  obtain l symbol params configured where leg: "leg = (l, symbol, params, configured)" by (metis prod.exhaust)
  from recover_leg_shape [of env pd stab j m ts l symbol "(params, configured)"]
  consider (same) ts' where "recover_leg env pd stab j (m, ts) leg = (m, ts @ ts')"
    | (restored) stored prior u m1 ts' where "pe_get env l (pm_vault m) = Some stored"
        "pr_velocity_shock_prior_state stored = Some prior" "pm_vault m1 = pm_vault m"
        "recover_leg env pd stab j (m, ts) leg = (write_row env u m1, ts @ ts')"
        "pu_strategy_id u = l" "pu_execution_state u = prior" "pu_velocity_shock_prior_state u = Set None"
    unfolding leg by metis
  then show ?thesis
  proof cases
    case same
    then show ?thesis using assms by (auto simp: earned_def)
  next
    case restored
    have "claims_sovereign env sid (pm_vault m)" if claim: "claims_sovereign env sid (pm_vault (write_row env u m1))"
    proof (cases "sid = l")
      case False
      then show ?thesis using claim get_write_other [of sid u m1] restored
        by (simp add: claims_sovereign_def stored_state_def shock_memory_def)
    next
      case True
      then show ?thesis using claim write_row_state [of u m1] write_row_memory [of u m1] restored
        by (simp add: claims_sovereign_def shock_memory_def)
    qed
    then show ?thesis using assms restored by (auto simp: earned_def)
  qed
qed

lemma rollback_earned:
  assumes "claims_sovereign env sid (pm_vault (fst (execute_staged_rollback env st leg symbol reason cat hit m)))"
  shows "claims_sovereign env sid (pm_vault m)"
proof (cases "sid = leg")
  case False
  then show ?thesis using assms rollback_other [of sid leg] by (simp add: claims_sovereign_def stored_state_def shock_memory_def)
next
  case True
  have "stored_state env leg (pm_vault (write_row env (plain_upsert leg symbol st' started anomaly lockout) m')) = Some st'"
    for st' started anomaly lockout m'
    using write_row_state [of "plain_upsert leg symbol st' started anomaly lockout" m'] by (simp add: plain_upsert_def)
  note state = this
  show ?thesis
    using assms rollback_memory [of sid st leg symbol reason cat hit m] True
    by (auto simp: claims_sovereign_def execute_staged_rollback_def Let_def reset_streak_def state split: if_splits)
qed

lemma foldl_earned:
  assumes "\<And>s leg. leg \<in> set legs \<Longrightarrow> earned env sid before s \<Longrightarrow> earned env sid before (f s leg)" "earned env sid before s"
  shows "earned env sid before (foldl f s legs)"
  using assms by (induction legs arbitrary: s) auto

end

section \<open>Histories\<close>

datatype policy_op =
  Evening instant policy_ledgers bool "leg_context list"
| Shock instant bool string "leg_context list"
| Recovery instant policy_ledgers "stabilization_verdict option" bool "leg_context list"
| StagedRollback instant ai_state string string string bool "pyfloat option"
| PolicyRestart

definition at_time :: "'s policy_env \<Rightarrow> instant \<Rightarrow> 's policy_env" where
  "at_time env t = env\<lparr>pe_now := t\<rparr>"

fun policy_step :: "'s policy_env \<Rightarrow> 's policy_manager \<times> lifecycle_transition list \<Rightarrow> policy_op
     \<Rightarrow> 's policy_manager \<times> lifecycle_transition list" where
  "policy_step env (m, past) (Evening t pd j legs) =
     (let (m', ts) = run_evening_progression (at_time env t) pd j [] legs m in (m', past @ ts))"
| "policy_step env (m, past) (Shock t detected reason legs) =
     (let (m', ts, _) = handle_macro_velocity_shock (at_time env t) detected reason legs m in (m', past @ ts))"
| "policy_step env (m, past) (Recovery t pd stab j legs) =
     (let (m', ts) = process_intraday_velocity_shock_recovery (at_time env t) pd stab j legs m in (m', past @ ts))"
| "policy_step env (m, past) (StagedRollback t st sid symbol reason cat hit) =
     (fst (execute_staged_rollback (at_time env t) st sid symbol reason cat hit m), past)"
| "policy_step env (m, past) PolicyRestart = (new_policy_manager (pm_vault m), past)"

fun op_legs :: "policy_op \<Rightarrow> leg_context list" where
  "op_legs (Evening _ _ _ legs) = legs"
| "op_legs (Shock _ _ _ legs) = legs"
| "op_legs (Recovery _ _ _ _ legs) = legs"
| "op_legs _ = []"

lemma at_time_store: "policy_store env \<Longrightarrow> policy_store (at_time env t)"
  by (simp add: policy_store_def at_time_def)

lemma at_time_rows [simp]:
  "stored_state (at_time env t) sid v = stored_state env sid v" "shock_memory (at_time env t) sid v = shock_memory env sid v"
  "claims_sovereign (at_time env t) sid v = claims_sovereign env sid v"
  by (simp_all add: stored_state_def shock_memory_def claims_sovereign_def at_time_def)

lemma legs_earned:
  assumes "policy_store env" "list_all (\<lambda>leg. \<not> configured_sovereign sid leg) legs"
    "claims_sovereign env sid (pm_vault (fst (foldl f (m, []) legs)))"
    "f = evening_leg (at_time env t) pd j \<or> f = shock_leg (at_time env t) why \<or> f = recover_leg (at_time env t) pd stab j"
  shows "claims_sovereign env sid (pm_vault m) \<or> list_ex (promoted sid) (snd (foldl f (m, []) legs))"
proof -
  note store = at_time_store [OF assms(1), of t]
  have "earned (at_time env t) sid (claims_sovereign env sid (pm_vault m)) (foldl f (m, []) legs)"
  proof (rule policy_store.foldl_earned [OF store])
    fix s :: "'a policy_manager \<times> lifecycle_transition list" and leg
    assume "leg \<in> set legs" and s: "earned (at_time env t) sid (claims_sovereign env sid (pm_vault m)) s"
    then have "\<not> configured_sovereign sid leg" using assms(2) by (simp add: list_all_iff)
    moreover obtain a b where ab: "s = (a, b)" by (cases s)
    ultimately show "earned (at_time env t) sid (claims_sovereign env sid (pm_vault m)) (f s leg)"
      using assms(4) s unfolding ab
      by (elim disjE) (simp_all add: policy_store.evening_leg_earned [OF store] policy_store.shock_leg_earned [OF store]
        policy_store.recover_leg_earned [OF store])
  qed (simp add: earned_def)
  then show ?thesis using assms(3) by (auto simp: earned_def split_beta)
qed

lemma loops_earned:
  assumes "policy_store env" "list_all (\<lambda>leg. \<not> configured_sovereign sid leg) legs"
  shows "claims_sovereign env sid (pm_vault (fst (foldl (evening_leg (at_time env t) pd j) (m, []) legs))) \<Longrightarrow>
      claims_sovereign env sid (pm_vault m) \<or> list_ex (promoted sid) (snd (foldl (evening_leg (at_time env t) pd j) (m, []) legs))"
    "claims_sovereign env sid (pm_vault (fst (foldl (shock_leg (at_time env t) why) (m, []) legs))) \<Longrightarrow>
      claims_sovereign env sid (pm_vault m) \<or> list_ex (promoted sid) (snd (foldl (shock_leg (at_time env t) why) (m, []) legs))"
    "claims_sovereign env sid (pm_vault (fst (foldl (recover_leg (at_time env t) pd stab j) (m, []) legs))) \<Longrightarrow>
      claims_sovereign env sid (pm_vault m) \<or> list_ex (promoted sid) (snd (foldl (recover_leg (at_time env t) pd stab j) (m, []) legs))"
proof -
  show "claims_sovereign env sid (pm_vault (fst (foldl (evening_leg (at_time env t) pd j) (m, []) legs))) \<Longrightarrow>
      claims_sovereign env sid (pm_vault m) \<or> list_ex (promoted sid) (snd (foldl (evening_leg (at_time env t) pd j) (m, []) legs))"
    by (rule legs_earned [OF assms]) blast+
  show "claims_sovereign env sid (pm_vault (fst (foldl (shock_leg (at_time env t) why) (m, []) legs))) \<Longrightarrow>
      claims_sovereign env sid (pm_vault m) \<or> list_ex (promoted sid) (snd (foldl (shock_leg (at_time env t) why) (m, []) legs))"
    by (rule legs_earned [OF assms]) blast+
  show "claims_sovereign env sid (pm_vault (fst (foldl (recover_leg (at_time env t) pd stab j) (m, []) legs))) \<Longrightarrow>
      claims_sovereign env sid (pm_vault m) \<or> list_ex (promoted sid) (snd (foldl (recover_leg (at_time env t) pd stab j) (m, []) legs))"
    by (rule legs_earned [OF assms]) blast+
qed

lemma step_earned:
  assumes "policy_store env" "list_all (\<lambda>leg. \<not> configured_sovereign sid leg) (op_legs x)"
    "claims_sovereign env sid (pm_vault (fst (policy_step env (m, past) x)))"
  shows "claims_sovereign env sid (pm_vault m) \<or> list_ex (promoted sid) (snd (policy_step env (m, past) x))"
proof (cases x)
  case (Evening t pd j legs)
  then show ?thesis using assms(2,3) loops_earned(1) [OF assms(1), of sid legs t pd j m]
    by (auto simp: run_evening_progression_def split_beta Let_def)
next
  case (Shock t detected reason legs)
  then show ?thesis using assms(2,3) loops_earned(2) [OF assms(1), of sid legs t "or_default reason ''macro_velocity_shock''" m]
    by (auto simp: handle_macro_velocity_shock_def split_beta Let_def split: if_splits)
next
  case (Recovery t pd stab j legs)
  then show ?thesis using assms(2,3) loops_earned(3) [OF assms(1), of sid legs t pd stab j m]
    by (auto simp: process_intraday_velocity_shock_recovery_def split_beta Let_def)
next
  case (StagedRollback t st l symbol reason cat hit)
  then show ?thesis using assms(3) policy_store.rollback_earned [OF at_time_store [OF assms(1), of t], of sid st l symbol reason cat hit m]
    by simp
next
  case PolicyRestart
  then show ?thesis using assms(3) by (simp add: new_policy_manager_def)
qed

lemma step_keeps_log: "list_ex P (snd s) \<Longrightarrow> list_ex P (snd (policy_step env s x))"
  by (cases s; cases x) (auto simp: Let_def split_beta)

text \<open>
  What an evening must find of a leg to make it sovereign: it is on probation, its live results
  breach no objective, its edge is not to be degraded, and the criteria of the promotion are met
  with the clean days counted up to tonight.
\<close>

definition criteria_met :: "'s policy_env \<Rightarrow> policy_ledgers \<Rightarrow> string \<Rightarrow> nat \<Rightarrow> bool" where
  "criteria_met env pd symbol clean =
     (let fills = symbol_rows symbol (load_attribution_frame (pe_now env) 30 None pd);
          slippage = (if fills = [] then 0 else np_mean (map at_slippage_pct fills));
          rows = load_shadow_frame (pe_now env) 30 (Some (str_upper symbol)) pd;
          ch = shadow_returns challenger_of rows; ru = shadow_returns rules_of rows
      in SOVEREIGN_MIN_FILLED_TRADES \<le> length fills
         \<and> SOVEREIGN_MIN_VERIFIED_TRADING_DAYS \<le> max (card ((day_of \<circ> at_timestamp) ` set fills)) clean
         \<and> slippage \<le> SOVEREIGN_MAX_AVG_SLIPPAGE_PCT
         \<and> SOVEREIGN_MIN_FILL_QUALITY_SCORE
               \<le> (if fills = [] then 1 else 1 - max 0 (min 1 (slippage / SOVEREIGN_MAX_AVG_SLIPPAGE_PCT)))
         \<and> SOVEREIGN_MIN_EDGE_VS_RULES \<le> (if ch \<noteq> [] \<and> ru \<noteq> [] then np_mean ch - np_mean ru else 0))"

definition clean_days_tonight :: "'s policy_env \<Rightarrow> policy_ledgers \<Rightarrow> string \<Rightarrow> 's \<Rightarrow> nat" where
  "clean_days_tonight env pd sid v =
     (let before = (case pe_get env sid v of None \<Rightarrow> 0 | Some r \<Rightarrow> pr_probation_clean_trading_days r)
      in if probation_anomaly_detected pd sid (day_of (pe_now env)) then 0
         else case pe_get env sid v of
                None \<Rightarrow> before + 1
              | Some r \<Rightarrow> if day_of (pr_updated_at r) = day_of (pe_now env) then before else before + 1)"

definition merited :: "'s policy_env \<Rightarrow> policy_ledgers \<Rightarrow> leg_context \<Rightarrow> 's policy_manager \<Rightarrow> bool" where
  "merited env pd leg m =
     (let (sid, symbol, params, configured) = leg
      in current_ai_state env leg (pm_vault m) = PROBATIONAL
         \<and> \<not> av_breached (evaluate_live_attribution_slo env pd sid symbol params)
         \<and> ed_directive (snd (evaluate_probation_edge env pd sid symbol m)) \<noteq> ''PREEMPTIVE_DEGRADE''
         \<and> criteria_met env pd symbol (clean_days_tonight env pd sid (pm_vault m)))"

lemma approved_iff: "sv_approved (evaluate_sovereign_promotion env pd symbol clean) \<longleftrightarrow> criteria_met env pd symbol clean"
proof -
  have one: "(if c then [x] else []) = [] \<longleftrightarrow> \<not> c" for c and x :: string by simp
  show ?thesis unfolding evaluate_sovereign_promotion_def criteria_met_def Let_def
    by (simp only: sovereign_verdict.select_convs append_is_Nil_conv one not_less length_remdups_card_conv set_map)
qed

lemma decide_merited:
  assumes "current_ai_state env leg (pm_vault m) = PROBATIONAL" "ev_state (decide_evening env pd j leg m) = SOVEREIGN"
  shows "merited env pd leg m"
proof -
  obtain sid symbol params configured where leg: "leg = (sid, symbol, params, configured)" by (metis prod.exhaust)
  show ?thesis
    using assms unfolding merited_def leg decide_evening_def Let_def split_beta prod.case
    by (auto simp: approved_iff clean_days_tonight_def rollback_never_sovereign attribution_rollback_state
        split: if_splits option.splits)
qed

lemma promoted_entry:
  "promoted sid \<lparr>lt_leg = l, lt_leg_symbol = symbol, lt_from_state = from_state, lt_to_state = to_state, lt_reason = why\<rparr> \<longleftrightarrow>
     l = sid \<and> from_state = PROBATIONAL \<and> to_state = SOVEREIGN \<and> why = ''sovereign_promotion_criteria_met''"
  by (simp add: promoted_def)

text \<open>A promotion in the log of an evening is a leg that merited it when its turn came.\<close>

lemma evening_log:
  "list_ex (promoted sid) (snd (foldl (evening_leg env pd j) (m, []) legs)) \<Longrightarrow>
     \<exists>before leg after. legs = before @ leg # after \<and> fst leg = sid \<and>
       merited env pd leg (fst (foldl (evening_leg env pd j) (m, []) before))"
proof (induction legs rule: rev_induct)
  case (snoc leg legs)
  obtain m' ts where run: "foldl (evening_leg env pd j) (m, []) legs = (m', ts)" by (cases "foldl (evening_leg env pd j) (m, []) legs")
  have step: "snd (evening_leg env pd j (m', ts) leg) = ts @
      [\<lparr>lt_leg = fst leg, lt_leg_symbol = fst (snd leg), lt_from_state = current_ai_state env leg (pm_vault m'),
        lt_to_state = ev_state (decide_evening env pd j leg m'), lt_reason = ev_reason (decide_evening env pd j leg m')\<rparr>]"
    by (simp add: evening_leg_def Let_def split_beta)
  then have log: "snd (foldl (evening_leg env pd j) (m, []) (legs @ [leg])) = snd (evening_leg env pd j (m', ts) leg)"
    by (simp add: run)
  show ?case
  proof (cases "list_ex (promoted sid) ts")
    case True
    then obtain before l after where "legs = before @ l # after" "fst l = sid"
      "merited env pd l (fst (foldl (evening_leg env pd j) (m, []) before))" using snoc.IH run by auto
    then show ?thesis by (intro exI [of _ before] exI [of _ l] exI [of _ "after @ [leg]"]) simp
  next
    case False
    then have "fst leg = sid" "merited env pd leg m'"
      using snoc.prems decide_merited [of env leg m' pd j] by (auto simp: run step promoted_entry)
    then show ?thesis by (intro exI [of _ legs] exI [of _ leg] exI [of _ "[]"]) (simp add: run)
  qed
qed simp

text \<open>The other loops log no promotion.\<close>

lemma shock_log: "\<not> list_ex (promoted sid) ts \<Longrightarrow> \<not> list_ex (promoted sid) (snd (foldl (shock_leg env why) (m, ts) legs))"
proof (induction legs arbitrary: m ts)
  case (Cons leg legs)
  obtain l symbol params configured where leg: "leg = (l, symbol, params, configured)" by (metis prod.exhaust)
  obtain m' ts' where step: "shock_leg env why (m, ts) leg = (m', ts')" by (cases "shock_leg env why (m, ts) leg")
  have "\<not> list_ex (promoted sid) ts'"
    using Cons.prems step
    by (auto simp: leg shock_leg_def Let_def execute_velocity_shock_demotion_def rolled_back_def promoted_entry split: if_splits)
  then show ?case using Cons.IH [of ts' m'] step by simp
qed simp

lemma recovery_log: "\<not> list_ex (promoted sid) ts \<Longrightarrow> \<not> list_ex (promoted sid) (snd (foldl (recover_leg env pd stab j) (m, ts) legs))"
proof (induction legs arbitrary: m ts)
  case (Cons leg legs)
  obtain l symbol rest where leg: "leg = (l, symbol, rest)" by (metis prod.exhaust)
  obtain m' ts' where step: "recover_leg env pd stab j (m, ts) leg = (m', ts')" by (cases "recover_leg env pd stab j (m, ts) leg")
  have "\<not> list_ex (promoted sid) ts'"
    using Cons.prems step by (auto simp: leg recover_leg_def Let_def split_beta promoted_entry split: option.splits if_splits)
  then show ?case using Cons.IH [of ts' m'] step by simp
qed simp

lemma step_log:
  assumes "list_ex (promoted sid) (snd (policy_step env (m, past) x))"
  shows "list_ex (promoted sid) past \<or>
    (\<exists>t pd j legs before leg after. x = Evening t pd j legs \<and> legs = before @ leg # after \<and> fst leg = sid \<and>
       merited (at_time env t) pd leg (fst (foldl (evening_leg (at_time env t) pd j) (m, []) before)))"
proof (cases x)
  case (Evening t pd j legs)
  then show ?thesis using assms evening_log [of sid "at_time env t" pd j m legs]
    by (auto simp: run_evening_progression_def split_beta Let_def split: if_splits)
next
  case (Shock t detected reason legs)
  then show ?thesis using assms shock_log [of sid "[]" "at_time env t"]
    by (auto simp: handle_macro_velocity_shock_def split_beta Let_def split: if_splits)
next
  case (Recovery t pd stab j legs)
  then show ?thesis using assms recovery_log [of sid "[]" "at_time env t"]
    by (auto simp: process_intraday_velocity_shock_recovery_def split_beta Let_def)
qed (use assms in simp_all)

text \<open>
  C28: No leg becomes sovereign but by promotion. Over any history of evenings, velocity shocks,
  recoveries, rollbacks and restarts, on any vault that keeps the rows it is given, a leg that had
  no claim to sovereignty (it was not sovereign, nor when a shock demoted it) and is not configured
  sovereign has one later only if the history contains an evening that, when the leg's turn came,
  found it on probation with no breached objective, an edge not to be degraded and every promotion
  criterion met: enough fills, enough verified or clean days, slippage, fill quality and the edge
  over the rules within their bounds.
\<close>

theorem sovereign_only_by_promotion:
  assumes "policy_store env" "\<not> claims_sovereign env sid (pm_vault m)"
    "list_all (\<lambda>x. list_all (\<lambda>leg. \<not> configured_sovereign sid leg) (op_legs x)) xs"
    "claims_sovereign env sid (pm_vault (fst (foldl (policy_step env) (m, []) xs)))"
  shows "\<exists>ys t pd j legs zs before leg after.
    xs = ys @ Evening t pd j legs # zs \<and> legs = before @ leg # after \<and> fst leg = sid \<and>
    merited (at_time env t) pd leg
      (fst (foldl (evening_leg (at_time env t) pd j) (fst (foldl (policy_step env) (m, []) ys), []) before))"
proof -
  have "claims_sovereign env sid (pm_vault (fst (foldl (policy_step env) s xs))) \<Longrightarrow>
      claims_sovereign env sid (pm_vault (fst s)) \<or> list_ex (promoted sid) (snd (foldl (policy_step env) s xs))" for s
    using assms(3)
  proof (induction xs rule: rev_induct)
    case (snoc x xs)
    let ?s = "foldl (policy_step env) s xs"
    have "claims_sovereign env sid (pm_vault (fst ?s)) \<or> list_ex (promoted sid) (snd (policy_step env ?s x))"
      using step_earned [OF assms(1), of sid x "fst ?s" "snd ?s"] snoc.prems by simp
    then show ?case using snoc.IH snoc.prems step_keeps_log [of "promoted sid" ?s env x] by auto
  qed simp
  from this [OF assms(4)] assms(2) have "list_ex (promoted sid) (snd (foldl (policy_step env) (m, []) xs))" by simp
  then show ?thesis
  proof (induction xs rule: rev_induct)
    case (snoc x xs)
    obtain m' past where s: "foldl (policy_step env) (m, []) xs = (m', past)" by (cases "foldl (policy_step env) (m, []) xs")
    show ?case
    proof (cases "list_ex (promoted sid) past")
      case True
      then obtain ys t pd j legs zs before leg after where
        "xs = ys @ Evening t pd j legs # zs" "legs = before @ leg # after" "fst leg = sid"
        "merited (at_time env t) pd leg
          (fst (foldl (evening_leg (at_time env t) pd j) (fst (foldl (policy_step env) (m, []) ys), []) before))"
        using snoc.IH s by auto
      then show ?thesis by (intro exI [of _ ys] exI [of _ t] exI [of _ pd] exI [of _ j] exI [of _ legs]
          exI [of _ "zs @ [x]"] exI [of _ before] exI [of _ leg] exI [of _ after]) simp
    next
      case False
      then obtain t pd j legs before leg after where
        "x = Evening t pd j legs" "legs = before @ leg # after" "fst leg = sid"
        "merited (at_time env t) pd leg (fst (foldl (evening_leg (at_time env t) pd j) (m', []) before))"
        using snoc.prems step_log [of sid env m' past x] s by auto
      then show ?thesis by (intro exI [of _ xs] exI [of _ t] exI [of _ pd] exI [of _ j] exI [of _ legs]
          exI [of _ "[]"] exI [of _ before] exI [of _ leg] exI [of _ after]) (simp add: s)
    qed
  qed simp
qed

section \<open>A shock takes all authority\<close>

context policy_store
begin

lemma shock_leg_vault:
  fixes l symbol params configured
  defines "leg \<equiv> (l, symbol, params, configured)"
  shows "if current_ai_state env leg (pm_vault m) = PASSIVE then pm_vault (fst (shock_leg env why (m, ts) leg)) = pm_vault m
    else stored_state env l (pm_vault (fst (shock_leg env why (m, ts) leg))) = Some PASSIVE \<and>
         shock_memory env l (pm_vault (fst (shock_leg env why (m, ts) leg))) = Some (current_ai_state env leg (pm_vault m)) \<and>
         map_option pr_velocity_shock_demoted_at (pe_get env l (pm_vault (fst (shock_leg env why (m, ts) leg)))) = Some (Some (pe_now env))"
    and "sid \<noteq> l \<Longrightarrow> pe_get env sid (pm_vault (fst (shock_leg env why (m, ts) leg))) = pe_get env sid (pm_vault m)"
proof -
  let ?st = "current_ai_state env leg (pm_vault m)"
  let ?u = "(plain_upsert l symbol PASSIVE None (Some (day_of (pe_now env))) None)
     \<lparr>pu_velocity_shock_prior_state := Set (Some ?st), pu_velocity_shock_demoted_at := Set (Some (pe_now env))\<rparr>"
  have st: "?st \<in> {PASSIVE, PROBATIONAL, SOVEREIGN}" by (rule current_valid)
  then have valid: "valid_or_passive ?st = ?st" by (auto simp: valid_or_passive_def valid_state_def)
  have pass: "pm_vault (fst (shock_leg env why (m, ts) leg)) = pm_vault m" if "?st = PASSIVE"
    using that by (simp add: shock_leg_def Let_def leg_def execute_velocity_shock_demotion_def valid_or_passive_def valid_state_def)
  have act: "pm_vault (fst (shock_leg env why (m, ts) leg)) = pm_vault (write_row env ?u m)" if "?st \<noteq> PASSIVE"
    using that st valid by (auto simp: shock_leg_def Let_def leg_def execute_velocity_shock_demotion_def reset_streak_def)
  have u: "pu_strategy_id ?u = l" by (simp add: plain_upsert_def)
  show "if ?st = PASSIVE then pm_vault (fst (shock_leg env why (m, ts) leg)) = pm_vault m
    else stored_state env l (pm_vault (fst (shock_leg env why (m, ts) leg))) = Some PASSIVE \<and>
         shock_memory env l (pm_vault (fst (shock_leg env why (m, ts) leg))) = Some ?st \<and>
         map_option pr_velocity_shock_demoted_at (pe_get env l (pm_vault (fst (shock_leg env why (m, ts) leg)))) = Some (Some (pe_now env))"
    using pass act write_row_state [of ?u m] write_row_memory [of ?u m] get_write_own [of ?u m] u
    by (auto simp: plain_upsert_def row_after_def kept_def)
  show "sid \<noteq> l \<Longrightarrow> pe_get env sid (pm_vault (fst (shock_leg env why (m, ts) leg))) = pe_get env sid (pm_vault m)"
    using pass act get_write_other [of sid ?u m] u by (cases "?st = PASSIVE") simp_all
qed

lemma current_of_rows:
  "stored_state env l v = Some PASSIVE \<Longrightarrow> current_ai_state env (l, rest) v = PASSIVE"
  "pe_get env l v = pe_get env l v' \<Longrightarrow> current_ai_state env (l, rest) v = current_ai_state env (l, rest) v'"
  by (auto simp: current_ai_state_def stored_state_def valid_or_passive_def split: prod.split)

lemma shock_leg_demotes: "current_ai_state env leg (pm_vault (fst (shock_leg env why (m, ts) leg))) = PASSIVE"
proof -
  obtain l symbol params configured where leg: "leg = (l, symbol, params, configured)" by (metis prod.exhaust)
  show ?thesis using shock_leg_vault(1) [where l = l and symbol = symbol and params = params and configured = configured and m = m and why = why and ts = ts] current_of_rows(1)
    unfolding leg by (metis (full_types))
qed

lemma shock_leg_keeps:
  assumes "current_ai_state env leg (pm_vault m) = PASSIVE"
  shows "current_ai_state env leg (pm_vault (fst (shock_leg env why (m, ts) x))) = PASSIVE"
proof -
  obtain l symbol params configured where leg: "leg = (l, symbol, params, configured)" by (metis prod.exhaust)
  obtain k symbol' params' configured' where x: "x = (k, symbol', params', configured')" by (metis prod.exhaust)
  show ?thesis
  proof (cases "k = l")
    case True
    then show ?thesis using shock_leg_vault(1) [where l = k and symbol = symbol' and params = params' and configured = configured' and m = m and why = why and ts = ts] current_of_rows(1) assms
      unfolding leg x by (metis (full_types))
  next
    case False
    then show ?thesis
      using shock_leg_vault(2) [where sid = l and l = k and symbol = symbol' and params = params' and configured = configured' and m = m and why = why and ts = ts] current_of_rows(2) assms unfolding leg x by metis
  qed
qed

lemma shock_all_demoted:
  assumes "leg \<in> set legs \<or> current_ai_state env leg (pm_vault (fst s)) = PASSIVE"
  shows "current_ai_state env leg (pm_vault (fst (foldl (shock_leg env why) s legs))) = PASSIVE"
  using assms
proof (induction legs arbitrary: s)
  case (Cons x legs)
  then have "leg \<in> set legs \<or> current_ai_state env leg (pm_vault (fst (shock_leg env why s x))) = PASSIVE"
    using shock_leg_demotes [of leg why "fst s" "snd s"] shock_leg_keeps [of leg "fst s" why "snd s" x] by auto
  from Cons.IH [OF this] show ?case by simp
qed simp

end

text \<open>
  C29: A macro velocity shock strips every leg of the cycle of its authority in one step: whatever a
  leg was, stored or configured, sovereign or on probation, it is passive after the handler, and
  the transitions reported are exactly demotions to passive.
\<close>

theorem shock_strips_authority:
  assumes "policy_store env"
  shows "list_all (\<lambda>leg. current_ai_state env leg (pm_vault (fst (handle_macro_velocity_shock env True reason legs m))) = PASSIVE) legs \<and>
    list_all (\<lambda>t. lt_to_state t = PASSIVE \<and> lt_from_state t \<in> {PROBATIONAL, SOVEREIGN})
      (fst (snd (handle_macro_velocity_shock env True reason legs m)))"
proof
  show "list_all (\<lambda>leg. current_ai_state env leg (pm_vault (fst (handle_macro_velocity_shock env True reason legs m))) = PASSIVE) legs"
    using policy_store.shock_all_demoted [OF assms] by (simp add: handle_macro_velocity_shock_def Let_def split_beta list_all_iff)
  have step: "list_all P (snd (shock_leg env why s x))"
    if "list_all P (snd s)" "P = (\<lambda>t. lt_to_state t = PASSIVE \<and> lt_from_state t \<in> {PROBATIONAL, SOVEREIGN})" for P why s x
    using that by (cases s) (auto simp: shock_leg_def Let_def split_beta execute_velocity_shock_demotion_def rolled_back_def)
  have "list_all (\<lambda>t. lt_to_state t = PASSIVE \<and> lt_from_state t \<in> {PROBATIONAL, SOVEREIGN}) (snd (foldl (shock_leg env why) s legs))"
    if "list_all (\<lambda>t. lt_to_state t = PASSIVE \<and> lt_from_state t \<in> {PROBATIONAL, SOVEREIGN}) (snd s)" for why s
    using that by (induction legs arbitrary: s) (simp_all add: step)
  then show "list_all (\<lambda>t. lt_to_state t = PASSIVE \<and> lt_from_state t \<in> {PROBATIONAL, SOVEREIGN})
      (fst (snd (handle_macro_velocity_shock env True reason legs m)))"
    by (simp add: handle_macro_velocity_shock_def Let_def split_beta)
qed

section \<open>Shock and recovery\<close>

context policy_store
begin

lemma recovery_restores:
  assumes "pe_get env l (pm_vault m) = Some stored" "pr_execution_state stored = PASSIVE"
    "pr_velocity_shock_prior_state stored = Some prior" "valid_state prior" "prior \<noteq> PASSIVE" "st_stabilized s"
    "rv_approved (evaluate_velocity_shock_shadow_recovery env pd symbol (pr_velocity_shock_demoted_at stored))"
  shows "stored_state env l (pm_vault (fst (recover_leg env pd (Some s) j (m, ts) (l, symbol, rest)))) = Some prior"
    "shock_memory env l (pm_vault (fst (recover_leg env pd (Some s) j (m, ts) (l, symbol, rest)))) = None"
proof -
  have att: "attempt_velocity_shock_recovery env pd symbol stored (Some s) =
      (prior, ''velocity_shock_cool_off_recovery'',
       Some (evaluate_velocity_shock_shadow_recovery env pd symbol (pr_velocity_shock_demoted_at stored)))"
    using assms by (simp add: attempt_velocity_shock_recovery_def Let_def)
  obtain u m1 where step: "fst (recover_leg env pd (Some s) j (m, ts) (l, symbol, rest)) = write_row env u m1"
    and u: "pu_strategy_id u = l" "pu_execution_state u = prior" "pu_velocity_shock_prior_state u = Set None"
    using assms att by (force simp: recover_leg_def Let_def)
  show "stored_state env l (pm_vault (fst (recover_leg env pd (Some s) j (m, ts) (l, symbol, rest)))) = Some prior"
    "shock_memory env l (pm_vault (fst (recover_leg env pd (Some s) j (m, ts) (l, symbol, rest)))) = None"
    using write_row_state [of u m1] write_row_memory [of u m1] u by (simp_all add: step)
qed

end

text \<open>
  C30: Recovery is the inverse of the shock. A leg demoted from probation or sovereignty is passive;
  a recovery under a stabilised regime whose shadow test approves gives it back exactly the state it
  had and forgets the shock; without a verdict, under a verdict that the regime is not stabilised, or
  with a shadow test that does not approve, the recovery changes nothing at all.
\<close>

theorem recovery_undoes_shock:
  fixes env :: "'s policy_env"
  assumes "policy_store env" "current_ai_state env (l, symbol, params, configured) (pm_vault m) \<noteq> PASSIVE"
  shows "let leg = (l, symbol, params, configured);
             m1 = fst (handle_macro_velocity_shock env True reason [leg] m);
             m2 = fst (process_intraday_velocity_shock_recovery (at_time env later) pd stab j [leg] m1)
         in stored_state env l (pm_vault m1) = Some PASSIVE \<and>
            (if (case stab of None \<Rightarrow> False | Some s \<Rightarrow> st_stabilized s)
                \<and> rv_approved (evaluate_velocity_shock_shadow_recovery (at_time env later) pd symbol (Some (pe_now env)))
             then stored_state env l (pm_vault m2) = Some (current_ai_state env leg (pm_vault m))
                  \<and> shock_memory env l (pm_vault m2) = None
             else m2 = m1)"
proof -
  let ?leg = "(l, symbol, params, configured)"
  let ?st = "current_ai_state env ?leg (pm_vault m)"
  let ?m = "fst (handle_macro_velocity_shock env True reason [?leg] m)"
  let ?m2 = "fst (process_intraday_velocity_shock_recovery (at_time env later) pd stab j [?leg] ?m)"
  let ?ok = "rv_approved (evaluate_velocity_shock_shadow_recovery (at_time env later) pd symbol (Some (pe_now env)))"
  have shocked: "?m = fst (shock_leg env (or_default reason ''macro_velocity_shock'') (m, []) ?leg)"
    by (simp add: handle_macro_velocity_shock_def Let_def split_beta)
  have after: "stored_state env l (pm_vault ?m) = Some PASSIVE" "shock_memory env l (pm_vault ?m) = Some ?st"
      "map_option pr_velocity_shock_demoted_at (pe_get env l (pm_vault ?m)) = Some (Some (pe_now env))"
    using policy_store.shock_leg_vault(1) [OF assms(1), of l symbol params configured m "or_default reason ''macro_velocity_shock''" "[]"]
      assms(2) unfolding shocked by simp_all
  obtain r where r: "pe_get env l (pm_vault ?m) = Some r" "pr_execution_state r = PASSIVE" "pr_velocity_shock_prior_state r = Some ?st"
      "pr_velocity_shock_demoted_at r = Some (pe_now env)"
    using after by (auto simp: stored_state_def shock_memory_def split: option.splits)
  have valid: "valid_state ?st" using current_valid [of env ?leg "pm_vault m"] by (simp add: valid_state_def)
  have get: "pe_get (at_time env later) l (pm_vault ?m) = Some r" using r(1) by (simp add: at_time_def)
  have given: "stored_state env l (pm_vault ?m2) = Some ?st \<and> shock_memory env l (pm_vault ?m2) = None"
    if "stab = Some s" "st_stabilized s" ?ok for s
    using policy_store.recovery_restores [OF at_time_store [OF assms(1), of later] get r(2,3) valid assms(2) that(2) that(3) [folded r(4)],
        of j "[]" "(params, configured)"] that(1)
    by (simp add: process_intraday_velocity_shock_recovery_def)
  have kept: "?m2 = ?m" if "\<not> ((case stab of None \<Rightarrow> False | Some s \<Rightarrow> st_stabilized s) \<and> ?ok)"
    using that get r valid
    by (auto simp: process_intraday_velocity_shock_recovery_def recover_leg_def attempt_velocity_shock_recovery_def Let_def
        split: option.splits)
  show ?thesis unfolding Let_def using after(1) given kept by (auto split: option.splits)
qed

section \<open>The sieve\<close>

lemma shadow_alone_one_sample: "length (fst (foldl shadow_step (ch, ru) rows)) \<le> max 1 (length ch)"
proof (induction rows arbitrary: ch ru)
  case (Cons r rows)
  show ?case
  proof (cases "sh_realized_reward_24h r")
    case None
    then show ?thesis using Cons.IH by (simp add: shadow_step_def)
  next
    case (Some x)
    then show ?thesis
      using Cons.IH [of "if ch = [] then [challenger_of r x] else ch" "ru @ [rules_of r x]"] by (simp add: shadow_step_def split: if_splits)
  qed
qed simp

text \<open>
  Without attribution rows the challenger's list of returns never grows past one, so a policy that
  has only run in shadow is always refused for want of samples.
\<close>

lemma shadow_only_never_enters:
  assumes "load_attribution_frame (pe_now env) LOOKBACK_30D None pd = []"
  shows "\<not> fst (evaluate_probation_entry env pd symbol None vault)"
proof -
  let ?w = "compute_stratified_window (pe_resolve_trading_session env) LOOKBACK_30D []
     (load_shadow_frame (pe_now env) LOOKBACK_30D (Some (str_upper symbol)) pd)"
  have "sw_sample_count ?w \<le> 1"
    using shadow_alone_one_sample [of "[]" "[]" "load_shadow_frame (pe_now env) LOOKBACK_30D (Some (str_upper symbol)) pd"]
    by (simp add: compute_stratified_window_def Let_def split_beta)
  then have "window_reasons ''30d'' ?w \<noteq> []" by (simp add: window_reasons_def MIN_STRATUM_SAMPLES_def)
  then show ?thesis using assms by (simp add: evaluate_probation_entry_def Let_def)
qed

text \<open>
  The decay ratio of 85\% never decides: a challenger that earns at least what the rules earn passes
  it, and one that earns less is refused before it counts, as soon as the rules earn anything to
  speak of.
\<close>

lemma edge_tolerance_unused:
  assumes "1 / 10 ^ 9 \<le> ru"
  shows "PROBATION_EDGE_DECAY_RATIO \<le> edge_ratio_of ch ru \<and> ru \<le> ch \<longleftrightarrow> ru \<le> ch"
proof -
  have pos: "0 < ru" using assms by (rule less_le_trans [rotated]) simp
  then have "edge_ratio_of ch ru = ch / ru" using assms by (simp add: edge_ratio_of_def max_absorb1)
  moreover have "1 \<le> ch / ru" if "ru \<le> ch" using that pos by simp
  ultimately show ?thesis unfolding PROBATION_EDGE_DECAY_RATIO_def by linarith
qed

section \<open>The evening forgets the rollback\<close>

context policy_store
begin

lemma evening_row:
  fixes m ts l symbol params configured pd j
  defines "d \<equiv> decide_evening env pd j (l, symbol, params, configured) m"
  shows "map_option pr_probation_clean_trading_days
      (pe_get env l (pm_vault (fst (evening_leg env pd j (m, ts) (l, symbol, params, configured))))) = Some (ev_clean_days d)"
    "map_option pr_probation_started_at
      (pe_get env l (pm_vault (fst (evening_leg env pd j (m, ts) (l, symbol, params, configured))))) = Some (ev_probation_started d)"
    "stored_state env l (pm_vault (fst (evening_leg env pd j (m, ts) (l, symbol, params, configured)))) = Some (ev_state d)"
proof -
  obtain u where step: "fst (evening_leg env pd j (m, ts) (l, symbol, params, configured)) = write_row env u (ev_manager d)"
    and u: "pu_strategy_id u = l" "pu_execution_state u = ev_state d" "pu_probation_clean_trading_days u = ev_clean_days d"
      "pu_probation_started_at u = ev_probation_started d"
    by (auto simp: evening_leg_def Let_def d_def)
  show "map_option pr_probation_clean_trading_days
      (pe_get env l (pm_vault (fst (evening_leg env pd j (m, ts) (l, symbol, params, configured))))) = Some (ev_clean_days d)"
    "map_option pr_probation_started_at
      (pe_get env l (pm_vault (fst (evening_leg env pd j (m, ts) (l, symbol, params, configured))))) = Some (ev_probation_started d)"
    "stored_state env l (pm_vault (fst (evening_leg env pd j (m, ts) (l, symbol, params, configured)))) = Some (ev_state d)"
    using get_write_own [of u "ev_manager d"] u by (auto simp: step row_after_def stored_state_def)
qed

text \<open>
  A sovereign leg that loses its edge is put on probation with its old clean days and its old
  start of probation: the reset the rollback has just written is overwritten.
\<close>

lemma evening_overwrites_rollback:
  assumes "pe_get env l (pm_vault m) = Some r" "pr_execution_state r = SOVEREIGN"
    "\<not> av_breached (evaluate_live_attribution_slo env pd l symbol params)"
    "\<not> ed_maintains_edge (snd (evaluate_probation_edge env pd l symbol m))"
    "1 \<le> ed_decay_streak (snd (evaluate_probation_edge env pd l symbol m))"
  shows "stored_state env l (pm_vault (fst (evening_leg env pd j (m, ts) (l, symbol, params, configured)))) = Some PROBATIONAL"
    "map_option pr_probation_clean_trading_days
      (pe_get env l (pm_vault (fst (evening_leg env pd j (m, ts) (l, symbol, params, configured))))) = Some (pr_probation_clean_trading_days r)"
    "map_option pr_probation_started_at
      (pe_get env l (pm_vault (fst (evening_leg env pd j (m, ts) (l, symbol, params, configured))))) = Some (pr_probation_started_at r)"
proof -
  have cur: "current_ai_state env (l, symbol, params, configured) (pm_vault m) = SOVEREIGN"
    using assms(1,2) by (simp add: current_ai_state_def valid_or_passive_def valid_state_def)
  have "rb_new_state (snd (execute_staged_rollback env SOVEREIGN l symbol ''sovereign_edge_decay'' False None m')) = PROBATIONAL" for m'
    by (simp add: execute_staged_rollback_def Let_def rolled_back_def valid_or_passive_def valid_state_def)
  then have "ev_state (decide_evening env pd j (l, symbol, params, configured) m) = PROBATIONAL"
    "ev_clean_days (decide_evening env pd j (l, symbol, params, configured) m) = pr_probation_clean_trading_days r"
    "ev_probation_started (decide_evening env pd j (l, symbol, params, configured) m) = pr_probation_started_at r"
    using assms cur by (simp_all add: decide_evening_def Let_def split_beta)
  then show "stored_state env l (pm_vault (fst (evening_leg env pd j (m, ts) (l, symbol, params, configured)))) = Some PROBATIONAL"
    "map_option pr_probation_clean_trading_days
      (pe_get env l (pm_vault (fst (evening_leg env pd j (m, ts) (l, symbol, params, configured))))) = Some (pr_probation_clean_trading_days r)"
    "map_option pr_probation_started_at
      (pe_get env l (pm_vault (fst (evening_leg env pd j (m, ts) (l, symbol, params, configured))))) = Some (pr_probation_started_at r)"
    by (simp_all only: evening_row)
qed

end

text \<open>
  The journal entry of an attribution rollback says passive, but a sovereign leg is only put on
  probation.
\<close>

lemma attribution_rollback_misreported:
  assumes "restored_params_of env (pe_prior_config_backup env symbol
      (pm_vault (fst (execute_staged_rollback env SOVEREIGN sid symbol reason False None m)))) = kv # kvs" "reason \<noteq> ''execution_drift''"
  shows "rb_new_state (snd (execute_attribution_rules_rollback env sid symbol SOVEREIGN reason True m)) = PROBATIONAL \<and>
    last (pm_journal (fst (execute_attribution_rules_rollback env sid symbol SOVEREIGN reason True m))) =
      RecoveryRollback sid SOVEREIGN PASSIVE (kv # kvs) reason"
  using assms by (simp add: execute_attribution_rules_rollback_def execute_staged_rollback_def Let_def split_beta rolled_back_def
      valid_or_passive_def valid_state_def)

section \<open>A vault of rows, and samples\<close>

definition dict_env :: "(string, policy_row) dict policy_env" where
  "dict_env =
     \<lparr>pe_now = days 100, pe_get = (\<lambda>sid v. map_of v sid),
      pe_upsert = (\<lambda>u v. AList.update (pu_strategy_id u) (row_after u (map_of v (pu_strategy_id u)) 0) v),
      pe_count_tuples = (\<lambda>_. 0), pe_min_tuples = 0, pe_is_evicted = (\<lambda>_. False), pe_mark_evicted = (\<lambda>_ _ v. v),
      pe_mark_failed_attribution = (\<lambda>_ _ _ v. v), pe_prior_config_backup = (\<lambda>_ _. None), pe_load_params = (\<lambda>_. None),
      pe_int_text = (\<lambda>_. []), pe_resolve_trading_session = (\<lambda>_. ''RTH'')\<rparr>"

interpretation dict_vault: policy_store dict_env
  by unfold_locales (auto simp: dict_env_def)

definition sample_row :: "ai_state \<Rightarrow> policy_row" where
  "sample_row st =
     \<lparr>pr_symbol = ''QQQ'', pr_execution_state = st, pr_probation_started_at = Some 0, pr_probation_clean_trading_days = 9,
      pr_last_anomaly_session = None, pr_eviction_lockout_until = None, pr_velocity_shock_prior_state = None,
      pr_velocity_shock_demoted_at = None, pr_updated_at = 0\<rparr>"

definition sample_policy :: "ai_state \<Rightarrow> (string, policy_row) dict policy_manager" where
  "sample_policy st = new_policy_manager [(''q'', sample_row st)]"

definition sample_context :: leg_context where
  "sample_context = (''q'', ''QQQ'', [], None)"

definition sample_ledgers :: policy_ledgers where
  "sample_ledgers =
     \<lparr>pd_attribution = Some (replicate 25 \<lparr>at_timestamp = days 99, at_strategy_id = ''other'', at_symbol = ''QQQ'', at_pnl = 1,
         at_slippage_pct = 0, at_regime_id = ''CALM_MR'', at_session_type = ''RTH''\<rparr>),
      pd_shadow = Some [\<lparr>sh_timestamp = days 99, sh_symbol = ''QQQ'', sh_shadow_action_taken = ''ALLOCATION_MAX'',
         sh_realized_reward_24h = Some 1, sh_rules_engine_action = ''NO_TRADE_FALLBACK''\<rparr>],
      pd_dual = Some (replicate 5 \<lparr>du_timestamp = days 101, du_symbol = ''QQQ'', du_challenger_pnl = Some 2,
         du_rules_baseline_pnl = Some 1\<rparr>),
      pd_health = Some []\<rparr>"

lemma sample_slo: "\<not> av_breached (evaluate_live_attribution_slo dict_env sample_ledgers ''q'' ''QQQ'' [])"
proof -
  have "load_attribution_frame (pe_now dict_env) n (Some ''q'') sample_ledgers = []" for n
    by (simp add: load_attribution_frame_def sample_ledgers_def Let_def truthy_def)
  then show ?thesis
    by (simp add: evaluate_live_attribution_slo_def Let_def symbol_rows_def PROBATION_MIN_ATTRIBUTION_TRADES_def)
qed

lemma sample_promotion: "ev_state (decide_evening dict_env sample_ledgers False sample_context (sample_policy PROBATIONAL)) = SOVEREIGN"
proof -
  have "current_ai_state dict_env sample_context (pm_vault (sample_policy PROBATIONAL)) = PROBATIONAL"
    "ed_directive (snd (evaluate_probation_edge dict_env sample_ledgers ''q'' ''QQQ'' (sample_policy PROBATIONAL))) \<noteq> ''PREEMPTIVE_DEGRADE''"
    "\<not> probation_anomaly_detected sample_ledgers ''q'' (day_of (pe_now dict_env))"
    "sv_approved (evaluate_sovereign_promotion dict_env sample_ledgers ''QQQ'' 10)"
    "pe_get dict_env ''q'' (pm_vault (sample_policy PROBATIONAL)) = Some (sample_row PROBATIONAL)"
    "day_of (pr_updated_at (sample_row PROBATIONAL)) \<noteq> day_of (pe_now dict_env)"
    "pr_probation_clean_trading_days (sample_row PROBATIONAL) = 9"
    by code_simp+
  then show ?thesis using sample_slo unfolding sample_context_def
    by (simp add: decide_evening_def Let_def split_beta)
qed

theorem sovereign_only_by_promotion_witness:
  "criteria_met dict_env sample_ledgers ''QQQ'' (clean_days_tonight dict_env sample_ledgers ''q'' (pm_vault (sample_policy PROBATIONAL)))"
proof -
  let ?xs = "[Evening (days 100) sample_ledgers False [sample_context]]"
  have time: "at_time dict_env (days 100) = dict_env" by (simp add: at_time_def dict_env_def)
  have "\<not> claims_sovereign dict_env ''q'' (pm_vault (sample_policy PROBATIONAL))"
    "list_all (\<lambda>x. list_all (\<lambda>leg. \<not> configured_sovereign ''q'' leg) (op_legs x)) ?xs"
    by code_simp+
  moreover have "claims_sovereign dict_env ''q'' (pm_vault (fst (foldl (policy_step dict_env) (sample_policy PROBATIONAL, []) ?xs)))"
    using time dict_vault.evening_row(3) [of "''q''" sample_ledgers False "sample_policy PROBATIONAL" "[]" "''QQQ''" "[]" None] sample_promotion
    by (simp add: run_evening_progression_def split_beta Let_def claims_sovereign_def sample_context_def)
  ultimately obtain ys t pd j legs zs before leg after where
    x: "?xs = ys @ Evening t pd j legs # zs" and l: "legs = before @ leg # after" and
    m: "merited (at_time dict_env t) pd leg
      (fst (foldl (evening_leg (at_time dict_env t) pd j) (fst (foldl (policy_step dict_env) (sample_policy PROBATIONAL, []) ys), []) before))"
    using sovereign_only_by_promotion [OF dict_vault.policy_store_axioms, of "''q''" "sample_policy PROBATIONAL" ?xs] by blast
  from x have "ys = [] \<and> t = days 100 \<and> pd = sample_ledgers \<and> legs = [sample_context]" by (cases ys) auto
  moreover from this l have "before = [] \<and> leg = sample_context" by (cases before) auto
  ultimately show ?thesis using m by (simp add: time merited_def sample_context_def)
qed

theorem shock_strips_authority_witness:
  "current_ai_state dict_env sample_context
     (pm_vault (fst (handle_macro_velocity_shock dict_env True [] [sample_context] (sample_policy SOVEREIGN)))) = PASSIVE"
  using shock_strips_authority [OF dict_vault.policy_store_axioms, of "[]" "[sample_context]" "sample_policy SOVEREIGN"] by simp

theorem recovery_undoes_shock_witness:
  "stored_state dict_env ''q'' (pm_vault (fst (process_intraday_velocity_shock_recovery (at_time dict_env (days 102)) sample_ledgers
     (Some \<lparr>st_stabilized = True, st_reason = []\<rparr>) False [sample_context]
     (fst (handle_macro_velocity_shock dict_env True [] [sample_context] (sample_policy SOVEREIGN)))))) = Some SOVEREIGN"
proof -
  have "current_ai_state dict_env (''q'', ''QQQ'', [], None) (pm_vault (sample_policy SOVEREIGN)) = SOVEREIGN"
    "rv_approved (evaluate_velocity_shock_shadow_recovery (at_time dict_env (days 102)) sample_ledgers ''QQQ'' (Some (pe_now dict_env)))"
    by code_simp+
  then show ?thesis
    using recovery_undoes_shock [OF dict_vault.policy_store_axioms, of "''q''" "''QQQ''" "[]" None "sample_policy SOVEREIGN" "[]" "days 102"
        sample_ledgers "Some \<lparr>st_stabilized = True, st_reason = []\<rparr>" False]
    unfolding Let_def by (simp add: sample_context_def)
qed

section \<open>Rows stay legal\<close>

text \<open>A row's state is one of the three, and what a shock remembers is an authority it took.\<close>

definition row_legal :: "'s policy_env \<Rightarrow> 's \<Rightarrow> string \<Rightarrow> bool" where
  "row_legal env v sid =
     ((case stored_state env sid v of None \<Rightarrow> True | Some st \<Rightarrow> valid_state st) \<and>
      (case shock_memory env sid v of None \<Rightarrow> True | Some st \<Rightarrow> st \<in> {PROBATIONAL, SOVEREIGN}))"

definition upsert_legal :: "policy_upsert \<Rightarrow> bool" where
  "upsert_legal u = (valid_state (pu_execution_state u) \<and>
     pu_velocity_shock_prior_state u \<in> {Keep, Set None, Set (Some PROBATIONAL), Set (Some SOVEREIGN)})"

lemma plain_upsert_legal: "valid_state st \<Longrightarrow> upsert_legal (plain_upsert sid symbol st started anomaly lockout)"
  by (simp add: upsert_legal_def plain_upsert_def)

lemma row_legal_cong:
  assumes "pe_get env sid v = pe_get env sid v'"
  shows "row_legal env v sid = row_legal env v' sid"
  using rows_only [OF assms] by (simp add: row_legal_def)

lemma row_legal_time [simp]: "row_legal (at_time env t) v sid = row_legal env v sid"
  by (simp add: row_legal_def)

lemma decided_valid: "valid_state (ev_state (decide_evening env pd j leg m))"
proof -
  have rb: "valid_state (rb_new_state (snd (execute_staged_rollback env st l symbol reason cat hit m')))" for st l symbol reason cat hit m'
    by (auto simp: execute_staged_rollback_def Let_def rolled_back_def valid_or_passive_def valid_state_def)
  have valid: "valid_state PASSIVE" "valid_state PROBATIONAL" "valid_state SOVEREIGN" by (simp_all add: valid_state_def)
  moreover have "valid_state (current_ai_state env leg (pm_vault m))"
    using current_valid [of env leg "pm_vault m"] valid by auto
  ultimately show ?thesis
    by (simp add: decide_evening_def Let_def split_beta rb attribution_rollback_state)
qed

context policy_store
begin

lemma write_legal:
  assumes "upsert_legal u" "row_legal env (pm_vault m) sid"
  shows "row_legal env (pm_vault (write_row env u m)) sid"
proof (cases "sid = pu_strategy_id u")
  case True
  then show ?thesis using assms write_row_state [of u m] write_row_memory [of u m]
    by (auto simp: row_legal_def upsert_legal_def)
next
  case False
  then show ?thesis using assms(2) row_legal_cong [OF get_write_other [OF False]] by simp
qed

lemma rollback_legal:
  assumes "row_legal env (pm_vault m) sid"
  shows "row_legal env (pm_vault (fst (execute_staged_rollback env st l symbol reason cat hit m))) sid"
proof -
  have mark: "row_legal env (pe_mark_evicted env r n (pm_vault m)) sid" for r n
    using row_legal_cong [OF get_mark_evicted] assms by simp
  have "valid_state PASSIVE" "valid_state PROBATIONAL" by (simp_all add: valid_state_def)
  then show ?thesis using assms mark
    by (simp add: execute_staged_rollback_def Let_def reset_streak_def write_legal plain_upsert_legal)
qed

lemma evening_leg_legal: "row_legal env (pm_vault m) sid \<Longrightarrow> row_legal env (pm_vault (fst (evening_leg env pd j (m, ts) leg))) sid"
proof -
  assume legal: "row_legal env (pm_vault m) sid"
  obtain l symbol params configured where leg: "leg = (l, symbol, params, configured)" by (metis prod.exhaust)
  have attr: "row_legal env (pm_vault (fst (execute_attribution_rules_rollback env l symbol st reason j m'))) sid"
    if "row_legal env (pm_vault m') sid" for st reason m'
    using rollback_legal [OF that] row_legal_cong [OF attribution_rollback_get] by simp
  have "row_legal env (pm_vault (ev_manager (decide_evening env pd j leg m))) sid"
    using legal by (simp add: leg decide_evening_def Let_def split_beta attr rollback_legal edge_get)
  moreover obtain u where u: "fst (evening_leg env pd j (m, ts) leg) = write_row env u (ev_manager (decide_evening env pd j leg m))"
    "pu_execution_state u = ev_state (decide_evening env pd j leg m)" "pu_velocity_shock_prior_state u = Keep"
    by (auto simp: evening_leg_def leg Let_def)
  moreover have "upsert_legal u" using u decided_valid [of env pd j leg m] by (simp add: upsert_legal_def)
  ultimately show ?thesis using write_legal by simp
qed

lemma shock_leg_legal: "row_legal env (pm_vault m) sid \<Longrightarrow> row_legal env (pm_vault (fst (shock_leg env why (m, ts) leg))) sid"
  using current_valid [of env leg "pm_vault m"]
  by (cases leg) (auto simp: shock_leg_def Let_def execute_velocity_shock_demotion_def reset_streak_def valid_or_passive_def
      upsert_legal_def plain_upsert_def valid_state_def intro: write_legal)

lemma recover_leg_legal:
  assumes "\<And>l. row_legal env (pm_vault m) l"
  shows "row_legal env (pm_vault (fst (recover_leg env pd stab j (m, ts) leg))) sid"
proof -
  obtain l symbol rest where leg: "leg = (l, symbol, rest)" by (metis prod.exhaust)
  have prior: "valid_state st" if "pe_get env l (pm_vault m) = Some stored" "pr_velocity_shock_prior_state stored = Some st" for stored st
    using assms [of l] that by (auto simp: row_legal_def shock_memory_def valid_state_def)
  from recover_leg_shape [of env pd stab j m ts l symbol rest] show ?thesis
    using assms [of sid] prior by (auto simp: leg upsert_legal_def intro!: write_legal)
qed

lemma legs_legal:
  assumes "\<And>s leg sid. (\<And>l. row_legal env (pm_vault (fst s)) l) \<Longrightarrow> row_legal env (pm_vault (fst (f s leg))) sid"
    "\<And>l. row_legal env (pm_vault (fst s)) l"
  shows "row_legal env (pm_vault (fst (foldl f s legs))) sid"
  using assms(2)
proof (induction legs arbitrary: s)
  case (Cons leg legs)
  show ?case using Cons.IH [of "f s leg"] assms(1) [where s = s and leg = leg] Cons.prems by simp
qed simp

end

lemma step_legal:
  assumes "policy_store env" "\<And>l. row_legal env (pm_vault m) l"
  shows "row_legal env (pm_vault (fst (policy_step env (m, past) x))) sid"
proof -
  note store = at_time_store [OF assms(1)]
  have legs: "row_legal env (pm_vault (fst (foldl f (m, []) ls))) sid"
    if "\<And>s leg sid. (\<And>l. row_legal env (pm_vault (fst s)) l) \<Longrightarrow> row_legal env (pm_vault (fst (f s leg))) sid"
    for f :: "'a policy_manager \<times> lifecycle_transition list \<Rightarrow> leg_context \<Rightarrow> 'a policy_manager \<times> lifecycle_transition list" and ls
    using policy_store.legs_legal [where f = f and s = "(m, [])" and legs = ls and sid = sid, OF assms(1) that] assms(2) by simp
  have loops: "row_legal env (pm_vault (fst (foldl (evening_leg (at_time env t) pd j) (m, []) ls))) sid"
    "row_legal env (pm_vault (fst (foldl (shock_leg (at_time env t) why) (m, []) ls))) sid"
    "row_legal env (pm_vault (fst (foldl (recover_leg (at_time env t) pd stab j) (m, []) ls))) sid" for t pd j why stab ls
  proof -
    show "row_legal env (pm_vault (fst (foldl (evening_leg (at_time env t) pd j) (m, []) ls))) sid"
    proof (rule legs)
      fix s :: "'a policy_manager \<times> lifecycle_transition list" and leg sid
      assume "\<And>l. row_legal env (pm_vault (fst s)) l"
      then show "row_legal env (pm_vault (fst (evening_leg (at_time env t) pd j s leg))) sid"
        using policy_store.evening_leg_legal [OF store, of t "fst s" sid pd j "snd s" leg] by simp
    qed
    show "row_legal env (pm_vault (fst (foldl (shock_leg (at_time env t) why) (m, []) ls))) sid"
    proof (rule legs)
      fix s :: "'a policy_manager \<times> lifecycle_transition list" and leg sid
      assume "\<And>l. row_legal env (pm_vault (fst s)) l"
      then show "row_legal env (pm_vault (fst (shock_leg (at_time env t) why s leg))) sid"
        using policy_store.shock_leg_legal [OF store, of t "fst s" sid why "snd s" leg] by simp
    qed
    show "row_legal env (pm_vault (fst (foldl (recover_leg (at_time env t) pd stab j) (m, []) ls))) sid"
    proof (rule legs)
      fix s :: "'a policy_manager \<times> lifecycle_transition list" and leg sid
      assume "\<And>l. row_legal env (pm_vault (fst s)) l"
      then show "row_legal env (pm_vault (fst (recover_leg (at_time env t) pd stab j s leg))) sid"
        using policy_store.recover_leg_legal [OF store, of t "fst s" pd stab j "snd s" leg sid] by simp
    qed
  qed
  have rollback: "row_legal env (pm_vault (fst (execute_staged_rollback (at_time env t) st l symbol reason cat hit m))) sid"
    for t st l symbol reason cat hit
    using policy_store.rollback_legal [OF store, of t m sid] assms(2) by simp
  show ?thesis using assms(2)
    by (cases x) (auto simp: Let_def split_beta run_evening_progression_def handle_macro_velocity_shock_def
      process_intraday_velocity_shock_recovery_def new_policy_manager_def loops rollback)
qed

text \<open>
  C34: The vault's rows stay well typed. Over any history of evenings, shocks, recoveries, rollbacks and
  restarts, whatever states the configuration or a caller names, a row's state is always one of the
  three and what it remembers of a shock is always an authority, probation or sovereignty.
\<close>

theorem stored_rows_stay_legal:
  assumes "policy_store env" "\<forall>l. row_legal env (pm_vault m) l"
  shows "row_legal env (pm_vault (fst (foldl (policy_step env) (m, []) xs))) sid"
proof -
  have "\<forall>l. row_legal env (pm_vault (fst (foldl (policy_step env) s xs))) l" if "\<forall>l. row_legal env (pm_vault (fst s)) l" for s
    using that by (induction xs rule: rev_induct) (auto intro: step_legal [OF assms(1), of "fst s" "snd s" for s, unfolded prod.collapse])
  from this [of "(m, [])"] assms(2) show ?thesis by simp
qed

theorem stored_rows_stay_legal_witness:
  "row_legal dict_env (pm_vault (fst (foldl (policy_step dict_env) (sample_policy PROBATIONAL, [])
     [StagedRollback 0 (OTHER ''paused'') ''q'' ''QQQ'' ''operator'' True None, Shock 0 True [] [sample_context]]))) ''q''"
proof (rule stored_rows_stay_legal [OF dict_vault.policy_store_axioms], rule allI)
  fix l
  show "row_legal dict_env (pm_vault (sample_policy PROBATIONAL)) l"
    by (simp add: row_legal_def stored_state_def shock_memory_def sample_policy_def new_policy_manager_def dict_env_def
        sample_row_def valid_state_def)
qed

end
