(* ===== verification/Cluster_Brain.thy ===== *)
theory Cluster_Brain
  imports Portfolio_Risk "HOL-Library.Multiset"
begin

text \<open>
  The cluster layer of the portfolio brain, \<open>src/portfolio/cluster_brain.py\<close>, and the block
  bootstrap it resamples with, \<open>src/core/bootstrap.py\<close>. The random generator of NumPy is a
  parameter, its state threaded through every draw. The lemmas show that an allocation partitions
  the book into capped weights and cash, that what a demoted leg gives up goes to cash and to no
  other leg, that the shrunk correlation and its interval stay within their range, and that the
  tail evidence which may move capital spans distinct stress episodes.
\<close>

section \<open>Random draws\<close>

text \<open>\<open>numpy.random.default_rng\<close>, and the two methods of a generator that are called.\<close>

record 'g rng_api =
  default_rng :: "nat \<Rightarrow> 'g"
  rng_integers :: "nat \<Rightarrow> 'g \<Rightarrow> nat \<times> 'g"
  rng_random :: "nat \<Rightarrow> 'g \<Rightarrow> pyfloat list \<times> 'g"

fun bootstrap_walk :: "'g rng_api \<Rightarrow> nat \<Rightarrow> bool list \<Rightarrow> nat \<Rightarrow> 'g \<Rightarrow> nat list \<times> 'g" where
  "bootstrap_walk api n [] i g = ([i], g)"
| "bootstrap_walk api n (restart # rest) i g =
     (let (j, g1) = (if restart then rng_integers api n g else ((i + 1) mod n, g));
          (idx, g2) = bootstrap_walk api n rest j g1
      in (i # idx, g2))"

definition stationary_bootstrap_resample ::
  "'g rng_api \<Rightarrow> 'a list \<Rightarrow> pyfloat \<Rightarrow> 'g \<Rightarrow> 'a list \<times> 'g" where
  "stationary_bootstrap_resample api xs mean_block_length g =
     (let n = length xs
      in if n = 0 then (xs, g)
         else
           let p = 1 / max mean_block_length 1;
               (i, g1) = rng_integers api n g;
               (us, g2) = rng_random api n g1;
               (idx, g3) = bootstrap_walk api n (tl (map (\<lambda>u. u < p) us)) i g2
           in (map ((!) xs) idx, g3))"

primrec repeat_draw :: "nat \<Rightarrow> ('g \<Rightarrow> 'a \<times> 'g) \<Rightarrow> 'g \<Rightarrow> 'a list \<times> 'g" where
  "repeat_draw 0 draw g = ([], g)"
| "repeat_draw (Suc k) draw g =
     (let (x, g1) = draw g; (xs, g2) = repeat_draw k draw g1 in (x # xs, g2))"

section \<open>Arrays\<close>

text \<open>The slice \<open>a[-n:]\<close>, which is the whole array for \<open>n = 0\<close>.\<close>

definition py_tail :: "nat \<Rightarrow> 'a list \<Rightarrow> 'a list" where
  "py_tail n xs = (if n = 0 then xs else last_n n xs)"

definition np_var1 :: "pyfloat list \<Rightarrow> pyfloat" where
  "np_var1 xs = sum_list (map (\<lambda>x. (x - np_mean xs)\<^sup>2) xs) / (real (length xs) - 1)"

definition np_std1 :: "pyfloat list \<Rightarrow> pyfloat" where
  "np_std1 xs = sqrt (np_var1 xs)"

text \<open>\<open>np.quantile\<close> with linear interpolation.\<close>

definition np_quantile :: "pyfloat list \<Rightarrow> pyfloat \<Rightarrow> pyfloat" where
  "np_quantile xs q =
     (let s = sort xs; n = length s; pos = q * real (n - 1); lo = nat \<lfloor>pos\<rfloor>; hi = min (lo + 1) (n - 1)
      in s ! lo + (pos - real lo) * (s ! hi - s ! lo))"

definition take_rows :: "nat list \<Rightarrow> 'a list \<Rightarrow> 'a list" where
  "take_rows idx xs = map ((!) xs) idx"

datatype cluster_error = ZeroDivisionError | ValueError

text \<open>\<open>np.vstack\<close> of the last \<open>n\<close> entries of each array: the rows must have one length.\<close>

definition vstack_tails :: "nat \<Rightarrow> 'a list list \<Rightarrow> cluster_error + 'a list list" where
  "vstack_tails n rows =
     (let tails = map (py_tail n) rows
      in if list_all (\<lambda>r. length r = length (hd tails)) tails then Inr tails else Inl ValueError)"

definition row_mean :: "pyfloat list list \<Rightarrow> pyfloat list" where
  "row_mean rows = map (\<lambda>j. np_mean (map (\<lambda>r. r ! j) rows)) [0..<length (hd rows)]"

definition vec_mat :: "pyfloat list \<Rightarrow> pyfloat list list \<Rightarrow> pyfloat list" where
  "vec_mat v rows = map (\<lambda>j. sum_list (map2 (\<lambda>c r. c * r ! j) v rows)) [0..<length (hd rows)]"

text \<open>The least length in a list of arrays that is not empty.\<close>

definition min_length :: "'a list list \<Rightarrow> nat" where
  "min_length rows = foldr (min \<circ> length) (tl rows) (length (hd rows))"

section \<open>Configuration and legs\<close>

record portfolio_config =
  pf_vol_target_annual :: pyfloat
  pf_max_abs_corr :: pyfloat
  pf_min_overlap_weeks :: nat
  pf_cluster_vol_window_weeks :: nat
  pf_max_step :: pyfloat
  pf_vol_floor_factor :: pyfloat
  pf_max_cluster :: pyfloat
  pf_max_leg :: pyfloat
  pf_shortvol_cluster_cap :: pyfloat
  pf_convergence_corr_threshold :: pyfloat
  pf_convergence_consecutive_weeks :: nat
  pf_cluster_prior_rho :: pyfloat
  pf_cold_start_tiered_admission :: bool
  pf_cold_start_tier_weeks :: nat
  pf_cold_start_tier_fraction :: pyfloat

definition default_portfolio_config :: portfolio_config where
  "default_portfolio_config =
     \<lparr>pf_vol_target_annual = 12 / 100, pf_max_abs_corr = 35 / 100, pf_min_overlap_weeks = 52,
      pf_cluster_vol_window_weeks = 26, pf_max_step = 20 / 100, pf_vol_floor_factor = 1 / 2,
      pf_max_cluster = 40 / 100, pf_max_leg = 25 / 100, pf_shortvol_cluster_cap = 15 / 100,
      pf_convergence_corr_threshold = 6 / 10, pf_convergence_consecutive_weeks = 4,
      pf_cluster_prior_rho = 4 / 10, pf_cold_start_tiered_admission = False,
      pf_cold_start_tier_weeks = 26, pf_cold_start_tier_fraction = 1 / 2\<rparr>"

record leg_input =
  li_leg_id :: string
  li_cluster :: string
  li_returns :: "pyfloat list"
  li_oos_vol :: pyfloat
  li_state :: string
  li_admission_order :: int
  li_prior_weight :: pyfloat

definition state_sizing :: "string \<Rightarrow> pyfloat" where
  "state_sizing st = dict_get [(''ACTIVE'', 1), (''WATCH'', 1 / 2)] st 0"

definition causal_vol :: "pyfloat list \<Rightarrow> pyfloat \<Rightarrow> portfolio_config \<Rightarrow> pyfloat" where
  "causal_vol returns oos_vol cfg =
     (let exposed = filter (\<lambda>x. 0 < \<bar>x\<bar>) (py_tail (pf_cluster_vol_window_weeks cfg) returns);
          realized = (if 1 < length exposed then np_std1 exposed else 0)
      in max realized (pf_vol_floor_factor cfg * \<bar>oos_vol\<bar>))"

definition pair_corr :: "pyfloat list \<Rightarrow> pyfloat list \<Rightarrow> pyfloat" where
  "pair_corr a b =
     (let n = min (length a) (length b)
      in if n < 2 then 0
         else
           let a2 = py_tail n a; b2 = py_tail n b
           in if np_std a2 = 0 \<or> np_std b2 = 0 then 0 else np_corrcoef a2 b2)"

section \<open>Shrinkage\<close>

definition cluster_prior :: "string \<Rightarrow> string \<Rightarrow> portfolio_config \<Rightarrow> pyfloat" where
  "cluster_prior ca cb cfg = (if ca = cb then pf_cluster_prior_rho cfg else 0)"

definition paired_resample_idx :: "'g rng_api \<Rightarrow> nat \<Rightarrow> pyfloat \<Rightarrow> 'g \<Rightarrow> nat list \<times> 'g" where
  "paired_resample_idx api n mbl g = stationary_bootstrap_resample api [0..<n] mbl g"

definition shrink_delta :: "pyfloat \<Rightarrow> pyfloat \<Rightarrow> pyfloat \<Rightarrow> pyfloat" where
  "shrink_delta rho boot_var prior =
     (let denom = boot_var + (rho - prior)\<^sup>2
      in if denom \<le> 0 then 0 else min 1 (max 0 (boot_var / denom)))"

definition resampled_corr :: "'g rng_api \<Rightarrow> pyfloat list \<Rightarrow> pyfloat list \<Rightarrow> pyfloat \<Rightarrow> 'g \<Rightarrow> pyfloat \<times> 'g" where
  "resampled_corr api a b mbl g =
     (let (idx, g1) = paired_resample_idx api (length a) mbl g in (pair_corr (take_rows idx a) (take_rows idx b), g1))"

definition shrunk_corr ::
  "'g rng_api \<Rightarrow> pyfloat list \<Rightarrow> pyfloat list \<Rightarrow> pyfloat \<Rightarrow> nat \<Rightarrow> pyfloat \<Rightarrow> 'g \<Rightarrow> (pyfloat \<times> pyfloat) \<times> 'g" where
  "shrunk_corr api a0 b0 prior n_boot mbl g =
     (let n = min (length a0) (length b0); a = py_tail n a0; b = py_tail n b0; rho = pair_corr a b
      in if n < 4 \<or> np_std a = 0 \<or> np_std b = 0 then ((rho, 0), g)
         else
           let (reps, g1) = repeat_draw n_boot (resampled_corr api a b mbl) g;
               delta = shrink_delta rho (np_var1 reps) prior
           in ((delta * prior + (1 - delta) * rho, delta), g1))"

text \<open>One outer resample: the shrinkage intensity is estimated again inside it.\<close>

definition outer_draw ::
  "'g rng_api \<Rightarrow> pyfloat list \<Rightarrow> pyfloat list \<Rightarrow> pyfloat \<Rightarrow> nat \<Rightarrow> pyfloat \<Rightarrow> 'g \<Rightarrow> pyfloat \<times> 'g" where
  "outer_draw api a b prior n_inner mbl g =
     (let (oidx, g1) = paired_resample_idx api (length a) mbl g;
          ao = take_rows oidx a; bo = take_rows oidx b;
          rho = pair_corr ao bo;
          (inner, g2) = repeat_draw n_inner (\<lambda>h. let (iidx, h1) = paired_resample_idx api (length a) mbl h
                                               in (pair_corr (take_rows iidx ao) (take_rows iidx bo), h1)) g1;
          delta = shrink_delta rho (if 1 < n_inner then np_var1 inner else 0) prior
      in (delta * prior + (1 - delta) * rho, g2))"

definition shrunk_corr_ci ::
  "'g rng_api \<Rightarrow> pyfloat list \<Rightarrow> pyfloat list \<Rightarrow> pyfloat \<Rightarrow> nat \<Rightarrow> nat \<Rightarrow> pyfloat \<Rightarrow> pyfloat \<Rightarrow> 'g \<Rightarrow> (pyfloat \<times> pyfloat) \<times> 'g" where
  "shrunk_corr_ci api a0 b0 prior n_outer n_inner alpha mbl g =
     (let n = min (length a0) (length b0); a = py_tail n a0; b = py_tail n b0
      in if n < 4 \<or> np_std a = 0 \<or> np_std b = 0 then let r = pair_corr a b in ((r, r), g)
         else
           let (shrunk, g1) = repeat_draw n_outer (outer_draw api a b prior n_inner mbl) g
           in ((np_quantile shrunk (alpha / 2), np_quantile shrunk (1 - alpha / 2)), g1))"

section \<open>Tail dependence\<close>

definition TAIL_Q :: pyfloat where "TAIL_Q = 10 / 100"
definition MIN_EPISODE_SEPARATION_WEEKS :: nat where "MIN_EPISODE_SEPARATION_WEEKS = 13"

definition tail_mask :: "pyfloat \<Rightarrow> pyfloat list \<Rightarrow> bool list" where
  "tail_mask q xs = map (\<lambda>x. x \<le> np_quantile xs q) xs"

definition lower_tail_dependence :: "pyfloat list \<Rightarrow> pyfloat list \<Rightarrow> pyfloat \<Rightarrow> pyfloat" where
  "lower_tail_dependence a0 b0 q =
     (let n = min (length a0) (length b0); a = py_tail n a0; b = py_tail n b0
      in if n < 10 then 0
         else
           let a_tail = tail_mask q a; n_a = length (filter id a_tail);
               both = length (filter id (map2 (\<and>) a_tail (tail_mask q b)))
           in if n_a = 0 then 0 else real both / real n_a)"

definition lower_tail_dependence_ci ::
  "'g rng_api \<Rightarrow> pyfloat list \<Rightarrow> pyfloat list \<Rightarrow> pyfloat \<Rightarrow> nat \<Rightarrow> pyfloat \<Rightarrow> pyfloat \<Rightarrow> 'g
     \<Rightarrow> (pyfloat \<times> pyfloat \<times> pyfloat) \<times> 'g" where
  "lower_tail_dependence_ci api a0 b0 q n_boot alpha mbl g =
     (let n = min (length a0) (length b0); a = py_tail n a0; b = py_tail n b0; point = lower_tail_dependence a b q
      in if n < 10 then ((point, 0, 1), g)
         else
           let (reps, g1) = repeat_draw n_boot (\<lambda>h. let (idx, h1) = paired_resample_idx api n mbl h
                 in (lower_tail_dependence (take_rows idx a) (take_rows idx b) q, h1)) g
           in ((point, np_quantile reps (alpha / 2), np_quantile reps (1 - alpha / 2)), g1))"

definition joint_tail :: "pyfloat list \<Rightarrow> pyfloat list \<Rightarrow> pyfloat \<Rightarrow> nat list" where
  "joint_tail a b q =
     filter (\<lambda>i. tail_mask q a ! i \<and> tail_mask q b ! i) [0..<length a]"

definition count_gaps :: "nat \<Rightarrow> nat list \<Rightarrow> nat" where
  "count_gaps sep js = length (filter (\<lambda>(x, y). sep < y - x) (zip js (tl js)))"

definition joint_tail_obs_and_episodes :: "pyfloat list \<Rightarrow> pyfloat list \<Rightarrow> pyfloat \<Rightarrow> nat \<Rightarrow> nat \<times> nat" where
  "joint_tail_obs_and_episodes a0 b0 q sep =
     (let n = min (length a0) (length b0); a = py_tail n a0; b = py_tail n b0
      in if n < 10 then (0, 0)
         else let joint = joint_tail a b q
              in if joint = [] then (0, 0) else (length joint, 1 + count_gaps sep joint))"

record tail_sufficiency =
  tl_joint_tail_obs :: nat
  tl_stress_episodes :: nat
  tl_ci_width :: pyfloat
  tl_tier :: nat
  tl_tier_name :: string

definition tail_dependence_sufficiency ::
  "'g rng_api \<Rightarrow> pyfloat list \<Rightarrow> pyfloat list \<Rightarrow> pyfloat \<Rightarrow> nat \<Rightarrow> 'g \<Rightarrow> tail_sufficiency \<times> 'g" where
  "tail_dependence_sufficiency api a b q n_boot g =
     (let (n_joint, n_epi) = joint_tail_obs_and_episodes a b q MIN_EPISODE_SEPARATION_WEEKS;
          ((_, lo, hi), g1) = lower_tail_dependence_ci api a b q n_boot (10 / 100) 5 g;
          width = hi - lo;
          (tier, name) =
            (if 40 \<le> n_joint \<and> 3 \<le> n_epi \<and> width < 20 / 100 then (3, ''CAPITAL_MOVING'')
             else if 25 \<le> n_joint \<and> 2 \<le> n_epi \<and> width < 25 / 100 then (2, ''CONVERGENCE_INPUT'')
             else if 25 \<le> n_joint then (1, ''DIAGNOSTIC'')
             else (0, ''NONE''))
      in (\<lparr>tl_joint_tail_obs = n_joint, tl_stress_episodes = n_epi, tl_ci_width = width, tl_tier = tier,
           tl_tier_name = name\<rparr>, g1))"

section \<open>Allocation\<close>

text \<open>A dict built by a comprehension, and the lists of a dict filled by \<open>setdefault\<close> and \<open>append\<close>.\<close>

definition dict_comp :: "('a \<Rightarrow> 'k) \<Rightarrow> ('a \<Rightarrow> 'v) \<Rightarrow> 'a list \<Rightarrow> ('k, 'v) dict" where
  "dict_comp k v xs = foldl (\<lambda>d x. AList.update (k x) (v x) d) [] xs"

definition group_on :: "('a \<Rightarrow> 'k) \<Rightarrow> 'a list \<Rightarrow> ('k, 'a list) dict" where
  "group_on k xs = foldl (\<lambda>d x. AList.update (k x) (dict_get d (k x) [] @ [x]) d) [] xs"

definition dict_sum :: "('k, pyfloat) dict \<Rightarrow> pyfloat" where
  "dict_sum d = sum_list (map snd d)"

definition cluster_cap :: "portfolio_config \<Rightarrow> string \<Rightarrow> pyfloat" where
  "cluster_cap cfg cl = (if cl = ''SHORTVOL'' then pf_shortvol_cluster_cap cfg else pf_max_cluster cfg)"

definition scale_legs :: "pyfloat \<Rightarrow> string list \<Rightarrow> (string, pyfloat) dict \<Rightarrow> (string, pyfloat) dict" where
  "scale_legs f members d = foldl (\<lambda>d l. AList.update l (dict_get d l 0 * f) d) d members"

definition cap_cluster :: "portfolio_config \<Rightarrow> (string, pyfloat) dict \<Rightarrow> string \<times> string list \<Rightarrow> (string, pyfloat) dict" where
  "cap_cluster cfg capped = (\<lambda>(cl, members).
     let cap = cluster_cap cfg cl;
         total = sum_list (map (\<lambda>l. dict_get capped l 0) members)
     in if cap < total \<and> 0 < total
        then scale_legs (cap / total) members capped
        else capped)"

definition cap_and_cash ::
  "(string, pyfloat) dict \<Rightarrow> (string, string) dict \<Rightarrow> portfolio_config \<Rightarrow> (string, pyfloat) dict \<times> pyfloat" where
  "cap_and_cash ws clusters cfg =
     (let capped = map (\<lambda>(l, w). (l, min w (pf_max_leg cfg))) ws;
          by_cluster = map (\<lambda>(cl, items). (cl, map fst items)) (group_on snd clusters);
          final = foldl (cap_cluster cfg) capped by_cluster
      in (final, max 0 (1 - dict_sum final)))"

definition step_capped :: "portfolio_config \<Rightarrow> pyfloat \<Rightarrow> pyfloat \<Rightarrow> pyfloat" where
  "step_capped cfg pw tw =
     (let delta = tw - pw
      in max 0 (if pf_max_step cfg < \<bar>delta\<bar> then pw + pf_max_step cfg * (if 0 < delta then 1 else - 1) else tw))"

definition apply_step_cap ::
  "(string, pyfloat) dict \<Rightarrow> (string, pyfloat) dict \<Rightarrow> portfolio_config \<Rightarrow> (string, pyfloat) dict" where
  "apply_step_cap target prior cfg = map (\<lambda>(l, tw). (l, step_capped cfg (dict_get prior l 0) tw)) target"

text \<open>
  The volatility of a cluster's inverse-volatility blend. A member of no volatility divides by zero;
  a member without returns beside one with returns does not stack.
\<close>

definition cluster_vol_of :: "(string, pyfloat) dict \<Rightarrow> leg_input list \<Rightarrow> cluster_error + pyfloat" where
  "cluster_vol_of vols members =
     (if list_ex (\<lambda>m. dict_get vols (li_leg_id m) 0 = 0) members then Inl ZeroDivisionError
      else
        let inv = map (\<lambda>m. 1 / dict_get vols (li_leg_id m) 0) members;
            share = map (\<lambda>x. x / sum_list inv) inv;
            n = min_length (map li_returns members)
        in case vstack_tails n (map li_returns members) of
             Inl e \<Rightarrow> Inl e
           | Inr rows \<Rightarrow> Inr (max (if 1 < n then np_std1 (vec_mat share rows) else 0) (1 / 10 ^ 9)))"

fun cluster_vols ::
  "(string, pyfloat) dict \<Rightarrow> (string, leg_input list) dict \<Rightarrow> cluster_error + (string, pyfloat) dict" where
  "cluster_vols vols [] = Inr []"
| "cluster_vols vols ((cl, members) # rest) =
     (case cluster_vol_of vols members of
        Inl e \<Rightarrow> Inl e
      | Inr v \<Rightarrow> (case cluster_vols vols rest of Inl e \<Rightarrow> Inl e | Inr d \<Rightarrow> Inr ((cl, v) # d)))"

definition cluster_budget_of :: "(string, pyfloat) dict \<Rightarrow> (string, pyfloat) dict" where
  "cluster_budget_of cvols =
     (let inv = map (\<lambda>(cl, v). (cl, 1 / v)) cvols; total = dict_sum inv in map (\<lambda>(cl, x). (cl, x / total)) inv)"

definition split_budget ::
  "(string, pyfloat) dict \<Rightarrow> (string, pyfloat) dict \<Rightarrow> (string, pyfloat) dict \<Rightarrow> string \<times> leg_input list \<Rightarrow> (string, pyfloat) dict" where
  "split_budget vols budget raw = (\<lambda>(cl, members).
     let inv = dict_comp li_leg_id (\<lambda>m. 1 / dict_get vols (li_leg_id m) 0) members; s = dict_sum inv
     in foldl (\<lambda>d m. AList.update (li_leg_id m) (dict_get budget cl 0 * dict_get inv (li_leg_id m) 0 / s) d) raw members)"

record pair_diagnostics =
  pg_corr_shrunk :: pyfloat
  pg_shrinkage_delta :: pyfloat
  pg_lambda :: "(pyfloat \<times> tail_sufficiency) option"

definition pair_diagnostics_of ::
  "'g rng_api \<Rightarrow> portfolio_config \<Rightarrow> leg_input \<Rightarrow> leg_input \<Rightarrow> 'g \<Rightarrow> pair_diagnostics \<times> 'g" where
  "pair_diagnostics_of api cfg a b g =
     (if li_leg_id a = li_leg_id b then (\<lparr>pg_corr_shrunk = 1, pg_shrinkage_delta = 0, pg_lambda = None\<rparr>, g)
      else
        let ((sh, d), g1) = shrunk_corr api (li_returns a) (li_returns b) (cluster_prior (li_cluster a) (li_cluster b) cfg) 80 5 g;
            lam = lower_tail_dependence (li_returns a) (li_returns b) TAIL_Q;
            (suf, g2) = tail_dependence_sufficiency api (li_returns a) (li_returns b) TAIL_Q 100 g1
        in (\<lparr>pg_corr_shrunk = sh, pg_shrinkage_delta = d, pg_lambda = Some (lam, suf)\<rparr>, g2))"

text \<open>The diagnostics of all ordered pairs, drawn in order from one generator.\<close>

definition log_pair ::
  "'g rng_api \<Rightarrow> portfolio_config \<Rightarrow> (string \<times> string, pair_diagnostics) dict \<times> 'g \<Rightarrow> leg_input \<times> leg_input
     \<Rightarrow> (string \<times> string, pair_diagnostics) dict \<times> 'g" where
  "log_pair api cfg = (\<lambda>(d, g) (a, b).
     let (x, g1) = pair_diagnostics_of api cfg a b g in (AList.update (li_leg_id a, li_leg_id b) x d, g1))"

record allocation_result =
  ar_weights :: "(string, pyfloat) dict"
  ar_cash_share :: pyfloat
  ar_cluster_budgets :: "(string, pyfloat) dict"
  ar_vols :: "(string, pyfloat) dict"
  ar_corr_matrix :: "(string, (string, pyfloat) dict) dict"
  ar_cluster_vol :: "(string, pyfloat) dict"
  ar_diagnostics :: "(string \<times> string, pair_diagnostics) dict"

definition full_weights :: "portfolio_config \<Rightarrow> leg_input list \<Rightarrow> cluster_error + (string, pyfloat) dict \<times> (string, pyfloat) dict" where
  "full_weights cfg legs =
     (let vols = dict_comp li_leg_id (\<lambda>l. causal_vol (li_returns l) (li_oos_vol l) cfg) legs;
          clusters = dict_comp li_leg_id li_cluster legs;
          cluster_legs = group_on li_cluster legs
      in case cluster_vols vols cluster_legs of
           Inl e \<Rightarrow> Inl e
         | Inr cvols \<Rightarrow>
             Inr (cvols, fst (cap_and_cash (foldl (split_budget vols (cluster_budget_of cvols)) [] cluster_legs) clusters cfg)))"

definition allocate ::
  "'g rng_api \<Rightarrow> leg_input list \<Rightarrow> portfolio_config \<Rightarrow> bool \<Rightarrow> cluster_error + allocation_result" where
  "allocate api legs cfg step_cap =
     (if legs = []
      then Inr \<lparr>ar_weights = [], ar_cash_share = 1, ar_cluster_budgets = [], ar_vols = [], ar_corr_matrix = [],
                ar_cluster_vol = [], ar_diagnostics = []\<rparr>
      else
        case full_weights cfg legs of
          Inl e \<Rightarrow> Inl e
        | Inr (cvols, full) \<Rightarrow>
            let states = dict_comp li_leg_id li_state legs;
                sized = map (\<lambda>(l, w). (l, w * state_sizing (dict_get states l []))) full;
                ws = (if step_cap then apply_step_cap sized (dict_comp li_leg_id li_prior_weight legs) cfg else sized)
            in Inr \<lparr>ar_weights = ws, ar_cash_share = max 0 (1 - dict_sum ws), ar_cluster_budgets = cluster_budget_of cvols,
                    ar_vols = dict_comp li_leg_id (\<lambda>l. causal_vol (li_returns l) (li_oos_vol l) cfg) legs,
                    ar_corr_matrix = dict_comp li_leg_id
                      (\<lambda>a. dict_comp li_leg_id (\<lambda>b. pair_corr (li_returns a) (li_returns b)) legs) legs,
                    ar_cluster_vol = cvols,
                    ar_diagnostics = fst (foldl (log_pair api cfg) ([], default_rng api 0) (List.product legs legs))\<rparr>)"

section \<open>Admission\<close>

datatype admission_verdict = ADMIT | REJECT_CORR | DEFER_OVERLAP | DEFER_BLEND

text \<open>The detail keeps the leg and the overlap it names, not the rounded numbers beside them.\<close>

record admission_decision =
  ad_verdict :: admission_verdict
  ad_leg :: "string option"
  ad_overlap :: "nat option"
  ad_budget_multiplier :: pyfloat

definition cold_start_budget_multiplier :: "nat \<Rightarrow> portfolio_config \<Rightarrow> pyfloat" where
  "cold_start_budget_multiplier overlap cfg =
     (let full = pf_min_overlap_weeks cfg; start = pf_cold_start_tier_weeks cfg; half = pf_cold_start_tier_fraction cfg
      in if full \<le> overlap then 1 else if overlap < start then 0
         else half + (1 - half) * ((sqrt (real overlap) - sqrt (real start)) / (sqrt (real full) - sqrt (real start))))"

definition series_sharpe :: "pyfloat list \<Rightarrow> pyfloat" where
  "series_sharpe xs = (if 0 < np_std1 xs then np_mean xs / np_std1 xs else 0)"

definition sharpe_ci_lower :: "'g rng_api \<Rightarrow> pyfloat list \<Rightarrow> nat \<Rightarrow> nat \<Rightarrow> pyfloat" where
  "sharpe_ci_lower api r n_boot seed =
     (if length r < 4 \<or> np_std r = 0 then 0
      else np_quantile (fst (repeat_draw n_boot (\<lambda>g. let (s, g1) = stationary_bootstrap_resample api r 5 g in (series_sharpe s, g1))
             (default_rng api seed))) (5 / 100))"

text \<open>The first active leg whose interval does not clear the limit.\<close>

fun first_correlated ::
  "'g rng_api \<Rightarrow> portfolio_config \<Rightarrow> leg_input \<Rightarrow> leg_input list \<Rightarrow> 'g \<Rightarrow> leg_input option" where
  "first_correlated api cfg cand [] g = None"
| "first_correlated api cfg cand (a # rest) g =
     (let ((lo, hi), g1) = shrunk_corr_ci api (li_returns cand) (li_returns a)
             (cluster_prior (li_cluster cand) (li_cluster a) cfg) 200 40 (10 / 100) 5 g
      in if pf_max_abs_corr cfg \<le> hi \<or> lo \<le> - pf_max_abs_corr cfg then Some a
         else first_correlated api cfg cand rest g1)"

definition overlap_of :: "leg_input \<Rightarrow> leg_input \<Rightarrow> nat" where
  "overlap_of cand a = min (length (li_returns cand)) (length (li_returns a))"

definition overlap_floor :: "portfolio_config \<Rightarrow> nat" where
  "overlap_floor cfg = (if pf_cold_start_tiered_admission cfg then pf_cold_start_tier_weeks cfg else pf_min_overlap_weeks cfg)"

text \<open>Whether adding the candidate lowers the bound of the book's Sharpe ratio.\<close>

definition blend_degraded :: "'g rng_api \<Rightarrow> leg_input \<Rightarrow> leg_input list \<Rightarrow> cluster_error + bool" where
  "blend_degraded api cand active =
     (if active = [] then Inr False
      else
        let n = min_length (li_returns cand # map li_returns active)
        in case vstack_tails n (map li_returns active) of
             Inl e \<Rightarrow> Inl e
           | Inr book \<Rightarrow>
               (case vstack_tails n (li_returns cand # map li_returns active) of
                  Inl e \<Rightarrow> Inl e
                | Inr book_with \<Rightarrow>
                    Inr (sharpe_ci_lower api (row_mean book_with) 500 0 < sharpe_ci_lower api (row_mean book) 500 0 - 1 / 10 ^ 9)))"

definition decide_admission ::
  "'g rng_api \<Rightarrow> leg_input \<Rightarrow> leg_input list \<Rightarrow> portfolio_config \<Rightarrow> cluster_error + admission_decision" where
  "decide_admission api cand active cfg =
     (let decide = (\<lambda>v l k m. Inr \<lparr>ad_verdict = v, ad_leg = l, ad_overlap = k, ad_budget_multiplier = m\<rparr>)
      in case find (\<lambda>a. overlap_of cand a < overlap_floor cfg) active of
           Some a \<Rightarrow> decide DEFER_OVERLAP (Some (li_leg_id a)) (Some (overlap_of cand a)) 1
         | None \<Rightarrow>
             (case first_correlated api cfg cand active (default_rng api 0) of
                Some a \<Rightarrow> decide REJECT_CORR (Some (li_leg_id a)) None 1
              | None \<Rightarrow>
                  (case blend_degraded api cand active of
                     Inl e \<Rightarrow> Inl e
                   | Inr True \<Rightarrow> decide DEFER_BLEND None None 1
                   | Inr False \<Rightarrow>
                       let k = (if active = [] then length (li_returns cand)
                                else foldr (min \<circ> overlap_of cand) (tl active) (overlap_of cand (hd active)))
                       in if pf_cold_start_tiered_admission cfg \<and> k < pf_cold_start_tier_weeks cfg
                          then decide DEFER_OVERLAP None (Some k) 1
                          else decide ADMIT None (Some k)
                                 (if pf_cold_start_tiered_admission cfg then cold_start_budget_multiplier k cfg else 1))))"

section \<open>The convergence watch\<close>

record convergence_alert =
  ca_junior_leg :: string
  ca_senior_leg :: string
  ca_consecutive_weeks :: nat

definition window_ending :: "nat \<Rightarrow> nat \<Rightarrow> 'a list \<Rightarrow> 'a list" where
  "window_ending w k xs = take w (drop (k - w) xs)"

fun watch_loop ::
  "'g rng_api \<Rightarrow> portfolio_config \<Rightarrow> leg_input \<Rightarrow> leg_input \<Rightarrow> nat list \<Rightarrow> nat \<Rightarrow> 'g \<Rightarrow> convergence_alert option" where
  "watch_loop api cfg a b [] run g = None"
| "watch_loop api cfg a b (k # ks) run g =
     (let w = pf_cluster_vol_window_weeks cfg;
          xa = window_ending w k (li_returns a); xb = window_ending w k (li_returns b);
          prior = cluster_prior (li_cluster a) (li_cluster b) cfg;
          ((rho, _), g1) = shrunk_corr api xa xb prior 60 5 g
      in if pf_convergence_corr_threshold cfg < rho
         then if pf_convergence_consecutive_weeks cfg \<le> run + 1
              then let ((lo, _), g2) = shrunk_corr_ci api xa xb prior 200 40 (10 / 100) 5 g1
                   in if pf_convergence_corr_threshold cfg < lo
                      then let (junior, senior) = (if li_admission_order b \<le> li_admission_order a then (a, b) else (b, a))
                           in Some \<lparr>ca_junior_leg = li_leg_id junior, ca_senior_leg = li_leg_id senior,
                                    ca_consecutive_weeks = run + 1\<rparr>
                      else watch_loop api cfg a b ks (run + 1) g2
              else watch_loop api cfg a b ks (run + 1) g1
         else watch_loop api cfg a b ks 0 g1)"

definition convergence_watch ::
  "'g rng_api \<Rightarrow> leg_input \<Rightarrow> leg_input \<Rightarrow> portfolio_config \<Rightarrow> convergence_alert option" where
  "convergence_watch api a b cfg =
     (let n = min (length (li_returns a)) (length (li_returns b))
      in watch_loop api cfg a b [pf_cluster_vol_window_weeks cfg..<n + 1] 0 (default_rng api 0))"

definition blend_sharpe :: "leg_input list \<Rightarrow> (string, pyfloat) dict \<Rightarrow> cluster_error + pyfloat" where
  "blend_sharpe legs ws =
     (if legs = [] then Inl ValueError
      else
        case vstack_tails (min_length (map li_returns legs)) (map li_returns legs) of
          Inl e \<Rightarrow> Inl e
        | Inr rows \<Rightarrow>
            let w = map (\<lambda>l. dict_get ws (li_leg_id l) 0) legs
            in if sum_list w = 0 then Inr 0
               else Inr (series_sharpe (vec_mat (map (\<lambda>x. x / sum_list w) w) rows)))"

section \<open>Dicts\<close>

lemma update_fresh: "k \<notin> fst ` set d \<Longrightarrow> AList.update k v d = d @ [(k, v)]"
  by (induction d) auto

lemma update_all_fresh:
  assumes "distinct (map k xs)" "set (map k xs) \<inter> fst ` set d = {}"
  shows "foldl (\<lambda>d x. AList.update (k x) (v x) d) d xs = d @ map (\<lambda>x. (k x, v x)) xs"
  using assms
proof (induction xs arbitrary: d)
  case (Cons x xs)
  have "AList.update (k x) (v x) d = d @ [(k x, v x)]" using Cons.prems by (intro update_fresh) auto
  moreover have "set (map k xs) \<inter> fst ` set (d @ [(k x, v x)]) = {}" using Cons.prems by auto
  ultimately show ?case using Cons.IH [of "d @ [(k x, v x)]"] Cons.prems by simp
qed simp

lemma dict_comp_distinct: "distinct (map k xs) \<Longrightarrow> dict_comp k v xs = map (\<lambda>x. (k x, v x)) xs"
  using update_all_fresh [of k xs "[]" v] by (simp add: dict_comp_def)

lemma dict_comp_map: "dict_comp k v (map f xs) = dict_comp (k \<circ> f) (v \<circ> f) xs"
  by (simp add: dict_comp_def foldl_map)

lemma dict_get_map: "distinct (map k xs) \<Longrightarrow> x \<in> set xs \<Longrightarrow> dict_get (map (\<lambda>x. (k x, v x)) xs) (k x) z = v x"
  by (induction xs) (auto simp: dict_get_def image_iff)

lemma dict_get_comp: "distinct (map k xs) \<Longrightarrow> x \<in> set xs \<Longrightarrow> dict_get (dict_comp k v xs) (k x) z = v x"
  by (simp add: dict_comp_distinct dict_get_map)

lemma keys_update: "k \<in> fst ` set d \<Longrightarrow> dict_keys (AList.update k v d) = dict_keys d"
  by (induction d) auto

lemma group_on_ok: "dict_ok (group_on k xs)"
proof -
  have "dict_ok d \<Longrightarrow> dict_ok (foldl (\<lambda>d x. AList.update (k x) (dict_get d (k x) [] @ [x]) d) d xs)" for d
    by (induction xs arbitrary: d) auto
  then show ?thesis by (simp add: group_on_def)
qed

lemma mset_group_add:
  assumes "dict_ok d"
  shows "mset (concat (map snd (AList.update c (dict_get d c [] @ [x]) d))) = add_mset x (mset (concat (map snd d)))"
  using assms
proof (induction d)
  case (Cons p d)
  then show ?case by (cases p) (auto simp: dict_get_def)
qed (simp add: dict_get_def)

lemma mset_group_on: "mset (concat (map snd (group_on k xs))) = mset xs"
proof -
  have "dict_ok d \<Longrightarrow> mset (concat (map snd (foldl (\<lambda>d x. AList.update (k x) (dict_get d (k x) [] @ [x]) d) d xs)))
      = mset (concat (map snd d)) + mset xs" for d
    by (induction xs arbitrary: d) (simp_all add: mset_group_add del: mset_concat)
  then show ?thesis by (simp add: group_on_def)
qed

lemma group_on_lookup:
  "map_of (group_on k xs) c = (let grp = filter (\<lambda>x. k x = c) xs in if grp = [] then None else Some grp)"
proof -
  have "map_of (foldl (\<lambda>d x. AList.update (k x) (dict_get d (k x) [] @ [x]) d) d xs) c =
      (let grp = filter (\<lambda>x. k x = c) xs in if grp = [] then map_of d c else Some (dict_get d c [] @ grp))" for d
    by (induction xs arbitrary: d) (auto simp: Let_def dict_get_def split: option.splits)
  then show ?thesis by (simp add: group_on_def Let_def)
qed

lemma group_on_mem: "(c, grp) \<in> set (group_on k xs) \<Longrightarrow> grp = filter (\<lambda>x. k x = c) xs \<and> grp \<noteq> []"
  using map_of_is_SomeI [OF group_on_ok] group_on_lookup [of k xs c] by (fastforce simp: Let_def split: if_splits)

lemma group_on_map:
  assumes "\<And>x. k (f x) = k x"
  shows "group_on k (map f xs) = map (\<lambda>(c, ms). (c, map f ms)) (group_on k xs)"
proof -
  let ?m = "\<lambda>d. map (\<lambda>(c, ms). (c, map f ms)) d"
  have get: "dict_get (?m d) c [] = map f (dict_get d c [])" for d c
    by (induction d) (auto simp: dict_get_def)
  have upd: "AList.update c (map f ms) (?m d) = ?m (AList.update c ms d)" for c ms d
    by (induction d) auto
  have "foldl (\<lambda>d x. AList.update (k x) (dict_get d (k x) [] @ [x]) d) (?m d) (map f xs) =
      ?m (foldl (\<lambda>d x. AList.update (k x) (dict_get d (k x) [] @ [x]) d) d xs)" for d
  proof (induction xs arbitrary: d)
    case (Cons x xs)
    have "AList.update (k x) (dict_get (?m d) (k x) [] @ [f x]) (?m d) =
        ?m (AList.update (k x) (dict_get d (k x) [] @ [x]) d)"
      using upd [of "k x" "dict_get d (k x) [] @ [x]" d] by (simp add: get)
    then show ?case using Cons.IH by (simp add: assms)
  qed simp
  from this [of "[]"] show ?thesis by (simp add: group_on_def)
qed

section \<open>Budgets\<close>

lemma np_var1_nonneg: "0 < length xs \<Longrightarrow> 0 \<le> np_var1 xs"
  by (cases xs) (auto simp: np_var1_def intro!: divide_nonneg_nonneg sum_list_nonneg add_nonneg_nonneg)

lemma sum_list_quotient: "sum_list (map (\<lambda>x. f x / c) xs) = sum_list (map f xs) / (c :: real)"
  by (induction xs) (simp_all add: add_divide_distrib)

lemma causal_vol_nonneg: "0 \<le> causal_vol returns oos cfg"
  by (auto simp: causal_vol_def Let_def np_std1_def le_max_iff_disj intro: np_var1_nonneg)

lemma sum_list_of_concat: "sum_list (concat xss) = (\<Sum>xs\<leftarrow>xss. sum_list xs :: real)"
  by (induction xss) simp_all

lemma dict_sum_pos: "d \<noteq> [] \<Longrightarrow> \<forall>x\<in>set d. 0 < snd x \<Longrightarrow> 0 < dict_sum d"
proof (induction d)
  case (Cons p d)
  then show ?case by (cases "d = []") (auto simp: dict_sum_def intro: add_pos_pos)
qed simp

lemma cluster_vols_shape:
  "cluster_vols vols gs = Inr cv \<Longrightarrow> map fst cv = map fst gs \<and> (\<forall>x\<in>set cv. 0 < snd x) \<and>
     (\<forall>(c, ms)\<in>set gs. \<forall>m\<in>set ms. dict_get vols (li_leg_id m) 0 \<noteq> 0)"
proof (induction gs arbitrary: cv)
  case (Cons p gs)
  obtain c ms where p: "p = (c, ms)" by (cases p)
  then obtain v d where "cluster_vol_of vols ms = Inr v" "cluster_vols vols gs = Inr d" "cv = (c, v) # d"
    using Cons.prems by (auto split: sum.splits)
  moreover have "0 < v \<and> (\<forall>m\<in>set ms. dict_get vols (li_leg_id m) 0 \<noteq> 0)"
    using calculation(1) by (auto simp: cluster_vol_of_def Let_def list_ex_iff less_max_iff_disj split: if_splits sum.splits)
  ultimately show ?case using Cons.IH p by simp
qed simp

lemma cluster_budget_sum:
  assumes "cv \<noteq> []" "\<forall>x\<in>set cv. 0 < snd x"
  shows "dict_sum (cluster_budget_of cv) = 1" "\<forall>x\<in>set (cluster_budget_of cv). 0 < snd x"
    "map fst (cluster_budget_of cv) = map fst cv"
proof -
  let ?inv = "map (\<lambda>(cl, v). (cl, 1 / v)) cv"
  have pos: "0 < dict_sum ?inv" using assms by (intro dict_sum_pos) auto
  have "dict_sum (cluster_budget_of cv) = dict_sum ?inv / dict_sum ?inv"
    using sum_list_quotient [of snd "dict_sum ?inv" ?inv]
    by (simp add: cluster_budget_of_def Let_def dict_sum_def o_def split_beta)
  then show "dict_sum (cluster_budget_of cv) = 1" using pos by simp
  show "\<forall>x\<in>set (cluster_budget_of cv). 0 < snd x" using pos assms(2) by (auto simp: cluster_budget_of_def Let_def)
  show "map fst (cluster_budget_of cv) = map fst cv" by (simp add: cluster_budget_of_def Let_def o_def split_beta)
qed

text \<open>The uncapped weights, group by group.\<close>

definition member_weight :: "(string, pyfloat) dict \<Rightarrow> pyfloat \<Rightarrow> leg_input list \<Rightarrow> leg_input \<Rightarrow> pyfloat" where
  "member_weight vols share ms m =
     share * (1 / dict_get vols (li_leg_id m) 0) / sum_list (map (\<lambda>m. 1 / dict_get vols (li_leg_id m) 0) ms)"

lemma split_budgets:
  assumes "distinct (map li_leg_id (concat (map snd gs)))" "set (map li_leg_id (concat (map snd gs))) \<inter> fst ` set raw = {}"
  shows "foldl (split_budget vols B) raw gs =
    raw @ concat (map (\<lambda>(c, ms). map (\<lambda>m. (li_leg_id m, member_weight vols (dict_get B c 0) ms m)) ms) gs)"
  using assms
proof (induction gs arbitrary: raw)
  case (Cons p gs)
  obtain c ms where p: "p = (c, ms)" by (cases p)
  let ?new = "map (\<lambda>m. (li_leg_id m, member_weight vols (dict_get B c 0) ms m)) ms"
  have d: "distinct (map li_leg_id ms)" using Cons.prems p by simp
  have fresh: "set (map li_leg_id ms) \<inter> fst ` set raw = {}" using Cons.prems p by auto
  let ?inv = "dict_comp li_leg_id (\<lambda>m. 1 / dict_get vols (li_leg_id m) 0) ms"
  have s: "dict_sum ?inv = sum_list (map (\<lambda>m. 1 / dict_get vols (li_leg_id m) 0) ms)"
    by (simp add: dict_comp_distinct d dict_sum_def o_def)
  have "split_budget vols B raw p = raw @ map (\<lambda>m. (li_leg_id m, dict_get B c 0 * dict_get ?inv (li_leg_id m) 0 / dict_sum ?inv)) ms"
    using p fresh unfolding split_budget_def Let_def by (simp only: prod.case update_all_fresh [OF d])
  also have "\<dots> = raw @ ?new"
    by (auto simp: s member_weight_def dict_get_comp [OF d])
  finally have step: "split_budget vols B raw p = raw @ ?new" .
  have "set (map li_leg_id (concat (map snd gs))) \<inter> fst ` set (raw @ ?new) = {}"
    using Cons.prems p by (simp add: image_Un image_image) blast
  then show ?case using Cons.IH [of "raw @ ?new"] Cons.prems p by (simp add: step [unfolded p])
qed simp

lemma member_weight_nonneg:
  assumes "\<forall>m\<in>set ms. 0 < dict_get vols (li_leg_id m) 0" "0 \<le> share" "m \<in> set ms"
  shows "0 \<le> member_weight vols share ms m"
proof -
  have "0 \<le> sum_list (map (\<lambda>m. 1 / dict_get vols (li_leg_id m) 0) ms)"
    using assms(1) by (intro sum_list_nonneg) (auto intro: less_imp_le)
  moreover have "0 < dict_get vols (li_leg_id m) 0" using assms(1,3) by simp
  ultimately show ?thesis using assms(2) by (simp add: member_weight_def)
qed

lemma member_weights_sum:
  assumes "ms \<noteq> []" "\<forall>m\<in>set ms. 0 < dict_get vols (li_leg_id m) 0"
  shows "sum_list (map (member_weight vols share ms) ms) = share"
proof -
  let ?v = "\<lambda>m. 1 / dict_get vols (li_leg_id m) 0"
  have "0 < dict_sum (map (\<lambda>m. (m, ?v m)) ms)" using assms by (intro dict_sum_pos) auto
  then have pos: "0 < sum_list (map ?v ms)" by (simp add: dict_sum_def o_def)
  have "map (member_weight vols share ms) ms = map (\<lambda>m. share * ?v m / sum_list (map ?v ms)) ms"
    by (simp add: member_weight_def)
  also have "sum_list \<dots> = share * sum_list (map ?v ms) / sum_list (map ?v ms)"
    by (simp only: sum_list_quotient [of "\<lambda>m. share * ?v m"] sum_list_const_mult)
  also have "\<dots> = share" using pos by simp
  finally show ?thesis .
qed

section \<open>Caps\<close>

definition weight_sum :: "(string, pyfloat) dict \<Rightarrow> string list \<Rightarrow> pyfloat" where
  "weight_sum d ls = sum_list (map (\<lambda>l. dict_get d l 0) ls)"

definition caps_ok :: "portfolio_config \<Rightarrow> bool" where
  "caps_ok cfg \<longleftrightarrow> 0 \<le> pf_max_leg cfg \<and> 0 \<le> pf_max_cluster cfg \<and> 0 \<le> pf_shortvol_cluster_cap cfg"

lemma cluster_cap_nonneg: "caps_ok cfg \<Longrightarrow> 0 \<le> cluster_cap cfg c"
  by (simp add: caps_ok_def cluster_cap_def)

lemma weight_sum_mono: "(\<And>x. dict_get d x 0 \<le> dict_get e x 0) \<Longrightarrow> weight_sum d ls \<le> weight_sum e ls"
  by (simp add: weight_sum_def sum_list_mono)

lemma weight_sum_all: "dict_ok d \<Longrightarrow> weight_sum d (dict_keys d) = dict_sum d"
proof -
  assume "dict_ok d"
  then have "map (\<lambda>l. dict_get d l 0) (dict_keys d) = map snd d"
    by (auto simp: dict_get_def)
  then show ?thesis by (simp only: weight_sum_def dict_sum_def)
qed

lemma scale_members:
  assumes "distinct ms"
  shows "dict_get (scale_legs f ms d) x 0 = dict_get d x 0 * (if x \<in> set ms then f else 1)"
  unfolding scale_legs_def using assms by (induction ms arbitrary: d) auto

lemma scale_keys:
  assumes "set ms \<subseteq> fst ` set d"
  shows "dict_keys (scale_legs f ms d) = dict_keys d"
  unfolding scale_legs_def using assms
proof (induction ms arbitrary: d)
  case (Cons m ms)
  have "dict_keys (AList.update m (dict_get d m 0 * f) d) = dict_keys d" using Cons.prems by (intro keys_update) auto
  moreover from this have "set ms \<subseteq> fst ` set (AList.update m (dict_get d m 0 * f) d)"
    using Cons.prems by (metis insert_subset list.set_map list.simps(15))
  ultimately show ?case using Cons.IH [of "AList.update m (dict_get d m 0 * f) d"] by simp
qed simp

lemma cap_cluster_keys: "set ms \<subseteq> fst ` set d \<Longrightarrow> dict_keys (cap_cluster cfg d (c, ms)) = dict_keys d"
  by (simp add: cap_cluster_def Let_def scale_keys)

lemma cap_cluster_bounds:
  assumes "distinct ms" "\<And>x. 0 \<le> dict_get d x 0" "caps_ok cfg"
  shows "0 \<le> dict_get (cap_cluster cfg d (c, ms)) x 0" "dict_get (cap_cluster cfg d (c, ms)) x 0 \<le> dict_get d x 0"
    "weight_sum (cap_cluster cfg d (c, ms)) ms \<le> cluster_cap cfg c"
proof -
  let ?cap = "cluster_cap cfg c" and ?t = "weight_sum d ms"
  let ?f = "if ?cap < ?t \<and> 0 < ?t then ?cap / ?t else 1"
  have get: "dict_get (cap_cluster cfg d (c, ms)) x 0 = dict_get d x 0 * (if x \<in> set ms then ?f else 1)" for x
    using scale_members [OF assms(1)] by (simp add: cap_cluster_def Let_def weight_sum_def)
  have f: "0 \<le> ?f" "?f \<le> 1" using cluster_cap_nonneg [OF assms(3), of c] by (auto simp: divide_le_eq_1)
  show "0 \<le> dict_get (cap_cluster cfg d (c, ms)) x 0" "dict_get (cap_cluster cfg d (c, ms)) x 0 \<le> dict_get d x 0"
    unfolding get using f assms(2) [of x]
    by (simp_all only: if_True if_False zero_le_one order_refl mult_left_le mult_nonneg_nonneg split: if_split) simp_all
  have "map (\<lambda>l. dict_get (cap_cluster cfg d (c, ms)) l 0) ms = map (\<lambda>l. dict_get d l 0 * ?f) ms"
    by (simp only: get cong: map_cong) simp
  then have "weight_sum (cap_cluster cfg d (c, ms)) ms = ?t * ?f"
    by (simp only: weight_sum_def sum_list_mult_const)
  also have "\<dots> \<le> ?cap" using cluster_cap_nonneg [OF assms(3), of c] by auto
  finally show "weight_sum (cap_cluster cfg d (c, ms)) ms \<le> ?cap" .
qed

lemma cap_clusters:
  assumes "\<forall>(c, ms)\<in>set gs. distinct ms \<and> set ms \<subseteq> fst ` set d" "\<And>x. 0 \<le> dict_get d x 0" "caps_ok cfg"
  shows "dict_keys (foldl (cap_cluster cfg) d gs) = dict_keys d \<and>
    (\<forall>x. 0 \<le> dict_get (foldl (cap_cluster cfg) d gs) x 0 \<and> dict_get (foldl (cap_cluster cfg) d gs) x 0 \<le> dict_get d x 0) \<and>
    (\<forall>(c, ms)\<in>set gs. weight_sum (foldl (cap_cluster cfg) d gs) ms \<le> cluster_cap cfg c)"
  using assms(1,2)
proof (induction gs arbitrary: d)
  case (Cons p gs)
  obtain c ms where p: "p = (c, ms)" by (cases p)
  let ?d = "cap_cluster cfg d (c, ms)"
  have ms: "distinct ms" "set ms \<subseteq> fst ` set d" using Cons.prems p by auto
  have keys: "dict_keys ?d = dict_keys d" using ms(2) by (rule cap_cluster_keys)
  have "fst ` set ?d = fst ` set d" using arg_cong [OF keys, of set] by simp
  then have prem: "\<forall>(c, ms)\<in>set gs. distinct ms \<and> set ms \<subseteq> fst ` set ?d" using Cons.prems(1) by simp
  note b = cap_cluster_bounds [where c = c, OF ms(1) Cons.prems(2) assms(3)]
  have "dict_get (foldl (cap_cluster cfg) ?d gs) x 0 \<le> dict_get ?d x 0" for x
    using Cons.IH [OF prem b(1)] by simp
  from weight_sum_mono [of "foldl (cap_cluster cfg) ?d gs" ?d ms, OF this] b(3)
  have "weight_sum (foldl (cap_cluster cfg) ?d gs) ms \<le> cluster_cap cfg c" by simp
  then show ?case using Cons.IH [OF prem b(1)] b(2) keys p by (auto intro: order_trans)
qed simp

lemma dict_get_values:
  "dict_get (map (\<lambda>(l, w). (l, f l w)) d) x 0 = (if x \<in> fst ` set d then f x (dict_get d x 0) else 0)"
  by (induction d) (auto simp: dict_get_def)

lemma dict_get_missing: "x \<notin> fst ` set d \<Longrightarrow> dict_get d x z = z"
  by (induction d) (auto simp: dict_get_def)

lemma dict_get_mem: "x \<in> fst ` set d \<Longrightarrow> (x, dict_get d x z) \<in> set d"
  by (induction d) (auto simp: dict_get_def)

lemma raw_weights:
  assumes "distinct (map li_leg_id legs)" "legs \<noteq> []"
    "cluster_vols (dict_comp li_leg_id (\<lambda>l. causal_vol (li_returns l) (li_oos_vol l) cfg) legs) (group_on li_cluster legs) = Inr cv"
  defines "raw \<equiv> foldl (split_budget (dict_comp li_leg_id (\<lambda>l. causal_vol (li_returns l) (li_oos_vol l) cfg) legs)
      (cluster_budget_of cv)) [] (group_on li_cluster legs)"
  shows "dict_ok raw" "fst ` set raw = li_leg_id ` set legs" "\<forall>p\<in>set raw. 0 \<le> snd p" "dict_sum raw = 1"
proof -
  let ?vols = "dict_comp li_leg_id (\<lambda>l. causal_vol (li_returns l) (li_oos_vol l) cfg) legs"
  let ?gs = "group_on li_cluster legs" and ?B = "cluster_budget_of cv"
  note cv = cluster_vols_shape [OF assms(3)]
  have perm: "mset (map li_leg_id (concat (map snd ?gs))) = mset (map li_leg_id legs)"
    by (simp only: mset_map mset_group_on)
  have ids: "distinct (map li_leg_id (concat (map snd ?gs)))"
    using mset_eq_imp_distinct_iff [OF perm] assms(1) by simp
  have raw: "raw = concat (map (\<lambda>(c, ms). map (\<lambda>m. (li_leg_id m, member_weight ?vols (dict_get ?B c 0) ms m)) ms) ?gs)"
    using split_budgets [OF ids, of "[]" ?vols ?B] by (simp add: raw_def)
  have keys: "dict_keys raw = map li_leg_id (concat (map snd ?gs))"
    unfolding raw by (simp add: map_concat o_def split_beta)
  show "dict_ok raw" using ids keys by simp
  show "fst ` set raw = li_leg_id ` set legs"
    using arg_cong [OF keys, of set] mset_eq_setD [OF perm] by simp
  have gs: "?gs \<noteq> []" using mset_group_on [of li_cluster legs] assms(2) by auto
  then have "cv \<noteq> []" using cv by auto
  note B = cluster_budget_sum [OF this]
  have pos: "\<forall>m\<in>set ms. 0 < dict_get ?vols (li_leg_id m) 0" and ne: "ms \<noteq> []" if "(c, ms) \<in> set ?gs" for c ms
  proof -
    from group_on_mem [OF that] have ms: "ms = filter (\<lambda>x. li_cluster x = c) legs" "ms \<noteq> []" by blast+
    then show "ms \<noteq> []" by simp
    show "\<forall>m\<in>set ms. 0 < dict_get ?vols (li_leg_id m) 0"
    proof
      fix m assume m: "m \<in> set ms"
      then have "dict_get ?vols (li_leg_id m) 0 = causal_vol (li_returns m) (li_oos_vol m) cfg"
        using ms assms(1) by (intro dict_get_comp) auto
      moreover have "dict_get ?vols (li_leg_id m) 0 \<noteq> 0" using cv that m by fastforce
      ultimately show "0 < dict_get ?vols (li_leg_id m) 0" using causal_vol_nonneg [of "li_returns m" "li_oos_vol m" cfg] by simp
    qed
  qed
  have share: "0 \<le> dict_get ?B c 0" for c
    using B(2) cv dict_get_mem [of c ?B 0] dict_get_missing [of c ?B 0] by fastforce
  show "\<forall>p\<in>set raw. 0 \<le> snd p"
    unfolding raw using member_weight_nonneg [OF pos share] by auto
  have "dict_sum raw = sum_list (map (\<lambda>p. sum_list (map (member_weight ?vols (dict_get ?B (fst p) 0) (snd p)) (snd p))) ?gs)"
    unfolding raw dict_sum_def by (simp add: map_concat sum_list_of_concat o_def split_beta)
  also have "\<dots> = sum_list (map (\<lambda>p. dict_get ?B (fst p) 0) ?gs)"
    using pos ne by (intro arg_cong [of _ _ sum_list] map_cong) (auto intro: member_weights_sum)
  also have "\<dots> = weight_sum ?B (dict_keys ?gs)" by (simp add: weight_sum_def o_def split_beta)
  also have "\<dots> = dict_sum ?B"
    using B(3) cv group_on_ok [of li_cluster legs] weight_sum_all [of ?B] by simp
  finally show "dict_sum raw = 1" using B(1) cv by simp
qed

lemma full_weights_facts:
  assumes "distinct (map li_leg_id legs)" "legs \<noteq> []" "full_weights cfg legs = Inr (cv, full)" "caps_ok cfg"
  shows "dict_ok full" "fst ` set full = li_leg_id ` set legs" "0 \<le> dict_get full x 0" "dict_get full x 0 \<le> pf_max_leg cfg"
    "dict_sum full \<le> 1" "weight_sum full (map li_leg_id (filter (\<lambda>l. li_cluster l = c) legs)) \<le> cluster_cap cfg c"
proof -
  let ?vols = "dict_comp li_leg_id (\<lambda>l. causal_vol (li_returns l) (li_oos_vol l) cfg) legs"
  define raw where "raw = foldl (split_budget ?vols (cluster_budget_of cv)) [] (group_on li_cluster legs)"
  define capped where "capped = map (\<lambda>(l, w). (l, min w (pf_max_leg cfg))) raw"
  define gs where "gs = map (\<lambda>(cl, items). (cl, map fst items)) (group_on snd (dict_comp li_leg_id li_cluster legs))"
  have run: "cluster_vols ?vols (group_on li_cluster legs) = Inr cv" and full: "full = foldl (cap_cluster cfg) capped gs"
    using assms(3) by (auto simp: full_weights_def cap_and_cash_def Let_def raw_def capped_def gs_def split: sum.splits)
  note raw = raw_weights [OF assms(1,2) run, folded raw_def]
  have keys: "dict_keys capped = dict_keys raw" by (simp add: capped_def o_def split_beta)
  have get: "dict_get capped x 0 = (if x \<in> fst ` set raw then min (dict_get raw x 0) (pf_max_leg cfg) else 0)" for x
    unfolding capped_def by (rule dict_get_values)
  have nonneg: "0 \<le> dict_get raw x 0" for x
    using raw(3) dict_get_mem [of x raw 0] dict_get_missing [of x raw 0] by fastforce
  then have capped: "0 \<le> dict_get capped x 0" "dict_get capped x 0 \<le> dict_get raw x 0" "dict_get capped x 0 \<le> pf_max_leg cfg" for x
    using assms(4) by (auto simp: get caps_ok_def)
  have members: "ms = map li_leg_id (filter (\<lambda>l. li_cluster l = k) legs)" if "(k, ms) \<in> set gs" for k ms
    using that by (auto simp: gs_def dict_comp_distinct assms(1) filter_map o_def dest!: group_on_mem)
  have "distinct (map li_leg_id (filter P legs))" for P using assms(1) by (rule distinct_map_filter)
  then have prem: "\<forall>(k, ms)\<in>set gs. distinct ms \<and> set ms \<subseteq> fst ` set capped"
    using members arg_cong [OF keys, of set] raw(2) by fastforce
  note caps = cap_clusters [OF prem capped(1) assms(4), folded full]
  show ok: "dict_ok full" using caps keys raw(1) by simp
  show "fst ` set full = li_leg_id ` set legs" using caps arg_cong [OF keys, of set] raw(2) by (metis list.set_map)
  show "0 \<le> dict_get full x 0" "dict_get full x 0 \<le> pf_max_leg cfg" using caps capped(3) order_trans by blast+
  have "weight_sum full (dict_keys raw) \<le> weight_sum raw (dict_keys raw)"
    using caps capped(2) by (intro weight_sum_mono) (blast intro: order_trans)
  moreover have "dict_keys full = dict_keys raw" using caps keys by simp
  ultimately show "dict_sum full \<le> 1" using weight_sum_all [OF ok] weight_sum_all [OF raw(1)] raw(4) by simp
  show "weight_sum full (map li_leg_id (filter (\<lambda>l. li_cluster l = c) legs)) \<le> cluster_cap cfg c"
  proof (cases "filter (\<lambda>l. li_cluster l = c) legs = []")
    case True
    then show ?thesis using cluster_cap_nonneg [OF assms(4), of c] by (simp add: weight_sum_def)
  next
    case False
    then have "map_of (group_on snd (dict_comp li_leg_id li_cluster legs)) c =
        Some (map (\<lambda>l. (li_leg_id l, li_cluster l)) (filter (\<lambda>l. li_cluster l = c) legs))"
      by (simp add: group_on_lookup dict_comp_distinct assms(1) filter_map o_def Let_def)
    from map_of_SomeD [OF this] have "(c, map li_leg_id (filter (\<lambda>l. li_cluster l = c) legs)) \<in> set gs"
      by (force simp: gs_def o_def)
    then show ?thesis using caps by fastforce
  qed
qed

lemma state_sizing_bounds: "0 \<le> state_sizing st" "state_sizing st \<le> 1"
  by (simp_all add: state_sizing_def dict_get_def)

text \<open>The weights of an allocation without the step cap: the full weights, sized by the states.\<close>

lemma allocate_unstepped:
  assumes "distinct (map li_leg_id legs)" "legs \<noteq> []" "full_weights cfg legs = Inr (cv, full)" "caps_ok cfg"
    "allocate api legs cfg False = Inr r"
  shows "ar_weights r = map (\<lambda>(l, w). (l, w * state_sizing (dict_get (dict_comp li_leg_id li_state legs) l []))) full"
    "ar_cash_share r = 1 - dict_sum (ar_weights r)" "dict_ok (ar_weights r)" "fst ` set (ar_weights r) = li_leg_id ` set legs"
    "0 \<le> dict_get (ar_weights r) x 0" "dict_get (ar_weights r) x 0 \<le> dict_get full x 0"
proof -
  note full = full_weights_facts [OF assms(1-4)]
  show ws: "ar_weights r = map (\<lambda>(l, w). (l, w * state_sizing (dict_get (dict_comp li_leg_id li_state legs) l []))) full"
    using assms by (auto simp: allocate_def Let_def)
  have keys: "dict_keys (ar_weights r) = dict_keys full" by (simp add: ws o_def split_beta)
  show ok: "dict_ok (ar_weights r)" using keys full(1) by simp
  show "fst ` set (ar_weights r) = li_leg_id ` set legs" using arg_cong [OF keys, of set] full(2) by simp
  have b: "0 \<le> dict_get (ar_weights r) x 0 \<and> dict_get (ar_weights r) x 0 \<le> dict_get full x 0" for x
    unfolding ws dict_get_values using full(3) [of x] state_sizing_bounds by (auto intro: mult_left_le)
  then show "0 \<le> dict_get (ar_weights r) x 0" "dict_get (ar_weights r) x 0 \<le> dict_get full x 0" by simp_all
  have "dict_sum (ar_weights r) \<le> dict_sum full"
    using weight_sum_mono [of "ar_weights r" full "dict_keys full"] b weight_sum_all [OF ok] weight_sum_all [OF full(1)] keys by simp
  moreover have "ar_cash_share r = max 0 (1 - dict_sum (ar_weights r))" using assms by (auto simp: allocate_def Let_def)
  ultimately show "ar_cash_share r = 1 - dict_sum (ar_weights r)" using full(5) by simp
qed

lemma allocated_cases:
  assumes "allocate api legs cfg step = Inr r" "legs \<noteq> []"
  obtains cv full where "full_weights cfg legs = Inr (cv, full)"
  using assms by (auto simp: allocate_def split: sum.splits)

text \<open>
  C31: An allocation partitions the book within its caps. Without the step cap every leg has exactly
  one weight, between zero and the leg cap; the legs of a cluster, the short-volatility one included,
  together stay within the cluster's cap; and the weights and the cash share add up to exactly one.
\<close>

theorem allocation_within_caps:
  assumes "allocate api legs cfg False = Inr r" "distinct (map li_leg_id legs)" "caps_ok cfg"
  shows "dict_ok (ar_weights r) \<and> fst ` set (ar_weights r) = li_leg_id ` set legs \<and>
    dict_sum (ar_weights r) + ar_cash_share r = 1 \<and>
    0 \<le> dict_get (ar_weights r) x 0 \<and> dict_get (ar_weights r) x 0 \<le> pf_max_leg cfg \<and>
    weight_sum (ar_weights r) (map li_leg_id (filter (\<lambda>l. li_cluster l = c) legs)) \<le> cluster_cap cfg c"
proof (cases "legs = []")
  case True
  then show ?thesis using assms cluster_cap_nonneg [OF assms(3), of c]
    by (auto simp: allocate_def dict_sum_def weight_sum_def caps_ok_def)
next
  case False
  obtain cv full where full: "full_weights cfg legs = Inr (cv, full)" using allocated_cases [OF assms(1) False] .
  note f = full_weights_facts [OF assms(2) False full assms(3)] and w = allocate_unstepped [OF assms(2) False full assms(3,1)]
  have "weight_sum (ar_weights r) (map li_leg_id (filter (\<lambda>l. li_cluster l = c) legs)) \<le> cluster_cap cfg c"
    using weight_sum_mono [of "ar_weights r" full, OF w(6)] f(6) order_trans by blast
  then show ?thesis using w(2-5) w(6) [of x] f(4) [of x] by simp
qed

section \<open>A demoted leg frees cash\<close>

definition set_leg_state :: "string \<Rightarrow> string \<Rightarrow> leg_input \<Rightarrow> leg_input" where
  "set_leg_state x st l = (if li_leg_id l = x then l\<lparr>li_state := st\<rparr> else l)"

lemma set_leg_state_fields [simp]:
  "li_leg_id (set_leg_state x st l) = li_leg_id l" "li_cluster (set_leg_state x st l) = li_cluster l"
  "li_returns (set_leg_state x st l) = li_returns l" "li_oos_vol (set_leg_state x st l) = li_oos_vol l"
  "li_prior_weight (set_leg_state x st l) = li_prior_weight l"
  by (simp_all add: set_leg_state_def)

lemma cluster_vol_of_state: "cluster_vol_of vols (map (set_leg_state x st) ms) = cluster_vol_of vols ms"
  by (simp add: cluster_vol_of_def o_def list_ex_iff)

lemma cluster_vols_state:
  "cluster_vols vols (map (\<lambda>(c, ms). (c, map (set_leg_state x st) ms)) gs) = cluster_vols vols gs"
  by (induction gs) (auto simp: cluster_vol_of_state split: sum.splits)

lemma split_budget_state: "split_budget vols B raw (c, map (set_leg_state x st) ms) = split_budget vols B raw (c, ms)"
  by (simp add: split_budget_def Let_def dict_comp_map o_def foldl_map)

lemma full_weights_state: "full_weights cfg (map (set_leg_state x st) legs) = full_weights cfg legs"
proof -
  have "foldl (split_budget vols B) raw (map (\<lambda>(c, ms). (c, map (set_leg_state x st) ms)) gs) = foldl (split_budget vols B) raw gs"
    for vols B raw gs
    by (induction gs arbitrary: raw) (auto simp: split_budget_state)
  then show ?thesis
    by (simp add: full_weights_def dict_comp_map o_def group_on_map cluster_vols_state Let_def split: sum.splits)
qed

lemma dict_sum_change:
  fixes d e :: "(string, pyfloat) dict"
  assumes "dict_ok d" "dict_keys e = dict_keys d" "x \<in> fst ` set d" "\<And>y. y \<noteq> x \<Longrightarrow> dict_get e y 0 = dict_get d y 0"
  shows "dict_sum e - dict_get e x 0 = dict_sum d - dict_get d x 0"
proof -
  have split: "weight_sum f (dict_keys d) = dict_get f x 0 + weight_sum f (remove1 x (dict_keys d))" for f
    using sum_list_map_remove1 [of x "dict_keys d" "\<lambda>l. dict_get f l 0"] assms(3) by (simp add: weight_sum_def)
  have "x \<notin> set (remove1 x (dict_keys d))" using assms(1) by (simp add: set_remove1_eq)
  then have "weight_sum e (remove1 x (dict_keys d)) = weight_sum d (remove1 x (dict_keys d))"
    unfolding weight_sum_def using assms(4) by (metis (mono_tags, lifting) map_cong)
  then show ?thesis using split [of e] split [of d] weight_sum_all [OF assms(1)] weight_sum_all [of e] assms(1,2) by simp
qed

text \<open>
  C32: In an allocation without the step cap, the budget a leg gives up goes to cash. Whatever state a
  leg is put into, a book that could be allocated still is; no other leg's weight moves, the leg's own weight is its full weight times the
  sizing of its state, the same whatever it was before, and what it loses the cash share gains.
\<close>

theorem freed_budget_goes_to_cash:
  assumes "allocate api legs cfg False = Inr r" "distinct (map li_leg_id legs)" "caps_ok cfg" "l \<in> set legs"
  shows "\<exists>r' full. allocate api (map (set_leg_state (li_leg_id l) st) legs) cfg False = Inr r' \<and>
    (\<forall>y. y \<noteq> li_leg_id l \<longrightarrow> dict_get (ar_weights r') y 0 = dict_get (ar_weights r) y 0) \<and>
    dict_get (ar_weights r) (li_leg_id l) 0 = full * state_sizing (li_state l) \<and>
    dict_get (ar_weights r') (li_leg_id l) 0 = full * state_sizing st \<and>
    ar_cash_share r' + dict_get (ar_weights r') (li_leg_id l) 0 = ar_cash_share r + dict_get (ar_weights r) (li_leg_id l) 0"
proof -
  let ?legs = "map (set_leg_state (li_leg_id l) st) legs" and ?x = "li_leg_id l"
  have ne: "legs \<noteq> []" "?legs \<noteq> []" using assms(4) by auto
  obtain cv full where full: "full_weights cfg legs = Inr (cv, full)" using allocated_cases [OF assms(1) ne(1)] .
  have full': "full_weights cfg ?legs = Inr (cv, full)" using full by (simp add: full_weights_state)
  then obtain r' where r': "allocate api ?legs cfg False = Inr r'" using ne(2) by (simp add: allocate_def Let_def)
  have ids: "distinct (map li_leg_id ?legs)" using assms(2) by (simp add: o_def)
  note w = allocate_unstepped [OF assms(2) ne(1) full assms(3,1)] and w' = allocate_unstepped [OF ids ne(2) full' assms(3) r']
  have key: "?x \<in> fst ` set full" using full_weights_facts(2) [OF assms(2) ne(1) full assms(3)] assms(4) by simp
  have st: "dict_get (dict_comp li_leg_id li_state legs) ?x [] = li_state l"
    using assms(2,4) by (rule dict_get_comp)
  have "set_leg_state ?x st l \<in> set ?legs" using assms(4) by simp
  from dict_get_comp [OF ids this, of li_state "[]"]
  have st': "dict_get (dict_comp li_leg_id li_state ?legs) ?x [] = st" by (simp add: set_leg_state_def)
  have other: "dict_get (dict_comp li_leg_id li_state ?legs) y [] = dict_get (dict_comp li_leg_id li_state legs) y []" if "y \<noteq> ?x" for y
    unfolding dict_comp_distinct [OF assms(2)] dict_comp_distinct [OF ids] using that
    by (induction legs) (auto simp: dict_get_def set_leg_state_def)
  have same: "dict_get (ar_weights r') y 0 = dict_get (ar_weights r) y 0" if "y \<noteq> ?x" for y
    unfolding w(1) w'(1) dict_get_values using other [OF that] by simp
  have keys: "dict_keys (ar_weights r') = dict_keys (ar_weights r)" by (simp add: w(1) w'(1) o_def split_beta)
  have "?x \<in> fst ` set (ar_weights r)" using w(4) assms(4) by simp
  from dict_sum_change [OF w(3) keys this same]
  have "ar_cash_share r' + dict_get (ar_weights r') ?x 0 = ar_cash_share r + dict_get (ar_weights r) ?x 0"
    unfolding w(2) w'(2) by linarith
  moreover have "dict_get (ar_weights r) ?x 0 = dict_get full ?x 0 * state_sizing (li_state l)"
    "dict_get (ar_weights r') ?x 0 = dict_get full ?x 0 * state_sizing st"
    unfolding w(1) w'(1) dict_get_values using key st st' by simp_all
  ultimately show ?thesis using r' same by blast
qed

section \<open>Draws and quantiles\<close>

lemma repeat_draw_all:
  assumes "\<And>g. P (fst (draw g))"
  shows "list_all P (fst (repeat_draw k draw g)) \<and> length (fst (repeat_draw k draw g)) = k"
  by (induction k arbitrary: g) (auto simp: split_beta Let_def assms)

text \<open>The interpolation between two neighbours of a sorted list.\<close>

definition interpolate :: "pyfloat list \<Rightarrow> pyfloat \<Rightarrow> pyfloat" where
  "interpolate s pos = s ! nat \<lfloor>pos\<rfloor> + (pos - real (nat \<lfloor>pos\<rfloor>)) * (s ! min (nat \<lfloor>pos\<rfloor> + 1) (length s - 1) - s ! nat \<lfloor>pos\<rfloor>)"

lemma np_quantile_interpolate: "np_quantile xs q = interpolate (sort xs) (q * real (length xs - 1))"
  by (simp add: np_quantile_def interpolate_def Let_def)

lemma interpolate_between:
  assumes "sorted s" "0 \<le> pos" "pos \<le> real (length s - 1)" "s \<noteq> []"
  shows "s ! nat \<lfloor>pos\<rfloor> \<le> interpolate s pos" "interpolate s pos \<le> s ! min (nat \<lfloor>pos\<rfloor> + 1) (length s - 1)"
    "nat \<lfloor>pos\<rfloor> < length s"
proof -
  let ?k = "nat \<lfloor>pos\<rfloor>" and ?j = "min (nat \<lfloor>pos\<rfloor> + 1) (length s - 1)"
  have k: "real ?k \<le> pos" "pos < real ?k + 1" using assms(2) by linarith+
  then have "?k \<le> length s - 1" using assms(3) by linarith
  moreover have "0 < length s" using assms(4) by simp
  ultimately show len: "?k < length s" and "s ! ?k \<le> interpolate s pos" "interpolate s pos \<le> s ! ?j"
  proof -
    assume a: "?k \<le> length s - 1" "0 < length s"
    then show len: "?k < length s" by linarith
    have "?j < length s" using a(2) by linarith
    then have le: "s ! ?k \<le> s ! ?j" using assms(1) a by (intro sorted_nth_mono) auto
    show "s ! ?k \<le> interpolate s pos" unfolding interpolate_def using le k by simp
    have "(pos - real ?k) * (s ! ?j - s ! ?k) \<le> 1 * (s ! ?j - s ! ?k)" using le k(2) by (intro mult_right_mono) linarith+
    then show "interpolate s pos \<le> s ! ?j" unfolding interpolate_def by simp
  qed
qed

lemma interpolate_mono:
  assumes "sorted s" "0 \<le> p" "p \<le> q" "q \<le> real (length s - 1)" "s \<noteq> []"
  shows "interpolate s p \<le> interpolate s q"
proof (cases "nat \<lfloor>p\<rfloor> = nat \<lfloor>q\<rfloor>")
  case True
  let ?k = "nat \<lfloor>q\<rfloor>"
  have "?k < length s" using interpolate_between(3) [of s q] assms by simp
  then have "s ! ?k \<le> s ! min (?k + 1) (length s - 1)" using assms(1) by (intro sorted_nth_mono) auto
  then have "(p - real ?k) * (s ! min (?k + 1) (length s - 1) - s ! ?k) \<le> (q - real ?k) * (s ! min (?k + 1) (length s - 1) - s ! ?k)"
    using assms(3) by (intro mult_right_mono) auto
  then show ?thesis unfolding interpolate_def True by simp
next
  case False
  have "nat \<lfloor>p\<rfloor> \<le> nat \<lfloor>q\<rfloor>" using assms(3) by (intro nat_mono floor_mono)
  then have less: "nat \<lfloor>p\<rfloor> + 1 \<le> nat \<lfloor>q\<rfloor>" using False by simp
  have q: "nat \<lfloor>q\<rfloor> < length s" using interpolate_between(3) [of s q] assms by simp
  have "interpolate s p \<le> s ! min (nat \<lfloor>p\<rfloor> + 1) (length s - 1)" using interpolate_between(2) [of s p] assms by simp
  also have "\<dots> \<le> s ! nat \<lfloor>q\<rfloor>" using assms(1) less q by (intro sorted_nth_mono) auto
  also have "\<dots> \<le> interpolate s q" using interpolate_between(1) [of s q] assms by simp
  finally show ?thesis .
qed

lemma non_empty_sort: "xs \<noteq> [] \<Longrightarrow> sort xs \<noteq> []"
  by (metis length_0_conv length_sort)

lemma np_quantile_mono:
  assumes "xs \<noteq> []" "0 \<le> p" "p \<le> q" "q \<le> 1"
  shows "np_quantile xs p \<le> np_quantile xs q"
proof -
  have "q * real (length xs - 1) \<le> real (length xs - 1)" using assms by (simp add: mult_left_le_one_le)
  then show ?thesis unfolding np_quantile_interpolate
    using assms non_empty_sort [OF assms(1)] by (intro interpolate_mono) (simp_all add: mult_right_mono)
qed

lemma np_quantile_bounds:
  assumes "xs \<noteq> []" "0 \<le> q" "q \<le> 1" "list_all (\<lambda>x. a \<le> x \<and> x \<le> b) xs"
  shows "a \<le> np_quantile xs q" "np_quantile xs q \<le> b"
proof -
  let ?s = "sort xs" and ?pos = "q * real (length xs - 1)"
  have pos: "0 \<le> ?pos" "?pos \<le> real (length ?s - 1)" using assms by (simp_all add: mult_left_le_one_le)
  have ne: "?s \<noteq> []" using assms(1) by (rule non_empty_sort)
  have b: "a \<le> ?s ! i" "?s ! i \<le> b" if "i < length ?s" for i
    using assms(4) nth_mem [OF that] by (simp_all add: list_all_iff)
  note i = interpolate_between [OF sorted_sort pos ne]
  show "a \<le> np_quantile xs q" unfolding np_quantile_interpolate using b(1) [OF i(3)] i(1) by linarith
  have "min (nat \<lfloor>?pos\<rfloor> + 1) (length ?s - 1) < length ?s" using ne by (cases ?s) auto
  from b(2) [OF this] show "np_quantile xs q \<le> b" unfolding np_quantile_interpolate using i(2) by linarith
qed

section \<open>Shrunk correlations\<close>

lemma pair_corr_bounds: "- 1 \<le> pair_corr a b" "pair_corr a b \<le> 1"
  using np_corrcoef_bounds [of "py_tail (min (length a) (length b)) a" "py_tail (min (length a) (length b)) b"]
  by (auto simp: pair_corr_def Let_def abs_le_iff)

lemma shrink_delta_bounds: "0 \<le> shrink_delta rho v prior" "shrink_delta rho v prior \<le> 1"
  by (simp_all add: shrink_delta_def Let_def)

lemma blend_between:
  fixes delta :: real
  assumes "0 \<le> delta" "delta \<le> 1"
  shows "min x y \<le> delta * x + (1 - delta) * y" "delta * x + (1 - delta) * y \<le> max x y"
proof -
  have "delta * min x y + (1 - delta) * min x y \<le> delta * x + (1 - delta) * y"
    using assms by (intro add_mono mult_left_mono) auto
  then show "min x y \<le> delta * x + (1 - delta) * y" by (simp add: algebra_simps)
  have "delta * x + (1 - delta) * y \<le> delta * max x y + (1 - delta) * max x y"
    using assms by (intro add_mono mult_left_mono) auto
  then show "delta * x + (1 - delta) * y \<le> max x y" by (simp add: algebra_simps)
qed

text \<open>The shrunk correlation lies between the sample correlation and the prior.\<close>

lemma shrunk_corr_between:
  fixes a b
  defines "rho \<equiv> pair_corr (py_tail (min (length a) (length b)) a) (py_tail (min (length a) (length b)) b)"
  shows "min prior rho \<le> fst (fst (shrunk_corr api a b prior k mbl g))" "fst (fst (shrunk_corr api a b prior k mbl g)) \<le> max prior rho"
  using blend_between(1) [OF shrink_delta_bounds, of prior rho rho _ prior]
    blend_between(2) [OF shrink_delta_bounds, of rho _ prior prior rho]
  by (auto simp: shrunk_corr_def Let_def split_beta rho_def)

lemma outer_draw_bounds:
  assumes "\<bar>prior\<bar> \<le> 1"
  shows "- 1 \<le> fst (outer_draw api a b prior k mbl g) \<and> fst (outer_draw api a b prior k mbl g) \<le> 1"
proof -
  obtain rho delta where d: "fst (outer_draw api a b prior k mbl g) = delta * prior + (1 - delta) * rho"
    and b: "0 \<le> delta" "delta \<le> 1" "- 1 \<le> rho" "rho \<le> 1"
    by (auto simp: outer_draw_def Let_def split_beta intro: that [OF _ shrink_delta_bounds pair_corr_bounds])
  show ?thesis unfolding d using blend_between [OF b(1,2), of prior rho] b(3,4) assms by (auto simp: abs_le_iff)
qed

text \<open>
  The interval the admission gate tests is an interval of correlations. For any generator and any
  two series its lower end is at most its upper end and both lie in \<open>[-1, 1]\<close>, for a prior in
  that range; and the shrunk correlation beside it lies between the sample correlation and the prior.
\<close>

theorem shrunk_interval_ordered:
  assumes "\<bar>prior\<bar> \<le> 1" "0 < n_outer" "0 \<le> alpha" "alpha \<le> 1"
  shows "- 1 \<le> fst (fst (shrunk_corr_ci api a b prior n_outer n_inner alpha mbl g)) \<and>
    fst (fst (shrunk_corr_ci api a b prior n_outer n_inner alpha mbl g)) \<le> snd (fst (shrunk_corr_ci api a b prior n_outer n_inner alpha mbl g)) \<and>
    snd (fst (shrunk_corr_ci api a b prior n_outer n_inner alpha mbl g)) \<le> 1 \<and>
    \<bar>fst (fst (shrunk_corr api a b prior k mbl g))\<bar> \<le> 1"
proof -
  let ?n = "min (length a) (length b)"
  let ?draws = "fst (repeat_draw n_outer (outer_draw api (py_tail ?n a) (py_tail ?n b) prior n_inner mbl) g)"
  have "list_all (\<lambda>x. - 1 \<le> x \<and> x \<le> 1) ?draws" "length ?draws = n_outer"
    using repeat_draw_all [of "\<lambda>x. - 1 \<le> x \<and> x \<le> 1" "outer_draw api (py_tail ?n a) (py_tail ?n b) prior n_inner mbl",
        OF outer_draw_bounds [OF assms(1)]] by simp_all
  moreover from this have "?draws \<noteq> []" using assms(2) by auto
  ultimately have "- 1 \<le> np_quantile ?draws (alpha / 2)" "np_quantile ?draws (1 - alpha / 2) \<le> 1"
    "np_quantile ?draws (alpha / 2) \<le> np_quantile ?draws (1 - alpha / 2)"
    using assms by (auto intro!: np_quantile_bounds np_quantile_mono)
  moreover have "\<bar>fst (fst (shrunk_corr api a b prior k mbl g))\<bar> \<le> 1"
    using shrunk_corr_between [where prior = prior and a = a and b = b and api = api and k = k and mbl = mbl and g = g] pair_corr_bounds [of "py_tail ?n a" "py_tail ?n b"] assms(1)
    by linarith
  ultimately show ?thesis using pair_corr_bounds [of "py_tail ?n a" "py_tail ?n b"]
    by (auto simp: shrunk_corr_ci_def Let_def split_beta)
qed

section \<open>Tail evidence\<close>

text \<open>From the weeks of a list, one per episode can be chosen, each more than the separation after the last.\<close>

lemma episodes_apart:
  assumes "sorted_wrt (<) (x # js)"
  shows "\<exists>ks. length ks = count_gaps sep (x # js) \<and> set ks \<subseteq> set js \<and> sorted_wrt (\<lambda>i j. i + sep < j) (x # ks)"
  using assms
proof (induction js arbitrary: x)
  case Nil
  show ?case by (simp add: count_gaps_def)
next
  case (Cons y js)
  have "sorted_wrt (<) (y # js)" using Cons.prems by simp
  from Cons.IH [OF this]
  obtain ks where ks: "length ks = count_gaps sep (y # js)" "set ks \<subseteq> set js" "sorted_wrt (\<lambda>i j. i + sep < j) (y # ks)"
    by blast
  have count: "count_gaps sep (x # y # js) = (if sep < y - x then Suc else id) (count_gaps sep (y # js))"
    by (simp add: count_gaps_def)
  have "x < y" using Cons.prems by simp
  show ?case
  proof (cases "sep < y - x")
    case True
    with ks \<open>x < y\<close> show ?thesis by (intro exI [of _ "y # ks"]) (auto simp: count)
  next
    case False
    with ks \<open>x < y\<close> show ?thesis by (intro exI [of _ ks]) (fastforce simp: count)
  qed
qed

lemma joint_tail_sorted: "sorted_wrt (<) (joint_tail a b q)"
  unfolding joint_tail_def by (intro sorted_wrt_filter) simp

lemma joint_tail_mem: "i \<in> set (joint_tail a b q) \<Longrightarrow> length b = length a \<Longrightarrow>
    i < length a \<and> a ! i \<le> np_quantile a q \<and> b ! i \<le> np_quantile b q"
  by (auto simp: joint_tail_def tail_mask_def)

lemma length_py_tail: "n \<le> length xs \<Longrightarrow> 0 < n \<Longrightarrow> length (py_tail n xs) = n"
  by (simp add: py_tail_def length_last_n)

text \<open>
  C33: The tail evidence that may one day steer the convergence watch or move capital never comes from
  one crash. At tier two or three the last common weeks hold that many weeks in which both legs are
  in their lower tail, each more than thirteen weeks after the one before, among at least
  twenty-five such weeks.
\<close>

theorem tail_tier_needs_distinct_episodes:
  assumes "2 \<le> tl_tier (fst (tail_dependence_sufficiency api a b q n_boot g))"
  shows "\<exists>ks. length ks = tl_tier (fst (tail_dependence_sufficiency api a b q n_boot g)) \<and>
    sorted_wrt (\<lambda>i j. i + 13 < j) ks \<and>
    list_all (\<lambda>i. i < min (length a) (length b) \<and>
        py_tail (min (length a) (length b)) a ! i \<le> np_quantile (py_tail (min (length a) (length b)) a) q \<and>
        py_tail (min (length a) (length b)) b ! i \<le> np_quantile (py_tail (min (length a) (length b)) b) q) ks \<and>
    25 \<le> tl_joint_tail_obs (fst (tail_dependence_sufficiency api a b q n_boot g))"
proof -
  let ?n = "min (length a) (length b)" and ?s = "fst (tail_dependence_sufficiency api a b q n_boot g)"
  let ?a = "py_tail ?n a" and ?b = "py_tail ?n b"
  have counts: "tl_tier ?s \<le> tl_stress_episodes ?s" "25 \<le> tl_joint_tail_obs ?s"
    "(tl_joint_tail_obs ?s, tl_stress_episodes ?s) = joint_tail_obs_and_episodes a b q 13"
    using assms by (auto simp: tail_dependence_sufficiency_def Let_def split_beta MIN_EPISODE_SEPARATION_WEEKS_def split: if_splits)
  then have n: "10 \<le> ?n" and ne: "joint_tail ?a ?b q \<noteq> []" and epi: "tl_stress_episodes ?s = 1 + count_gaps 13 (joint_tail ?a ?b q)"
    by (auto simp: joint_tail_obs_and_episodes_def Let_def split: if_splits)
  then obtain x js where js: "joint_tail ?a ?b q = x # js" by (cases "joint_tail ?a ?b q") auto
  have "sorted_wrt (<) (x # js)" using joint_tail_sorted [of ?a ?b q] js by simp
  from episodes_apart [OF this, of 13] obtain ks where ks: "length ks = count_gaps 13 (x # js)" "set ks \<subseteq> set js"
    "sorted_wrt (\<lambda>i j. i + 13 < j) (x # ks)" by blast
  have len: "length ?a = ?n" "length ?b = ?n" using n by (intro length_py_tail; linarith)+
  have mem: "i < ?n \<and> ?a ! i \<le> np_quantile ?a q \<and> ?b ! i \<le> np_quantile ?b q" if "i \<in> set (x # ks)" for i
    using joint_tail_mem [of i ?a ?b q] that ks(2) js len by auto
  let ?ks = "take (tl_tier ?s) (x # ks)"
  have "length ?ks = tl_tier ?s" using counts(1) epi ks(1) js by simp
  moreover have "sorted_wrt (\<lambda>i j. i + 13 < j) ?ks" using ks(3) by (rule sorted_wrt_take)
  moreover have "list_all (\<lambda>i. i < ?n \<and> ?a ! i \<le> np_quantile ?a q \<and> ?b ! i \<le> np_quantile ?b q) ?ks"
    unfolding list_all_iff using mem by (meson in_set_takeD)
  ultimately show ?thesis using counts(2) by blast
qed

section \<open>Admission\<close>

lemma first_correlated_none:
  assumes "first_correlated api cfg cand active g = None" "a \<in> set active"
  shows "\<exists>h. snd (fst (shrunk_corr_ci api (li_returns cand) (li_returns a) (cluster_prior (li_cluster cand) (li_cluster a) cfg)
              200 40 (10 / 100) 5 h)) < pf_max_abs_corr cfg \<and>
    - pf_max_abs_corr cfg < fst (fst (shrunk_corr_ci api (li_returns cand) (li_returns a)
              (cluster_prior (li_cluster cand) (li_cluster a) cfg) 200 40 (10 / 100) 5 h))"
  using assms by (induction active arbitrary: g) (auto simp: Let_def split_beta not_le split: if_splits)

lemma cold_start_multiplier_bounds:
  assumes "0 \<le> pf_cold_start_tier_fraction cfg" "pf_cold_start_tier_fraction cfg \<le> 1" "pf_cold_start_tier_weeks cfg \<le> k"
  shows "pf_cold_start_tier_fraction cfg \<le> cold_start_budget_multiplier k cfg" "cold_start_budget_multiplier k cfg \<le> 1"
proof -
  let ?f = "pf_cold_start_tier_fraction cfg" and ?s = "sqrt (real (pf_cold_start_tier_weeks cfg))" and ?u = "sqrt (real (pf_min_overlap_weeks cfg))"
  show "?f \<le> cold_start_budget_multiplier k cfg" "cold_start_budget_multiplier k cfg \<le> 1"
  proof (atomize (full), cases "pf_min_overlap_weeks cfg \<le> k")
    case True
    then show "?f \<le> cold_start_budget_multiplier k cfg \<and> cold_start_budget_multiplier k cfg \<le> 1"
      using assms(2) by (simp add: cold_start_budget_multiplier_def Let_def)
  next
    case False
    let ?r = "(sqrt (real k) - ?s) / (?u - ?s)"
    have lt: "?s \<le> sqrt (real k)" "sqrt (real k) < ?u" using assms(3) False by simp_all
    then have r: "0 \<le> ?r" "?r \<le> 1" by (auto simp: divide_le_eq_1)
    have "0 \<le> (1 - ?f) * ?r" "(1 - ?f) * ?r \<le> (1 - ?f) * 1" using assms(2) r by (intro mult_nonneg_nonneg mult_left_mono; simp)+
    then show "?f \<le> cold_start_budget_multiplier k cfg \<and> cold_start_budget_multiplier k cfg \<le> 1"
      using False assms(3) by (simp add: cold_start_budget_multiplier_def Let_def not_le)
  qed
qed

text \<open>
  What admission promises. An admitted leg overlaps every active leg by the floor in force; the
  interval of its shrunk correlation with each of them lies strictly within the limit; adding it
  did not lower the bound of the book's Sharpe ratio; and its budget multiplier lies between the
  cold-start fraction and one, and is one when the tiers are off.
\<close>

theorem admitted_leg_cleared_every_gate:
  assumes "decide_admission api cand active cfg = Inr d" "ad_verdict d = ADMIT"
    "0 \<le> pf_cold_start_tier_fraction cfg" "pf_cold_start_tier_fraction cfg \<le> 1"
  shows "list_all (\<lambda>a. overlap_floor cfg \<le> overlap_of cand a \<and>
      (\<exists>h. snd (fst (shrunk_corr_ci api (li_returns cand) (li_returns a) (cluster_prior (li_cluster cand) (li_cluster a) cfg)
              200 40 (10 / 100) 5 h)) < pf_max_abs_corr cfg \<and>
         - pf_max_abs_corr cfg < fst (fst (shrunk_corr_ci api (li_returns cand) (li_returns a)
              (cluster_prior (li_cluster cand) (li_cluster a) cfg) 200 40 (10 / 100) 5 h)))) active \<and>
    blend_degraded api cand active = Inr False \<and>
    pf_cold_start_tier_fraction cfg \<le> ad_budget_multiplier d \<and> ad_budget_multiplier d \<le> 1 \<and>
    (pf_cold_start_tiered_admission cfg \<or> ad_budget_multiplier d = 1)"
proof -
  have gates: "find (\<lambda>a. overlap_of cand a < overlap_floor cfg) active = None"
    "first_correlated api cfg cand active (default_rng api 0) = None" "blend_degraded api cand active = Inr False"
    using assms(1,2) by (auto simp: decide_admission_def Let_def split: option.splits sum.splits bool.splits)
  then have "\<exists>k. \<not> (pf_cold_start_tiered_admission cfg \<and> k < pf_cold_start_tier_weeks cfg) \<and>
      ad_budget_multiplier d = (if pf_cold_start_tiered_admission cfg then cold_start_budget_multiplier k cfg else 1)"
    using assms(1,2) by (auto simp: decide_admission_def Let_def split: if_splits)
  then obtain k where k: "pf_cold_start_tiered_admission cfg \<Longrightarrow> pf_cold_start_tier_weeks cfg \<le> k"
    "ad_budget_multiplier d = (if pf_cold_start_tiered_admission cfg then cold_start_budget_multiplier k cfg else 1)"
    by (auto simp: not_less)
  have "pf_cold_start_tier_fraction cfg \<le> ad_budget_multiplier d \<and> ad_budget_multiplier d \<le> 1"
    using cold_start_multiplier_bounds [OF assms(3,4) k(1)] assms(4) by (simp add: k(2))
  moreover have "overlap_floor cfg \<le> overlap_of cand a" if "a \<in> set active" for a
    using gates(1) that by (auto simp: find_None_iff not_less)
  ultimately show ?thesis using gates(3) first_correlated_none [OF gates(2)] k(2) by (simp add: list_all_iff)
qed

section \<open>Where the layer falls short\<close>

text \<open>The step cap keeps a weight near the prior one, whatever the caps and the state say.\<close>

lemma step_cap_keeps_demoted:
  assumes "0 \<le> pf_max_step cfg" "pf_max_step cfg < pw"
  shows "step_capped cfg pw 0 = pw - pf_max_step cfg"
  using assms by (simp add: step_capped_def Let_def)

text \<open>A leg of no volatility, one that never traded and has none registered, stops every allocation.\<close>

lemma cluster_vols_fail:
  assumes "(c, ms) \<in> set gs" "m \<in> set ms" "dict_get vols (li_leg_id m) 0 = 0"
  shows "\<exists>e. cluster_vols vols gs = Inl e"
  using cluster_vols_shape [of vols gs] assms by (cases "cluster_vols vols gs") fastforce+

lemma flat_leg_stops_allocation:
  assumes "distinct (map li_leg_id legs)" "l \<in> set legs" "causal_vol (li_returns l) (li_oos_vol l) cfg = 0"
  shows "\<exists>e. allocate api legs cfg step = Inl e"
proof -
  let ?vols = "dict_comp li_leg_id (\<lambda>l. causal_vol (li_returns l) (li_oos_vol l) cfg) legs"
  let ?grp = "filter (\<lambda>x. li_cluster x = li_cluster l) legs"
  have l: "l \<in> set ?grp" using assms(2) by simp
  then have "map_of (group_on li_cluster legs) (li_cluster l) = Some ?grp"
    unfolding group_on_lookup Let_def by (cases "?grp = []") auto
  note grp = map_of_SomeD [OF this]
  have "dict_get ?vols (li_leg_id l) 0 = 0"
    using dict_get_comp [OF assms(1,2), of "\<lambda>l. causal_vol (li_returns l) (li_oos_vol l) cfg"] assms(3) by simp
  from cluster_vols_fail [OF grp l this] obtain e where "cluster_vols ?vols (group_on li_cluster legs) = Inl e" by blast
  then have "full_weights cfg legs = Inl e" by (simp add: full_weights_def Let_def)
  then show ?thesis using assms(2) by (auto simp: allocate_def)
qed

text \<open>The watch compares the legs' first common weeks: what one of them returned since is never read.\<close>

lemma watch_ignores_recent_weeks:
  fixes a b :: leg_input
  defines "n \<equiv> min (length (li_returns a)) (length (li_returns b))"
  shows "convergence_watch api (a\<lparr>li_returns := take n (li_returns a) @ xs\<rparr>) (b\<lparr>li_returns := take n (li_returns b)\<rparr>) cfg =
    convergence_watch api a b cfg"
proof -
  let ?a = "a\<lparr>li_returns := take n (li_returns a) @ xs\<rparr>" and ?b = "b\<lparr>li_returns := take n (li_returns b)\<rparr>"
  have win: "window_ending w k (take n ys @ zs) = window_ending w k ys" if "k \<le> n" "w \<le> k" "n \<le> length ys" for w k and ys zs :: "pyfloat list"
  proof -
    have "window_ending w k xs = drop (k - w) (take k xs)" for xs :: "pyfloat list"
      using that(2) by (simp add: window_ending_def drop_take)
    then show ?thesis using that by (simp add: min_absorb2)
  qed
  have "watch_loop api cfg ?a ?b ks run g = watch_loop api cfg a b ks run g"
    if "\<forall>k\<in>set ks. k \<le> n \<and> pf_cluster_vol_window_weeks cfg \<le> k" for ks run g
    using that win [of _ _ "li_returns a" xs] win [of _ _ "li_returns b" "[]"]
    by (induction ks arbitrary: run g) (simp_all add: Let_def split_beta n_def)
  moreover have "min (length (li_returns ?a)) (length (li_returns ?b)) = n" by (simp add: n_def)
  ultimately show ?thesis by (simp add: convergence_watch_def Let_def n_def [symmetric])
qed

section \<open>Resampling in pairs\<close>

text \<open>What is relied on of a generator: an index is drawn below its bound, and as many uniforms as asked for.\<close>

locale generator =
  fixes api :: "'g rng_api"
  assumes integers_below: "0 < n \<Longrightarrow> fst (rng_integers api n g) < n"
    and random_length: "length (fst (rng_random api n g)) = n"
begin

lemma walk_below: "0 < n \<Longrightarrow> i < n \<Longrightarrow> list_all (\<lambda>j. j < n) (fst (bootstrap_walk api n rs i g))"
proof (induction rs arbitrary: i g)
  case (Cons r rs)
  then show ?case using integers_below [of n g] by (simp add: split_beta Let_def)
qed simp

lemma walk_length: "length (fst (bootstrap_walk api n rs i g)) = Suc (length rs)"
  by (induction rs arbitrary: i g) (simp_all add: split_beta Let_def)

lemma resample_idx:
  "length (fst (paired_resample_idx api n mbl g)) = n \<and> list_all (\<lambda>j. j < n) (fst (paired_resample_idx api n mbl g))"
proof (cases "n = 0")
  case False
  let ?i = "rng_integers api n g"
  let ?u = "rng_random api n (snd ?i)"
  let ?w = "bootstrap_walk api n (tl (map (\<lambda>u. u < 1 / max mbl 1) (fst ?u))) (fst ?i) (snd ?u)"
  have w: "list_all (\<lambda>j. j < n) (fst ?w)" "length (fst ?w) = n"
    using False walk_below [of n] integers_below [of n] by (simp_all add: walk_length random_length)
  have "fst (paired_resample_idx api n mbl g) = map ((!) [0..<n]) (fst ?w)"
    using False by (simp add: paired_resample_idx_def stationary_bootstrap_resample_def Let_def split_beta)
  also have "\<dots> = fst ?w" using w(1) by (intro map_idI) (simp add: list_all_iff)
  finally show ?thesis using w by simp
qed (simp add: paired_resample_idx_def stationary_bootstrap_resample_def)

text \<open>A resample of two series is a series of weeks that both had.\<close>

lemma resample_keeps_pairs:
  fixes a b mbl g
  defines "idx \<equiv> fst (paired_resample_idx api (length a) mbl g)"
  assumes "length b = length a"
  shows "length (take_rows idx a) = length a" "set (zip (take_rows idx a) (take_rows idx b)) \<subseteq> set (zip a b)"
proof -
  have idx: "length idx = length a" "list_all (\<lambda>j. j < length a) idx" unfolding idx_def using resample_idx by simp_all
  show "length (take_rows idx a) = length a" using idx(1) by (simp add: take_rows_def)
  show "set (zip (take_rows idx a) (take_rows idx b)) \<subseteq> set (zip a b)"
    using idx(2) assms(2) by (auto simp: take_rows_def zip_map_map in_set_zip list_all_iff set_zip)
qed

end

text \<open>A linear congruential generator.\<close>

definition lcg_next :: "nat \<Rightarrow> nat" where
  "lcg_next s = (1103515245 * s + 12345) mod 2147483648"

fun lcg_uniforms :: "nat \<Rightarrow> nat \<Rightarrow> pyfloat list \<times> nat" where
  "lcg_uniforms 0 s = ([], s)"
| "lcg_uniforms (Suc n) s = (let (us, t) = lcg_uniforms n (lcg_next s) in (real (lcg_next s) / 2147483648 # us, t))"

definition lcg :: "nat rng_api" where
  "lcg = \<lparr>default_rng = (\<lambda>seed. seed), rng_integers = (\<lambda>n s. (lcg_next s mod n, lcg_next s)), rng_random = lcg_uniforms\<rparr>"

lemma lcg_uniforms_length: "length (fst (lcg_uniforms n s)) = n"
  by (induction n arbitrary: s) (simp_all add: split_beta Let_def)

interpretation lcg_draws: generator lcg
  by unfold_locales (simp_all add: lcg_def lcg_uniforms_length)

section \<open>Samples\<close>

definition sample_input :: "string \<Rightarrow> string \<Rightarrow> pyfloat list \<Rightarrow> string \<Rightarrow> leg_input" where
  "sample_input leg cluster returns st =
     \<lparr>li_leg_id = leg, li_cluster = cluster, li_returns = returns, li_oos_vol = 2, li_state = st,
      li_admission_order = 0, li_prior_weight = 0\<rparr>"

definition sample_book :: "leg_input list" where
  "sample_book = [sample_input ''g'' ''METALS'' [1] ''ACTIVE'', sample_input ''s'' ''METALS'' [1] ''WATCH'',
     sample_input ''v'' ''SHORTVOL'' [1] ''ACTIVE'']"

lemma sample_book_allocated: "\<exists>r. allocate lcg sample_book default_portfolio_config False = Inr r"
proof -
  have "\<exists>p. full_weights default_portfolio_config sample_book = Inr p"
    by (simp add: full_weights_def Let_def sample_book_def sample_input_def dict_comp_def group_on_def dict_get_def
        causal_vol_def py_tail_def last_n_def default_portfolio_config_def cluster_vol_of_def min_length_def vstack_tails_def)
  then show ?thesis by (auto simp: allocate_def Let_def sample_book_def split: prod.splits)
qed

lemma sample_book_ids: "distinct (map li_leg_id sample_book)"
  by (simp add: sample_book_def sample_input_def)

lemma default_caps: "caps_ok default_portfolio_config"
  by (simp add: caps_ok_def default_portfolio_config_def)

theorem allocation_within_caps_witness:
  "\<exists>r. allocate lcg sample_book default_portfolio_config False = Inr r \<and>
    dict_sum (ar_weights r) + ar_cash_share r = 1 \<and> dict_get (ar_weights r) ''g'' 0 \<le> 25 / 100 \<and>
    weight_sum (ar_weights r) [''g'', ''s''] \<le> 40 / 100 \<and> weight_sum (ar_weights r) [''v''] \<le> 15 / 100"
proof -
  obtain r where r: "allocate lcg sample_book default_portfolio_config False = Inr r" using sample_book_allocated by blast
  note caps = allocation_within_caps [OF r sample_book_ids default_caps]
  show ?thesis using r caps [of "''g''" "''METALS''"] caps [of "''v''" "''SHORTVOL''"]
    by (simp add: sample_book_def sample_input_def default_portfolio_config_def cluster_cap_def)
qed

theorem freed_budget_goes_to_cash_witness:
  "\<exists>r r'. allocate lcg sample_book default_portfolio_config False = Inr r \<and>
    allocate lcg (map (set_leg_state ''g'' ''SAFE_MODE'') sample_book) default_portfolio_config False = Inr r' \<and>
    dict_get (ar_weights r') ''s'' 0 = dict_get (ar_weights r) ''s'' 0 \<and> dict_get (ar_weights r') ''g'' 0 = 0 \<and>
    ar_cash_share r' = ar_cash_share r + dict_get (ar_weights r) ''g'' 0"
proof -
  obtain r where r: "allocate lcg sample_book default_portfolio_config False = Inr r" using sample_book_allocated by blast
  have leg: "hd sample_book \<in> set sample_book" "li_leg_id (hd sample_book) = ''g''" by (simp_all add: sample_book_def sample_input_def)
  show ?thesis using freed_budget_goes_to_cash [OF r sample_book_ids default_caps leg(1), of "''SAFE_MODE''"] r
    by (auto simp: leg(2) state_sizing_def dict_get_def)
qed

theorem shrunk_interval_ordered_witness:
  "fst (fst (shrunk_corr_ci lcg [1, 2, 3, 4] [1, 0, 1, 0] (4 / 10) 200 40 (1 / 10) 5 0))
     \<le> snd (fst (shrunk_corr_ci lcg [1, 2, 3, 4] [1, 0, 1, 0] (4 / 10) 200 40 (1 / 10) 5 0))"
  using shrunk_interval_ordered [of "4 / 10" 200 "1 / 10" lcg "[1, 2, 3, 4]" "[1, 0, 1, 0]" 40 5 0] by simp

text \<open>Two crises of thirteen weeks each, far apart.\<close>

definition two_crises :: "pyfloat list" where
  "two_crises = replicate 13 0 @ replicate 34 1 @ replicate 13 0"

lemma one_draw_width: "10 \<le> min (length a) (length b) \<Longrightarrow>
    snd (snd (fst (lower_tail_dependence_ci api a b q 1 alpha mbl g))) = fst (snd (fst (lower_tail_dependence_ci api a b q 1 alpha mbl g)))"
  by (simp only: lower_tail_dependence_ci_def Let_def split_beta not_less [symmetric] if_False) (simp add: np_quantile_def split_beta)

lemma two_crises_counts: "joint_tail_obs_and_episodes two_crises two_crises (3 / 10) 13 = (26, 2)"
proof -
  have "sort two_crises = replicate 26 0 @ replicate 34 1" by code_simp
  moreover have "\<lfloor>177 / 10 :: real\<rfloor> = 17" by (simp add: floor_eq_iff)
  ultimately have "np_quantile two_crises (3 / 10) = 0"
    by (simp add: np_quantile_def Let_def two_crises_def nth_append)
  then have "joint_tail two_crises two_crises (3 / 10) = filter (\<lambda>i. two_crises ! i \<le> 0) [0..<length two_crises]"
    by (auto simp: joint_tail_def tail_mask_def intro!: filter_cong)
  also have "\<dots> = [0..<13] @ [47..<60]" by code_simp
  finally have "joint_tail two_crises two_crises (3 / 10) = [0..<13] @ [47..<60]" .
  moreover have "count_gaps 13 ([0..<13] @ [47..<60]) = 1" by code_simp
  ultimately show ?thesis by (simp add: joint_tail_obs_and_episodes_def Let_def two_crises_def py_tail_def last_n_def)
qed

theorem tail_tier_needs_distinct_episodes_witness:
  "\<exists>ks. length ks = 2 \<and> sorted_wrt (\<lambda>i j. i + 13 < j) ks \<and> list_all (\<lambda>i. i < (60 :: nat)) ks"
proof -
  have tier: "tl_tier (fst (tail_dependence_sufficiency lcg two_crises two_crises (3 / 10) 1 0)) = 2"
    using one_draw_width [of two_crises two_crises lcg "3 / 10" "10 / 100" 5 0]
    by (simp add: tail_dependence_sufficiency_def Let_def split_beta MIN_EPISODE_SEPARATION_WEEKS_def two_crises_counts)
      (simp add: two_crises_def)
  from tail_tier_needs_distinct_episodes [of lcg two_crises two_crises "3 / 10" 1 0] tier show ?thesis
    by (auto simp: two_crises_def list_all_iff)
qed

definition sample_admission_config :: portfolio_config where
  "sample_admission_config = default_portfolio_config\<lparr>pf_min_overlap_weeks := 2\<rparr>"

theorem admitted_leg_cleared_every_gate_witness:
  "\<exists>d. decide_admission lcg (sample_input ''c'' ''ENERGY'' [1, 1] ''ACTIVE'') [sample_input ''g'' ''METALS'' [1, 1] ''ACTIVE'']
      sample_admission_config = Inr d \<and> ad_verdict d = ADMIT \<and> ad_budget_multiplier d = 1"
proof -
  have "\<exists>d. decide_admission lcg (sample_input ''c'' ''ENERGY'' [1, 1] ''ACTIVE'') [sample_input ''g'' ''METALS'' [1, 1] ''ACTIVE'']
      sample_admission_config = Inr d \<and> ad_verdict d = ADMIT"
    by (simp add: decide_admission_def Let_def sample_input_def overlap_of_def overlap_floor_def sample_admission_config_def
        default_portfolio_config_def shrunk_corr_ci_def pair_corr_def py_tail_def last_n_def np_std_def np_cov_def np_mean_def
        blend_degraded_def min_length_def vstack_tails_def row_mean_def sharpe_ci_lower_def)
  then obtain d where d: "decide_admission lcg (sample_input ''c'' ''ENERGY'' [1, 1] ''ACTIVE'')
      [sample_input ''g'' ''METALS'' [1, 1] ''ACTIVE''] sample_admission_config = Inr d" "ad_verdict d = ADMIT" by blast
  from admitted_leg_cleared_every_gate [OF d] d show ?thesis
    by (simp add: sample_admission_config_def default_portfolio_config_def)
qed

end
