(* ===== verification/Depth_Cache.thy ===== *)
theory Depth_Cache
  imports Models
begin

text \<open>
  The level-1 quote cache of the market-data streams, \<open>src/ingestor/level1_depth_cache.py\<close>: the last
  quote of each symbol with its spread, depth and age.
\<close>

section \<open>The quote cache\<close>

definition DEPTH_STALE_SECONDS :: pyfloat where "DEPTH_STALE_SECONDS = 5"

record depth_quote =
  lq_symbol :: string
  lq_bid_price :: pyfloat
  lq_ask_price :: pyfloat
  lq_bid_size :: pyfloat
  lq_ask_size :: pyfloat
  lq_timestamp :: instant
  lq_source :: string

definition depth_mid_price :: "depth_quote \<Rightarrow> pyfloat" where
  "depth_mid_price q =
     (if 0 < lq_bid_price q \<and> 0 < lq_ask_price q then (lq_bid_price q + lq_ask_price q) / 2
      else max (max (lq_bid_price q) (lq_ask_price q)) 0)"

definition depth_spread_pct :: "depth_quote \<Rightarrow> pyfloat" where
  "depth_spread_pct q =
     (let mid = depth_mid_price q in if mid \<le> 0 then 0 else max (lq_ask_price q - lq_bid_price q) 0 / mid)"

definition total_depth :: "depth_quote \<Rightarrow> pyfloat" where
  "total_depth q = max (lq_bid_size q) 0 + max (lq_ask_size q) 0"

definition depth_age_seconds :: "instant \<Rightarrow> depth_quote \<Rightarrow> pyfloat" where
  "depth_age_seconds now q = max (total_seconds (now - lq_timestamp q)) 0"

definition depth_is_stale :: "instant \<Rightarrow> pyfloat \<Rightarrow> depth_quote \<Rightarrow> bool" where
  "depth_is_stale now max_age q = (max max_age 0 < depth_age_seconds now q)"

type_synonym depth_cache = "(string, depth_quote) dict"

definition depth_update ::
  "string \<Rightarrow> pyfloat \<Rightarrow> pyfloat \<Rightarrow> pyfloat \<Rightarrow> pyfloat \<Rightarrow> instant \<Rightarrow> string \<Rightarrow> depth_cache \<Rightarrow> depth_cache \<times> depth_quote" where
  "depth_update symbol bid ask bid_size ask_size t src cache =
     (let q = \<lparr>lq_symbol = str_upper symbol, lq_bid_price = max bid 0, lq_ask_price = max ask 0,
               lq_bid_size = max bid_size 0, lq_ask_size = max ask_size 0, lq_timestamp = t, lq_source = src\<rparr>
      in (AList.update (lq_symbol q) q cache, q))"

definition depth_get :: "string \<Rightarrow> depth_cache \<Rightarrow> depth_quote option" where
  "depth_get symbol cache = map_of cache (str_upper symbol)"

text \<open>A quote reads back under every spelling of its symbol, and prices and sizes are never negative.\<close>

lemma depth_get_update:
  "depth_get s (fst (depth_update symbol bid ask bs as t src cache)) =
     (if str_upper s = str_upper symbol then Some (snd (depth_update symbol bid ask bs as t src cache)) else depth_get s cache)"
  by (simp add: depth_get_def depth_update_def Let_def)

lemma depth_update_nonneg:
  "0 \<le> lq_bid_price (snd (depth_update symbol bid ask bs as t src cache))"
  "0 \<le> lq_ask_price (snd (depth_update symbol bid ask bs as t src cache))"
  "0 \<le> lq_bid_size (snd (depth_update symbol bid ask bs as t src cache))"
  "0 \<le> lq_ask_size (snd (depth_update symbol bid ask bs as t src cache))"
  by (simp_all add: depth_update_def Let_def)

end
