(* ===== verification/Microstructure_Guard.thy ===== *)
theory Microstructure_Guard
  imports Governance_Registry Depth_Cache
begin

text \<open>
  The microstructure guard, \<open>src/engine/microstructure_guard.py\<close>, over the level-1
  quote cache: the detection of halt and limit-band messages (its two regular expressions as
  matchers on ASCII text), the latches and their recovery, and the verdict. The lemmas show what a recovery from a halt rests on, that a limit-band latch blocks
  entries until an explicit resume, and what a safe verdict has checked; and where silence, a
  substring or an order of words defeats them.
\<close>

section \<open>Text\<close>

fun words_from :: "string \<Rightarrow> string \<Rightarrow> string list" where
  "words_from w [] = (if w = [] then [] else [rev w])"
| "words_from w (c # cs) =
     (if is_space c then (if w = [] then words_from [] cs else rev w # words_from [] cs) else words_from (c # w) cs)"

definition str_split :: "string \<Rightarrow> string list" where
  "str_split s = words_from [] s"

definition strip_prefix :: "string \<Rightarrow> string \<Rightarrow> string option" where
  "strip_prefix p s = (if take (length p) s = p then Some (drop (length p) s) else None)"

text \<open>The condition codes of a message: none, a text, or a list.\<close>

datatype conditions = No_conditions | Condition_text string | Condition_list "string list"

definition normalize_tokens :: "conditions \<Rightarrow> string set" where
  "normalize_tokens c =
     (let parts = (case c of No_conditions \<Rightarrow> []
                   | Condition_text s \<Rightarrow> str_split (map (\<lambda>x. if x = CHR '','' then CHR '' '' else x) s)
                   | Condition_list xs \<Rightarrow> xs)
      in (\<lambda>p. str_upper (str_strip p)) ` {p \<in> set parts. str_strip p \<noteq> []})"

definition token_hits :: "string set \<Rightarrow> string list \<Rightarrow> bool" where
  "token_hits tokens vocabulary = list_ex (\<lambda>v. v \<in> tokens) vocabulary"

definition HALT_STATUS_TOKENS :: "string list" where
  "HALT_STATUS_TOKENS = [''H'', ''HALT'', ''HALTED'', ''SUSPENDED'', ''PAUSED'', ''T1'', ''T2'', ''T5'', ''T12'']"

definition LULD_STATUS_TOKENS :: "string list" where
  "LULD_STATUS_TOKENS = [''LULD'', ''LIMIT_UP'', ''LIMIT_DOWN'', ''LIMITUP'', ''LIMITDOWN'', ''LU'', ''LD'']"

definition RESUME_STATUS_CODES :: "string list" where
  "RESUME_STATUS_CODES = [''ACTIVE'', ''RESUME'', ''RESUMED'', ''NORMAL'']"

definition HALT_CONDITION_TOKENS :: "string list" where
  "HALT_CONDITION_TOKENS = [''H'', ''HALT'', ''HALTED'']"

definition LULD_CONDITION_TOKENS :: "string list" where
  "LULD_CONDITION_TOKENS = [''L'', ''LU'', ''LD'', ''LULD'']"

record status_message =
  sg_status_code :: string
  sg_status_message :: string
  sg_reason_code :: string
  sg_reason_message :: string

definition is_resume_status :: "status_message \<Rightarrow> bool" where
  "is_resume_status s =
     (str_upper (str_strip (sg_status_code s)) \<in> set RESUME_STATUS_CODES \<or>
      (let text = str_upper (sg_status_message s @ '' '' @ sg_reason_message s)
       in list_ex (\<lambda>phrase. str_contains phrase text)
            [''TRADING RESUMED'', ''RESUME TRADING'', ''HALT CANCELLED'', ''HALT LIFTED'']))"

section \<open>The halt phrase\<close>

definition upper_alnum :: "char \<Rightarrow> bool" where
  "upper_alnum c = (let n = of_char c :: nat in (48 \<le> n \<and> n \<le> 57) \<or> (65 \<le> n \<and> n \<le> 90))"

definition at_boundary :: "string \<Rightarrow> bool" where
  "at_boundary rest = (case rest of [] \<Rightarrow> True | c # _ \<Rightarrow> \<not> upper_alnum c)"

definition bounded_word :: "string \<Rightarrow> string \<Rightarrow> string option" where
  "bounded_word w s = (case strip_prefix w s of None \<Rightarrow> None | Some rest \<Rightarrow> if at_boundary rest then Some rest else None)"

definition after_trading :: "string \<Rightarrow> string option" where
  "after_trading s =
     (case strip_prefix ''TRADING'' s of
        None \<Rightarrow> None
      | Some rest \<Rightarrow> (case rest of [] \<Rightarrow> None | c # _ \<Rightarrow> if is_space c then Some (dropWhile is_space rest) else None))"

definition first_some :: "'a option list \<Rightarrow> 'a option" where
  "first_some xs = (case filter (\<lambda>x. x \<noteq> None) xs of [] \<Rightarrow> None | x # _ \<Rightarrow> x)"

text \<open>The alternatives of the pattern in their order; the result is the text after the match.\<close>

definition match_halt_phrase :: "string \<Rightarrow> string option" where
  "match_halt_phrase s =
     first_some
       [case after_trading s of None \<Rightarrow> None | Some r \<Rightarrow> first_some [bounded_word ''HALTED'' r, bounded_word ''HALT'' r],
        bounded_word ''HALTED'' s, bounded_word ''SUSPENDED'' s,
        case after_trading s of None \<Rightarrow> None | Some r \<Rightarrow> bounded_word ''SUSPENSION'' r]"

lemma bounded_word_shorter: "bounded_word w s = Some r \<Longrightarrow> w \<noteq> [] \<Longrightarrow> length r < length s"
  by (cases s) (auto simp: bounded_word_def strip_prefix_def split: if_splits)

lemma after_trading_shorter: "after_trading s = Some r \<Longrightarrow> length r < length s"
  using length_dropWhile_le [of is_space "drop (length ''TRADING'') s"]
  by (cases s) (auto simp: after_trading_def strip_prefix_def split: if_splits list.splits)

lemma first_some_mem: "first_some xs = Some r \<Longrightarrow> Some r \<in> set xs"
proof -
  assume "first_some xs = Some r"
  then have "Some r \<in> set (filter (\<lambda>x. x \<noteq> None) xs)" by (cases "filter (\<lambda>x. x \<noteq> None) xs") (auto simp: first_some_def)
  then show ?thesis by simp
qed

lemma one_of_four: "x \<in> set [a, b, c, d] \<Longrightarrow> a = x \<or> b = x \<or> c = x \<or> d = x"
  and one_of_three: "x \<in> set [a, b, c] \<Longrightarrow> a = x \<or> b = x \<or> c = x"
  and one_of_two: "x \<in> set [a, b] \<Longrightarrow> a = x \<or> b = x"
  by auto

lemma match_halt_shorter:
  assumes "match_halt_phrase s = Some r"
  shows "length r < length s"
proof -
  have word: "length r < length u" if "bounded_word w u = Some r" "w \<noteq> []" for w u
    using bounded_word_shorter [OF that] .
  have trading: "length r < length s" if "after_trading s = Some u" "bounded_word w u = Some r" "w \<noteq> []" for u w
    using after_trading_shorter [OF that(1)] word [OF that(2,3)] by simp
  let ?halt = "case after_trading s of None \<Rightarrow> None | Some u \<Rightarrow> first_some [bounded_word ''HALTED'' u, bounded_word ''HALT'' u]"
  let ?suspension = "case after_trading s of None \<Rightarrow> None | Some u \<Rightarrow> bounded_word ''SUSPENSION'' u"
  have halt: "length r < length s" if "?halt = Some r"
  proof -
    obtain u where u: "after_trading s = Some u" "first_some [bounded_word ''HALTED'' u, bounded_word ''HALT'' u] = Some r"
      using \<open>?halt = Some r\<close> by (cases "after_trading s") auto
    from one_of_two [OF first_some_mem [OF u(2)]] show ?thesis by (elim disjE) (auto dest: trading [OF u(1)])
  qed
  have suspension: "length r < length s" if "?suspension = Some r"
    using that trading by (cases "after_trading s") auto
  from one_of_four [OF first_some_mem [OF assms [unfolded match_halt_phrase_def]]] show ?thesis
    by (elim disjE) (erule halt, (erule word, simp)+, erule suspension)
qed

text \<open>The text before each match, from left to right, matches not overlapping.\<close>

function halt_phrases :: "string \<Rightarrow> string \<Rightarrow> string list" where
  "halt_phrases before rest =
     (case rest of
        [] \<Rightarrow> []
      | c # cs \<Rightarrow>
          (case (if before \<noteq> [] \<and> upper_alnum (last before) then None else match_halt_phrase rest) of
             Some after \<Rightarrow> before # halt_phrases (before @ take (length rest - length after) rest) after
           | None \<Rightarrow> halt_phrases (before @ [c]) cs))"
  by pat_completeness auto
termination
  by (relation "measure (length \<circ> snd)") (auto split: if_splits dest: match_halt_shorter)

declare halt_phrases.simps [simp del]

definition str_rstrip :: "string \<Rightarrow> string" where
  "str_rstrip s = rev (dropWhile is_space (rev s))"

definition NEGATION_PREFIXES :: "string list" where
  "NEGATION_PREFIXES = [''NOT '', ''NO '', ''NEVER '', ''UN'', ''NON-'', ''NON '']"

definition negated :: "string \<Rightarrow> bool" where
  "negated preceding =
     (let tail = str_rstrip preceding
      in list_ex (\<lambda>p. if p \<in> {''UN'', ''NON-''} then ends_with preceding p
                      else ends_with tail (str_strip p) \<and> length tail < length preceding) NEGATION_PREFIXES)"

definition is_halt_status :: "status_message \<Rightarrow> bool" where
  "is_halt_status s =
     (str_upper (str_strip (sg_status_code s)) \<in> set HALT_STATUS_TOKENS \<or>
      str_upper (str_strip (sg_reason_code s)) \<in> set HALT_STATUS_TOKENS \<or>
      list_ex (\<lambda>text. list_ex (\<lambda>preceding. \<not> negated preceding) (halt_phrases [] (str_upper text)))
        [sg_status_message s, sg_reason_message s])"

definition is_luld_status :: "status_message \<Rightarrow> bool" where
  "is_luld_status s =
     (let fields = [sg_status_code s, sg_status_message s, sg_reason_code s, sg_reason_message s]
      in token_hits (normalize_tokens (Condition_list fields)) LULD_STATUS_TOKENS \<or>
         list_ex (\<lambda>term. str_contains term (str_upper (str_join '' '' fields))) LULD_STATUS_TOKENS)"

section \<open>The limit-band numbers\<close>

definition is_digit :: "char \<Rightarrow> bool" where
  "is_digit c = (let n = of_char c :: nat in 48 \<le> n \<and> n \<le> 57)"

definition digit_value :: "char \<Rightarrow> pyfloat" where
  "digit_value c = real (of_char c - (48 :: nat))"

definition digits_value :: "string \<Rightarrow> pyfloat" where
  "digits_value ds = foldl (\<lambda>x c. 10 * x + digit_value c) 0 ds"

text \<open>The number at the start of a text, and the text after it.\<close>

definition read_number :: "string \<Rightarrow> pyfloat \<times> string" where
  "read_number s =
     (let whole = takeWhile is_digit s; rest = dropWhile is_digit s
      in case rest of
           c # d # ds \<Rightarrow>
             if c = CHR ''.'' \<and> is_digit d
             then let frac = takeWhile is_digit (d # ds)
                  in (digits_value whole + digits_value frac / 10 ^ length frac, dropWhile is_digit (d # ds))
             else (digits_value whole, rest)
         | _ \<Rightarrow> (digits_value whole, rest))"

definition band_keyword :: "string \<Rightarrow> string option" where
  "band_keyword s =
     first_some
       [case strip_prefix ''limit'' s of None \<Rightarrow> None
        | Some r \<Rightarrow> (let t = dropWhile (\<lambda>c. is_space c \<or> c = CHR ''_'' \<or> c = CHR ''-'') r
                    in first_some [strip_prefix ''up'' t, strip_prefix ''down'' t]),
        strip_prefix ''luld'' s, strip_prefix ''band'' s]"

definition match_band :: "string \<Rightarrow> (pyfloat \<times> string) option" where
  "match_band s =
     (case band_keyword s of
        None \<Rightarrow> None
      | Some r \<Rightarrow> (let t = dropWhile (\<lambda>c. \<not> is_digit c) r in if t = [] then None else Some (read_number t)))"

lemma strip_prefix_shorter: "strip_prefix p s = Some r \<Longrightarrow> length r \<le> length s - length p"
  by (auto simp: strip_prefix_def split: if_splits)

lemma read_number_shorter: "length (snd (read_number s)) \<le> length s"
proof -
  have rest: "length (dropWhile is_digit s) \<le> length s" by (rule length_dropWhile_le)
  show ?thesis
  proof (cases "\<exists>c d ds. dropWhile is_digit s = c # d # ds \<and> c = CHR ''.'' \<and> is_digit d")
    case True
    then obtain d ds where d: "dropWhile is_digit s = CHR ''.'' # d # ds" "is_digit d" by blast
    then show ?thesis using rest length_dropWhile_le [of is_digit ds] by (simp add: read_number_def Let_def)
  next
    case False
    then have "snd (read_number s) = dropWhile is_digit s" by (auto simp: read_number_def Let_def split: list.split)
    then show ?thesis using rest by simp
  qed
qed

lemma band_keyword_shorter:
  assumes "band_keyword s = Some r"
  shows "length r < length s"
proof -
  have prefix: "length r < length u" if "strip_prefix p u = Some r" "p \<noteq> []" for p u
    using that by (cases u) (auto simp: strip_prefix_def split: if_splits)
  let ?t = "\<lambda>u. dropWhile (\<lambda>c. is_space c \<or> c = CHR ''_'' \<or> c = CHR ''-'') u"
  let ?limit = "case strip_prefix ''limit'' s of None \<Rightarrow> None
    | Some u \<Rightarrow> (let t = ?t u in first_some [strip_prefix ''up'' t, strip_prefix ''down'' t])"
  have limit: "length r < length s" if "?limit = Some r"
  proof -
    obtain u where u: "strip_prefix ''limit'' s = Some u" "first_some [strip_prefix ''up'' (?t u), strip_prefix ''down'' (?t u)] = Some r"
      using \<open>?limit = Some r\<close> by (cases "strip_prefix ''limit'' s") (auto simp: Let_def)
    have "length r < length (?t u)"
      using one_of_two [OF first_some_mem [OF u(2)]] by (elim disjE) (erule prefix, simp)+
    then show ?thesis using length_dropWhile_le [of "\<lambda>c. is_space c \<or> c = CHR ''_'' \<or> c = CHR ''-''" u]
        strip_prefix_shorter [OF u(1)] by simp
  qed
  from one_of_three [OF first_some_mem [OF assms [unfolded band_keyword_def]]] show ?thesis
    by (elim disjE) (erule limit, (erule prefix, simp)+)
qed

lemma match_band_shorter:
  assumes "match_band s = Some (x, r)"
  shows "length r < length s"
proof -
  obtain u where u: "band_keyword s = Some u" using assms by (auto simp: match_band_def split: option.splits)
  let ?t = "dropWhile (\<lambda>c. \<not> is_digit c) u"
  have "length r \<le> length ?t" using assms u read_number_shorter [of ?t] by (auto simp: match_band_def Let_def split: if_splits)
  then show ?thesis using band_keyword_shorter [OF u] length_dropWhile_le [of "\<lambda>c. \<not> is_digit c" u] by simp
qed

function band_numbers :: "string \<Rightarrow> pyfloat list" where
  "band_numbers s =
     (case s of
        [] \<Rightarrow> []
      | c # cs \<Rightarrow> (case match_band s of Some (x, after) \<Rightarrow> x # band_numbers after | None \<Rightarrow> band_numbers cs))"
  by pat_completeness auto
termination
  by (relation "measure length") (auto dest: match_band_shorter)

declare band_numbers.simps [simp del]

definition luld_bands :: "string \<Rightarrow> pyfloat list" where
  "luld_bands text = band_numbers (str_lower text)"

section \<open>The guard\<close>

record guard_config =
  gc_max_allowed_spread_pct :: pyfloat
  gc_max_quote_stale_seconds :: pyfloat
  gc_fresh_bar_window_seconds :: pyfloat
  gc_halt_recovery_confirmation_seconds :: pyfloat

definition default_guard_config :: guard_config where
  "default_guard_config =
     \<lparr>gc_max_allowed_spread_pct = 15 / 1000, gc_max_quote_stale_seconds = 5, gc_fresh_bar_window_seconds = 120,
      gc_halt_recovery_confirmation_seconds = 60\<rparr>"

text \<open>What set the halt latch, verbatim.\<close>

datatype halt_trigger = No_trigger | Quote_conditions "string set" | Trade_conditions "string set" | Status_trigger status_message

record symbol_state =
  sy_symbol :: string
  sy_regulatory_halt :: bool
  sy_luld_active :: bool
  sy_luld_upper :: "pyfloat option"
  sy_luld_lower :: "pyfloat option"
  sy_market_status_code :: string
  sy_market_status_message :: string
  sy_last_status_timestamp :: "instant option"
  sy_last_quote_timestamp :: "instant option"
  sy_last_bar_timestamp :: "instant option"
  sy_last_trade_timestamp :: "instant option"
  sy_bid_price :: pyfloat
  sy_ask_price :: pyfloat
  sy_last_trade_price :: pyfloat
  sy_spread_pct :: pyfloat
  sy_quote_conditions :: "string set"
  sy_trade_conditions :: "string set"
  sy_halt_latched_at :: "instant option"
  sy_halt_trigger :: halt_trigger
  sy_halt_clear_candidate_since :: "instant option"

definition new_symbol_state :: "string \<Rightarrow> symbol_state" where
  "new_symbol_state symbol =
     \<lparr>sy_symbol = symbol, sy_regulatory_halt = False, sy_luld_active = False, sy_luld_upper = None, sy_luld_lower = None,
      sy_market_status_code = [], sy_market_status_message = [], sy_last_status_timestamp = None,
      sy_last_quote_timestamp = None, sy_last_bar_timestamp = None, sy_last_trade_timestamp = None, sy_bid_price = 0,
      sy_ask_price = 0, sy_last_trade_price = 0, sy_spread_pct = 0, sy_quote_conditions = {}, sy_trade_conditions = {},
      sy_halt_latched_at = None, sy_halt_trigger = No_trigger, sy_halt_clear_candidate_since = None\<rparr>"

record micro_guard =
  mg_config :: guard_config
  mg_depth_cache :: depth_cache
  mg_states :: "(string, symbol_state) dict"

definition new_micro_guard :: "guard_config \<Rightarrow> depth_cache \<Rightarrow> micro_guard" where
  "new_micro_guard cfg cache = \<lparr>mg_config = cfg, mg_depth_cache = cache, mg_states = []\<rparr>"

definition symbol_state_of :: "micro_guard \<Rightarrow> string \<Rightarrow> symbol_state" where
  "symbol_state_of g symbol = dict_get (mg_states g) symbol (new_symbol_state symbol)"

definition put_state :: "symbol_state \<Rightarrow> string \<Rightarrow> micro_guard \<Rightarrow> micro_guard" where
  "put_state st symbol g = g\<lparr>mg_states := AList.update symbol st (mg_states g)\<rparr>"

definition latch_halt :: "halt_trigger \<Rightarrow> instant option \<Rightarrow> symbol_state \<Rightarrow> symbol_state" where
  "latch_halt trigger t st =
     (let st' = st\<lparr>sy_regulatory_halt := True, sy_halt_clear_candidate_since := None\<rparr>
      in if sy_regulatory_halt st then st' else st'\<lparr>sy_halt_latched_at := t, sy_halt_trigger := trigger\<rparr>)"

definition clear_halt :: "symbol_state \<Rightarrow> symbol_state" where
  "clear_halt st =
     (if \<not> sy_regulatory_halt st then st\<lparr>sy_halt_clear_candidate_since := None\<rparr>
      else st\<lparr>sy_regulatory_halt := False, sy_halt_latched_at := None, sy_halt_trigger := No_trigger,
              sy_halt_clear_candidate_since := None\<rparr>)"

definition note_recovery_evidence :: "guard_config \<Rightarrow> instant \<Rightarrow> string set \<Rightarrow> symbol_state \<Rightarrow> symbol_state" where
  "note_recovery_evidence cfg quote_ts tokens st =
     (if \<not> sy_regulatory_halt st then st\<lparr>sy_halt_clear_candidate_since := None\<rparr>
      else if \<not> (0 < sy_bid_price st \<and> 0 < sy_ask_price st \<and> sy_spread_pct st \<le> gc_max_allowed_spread_pct cfg \<and>
                 \<not> token_hits tokens HALT_CONDITION_TOKENS \<and> \<not> token_hits tokens LULD_CONDITION_TOKENS)
      then st\<lparr>sy_halt_clear_candidate_since := None\<rparr>
      else if sy_halt_clear_candidate_since st = None then st\<lparr>sy_halt_clear_candidate_since := Some quote_ts\<rparr>
      else st)"

definition note_stream_bar :: "string \<Rightarrow> instant \<Rightarrow> micro_guard \<Rightarrow> micro_guard" where
  "note_stream_bar symbol t g =
     (let y = str_upper symbol in put_state ((symbol_state_of g y)\<lparr>sy_last_bar_timestamp := Some t\<rparr>) y g)"

definition quote_spread_pct :: "pyfloat \<Rightarrow> pyfloat \<Rightarrow> pyfloat" where
  "quote_spread_pct bid ask =
     (let mid = (if 0 < bid \<and> 0 < ask then (bid + ask) / 2 else 0) in if 0 < mid then max (ask - bid) 0 / mid else 0)"

definition with_tape :: "conditions \<Rightarrow> string option \<Rightarrow> string set" where
  "with_tape conds tape =
     normalize_tokens conds \<union> (case tape of None \<Rightarrow> {} | Some t \<Rightarrow> if t = [] then {} else {str_upper t})"

definition note_quote ::
  "string \<Rightarrow> pyfloat \<Rightarrow> pyfloat \<Rightarrow> instant \<Rightarrow> conditions \<Rightarrow> string option \<Rightarrow> micro_guard \<Rightarrow> micro_guard" where
  "note_quote symbol bid ask t conds tape g =
     (let y = str_upper symbol; tokens = normalize_tokens conds;
          st = (symbol_state_of g y)
                 \<lparr>sy_last_quote_timestamp := Some t, sy_bid_price := max bid 0, sy_ask_price := max ask 0,
                  sy_spread_pct := quote_spread_pct bid ask, sy_quote_conditions := with_tape conds tape\<rparr>;
          st1 = (if token_hits tokens HALT_CONDITION_TOKENS then latch_halt (Quote_conditions tokens) (Some t) st else st);
          st2 = (if token_hits tokens LULD_CONDITION_TOKENS then st1\<lparr>sy_luld_active := True\<rparr> else st1)
      in put_state (note_recovery_evidence (mg_config g) t tokens st2) y g)"

definition note_trade :: "string \<Rightarrow> pyfloat \<Rightarrow> instant \<Rightarrow> conditions \<Rightarrow> string option \<Rightarrow> micro_guard \<Rightarrow> micro_guard" where
  "note_trade symbol price t conds tape g =
     (let y = str_upper symbol; tokens = normalize_tokens conds;
          st = (symbol_state_of g y)
                 \<lparr>sy_last_trade_timestamp := Some t, sy_last_trade_price := max price 0,
                  sy_trade_conditions := with_tape conds tape\<rparr>;
          st1 = (if token_hits tokens HALT_CONDITION_TOKENS then latch_halt (Trade_conditions tokens) (Some t) st else st)
      in put_state (if token_hits tokens LULD_CONDITION_TOKENS then st1\<lparr>sy_luld_active := True\<rparr> else st1) y g)"

definition band_step :: "pyfloat option \<times> pyfloat option \<Rightarrow> pyfloat \<Rightarrow> pyfloat option \<times> pyfloat option" where
  "band_step = (\<lambda>(lower, upper) x.
     if lower = None then (Some x, upper) else if upper = None then (lower, Some x) else (lower, upper))"

definition given_band :: "pyfloat option \<Rightarrow> pyfloat option \<Rightarrow> pyfloat option" where
  "given_band new old = (case new of Some x \<Rightarrow> if 0 < x then Some x else old | None \<Rightarrow> old)"

definition note_trading_status ::
  "string \<Rightarrow> status_message \<Rightarrow> instant \<Rightarrow> pyfloat option \<Rightarrow> pyfloat option \<Rightarrow> micro_guard \<Rightarrow> micro_guard" where
  "note_trading_status symbol msg t limit_up limit_down g =
     (let y = str_upper symbol; st0 = symbol_state_of g y;
          (lower, upper) = foldl band_step (given_band limit_down (sy_luld_lower st0), given_band limit_up (sy_luld_upper st0))
                             (luld_bands (sg_status_message msg) @ luld_bands (sg_reason_message msg));
          st = st0\<lparr>sy_market_status_code := sg_status_code msg, sy_market_status_message := sg_status_message msg,
                   sy_last_status_timestamp := Some t, sy_luld_upper := upper, sy_luld_lower := lower\<rparr>;
          st1 = (if is_resume_status msg then (clear_halt st)\<lparr>sy_luld_active := False\<rparr>
                 else if is_halt_status msg then latch_halt (Status_trigger msg) (Some t) st
                 else st)
      in put_state (if is_luld_status msg then st1\<lparr>sy_luld_active := True\<rparr> else st1) y g)"

definition maybe_recover_halt :: "guard_config \<Rightarrow> instant \<Rightarrow> bool \<Rightarrow> symbol_state \<Rightarrow> symbol_state" where
  "maybe_recover_halt cfg reference quote_is_stale st =
     (if \<not> sy_regulatory_halt st then st
      else if quote_is_stale \<or> sy_last_quote_timestamp st = None then st\<lparr>sy_halt_clear_candidate_since := None\<rparr>
      else case sy_halt_clear_candidate_since st of
             None \<Rightarrow> st
           | Some since \<Rightarrow>
               if total_seconds (reference - since) < gc_halt_recovery_confirmation_seconds cfg then st else clear_halt st)"

record micro_verdict =
  mv_symbol :: string
  mv_safe_for_entries :: bool
  mv_blocks_entries :: bool
  mv_halt_status :: bool
  mv_luld_active :: bool
  mv_realized_spread_pct :: pyfloat
  mv_stale_quote_detected :: bool
  mv_quote_age_seconds :: "pyfloat option"
  mv_reason :: string

text \<open>Spread, quote time, bid and ask: the cached stream quote where there is one, else the state's own.\<close>

definition quote_view :: "micro_guard \<Rightarrow> string \<Rightarrow> pyfloat \<times> instant option \<times> pyfloat \<times> pyfloat" where
  "quote_view g y =
     (let st = symbol_state_of g y
      in case depth_get y (mg_depth_cache g) of
           Some q \<Rightarrow> (depth_spread_pct q, Some (lq_timestamp q), lq_bid_price q, lq_ask_price q)
         | None \<Rightarrow> (sy_spread_pct st, sy_last_quote_timestamp st, sy_bid_price st, sy_ask_price st))"

definition quote_stale :: "guard_config \<Rightarrow> instant \<Rightarrow> instant option \<Rightarrow> instant option \<Rightarrow> bool" where
  "quote_stale cfg now bar_ts quote_ts =
     (case (bar_ts, quote_ts) of
        (Some b, Some q) \<Rightarrow>
          max (total_seconds (now - b)) 0 \<le> gc_fresh_bar_window_seconds cfg \<and>
          gc_max_quote_stale_seconds cfg < max (total_seconds (now - q)) 0
      | _ \<Rightarrow> False)"

definition luld_breach_of :: "symbol_state \<Rightarrow> pyfloat \<Rightarrow> pyfloat \<Rightarrow> bool" where
  "luld_breach_of st bid ask =
     (case (sy_luld_active st, sy_luld_upper st, sy_luld_lower st) of
        (True, Some upper, Some lower) \<Rightarrow>
          let price = (if 0 < bid \<and> 0 < ask then (bid + ask) / 2
                       else if 0 < sy_last_trade_price st then sy_last_trade_price st else 0)
          in 0 < price \<and> (upper \<le> price \<or> price \<le> lower)
      | _ \<Rightarrow> False)"

definition guard_evaluate :: "string \<Rightarrow> instant \<Rightarrow> micro_guard \<Rightarrow> micro_guard \<times> micro_verdict" where
  "guard_evaluate symbol now g =
     (let y = str_upper symbol; cfg = mg_config g; st = symbol_state_of g y;
          (spread, quote_ts, bid, ask) = quote_view g y;
          age = map_option (\<lambda>q. max (total_seconds (now - q)) 0) quote_ts;
          stale = quote_stale cfg now (sy_last_bar_timestamp st) quote_ts;
          exceeded = gc_max_allowed_spread_pct cfg < spread;
          st' = maybe_recover_halt cfg now (stale \<or> exceeded) st;
          halted = sy_regulatory_halt st';
          luld = sy_luld_active st;
          breach = luld_breach_of st bid ask;
          blocks = (halted \<or> exceeded \<or> stale \<or> luld \<or> breach)
      in (put_state st' y g,
          \<lparr>mv_symbol = y, mv_safe_for_entries = (\<not> blocks), mv_blocks_entries = blocks, mv_halt_status = halted,
           mv_luld_active = (luld \<or> breach), mv_realized_spread_pct = spread, mv_stale_quote_detected = stale,
           mv_quote_age_seconds = age,
           mv_reason = (if halted then ''regulatory_halt'' else if exceeded then ''spread_exceeded''
                        else if stale then ''stale_quote'' else if luld \<or> breach then ''luld_band'' else [])\<rparr>))"

definition guard_blocks_entry_signals :: "string \<Rightarrow> instant \<Rightarrow> micro_guard \<Rightarrow> micro_guard \<times> bool" where
  "guard_blocks_entry_signals symbol now g = (let (g', v) = guard_evaluate symbol now g in (g', mv_blocks_entries v))"

record guard_telemetry =
  gt_unsafe_symbols :: "string list"
  gt_tracked_symbols :: "string list"
  gt_max_allowed_spread_pct :: pyfloat
  gt_max_quote_stale_seconds :: pyfloat

definition telemetry_snapshot :: "(string \<Rightarrow> instant) \<Rightarrow> micro_guard \<Rightarrow> micro_guard \<times> guard_telemetry" where
  "telemetry_snapshot clock g =
     (let symbols = sort (dict_keys (mg_states g));
          (g', unsafe) = foldl (\<lambda>(g, us) y. let (g1, blocked) = guard_blocks_entry_signals y (clock y) g
                                            in (g1, if blocked then us @ [y] else us)) (g, []) symbols
      in (g', \<lparr>gt_unsafe_symbols = unsafe, gt_tracked_symbols = symbols,
               gt_max_allowed_spread_pct = gc_max_allowed_spread_pct (mg_config g),
               gt_max_quote_stale_seconds = gc_max_quote_stale_seconds (mg_config g)\<rparr>))"

section \<open>Feeds\<close>

text \<open>What reaches the guard, in order.\<close>

datatype feed_event =
  Bar_event string instant
| Quote_event string pyfloat pyfloat instant conditions "string option"
| Trade_event string pyfloat instant conditions "string option"
| Status_event string status_message instant "pyfloat option" "pyfloat option"
| Depth_event string pyfloat pyfloat pyfloat pyfloat instant string
| Evaluation string instant

fun guard_step :: "micro_guard \<Rightarrow> feed_event \<Rightarrow> micro_guard" where
  "guard_step g (Bar_event symbol t) = note_stream_bar symbol t g"
| "guard_step g (Quote_event symbol bid ask t conds tape) = note_quote symbol bid ask t conds tape g"
| "guard_step g (Trade_event symbol price t conds tape) = note_trade symbol price t conds tape g"
| "guard_step g (Status_event symbol msg t up down) = note_trading_status symbol msg t up down g"
| "guard_step g (Depth_event symbol bid ask bs as t src) =
     g\<lparr>mg_depth_cache := fst (depth_update symbol bid ask bs as t src (mg_depth_cache g))\<rparr>"
| "guard_step g (Evaluation symbol now) = fst (guard_evaluate symbol now g)"

fun event_symbol :: "feed_event \<Rightarrow> string" where
  "event_symbol (Bar_event symbol t) = str_upper symbol"
| "event_symbol (Quote_event symbol bid ask t conds tape) = str_upper symbol"
| "event_symbol (Trade_event symbol price t conds tape) = str_upper symbol"
| "event_symbol (Status_event symbol msg t up down) = str_upper symbol"
| "event_symbol (Depth_event symbol bid ask bs as t src) = str_upper symbol"
| "event_symbol (Evaluation symbol now) = str_upper symbol"

lemma put_state_get [simp]:
  "symbol_state_of (put_state st y g) z = (if z = y then st else symbol_state_of g z)"
  by (simp add: symbol_state_of_def put_state_def)

lemma put_state_fields [simp]:
  "mg_config (put_state st y g) = mg_config g" "mg_depth_cache (put_state st y g) = mg_depth_cache g"
  by (simp_all add: put_state_def)

lemma evaluate_state:
  "fst (guard_evaluate symbol now g) =
     put_state (maybe_recover_halt (mg_config g) now
        (quote_stale (mg_config g) now (sy_last_bar_timestamp (symbol_state_of g (str_upper symbol))) (fst (snd (quote_view g (str_upper symbol))))
         \<or> gc_max_allowed_spread_pct (mg_config g) < fst (quote_view g (str_upper symbol)))
        (symbol_state_of g (str_upper symbol))) (str_upper symbol) g"
  by (simp add: guard_evaluate_def Let_def split_beta)

lemma step_config [simp]: "mg_config (guard_step g e) = mg_config g"
  by (cases e) (simp_all add: note_stream_bar_def note_quote_def note_trade_def note_trading_status_def evaluate_state Let_def split_beta)

lemma run_config [simp]: "mg_config (foldl guard_step g es) = mg_config g"
  by (induction es arbitrary: g) simp_all

lemma step_other: "event_symbol e \<noteq> y \<Longrightarrow> symbol_state_of (guard_step g e) y = symbol_state_of g y"
  by (cases e) (auto simp: note_stream_bar_def note_quote_def note_trade_def note_trading_status_def evaluate_state Let_def split_beta
      symbol_state_of_def put_state_def)

lemma latch_fields [simp]:
  "sy_regulatory_halt (latch_halt trigger t st)" "sy_halt_clear_candidate_since (latch_halt trigger t st) = None"
  "sy_luld_active (latch_halt trigger t st) = sy_luld_active st"
  by (simp_all add: latch_halt_def Let_def)

lemma clear_fields [simp]:
  "\<not> sy_regulatory_halt (clear_halt st)" "sy_halt_clear_candidate_since (clear_halt st) = None"
  "sy_luld_active (clear_halt st) = sy_luld_active st"
  by (simp_all add: clear_halt_def)

lemma evidence_fields [simp]:
  "sy_regulatory_halt (note_recovery_evidence cfg t tokens st) = sy_regulatory_halt st"
  "sy_luld_active (note_recovery_evidence cfg t tokens st) = sy_luld_active st"
  by (simp_all add: note_recovery_evidence_def)

section \<open>What a recovery rests on\<close>

text \<open>A quote that looks tradeable, and an event that breaks a run of them.\<close>

fun tradeable_quote :: "guard_config \<Rightarrow> string \<Rightarrow> instant \<Rightarrow> feed_event \<Rightarrow> bool" where
  "tradeable_quote cfg y t (Quote_event symbol bid ask ts conds tape) =
     (str_upper symbol = y \<and> ts = t \<and> 0 < bid \<and> 0 < ask \<and> quote_spread_pct bid ask \<le> gc_max_allowed_spread_pct cfg \<and>
      \<not> token_hits (normalize_tokens conds) HALT_CONDITION_TOKENS \<and> \<not> token_hits (normalize_tokens conds) LULD_CONDITION_TOKENS)"
| "tradeable_quote cfg y t _ = False"

text \<open>
  An instant at which the market cannot be observed to trade: the symbol has never been quoted; the
  quote in use (the cached stream quote, else the symbol's own) is wider than allowed; or it is
  older than the limit though the last bar is fresh.
\<close>

definition unobservable :: "micro_guard \<Rightarrow> string \<Rightarrow> instant \<Rightarrow> bool" where
  "unobservable g y now =
     (let st = symbol_state_of g y; cfg = mg_config g;
          (spread, quoted) = (case depth_get y (mg_depth_cache g) of
                            Some q \<Rightarrow> (depth_spread_pct q, Some (lq_timestamp q))
                          | None \<Rightarrow> (sy_spread_pct st, sy_last_quote_timestamp st))
      in sy_last_quote_timestamp st = None \<or> gc_max_allowed_spread_pct cfg < spread
         \<or> (case (sy_last_bar_timestamp st, quoted) of
               (Some b, Some q) \<Rightarrow> max (total_seconds (now - b)) 0 \<le> gc_fresh_bar_window_seconds cfg
                                  \<and> gc_max_quote_stale_seconds cfg < max (total_seconds (now - q)) 0
             | _ \<Rightarrow> False))"

fun breaks_run :: "micro_guard \<Rightarrow> string \<Rightarrow> feed_event \<Rightarrow> bool" where
  "breaks_run g y (Quote_event symbol bid ask ts conds tape) =
     (str_upper symbol = y \<and> \<not> tradeable_quote (mg_config g) y ts (Quote_event symbol bid ask ts conds tape))"
| "breaks_run g y (Trade_event symbol price t conds tape) =
     (str_upper symbol = y \<and> token_hits (normalize_tokens conds) HALT_CONDITION_TOKENS)"
| "breaks_run g y (Status_event symbol msg t up down) =
     (str_upper symbol = y \<and> (is_resume_status msg \<or> is_halt_status msg))"
| "breaks_run g y (Evaluation symbol now) = (str_upper symbol = y \<and> unobservable g y now)"
| "breaks_run g y _ = False"

text \<open>No event of a history breaks the run, each judged in the state it meets.\<close>

fun unbroken :: "micro_guard \<Rightarrow> string \<Rightarrow> feed_event list \<Rightarrow> bool" where
  "unbroken g y [] = True"
| "unbroken g y (e # es) = (\<not> breaks_run g y e \<and> unbroken (guard_step g e) y es)"

definition unbroken_since :: "micro_guard \<Rightarrow> string \<Rightarrow> instant \<Rightarrow> feed_event list \<Rightarrow> bool" where
  "unbroken_since g y t es =
     (\<exists>pre q post. es = pre @ q # post \<and> tradeable_quote (mg_config g) y t q
        \<and> unbroken (foldl guard_step g (pre @ [q])) y post)"

lemma unbroken_snoc: "unbroken g y (es @ [e]) \<longleftrightarrow> unbroken g y es \<and> \<not> breaks_run (foldl guard_step g es) y e"
  by (induction es arbitrary: g) auto

lemma unbroken_now: "tradeable_quote (mg_config g) y t e \<Longrightarrow> unbroken_since g y t (es @ [e])"
  unfolding unbroken_since_def by (intro exI [of _ es] exI [of _ e] exI [of _ "[]"]) simp

lemma unbroken_later:
  assumes "unbroken_since g y t es" "\<not> breaks_run (foldl guard_step g es) y e"
  shows "unbroken_since g y t (es @ [e])"
proof -
  obtain pre q post where q: "es = pre @ q # post" "tradeable_quote (mg_config g) y t q"
    "unbroken (foldl guard_step g (pre @ [q])) y post"
    using assms(1) by (auto simp: unbroken_since_def)
  have "unbroken (foldl guard_step g (pre @ [q])) y (post @ [e])"
    using q(3) assms(2) unfolding unbroken_snoc q(1) by simp
  then show ?thesis unfolding unbroken_since_def using q(1,2)
    by (intro exI [of _ pre] exI [of _ q] exI [of _ "post @ [e]"]) simp
qed

lemma observed_iff:
  "sy_last_quote_timestamp (symbol_state_of g y) = None
     \<or> quote_stale (mg_config g) now (sy_last_bar_timestamp (symbol_state_of g y)) (fst (snd (quote_view g y)))
     \<or> gc_max_allowed_spread_pct (mg_config g) < fst (quote_view g y) \<longleftrightarrow> unobservable g y now"
  by (auto simp: unobservable_def quote_stale_def quote_view_def Let_def split: option.split)

text \<open>Only a halted symbol has a run that counts.\<close>

definition run_counts :: "symbol_state \<Rightarrow> bool" where
  "run_counts st = (sy_halt_clear_candidate_since st \<noteq> None \<longrightarrow> sy_regulatory_halt st)"

lemma run_counts_simps [simp]:
  "run_counts (latch_halt trigger trigger_at st)" "run_counts (clear_halt st)" "run_counts (note_recovery_evidence cfg t tokens st)"
  "run_counts (new_symbol_state y)"
  by (simp_all add: run_counts_def note_recovery_evidence_def new_symbol_state_def)

lemma run_counts_step:
  assumes "run_counts (symbol_state_of g y)"
  shows "run_counts (symbol_state_of (guard_step g e) y)"
proof (cases "event_symbol e = y")
  case False
  then show ?thesis using assms step_other [OF False] by simp
next
  case True
  show ?thesis
  proof (cases e)
    case (Evaluation symbol now)
    then show ?thesis using assms True
      by (auto simp: evaluate_state maybe_recover_halt_def split: option.split; simp add: run_counts_def)
  next
    case (Depth_event symbol bid ask bs as ts src)
    then show ?thesis using assms by (simp add: symbol_state_of_def)
  next
    case (Bar_event symbol t)
    then show ?thesis using assms True by (auto simp: note_stream_bar_def Let_def run_counts_def split: if_splits)
  next
    case (Quote_event symbol bid ask ts conds tape)
    then show ?thesis using assms True by (auto simp: note_quote_def Let_def; simp add: run_counts_def)
  next
    case (Trade_event symbol price t conds tape)
    then show ?thesis using assms True by (auto simp: note_trade_def Let_def; simp add: run_counts_def)
  next
    case (Status_event symbol msg t up down)
    then show ?thesis using assms True
      by (auto simp: note_trading_status_def Let_def split_beta; simp add: run_counts_def)
  qed
qed

text \<open>One step: the candidate of a run is the old one, its run not broken, or the quote just seen.\<close>

lemma candidate_step:
  assumes "sy_halt_clear_candidate_since (symbol_state_of (guard_step g e) y) = Some t" "run_counts (symbol_state_of g y)"
  shows "sy_halt_clear_candidate_since (symbol_state_of g y) = Some t \<and> \<not> breaks_run g y e \<or>
    tradeable_quote (mg_config g) y t e"
proof (cases "event_symbol e = y")
  case False
  then show ?thesis using assms step_other [OF False] by (cases e) auto
next
  case True
  show ?thesis
  proof (cases e)
    case (Quote_event symbol bid ask ts conds tape)
    then show ?thesis using assms True
      by (auto simp: note_quote_def Let_def note_recovery_evidence_def latch_halt_def split: if_splits)
  next
    case (Evaluation symbol now)
    then show ?thesis using assms True observed_iff [of g y now]
      by (auto simp: evaluate_state maybe_recover_halt_def run_counts_def split: if_splits option.splits)
  next
    case (Depth_event symbol bid ask bs as ts src)
    then show ?thesis using assms by (simp add: symbol_state_of_def)
  qed (use assms True in \<open>auto simp: note_stream_bar_def note_trade_def note_trading_status_def Let_def split_beta split: if_splits\<close>)
qed

lemma candidate_run:
  fixes cfg cache
  defines "g0 \<equiv> new_micro_guard cfg cache"
  shows "run_counts (symbol_state_of (foldl guard_step g0 es) y) \<and>
    (\<forall>t. sy_halt_clear_candidate_since (symbol_state_of (foldl guard_step g0 es) y) = Some t \<longrightarrow> unbroken_since g0 y t es)"
proof (induction es rule: rev_induct)
  case Nil
  then show ?case by (simp add: symbol_state_of_def g0_def new_micro_guard_def new_symbol_state_def run_counts_def)
next
  case (snoc e es)
  let ?g = "foldl guard_step g0 es"
  have "unbroken_since g0 y t (es @ [e])"
    if "sy_halt_clear_candidate_since (symbol_state_of (guard_step ?g e) y) = Some t" for t
    using candidate_step [OF that] snoc.IH unbroken_later [of g0 y t es e] unbroken_now [of g0 y t e es] by auto
  then show ?case using run_counts_step [of ?g y e] snoc.IH by simp
qed

text \<open>A halt is lifted by a resume message, or by an evaluation with the run old enough.\<close>

lemma halt_lifted_step:
  assumes "sy_regulatory_halt (symbol_state_of g y)" "\<not> sy_regulatory_halt (symbol_state_of (guard_step g e) y)"
  shows "(\<exists>symbol msg t up down. e = Status_event symbol msg t up down \<and> str_upper symbol = y \<and> is_resume_status msg) \<or>
    (\<exists>symbol now t. e = Evaluation symbol now \<and> str_upper symbol = y \<and>
       sy_halt_clear_candidate_since (symbol_state_of g y) = Some t \<and> \<not> unobservable g y now \<and>
       gc_halt_recovery_confirmation_seconds (mg_config g) \<le> total_seconds (now - t))"
proof (cases "event_symbol e = y")
  case False
  then show ?thesis using assms step_other [OF False] by simp
next
  case True
  show ?thesis
  proof (cases e)
    case (Status_event symbol msg t up down)
    then show ?thesis using assms True by (auto simp: note_trading_status_def Let_def split_beta split: if_splits)
  next
    case (Evaluation symbol now)
    then show ?thesis using assms True observed_iff [of g y now]
      by (auto simp: evaluate_state maybe_recover_halt_def split: if_splits option.splits)
  next
    case (Depth_event symbol bid ask bs as t src)
    then show ?thesis using assms by (simp add: symbol_state_of_def)
  qed (use assms True in \<open>auto simp: note_stream_bar_def note_quote_def note_trade_def Let_def split: if_splits\<close>)
qed

text \<open>
  C35: A regulatory halt is lifted only on evidence. Whatever has been fed to the guard since it was
  made, if a symbol is halted and the next event lifts the halt, then that event is an explicit
  resume message for the symbol, or an evaluation of it at which the market is observable and for
  which a tradeable quote lies at least the confirmation time back, and since that quote no quote
  that was not tradeable, no print with a halt condition, no halt message and no evaluation of the
  symbol at which the market was unobservable (a wide quote, or a stale one under fresh bars) came.
\<close>

theorem halt_lifted_only_on_evidence:
  assumes "g0 = new_micro_guard cfg cache"
    "sy_regulatory_halt (symbol_state_of (foldl guard_step g0 es) y)"
    "\<not> sy_regulatory_halt (symbol_state_of (foldl guard_step g0 (es @ [e])) y)"
  shows "(\<exists>symbol msg t up down. e = Status_event symbol msg t up down \<and> str_upper symbol = y \<and> is_resume_status msg) \<or>
    (\<exists>symbol now t. e = Evaluation symbol now \<and> str_upper symbol = y
       \<and> unbroken_since g0 y t es \<and> \<not> unobservable (foldl guard_step g0 es) y now
       \<and> gc_halt_recovery_confirmation_seconds cfg \<le> total_seconds (now - t))"
proof -
  let ?g = "foldl guard_step g0 es"
  have cfg: "mg_config ?g = cfg" by (simp add: assms(1) new_micro_guard_def)
  have "\<not> sy_regulatory_halt (symbol_state_of (guard_step ?g e) y)" using assms(3) by simp
  from halt_lifted_step [OF assms(2) this] show ?thesis unfolding cfg
  proof (elim disjE exE conjE)
    fix symbol now t
    assume e: "e = Evaluation symbol now" "str_upper symbol = y" "\<not> unobservable ?g y now"
      and since: "sy_halt_clear_candidate_since (symbol_state_of ?g y) = Some t"
      and old: "gc_halt_recovery_confirmation_seconds cfg \<le> total_seconds (now - t)"
    have "unbroken_since g0 y t es" using candidate_run [of cfg cache es y] since unfolding assms(1) by simp
    with e old show ?thesis by (intro disjI2 exI [of _ symbol] exI [of _ now] exI [of _ t]) simp
  qed (rule disjI1, intro exI conjI, assumption+)
qed

section \<open>What blocks entries\<close>

fun resumes :: "string \<Rightarrow> feed_event \<Rightarrow> bool" where
  "resumes y (Status_event symbol msg t up down) = (str_upper symbol = y \<and> is_resume_status msg)"
| "resumes y _ = False"

lemma luld_step:
  assumes "sy_luld_active (symbol_state_of g y)" "\<not> resumes y e"
  shows "sy_luld_active (symbol_state_of (guard_step g e) y)"
proof (cases "event_symbol e = y")
  case False
  then show ?thesis using assms step_other [OF False] by simp
next
  case True
  show ?thesis
  proof (cases e)
    case (Evaluation symbol now)
    then show ?thesis using assms True by (simp add: evaluate_state maybe_recover_halt_def split: option.split)
  next
    case (Depth_event symbol bid ask bs as t src)
    then show ?thesis using assms by (simp add: symbol_state_of_def)
  qed (use assms True in \<open>auto simp: note_stream_bar_def note_quote_def note_trade_def note_trading_status_def Let_def split_beta\<close>)
qed

text \<open>
  C36: A limit-band latch blocks entries until the venue says resume. Once a symbol's latch is set,
  whatever quotes, trades, bars and messages follow, as long as none of them is a resume message
  for the symbol every evaluation of it blocks entries and reports the band.
\<close>

theorem limit_band_blocks_until_resume:
  assumes "sy_luld_active (symbol_state_of g (str_upper symbol))" "list_all (\<lambda>e. \<not> resumes (str_upper symbol) e) es"
  shows "mv_blocks_entries (snd (guard_evaluate symbol now (foldl guard_step g es))) \<and>
    \<not> mv_safe_for_entries (snd (guard_evaluate symbol now (foldl guard_step g es))) \<and>
    mv_luld_active (snd (guard_evaluate symbol now (foldl guard_step g es)))"
proof -
  have "sy_luld_active (symbol_state_of (foldl guard_step g es) (str_upper symbol))"
    using assms by (induction es arbitrary: g) (simp_all add: luld_step)
  then show ?thesis by (simp add: guard_evaluate_def Let_def split_beta)
qed

text \<open>
  A verdict is safe exactly when every check passes, and a symbol reported safe has no reason to be
  blocked.
\<close>

lemma safe_verdict_exact:
  "(mv_safe_for_entries (snd (guard_evaluate symbol now g)) \<longleftrightarrow>
      \<not> sy_regulatory_halt (symbol_state_of (fst (guard_evaluate symbol now g)) (str_upper symbol)) \<and>
      \<not> sy_luld_active (symbol_state_of g (str_upper symbol)) \<and>
      fst (quote_view g (str_upper symbol)) \<le> gc_max_allowed_spread_pct (mg_config g) \<and>
      \<not> quote_stale (mg_config g) now (sy_last_bar_timestamp (symbol_state_of g (str_upper symbol)))
          (fst (snd (quote_view g (str_upper symbol))))) \<and>
   (mv_safe_for_entries (snd (guard_evaluate symbol now g)) \<longleftrightarrow> mv_reason (snd (guard_evaluate symbol now g)) = [])"
proof
  have "\<not> luld_breach_of (symbol_state_of g y) bid ask" if "\<not> sy_luld_active (symbol_state_of g y)" for y bid ask
    using that by (simp add: luld_breach_of_def)
  then show "mv_safe_for_entries (snd (guard_evaluate symbol now g)) \<longleftrightarrow>
      \<not> sy_regulatory_halt (symbol_state_of (fst (guard_evaluate symbol now g)) (str_upper symbol)) \<and>
      \<not> sy_luld_active (symbol_state_of g (str_upper symbol)) \<and>
      fst (quote_view g (str_upper symbol)) \<le> gc_max_allowed_spread_pct (mg_config g) \<and>
      \<not> quote_stale (mg_config g) now (sy_last_bar_timestamp (symbol_state_of g (str_upper symbol)))
          (fst (snd (quote_view g (str_upper symbol))))"
    by (auto simp: guard_evaluate_def Let_def split_beta not_less)
  show "mv_safe_for_entries (snd (guard_evaluate symbol now g)) \<longleftrightarrow> mv_reason (snd (guard_evaluate symbol now g)) = []"
    by (simp add: guard_evaluate_def Let_def split_beta)
qed

text \<open>Routine prints: a message without a halt condition never sets the latch.\<close>

lemma routine_conditions_never_latch:
  assumes "\<not> token_hits (normalize_tokens conds) HALT_CONDITION_TOKENS"
  shows "sy_regulatory_halt (symbol_state_of (note_quote symbol bid ask t conds tape g) y) = sy_regulatory_halt (symbol_state_of g y)"
    "sy_regulatory_halt (symbol_state_of (note_trade symbol price t conds tape g) y) = sy_regulatory_halt (symbol_state_of g y)"
  using assms by (simp_all add: note_quote_def note_trade_def Let_def)

section \<open>Where the guard is defeated\<close>

text \<open>
  Silence lifts a halt. A quote counts as stale only while bars are fresh, so with the whole feed
  silent the run of tradeable quotes, be it one quote long, is confirmed by time alone, however
  old the last quote is.
\<close>

lemma silence_lifts_halt:
  assumes "sy_regulatory_halt (symbol_state_of g y)" "str_upper y = y"
    "sy_halt_clear_candidate_since (symbol_state_of g y) = Some t" "sy_last_quote_timestamp (symbol_state_of g y) \<noteq> None"
    "fst (quote_view g y) \<le> gc_max_allowed_spread_pct (mg_config g)"
    "gc_halt_recovery_confirmation_seconds (mg_config g) \<le> total_seconds (now - t)"
    "case sy_last_bar_timestamp (symbol_state_of g y) of None \<Rightarrow> True
     | Some b \<Rightarrow> gc_fresh_bar_window_seconds (mg_config g) < total_seconds (now - b)"
  shows "\<not> sy_regulatory_halt (symbol_state_of (fst (guard_evaluate y now g)) y)"
proof -
  have "\<not> quote_stale (mg_config g) now (sy_last_bar_timestamp (symbol_state_of g y)) (fst (snd (quote_view g y)))"
    using assms(7) by (auto simp: quote_stale_def split: option.splits)
  then show ?thesis using assms(1-6) by (simp add: evaluate_state maybe_recover_halt_def)
qed

text \<open>A resume message that mentions volume latches the limit band it should release.\<close>

lemma volume_latches_limit_band:
  "sy_luld_active (symbol_state_of (note_trading_status ''QQQ''
     \<lparr>sg_status_code = ''RESUME'', sg_status_message = ''Trading resumed on volume'', sg_reason_code = [], sg_reason_message = []\<rparr>
     0 None None (new_micro_guard default_guard_config [])) ''QQQ'')"
  by code_simp

text \<open>A halt of a company whose name ends in a negation is taken for a denial.\<close>

lemma casino_halt_missed:
  "\<not> is_halt_status \<lparr>sg_status_code = [], sg_status_message = ''CASINO HALTED'', sg_reason_code = [], sg_reason_message = []\<rparr>"
  "is_halt_status \<lparr>sg_status_code = [], sg_status_message = ''RESORT HALTED'', sg_reason_code = [], sg_reason_message = []\<rparr>"
  by code_simp+

text \<open>The first number of a message becomes the lower band, whichever band it names.\<close>

lemma limit_up_becomes_lower_band:
  "sy_luld_lower (symbol_state_of (note_trading_status ''QQQ''
     \<lparr>sg_status_code = [], sg_status_message = ''Limit up 105'', sg_reason_code = [], sg_reason_message = ''Limit down 95''\<rparr>
     0 None None (new_micro_guard default_guard_config [])) ''QQQ'') = Some 105"
  by code_simp

section \<open>Samples\<close>

definition sample_halt_feed :: "feed_event list" where
  "sample_halt_feed =
     [Quote_event ''qqq'' 100 101 0 (Condition_text ''R,H'') None,
      Quote_event ''QQQ'' 100 101 (seconds 5) (Condition_text ''R'') (Some ''C''),
      Trade_event ''QQQ'' 100 (seconds 6) (Condition_list [''M'']) None,
      Quote_event ''QQQ'' 100 101 (seconds 60) No_conditions None]"

theorem halt_lifted_only_on_evidence_witness:
  "\<exists>t. unbroken_since (new_micro_guard default_guard_config []) ''QQQ'' t sample_halt_feed \<and> 60 \<le> total_seconds (seconds 65 - t)"
proof -
  have "sy_regulatory_halt (symbol_state_of (foldl guard_step (new_micro_guard default_guard_config []) sample_halt_feed) ''QQQ'')"
    "\<not> sy_regulatory_halt (symbol_state_of (foldl guard_step (new_micro_guard default_guard_config [])
        (sample_halt_feed @ [Evaluation ''QQQ'' (seconds 65)])) ''QQQ'')"
    by code_simp+
  from halt_lifted_only_on_evidence [OF refl this] show ?thesis by (auto simp: default_guard_config_def)
qed

theorem limit_band_blocks_until_resume_witness:
  "mv_blocks_entries (snd (guard_evaluate ''QQQ'' (seconds 1)
     (foldl guard_step (note_quote ''QQQ'' 100 101 0 (Condition_text ''LU'') None (new_micro_guard default_guard_config [])) sample_halt_feed)))"
proof -
  have "sy_luld_active (symbol_state_of (note_quote ''QQQ'' 100 101 0 (Condition_text ''LU'') None
      (new_micro_guard default_guard_config [])) (str_upper ''QQQ''))"
    "list_all (\<lambda>e. \<not> resumes (str_upper ''QQQ'') e) sample_halt_feed"
    by code_simp+
  from limit_band_blocks_until_resume [OF this] show ?thesis by blast
qed

end
