(* ===== verification/Mean_Reversion.thy ===== *)
theory Mean_Reversion
  imports Rolling_Window
begin

text \<open>
  The mean-reversion strategy: the indicators of \<open>src/math/indicators.py\<close>, the live evaluation of
  \<open>src/strategies/mean_reversion_logic.py\<close> and \<open>src/strategies/mean_reversion.py\<close> over the rolling
  window, and the regime filter, \<open>src/strategies/regime_filter.py\<close>. A moving average that is not a
  number is \<open>None\<close>. Prices are real numbers; the running sums of the sliding-window scan take the
  machine's rounding as a parameter, because it decides their action. The lemmas show that without
  rounding this scan computes what the definitions of mean and deviation say, that the backtest scan with its time stop emits bar by bar
  what the live evaluation emits, that exits pass every filter, and which sessions the regime filter
  admits.
\<close>

section \<open>Indicators\<close>

definition rolling_sma :: "pyfloat list \<Rightarrow> int \<Rightarrow> pyfloat option" where
  "rolling_sma arr period =
     (if int (length arr) < period \<or> period \<le> 0 then None else Some (sum_list (last_n (nat period) arr) / real_of_int period))"

definition rolling_std :: "pyfloat list \<Rightarrow> int \<Rightarrow> pyfloat option" where
  "rolling_std arr period =
     (case rolling_sma arr period of
        None \<Rightarrow> None
      | Some mean \<Rightarrow> Some (sqrt (sum_list (map (\<lambda>x. (x - mean)\<^sup>2) (last_n (nat period) arr)) / real_of_int period)))"

definition compute_atr :: "pyfloat list \<Rightarrow> pyfloat list \<Rightarrow> pyfloat list \<Rightarrow> int \<Rightarrow> pyfloat" where
  "compute_atr highs lows closes period =
     (let n = length closes
      in if int n < period + 1 \<or> period \<le> 0 then 0
         else sum_list (map (\<lambda>i. max (max (highs ! i - lows ! i) \<bar>highs ! i - closes ! (i - 1)\<bar>) \<bar>lows ! i - closes ! (i - 1)\<bar>)
                [n - nat period..<n]) / real_of_int period)"

definition mean_reversion_action ::
  "pyfloat \<Rightarrow> pyfloat option \<Rightarrow> pyfloat option \<Rightarrow> pyfloat \<Rightarrow> pyfloat \<Rightarrow> signal_action" where
  "mean_reversion_action close sma std threshold exit_sigma =
     (case (sma, std) of
        (Some m, Some s) \<Rightarrow>
          if s \<le> 0 then HOLD
          else let z = (close - m) / s
               in if z < - threshold then LONG else if threshold < z then SHORT
                  else if \<bar>z\<bar> < exit_sigma then EXIT else HOLD
      | _ \<Rightarrow> HOLD)"

definition mean_reversion_action_asymmetric ::
  "pyfloat \<Rightarrow> pyfloat option \<Rightarrow> pyfloat option \<Rightarrow> pyfloat \<Rightarrow> pyfloat \<Rightarrow> pyfloat \<Rightarrow> signal_action" where
  "mean_reversion_action_asymmetric close sma std long_threshold short_threshold exit_sigma =
     (case (sma, std) of
        (Some m, Some s) \<Rightarrow>
          if s \<le> 0 then HOLD
          else let z = (close - m) / s
               in if z < - long_threshold then LONG else if short_threshold < z then SHORT
                  else if \<bar>z\<bar> < exit_sigma then EXIT else HOLD
      | _ \<Rightarrow> HOLD)"

definition mean_reversion_action_decoupled ::
  "pyfloat option \<Rightarrow> pyfloat option \<Rightarrow> pyfloat \<Rightarrow> pyfloat \<Rightarrow> pyfloat \<Rightarrow> int \<Rightarrow> signal_action" where
  "mean_reversion_action_decoupled z_long z_short long_threshold short_threshold exit_sigma position_side =
     (case (z_long, z_short) of
        (Some zl, Some zs) \<Rightarrow>
          if position_side = 0
          then if zl < - long_threshold then LONG else if short_threshold < zs then SHORT else HOLD
          else if 0 < position_side then (if \<bar>zl\<bar> < exit_sigma then EXIT else HOLD)
          else if \<bar>zs\<bar> < exit_sigma then EXIT else HOLD
      | _ \<Rightarrow> HOLD)"

definition vwap_bands_last ::
  "pyfloat list \<Rightarrow> pyfloat list \<Rightarrow> pyfloat list \<Rightarrow> pyfloat list \<Rightarrow> int \<Rightarrow> (pyfloat \<times> pyfloat) option" where
  "vwap_bands_last highs lows closes volumes period =
     (let n = length closes
      in if int n < period \<or> period \<le> 0 then None
         else
           let idx = [n - nat period..<n];
               tp = (\<lambda>i. (highs ! i + lows ! i + closes ! i) / 3);
               vol_sum = sum_list (map ((!) volumes) idx)
           in if vol_sum \<le> 0 then None
              else let vwap = sum_list (map (\<lambda>i. tp i * volumes ! i) idx) / vol_sum
                   in Some (vwap, sqrt (sum_list (map (\<lambda>i. volumes ! i * (tp i - vwap)\<^sup>2) idx) / vol_sum)))"

definition vwap_mr_action ::
  "pyfloat \<Rightarrow> (pyfloat \<times> pyfloat) option \<Rightarrow> pyfloat \<Rightarrow> pyfloat \<Rightarrow> int \<Rightarrow> bool \<Rightarrow> pyfloat \<Rightarrow> signal_action" where
  "vwap_mr_action close bands deviation_sigma exit_sigma position_side enable_long long_deviation_sigma =
     (case bands of
        None \<Rightarrow> HOLD
      | Some (vwap, vwstd) \<Rightarrow>
          if vwstd \<le> 0 then HOLD
          else let z = (close - vwap) / vwstd
               in if position_side = 0
                  then if deviation_sigma \<le> z then SHORT
                       else if enable_long \<and> z \<le> - long_deviation_sigma then LONG else HOLD
                  else if \<bar>z\<bar> \<le> exit_sigma then EXIT else HOLD)"

definition ema_last :: "pyfloat list \<Rightarrow> int \<Rightarrow> pyfloat option" where
  "ema_last closes period =
     (if int (length closes) < period \<or> period \<le> 0 then None
      else let alpha = 2 / (real_of_int period + 1)
           in Some (foldl (\<lambda>ema c. alpha * c + (1 - alpha) * ema)
                     (sum_list (take (nat period) closes) / real_of_int period) (drop (nat period) closes)))"

definition VOLUME_CONFIRMATION_RATIO :: pyfloat where "VOLUME_CONFIRMATION_RATIO = 15 / 10"

definition breakout_action ::
  "pyfloat \<Rightarrow> pyfloat list \<Rightarrow> pyfloat list \<Rightarrow> int \<Rightarrow> pyfloat list option \<Rightarrow> int \<Rightarrow> signal_action" where
  "breakout_action close highs lows lookback volumes volume_sma_period =
     (let n = length highs
      in if int n < lookback + 1 \<or> lookback \<le> 0 then HOLD
         else
           let idx = [n - nat lookback - 1..<n - 1];
               max_high = foldl (\<lambda>m i. if m < highs ! i then highs ! i else m) (highs ! hd idx) (tl idx);
               min_low = foldl (\<lambda>m i. if lows ! i < m then lows ! i else m) (lows ! hd idx) (tl idx)
           in if close < min_low then EXIT
              else if max_high < close
              then (case volumes of
                      None \<Rightarrow> LONG
                    | Some vs \<Rightarrow>
                        if vs = [] then LONG
                        else (case rolling_sma (butlast vs) volume_sma_period of
                                None \<Rightarrow> LONG
                              | Some v \<Rightarrow> if 0 < v \<and> last vs < VOLUME_CONFIRMATION_RATIO * v then HOLD else LONG))
              else HOLD)"

definition trend_cross_action :: "pyfloat option \<Rightarrow> pyfloat option \<Rightarrow> signal_action" where
  "trend_cross_action fast_ema slow_ema =
     (case (fast_ema, slow_ema) of
        (Some f, Some s) \<Rightarrow> if s < f then LONG else if f < s then SHORT else HOLD
      | _ \<Rightarrow> HOLD)"

section \<open>Batch scans\<close>

text \<open>What the position bookkeeping of a scan becomes after an action: the side and the bar clock.\<close>

definition after_action :: "signal_action \<Rightarrow> int \<times> int \<Rightarrow> int \<times> int" where
  "after_action code = (\<lambda>(side, held).
     case code of
       LONG \<Rightarrow> (1, if side \<noteq> 1 then 0 else held)
     | SHORT \<Rightarrow> (- 1, if side \<noteq> - 1 then 0 else held)
     | EXIT \<Rightarrow> (0, 0)
     | HOLD \<Rightarrow> (side, held))"

text \<open>Window sum, window sum of squares, side, bars in trade, actions so far.\<close>

type_synonym scan_state = "pyfloat \<times> pyfloat \<times> int \<times> int \<times> signal_action list"

text \<open>
  The running sums of the scan are the one place of this theory where the rounding of the machine's
  floats can change the action: what a sum lost when a close was added it does not get back when the
  close leaves. Every operation on the sums is therefore followed by \<open>fl\<close>, the rounding of the machine.
\<close>

definition scan_asymmetric_step ::
  "(pyfloat \<Rightarrow> pyfloat) \<Rightarrow> pyfloat list \<Rightarrow> nat \<Rightarrow> pyfloat \<Rightarrow> pyfloat \<Rightarrow> pyfloat \<Rightarrow> int \<Rightarrow> scan_state \<Rightarrow> nat \<Rightarrow> scan_state" where
  "scan_asymmetric_step fl closes period lt st ex max_bars = (\<lambda>(ws, wsq, side, held, acts) i.
     let c = closes ! i; ws1 = fl (ws + c); wsq1 = fl (wsq + fl (c * c));
         (ws2, wsq2) = (if period \<le> i then let old = closes ! (i - period) in (fl (ws1 - old), fl (wsq1 - fl (old * old))) else (ws1, wsq1))
     in if i + 1 < period then (ws2, wsq2, side, held, acts @ [HOLD])
        else
          let timing = (0 < max_bars \<and> side \<noteq> 0); held1 = (if timing then held + 1 else held)
          in if timing \<and> max_bars \<le> held1 then (ws2, wsq2, 0, 0, acts @ [EXIT])
             else
               let sma = fl (ws2 / real period); var = fl (fl (wsq2 / real period) - fl (sma * sma));
                   std = fl (sqrt (if var < 0 then 0 else var));
                   code = mean_reversion_action_asymmetric c (Some sma) (Some std) lt st ex;
                   (side2, held2) = (if 0 < max_bars then after_action code (side, held1) else (side, held1))
               in (ws2, wsq2, side2, held2, acts @ [code]))"

definition scan_mean_reversion_signals_asymmetric ::
  "(pyfloat \<Rightarrow> pyfloat) \<Rightarrow> pyfloat list \<Rightarrow> int \<Rightarrow> pyfloat \<Rightarrow> pyfloat \<Rightarrow> pyfloat \<Rightarrow> int \<Rightarrow> signal_action list" where
  "scan_mean_reversion_signals_asymmetric fl closes sma_period lt st ex max_bars =
     (if sma_period \<le> 0 \<or> int (length closes) < sma_period then replicate (length closes) HOLD
      else (case foldl (scan_asymmetric_step fl closes (nat sma_period) lt st ex max_bars) (0, 0, 0, 0, []) [0..<length closes] of
              (_, _, _, _, acts) \<Rightarrow> acts))"

definition scan_mean_reversion_signals ::
  "(pyfloat \<Rightarrow> pyfloat) \<Rightarrow> pyfloat list \<Rightarrow> int \<Rightarrow> pyfloat \<Rightarrow> pyfloat \<Rightarrow> signal_action list" where
  "scan_mean_reversion_signals fl closes sma_period threshold ex =
     scan_mean_reversion_signals_asymmetric fl closes sma_period threshold threshold ex 0"

definition z_score :: "pyfloat \<Rightarrow> pyfloat option \<Rightarrow> pyfloat option \<Rightarrow> pyfloat option" where
  "z_score x sma std = (case (sma, std) of (Some m, Some s) \<Rightarrow> Some ((x - m) / s) | _ \<Rightarrow> None)"

text \<open>\<open>std <= 0.0\<close>, which is false of a value that is not a number.\<close>

definition not_positive :: "pyfloat option \<Rightarrow> bool" where
  "not_positive std = (case std of None \<Rightarrow> False | Some s \<Rightarrow> s \<le> 0)"

definition scan_decoupled_step ::
  "pyfloat list \<Rightarrow> int \<Rightarrow> int \<Rightarrow> pyfloat \<Rightarrow> pyfloat \<Rightarrow> pyfloat \<Rightarrow> int \<Rightarrow> int \<times> int \<times> signal_action list \<Rightarrow> nat
     \<Rightarrow> int \<times> int \<times> signal_action list" where
  "scan_decoupled_step closes pl ps lt st ex max_bars = (\<lambda>(side, held, acts) i.
     if int i < pl - 1 \<or> int i < ps - 1 then (side, held, acts @ [HOLD])
     else
       let timing = (0 < max_bars \<and> side \<noteq> 0); held1 = (if timing then held + 1 else held)
       in if timing \<and> max_bars \<le> held1 then (0, 0, acts @ [EXIT])
          else
            let cl = last_n (nat pl) (take (i + 1) closes); cs = last_n (nat ps) (take (i + 1) closes);
                std_l = rolling_std cl pl; std_s = rolling_std cs ps
            in if not_positive std_l \<or> not_positive std_s then (side, held1, acts @ [HOLD])
               else
                 let code = mean_reversion_action_decoupled (z_score (closes ! i) (rolling_sma cl pl) std_l)
                              (z_score (closes ! i) (rolling_sma cs ps) std_s) lt st ex side;
                     (side2, held2) = after_action code (side, held1)
                 in (side2, held2, acts @ [code]))"

definition scan_mean_reversion_signals_decoupled ::
  "pyfloat list \<Rightarrow> int \<Rightarrow> int \<Rightarrow> pyfloat \<Rightarrow> pyfloat \<Rightarrow> pyfloat \<Rightarrow> int \<Rightarrow> signal_action list" where
  "scan_mean_reversion_signals_decoupled closes pl ps lt st ex max_bars =
     (if max pl ps \<le> 0 \<or> int (length closes) < max pl ps then replicate (length closes) HOLD
      else snd (snd (foldl (scan_decoupled_step closes pl ps lt st ex max_bars) (0, 0, []) [0..<length closes])))"

section \<open>The live evaluation\<close>

record mr_defaults =
  md_symbol :: string
  md_sma_period :: int
  md_long_threshold_sigma :: pyfloat
  md_short_threshold_sigma :: pyfloat
  md_exit_sigma :: pyfloat
  md_max_bars_in_trade :: int
  md_sma_period_long :: "int option"
  md_sma_period_short :: "int option"

text \<open>The keys read of the parameters; a key that is absent is \<open>None\<close>.\<close>

record mr_params =
  mp_threshold_sigma :: "pyfloat option"
  mp_long_threshold_sigma :: "pyfloat option"
  mp_short_threshold_sigma :: "pyfloat option"
  mp_sma_period :: "int option"
  mp_sma_period_long :: "int option"
  mp_sma_period_short :: "int option"
  mp_position_side :: "string option"
  mp_exit_sigma :: "pyfloat option"
  mp_max_bars_in_trade :: "int option"
  mp_bars_in_trade :: "int option"
  mp_in_position :: "bool option"
  mp_price_adjustment :: "pyfloat option"
  mp_window_adjusted :: "bool option"
  mp_corporate_event_halt :: "bool option"
  mp_regime_filter :: "bool option"
  mp_regime_mask_active :: "bool option"

record resolved_params =
  rp_sma_period :: int
  rp_sma_period_long :: int
  rp_sma_period_short :: int
  rp_decoupled :: bool
  rp_long_threshold_sigma :: pyfloat
  rp_short_threshold_sigma :: pyfloat
  rp_exit_sigma :: pyfloat
  rp_max_bars_in_trade :: int
  rp_bars_in_trade :: int
  rp_in_position :: bool
  rp_position_side :: int
  rp_price_adjustment :: pyfloat
  rp_window_adjusted :: bool
  rp_corporate_event_halt :: bool
  rp_regime_filter :: bool
  rp_regime_mask_active :: bool

definition given :: "'a option \<Rightarrow> 'a \<Rightarrow> 'a" where
  "given x d = (case x of Some v \<Rightarrow> v | None \<Rightarrow> d)"

definition side_number :: "string \<Rightarrow> int" where
  "side_number side = (if side = ''long'' then 1 else if side = ''short'' then - 1 else 0)"

definition resolved_params :: "mr_params \<Rightarrow> mr_defaults \<Rightarrow> resolved_params" where
  "resolved_params p d =
     (let coupled = given (mp_sma_period p) (md_sma_period d);
          sma_long = given (mp_sma_period_long p) (or_num (md_sma_period_long d) coupled);
          sma_short = given (mp_sma_period_short p) (or_num (md_sma_period_short d) coupled)
      in \<lparr>rp_sma_period = coupled, rp_sma_period_long = sma_long, rp_sma_period_short = sma_short,
          rp_decoupled = (sma_long \<noteq> sma_short \<or> md_sma_period_long d \<noteq> None \<or> md_sma_period_short d \<noteq> None \<or>
                          mp_sma_period_long p \<noteq> None \<or> mp_sma_period_short p \<noteq> None),
          rp_long_threshold_sigma = given (mp_long_threshold_sigma p) (given (mp_threshold_sigma p) (md_long_threshold_sigma d)),
          rp_short_threshold_sigma = given (mp_short_threshold_sigma p) (given (mp_threshold_sigma p) (md_short_threshold_sigma d)),
          rp_exit_sigma = given (mp_exit_sigma p) (md_exit_sigma d),
          rp_max_bars_in_trade = given (mp_max_bars_in_trade p) (md_max_bars_in_trade d),
          rp_bars_in_trade = given (mp_bars_in_trade p) 0, rp_in_position = given (mp_in_position p) False,
          rp_position_side = side_number (given (mp_position_side p) ''flat''),
          rp_price_adjustment = given (mp_price_adjustment p) 0, rp_window_adjusted = given (mp_window_adjusted p) False,
          rp_corporate_event_halt = given (mp_corporate_event_halt p) False,
          rp_regime_filter = given (mp_regime_filter p) False,
          rp_regime_mask_active = given (mp_regime_mask_active p) True\<rparr>)"

definition warmup_period :: "resolved_params \<Rightarrow> int" where
  "warmup_period p = (if rp_decoupled p then max (rp_sma_period_long p) (rp_sma_period_short p) else rp_sma_period p)"

definition mr_signal :: "mr_defaults \<Rightarrow> string \<Rightarrow> signal_action \<Rightarrow> bar \<Rightarrow> signal" where
  "mr_signal d strategy code latest =
     \<lparr>sig_symbol = md_symbol d, sig_action = code, sig_price = bar_close latest, sig_timestamp = bar_timestamp latest,
      sig_strategy_id = strategy\<rparr>"

text \<open>The action the window calls for, before the filters; \<open>None\<close> where the evaluation returns early.\<close>

definition window_action :: "resolved_params \<Rightarrow> rolling_window \<Rightarrow> pyfloat \<Rightarrow> signal_action option" where
  "window_action p w eval_close =
     (if rp_decoupled p
      then
        let cl = tail_closes (rp_sma_period_long p) w; cs = tail_closes (rp_sma_period_short p) w;
            std_l = rolling_std cl (rp_sma_period_long p); std_s = rolling_std cs (rp_sma_period_short p)
        in if not_positive std_l \<or> not_positive std_s then None
           else Some (mean_reversion_action_decoupled
                  (z_score eval_close (rolling_sma cl (rp_sma_period_long p)) std_l)
                  (z_score eval_close (rolling_sma cs (rp_sma_period_short p)) std_s)
                  (rp_long_threshold_sigma p) (rp_short_threshold_sigma p) (rp_exit_sigma p) (rp_position_side p))
      else
        let cs = tail_closes (rp_sma_period p) w
        in Some (mean_reversion_action_asymmetric eval_close (rolling_sma cs (rp_sma_period p)) (rolling_std cs (rp_sma_period p))
             (rp_long_threshold_sigma p) (rp_short_threshold_sigma p) (rp_exit_sigma p)))"

definition evaluate_mean_reversion :: "rolling_window \<Rightarrow> mr_params \<Rightarrow> mr_defaults \<Rightarrow> string \<Rightarrow> signal option" where
  "evaluate_mean_reversion w params d strategy =
     (let p = resolved_params params d
      in case latest_bar w of
           None \<Rightarrow> None
         | Some latest \<Rightarrow>
             if rp_in_position p \<and> rp_max_bars_in_trade p \<le> rp_bars_in_trade p then Some (mr_signal d strategy EXIT latest)
             else if \<not> is_ready (nat (warmup_period p)) w then None
             else
               (case window_action p w
                       (bar_close latest + (if rp_window_adjusted p then 0 else rp_price_adjustment p)) of
                  None \<Rightarrow> None
                | Some code \<Rightarrow>
                    if code = HOLD then None
                    else if rp_regime_filter p \<and> code = LONG \<and> \<not> rp_regime_mask_active p then None
                    else if rp_corporate_event_halt p \<and> code \<in> {LONG, SHORT} then None
                    else Some (mr_signal d strategy code latest)))"

definition action_code_to_signal :: "string \<Rightarrow> signal_action \<Rightarrow> string \<Rightarrow> pyfloat \<Rightarrow> instant \<Rightarrow> signal option" where
  "action_code_to_signal strategy code symbol price t =
     (if code = HOLD then None
      else Some \<lparr>sig_symbol = symbol, sig_action = code, sig_price = price, sig_timestamp = t, sig_strategy_id = strategy\<rparr>)"

text \<open>The symmetric strategy, live and in batch.\<close>

record simple_params =
  sp_sma_period :: "int option"
  sp_threshold_sigma :: "pyfloat option"
  sp_exit_sigma :: "pyfloat option"
  sp_symbol :: "string option"

definition evaluate_live :: "rolling_window \<Rightarrow> simple_params \<Rightarrow> signal option" where
  "evaluate_live w p =
     (let period = given (sp_sma_period p) 20
      in if \<not> is_ready (nat period) w then None
         else
           let closes = tail_closes period w
           in case latest_bar w of
                None \<Rightarrow> None
              | Some latest \<Rightarrow>
                  action_code_to_signal ''mean_reversion''
                    (mean_reversion_action (bar_close latest) (rolling_sma closes period) (rolling_std closes period)
                       (given (sp_threshold_sigma p) (15 / 10)) (given (sp_exit_sigma p) (1 / 10)))
                    (given (sp_symbol p) ''SPY'') (bar_close latest) (bar_timestamp latest))"

definition generate_signals_batch :: "(pyfloat \<Rightarrow> pyfloat) \<Rightarrow> bar list \<Rightarrow> simple_params \<Rightarrow> signal list" where
  "generate_signals_batch fl bars p =
     (if bars = [] then []
      else
        let rows = sort_key bar_timestamp bars;
            codes = scan_mean_reversion_signals fl (map bar_close rows) (given (sp_sma_period p) 20)
                      (given (sp_threshold_sigma p) (15 / 10)) (given (sp_exit_sigma p) (1 / 10))
        in concat (map2 (\<lambda>code b. case action_code_to_signal ''mean_reversion'' code (given (sp_symbol p) (bar_symbol (hd bars)))
                                        (bar_close b) (bar_timestamp b) of None \<Rightarrow> [] | Some s \<Rightarrow> [s]) codes rows))"

section \<open>The regime filter\<close>

definition DEFAULT_REGIME_SMA_PERIOD :: int where "DEFAULT_REGIME_SMA_PERIOD = 200"

text \<open>The loop of the uptrend sessions: the running sum and the dates admitted so far.\<close>

definition uptrend_step ::
  "('t \<Rightarrow> string) \<Rightarrow> 't list \<Rightarrow> pyfloat list \<Rightarrow> nat \<Rightarrow> pyfloat \<times> string set \<Rightarrow> nat \<Rightarrow> pyfloat \<times> string set" where
  "uptrend_step date_of timestamps closes period = (\<lambda>(running, allowed) i.
     let running' = (if period \<le> i then running + (closes ! i - closes ! (i - period)) else running)
     in (running', if running' / real period < closes ! i then insert (date_of (timestamps ! i)) allowed else allowed))"

definition build_uptrend_session_dates ::
  "('t \<Rightarrow> string) \<Rightarrow> 't list \<Rightarrow> pyfloat list \<Rightarrow> int \<Rightarrow> string set" where
  "build_uptrend_session_dates date_of timestamps closes period =
     (if period \<le> 0 \<or> int (length closes) < period \<or> length timestamps \<noteq> length closes then {}
      else snd (foldl (uptrend_step date_of timestamps closes (nat period))
                  (sum_list (take (nat period) closes), {}) [nat period - 1..<length closes]))"

definition build_regime_mask :: "('t \<Rightarrow> string) \<Rightarrow> 't list \<Rightarrow> string set option \<Rightarrow> bool list" where
  "build_regime_mask date_of timestamps allowed =
     (case allowed of None \<Rightarrow> map (\<lambda>_. True) timestamps | Some ds \<Rightarrow> map (\<lambda>t. date_of t \<in> ds) timestamps)"

definition is_long_entry_regime_allowed :: "('t \<Rightarrow> string) \<Rightarrow> 't \<Rightarrow> string set option \<Rightarrow> bool \<Rightarrow> bool" where
  "is_long_entry_regime_allowed date_of t allowed enabled =
     (if \<not> enabled then True else case allowed of None \<Rightarrow> False | Some ds \<Rightarrow> date_of t \<in> ds)"

definition daily_closes_from_intraday_bars ::
  "('t \<Rightarrow> string) \<Rightarrow> 't list \<Rightarrow> pyfloat list \<Rightarrow> 't list \<times> pyfloat list" where
  "daily_closes_from_intraday_bars date_of timestamps closes =
     (let by_day = foldl (\<lambda>d (t, c). AList.update (date_of t) (t, c) d) [] (zip timestamps closes);
          rows = map snd (sort_key fst by_day)
      in (map fst rows, map snd rows))"

section \<open>Sliding sums\<close>

lemma sum_last_n_snoc:
  fixes f :: "'a \<Rightarrow> real"
  assumes "0 < p"
  shows "sum_list (map f (last_n p (xs @ [x]))) =
    sum_list (map f (last_n p xs)) + f x - (if p \<le> length xs then f (xs ! (length xs - p)) else 0)"
proof (cases "p \<le> length xs")
  case True
  then have "length xs - p < length xs" using assms by simp
  from Cons_nth_drop_Suc [OF this]
  have old: "last_n p xs = xs ! (length xs - p) # drop (Suc (length xs - p)) xs" by (simp add: last_n_def)
  have "last_n p (xs @ [x]) = drop (Suc (length xs - p)) xs @ [x]" using True assms by (simp add: last_n_def Suc_diff_le)
  then show ?thesis using True by (simp add: old)
next
  case False
  then show ?thesis by (simp add: last_n_def)
qed

lemma mean_square_deviation:
  fixes m :: real
  assumes "xs \<noteq> []" "m = sum_list xs / real (length xs)"
  shows "sum_list (map (\<lambda>x. (x - m)\<^sup>2) xs) / real (length xs) = sum_list (map (\<lambda>x. x * x) xs) / real (length xs) - m * m"
proof -
  have "sum_list (map (\<lambda>x. (x - m)\<^sup>2) ys) = sum_list (map (\<lambda>x. x * x) ys) - 2 * m * sum_list ys + real (length ys) * (m * m)" for ys
    by (induction ys) (simp_all add: power2_eq_square algebra_simps)
  moreover have "sum_list xs = m * real (length xs)" using assms by simp
  ultimately have "sum_list (map (\<lambda>x. (x - m)\<^sup>2) xs) =
      sum_list (map (\<lambda>x. x * x) xs) - 2 * m * (m * real (length xs)) + real (length xs) * (m * m)"
    by metis
  then have "sum_list (map (\<lambda>x. (x - m)\<^sup>2) xs) = sum_list (map (\<lambda>x. x * x) xs) - real (length xs) * (m * m)"
    by (simp add: algebra_simps)
  then show ?thesis using assms(1) by (simp add: diff_divide_distrib)
qed

text \<open>The reference scan: mean and deviation of the last bars, computed anew at every bar.\<close>

definition reference_step ::
  "pyfloat list \<Rightarrow> int \<Rightarrow> pyfloat \<Rightarrow> pyfloat \<Rightarrow> pyfloat \<Rightarrow> int \<Rightarrow> int \<times> int \<times> signal_action list \<Rightarrow> nat
     \<Rightarrow> int \<times> int \<times> signal_action list" where
  "reference_step closes period lt st ex max_bars = (\<lambda>(side, held, acts) i.
     if int i + 1 < period then (side, held, acts @ [HOLD])
     else
       let timing = (0 < max_bars \<and> side \<noteq> 0); held1 = (if timing then held + 1 else held)
       in if timing \<and> max_bars \<le> held1 then (0, 0, acts @ [EXIT])
          else
            let code = mean_reversion_action_asymmetric (closes ! i) (rolling_sma (take (i + 1) closes) period)
                         (rolling_std (take (i + 1) closes) period) lt st ex;
                (side2, held2) = (if 0 < max_bars then after_action code (side, held1) else (side, held1))
            in (side2, held2, acts @ [code]))"

definition reference_scan :: "pyfloat list \<Rightarrow> int \<Rightarrow> pyfloat \<Rightarrow> pyfloat \<Rightarrow> pyfloat \<Rightarrow> int \<Rightarrow> signal_action list" where
  "reference_scan closes period lt st ex max_bars =
     snd (snd (foldl (reference_step closes period lt st ex max_bars) (0, 0, []) [0..<length closes]))"

definition sums_of :: "nat \<Rightarrow> pyfloat list \<Rightarrow> pyfloat \<times> pyfloat" where
  "sums_of p xs = (sum_list (last_n p xs), sum_list (map (\<lambda>x. x * x) (last_n p xs)))"

lemma sums_of_snoc:
  assumes "0 < p"
  shows "sums_of p (xs @ [x]) =
    (if p \<le> length xs
     then (fst (sums_of p xs) + x - xs ! (length xs - p), snd (sums_of p xs) + x * x - xs ! (length xs - p) * xs ! (length xs - p))
     else (fst (sums_of p xs) + x, snd (sums_of p xs) + x * x))"
  using sum_last_n_snoc [OF assms, of "\<lambda>x. x" xs x] sum_last_n_snoc [OF assms, of "\<lambda>x. x * x" xs x] by (simp add: sums_of_def)

lemma sliding_deviation:
  assumes "0 < p" "p \<le> length xs"
  shows "rolling_sma xs (int p) = Some (fst (sums_of p xs) / real p)"
    "rolling_std xs (int p) = Some (sqrt (if snd (sums_of p xs) / real p - fst (sums_of p xs) / real p * (fst (sums_of p xs) / real p) < 0 then 0
        else snd (sums_of p xs) / real p - fst (sums_of p xs) / real p * (fst (sums_of p xs) / real p)))"
proof -
  show sma: "rolling_sma xs (int p) = Some (fst (sums_of p xs) / real p)"
    using assms by (simp add: rolling_sma_def sums_of_def)
  let ?ys = "last_n p xs" and ?m = "fst (sums_of p xs) / real p"
  have len: "length ?ys = p" using assms by (simp add: length_last_n)
  then have "?ys \<noteq> []" using assms(1) by auto
  from mean_square_deviation [OF this, of ?m] len
  have var: "sum_list (map (\<lambda>x. (x - ?m)\<^sup>2) ?ys) / real p = snd (sums_of p xs) / real p - ?m * ?m" by (simp add: sums_of_def)
  have "0 \<le> sum_list (map (\<lambda>x. (x - ?m)\<^sup>2) ?ys) / real p" by (auto intro!: divide_nonneg_nonneg sum_list_nonneg)
  then have "sqrt (if snd (sums_of p xs) / real p - ?m * ?m < 0 then 0 else snd (sums_of p xs) / real p - ?m * ?m) = sqrt (sum_list (map (\<lambda>x. (x - ?m)\<^sup>2) ?ys) / real p)"
    by (simp only: var [symmetric] not_less [symmetric] if_False)
  then show "rolling_std xs (int p) = Some (sqrt (if snd (sums_of p xs) / real p - ?m * ?m < 0 then 0 else snd (sums_of p xs) / real p - ?m * ?m))"
    by (simp only: rolling_std_def sma option.case nat_int) simp
qed

lemma scan_step_tracks:
  assumes "0 < p" "k < length closes"
  shows "scan_asymmetric_step (\<lambda>x. x) closes p lt st ex max_bars
      (fst (sums_of p (take k closes)), snd (sums_of p (take k closes)), side, held, acts) k =
    (let (side', held', acts') = reference_step closes (int p) lt st ex max_bars (side, held, acts) k
     in (fst (sums_of p (take (Suc k) closes)), snd (sums_of p (take (Suc k) closes)), side', held', acts'))"
proof -
  let ?xs = "take k closes" and ?c = "closes ! k"
  have take: "take (Suc k) closes = ?xs @ [?c]" using assms(2) by (simp add: take_Suc_conv_app_nth)
  have len: "length ?xs = k" using assms(2) by simp
  have old: "?xs ! (k - p) = closes ! (k - p)" if "p \<le> k" using that assms(1) by simp
  have sums: "(if p \<le> k then let old = closes ! (k - p) in (fst (sums_of p ?xs) + ?c - old, snd (sums_of p ?xs) + ?c * ?c - old * old)
      else (fst (sums_of p ?xs) + ?c, snd (sums_of p ?xs) + ?c * ?c)) = sums_of p (take (Suc k) closes)"
    unfolding take sums_of_snoc [OF assms(1)] len using old by (simp add: Let_def)
  show ?thesis
  proof (cases "Suc k < p")
    case True
    then show ?thesis unfolding scan_asymmetric_step_def prod.case sums [unfolded Let_def] Let_def
      by (simp add: reference_step_def split_beta)
  next
    case False
    then have "p \<le> length (take (Suc k) closes)" using assms(2) by simp
    note dev = sliding_deviation [OF assms(1) this]
    show ?thesis using False unfolding scan_asymmetric_step_def prod.case sums [unfolded Let_def] Let_def
      by (simp add: reference_step_def split_beta Let_def dev)
  qed
qed

lemma scan_tracks_reference:
  assumes "0 < p" "k \<le> length closes"
  shows "foldl (scan_asymmetric_step (\<lambda>x. x) closes p lt st ex max_bars) (0, 0, 0, 0, []) [0..<k] =
    (let (side, held, acts) = foldl (reference_step closes (int p) lt st ex max_bars) (0, 0, []) [0..<k]
     in (fst (sums_of p (take k closes)), snd (sums_of p (take k closes)), side, held, acts))"
  using assms(2)
proof (induction k)
  case 0
  show ?case by (simp add: sums_of_def last_n_def)
next
  case (Suc k)
  obtain side held acts where ref: "foldl (reference_step closes (int p) lt st ex max_bars) (0, 0, []) [0..<k] = (side, held, acts)"
    by (metis prod.exhaust)
  have "foldl (scan_asymmetric_step (\<lambda>x. x) closes p lt st ex max_bars) (0, 0, 0, 0, []) [0..<k] =
      (fst (sums_of p (take k closes)), snd (sums_of p (take k closes)), side, held, acts)"
    using Suc ref by simp
  then show ?case using scan_step_tracks [OF assms(1), of k closes] Suc.prems by (simp add: ref)
qed

text \<open>
  Without rounding the sliding-window scan of the backtest computes what its definitions say: for any
  closes, any positive period that fits and any thresholds, with or without the time stop, the scan
  that adds the newest close and subtracts the oldest emits at every bar the action of the mean and
  the standard deviation computed anew over the last bars, and the clamp of a negative variance is
  never taken. In the machine's floats it is not so: of sixty closes at 100.1 and a period of twenty
  the scan keeps a deviation of some 2e-6 where the one computed anew is 0 up to 3e-14, and exits
  where the other holds.
\<close>

lemma sliding_scan_is_exact:
  assumes "0 < period" "period \<le> int (length closes)"
  shows "scan_mean_reversion_signals_asymmetric (\<lambda>x. x) closes period lt st ex max_bars = reference_scan closes period lt st ex max_bars \<and>
    (max_bars \<le> 0 \<longrightarrow> (\<forall>i < length closes. reference_scan closes period lt st ex max_bars ! i =
      (if int i + 1 < period then HOLD
       else mean_reversion_action_asymmetric (closes ! i) (rolling_sma (take (i + 1) closes) period)
              (rolling_std (take (i + 1) closes) period) lt st ex)))"
proof
  have p: "0 < nat period" "int (nat period) = period" using assms(1) by simp_all
  show "scan_mean_reversion_signals_asymmetric (\<lambda>x. x) closes period lt st ex max_bars = reference_scan closes period lt st ex max_bars"
    using scan_tracks_reference [OF p(1), of "length closes" closes lt st ex max_bars] assms
    by (simp add: scan_mean_reversion_signals_asymmetric_def reference_scan_def p(2) Let_def split_beta)
  show "max_bars \<le> 0 \<longrightarrow> (\<forall>i < length closes. reference_scan closes period lt st ex max_bars ! i =
      (if int i + 1 < period then HOLD
       else mean_reversion_action_asymmetric (closes ! i) (rolling_sma (take (i + 1) closes) period)
              (rolling_std (take (i + 1) closes) period) lt st ex))"
  proof (intro impI)
    assume flat: "max_bars \<le> 0"
    let ?a = "\<lambda>i. if int i + 1 < period then HOLD
       else mean_reversion_action_asymmetric (closes ! i) (rolling_sma (take (i + 1) closes) period)
              (rolling_std (take (i + 1) closes) period) lt st ex"
    have "foldl (reference_step closes period lt st ex max_bars) (0, 0, []) [0..<k] = (0, 0, map ?a [0..<k])" for k
      using flat by (induction k) (simp_all add: reference_step_def Let_def)
    then show "\<forall>i < length closes. reference_scan closes period lt st ex max_bars ! i = ?a i"
      by (simp add: reference_scan_def)
  qed
qed

section \<open>Backtest and live\<close>

definition side_text :: "int \<Rightarrow> string" where
  "side_text side = (if side = 1 then ''long'' else if side = - 1 then ''short'' else ''flat'')"

text \<open>The parameters of a leg with two horizons that is on a side and has held it for some bars.\<close>

definition live_params :: "int \<Rightarrow> int \<Rightarrow> pyfloat \<Rightarrow> pyfloat \<Rightarrow> pyfloat \<Rightarrow> int \<Rightarrow> int \<Rightarrow> int \<Rightarrow> mr_params" where
  "live_params pl ps lt st ex max_bars side held =
     \<lparr>mp_threshold_sigma = None, mp_long_threshold_sigma = Some lt, mp_short_threshold_sigma = Some st, mp_sma_period = None,
      mp_sma_period_long = Some pl, mp_sma_period_short = Some ps, mp_position_side = Some (side_text side),
      mp_exit_sigma = Some ex, mp_max_bars_in_trade = Some max_bars, mp_bars_in_trade = Some held,
      mp_in_position = Some (side \<noteq> 0), mp_price_adjustment = None, mp_window_adjusted = None,
      mp_corporate_event_halt = None, mp_regime_filter = None, mp_regime_mask_active = None\<rparr>"

lemma resolved_live:
  assumes "side \<in> {- 1, 0, 1}"
  shows "resolved_params (live_params pl ps lt st ex max_bars side held) d =
    \<lparr>rp_sma_period = md_sma_period d, rp_sma_period_long = pl, rp_sma_period_short = ps, rp_decoupled = True,
     rp_long_threshold_sigma = lt, rp_short_threshold_sigma = st, rp_exit_sigma = ex, rp_max_bars_in_trade = max_bars,
     rp_bars_in_trade = held, rp_in_position = (side \<noteq> 0), rp_position_side = side, rp_price_adjustment = 0,
     rp_window_adjusted = False, rp_corporate_event_halt = False, rp_regime_filter = False, rp_regime_mask_active = True\<rparr>"
  using assms by (auto simp: resolved_params_def live_params_def given_def Let_def side_text_def side_number_def)

lemma tail_closes_last_n: "0 < period \<Longrightarrow> tail_closes period w = last_n (nat period) (closes_array w)"
  by (auto simp: tail_closes_def last_n_def Let_def)

lemma last_n_suffix: "n \<le> length ys \<Longrightarrow> last_n n (xs @ ys) = last_n n ys"
  by (simp add: last_n_def)

text \<open>The action of a step of the decoupled scan.\<close>

definition step_action :: "int \<times> int \<times> signal_action list \<Rightarrow> signal_action" where
  "step_action s = last (snd (snd s))"

lemma decoupled_prefix:
  "\<exists>code. snd (snd (scan_decoupled_step closes pl ps lt st ex max_bars s i)) = snd (snd s) @ [code]"
  by (cases s) (simp add: scan_decoupled_step_def Let_def split_beta)

lemma decoupled_length: "length (snd (snd (foldl (scan_decoupled_step closes pl ps lt st ex max_bars) (0, 0, []) [0..<k]))) = k"
proof (induction k)
  case (Suc k)
  then show ?case
    using decoupled_prefix [of closes pl ps lt st ex max_bars "foldl (scan_decoupled_step closes pl ps lt st ex max_bars) (0, 0, []) [0..<k]" k]
    by auto
qed simp

lemma after_action_side: "fst s \<in> {- 1, 0, 1} \<Longrightarrow> fst (after_action code s) \<in> {- 1, 0, 1}"
  by (cases code) (auto simp: after_action_def split_beta)

lemma decoupled_step_side:
  assumes "fst s \<in> {- 1, 0, 1}"
  shows "fst (scan_decoupled_step closes pl ps lt st ex max_bars s i) \<in> {- 1, 0, 1}"
proof -
  define P where "P x \<longleftrightarrow> x \<in> {- 1, 0, 1 :: int}" for x
  obtain side held acts where s: "s = (side, held, acts)" by (cases s)
  have P: "P 0" "P side" "P (fst (after_action code (side, k)))" for code k
    using assms after_action_side [of "(side, k)"] by (simp_all add: P_def s)
  have "P (fst (scan_decoupled_step closes pl ps lt st ex max_bars s i))"
    unfolding s scan_decoupled_step_def Let_def by (simp add: split_beta P)
  then show ?thesis by (simp add: P_def)
qed

lemma decoupled_sides:
  "fst (foldl (scan_decoupled_step closes pl ps lt st ex max_bars) (0, 0, []) [0..<k]) \<in> {- 1, 0, 1}"
proof (induction k)
  case (Suc k)
  then show ?case unfolding upt_Suc_append [OF le0] foldl_append foldl.simps by (rule decoupled_step_side)
qed simp

lemma decoupled_nth:
  assumes "i < k"
  shows "snd (snd (foldl (scan_decoupled_step closes pl ps lt st ex max_bars) (0, 0, []) [0..<k])) ! i =
    step_action (foldl (scan_decoupled_step closes pl ps lt st ex max_bars) (0, 0, []) [0..<Suc i])"
  using assms
proof (induction k)
  case (Suc k)
  let ?run = "\<lambda>n. foldl (scan_decoupled_step closes pl ps lt st ex max_bars) (0, 0, []) [0..<n]"
  obtain code where code: "snd (snd (?run (Suc k))) = snd (snd (?run k)) @ [code]"
    using decoupled_prefix [of closes pl ps lt st ex max_bars "?run k" k] by auto
  show ?case
  proof (cases "i = k")
    case True
    then show ?thesis using code decoupled_length [of closes pl ps lt st ex max_bars k] by (simp add: step_action_def nth_append)
  next
    case False
    then show ?thesis using Suc code decoupled_length [of closes pl ps lt st ex max_bars k] by (simp add: nth_append)
  qed
qed simp

text \<open>One bar: the scan's action is the live signal's, from the same side and the same bar clock.\<close>

lemma live_step:
  assumes "0 < pl" "0 < ps" "0 < max_bars" "side \<in> {- 1, 0, 1}" "window_ok w"
    "take (Suc i) closes = pre @ closes_array w" "pl \<le> int (rw_count w)" "ps \<le> int (rw_count w)" "i < length closes"
  shows "evaluate_mean_reversion w (live_params pl ps lt st ex max_bars side (if side = 0 then held else held + 1)) d strategy =
    (let code = step_action (scan_decoupled_step closes pl ps lt st ex max_bars (side, held, acts) i)
     in if code = HOLD then None else Some (mr_signal d strategy code (last (rw_bars w))))"
proof -
  have arr: "closes_array w = map bar_close (rw_bars w)" "rw_count w = length (rw_bars w)"
    using assms(5) by (simp_all add: window_ok_def rings_ok_def holds_def closes_array_def)
  then have count: "length (closes_array w) = rw_count w" by simp
  have ne: "rw_bars w \<noteq> []" using arr assms(1,7) by auto
  have "length (take (Suc i) closes) = Suc i" using assms(9) by simp
  then have "rw_count w \<le> Suc i" using arg_cong [OF assms(6), of length] count by simp
  then have warm: "\<not> int i < pl - 1" "\<not> int i < ps - 1" using assms(7,8) by linarith+
  have "closes ! i = last (take (Suc i) closes)" using assms(9) by (simp add: take_Suc_conv_app_nth)
  also have "\<dots> = last (closes_array w)" using ne by (simp add: assms(6) arr)
  finally have price: "bar_close (last (rw_bars w)) = closes ! i" using ne by (simp add: arr last_map)
  have tails: "last_n (nat pl) (take (Suc i) closes) = tail_closes pl w" "last_n (nat ps) (take (Suc i) closes) = tail_closes ps w"
    using assms(1,2,7,8) count by (simp_all add: assms(6) tail_closes_last_n last_n_suffix)
  have ready: "is_ready (nat (max pl ps)) w" using assms(7,8) by (auto simp: is_ready_def)
  note defs = evaluate_mean_reversion_def resolved_live [OF assms(4)] latest_bar_def ne Let_def warmup_period_def window_action_def
    scan_decoupled_step_def step_action_def warm ready tails price
  show ?thesis using assms(3) by (simp add: defs split_beta)
qed

text \<open>
  C39: The backtest with its time stop emits, bar by bar, what the live strategy emits. For two
  horizons and a positive holding limit: at any bar, let the live evaluation see a window that holds
  the closed bars so far, at least as many as the longer horizon, the side the scan is on and one
  more bar in the trade than the scan has counted. Then it signals exactly the action of the scan at
  that bar, the time stop included, and stays silent exactly when the scan holds.
\<close>

theorem backtest_scan_matches_live:
  assumes "0 < pl" "0 < ps" "0 < max_bars" "i < length closes" "window_ok w"
    "take (Suc i) closes = pre @ closes_array w" "pl \<le> int (rw_count w)" "ps \<le> int (rw_count w)"
    "foldl (scan_decoupled_step closes pl ps lt st ex max_bars) (0, 0, []) [0..<i] = (side, held, acts)"
  shows "evaluate_mean_reversion w (live_params pl ps lt st ex max_bars side (if side = 0 then held else held + 1)) d strategy =
    (let code = scan_mean_reversion_signals_decoupled closes pl ps lt st ex max_bars ! i
     in if code = HOLD then None else Some (mr_signal d strategy code (last (rw_bars w))))"
proof -
  have side: "side \<in> {- 1, 0, 1}" using decoupled_sides [of closes pl ps lt st ex max_bars i] assms(9) by simp
  have "rw_count w \<le> length closes"
    using arg_cong [OF assms(6), of length] assms(4,5) by (simp add: window_ok_def rings_ok_def holds_def closes_array_def)
  then have long: "\<not> (max pl ps \<le> 0 \<or> int (length closes) < max pl ps)" using assms(1,7,8) by linarith
  have "scan_mean_reversion_signals_decoupled closes pl ps lt st ex max_bars ! i =
      step_action (scan_decoupled_step closes pl ps lt st ex max_bars (side, held, acts) i)"
    unfolding scan_mean_reversion_signals_decoupled_def using long decoupled_nth [OF assms(4), of closes pl ps lt st ex max_bars] assms(9)
    by (simp only: if_False) simp
  then show ?thesis using live_step [OF assms(1-3) side assms(5-8,4), of lt st ex held d strategy acts] by simp
qed

section \<open>Filters\<close>

text \<open>
  C40: The regime filter and the corporate halt withhold entries and nothing else. Whatever the window
  and the parameters, the evaluation with the filters on gives the signal it gives with them off,
  except that a long entry is withheld when the filter is on and the mask is not, and long and short
  entries are withheld under the halt; an exit, the time stop's or the window's, always passes.
\<close>

theorem filters_withhold_entries_only:
  "evaluate_mean_reversion w params d strategy =
     (case evaluate_mean_reversion w (params\<lparr>mp_regime_filter := Some False, mp_corporate_event_halt := Some False\<rparr>) d strategy of
        None \<Rightarrow> None
      | Some s \<Rightarrow>
          if sig_action s = LONG \<and> given (mp_regime_filter params) False \<and> \<not> given (mp_regime_mask_active params) True then None
          else if sig_action s \<in> {LONG, SHORT} \<and> given (mp_corporate_event_halt params) False then None
          else Some s)"
proof -
  let ?off = "params\<lparr>mp_regime_filter := Some False, mp_corporate_event_halt := Some False\<rparr>"
  have rp: "resolved_params ?off d = (resolved_params params d)\<lparr>rp_regime_filter := False, rp_corporate_event_halt := False\<rparr>"
    by (simp add: resolved_params_def Let_def given_def)
  have flags: "rp_regime_filter (resolved_params params d) = given (mp_regime_filter params) False"
    "rp_corporate_event_halt (resolved_params params d) = given (mp_corporate_event_halt params) False"
    "rp_regime_mask_active (resolved_params params d) = given (mp_regime_mask_active params) True"
    by (simp_all add: resolved_params_def Let_def)
  have act: "window_action ((resolved_params params d)\<lparr>rp_regime_filter := False, rp_corporate_event_halt := False\<rparr>) w c =
      window_action (resolved_params params d) w c" for c
    by (simp add: window_action_def Let_def)
  have warm: "warmup_period ((resolved_params params d)\<lparr>rp_regime_filter := False, rp_corporate_event_halt := False\<rparr>) =
      warmup_period (resolved_params params d)"
    by (simp add: warmup_period_def)
  define R where "R = resolved_params params d"
  have action: "sig_action (mr_signal d strategy code bar) = code" for code bar by (simp add: mr_signal_def)
  show ?thesis
  proof (cases "latest_bar w")
    case None
    then show ?thesis by (simp add: evaluate_mean_reversion_def Let_def)
  next
    case (Some bar)
    let ?price = "bar_close bar + (if rp_window_adjusted R then 0 else rp_price_adjustment R)"
    have on: "evaluate_mean_reversion w params d strategy =
       (if rp_in_position R \<and> rp_max_bars_in_trade R \<le> rp_bars_in_trade R then Some (mr_signal d strategy EXIT bar)
        else if \<not> is_ready (nat (warmup_period R)) w then None
        else (case window_action R w ?price of None \<Rightarrow> None
              | Some code \<Rightarrow> if code = HOLD then None
                  else if rp_regime_filter R \<and> code = LONG \<and> \<not> rp_regime_mask_active R then None
                  else if rp_corporate_event_halt R \<and> code \<in> {LONG, SHORT} then None else Some (mr_signal d strategy code bar)))"
      unfolding evaluate_mean_reversion_def Some option.case Let_def R_def ..
    have off: "evaluate_mean_reversion w ?off d strategy =
       (if rp_in_position R \<and> rp_max_bars_in_trade R \<le> rp_bars_in_trade R then Some (mr_signal d strategy EXIT bar)
        else if \<not> is_ready (nat (warmup_period R)) w then None
        else (case window_action R w ?price of None \<Rightarrow> None
              | Some code \<Rightarrow> if code = HOLD then None else Some (mr_signal d strategy code bar)))"
      unfolding evaluate_mean_reversion_def Some option.case Let_def rp act warm R_def by (simp split: option.split)
    show ?thesis unfolding on off
      by (cases "window_action R w ?price") (simp_all add: action flags [folded R_def])
  qed
qed

section \<open>Uptrend sessions\<close>

lemma uptrend_run:
  assumes "0 < p" "p \<le> n" "n \<le> length closes"
  shows "foldl (uptrend_step date_of ts closes p) (sum_list (take p closes), {}) [p - 1..<n] =
    (sum_list (last_n p (take n closes)),
     {date_of (ts ! i) | i. p - 1 \<le> i \<and> i < n \<and> sum_list (last_n p (take (Suc i) closes)) / real p < closes ! i})"
  using assms(2,3)
proof (induction n)
  case 0
  then show ?case using assms(1) by simp
next
  case (Suc n)
  define D where "D m = {date_of (ts ! i) | i. p - 1 \<le> i \<and> i < m \<and> sum_list (last_n p (take (Suc i) closes)) / real p < closes ! i}" for m
  have grow: "D (Suc n) = (if sum_list (last_n p (take (Suc n) closes)) / real p < closes ! n then insert (date_of (ts ! n)) (D n) else D n)"
    if "p - 1 \<le> n" using that by (auto simp: less_Suc_eq D_def)
  have "foldl (uptrend_step date_of ts closes p) (sum_list (take p closes), {}) [p - 1..<Suc n] =
      (sum_list (last_n p (take (Suc n) closes)), D (Suc n))"
  proof (cases "p \<le> n")
    case True
    have take: "take (Suc n) closes = take n closes @ [closes ! n]" using Suc.prems by (simp add: take_Suc_conv_app_nth)
    have slide: "sum_list (last_n p (take (Suc n) closes)) = sum_list (last_n p (take n closes)) + (closes ! n - closes ! (n - p))"
      using sum_last_n_snoc [OF assms(1), of "\<lambda>x. x" "take n closes" "closes ! n"] True Suc.prems assms(1) by (simp add: take)
    have "[p - 1..<Suc n] = [p - 1..<n] @ [n]" using True by simp
    then show ?thesis using Suc.IH [folded D_def] True Suc.prems grow by (simp add: uptrend_step_def slide)
  next
    case False
    then have eq: "Suc n = p" using Suc.prems by simp
    have D: "D n = {}" using eq by (auto simp: D_def)
    have "[p - 1..<Suc n] = [n]" using eq by auto
    moreover have "sum_list (last_n p (take (Suc n) closes)) = sum_list (take p closes)" using eq Suc.prems by (simp add: last_n_def)
    moreover have "\<not> p \<le> n" "p - 1 \<le> n" using eq by simp_all
    ultimately show ?thesis using grow by (simp add: uptrend_step_def D)
  qed
  then show ?case by (simp only: D_def)
qed

text \<open>
  The regime filter admits exactly the uptrend sessions. With one timestamp per daily close and at
  least a period of closes, a date is admitted if and only if on some day with that date the close
  lies above the mean of the closes of the last period up to and including that day.
\<close>

theorem uptrend_sessions_exact:
  assumes "0 < period" "period \<le> int (length closes)" "length ts = length closes"
  shows "build_uptrend_session_dates date_of ts closes period =
    {date_of (ts ! i) | i. nat period \<le> Suc i \<and> i < length closes \<and>
       (case rolling_sma (take (Suc i) closes) period of None \<Rightarrow> False | Some m \<Rightarrow> m < closes ! i)}"
proof -
  have p: "0 < nat period" "nat period \<le> length closes" "real (nat period) = real_of_int period" using assms by simp_all
  have sma: "rolling_sma (take (Suc i) closes) period = Some (sum_list (last_n (nat period) (take (Suc i) closes)) / real_of_int period)"
    if "nat period \<le> Suc i" "i < length closes" for i
    using that assms(1) by (simp add: rolling_sma_def min_absorb2)
  have "build_uptrend_session_dates date_of ts closes period =
      {date_of (ts ! i) | i. nat period - 1 \<le> i \<and> i < length closes \<and>
         sum_list (last_n (nat period) (take (Suc i) closes)) / real (nat period) < closes ! i}"
    using assms uptrend_run [OF p(1,2) order_refl, of date_of ts] by (simp add: build_uptrend_session_dates_def)
  also have "\<dots> = {date_of (ts ! i) | i. nat period \<le> Suc i \<and> i < length closes \<and>
       (case rolling_sma (take (Suc i) closes) period of None \<Rightarrow> False | Some m \<Rightarrow> m < closes ! i)}"
    using sma p(3) by (intro Collect_cong) (auto simp: le_diff_conv)
  finally show ?thesis .
qed

text \<open>
  Today's own close decides today's permission: with the closes of the days before unchanged, the
  bars of a day are admitted or not by a close that is known only after the last of them.
\<close>

lemma session_read_from_its_own_close:
  "build_uptrend_session_dates date_of [d1, d2] [c, x] 2 = (if c < x then {date_of d2} else {})"
proof -
  have idx: "[nat 2 - 1..<length [c, x]] = [1]" by (simp add: upt_rec)
  have "(c + x) / 2 < x \<longleftrightarrow> c < x" by (simp add: field_simps)
  then show ?thesis unfolding build_uptrend_session_dates_def idx by (simp add: uptrend_step_def)
qed

section \<open>Samples\<close>

definition sample_live_window :: rolling_window where
  "sample_live_window = foldl window_step sample_window [Append 0 (sample_bar 1 100), Append 0 (sample_bar 2 101)]"

definition sample_mr_defaults :: mr_defaults where
  "sample_mr_defaults =
     \<lparr>md_symbol = ''SPY'', md_sma_period = 20, md_long_threshold_sigma = 2, md_short_threshold_sigma = 2, md_exit_sigma = 1 / 10,
      md_max_bars_in_trade = 8, md_sma_period_long = None, md_sma_period_short = None\<rparr>"

theorem backtest_scan_matches_live_witness:
  "evaluate_mean_reversion sample_live_window (live_params 2 2 2 (1 / 2) (1 / 10) 3 0 0) sample_mr_defaults ''mr'' =
     (let code = scan_mean_reversion_signals_decoupled [100, 101, 90] 2 2 2 (1 / 2) (1 / 10) 3 ! 1
      in if code = HOLD then None else Some (mr_signal sample_mr_defaults ''mr'' code (last (rw_bars sample_live_window))))"
proof -
  have "new_window 2 ''SPY:15Min'' = Inr sample_window"
    by (simp add: sample_window_def new_window_def Let_def)
  then have ok: "window_ok sample_live_window" unfolding sample_live_window_def by (rule window_run_ok)
  have cols: "closes_array sample_live_window = [100, 101]" "rw_count sample_live_window = 2"
    by code_simp+
  have "evaluate_mean_reversion sample_live_window (live_params 2 2 2 (1 / 2) (1 / 10) 3 0 (if (0 :: int) = 0 then 0 else 0 + 1))
      sample_mr_defaults ''mr'' =
     (let code = scan_mean_reversion_signals_decoupled [100, 101, 90] 2 2 2 (1 / 2) (1 / 10) 3 ! 1
      in if code = HOLD then None else Some (mr_signal sample_mr_defaults ''mr'' code (last (rw_bars sample_live_window))))"
    by (rule backtest_scan_matches_live [where i = 1 and pre = "[]" and acts = "[HOLD]"]) (simp_all add: ok cols scan_decoupled_step_def)
  then show ?thesis by simp
qed

theorem uptrend_sessions_exact_witness:
  "''d2'' \<in> build_uptrend_session_dates (\<lambda>t. t) [''d1'', ''d2'', ''d3''] [1, 2, 1] 2 \<and>
   ''d3'' \<notin> build_uptrend_session_dates (\<lambda>t. t) [''d1'', ''d2'', ''d3''] [1, 2, 1] 2"
proof -
  note exact = uptrend_sessions_exact [of 2 "[1, 2, 1]" "[''d1'', ''d2'', ''d3'']" "\<lambda>t. t"]
  have "''d2'' \<in> build_uptrend_session_dates (\<lambda>t. t) [''d1'', ''d2'', ''d3''] [1, 2, 1] 2"
    by (subst exact) (auto simp: rolling_sma_def last_n_def intro!: exI [of _ 1])
  moreover have "''d3'' \<notin> build_uptrend_session_dates (\<lambda>t. t) [''d1'', ''d2'', ''d3''] [1, 2, 1] 2"
    by (subst exact) (auto simp: rolling_sma_def last_n_def less_Suc_eq numeral_eq_Suc)
  ultimately show ?thesis ..
qed

end
