(* ===== verification/Spec2Isabelle.thy ===== *)
theory Spec2Isabelle
  imports Degradation Idempotent_Execution Reserved_Capital Sim_Broker Lifecycle Config_Chain
    Flatten_Protocol Walk_Forward Portfolio_Risk Write_Queue Slo_Monitor Heartbeat Data_Quality
    Fill_Sieve Telemetry_Gate Cold_Start Capacity_Governor Governance_Registry Pre_Flight Portfolio_Coordinator Policy_Lifecycle Cluster_Brain Microstructure_Guard Mean_Reversion
begin

text \<open>
  \<^bold>\<open>The program.\<close> A trading engine and the platform that decides which strategies it may
  trade. Each cycle collects data, scores the legs, asks a stack of safety gates whether an
  order may leave, and sends it through one idempotent order path. Beside the loop run a
  control plane (operator commands on two buses, an escalation ladder, preemption of a cycle
  in flight), a degradation manager driven by service-level verdicts, alerting, durable
  SQLite state for restarts, a lifecycle that promotes and demotes legs, and research tools
  that validate a leg before promotion. Source paths are relative to the repository root.

  \<^bold>\<open>How the parts interact.\<close> Operator commands are staged on the bus (Command_Queue), claimed,
  and turned into an escalation level and an armed preemption latch (Escalation), which the
  heartbeat watchdog (Heartbeat) may also raise. The SLO monitor (Slo_Monitor) judges the
  feeds against the session calendar (Market_Calendar) and drives the degradation manager,
  and the data-quality monitors (Data_Quality) block single instruments. The
  escalation level, the degradation mode (Degradation) and the lifecycle feed the one entry
  authority (Entry_Authority), whose decision guards the submission gate and the broker
  adapter (Idempotent_Execution). What the broker then fills is reconciled into leg memory
  (Fill_Sieve), and its rejects and margin feed the capital gate (Telemetry_Gate). After a
  start each leg waits in the cold-start gate (Cold_Start) until its feed is verified. A hard
  degrade pages through the throttled, capped alert channel (Alert_Channel), persists itself (Governance_Store) and requests the flatten
  cascade (Flatten_Protocol). Contending legs share buying power through the ledger
  (Reserved_Capital). Legs are validated on a simulated broker (Sim_Broker) over purged
  splits with counted trials (Walk_Forward), then live under the lifecycle and its monitors
  (Lifecycle) with pinned configurations (Config_Chain).

  \<^bold>\<open>Which theory models which code.\<close>
  \<^item> Prelude: how Python values are represented, dictionaries, case folding, truncation, the
    locales \<open>invariant_machine\<close>, \<open>latched_machine\<close> and \<open>guarded_latch\<close>. Models: \<open>src/models.py\<close>,
    \<open>src/ingestor/assets.py\<close>, \<open>src/engine/leg_performance.py\<close>. Sql_Table: the SQL the
    stores use, \<open>LIKE\<close> included.
  \<^item> Command_Queue: \<open>src/control/command_queue.py\<close>. State: the local table, the remote table and
    which calls fail. One definition per function; the proofs show that terminal commands change
    only through the unguarded processing mark, that a claim succeeds once until a crash recovery,
    that a poison command fires a bounded number of times, that emergency commands never expire.
  \<^item> Escalation: \<open>src/engine/engine_preemption.py\<close>. Entry_Authority:
    \<open>src/engine/entry_authority.py\<close>, \<open>sizing_authority.py\<close>, \<open>commissioning_gate.py\<close>; the decision is
    shown to refine a precedence table and to be antitone in the gates.
  \<^item> Alert_Channel: \<open>src/alerts/throttle.py\<close>, \<open>src/alerts/outbound_cap.py\<close>; the locale
    \<open>paging_channel\<close>; page spacing, lane isolation and caps over every window.
  \<^item> Governance_Store: \<open>src/persistence/governance_state_store.py\<close>,
    \<open>src/engine/recon_recovery.py\<close>; the locales \<open>governance_vault\<close>, \<open>order_registry\<close> and
    \<open>one_shot_latch\<close> with their interpretations.
  \<^item> Degradation: \<open>src/engine/degradation_manager.py\<close> over the vault and the notifier; how many
    good verdicts recovery takes, that it always ends, what survives a restart.
  \<^item> Idempotent_Execution: \<open>src/execution/idempotent_execution.py\<close> and
    \<open>idempotent_execution_adapter.py\<close>; the locale \<open>execution_broker\<close> is the part of the broker
    protocol the gate relies on, interpreted on the in-memory broker of the repository's tests.
  \<^item> Reserved_Capital: \<open>src/engine/reserved_capital_ledger.py\<close>. Sim_Broker:
    \<open>src/broker/simulated.py\<close>, with the accounting identity of every order.
  \<^item> Lifecycle: \<open>src/lifecycle/state_machine.py\<close>, \<open>demotion_monitors.py\<close>; each monitor is shown
    equivalent to the condition it watches for. Config_Chain: \<open>src/lifecycle/config_hash.py\<close>,
    \<open>hash_chain.py\<close>, \<open>src/persistence/hash_chain_store.py\<close>.
  \<^item> Flatten_Protocol: \<open>src/engine/flatten_protocol.py\<close>, with every broker answer an argument.
  \<^item> Walk_Forward: \<open>src/research/psd/purged_wf.py\<close>, \<open>trial_ledger.py\<close>,
    \<open>src/persistence/trial_ledger_store.py\<close>, \<open>src/engine/bar_freshness.py\<close>.
  \<^item> Rolling_Window: \<open>src/core/rolling_window.py\<close>; the ring buffers are shown to refine the deque
    of closed bars. Portfolio_Risk: \<open>src/engine/portfolio_risk_governor.py\<close> and its store
    \<open>src/persistence/portfolio_risk_state_store.py\<close>; exact drawdowns, clamps and restarts.
  \<^item> Write_Queue: \<open>src/persistence/db_queue.py\<close>, \<open>store_handlers.py\<close>; the locale
    \<open>drain_invariant\<close> lifts what one drain iteration keeps to every flush and to shutdown; no
    write is lost but the superseded risk states and the reconciliation rows of unknown type
    (\<open>reconciliation_store.py\<close>), each is written once when failures are atomic, and where the
    isolation of faults ends.
  \<^item> Market_Calendar: \<open>src/core/market_calendar.py\<close>, with the New York zone rule; the closed-market
    reference is exact. Slo_Monitor: \<open>src/engine/slo_monitor.py\<close>; the severity is exactly the
    worst signal, a closed market is dormant. Heartbeat: \<open>src/persistence/heartbeat_store.py\<close>,
    \<open>src/control/heartbeat_emitter.py\<close>, \<open>heartbeat_watchdog.py\<close>, \<open>liveness_watchdogs.py\<close>; when a
    check trips, and what a recovery takes. Data_Quality: \<open>src/data_quality/monitors.py\<close>; the
    quarantine is a latch (\<open>latched_machine\<close>) only the operator clears.
  \<^item> Fill_Sieve: \<open>src/engine/broker_fill_sieve.py\<close> and the reconciliation functions of
    \<open>execution_adaptor.py\<close>, for every broker; bundles expire, leg memory follows the broker.
    Telemetry_Gate: \<open>src/engine/telemetry_gate.py\<close>; when an emergency is raised and lifted.
  \<^item> Cold_Start: \<open>src/engine/cold_start_gate.py\<close>; the gate's states, its pausable clock, and over
    every history of calls which evidence a fail-safe leg needs before it may enter.
  \<^item> Capacity_Governor: \<open>src/engine/capacity_governor.py\<close>; the turnover account is exact through
    restarts, guarded trading stays within the cap, the impact model is a moving average.
  \<^item> Governance_Registry: \<open>src/engine/governance.py\<close>; the kill-switch registry with its state file is
    shown to refine a set of switches, a release never reports a false success, and the signed
    journal detects changes.
  \<^item> Pre_Flight: \<open>src/engine/pre_flight_reconciliation.py\<close> over the latch, the journal and the
    degradation manager; the opening fill is found, a failed run blocks, a successful one
    converges.
  \<^item> Portfolio_Brain: \<open>src/engine/portfolio_brain.py\<close>; the budgets partition the book, approved entries
    never oppose each other, only entries are withheld, the exposure gate is all or nothing and the
    inventory lock is characterised.
  \<^item> Portfolio_Coordinator: \<open>src/engine/portfolio_coordinator.py\<close> and \<open>src/router/default.py\<close> over the
    brain: what a planned entry has passed, that plans never oppose, that overdue positions are
    liquidated, and the registry's memory.
  \<^item> Policy_Lifecycle: \<open>src/engine/policy_lifecycle.py\<close> over any vault that keeps its rows; no leg becomes
    sovereign but by promotion, a shock strips all authority at once and recovery gives back
    exactly what the shock took.
  \<^item> Cluster_Brain: \<open>src/portfolio/cluster_brain.py\<close> and the resampling of
    \<open>src/core/bootstrap.py\<close> over any generator of random draws; an allocation partitions the book
    within its caps, a demoted leg's budget goes to cash, intervals stay in range and tail evidence
    spans distinct episodes.
  \<^item> Microstructure_Guard: \<open>src/engine/microstructure_guard.py\<close> and \<open>src/ingestor/level1_depth_cache.py\<close>;
    what lifts a halt, what a limit band blocks, when a verdict is safe, and the messages that
    defeat the detection. Depth_Cache holds the quote cache.
  \<^item> Mean_Reversion: \<open>src/math/indicators.py\<close> and \<open>src/strategies/mean_reversion_logic.py\<close>,
    \<open>mean_reversion.py\<close>, \<open>regime_filter.py\<close> over the rolling window; the sliding scan is exact
    where sums do not round (the rounding is a parameter of it), the backtest scan emits what the live evaluation emits, filters withhold entries only.

  \<^bold>\<open>Correspondence.\<close> A class is a record and one definition per method, which takes the object
  last and returns it updated; exceptions and early returns are values; the clock, random
  ids, library functions (SHA-256, JSON, the binomial quantile) and the answers of brokers
  and remote services are arguments. A table is the list of its rows. Floats are reals:
  rounding, NaN and infinities are outside the model, but for the rounding of the sliding sums. Each component's operations are also
  the steps of a machine, on which invariants are proved once through the locales.

  \<^bold>\<open>Termination.\<close> Loops over data are folds or structural recursion. The drain loops of the write
  queue are functions with a measure, the number of staged rows. The only loop that need not
  end, the split generator, is a partial function; that it returns for a positive block size
  is proved, with no bound chosen. No definition uses fuel.

  \<^bold>\<open>What is not modelled.\<close> The network clients (Alpaca, Supabase, ntfy, e-mail), the schedulers
  and process entry points, the dashboards, the ingestors and the statistical research code
  built on NumPy and SciPy: they are I/O or numerics the sources only call. Schema creation,
  file locks and logging are left out of the modelled parts. Parts that carry logic and are
  still to be modelled: the configuration engine.

  The properties below span several components: what the kill switch and a degraded mode do
  to the order path.
\<close>

section \<open>The gates and the order path\<close>

text \<open>The entry context with the degradation field filled from the degradation manager.\<close>

definition with_degradation :: "degradation_manager \<Rightarrow> instant \<Rightarrow> entry_context \<Rightarrow> entry_context" where
  "with_degradation m now ctx =
     ctx\<lparr>degradation_block_new_entries := ds_block_new_entries (current_state now m)\<rparr>"

lemma blocks_iff_degraded: "ds_block_new_entries (current_state now m) \<longleftrightarrow> dm_mode m \<noteq> NORMAL"
  by (cases "dm_mode m") (simp_all add: current_state_def build_state_def Let_def)

lemma refused_send:
  assumes "\<not> allowed d"
  shows "\<not> sent_now (snd (snd (submit sha bsubmit bget i p (Some d) esc b)))
    \<and> fst (submit sha bsubmit bget i p (Some d) esc b) = b"
  using assms by (simp add: submit_def gate_error_def Let_def split: option.splits)

text \<open>
  C4: The kill switch stops every order: in any state the escalation engine can reach at its
  top level, a submission guarded by the entry authority sends nothing and leaves the broker
  as it was, for every broker, intent, strategy and whatever the other gates say.
\<close>

theorem kill_switch_stops_orders:
  assumes "snap = foldl esc_step initial_snapshot es" and "esc_level snap = GLOBAL_FLATTEN_AND_HALT"
  shows "let guard = entry_allowed (with_escalation snap sid ctx);
             r = submit sha bsubmit bget i p (Some guard) snap b
         in \<not> sent_now (snd (snd r)) \<and> fst r = b
            \<and> (bget b (client_order_id sha i) = None
               \<longrightarrow> snd (snd r) = Inl (Entry_blocked guard (in_leg_id i) (in_symbol i)))"
proof -
  let ?g = "entry_allowed (with_escalation snap sid ctx)"
  have "\<not> allowed ?g"
    using top_level_gates(4) [OF assms(2)]
    by (simp add: entry_allowed_def with_escalation_def blocked_by_def)
  with refused_send [of ?g] show ?thesis
    by (simp add: Let_def) (simp add: submit_def gate_error_def Let_def)
qed

theorem kill_switch_stops_orders_witness:
  "fst (submit id (mock_submit id) mock_get demo_intent None
      (Some (entry_allowed (with_escalation (foldl esc_step initial_snapshot
         [Transition GLOBAL_FLATTEN_AND_HALT ''GLOBAL'' None None ''operator'']) ''leg''
         (clear_context (Some ''LONG'')))))
      (foldl esc_step initial_snapshot
         [Transition GLOBAL_FLATTEN_AND_HALT ''GLOBAL'' None None ''operator'']) empty_broker)
   = empty_broker"
proof -
  let ?s = "foldl esc_step initial_snapshot
      [Transition GLOBAL_FLATTEN_AND_HALT ''GLOBAL'' None None ''operator'']"
  have "esc_level ?s = GLOBAL_FLATTEN_AND_HALT" by simp
  from kill_switch_stops_orders [OF refl this, where sid="''leg''" and ctx="clear_context (Some ''LONG'')"
    and sha=id and bsubmit="mock_submit id" and bget=mock_get and i=demo_intent and p=None
    and b=empty_broker]
  show ?thesis unfolding Let_def by (elim conjE)
qed

lemma degraded_gate_refuses:
  assumes "dm_mode m \<noteq> NORMAL" and "action ctx \<in> {Some ''LONG'', Some ''SHORT''}" and "\<not> force_liquidation ctx"
  shows "\<not> allowed (entry_allowed (with_degradation m now ctx))"
  using assms blocks_iff_degraded [of now m]
  by (auto simp: entry_allowed_def with_degradation_def blocked_by_def is_entry_def ENTRY_ACTIONS_def)

text \<open>
  C7: A hard-degraded engine opens nothing until it has earned its way back: from any state of the
  degradation manager that a history of verdicts, resets and restarts reaches, if it is in
  HARD_CRITICAL_DEGRADE without recovery credit, then after any further operations, restarts
  included, with no reset and fewer than nine OK verdicts among them, an order of an opening signal
  that is not a forced liquidation does not reach the broker.
\<close>

theorem degraded_engine_sends_no_entry:
  assumes "m = foldl dm_step (boot [] notifier) ops"
    and "dm_mode m = HARD_CRITICAL_DEGRADE" and "dm_recovery_streak m = 0"
    and "list_all (\<lambda>op. \<not> reset_op op) later" and "length (filter ok_op later) < 9"
    and "action ctx \<in> {Some ''LONG'', Some ''SHORT''}" and "\<not> force_liquidation ctx"
  shows "let m' = foldl dm_step m later;
             r = submit sha bsubmit bget i p (Some (entry_allowed (with_degradation m' now ctx))) esc b
         in dm_mode m' \<noteq> NORMAL \<and> \<not> sent_now (snd (snd r)) \<and> fst r = b"
proof -
  have "dm_ok m" unfolding assms(1) by (rule degradation.inv_run) (rule dm_ok_boot)
  from demanded_ops [OF this assms(4)] assms(2,3,5) have "dm_mode (foldl dm_step m later) \<noteq> NORMAL"
    by (auto simp: demanded_def HARD_RECOVERY_STREAK_def SOFT_RECOVERY_STREAK_def)
  with refused_send [OF degraded_gate_refuses [OF this assms(6,7)]] show ?thesis by (simp add: Let_def)
qed

theorem degraded_engine_sends_no_entry_witness:
  "fst (submit id (mock_submit id) mock_get demo_intent None
      (Some (entry_allowed (with_degradation
         (foldl dm_step (foldl dm_step (boot [] None) [Evaluate (verdict HARD_BREACH) 0 True])
            (replicate 5 (Evaluate (verdict OK) 60 True) @ [Restart, Evaluate (verdict OK) 120 True])) 1
         (clear_context (Some ''LONG''))))) initial_snapshot empty_broker)
   = empty_broker"
proof -
  let ?m = "foldl dm_step (boot [] None) [Evaluate (verdict HARD_BREACH) 0 True]"
  let ?later = "replicate 5 (Evaluate (verdict OK) 60 True) @ [Restart, Evaluate (verdict OK) 120 True]"
  have "dm_mode ?m = HARD_CRITICAL_DEGRADE" "dm_recovery_streak ?m = 0"
    "list_all (\<lambda>op. \<not> reset_op op) ?later" "length (filter ok_op ?later) < 9"
    by code_simp+
  moreover have "action (clear_context (Some ''LONG'')) \<in> {Some ''LONG'', Some ''SHORT''}"
    "\<not> force_liquidation (clear_context (Some ''LONG''))"
    by (simp_all add: clear_context_def)
  ultimately have "let m' = foldl dm_step ?m ?later;
        r = submit id (mock_submit id) mock_get demo_intent None
              (Some (entry_allowed (with_degradation m' 1 (clear_context (Some ''LONG''))))) initial_snapshot empty_broker
      in dm_mode m' \<noteq> NORMAL \<and> \<not> sent_now (snd (snd r)) \<and> fst r = empty_broker"
    by (rule degraded_engine_sends_no_entry [OF refl])
  then show ?thesis unfolding Let_def by (elim conjE)
qed

end
